(* ===== verification/Prelude.thy ===== *)
theory Prelude
  imports Main "HOL-Library.AList"
begin

text \<open>
  What every component of the model shares:
  \<^item> JavaScript strings (\<open>string\<close>, one \<open>char\<close> for one UTF-16 code unit below 256, so that
    \<open>length\<close> counts code units and code points alike) and the string methods the code calls;
  \<^item> JavaScript \<open>Map\<close> objects as association lists in insertion order (\<open>AList.update\<close> keeps
    the position of a present key and appends a new one, as \<open>Map.prototype.set\<close> does);
  \<^item> the facts on numerals, separators and maps that the component proofs share.
\<close>

section \<open>Strings\<close>

definition is_js_space :: "char \<Rightarrow> bool" where
  "is_js_space c \<longleftrightarrow> (let n = of_char c :: nat in
     n = 9 \<or> n = 10 \<or> n = 11 \<or> n = 12 \<or> n = 13 \<or> n = 32 \<or> n = 160)"

definition trim :: "string \<Rightarrow> string" where
  "trim s = rev (dropWhile is_js_space (rev (dropWhile is_js_space s)))"

fun startsWith :: "string \<Rightarrow> string \<Rightarrow> bool" where
  "startsWith s [] = True"
| "startsWith [] (p # ps) = False"
| "startsWith (c # cs) (p # ps) = (c = p \<and> startsWith cs ps)"

fun includesText :: "string \<Rightarrow> string \<Rightarrow> bool" where
  "includesText [] p = (p = [])"
| "includesText (c # cs) p = (startsWith (c # cs) p \<or> includesText cs p)"

fun joinText :: "string \<Rightarrow> string list \<Rightarrow> string" where
  "joinText sep [] = []"
| "joinText sep [x] = x"
| "joinText sep (x # y # ys) = x @ sep @ joinText sep (y # ys)"

fun digitsOfNat :: "nat \<Rightarrow> string" where
  "digitsOfNat n =
     (if n < 10 then [char_of (48 + n)] else digitsOfNat (n div 10) @ [char_of (48 + n mod 10)])"

declare digitsOfNat.simps [simp del]

definition stringOfInt :: "int \<Rightarrow> string" where
  "stringOfInt i = (if i < 0 then CHR ''-'' # digitsOfNat (nat (- i)) else digitsOfNat (nat i))"

text \<open>\<open>Number.isSafeInteger\<close> for a number that is an integer.\<close>

definition isSafeInteger :: "int \<Rightarrow> bool" where
  "isSafeInteger i \<longleftrightarrow> \<bar>i\<bar> \<le> 2 ^ 53 - 1"

definition natOfDigits :: "string \<Rightarrow> nat" where
  "natOfDigits ds = foldl (\<lambda>n c. 10 * n + (of_char c - 48)) 0 ds"

lemma natOfDigits_digitsOfNat: "natOfDigits (digitsOfNat n) = n"
proof (induction n rule: digitsOfNat.induct)
  case (1 n)
  show ?case
  proof (cases "n < 10")
    case True
    then show ?thesis by (simp add: digitsOfNat.simps [of n] natOfDigits_def of_char_of)
  next
    case False
    with 1 have "natOfDigits (digitsOfNat (n div 10)) = n div 10" by simp
    moreover have "n mod 10 < 10" by simp
    ultimately show ?thesis using False
      by (simp add: digitsOfNat.simps [of n] natOfDigits_def of_char_of)
  qed
qed

lemma digitsOfNat_inject [simp]: "digitsOfNat m = digitsOfNat n \<longleftrightarrow> m = n"
  by (metis natOfDigits_digitsOfNat)

lemma digitsOfNat_chars: "c \<in> set (digitsOfNat n) \<Longrightarrow> 48 \<le> (of_char c :: nat) \<and> (of_char c :: nat) \<le> 57"
proof (induction n rule: digitsOfNat.induct)
  case (1 n)
  have m: "(n mod 10 + 48) mod 256 = n mod 10 + 48" by (simp add: mod_less)
  show ?case
  proof (cases "n < 10")
    case True
    with 1(2) show ?thesis by (auto simp: digitsOfNat.simps [of n] of_char_of)
  next
    case False
    with 1 m show ?thesis by (auto simp: digitsOfNat.simps [of n] of_char_of add.commute)
  qed
qed

lemma stringOfInt_pos_inject:
  "0 \<le> i \<Longrightarrow> 0 \<le> j \<Longrightarrow> stringOfInt i = stringOfInt j \<longleftrightarrow> i = j"
  by (auto simp: stringOfInt_def)

lemma startsWith_append [simp]: "startsWith (p @ s) p"
  by (induction p) auto

lemma append_sep_inject:
  "x @ c # u = y @ c # v \<Longrightarrow> c \<notin> set x \<Longrightarrow> c \<notin> set y \<Longrightarrow> x = y \<and> u = v"
proof (induction x arbitrary: y)
  case Nil
  then show ?case by (cases y) auto
next
  case (Cons a x)
  then show ?case by (cases y) auto
qed

text \<open>Joining with a separator that no part contains is injective.\<close>

lemma joinText_sep_inject:
  assumes "length xs = length ys" "\<forall>x \<in> set xs. c \<notin> set x" "\<forall>y \<in> set ys. c \<notin> set y"
    and "joinText [c] xs = joinText [c] ys"
  shows "xs = ys"
  using assms
proof (induction xs ys rule: list_induct2)
  case Nil
  then show ?case by simp
next
  case (Cons x xs y ys)
  show ?case
  proof (cases xs)
    case Nil
    with Cons show ?thesis by (cases ys) auto
  next
    case (Cons x' xs')
    with Cons.hyps obtain y' ys' where ys: "ys = y' # ys'" by (cases ys) auto
    from Cons.prems(3) Cons ys
    have eq: "x @ c # joinText [c] xs = y @ c # joinText [c] ys" by simp
    from Cons.prems(1,2) have "c \<notin> set x" "c \<notin> set y" by auto
    with eq have "x = y \<and> joinText [c] xs = joinText [c] ys"
      by (rule append_sep_inject)
    with Cons.IH Cons.prems show ?thesis by auto
  qed
qed

section \<open>Maps in insertion order\<close>

type_synonym 'v jsmap = "(string \<times> 'v) list"

abbreviation mapGet :: "'v jsmap \<Rightarrow> string \<Rightarrow> 'v option" where
  "mapGet m k \<equiv> map_of m k"

abbreviation mapSet :: "string \<Rightarrow> 'v \<Rightarrow> 'v jsmap \<Rightarrow> 'v jsmap" where
  "mapSet k v m \<equiv> AList.update k v m"

definition mapHas :: "'v jsmap \<Rightarrow> string \<Rightarrow> bool" where
  "mapHas m k = (case map_of m k of None \<Rightarrow> False | Some _ \<Rightarrow> True)"

lemma mapHas_iff: "mapHas m k \<longleftrightarrow> (\<exists>v. mapGet m k = Some v)"
  by (simp add: mapHas_def split: option.splits)

lemma not_mapHas_iff: "\<not> mapHas m k \<longleftrightarrow> mapGet m k = None"
  by (simp add: mapHas_def split: option.splits)

lemma mapHas_update [simp]: "mapHas (mapSet k v m) k' \<longleftrightarrow> k' = k \<or> mapHas m k'"
  by (simp add: mapHas_def update_conv')

lemma mapHas_Nil [simp]: "\<not> mapHas [] k"
  by (simp add: mapHas_def)

text \<open>\<open>new Map(entries)\<close>.\<close>

definition mapFromEntries :: "(string \<times> 'v) list \<Rightarrow> 'v jsmap" where
  "mapFromEntries es = foldl (\<lambda>m (k, v). mapSet k v m) [] es"

lemma mapFromEntries_snoc [simp]:
  "mapFromEntries (es @ [e]) = mapSet (fst e) (snd e) (mapFromEntries es)"
  by (simp add: mapFromEntries_def split: prod.splits)

lemma mapFromEntries_Nil [simp]: "mapFromEntries [] = []"
  by (simp add: mapFromEntries_def)

lemma update_fresh: "k \<notin> fst ` set m \<Longrightarrow> AList.update k v m = m @ [(k, v)]"
  by (induction m) auto

lemma keys_update [simp]: "fst ` set (AList.update k v m) = insert k (fst ` set m)"
  by (induction m) auto

lemma mapFromEntries_distinct:
  "distinct (map fst es) \<Longrightarrow> mapFromEntries es = es"
proof (induction es rule: rev_induct)
  case Nil
  then show ?case by simp
next
  case (snoc e es)
  obtain k v where e: "e = (k, v)" by (cases e)
  from snoc have "mapFromEntries es = es" and "k \<notin> fst ` set es" by (auto simp: e)
  then show ?case by (simp add: e update_fresh)
qed

lemma mapGet_mapFromEntries:
  "mapGet (mapFromEntries es) k = map_of (rev es) k"
  by (induction es rule: rev_induct) (auto simp: update_conv' split: prod.splits)

lemma distinct_mapFromEntries [simp]: "distinct (map fst (mapFromEntries es))"
  by (induction es rule: rev_induct) (auto simp: distinct_update split: prod.splits)

lemma set_keys_mapFromEntries [simp]: "fst ` set (mapFromEntries es) = fst ` set es"
  by (induction es rule: rev_induct) simp_all

end
