(* ===== verification/Effects.thy ===== *)
theory Effects
  imports Prelude
begin

text \<open>
  Thrown values and effectful programs. An \<open>async\<close> function of the source that awaits calls one
  after the other is a program of type \<open>('s, 'a) prog\<close>: it takes the state of the world it
  touches and returns the thrown value or the result together with the new state. Messages of
  errors are not modelled (no decision of the modelled code depends on them); codes, causes and
  the lists of ids that the code inspects are.
\<close>

section \<open>Thrown values\<close>

datatype repository_error_code =
    DUPLICATE_RECORD | REVISION_CONFLICT | INVALID_STATE_TRANSITION | ATTEMPT_NUMBER_CONFLICT
  | ATTEMPT_TERMINAL | ATTEMPT_LIFECYCLE_VIOLATION | AMBIGUOUS_WRITE | RECORD_NOT_FOUND
  | MULTIPLE_RECORDS | UNIQUE_KEY_TOO_LONG | REMOTE_ERROR | AUDIT_CONFLICT

datatype network_lock_error_code =
    LOCK_CONFLICT | LOCK_UNAVAILABLE | LEASE_TOKEN_MISMATCH | LEASE_REVISION_MISMATCH
  | LEASE_REVISION_CONFLICT

datatype network_lock_recovery_error_code =
    INVALID_ARGUMENT | LOCK_NOT_FOUND | LOCK_READ_FAILED | OWNER_MISMATCH | LEASE_STILL_ACTIVE
  | STOP_NOT_CONFIRMED | HEARTBEAT_ADVANCED | RECOVERY_REVISION_CONFLICT | RELEASE_UNCONFIRMED | AUDIT_FAILED

text \<open>
  One constructor per error class; the \<open>string\<close> of a constructor is the \<open>code\<close> property where
  the class types it as a string. The optional error is \<open>causeDetail\<close> or \<open>cause\<close>.
\<close>

datatype js_error =
    RepositoryError repository_error_code "js_error option"
  | KintoneTransportError
  | KintoneApiError int "string option"
  | NetworkLockError network_lock_error_code "js_error option"
  | NetworkLockRecoveryError network_lock_recovery_error_code
  | CanonicalKeyError string string
  | DescendantsError string
  | CancelRequestError string
  | ResolveNodeError string
  | JobLockAuditError string
  | EnsureRunError string "string list" "js_error option"
  | ReconciliationRequiredError "(string \<times> string) list"
  | SchedulerLeaseInterruptedError bool "js_error option"
  | RequestValidationError "(string \<times> string) list"
  | InputPathError string
  | OutputPathError
  | CodedError string
  | AggregateError "js_error list" "js_error option"
  | PlainError string

section \<open>Programs\<close>

type_synonym ('s, 'a) prog = "'s \<Rightarrow> (js_error + 'a) \<times> 's"

definition retP :: "'a \<Rightarrow> ('s, 'a) prog" where
  "retP x = (\<lambda>s. (Inr x, s))"

definition throwP :: "js_error \<Rightarrow> ('s, 'a) prog" where
  "throwP e = (\<lambda>s. (Inl e, s))"

definition bindP :: "('s, 'a) prog \<Rightarrow> ('a \<Rightarrow> ('s, 'b) prog) \<Rightarrow> ('s, 'b) prog" where
  "bindP m k = (\<lambda>s. case m s of (Inl e, s') \<Rightarrow> (Inl e, s') | (Inr x, s') \<Rightarrow> k x s')"

text \<open>\<open>try { m } catch (error) { h }\<close>\<close>

definition catchP :: "('s, 'a) prog \<Rightarrow> (js_error \<Rightarrow> ('s, 'a) prog) \<Rightarrow> ('s, 'a) prog" where
  "catchP m h = (\<lambda>s. case m s of (Inl e, s') \<Rightarrow> h e s' | (Inr x, s') \<Rightarrow> (Inr x, s'))"

text \<open>\<open>try { m }\<close> with the outcome kept as a value; never throws.\<close>

definition attemptP :: "('s, 'a) prog \<Rightarrow> ('s, js_error + 'a) prog" where
  "attemptP m = (\<lambda>s. case m s of (r, s') \<Rightarrow> (Inr r, s'))"

definition whenP :: "bool \<Rightarrow> ('s, unit) prog \<Rightarrow> ('s, unit) prog" where
  "whenP b m = (if b then m else retP ())"

definition readP :: "('s \<Rightarrow> 'a) \<Rightarrow> ('s, 'a) prog" where
  "readP f = (\<lambda>s. (Inr (f s), s))"

definition writeP :: "('s \<Rightarrow> 's) \<Rightarrow> ('s, unit) prog" where
  "writeP f = (\<lambda>s. (Inr (), f s))"

definition liftP :: "js_error + 'a \<Rightarrow> ('s, 'a) prog" where
  "liftP r = (\<lambda>s. (r, s))"

text \<open>A loop over a list that threads an accumulator and stops at the first thrown value.\<close>

fun foldP :: "('x \<Rightarrow> 'a \<Rightarrow> ('s, 'a) prog) \<Rightarrow> 'x list \<Rightarrow> 'a \<Rightarrow> ('s, 'a) prog" where
  "foldP f [] a = retP a"
| "foldP f (x # xs) a = bindP (f x a) (\<lambda>a'. foldP f xs a')"

lemma run_simps [simp]:
  "retP x s = (Inr x, s)"
  "throwP e s = (Inl e, s)"
  "readP f s = (Inr (f s), s)"
  "writeP g s = (Inr (), g s)"
  "liftP r s = (r, s)"
  by (simp_all add: retP_def throwP_def readP_def writeP_def liftP_def)

lemma bindP_run: "bindP m k s = (case m s of (Inl e, s') \<Rightarrow> (Inl e, s') | (Inr x, s') \<Rightarrow> k x s')"
  by (simp add: bindP_def)

lemma bindP_Inr [simp]: "m s = (Inr x, s') \<Longrightarrow> bindP m k s = k x s'"
  and bindP_Inl [simp]: "m s = (Inl e, s') \<Longrightarrow> bindP m k s = (Inl e, s')"
  by (simp_all add: bindP_def)

lemma catchP_Inr [simp]: "m s = (Inr x, s') \<Longrightarrow> catchP m h s = (Inr x, s')"
  and catchP_Inl [simp]: "m s = (Inl e, s') \<Longrightarrow> catchP m h s = h e s'"
  by (simp_all add: catchP_def)

lemma attemptP_run [simp]: "attemptP m s = (Inr (fst (m s)), snd (m s))"
  by (simp add: attemptP_def split: prod.splits)

lemma whenP_run [simp]: "whenP b m s = (if b then m s else (Inr (), s))"
  by (simp add: whenP_def)

lemma bindP_cases:
  assumes "bindP m k s = (r, t)"
  obtains e where "m s = (Inl e, t)" "r = Inl e"
  | x s' where "m s = (Inr x, s')" "k x s' = (r, t)"
  using assms by (auto simp: bindP_def split: prod.splits sum.splits)

lemma bindP_Inr_iff: "bindP m k s = (Inr r, t) \<longleftrightarrow> (\<exists>x s'. m s = (Inr x, s') \<and> k x s' = (Inr r, t))"
  by (auto simp: bindP_def split: prod.splits sum.splits)

text \<open>Monad laws.\<close>

lemma bindP_retP [simp]: "bindP (retP x) k = k x"
  by (rule ext) simp

lemma bindP_throwP [simp]: "bindP (throwP e) k = throwP e"
  by (rule ext) (simp add: throwP_def bindP_def)

lemma bindP_right_unit [simp]: "bindP m retP = m"
  by (rule ext) (simp add: bindP_def split: prod.splits sum.splits)

lemma bindP_assoc: "bindP (bindP m k) l = bindP m (\<lambda>x. bindP (k x) l)"
  by (rule ext) (simp add: bindP_def split: prod.splits sum.splits)

section \<open>Local variables\<close>

text \<open>
  Variables of a function that its \<open>catch\<close> or \<open>finally\<close> block reads after a throw: the program runs over the world
  and a record of these variables, and a throw keeps them.
\<close>

definition world :: "('s, 'a) prog \<Rightarrow> ('s \<times> 'l, 'a) prog" where
  "world m = (\<lambda>(s, l). case m s of (r, s') \<Rightarrow> (r, (s', l)))"

definition getL :: "('l \<Rightarrow> 'a) \<Rightarrow> ('s \<times> 'l, 'a) prog" where
  "getL f = readP (\<lambda>(s, l). f l)"

definition setL :: "('l \<Rightarrow> 'l) \<Rightarrow> ('s \<times> 'l, unit) prog" where
  "setL f = writeP (\<lambda>(s, l). (s, f l))"

section \<open>What every run of a program does to the state\<close>

definition guarantees :: "('s \<Rightarrow> 's \<Rightarrow> bool) \<Rightarrow> ('s, 'a) prog \<Rightarrow> bool" where
  "guarantees T m \<longleftrightarrow> (\<forall>s. T s (snd (m s)))"

named_theorems guarantees_intro

lemma guaranteesD: "guarantees T m \<Longrightarrow> m s = (r, t) \<Longrightarrow> T s t"
  unfolding guarantees_def by (metis snd_conv)

locale state_order =
  fixes T :: "'s \<Rightarrow> 's \<Rightarrow> bool"
  assumes T_refl: "T s s"
    and T_trans: "T s t \<Longrightarrow> T t u \<Longrightarrow> T s u"
begin

lemma guarantees_pure [guarantees_intro]:
  "guarantees T (retP x)" "guarantees T (throwP e)" "guarantees T (readP f)" "guarantees T (liftP r)"
  by (simp_all add: guarantees_def T_refl)

lemma guarantees_bindP [guarantees_intro]:
  "guarantees T m \<Longrightarrow> (\<And>x. guarantees T (k x)) \<Longrightarrow> guarantees T (bindP m k)"
  unfolding guarantees_def bindP_def
  by (auto split: prod.splits sum.splits) (metis T_trans snd_conv)+

lemma guarantees_catchP [guarantees_intro]:
  "guarantees T m \<Longrightarrow> (\<And>e. guarantees T (h e)) \<Longrightarrow> guarantees T (catchP m h)"
  unfolding guarantees_def catchP_def
  by (auto split: prod.splits sum.splits) (metis T_trans snd_conv)+

lemma guarantees_attemptP [guarantees_intro]: "guarantees T m \<Longrightarrow> guarantees T (attemptP m)"
  by (simp add: guarantees_def)

lemma guarantees_whenP [guarantees_intro]: "guarantees T m \<Longrightarrow> guarantees T (whenP b m)"
  by (simp add: guarantees_def T_refl)

lemma guarantees_foldP [guarantees_intro]:
  "(\<And>x a. guarantees T (f x a)) \<Longrightarrow> guarantees T (foldP f xs a)"
  by (induction xs arbitrary: a) (auto intro: guarantees_pure guarantees_bindP)

lemma guarantees_if [guarantees_intro]:
  "guarantees T m \<Longrightarrow> guarantees T n \<Longrightarrow> guarantees T (if b then m else n)"
  by simp

lemma guarantees_case_option [guarantees_intro]:
  "guarantees T m \<Longrightarrow> (\<And>x. guarantees T (k x)) \<Longrightarrow> guarantees T (case z of None \<Rightarrow> m | Some x \<Rightarrow> k x)"
  by (cases z) simp_all

lemma guarantees_case_sum [guarantees_intro]:
  "(\<And>e. guarantees T (h e)) \<Longrightarrow> (\<And>x. guarantees T (k x)) \<Longrightarrow>
     guarantees T (case z of Inl e \<Rightarrow> h e | Inr x \<Rightarrow> k x)"
  by (cases z) simp_all

lemma guarantees_case_list [guarantees_intro]:
  "guarantees T m \<Longrightarrow> (\<And>x xs. guarantees T (k x xs)) \<Longrightarrow>
     guarantees T (case z of [] \<Rightarrow> m | x # xs \<Rightarrow> k x xs)"
  by (cases z) simp_all

lemma guarantees_case_prod [guarantees_intro]:
  "(\<And>x y. guarantees T (k x y)) \<Longrightarrow> guarantees T (case z of (x, y) \<Rightarrow> k x y)"
  by (cases z) simp

lemma guarantees_Let [guarantees_intro]: "(\<And>x. guarantees T (k x)) \<Longrightarrow> guarantees T (Let z k)"
  by simp

end

section \<open>Hoare triples\<close>

definition ensures ::
  "('s \<Rightarrow> bool) \<Rightarrow> ('s, 'a) prog \<Rightarrow> ('a \<Rightarrow> 's \<Rightarrow> bool) \<Rightarrow> (js_error \<Rightarrow> 's \<Rightarrow> bool) \<Rightarrow> bool" where
  "ensures P m Q E \<longleftrightarrow>
     (\<forall>s. P s \<longrightarrow> (case m s of (Inr x, s') \<Rightarrow> Q x s' | (Inl e, s') \<Rightarrow> E e s'))"

lemma ensuresI:
  "(\<And>s x t. P s \<Longrightarrow> m s = (Inr x, t) \<Longrightarrow> Q x t) \<Longrightarrow>
   (\<And>s e t. P s \<Longrightarrow> m s = (Inl e, t) \<Longrightarrow> E e t) \<Longrightarrow> ensures P m Q E"
  by (auto simp: ensures_def split: prod.splits sum.splits)

lemma ensures_Inr: "ensures P m Q E \<Longrightarrow> P s \<Longrightarrow> m s = (Inr x, t) \<Longrightarrow> Q x t"
  by (auto simp: ensures_def dest!: spec [of _ s])

lemma ensures_Inl: "ensures P m Q E \<Longrightarrow> P s \<Longrightarrow> m s = (Inl e, t) \<Longrightarrow> E e t"
  by (auto simp: ensures_def dest!: spec [of _ s])

lemma ensures_bindP:
  assumes "ensures P m R E" "\<And>x. ensures (R x) (k x) Q E"
  shows "ensures P (bindP m k) Q E"
proof (rule ensuresI)
  fix s x t
  assume "P s" "bindP m k s = (Inr x, t)"
  then show "Q x t"
    using assms by (auto elim!: bindP_cases dest: ensures_Inr)
next
  fix s e t
  assume "P s" "bindP m k s = (Inl e, t)"
  then show "E e t"
    using assms by (auto elim!: bindP_cases dest: ensures_Inr ensures_Inl)
qed

lemma ensures_pure:
  "(\<And>s. P s \<Longrightarrow> Q x s) \<Longrightarrow> ensures P (retP x) Q E"
  "(\<And>s. P s \<Longrightarrow> E e s) \<Longrightarrow> ensures P (throwP e) Q E"
  "(\<And>s. P s \<Longrightarrow> Q (f s) s) \<Longrightarrow> ensures P (readP f) Q E"
  by (auto simp: ensures_def)

lemma ensures_weaken:
  "ensures P m Q E \<Longrightarrow> (\<And>s. P' s \<Longrightarrow> P s) \<Longrightarrow> (\<And>x s. Q x s \<Longrightarrow> Q' x s) \<Longrightarrow>
   (\<And>e s. E e s \<Longrightarrow> E' e s) \<Longrightarrow> ensures P' m Q' E'"
  unfolding ensures_def by (fastforce split: prod.splits sum.splits)

lemma ensures_guarantees:
  "guarantees T m \<Longrightarrow> (\<And>s t. P s \<Longrightarrow> T s t \<Longrightarrow> P t) \<Longrightarrow> ensures P m (\<lambda>_. P) (\<lambda>_. P)"
  by (intro ensuresI) (auto dest: guaranteesD)

lemma ensures_fact: "(F \<Longrightarrow> ensures P m Q E) \<Longrightarrow> ensures (\<lambda>s. P s \<and> F) m Q E"
  by (auto simp: ensures_def)

lemma ensures_if: "(b \<Longrightarrow> ensures P m Q E) \<Longrightarrow> (\<not> b \<Longrightarrow> ensures P n Q E) \<Longrightarrow> ensures P (if b then m else n) Q E"
  by simp

lemma ensures_setL: "(\<And>s l. P (s, l) \<Longrightarrow> Q () (s, f l)) \<Longrightarrow> ensures P (setL f) Q E"
  by (auto simp: ensures_def setL_def)

lemma ensures_getL:
  "(\<And>s l. P (s, l) \<Longrightarrow> ensures ((=) (s, l)) (k (g l)) Q E) \<Longrightarrow> ensures P (bindP (getL g) k) Q E"
  by (auto simp: ensures_def getL_def)

lemma ensures_liftP:
  "(\<And>e s. r = Inl e \<Longrightarrow> P s \<Longrightarrow> E e s) \<Longrightarrow> (\<And>x. r = Inr x \<Longrightarrow> ensures P (k x) Q E) \<Longrightarrow>
   ensures P (bindP (liftP r) k) Q E"
  by (cases r) (auto simp: ensures_def liftP_def bindP_def)

lemma ensures_foldP:
  "(\<And>x a. x \<in> set xs \<Longrightarrow> ensures P (f x a) (\<lambda>_. P) E) \<Longrightarrow> ensures P (foldP f xs a) (\<lambda>_. P) E"
  by (induction xs arbitrary: a) (auto intro!: ensures_pure ensures_bindP)

end
