(* ===== verification/Model.thy ===== *)
theory Model
  imports Effects Complex_Main
begin

text \<open>
  The data of the control plane: \<open>src/domain/persistence-model.ts\<close>,
  \<open>src/domain/network-definition.ts\<close> and the types of \<open>src/persistence/repository.ts\<close>, with the
  node-state transition table (\<open>src/persistence/state-transition.ts\<close>) and the aggregate status of
  a run (\<open>src/domain/run-aggregate.ts\<close>).

  The status types of the source are unions of string literals that overlap, and the code
  compares and assigns across them, so they are one datatype \<open>status\<close> with one predicate per
  union. Field names carry a prefix for their record (\<open>nr_\<close> network run, \<open>ri_\<close> invocation,
  \<open>ns_\<close> node state, \<open>na_\<close> attempt, \<open>ar_\<close> resolution, \<open>cr_\<close> cancel request). Numbers that count
  (revisions, attempt numbers) are \<open>int\<close>; timestamps are the strings the code stores.
\<close>

section \<open>Statuses\<close>

datatype status =
    CREATED | WAITING | RUNNING | SUCCESS | FAILED | BLOCKED | SKIPPED | CANCELLED | UNKNOWN

definition is_node_state_status :: "status \<Rightarrow> bool" where
  "is_node_state_status s \<longleftrightarrow>
     s \<in> {WAITING, RUNNING, SUCCESS, FAILED, BLOCKED, SKIPPED, CANCELLED, UNKNOWN}"

definition is_node_attempt_status :: "status \<Rightarrow> bool" where
  "is_node_attempt_status s \<longleftrightarrow> s \<in> {RUNNING, SUCCESS, FAILED, CANCELLED, UNKNOWN}"

definition is_network_run_status :: "status \<Rightarrow> bool" where
  "is_network_run_status s \<longleftrightarrow> s \<in> {CREATED, RUNNING, SUCCESS, FAILED, CANCELLED, UNKNOWN}"

definition is_run_invocation_status :: "status \<Rightarrow> bool" where
  "is_run_invocation_status s \<longleftrightarrow> s \<in> {RUNNING, SUCCESS, FAILED, CANCELLED, UNKNOWN}"

datatype cancel_request_state = CR_REQUESTED | CR_ACCEPTED | CR_RELEASED

datatype lifecycle_status = ACTIVE | ARCHIVED

datatype invocation_mode = NEW | RESUME | RERUN_FROM

section \<open>Parsed JSON values\<close>

datatype json =
    JNull | JBool bool | JNum rat | JInfinite | JStr string | JArr "json list"
  | JObj "(string \<times> json) list"

text \<open>An integer and the text of a status in JSON.\<close>

definition jsonInt :: "int \<Rightarrow> json" where "jsonInt i = JNum (of_int i)"

fun statusText :: "status \<Rightarrow> string" where
  "statusText CREATED = ''CREATED''" | "statusText WAITING = ''WAITING''"
| "statusText RUNNING = ''RUNNING''" | "statusText SUCCESS = ''SUCCESS''"
| "statusText FAILED = ''FAILED''" | "statusText BLOCKED = ''BLOCKED''"
| "statusText SKIPPED = ''SKIPPED''" | "statusText CANCELLED = ''CANCELLED''"
| "statusText UNKNOWN = ''UNKNOWN''"

section \<open>Records\<close>

record cancel_request =
  cr_run_id :: string
  cr_state :: cancel_request_state
  cr_requested_by :: string
  cr_reason :: string
  cr_requested_at :: string
  cr_accepted_at :: "string option"
  cr_released_at :: "string option"
  cr_release_reason :: "string option"
  cr_release_requested_by :: "string option"

record resolved_profile_snapshot =
  rp_profile :: string
  rp_base_url :: string
  rp_guest_space_id :: "int option"
  rp_timezone :: string
  rp_apps :: "(string \<times> int) list"
  rp_max_api_calls :: "rat option"
  rp_max_read_rows :: "rat option"
  rp_batch_timeout_sec :: "rat option"

record network_run =
  nr_run_id :: string
  nr_network_id :: string
  nr_business_key :: string
  nr_max_active_runs :: int
  nr_status :: status
  nr_lifecycle_status :: lifecycle_status
  nr_resume_allowed :: bool
  nr_as_of :: "string option"
  nr_definition_schema_version :: int
  nr_definition_sha256 :: string
  nr_source_bundle_sha256 :: string
  nr_source_bundle_attachment :: string
  nr_resolved_profile_snapshot :: resolved_profile_snapshot
  nr_resolved_profile_sha256 :: string
  nr_ksql_flow_version :: string
  nr_engine_version :: string
  nr_dialect :: int
  nr_created_at :: string
  nr_started_at :: "string option"
  nr_finished_at :: "string option"
  nr_updated_at :: string

record run_invocation =
  ri_invocation_id :: string
  ri_run_id :: string
  ri_mode :: invocation_mode
  ri_requested_by :: string
  ri_host :: string
  ri_started_at :: string
  ri_finished_at :: "string option"
  ri_status :: status
  ri_result_code :: string
  ri_selected_node_ids :: "string list"
  ri_preserved_node_ids :: "string list"
  ri_blocked_node_ids :: "string list"
  ri_reason :: string

datatype trigger_rule = ALL_SUCCESS | NONE_FAILED | ALL_DONE

record node_state =
  ns_node_state_id :: string
  ns_node_state_key :: string
  ns_run_id :: string
  ns_node_id :: string
  ns_job_id :: string
  ns_status :: status
  ns_latest_attempt_no :: int
  ns_active_attempt_id :: "string option"
  ns_revision :: int
  ns_idempotent :: bool
  ns_trigger_rule :: trigger_rule
  ns_blocked_by :: "string list"
  ns_status_reason :: "string option"
  ns_started_at :: "string option"
  ns_finished_at :: "string option"
  ns_updated_at :: string

record node_attempt =
  na_node_attempt_id :: string
  na_attempt_key :: string
  na_run_id :: string
  na_node_id :: string
  na_job_id :: string
  na_invocation_id :: string
  na_attempt_no :: int
  na_status :: status
  na_result_code :: string
  na_execution_started_at :: "string option"
  na_runner_execution_started_at :: "string option"
  na_execution_id :: "string option"
  na_finished_at :: "string option"
  na_duration_sec :: "rat option"
  na_error_message :: "string option"
  na_read_count :: int
  na_written_count :: int
  na_last_successful_chunk_no :: "int option"
  na_last_written_key :: "string option"
  na_state_revision_before :: "int option"

datatype resolution_type =
    OUTCOME_CONFIRMED | NODE_MANUAL_COMPLETION_CONFIRMED | NODE_COMPENSATION_COMPLETED

text \<open>\<open>event_type\<close> of a resolution has one value (\<open>ATTEMPT_RESOLVED\<close>) and is not a field here.\<close>

record attempt_resolution =
  ar_resolution_type :: resolution_type
  ar_attempt_id :: string
  ar_resolved_outcome :: status
  ar_reason :: string
  ar_evidence_ref :: string
  ar_service_principal :: string
  ar_requested_by :: string
  ar_approved_by :: string
  ar_stop_confirmed_by :: string
  ar_stop_evidence_ref :: string
  ar_resolved_at :: string

datatype repair_type =
    TERMINAL_ATTEMPT_APPLIED | ATTEMPT_RESOLUTION_APPLIED | RUN_AGGREGATE_RECOMPUTED
  | INVOCATION_FINALIZED

datatype repair_target = NODE_STATE | NETWORK_RUN | RUN_INVOCATION

record reconciliation_audit =
  ra_repair_type :: repair_type
  ra_run_id :: string
  ra_target_type :: repair_target
  ra_target_id :: string
  ra_before :: "(string \<times> json) list"
  ra_after :: "(string \<times> json) list"
  ra_occurred_at :: string

datatype lock_recovery_outcome = LR_RELEASED | LR_NOT_FOUND | LR_NOT_RUNNING | LR_CONFLICT | LR_UNCONFIRMED

record lock_recovery_result =
  lr_jobKey :: string
  lr_recordId :: "string option"
  lr_outcome :: lock_recovery_outcome
  lr_before :: "(string \<times> string \<times> string) option"
  lr_executedAt :: string
  lr_nextAction :: "string option"

record job_lock_audit =
  ja_run_id :: string
  ja_node_id :: string
  ja_job_id :: string
  ja_service_principal :: string
  ja_requested_by :: string
  ja_stop_confirmed_by :: string
  ja_reason :: string
  ja_evidence_ref :: string
  ja_recorded_at :: string
  ja_lock_recovery_result :: lock_recovery_result

record network_lock_audit =
  la_network_id :: string
  la_profile :: string
  la_lock_key :: string
  la_record_id :: string
  la_previous_owner_invocation_id :: string
  la_previous_lease_token :: string
  la_previous_heartbeat_at :: string
  la_previous_lease_expires_at :: string
  la_service_principal :: string
  la_requested_by :: string
  la_stop_confirmed_by :: string
  la_stop_method :: string
  la_stop_evidence_ref :: string
  la_reason :: string
  la_evidence_ref :: string
  la_released_at :: string
  la_post_release_revision :: int

record run_archived_audit =
  aa_run_id :: string
  aa_requested_by :: string
  aa_reason :: string
  aa_archived_at :: string
  aa_previous_status :: status
  aa_run_revision_before :: int
  aa_service_principal :: string

text \<open>The union of the four audit types; the first argument is \<open>event_id\<close>.\<close>

datatype operation_audit =
    ReconciliationOperationAudit string reconciliation_audit
  | JobLockRecoveryOperationAudit string job_lock_audit
  | NetworkLockForceReleaseOperationAudit string network_lock_audit
  | RunArchivedOperationAudit string run_archived_audit

fun event_id :: "operation_audit \<Rightarrow> string" where
  "event_id (ReconciliationOperationAudit i _) = i"
| "event_id (JobLockRecoveryOperationAudit i _) = i"
| "event_id (NetworkLockForceReleaseOperationAudit i _) = i"
| "event_id (RunArchivedOperationAudit i _) = i"

section \<open>Network definitions\<close>

datatype period = DAY | MONTH

datatype business_key_policy = ScheduledPeriod period string string | Explicit

record network_lock_definition =
  nl_lease_duration_sec :: int
  nl_heartbeat_interval_sec :: int

record network_node =
  nn_id :: string
  nn_job_id :: string
  nn_sql :: string
  nn_depends_on :: "string list"
  nn_trigger_rule :: trigger_rule
  nn_idempotent :: bool
  nn_inputs :: "(string \<times> string) list option"
  nn_outputs :: "(string \<times> string) list option"

record network_definition =
  nd_schema_version :: int
  nd_network_id :: string
  nd_description :: "string option"
  nd_business_key_policy :: business_key_policy
  nd_max_active_runs :: int
  nd_network_lock :: network_lock_definition
  nd_nodes :: "network_node list"

section \<open>Versioned values and write inputs\<close>

record 'a versioned =
  content :: 'a
  revision :: int

record run_aggregate_update =
  ru_status :: status
  ru_started_at :: "string option"
  ru_finished_at :: "string option"
  ru_updated_at :: string

record invocation_finalization =
  if_status :: status
  if_result_code :: string
  if_finished_at :: string
  if_selected_node_ids :: "string list option"
  if_preserved_node_ids :: "string list option"
  if_blocked_node_ids :: "string list option"
  if_reason :: "string option"

record resolution_event =
  re_attempt_id :: string
  re_resolved_outcome :: status
  re_resolved_at :: string

record node_state_write =
  nw_value :: node_state
  nw_expected_revision :: "int option"
  nw_resolution_event :: "resolution_event option"

record create_attempt_input =
  ca_node_state :: "node_state versioned"
  ca_node_attempt_id :: string
  ca_invocation_id :: string

record attempt_finalization =
  af_status :: status
  af_result_code :: string
  af_runner_execution_started_at :: "string option"
  af_execution_id :: "string option"
  af_finished_at :: string
  af_duration_sec :: "rat option"
  af_error_message :: "string option"
  af_read_count :: int
  af_written_count :: int
  af_last_successful_chunk_no :: "int option"
  af_last_written_key :: "string option"

datatype inconsistency =
    ActiveAttemptMissing "node_state versioned"
  | StateAttemptStatusMismatch "node_state versioned" "node_attempt versioned"
  | MultipleRunningAttempts "node_state versioned" "node_attempt versioned list"

section \<open>Node state transitions\<close>

fun ALLOWED_TRANSITIONS :: "status \<Rightarrow> status list" where
  "ALLOWED_TRANSITIONS WAITING = [WAITING, RUNNING, BLOCKED]"
| "ALLOWED_TRANSITIONS RUNNING = [RUNNING, WAITING, SUCCESS, FAILED, CANCELLED, UNKNOWN]"
| "ALLOWED_TRANSITIONS SUCCESS = [SUCCESS, WAITING]"
| "ALLOWED_TRANSITIONS FAILED = [FAILED, WAITING]"
| "ALLOWED_TRANSITIONS BLOCKED = [BLOCKED, WAITING]"
| "ALLOWED_TRANSITIONS SKIPPED = [SKIPPED]"
| "ALLOWED_TRANSITIONS CANCELLED = [CANCELLED, WAITING]"
| "ALLOWED_TRANSITIONS UNKNOWN = [UNKNOWN, SUCCESS, FAILED, CANCELLED]"
| "ALLOWED_TRANSITIONS CREATED = []"

definition isAllowedNodeStateTransition :: "status \<Rightarrow> status \<Rightarrow> bool" where
  "isAllowedNodeStateTransition from to \<longleftrightarrow> to \<in> set (ALLOWED_TRANSITIONS from)"

definition isAllowedResolutionTransition :: "status \<Rightarrow> status \<Rightarrow> bool" where
  "isAllowedResolutionTransition from to \<longleftrightarrow>
     from = FAILED \<and> (to = SUCCESS \<or> to = FAILED \<or> to = CANCELLED)"

section \<open>Aggregate status of a run\<close>

definition computeRunAggregateStatus :: "status list \<Rightarrow> string option \<Rightarrow> status" where
  "computeRunAggregateStatus nodeStates startedAt =
     (if UNKNOWN \<in> set nodeStates then UNKNOWN
      else if RUNNING \<in> set nodeStates then RUNNING
      else if list_ex (\<lambda>s. s = FAILED \<or> s = BLOCKED) nodeStates then FAILED
      else if CANCELLED \<in> set nodeStates then CANCELLED
      else if nodeStates \<noteq> [] \<and> list_all (\<lambda>s. s = SUCCESS) nodeStates then SUCCESS
      else if startedAt = None then CREATED else RUNNING)"

end
