(* ===== verification/Keys.thy ===== *)
theory Keys
  imports Model
begin

text \<open>
  Canonical keys: \<open>src/domain/canonical-record-key.ts\<close> (runs, node states, attempts) and
  \<open>src/domain/canonical-lock-key.ts\<close> (network and job locks).

  The SHA-256 digest in base64url is a parameter \<open>digest\<close>. What the code relies on is that it has
  43 characters (32 bytes in base64url); that distinct inputs have distinct digests is not assumed,
  the uniqueness theorem says instead that two components sharing a key exhibit a collision. On
  the strings of the model (code units below 256) \<open>normalize("NFC")\<close> is the identity, and
  \<open>Array.from(s).length\<close> is \<open>length s\<close>.
\<close>

definition MAX_CANONICAL_LOCK_IDENTIFIER_LENGTH :: nat where
  "MAX_CANONICAL_LOCK_IDENTIFIER_LENGTH = 128"

definition CANONICAL_KEY_LENGTH :: nat where "CANONICAL_KEY_LENGTH = 46"

definition MAX_KINTONE_UNIQUE_KEY_LENGTH :: nat where "MAX_KINTONE_UNIQUE_KEY_LENGTH = 64"

definition NUL :: char where "NUL = CHR 0x00"

definition reservedIdentifier :: string where "reservedIdentifier = ''__net__''"

section \<open>Record keys\<close>

definition recordCanonicalIdentifier :: "string \<Rightarrow> string \<Rightarrow> js_error + string" where
  "recordCanonicalIdentifier v component =
     (if length v = 0 then Inl (CanonicalKeyError ''RECORD_KEY_IDENTIFIER_EMPTY'' component)
      else if NUL \<in> set v then Inl (CanonicalKeyError ''RECORD_KEY_IDENTIFIER_NUL'' component)
      else if CHR '':'' \<in> set v then Inl (CanonicalKeyError ''RECORD_KEY_IDENTIFIER_SEPARATOR'' component)
      else if v = reservedIdentifier then Inl (CanonicalKeyError ''RECORD_KEY_IDENTIFIER_RESERVED'' component)
      else if length v > MAX_CANONICAL_LOCK_IDENTIFIER_LENGTH
        then Inl (CanonicalKeyError ''RECORD_KEY_IDENTIFIER_TOO_LONG'' component)
      else Inr v)"

definition canonicalKey :: "(string \<Rightarrow> string) \<Rightarrow> string \<Rightarrow> string list \<Rightarrow> js_error + string" where
  "canonicalKey digest prefix components =
     (let key = prefix @ '':'' @ digest (joinText [NUL] (prefix # components))
      in if length key \<noteq> CANONICAL_KEY_LENGTH \<or> length key > MAX_KINTONE_UNIQUE_KEY_LENGTH
         then Inl (CanonicalKeyError ''RECORD_KEY_LENGTH_INVARIANT'' ''generatedKey'')
         else Inr key)"

definition runKey :: "(string \<Rightarrow> string) \<Rightarrow> string \<Rightarrow> string \<Rightarrow> string \<Rightarrow> js_error + string" where
  "runKey digest profile networkId businessKey =
     (case recordCanonicalIdentifier profile ''profile'' of Inl e \<Rightarrow> Inl e | Inr p \<Rightarrow>
      case recordCanonicalIdentifier networkId ''networkId'' of Inl e \<Rightarrow> Inl e | Inr n \<Rightarrow>
      case recordCanonicalIdentifier businessKey ''businessKey'' of Inl e \<Rightarrow> Inl e | Inr b \<Rightarrow>
      canonicalKey digest ''R1'' [p, n, b])"

definition nodeStateKey :: "(string \<Rightarrow> string) \<Rightarrow> string \<Rightarrow> string \<Rightarrow> js_error + string" where
  "nodeStateKey digest runId nodeId =
     (case recordCanonicalIdentifier runId ''runId'' of Inl e \<Rightarrow> Inl e | Inr r \<Rightarrow>
      case recordCanonicalIdentifier nodeId ''nodeId'' of Inl e \<Rightarrow> Inl e | Inr n \<Rightarrow>
      canonicalKey digest ''S1'' [r, n])"

definition attemptKey :: "(string \<Rightarrow> string) \<Rightarrow> string \<Rightarrow> string \<Rightarrow> int \<Rightarrow> js_error + string" where
  "attemptKey digest runId nodeId attemptNo =
     (if \<not> isSafeInteger attemptNo \<or> attemptNo < 1
      then Inl (CanonicalKeyError ''RECORD_KEY_ATTEMPT_NO_INVALID'' ''attemptNo'')
      else case recordCanonicalIdentifier runId ''runId'' of Inl e \<Rightarrow> Inl e | Inr r \<Rightarrow>
      case recordCanonicalIdentifier nodeId ''nodeId'' of Inl e \<Rightarrow> Inl e | Inr n \<Rightarrow>
      canonicalKey digest ''A1'' [r, n, stringOfInt attemptNo])"

section \<open>Lock keys\<close>

definition lockCanonicalIdentifier :: "string \<Rightarrow> string \<Rightarrow> js_error + string" where
  "lockCanonicalIdentifier v component =
     (if length v = 0 then Inl (CanonicalKeyError ''LOCK_KEY_IDENTIFIER_EMPTY'' component)
      else if NUL \<in> set v then Inl (CanonicalKeyError ''LOCK_KEY_IDENTIFIER_NUL'' component)
      else if CHR '':'' \<in> set v then Inl (CanonicalKeyError ''LOCK_KEY_IDENTIFIER_SEPARATOR'' component)
      else if v = reservedIdentifier then Inl (CanonicalKeyError ''LOCK_KEY_IDENTIFIER_RESERVED'' component)
      else if length v > MAX_CANONICAL_LOCK_IDENTIFIER_LENGTH
        then Inl (CanonicalKeyError ''LOCK_KEY_IDENTIFIER_TOO_LONG'' component)
      else Inr v)"

definition lockKey :: "(string \<Rightarrow> string) \<Rightarrow> string \<Rightarrow> string \<Rightarrow> string \<Rightarrow> string \<Rightarrow> js_error + string" where
  "lockKey digest prefix profile identifier component =
     (case lockCanonicalIdentifier profile ''profile'' of Inl e \<Rightarrow> Inl e | Inr canonicalProfile \<Rightarrow>
      case lockCanonicalIdentifier identifier component of Inl e \<Rightarrow> Inl e | Inr canonicalTarget \<Rightarrow>
      let key = prefix @ '':'' @ digest (prefix @ [NUL] @ canonicalProfile @ [NUL] @ canonicalTarget)
      in if length key \<noteq> CANONICAL_KEY_LENGTH \<or> length key > MAX_KINTONE_UNIQUE_KEY_LENGTH
         then Inl (CanonicalKeyError ''LOCK_KEY_LENGTH_INVARIANT'' ''generatedKey'')
         else Inr key)"

definition networkLockKey :: "(string \<Rightarrow> string) \<Rightarrow> string \<Rightarrow> string \<Rightarrow> js_error + string" where
  "networkLockKey digest profile networkId = lockKey digest ''N1'' profile networkId ''networkId''"

definition jobLockKey :: "(string \<Rightarrow> string) \<Rightarrow> string \<Rightarrow> string \<Rightarrow> js_error + string" where
  "jobLockKey digest profile jobId = lockKey digest ''J1'' profile jobId ''jobId''"

section \<open>Valid identifiers\<close>

definition validIdentifier :: "string \<Rightarrow> bool" where
  "validIdentifier v \<longleftrightarrow> v \<noteq> [] \<and> NUL \<notin> set v \<and> CHR '':'' \<notin> set v \<and> v \<noteq> reservedIdentifier \<and>
     length v \<le> MAX_CANONICAL_LOCK_IDENTIFIER_LENGTH"

lemma recordCanonicalIdentifier_Inr [simp]:
  "recordCanonicalIdentifier v c = Inr w \<longleftrightarrow> validIdentifier v \<and> w = v"
  by (auto simp: recordCanonicalIdentifier_def validIdentifier_def)

lemma lockCanonicalIdentifier_Inr [simp]:
  "lockCanonicalIdentifier v c = Inr w \<longleftrightarrow> validIdentifier v \<and> w = v"
  by (auto simp: lockCanonicalIdentifier_def validIdentifier_def)

lemma recordCanonicalIdentifier_Inl [dest]:
  "recordCanonicalIdentifier v c = Inl e \<Longrightarrow> \<not> validIdentifier v"
  using recordCanonicalIdentifier_Inr [of v c v] by auto

lemma lockCanonicalIdentifier_Inl [dest]:
  "lockCanonicalIdentifier v c = Inl e \<Longrightarrow> \<not> validIdentifier v"
  using lockCanonicalIdentifier_Inr [of v c v] by auto

lemma canonicalKey_Inr:
  "canonicalKey digest p cs = Inr key \<longleftrightarrow>
     key = p @ '':'' @ digest (joinText [NUL] (p # cs)) \<and> length key = CANONICAL_KEY_LENGTH"
  by (auto simp: canonicalKey_def Let_def CANONICAL_KEY_LENGTH_def MAX_KINTONE_UNIQUE_KEY_LENGTH_def)

lemma runKey_Inr:
  "runKey digest p n b = Inr key \<longleftrightarrow>
     validIdentifier p \<and> validIdentifier n \<and> validIdentifier b \<and> canonicalKey digest ''R1'' [p, n, b] = Inr key"
  by (auto simp: runKey_def split: sum.splits)

lemma nodeStateKey_Inr:
  "nodeStateKey digest r n = Inr key \<longleftrightarrow>
     validIdentifier r \<and> validIdentifier n \<and> canonicalKey digest ''S1'' [r, n] = Inr key"
  by (auto simp: nodeStateKey_def split: sum.splits)

lemma attemptKey_Inr:
  "attemptKey digest r n k = Inr key \<longleftrightarrow>
     isSafeInteger k \<and> 1 \<le> k \<and> validIdentifier r \<and> validIdentifier n \<and>
     canonicalKey digest ''A1'' [r, n, stringOfInt k] = Inr key"
  by (auto simp: attemptKey_def split: sum.splits)

definition collision :: "(string \<Rightarrow> string) \<Rightarrow> bool" where
  "collision digest \<longleftrightarrow> (\<exists>x y. x \<noteq> y \<and> digest x = digest y)"

lemma stringOfInt_no_NUL: "NUL \<notin> set (stringOfInt i)"
  using digitsOfNat_chars [of NUL "nat i"] digitsOfNat_chars [of NUL "nat (- i)"]
  by (auto simp: stringOfInt_def NUL_def)

lemma canonicalKey_inject:
  assumes "canonicalKey digest p cs = Inr key" "canonicalKey digest p ds = Inr key"
    and "length cs = length ds" "NUL \<notin> set p"
    and "\<forall>x \<in> set cs. NUL \<notin> set x" "\<forall>x \<in> set ds. NUL \<notin> set x"
  shows "cs = ds \<or> collision digest"
proof (cases "joinText [NUL] (p # cs) = joinText [NUL] (p # ds)")
  case True
  then have "p # cs = p # ds"
    using assms by (intro joinText_sep_inject [where c = NUL]) auto
  then show ?thesis by simp
next
  case False
  with assms(1,2) show ?thesis by (auto simp: canonicalKey_Inr collision_def)
qed

lemma runKey_inject:
  "runKey digest p n b = Inr key \<Longrightarrow> runKey digest p' n' b' = Inr key \<Longrightarrow>
   (p = p' \<and> n = n' \<and> b = b') \<or> collision digest"
  using canonicalKey_inject [of digest "''R1''" "[p, n, b]" key "[p', n', b']"]
  by (auto simp: runKey_Inr validIdentifier_def NUL_def)

lemma nodeStateKey_inject:
  "nodeStateKey digest r n = Inr key \<Longrightarrow> nodeStateKey digest r' n' = Inr key \<Longrightarrow>
   (r = r' \<and> n = n') \<or> collision digest"
  using canonicalKey_inject [of digest "''S1''" "[r, n]" key "[r', n']"]
  by (auto simp: nodeStateKey_Inr validIdentifier_def NUL_def)

lemma attemptKey_inject:
  "attemptKey digest r n k = Inr key \<Longrightarrow> attemptKey digest r' n' k' = Inr key \<Longrightarrow>
   (r = r' \<and> n = n' \<and> k = k') \<or> collision digest"
  using canonicalKey_inject [of digest "''A1''" "[r, n, stringOfInt k]" key "[r', n', stringOfInt k']"]
    stringOfInt_no_NUL [of k] stringOfInt_no_NUL [of k'] stringOfInt_pos_inject [of k k']
  by (auto simp: attemptKey_Inr validIdentifier_def NUL_def)

lemma key_kinds_disjoint:
  "runKey digest p n b = Inr key \<Longrightarrow> nodeStateKey digest r m \<noteq> Inr key"
  "runKey digest p n b = Inr key \<Longrightarrow> attemptKey digest r m k \<noteq> Inr key"
  "nodeStateKey digest r m = Inr key \<Longrightarrow> attemptKey digest r' m' k \<noteq> Inr key"
  by (auto simp: runKey_Inr nodeStateKey_Inr attemptKey_Inr canonicalKey_Inr)

lemma lockKey_Inr:
  "lockKey digest p prof i c = Inr key \<longleftrightarrow>
     validIdentifier prof \<and> validIdentifier i \<and>
     key = p @ '':'' @ digest (joinText [NUL] [p, prof, i]) \<and> length key = CANONICAL_KEY_LENGTH"
  by (auto simp: lockKey_def Let_def CANONICAL_KEY_LENGTH_def MAX_KINTONE_UNIQUE_KEY_LENGTH_def
      split: sum.splits)

section \<open>Properties\<close>

definition padDigest :: "string \<Rightarrow> string" where
  "padDigest s = take 43 (filter (\<lambda>c. c \<noteq> NUL) s @ replicate 43 CHR ''x'')"

text \<open>
  With a digest of 43 characters every valid choice of identifiers has a key, and every key
  has the 46 characters the contract fixes, below the 64 characters of a kintone unique field:
  the length checks of \<open>canonicalKey\<close> and \<open>lockKey\<close> never fire.
\<close>

theorem canonical_keys_total:
  assumes "\<forall>s. length (digest s) = 43"
    and "validIdentifier p" "validIdentifier n" "validIdentifier b" "1 \<le> k" "isSafeInteger k"
  shows "(\<exists>key. runKey digest p n b = Inr key \<and> length key = CANONICAL_KEY_LENGTH) \<and>
    (\<exists>key. nodeStateKey digest p n = Inr key \<and> length key = CANONICAL_KEY_LENGTH) \<and>
    (\<exists>key. attemptKey digest p n k = Inr key \<and> length key = CANONICAL_KEY_LENGTH) \<and>
    (\<exists>key. networkLockKey digest p n = Inr key \<and> length key = CANONICAL_KEY_LENGTH) \<and>
    (\<exists>key. jobLockKey digest p n = Inr key \<and> length key = CANONICAL_KEY_LENGTH)"
  using assms
  by (simp add: runKey_Inr nodeStateKey_Inr attemptKey_Inr canonicalKey_Inr networkLockKey_def
      jobLockKey_def lockKey_Inr CANONICAL_KEY_LENGTH_def)

theorem canonical_keys_total_witness:
  "\<exists>key. runKey padDigest ''prod'' ''monthly'' ''2026-01'' = Inr key \<and> length key = CANONICAL_KEY_LENGTH"
proof -
  have d: "\<forall>s. length (padDigest s) = 43" by (auto simp: padDigest_def min_def)
  have v: "validIdentifier ''prod''" "validIdentifier ''monthly''" "validIdentifier ''2026-01''"
    by (simp_all add: validIdentifier_def NUL_def reservedIdentifier_def
        MAX_CANONICAL_LOCK_IDENTIFIER_LENGTH_def)
  show ?thesis using canonical_keys_total [OF d v, of 1] by (simp add: isSafeInteger_def)
qed

text \<open>
  C26: Keys identify what they were made from: if two calls of \<open>attemptKey\<close> return the same key
  they were given the same run, node and attempt number, or else SHA-256 has a collision; the same
  holds for \<open>runKey\<close>, and a key of one kind is never a key of another kind.
\<close>

theorem canonical_keys_identify:
  assumes "attemptKey digest r n k = Inr key" "runKey digest p m b = Inr key2"
  shows "(attemptKey digest r' n' k' = Inr key \<longrightarrow> (r', n', k') = (r, n, k) \<or> collision digest) \<and>
    (runKey digest p' m' b' = Inr key2 \<longrightarrow> (p', m', b') = (p, m, b) \<or> collision digest) \<and>
    key \<noteq> key2 \<and> nodeStateKey digest r' n' \<noteq> Inr key \<and> nodeStateKey digest r' n' \<noteq> Inr key2"
  using attemptKey_inject [OF assms(1), of r' n' k'] runKey_inject [OF assms(2), of p' m' b']
    key_kinds_disjoint [of digest] assms by blast

theorem canonical_keys_identify_witness:
  "\<exists>key. attemptKey padDigest ''r1'' ''a'' 1 = Inr key \<and> nodeStateKey padDigest ''r1'' ''a'' \<noteq> Inr key"
proof -
  have d: "\<forall>s. length (padDigest s) = 43" by (auto simp: padDigest_def min_def)
  have v: "validIdentifier ''r1''" "validIdentifier ''a''"
    by (simp_all add: validIdentifier_def NUL_def reservedIdentifier_def
        MAX_CANONICAL_LOCK_IDENTIFIER_LENGTH_def)
  obtain key key2 where "attemptKey padDigest ''r1'' ''a'' 1 = Inr key" "runKey padDigest ''r1'' ''a'' ''a'' = Inr key2"
    using d v by (auto simp: attemptKey_Inr runKey_Inr canonicalKey_Inr CANONICAL_KEY_LENGTH_def isSafeInteger_def)
  from canonical_keys_identify [OF this, of "''r1''" "''a''" 2] this(1) show ?thesis by blast
qed

end
