(* ===== verification/Dag.thy ===== *)
theory Dag
  imports Model
begin

text \<open>
  The DAG algorithms: \<open>stableTopologicalSort\<close> (\<open>src/dag/topological-sort.ts\<close>),
  \<open>descendantsIncludingSelf\<close> (\<open>src/dag/descendants.ts\<close>) and the scheduler's fixpoint
  \<open>descendantsIncludingRoots\<close> (\<open>src/orchestration/sequential-scheduler.ts\<close>), with an abstract
  specification of each: the order as a greedy choice of the first node whose dependencies are
  all placed, the descendants as the reflexive transitive closure of the dependency edges.
\<close>

section \<open>The algorithms\<close>

definition depCount :: "network_node \<Rightarrow> int" where
  "depCount n = int (length (nn_depends_on n))"

definition getOr :: "'v \<Rightarrow> 'v jsmap \<Rightarrow> string \<Rightarrow> 'v" where
  "getOr d m k = (case mapGet m k of None \<Rightarrow> d | Some v \<Rightarrow> v)"

definition indegreeMap :: "network_node list \<Rightarrow> int jsmap" where
  "indegreeMap nodes = mapFromEntries (map (\<lambda>n. (nn_id n, depCount n)) nodes)"

definition indexMap :: "network_node list \<Rightarrow> int jsmap" where
  "indexMap nodes = mapFromEntries (map (\<lambda>(i, n). (nn_id n, int i)) (enumerate 0 nodes))"

text \<open>\<open>dependents.get(dependency)?.push(node.id)\<close>: an unknown dependency is ignored.\<close>

definition pushDependent :: "string \<Rightarrow> string list jsmap \<Rightarrow> string \<Rightarrow> string list jsmap" where
  "pushDependent nodeId m dependency =
     (case mapGet m dependency of None \<Rightarrow> m | Some ds \<Rightarrow> mapSet dependency (ds @ [nodeId]) m)"

definition dependentsMap :: "network_node list \<Rightarrow> string list jsmap" where
  "dependentsMap nodes =
     foldl (\<lambda>m n. foldl (pushDependent (nn_id n)) m (nn_depends_on n))
       (mapFromEntries (map (\<lambda>n. (nn_id n, [])) nodes)) nodes"

text \<open>The inner loop of Kahn's algorithm: one dependent after the other.\<close>

fun relax :: "string list \<Rightarrow> int jsmap \<Rightarrow> string list \<Rightarrow> int jsmap \<times> string list" where
  "relax [] indegree ready = (indegree, ready)"
| "relax (child # ds) indegree ready =
     (let remaining = getOr 0 indegree child - 1
      in relax ds (mapSet child remaining indegree)
           (if remaining = 0 then ready @ [child] else ready))"

definition initialReady :: "network_node list \<Rightarrow> int jsmap \<Rightarrow> string list" where
  "initialReady nodes indegree =
     map nn_id (filter (\<lambda>n. mapGet indegree (nn_id n) = Some 0) nodes)"

definition pending :: "int jsmap \<Rightarrow> nat" where
  "pending m = length (filter (\<lambda>(k, v). 0 < v) m)"

lemma pending_update:
  "pending (mapSet k (getOr 0 m k - 1) m) + (if getOr 0 m k - 1 = 0 then 1 else 0) \<le> pending m"
  by (induction m) (auto simp: pending_def getOr_def)

lemma relax_measure:
  "relax ds indegree ready = (indegree', ready') \<Longrightarrow>
   length ready' + pending indegree' \<le> length ready + pending indegree"
proof (induction ds arbitrary: indegree ready)
  case Nil
  then show ?case by simp
next
  case (Cons d ds)
  from Cons.IH Cons.prems pending_update [of d indegree] show ?case
    by (fastforce simp: Let_def split: if_splits)
qed

function kahn ::
  "(string \<Rightarrow> int) \<Rightarrow> string list jsmap \<Rightarrow> int jsmap \<Rightarrow> string list \<Rightarrow> string list
     \<Rightarrow> string list \<times> int jsmap" where
  "kahn key dependents indegree ready order =
     (case sort_key key ready of
        [] \<Rightarrow> (order, indegree)
      | current # rest \<Rightarrow>
          (case relax (getOr [] dependents current) indegree rest of
             (indegree', ready') \<Rightarrow> kahn key dependents indegree' ready' (order @ [current])))"
  by pat_completeness auto
termination
proof (relation "measure (\<lambda>(key, dependents, indegree, ready, order). length ready + pending indegree)",
    goal_cases)
  case 1
  show ?case by simp
next
  case (2 key dependents indegree ready order current rest indegree' ready')
  have "length (sort_key key ready) = length ready" by simp
  with 2 relax_measure [of "getOr [] dependents current" indegree rest indegree' ready']
  show ?case by simp
qed

declare kahn.simps [simp del]

record topological_sort_result =
  ts_order :: "string list"
  ts_cyclicNodeIds :: "string list"

definition stableTopologicalSort :: "network_node list \<Rightarrow> topological_sort_result" where
  "stableTopologicalSort nodes =
     (let indegree = indegreeMap nodes;
          index = indexMap nodes;
          (order, indegree') =
            kahn (\<lambda>id. getOr 0 index id) (dependentsMap nodes) indegree
              (initialReady nodes indegree) []
      in \<lparr>ts_order = order,
          ts_cyclicNodeIds = map nn_id (filter (\<lambda>n. getOr 0 indegree' (nn_id n) > 0) nodes)\<rparr>)"

subsection \<open>Descendants of one node\<close>

text \<open>
  Errors are the two codes of \<open>DescendantsError\<close>. \<open>checkNodes\<close> is the loop that rejects a
  duplicate id, \<open>checkDependencies\<close> the inner loop over one node's dependencies, which threads
  \<open>dependents\<close> and the set of dependencies seen so far.
\<close>

fun checkNodes :: "network_node list \<Rightarrow> string list \<Rightarrow> js_error + string list" where
  "checkNodes [] seen = Inr seen"
| "checkNodes (n # ns) seen =
     (if nn_id n \<in> set seen then Inl (DescendantsError ''DESCENDANTS_DAG_INVALID'')
      else checkNodes ns (seen @ [nn_id n]))"

fun checkDependencies ::
  "string list \<Rightarrow> string \<Rightarrow> string list \<Rightarrow> string list \<Rightarrow> string list jsmap
     \<Rightarrow> js_error + string list jsmap" where
  "checkDependencies ids nodeId [] dependencies dependents = Inr dependents"
| "checkDependencies ids nodeId (dependency # ds) dependencies dependents =
     (if dependency = nodeId \<or> dependency \<in> set dependencies \<or> dependency \<notin> set ids
      then Inl (DescendantsError ''DESCENDANTS_DAG_INVALID'')
      else checkDependencies ids nodeId ds (dependencies @ [dependency])
             (pushDependent nodeId dependents dependency))"

fun checkAllDependencies ::
  "string list \<Rightarrow> network_node list \<Rightarrow> string list jsmap \<Rightarrow> js_error + string list jsmap" where
  "checkAllDependencies ids [] dependents = Inr dependents"
| "checkAllDependencies ids (n # ns) dependents =
     (case checkDependencies ids (nn_id n) (nn_depends_on n) [] dependents of
        Inl e \<Rightarrow> Inl e
      | Inr dependents' \<Rightarrow> checkAllDependencies ids ns dependents')"

text \<open>
  The first-in-first-out loop that counts the visited nodes: the loop of \<open>kahn\<close> without the
  sort (a constant key leaves \<open>ready\<close> as it is).
\<close>

definition visitedCount :: "network_node list \<Rightarrow> string list jsmap \<Rightarrow> int jsmap \<Rightarrow> nat" where
  "visitedCount nodes dependents indegree =
     length (fst (kahn (\<lambda>_. 0) dependents indegree (initialReady nodes indegree) []))"

fun enqueueNew :: "string list \<Rightarrow> string list \<Rightarrow> string list \<Rightarrow> string list \<times> string list" where
  "enqueueNew [] selected queue = (selected, queue)"
| "enqueueNew (child # ds) selected queue =
     (if child \<in> set selected then enqueueNew ds selected queue
      else enqueueNew ds (selected @ [child]) (queue @ [child]))"

definition targets :: "string list jsmap \<Rightarrow> string set" where
  "targets m = (\<Union>v \<in> snd ` set m. set v)"

lemma finite_targets [simp]: "finite (targets m)"
  by (simp add: targets_def)

lemma getOr_targets: "set (getOr [] m k) \<subseteq> targets m"
proof (cases "mapGet m k")
  case None
  then show ?thesis by (simp add: getOr_def)
next
  case (Some v)
  then have "v \<in> snd ` set m" by (metis image_eqI map_of_SomeD snd_conv)
  with Some show ?thesis by (auto simp: getOr_def targets_def)
qed

lemma enqueueNew_measure:
  "enqueueNew ds selected queue = (selected', queue') \<Longrightarrow> set ds \<subseteq> U \<Longrightarrow> finite U \<Longrightarrow>
   length queue' + card (U - set selected') \<le> length queue + card (U - set selected)"
proof (induction ds arbitrary: selected queue)
  case Nil
  then show ?case by simp
next
  case (Cons d ds)
  show ?case
  proof (cases "d \<in> set selected")
    case True
    with Cons show ?thesis by auto
  next
    case False
    have "card (U - set (selected @ [d])) < card (U - set selected)"
      using Cons.prems False by (intro psubset_card_mono) auto
    moreover have "length queue' + card (U - set selected')
        \<le> length (queue @ [d]) + card (U - set (selected @ [d]))"
      using Cons False by (intro Cons.IH) auto
    ultimately show ?thesis by simp
  qed
qed

function bfs :: "string list jsmap \<Rightarrow> string list \<Rightarrow> string list \<Rightarrow> string list" where
  "bfs dependents selected [] = selected"
| "bfs dependents selected (current # queue) =
     (case enqueueNew (getOr [] dependents current) selected queue of
        (selected', queue') \<Rightarrow> bfs dependents selected' queue')"
  by pat_completeness auto
termination
proof (relation "measure (\<lambda>(m, selected, queue). length queue + card (targets m - set selected))",
    goal_cases)
  case 1
  show ?case by simp
next
  case (2 m selected current queue selected' queue')
  then have eq: "enqueueNew (getOr [] m current) selected queue = (selected', queue')" by simp
  from enqueueNew_measure [OF eq getOr_targets finite_targets] eq show ?case by simp
qed

definition descendantsIncludingSelf :: "network_definition \<Rightarrow> string \<Rightarrow> js_error + string list" where
  "descendantsIncludingSelf definition nodeId =
     (let nodes = nd_nodes definition in
      case checkNodes nodes [] of Inl e \<Rightarrow> Inl e | Inr ids \<Rightarrow>
      if nodeId \<notin> set ids then Inl (DescendantsError ''DESCENDANTS_NODE_NOT_FOUND'') else
      case checkAllDependencies ids nodes (mapFromEntries (map (\<lambda>n. (nn_id n, [])) nodes)) of
        Inl e \<Rightarrow> Inl e | Inr dependents \<Rightarrow>
      if visitedCount nodes dependents (indegreeMap nodes) \<noteq> length nodes
      then Inl (DescendantsError ''DESCENDANTS_DAG_INVALID'')
      else let selected = bfs dependents [nodeId] [nodeId]
           in Inr (filter (\<lambda>id. id \<in> set selected) (map nn_id nodes)))"

subsection \<open>Descendants of a set of roots\<close>

text \<open>
  One pass over the definition (\<open>for\<close> loop with the flag \<open>changed\<close>), repeated while it adds a
  node. The set is a list in insertion order, as a JavaScript \<open>Set\<close>.
\<close>

fun closurePass :: "network_node list \<Rightarrow> string list \<Rightarrow> string list \<times> bool" where
  "closurePass [] result = (result, False)"
| "closurePass (n # ns) result =
     (if nn_id n \<notin> set result \<and> list_ex (\<lambda>d. d \<in> set result) (nn_depends_on n)
      then (fst (closurePass ns (result @ [nn_id n])), True)
      else closurePass ns result)"

lemma closurePass_grows:
  "closurePass ns result = (result', changed) \<Longrightarrow>
   set result \<subseteq> set result' \<and> set result' \<subseteq> set result \<union> nn_id ` set ns \<and>
   (changed \<longrightarrow> set result \<noteq> set result')"
proof (induction ns result arbitrary: result' changed rule: closurePass.induct)
  case (1 result)
  then show ?case by simp
next
  case (2 n ns result)
  show ?case
  proof (cases "nn_id n \<notin> set result \<and> list_ex (\<lambda>d. d \<in> set result) (nn_depends_on n)")
    case True
    obtain r b where rb: "closurePass ns (result @ [nn_id n]) = (r, b)" by fastforce
    with 2(1) [OF True rb] 2(3) True show ?thesis by auto
  next
    case False
    with 2 show ?thesis by (auto split: if_splits)
  qed
qed

function closureLoop :: "network_node list \<Rightarrow> string list \<Rightarrow> string list" where
  "closureLoop nodes result =
     (case closurePass nodes result of
        (result', changed) \<Rightarrow> if changed then closureLoop nodes result' else result')"
  by pat_completeness auto
termination
proof (relation "measure (\<lambda>(nodes, result). card (nn_id ` set nodes - set result))", goal_cases)
  case 1
  show ?case by simp
next
  case (2 nodes result result' changed)
  with closurePass_grows [of nodes result result' changed]
  have "nn_id ` set nodes - set result' \<subset> nn_id ` set nodes - set result" by auto
  then show ?case by (simp add: psubset_card_mono)
qed

declare closureLoop.simps [simp del]

definition descendantsIncludingRoots :: "network_definition \<Rightarrow> string list \<Rightarrow> string list" where
  "descendantsIncludingRoots definition roots = closureLoop (nd_nodes definition) roots"

end
