(* ===== verification/DagProps.thy ===== *)
theory DagProps
  imports Dag
begin

text \<open>
  Correctness of the DAG algorithms against their specifications: the edge relation of a
  definition, the greedy order, and reachability.
\<close>

section \<open>Specification\<close>

definition nodeIds :: "network_node list \<Rightarrow> string set" where
  "nodeIds nodes = nn_id ` set nodes"

definition edges :: "network_node list \<Rightarrow> (string \<times> string) set" where
  "edges nodes = {(d, nn_id n) | d n. n \<in> set nodes \<and> d \<in> set (nn_depends_on n)}"

text \<open>Unique node ids and no unknown dependency.\<close>

definition wellFormedNodes :: "network_node list \<Rightarrow> bool" where
  "wellFormedNodes nodes \<longleftrightarrow>
     distinct (map nn_id nodes) \<and> (\<forall>n \<in> set nodes. set (nn_depends_on n) \<subseteq> nodeIds nodes)"

text \<open>Dependencies are also free of self references and duplicates.\<close>

definition strictNodes :: "network_node list \<Rightarrow> bool" where
  "strictNodes nodes \<longleftrightarrow> wellFormedNodes nodes \<and>
     (\<forall>n \<in> set nodes. nn_id n \<notin> set (nn_depends_on n) \<and> distinct (nn_depends_on n))"

text \<open>The greedy order: place the first node in definition order whose dependencies are placed.\<close>

definition firstReady :: "network_node list \<Rightarrow> string list \<Rightarrow> network_node option" where
  "firstReady nodes order =
     find (\<lambda>n. nn_id n \<notin> set order \<and> set (nn_depends_on n) \<subseteq> set order) nodes"

lemma firstReady_Some:
  "firstReady nodes order = Some n \<Longrightarrow>
     n \<in> set nodes \<and> nn_id n \<notin> set order \<and> set (nn_depends_on n) \<subseteq> set order"
  by (auto simp: firstReady_def find_Some_iff)

function greedyOrder :: "network_node list \<Rightarrow> string list \<Rightarrow> string list" where
  "greedyOrder nodes order =
     (case firstReady nodes order of None \<Rightarrow> order | Some n \<Rightarrow> greedyOrder nodes (order @ [nn_id n]))"
  by pat_completeness auto
termination
proof (relation "measure (\<lambda>(nodes, order). card (nodeIds nodes - set order))", goal_cases)
  case 1
  show ?case by simp
next
  case (2 nodes order n)
  then have "n \<in> set nodes" "nn_id n \<notin> set order" using firstReady_Some by fastforce+
  then have "nodeIds nodes - set (order @ [nn_id n]) \<subset> nodeIds nodes - set order"
    by (auto simp: nodeIds_def)
  then show ?case by (simp add: psubset_card_mono nodeIds_def)
qed

declare greedyOrder.simps [simp del]

section \<open>The inner loop and the tables\<close>

lemma getOr_update [simp]: "getOr d (mapSet k v m) k' = (if k' = k then v else getOr d m k')"
  by (auto simp: getOr_def update_conv')

lemma relax_spec:
  "relax ds m ready = (m', ready') \<Longrightarrow>
   (\<forall>k. getOr 0 m' k = getOr 0 m k - int (count_list ds k)) \<and>
   (\<exists>new. ready' = ready @ new \<and> distinct new \<and>
      set new = {k. 1 \<le> getOr 0 m k \<and> getOr 0 m k \<le> int (count_list ds k)})"
proof (induction ds arbitrary: m ready)
  case Nil
  then show ?case by auto
next
  case (Cons d ds)
  let ?m = "mapSet d (getOr 0 m d - 1) m"
  let ?r = "if getOr 0 m d - 1 = 0 then ready @ [d] else ready"
  from Cons.prems have "relax ds ?m ?r = (m', ready')" by (simp add: Let_def)
  from Cons.IH [OF this] obtain new where
    val: "\<forall>k. getOr 0 m' k = getOr 0 ?m k - int (count_list ds k)" and
    new: "ready' = ?r @ new" "distinct new"
      "set new = {k. 1 \<le> getOr 0 ?m k \<and> getOr 0 ?m k \<le> int (count_list ds k)}"
    by blast
  let ?new = "if getOr 0 m d = 1 then d # new else new"
  have "ready' = ready @ ?new" using new(1) by simp
  moreover have "distinct ?new" using new(2,3) by auto
  moreover have "k \<in> set ?new \<longleftrightarrow> 1 \<le> getOr 0 m k \<and> getOr 0 m k \<le> int (count_list (d # ds) k)" for k
    using new(3) by (cases "k = d") auto
  then have "set ?new = {k. 1 \<le> getOr 0 m k \<and> getOr 0 m k \<le> int (count_list (d # ds) k)}" by blast
  ultimately show ?case using val by auto
qed

lemma mapGet_indegreeMap:
  "distinct (map nn_id nodes) \<Longrightarrow> n \<in> set nodes \<Longrightarrow>
     mapGet (indegreeMap nodes) (nn_id n) = Some (depCount n)"
  by (auto simp: indegreeMap_def mapFromEntries_distinct comp_def intro!: map_of_is_SomeI)

lemma mapGet_indegreeMap_None:
  "k \<notin> nodeIds nodes \<Longrightarrow> mapGet (indegreeMap nodes) k = None"
  by (simp add: indegreeMap_def map_of_eq_None_iff nodeIds_def image_image)

text \<open>What \<open>dependents\<close> holds: one entry per edge.\<close>

definition childTable :: "network_node list \<Rightarrow> string list jsmap \<Rightarrow> bool" where
  "childTable nodes m \<longleftrightarrow>
     (\<forall>d. set (getOr [] m d) \<subseteq> nodeIds nodes) \<and>
     (\<forall>d n. n \<in> set nodes \<longrightarrow> count_list (getOr [] m d) (nn_id n) = count_list (nn_depends_on n) d)"

lemma getOr_pushDependent:
  "mapHas m dep \<Longrightarrow>
     getOr [] (pushDependent i m dep) k = (if k = dep then getOr [] m k @ [i] else getOr [] m k)"
  by (auto simp: pushDependent_def getOr_def mapHas_iff update_conv' split: option.splits)

lemma keys_pushDependent [simp]: "mapHas (pushDependent i m dep) k \<longleftrightarrow> mapHas m k"
  by (auto simp: pushDependent_def mapHas_iff update_conv' split: option.splits)

lemma fold_pushDependent:
  "\<forall>d \<in> set ds. mapHas m d \<Longrightarrow>
     getOr [] (foldl (pushDependent i) m ds) k = getOr [] m k @ replicate (count_list ds k) i"
proof (induction ds arbitrary: m)
  case Nil
  then show ?case by simp
next
  case (Cons d ds)
  then have "getOr [] (foldl (pushDependent i) (pushDependent i m d) ds) k =
      getOr [] (pushDependent i m d) k @ replicate (count_list ds k) i"
    by (intro Cons.IH) simp
  with Cons.prems show ?case
    by (simp add: getOr_pushDependent replicate_append_same [symmetric])
qed

lemma keys_fold_pushDependent [simp]: "mapHas (foldl (pushDependent i) m ds) k \<longleftrightarrow> mapHas m k"
  by (induction ds arbitrary: m) (simp_all)

definition pushAll :: "network_node list \<Rightarrow> string list jsmap \<Rightarrow> string list jsmap" where
  "pushAll ns m = foldl (\<lambda>m n. foldl (pushDependent (nn_id n)) m (nn_depends_on n)) m ns"

lemma pushAll_simps [simp]:
  "pushAll [] m = m"
  "pushAll (n # ns) m = pushAll ns (foldl (pushDependent (nn_id n)) m (nn_depends_on n))"
  by (simp_all add: pushAll_def)

lemma keys_pushAll [simp]: "mapHas (pushAll ns m) k \<longleftrightarrow> mapHas m k"
  by (induction ns arbitrary: m) (simp_all)

lemma getOr_pushAll:
  "\<forall>n \<in> set ns. \<forall>d \<in> set (nn_depends_on n). mapHas m d \<Longrightarrow>
   getOr [] (pushAll ns m) k =
     getOr [] m k @ concat (map (\<lambda>n. replicate (count_list (nn_depends_on n) k) (nn_id n)) ns)"
proof (induction ns arbitrary: m)
  case Nil
  then show ?case by simp
next
  case (Cons n ns)
  then have "getOr [] (pushAll ns (foldl (pushDependent (nn_id n)) m (nn_depends_on n))) k =
    getOr [] (foldl (pushDependent (nn_id n)) m (nn_depends_on n)) k
      @ concat (map (\<lambda>n. replicate (count_list (nn_depends_on n) k) (nn_id n)) ns)"
    by (intro Cons.IH) (simp)
  with Cons.prems show ?case by (simp add: fold_pushDependent)
qed

lemma count_list_replicate: "count_list (replicate c i) k = (if i = k then c else 0)"
  by (induction c) auto

lemma count_concat_replicate:
  "distinct (map nn_id ns) \<Longrightarrow> n \<in> set ns \<Longrightarrow>
   count_list (concat (map (\<lambda>n. replicate (f n) (nn_id n)) ns)) (nn_id n) = f n"
proof (induction ns)
  case Nil
  then show ?case by simp
next
  case (Cons a ns)
  have absent: "i \<notin> nn_id ` set ns \<Longrightarrow>
      count_list (concat (map (\<lambda>n. replicate (f n) (nn_id n)) ns)) i = 0" for i
    by (auto simp: count_list_0_iff)
  from Cons absent show ?case by (auto simp: count_list_replicate)
qed

definition emptyChildren :: "network_node list \<Rightarrow> string list jsmap" where
  "emptyChildren nodes = mapFromEntries (map (\<lambda>n. (nn_id n, [])) nodes)"

lemma getOr_emptyChildren [simp]: "getOr [] (emptyChildren nodes) k = []"
proof -
  have "v = []" if "map_of (rev (map (\<lambda>n. (nn_id n, [])) nodes)) k = Some v" for v
    using map_of_SomeD [OF that] by auto
  then show ?thesis
    by (auto simp: emptyChildren_def getOr_def mapGet_mapFromEntries split: option.splits)
qed

lemma mapHas_emptyChildren: "mapHas (emptyChildren nodes) k \<longleftrightarrow> k \<in> nodeIds nodes"
  using not_mapHas_iff [of "emptyChildren nodes" k]
  by (auto simp: emptyChildren_def mapGet_mapFromEntries map_of_eq_None_iff nodeIds_def image_image)

lemma dependentsMap_pushAll: "dependentsMap nodes = pushAll nodes (emptyChildren nodes)"
  by (simp add: dependentsMap_def pushAll_def emptyChildren_def)

lemma childTable_dependentsMap:
  assumes "wellFormedNodes nodes"
  shows "childTable nodes (dependentsMap nodes)"
proof -
  have eq: "getOr [] (dependentsMap nodes) k =
      concat (map (\<lambda>n. replicate (count_list (nn_depends_on n) k) (nn_id n)) nodes)" for k
    using assms unfolding dependentsMap_pushAll
    by (subst getOr_pushAll) (auto simp: wellFormedNodes_def mapHas_emptyChildren)
  with assms show ?thesis
    by (auto simp: childTable_def count_concat_replicate wellFormedNodes_def nodeIds_def)
qed

lemma childTable_edge:
  assumes "wellFormedNodes nodes" "childTable nodes m"
  shows "set (getOr [] m d) = {x. (d, x) \<in> edges nodes}"
proof (intro set_eqI iffI)
  fix x
  assume x: "x \<in> set (getOr [] m d)"
  with assms(2) obtain n where n: "n \<in> set nodes" "x = nn_id n"
    by (auto simp: childTable_def nodeIds_def)
  with assms(2) x have "count_list (nn_depends_on n) d \<noteq> 0"
    by (metis childTable_def count_list_0_iff)
  with n show "x \<in> {x. (d, x) \<in> edges nodes}" by (auto simp: edges_def count_list_0_iff)
next
  fix x
  assume "x \<in> {x. (d, x) \<in> edges nodes}"
  then obtain n where n: "n \<in> set nodes" "d \<in> set (nn_depends_on n)" "x = nn_id n"
    by (auto simp: edges_def)
  with assms(2) have "count_list (getOr [] m d) x \<noteq> 0"
    by (simp add: childTable_def count_list_0_iff)
  then show "x \<in> set (getOr [] m d)" by (auto simp: count_list_0_iff)
qed

section \<open>Kahn's algorithm\<close>

text \<open>Dependencies of a node that are not placed yet, with multiplicity.\<close>

definition unplaced :: "string list \<Rightarrow> network_node \<Rightarrow> nat" where
  "unplaced order n = length (filter (\<lambda>d. d \<notin> set order) (nn_depends_on n))"

lemma unplaced_0: "unplaced order n = 0 \<longleftrightarrow> set (nn_depends_on n) \<subseteq> set order"
  by (auto simp: unplaced_def filter_empty_conv)

lemma unplaced_snoc:
  "current \<notin> set order \<Longrightarrow>
   unplaced (order @ [current]) n + count_list (nn_depends_on n) current = unplaced order n"
proof -
  assume c: "current \<notin> set order"
  have "length (filter (\<lambda>d. d \<notin> set (order @ [current])) ds) + count_list ds current
      = length (filter (\<lambda>d. d \<notin> set order) ds)" for ds
    using c by (induction ds) auto
  then show ?thesis by (simp add: unplaced_def)
qed

definition placedClosed :: "network_node list \<Rightarrow> string list \<Rightarrow> bool" where
  "placedClosed nodes order \<longleftrightarrow>
     (\<forall>n \<in> set nodes. nn_id n \<in> set order \<longrightarrow> set (nn_depends_on n) \<subseteq> set order)"

definition readySet :: "network_node list \<Rightarrow> string list \<Rightarrow> string set" where
  "readySet nodes order =
     {nn_id n | n. n \<in> set nodes \<and> nn_id n \<notin> set order \<and> unplaced order n = 0}"

definition kahnInv :: "network_node list \<Rightarrow> int jsmap \<Rightarrow> string list \<Rightarrow> string list \<Rightarrow> bool" where
  "kahnInv nodes indegree ready order \<longleftrightarrow>
     distinct (order @ ready) \<and> set order \<subseteq> nodeIds nodes \<and> placedClosed nodes order \<and>
     set ready = readySet nodes order \<and>
     (\<forall>n \<in> set nodes. getOr 0 indegree (nn_id n) = int (unplaced order n)) \<and>
     (\<forall>k. k \<notin> nodeIds nodes \<longrightarrow> getOr 0 indegree k = 0)"

lemma node_by_id:
  "wellFormedNodes nodes \<Longrightarrow> n \<in> set nodes \<Longrightarrow> m \<in> set nodes \<Longrightarrow> nn_id n = nn_id m \<Longrightarrow> n = m"
  by (auto simp: wellFormedNodes_def distinct_map inj_on_def)

lemma kahnInv_initial:
  assumes "wellFormedNodes nodes"
  shows "kahnInv nodes (indegreeMap nodes) (initialReady nodes (indegreeMap nodes)) []"
proof -
  have d: "distinct (map nn_id nodes)" using assms by (simp add: wellFormedNodes_def)
  have g: "getOr 0 (indegreeMap nodes) (nn_id n) = depCount n" if "n \<in> set nodes" for n
    using mapGet_indegreeMap [OF d that] by (simp add: getOr_def)
  have z: "getOr 0 (indegreeMap nodes) k = 0" if "k \<notin> nodeIds nodes" for k
    using mapGet_indegreeMap_None [OF that] by (simp add: getOr_def)
  have r: "initialReady nodes (indegreeMap nodes) = map nn_id (filter (\<lambda>n. nn_depends_on n = []) nodes)"
    unfolding initialReady_def
    by (intro arg_cong [where f = "map nn_id"] filter_cong refl)
       (auto simp: mapGet_indegreeMap [OF d] depCount_def)
  show ?thesis
    using d g z unfolding r
    by (auto simp: kahnInv_def placedClosed_def readySet_def unplaced_def depCount_def
        distinct_map_filter)
qed

lemma kahnInv_step:
  assumes wf: "wellFormedNodes nodes" and ch: "childTable nodes dependents"
    and inv: "kahnInv nodes indegree ready order"
    and mset: "distinct (current # rest)" "set (current # rest) = set ready"
    and relax: "relax (getOr [] dependents current) indegree rest = (indegree', ready')"
  shows "kahnInv nodes indegree' ready' (order @ [current])"
proof -
  let ?c = "\<lambda>k. count_list (getOr [] dependents current) k"
  from relax_spec [OF relax] obtain new where
    val: "\<And>k. getOr 0 indegree' k = getOr 0 indegree k - int (?c k)" and
    new: "ready' = rest @ new" "distinct new"
      "set new = {k. 1 \<le> getOr 0 indegree k \<and> getOr 0 indegree k \<le> int (?c k)}"
    by blast
  from inv mset have cur: "current \<notin> set order" "current \<in> readySet nodes order"
    by (auto simp: kahnInv_def)
  have cnt: "?c (nn_id n) = count_list (nn_depends_on n) current" if "n \<in> set nodes" for n
    using ch that by (simp add: childTable_def)
  have unp: "unplaced (order @ [current]) n + ?c (nn_id n) = unplaced order n" if "n \<in> set nodes" for n
    using unplaced_snoc [OF cur(1), of n] cnt [OF that] by simp
  have deg: "getOr 0 indegree (nn_id n) = int (unplaced order n)" if "n \<in> set nodes" for n
    using inv that by (simp add: kahnInv_def)
  have outside: "getOr 0 indegree k = 0 \<and> ?c k = 0" if "k \<notin> nodeIds nodes" for k
    using inv ch that by (auto simp: kahnInv_def childTable_def count_list_0_iff)
  have new_eq: "set new = {nn_id n | n. n \<in> set nodes \<and> unplaced order n \<noteq> 0 \<and> unplaced (order @ [current]) n = 0}"
  proof -
    have "k \<in> set new \<longleftrightarrow> (\<exists>n \<in> set nodes. k = nn_id n \<and> unplaced order n \<noteq> 0 \<and> unplaced (order @ [current]) n = 0)" for k
    proof (cases "k \<in> nodeIds nodes")
      case True
      then obtain n where n: "n \<in> set nodes" "k = nn_id n" by (auto simp: nodeIds_def)
      with new(3) deg unp have "k \<in> set new \<longleftrightarrow> unplaced order n \<noteq> 0 \<and> unplaced (order @ [current]) n = 0"
        by fastforce
      with n node_by_id [OF wf] show ?thesis by auto
    next
      case False
      with outside new(3) show ?thesis by (auto simp: nodeIds_def)
    qed
    then show ?thesis by blast
  qed
  have closed: "placedClosed nodes (order @ [current])"
    using inv cur node_by_id [OF wf] by (auto simp: kahnInv_def placedClosed_def readySet_def unplaced_0)
  have blocked: "nn_id n \<notin> set order" if "n \<in> set nodes" "unplaced order n \<noteq> 0" for n
    using inv that by (auto simp: kahnInv_def placedClosed_def unplaced_0)
  have cur_new: "current \<notin> set new"
    using cur(2) new_eq node_by_id [OF wf] by (auto simp: readySet_def)
  have rest_new: "set rest \<inter> set new = {}"
  proof -
    have False if x: "x \<in> set rest" "x \<in> set new" for x
    proof -
      from x(2) new_eq obtain n where n: "n \<in> set nodes" "x = nn_id n" "unplaced order n \<noteq> 0" by auto
      from x(1) mset inv have "x \<in> readySet nodes order" by (auto simp: kahnInv_def)
      then obtain m where m: "m \<in> set nodes" "x = nn_id m" "unplaced order m = 0"
        by (auto simp: readySet_def)
      from n(2) m(2) have "n = m" by (intro node_by_id [OF wf n(1) m(1)]) simp
      with n(3) m(3) show False by simp
    qed
    then show ?thesis by blast
  qed
  have ready_eq: "set ready' = readySet nodes (order @ [current])"
  proof -
    have r: "set rest = readySet nodes order - {current}" using mset inv by (auto simp: kahnInv_def)
    have z: "unplaced (order @ [current]) n = 0" if "n \<in> set nodes" "unplaced order n = 0" for n
      using unp [OF that(1)] that(2) by simp
    have "set rest \<subseteq> readySet nodes (order @ [current])"
      unfolding r using z by (auto simp: readySet_def)
    moreover have "set new \<subseteq> readySet nodes (order @ [current])"
      using new_eq blocked cur_new unfolding readySet_def by fastforce
    moreover have "readySet nodes (order @ [current]) \<subseteq> set rest \<union> set new"
      unfolding r new_eq readySet_def by auto
    ultimately show ?thesis using new(1) by auto
  qed
  have new_order: "set new \<inter> set order = {}" unfolding new_eq using blocked by auto
  have "distinct ((order @ [current]) @ ready')"
    using inv mset new(1,2) new_order cur_new rest_new by (auto simp: kahnInv_def)
  moreover have "set (order @ [current]) \<subseteq> nodeIds nodes"
    using inv cur by (auto simp: kahnInv_def readySet_def nodeIds_def)
  moreover have "getOr 0 indegree' (nn_id n) = int (unplaced (order @ [current]) n)" if "n \<in> set nodes" for n
    using val deg [OF that] unp [OF that] by simp
  moreover have "getOr 0 indegree' k = 0" if "k \<notin> nodeIds nodes" for k
    using val outside [OF that] by simp
  ultimately show ?thesis using closed ready_eq by (simp add: kahnInv_def)
qed

lemma sort_key_Cons:
  "sort_key key ready = current # rest \<Longrightarrow> distinct ready \<Longrightarrow>
   distinct (current # rest) \<and> set (current # rest) = set ready \<and>
   (\<forall>x \<in> set ready. key current \<le> key x)"
proof -
  assume eq: "sort_key key ready = current # rest" and d: "distinct ready"
  have "distinct (sort_key key ready)" "set (sort_key key ready) = set ready" using d by simp_all
  moreover have "sorted (map key (sort_key key ready))" by simp
  ultimately show ?thesis unfolding eq by auto
qed

text \<open>Every node of an order comes after all its dependencies.\<close>

definition dependenciesFirst :: "network_node list \<Rightarrow> string list \<Rightarrow> bool" where
  "dependenciesFirst nodes order \<longleftrightarrow>
     (\<forall>n \<in> set nodes. \<forall>xs ys. order = xs @ nn_id n # ys \<longrightarrow> set (nn_depends_on n) \<subseteq> set xs)"

lemma dependenciesFirst_snoc:
  assumes wf: "wellFormedNodes nodes" and "dependenciesFirst nodes order"
    and n: "n \<in> set nodes" "nn_id n \<notin> set order" "set (nn_depends_on n) \<subseteq> set order"
  shows "dependenciesFirst nodes (order @ [nn_id n])"
  unfolding dependenciesFirst_def
proof (intro ballI allI impI)
  fix m xs ys
  assume m: "m \<in> set nodes" and eq: "order @ [nn_id n] = xs @ nn_id m # ys"
  show "set (nn_depends_on m) \<subseteq> set xs"
  proof (cases ys rule: rev_cases)
    case Nil
    with eq have "xs = order" "nn_id m = nn_id n" by auto
    with n m node_by_id [OF wf] show ?thesis by metis
  next
    case (snoc zs z)
    with eq have "order = xs @ nn_id m # zs" by auto
    with assms(2) m show ?thesis by (auto simp: dependenciesFirst_def)
  qed
qed

text \<open>The loop ends with an empty ready list in a state that satisfies the invariant.\<close>

lemma kahn_result:
  assumes wf: "wellFormedNodes nodes"
  shows "childTable nodes dependents \<Longrightarrow> kahnInv nodes indegree ready order \<Longrightarrow>
    dependenciesFirst nodes order \<Longrightarrow>
    kahn key dependents indegree ready order = (order', indegree') \<Longrightarrow>
    kahnInv nodes indegree' [] order' \<and> dependenciesFirst nodes order'"
proof (induction key dependents indegree ready order arbitrary: order' indegree' rule: kahn.induct)
  case (1 key dependents indegree ready order)
  show ?case
  proof (cases "sort_key key ready")
    case Nil
    then have "ready = []" by (metis length_sort length_0_conv)
    with 1 Nil show ?thesis by (simp add: kahn.simps)
  next
    case (Cons current rest)
    have d: "distinct ready" using "1.prems" by (simp add: kahnInv_def)
    obtain i r where rx: "relax (getOr [] dependents current) indegree rest = (i, r)" by fastforce
    note sorted = sort_key_Cons [OF Cons d]
    have inv: "kahnInv nodes i r (order @ [current])"
      using kahnInv_step [OF wf "1.prems"(1,2) _ _ rx] sorted by blast
    from sorted "1.prems"(2) have "current \<in> readySet nodes order" by (auto simp: kahnInv_def)
    then obtain n where n: "n \<in> set nodes" "current = nn_id n"
      "nn_id n \<notin> set order" "set (nn_depends_on n) \<subseteq> set order"
      by (auto simp: readySet_def unplaced_0)
    have first: "dependenciesFirst nodes (order @ [current])"
      using dependenciesFirst_snoc [OF wf "1.prems"(3) n(1,3,4)] n(2) by simp
    have "kahn key dependents i r (order @ [current]) = (order', indegree')"
      using "1.prems"(4) by (simp add: kahn.simps [of key dependents indegree] Cons rx)
    with "1.IH" [OF Cons rx [symmetric] "1.prems"(1) inv first] show ?thesis .
  qed
qed

section \<open>The order is the greedy order\<close>

lemma set_readyNodes:
  "readySet nodes order =
     nn_id ` {n \<in> set nodes. nn_id n \<notin> set order \<and> set (nn_depends_on n) \<subseteq> set order}"
  by (auto simp: readySet_def unplaced_0)

lemma indexMap_nth:
  assumes "distinct (map nn_id nodes)" "i < length nodes"
  shows "getOr 0 (indexMap nodes) (nn_id (nodes ! i)) = int i"
proof -
  let ?es = "map (\<lambda>(i, n). (nn_id n, int i)) (enumerate 0 nodes)"
  have keys: "map fst ?es = map nn_id nodes"
    by (simp add: comp_def case_prod_unfold flip: map_map [where f = nn_id and g = snd, unfolded comp_def])
  have "(nn_id (nodes ! i), int i) = ?es ! i" using assms(2) by (simp add: nth_enumerate_eq)
  also have "\<dots> \<in> set ?es" using assms(2) by (intro nth_mem) simp
  finally have "map_of ?es (nn_id (nodes ! i)) = Some (int i)"
    using keys assms(1) by (intro map_of_is_SomeI) auto
  moreover have "mapFromEntries ?es = ?es" using keys assms(1) by (intro mapFromEntries_distinct) simp
  ultimately show ?thesis by (simp add: indexMap_def getOr_def)
qed

text \<open>The ready node with the smallest index is the first ready node.\<close>

lemma least_index_firstReady:
  assumes wf: "wellFormedNodes nodes"
    and cur: "current \<in> readySet nodes order"
    and least: "\<forall>x \<in> readySet nodes order. getOr 0 (indexMap nodes) current \<le> getOr 0 (indexMap nodes) x"
  shows "\<exists>n. firstReady nodes order = Some n \<and> nn_id n = current"
proof -
  let ?P = "\<lambda>n. nn_id n \<notin> set order \<and> set (nn_depends_on n) \<subseteq> set order"
  have d: "distinct (map nn_id nodes)" using wf by (simp add: wellFormedNodes_def)
  from cur obtain m where m: "m \<in> set nodes" "nn_id m = current" "?P m"
    by (auto simp: set_readyNodes)
  then obtain j where j: "j < length nodes" "nodes ! j = m" by (auto simp: in_set_conv_nth)
  from m obtain n where n: "firstReady nodes order = Some n"
    unfolding firstReady_def by (metis (mono_tags, lifting) find_None_iff option.exhaust)
  then obtain i where i: "i < length nodes" "?P (nodes ! i)" "n = nodes ! i" "\<forall>k<i. \<not> ?P (nodes ! k)"
    by (auto simp: firstReady_def find_Some_iff)
  have "nn_id n \<in> readySet nodes order" using i by (auto simp: set_readyNodes)
  with least have "int j \<le> int i"
    using indexMap_nth [OF d i(1)] indexMap_nth [OF d j(1)] i j m by fastforce
  moreover have "\<not> j < i" using i(4) j m by auto
  ultimately show ?thesis using n i j m by auto
qed

lemma kahn_greedy:
  assumes wf: "wellFormedNodes nodes"
  shows "childTable nodes dependents \<Longrightarrow> kahnInv nodes indegree ready order \<Longrightarrow>
    key = (\<lambda>id. getOr 0 (indexMap nodes) id) \<Longrightarrow>
    fst (kahn key dependents indegree ready order) = greedyOrder nodes order"
proof (induction key dependents indegree ready order rule: kahn.induct)
  case (1 key dependents indegree ready order)
  show ?case
  proof (cases "sort_key key ready")
    case Nil
    then have "ready = []" by (metis length_sort length_0_conv)
    with "1.prems" have "readySet nodes order = {}" by (simp add: kahnInv_def)
    then have "firstReady nodes order = None"
      by (auto simp: firstReady_def find_None_iff set_readyNodes)
    with Nil show ?thesis by (simp add: kahn.simps greedyOrder.simps)
  next
    case (Cons current rest)
    have d: "distinct ready" and r: "set ready = readySet nodes order"
      using "1.prems" by (simp_all add: kahnInv_def)
    obtain i r where rx: "relax (getOr [] dependents current) indegree rest = (i, r)" by fastforce
    note sorted = sort_key_Cons [OF Cons d]
    have inv: "kahnInv nodes i r (order @ [current])"
      using kahnInv_step [OF wf "1.prems"(1,2) _ _ rx] sorted by blast
    from sorted r have "current \<in> readySet nodes order" by auto
    with sorted r "1.prems"(3) obtain n where "firstReady nodes order = Some n" "nn_id n = current"
      using least_index_firstReady [OF wf] by blast
    then have "greedyOrder nodes order = greedyOrder nodes (order @ [current])"
      by (simp add: greedyOrder.simps [of nodes order])
    with "1.IH" [OF Cons rx [symmetric] "1.prems"(1) inv "1.prems"(3)] show ?thesis
      by (simp add: kahn.simps [of key dependents indegree] Cons rx)
  qed
qed

lemma topological_result:
  assumes "wellFormedNodes nodes"
  obtains indegree where
    "kahnInv nodes indegree [] (ts_order (stableTopologicalSort nodes))"
    "dependenciesFirst nodes (ts_order (stableTopologicalSort nodes))"
    "ts_cyclicNodeIds (stableTopologicalSort nodes) =
       map nn_id (filter (\<lambda>n. getOr 0 indegree (nn_id n) > 0) nodes)"
proof -
  obtain order indegree where k:
    "kahn (\<lambda>id. getOr 0 (indexMap nodes) id) (dependentsMap nodes) (indegreeMap nodes)
       (initialReady nodes (indegreeMap nodes)) [] = (order, indegree)" by fastforce
  have "kahnInv nodes indegree [] order \<and> dependenciesFirst nodes order"
    using kahn_result [OF assms childTable_dependentsMap kahnInv_initial _ k] assms
    by (simp add: dependenciesFirst_def)
  with k show thesis by (intro that [of indegree]) (simp_all add: stableTopologicalSort_def)
qed

lemma topological_greedy:
  assumes "wellFormedNodes nodes"
  shows "ts_order (stableTopologicalSort nodes) = greedyOrder nodes []"
  using kahn_greedy [OF assms childTable_dependentsMap kahnInv_initial refl] assms
  by (simp add: stableTopologicalSort_def Let_def case_prod_beta)

lemma topological_dependenciesFirst:
  "wellFormedNodes nodes \<Longrightarrow> dependenciesFirst nodes (ts_order (stableTopologicalSort nodes))"
  by (rule topological_result)

section \<open>Cycles\<close>

lemma cyclicNodeIds_set:
  assumes "wellFormedNodes nodes"
  shows "ts_cyclicNodeIds (stableTopologicalSort nodes) =
    filter (\<lambda>id. id \<notin> set (ts_order (stableTopologicalSort nodes))) (map nn_id nodes)"
proof (rule topological_result [OF assms])
  fix indegree
  let ?o = "ts_order (stableTopologicalSort nodes)"
  assume inv: "kahnInv nodes indegree [] ?o"
    and cyc: "ts_cyclicNodeIds (stableTopologicalSort nodes) =
      map nn_id (filter (\<lambda>n. getOr 0 indegree (nn_id n) > 0) nodes)"
  have none: "readySet nodes ?o = {}" using inv by (simp add: kahnInv_def)
  have "getOr 0 indegree (nn_id n) > 0 \<longleftrightarrow> nn_id n \<notin> set ?o" if "n \<in> set nodes" for n
  proof -
    have "unplaced ?o n = 0 \<longleftrightarrow> nn_id n \<in> set ?o"
      using none inv that by (auto simp: readySet_def kahnInv_def placedClosed_def unplaced_0)
    with inv that show ?thesis by (auto simp: kahnInv_def)
  qed
  then show ?thesis unfolding cyc filter_map by (auto intro!: arg_cong [where f = "map nn_id"] filter_cong)
qed

lemma topological_order_basic:
  assumes "wellFormedNodes nodes"
  shows "distinct (ts_order (stableTopologicalSort nodes)) \<and>
    set (ts_order (stableTopologicalSort nodes)) \<subseteq> nodeIds nodes"
  by (rule topological_result [OF assms]) (auto simp: kahnInv_def)

lemma edges_finite: "finite (edges nodes)"
proof -
  have "edges nodes = (\<Union>n \<in> set nodes. (\<lambda>d. (d, nn_id n)) ` set (nn_depends_on n))"
    by (auto simp: edges_def)
  then show ?thesis by simp
qed

lemma acyclic_all_placed:
  assumes wf: "wellFormedNodes nodes" and acyc: "acyclic (edges nodes)"
    and inv: "kahnInv nodes indegree [] order"
  shows "nodeIds nodes \<subseteq> set order"
proof (rule ccontr)
  assume "\<not> nodeIds nodes \<subseteq> set order"
  then obtain x where x: "x \<in> nodeIds nodes - set order" by blast
  have "wf (edges nodes)" using acyc edges_finite by (rule finite_acyclic_wf [rotated])
  from wfE_min [OF this x] obtain z where z: "z \<in> nodeIds nodes - set order"
    and min: "\<And>y. (y, z) \<in> edges nodes \<Longrightarrow> y \<notin> nodeIds nodes - set order" by blast
  then obtain n where n: "n \<in> set nodes" "z = nn_id n" by (auto simp: nodeIds_def)
  have "unplaced order n \<noteq> 0" using inv n z by (auto simp: kahnInv_def readySet_def)
  then obtain d where d: "d \<in> set (nn_depends_on n)" "d \<notin> set order" by (auto simp: unplaced_0)
  with n wf have "(d, z) \<in> edges nodes" "d \<in> nodeIds nodes"
    by (auto simp: edges_def wellFormedNodes_def)
  with min d show False by blast
qed

lemma takeWhile_shorter: "d \<in> set xs \<Longrightarrow> length (takeWhile (\<lambda>x. x \<noteq> d) xs) < length xs"
  by (induction xs) auto

lemma takeWhile_keep: "x \<notin> set xs \<Longrightarrow> takeWhile (\<lambda>y. y \<noteq> x) (xs @ x # ys) = xs"
  by (induction xs) auto

lemma all_placed_acyclic:
  assumes first: "dependenciesFirst nodes order" and all: "nodeIds nodes \<subseteq> set order"
    and dist: "distinct order"
  shows "acyclic (edges nodes)"
proof -
  define pos where "pos id = length (takeWhile (\<lambda>x. x \<noteq> id) order)" for id
  have "pos d < pos x" if "(d, x) \<in> edges nodes" for d x
  proof -
    from that obtain n where n: "n \<in> set nodes" "x = nn_id n" "d \<in> set (nn_depends_on n)"
      by (auto simp: edges_def)
    with all obtain xs ys where split: "order = xs @ x # ys"
      by (metis image_eqI nodeIds_def split_list subsetD)
    with n first have "d \<in> set xs" by (auto simp: dependenciesFirst_def)
    moreover from split dist have "x \<notin> set xs" by auto
    ultimately have "pos x = length xs" "pos d < length xs"
      using split takeWhile_shorter [of d xs]
      by (auto simp: pos_def takeWhile_append1 takeWhile_append2 takeWhile_keep)
    then show ?thesis by simp
  qed
  then have "edges nodes \<subseteq> measure pos" by auto
  then show ?thesis by (meson acyclic_subset wf_acyclic wf_measure)
qed

lemma all_placed_iff_acyclic:
  assumes "wellFormedNodes nodes" "kahnInv nodes indegree [] order" "dependenciesFirst nodes order"
  shows "nodeIds nodes \<subseteq> set order \<longleftrightarrow> acyclic (edges nodes)"
  using assms acyclic_all_placed all_placed_acyclic by (auto simp: kahnInv_def)

section \<open>Descendants\<close>

lemma enqueueNew_spec:
  "enqueueNew ds selected queue = (selected', queue') \<Longrightarrow>
   \<exists>new. selected' = selected @ new \<and> queue' = queue @ new \<and> set new = set ds - set selected"
proof (induction ds arbitrary: selected queue)
  case Nil
  then show ?case by simp
next
  case (Cons d ds)
  show ?case
  proof (cases "d \<in> set selected")
    case True
    with Cons.prems have "enqueueNew ds selected queue = (selected', queue')" by simp
    from Cons.IH [OF this] True show ?thesis by auto
  next
    case False
    with Cons.prems have "enqueueNew ds (selected @ [d]) (queue @ [d]) = (selected', queue')" by simp
    from Cons.IH [OF this] obtain new where
      "selected' = (selected @ [d]) @ new" "queue' = (queue @ [d]) @ new"
      "set new = set ds - set (selected @ [d])" by blast
    with False show ?thesis by (intro exI [of _ "d # new"]) auto
  qed
qed

definition children :: "string list jsmap \<Rightarrow> (string \<times> string) set" where
  "children m = {(d, x). x \<in> set (getOr [] m d)}"

lemma bfs_closure:
  "set queue \<subseteq> set selected \<Longrightarrow> set selected \<subseteq> (children m)\<^sup>* `` R \<Longrightarrow> R \<subseteq> set selected \<Longrightarrow>
   (\<And>d x. d \<in> set selected - set queue \<Longrightarrow> (d, x) \<in> children m \<Longrightarrow> x \<in> set selected) \<Longrightarrow>
   set (bfs m selected queue) = (children m)\<^sup>* `` R"
proof (induction m selected queue rule: bfs.induct)
  case (1 m selected)
  have "x \<in> set selected" if "(r, x) \<in> (children m)\<^sup>*" "r \<in> R" for r x
    using that 1(3,4) by (induction rule: rtrancl_induct) auto
  with 1 show ?case by auto
next
  case (2 m selected current queue)
  obtain s q where eq: "enqueueNew (getOr [] m current) selected queue = (s, q)" by fastforce
  from enqueueNew_spec [OF eq] obtain new where
    new: "s = selected @ new" "q = queue @ new" "set new = set (getOr [] m current) - set selected"
    by blast
  have "set (bfs m s q) = (children m)\<^sup>* `` R"
  proof (rule 2(1) [OF eq [symmetric]])
    show "set q \<subseteq> set s" using 2(2) new by auto
    show "R \<subseteq> set s" using 2(4) new by auto
    have "x \<in> (children m)\<^sup>* `` R" if "x \<in> set new" for x
    proof -
      from that new have "(current, x) \<in> children m" by (simp add: children_def)
      moreover from 2(2,3) have "current \<in> (children m)\<^sup>* `` R" by auto
      ultimately show ?thesis by (auto intro: rtrancl_into_rtrancl)
    qed
    with 2(3) new show "set s \<subseteq> (children m)\<^sup>* `` R" by auto
    fix d x
    assume d: "d \<in> set s - set q" and x: "(d, x) \<in> children m"
    show "x \<in> set s"
    proof (cases "d = current")
      case True
      with x new show ?thesis by (auto simp: children_def)
    next
      case False
      with d new 2(5) [of d x] x show ?thesis by auto
    qed
  qed
  with eq show ?case by simp
qed

lemma children_edges:
  "wellFormedNodes nodes \<Longrightarrow> childTable nodes m \<Longrightarrow> children m = edges nodes"
  using childTable_edge by (auto simp: children_def)

lemma checkNodes_Inr:
  "checkNodes ns seen = Inr ids \<longleftrightarrow>
     ids = seen @ map nn_id ns \<and> distinct (map nn_id ns) \<and> set seen \<inter> nn_id ` set ns = {}"
  by (induction ns arbitrary: seen) auto

lemma checkDependencies_Inr:
  "checkDependencies ids i ds seen m = Inr m' \<longleftrightarrow>
     m' = foldl (pushDependent i) m ds \<and> i \<notin> set ds \<and> distinct ds \<and> set ds \<subseteq> set ids \<and>
     set seen \<inter> set ds = {}"
  by (induction ds arbitrary: seen m) auto

lemma checkDependencies_Inl:
  "checkDependencies ids i ds [] m = Inl e \<Longrightarrow>
     \<not> (i \<notin> set ds \<and> distinct ds \<and> set ds \<subseteq> set ids)"
  using checkDependencies_Inr [of ids i ds "[]" m "foldl (pushDependent i) m ds"] by auto

lemma checkAllDependencies_Inr:
  "checkAllDependencies ids ns m = Inr m' \<longleftrightarrow>
     m' = pushAll ns m \<and> (\<forall>n \<in> set ns. nn_id n \<notin> set (nn_depends_on n) \<and>
       distinct (nn_depends_on n) \<and> set (nn_depends_on n) \<subseteq> set ids)"
proof (induction ns arbitrary: m)
  case Nil
  then show ?case by auto
next
  case (Cons n ns)
  show ?case
  proof (cases "checkDependencies ids (nn_id n) (nn_depends_on n) [] m")
    case (Inl e)
    with checkDependencies_Inl [OF this] show ?thesis by auto
  next
    case (Inr m1)
    then have m1: "m1 = foldl (pushDependent (nn_id n)) m (nn_depends_on n)"
      and ok: "nn_id n \<notin> set (nn_depends_on n) \<and> distinct (nn_depends_on n) \<and>
        set (nn_depends_on n) \<subseteq> set ids"
      by (simp_all add: checkDependencies_Inr)
    from Inr have "checkAllDependencies ids (n # ns) m = checkAllDependencies ids ns m1" by simp
    with Cons.IH [of m1] m1 ok show ?thesis by simp
  qed
qed

lemma visitedCount_acyclic:
  assumes wf: "wellFormedNodes nodes"
  shows "visitedCount nodes (dependentsMap nodes) (indegreeMap nodes) = length nodes
    \<longleftrightarrow> acyclic (edges nodes)"
proof -
  obtain order indegree where k:
    "kahn (\<lambda>_. 0) (dependentsMap nodes) (indegreeMap nodes)
       (initialReady nodes (indegreeMap nodes)) [] = (order, indegree)" by fastforce
  have inv: "kahnInv nodes indegree [] order" and first: "dependenciesFirst nodes order"
    using kahn_result [OF wf childTable_dependentsMap kahnInv_initial _ k] wf
    by (simp_all add: dependenciesFirst_def)
  have v: "visitedCount nodes (dependentsMap nodes) (indegreeMap nodes) = length order"
    by (simp add: visitedCount_def k)
  have card: "card (nodeIds nodes) = length nodes"
    using wf distinct_card [of "map nn_id nodes"] by (simp add: wellFormedNodes_def nodeIds_def)
  have sub: "set order \<subseteq> nodeIds nodes" and dist: "distinct order" using inv by (simp_all add: kahnInv_def)
  have fin: "finite (nodeIds nodes)" by (simp add: nodeIds_def)
  have full: "length order = length nodes \<longleftrightarrow> set order = nodeIds nodes"
    using card sub dist fin by (metis card_subset_eq distinct_card)
  have unplaced_all: "nodeIds nodes \<subseteq> set order \<longleftrightarrow> acyclic (edges nodes)"
    by (rule all_placed_iff_acyclic [OF wf inv first])
  show ?thesis using v full sub unplaced_all by auto
qed

text \<open>The two closures.\<close>

lemma descendantsIncludingSelf_cases:
  fixes d :: network_definition and i :: string
  defines "nodes \<equiv> nd_nodes d"
  shows "descendantsIncludingSelf d i =
    (if \<not> distinct (map nn_id nodes) then Inl (DescendantsError ''DESCENDANTS_DAG_INVALID'')
     else if i \<notin> nodeIds nodes then Inl (DescendantsError ''DESCENDANTS_NODE_NOT_FOUND'')
     else if \<not> strictNodes nodes \<or> \<not> acyclic (edges nodes)
       then Inl (DescendantsError ''DESCENDANTS_DAG_INVALID'')
     else Inr (filter (\<lambda>x. (i, x) \<in> (edges nodes)\<^sup>*) (map nn_id nodes)))"
proof -
  have checkNodes_Inl: "checkNodes ns seen = Inl e \<Longrightarrow> e = DescendantsError ''DESCENDANTS_DAG_INVALID''"
    for ns seen e by (induction ns arbitrary: seen) (auto split: if_splits)
  have checkDependencies_code: "checkDependencies ids j ds seen m = Inl e \<Longrightarrow>
      e = DescendantsError ''DESCENDANTS_DAG_INVALID''" for ids j ds seen m e
    by (induction ds arbitrary: seen m) (auto split: if_splits)
  have checkAll_code: "checkAllDependencies ids ns m = Inl e \<Longrightarrow>
      e = DescendantsError ''DESCENDANTS_DAG_INVALID''" for ids ns m e
    by (induction ns arbitrary: m) (auto split: sum.splits dest: checkDependencies_code)
  let ?ids = "map nn_id nodes"
  show ?thesis
  proof (cases "checkNodes nodes []")
    case (Inl e)
    then have "\<not> distinct ?ids" using checkNodes_Inr [of nodes "[]" ?ids] by auto
    with Inl checkNodes_Inl [OF Inl] show ?thesis
      by (simp add: descendantsIncludingSelf_def nodes_def)
  next
    case (Inr ids)
    then have ids: "ids = ?ids" "distinct ?ids" using checkNodes_Inr [of nodes "[]" ids] by auto
    then have set_ids: "set ids = nodeIds nodes" by (simp add: nodeIds_def)
    show ?thesis
    proof (cases "checkAllDependencies ids nodes (emptyChildren nodes)")
      case Inl2: (Inl e)
      then have "\<not> strictNodes nodes"
        using checkAllDependencies_Inr [of ids nodes "emptyChildren nodes" "pushAll nodes (emptyChildren nodes)"]
          ids set_ids by (auto simp: strictNodes_def wellFormedNodes_def)
      with Inl2 checkAll_code [OF Inl2] Inr ids set_ids show ?thesis
        by (simp add: descendantsIncludingSelf_def nodes_def emptyChildren_def)
    next
      case Inr2: (Inr m)
      then have m: "m = dependentsMap nodes" and strict: "strictNodes nodes"
        using checkAllDependencies_Inr [of ids nodes "emptyChildren nodes" m] ids set_ids
        by (auto simp: strictNodes_def wellFormedNodes_def dependentsMap_pushAll)
      then have wf: "wellFormedNodes nodes" by (simp add: strictNodes_def)
      have ch: "children m = edges nodes"
        using children_edges [OF wf childTable_dependentsMap [OF wf]] m by simp
      have bfs: "set (bfs m [i] [i]) = (edges nodes)\<^sup>* `` {i}"
        using bfs_closure [of "[i]" "[i]" m "{i}"] ch by auto
      show ?thesis
        using Inr Inr2 ids set_ids strict visitedCount_acyclic [OF wf] bfs m
        by (simp add: descendantsIncludingSelf_def nodes_def emptyChildren_def Let_def)
    qed
  qed
qed

lemma closurePass_sound:
  "closurePass ns result = (result', changed) \<Longrightarrow> set ns \<subseteq> set nodes \<Longrightarrow>
   set result \<subseteq> (edges nodes)\<^sup>* `` R \<Longrightarrow> set result' \<subseteq> (edges nodes)\<^sup>* `` R"
proof (induction ns result arbitrary: result' changed rule: closurePass.induct)
  case (1 result)
  then show ?case by simp
next
  case (2 n ns result)
  show ?case
  proof (cases "nn_id n \<notin> set result \<and> list_ex (\<lambda>d. d \<in> set result) (nn_depends_on n)")
    case True
    then obtain d where d: "d \<in> set (nn_depends_on n)" "d \<in> set result" by (auto simp: list_ex_iff)
    with 2(4) have "(d, nn_id n) \<in> edges nodes" by (auto simp: edges_def)
    with d 2(5) have "nn_id n \<in> (edges nodes)\<^sup>* `` R" by (auto intro: rtrancl_into_rtrancl)
    moreover obtain r b where rb: "closurePass ns (result @ [nn_id n]) = (r, b)" by fastforce
    ultimately have "set r \<subseteq> (edges nodes)\<^sup>* `` R" using 2(4,5) by (intro 2(1) [OF True rb]) auto
    with rb True 2(3) show ?thesis by simp
  next
    case False
    with 2 show ?thesis by simp
  qed
qed

lemma closurePass_stable:
  "closurePass ns result = (result', False) \<Longrightarrow>
   result' = result \<and> (\<forall>n \<in> set ns. nn_id n \<in> set result \<or> set (nn_depends_on n) \<inter> set result = {})"
proof (induction ns result arbitrary: result' rule: closurePass.induct)
  case (1 result)
  then show ?case by simp
next
  case (2 n ns result)
  then have F: "\<not> (nn_id n \<notin> set result \<and> list_ex (\<lambda>d. d \<in> set result) (nn_depends_on n))"
    by (auto split: if_splits)
  moreover from F have "closurePass (n # ns) result = closurePass ns result"
    by (simp only: closurePass.simps if_False)
  with 2(3) have "closurePass ns result = (result', False)" by simp
  ultimately show ?case using 2(2) by (auto simp: list_ex_iff)
qed

lemma closureLoop_set:
  "set result \<subseteq> (edges nodes)\<^sup>* `` R \<Longrightarrow> R \<subseteq> set result \<Longrightarrow>
   set (closureLoop nodes result) = (edges nodes)\<^sup>* `` R"
proof (induction nodes result rule: closureLoop.induct)
  case (1 nodes result)
  obtain r b where rb: "closurePass nodes result = (r, b)" by fastforce
  have sound: "set r \<subseteq> (edges nodes)\<^sup>* `` R" using closurePass_sound [OF rb subset_refl 1(2)] .
  have grows: "R \<subseteq> set r" using closurePass_grows [OF rb] 1(3) by blast
  show ?case
  proof (cases b)
    case True
    with 1(1) [OF rb [symmetric] True sound grows] rb show ?thesis
      by (simp add: closureLoop.simps [of nodes result])
  next
    case False
    with rb have "closurePass nodes result = (r, False)" by simp
    from closurePass_stable [OF this] have st: "r = result"
      "\<forall>n \<in> set nodes. nn_id n \<in> set result \<or> set (nn_depends_on n) \<inter> set result = {}" by simp_all
    have "x \<in> set result" if "(a, x) \<in> (edges nodes)\<^sup>*" "a \<in> R" for a x
      using that
    proof (induction rule: rtrancl_induct)
      case base
      with 1(3) show ?case by auto
    next
      case (step y z)
      with st(2) show ?case by (auto simp: edges_def)
    qed
    with sound st False rb show ?thesis by (auto simp: closureLoop.simps [of nodes result])
  qed
qed

section \<open>Properties\<close>

definition sampleNode :: "string \<Rightarrow> string list \<Rightarrow> network_node" where
  "sampleNode i deps = \<lparr>nn_id = i, nn_job_id = i, nn_sql = i, nn_depends_on = deps,
     nn_trigger_rule = ALL_SUCCESS, nn_idempotent = True, nn_inputs = None, nn_outputs = None\<rparr>"

definition diamondNodes :: "network_node list" where
  "diamondNodes = [sampleNode ''d'' [''b'', ''c''], sampleNode ''b'' [''a''],
     sampleNode ''c'' [''a''], sampleNode ''a'' []]"

lemma diamond_wellFormed: "wellFormedNodes diamondNodes"
  by (simp add: wellFormedNodes_def diamondNodes_def sampleNode_def nodeIds_def)

lemma diamond_order: "stableTopologicalSort diamondNodes =
    \<lparr>ts_order = [''a'', ''b'', ''c'', ''d''], ts_cyclicNodeIds = []\<rparr>"
  by code_simp

text \<open>
  C18: The order of \<open>stableTopologicalSort\<close> on nodes with unique ids and known dependencies has
  no repetition, holds only node ids, places every node after all its dependencies, and the cyclic
  ids are exactly the ids the order leaves out, in definition order.
\<close>

theorem topological_sort_sound:
  assumes "wellFormedNodes nodes"
  shows "distinct (ts_order (stableTopologicalSort nodes)) \<and>
    set (ts_order (stableTopologicalSort nodes)) \<subseteq> nodeIds nodes \<and>
    dependenciesFirst nodes (ts_order (stableTopologicalSort nodes)) \<and>
    ts_cyclicNodeIds (stableTopologicalSort nodes) =
      filter (\<lambda>id. id \<notin> set (ts_order (stableTopologicalSort nodes))) (map nn_id nodes)"
  using assms topological_order_basic topological_dependenciesFirst cyclicNodeIds_set by simp

theorem topological_sort_sound_witness:
  "dependenciesFirst diamondNodes [''a'', ''b'', ''c'', ''d''] \<and>
   ts_cyclicNodeIds (stableTopologicalSort diamondNodes) = []"
  using topological_sort_sound [OF diamond_wellFormed] by (simp add: diamond_order)

text \<open>
  Stability as a refinement: the order of \<open>stableTopologicalSort\<close> is the one a reader of the
  definition would produce by repeatedly taking the first listed node whose dependencies are done.
\<close>

theorem topological_sort_greedy:
  assumes "wellFormedNodes nodes"
  shows "ts_order (stableTopologicalSort nodes) = greedyOrder nodes []"
  using assms by (rule topological_greedy)

theorem topological_sort_greedy_witness:
  "greedyOrder diamondNodes [] = [''a'', ''b'', ''c'', ''d'']"
  using topological_sort_greedy [OF diamond_wellFormed] diamond_order by simp

text \<open>
  Cycle detection is exact: \<open>stableTopologicalSort\<close> reports no cyclic node if and only if
  the dependency edges are acyclic, and then the order holds every node.
\<close>

theorem topological_sort_cycles:
  assumes "wellFormedNodes nodes"
  shows "(ts_cyclicNodeIds (stableTopologicalSort nodes) = [] \<longleftrightarrow> acyclic (edges nodes)) \<and>
    (nodeIds nodes \<subseteq> set (ts_order (stableTopologicalSort nodes)) \<longleftrightarrow> acyclic (edges nodes))"
proof (rule topological_result [OF assms])
  fix indegree
  assume "kahnInv nodes indegree [] (ts_order (stableTopologicalSort nodes))"
    "dependenciesFirst nodes (ts_order (stableTopologicalSort nodes))"
  from all_placed_iff_acyclic [OF assms this] show ?thesis
    by (auto simp: cyclicNodeIds_set [OF assms] filter_empty_conv nodeIds_def)
qed

theorem topological_sort_cycles_witness: "acyclic (edges diamondNodes)"
  using topological_sort_cycles [OF diamond_wellFormed] by (simp add: diamond_order)

text \<open>
  \<open>descendantsIncludingSelf\<close> is total and exact: which of its two errors it throws, and
  otherwise the ids reachable from the node along dependency edges, in definition order.
\<close>

theorem descendants_reachable:
  "descendantsIncludingSelf d i =
    (if distinct (map nn_id (nd_nodes d)) then
       if i \<in> nodeIds (nd_nodes d) then
         if strictNodes (nd_nodes d) \<and> acyclic (edges (nd_nodes d))
         then Inr (filter (\<lambda>x. (i, x) \<in> (edges (nd_nodes d))\<^sup>*) (map nn_id (nd_nodes d)))
         else Inl (DescendantsError ''DESCENDANTS_DAG_INVALID'')
       else Inl (DescendantsError ''DESCENDANTS_NODE_NOT_FOUND'')
     else Inl (DescendantsError ''DESCENDANTS_DAG_INVALID''))"
  by (simp add: descendantsIncludingSelf_cases)

text \<open>
  C19: The scheduler's fixpoint \<open>descendantsIncludingRoots\<close> ends with exactly the roots and
  everything reachable from them, for any list of nodes.
\<close>

theorem descendants_roots_reachable:
  "set (descendantsIncludingRoots d roots) = (edges (nd_nodes d))\<^sup>* `` set roots"
  unfolding descendantsIncludingRoots_def by (rule closureLoop_set) auto

end
