(* ===== verification/Repository.thy ===== *)
theory Repository
  imports Keys
begin

text \<open>
  The persistence interface (\<open>src/persistence/repository.ts\<close>) and its in-memory implementation
  (\<open>src/persistence/in-memory-repository.ts\<close>), operation by operation.

  \<^item> \<open>'s repository\<close> is the interface \<open>PersistenceRepository\<close>: one program per method, over a
    world of type \<open>'s\<close>. The clients take a value of this record, as the code takes
    \<open>input.repository\<close>.
  \<^item> \<open>mem\<close> is the state of \<open>InMemoryPersistenceRepository\<close>: one field per private member, an
    extensible record, so that a world may hold more (a clock, other stores). The operations are
    \<open>im_<method>\<close>, and \<open>mem_repository\<close> puts them together as a value of the interface.
  \<^item> \<open>structuredClone\<close> is the identity: values of the model are not shared.
  \<^item> \<open>collate a b\<close> stands for \<open>a.localeCompare(b) <= 0\<close>, the order of the host's locale.
\<close>

section \<open>The interface\<close>

record 's repository =
  createRun :: "network_run \<Rightarrow> ('s, network_run versioned) prog"
  getRun :: "string \<Rightarrow> ('s, network_run versioned) prog"
  getRunByBusinessKey :: "string \<Rightarrow> string \<Rightarrow> string \<Rightarrow> ('s, network_run versioned option) prog"
  listRuns :: "string \<Rightarrow> string \<Rightarrow> ('s, network_run versioned list) prog"
  getCancelRequest :: "string \<Rightarrow> ('s, cancel_request versioned option) prog"
  createCancelRequest :: "cancel_request \<Rightarrow> ('s, cancel_request versioned) prog"
  updateCancelRequest :: "string \<Rightarrow> int \<Rightarrow> cancel_request \<Rightarrow> ('s, cancel_request versioned) prog"
  updateRunAggregate :: "string \<Rightarrow> int \<Rightarrow> run_aggregate_update \<Rightarrow> ('s, network_run versioned) prog"
  archiveRunRecord :: "string \<Rightarrow> int \<Rightarrow> string \<Rightarrow> ('s, network_run versioned) prog"
  createInvocation :: "run_invocation \<Rightarrow> ('s, run_invocation versioned) prog"
  getInvocations :: "string \<Rightarrow> ('s, run_invocation versioned list) prog"
  finalizeInvocation :: "string \<Rightarrow> int \<Rightarrow> invocation_finalization \<Rightarrow> ('s, run_invocation versioned) prog"
  getNodeStates :: "string \<Rightarrow> ('s, node_state versioned list) prog"
  getAttempts :: "string \<Rightarrow> ('s, node_attempt versioned list) prog"
  getResolutions :: "string \<Rightarrow> ('s, attempt_resolution versioned list) prog"
  upsertNodeState :: "node_state_write \<Rightarrow> ('s, node_state versioned) prog"
  createAttempt :: "create_attempt_input \<Rightarrow> ('s, node_attempt versioned) prog"
  setAttemptInputBaseline :: "string \<Rightarrow> int \<Rightarrow> string \<Rightarrow> ('s, node_attempt versioned) prog"
  setAttemptExecutionStarted :: "string \<Rightarrow> int \<Rightarrow> string \<Rightarrow> ('s, node_attempt versioned) prog"
  finalizeAttempt :: "string \<Rightarrow> int \<Rightarrow> attempt_finalization \<Rightarrow> ('s, node_attempt versioned) prog"
  appendResolution :: "attempt_resolution \<Rightarrow> ('s, attempt_resolution versioned) prog"
  appendOperationAudit :: "operation_audit \<Rightarrow> ('s, operation_audit versioned) prog"
  getOperationAuditByEventId :: "string \<Rightarrow> ('s, operation_audit versioned option) prog"
  listInconsistencies :: "string \<Rightarrow> ('s, inconsistency list) prog"

section \<open>The in-memory state\<close>

record mem =
  m_runs :: "network_run versioned jsmap"
  m_runKeys :: "string jsmap"
  m_invocations :: "run_invocation versioned jsmap"
  m_cancelRequests :: "cancel_request versioned jsmap"
  m_states :: "node_state versioned jsmap"
  m_attempts :: "node_attempt versioned jsmap"
  m_attemptIds :: "string jsmap"
  m_resolutions :: "attempt_resolution versioned list"
  m_operationAudits :: "operation_audit versioned list"

definition versioned :: "'a \<Rightarrow> int \<Rightarrow> 'a versioned" where
  "versioned v r = \<lparr> content = v, revision = r \<rparr>"

lemma versioned_simps [simp]:
  "content (versioned v r) = v" "revision (versioned v r) = r"
  by (simp_all add: versioned_def)

definition nextStored :: "'a versioned \<Rightarrow> 'a \<Rightarrow> 'a versioned" where
  "nextStored stored v = versioned v (revision stored + 1)"

lemma nextStored_simps [simp]:
  "content (nextStored st v) = v" "revision (nextStored st v) = revision st + 1"
  by (simp_all add: nextStored_def)

definition assertRevision :: "'a versioned \<Rightarrow> int \<Rightarrow> ('s, unit) prog" where
  "assertRevision stored expected =
     whenP (revision stored \<noteq> expected) (throwP (RepositoryError REVISION_CONFLICT None))"

definition required :: "('s \<Rightarrow> 'v jsmap) \<Rightarrow> string \<Rightarrow> ('s, 'v) prog" where
  "required field key = bindP (readP (\<lambda>s. mapGet (field s) key)) (\<lambda>r.
     case r of None \<Rightarrow> throwP (RepositoryError RECORD_NOT_FOUND None) | Some stored \<Rightarrow> retP stored)"

definition attemptById :: "string \<Rightarrow> ('w mem_scheme, node_attempt versioned) prog" where
  "attemptById attemptId = bindP (readP (\<lambda>s. mapGet (m_attemptIds s) attemptId)) (\<lambda>key.
     case key of
       None \<Rightarrow> throwP (RepositoryError RECORD_NOT_FOUND None)
     | Some k \<Rightarrow> if k = [] then throwP (RepositoryError RECORD_NOT_FOUND None)
                 else required m_attempts k)"

text \<open>The key under which \<open>attemptById\<close> found its record, where \<open>next\<close> updates it in place.\<close>

definition storeAttempt :: "string \<Rightarrow> node_attempt versioned \<Rightarrow> ('w mem_scheme, node_attempt versioned) prog" where
  "storeAttempt attemptId v = bindP (readP (\<lambda>s. mapGet (m_attemptIds s) attemptId)) (\<lambda>key.
     case key of
       None \<Rightarrow> throwP (RepositoryError RECORD_NOT_FOUND None)
     | Some k \<Rightarrow> bindP (writeP (\<lambda>s. s\<lparr> m_attempts := mapSet k v (m_attempts s) \<rparr>)) (\<lambda>_. retP v))"

fun isAllowedCancelTransition :: "cancel_request_state \<Rightarrow> cancel_request_state \<Rightarrow> bool" where
  "isAllowedCancelTransition CR_REQUESTED CR_ACCEPTED = True"
| "isAllowedCancelTransition CR_REQUESTED CR_RELEASED = True"
| "isAllowedCancelTransition CR_ACCEPTED CR_RELEASED = True"
| "isAllowedCancelTransition CR_RELEASED CR_REQUESTED = True"
| "isAllowedCancelTransition _ _ = False"

fun insortBy :: "('a \<Rightarrow> 'a \<Rightarrow> bool) \<Rightarrow> 'a \<Rightarrow> 'a list \<Rightarrow> 'a list" where
  "insortBy le x [] = [x]"
| "insortBy le x (y # ys) = (if le x y then x # y # ys else y # insortBy le x ys)"

text \<open>\<open>Array.prototype.sort\<close>: stable, by a comparison that is \<open>le\<close>.\<close>

definition sortBy :: "('a \<Rightarrow> 'a \<Rightarrow> bool) \<Rightarrow> 'a list \<Rightarrow> 'a list" where
  "sortBy le xs = foldr (insortBy le) xs []"

lemma set_insortBy [simp]: "set (insortBy le x xs) = insert x (set xs)"
  by (induction xs) auto

lemma set_sortBy [simp]: "set (sortBy le xs) = set xs"
  by (induction xs) (auto simp: sortBy_def)

lemma length_insortBy [simp]: "length (insortBy le x xs) = Suc (length xs)"
  by (induction xs) auto

lemma length_sortBy [simp]: "length (sortBy le xs) = length xs"
  by (induction xs) (auto simp: sortBy_def)

section \<open>Runs and cancel requests\<close>

definition im_createRun :: "(string \<Rightarrow> string) \<Rightarrow> network_run \<Rightarrow> ('w mem_scheme, network_run versioned) prog" where
  "im_createRun digest run =
     bindP (liftP (runKey digest (rp_profile (nr_resolved_profile_snapshot run))
                    (nr_network_id run) (nr_business_key run))) (\<lambda>key.
     bindP (readP (\<lambda>s. (mapHas (m_runs s) (nr_run_id run), mapHas (m_runKeys s) key))) (\<lambda>(hasRun, hasKey).
     if hasRun then throwP (RepositoryError DUPLICATE_RECORD None)
     else if hasKey then throwP (RepositoryError DUPLICATE_RECORD None)
     else let stored = versioned run 1 in
       bindP (writeP (\<lambda>s. s\<lparr> m_runs := mapSet (nr_run_id run) stored (m_runs s),
                            m_runKeys := mapSet key (nr_run_id run) (m_runKeys s) \<rparr>))
         (\<lambda>_. retP stored)))"

definition im_getRunByBusinessKey ::
  "(string \<Rightarrow> string) \<Rightarrow> string \<Rightarrow> string \<Rightarrow> string \<Rightarrow> ('w mem_scheme, network_run versioned option) prog" where
  "im_getRunByBusinessKey digest profile networkId businessKey =
     bindP (liftP (runKey digest profile networkId businessKey)) (\<lambda>key.
     bindP (readP (\<lambda>s. mapGet (m_runKeys s) key)) (\<lambda>r.
     case r of
       None \<Rightarrow> retP None
     | Some runId \<Rightarrow> if runId = [] then retP None
                     else bindP (required m_runs runId) (\<lambda>v. retP (Some v))))"

definition im_getRun :: "string \<Rightarrow> ('w mem_scheme, network_run versioned) prog" where
  "im_getRun runId = required m_runs runId"

definition im_listRuns ::
  "(string \<Rightarrow> string \<Rightarrow> bool) \<Rightarrow> string \<Rightarrow> string \<Rightarrow> ('w mem_scheme, network_run versioned list) prog" where
  "im_listRuns collate profile networkId = readP (\<lambda>s.
     sortBy (\<lambda>l r. collate (nr_run_id (content l)) (nr_run_id (content r)))
       (filter (\<lambda>v. rp_profile (nr_resolved_profile_snapshot (content v)) = profile \<and>
                    nr_network_id (content v) = networkId) (map snd (m_runs s))))"

definition im_getCancelRequest :: "string \<Rightarrow> ('w mem_scheme, cancel_request versioned option) prog" where
  "im_getCancelRequest runId = readP (\<lambda>s. mapGet (m_cancelRequests s) runId)"

definition im_createCancelRequest :: "cancel_request \<Rightarrow> ('w mem_scheme, cancel_request versioned) prog" where
  "im_createCancelRequest request =
     bindP (readP (\<lambda>s. mapHas (m_cancelRequests s) (cr_run_id request))) (\<lambda>present.
     if present then throwP (RepositoryError DUPLICATE_RECORD None)
     else if cr_state request \<noteq> CR_REQUESTED then throwP (RepositoryError INVALID_STATE_TRANSITION None)
     else let stored = versioned request 1 in
       bindP (writeP (\<lambda>s. s\<lparr> m_cancelRequests := mapSet (cr_run_id request) stored (m_cancelRequests s) \<rparr>))
         (\<lambda>_. retP stored))"

definition im_updateCancelRequest ::
  "string \<Rightarrow> int \<Rightarrow> cancel_request \<Rightarrow> ('w mem_scheme, cancel_request versioned) prog" where
  "im_updateCancelRequest runId expectedRevision request =
     bindP (required m_cancelRequests runId) (\<lambda>stored.
     bindP (assertRevision stored expectedRevision) (\<lambda>_.
     if cr_run_id request \<noteq> runId \<or>
        \<not> isAllowedCancelTransition (cr_state (content stored)) (cr_state request)
     then throwP (RepositoryError INVALID_STATE_TRANSITION None)
     else let v = nextStored stored request in
       bindP (writeP (\<lambda>s. s\<lparr> m_cancelRequests := mapSet runId v (m_cancelRequests s) \<rparr>))
         (\<lambda>_. retP v)))"

definition storeRun :: "string \<Rightarrow> network_run versioned \<Rightarrow> ('w mem_scheme, network_run versioned) prog" where
  "storeRun runId v = bindP (writeP (\<lambda>s. s\<lparr> m_runs := mapSet runId v (m_runs s) \<rparr>)) (\<lambda>_. retP v)"

definition im_updateRunAggregate ::
  "string \<Rightarrow> int \<Rightarrow> run_aggregate_update \<Rightarrow> ('w mem_scheme, network_run versioned) prog" where
  "im_updateRunAggregate runId expectedRevision update =
     bindP (required m_runs runId) (\<lambda>stored.
     bindP (assertRevision stored expectedRevision) (\<lambda>_.
     storeRun runId (nextStored stored ((content stored)\<lparr>
       nr_status := ru_status update, nr_started_at := ru_started_at update,
       nr_finished_at := ru_finished_at update, nr_updated_at := ru_updated_at update \<rparr>))))"

definition im_archiveRun :: "string \<Rightarrow> int \<Rightarrow> string \<Rightarrow> ('w mem_scheme, network_run versioned) prog" where
  "im_archiveRun runId expectedRevision archivedAt =
     bindP (required m_runs runId) (\<lambda>stored.
     bindP (assertRevision stored expectedRevision) (\<lambda>_.
     storeRun runId (nextStored stored ((content stored)\<lparr>
       nr_lifecycle_status := ARCHIVED, nr_updated_at := archivedAt \<rparr>))))"

section \<open>Invocations\<close>

definition im_createInvocation :: "run_invocation \<Rightarrow> ('w mem_scheme, run_invocation versioned) prog" where
  "im_createInvocation invocation =
     bindP (readP (\<lambda>s. mapHas (m_invocations s) (ri_invocation_id invocation))) (\<lambda>present.
     if present then throwP (RepositoryError DUPLICATE_RECORD None)
     else let stored = versioned invocation 1 in
       bindP (writeP (\<lambda>s. s\<lparr> m_invocations := mapSet (ri_invocation_id invocation) stored (m_invocations s) \<rparr>))
         (\<lambda>_. retP stored))"

definition im_getInvocations :: "string \<Rightarrow> ('w mem_scheme, run_invocation versioned list) prog" where
  "im_getInvocations runId = readP (\<lambda>s.
     filter (\<lambda>v. ri_run_id (content v) = runId) (map snd (m_invocations s)))"

definition orElse :: "'a option \<Rightarrow> 'a \<Rightarrow> 'a" where
  "orElse x d = (case x of None \<Rightarrow> d | Some v \<Rightarrow> v)"

definition finalizedInvocation :: "run_invocation \<Rightarrow> invocation_finalization \<Rightarrow> run_invocation" where
  "finalizedInvocation v f = v\<lparr>
     ri_status := if_status f,
     ri_result_code := if_result_code f,
     ri_finished_at := Some (if_finished_at f),
     ri_selected_node_ids := orElse (if_selected_node_ids f) (ri_selected_node_ids v),
     ri_preserved_node_ids := orElse (if_preserved_node_ids f) (ri_preserved_node_ids v),
     ri_blocked_node_ids := orElse (if_blocked_node_ids f) (ri_blocked_node_ids v),
     ri_reason := orElse (if_reason f) (ri_reason v) \<rparr>"

definition im_finalizeInvocation ::
  "string \<Rightarrow> int \<Rightarrow> invocation_finalization \<Rightarrow> ('w mem_scheme, run_invocation versioned) prog" where
  "im_finalizeInvocation invocationId expectedRevision finalization =
     bindP (required m_invocations invocationId) (\<lambda>stored.
     bindP (assertRevision stored expectedRevision) (\<lambda>_.
     let currentStatus = ri_status (content stored) in
     if currentStatus \<noteq> RUNNING \<and> currentStatus \<noteq> CREATED
     then throwP (RepositoryError INVALID_STATE_TRANSITION None)
     else let v = nextStored stored (finalizedInvocation (content stored) finalization) in
       bindP (writeP (\<lambda>s. s\<lparr> m_invocations := mapSet invocationId v (m_invocations s) \<rparr>))
         (\<lambda>_. retP v)))"

section \<open>Node states\<close>

definition im_getNodeStates ::
  "(string \<Rightarrow> string \<Rightarrow> bool) \<Rightarrow> string \<Rightarrow> ('w mem_scheme, node_state versioned list) prog" where
  "im_getNodeStates collate runId = readP (\<lambda>s.
     sortBy (\<lambda>a b. collate (ns_node_id (content a)) (ns_node_id (content b)))
       (filter (\<lambda>v. ns_run_id (content v) = runId) (map snd (m_states s))))"

definition storeState :: "string \<Rightarrow> node_state versioned \<Rightarrow> ('w mem_scheme, node_state versioned) prog" where
  "storeState key v = bindP (writeP (\<lambda>s. s\<lparr> m_states := mapSet key v (m_states s) \<rparr>)) (\<lambda>_. retP v)"

definition durableResolution :: "attempt_resolution versioned list \<Rightarrow> resolution_event option \<Rightarrow> bool" where
  "durableResolution resolutions event =
     (case event of
        None \<Rightarrow> True
      | Some e \<Rightarrow> list_ex (\<lambda>r. ar_attempt_id (content r) = re_attempt_id e \<and>
                              ar_resolved_outcome (content r) = re_resolved_outcome e \<and>
                              ar_resolved_at (content r) = re_resolved_at e) resolutions)"

text \<open>The checks of an update in their order; \<open>None\<close> when the write is let through.\<close>

definition upsertRejection ::
  "attempt_resolution versioned list \<Rightarrow> node_state versioned \<Rightarrow> node_state_write \<Rightarrow> repository_error_code option" where
  "upsertRejection resolutions stored write =
     (let from = ns_status (content stored); to = ns_status (nw_value write) in
      case nw_expected_revision write of
        None \<Rightarrow> Some DUPLICATE_RECORD
      | Some expected \<Rightarrow>
          if revision stored \<noteq> expected then Some REVISION_CONFLICT
          else if \<not> durableResolution resolutions (nw_resolution_event write) then Some RECORD_NOT_FOUND
          else let resolutionTransition =
              (case nw_resolution_event write of
                 None \<Rightarrow> False
               | Some e \<Rightarrow> re_resolved_outcome e = to \<and> isAllowedResolutionTransition from to)
            in if \<not> isAllowedNodeStateTransition from to \<and> \<not> resolutionTransition
               then Some INVALID_STATE_TRANSITION
               else if (from = FAILED \<or> from = CANCELLED) \<and> to = WAITING \<and> \<not> ns_idempotent (content stored)
               then Some INVALID_STATE_TRANSITION
               else None)"

definition im_upsertNodeState :: "node_state_write \<Rightarrow> ('w mem_scheme, node_state versioned) prog" where
  "im_upsertNodeState write =
     (let key = ns_node_state_key (nw_value write) in
      bindP (readP (\<lambda>s. (mapGet (m_states s) key, m_resolutions s))) (\<lambda>(found, resolutions).
      case found of
        None \<Rightarrow>
          if nw_expected_revision write \<noteq> None then throwP (RepositoryError RECORD_NOT_FOUND None)
          else if ns_status (nw_value write) \<noteq> WAITING
          then throwP (RepositoryError INVALID_STATE_TRANSITION None)
          else storeState key (versioned ((nw_value write)\<lparr> ns_revision := 1 \<rparr>) 1)
      | Some stored \<Rightarrow>
          (case upsertRejection resolutions stored write of
             Some code \<Rightarrow> throwP (RepositoryError code None)
           | None \<Rightarrow> storeState key
               (nextStored stored ((nw_value write)\<lparr> ns_revision := revision stored + 1 \<rparr>)))))"

section \<open>Attempts\<close>

definition im_getAttempts :: "string \<Rightarrow> ('w mem_scheme, node_attempt versioned list) prog" where
  "im_getAttempts runId = readP (\<lambda>s.
     sort_key (\<lambda>v. na_attempt_no (content v))
       (filter (\<lambda>v. na_run_id (content v) = runId) (map snd (m_attempts s))))"

definition newAttempt :: "create_attempt_input \<Rightarrow> string \<Rightarrow> int \<Rightarrow> node_attempt" where
  "newAttempt input key attemptNo = (let state = content (ca_node_state input) in
     \<lparr> na_node_attempt_id = ca_node_attempt_id input, na_attempt_key = key,
       na_run_id = ns_run_id state, na_node_id = ns_node_id state, na_job_id = ns_job_id state,
       na_invocation_id = ca_invocation_id input, na_attempt_no = attemptNo,
       na_status = RUNNING, na_result_code = ''PENDING'', na_execution_started_at = None,
       na_runner_execution_started_at = None, na_execution_id = None, na_finished_at = None,
       na_duration_sec = None, na_error_message = None, na_read_count = 0, na_written_count = 0,
       na_last_successful_chunk_no = None, na_last_written_key = None,
       na_state_revision_before = Some (revision (ca_node_state input)) \<rparr>)"

definition im_createAttempt ::
  "(string \<Rightarrow> string) \<Rightarrow> create_attempt_input \<Rightarrow> ('w mem_scheme, node_attempt versioned) prog" where
  "im_createAttempt digest input =
     (let state = content (ca_node_state input);
          attemptNo = ns_latest_attempt_no state + 1
      in bindP (liftP (attemptKey digest (ns_run_id state) (ns_node_id state) attemptNo)) (\<lambda>key.
         bindP (readP (\<lambda>s. (mapGet (m_attempts s) key, mapHas (m_attemptIds s) (ca_node_attempt_id input))))
         (\<lambda>(found, hasId).
         case found of
           Some existing \<Rightarrow>
             if na_node_attempt_id (content existing) = ca_node_attempt_id input then retP existing
             else throwP (RepositoryError ATTEMPT_NUMBER_CONFLICT None)
         | None \<Rightarrow>
             if hasId then throwP (RepositoryError DUPLICATE_RECORD None)
             else let stored = versioned (newAttempt input key attemptNo) 1 in
               bindP (writeP (\<lambda>s. s\<lparr> m_attempts := mapSet key stored (m_attempts s),
                                    m_attemptIds := mapSet (ca_node_attempt_id input) key (m_attemptIds s) \<rparr>))
                 (\<lambda>_. retP stored))))"

definition im_setAttemptExecutionStarted ::
  "string \<Rightarrow> int \<Rightarrow> string \<Rightarrow> ('w mem_scheme, node_attempt versioned) prog" where
  "im_setAttemptExecutionStarted attemptId expectedRevision startedAt =
     bindP (attemptById attemptId) (\<lambda>stored.
     bindP (assertRevision stored expectedRevision) (\<lambda>_.
     if na_status (content stored) \<noteq> RUNNING then throwP (RepositoryError ATTEMPT_TERMINAL None)
     else if na_execution_started_at (content stored) \<noteq> None
     then throwP (RepositoryError ATTEMPT_LIFECYCLE_VIOLATION None)
     else storeAttempt attemptId
       (nextStored stored ((content stored)\<lparr> na_execution_started_at := Some startedAt \<rparr>))))"

definition im_setAttemptInputBaseline ::
  "string \<Rightarrow> int \<Rightarrow> string \<Rightarrow> ('w mem_scheme, node_attempt versioned) prog" where
  "im_setAttemptInputBaseline attemptId expectedRevision errorMessage =
     bindP (attemptById attemptId) (\<lambda>stored.
     bindP (assertRevision stored expectedRevision) (\<lambda>_.
     if na_status (content stored) \<noteq> RUNNING \<or> na_execution_started_at (content stored) \<noteq> None
     then throwP (RepositoryError ATTEMPT_LIFECYCLE_VIOLATION None)
     else storeAttempt attemptId
       (nextStored stored ((content stored)\<lparr> na_error_message := Some errorMessage \<rparr>))))"

definition finalizedAttempt :: "node_attempt \<Rightarrow> attempt_finalization \<Rightarrow> node_attempt" where
  "finalizedAttempt v f = v\<lparr>
     na_status := af_status f, na_result_code := af_result_code f,
     na_runner_execution_started_at := af_runner_execution_started_at f,
     na_execution_id := af_execution_id f, na_finished_at := Some (af_finished_at f),
     na_duration_sec := af_duration_sec f, na_error_message := af_error_message f,
     na_read_count := af_read_count f, na_written_count := af_written_count f,
     na_last_successful_chunk_no := af_last_successful_chunk_no f,
     na_last_written_key := af_last_written_key f \<rparr>"

definition im_finalizeAttempt ::
  "string \<Rightarrow> int \<Rightarrow> attempt_finalization \<Rightarrow> ('w mem_scheme, node_attempt versioned) prog" where
  "im_finalizeAttempt attemptId expectedRevision finalization =
     bindP (attemptById attemptId) (\<lambda>stored.
     bindP (assertRevision stored expectedRevision) (\<lambda>_.
     if na_status (content stored) \<noteq> RUNNING then throwP (RepositoryError ATTEMPT_TERMINAL None)
     else storeAttempt attemptId
       (nextStored stored (finalizedAttempt (content stored) finalization))))"

section \<open>Resolutions and audits\<close>

definition im_getResolutions :: "string \<Rightarrow> ('w mem_scheme, attempt_resolution versioned list) prog" where
  "im_getResolutions runId =
     bindP (im_getAttempts runId) (\<lambda>attempts.
     let attemptIds = map (\<lambda>v. na_node_attempt_id (content v)) attempts in
     readP (\<lambda>s. filter (\<lambda>v. ar_attempt_id (content v) \<in> set attemptIds) (m_resolutions s)))"

definition im_appendResolution ::
  "attempt_resolution \<Rightarrow> ('w mem_scheme, attempt_resolution versioned) prog" where
  "im_appendResolution resolution =
     bindP (attemptById (ar_attempt_id resolution)) (\<lambda>attempt.
     if na_status (content attempt) \<noteq> UNKNOWN \<and> na_status (content attempt) \<noteq> FAILED
     then throwP (RepositoryError ATTEMPT_LIFECYCLE_VIOLATION None)
     else let stored = versioned resolution 1 in
       bindP (writeP (\<lambda>s. s\<lparr> m_resolutions := m_resolutions s @ [stored] \<rparr>)) (\<lambda>_. retP stored))"

definition im_appendOperationAudit :: "operation_audit \<Rightarrow> ('w mem_scheme, operation_audit versioned) prog" where
  "im_appendOperationAudit audit =
     bindP (readP m_operationAudits) (\<lambda>audits.
     if list_ex (\<lambda>v. event_id (content v) = event_id audit) audits
     then throwP (RepositoryError DUPLICATE_RECORD None)
     else let stored = versioned audit 1 in
       bindP (writeP (\<lambda>s. s\<lparr> m_operationAudits := m_operationAudits s @ [stored] \<rparr>)) (\<lambda>_. retP stored))"

definition im_getOperationAuditByEventId ::
  "string \<Rightarrow> ('w mem_scheme, operation_audit versioned option) prog" where
  "im_getOperationAuditByEventId eventId =
     readP (\<lambda>s. find (\<lambda>v. event_id (content v) = eventId) (m_operationAudits s))"

section \<open>Inconsistencies\<close>

definition stateInconsistencies ::
  "string \<Rightarrow> node_attempt versioned list \<Rightarrow> node_state versioned \<Rightarrow> inconsistency list" where
  "stateInconsistencies runId allAttempts state =
     (let attempts = filter (\<lambda>v. na_run_id (content v) = runId \<and>
                                  na_node_id (content v) = ns_node_id (content state)) allAttempts;
          running = filter (\<lambda>v. na_status (content v) = RUNNING) attempts
      in (if length running > 1 then [MultipleRunningAttempts state running] else []) @
         (case ns_active_attempt_id (content state) of
            None \<Rightarrow> []
          | Some activeId \<Rightarrow>
              if activeId = [] then []
              else (case find (\<lambda>v. na_node_attempt_id (content v) = activeId) attempts of
                      None \<Rightarrow> [ActiveAttemptMissing state]
                    | Some active \<Rightarrow>
                        if na_status (content active) \<noteq> ns_status (content state)
                        then [StateAttemptStatusMismatch state active] else [])))"

definition im_listInconsistencies ::
  "(string \<Rightarrow> string \<Rightarrow> bool) \<Rightarrow> string \<Rightarrow> ('w mem_scheme, inconsistency list) prog" where
  "im_listInconsistencies collate runId =
     bindP (im_getNodeStates collate runId) (\<lambda>states.
     readP (\<lambda>s. concat (map (stateInconsistencies runId (map snd (m_attempts s))) states)))"

section \<open>The repository value\<close>

definition mem_repository ::
  "(string \<Rightarrow> string) \<Rightarrow> (string \<Rightarrow> string \<Rightarrow> bool) \<Rightarrow> 'w mem_scheme repository" where
  "mem_repository digest collate = \<lparr>
     createRun = im_createRun digest,
     getRun = im_getRun,
     getRunByBusinessKey = im_getRunByBusinessKey digest,
     listRuns = im_listRuns collate,
     getCancelRequest = im_getCancelRequest,
     createCancelRequest = im_createCancelRequest,
     updateCancelRequest = im_updateCancelRequest,
     updateRunAggregate = im_updateRunAggregate,
     archiveRunRecord = im_archiveRun,
     createInvocation = im_createInvocation,
     getInvocations = im_getInvocations,
     finalizeInvocation = im_finalizeInvocation,
     getNodeStates = im_getNodeStates collate,
     getAttempts = im_getAttempts,
     getResolutions = im_getResolutions,
     upsertNodeState = im_upsertNodeState,
     createAttempt = im_createAttempt digest,
     setAttemptInputBaseline = im_setAttemptInputBaseline,
     setAttemptExecutionStarted = im_setAttemptExecutionStarted,
     finalizeAttempt = im_finalizeAttempt,
     appendResolution = im_appendResolution,
     appendOperationAudit = im_appendOperationAudit,
     getOperationAuditByEventId = im_getOperationAuditByEventId,
     listInconsistencies = im_listInconsistencies collate \<rparr>"

definition emptyMem :: mem where
  "emptyMem = \<lparr> m_runs = [], m_runKeys = [], m_invocations = [], m_cancelRequests = [],
     m_states = [], m_attempts = [], m_attemptIds = [], m_resolutions = [], m_operationAudits = [] \<rparr>"

end
