(* ===== verification/RepositoryProps.thy ===== *)
theory RepositoryProps
  imports Repository
begin

text \<open>
  What the in-memory store guarantees. \<open>store_step\<close> is the abstract specification of the store:
  a step relation with one rule for each way a record may come into being or change. Every method
  of \<open>mem_repository\<close> is a stutter or one such step (\<open>im_steps\<close>), and the rest is proved over
  the step relation: the invariant \<open>mem_wf\<close> (keys, uniqueness, typed statuses, resolutions of
  finished attempts only) and the history \<open>mem_evolves\<close> (nothing is deleted, revisions only
  grow, a record with the same revision is unchanged, finished attempts and invocations are
  frozen, an archived run stays archived, resolutions and audits are append-only).
\<close>

section \<open>The step relation\<close>

definition run_identity :: "network_run \<Rightarrow> network_run" where
  "run_identity r = r\<lparr> nr_status := CREATED, nr_lifecycle_status := ACTIVE, nr_started_at := None,
     nr_finished_at := None, nr_updated_at := [] \<rparr>"

definition run_may_become :: "network_run \<Rightarrow> network_run \<Rightarrow> bool" where
  "run_may_become r r' \<longleftrightarrow> run_identity r' = run_identity r \<and>
     (nr_lifecycle_status r = ARCHIVED \<longrightarrow> nr_lifecycle_status r' = ARCHIVED)"

definition invocation_open :: "run_invocation \<Rightarrow> bool" where
  "invocation_open v \<longleftrightarrow> ri_status v = RUNNING \<or> ri_status v = CREATED"

definition invocation_may_become :: "run_invocation \<Rightarrow> run_invocation \<Rightarrow> bool" where
  "invocation_may_become v v' \<longleftrightarrow> invocation_open v \<and>
     ri_invocation_id v' = ri_invocation_id v \<and> ri_run_id v' = ri_run_id v \<and> ri_mode v' = ri_mode v \<and>
     ri_requested_by v' = ri_requested_by v \<and> ri_host v' = ri_host v \<and> ri_started_at v' = ri_started_at v"

definition status_move :: "status \<Rightarrow> status \<Rightarrow> bool" where
  "status_move a b \<longleftrightarrow> isAllowedNodeStateTransition a b \<or> isAllowedResolutionTransition a b"

definition state_may_become :: "node_state \<Rightarrow> node_state \<Rightarrow> bool" where
  "state_may_become v v' \<longleftrightarrow> ns_node_state_key v' = ns_node_state_key v \<and>
     status_move\<^sup>*\<^sup>* (ns_status v) (ns_status v')"

definition attempt_may_become :: "node_attempt \<Rightarrow> node_attempt \<Rightarrow> bool" where
  "attempt_may_become v v' \<longleftrightarrow> na_status v = RUNNING \<and>
     na_node_attempt_id v' = na_node_attempt_id v \<and> na_attempt_key v' = na_attempt_key v \<and>
     na_run_id v' = na_run_id v \<and> na_node_id v' = na_node_id v \<and> na_job_id v' = na_job_id v \<and>
     na_invocation_id v' = na_invocation_id v \<and> na_attempt_no v' = na_attempt_no v \<and>
     na_state_revision_before v' = na_state_revision_before v \<and>
     (na_execution_started_at v \<noteq> None \<longrightarrow> na_execution_started_at v' = na_execution_started_at v)"

lemma may_become_refl [simp]:
  "run_may_become r r" "state_may_become n n"
  by (simp_all add: run_may_become_def state_may_become_def)

inductive store_step :: "(string \<Rightarrow> string) \<Rightarrow> 'w mem_scheme \<Rightarrow> 'w mem_scheme \<Rightarrow> bool" for digest where
  run_created: "runKey digest (rp_profile (nr_resolved_profile_snapshot r)) (nr_network_id r) (nr_business_key r) = Inr key \<Longrightarrow>
    mapGet (m_runs s) (nr_run_id r) = None \<Longrightarrow> mapGet (m_runKeys s) key = None \<Longrightarrow>
    store_step digest s (s\<lparr> m_runs := mapSet (nr_run_id r) (versioned r 1) (m_runs s),
                           m_runKeys := mapSet key (nr_run_id r) (m_runKeys s) \<rparr>)"
| run_changed: "mapGet (m_runs s) i = Some v \<Longrightarrow> run_may_become (content v) r \<Longrightarrow>
    store_step digest s (s\<lparr> m_runs := mapSet i (nextStored v r) (m_runs s) \<rparr>)"
| cancel_created: "mapGet (m_cancelRequests s) (cr_run_id c) = None \<Longrightarrow> cr_state c = CR_REQUESTED \<Longrightarrow>
    store_step digest s (s\<lparr> m_cancelRequests := mapSet (cr_run_id c) (versioned c 1) (m_cancelRequests s) \<rparr>)"
| cancel_changed: "mapGet (m_cancelRequests s) i = Some v \<Longrightarrow> cr_run_id c = i \<Longrightarrow>
    isAllowedCancelTransition (cr_state (content v)) (cr_state c) \<Longrightarrow>
    store_step digest s (s\<lparr> m_cancelRequests := mapSet i (nextStored v c) (m_cancelRequests s) \<rparr>)"
| invocation_created: "mapGet (m_invocations s) (ri_invocation_id v) = None \<Longrightarrow>
    store_step digest s (s\<lparr> m_invocations := mapSet (ri_invocation_id v) (versioned v 1) (m_invocations s) \<rparr>)"
| invocation_finalized: "mapGet (m_invocations s) i = Some v \<Longrightarrow> invocation_open (content v) \<Longrightarrow>
    invocation_may_become (content v) v' \<Longrightarrow>
    store_step digest s (s\<lparr> m_invocations := mapSet i (nextStored v v') (m_invocations s) \<rparr>)"
| state_created: "mapGet (m_states s) (ns_node_state_key n) = None \<Longrightarrow> ns_status n = WAITING \<Longrightarrow> ns_revision n = 1 \<Longrightarrow>
    store_step digest s (s\<lparr> m_states := mapSet (ns_node_state_key n) (versioned n 1) (m_states s) \<rparr>)"
| state_moved: "mapGet (m_states s) (ns_node_state_key n) = Some v \<Longrightarrow> ns_revision n = revision v + 1 \<Longrightarrow>
    isAllowedNodeStateTransition (ns_status (content v)) (ns_status n) \<or>
      isAllowedResolutionTransition (ns_status (content v)) (ns_status n) \<and>
      (\<exists>r \<in> set (m_resolutions s). ar_resolved_outcome (content r) = ns_status n) \<Longrightarrow>
    (ns_status (content v) = FAILED \<or> ns_status (content v) = CANCELLED) \<and> ns_status n = WAITING \<longrightarrow>
      ns_idempotent (content v) \<Longrightarrow>
    store_step digest s (s\<lparr> m_states := mapSet (ns_node_state_key n) (nextStored v n) (m_states s) \<rparr>)"
| attempt_created: "attemptKey digest (na_run_id a) (na_node_id a) (na_attempt_no a) = Inr key \<Longrightarrow> na_attempt_key a = key \<Longrightarrow>
    mapGet (m_attempts s) key = None \<Longrightarrow> mapGet (m_attemptIds s) (na_node_attempt_id a) = None \<Longrightarrow>
    na_status a = RUNNING \<Longrightarrow> na_execution_started_at a = None \<Longrightarrow>
    store_step digest s (s\<lparr> m_attempts := mapSet key (versioned a 1) (m_attempts s),
                           m_attemptIds := mapSet (na_node_attempt_id a) key (m_attemptIds s) \<rparr>)"
| attempt_changed: "mapGet (m_attempts s) k = Some v \<Longrightarrow> na_status (content v) = RUNNING \<Longrightarrow>
    attempt_may_become (content v) a \<Longrightarrow>
    store_step digest s (s\<lparr> m_attempts := mapSet k (nextStored v a) (m_attempts s) \<rparr>)"
| resolution_appended: "mapGet (m_attemptIds s) (ar_attempt_id r) = Some k \<Longrightarrow> mapGet (m_attempts s) k = Some v \<Longrightarrow>
    na_status (content v) = UNKNOWN \<or> na_status (content v) = FAILED \<Longrightarrow>
    store_step digest s (s\<lparr> m_resolutions := m_resolutions s @ [versioned r 1] \<rparr>)"
| audit_appended: "\<forall>v \<in> set (m_operationAudits s). event_id (content v) \<noteq> event_id a \<Longrightarrow>
    store_step digest s (s\<lparr> m_operationAudits := m_operationAudits s @ [versioned a 1] \<rparr>)"

section \<open>Every method is a stutter or a step\<close>

definition step_or_stay :: "(string \<Rightarrow> string) \<Rightarrow> 'w mem_scheme \<Rightarrow> 'w mem_scheme \<Rightarrow> bool" where
  "step_or_stay digest s t \<longleftrightarrow> t = s \<or> store_step digest s t"

lemmas im_run_defs = bindP_def required_def assertRevision_def attemptById_def storeAttempt_def
  storeRun_def storeState_def mapHas_def

lemma step_or_stay_refl [simp, intro]: "step_or_stay digest s s"
  by (simp add: step_or_stay_def)

lemma stepI [intro]: "store_step digest s t \<Longrightarrow> step_or_stay digest s t"
  by (simp add: step_or_stay_def)

lemma createRun_step: "guarantees (step_or_stay digest) (im_createRun digest run)"
  unfolding guarantees_def im_createRun_def
  by (auto simp: im_run_defs Let_def split: sum.splits option.splits intro!: stepI run_created)

lemma updateRunAggregate_step: "guarantees (step_or_stay digest) (im_updateRunAggregate i e u)"
  unfolding guarantees_def im_updateRunAggregate_def
  by (auto simp: im_run_defs run_may_become_def run_identity_def split: sum.splits option.splits
      intro!: stepI run_changed)

lemma archiveRun_step: "guarantees (step_or_stay digest) (im_archiveRun i e u)"
  unfolding guarantees_def im_archiveRun_def
  by (auto simp: im_run_defs run_may_become_def run_identity_def split: sum.splits option.splits
      intro!: stepI run_changed)

lemma createCancelRequest_step: "guarantees (step_or_stay digest) (im_createCancelRequest c)"
  unfolding guarantees_def im_createCancelRequest_def
  by (auto simp: im_run_defs Let_def split: sum.splits option.splits intro!: stepI cancel_created)

lemma updateCancelRequest_step: "guarantees (step_or_stay digest) (im_updateCancelRequest i e c)"
  unfolding guarantees_def im_updateCancelRequest_def
  by (auto simp: im_run_defs Let_def split: sum.splits option.splits intro!: stepI cancel_changed)

lemma createInvocation_step: "guarantees (step_or_stay digest) (im_createInvocation v)"
  unfolding guarantees_def im_createInvocation_def
  by (auto simp: im_run_defs Let_def split: sum.splits option.splits intro!: stepI invocation_created)

lemma finalizeInvocation_step: "guarantees (step_or_stay digest) (im_finalizeInvocation i e f)"
  unfolding guarantees_def im_finalizeInvocation_def
  by (auto simp: im_run_defs Let_def invocation_open_def invocation_may_become_def finalizedInvocation_def
      split: sum.splits option.splits intro!: stepI invocation_finalized)

lemma upsertRejection_None:
  assumes "upsertRejection rs stored w = None"
  shows "nw_expected_revision w = Some (revision stored)"
    and "isAllowedNodeStateTransition (ns_status (content stored)) (ns_status (nw_value w)) \<or>
      isAllowedResolutionTransition (ns_status (content stored)) (ns_status (nw_value w)) \<and>
      (\<exists>r \<in> set rs. ar_resolved_outcome (content r) = ns_status (nw_value w))"
    and "(ns_status (content stored) = FAILED \<or> ns_status (content stored) = CANCELLED) \<and>
      ns_status (nw_value w) = WAITING \<longrightarrow> ns_idempotent (content stored)"
  using assms
  by (auto simp: upsertRejection_def durableResolution_def list_ex_iff Let_def
      split: option.splits if_splits)

lemma upsertNodeState_step: "guarantees (step_or_stay digest) (im_upsertNodeState w)"
proof (unfold guarantees_def, rule allI)
  fix s :: "'w mem_scheme"
  let ?k = "ns_node_state_key (nw_value w)"
  show "step_or_stay digest s (snd (im_upsertNodeState w s))"
  proof (cases "mapGet (m_states s) ?k")
    case None
    then show ?thesis
      using state_created [of s "(nw_value w)\<lparr> ns_revision := 1 \<rparr>" digest]
      by (auto simp: im_upsertNodeState_def im_run_defs Let_def)
  next
    case (Some v)
    show ?thesis
    proof (cases "upsertRejection (m_resolutions s) v w")
      case None
      then show ?thesis
        using Some state_moved [of s "(nw_value w)\<lparr> ns_revision := revision v + 1 \<rparr>" v digest]
          upsertRejection_None [OF None]
        by (auto simp: im_upsertNodeState_def im_run_defs Let_def)
    next
      case (Some code)
      with \<open>mapGet (m_states s) ?k = Some v\<close> show ?thesis
        by (simp add: im_upsertNodeState_def im_run_defs Let_def)
    qed
  qed
qed

lemma createAttempt_step: "guarantees (step_or_stay digest) (im_createAttempt digest c)"
proof (unfold guarantees_def, rule allI)
  fix s :: "'w mem_scheme"
  let ?n = "ns_latest_attempt_no (content (ca_node_state c)) + 1"
  show "step_or_stay digest s (snd (im_createAttempt digest c s))"
    using attempt_created [of digest "newAttempt c key ?n" key s for key]
    by (auto simp: im_createAttempt_def im_run_defs Let_def newAttempt_def
        split: sum.splits option.splits intro!: stepI)
qed

lemma attempt_update_step:
  "mapGet (m_attempts s) k = Some v \<Longrightarrow> na_status (content v) = RUNNING \<Longrightarrow> attempt_may_become (content v) a \<Longrightarrow>
   step_or_stay digest s (s\<lparr> m_attempts := mapSet k (nextStored v a) (m_attempts s) \<rparr>)"
  by (rule stepI, rule attempt_changed)

lemma setAttemptExecutionStarted_step: "guarantees (step_or_stay digest) (im_setAttemptExecutionStarted i e x)"
  unfolding guarantees_def im_setAttemptExecutionStarted_def
  by (auto simp: im_run_defs attempt_may_become_def split: sum.splits option.splits intro!: attempt_update_step)

lemma setAttemptInputBaseline_step: "guarantees (step_or_stay digest) (im_setAttemptInputBaseline i e x)"
  unfolding guarantees_def im_setAttemptInputBaseline_def
  by (auto simp: im_run_defs attempt_may_become_def split: sum.splits option.splits intro!: attempt_update_step)

lemma finalizeAttempt_step: "guarantees (step_or_stay digest) (im_finalizeAttempt i e f)"
  unfolding guarantees_def im_finalizeAttempt_def
  by (auto simp: im_run_defs attempt_may_become_def finalizedAttempt_def
      split: sum.splits option.splits intro!: attempt_update_step)

lemma appendResolution_step: "guarantees (step_or_stay digest) (im_appendResolution r)"
  unfolding guarantees_def im_appendResolution_def
  by (auto simp: im_run_defs Let_def split: sum.splits option.splits intro!: stepI resolution_appended)

lemma appendOperationAudit_step: "guarantees (step_or_stay digest) (im_appendOperationAudit a)"
  unfolding guarantees_def im_appendOperationAudit_def
  by (auto simp: im_run_defs Let_def list_ex_iff intro!: stepI audit_appended)

lemma reads_stay:
  "snd (im_getRun i s) = s" "snd (im_getRunByBusinessKey digest p n b s) = s"
  "snd (im_listRuns collate p n s) = s" "snd (im_getCancelRequest i s) = s"
  "snd (im_getInvocations i s) = s" "snd (im_getNodeStates collate i s) = s"
  "snd (im_getAttempts i s) = s" "snd (im_getResolutions i s) = s"
  "snd (im_getOperationAuditByEventId i s) = s" "snd (im_listInconsistencies collate i s) = s"
  by (auto simp: im_getRun_def im_getRunByBusinessKey_def im_listRuns_def im_getCancelRequest_def
      im_getInvocations_def im_getNodeStates_def im_getAttempts_def im_getResolutions_def
      im_getOperationAuditByEventId_def im_listInconsistencies_def im_run_defs Let_def
      split: sum.splits option.splits)

lemmas im_steps = createRun_step updateRunAggregate_step archiveRun_step createCancelRequest_step
  updateCancelRequest_step createInvocation_step finalizeInvocation_step upsertNodeState_step
  createAttempt_step setAttemptExecutionStarted_step setAttemptInputBaseline_step
  finalizeAttempt_step appendResolution_step appendOperationAudit_step

section \<open>The history of a store\<close>

definition mapEvolves :: "('a \<Rightarrow> 'a \<Rightarrow> bool) \<Rightarrow> 'a versioned jsmap \<Rightarrow> 'a versioned jsmap \<Rightarrow> bool" where
  "mapEvolves R m m' \<longleftrightarrow> (\<forall>k v. mapGet m k = Some v \<longrightarrow>
     (\<exists>v'. mapGet m' k = Some v' \<and> (v' = v \<or> revision v < revision v' \<and> R (content v) (content v'))))"

lemma mapEvolves_refl [simp]: "mapEvolves R m m"
  by (simp add: mapEvolves_def)

lemma mapEvolvesD:
  "mapEvolves R m m' \<Longrightarrow> mapGet m k = Some v \<Longrightarrow>
   \<exists>v'. mapGet m' k = Some v' \<and> (v' = v \<or> revision v < revision v' \<and> R (content v) (content v'))"
  by (simp add: mapEvolves_def)

lemma mapEvolves_trans:
  assumes "mapEvolves R m m'" "mapEvolves R m' m''" and trans: "\<And>a b c. R a b \<Longrightarrow> R b c \<Longrightarrow> R a c"
  shows "mapEvolves R m m''"
  unfolding mapEvolves_def
proof (intro allI impI)
  fix k v
  assume "mapGet m k = Some v"
  then obtain v' where v': "mapGet m' k = Some v'"
    and 1: "v' = v \<or> revision v < revision v' \<and> R (content v) (content v')"
    using mapEvolvesD [OF assms(1)] by blast
  obtain v'' where "mapGet m'' k = Some v''"
    and 2: "v'' = v' \<or> revision v' < revision v'' \<and> R (content v') (content v'')"
    using mapEvolvesD [OF assms(2) v'] by blast
  moreover have "v'' = v \<or> revision v < revision v'' \<and> R (content v) (content v'')"
    using 1 2 trans by force
  ultimately show "\<exists>v'. mapGet m'' k = Some v' \<and>
    (v' = v \<or> revision v < revision v' \<and> R (content v) (content v'))" by blast
qed

lemma mapEvolves_next:
  "mapGet m k = Some v \<Longrightarrow> R (content v) x \<Longrightarrow> mapEvolves R m (mapSet k (nextStored v x) m)"
  by (auto simp: mapEvolves_def update_conv')

lemma mapEvolves_fresh: "mapGet m k = None \<Longrightarrow> mapEvolves R m (mapSet k x m)"
  by (auto simp: mapEvolves_def update_conv')

definition mem_evolves :: "'w mem_scheme \<Rightarrow> 'w mem_scheme \<Rightarrow> bool" where
  "mem_evolves s t \<longleftrightarrow>
     mapEvolves run_may_become (m_runs s) (m_runs t) \<and>
     mapEvolves invocation_may_become (m_invocations s) (m_invocations t) \<and>
     mapEvolves state_may_become (m_states s) (m_states t) \<and>
     mapEvolves attempt_may_become (m_attempts s) (m_attempts t) \<and>
     mapEvolves (\<lambda>c c'. cr_run_id c' = cr_run_id c) (m_cancelRequests s) (m_cancelRequests t) \<and>
     (\<forall>i k. mapGet (m_attemptIds s) i = Some k \<longrightarrow> mapGet (m_attemptIds t) i = Some k) \<and>
     (\<forall>i k. mapGet (m_runKeys s) i = Some k \<longrightarrow> mapGet (m_runKeys t) i = Some k) \<and>
     (\<exists>rs. m_resolutions t = m_resolutions s @ rs) \<and>
     (\<exists>as. m_operationAudits t = m_operationAudits s @ as)"

lemma may_become_trans:
  "run_may_become a b \<Longrightarrow> run_may_become b c \<Longrightarrow> run_may_become a c"
  "invocation_may_become i j \<Longrightarrow> invocation_may_become j k \<Longrightarrow> invocation_may_become i k"
  "state_may_become n m \<Longrightarrow> state_may_become m l \<Longrightarrow> state_may_become n l"
  "attempt_may_become x y \<Longrightarrow> attempt_may_become y z \<Longrightarrow> attempt_may_become x z"
  by (auto simp: run_may_become_def invocation_may_become_def state_may_become_def attempt_may_become_def)

lemma mem_evolves_refl [simp]: "mem_evolves s s"
  by (simp add: mem_evolves_def)

lemma mem_evolves_trans: "mem_evolves s t \<Longrightarrow> mem_evolves t u \<Longrightarrow> mem_evolves s u"
  unfolding mem_evolves_def
  by (elim conjE, intro conjI)
    (blast intro: mapEvolves_trans may_become_trans | erule (1) mapEvolves_trans, simp | force)+

lemma state_moved_may_become:
  "isAllowedNodeStateTransition (ns_status v) (ns_status n) \<or>
     isAllowedResolutionTransition (ns_status v) (ns_status n) \<and> P \<Longrightarrow>
   ns_node_state_key n = ns_node_state_key v \<Longrightarrow> state_may_become v n"
  by (auto simp: state_may_become_def status_move_def)

section \<open>The invariant\<close>

definition business_identity :: "network_run \<Rightarrow> string \<times> string \<times> string" where
  "business_identity r = (rp_profile (nr_resolved_profile_snapshot r), nr_network_id r, nr_business_key r)"

definition run_key_of :: "(string \<Rightarrow> string) \<Rightarrow> network_run \<Rightarrow> js_error + string" where
  "run_key_of digest r = runKey digest (rp_profile (nr_resolved_profile_snapshot r)) (nr_network_id r) (nr_business_key r)"

definition runs_wf :: "(string \<Rightarrow> string) \<Rightarrow> network_run versioned jsmap \<Rightarrow> string jsmap \<Rightarrow> bool" where
  "runs_wf digest runs keys \<longleftrightarrow>
     (\<forall>i v. mapGet runs i = Some v \<longrightarrow> nr_run_id (content v) = i \<and> 1 \<le> revision v \<and>
        (\<exists>key. run_key_of digest (content v) = Inr key \<and> mapGet keys key = Some i)) \<and>
     (\<forall>key i. mapGet keys key = Some i \<longrightarrow>
        (\<exists>v. mapGet runs i = Some v \<and> run_key_of digest (content v) = Inr key))"

definition cancels_wf :: "cancel_request versioned jsmap \<Rightarrow> bool" where
  "cancels_wf m \<longleftrightarrow> (\<forall>i v. mapGet m i = Some v \<longrightarrow> cr_run_id (content v) = i \<and> 1 \<le> revision v)"

definition invocations_wf :: "run_invocation versioned jsmap \<Rightarrow> bool" where
  "invocations_wf m \<longleftrightarrow> (\<forall>i v. mapGet m i = Some v \<longrightarrow> ri_invocation_id (content v) = i \<and> 1 \<le> revision v)"

definition states_wf :: "node_state versioned jsmap \<Rightarrow> bool" where
  "states_wf m \<longleftrightarrow> (\<forall>k v. mapGet m k = Some v \<longrightarrow> ns_node_state_key (content v) = k \<and>
     ns_revision (content v) = revision v \<and> 1 \<le> revision v \<and> is_node_state_status (ns_status (content v)))"

definition attempts_wf :: "(string \<Rightarrow> string) \<Rightarrow> node_attempt versioned jsmap \<Rightarrow> string jsmap \<Rightarrow> bool" where
  "attempts_wf digest m ids \<longleftrightarrow>
     (\<forall>k v. mapGet m k = Some v \<longrightarrow> na_attempt_key (content v) = k \<and> 1 \<le> revision v \<and>
        attemptKey digest (na_run_id (content v)) (na_node_id (content v)) (na_attempt_no (content v)) = Inr k \<and>
        mapGet ids (na_node_attempt_id (content v)) = Some k) \<and>
     (\<forall>i k. mapGet ids i = Some k \<longrightarrow> (\<exists>v. mapGet m k = Some v \<and> na_node_attempt_id (content v) = i))"

definition resolutions_wf ::
  "attempt_resolution versioned list \<Rightarrow> node_attempt versioned jsmap \<Rightarrow> string jsmap \<Rightarrow> bool" where
  "resolutions_wf rs m ids \<longleftrightarrow> (\<forall>r \<in> set rs. \<exists>k v. mapGet ids (ar_attempt_id (content r)) = Some k \<and>
     mapGet m k = Some v \<and> (na_status (content v) = UNKNOWN \<or> na_status (content v) = FAILED))"

definition keys_distinct :: "'w mem_scheme \<Rightarrow> bool" where
  "keys_distinct s \<longleftrightarrow> distinct (map fst (m_runs s)) \<and> distinct (map fst (m_invocations s)) \<and>
     distinct (map fst (m_cancelRequests s)) \<and> distinct (map fst (m_states s)) \<and>
     distinct (map fst (m_attempts s))"

lemma store_step_keys_distinct: "store_step digest s t \<Longrightarrow> keys_distinct s \<Longrightarrow> keys_distinct t"
  by (induction rule: store_step.induct) (simp_all add: keys_distinct_def distinct_update)

definition mem_wf :: "(string \<Rightarrow> string) \<Rightarrow> 'w mem_scheme \<Rightarrow> bool" where
  "mem_wf digest s \<longleftrightarrow> keys_distinct s \<and> runs_wf digest (m_runs s) (m_runKeys s) \<and> cancels_wf (m_cancelRequests s) \<and>
     invocations_wf (m_invocations s) \<and> states_wf (m_states s) \<and>
     attempts_wf digest (m_attempts s) (m_attemptIds s) \<and>
     resolutions_wf (m_resolutions s) (m_attempts s) (m_attemptIds s) \<and>
     distinct (map (\<lambda>v. event_id (content v)) (m_operationAudits s))"

lemma mem_wf_emptyMem: "mem_wf digest emptyMem"
  by (simp add: mem_wf_def emptyMem_def runs_wf_def cancels_wf_def invocations_wf_def states_wf_def
      attempts_wf_def resolutions_wf_def keys_distinct_def)

lemma runs_wf_create:
  "runs_wf digest runs keys \<Longrightarrow> run_key_of digest r = Inr key \<Longrightarrow> mapGet runs (nr_run_id r) = None \<Longrightarrow>
   mapGet keys key = None \<Longrightarrow> runs_wf digest (mapSet (nr_run_id r) (versioned r 1) runs) (mapSet key (nr_run_id r) keys)"
  unfolding runs_wf_def
  by (simp add: update_conv') (metis option.distinct(1))

lemma run_may_become_key: "run_may_become r r' \<Longrightarrow> run_key_of digest r' = run_key_of digest r \<and> nr_run_id r' = nr_run_id r"
  by (cases r; cases r') (auto simp: run_may_become_def run_identity_def run_key_of_def)

lemma runs_wf_change:
  "runs_wf digest runs keys \<Longrightarrow> mapGet runs i = Some v \<Longrightarrow> run_may_become (content v) r \<Longrightarrow>
   runs_wf digest (mapSet i (nextStored v r) runs) keys"
  using run_may_become_key [of "content v" r digest] unfolding runs_wf_def
  by (simp add: update_conv') (smt (verit) option.inject)

lemma attempts_wf_create:
  assumes "attempts_wf digest m ids" "attemptKey digest (na_run_id a) (na_node_id a) (na_attempt_no a) = Inr key"
    and "na_attempt_key a = key" "mapGet m key = None" "mapGet ids (na_node_attempt_id a) = None"
  shows "attempts_wf digest (mapSet key (versioned a 1) m) (mapSet (na_node_attempt_id a) key ids)"
  using assms unfolding attempts_wf_def
  by (simp add: update_conv') (metis option.distinct(1))

lemma attempts_wf_change:
  "attempts_wf digest m ids \<Longrightarrow> mapGet m k = Some v \<Longrightarrow> attempt_may_become (content v) a \<Longrightarrow>
   attempts_wf digest (mapSet k (nextStored v a) m) ids"
  unfolding attempts_wf_def attempt_may_become_def
  by (simp add: update_conv') (smt (verit) option.inject)

lemma resolutions_wf_mono:
  assumes "resolutions_wf rs m ids" "mapEvolves attempt_may_become m m'"
    and "\<forall>i k. mapGet ids i = Some k \<longrightarrow> mapGet ids' i = Some k"
  shows "resolutions_wf rs m' ids'"
  unfolding resolutions_wf_def
proof (rule ballI)
  fix r
  assume "r \<in> set rs"
  then obtain k v where k: "mapGet ids (ar_attempt_id (content r)) = Some k" "mapGet m k = Some v"
    "na_status (content v) = UNKNOWN \<or> na_status (content v) = FAILED"
    using assms(1) unfolding resolutions_wf_def by blast
  with mapEvolvesD [OF assms(2) k(2)] assms(3)
  show "\<exists>k v. mapGet ids' (ar_attempt_id (content r)) = Some k \<and> mapGet m' k = Some v \<and>
     (na_status (content v) = UNKNOWN \<or> na_status (content v) = FAILED)"
    by (auto simp: attempt_may_become_def)
qed

lemma states_wf_change:
  assumes "states_wf m" "mapGet m (ns_node_state_key n) = Some v" "ns_revision n = revision v + 1"
    and "is_node_state_status (ns_status n)"
  shows "states_wf (mapSet (ns_node_state_key n) (nextStored v n) m)"
proof -
  have "0 \<le> revision v" using assms(1,2) by (fastforce simp: states_wf_def)
  with assms show ?thesis by (simp add: states_wf_def update_conv')
qed

lemma cancels_wf_change:
  assumes "cancels_wf m" "mapGet m i = Some v" "cr_run_id c = i"
  shows "cancels_wf (mapSet i (nextStored v c) m)"
proof -
  have "0 \<le> revision v" using assms(1,2) by (fastforce simp: cancels_wf_def)
  with assms show ?thesis by (simp add: cancels_wf_def update_conv')
qed

lemma invocations_wf_change:
  assumes "invocations_wf m" "mapGet m i = Some v" "invocation_may_become (content v) x"
  shows "invocations_wf (mapSet i (nextStored v x) m)"
proof -
  have "0 \<le> revision v" using assms(1,2) by (fastforce simp: invocations_wf_def)
  moreover have "ri_invocation_id x = i"
    using assms by (auto simp: invocations_wf_def invocation_may_become_def)
  ultimately show ?thesis using assms by (simp add: invocations_wf_def update_conv')
qed

text \<open>What a state created by \<open>store_step\<close> must be like to carry the invariant on.\<close>

lemma typed_targets:
  "isAllowedNodeStateTransition a b \<Longrightarrow> is_node_state_status b"
  "isAllowedResolutionTransition a b \<Longrightarrow> is_node_state_status b"
  by (cases a) (auto simp: isAllowedNodeStateTransition_def isAllowedResolutionTransition_def is_node_state_status_def)

lemma store_step_evolves: "store_step digest s t \<Longrightarrow> mem_wf digest s \<Longrightarrow> mem_evolves s t"
proof (induction rule: store_step.induct)
  case (state_moved s n v)
  then have "ns_node_state_key n = ns_node_state_key (content v)"
    by (auto simp: mem_wf_def states_wf_def)
  with state_moved have "state_may_become (content v) n" by (blast intro: state_moved_may_become)
  with state_moved show ?case by (simp add: mem_evolves_def mapEvolves_next)
next
  case (cancel_changed s i v c)
  then have "cr_run_id c = cr_run_id (content v)"
    by (simp add: mem_wf_def cancels_wf_def)
  with cancel_changed show ?case by (simp add: mem_evolves_def mapEvolves_next)
qed (auto simp: mem_evolves_def update_conv' intro: mapEvolves_next mapEvolves_fresh)

lemma store_step_wf:
  assumes "store_step digest s t" "mem_wf digest s"
  shows "mem_wf digest t"
proof -
  have ev: "mem_evolves s t" using assms by (rule store_step_evolves)
  then have res: "resolutions_wf (m_resolutions s) (m_attempts t) (m_attemptIds t)"
    using assms(2) unfolding mem_evolves_def mem_wf_def by (blast intro: resolutions_wf_mono)
  have kd: "keys_distinct t"
    using store_step_keys_distinct [OF assms(1)] assms(2) by (simp add: mem_wf_def)
  show ?thesis
    using assms(1) assms(2) res kd
  proof (cases rule: store_step.cases)
    case run_created
    with assms(2) res kd show ?thesis by (simp add: mem_wf_def runs_wf_create run_key_of_def)
  next
    case run_changed
    with assms(2) res kd show ?thesis by (simp add: mem_wf_def runs_wf_change)
  next
    case attempt_created
    with assms(2) res kd show ?thesis by (simp add: mem_wf_def attempts_wf_create)
  next
    case attempt_changed
    with assms(2) res kd show ?thesis by (simp add: mem_wf_def attempts_wf_change)
  next
    case resolution_appended
    with assms(2) res kd show ?thesis by (auto simp: mem_wf_def resolutions_wf_def)
  next
    case audit_appended
    with assms(2) res kd show ?thesis by (auto simp: mem_wf_def)
  next
    case (state_moved n v)
    then have "is_node_state_status (ns_status n)" using typed_targets by blast
    with state_moved assms(2) res kd show ?thesis by (simp add: mem_wf_def states_wf_change)
  next
    case cancel_changed
    with assms(2) res kd show ?thesis by (simp add: mem_wf_def cancels_wf_change)
  next
    case invocation_finalized
    with assms(2) res kd show ?thesis by (simp add: mem_wf_def invocations_wf_change)
  qed (simp_all add: mem_wf_def cancels_wf_def invocations_wf_def states_wf_def update_conv'
      is_node_state_status_def)
qed

section \<open>The two together\<close>

definition mem_history :: "(string \<Rightarrow> string) \<Rightarrow> 'w mem_scheme \<Rightarrow> 'w mem_scheme \<Rightarrow> bool" where
  "mem_history digest s t \<longleftrightarrow> (mem_wf digest s \<longrightarrow> mem_wf digest t \<and> mem_evolves s t)"

lemma mem_history_refl: "mem_history digest s s"
  by (simp add: mem_history_def)

lemma mem_history_trans: "mem_history digest s t \<Longrightarrow> mem_history digest t u \<Longrightarrow> mem_history digest s u"
  unfolding mem_history_def by (blast intro: mem_evolves_trans)

lemma step_or_stay_history: "step_or_stay digest s t \<Longrightarrow> mem_history digest s t"
  by (auto simp: step_or_stay_def mem_history_def store_step_evolves store_step_wf)

lemma guarantees_history: "guarantees (step_or_stay digest) m \<Longrightarrow> guarantees (mem_history digest) m"
  by (simp add: guarantees_def step_or_stay_history)

lemma guarantees_history_read: "(\<And>s. snd (m s) = s) \<Longrightarrow> guarantees (mem_history digest) m"
  by (simp add: guarantees_def mem_history_refl)

end
