(* ===== verification/RepositoryContract.thy ===== *)
theory RepositoryContract
  imports RepositoryProps
begin

text \<open>
  The contract between the persistence layer and its clients. A client (cancel request, node
  resolution, reconciliation, ...) calls the methods of a \<open>'s repository\<close>, a clock and a source
  of UUIDs; the contract \<open>repository_client\<close> says that every one of these calls, also one that
  throws, relates the states before and after it by \<open>T\<close>. The lemmas of the locale lift this to
  whole clients (in the theories of the clients, in \<open>context repository_client\<close>), and the
  interpretation at the end of this theory gives \<open>mem_repository\<close> as the provider, with the
  history of the store as \<open>T\<close>. The properties of the store itself close the theory.
\<close>

section \<open>The contract\<close>

locale repository_contract = state_order T
  for T :: "'s \<Rightarrow> 's \<Rightarrow> bool" +
  fixes R :: "'s repository"
  assumes writes [guarantees_intro]:
    "guarantees T (createRun R run)"
    "guarantees T (createCancelRequest R c)" "guarantees T (updateCancelRequest R i n c)"
    "guarantees T (updateRunAggregate R i n u)" "guarantees T (archiveRunRecord R i n x)"
    "guarantees T (createInvocation R v)" "guarantees T (finalizeInvocation R i n f)"
    "guarantees T (upsertNodeState R w)" "guarantees T (createAttempt R a)"
    "guarantees T (setAttemptInputBaseline R i n x)" "guarantees T (setAttemptExecutionStarted R i n x)"
    "guarantees T (finalizeAttempt R i n af)" "guarantees T (appendResolution R ar)"
    "guarantees T (appendOperationAudit R oa)"
    and reads [guarantees_intro]:
    "guarantees T (getRun R i)" "guarantees T (getRunByBusinessKey R i j k)" "guarantees T (listRuns R i j)"
    "guarantees T (getCancelRequest R i)" "guarantees T (getInvocations R i)"
    "guarantees T (getNodeStates R i)" "guarantees T (getAttempts R i)" "guarantees T (getResolutions R i)"
    "guarantees T (getOperationAuditByEventId R i)" "guarantees T (listInconsistencies R i)"

locale repository_client = repository_contract T R
  for T :: "'s \<Rightarrow> 's \<Rightarrow> bool" and R :: "'s repository" +
  fixes now :: "('s, string) prog" and uuid :: "('s, string) prog"
  assumes now_keeps [guarantees_intro]: "guarantees T now"
    and uuid_keeps [guarantees_intro]: "guarantees T uuid"

section \<open>The provider\<close>

lemma mem_repository_simps [simp]:
  "createRun (mem_repository digest collate) = im_createRun digest"
  "getRun (mem_repository digest collate) = im_getRun"
  "getRunByBusinessKey (mem_repository digest collate) = im_getRunByBusinessKey digest"
  "listRuns (mem_repository digest collate) = im_listRuns collate"
  "getCancelRequest (mem_repository digest collate) = im_getCancelRequest"
  "createCancelRequest (mem_repository digest collate) = im_createCancelRequest"
  "updateCancelRequest (mem_repository digest collate) = im_updateCancelRequest"
  "updateRunAggregate (mem_repository digest collate) = im_updateRunAggregate"
  "archiveRunRecord (mem_repository digest collate) = im_archiveRun"
  "createInvocation (mem_repository digest collate) = im_createInvocation"
  "getInvocations (mem_repository digest collate) = im_getInvocations"
  "finalizeInvocation (mem_repository digest collate) = im_finalizeInvocation"
  "getNodeStates (mem_repository digest collate) = im_getNodeStates collate"
  "getAttempts (mem_repository digest collate) = im_getAttempts"
  "getResolutions (mem_repository digest collate) = im_getResolutions"
  "upsertNodeState (mem_repository digest collate) = im_upsertNodeState"
  "createAttempt (mem_repository digest collate) = im_createAttempt digest"
  "setAttemptInputBaseline (mem_repository digest collate) = im_setAttemptInputBaseline"
  "setAttemptExecutionStarted (mem_repository digest collate) = im_setAttemptExecutionStarted"
  "finalizeAttempt (mem_repository digest collate) = im_finalizeAttempt"
  "appendResolution (mem_repository digest collate) = im_appendResolution"
  "appendOperationAudit (mem_repository digest collate) = im_appendOperationAudit"
  "getOperationAuditByEventId (mem_repository digest collate) = im_getOperationAuditByEventId"
  "listInconsistencies (mem_repository digest collate) = im_listInconsistencies collate"
  by (simp_all add: mem_repository_def)

lemma state_order_history: "state_order (mem_history digest)"
  by unfold_locales (auto intro: mem_history_refl mem_history_trans)

interpretation store: repository_contract "mem_history digest" "mem_repository digest collate"
  for digest collate
proof (intro repository_contract.intro state_order_history repository_contract_axioms.intro)
qed (simp_all add: guarantees_history im_steps guarantees_history_read reads_stay)

text \<open>A clock and a source of UUIDs outside the store: they may change anything but the store.\<close>

definition outside_store :: "('w mem_scheme, 'a) prog \<Rightarrow> bool" where
  "outside_store m \<longleftrightarrow> (\<forall>s. mem.truncate (snd (m s)) = mem.truncate s)"

lemma same_store_history:
  fixes s t :: "'w mem_scheme"
  assumes "mem.truncate t = mem.truncate s"
  shows "mem_history digest s t"
proof -
  have "m_runs t = m_runs s" "m_runKeys t = m_runKeys s" "m_invocations t = m_invocations s"
    "m_cancelRequests t = m_cancelRequests s" "m_states t = m_states s" "m_attempts t = m_attempts s"
    "m_attemptIds t = m_attemptIds s" "m_resolutions t = m_resolutions s"
    "m_operationAudits t = m_operationAudits s"
    using assms by (simp_all add: mem.truncate_def)
  then show ?thesis by (simp add: mem_history_def mem_wf_def mem_evolves_def keys_distinct_def)
qed

lemma outside_store_history: "outside_store m \<Longrightarrow> guarantees (mem_history digest) m"
  by (simp add: outside_store_def guarantees_def same_store_history)

lemma store_client:
  "outside_store now \<Longrightarrow> outside_store uuid \<Longrightarrow>
   repository_client (mem_history digest) (mem_repository digest collate) now uuid"
  by (intro repository_client.intro store.repository_contract_axioms repository_client_axioms.intro)
    (auto intro: outside_store_history)

lemma outside_store_pure [simp]: "outside_store (retP x)"
  by (simp add: outside_store_def)

end
