(* ===== verification/StoreProps.thy ===== *)
theory StoreProps
  imports RepositoryContract
begin

text \<open>
  Properties of the in-memory store, and the world the clients are interpreted in: the store, and
  what the clock and the UUID source will answer (\<open>w_times\<close>, \<open>w_uuids\<close>: any script of
  the environment).
\<close>

section \<open>A world with a clock and UUIDs\<close>

record world = mem +
  w_times :: "string list"
  w_uuids :: "string list"

definition worldNow :: "('w world_scheme, string) prog" where
  "worldNow s = (case w_times s of [] \<Rightarrow> (Inr [], s) | x # xs \<Rightarrow> (Inr x, s\<lparr> w_times := xs \<rparr>))"

definition worldUuid :: "('w world_scheme, string) prog" where
  "worldUuid s = (case w_uuids s of [] \<Rightarrow> (Inr [], s) | x # xs \<Rightarrow> (Inr x, s\<lparr> w_uuids := xs \<rparr>))"

lemma world_outside_store [simp]: "outside_store worldNow" "outside_store worldUuid"
  by (auto simp: outside_store_def worldNow_def worldUuid_def mem.truncate_def split: list.splits)

interpretation client: repository_client
    "mem_history digest" "mem_repository digest collate" "worldNow :: ('w world_scheme, string) prog"
    "worldUuid :: ('w world_scheme, string) prog"
  for digest collate
  by (rule store_client) simp_all

section \<open>Sample data\<close>

definition sampleProfile :: resolved_profile_snapshot where
  "sampleProfile = \<lparr> rp_profile = ''prod'', rp_base_url = ''https://example.cybozu.com'',
     rp_guest_space_id = None, rp_timezone = ''Asia/Tokyo'', rp_apps = [], rp_max_api_calls = None,
     rp_max_read_rows = None, rp_batch_timeout_sec = None \<rparr>"

definition sampleRun :: network_run where
  "sampleRun = \<lparr> nr_run_id = ''run1'', nr_network_id = ''monthly'', nr_business_key = ''2026-01'',
     nr_max_active_runs = 1, nr_status = CREATED, nr_lifecycle_status = ACTIVE, nr_resume_allowed = True,
     nr_as_of = None, nr_definition_schema_version = 1, nr_definition_sha256 = ''d'',
     nr_source_bundle_sha256 = ''b'', nr_source_bundle_attachment = ''a'',
     nr_resolved_profile_snapshot = sampleProfile, nr_resolved_profile_sha256 = ''p'',
     nr_ksql_flow_version = ''1'', nr_engine_version = ''1'', nr_dialect = 1, nr_created_at = ''t0'',
     nr_started_at = None, nr_finished_at = None, nr_updated_at = ''t0'' \<rparr>"

definition sampleRunKey :: string where
  "sampleRunKey = (case runKey padDigest ''prod'' ''monthly'' ''2026-01'' of Inl _ \<Rightarrow> [] | Inr k \<Rightarrow> k)"

lemma padDigest_length: "\<forall>s. length (padDigest s) = 43"
  by (auto simp: padDigest_def min_def)

lemma sampleRunKey: "runKey padDigest ''prod'' ''monthly'' ''2026-01'' = Inr sampleRunKey"
proof -
  have "validIdentifier ''prod''" "validIdentifier ''monthly''" "validIdentifier ''2026-01''"
    by (simp_all add: validIdentifier_def NUL_def reservedIdentifier_def
        MAX_CANONICAL_LOCK_IDENTIFIER_LENGTH_def)
  then have "\<exists>k. runKey padDigest ''prod'' ''monthly'' ''2026-01'' = Inr k"
    using padDigest_length by (simp add: runKey_Inr canonicalKey_Inr CANONICAL_KEY_LENGTH_def)
  then show ?thesis by (auto simp: sampleRunKey_def)
qed

definition sampleStore :: mem where
  "sampleStore = emptyMem\<lparr> m_runs := [(''run1'', versioned sampleRun 1)], m_runKeys := [(sampleRunKey, ''run1'')] \<rparr>"

lemma createRun_sample: "im_createRun padDigest sampleRun emptyMem = (Inr (versioned sampleRun 1), sampleStore)"
  using sampleRunKey
  by (simp add: im_createRun_def bindP_def sampleRun_def sampleProfile_def emptyMem_def sampleStore_def Let_def)

lemma sampleStore_reached: "(store_step padDigest)\<^sup>*\<^sup>* emptyMem sampleStore"
  using guaranteesD [OF createRun_step [of padDigest sampleRun] createRun_sample]
  by (auto simp: step_or_stay_def)

lemma reached_wf: "(store_step digest)\<^sup>*\<^sup>* emptyMem s \<Longrightarrow> mem_wf digest s"
  by (induction rule: rtranclp_induct) (auto simp: mem_wf_emptyMem store_step_wf)

lemma reached_evolves: "(store_step digest)\<^sup>*\<^sup>* s t \<Longrightarrow> mem_wf digest s \<Longrightarrow> mem_wf digest t \<and> mem_evolves s t"
  by (induction rule: rtranclp_induct) (auto intro: store_step_wf mem_evolves_trans store_step_evolves)

lemma find_unique:
  "(\<And>a b. a \<in> set xs \<Longrightarrow> b \<in> set xs \<Longrightarrow> f a = f b \<Longrightarrow> a = b) \<Longrightarrow>
   find (\<lambda>a. f a = i) xs = Some x \<longleftrightarrow> x \<in> set xs \<and> f x = i"
  by (induction xs) auto

lemma stateInconsistencies_Nil:
  assumes xs: "xs = filter (\<lambda>a. na_run_id (content a) = run \<and> na_node_id (content a) = ns_node_id (content v)) atts"
    and inj: "\<And>a b. a \<in> set xs \<Longrightarrow> b \<in> set xs \<Longrightarrow>
      na_node_attempt_id (content a) = na_node_attempt_id (content b) \<Longrightarrow> a = b"
  shows "stateInconsistencies run atts v = [] \<longleftrightarrow>
    length (filter (\<lambda>a. na_status (content a) = RUNNING) xs) \<le> 1 \<and>
    (\<forall>i. ns_active_attempt_id (content v) = Some i \<and> i \<noteq> [] \<longrightarrow>
      (\<exists>a \<in> set xs. na_node_attempt_id (content a) = i \<and> na_status (content a) = ns_status (content v)))"
proof (cases "ns_active_attempt_id (content v)")
  case None
  then show ?thesis by (simp add: stateInconsistencies_def Let_def xs [symmetric] not_less)
next
  case (Some i)
  note active = Some
  show ?thesis
  proof (cases "find (\<lambda>a. na_node_attempt_id (content a) = i) xs")
    case None
    then have "\<not> (\<exists>a \<in> set xs. na_node_attempt_id (content a) = i)" by (auto simp: find_None_iff)
    with None active show ?thesis
      by (simp add: stateInconsistencies_def Let_def xs [symmetric] not_less)
  next
    case (Some a)
    then have a: "a \<in> set xs" "na_node_attempt_id (content a) = i"
      using find_unique [of xs "\<lambda>a. na_node_attempt_id (content a)" i a] inj by auto
    then have "(\<exists>b \<in> set xs. na_node_attempt_id (content b) = i \<and> na_status (content b) = ns_status (content v)) \<longleftrightarrow>
        na_status (content a) = ns_status (content v)"
      using inj by blast
    with Some active show ?thesis
      by (simp add: stateInconsistencies_def Let_def xs [symmetric] not_less)
  qed
qed

section \<open>Properties\<close>

text \<open>
  C1: Every method of the in-memory repository, whatever it is called with and whether it returns
  or throws, keeps the invariant of the store and its history: no record is deleted, a revision
  never goes down and a record with the same revision is unchanged, finished attempts and
  finalized invocations are frozen, archived runs stay archived, identifying fields never change,
  node states move along the transition table, and resolutions and audits are append-only.
\<close>

theorem repository_keeps_history:
  "guarantees (mem_history digest) (createRun (mem_repository digest collate) run) \<and>
   guarantees (mem_history digest) (createCancelRequest (mem_repository digest collate) c) \<and>
   guarantees (mem_history digest) (updateCancelRequest (mem_repository digest collate) i n c) \<and>
   guarantees (mem_history digest) (updateRunAggregate (mem_repository digest collate) i n u) \<and>
   guarantees (mem_history digest) (archiveRunRecord (mem_repository digest collate) i n x) \<and>
   guarantees (mem_history digest) (createInvocation (mem_repository digest collate) v) \<and>
   guarantees (mem_history digest) (finalizeInvocation (mem_repository digest collate) i n f) \<and>
   guarantees (mem_history digest) (upsertNodeState (mem_repository digest collate) w) \<and>
   guarantees (mem_history digest) (createAttempt (mem_repository digest collate) a) \<and>
   guarantees (mem_history digest) (setAttemptInputBaseline (mem_repository digest collate) i n x) \<and>
   guarantees (mem_history digest) (setAttemptExecutionStarted (mem_repository digest collate) i n x) \<and>
   guarantees (mem_history digest) (finalizeAttempt (mem_repository digest collate) i n af) \<and>
   guarantees (mem_history digest) (appendResolution (mem_repository digest collate) ar) \<and>
   guarantees (mem_history digest) (appendOperationAudit (mem_repository digest collate) oa)"
  by (intro conjI store.writes)

text \<open>
  At most one run per profile, network and business key: in every store reached from the empty
  one, two runs with the same business identity are the same record, and looking the identity up
  returns exactly that run.
\<close>

theorem run_unique_per_business_key:
  assumes "(store_step digest)\<^sup>*\<^sup>* emptyMem s"
    and "mapGet (m_runs s) i = Some v" "mapGet (m_runs s) j = Some w" "i \<noteq> []"
    and "business_identity (content v) = business_identity (content w)"
  shows "i = j \<and> v = w \<and>
    im_getRunByBusinessKey digest (rp_profile (nr_resolved_profile_snapshot (content v)))
      (nr_network_id (content v)) (nr_business_key (content v)) s = (Inr (Some v), s)"
proof -
  have wf: "runs_wf digest (m_runs s) (m_runKeys s)"
    using reached_wf [OF assms(1)] by (simp add: mem_wf_def)
  obtain key where key: "run_key_of digest (content v) = Inr key" "mapGet (m_runKeys s) key = Some i"
    using wf assms(2) unfolding runs_wf_def by blast
  obtain key' where "run_key_of digest (content w) = Inr key'" "mapGet (m_runKeys s) key' = Some j"
    using wf assms(3) unfolding runs_wf_def by blast
  moreover have "run_key_of digest (content w) = run_key_of digest (content v)"
    using assms(5) by (simp add: run_key_of_def business_identity_def)
  ultimately have "i = j" using key by simp
  then show ?thesis
    using assms key by (simp add: im_getRunByBusinessKey_def bindP_def run_key_of_def required_def)
qed

theorem run_unique_per_business_key_witness:
  "im_getRunByBusinessKey padDigest ''prod'' ''monthly'' ''2026-01'' sampleStore =
     (Inr (Some (versioned sampleRun 1)), sampleStore)"
  using run_unique_per_business_key [OF sampleStore_reached, of "''run1''" "versioned sampleRun 1" "''run1''" "versioned sampleRun 1"]
  by (simp add: sampleStore_def sampleRun_def sampleProfile_def)

text \<open>
  Optimistic concurrency: a write that names a revision other than the stored one throws
  REVISION_CONFLICT and changes nothing, whatever it was going to write.
\<close>

theorem stale_revision_rejected:
  "(\<forall>v. mapGet (m_runs s) i = Some v \<and> revision v \<noteq> n \<longrightarrow>
      im_updateRunAggregate i n u s = (Inl (RepositoryError REVISION_CONFLICT None), s) \<and>
      im_archiveRun i n x s = (Inl (RepositoryError REVISION_CONFLICT None), s)) \<and>
   (\<forall>v. mapGet (m_cancelRequests s) i = Some v \<and> revision v \<noteq> n \<longrightarrow>
      im_updateCancelRequest i n c s = (Inl (RepositoryError REVISION_CONFLICT None), s)) \<and>
   (\<forall>v. mapGet (m_invocations s) i = Some v \<and> revision v \<noteq> n \<longrightarrow>
      im_finalizeInvocation i n f s = (Inl (RepositoryError REVISION_CONFLICT None), s)) \<and>
   (\<forall>v. mapGet (m_states s) (ns_node_state_key (nw_value w)) = Some v \<and>
        nw_expected_revision w = Some n \<and> revision v \<noteq> n \<longrightarrow>
      im_upsertNodeState w s = (Inl (RepositoryError REVISION_CONFLICT None), s)) \<and>
   (\<forall>k v. mapGet (m_attemptIds s) i = Some k \<and> k \<noteq> [] \<and> mapGet (m_attempts s) k = Some v \<and> revision v \<noteq> n \<longrightarrow>
      im_setAttemptExecutionStarted i n x s = (Inl (RepositoryError REVISION_CONFLICT None), s) \<and>
      im_setAttemptInputBaseline i n x s = (Inl (RepositoryError REVISION_CONFLICT None), s) \<and>
      im_finalizeAttempt i n af s = (Inl (RepositoryError REVISION_CONFLICT None), s))"
  by (auto simp: im_updateRunAggregate_def im_archiveRun_def im_updateCancelRequest_def
      im_finalizeInvocation_def im_upsertNodeState_def im_setAttemptExecutionStarted_def
      im_setAttemptInputBaseline_def im_finalizeAttempt_def upsertRejection_def im_run_defs Let_def)

theorem stale_revision_rejected_witness:
  "im_archiveRun ''run1'' 2 ''t1'' sampleStore = (Inl (RepositoryError REVISION_CONFLICT None), sampleStore)"
  using stale_revision_rejected [of sampleStore "''run1''" 2]
  by (simp add: sampleStore_def)

text \<open>
  A method that throws leaves the store as it was: no write of the store is partial.
\<close>

theorem failed_method_changes_nothing:
  "(fst (im_createRun digest run s) = Inl e \<longrightarrow> snd (im_createRun digest run s) = s) \<and>
   (fst (im_createCancelRequest c s) = Inl e \<longrightarrow> snd (im_createCancelRequest c s) = s) \<and>
   (fst (im_updateCancelRequest i n c s) = Inl e \<longrightarrow> snd (im_updateCancelRequest i n c s) = s) \<and>
   (fst (im_updateRunAggregate i n u s) = Inl e \<longrightarrow> snd (im_updateRunAggregate i n u s) = s) \<and>
   (fst (im_archiveRun i n x s) = Inl e \<longrightarrow> snd (im_archiveRun i n x s) = s) \<and>
   (fst (im_createInvocation v s) = Inl e \<longrightarrow> snd (im_createInvocation v s) = s) \<and>
   (fst (im_finalizeInvocation i n f s) = Inl e \<longrightarrow> snd (im_finalizeInvocation i n f s) = s) \<and>
   (fst (im_upsertNodeState w s) = Inl e \<longrightarrow> snd (im_upsertNodeState w s) = s) \<and>
   (fst (im_createAttempt digest a s) = Inl e \<longrightarrow> snd (im_createAttempt digest a s) = s) \<and>
   (fst (im_finalizeAttempt i n af s) = Inl e \<longrightarrow> snd (im_finalizeAttempt i n af s) = s) \<and>
   (fst (im_appendResolution ar s) = Inl e \<longrightarrow> snd (im_appendResolution ar s) = s) \<and>
   (fst (im_appendOperationAudit oa s) = Inl e \<longrightarrow> snd (im_appendOperationAudit oa s) = s)"
  by (intro conjI)
    (simp_all add: im_createRun_def im_createCancelRequest_def im_updateCancelRequest_def
      im_updateRunAggregate_def im_archiveRun_def im_createInvocation_def im_finalizeInvocation_def
      im_upsertNodeState_def im_createAttempt_def im_finalizeAttempt_def im_appendResolution_def
      im_appendOperationAudit_def im_run_defs Let_def split: option.split sum.split)

theorem failed_method_changes_nothing_witness:
  "im_createRun padDigest sampleRun sampleStore = (Inl (RepositoryError DUPLICATE_RECORD None), sampleStore)"
proof -
  have "fst (im_createRun padDigest sampleRun sampleStore) = Inl (RepositoryError DUPLICATE_RECORD None)"
    using sampleRunKey
    by (simp add: im_createRun_def bindP_def sampleRun_def sampleProfile_def sampleStore_def mapHas_def)
  with failed_method_changes_nothing [of padDigest sampleRun sampleStore "RepositoryError DUPLICATE_RECORD None"]
  show ?thesis by (simp add: prod_eq_iff)
qed

text \<open>
  C6: A successful write of an existing node state is one move of the transition table, stored
  under the next revision and touching no other node: a FAILED node reaches SUCCESS, FAILED or
  CANCELLED otherwise only through a durable resolution with that outcome, a FAILED or CANCELLED
  node returns to WAITING only when it is idempotent, and an UNKNOWN node never goes back to
  WAITING or RUNNING.
\<close>

theorem node_state_write_is_a_move:
  assumes "im_upsertNodeState w s = (Inr v, t)"
    and "mapGet (m_states s) (ns_node_state_key (nw_value w)) = Some old"
  shows "content v = (nw_value w)\<lparr> ns_revision := revision old + 1 \<rparr> \<and> revision v = revision old + 1 \<and>
    nw_expected_revision w = Some (revision old) \<and>
    t = s\<lparr> m_states := mapSet (ns_node_state_key (nw_value w)) v (m_states s) \<rparr> \<and>
    (isAllowedNodeStateTransition (ns_status (content old)) (ns_status (content v)) \<or>
     ns_status (content old) = FAILED \<and>
     (\<exists>r \<in> set (m_resolutions s). ar_resolved_outcome (content r) = ns_status (content v))) \<and>
    (ns_status (content old) \<in> {FAILED, CANCELLED} \<and> ns_status (content v) = WAITING \<longrightarrow>
     ns_idempotent (content old)) \<and>
    (ns_status (content old) = UNKNOWN \<longrightarrow> ns_status (content v) \<notin> {WAITING, RUNNING, BLOCKED, SKIPPED})"
proof (cases "upsertRejection (m_resolutions s) old w")
  case None
  note ok = upsertRejection_None [OF None]
  have v: "v = nextStored old ((nw_value w)\<lparr> ns_revision := revision old + 1 \<rparr>)"
    and t: "t = s\<lparr> m_states := mapSet (ns_node_state_key (nw_value w)) v (m_states s) \<rparr>"
    using assms None by (auto simp: im_upsertNodeState_def im_run_defs Let_def)
  have "ns_status (content old) = UNKNOWN \<Longrightarrow> ns_status (nw_value w) \<notin> {WAITING, RUNNING, BLOCKED, SKIPPED}"
    using ok(2) by (auto simp: isAllowedNodeStateTransition_def isAllowedResolutionTransition_def)
  moreover have "isAllowedNodeStateTransition (ns_status (content old)) (ns_status (nw_value w)) \<or>
     ns_status (content old) = FAILED \<and>
     (\<exists>r \<in> set (m_resolutions s). ar_resolved_outcome (content r) = ns_status (nw_value w))"
    using ok(2) by (auto simp: isAllowedResolutionTransition_def)
  ultimately show ?thesis using ok(1,3) t by (simp add: v)
next
  case (Some code)
  with assms show ?thesis by (simp add: im_upsertNodeState_def im_run_defs Let_def)
qed

definition sampleState :: node_state where
  "sampleState = \<lparr> ns_node_state_id = ''st1'', ns_node_state_key = ''k1'', ns_run_id = ''run1'',
     ns_node_id = ''a'', ns_job_id = ''job_a'', ns_status = WAITING, ns_latest_attempt_no = 0,
     ns_active_attempt_id = None, ns_revision = 1, ns_idempotent = False, ns_trigger_rule = ALL_SUCCESS,
     ns_blocked_by = [], ns_status_reason = None, ns_started_at = None, ns_finished_at = None,
     ns_updated_at = ''t0'' \<rparr>"

theorem node_state_write_is_a_move_witness:
  "\<exists>v t. im_upsertNodeState \<lparr> nw_value = sampleState\<lparr> ns_status := RUNNING \<rparr>, nw_expected_revision = Some 1,
       nw_resolution_event = None \<rparr> (emptyMem\<lparr> m_states := [(''k1'', versioned sampleState 1)] \<rparr>) = (Inr v, t) \<and>
     revision v = 2"
proof -
  let ?w = "\<lparr> nw_value = sampleState\<lparr> ns_status := RUNNING \<rparr>, nw_expected_revision = Some 1, nw_resolution_event = None \<rparr>"
  let ?s = "emptyMem\<lparr> m_states := [(''k1'', versioned sampleState 1)] \<rparr>"
  have "\<exists>v t. im_upsertNodeState ?w ?s = (Inr v, t)"
    by (simp add: im_upsertNodeState_def im_run_defs sampleState_def upsertRejection_def
        durableResolution_def isAllowedNodeStateTransition_def Let_def)
  then obtain v t where run: "im_upsertNodeState ?w ?s = (Inr v, t)" by blast
  moreover have "mapGet (m_states ?s) (ns_node_state_key (nw_value ?w)) = Some (versioned sampleState 1)"
    by (simp add: sampleState_def)
  ultimately show ?thesis using node_state_write_is_a_move by fastforce
qed

text \<open>
  Allocating an attempt is idempotent: repeating a \<open>createAttempt\<close> that succeeded returns
  the same record and changes nothing, the record is running with the next attempt number and the
  revision of the state it was taken from, and another attempt id is refused that number.
\<close>

theorem create_attempt_idempotent:
  assumes "im_createAttempt digest input s = (Inr v, t)"
  shows "im_createAttempt digest input t = (Inr v, t) \<and>
    na_node_attempt_id (content v) = ca_node_attempt_id input \<and>
    (t \<noteq> s \<longrightarrow> na_status (content v) = RUNNING \<and>
       na_attempt_no (content v) = ns_latest_attempt_no (content (ca_node_state input)) + 1 \<and>
       na_state_revision_before (content v) = Some (revision (ca_node_state input))) \<and>
    (\<forall>other. other \<noteq> ca_node_attempt_id input \<longrightarrow>
       im_createAttempt digest (input\<lparr> ca_node_attempt_id := other \<rparr>) t =
         (Inl (RepositoryError ATTEMPT_NUMBER_CONFLICT None), t))"
  using assms
  by (auto simp: im_createAttempt_def im_run_defs Let_def newAttempt_def update_conv'
      split: sum.splits option.splits if_splits)

theorem create_attempt_idempotent_witness:
  "\<exists>v t. im_createAttempt padDigest \<lparr> ca_node_state = versioned sampleState 1, ca_node_attempt_id = ''at1'',
       ca_invocation_id = ''inv1'' \<rparr> sampleStore = (Inr v, t) \<and>
     im_createAttempt padDigest \<lparr> ca_node_state = versioned sampleState 1, ca_node_attempt_id = ''at1'',
       ca_invocation_id = ''inv1'' \<rparr> t = (Inr v, t)"
proof -
  let ?i = "\<lparr> ca_node_state = versioned sampleState 1, ca_node_attempt_id = ''at1'', ca_invocation_id = ''inv1'' \<rparr>"
  have "validIdentifier ''run1''" "validIdentifier ''a''"
    by (simp_all add: validIdentifier_def NUL_def reservedIdentifier_def MAX_CANONICAL_LOCK_IDENTIFIER_LENGTH_def)
  then have "\<exists>k. attemptKey padDigest ''run1'' ''a'' 1 = Inr k"
    using padDigest_length
    by (simp add: attemptKey_Inr canonicalKey_Inr CANONICAL_KEY_LENGTH_def isSafeInteger_def)
  then obtain v t where run: "im_createAttempt padDigest ?i sampleStore = (Inr v, t)"
    by (auto simp: im_createAttempt_def im_run_defs sampleState_def sampleStore_def emptyMem_def Let_def)
  from create_attempt_idempotent [OF this] run show ?thesis by blast
qed

text \<open>
  History is final: whatever steps the store takes from a reachable state, an attempt that is
  no longer RUNNING and an invocation that has been finalized stay the very same record, revision
  included, and every resolution ever appended belongs to an attempt that is UNKNOWN or FAILED.
\<close>

theorem finished_records_are_final:
  assumes "(store_step digest)\<^sup>*\<^sup>* emptyMem s" "(store_step digest)\<^sup>*\<^sup>* s t"
  shows "(\<forall>k v. mapGet (m_attempts s) k = Some v \<and> na_status (content v) \<noteq> RUNNING \<longrightarrow>
       mapGet (m_attempts t) k = Some v) \<and>
    (\<forall>k v. mapGet (m_invocations s) k = Some v \<and> \<not> invocation_open (content v) \<longrightarrow>
       mapGet (m_invocations t) k = Some v) \<and>
    (\<forall>r \<in> set (m_resolutions s). r \<in> set (m_resolutions t)) \<and>
    (\<forall>r \<in> set (m_resolutions t). \<exists>k v. mapGet (m_attempts t) k = Some v \<and>
       na_node_attempt_id (content v) = ar_attempt_id (content r) \<and> na_status (content v) \<in> {UNKNOWN, FAILED})"
proof -
  have ev: "mem_wf digest t" "mem_evolves s t"
    using reached_evolves [OF assms(2) reached_wf [OF assms(1)]] by auto
  have a: "mapEvolves attempt_may_become (m_attempts s) (m_attempts t)"
    and i: "mapEvolves invocation_may_become (m_invocations s) (m_invocations t)"
    and r: "\<exists>rs. m_resolutions t = m_resolutions s @ rs"
    using ev(2) by (simp_all add: mem_evolves_def)
  have "\<forall>r \<in> set (m_resolutions t). \<exists>k v. mapGet (m_attempts t) k = Some v \<and>
       na_node_attempt_id (content v) = ar_attempt_id (content r) \<and> na_status (content v) \<in> {UNKNOWN, FAILED}"
    using ev(1) unfolding mem_wf_def resolutions_wf_def attempts_wf_def by fastforce
  then show ?thesis
    using mapEvolvesD [OF a] mapEvolvesD [OF i] r
    by (fastforce simp: attempt_may_become_def invocation_may_become_def)
qed

definition sampleInvocation :: run_invocation where
  "sampleInvocation = \<lparr> ri_invocation_id = ''inv1'', ri_run_id = ''run1'', ri_mode = NEW,
     ri_requested_by = ''u'', ri_host = ''h'', ri_started_at = ''t0'', ri_finished_at = None,
     ri_status = SUCCESS, ri_result_code = ''OK'', ri_selected_node_ids = [],
     ri_preserved_node_ids = [], ri_blocked_node_ids = [], ri_reason = [] \<rparr>"

theorem finished_records_are_final_witness:
  "mapGet (m_invocations (emptyMem\<lparr> m_invocations := [(''inv1'', versioned sampleInvocation 1)],
     m_operationAudits := [] \<rparr>)) ''inv1'' = Some (versioned sampleInvocation 1)"
proof -
  let ?s = "emptyMem\<lparr> m_invocations := [(''inv1'', versioned sampleInvocation 1)] \<rparr>"
  have "store_step padDigest emptyMem ?s"
    using invocation_created [of emptyMem sampleInvocation padDigest]
    by (simp add: emptyMem_def sampleInvocation_def)
  then have s: "(store_step padDigest)\<^sup>*\<^sup>* emptyMem ?s" by blast
  have "mapGet (m_invocations ?s) ''inv1'' = Some (versioned sampleInvocation 1)
     \<and> \<not> invocation_open (content (versioned sampleInvocation 1))"
    by (simp add: sampleInvocation_def invocation_open_def)
  with finished_records_are_final [OF s rtranclp.rtrancl_refl] show ?thesis by simp
qed

text \<open>
  The inconsistency report is exact: it is empty if and only if every node state of the run has
  at most one RUNNING attempt and its active attempt, where it names one, exists among the attempts
  of its node and has the status of the node.
\<close>

theorem inconsistencies_exact:
  assumes "mem_wf digest s"
  shows "im_listInconsistencies collate run s = (Inr [], s) \<longleftrightarrow>
    (\<forall>k v. mapGet (m_states s) k = Some v \<and> ns_run_id (content v) = run \<longrightarrow>
       length (filter (\<lambda>a. na_run_id (content a) = run \<and> na_node_id (content a) = ns_node_id (content v) \<and>
         na_status (content a) = RUNNING) (map snd (m_attempts s))) \<le> 1 \<and>
       (\<forall>i. ns_active_attempt_id (content v) = Some i \<and> i \<noteq> [] \<longrightarrow>
         (\<exists>k' a. mapGet (m_attempts s) k' = Some a \<and> na_node_attempt_id (content a) = i \<and>
            na_run_id (content a) = run \<and> na_node_id (content a) = ns_node_id (content v) \<and>
            na_status (content a) = ns_status (content v))))"
  (is "_ \<longleftrightarrow> (\<forall>k v. ?P k v \<longrightarrow> ?one v \<and> ?active v)")
proof -
  have dist: "distinct (map fst (m_states s))" "distinct (map fst (m_attempts s))"
    and awf: "attempts_wf digest (m_attempts s) (m_attemptIds s)"
    using assms by (simp_all add: mem_wf_def keys_distinct_def)
  let ?A = "\<lambda>v. filter (\<lambda>a. na_run_id (content a) = run \<and> na_node_id (content a) = ns_node_id (content v))
    (map snd (m_attempts s))"
  have mem: "a \<in> set (?A v) \<longleftrightarrow> (\<exists>k. mapGet (m_attempts s) k = Some a) \<and> na_run_id (content a) = run \<and>
      na_node_id (content a) = ns_node_id (content v)" for a v
    using dist(2) by (force simp: image_iff)
  have uniq: "a = b" if "a \<in> set (?A v)" "b \<in> set (?A v)" "na_node_attempt_id (content a) = na_node_attempt_id (content b)"
    for a b v
    using that awf unfolding mem attempts_wf_def by (metis option.inject)
  have eq: "filter (\<lambda>a. na_status (content a) = RUNNING) (?A v) =
      filter (\<lambda>a. na_run_id (content a) = run \<and> na_node_id (content a) = ns_node_id (content v) \<and>
        na_status (content a) = RUNNING) (map snd (m_attempts s))" for v
    by (simp add: conj_assoc)
  have "stateInconsistencies run (map snd (m_attempts s)) v = [] \<longleftrightarrow> ?one v \<and> ?active v" for v
  proof -
    have "?active v \<longleftrightarrow> (\<forall>i. ns_active_attempt_id (content v) = Some i \<and> i \<noteq> [] \<longrightarrow>
        (\<exists>a \<in> set (?A v). na_node_attempt_id (content a) = i \<and> na_status (content a) = ns_status (content v)))"
      unfolding Bex_def mem by blast
    moreover have "stateInconsistencies run (map snd (m_attempts s)) v = [] \<longleftrightarrow>
        length (filter (\<lambda>a. na_status (content a) = RUNNING) (?A v)) \<le> 1 \<and>
        (\<forall>i. ns_active_attempt_id (content v) = Some i \<and> i \<noteq> [] \<longrightarrow>
          (\<exists>a \<in> set (?A v). na_node_attempt_id (content a) = i \<and> na_status (content a) = ns_status (content v)))"
      by (rule stateInconsistencies_Nil [OF refl]) (erule (2) uniq)
    ultimately show ?thesis unfolding eq by blast
  qed
  moreover have "im_listInconsistencies collate run s = (Inr [], s) \<longleftrightarrow>
      (\<forall>v \<in> snd ` set (m_states s). ns_run_id (content v) = run \<longrightarrow>
         stateInconsistencies run (map snd (m_attempts s)) v = [])"
    by (auto simp: im_listInconsistencies_def im_getNodeStates_def bindP_def)
  moreover have "v \<in> snd ` set (m_states s) \<longleftrightarrow> (\<exists>k. mapGet (m_states s) k = Some v)" for v
    using dist(1) by (force simp: image_iff)
  ultimately show ?thesis by (simp only:) blast
qed

theorem inconsistencies_exact_witness:
  "im_listInconsistencies (\<lambda>_ _. True) ''run1'' sampleStore = (Inr [], sampleStore)"
  using inconsistencies_exact [OF reached_wf [OF sampleStore_reached], of "\<lambda>_ _. True" "''run1''"]
  by (simp add: sampleStore_def emptyMem_def)

end
