(* ===== verification/Cancel.thy ===== *)
theory Cancel
  imports StoreProps
begin

text \<open>
  Stopping a run: \<open>src/orchestration/cancel-request.ts\<close> (request and release of a hold) and
  \<open>src/orchestration/run-activity.ts\<close> (what an operator sees of a run). \<open>now\<close> is
  \<open>() => new Date().toISOString()\<close>, and \<open>parseDate\<close> is \<open>Date.parse\<close> with \<open>None\<close> for NaN.
\<close>

section \<open>Cancel requests\<close>

definition someP :: "('s, 'a) prog \<Rightarrow> ('s, 'a option) prog" where
  "someP m = bindP m (\<lambda>x. retP (Some x))"

definition isCancelHold :: "cancel_request versioned option \<Rightarrow> bool" where
  "isCancelHold request = (case request of
     None \<Rightarrow> False
   | Some r \<Rightarrow> cr_state (content r) = CR_REQUESTED \<or> cr_state (content r) = CR_ACCEPTED)"

definition isTerminalRunStatus :: "status \<Rightarrow> bool" where
  "isTerminalRunStatus st \<longleftrightarrow> st \<in> {SUCCESS, FAILED, CANCELLED, UNKNOWN}"

definition newCancelRequest :: "string \<Rightarrow> string \<Rightarrow> string \<Rightarrow> string \<Rightarrow> cancel_request" where
  "newCancelRequest runId requestedBy reason at' = \<lparr>
     cr_run_id = runId, cr_state = CR_REQUESTED, cr_requested_by = requestedBy, cr_reason = reason,
     cr_requested_at = at', cr_accepted_at = None, cr_released_at = None, cr_release_reason = None,
     cr_release_requested_by = None \<rparr>"

definition releasedCancelRequest :: "cancel_request \<Rightarrow> string \<Rightarrow> string \<Rightarrow> string \<Rightarrow> cancel_request" where
  "releasedCancelRequest r requestedBy reason at' = r\<lparr>
     cr_state := CR_RELEASED, cr_released_at := Some at', cr_release_reason := Some reason,
     cr_release_requested_by := Some requestedBy \<rparr>"

definition isDuplicateRecord :: "js_error \<Rightarrow> bool" where
  "isDuplicateRecord error = (case error of RepositoryError DUPLICATE_RECORD _ \<Rightarrow> True | _ \<Rightarrow> False)"

definition changeCancelRequest ::
  "'s repository \<Rightarrow> ('s, string) prog \<Rightarrow> string \<Rightarrow> string \<Rightarrow> string \<Rightarrow> bool \<Rightarrow>
   ('s, cancel_request versioned option) prog" where
  "changeCancelRequest R now runId requestedBy reason release =
     bindP (getRun R runId) (\<lambda>run.
     bindP (getCancelRequest R runId) (\<lambda>current.
     if release then
       (case current of
          None \<Rightarrow> retP None
        | Some c \<Rightarrow>
            if cr_state (content c) = CR_RELEASED then retP current
            else bindP now (\<lambda>at'.
              someP (updateCancelRequest R runId (revision c)
                (releasedCancelRequest (content c) requestedBy reason at'))))
     else if isCancelHold current then retP current
     else if isTerminalRunStatus (nr_status (content run))
     then throwP (CancelRequestError ''RUN_ALREADY_TERMINAL'')
     else bindP now (\<lambda>at'.
       let request = newCancelRequest runId requestedBy reason at' in
       case current of
         None \<Rightarrow>
           catchP (someP (createCancelRequest R request)) (\<lambda>error.
             if \<not> isDuplicateRecord error then throwP error
             else bindP (getCancelRequest R runId) (\<lambda>raced.
               case raced of None \<Rightarrow> throwP error | Some _ \<Rightarrow> retP raced))
       | Some c \<Rightarrow> someP (updateCancelRequest R runId (revision c) request))))"

section \<open>Activity of a run\<close>

datatype run_activity = LIVE | IDLE | INTERRUPTED | STOPPED

record network_lock_status =
  ls_record_id :: string
  ls_owner_invocation_id :: string
  ls_owner_instance_id :: string
  ls_heartbeat_at :: string
  ls_lease_expires_at :: string
  ls_revision :: int

definition KINTONE_DATETIME_TRUNCATION_MS :: int where "KINTONE_DATETIME_TRUNCATION_MS = 60000"

text \<open>A comparison with NaN is false.\<close>

definition leaseAlive :: "(string \<Rightarrow> int option) \<Rightarrow> network_lock_status \<Rightarrow> int \<Rightarrow> bool" where
  "leaseAlive parseDate lock nowMs = (case parseDate (ls_lease_expires_at lock) of
     None \<Rightarrow> False
   | Some t \<Rightarrow> nowMs \<le> t + KINTONE_DATETIME_TRUNCATION_MS)"

definition deriveRunActivity ::
  "(string \<Rightarrow> int option) \<Rightarrow> status \<Rightarrow> string option \<Rightarrow> string list \<Rightarrow> network_lock_status option \<Rightarrow>
   cancel_request_state option \<Rightarrow> int \<Rightarrow> run_activity option" where
  "deriveRunActivity parseDate status startedAt invocationIds lock cancelState nowMs =
     (if isTerminalRunStatus status then None
      else if cancelState = Some CR_REQUESTED \<or> cancelState = Some CR_ACCEPTED then Some STOPPED
      else if (case lock of None \<Rightarrow> False
               | Some l \<Rightarrow> ls_owner_invocation_id l \<in> set invocationIds \<and> leaseAlive parseDate l nowMs)
      then Some LIVE
      else if startedAt = None then Some IDLE else Some INTERRUPTED)"

section \<open>Lemmas\<close>

context repository_client
begin

lemma someP_keeps [guarantees_intro]: "guarantees T m \<Longrightarrow> guarantees T (someP m)"
  unfolding someP_def by (intro guarantees_intro)

lemma changeCancelRequest_keeps [guarantees_intro]:
  "guarantees T (changeCancelRequest R now runId requestedBy reason release)"
  unfolding changeCancelRequest_def by (intro guarantees_intro)

end

lemmas cancel_run_defs = changeCancelRequest_def someP_def isCancelHold_def im_getRun_def
  im_getCancelRequest_def im_createCancelRequest_def im_updateCancelRequest_def
  newCancelRequest_def releasedCancelRequest_def

section \<open>Properties\<close>

text \<open>
  C2: The cancel command decides by the run and its present request alone, and it changes nothing but that request. Over the
  in-memory store and a clock that does not touch it: releasing a hold that is absent or released changes nothing; releasing a
  present hold succeeds and writes it back as RELEASED by the caller with the next revision; asking while a hold is in place
  returns that hold and changes nothing; asking on a terminal run is refused with RUN_ALREADY_TERMINAL and changes nothing; and
  in every other case a REQUESTED hold of the caller is written, as a new record at revision 1 or over the released one at its
  next revision.
\<close>

theorem cancel_command_decides:
  assumes run: "mapGet (m_runs s) runId = Some run" and "mem_wf digest s"
    and clock: "now s = (Inr at', s)"
    and cmd: "cmd = changeCancelRequest (mem_repository digest collate) now runId requestedBy reason"
  shows "(mapGet (m_cancelRequests s) runId = None \<longrightarrow> cmd True s = (Inr None, s)) \<and>
    (\<forall>c. mapGet (m_cancelRequests s) runId = Some c \<longrightarrow>
       (if isCancelHold (Some c)
        then cmd False s = (Inr (Some c), s) \<and>
          (\<exists>v. cmd True s = (Inr (Some v), s\<lparr> m_cancelRequests := mapSet runId v (m_cancelRequests s) \<rparr>) \<and>
             content v = releasedCancelRequest (content c) requestedBy reason at' \<and> revision v = revision c + 1)
        else cmd True s = (Inr (Some c), s))) \<and>
    (\<not> isCancelHold (mapGet (m_cancelRequests s) runId) \<longrightarrow>
       (if isTerminalRunStatus (nr_status (content run))
        then cmd False s = (Inl (CancelRequestError ''RUN_ALREADY_TERMINAL''), s)
        else (\<exists>v. cmd False s = (Inr (Some v), s\<lparr> m_cancelRequests := mapSet runId v (m_cancelRequests s) \<rparr>) \<and>
           content v = newCancelRequest runId requestedBy reason at' \<and>
           revision v = (case mapGet (m_cancelRequests s) runId of None \<Rightarrow> 1 | Some c \<Rightarrow> revision c + 1))))"
proof -
  have id: "cr_run_id (content c) = runId" if "mapGet (m_cancelRequests s) runId = Some c" for c
    using assms(2) that by (simp add: mem_wf_def cancels_wf_def)
  have rel: "cmd True s = (case mapGet (m_cancelRequests s) runId of
      None \<Rightarrow> (Inr None, s)
    | Some c \<Rightarrow> if cr_state (content c) = CR_RELEASED then (Inr (Some c), s)
       else let v = nextStored c (releasedCancelRequest (content c) requestedBy reason at')
         in (Inr (Some v), s\<lparr> m_cancelRequests := mapSet runId v (m_cancelRequests s) \<rparr>))"
    using run clock id unfolding cmd
    by (auto simp: cancel_run_defs im_run_defs Let_def split: option.split cancel_request_state.split)
      (metis cancel_request_state.exhaust isAllowedCancelTransition.simps(2,3))+
  have ask: "cmd False s = (if isCancelHold (mapGet (m_cancelRequests s) runId)
      then (Inr (mapGet (m_cancelRequests s) runId), s)
      else if isTerminalRunStatus (nr_status (content run))
      then (Inl (CancelRequestError ''RUN_ALREADY_TERMINAL''), s)
      else let v = (case mapGet (m_cancelRequests s) runId of
             None \<Rightarrow> versioned (newCancelRequest runId requestedBy reason at') 1
           | Some c \<Rightarrow> nextStored c (newCancelRequest runId requestedBy reason at'))
         in (Inr (Some v), s\<lparr> m_cancelRequests := mapSet runId v (m_cancelRequests s) \<rparr>))"
    using run clock unfolding cmd
    by (auto simp: cancel_run_defs im_run_defs catchP_def Let_def split: option.split)
      (metis cancel_request_state.exhaust isAllowedCancelTransition.simps(4))+
  have held: "cr_state c \<noteq> CR_RELEASED \<longleftrightarrow> cr_state c = CR_REQUESTED \<or> cr_state c = CR_ACCEPTED" for c
    by (cases "cr_state c") simp_all
  show ?thesis
    unfolding rel ask
    by (auto simp: Let_def isCancelHold_def update_conv' held split: option.splits)
qed

theorem cancel_command_decides_witness:
  "\<exists>v. changeCancelRequest (mem_repository padDigest (\<lambda>_ _. True)) (retP ''t1'') ''run1'' ''ops'' ''stop'' False sampleStore =
       (Inr (Some v), sampleStore\<lparr> m_cancelRequests := mapSet ''run1'' v (m_cancelRequests sampleStore) \<rparr>) \<and>
     revision v = 1 \<and> cr_requested_by (content v) = ''ops''"
proof -
  have run: "mapGet (m_runs sampleStore) ''run1'' = Some (versioned sampleRun 1)"
    by (simp add: sampleStore_def)
  have none: "mapGet (m_cancelRequests sampleStore) ''run1'' = None" by (simp add: sampleStore_def emptyMem_def)
  moreover have "\<not> isTerminalRunStatus (nr_status (content (versioned sampleRun 1)))"
    by (simp add: isTerminalRunStatus_def sampleRun_def)
  moreover have now: "retP ''t1'' sampleStore = (Inr ''t1'', sampleStore)" by simp
  ultimately show ?thesis
    using cancel_command_decides [where now = "retP ''t1''", OF run reached_wf [OF sampleStore_reached] now refl,
      of "\<lambda>_ _. True" "''ops''" "''stop''"] by (auto simp: isCancelHold_def newCancelRequest_def)
qed

text \<open>
  An operator never sees a dead run as live: a run is LIVE exactly when it is not terminal, not
  on hold, and the network lock is owned by one of its own invocations with a lease that, allowing
  for the minute kintone truncates, has not expired; and no activity is reported for a terminal run.
\<close>

theorem activity_live_iff:
  "deriveRunActivity parseDate status startedAt invocationIds lock cancelState nowMs = Some LIVE \<longleftrightarrow>
     \<not> isTerminalRunStatus status \<and> cancelState \<noteq> Some CR_REQUESTED \<and> cancelState \<noteq> Some CR_ACCEPTED \<and>
     (\<exists>l t. lock = Some l \<and> ls_owner_invocation_id l \<in> set invocationIds \<and>
        parseDate (ls_lease_expires_at l) = Some t \<and> nowMs \<le> t + 60000)"
  by (auto simp: deriveRunActivity_def leaseAlive_def KINTONE_DATETIME_TRUNCATION_MS_def split: option.splits)

end
