(* ===== verification/ResolveNode.thy ===== *)
theory ResolveNode
  imports Cancel
begin

text \<open>
  Manual resolution of a node: \<open>src/orchestration/resolve-node.ts\<close>. The resolution is appended
  first and the node state written second, so that a crash between the two leaves a durable
  resolution which reconciliation applies.
\<close>

record resolve_node_input =
  in_runId :: string
  in_nodeId :: string
  in_outcome :: status
  in_resolutionType :: resolution_type
  in_reason :: string
  in_evidenceRef :: string
  in_servicePrincipal :: string
  in_requestedBy :: string
  in_approvedBy :: string
  in_stopConfirmedBy :: string
  in_stopEvidenceRef :: string

definition validateRequiredAuditInput :: "resolve_node_input \<Rightarrow> js_error + unit" where
  "validateRequiredAuditInput input =
     (if list_ex (\<lambda>v. trim v = [])
           [in_runId input, in_nodeId input, in_reason input, in_evidenceRef input,
            in_servicePrincipal input, in_requestedBy input, in_stopConfirmedBy input,
            in_stopEvidenceRef input]
      then Inl (ResolveNodeError ''AUDIT_INPUT_REQUIRED'') else Inr ())"

definition resolutionTypeProblem :: "resolution_type \<Rightarrow> status \<Rightarrow> string option" where
  "resolutionTypeProblem rtype outcome =
     (if rtype = NODE_COMPENSATION_COMPLETED \<and> outcome = SUCCESS then Some ''COMPENSATION_CANNOT_SUCCEED''
      else if outcome = SUCCESS \<and> rtype \<noteq> NODE_MANUAL_COMPLETION_CONFIRMED
      then Some ''MANUAL_COMPLETION_REQUIRED''
      else if rtype = NODE_MANUAL_COMPLETION_CONFIRMED \<and> outcome \<noteq> SUCCESS
      then Some ''MANUAL_COMPLETION_REQUIRES_SUCCESS''
      else None)"

definition nodeResolvable :: "node_state \<Rightarrow> bool" where
  "nodeResolvable state \<longleftrightarrow>
     ns_status state = UNKNOWN \<or> ns_status state = FAILED \<and> \<not> ns_idempotent state"

definition approverProblem :: "resolve_node_input \<Rightarrow> node_state \<Rightarrow> bool" where
  "approverProblem input state \<longleftrightarrow>
     (let approvedBy = trim (in_approvedBy input); requestedBy = trim (in_requestedBy input);
          servicePrincipal = trim (in_servicePrincipal input)
      in \<not> ns_idempotent state \<and> in_outcome input = SUCCESS \<and>
         (approvedBy = [] \<or> approvedBy = requestedBy \<or> approvedBy = servicePrincipal))"

text \<open>The strings \<open>status_reason\<close> takes from a resolution type.\<close>

fun resolutionTypeText :: "resolution_type \<Rightarrow> string" where
  "resolutionTypeText OUTCOME_CONFIRMED = ''OUTCOME_CONFIRMED''"
| "resolutionTypeText NODE_MANUAL_COMPLETION_CONFIRMED = ''NODE_MANUAL_COMPLETION_CONFIRMED''"
| "resolutionTypeText NODE_COMPENSATION_COMPLETED = ''NODE_COMPENSATION_COMPLETED''"

definition resolutionOf :: "resolve_node_input \<Rightarrow> string \<Rightarrow> string \<Rightarrow> attempt_resolution" where
  "resolutionOf input attemptId resolvedAt = \<lparr>
     ar_resolution_type = in_resolutionType input, ar_attempt_id = attemptId,
     ar_resolved_outcome = in_outcome input, ar_reason = trim (in_reason input),
     ar_evidence_ref = trim (in_evidenceRef input),
     ar_service_principal = trim (in_servicePrincipal input),
     ar_requested_by = trim (in_requestedBy input), ar_approved_by = trim (in_approvedBy input),
     ar_stop_confirmed_by = trim (in_stopConfirmedBy input),
     ar_stop_evidence_ref = trim (in_stopEvidenceRef input), ar_resolved_at = resolvedAt \<rparr>"

definition resolvedStateWrite ::
  "resolve_node_input \<Rightarrow> node_state versioned \<Rightarrow> string \<Rightarrow> string \<Rightarrow> node_state_write" where
  "resolvedStateWrite input state attemptId resolvedAt = \<lparr>
     nw_value = (content state)\<lparr>
       ns_status := in_outcome input, ns_active_attempt_id := None,
       ns_status_reason := Some (resolutionTypeText (in_resolutionType input)),
       ns_finished_at := Some (orElse (ns_finished_at (content state)) resolvedAt),
       ns_updated_at := resolvedAt \<rparr>,
     nw_expected_revision = Some (revision state),
     nw_resolution_event = Some \<lparr> re_attempt_id = attemptId, re_resolved_outcome = in_outcome input,
                                   re_resolved_at = resolvedAt \<rparr> \<rparr>"

definition resolveNode ::
  "'s repository \<Rightarrow> ('s, string) prog \<Rightarrow> resolve_node_input \<Rightarrow>
   ('s, attempt_resolution versioned \<times> node_state versioned) prog" where
  "resolveNode R now input =
     bindP (liftP (validateRequiredAuditInput input)) (\<lambda>_.
     case resolutionTypeProblem (in_resolutionType input) (in_outcome input) of
       Some code \<Rightarrow> throwP (ResolveNodeError code)
     | None \<Rightarrow>
     bindP (getRun R (in_runId input)) (\<lambda>_.
     bindP (getNodeStates R (in_runId input)) (\<lambda>allStates.
     case filter (\<lambda>v. ns_node_id (content v) = in_nodeId input) allStates of
       [state] \<Rightarrow>
         if \<not> nodeResolvable (content state) then throwP (ResolveNodeError ''NODE_NOT_RESOLVABLE'')
         else if approverProblem input (content state)
         then throwP (ResolveNodeError ''DISTINCT_APPROVER_REQUIRED'')
         else bindP (getAttempts R (in_runId input)) (\<lambda>allAttempts.
           case filter (\<lambda>v. na_node_id (content v) = in_nodeId input \<and>
                            na_attempt_no (content v) = ns_latest_attempt_no (content state)) allAttempts of
             [attempt] \<Rightarrow>
               if na_status (content attempt) \<noteq> ns_status (content state)
               then throwP (ResolveNodeError ''STATE_ATTEMPT_MISMATCH'')
               else bindP now (\<lambda>resolvedAt.
                 let attemptId = na_node_attempt_id (content attempt) in
                 bindP (appendResolution R (resolutionOf input attemptId resolvedAt)) (\<lambda>resolution.
                 bindP (upsertNodeState R (resolvedStateWrite input state attemptId resolvedAt)) (\<lambda>nodeState.
                 retP (resolution, nodeState))))
           | _ \<Rightarrow> throwP (ResolveNodeError ''CURRENT_ATTEMPT_NOT_UNIQUE''))
     | _ \<Rightarrow> throwP (ResolveNodeError ''NODE_STATE_NOT_UNIQUE''))))"

section \<open>Lemmas\<close>

context repository_client
begin

lemma resolveNode_keeps [guarantees_intro]: "guarantees T (resolveNode R now input)"
  unfolding resolveNode_def Let_def by (intro guarantees_intro)

end

lemma listed_state:
  assumes "mem_wf digest s" "v \<in> set (map snd (m_states s))"
  shows "mapGet (m_states s) (ns_node_state_key (content v)) = Some v"
    and "ns_revision (content v) = revision v"
proof -
  obtain k where k: "mapGet (m_states s) k = Some v"
    using assms by (auto simp: mem_wf_def keys_distinct_def)
  with assms(1) have "ns_node_state_key (content v) = k" "ns_revision (content v) = revision v"
    by (auto simp: mem_wf_def states_wf_def)
  with k show "mapGet (m_states s) (ns_node_state_key (content v)) = Some v"
    "ns_revision (content v) = revision v" by simp_all
qed

lemma attemptKey_nonempty: "attemptKey digest r n k = Inr key \<Longrightarrow> key \<noteq> []"
  by (auto simp: attemptKey_Inr canonicalKey_Inr CANONICAL_KEY_LENGTH_def)

lemma listed_attempt:
  assumes "mem_wf digest s" "v \<in> set (map snd (m_attempts s))"
  shows "attemptById (na_node_attempt_id (content v)) s = (Inr v, s)"
proof -
  obtain k where k: "mapGet (m_attempts s) k = Some v"
    using assms by (auto simp: mem_wf_def keys_distinct_def)
  with assms(1) have "mapGet (m_attemptIds s) (na_node_attempt_id (content v)) = Some k"
    "attemptKey digest (na_run_id (content v)) (na_node_id (content v)) (na_attempt_no (content v)) = Inr k"
    by (auto simp: mem_wf_def attempts_wf_def)
  with k attemptKey_nonempty show ?thesis
    by (fastforce simp: attemptById_def required_def bindP_def)
qed

text \<open>The two writes of a resolution succeed together once the guards have passed.\<close>

lemma resolution_writes:
  fixes at' :: string
  assumes "mem_wf digest s" "state \<in> set (map snd (m_states s))" "attempt \<in> set (map snd (m_attempts s))"
    and "nodeResolvable (content state)" "na_status (content attempt) = ns_status (content state)"
    and "in_outcome input \<in> {SUCCESS, FAILED, CANCELLED}"
  defines "i \<equiv> na_node_attempt_id (content attempt)"
  defines "res \<equiv> versioned (resolutionOf input i at') 1"
  defines "s1 \<equiv> s\<lparr> m_resolutions := m_resolutions s @ [res] \<rparr>"
  shows "im_appendResolution (resolutionOf input i at') s = (Inr res, s1)"
    and "\<exists>v. im_upsertNodeState (resolvedStateWrite input state i at') s1 =
      (Inr v, s1\<lparr> m_states := mapSet (ns_node_state_key (content state)) v (m_states s) \<rparr>) \<and>
      content v = (nw_value (resolvedStateWrite input state i at'))\<lparr> ns_revision := revision state + 1 \<rparr> \<and>
      revision v = revision state + 1"
proof -
  have st: "ns_status (content state) = UNKNOWN \<or> ns_status (content state) = FAILED"
    using assms(4) by (auto simp: nodeResolvable_def)
  have "attemptById i s = (Inr attempt, s)"
    using assms(1,3) unfolding i_def by (rule listed_attempt)
  then show "im_appendResolution (resolutionOf input i at') s = (Inr res, s1)"
    using st assms(5) by (auto simp: im_appendResolution_def bindP_def res_def s1_def Let_def resolutionOf_def)
  have g: "mapGet (m_states s) (ns_node_state_key (content state)) = Some state"
    using assms(1,2) by (rule listed_state)
  have "upsertRejection (m_resolutions s1) state (resolvedStateWrite input state i at') = None"
    using st assms(6)
    by (auto simp: upsertRejection_def resolvedStateWrite_def durableResolution_def s1_def res_def
        resolutionOf_def isAllowedNodeStateTransition_def isAllowedResolutionTransition_def)
  with g show "\<exists>v. im_upsertNodeState (resolvedStateWrite input state i at') s1 =
      (Inr v, s1\<lparr> m_states := mapSet (ns_node_state_key (content state)) v (m_states s) \<rparr>) \<and>
      content v = (nw_value (resolvedStateWrite input state i at'))\<lparr> ns_revision := revision state + 1 \<rparr> \<and>
      revision v = revision state + 1"
    by (auto simp: im_upsertNodeState_def im_run_defs Let_def resolvedStateWrite_def s1_def)
qed

section \<open>Properties\<close>

text \<open>
  C25: Resolving a node is all or nothing and needs the four eyes. Over a store that satisfies its
  invariant, a \<open>resolveNode\<close> that throws has changed nothing; one that returns has appended
  exactly one resolution with the requested outcome and put the node, which was UNKNOWN or a
  non-idempotent FAILED one, into that outcome under the next revision with no active attempt,
  and touched nothing else; and a non-idempotent node only becomes SUCCESS with an approver who
  is neither the requester nor the service principal.
\<close>

theorem resolve_node_all_or_nothing:
  assumes "mem_wf digest s" "in_outcome input \<in> {SUCCESS, FAILED, CANCELLED}"
    and "resolveNode (mem_repository digest collate) (retP at') input s = (r, t)"
  shows "case r of
      Inl e \<Rightarrow> t = s
    | Inr (res, v) \<Rightarrow> (\<exists>old. mapGet (m_states s) (ns_node_state_key (content v)) = Some old \<and>
        (ns_status (content old) = UNKNOWN \<or> ns_status (content old) = FAILED \<and> \<not> ns_idempotent (content old)) \<and>
        ns_node_id (content v) = in_nodeId input \<and> ns_run_id (content v) = in_runId input \<and>
        ns_status (content v) = in_outcome input \<and> ns_active_attempt_id (content v) = None \<and>
        revision v = revision old + 1 \<and>
        ar_resolved_outcome (content res) = in_outcome input \<and>
        (\<not> ns_idempotent (content old) \<and> in_outcome input = SUCCESS \<longrightarrow>
           trim (in_approvedBy input) \<noteq> [] \<and> trim (in_approvedBy input) \<noteq> trim (in_requestedBy input) \<and>
           trim (in_approvedBy input) \<noteq> trim (in_servicePrincipal input)) \<and>
        t = s\<lparr> m_resolutions := m_resolutions s @ [res],
               m_states := mapSet (ns_node_state_key (content v)) v (m_states s) \<rparr>)"
proof -
  let ?S = "filter (\<lambda>v. ns_node_id (content v) = in_nodeId input)
      (sortBy (\<lambda>a b. collate (ns_node_id (content a)) (ns_node_id (content b)))
        (filter (\<lambda>v. ns_run_id (content v) = in_runId input) (map snd (m_states s))))"
  let ?A = "\<lambda>st. filter (\<lambda>v. na_node_id (content v) = in_nodeId input \<and>
        na_attempt_no (content v) = ns_latest_attempt_no (content st))
      (sort_key (\<lambda>v. na_attempt_no (content v))
        (filter (\<lambda>v. na_run_id (content v) = in_runId input) (map snd (m_attempts s))))"
  show ?thesis
  proof (cases "\<exists>st att. ?S = [st] \<and> ?A st = [att] \<and> nodeResolvable (content st) \<and>
      \<not> approverProblem input (content st) \<and> na_status (content att) = ns_status (content st)")
    case False
    with assms(3) show ?thesis
      by (auto simp: resolveNode_def im_run_defs im_getRun_def im_getNodeStates_def im_getAttempts_def
          split: sum.splits option.splits if_splits list.splits)
  next
    case True
    then obtain st att where st: "?S = [st]" and att: "?A st = [att]"
      and ok: "nodeResolvable (content st)" "\<not> approverProblem input (content st)"
        "na_status (content att) = ns_status (content st)" by blast
    have "set ?S = {st}" by (simp add: st)
    then have st': "st \<in> set (map snd (m_states s))" "ns_node_id (content st) = in_nodeId input"
      "ns_run_id (content st) = in_runId input" by auto
    have "set (?A st) = {att}" by (simp add: att)
    then have att': "att \<in> set (map snd (m_attempts s))" by auto
    note w = resolution_writes [OF assms(1) st'(1) att' ok(1,3) assms(2), of at']
    note g = listed_state(1) [OF assms(1) st'(1)]
    have run: "r = Inl e \<and> t = s \<or> (\<exists>v. r = Inr (versioned (resolutionOf input (na_node_attempt_id (content att)) at') 1, v) \<and>
        content v = (nw_value (resolvedStateWrite input st (na_node_attempt_id (content att)) at'))\<lparr> ns_revision := revision st + 1 \<rparr> \<and>
        revision v = revision st + 1 \<and>
        t = s\<lparr> m_resolutions := m_resolutions s @ [versioned (resolutionOf input (na_node_attempt_id (content att)) at') 1],
               m_states := mapSet (ns_node_state_key (content st)) v (m_states s) \<rparr>)"
      if "\<And>e'. r = Inl e' \<Longrightarrow> e' = e" for e
      using assms(3) st att ok w that
      by (auto simp: resolveNode_def im_run_defs im_getRun_def im_getNodeStates_def im_getAttempts_def Let_def
          split: sum.splits option.splits if_splits)
    show ?thesis
    proof (cases r)
      case (Inl e)
      with run [of e] show ?thesis by simp
    next
      case (Inr x)
      with run [of undefined] obtain v where v: "x = (versioned (resolutionOf input (na_node_attempt_id (content att)) at') 1, v)"
        "content v = (nw_value (resolvedStateWrite input st (na_node_attempt_id (content att)) at'))\<lparr> ns_revision := revision st + 1 \<rparr>"
        "revision v = revision st + 1"
        "t = s\<lparr> m_resolutions := m_resolutions s @ [versioned (resolutionOf input (na_node_attempt_id (content att)) at') 1],
               m_states := mapSet (ns_node_state_key (content st)) v (m_states s) \<rparr>" by auto
      have k: "ns_node_state_key (content v) = ns_node_state_key (content st)"
        by (simp add: v(2) resolvedStateWrite_def)
      show ?thesis
        using Inr v g ok st' k
        by (auto simp: resolvedStateWrite_def resolutionOf_def nodeResolvable_def approverProblem_def Let_def)
    qed
  qed
qed

section \<open>Witness\<close>

definition sampleAttemptKey :: string where
  "sampleAttemptKey = (case attemptKey padDigest ''run1'' ''a'' 1 of Inl _ \<Rightarrow> [] | Inr k \<Rightarrow> k)"

lemma sampleAttemptKey: "attemptKey padDigest ''run1'' ''a'' 1 = Inr sampleAttemptKey"
proof -
  have "validIdentifier ''run1''" "validIdentifier ''a''"
    by (simp_all add: validIdentifier_def NUL_def reservedIdentifier_def MAX_CANONICAL_LOCK_IDENTIFIER_LENGTH_def)
  then have "\<exists>k. attemptKey padDigest ''run1'' ''a'' 1 = Inr k"
    using padDigest_length
    by (simp add: attemptKey_Inr canonicalKey_Inr CANONICAL_KEY_LENGTH_def isSafeInteger_def)
  then show ?thesis by (auto simp: sampleAttemptKey_def)
qed

definition sampleAttempt :: "status \<Rightarrow> node_attempt" where
  "sampleAttempt st = (newAttempt \<lparr> ca_node_state = versioned sampleState 1, ca_node_attempt_id = ''at1'',
     ca_invocation_id = ''inv0'' \<rparr> sampleAttemptKey 1)\<lparr> na_status := st \<rparr>"

text \<open>A run with one node whose state and only attempt have the given statuses.\<close>

definition oneNodeStore :: "status \<Rightarrow> string option \<Rightarrow> status \<Rightarrow> mem" where
  "oneNodeStore stateStatus active attemptStatus = sampleStore\<lparr>
     m_states := [(''k1'', versioned (sampleState\<lparr> ns_status := stateStatus, ns_latest_attempt_no := 1,
       ns_active_attempt_id := active, ns_revision := 2 \<rparr>) 2)],
     m_attempts := [(sampleAttemptKey, versioned (sampleAttempt attemptStatus) 2)],
     m_attemptIds := [(''at1'', sampleAttemptKey)] \<rparr>"

lemma oneNodeStore_wf: "is_node_state_status st \<Longrightarrow> mem_wf padDigest (oneNodeStore st active at')"
  using reached_wf [OF sampleStore_reached] sampleAttemptKey
  by (auto simp: oneNodeStore_def sampleStore_def mem_wf_def keys_distinct_def states_wf_def attempts_wf_def
      sampleState_def sampleAttempt_def newAttempt_def resolutions_wf_def emptyMem_def split: if_splits)

definition sampleResolveInput :: resolve_node_input where
  "sampleResolveInput = \<lparr> in_runId = ''run1'', in_nodeId = ''a'', in_outcome = SUCCESS,
     in_resolutionType = NODE_MANUAL_COMPLETION_CONFIRMED, in_reason = ''checked'', in_evidenceRef = ''E-1'',
     in_servicePrincipal = ''svc'', in_requestedBy = ''alice'', in_approvedBy = ''bob'',
     in_stopConfirmedBy = ''alice'', in_stopEvidenceRef = ''E-2'' \<rparr>"

theorem resolve_node_all_or_nothing_witness:
  "\<exists>res v t. resolveNode (mem_repository padDigest (\<lambda>_ _. True)) (retP ''t9'') sampleResolveInput
      (oneNodeStore UNKNOWN None UNKNOWN) = (Inr (res, v), t) \<and>
    ns_status (content v) = SUCCESS \<and> ar_resolved_outcome (content res) = SUCCESS"
proof -
  let ?s = "oneNodeStore UNKNOWN None UNKNOWN"
  have "attemptById ''at1'' ?s = (Inr (versioned (sampleAttempt UNKNOWN) 2), ?s)"
    using attemptKey_nonempty [OF sampleAttemptKey]
    by (simp add: attemptById_def required_def bindP_def oneNodeStore_def)
  then obtain res v t where run: "resolveNode (mem_repository padDigest (\<lambda>_ _. True)) (retP ''t9'') sampleResolveInput ?s =
      (Inr (res, v), t)"
    by (simp add: resolveNode_def bindP_def validateRequiredAuditInput_def resolutionTypeProblem_def
        sampleResolveInput_def im_getRun_def required_def im_getNodeStates_def im_getAttempts_def Let_def
        sortBy_def nodeResolvable_def approverProblem_def sampleState_def im_appendResolution_def
        im_upsertNodeState_def storeState_def upsertRejection_def durableResolution_def resolvedStateWrite_def
        resolutionOf_def isAllowedNodeStateTransition_def trim_def is_js_space_def oneNodeStore_def
        sampleStore_def emptyMem_def sampleAttempt_def newAttempt_def)
  have "mem_wf padDigest ?s" by (rule oneNodeStore_wf) (simp add: is_node_state_status_def)
  moreover have "in_outcome sampleResolveInput \<in> {SUCCESS, FAILED, CANCELLED}"
    by (simp add: sampleResolveInput_def)
  ultimately show ?thesis
    using resolve_node_all_or_nothing [OF _ _ run] run by (auto simp: sampleResolveInput_def)
qed

end
