(* ===== verification/Kintone.thy ===== *)
theory Kintone
  imports Effects Model
begin

text \<open>
  The REST client \<open>src/persistence/kintone/client.ts\<close>. \<open>fetch\<close> is the parameter of the model: it
  takes a request and answers with a response or throws. A response body is a parsed JSON value,
  or \<open>None\<close> where \<open>response.json()\<close> rejects. A kintone record is the JSON object of its fields,
  each an object with a \<open>value\<close>.
\<close>

section \<open>JavaScript numbers and texts of JSON values\<close>

datatype js_number = Finite rat | Infinite | NaN

fun numberEq :: "js_number \<Rightarrow> js_number \<Rightarrow> bool" where
  "numberEq (Finite a) (Finite b) = (a = b)"
| "numberEq Infinite Infinite = True"
| "numberEq _ _ = False"

fun addOne :: "js_number \<Rightarrow> js_number" where
  "addOne (Finite a) = Finite (a + 1)"
| "addOne x = x"

text \<open>
  \<open>Number(text)\<close> for the numerals a service answers with, an optional minus sign and decimal digits; any
  other non-blank text is \<open>NaN\<close> (fractions, exponents, a plus sign and radix prefixes in a text are not modelled).
\<close>

definition isDigit :: "char \<Rightarrow> bool" where
  "isDigit c \<longleftrightarrow> 48 \<le> (of_char c :: nat) \<and> (of_char c :: nat) \<le> 57"

definition numberOfText :: "string \<Rightarrow> js_number" where
  "numberOfText s = (case trim s of
     [] \<Rightarrow> Finite 0
   | c # cs \<Rightarrow>
       if list_all isDigit (c # cs) then Finite (of_nat (natOfDigits (c # cs)))
       else if c = CHR ''-'' \<and> cs \<noteq> [] \<and> list_all isDigit cs then Finite (- of_nat (natOfDigits cs))
       else NaN)"

text \<open>\<open>Number(value)\<close>, where \<open>None\<close> is \<open>undefined\<close>; that of an array or object is taken to be \<open>NaN\<close>.\<close>

definition numberOf :: "json option \<Rightarrow> js_number" where
  "numberOf v = (case v of
     None \<Rightarrow> NaN
   | Some JNull \<Rightarrow> Finite 0
   | Some (JBool b) \<Rightarrow> Finite (if b then 1 else 0)
   | Some (JNum r) \<Rightarrow> Finite r
   | Some JInfinite \<Rightarrow> Infinite
   | Some (JStr s) \<Rightarrow> numberOfText s
   | Some _ \<Rightarrow> NaN)"

text \<open>A fraction is written \<open>p/q\<close>; no decision compares with the text of one.\<close>

definition textOfRat :: "rat \<Rightarrow> string" where
  "textOfRat r = (case quotient_of r of (p, q) \<Rightarrow>
     if q = 1 then stringOfInt p else stringOfInt p @ ''/'' @ stringOfInt q)"

text \<open>\<open>String(value)\<close> inside an array (\<open>null\<close> is empty there) and outside.\<close>

fun textOfElement :: "json \<Rightarrow> string" where
  "textOfElement JNull = []"
| "textOfElement (JBool b) = (if b then ''true'' else ''false'')"
| "textOfElement (JNum r) = textOfRat r"
| "textOfElement JInfinite = ''Infinity''"
| "textOfElement (JStr s) = s"
| "textOfElement (JArr xs) = joinText '','' (map textOfElement xs)"
| "textOfElement (JObj _) = ''[object Object]''"

definition textOfJson :: "json \<Rightarrow> string" where
  "textOfJson v = (case v of JNull \<Rightarrow> ''null'' | _ \<Rightarrow> textOfElement v)"

section \<open>Records\<close>

type_synonym kintone_record = json

definition jsonGet :: "json \<Rightarrow> string \<Rightarrow> json option" where
  "jsonGet v k = (case v of JObj fs \<Rightarrow> mapGet fs k | _ \<Rightarrow> None)"

text \<open>\<open>record[code]?.value\<close>\<close>

definition fieldValue :: "kintone_record \<Rightarrow> string \<Rightarrow> json option" where
  "fieldValue rec code = (case jsonGet rec code of None \<Rightarrow> None | Some f \<Rightarrow> jsonGet f ''value'')"

text \<open>\<open>String(record[code]?.value ?? "")\<close>\<close>

definition fieldText :: "kintone_record \<Rightarrow> string \<Rightarrow> string" where
  "fieldText rec code = (case fieldValue rec code of None \<Rightarrow> [] | Some JNull \<Rightarrow> [] | Some v \<Rightarrow> textOfJson v)"

definition fieldNumber :: "kintone_record \<Rightarrow> string \<Rightarrow> js_number" where
  "fieldNumber rec code = numberOf (fieldValue rec code)"

definition revisionOf :: "kintone_record \<Rightarrow> js_number" where
  "revisionOf rec = fieldNumber rec ''$revision''"

definition jsonField :: "json \<Rightarrow> json" where
  "jsonField v = JObj [(''value'', v)]"

definition fieldsRecord :: "(string \<times> json) list \<Rightarrow> kintone_record" where
  "fieldsRecord fs = JObj (map (\<lambda>(k, v). (k, jsonField v)) fs)"

text \<open>\<open>JSON.stringify\<close> writes \<open>NaN\<close> and infinities as \<open>null\<close>.\<close>

fun jsonNumber :: "js_number \<Rightarrow> json" where
  "jsonNumber (Finite r) = JNum r"
| "jsonNumber _ = JNull"

definition escapeChar :: "char \<Rightarrow> string" where
  "escapeChar c = (if c = CHR 0x5C \<or> c = CHR 0x22 then [CHR 0x5C, c] else [c])"

text \<open>A quoted operand of a query.\<close>

definition quote :: "string \<Rightarrow> string" where
  "quote s = CHR 0x22 # concat (map escapeChar s) @ [CHR 0x22]"

section \<open>The client\<close>

datatype http_method = GET | POST | PUT

record http_request =
  hr_method :: http_method
  hr_path :: string
  hr_params :: "(string \<times> string) list"
  hr_body :: "json option"

record http_response =
  hs_status :: int
  hs_ok :: bool
  hs_body :: "json option"

type_synonym 's fetch = "http_request \<Rightarrow> ('s, http_response) prog"

definition typeError :: js_error where "typeError = PlainError ''TypeError''"

definition request :: "'s fetch \<Rightarrow> http_request \<Rightarrow> ('s, json) prog" where
  "request fetch req =
     bindP (attemptP (fetch req)) (\<lambda>r.
     case r of
       Inl _ \<Rightarrow> throwP KintoneTransportError
     | Inr response \<Rightarrow>
         let responseBody = (case hs_body response of None \<Rightarrow> JNull | Some b \<Rightarrow> b) in
         if \<not> hs_ok response then
           throwP (KintoneApiError (hs_status response)
             (case jsonGet responseBody ''code'' of Some (JStr code) \<Rightarrow> Some code | _ \<Rightarrow> None))
         else retP responseBody)"

text \<open>Reading a property of \<open>null\<close> throws.\<close>

definition property :: "json \<Rightarrow> string \<Rightarrow> js_error + json option" where
  "property v k = (if v = JNull then Inl typeError else Inr (jsonGet v k))"

definition getRecords :: "'s fetch \<Rightarrow> int \<Rightarrow> string \<Rightarrow> ('s, json option) prog" where
  "getRecords fetch app query =
     bindP (request fetch \<lparr> hr_method = GET, hr_path = ''/k/v1/records.json'',
       hr_params = [(''app'', stringOfInt app), (''query'', query)], hr_body = None \<rparr>) (\<lambda>body.
     liftP (property body ''records''))"

definition postRecord :: "'s fetch \<Rightarrow> int \<Rightarrow> kintone_record \<Rightarrow> ('s, json option \<times> js_number) prog" where
  "postRecord fetch app rec =
     bindP (request fetch \<lparr> hr_method = POST, hr_path = ''/k/v1/record.json'', hr_params = [],
       hr_body = Some (JObj [(''app'', JNum (of_int app)), (''record'', rec)]) \<rparr>) (\<lambda>result.
     bindP (liftP (property result ''id'')) (\<lambda>i.
     bindP (liftP (property result ''revision'')) (\<lambda>rev'.
     retP (i, numberOf rev'))))"

definition putRecord :: "'s fetch \<Rightarrow> int \<Rightarrow> string \<Rightarrow> js_number \<Rightarrow> kintone_record \<Rightarrow> ('s, js_number) prog" where
  "putRecord fetch app recordKey rev' rec =
     bindP (request fetch \<lparr> hr_method = PUT, hr_path = ''/k/v1/record.json'', hr_params = [],
       hr_body = Some (JObj [(''app'', JNum (of_int app)),
         (''updateKey'', JObj [(''field'', JStr ''record_key''), (''value'', JStr recordKey)]),
         (''revision'', jsonNumber rev'), (''record'', rec)]) \<rparr>) (\<lambda>body.
     bindP (liftP (property body ''revision'')) (\<lambda>r. retP (numberOf r)))"

definition putRecordById :: "'s fetch \<Rightarrow> int \<Rightarrow> string \<Rightarrow> js_number \<Rightarrow> kintone_record \<Rightarrow> ('s, js_number) prog" where
  "putRecordById fetch app i rev' rec =
     bindP (request fetch \<lparr> hr_method = PUT, hr_path = ''/k/v1/record.json'', hr_params = [],
       hr_body = Some (JObj [(''app'', JNum (of_int app)), (''id'', JStr i),
         (''revision'', jsonNumber rev'), (''record'', rec)]) \<rparr>) (\<lambda>body.
     bindP (liftP (property body ''revision'')) (\<lambda>r. retP (numberOf r)))"

text \<open>\<open>records.length\<close> and \<open>records[0]\<close> of the answer to a query.\<close>

definition recordArray :: "json option \<Rightarrow> js_error + kintone_record list" where
  "recordArray r = (case r of Some (JArr xs) \<Rightarrow> Inr xs | _ \<Rightarrow> Inl typeError)"

section \<open>Lemmas\<close>

lemma numberEq_refl: "numberEq x x \<longleftrightarrow> x \<noteq> NaN"
  by (cases x) simp_all

lemma numberEq_iff: "numberEq x y \<longleftrightarrow> x = y \<and> x \<noteq> NaN"
  by (cases x; cases y) auto

lemma fieldsRecord_value [simp]: "fieldValue (fieldsRecord fs) code = mapGet fs code"
proof -
  have "mapGet (map (\<lambda>(k, v). (k, jsonField v)) fs) code = map_option jsonField (mapGet fs code)"
    by (induction fs) auto
  then show ?thesis
    by (cases "mapGet fs code") (simp_all add: fieldValue_def fieldsRecord_def jsonGet_def jsonField_def)
qed

lemma fieldsRecord_text: "mapGet fs code = Some (JStr s) \<Longrightarrow> fieldText (fieldsRecord fs) code = s"
  by (simp add: fieldText_def textOfJson_def)

text \<open>A quoted operand reads back as the text it quotes: no text can end the operand early.\<close>

fun unquoteText :: "string \<Rightarrow> (string \<times> string) option" where
  "unquoteText [] = None"
| "unquoteText (c # cs) =
     (if c = CHR 0x22 then Some ([], cs)
      else if c = CHR 0x5C then
        (case cs of [] \<Rightarrow> None
         | d # ds \<Rightarrow> (case unquoteText ds of None \<Rightarrow> None | Some (s, rest) \<Rightarrow> Some (d # s, rest)))
      else (case unquoteText cs of None \<Rightarrow> None | Some (s, rest) \<Rightarrow> Some (c # s, rest)))"

lemma unquote_quote: "unquoteText (concat (map escapeChar s) @ CHR 0x22 # rest) = Some (s, rest)"
  by (induction s) (auto simp: escapeChar_def)

end
