(* ===== verification/JobLog.thy ===== *)
theory JobLog
  imports Kintone
begin

text \<open>
  The job log of the runner, read over REST: \<open>src/executor/job-log-reader.ts\<close>, and what a missing result
  means. The interface \<open>JobLogReader\<close> is a pair of programs, which the code is given.
\<close>

section \<open>Data\<close>

record job_log_lookup =
  jo_attemptId :: string
  jo_executionId :: "string option"

record job_log_marker =
  jm_runnerExecutionStartedAt :: "string option"
  jm_executionId :: "string option"

record job_log_result =
  jl_runner_execution_started_at :: "string option"
  jl_execution_id :: "string option"
  jl_status :: string
  jl_finished_at :: "string option"

definition NO_EXECUTION_RESULT :: string where "NO_EXECUTION_RESULT = ''NO_EXECUTION_RESULT''"

section \<open>Reading\<close>

text \<open>A field that is not a non-empty string counts as absent.\<close>

definition fieldString :: "json option \<Rightarrow> string option" where
  "fieldString v = (case v of
     Some (JObj fs) \<Rightarrow> (case mapGet fs ''value'' of Some (JStr s) \<Rightarrow> if s = [] then None else Some s | _ \<Rightarrow> None)
   | _ \<Rightarrow> None)"

definition jobLogQuery :: "job_log_lookup \<Rightarrow> string" where
  "jobLogQuery lookup =
     joinText '' and '' ((''attempt_id = '' @ quote (jo_attemptId lookup)) #
       (case jo_executionId lookup of
          None \<Rightarrow> []
        | Some i \<Rightarrow> if i = [] then [] else [''execution_id = '' @ quote i])) @
     '' order by runner_execution_started_at desc limit 2''"

definition findRecord :: "'s fetch \<Rightarrow> int \<Rightarrow> job_log_lookup \<Rightarrow> ('s, json option) prog" where
  "findRecord fetch app lookup =
     bindP (request fetch \<lparr> hr_method = GET, hr_path = ''/k/v1/records.json'',
        hr_params = [(''app'', stringOfInt app), (''query'', jobLogQuery lookup)], hr_body = None \<rparr>) (\<lambda>body.
     case body of
       JObj fs \<Rightarrow>
         (case mapGet fs ''records'' of
            Some (JArr []) \<Rightarrow> retP None
          | Some (JArr [JObj rec]) \<Rightarrow> retP (Some (JObj rec))
          | _ \<Rightarrow> throwP (PlainError ''Error''))
     | _ \<Rightarrow> throwP (PlainError ''Error''))"

definition kintoneFindExecutionStarted :: "'s fetch \<Rightarrow> int \<Rightarrow> job_log_lookup \<Rightarrow> ('s, job_log_marker option) prog" where
  "kintoneFindExecutionStarted fetch app lookup =
     bindP (findRecord fetch app lookup) (\<lambda>r. retP (case r of
       None \<Rightarrow> None
     | Some rec \<Rightarrow> Some \<lparr> jm_runnerExecutionStartedAt = fieldString (jsonGet rec ''runner_execution_started_at''),
         jm_executionId = fieldString (jsonGet rec ''execution_id'') \<rparr>))"

definition kintoneFindAttemptResult :: "'s fetch \<Rightarrow> int \<Rightarrow> string \<Rightarrow> ('s, job_log_result option) prog" where
  "kintoneFindAttemptResult fetch app attemptId =
     bindP (findRecord fetch app \<lparr> jo_attemptId = attemptId, jo_executionId = None \<rparr>) (\<lambda>r.
     case r of
       None \<Rightarrow> retP None
     | Some rec \<Rightarrow>
         (case fieldString (jsonGet rec ''status'') of
            None \<Rightarrow> throwP (PlainError ''Error'')
          | Some st \<Rightarrow> retP (Some \<lparr>
              jl_runner_execution_started_at = fieldString (jsonGet rec ''runner_execution_started_at''),
              jl_execution_id = fieldString (jsonGet rec ''execution_id''), jl_status = st,
              jl_finished_at = fieldString (jsonGet rec ''finished_at'') \<rparr>)))"

section \<open>A missing result\<close>

datatype missing_result_decision = NOT_EXECUTED | RESULT_UNKNOWN

definition decideMissingResult :: "string option \<Rightarrow> string option \<Rightarrow> bool \<Rightarrow> missing_result_decision" where
  "decideMissingResult orchestratorStartedAt runnerStartedAt launchFailureConfirmed =
     (if orchestratorStartedAt = None \<and> runnerStartedAt = None then NOT_EXECUTED
      else if orchestratorStartedAt \<noteq> None \<and> runnerStartedAt = None \<and> launchFailureConfirmed then NOT_EXECUTED
      else RESULT_UNKNOWN)"

end
