(* ===== verification/Orphan.thy ===== *)
theory Orphan
  imports ResolveNode JobLog "HOL-Library.Multiset"
begin

text \<open>
  Cleaning up after a dead invocation:
  \<open>src/orchestration/orphan-attempt-adjudication.ts\<close>. \<open>findAttemptResult\<close> is the method of the
  job log reader the code is given, \<open>confirmWrite\<close> the check of the network lease before every
  write. \<open>Promise.all\<close> over reads is run in the order of its list.
\<close>

section \<open>The verdict\<close>

text \<open>
  \<open>toUpperCase\<close> of one code unit: the letters of ASCII and Latin-1, and sharp s, which becomes
  two letters.
\<close>

definition upperUnit :: "char \<Rightarrow> string" where
  "upperUnit c = (let n = of_char c :: nat in
     if 97 \<le> n \<and> n \<le> 122 \<or> 224 \<le> n \<and> n \<le> 254 \<and> n \<noteq> 247 then [char_of (n - 32)]
     else if n = 223 then ''SS'' else [c])"

definition toUpperCase :: "string \<Rightarrow> string" where
  "toUpperCase s = concat (map upperUnit s)"

record terminal_decision =
  td_status :: status
  td_resultCode :: string

definition unknownDecision :: terminal_decision where
  "unknownDecision = \<lparr> td_status = UNKNOWN, td_resultCode = NO_EXECUTION_RESULT \<rparr>"

definition decideOrphanResult :: "job_log_result option \<Rightarrow> terminal_decision" where
  "decideOrphanResult jobLog = (case jobLog of
     None \<Rightarrow> unknownDecision
   | Some entry \<Rightarrow>
       let status = toUpperCase (jl_status entry) in
       if status = ''SUCCESS'' then \<lparr> td_status = SUCCESS, td_resultCode = ''OK'' \<rparr>
       else if status = ''NO_DATA'' then \<lparr> td_status = SUCCESS, td_resultCode = ''NO_DATA'' \<rparr>
       else if status = ''FAILED'' then \<lparr> td_status = FAILED, td_resultCode = ''FAILED'' \<rparr>
       else if status = ''ABORTED'' then \<lparr> td_status = FAILED, td_resultCode = ''ASSERT_FAILED'' \<rparr>
       else if status = ''TIMEOUT'' then \<lparr> td_status = FAILED, td_resultCode = ''EXECUTION_TIMEOUT'' \<rparr>
       else if status = ''CANCELLED'' then \<lparr> td_status = CANCELLED, td_resultCode = ''CANCELLED'' \<rparr>
       else unknownDecision)"

section \<open>Adjudication\<close>

definition attemptsByIdMap :: "node_attempt versioned list \<Rightarrow> node_attempt versioned jsmap" where
  "attemptsByIdMap attempts = mapFromEntries (map (\<lambda>a. (na_node_attempt_id (content a), a)) attempts)"

text \<open>The candidates: \<open>Inl\<close> when a RUNNING state names an attempt that does not exist.\<close>

fun orphanCandidates ::
  "string \<Rightarrow> node_attempt versioned jsmap \<Rightarrow> node_state versioned list \<Rightarrow>
   js_error + (node_state versioned \<times> node_attempt versioned) list" where
  "orphanCandidates invocationId attemptsById [] = Inr []"
| "orphanCandidates invocationId attemptsById (state # states) =
     (if ns_status (content state) \<noteq> RUNNING
      then orphanCandidates invocationId attemptsById states
      else case ns_active_attempt_id (content state) of
        None \<Rightarrow> orphanCandidates invocationId attemptsById states
      | Some activeId \<Rightarrow>
          (case mapGet attemptsById activeId of
             None \<Rightarrow> Inl (PlainError ''active attempt missing'')
           | Some attempt \<Rightarrow>
               if na_status (content attempt) \<noteq> RUNNING \<or> na_invocation_id (content attempt) = invocationId
               then orphanCandidates invocationId attemptsById states
               else (case orphanCandidates invocationId attemptsById states of
                       Inl e \<Rightarrow> Inl e
                     | Inr cs \<Rightarrow> Inr ((state, attempt) # cs))))"

record adjudication =
  ad_attemptId :: string
  ad_nodeId :: string
  ad_status :: status
  ad_resultCode :: string

definition orphanTerminalState :: "node_state \<Rightarrow> status \<Rightarrow> string \<Rightarrow> string \<Rightarrow> node_state" where
  "orphanTerminalState state status resultCode finishedAt = state\<lparr>
     ns_status := status, ns_active_attempt_id := None, ns_status_reason := Some resultCode,
     ns_finished_at := Some finishedAt, ns_updated_at := finishedAt \<rparr>"

definition orphanFinalization ::
  "node_attempt \<Rightarrow> job_log_result option \<Rightarrow> terminal_decision \<Rightarrow> string \<Rightarrow> attempt_finalization" where
  "orphanFinalization attempt jobLog decision finishedAt = \<lparr>
     af_status = td_status decision, af_result_code = td_resultCode decision,
     af_runner_execution_started_at = na_runner_execution_started_at attempt,
     af_execution_id = (case na_execution_id attempt of
        Some i \<Rightarrow> Some i | None \<Rightarrow> (case jobLog of None \<Rightarrow> None | Some entry \<Rightarrow> jl_execution_id entry)),
     af_finished_at = finishedAt, af_duration_sec = na_duration_sec attempt,
     af_error_message = (if td_status decision = UNKNOWN
        then Some ''orphan RUNNING attempt had no terminal execution result''
        else na_error_message attempt),
     af_read_count = na_read_count attempt, af_written_count = na_written_count attempt,
     af_last_successful_chunk_no = na_last_successful_chunk_no attempt,
     af_last_written_key = na_last_written_key attempt \<rparr>"

definition leaseInterrupted :: js_error where
  "leaseInterrupted = CodedError ''NETWORK_LEASE_INTERRUPTED''"

definition requireLease :: "('s, bool) prog \<Rightarrow> ('s, unit) prog" where
  "requireLease confirmWrite = bindP confirmWrite (\<lambda>ok. whenP (\<not> ok) (throwP leaseInterrupted))"

definition orphanFinishedAt :: "('s, string) prog \<Rightarrow> job_log_result option \<Rightarrow> ('s, string) prog" where
  "orphanFinishedAt now jobLog = (case jobLog of
     None \<Rightarrow> now
   | Some entry \<Rightarrow> (case jl_finished_at entry of None \<Rightarrow> now | Some x \<Rightarrow> retP x))"

definition adjudicateOne ::
  "'s repository \<Rightarrow> ('s, string) prog \<Rightarrow> ('s, bool) prog \<Rightarrow>
   (node_state versioned \<times> node_attempt versioned) \<times> job_log_result option \<Rightarrow> adjudication list \<Rightarrow>
   ('s, adjudication list) prog" where
  "adjudicateOne R now confirmWrite item adjudications =
     (case item of ((state, attempt), jobLog) \<Rightarrow>
      let decision = decideOrphanResult jobLog in
      bindP (orphanFinishedAt now jobLog) (\<lambda>finishedAt.
      bindP (requireLease confirmWrite) (\<lambda>_.
      bindP (finalizeAttempt R (na_node_attempt_id (content attempt)) (revision attempt)
               (orphanFinalization (content attempt) jobLog decision finishedAt)) (\<lambda>_.
      bindP (requireLease confirmWrite) (\<lambda>_.
      bindP (upsertNodeState R \<lparr>
               nw_value = orphanTerminalState (content state) (td_status decision) (td_resultCode decision) finishedAt,
               nw_expected_revision = Some (revision state), nw_resolution_event = None \<rparr>) (\<lambda>_.
      retP (adjudications @ [\<lparr> ad_attemptId = na_node_attempt_id (content attempt),
        ad_nodeId = ns_node_id (content state), ad_status = td_status decision,
        ad_resultCode = td_resultCode decision \<rparr>])))))))"

type_synonym evidence = "(node_state versioned \<times> node_attempt versioned) \<times> job_log_result option"

definition collectOne ::
  "(string \<Rightarrow> ('s, job_log_result option) prog) \<Rightarrow> node_state versioned \<times> node_attempt versioned \<Rightarrow>
   evidence list \<Rightarrow> ('s, evidence list) prog" where
  "collectOne findAttemptResult c acc =
     bindP (findAttemptResult (na_node_attempt_id (content (snd c)))) (\<lambda>jobLog. retP (acc @ [(c, jobLog)]))"

definition collectEvidence ::
  "(string \<Rightarrow> ('s, job_log_result option) prog) \<Rightarrow> (node_state versioned \<times> node_attempt versioned) list \<Rightarrow>
   ('s, evidence list) prog" where
  "collectEvidence findAttemptResult candidates = foldP (collectOne findAttemptResult) candidates []"

definition adjudicateOrphanRunningAttempts ::
  "'s repository \<Rightarrow> ('s, string) prog \<Rightarrow> (string \<Rightarrow> ('s, job_log_result option) prog) \<Rightarrow> ('s, bool) prog \<Rightarrow>
   string \<Rightarrow> string \<Rightarrow> node_attempt versioned list option \<Rightarrow> ('s, adjudication list) prog" where
  "adjudicateOrphanRunningAttempts R now findAttemptResult confirmWrite runId invocationId givenAttempts =
     bindP (getNodeStates R runId) (\<lambda>states.
     bindP (case givenAttempts of Some a \<Rightarrow> retP a | None \<Rightarrow> getAttempts R runId) (\<lambda>attempts.
     bindP (liftP (orphanCandidates invocationId (attemptsByIdMap attempts) states)) (\<lambda>candidates.
     bindP (collectEvidence findAttemptResult candidates) (\<lambda>evidence.
     foldP (adjudicateOne R now confirmWrite) evidence []))))"

section \<open>Abandoned invocations\<close>

record abandoned_finalization =
  ab_invocationId :: string
  ab_previousStatus :: status
  ab_auditEventId :: string

definition abandonedAudit ::
  "string \<Rightarrow> run_invocation versioned \<Rightarrow> run_invocation versioned \<Rightarrow> string \<Rightarrow> reconciliation_audit" where
  "abandonedAudit runId invocation finalized finishedAt = \<lparr>
     ra_repair_type = INVOCATION_FINALIZED, ra_run_id = runId, ra_target_type = RUN_INVOCATION,
     ra_target_id = ri_invocation_id (content invocation),
     ra_before = [(''status'', JStr (statusText (ri_status (content invocation)))),
       (''result_code'', JStr (ri_result_code (content invocation))),
       (''revision'', jsonInt (revision invocation))],
     ra_after = [(''status'', JStr (statusText (ri_status (content finalized)))),
       (''result_code'', JStr (ri_result_code (content finalized))),
       (''revision'', jsonInt (revision finalized))],
     ra_occurred_at = finishedAt \<rparr>"

definition finalizeAbandonedOne ::
  "'s repository \<Rightarrow> ('s, string) prog \<Rightarrow> ('s, string) prog \<Rightarrow> ('s, bool) prog \<Rightarrow> string \<Rightarrow> string \<Rightarrow>
   run_invocation versioned \<Rightarrow> abandoned_finalization list \<Rightarrow> ('s, abandoned_finalization list) prog" where
  "finalizeAbandonedOne R now uuid confirmWrite runId invocationId invocation results =
     (let previousStatus = ri_status (content invocation) in
      if ri_invocation_id (content invocation) = invocationId \<or>
         previousStatus \<noteq> RUNNING \<and> previousStatus \<noteq> CREATED
      then retP results
      else
        bindP (requireLease confirmWrite) (\<lambda>_.
        bindP now (\<lambda>finishedAt.
        bindP (finalizeInvocation R (ri_invocation_id (content invocation)) (revision invocation) \<lparr>
          if_status = CANCELLED, if_result_code = ''NETWORK_LEASE_INTERRUPTED'',
          if_finished_at = finishedAt, if_selected_node_ids = None, if_preserved_node_ids = None,
          if_blocked_node_ids = None,
          if_reason = Some (ri_reason (content invocation) @
            ''; finalized as an abandoned invocation during reconciliation'') \<rparr>) (\<lambda>finalized.
        bindP (requireLease confirmWrite) (\<lambda>_.
        bindP uuid (\<lambda>auditEventId.
        bindP (appendOperationAudit R (ReconciliationOperationAudit auditEventId
                 (abandonedAudit runId invocation finalized finishedAt))) (\<lambda>_.
        retP (results @ [\<lparr> ab_invocationId = ri_invocation_id (content invocation),
          ab_previousStatus = previousStatus, ab_auditEventId = auditEventId \<rparr>]))))))))"

definition finalizeAbandonedInvocations ::
  "'s repository \<Rightarrow> ('s, string) prog \<Rightarrow> ('s, string) prog \<Rightarrow> ('s, bool) prog \<Rightarrow> string \<Rightarrow> string \<Rightarrow>
   ('s, abandoned_finalization list) prog" where
  "finalizeAbandonedInvocations R now uuid confirmWrite runId invocationId =
     bindP (getInvocations R runId) (\<lambda>invocations.
     foldP (finalizeAbandonedOne R now uuid confirmWrite runId invocationId) invocations [])"

definition orphanAdjudicationReason :: "adjudication list \<Rightarrow> string option" where
  "orphanAdjudicationReason adjudications =
     (if adjudications = [] then None
      else Some (''orphan attempts adjudicated: '' @ joinText '', ''
        (map (\<lambda>a. ad_attemptId a @ ''='' @ statusText (ad_status a) @ ''('' @ ad_resultCode a @ '')'') adjudications)))"

section \<open>Lemmas\<close>

context repository_client
begin

lemma requireLease_keeps [guarantees_intro]: "guarantees T c \<Longrightarrow> guarantees T (requireLease c)"
  unfolding requireLease_def by (intro guarantees_intro)

lemma orphanFinishedAt_keeps [guarantees_intro]: "guarantees T (orphanFinishedAt now jobLog)"
  unfolding orphanFinishedAt_def by (intro guarantees_intro)

lemma adjudicateOne_keeps [guarantees_intro]:
  assumes [guarantees_intro]: "guarantees T confirmWrite"
  shows "guarantees T (adjudicateOne R now confirmWrite item acc)"
  unfolding adjudicateOne_def Let_def by (intro guarantees_intro)

lemma adjudicate_keeps [guarantees_intro]:
  assumes [guarantees_intro]: "\<And>i. guarantees T (findAttemptResult i)" "guarantees T confirmWrite"
  shows "guarantees T (adjudicateOrphanRunningAttempts R now findAttemptResult confirmWrite runId invocationId given)"
  unfolding adjudicateOrphanRunningAttempts_def collectEvidence_def collectOne_def by (intro guarantees_intro)

lemma finalizeAbandoned_keeps [guarantees_intro]:
  assumes [guarantees_intro]: "guarantees T confirmWrite"
  shows "guarantees T (finalizeAbandonedInvocations R now uuid confirmWrite runId invocationId)"
  unfolding finalizeAbandonedInvocations_def finalizeAbandonedOne_def Let_def
  by (intro guarantees_intro)

end

section \<open>What adjudication leaves behind\<close>

lemma outside_store_run:
  assumes "outside_store m" "m s = (r, s')"
  shows "m_states s' = m_states s" "m_attempts s' = m_attempts s" "m_attemptIds s' = m_attemptIds s"
    "mem_wf digest s' = mem_wf digest s"
proof -
  have tr: "mem.truncate s' = mem.truncate s" using assms unfolding outside_store_def by (metis snd_conv)
  then show "m_states s' = m_states s" "m_attempts s' = m_attempts s" "m_attemptIds s' = m_attemptIds s"
    by (simp_all add: mem.truncate_def)
  show "mem_wf digest s' = mem_wf digest s"
    using same_store_history [OF tr] same_store_history [OF tr [symmetric]] by (auto simp: mem_history_def)
qed

lemma requireLease_Inr:
  "requireLease c s = (Inr x, s') \<Longrightarrow> \<exists>r. c s = (r, s')"
  by (auto simp: requireLease_def elim!: bindP_cases split: if_splits)

lemma finalizeAttempt_Inr:
  assumes "im_finalizeAttempt i n f s = (Inr v, s')"
  obtains k where "mapGet (m_attemptIds s) i = Some k" "s' = s\<lparr> m_attempts := mapSet k v (m_attempts s) \<rparr>"
    "na_status (content v) = af_status f" "na_node_attempt_id (content v) = i \<or> \<not> mem_wf digest s"
proof -
  have *: "\<exists>k old. mapGet (m_attemptIds s) i = Some k \<and> mapGet (m_attempts s) k = Some old \<and>
      s' = s\<lparr> m_attempts := mapSet k v (m_attempts s) \<rparr> \<and> content v = finalizedAttempt (content old) f"
    using assms by (auto simp: im_finalizeAttempt_def im_run_defs split: option.splits if_splits)
  then obtain k old where k: "mapGet (m_attemptIds s) i = Some k" "mapGet (m_attempts s) k = Some old"
      "s' = s\<lparr> m_attempts := mapSet k v (m_attempts s) \<rparr>" "content v = finalizedAttempt (content old) f"
    by blast
  moreover have "na_node_attempt_id (content old) = i" if "mem_wf digest s"
    using that k(1,2) unfolding mem_wf_def attempts_wf_def by (metis option.inject)
  ultimately show ?thesis using that [of k] by (auto simp: finalizedAttempt_def)
qed

lemma upsertNodeState_Inr:
  assumes "im_upsertNodeState w s = (Inr v, t)"
  shows "content v = (nw_value w)\<lparr> ns_revision := revision v \<rparr>"
    "t = s\<lparr> m_states := mapSet (ns_node_state_key (nw_value w)) v (m_states s) \<rparr>"
  using assms by (auto simp: im_upsertNodeState_def im_run_defs Let_def split: option.splits if_splits)

definition itemKey :: "(node_state versioned \<times> node_attempt versioned) \<times> job_log_result option \<Rightarrow> string" where
  "itemKey item = ns_node_state_key (content (fst (fst item)))"

definition settled ::
  "'w mem_scheme \<Rightarrow> (node_state versioned \<times> node_attempt versioned) \<times> job_log_result option \<Rightarrow> bool" where
  "settled t item \<longleftrightarrow>
     (\<exists>v. mapGet (m_states t) (itemKey item) = Some v \<and> ns_active_attempt_id (content v) = None \<and>
        ns_status (content v) = td_status (decideOrphanResult (snd item)) \<and>
        ns_run_id (content v) = ns_run_id (content (fst (fst item))) \<and> ns_node_id (content v) = ns_node_id (content (fst (fst item)))) \<and>
     (\<exists>k a. mapGet (m_attempts t) k = Some a \<and> na_node_attempt_id (content a) = na_node_attempt_id (content (snd (fst item))) \<and>
        na_status (content a) = td_status (decideOrphanResult (snd item)))"

lemma decision_terminal: "td_status (decideOrphanResult j) \<noteq> RUNNING"
  by (auto simp: decideOrphanResult_def unknownDecision_def Let_def split: option.splits)

lemma adjudicateOne_step:
  assumes run: "adjudicateOne (mem_repository digest collate) now confirmWrite item acc s = (Inr out, t)"
    and out: "outside_store now" "outside_store confirmWrite" and wf: "mem_wf digest s"
  shows "mem_wf digest t \<and> mem_evolves s t \<and> settled t item \<and>
    (\<forall>k. k \<noteq> itemKey item \<longrightarrow> mapGet (m_states t) k = mapGet (m_states s) k) \<and>
    out = acc @ [\<lparr> ad_attemptId = na_node_attempt_id (content (snd (fst item))),
      ad_nodeId = ns_node_id (content (fst (fst item))), ad_status = td_status (decideOrphanResult (snd item)),
      ad_resultCode = td_resultCode (decideOrphanResult (snd item)) \<rparr>]"
proof -
  obtain st att jl where item: "item = ((st, att), jl)" by (metis surj_pair)
  let ?d = "decideOrphanResult jl"
  have hist: "guarantees (mem_history digest) (adjudicateOne (mem_repository digest collate) now confirmWrite item acc)"
    using repository_client.adjudicateOne_keeps [OF store_client [OF out(1) out(1)]] out(2)
    by (blast intro: outside_store_history)
  have ev: "mem_wf digest t" "mem_evolves s t"
    using guaranteesD [OF hist run] wf by (auto simp: mem_history_def)
  have fin_out: "outside_store (orphanFinishedAt now jl)"
    using out(1) by (auto simp: orphanFinishedAt_def split: option.split)
  from run obtain fin s1 s2 v s3 s4 w where
    1: "orphanFinishedAt now jl s = (Inr fin, s1)" and 2: "requireLease confirmWrite s1 = (Inr (), s2)" and
    3: "im_finalizeAttempt (na_node_attempt_id (content att)) (revision att) (orphanFinalization (content att) jl ?d fin) s2 = (Inr v, s3)" and
    4: "requireLease confirmWrite s3 = (Inr (), s4)" and
    5: "im_upsertNodeState \<lparr> nw_value = orphanTerminalState (content st) (td_status ?d) (td_resultCode ?d) fin,
        nw_expected_revision = Some (revision st), nw_resolution_event = None \<rparr> s4 = (Inr w, t)" and
    o: "out = acc @ [\<lparr> ad_attemptId = na_node_attempt_id (content att), ad_nodeId = ns_node_id (content st),
      ad_status = td_status ?d, ad_resultCode = td_resultCode ?d \<rparr>]"
    by (auto simp: adjudicateOne_def item Let_def elim!: bindP_cases)
  obtain r2 r4 where r: "confirmWrite s1 = (r2, s2)" "confirmWrite s3 = (r4, s4)"
    using requireLease_Inr [OF 2] requireLease_Inr [OF 4] by blast
  note same = outside_store_run [OF fin_out 1] outside_store_run [OF out(2) r(1)] outside_store_run [OF out(2) r(2)]
  have wf2: "mem_wf digest s2" using wf same by simp
  from finalizeAttempt_Inr [OF 3, of digest] wf2 obtain k where
    k: "mapGet (m_attemptIds s2) (na_node_attempt_id (content att)) = Some k" "s3 = s2\<lparr> m_attempts := mapSet k v (m_attempts s2) \<rparr>"
    "na_status (content v) = td_status ?d" "na_node_attempt_id (content v) = na_node_attempt_id (content att)"
    by (auto simp: orphanFinalization_def)
  note u = upsertNodeState_Inr [OF 5]
  have "mapGet (m_attempts t) k = Some v" using k(2) u(2) same by (simp add: update_conv')
  moreover have "mapGet (m_states t) (itemKey item) = Some w"
    using u(2) by (simp add: item itemKey_def orphanTerminalState_def update_conv')
  moreover have "ns_active_attempt_id (content w) = None" "ns_status (content w) = td_status ?d"
    "ns_run_id (content w) = ns_run_id (content st)" "ns_node_id (content w) = ns_node_id (content st)"
    by (simp_all add: u(1) orphanTerminalState_def)
  ultimately have "settled t item" using k(3,4) by (auto simp: settled_def item)
  moreover have "mapGet (m_states t) k' = mapGet (m_states s) k'" if "k' \<noteq> itemKey item" for k'
    using that u(2) k(2) same by (simp add: item itemKey_def orphanTerminalState_def update_conv')
  ultimately show ?thesis using ev o by (simp add: item)
qed

definition adjudicationOf ::
  "(node_state versioned \<times> node_attempt versioned) \<times> job_log_result option \<Rightarrow> adjudication" where
  "adjudicationOf item = \<lparr> ad_attemptId = na_node_attempt_id (content (snd (fst item))),
     ad_nodeId = ns_node_id (content (fst (fst item))), ad_status = td_status (decideOrphanResult (snd item)),
     ad_resultCode = td_resultCode (decideOrphanResult (snd item)) \<rparr>"

lemma settled_stable:
  assumes "settled s item" "mem_evolves s t"
    and "mapGet (m_states t) (itemKey item) = mapGet (m_states s) (itemKey item)"
  shows "settled t item"
proof -
  obtain k a where a: "mapGet (m_attempts s) k = Some a"
    "na_node_attempt_id (content a) = na_node_attempt_id (content (snd (fst item)))"
    "na_status (content a) = td_status (decideOrphanResult (snd item))"
    using assms(1) by (auto simp: settled_def)
  have "mapEvolves attempt_may_become (m_attempts s) (m_attempts t)" using assms(2) by (simp add: mem_evolves_def)
  from mapEvolvesD [OF this a(1)] a(3) have "mapGet (m_attempts t) k = Some a"
    by (auto simp: attempt_may_become_def decision_terminal)
  with a assms(1,3) show ?thesis by (auto simp: settled_def)
qed

lemma adjudicate_loop:
  assumes out: "outside_store now" "outside_store confirmWrite"
  shows "foldP (adjudicateOne (mem_repository digest collate) now confirmWrite) items acc s = (Inr adjs, t) \<Longrightarrow>
    mem_wf digest s \<Longrightarrow> distinct (map itemKey items) \<Longrightarrow>
    mem_wf digest t \<and> mem_evolves s t \<and> (\<forall>item \<in> set items. settled t item) \<and>
    (\<forall>k. k \<notin> itemKey ` set items \<longrightarrow> mapGet (m_states t) k = mapGet (m_states s) k) \<and>
    adjs = acc @ map adjudicationOf items"
proof (induction items arbitrary: acc s)
  case Nil
  then show ?case by simp
next
  case (Cons item items)
  from Cons.prems(1) obtain acc' s' where
    1: "adjudicateOne (mem_repository digest collate) now confirmWrite item acc s = (Inr acc', s')" and
    2: "foldP (adjudicateOne (mem_repository digest collate) now confirmWrite) items acc' s' = (Inr adjs, t)"
    by (auto elim!: bindP_cases)
  note step = adjudicateOne_step [OF 1 out Cons.prems(2)]
  have IH: "mem_wf digest t \<and> mem_evolves s' t \<and> (\<forall>item \<in> set items. settled t item) \<and>
    (\<forall>k. k \<notin> itemKey ` set items \<longrightarrow> mapGet (m_states t) k = mapGet (m_states s') k) \<and>
    adjs = acc' @ map adjudicationOf items"
    using Cons.IH [OF 2 conjunct1 [OF step]] Cons.prems(3) by simp
  have "itemKey item \<notin> itemKey ` set items" using Cons.prems(3) by simp
  then have "mapGet (m_states t) (itemKey item) = mapGet (m_states s') (itemKey item)" using IH by blast
  moreover have "settled s' item" "mem_evolves s' t" using step IH by blast+
  ultimately have "settled t item" using settled_stable by blast
  moreover have "mem_evolves s t" using step IH mem_evolves_trans by blast
  moreover have "mapGet (m_states t) k = mapGet (m_states s) k" if "k \<notin> itemKey ` set (item # items)" for k
    using that step IH by simp
  ultimately show ?case using step IH by (simp add: adjudicationOf_def)
qed

lemma collectEvidence_loop:
  assumes "\<And>i. outside_store (lookup i)"
  shows "foldP (collectOne lookup) cs acc s = (Inr ev, s') \<Longrightarrow>
    map fst ev = map fst acc @ cs \<and> mem.truncate s' = mem.truncate s"
proof (induction cs arbitrary: acc s)
  case Nil
  then show ?case by simp
next
  case (Cons c cs)
  then obtain acc' s1 where 1: "collectOne lookup c acc s = (Inr acc', s1)"
    and 2: "foldP (collectOne lookup) cs acc' s1 = (Inr ev, s')"
    by (auto elim!: bindP_cases)
  from 1 obtain j where "lookup (na_node_attempt_id (content (snd c))) s = (Inr j, s1)" "acc' = acc @ [(c, j)]"
    by (auto simp: collectOne_def elim!: bindP_cases)
  moreover from this(1) assms have "mem.truncate s1 = mem.truncate s"
    unfolding outside_store_def by (metis snd_conv)
  ultimately show ?case using Cons.IH [OF 2] by simp
qed

lemma mset_insortBy: "mset (insortBy le x xs) = add_mset x (mset xs)"
  by (induction xs) auto

lemma mset_sortBy: "mset (sortBy le xs) = mset xs"
  by (induction xs) (auto simp: sortBy_def mset_insortBy)

lemma distinct_listed_keys:
  assumes "mem_wf digest s"
  shows "distinct (map (\<lambda>v. ns_node_state_key (content v)) (sortBy le (filter P (map snd (m_states s)))))"
proof -
  let ?f = "\<lambda>v. ns_node_state_key (content v)"
  have "mset (map ?f (sortBy le (filter P (map snd (m_states s))))) = mset (map ?f (filter P (map snd (m_states s))))"
    by (simp add: mset_sortBy)
  moreover have eq: "map ?f (map snd (m_states s)) = map fst (m_states s)"
    using assms by (auto simp: mem_wf_def states_wf_def keys_distinct_def)
  have "distinct (map ?f (map snd (m_states s)))"
    unfolding eq using assms by (simp add: mem_wf_def keys_distinct_def)
  then have "distinct (map ?f (filter P (map snd (m_states s))))" by (rule distinct_map_filter)
  ultimately show ?thesis by (metis mset_eq_imp_distinct_iff)
qed

lemma orphanCandidates_Inr:
  "orphanCandidates own m states = Inr cs \<Longrightarrow> distinct (map (\<lambda>v. ns_node_state_key (content v)) states) \<Longrightarrow>
   distinct (map (\<lambda>c. ns_node_state_key (content (fst c))) cs) \<and> fst ` set cs \<subseteq> set states \<and>
   (\<forall>st \<in> set states. ns_status (content st) = RUNNING \<longrightarrow> (\<forall>i. ns_active_attempt_id (content st) = Some i \<longrightarrow>
      (\<exists>att. mapGet m i = Some att \<and> ((st, att) \<in> set cs \<or> na_status (content att) \<noteq> RUNNING \<or>
         na_invocation_id (content att) = own))))"
proof (induction states arbitrary: cs)
  case Nil
  then show ?case by simp
next
  case (Cons st states)
  from Cons.prems(1) consider
      (skip) "orphanCandidates own m states = Inr cs"
        "\<forall>i. ns_status (content st) = RUNNING \<and> ns_active_attempt_id (content st) = Some i \<longrightarrow>
          (\<exists>att. mapGet m i = Some att \<and> (na_status (content att) \<noteq> RUNNING \<or> na_invocation_id (content att) = own))"
    | (add) att cs' i where "orphanCandidates own m states = Inr cs'" "cs = (st, att) # cs'"
        "ns_active_attempt_id (content st) = Some i" "mapGet m i = Some att"
    by (auto split: if_splits option.splits sum.splits)
  then show ?case
  proof cases
    case skip
    with Cons.IH [OF skip(1)] Cons.prems(2) show ?thesis by auto
  next
    case add
    with Cons.IH [OF add(1)] Cons.prems(2) show ?thesis by fastforce
  qed
qed

section \<open>Properties\<close>

text \<open>
  The verdict on an orphan is fail-closed: it is never RUNNING, it is SUCCESS only for a job
  log whose status reads SUCCESS or NO_DATA whatever its letter case, and a missing log, a log
  that still says RUNNING and every unrecognised status give UNKNOWN.
\<close>

theorem orphan_verdict_fail_closed:
  "td_status (decideOrphanResult j) \<in> {SUCCESS, FAILED, CANCELLED, UNKNOWN} \<and>
   (td_status (decideOrphanResult j) = SUCCESS \<longleftrightarrow>
      (\<exists>entry. j = Some entry \<and> toUpperCase (jl_status entry) \<in> {''SUCCESS'', ''NO_DATA''})) \<and>
   (td_status (decideOrphanResult j) = UNKNOWN \<longleftrightarrow>
      j = None \<or> (\<exists>entry. j = Some entry \<and> toUpperCase (jl_status entry) \<notin>
        {''SUCCESS'', ''NO_DATA'', ''FAILED'', ''ABORTED'', ''TIMEOUT'', ''CANCELLED''}))"
  by (cases j) (simp_all add: decideOrphanResult_def unknownDecision_def Let_def)

text \<open>
  C4: Adjudication leaves no orphan behind. Over a store that satisfies its invariant, with a
  clock, a job log and a lease check that do not write to it, a call that returns has settled
  every orphan it reports (the attempt is in the reported status, and so is the node of the run, which names no active attempt
  any more), keeps the invariant and the history, and afterwards every RUNNING node of the run that names an active attempt names an
  existing one that is finished or belongs to the calling invocation.
\<close>

theorem no_orphan_left:
  assumes run: "adjudicateOrphanRunningAttempts (mem_repository digest collate) now findAttemptResult confirmWrite
      runId invocationId None s = (Inr adjs, t)"
    and wf: "mem_wf digest s"
    and out: "outside_store now" "outside_store confirmWrite" "\<And>i. outside_store (findAttemptResult i)"
  shows "mem_wf digest t \<and> mem_evolves s t \<and>
    (\<forall>a \<in> set adjs. \<exists>k v. mapGet (m_attempts t) k = Some v \<and> na_node_attempt_id (content v) = ad_attemptId a \<and>
       na_status (content v) = ad_status a \<and> ad_status a \<noteq> RUNNING) \<and>
    (\<forall>a \<in> set adjs. \<exists>k v. mapGet (m_states t) k = Some v \<and> ns_run_id (content v) = runId \<and> ns_node_id (content v) = ad_nodeId a \<and>
       ns_status (content v) = ad_status a \<and> ns_active_attempt_id (content v) = None) \<and>
    (\<forall>k v i. mapGet (m_states t) k = Some v \<and> ns_run_id (content v) = runId \<and> ns_status (content v) = RUNNING \<and>
       ns_active_attempt_id (content v) = Some i \<longrightarrow>
       (\<exists>k' a. mapGet (m_attempts t) k' = Some a \<and> na_node_attempt_id (content a) = i \<and>
          (na_status (content a) = RUNNING \<longrightarrow> na_invocation_id (content a) = invocationId)))"
proof -
  let ?S = "sortBy (\<lambda>a b. collate (ns_node_id (content a)) (ns_node_id (content b)))
      (filter (\<lambda>v. ns_run_id (content v) = runId) (map snd (m_states s)))"
  let ?A = "sort_key (\<lambda>v. na_attempt_no (content v))
      (filter (\<lambda>v. na_run_id (content v) = runId) (map snd (m_attempts s)))"
  obtain cs ev s' where cs: "orphanCandidates invocationId (attemptsByIdMap ?A) ?S = Inr cs"
    and ev: "collectEvidence findAttemptResult cs s = (Inr ev, s')"
    and loop: "foldP (adjudicateOne (mem_repository digest collate) now confirmWrite) ev [] s' = (Inr adjs, t)"
    using run
    by (auto simp: adjudicateOrphanRunningAttempts_def im_getNodeStates_def im_getAttempts_def elim!: bindP_cases)
  have tr: "mem.truncate s' = mem.truncate s" and fst_ev: "map fst ev = cs"
    using collectEvidence_loop [OF out(3)] ev unfolding collectEvidence_def by auto
  have same: "m_states s' = m_states s" using tr by (simp add: mem.truncate_def)
  have wf': "mem_wf digest s'" and ev': "mem_evolves s s'"
    using same_store_history [OF tr] wf by (auto simp: mem_history_def)
  have key: "mapGet (m_states s) (ns_node_state_key (content v)) = Some v" if "v \<in> set ?S" for v
    using that by (intro listed_state(1) [OF wf]) auto
  have distS: "distinct (map (\<lambda>v. ns_node_state_key (content v)) ?S)"
    by (rule distinct_listed_keys [OF wf])
  note cand = orphanCandidates_Inr [OF cs distS]
  have "map itemKey ev = map (\<lambda>c. ns_node_state_key (content (fst c))) cs"
    by (simp add: itemKey_def fst_ev [symmetric])
  then have L: "mem_wf digest t \<and> mem_evolves s' t \<and> (\<forall>item \<in> set ev. settled t item) \<and>
    (\<forall>k. k \<notin> itemKey ` set ev \<longrightarrow> mapGet (m_states t) k = mapGet (m_states s') k) \<and> adjs = map adjudicationOf ev"
    using adjudicate_loop [OF out(1,2) loop wf'] cand by simp
  have reported: "\<exists>k v. mapGet (m_attempts t) k = Some v \<and> na_node_attempt_id (content v) = ad_attemptId a \<and>
       na_status (content v) = ad_status a \<and> ad_status a \<noteq> RUNNING" if a: "a \<in> set adjs" for a
  proof -
    obtain item where "item \<in> set ev" "a = adjudicationOf item" using a L by auto
    with L show ?thesis by (simp add: settled_def adjudicationOf_def decision_terminal)
  qed
  have node: "\<exists>k v. mapGet (m_states t) k = Some v \<and> ns_run_id (content v) = runId \<and> ns_node_id (content v) = ad_nodeId a \<and>
       ns_status (content v) = ad_status a \<and> ns_active_attempt_id (content v) = None" if a: "a \<in> set adjs" for a
  proof -
    obtain item where item: "item \<in> set ev" "a = adjudicationOf item" using a L by auto
    then have "fst item \<in> set cs" using fst_ev by force
    then have "fst (fst item) \<in> set ?S" using cand by blast
    then have "ns_run_id (content (fst (fst item))) = runId" by simp
    moreover have "settled t item" using L item(1) by blast
    ultimately show ?thesis unfolding item(2) by (auto simp: settled_def adjudicationOf_def)
  qed
  have left: "\<exists>k' a. mapGet (m_attempts t) k' = Some a \<and> na_node_attempt_id (content a) = i \<and>
          (na_status (content a) = RUNNING \<longrightarrow> na_invocation_id (content a) = invocationId)"
    if v: "mapGet (m_states t) k = Some v" "ns_run_id (content v) = runId" "ns_status (content v) = RUNNING"
      "ns_active_attempt_id (content v) = Some i" for k v i
  proof -
    have "k \<notin> itemKey ` set ev"
    proof
      assume "k \<in> itemKey ` set ev"
      then obtain item where "item \<in> set ev" "k = itemKey item" by blast
      moreover have "settled t item" using L \<open>item \<in> set ev\<close> by blast
      ultimately show False using v(1,3) decision_terminal [of "snd item"] by (auto simp: settled_def)
    qed
    with L v(1) same have old: "mapGet (m_states s) k = Some v" by simp
    then have "v \<in> snd ` set (m_states s)" by (force dest: map_of_SomeD)
    with v(2) have "v \<in> set ?S" by simp
    with cand v(3,4) obtain att where att: "mapGet (attemptsByIdMap ?A) i = Some att"
      and or: "(v, att) \<in> set cs \<or> na_status (content att) \<noteq> RUNNING \<or> na_invocation_id (content att) = invocationId"
      by blast
    have "(v, att) \<notin> set cs"
    proof
      assume "(v, att) \<in> set cs"
      then obtain item where "item \<in> set ev" "fst item = (v, att)" by (auto simp: fst_ev [symmetric])
      moreover have "ns_node_state_key (content v) = k"
        using wf old by (auto simp: mem_wf_def states_wf_def)
      ultimately show False using \<open>k \<notin> itemKey ` set ev\<close> by (force simp: itemKey_def)
    qed
    have att': "att \<in> snd ` set (m_attempts s)" "na_node_attempt_id (content att) = i"
      using map_of_SomeD [OF att [unfolded attemptsByIdMap_def mapGet_mapFromEntries]] by auto
    then obtain k' where k': "mapGet (m_attempts s) k' = Some att"
      using wf by (force simp: mem_wf_def keys_distinct_def)
    have "mapEvolves attempt_may_become (m_attempts s) (m_attempts t)"
      using mem_evolves_trans [OF ev' conjunct1 [OF conjunct2 [OF L]]] by (simp add: mem_evolves_def)
    from mapEvolvesD [OF this k'] obtain a where a: "mapGet (m_attempts t) k' = Some a"
      "a = att \<or> attempt_may_become (content att) (content a)" by blast
    from a(2) have "na_node_attempt_id (content a) = i"
      "na_status (content a) = RUNNING \<longrightarrow> na_status (content att) = RUNNING \<and>
        na_invocation_id (content a) = na_invocation_id (content att)"
      using att'(2) by (auto simp: attempt_may_become_def)
    with a(1) or \<open>(v, att) \<notin> set cs\<close> show ?thesis by blast
  qed
  show ?thesis using conjunct1 [OF L] mem_evolves_trans [OF ev' conjunct1 [OF conjunct2 [OF L]]] reported node left by blast
qed

theorem no_orphan_left_witness:
  "\<exists>adjs t. adjudicateOrphanRunningAttempts (mem_repository padDigest (\<lambda>_ _. True)) (retP ''t9'') (\<lambda>_. retP None)
      (retP True) ''run1'' ''inv1'' None (oneNodeStore RUNNING (Some ''at1'') RUNNING) = (Inr adjs, t) \<and>
    mem_wf padDigest t \<and> length adjs = 1"
proof -
  let ?s = "oneNodeStore RUNNING (Some ''at1'') RUNNING"
  have "\<exists>adjs t. adjudicateOrphanRunningAttempts (mem_repository padDigest (\<lambda>_ _. True)) (retP ''t9'') (\<lambda>_. retP None)
      (retP True) ''run1'' ''inv1'' None ?s = (Inr adjs, t) \<and> length adjs = 1"
    using attemptKey_nonempty [OF sampleAttemptKey]
    by (simp add: adjudicateOrphanRunningAttempts_def collectEvidence_def collectOne_def adjudicateOne_def
        bindP_def im_getNodeStates_def im_getAttempts_def sortBy_def attemptsByIdMap_def mapFromEntries_def
        requireLease_def whenP_def orphanFinishedAt_def im_finalizeAttempt_def attemptById_def storeAttempt_def
        required_def assertRevision_def im_upsertNodeState_def storeState_def upsertRejection_def
        durableResolution_def orphanTerminalState_def orphanFinalization_def finalizedAttempt_def
        decideOrphanResult_def unknownDecision_def isAllowedNodeStateTransition_def Let_def
        oneNodeStore_def sampleStore_def emptyMem_def sampleState_def sampleAttempt_def newAttempt_def)
  then obtain adjs t where run: "adjudicateOrphanRunningAttempts (mem_repository padDigest (\<lambda>_ _. True)) (retP ''t9'')
      (\<lambda>_. retP None) (retP True) ''run1'' ''inv1'' None ?s = (Inr adjs, t)" and len: "length adjs = 1" by blast
  have "mem_wf padDigest ?s" by (rule oneNodeStore_wf) (simp add: is_node_state_status_def)
  from no_orphan_left [OF run this] run len show ?thesis by auto
qed

end
