(* ===== verification/Reconciliation.thy ===== *)
theory Reconciliation
  imports Orphan
begin

text \<open>
  The gate before a run is scheduled: \<open>src/orchestration/reconciliation.ts\<close>.
  \<^item> \<open>detectReconciliation\<close> inspects a run without writing; its findings are computed by
    the pure \<open>detectFindings\<close> from what the repository returned.
  \<^item> \<open>reconcileRun\<close> inspects and repairs: \<open>reconcileStateStep\<close> for the body of the loop over node
    states, \<open>reconcileResolutionStep\<close> for the loop over resolved attempts, \<open>reconcileAggregate\<close>
    for the run itself. Its local variables (\<open>states\<close>, \<open>unsafeNodes\<close>, \<open>inconsistencies\<close>,
    \<open>repaired\<close>) are the record \<open>rc\<close> the loops thread.
  The human-readable \<open>detail\<close> and \<open>basis\<close> texts are not modelled.
\<close>

section \<open>Findings\<close>

datatype reconciliation_code =
    ACTIVE_ATTEMPT_ID_MISSING | ACTIVE_ATTEMPT_NOT_FOUND | ATTEMPT_NODE_STATE_MISSING
  | STATE_TERMINAL_ATTEMPT_RUNNING | STATE_ATTEMPT_STATUS_MISMATCH | MULTIPLE_RUNNING_ATTEMPTS
  | REVISION_SERIES_INVERTED | REVISION_SERIES_UNDETERMINED | RESOLUTION_ATTEMPT_NOT_UNKNOWN
  | RESOLUTION_NOT_CURRENT_ATTEMPT | RESOLUTION_STATE_NOT_UNKNOWN | CONFLICTING_ATTEMPT_RESOLUTIONS
  | TERMINAL_ATTEMPT_PENDING_APPLY | ATTEMPT_RESOLUTION_PENDING_APPLY | RUN_AGGREGATE_MISMATCH

record finding =
  fi_code :: reconciliation_code
  fi_nodeId :: "string option"
  fi_attemptIds :: "string list option"

definition finding :: "reconciliation_code \<Rightarrow> string \<Rightarrow> string list option \<Rightarrow> finding" where
  "finding code nodeId attemptIds =
     \<lparr> fi_code = code, fi_nodeId = Some nodeId, fi_attemptIds = attemptIds \<rparr>"

definition isTerminalAttempt :: "status \<Rightarrow> bool" where
  "isTerminalAttempt st \<longleftrightarrow> st \<in> {SUCCESS, FAILED, CANCELLED, UNKNOWN}"

definition isTerminalState :: "status \<Rightarrow> bool" where
  "isTerminalState st \<longleftrightarrow> st \<in> {SUCCESS, FAILED, BLOCKED, SKIPPED, CANCELLED, UNKNOWN}"

definition pushTo :: "('a \<Rightarrow> string) \<Rightarrow> 'a list jsmap \<Rightarrow> 'a \<Rightarrow> 'a list jsmap" where
  "pushTo key m x = mapSet (key x) (orElse (mapGet m (key x)) [] @ [x]) m"

definition groupByNode :: "node_attempt versioned list \<Rightarrow> node_attempt versioned list jsmap" where
  "groupByNode attempts = foldl (pushTo (\<lambda>a. na_node_id (content a))) [] attempts"

definition resolutionGroups :: "attempt_resolution versioned list \<Rightarrow> attempt_resolution versioned list jsmap" where
  "resolutionGroups resolutions = foldl (pushTo (\<lambda>r. ar_attempt_id (content r))) [] resolutions"

definition statesByNode :: "node_state versioned list \<Rightarrow> node_state versioned jsmap" where
  "statesByNode states = mapFromEntries (map (\<lambda>st. (ns_node_id (content st), st)) states)"

text \<open>The findings so far and the unsafe nodes.\<close>

type_synonym note_log = "finding list \<times> string list"

definition noteUnsafe :: "reconciliation_code \<Rightarrow> string \<Rightarrow> string list option \<Rightarrow> note_log \<Rightarrow> note_log" where
  "noteUnsafe code nodeId attemptIds n = (fst n @ [finding code nodeId attemptIds], nodeId # snd n)"

definition attemptIdsOf :: "node_attempt versioned list \<Rightarrow> string list" where
  "attemptIdsOf attempts = map (\<lambda>a. na_node_attempt_id (content a)) attempts"

definition noteMissingState ::
  "node_state versioned jsmap \<Rightarrow> note_log \<Rightarrow> string \<times> node_attempt versioned list \<Rightarrow> note_log" where
  "noteMissingState stateByNode n entry = (case entry of (nodeId, nodeAttempts) \<Rightarrow>
     if \<not> mapHas stateByNode nodeId
     then noteUnsafe ATTEMPT_NODE_STATE_MISSING nodeId (Some (attemptIdsOf nodeAttempts)) n else n)"

text \<open>The check of one attempt's \<open>state_revision_before\<close>, as detection and as repair write it.\<close>

definition detectRevision :: "node_state versioned \<Rightarrow> note_log \<Rightarrow> node_attempt versioned \<Rightarrow> note_log" where
  "detectRevision state n attempt =
     (let nodeId = ns_node_id (content state); ids = Some [na_node_attempt_id (content attempt)] in
      case na_state_revision_before (content attempt) of
        None \<Rightarrow> noteUnsafe REVISION_SERIES_UNDETERMINED nodeId ids n
      | Some before \<Rightarrow>
          if before \<ge> ns_revision (content state)
          then noteUnsafe (if before > ns_revision (content state) then REVISION_SERIES_INVERTED
                           else REVISION_SERIES_UNDETERMINED) nodeId ids n
          else n)"

definition reconcileRevision :: "node_state versioned \<Rightarrow> note_log \<Rightarrow> node_attempt versioned \<Rightarrow> note_log" where
  "reconcileRevision state n attempt =
     (let nodeId = ns_node_id (content state); ids = Some [na_node_attempt_id (content attempt)] in
      case na_state_revision_before (content attempt) of
        None \<Rightarrow> noteUnsafe REVISION_SERIES_UNDETERMINED nodeId ids n
      | Some before \<Rightarrow>
          if before > ns_revision (content state) then noteUnsafe REVISION_SERIES_INVERTED nodeId ids n
          else if before = ns_revision (content state) then noteUnsafe REVISION_SERIES_UNDETERMINED nodeId ids n
          else n)"

text \<open>
  What both loops do for a state before they look at its active attempt: the checks, and the
  active attempt when there is exactly one and the node is still safe.
\<close>

definition activeAttempt ::
  "(node_state versioned \<Rightarrow> note_log \<Rightarrow> node_attempt versioned \<Rightarrow> note_log) \<Rightarrow> node_state versioned \<Rightarrow>
   node_attempt versioned list \<Rightarrow> note_log \<Rightarrow> note_log \<times> node_attempt versioned option" where
  "activeAttempt revisionCheck state nodeAttempts n =
     (let nodeId = ns_node_id (content state);
          running = filter (\<lambda>a. na_status (content a) = RUNNING) nodeAttempts;
          n1 = (if length running > 1
                then noteUnsafe MULTIPLE_RUNNING_ATTEMPTS nodeId (Some (attemptIdsOf running)) n else n);
          n2 = (if ns_revision (content state) \<noteq> revision state
                then noteUnsafe REVISION_SERIES_INVERTED nodeId None n1 else n1);
          n3 = foldl (revisionCheck state) n2 nodeAttempts
      in if ns_status (content state) = RUNNING \<and> ns_active_attempt_id (content state) = None
         then (noteUnsafe ACTIVE_ATTEMPT_ID_MISSING nodeId None n3, None)
         else case ns_active_attempt_id (content state) of
           None \<Rightarrow> (n3, None)
         | Some activeId \<Rightarrow>
             (case filter (\<lambda>a. na_node_attempt_id (content a) = activeId) nodeAttempts of
                [attempt] \<Rightarrow> (n3, if nodeId \<in> set (snd n3) then None else Some attempt)
              | _ \<Rightarrow> (noteUnsafe ACTIVE_ATTEMPT_NOT_FOUND nodeId (Some [activeId]) n3, None)))"

section \<open>Detection\<close>

definition detectActive :: "node_state versioned \<Rightarrow> node_attempt versioned \<Rightarrow> finding list" where
  "detectActive state attempt =
     (let nodeId = ns_node_id (content state); ids = Some [na_node_attempt_id (content attempt)];
          st = ns_status (content state); at' = na_status (content attempt)
      in if isTerminalAttempt at' \<and> (at' = st \<or> st = RUNNING)
         then [finding TERMINAL_ATTEMPT_PENDING_APPLY nodeId ids]
         else if isTerminalState st \<and> at' = RUNNING
         then [finding STATE_TERMINAL_ATTEMPT_RUNNING nodeId ids]
         else if at' \<noteq> st then [finding STATE_ATTEMPT_STATUS_MISMATCH nodeId ids]
         else [])"

definition detectState :: "node_attempt versioned list jsmap \<Rightarrow> note_log \<Rightarrow> node_state versioned \<Rightarrow> note_log" where
  "detectState attemptsByNode n state =
     (case activeAttempt detectRevision state (orElse (mapGet attemptsByNode (ns_node_id (content state))) []) n of
        (n', None) \<Rightarrow> n'
      | (n', Some attempt) \<Rightarrow> (fst n' @ detectActive state attempt, snd n'))"

definition resolutionResolvable :: "node_state \<Rightarrow> node_attempt \<Rightarrow> bool" where
  "resolutionResolvable state attempt \<longleftrightarrow>
     ns_status state = UNKNOWN \<or>
     ns_status state = FAILED \<and> na_status attempt = FAILED \<and> \<not> ns_idempotent state"

text \<open>
  The guards both loops over the resolution groups share: \<open>Inl\<close> of a finding, or of nothing when
  the group is skipped, or \<open>Inr\<close> of what remains to be applied.
\<close>

definition resolutionGuard ::
  "node_attempt versioned jsmap \<Rightarrow> node_state versioned jsmap \<Rightarrow> string list \<Rightarrow>
   string \<times> attempt_resolution versioned list \<Rightarrow>
   finding list + (node_state versioned \<times> node_attempt versioned \<times> attempt_resolution versioned)" where
  "resolutionGuard attemptMap stateByNode unsafe entry = (case entry of (attemptId, grouped) \<Rightarrow>
     case mapGet attemptMap attemptId of
       None \<Rightarrow> Inl []
     | Some attempt \<Rightarrow>
         let nodeId = na_node_id (content attempt) in
         if length (remdups (map (\<lambda>r. ar_resolved_outcome (content r)) grouped)) > 1
         then Inl [finding CONFLICTING_ATTEMPT_RESOLUTIONS nodeId (Some [attemptId])]
         else if na_status (content attempt) \<noteq> UNKNOWN \<and> na_status (content attempt) \<noteq> FAILED
         then Inl [finding RESOLUTION_ATTEMPT_NOT_UNKNOWN nodeId (Some [attemptId])]
         else (case mapGet stateByNode nodeId of
           None \<Rightarrow> Inl []
         | Some state \<Rightarrow>
             if na_attempt_no (content attempt) \<noteq> ns_latest_attempt_no (content state) \<or> nodeId \<in> set unsafe
             then Inl [finding RESOLUTION_NOT_CURRENT_ATTEMPT nodeId (Some [attemptId])]
             else (case grouped of
               [] \<Rightarrow> Inl []
             | first # _ \<Rightarrow>
                 if ns_status (content state) = ar_resolved_outcome (content first) then Inl []
                 else Inr (state, attempt, first))))"

definition detectResolution ::
  "node_attempt versioned jsmap \<Rightarrow> node_state versioned jsmap \<Rightarrow> string list \<Rightarrow>
   string \<times> attempt_resolution versioned list \<Rightarrow> finding list" where
  "detectResolution attemptMap stateByNode unsafe entry =
     (case resolutionGuard attemptMap stateByNode unsafe entry of
        Inl fs \<Rightarrow> fs
      | Inr (state, attempt, _) \<Rightarrow>
          [finding (if resolutionResolvable (content state) (content attempt)
                    then ATTEMPT_RESOLUTION_PENDING_APPLY else RESOLUTION_STATE_NOT_UNKNOWN)
             (na_node_id (content attempt)) (Some [fst entry])])"

definition detectFindings ::
  "network_run versioned \<Rightarrow> node_state versioned list \<Rightarrow> node_attempt versioned list \<Rightarrow>
   attempt_resolution versioned list \<Rightarrow> finding list" where
  "detectFindings run states attempts resolutions =
     (let attemptsByNode = groupByNode attempts; stateByNode = statesByNode states;
          n1 = foldl (noteMissingState stateByNode) ([], []) attemptsByNode;
          n2 = foldl (detectState attemptsByNode) n1 states;
          fs = concat (map (detectResolution (attemptsByIdMap attempts) stateByNode (snd n2))
                 (resolutionGroups resolutions));
          aggregate = computeRunAggregateStatus (map (\<lambda>st. ns_status (content st)) states)
                        (nr_started_at (content run))
      in fst n2 @ fs @
         (if aggregate \<noteq> nr_status (content run)
          then [\<lparr> fi_code = RUN_AGGREGATE_MISMATCH, fi_nodeId = None, fi_attemptIds = None \<rparr>] else []))"

definition detectReconciliation :: "'s repository \<Rightarrow> string \<Rightarrow> ('s, finding list) prog" where
  "detectReconciliation R runId =
     bindP (getRun R runId) (\<lambda>run.
     bindP (getNodeStates R runId) (\<lambda>states.
     bindP (getAttempts R runId) (\<lambda>attempts.
     bindP (getResolutions R runId) (\<lambda>resolutions.
     retP (detectFindings run states attempts resolutions)))))"

section \<open>Repair\<close>

record repair =
  rr_type :: repair_type
  rr_targetType :: repair_target
  rr_targetId :: string
  rr_before :: "(string \<times> json) list"
  rr_after :: "(string \<times> json) list"
  rr_auditEventId :: string

record rc =
  rc_states :: "node_state versioned jsmap"
  rc_notes :: note_log
  rc_repaired :: "repair list"

definition recordRepair ::
  "'s repository \<Rightarrow> ('s, string) prog \<Rightarrow> string \<Rightarrow> repair_type \<Rightarrow> repair_target \<Rightarrow> string \<Rightarrow>
   (string \<times> json) list \<Rightarrow> (string \<times> json) list \<Rightarrow> string \<Rightarrow> repair list \<Rightarrow> ('s, repair list) prog" where
  "recordRepair R uuid runId type targetType targetId before after occurredAt repaired =
     bindP uuid (\<lambda>auditEventId.
     bindP (appendOperationAudit R (ReconciliationOperationAudit auditEventId \<lparr>
       ra_repair_type = type, ra_run_id = runId, ra_target_type = targetType, ra_target_id = targetId,
       ra_before = before, ra_after = after, ra_occurred_at = occurredAt \<rparr>)) (\<lambda>_.
     retP (repaired @ [\<lparr> rr_type = type, rr_targetType = targetType, rr_targetId = targetId,
       rr_before = before, rr_after = after, rr_auditEventId = auditEventId \<rparr>])))"

definition repairState ::
  "'s repository \<Rightarrow> ('s, string) prog \<Rightarrow> node_state versioned \<Rightarrow> status \<Rightarrow> string option \<Rightarrow> string \<Rightarrow>
   resolution_event option \<Rightarrow> ('s, node_state versioned) prog" where
  "repairState R now current status finishedAt reason event =
     bindP now (\<lambda>at'.
     upsertNodeState R \<lparr>
       nw_value = (content current)\<lparr>
         ns_status := status, ns_active_attempt_id := None, ns_status_reason := Some reason,
         ns_finished_at := finishedAt, ns_updated_at := at' \<rparr>,
       nw_expected_revision = Some (revision current), nw_resolution_event = event \<rparr>)"

definition stateSnapshot :: "node_state \<Rightarrow> (string \<times> json) list" where
  "stateSnapshot state =
     [(''status'', JStr (statusText (ns_status state))),
      (''active_attempt_id'', (case ns_active_attempt_id state of None \<Rightarrow> JNull | Some i \<Rightarrow> JStr i)),
      (''revision'', jsonInt (ns_revision state))]"

definition applyTerminalAttempt ::
  "'s repository \<Rightarrow> ('s, string) prog \<Rightarrow> ('s, string) prog \<Rightarrow> string \<Rightarrow> node_state versioned \<Rightarrow>
   node_attempt versioned \<Rightarrow> string \<Rightarrow> rc \<Rightarrow> ('s, rc) prog" where
  "applyTerminalAttempt R now uuid runId state attempt reason c =
     bindP (repairState R now state (na_status (content attempt)) (na_finished_at (content attempt)) reason None)
       (\<lambda>updated.
     bindP (recordRepair R uuid runId TERMINAL_ATTEMPT_APPLIED NODE_STATE (ns_node_state_id (content updated))
              (stateSnapshot (content state))
              [(''status'', JStr (statusText (ns_status (content updated)))), (''active_attempt_id'', JNull),
               (''revision'', jsonInt (ns_revision (content updated)))]
              (ns_updated_at (content updated)) (rc_repaired c)) (\<lambda>repaired.
     retP (c\<lparr> rc_states := mapSet (ns_node_id (content updated)) updated (rc_states c), rc_repaired := repaired \<rparr>)))"

definition reconcileActive ::
  "'s repository \<Rightarrow> ('s, string) prog \<Rightarrow> ('s, string) prog \<Rightarrow> string \<Rightarrow> node_state versioned \<Rightarrow>
   node_attempt versioned \<Rightarrow> rc \<Rightarrow> ('s, rc) prog" where
  "reconcileActive R now uuid runId state attempt c =
     (let nodeId = ns_node_id (content state); ids = Some [na_node_attempt_id (content attempt)];
          st = ns_status (content state); at' = na_status (content attempt)
      in if at' = st then
           (if isTerminalAttempt at'
            then applyTerminalAttempt R now uuid runId state attempt ''reconciled terminal active attempt'' c
            else retP c)
         else if st = RUNNING \<and> isTerminalAttempt at'
         then applyTerminalAttempt R now uuid runId state attempt ''reconciled from terminal active attempt'' c
         else if isTerminalState st \<and> at' = RUNNING
         then retP (c\<lparr> rc_notes := (fst (rc_notes c) @ [finding STATE_TERMINAL_ATTEMPT_RUNNING nodeId ids], snd (rc_notes c)) \<rparr>)
         else retP (c\<lparr> rc_notes := (fst (rc_notes c) @ [finding STATE_ATTEMPT_STATUS_MISMATCH nodeId ids], snd (rc_notes c)) \<rparr>))"

definition reconcileStateStep ::
  "'s repository \<Rightarrow> ('s, string) prog \<Rightarrow> ('s, string) prog \<Rightarrow> string \<Rightarrow> node_attempt versioned list jsmap \<Rightarrow>
   node_state versioned \<Rightarrow> rc \<Rightarrow> ('s, rc) prog" where
  "reconcileStateStep R now uuid runId attemptsByNode initialState c =
     (let state = orElse (mapGet (rc_states c) (ns_node_id (content initialState))) initialState in
      case activeAttempt reconcileRevision state
             (orElse (mapGet attemptsByNode (ns_node_id (content state))) []) (rc_notes c) of
        (n, None) \<Rightarrow> retP (c\<lparr> rc_notes := n \<rparr>)
      | (n, Some attempt) \<Rightarrow> reconcileActive R now uuid runId state attempt (c\<lparr> rc_notes := n \<rparr>))"

text \<open>\<open>a < b\<close> on strings: by code units.\<close>

fun stringLess :: "string \<Rightarrow> string \<Rightarrow> bool" where
  "stringLess _ [] = False"
| "stringLess [] (c # cs) = True"
| "stringLess (c # cs) (d # ds) =
     ((of_char c :: nat) < of_char d \<or> c = d \<and> stringLess cs ds)"

text \<open>\<open>grouped.reduce\<close>: the resolution with the greatest \<open>resolved_at\<close>, the first among equals.\<close>

definition latestResolution :: "attempt_resolution versioned list \<Rightarrow> attempt_resolution versioned \<Rightarrow> attempt_resolution versioned" where
  "latestResolution rest first = foldl (\<lambda>latest item.
     if stringLess (ar_resolved_at (content latest)) (ar_resolved_at (content item))
     then item else latest) first rest"

definition reconcileResolutionStep ::
  "'s repository \<Rightarrow> ('s, string) prog \<Rightarrow> ('s, string) prog \<Rightarrow> string \<Rightarrow> node_attempt versioned jsmap \<Rightarrow>
   string \<times> attempt_resolution versioned list \<Rightarrow> rc \<Rightarrow> ('s, rc) prog" where
  "reconcileResolutionStep R now uuid runId attemptMap entry c =
     (case resolutionGuard attemptMap (rc_states c) (snd (rc_notes c)) entry of
        Inl fs \<Rightarrow> retP (c\<lparr> rc_notes := (fst (rc_notes c) @ fs, snd (rc_notes c)) \<rparr>)
      | Inr (state, attempt, first) \<Rightarrow>
          if \<not> resolutionResolvable (content state) (content attempt)
          then retP (c\<lparr> rc_notes := (fst (rc_notes c) @
                 [finding RESOLUTION_STATE_NOT_UNKNOWN (ns_node_id (content state)) (Some [fst entry])], snd (rc_notes c)) \<rparr>)
          else
            let outcome = ar_resolved_outcome (content first);
                resolvedAt = ar_resolved_at (content (latestResolution (tl (snd entry)) first)) in
            bindP (repairState R now state outcome (Some resolvedAt) ''reconciled from Attempt Resolution''
                     (Some \<lparr> re_attempt_id = fst entry, re_resolved_outcome = outcome, re_resolved_at = resolvedAt \<rparr>))
              (\<lambda>updated.
            bindP (recordRepair R uuid runId ATTEMPT_RESOLUTION_APPLIED NODE_STATE (ns_node_state_id (content updated))
                     [(''status'', JStr (statusText (ns_status (content state)))),
                      (''revision'', jsonInt (ns_revision (content state)))]
                     [(''status'', JStr (statusText (ns_status (content updated)))),
                      (''revision'', jsonInt (ns_revision (content updated)))]
                     (ns_updated_at (content updated)) (rc_repaired c)) (\<lambda>repaired.
            retP (c\<lparr> rc_states := mapSet (ns_node_id (content updated)) updated (rc_states c), rc_repaired := repaired \<rparr>))))"

definition reconcileAggregate ::
  "'s repository \<Rightarrow> ('s, string) prog \<Rightarrow> ('s, string) prog \<Rightarrow> string \<Rightarrow> network_run versioned \<Rightarrow> rc \<Rightarrow>
   ('s, repair list \<times> bool) prog" where
  "reconcileAggregate R now uuid runId run c =
     (let aggregate = computeRunAggregateStatus (map (\<lambda>e. ns_status (content (snd e))) (rc_states c))
                        (nr_started_at (content run)) in
      if aggregate \<noteq> nr_status (content run)
      then bindP now (\<lambda>at'.
           bindP (updateRunAggregate R runId (revision run) \<lparr>
             ru_status = aggregate, ru_started_at = nr_started_at (content run),
             ru_finished_at = nr_finished_at (content run), ru_updated_at = at' \<rparr>) (\<lambda>updated.
           bindP (recordRepair R uuid runId RUN_AGGREGATE_RECOMPUTED NETWORK_RUN runId
                    [(''status'', JStr (statusText (nr_status (content run)))), (''revision'', jsonInt (revision run))]
                    [(''status'', JStr (statusText (nr_status (content updated)))), (''revision'', jsonInt (revision updated))]
                    at' (rc_repaired c)) (\<lambda>repaired.
           retP (repaired, True))))
      else retP (rc_repaired c, False))"

text \<open>The result: repairs, inconsistencies (none when it returns) and whether the aggregate changed.\<close>

fun reconciliationCodeText :: "reconciliation_code \<Rightarrow> string" where
  "reconciliationCodeText ACTIVE_ATTEMPT_ID_MISSING = ''ACTIVE_ATTEMPT_ID_MISSING''"
| "reconciliationCodeText ACTIVE_ATTEMPT_NOT_FOUND = ''ACTIVE_ATTEMPT_NOT_FOUND''"
| "reconciliationCodeText ATTEMPT_NODE_STATE_MISSING = ''ATTEMPT_NODE_STATE_MISSING''"
| "reconciliationCodeText STATE_TERMINAL_ATTEMPT_RUNNING = ''STATE_TERMINAL_ATTEMPT_RUNNING''"
| "reconciliationCodeText STATE_ATTEMPT_STATUS_MISMATCH = ''STATE_ATTEMPT_STATUS_MISMATCH''"
| "reconciliationCodeText MULTIPLE_RUNNING_ATTEMPTS = ''MULTIPLE_RUNNING_ATTEMPTS''"
| "reconciliationCodeText REVISION_SERIES_INVERTED = ''REVISION_SERIES_INVERTED''"
| "reconciliationCodeText REVISION_SERIES_UNDETERMINED = ''REVISION_SERIES_UNDETERMINED''"
| "reconciliationCodeText RESOLUTION_ATTEMPT_NOT_UNKNOWN = ''RESOLUTION_ATTEMPT_NOT_UNKNOWN''"
| "reconciliationCodeText RESOLUTION_NOT_CURRENT_ATTEMPT = ''RESOLUTION_NOT_CURRENT_ATTEMPT''"
| "reconciliationCodeText RESOLUTION_STATE_NOT_UNKNOWN = ''RESOLUTION_STATE_NOT_UNKNOWN''"
| "reconciliationCodeText CONFLICTING_ATTEMPT_RESOLUTIONS = ''CONFLICTING_ATTEMPT_RESOLUTIONS''"
| "reconciliationCodeText TERMINAL_ATTEMPT_PENDING_APPLY = ''TERMINAL_ATTEMPT_PENDING_APPLY''"
| "reconciliationCodeText ATTEMPT_RESOLUTION_PENDING_APPLY = ''ATTEMPT_RESOLUTION_PENDING_APPLY''"
| "reconciliationCodeText RUN_AGGREGATE_MISMATCH = ''RUN_AGGREGATE_MISMATCH''"

record reconciliation_result =
  rs_repaired :: "repair list"
  rs_aggregateUpdated :: bool

definition reconcileRun ::
  "'s repository \<Rightarrow> ('s, string) prog \<Rightarrow> ('s, string) prog \<Rightarrow> string \<Rightarrow> ('s, reconciliation_result) prog" where
  "reconcileRun R now uuid runId =
     bindP (getRun R runId) (\<lambda>run.
     bindP (getNodeStates R runId) (\<lambda>initialStates.
     bindP (getAttempts R runId) (\<lambda>attempts.
     bindP (getResolutions R runId) (\<lambda>resolutions.
     let attemptsByNode = groupByNode attempts; states = statesByNode initialStates;
         n = foldl (noteMissingState states) ([], []) attemptsByNode;
         c = \<lparr> rc_states = states, rc_notes = n, rc_repaired = [] \<rparr>
     in bindP (foldP (reconcileStateStep R now uuid runId attemptsByNode) initialStates c) (\<lambda>c1.
        bindP (foldP (reconcileResolutionStep R now uuid runId (attemptsByIdMap attempts))
                 (resolutionGroups resolutions) c1) (\<lambda>c2.
        bindP (reconcileAggregate R now uuid runId run c2) (\<lambda>(repaired, aggregateUpdated).
        if fst (rc_notes c2) \<noteq> []
        then throwP (ReconciliationRequiredError
               (map (\<lambda>f. (reconciliationCodeText (fi_code f), orElse (fi_nodeId f) [])) (fst (rc_notes c2))))
        else retP \<lparr> rs_repaired = repaired, rs_aggregateUpdated = aggregateUpdated \<rparr>)))))))"

section \<open>Lemmas\<close>

context repository_client
begin

lemma recordRepair_keeps [guarantees_intro]:
  "guarantees T (recordRepair R uuid runId ty tt ti b a oc rs)"
  unfolding recordRepair_def by (intro guarantees_intro)

lemma repairState_keeps [guarantees_intro]: "guarantees T (repairState R now st s f r e)"
  unfolding repairState_def by (intro guarantees_intro)

lemma applyTerminalAttempt_keeps [guarantees_intro]:
  "guarantees T (applyTerminalAttempt R now uuid runId state attempt reason c)"
  unfolding applyTerminalAttempt_def by (intro guarantees_intro)

lemma reconcileStateStep_keeps [guarantees_intro]:
  "guarantees T (reconcileStateStep R now uuid runId m st c)"
  unfolding reconcileStateStep_def reconcileActive_def Let_def by (intro guarantees_intro)

lemma reconcileResolutionStep_keeps [guarantees_intro]:
  "guarantees T (reconcileResolutionStep R now uuid runId m e c)"
  unfolding reconcileResolutionStep_def Let_def by (intro guarantees_intro)

lemma reconcileAggregate_keeps [guarantees_intro]:
  "guarantees T (reconcileAggregate R now uuid runId run c)"
  unfolding reconcileAggregate_def Let_def by (intro guarantees_intro)

lemma reconcileRun_keeps [guarantees_intro]: "guarantees T (reconcileRun R now uuid runId)"
  unfolding reconcileRun_def Let_def by (intro guarantees_intro)

lemma detectReconciliation_keeps [guarantees_intro]: "guarantees T (detectReconciliation R runId)"
  unfolding detectReconciliation_def by (intro guarantees_intro)

end

lemma revision_checks_agree: "reconcileRevision = detectRevision"
  by (intro ext) (auto simp: reconcileRevision_def detectRevision_def Let_def split: option.split)

end
