(* ===== verification/ReconciliationProps.thy ===== *)
theory ReconciliationProps
  imports Reconciliation
begin

text \<open>
  What reconciliation guarantees over the in-memory store: it does nothing to a run on which
  detection finds nothing, and detection finds nothing on a run it has reconciled.
\<close>

section \<open>Quiet checks\<close>

text \<open>A check that only appends findings, and leaves everything as it is when it appends none.\<close>

definition noting :: "(note_log \<Rightarrow> 'x \<Rightarrow> note_log) \<Rightarrow> bool" where
  "noting f \<longleftrightarrow> (\<forall>n x. (\<exists>fs. fst (f n x) = fst n @ fs) \<and> (fst (f n x) = fst n \<longrightarrow> f n x = n))"

lemma noting_foldl:
  assumes "noting f"
  shows "(\<exists>fs. fst (foldl f n xs) = fst n @ fs) \<and>
    (fst (foldl f n xs) = fst n \<longrightarrow> foldl f n xs = n \<and> (\<forall>x \<in> set xs. f n x = n))"
proof (induction xs arbitrary: n)
  case Nil
  then show ?case by simp
next
  case (Cons x xs)
  obtain fs where fs: "fst (f n x) = fst n @ fs" using assms unfolding noting_def by blast
  obtain gs where gs: "fst (foldl f (f n x) xs) = fst (f n x) @ gs" using Cons by blast
  show ?case
  proof (intro conjI impI)
    show "\<exists>fs. fst (foldl f n (x # xs)) = fst n @ fs" using fs gs by simp
    assume "fst (foldl f n (x # xs)) = fst n"
    with fs gs have "fs = []" "gs = []" by simp_all
    then have "f n x = n" using fs assms unfolding noting_def by (metis append_Nil2)
    moreover have "foldl f (f n x) xs = f n x \<and> (\<forall>y \<in> set xs. f (f n x) y = f n x)"
      using Cons [of "f n x"] gs \<open>gs = []\<close> by simp
    ultimately show "foldl f n (x # xs) = n" "\<forall>y \<in> set (x # xs). f n y = n" by simp_all
  qed
qed

lemma quiet_foldl:
  assumes "noting f"
  shows "fst (foldl f ([], u) xs) = [] \<longleftrightarrow> (\<forall>x \<in> set xs. f ([], u) x = ([], u))"
proof
  assume "fst (foldl f ([], u) xs) = []"
  with noting_foldl [OF assms, of "([], u)" xs] show "\<forall>x \<in> set xs. f ([], u) x = ([], u)" by simp
next
  assume *: "\<forall>x \<in> set xs. f ([], u) x = ([], u)"
  then have "foldl f ([], u) xs = ([], u)" by (induction xs) auto
  then show "fst (foldl f ([], u) xs) = []" by simp
qed

lemma noteUnsafe_fst [simp]: "fst (noteUnsafe c i a n) = fst n @ [finding c i a]"
  by (simp add: noteUnsafe_def)

lemma noting_missing: "noting (noteMissingState m)"
  by (auto simp: noting_def noteMissingState_def)

lemma noting_revision: "noting (detectRevision st)"
  by (auto simp: noting_def detectRevision_def Let_def split: option.split)

lemma activeAttempt_notes:
  "(\<exists>fs. fst (fst (activeAttempt detectRevision st atts n)) = fst n @ fs) \<and>
   (fst (fst (activeAttempt detectRevision st atts n)) = fst n \<longrightarrow> fst (activeAttempt detectRevision st atts n) = n)"
proof -
  define n2 where "n2 = (let n1 = (if length (filter (\<lambda>a. na_status (content a) = RUNNING) atts) > 1
      then noteUnsafe MULTIPLE_RUNNING_ATTEMPTS (ns_node_id (content st))
        (Some (attemptIdsOf (filter (\<lambda>a. na_status (content a) = RUNNING) atts))) n else n)
    in if ns_revision (content st) \<noteq> revision st
       then noteUnsafe REVISION_SERIES_INVERTED (ns_node_id (content st)) None n1 else n1)"
  have n2: "(\<exists>fs. fst n2 = fst n @ fs) \<and> (fst n2 = fst n \<longrightarrow> n2 = n)"
    by (auto simp: n2_def Let_def)
  note n3 = noting_foldl [OF noting_revision [of st], of n2 atts]
  have "fst (activeAttempt detectRevision st atts n) = foldl (detectRevision st) n2 atts \<or>
    (\<exists>c i a. fst (activeAttempt detectRevision st atts n) = noteUnsafe c i a (foldl (detectRevision st) n2 atts))"
    by (auto simp: activeAttempt_def n2_def Let_def split: option.split list.split)
  with n2 n3 show ?thesis by fastforce
qed

lemma activeAttempt_quiet:
  "fst (fst (activeAttempt detectRevision st atts ([], u))) = [] \<longleftrightarrow>
     length (filter (\<lambda>a. na_status (content a) = RUNNING) atts) \<le> 1 \<and>
     ns_revision (content st) = revision st \<and>
     (\<forall>a \<in> set atts. \<exists>b. na_state_revision_before (content a) = Some b \<and> b < ns_revision (content st)) \<and>
     (ns_status (content st) = RUNNING \<longrightarrow> ns_active_attempt_id (content st) \<noteq> None) \<and>
     (\<forall>i. ns_active_attempt_id (content st) = Some i \<longrightarrow>
        (\<exists>a. filter (\<lambda>a. na_node_attempt_id (content a) = i) atts = [a]))"
proof -
  have rev: "detectRevision st ([], u) a = ([], u) \<longleftrightarrow>
      (\<exists>b. na_state_revision_before (content a) = Some b \<and> b < ns_revision (content st))" for a
    by (auto simp: detectRevision_def noteUnsafe_def Let_def split: option.split)
  have fold: "fst (foldl (detectRevision st) n atts) = [] \<longleftrightarrow> fst n = [] \<and> (\<forall>a \<in> set atts. detectRevision st n a = n)" for n
    using quiet_foldl [OF noting_revision [of st], of "snd n" atts] noting_foldl [OF noting_revision [of st], of n atts]
    by (cases n) auto
  show ?thesis
    by (auto simp: activeAttempt_def Let_def fold rev not_less split: option.split list.split if_splits)
qed

lemma noting_state: "noting (detectState m)"
proof -
  have "(\<exists>fs. fst (detectState m n st) = fst n @ fs) \<and> (fst (detectState m n st) = fst n \<longrightarrow> detectState m n st = n)" for n st
    using activeAttempt_notes [of st "orElse (mapGet m (ns_node_id (content st))) []" n]
    by (auto simp: detectState_def split: prod.splits option.splits)
  then show ?thesis by (simp add: noting_def)
qed

lemma missing_quiet: "noteMissingState m ([], []) e = ([], []) \<longleftrightarrow> mapHas m (fst e)"
  by (cases e) (simp add: noteMissingState_def noteUnsafe_def)

lemma mapHas_key: "mapHas m k \<Longrightarrow> k \<in> fst ` set m"
  by (force simp: mapHas_iff dest: map_of_SomeD)

lemma detectFindings_Nil:
  "detectFindings run states attempts resolutions = [] \<longleftrightarrow>
     (\<forall>e \<in> set (groupByNode attempts). mapHas (statesByNode states) (fst e)) \<and>
     (\<forall>st \<in> set states. detectState (groupByNode attempts) ([], []) st = ([], [])) \<and>
     (\<forall>e \<in> set (resolutionGroups resolutions). detectResolution (attemptsByIdMap attempts) (statesByNode states) [] e = []) \<and>
     computeRunAggregateStatus (map (\<lambda>st. ns_status (content st)) states) (nr_started_at (content run)) = nr_status (content run)"
proof -
  let ?n1 = "foldl (noteMissingState (statesByNode states)) ([], []) (groupByNode attempts)"
  let ?n2 = "foldl (detectState (groupByNode attempts)) ?n1 states"
  note missing = missing_quiet
  have 1: "fst ?n2 = [] \<longrightarrow> ?n1 = ([], [])"
    using noting_foldl [OF noting_missing, of "statesByNode states" "([], [])" "groupByNode attempts"]
      noting_foldl [OF noting_state, of "groupByNode attempts" ?n1 states] by auto
  have 2: "fst ?n1 = [] \<longleftrightarrow> (\<forall>e \<in> set (groupByNode attempts). mapHas (statesByNode states) (fst e))"
    using quiet_foldl [OF noting_missing, of "statesByNode states" "[]" "groupByNode attempts"] missing by simp
  have 3: "fst ?n2 = [] \<longleftrightarrow> fst ?n1 = [] \<and> (\<forall>st \<in> set states. detectState (groupByNode attempts) ([], []) st = ([], []))"
  proof
    assume "fst ?n2 = []"
    with 1 show "fst ?n1 = [] \<and> (\<forall>st \<in> set states. detectState (groupByNode attempts) ([], []) st = ([], []))"
      using quiet_foldl [OF noting_state, of "groupByNode attempts" "[]" states] by simp
  next
    assume *: "fst ?n1 = [] \<and> (\<forall>st \<in> set states. detectState (groupByNode attempts) ([], []) st = ([], []))"
    then have "?n1 = ([], [])"
      using noting_foldl [OF noting_missing, of "statesByNode states" "([], [])" "groupByNode attempts"] by simp
    with * show "fst ?n2 = []"
      using quiet_foldl [OF noting_state, of "groupByNode attempts" "[]" states] by simp
  qed
  have 4: "fst ?n2 = [] \<longrightarrow> snd ?n2 = []"
    using 1 noting_foldl [OF noting_state, of "groupByNode attempts" "([], [])" states] by auto
  show ?thesis
    unfolding detectFindings_def Let_def using 2 3 4 by auto
qed

section \<open>Reads of the store\<close>

definition runStates :: "(string \<Rightarrow> string \<Rightarrow> bool) \<Rightarrow> string \<Rightarrow> 'w mem_scheme \<Rightarrow> node_state versioned list" where
  "runStates collate runId s = sortBy (\<lambda>a b. collate (ns_node_id (content a)) (ns_node_id (content b)))
     (filter (\<lambda>v. ns_run_id (content v) = runId) (map snd (m_states s)))"

definition runAttempts :: "string \<Rightarrow> 'w mem_scheme \<Rightarrow> node_attempt versioned list" where
  "runAttempts runId s = sort_key (\<lambda>v. na_attempt_no (content v))
     (filter (\<lambda>v. na_run_id (content v) = runId) (map snd (m_attempts s)))"

definition runResolutions :: "string \<Rightarrow> 'w mem_scheme \<Rightarrow> attempt_resolution versioned list" where
  "runResolutions runId s = filter (\<lambda>v. ar_attempt_id (content v) \<in>
     set (map (\<lambda>v. na_node_attempt_id (content v)) (runAttempts runId s))) (m_resolutions s)"

lemma reads:
  "im_getNodeStates collate runId s = (Inr (runStates collate runId s), s)"
  "im_getAttempts runId s = (Inr (runAttempts runId s), s)"
  "im_getResolutions runId s = (Inr (runResolutions runId s), s)"
  by (simp_all add: im_getNodeStates_def im_getAttempts_def im_getResolutions_def runStates_def
      runAttempts_def runResolutions_def bindP_def)

lemma detect_run:
  "detectReconciliation (mem_repository digest collate) runId s =
     (case mapGet (m_runs s) runId of
        None \<Rightarrow> (Inl (RepositoryError RECORD_NOT_FOUND None), s)
      | Some run \<Rightarrow> (Inr (detectFindings run (runStates collate runId s) (runAttempts runId s) (runResolutions runId s)), s))"
  by (simp add: detectReconciliation_def im_getRun_def im_run_defs reads split: option.split)

text \<open>Each node of the run has one state: in the database the key of a state is made of both.\<close>

definition nodes_distinct :: "string \<Rightarrow> 'w mem_scheme \<Rightarrow> bool" where
  "nodes_distinct runId s \<longleftrightarrow> (\<forall>k v k' v'. mapGet (m_states s) k = Some v \<and> mapGet (m_states s) k' = Some v' \<and>
     ns_run_id (content v) = runId \<and> ns_run_id (content v') = runId \<and> ns_node_id (content v) = ns_node_id (content v') \<longrightarrow> k = k')"

lemma set_runStates:
  assumes "mem_wf digest s"
  shows "v \<in> set (runStates collate runId s) \<longleftrightarrow>
    mapGet (m_states s) (ns_node_state_key (content v)) = Some v \<and> ns_run_id (content v) = runId"
proof -
  have "v \<in> set (map snd (m_states s)) \<longleftrightarrow> mapGet (m_states s) (ns_node_state_key (content v)) = Some v"
    using listed_state(1) [OF assms] by (force dest: map_of_SomeD)
  then show ?thesis by (auto simp: runStates_def)
qed

lemma distinct_runStates:
  assumes "mem_wf digest s" "nodes_distinct runId s"
  shows "distinct (map (\<lambda>v. ns_node_id (content v)) (runStates collate runId s))"
proof -
  have "distinct (map (\<lambda>v. ns_node_state_key (content v)) (runStates collate runId s))"
    unfolding runStates_def by (rule distinct_listed_keys [OF assms(1)])
  moreover have "ns_node_id (content v) = ns_node_id (content w) \<longrightarrow> ns_node_state_key (content v) = ns_node_state_key (content w)"
    if "v \<in> set (runStates collate runId s)" "w \<in> set (runStates collate runId s)" for v w
    using that assms(2) unfolding set_runStates [OF assms(1)] nodes_distinct_def by blast
  ultimately show ?thesis unfolding distinct_map inj_on_def by blast
qed

lemma statesByNode_distinct:
  "distinct (map (\<lambda>v. ns_node_id (content v)) states) \<Longrightarrow>
   statesByNode states = map (\<lambda>st. (ns_node_id (content st), st)) states"
  by (simp add: statesByNode_def mapFromEntries_distinct comp_def)

lemma statesByNode_get:
  "distinct (map (\<lambda>v. ns_node_id (content v)) states) \<Longrightarrow> st \<in> set states \<Longrightarrow>
   mapGet (statesByNode states) (ns_node_id (content st)) = Some st"
  by (simp add: statesByNode_distinct map_of_eq_Some_iff comp_def image_iff)

section \<open>A clean run is left alone\<close>

lemma foldl_quiet: "(\<And>x. x \<in> set xs \<Longrightarrow> f a x = a) \<Longrightarrow> foldl f a xs = a"
  by (induction xs) auto

lemma foldP_quiet: "(\<And>x. x \<in> set xs \<Longrightarrow> f x c s = (Inr c, s)) \<Longrightarrow> foldP f xs c s = (Inr c, s)"
  by (induction xs) auto

lemma reconcileStateStep_quiet:
  assumes "mapGet (rc_states c) (ns_node_id (content st)) = Some st" "rc_notes c = ([], [])"
    and "detectState m ([], []) st = ([], [])"
  shows "reconcileStateStep R now uuid runId m st c s = (Inr c, s)"
proof -
  have c: "c\<lparr> rc_notes := ([], []) \<rparr> = c" using assms(2) by (cases c) simp
  obtain n a where act: "activeAttempt detectRevision st (orElse (mapGet m (ns_node_id (content st))) []) ([], []) = (n, a)"
    by fastforce
  show ?thesis
  proof (cases a)
    case None
    with act assms c show ?thesis
      by (simp add: reconcileStateStep_def revision_checks_agree detectState_def orElse_def)
  next
    case (Some attempt)
    with act assms(3) have n: "n = ([], [])" and d: "detectActive st attempt = []"
      unfolding detectState_def Some by (cases n, simp)+
    from d have "na_status (content attempt) = ns_status (content st) \<and> \<not> isTerminalAttempt (na_status (content attempt))"
      by (auto simp: detectActive_def Let_def split: if_splits)
    then have "na_status (content attempt) = ns_status (content st)" "\<not> isTerminalAttempt (ns_status (content st))"
      by auto
    then show ?thesis
      using act assms c Some n
      by (simp add: reconcileStateStep_def revision_checks_agree orElse_def reconcileActive_def Let_def)
  qed
qed

lemma reconcileResolutionStep_quiet:
  assumes "detectResolution m (rc_states c) [] e = []" "rc_notes c = ([], [])"
  shows "reconcileResolutionStep R now uuid runId m e c s = (Inr c, s)"
proof -
  have "resolutionGuard m (rc_states c) [] e = Inl []"
    using assms(1) by (auto simp: detectResolution_def split: sum.splits)
  then show ?thesis using assms(2) by (cases c) (simp add: reconcileResolutionStep_def)
qed

section \<open>One repair\<close>

text \<open>What the local variables of \<open>reconcileRun\<close> have to do with the store it started from and the store it is in.\<close>

definition rc_inv :: "(string \<Rightarrow> string) \<Rightarrow> string \<Rightarrow> 'w mem_scheme \<Rightarrow> 'w mem_scheme \<Rightarrow> rc \<Rightarrow> bool" where
  "rc_inv digest runId s0 s c \<longleftrightarrow> mem_wf digest s \<and> m_runs s = m_runs s0 \<and> m_attempts s = m_attempts s0 \<and>
     m_resolutions s = m_resolutions s0 \<and> distinct (map fst (rc_states c)) \<and>
     (\<forall>n v. mapGet (rc_states c) n = Some v \<longrightarrow> ns_node_id (content v) = n \<and> ns_run_id (content v) = runId \<and>
        mapGet (m_states s) (ns_node_state_key (content v)) = Some v) \<and>
     (\<forall>k v. mapGet (m_states s) k = Some v \<and> ns_run_id (content v) = runId \<longrightarrow>
        mapGet (rc_states c) (ns_node_id (content v)) = Some v)"

lemma upsert_existing:
  assumes "im_upsertNodeState w s = (Inr v, t)" "mapGet (m_states s) (ns_node_state_key (nw_value w)) = Some old"
  shows "v = nextStored old ((nw_value w)\<lparr> ns_revision := revision old + 1 \<rparr>)"
    and "t = s\<lparr> m_states := mapSet (ns_node_state_key (nw_value w)) v (m_states s) \<rparr>"
    and "upsertRejection (m_resolutions s) old w = None"
  using assms by (auto simp: im_upsertNodeState_def im_run_defs Let_def split: option.splits)

lemma outside_store_run_more:
  assumes "outside_store m" "m s = (r, s')"
  shows "m_runs s' = m_runs s" "m_resolutions s' = m_resolutions s"
proof -
  have "mem.truncate s' = mem.truncate s" using assms unfolding outside_store_def by (metis snd_conv)
  then show "m_runs s' = m_runs s" "m_resolutions s' = m_resolutions s" by (simp_all add: mem.truncate_def)
qed

lemma recordRepair_run:
  assumes "recordRepair (mem_repository digest collate) uuid runId ty tt ti b a oc rs s = (Inr rs', s')"
    and "outside_store uuid"
  shows "m_runs s' = m_runs s" "m_states s' = m_states s" "m_attempts s' = m_attempts s"
    "m_resolutions s' = m_resolutions s"
proof -
  obtain i s1 v where 1: "uuid s = (Inr i, s1)" and 2: "im_appendOperationAudit (ReconciliationOperationAudit i
      \<lparr> ra_repair_type = ty, ra_run_id = runId, ra_target_type = tt, ra_target_id = ti, ra_before = b,
        ra_after = a, ra_occurred_at = oc \<rparr>) s1 = (Inr v, s')"
    using assms(1) by (auto simp: recordRepair_def elim!: bindP_cases)
  note same = outside_store_run [OF assms(2) 1] outside_store_run_more [OF assms(2) 1]
  show "m_runs s' = m_runs s" "m_states s' = m_states s" "m_attempts s' = m_attempts s"
    "m_resolutions s' = m_resolutions s"
    using 2 same by (auto simp: im_appendOperationAudit_def im_run_defs Let_def split: if_splits)
qed

lemma store_client_history:
  assumes "outside_store now" "outside_store uuid"
  shows "mem_wf digest s \<Longrightarrow> repairState (mem_repository digest collate) now st x f r e s = (y, s') \<Longrightarrow> mem_wf digest s'"
    and "mem_wf digest s \<Longrightarrow> recordRepair (mem_repository digest collate) uuid i ty tt ti b a oc rs s = (z, s') \<Longrightarrow> mem_wf digest s'"
    and "mem_wf digest s \<Longrightarrow> reconcileAggregate (mem_repository digest collate) now uuid i run c s = (q, s') \<Longrightarrow> mem_wf digest s'"
proof -
  note keeps = repository_client.repairState_keeps [OF store_client [OF assms]]
    repository_client.recordRepair_keeps [OF store_client [OF assms]]
    repository_client.reconcileAggregate_keeps [OF store_client [OF assms]]
  show "mem_wf digest s \<Longrightarrow> repairState (mem_repository digest collate) now st x f r e s = (y, s') \<Longrightarrow> mem_wf digest s'"
    using guaranteesD [OF keeps(1)] by (auto simp: mem_history_def)
  show "mem_wf digest s \<Longrightarrow> recordRepair (mem_repository digest collate) uuid i ty tt ti b a oc rs s = (z, s') \<Longrightarrow> mem_wf digest s'"
    using guaranteesD [OF keeps(2)] by (auto simp: mem_history_def)
  show "mem_wf digest s \<Longrightarrow> reconcileAggregate (mem_repository digest collate) now uuid i run c s = (q, s') \<Longrightarrow> mem_wf digest s'"
    using guaranteesD [OF keeps(3)] by (auto simp: mem_history_def)
qed

text \<open>A repair of the state of one node, with its audit, keeps the invariant.\<close>

lemma repair_inv:
  assumes inv: "rc_inv digest runId s0 s c" and st: "mapGet (rc_states c) n = Some st"
    and out: "outside_store now" "outside_store uuid"
    and 1: "repairState (mem_repository digest collate) now st x f r e s = (Inr v, s1)"
    and 2: "recordRepair (mem_repository digest collate) uuid runId ty tt ti b a oc rs s1 = (Inr rs', s2)"
  shows "rc_inv digest runId s0 s2 (c\<lparr> rc_states := mapSet (ns_node_id (content v)) v (rc_states c), rc_repaired := rs' \<rparr>)"
    and "ns_node_id (content v) = n" "ns_status (content v) = x" "ns_active_attempt_id (content v) = None"
    and "ns_revision (content v) = revision v" "revision v = ns_revision (content st) + 1"
    and "ns_latest_attempt_no (content v) = ns_latest_attempt_no (content st)"
    and "isAllowedNodeStateTransition (ns_status (content st)) x \<or> isAllowedResolutionTransition (ns_status (content st)) x"
    and "x = WAITING \<and> ns_status (content st) = FAILED \<longrightarrow> ns_idempotent (content st)"
proof -
  have S: "mapGet (m_states s) (ns_node_state_key (content st)) = Some st" "ns_run_id (content st) = runId"
    "ns_node_id (content st) = n"
    using inv st unfolding rc_inv_def by blast+
  have wf: "mem_wf digest s" using inv by (simp add: rc_inv_def)
  obtain t0 s' where now: "now s = (Inr t0, s')" and up: "im_upsertNodeState
      \<lparr> nw_value = (content st)\<lparr> ns_status := x, ns_active_attempt_id := None, ns_status_reason := Some r,
          ns_finished_at := f, ns_updated_at := t0 \<rparr>,
        nw_expected_revision = Some (revision st), nw_resolution_event = e \<rparr> s' = (Inr v, s1)"
    using 1 by (auto simp: repairState_def elim!: bindP_cases)
  note same = outside_store_run [OF out(1) now] outside_store_run_more [OF out(1) now]
  have S': "mapGet (m_states s') (ns_node_state_key (content st)) = Some st" using S(1) same by simp
  have u: "v = nextStored st ((content st)\<lparr> ns_status := x, ns_active_attempt_id := None, ns_status_reason := Some r,
      ns_finished_at := f, ns_updated_at := t0, ns_revision := revision st + 1 \<rparr>)"
    "s1 = s'\<lparr> m_states := mapSet (ns_node_state_key (content st)) v (m_states s') \<rparr>"
    using upsert_existing(1,2) [OF up] S' by simp_all
  have ok: "upsertRejection (m_resolutions s') st
      \<lparr> nw_value = (content st)\<lparr> ns_status := x, ns_active_attempt_id := None, ns_status_reason := Some r,
          ns_finished_at := f, ns_updated_at := t0 \<rparr>,
        nw_expected_revision = Some (revision st), nw_resolution_event = e \<rparr> = None"
    using upsert_existing(3) [OF up] S' by simp
  have rev: "ns_revision (content st) = revision st"
    using wf S(1) by (auto simp: mem_wf_def states_wf_def)
  show n: "ns_node_id (content v) = n" and "ns_status (content v) = x" "ns_active_attempt_id (content v) = None"
    "ns_revision (content v) = revision v" "revision v = ns_revision (content st) + 1"
    "ns_latest_attempt_no (content v) = ns_latest_attempt_no (content st)"
    using S(3) rev by (simp_all add: u(1))
  show "isAllowedNodeStateTransition (ns_status (content st)) x \<or> isAllowedResolutionTransition (ns_status (content st)) x"
    "x = WAITING \<and> ns_status (content st) = FAILED \<longrightarrow> ns_idempotent (content st)"
    using upsertRejection_None(2,3) [OF ok] by auto
  have s1: "m_states s1 = mapSet (ns_node_state_key (content st)) v (m_states s)" "m_runs s1 = m_runs s"
    "m_attempts s1 = m_attempts s" "m_resolutions s1 = m_resolutions s"
    using u(2) same by simp_all
  note s2 = recordRepair_run [OF 2 out(2)]
  have wf2: "mem_wf digest s2"
    by (rule store_client_history(2) [OF out store_client_history(1) [OF out wf 1] 2])
  have v: "ns_run_id (content v) = runId" "ns_node_state_key (content v) = ns_node_state_key (content st)"
    using S by (simp_all add: u(1))
  have other: "ns_node_state_key (content w) \<noteq> ns_node_state_key (content st)"
    if "mapGet (rc_states c) m = Some w" "m \<noteq> n" for m w
  proof
    assume "ns_node_state_key (content w) = ns_node_state_key (content st)"
    with inv that(1) S have "w = st" "ns_node_id (content w) = m"
      unfolding rc_inv_def by (metis option.inject)+
    with S(3) that(2) show False by simp
  qed
  show "rc_inv digest runId s0 s2 (c\<lparr> rc_states := mapSet (ns_node_id (content v)) v (rc_states c), rc_repaired := rs' \<rparr>)"
    unfolding rc_inv_def
  proof (intro conjI allI impI, goal_cases)
    case (6 m w)
    then show ?case using inv v n S other [of m w] s1 s2 unfolding rc_inv_def by (auto simp: update_conv' split: if_splits)
  next
    case (7 m w)
    then show ?case using inv v n S other [of m w] s1 s2 unfolding rc_inv_def by (auto simp: update_conv' split: if_splits)
  next
    case (8 m w)
    then show ?case using inv v n S other [of m w] s1 s2 unfolding rc_inv_def by (auto simp: update_conv' split: if_splits)
  next
    case (9 k w)
    show ?case
    proof (cases "k = ns_node_state_key (content st)")
      case True
      with 9 s1 s2 show ?thesis by (simp add: update_conv')
    next
      case False
      with 9 s1 s2 have w: "mapGet (m_states s) k = Some w" "ns_run_id (content w) = runId" by (simp_all add: update_conv')
      with inv have rc: "mapGet (rc_states c) (ns_node_id (content w)) = Some w" by (simp add: rc_inv_def)
      have "ns_node_state_key (content w) = k" using wf w(1) by (auto simp: mem_wf_def states_wf_def)
      with False rc st have "ns_node_id (content w) \<noteq> n" by auto
      with rc n show ?thesis by (simp add: update_conv')
    qed
  qed (use inv wf2 s1 s2 in \<open>simp_all add: rc_inv_def distinct_update\<close>)
qed

section \<open>The loop over node states\<close>

abbreviation "attemptsOf m st \<equiv> orElse (mapGet m (ns_node_id (content st))) []"

lemma detectState_quiet:
  "detectState m ([], []) st = ([], []) \<longleftrightarrow>
     fst (fst (activeAttempt detectRevision st (attemptsOf m st) ([], []))) = [] \<and>
     (\<forall>a. snd (activeAttempt detectRevision st (attemptsOf m st) ([], [])) = Some a \<longrightarrow> detectActive st a = [])"
  using activeAttempt_notes [of st "attemptsOf m st" "([], [])"]
  by (auto simp: detectState_def split: prod.split option.split)

lemma repaired_quiet:
  assumes "fst (fst (activeAttempt detectRevision st (attemptsOf m st) ([], []))) = []"
    and "ns_node_id (content v) = ns_node_id (content st)" "ns_revision (content v) = revision v"
    and "revision v = ns_revision (content st) + 1" "ns_active_attempt_id (content v) = None" "ns_status (content v) \<noteq> RUNNING"
  shows "detectState m ([], []) v = ([], [])"
proof -
  have q: "fst (fst (activeAttempt detectRevision v (attemptsOf m v) ([], []))) = []"
    using assms unfolding activeAttempt_quiet by fastforce
  have "snd (activeAttempt detectRevision v (attemptsOf m v) ([], [])) = None"
    using assms(5) by (simp add: activeAttempt_def Let_def)
  with q show ?thesis by (simp add: detectState_quiet)
qed

lemma reconcileStateStep_notes:
  assumes "reconcileStateStep R now uuid runId m st c s = (Inr c', s')"
  shows "\<exists>fs. fst (rc_notes c') = fst (rc_notes c) @ fs"
proof -
  let ?st = "orElse (mapGet (rc_states c) (ns_node_id (content st))) st"
  have app: "applyTerminalAttempt R now uuid runId x a r d s1 = (Inr d', s2) \<Longrightarrow> rc_notes d' = rc_notes d"
    for x a r d d' s1 s2
    by (auto simp: applyTerminalAttempt_def elim!: bindP_cases)
  show ?thesis
    using assms activeAttempt_notes [of ?st "attemptsOf m ?st" "rc_notes c"]
    by (auto simp: reconcileStateStep_def revision_checks_agree reconcileActive_def Let_def
        dest!: app split: prod.splits option.splits if_splits)
qed

lemma foldP_notes:
  assumes "\<And>x c s c' s'. f x c s = (Inr c', s') \<Longrightarrow> \<exists>fs. fst (rc_notes c') = fst (rc_notes c) @ fs"
  shows "foldP f xs c s = (Inr c', s') \<Longrightarrow> \<exists>fs. fst (rc_notes c') = fst (rc_notes c) @ fs"
proof (induction xs arbitrary: c s)
  case Nil
  then show ?case by simp
next
  case (Cons x xs)
  then obtain c1 s1 where "f x c s = (Inr c1, s1)" "foldP f xs c1 s1 = (Inr c', s')"
    by (auto elim!: bindP_cases)
  with Cons.IH assms show ?case by fastforce
qed

lemma applyTerminalAttempt_cases:
  assumes "applyTerminalAttempt (mem_repository digest collate) now uuid runId st a r c s = (Inr c', s')"
    and "rc_inv digest runId s0 s c" "mapGet (rc_states c) n = Some st" "isTerminalAttempt (na_status (content a))"
    and "outside_store now" "outside_store uuid"
  obtains v where "rc_inv digest runId s0 s' c'" "rc_notes c' = rc_notes c" "rc_states c' = mapSet n v (rc_states c)"
    "ns_node_id (content v) = n" "ns_revision (content v) = revision v" "revision v = ns_revision (content st) + 1"
    "ns_active_attempt_id (content v) = None" "ns_status (content v) \<noteq> RUNNING"
    "ns_latest_attempt_no (content v) = ns_latest_attempt_no (content st)"
proof -
  obtain v s1 rs' where
    1: "repairState (mem_repository digest collate) now st (na_status (content a)) (na_finished_at (content a)) r None s = (Inr v, s1)" and
    2: "recordRepair (mem_repository digest collate) uuid runId TERMINAL_ATTEMPT_APPLIED NODE_STATE (ns_node_state_id (content v))
              (stateSnapshot (content st))
              [(''status'', JStr (statusText (ns_status (content v)))), (''active_attempt_id'', JNull),
               (''revision'', jsonInt (ns_revision (content v)))]
              (ns_updated_at (content v)) (rc_repaired c) s1 = (Inr rs', s')" and
    c': "c' = c\<lparr> rc_states := mapSet (ns_node_id (content v)) v (rc_states c), rc_repaired := rs' \<rparr>"
    using assms(1) by (auto simp: applyTerminalAttempt_def elim!: bindP_cases)
  note r = repair_inv [OF assms(2,3,5,6) 1 2]
  show ?thesis
    by (rule that [of v]) (use r c' assms(4) in \<open>auto simp: isTerminalAttempt_def\<close>)
qed

lemma reconcileStateStep_step:
  assumes run: "reconcileStateStep (mem_repository digest collate) now uuid runId m st c s = (Inr c', s')"
    and inv: "rc_inv digest runId s0 s c" and st: "mapGet (rc_states c) (ns_node_id (content st)) = Some st"
    and nts: "rc_notes c = ([], [])" "fst (rc_notes c') = []"
    and out: "outside_store now" "outside_store uuid"
  shows "rc_inv digest runId s0 s' c' \<and> rc_notes c' = ([], []) \<and>
    (\<exists>v. rc_states c' = mapSet (ns_node_id (content st)) v (rc_states c) \<and> detectState m ([], []) v = ([], []) \<and>
       ns_latest_attempt_no (content v) = ns_latest_attempt_no (content st))"
proof -
  obtain n a where act: "activeAttempt detectRevision st (attemptsOf m st) ([], []) = (n, a)" by fastforce
  have same: "c\<lparr> rc_notes := ([], []) \<rparr> = c" using nts(1) by (cases c) simp
  have keep: "mapSet (ns_node_id (content st)) st (rc_states c) = rc_states c"
    using st by (induction "rc_states c") (auto simp: update_triv)
  show ?thesis
  proof (cases a)
    case None
    with run st nts act have c': "c' = c\<lparr> rc_notes := n \<rparr>" "s' = s"
      by (simp_all add: reconcileStateStep_def revision_checks_agree orElse_def)
    with nts(2) have "fst n = []" by simp
    with act activeAttempt_notes [of st "attemptsOf m st" "([], [])"] have "n = ([], [])" by simp
    with c' same act None have "detectState m ([], []) st = ([], [])" "c' = c" by (simp_all add: detectState_def)
    with c'(2) inv nts keep show ?thesis by (intro conjI exI [of _ st]) simp_all
  next
    case (Some attempt)
    with run st nts act have r: "reconcileActive (mem_repository digest collate) now uuid runId st attempt (c\<lparr> rc_notes := n \<rparr>) s = (Inr c', s')"
      by (simp add: reconcileStateStep_def revision_checks_agree orElse_def)
    have "\<exists>fs. fst (rc_notes c') = fst n @ fs"
      using r by (auto simp: reconcileActive_def Let_def applyTerminalAttempt_def elim!: bindP_cases split: if_splits)
    with nts(2) have "fst n = []" by auto
    with act activeAttempt_notes [of st "attemptsOf m st" "([], [])"] have n: "n = ([], [])" by simp
    note r' = r [unfolded n same]
    have q: "fst (fst (activeAttempt detectRevision st (attemptsOf m st) ([], []))) = []" using act n by simp
    consider (stay) "c' = c" "s' = s" "na_status (content attempt) = ns_status (content st)" "\<not> isTerminalAttempt (na_status (content attempt))"
      | (applies) reason where "applyTerminalAttempt (mem_repository digest collate) now uuid runId st attempt reason c s = (Inr c', s')"
          "isTerminalAttempt (na_status (content attempt))"
      using r' nts by (auto simp: reconcileActive_def Let_def split: if_splits)
    then show ?thesis
    proof cases
      case stay
      then have "detectActive st attempt = []"
        by (auto simp: detectActive_def Let_def isTerminalAttempt_def isTerminalState_def)
      with act Some n have "detectState m ([], []) st = ([], [])" by (simp add: detectState_def)
      with stay inv nts keep show ?thesis by (intro conjI exI [of _ st]) simp_all
    next
      case applies
      from applyTerminalAttempt_cases [OF applies(1) inv st applies(2) out] obtain v where
        v: "rc_inv digest runId s0 s' c'" "rc_notes c' = rc_notes c" "rc_states c' = mapSet (ns_node_id (content st)) v (rc_states c)"
          "ns_node_id (content v) = ns_node_id (content st)" "ns_revision (content v) = revision v"
          "revision v = ns_revision (content st) + 1" "ns_active_attempt_id (content v) = None" "ns_status (content v) \<noteq> RUNNING"
          "ns_latest_attempt_no (content v) = ns_latest_attempt_no (content st)" by blast
      have "detectState m ([], []) v = ([], [])" by (rule repaired_quiet [OF q v(4-8)])
      with v nts show ?thesis by (intro conjI exI [of _ v]) simp_all
    qed
  qed
qed

lemma reconcileState_loop:
  assumes out: "outside_store now" "outside_store uuid"
  shows "foldP (reconcileStateStep (mem_repository digest collate) now uuid runId m) xs c s = (Inr c', s') \<Longrightarrow>
    rc_inv digest runId s0 s c \<Longrightarrow> rc_notes c = ([], []) \<Longrightarrow> fst (rc_notes c') = [] \<Longrightarrow>
    distinct (map (\<lambda>v. ns_node_id (content v)) xs) \<Longrightarrow>
    (\<forall>x \<in> set xs. mapGet (rc_states c) (ns_node_id (content x)) = Some x) \<Longrightarrow>
    rc_inv digest runId s0 s' c' \<and> rc_notes c' = ([], []) \<and>
    (\<forall>x \<in> set xs. \<exists>v. mapGet (rc_states c') (ns_node_id (content x)) = Some v \<and> detectState m ([], []) v = ([], []) \<and>
       ns_latest_attempt_no (content v) = ns_latest_attempt_no (content x)) \<and>
    (\<forall>n. n \<notin> (\<lambda>v. ns_node_id (content v)) ` set xs \<longrightarrow> mapGet (rc_states c') n = mapGet (rc_states c) n) \<and>
    fst ` set (rc_states c') = fst ` set (rc_states c)"
proof (induction xs arbitrary: c s)
  case Nil
  then show ?case by simp
next
  case (Cons x xs)
  from Cons.prems(1) obtain c1 s1 where 1: "reconcileStateStep (mem_repository digest collate) now uuid runId m x c s = (Inr c1, s1)"
    and 2: "foldP (reconcileStateStep (mem_repository digest collate) now uuid runId m) xs c1 s1 = (Inr c', s')"
    by (auto elim!: bindP_cases)
  from foldP_notes [OF reconcileStateStep_notes 2] Cons.prems(4) have nil: "fst (rc_notes c1) = []" by auto
  have x: "mapGet (rc_states c) (ns_node_id (content x)) = Some x" using Cons.prems(6) by simp
  obtain v where c1: "rc_inv digest runId s0 s1 c1" "rc_notes c1 = ([], [])"
    "rc_states c1 = mapSet (ns_node_id (content x)) v (rc_states c)" "detectState m ([], []) v = ([], [])"
    "ns_latest_attempt_no (content v) = ns_latest_attempt_no (content x)"
    using reconcileStateStep_step [OF 1 Cons.prems(2) x Cons.prems(3) nil out] by blast
  have fresh: "ns_node_id (content y) \<noteq> ns_node_id (content x)" if "y \<in> set xs" for y
    using Cons.prems(5) that by (metis (no_types, lifting) distinct.simps(2) image_eqI list.map(2) list.set_map)
  have "\<forall>y \<in> set xs. mapGet (rc_states c1) (ns_node_id (content y)) = Some y"
    using Cons.prems(6) fresh by (simp add: c1(3) update_conv')
  note IH = Cons.IH [OF 2 c1(1,2) Cons.prems(4) _ this]
  have IH: "rc_inv digest runId s0 s' c' \<and> rc_notes c' = ([], []) \<and>
    (\<forall>x \<in> set xs. \<exists>v. mapGet (rc_states c') (ns_node_id (content x)) = Some v \<and> detectState m ([], []) v = ([], []) \<and>
       ns_latest_attempt_no (content v) = ns_latest_attempt_no (content x)) \<and>
    (\<forall>n. n \<notin> (\<lambda>v. ns_node_id (content v)) ` set xs \<longrightarrow> mapGet (rc_states c') n = mapGet (rc_states c1) n) \<and>
    fst ` set (rc_states c') = fst ` set (rc_states c1)"
    by (rule IH) (use Cons.prems(5) in simp)
  have "mapGet (rc_states c') (ns_node_id (content x)) = Some v"
    using IH Cons.prems(5) by (simp add: c1(3) update_conv')
  moreover have "ns_node_id (content x) \<in> fst ` set (rc_states c)"
    using Cons.prems(6) by (force dest: map_of_SomeD)
  then have "fst ` set (rc_states c1) = fst ` set (rc_states c)" by (simp add: c1(3) insert_absorb)
  moreover have "mapGet (rc_states c') n = mapGet (rc_states c) n"
    if "n \<notin> (\<lambda>v. ns_node_id (content v)) ` set (x # xs)" for n
  proof -
    from that IH have "mapGet (rc_states c') n = mapGet (rc_states c1) n" by simp
    with that show ?thesis by (simp add: c1(3) update_conv')
  qed
  ultimately show ?case using IH c1(4,5) by simp
qed

section \<open>The loop over resolutions\<close>

lemma resolutionGuard_Inr:
  assumes "resolutionGuard am S u e = Inr (st, att, first)"
  shows "mapGet am (fst e) = Some att" "\<not> length (remdups (map (\<lambda>r. ar_resolved_outcome (content r)) (snd e))) > 1"
    "na_status (content att) = UNKNOWN \<or> na_status (content att) = FAILED"
    "mapGet S (na_node_id (content att)) = Some st" "na_attempt_no (content att) = ns_latest_attempt_no (content st)"
    "na_node_id (content att) \<notin> set u" "\<exists>rest. snd e = first # rest"
  using assms
  by (auto simp: resolutionGuard_def Let_def split: prod.splits option.splits list.splits if_splits)

lemma detectResolution_Nil:
  "detectResolution am S [] e = [] \<longleftrightarrow> (\<forall>a. mapGet am (fst e) = Some a \<longrightarrow>
     \<not> length (remdups (map (\<lambda>r. ar_resolved_outcome (content r)) (snd e))) > 1 \<and>
     (na_status (content a) = UNKNOWN \<or> na_status (content a) = FAILED) \<and>
     (\<forall>st. mapGet S (na_node_id (content a)) = Some st \<longrightarrow>
        na_attempt_no (content a) = ns_latest_attempt_no (content st) \<and>
        (\<forall>first rest. snd e = first # rest \<longrightarrow> ns_status (content st) = ar_resolved_outcome (content first))))"
  by (cases e, cases "snd e"; cases "mapGet am (fst e)")
    (auto simp: detectResolution_def resolutionGuard_def Let_def split: option.splits)

lemma detectResolution_settled:
  assumes "resolutionGuard am S [] e = Inr (st, att, first)"
    and "mapGet S' (na_node_id (content att)) = Some v" "ns_latest_attempt_no (content v) = ns_latest_attempt_no (content st)"
    and "ns_status (content v) = ar_resolved_outcome (content first)"
  shows "detectResolution am S' [] e = []"
proof -
  note g = resolutionGuard_Inr [OF assms(1)]
  show ?thesis
    unfolding detectResolution_Nil
  proof (intro allI impI conjI, goal_cases)
    case (3 a st')
    with g(1) assms(2) have "a = att" "st' = v" by simp_all
    with g(5) assms(3) show ?case by simp
  next
    case (4 a st' first' rest)
    with g(1,7) assms(2) have "st' = v" "first' = first" by auto
    with assms(4) show ?case by simp
  qed (use g(1-3) in auto)
qed

text \<open>A repair of another node, or of the same node for the same attempt, settles nothing anew.\<close>

lemma detectResolution_stable:
  assumes "detectResolution am S [] e' = []" "fst e' \<noteq> fst e"
    and "mapGet am (fst e) = Some att" "mapGet S (na_node_id (content att)) = Some st"
    and "na_attempt_no (content att) = ns_latest_attempt_no (content st)"
    and uniq: "\<And>a. mapGet am (fst e') = Some a \<Longrightarrow> na_node_id (content a) = na_node_id (content att) \<Longrightarrow>
      na_attempt_no (content a) = na_attempt_no (content att) \<Longrightarrow> fst e' = fst e"
  shows "detectResolution am (mapSet (na_node_id (content att)) v S) [] e' = []"
proof (cases "\<exists>a. mapGet am (fst e') = Some a \<and> na_node_id (content a) = na_node_id (content att)")
  case True
  then obtain a where a: "mapGet am (fst e') = Some a" "na_node_id (content a) = na_node_id (content att)" by blast
  with assms(1,4) have "na_attempt_no (content a) = ns_latest_attempt_no (content st)"
    unfolding detectResolution_Nil by simp
  with uniq [OF a] assms(2,5) show ?thesis by simp
next
  case False
  then have "mapGet (mapSet (na_node_id (content att)) v S) (na_node_id (content a)) = mapGet S (na_node_id (content a))"
    if "mapGet am (fst e') = Some a" for a
    using that by (auto simp: update_conv')
  with assms(1) show ?thesis unfolding detectResolution_Nil by metis
qed

lemma reconcileResolutionStep_notes:
  assumes "reconcileResolutionStep R now uuid runId am e c s = (Inr c', s')"
  shows "\<exists>fs. fst (rc_notes c') = fst (rc_notes c) @ fs"
  using assms
  by (auto simp: reconcileResolutionStep_def Let_def elim!: bindP_cases split: sum.splits prod.splits if_splits)

lemma reconcileResolutionStep_step:
  assumes run: "reconcileResolutionStep (mem_repository digest collate) now uuid runId am e c s = (Inr c', s')"
    and inv: "rc_inv digest runId s0 s c" and nts: "rc_notes c = ([], [])" "fst (rc_notes c') = []"
    and good: "\<forall>n v. mapGet (rc_states c) n = Some v \<longrightarrow> detectState m ([], []) v = ([], [])"
    and out: "outside_store now" "outside_store uuid"
  shows "rc_inv digest runId s0 s' c' \<and> rc_notes c' = ([], []) \<and> detectResolution am (rc_states c') [] e = [] \<and>
    (rc_states c' = rc_states c \<or> (\<exists>v st att. mapGet am (fst e) = Some att \<and>
       mapGet (rc_states c) (na_node_id (content att)) = Some st \<and>
       na_attempt_no (content att) = ns_latest_attempt_no (content st) \<and>
       rc_states c' = mapSet (na_node_id (content att)) v (rc_states c) \<and> detectState m ([], []) v = ([], []) \<and>
       ns_latest_attempt_no (content v) = ns_latest_attempt_no (content st)))"
proof (cases "resolutionGuard am (rc_states c) [] e")
  case (Inl fs)
  with run nts have "c' = c\<lparr> rc_notes := (fs, []) \<rparr>" "s' = s" "fs = []"
    by (auto simp: reconcileResolutionStep_def)
  moreover have "c\<lparr> rc_notes := ([], []) \<rparr> = c" using nts(1) by (cases c) simp
  ultimately show ?thesis using Inl inv nts by (simp add: detectResolution_def)
next
  case (Inr x)
  obtain st att first where x: "x = (st, att, first)" by (metis surj_pair)
  note guard = Inr [unfolded x]
  note g = resolutionGuard_Inr [OF guard]
  let ?o = "ar_resolved_outcome (content first)"
  let ?at = "ar_resolved_at (content (latestResolution (tl (snd e)) first))"
  from run nts guard obtain v s1 rs' where res: "resolutionResolvable (content st) (content att)" and
    1: "repairState (mem_repository digest collate) now st ?o (Some ?at) ''reconciled from Attempt Resolution''
          (Some \<lparr> re_attempt_id = fst e, re_resolved_outcome = ?o, re_resolved_at = ?at \<rparr>) s = (Inr v, s1)" and
    2: "recordRepair (mem_repository digest collate) uuid runId ATTEMPT_RESOLUTION_APPLIED NODE_STATE (ns_node_state_id (content v))
          [(''status'', JStr (statusText (ns_status (content st)))), (''revision'', jsonInt (ns_revision (content st)))]
          [(''status'', JStr (statusText (ns_status (content v)))), (''revision'', jsonInt (ns_revision (content v)))]
          (ns_updated_at (content v)) (rc_repaired c) s1 = (Inr rs', s')" and
    c': "c' = c\<lparr> rc_states := mapSet (ns_node_id (content v)) v (rc_states c), rc_repaired := rs' \<rparr>"
    by (auto simp: reconcileResolutionStep_def Let_def elim!: bindP_cases split: if_splits)
  note r = repair_inv [OF inv g(4) out 1 2]
  have "ns_status (content st) = UNKNOWN \<or> ns_status (content st) = FAILED \<and> \<not> ns_idempotent (content st)"
    using res by (auto simp: resolutionResolvable_def)
  then have "?o \<noteq> RUNNING"
    using r(8) by (auto simp: isAllowedNodeStateTransition_def isAllowedResolutionTransition_def)
  moreover have "fst (fst (activeAttempt detectRevision st (attemptsOf m st) ([], []))) = []"
    using good g(4) by (simp add: detectState_quiet)
  moreover have "ns_node_id (content st) = na_node_id (content att)"
    using inv g(4) by (simp add: rc_inv_def)
  ultimately have "detectState m ([], []) v = ([], [])"
    using r by (intro repaired_quiet [of st]) simp_all
  moreover have "detectResolution am (rc_states c') [] e = []"
    by (rule detectResolution_settled [OF guard]) (use r c' in \<open>simp_all add: update_conv'\<close>)
  ultimately show ?thesis using r c' nts g by auto
qed

lemma reconcileResolution_loop:
  assumes out: "outside_store now" "outside_store uuid"
    and uniq: "\<And>i j a b. mapGet am i = Some a \<Longrightarrow> mapGet am j = Some b \<Longrightarrow> na_node_id (content a) = na_node_id (content b) \<Longrightarrow>
      na_attempt_no (content a) = na_attempt_no (content b) \<Longrightarrow> i = j"
  shows "foldP (reconcileResolutionStep (mem_repository digest collate) now uuid runId am) es c s = (Inr c', s') \<Longrightarrow>
    rc_inv digest runId s0 s c \<Longrightarrow> rc_notes c = ([], []) \<Longrightarrow> fst (rc_notes c') = [] \<Longrightarrow>
    (\<forall>n v. mapGet (rc_states c) n = Some v \<longrightarrow> detectState m ([], []) v = ([], [])) \<Longrightarrow>
    distinct (map fst es) \<Longrightarrow> (\<forall>e \<in> set pre. fst e \<notin> fst ` set es \<and> detectResolution am (rc_states c) [] e = []) \<Longrightarrow>
    rc_inv digest runId s0 s' c' \<and> rc_notes c' = ([], []) \<and>
    (\<forall>e \<in> set (pre @ es). detectResolution am (rc_states c') [] e = []) \<and>
    (\<forall>n v. mapGet (rc_states c') n = Some v \<longrightarrow> detectState m ([], []) v = ([], []) \<and>
       (\<exists>st. mapGet (rc_states c) n = Some st \<and> ns_latest_attempt_no (content st) = ns_latest_attempt_no (content v))) \<and>
    fst ` set (rc_states c') = fst ` set (rc_states c)"
proof (induction es arbitrary: c s pre)
  case Nil
  then show ?case by auto
next
  case (Cons e es)
  from Cons.prems(1) obtain c1 s1 where
    1: "reconcileResolutionStep (mem_repository digest collate) now uuid runId am e c s = (Inr c1, s1)" and
    2: "foldP (reconcileResolutionStep (mem_repository digest collate) now uuid runId am) es c1 s1 = (Inr c', s')"
    by (auto elim!: bindP_cases)
  from foldP_notes [OF reconcileResolutionStep_notes 2] Cons.prems(4) have nil: "fst (rc_notes c1) = []" by auto
  note st = reconcileResolutionStep_step [OF 1 Cons.prems(2,3) nil Cons.prems(5) out]
  have good1: "\<forall>n v. mapGet (rc_states c1) n = Some v \<longrightarrow> detectState m ([], []) v = ([], []) \<and>
      (\<exists>st. mapGet (rc_states c) n = Some st \<and> ns_latest_attempt_no (content st) = ns_latest_attempt_no (content v))"
    using st Cons.prems(5) by (auto simp: update_conv' split: if_splits)
  have dom1: "fst ` set (rc_states c1) = fst ` set (rc_states c)"
  proof -
    have "n \<in> fst ` set (rc_states c)" if "mapGet (rc_states c) n = Some x" for n x
      using that by (force dest: map_of_SomeD)
    then show ?thesis using st by (metis insert_absorb keys_update)
  qed
  have pre1: "detectResolution am (rc_states c1) [] e' = []" if "e' \<in> set pre" for e'
    using st
  proof (elim conjE disjE exE)
    assume "rc_states c1 = rc_states c"
    with Cons.prems(7) that show ?thesis by simp
  next
    fix v st att
    assume att: "mapGet am (fst e) = Some att" "mapGet (rc_states c) (na_node_id (content att)) = Some st"
      "na_attempt_no (content att) = ns_latest_attempt_no (content st)"
      "rc_states c1 = mapSet (na_node_id (content att)) v (rc_states c)"
    have "fst e' \<noteq> fst e" "detectResolution am (rc_states c) [] e' = []" using Cons.prems(7) that by auto
    then show ?thesis unfolding att(4)
      using att(1-3) uniq by (intro detectResolution_stable [of am "rc_states c" e' e att]) blast+
  qed
  have "\<forall>e' \<in> set (pre @ [e]). fst e' \<notin> fst ` set es \<and> detectResolution am (rc_states c1) [] e' = []"
    using Cons.prems(6,7) pre1 st by auto
  from Cons.IH [OF 2 _ _ Cons.prems(4) _ _ this] st good1 Cons.prems(6)
  have "rc_inv digest runId s0 s' c' \<and> rc_notes c' = ([], []) \<and>
    (\<forall>e \<in> set ((pre @ [e]) @ es). detectResolution am (rc_states c') [] e = []) \<and>
    (\<forall>n v. mapGet (rc_states c') n = Some v \<longrightarrow> detectState m ([], []) v = ([], []) \<and>
       (\<exists>st. mapGet (rc_states c1) n = Some st \<and> ns_latest_attempt_no (content st) = ns_latest_attempt_no (content v))) \<and>
    fst ` set (rc_states c') = fst ` set (rc_states c1)" by simp
  then show ?case using good1 dom1 by (auto; metis)
qed

section \<open>The whole run\<close>

lemma computeRunAggregateStatus_cong:
  assumes "set xs = set ys"
  shows "computeRunAggregateStatus xs st = computeRunAggregateStatus ys st"
proof -
  have "xs = [] \<longleftrightarrow> ys = []" using assms by (metis set_empty)
  then show ?thesis using assms by (simp add: computeRunAggregateStatus_def list_all_iff list_ex_iff)
qed

lemma reconcileAggregate_run:
  assumes "reconcileAggregate (mem_repository digest collate) now uuid runId run c s = (Inr out, t)"
    and "mapGet (m_runs s) runId = Some run" and outs: "outside_store now" "outside_store uuid"
  shows "m_states t = m_states s" "m_attempts t = m_attempts s" "m_resolutions t = m_resolutions s"
    and "\<exists>run'. mapGet (m_runs t) runId = Some run' \<and> nr_started_at (content run') = nr_started_at (content run) \<and>
      nr_status (content run') = computeRunAggregateStatus (map (\<lambda>e. ns_status (content (snd e))) (rc_states c)) (nr_started_at (content run))"
proof -
  let ?agg = "computeRunAggregateStatus (map (\<lambda>e. ns_status (content (snd e))) (rc_states c)) (nr_started_at (content run))"
  have "m_states t = m_states s \<and> m_attempts t = m_attempts s \<and> m_resolutions t = m_resolutions s \<and>
    (\<exists>run'. mapGet (m_runs t) runId = Some run' \<and> nr_started_at (content run') = nr_started_at (content run) \<and>
      nr_status (content run') = ?agg)"
  proof (cases "?agg = nr_status (content run)")
    case True
    with assms(1,2) show ?thesis by (auto simp: reconcileAggregate_def)
  next
    case False
    with assms(1) obtain x s1 v s2 rs ty tt ti b a oc where 1: "now s = (Inr x, s1)" and
      2: "im_updateRunAggregate runId (revision run) \<lparr> ru_status = ?agg, ru_started_at = nr_started_at (content run),
             ru_finished_at = nr_finished_at (content run), ru_updated_at = x \<rparr> s1 = (Inr v, s2)" and
      3: "recordRepair (mem_repository digest collate) uuid runId ty tt ti b a oc (rc_repaired c) s2 = (Inr rs, t)"
      by (auto simp: reconcileAggregate_def Let_def elim!: bindP_cases)
    note same = outside_store_run [OF outs(1) 1] outside_store_run_more [OF outs(1) 1]
    have "mapGet (m_runs s1) runId = Some run" using assms(2) same by simp
    with 2 have "mapGet (m_runs s2) runId = Some v" "nr_started_at (content v) = nr_started_at (content run)"
      "nr_status (content v) = ?agg" "m_states s2 = m_states s1" "m_attempts s2 = m_attempts s1" "m_resolutions s2 = m_resolutions s1"
      by (auto simp: im_updateRunAggregate_def im_run_defs update_conv' split: if_splits)
    with recordRepair_run [OF 3 outs(2)] same show ?thesis by auto
  qed
  then show "m_states t = m_states s" "m_attempts t = m_attempts s" "m_resolutions t = m_resolutions s"
    "\<exists>run'. mapGet (m_runs t) runId = Some run' \<and> nr_started_at (content run') = nr_started_at (content run) \<and>
      nr_status (content run') = ?agg" by blast+
qed

lemma pushTo_keys:
  "distinct (map fst m) \<Longrightarrow> distinct (map fst (foldl (pushTo key) m xs)) \<and>
   fst ` set (foldl (pushTo key) m xs) = fst ` set m \<union> key ` set xs"
  by (induction xs arbitrary: m) (auto simp: pushTo_def distinct_update)

lemma attemptsByIdMap_get:
  "mapGet (attemptsByIdMap as) i = Some a \<Longrightarrow> a \<in> set as \<and> na_node_attempt_id (content a) = i"
  unfolding attemptsByIdMap_def mapGet_mapFromEntries by (auto dest!: map_of_SomeD)

lemma same_number_same_attempt:
  assumes "mem_wf digest s" "a \<in> set (runAttempts runId s)" "b \<in> set (runAttempts runId s)"
    and "na_node_id (content a) = na_node_id (content b)" "na_attempt_no (content a) = na_attempt_no (content b)"
  shows "a = b"
proof -
  have *: "\<exists>k. mapGet (m_attempts s) k = Some x \<and> na_run_id (content x) = runId \<and>
      attemptKey digest (na_run_id (content x)) (na_node_id (content x)) (na_attempt_no (content x)) = Inr k"
    if "x \<in> set (runAttempts runId s)" for x
  proof -
    from that have "na_run_id (content x) = runId" "x \<in> snd ` set (m_attempts s)" by (auto simp: runAttempts_def)
    then obtain k where "mapGet (m_attempts s) k = Some x" using assms(1) by (force simp: mem_wf_def keys_distinct_def)
    moreover from this have "attemptKey digest (na_run_id (content x)) (na_node_id (content x)) (na_attempt_no (content x)) = Inr k"
      using assms(1) unfolding mem_wf_def attempts_wf_def by blast
    ultimately show ?thesis using \<open>na_run_id (content x) = runId\<close> by blast
  qed
  from * [OF assms(2)] obtain k where k: "mapGet (m_attempts s) k = Some a" "na_run_id (content a) = runId"
    "attemptKey digest (na_run_id (content a)) (na_node_id (content a)) (na_attempt_no (content a)) = Inr k" by blast
  from * [OF assms(3)] obtain k' where k': "mapGet (m_attempts s) k' = Some b" "na_run_id (content b) = runId"
    "attemptKey digest (na_run_id (content b)) (na_node_id (content b)) (na_attempt_no (content b)) = Inr k'" by blast
  have "k' = k" using k(2,3) k'(2,3) assms(4,5) by simp
  with k(1) k'(1) show ?thesis by simp
qed

lemma reconcileRun_success:
  assumes wf: "mem_wf digest s" "nodes_distinct runId s" and outs: "outside_store now" "outside_store uuid"
    and run: "reconcileRun (mem_repository digest collate) now uuid runId s = (Inr res, t)"
  obtains run run' s2 c2 where "mapGet (m_runs s) runId = Some run" "mapGet (m_runs t) runId = Some run'"
    "nr_started_at (content run') = nr_started_at (content run)"
    "nr_status (content run') = computeRunAggregateStatus (map (\<lambda>e. ns_status (content (snd e))) (rc_states c2)) (nr_started_at (content run))"
    "m_states t = m_states s2" "m_attempts t = m_attempts s" "m_resolutions t = m_resolutions s"
    "rc_inv digest runId s s2 c2" "mem_wf digest t"
    "\<forall>e \<in> set (groupByNode (runAttempts runId s)). fst e \<in> fst ` set (rc_states c2)"
    "\<forall>n v. mapGet (rc_states c2) n = Some v \<longrightarrow> detectState (groupByNode (runAttempts runId s)) ([], []) v = ([], []) \<and>
       (\<exists>st \<in> set (runStates collate runId s). ns_node_id (content st) = n \<and> ns_latest_attempt_no (content st) = ns_latest_attempt_no (content v))"
    "fst ` set (rc_states c2) = (\<lambda>v. ns_node_id (content v)) ` set (runStates collate runId s)"
    "\<forall>e \<in> set (resolutionGroups (runResolutions runId s)). detectResolution (attemptsByIdMap (runAttempts runId s)) (rc_states c2) [] e = []"
proof -
  let ?S = "runStates collate runId s" and ?A = "runAttempts runId s" and ?Q = "runResolutions runId s"
  let ?n = "foldl (noteMissingState (statesByNode ?S)) ([], []) (groupByNode ?A)"
  let ?c = "\<lparr> rc_states = statesByNode ?S, rc_notes = ?n, rc_repaired = [] \<rparr>"
  let ?M = "mem_repository digest collate"
  obtain r where r: "mapGet (m_runs s) runId = Some r"
    using run by (auto simp: reconcileRun_def im_getRun_def required_def elim!: bindP_cases split: option.splits)
  obtain c1 s1 c2 s2 out where
    1: "foldP (reconcileStateStep ?M now uuid runId (groupByNode ?A)) ?S ?c s = (Inr c1, s1)" and
    2: "foldP (reconcileResolutionStep ?M now uuid runId (attemptsByIdMap ?A)) (resolutionGroups ?Q) c1 s1 = (Inr c2, s2)" and
    3: "reconcileAggregate ?M now uuid runId r c2 s2 = (Inr out, t)" and nil: "fst (rc_notes c2) = []"
    using run r
    by (auto simp: reconcileRun_def im_getRun_def required_def reads Let_def elim!: bindP_cases split: prod.splits if_splits)
  have nil1: "fst (rc_notes c1) = []" using foldP_notes [OF reconcileResolutionStep_notes 2] nil by auto
  have "fst ?n = []" using foldP_notes [OF reconcileStateStep_notes 1] nil1 by auto
  with noting_foldl [OF noting_missing, of "statesByNode ?S" "([], [])" "groupByNode ?A"]
  have n: "?n = ([], [])" and miss: "\<forall>e \<in> set (groupByNode ?A). noteMissingState (statesByNode ?S) ([], []) e = ([], [])"
    by auto
  have dist: "distinct (map (\<lambda>v. ns_node_id (content v)) ?S)" by (rule distinct_runStates [OF wf])
  have inv0: "rc_inv digest runId s s ?c"
    unfolding rc_inv_def
  proof (intro conjI allI impI, goal_cases)
    case (9 k v)
    then have "ns_node_state_key (content v) = k" using wf(1) by (auto simp: mem_wf_def states_wf_def)
    with 9 have "v \<in> set ?S" by (simp add: set_runStates [OF wf(1)])
    then show ?case using statesByNode_get [OF dist] by simp
  qed (use wf(1) dist in \<open>auto simp: statesByNode_distinct comp_def set_runStates dest!: map_of_SomeD\<close>)
  have keys0: "fst ` set (rc_states ?c) = (\<lambda>v. ns_node_id (content v)) ` set ?S"
    by (simp add: statesByNode_def image_image)
  note L1 = reconcileState_loop [OF outs 1 inv0 _ nil1 dist]
  have L1: "rc_inv digest runId s s1 c1 \<and> rc_notes c1 = ([], []) \<and>
    (\<forall>x \<in> set ?S. \<exists>v. mapGet (rc_states c1) (ns_node_id (content x)) = Some v \<and> detectState (groupByNode ?A) ([], []) v = ([], []) \<and>
       ns_latest_attempt_no (content v) = ns_latest_attempt_no (content x)) \<and>
    (\<forall>n. n \<notin> (\<lambda>v. ns_node_id (content v)) ` set ?S \<longrightarrow> mapGet (rc_states c1) n = mapGet (rc_states ?c) n) \<and>
    fst ` set (rc_states c1) = fst ` set (rc_states ?c)"
    by (rule L1) (use n statesByNode_get [OF dist] in auto)
  have good1: "\<forall>n v. mapGet (rc_states c1) n = Some v \<longrightarrow> detectState (groupByNode ?A) ([], []) v = ([], []) \<and>
      (\<exists>st \<in> set ?S. ns_node_id (content st) = n \<and> ns_latest_attempt_no (content st) = ns_latest_attempt_no (content v))"
  proof (intro allI impI)
    fix n v
    assume v: "mapGet (rc_states c1) n = Some v"
    then have "n \<in> fst ` set (rc_states c1)" by (force dest: map_of_SomeD)
    then have "n \<in> (\<lambda>v. ns_node_id (content v)) ` set ?S" using L1 keys0 by blast
    then obtain x where "x \<in> set ?S" "ns_node_id (content x) = n" by blast
    with L1 v show "detectState (groupByNode ?A) ([], []) v = ([], []) \<and>
      (\<exists>st \<in> set ?S. ns_node_id (content st) = n \<and> ns_latest_attempt_no (content st) = ns_latest_attempt_no (content v))"
      by fastforce
  qed
  have uniq: "i = j" if "mapGet (attemptsByIdMap ?A) i = Some a" "mapGet (attemptsByIdMap ?A) j = Some b"
    "na_node_id (content a) = na_node_id (content b)" "na_attempt_no (content a) = na_attempt_no (content b)" for i j a b
    using attemptsByIdMap_get [OF that(1)] attemptsByIdMap_get [OF that(2)] same_number_same_attempt [OF wf(1) _ _ that(3,4)] by blast
  have dg: "distinct (map fst (resolutionGroups ?Q))"
    unfolding resolutionGroups_def by (rule conjunct1 [OF pushTo_keys]) simp
  have L2: "rc_inv digest runId s s2 c2 \<and> rc_notes c2 = ([], []) \<and>
    (\<forall>e \<in> set ([] @ resolutionGroups ?Q). detectResolution (attemptsByIdMap ?A) (rc_states c2) [] e = []) \<and>
    (\<forall>n v. mapGet (rc_states c2) n = Some v \<longrightarrow> detectState (groupByNode ?A) ([], []) v = ([], []) \<and>
       (\<exists>st. mapGet (rc_states c1) n = Some st \<and> ns_latest_attempt_no (content st) = ns_latest_attempt_no (content v))) \<and>
    fst ` set (rc_states c2) = fst ` set (rc_states c1)"
  proof (rule reconcileResolution_loop [OF outs _ 2 _ _ nil _ dg])
    show "i = j" if "mapGet (attemptsByIdMap ?A) i = Some a" "mapGet (attemptsByIdMap ?A) j = Some b"
      "na_node_id (content a) = na_node_id (content b)" "na_attempt_no (content a) = na_attempt_no (content b)" for i j a b
      by (rule uniq [OF that])
  qed (use L1 good1 in auto)
  have runs2: "mapGet (m_runs s2) runId = Some r" using L2 r by (simp add: rc_inv_def)
  note agg = reconcileAggregate_run [OF 3 runs2 outs]
  obtain run' where run': "mapGet (m_runs t) runId = Some run'" "nr_started_at (content run') = nr_started_at (content r)"
    "nr_status (content run') = computeRunAggregateStatus (map (\<lambda>e. ns_status (content (snd e))) (rc_states c2)) (nr_started_at (content r))"
    using agg(4) by blast
  have wft: "mem_wf digest t"
    using store_client_history(3) [OF outs _ 3] L2 by (simp add: rc_inv_def)
  show ?thesis
  proof (rule that [OF r run' agg(1) _ _ _ wft])
    show "m_attempts t = m_attempts s" "m_resolutions t = m_resolutions s" using agg(2,3) L2 by (simp_all add: rc_inv_def)
    show "rc_inv digest runId s s2 c2" using L2 by blast
    show "fst ` set (rc_states c2) = (\<lambda>v. ns_node_id (content v)) ` set ?S" using L1 L2 keys0 by metis
    then show "\<forall>e \<in> set (groupByNode ?A). fst e \<in> fst ` set (rc_states c2)"
      using miss keys0 mapHas_key unfolding missing_quiet by (metis rc.select_convs(1))
    show "\<forall>n v. mapGet (rc_states c2) n = Some v \<longrightarrow> detectState (groupByNode ?A) ([], []) v = ([], []) \<and>
       (\<exists>st \<in> set ?S. ns_node_id (content st) = n \<and> ns_latest_attempt_no (content st) = ns_latest_attempt_no (content v))"
      using L2 good1 by metis
    show "\<forall>e \<in> set (resolutionGroups ?Q). detectResolution (attemptsByIdMap ?A) (rc_states c2) [] e = []"
      using L2 by simp
  qed
qed

section \<open>Properties\<close>

text \<open>
  A run on which detection finds nothing passes the gate untouched: reconciliation returns
  with no repair and writes nothing, whatever the clock and the UUID source would answer.
\<close>

theorem clean_run_untouched:
  assumes wf: "mem_wf digest s" "nodes_distinct runId s"
    and clean: "detectReconciliation (mem_repository digest collate) runId s = (Inr [], s)"
  shows "reconcileRun (mem_repository digest collate) now uuid runId s =
    (Inr \<lparr> rs_repaired = [], rs_aggregateUpdated = False \<rparr>, s)"
proof -
  let ?S = "runStates collate runId s" and ?A = "runAttempts runId s" and ?Q = "runResolutions runId s"
  obtain run where run: "mapGet (m_runs s) runId = Some run"
    and none: "detectFindings run ?S ?A ?Q = []"
    using clean by (auto simp: detect_run split: option.splits)
  note c = none [unfolded detectFindings_Nil]
  have dist: "distinct (map (\<lambda>v. ns_node_id (content v)) ?S)" by (rule distinct_runStates [OF wf])
  let ?c = "\<lparr> rc_states = statesByNode ?S, rc_notes = ([], []), rc_repaired = [] \<rparr>"
  have n: "foldl (noteMissingState (statesByNode ?S)) ([], []) (groupByNode ?A) = ([], [])"
    using c by (intro foldl_quiet) (auto simp: noteMissingState_def split: prod.split)
  have 1: "foldP (reconcileStateStep (mem_repository digest collate) now uuid runId (groupByNode ?A)) ?S ?c s = (Inr ?c, s)"
    using c statesByNode_get [OF dist] by (intro foldP_quiet reconcileStateStep_quiet) auto
  have 2: "foldP (reconcileResolutionStep (mem_repository digest collate) now uuid runId (attemptsByIdMap ?A)) (resolutionGroups ?Q) ?c s = (Inr ?c, s)"
    using c by (intro foldP_quiet reconcileResolutionStep_quiet) auto
  have 3: "reconcileAggregate (mem_repository digest collate) now uuid runId run ?c s = (Inr ([], False), s)"
    using c by (simp add: reconcileAggregate_def statesByNode_distinct [OF dist] comp_def)
  show ?thesis
    by (simp add: reconcileRun_def im_getRun_def im_run_defs run reads n 1 2 3 Let_def)
qed

theorem clean_run_untouched_witness:
  "reconcileRun (mem_repository padDigest (\<lambda>_ _. True)) (retP ''t9'') (retP ''u1'') ''run1'' sampleStore =
    (Inr \<lparr> rs_repaired = [], rs_aggregateUpdated = False \<rparr>, sampleStore)"
proof (rule clean_run_untouched)
  show "mem_wf padDigest sampleStore" by (rule reached_wf [OF sampleStore_reached])
  show "nodes_distinct ''run1'' sampleStore" by (simp add: nodes_distinct_def sampleStore_def emptyMem_def)
  show "detectReconciliation (mem_repository padDigest (\<lambda>_ _. True)) ''run1'' sampleStore = (Inr [], sampleStore)"
    by (simp add: detect_run detectFindings_Nil runStates_def runAttempts_def runResolutions_def sampleStore_def
        emptyMem_def groupByNode_def resolutionGroups_def computeRunAggregateStatus_def sampleRun_def sortBy_def)
qed

text \<open>
  C3: Reconciliation really repairs: when it returns, for a run whose node states name distinct nodes and with a clock and a UUID
  source outside the store, detection finds nothing left on the run, the store still satisfies its invariant, attempts and resolutions
  are the same as before, and the rest of the history is kept (audits only appended, node states moved only along allowed moves).
\<close>

theorem reconciled_run_is_clean:
  assumes wf: "mem_wf digest s" "nodes_distinct runId s" and outs: "outside_store now" "outside_store uuid"
    and run: "reconcileRun (mem_repository digest collate) now uuid runId s = (Inr res, t)"
  shows "detectReconciliation (mem_repository digest collate) runId t = (Inr [], t) \<and> mem_wf digest t \<and>
    m_attempts t = m_attempts s \<and> m_resolutions t = m_resolutions s \<and> mem_evolves s t"
proof -
  obtain r r' s2 c where R: "mapGet (m_runs s) runId = Some r" "mapGet (m_runs t) runId = Some r'"
    "nr_started_at (content r') = nr_started_at (content r)"
    "nr_status (content r') = computeRunAggregateStatus (map (\<lambda>e. ns_status (content (snd e))) (rc_states c)) (nr_started_at (content r))"
    "m_states t = m_states s2" "m_attempts t = m_attempts s" "m_resolutions t = m_resolutions s"
    "rc_inv digest runId s s2 c" "mem_wf digest t"
    "\<forall>e \<in> set (groupByNode (runAttempts runId s)). fst e \<in> fst ` set (rc_states c)"
    "\<forall>n v. mapGet (rc_states c) n = Some v \<longrightarrow> detectState (groupByNode (runAttempts runId s)) ([], []) v = ([], []) \<and>
       (\<exists>st \<in> set (runStates collate runId s). ns_node_id (content st) = n \<and> ns_latest_attempt_no (content st) = ns_latest_attempt_no (content v))"
    "\<forall>e \<in> set (resolutionGroups (runResolutions runId s)). detectResolution (attemptsByIdMap (runAttempts runId s)) (rc_states c) [] e = []"
    by (rule reconcileRun_success [OF wf outs run])
  let ?T = "runStates collate runId t"
  have same: "runAttempts runId t = runAttempts runId s" "runResolutions runId t = runResolutions runId s"
    using R(6,7) by (simp_all add: runAttempts_def runResolutions_def)
  have inT: "v \<in> set ?T \<longleftrightarrow> mapGet (rc_states c) (ns_node_id (content v)) = Some v" for v
    using R(8) unfolding set_runStates [OF R(9)] R(5) rc_inv_def by blast
  have dc: "distinct (map fst (rc_states c))" and key: "\<And>n v. mapGet (rc_states c) n = Some v \<Longrightarrow> ns_node_id (content v) = n"
    using R(8) by (auto simp: rc_inv_def)
  have "nodes_distinct runId t"
    unfolding nodes_distinct_def R(5)
  proof (intro allI impI)
    fix k v k' v'
    assume *: "mapGet (m_states s2) k = Some v \<and> mapGet (m_states s2) k' = Some v' \<and> ns_run_id (content v) = runId \<and>
      ns_run_id (content v') = runId \<and> ns_node_id (content v) = ns_node_id (content v')"
    then have "mapGet (rc_states c) (ns_node_id (content v)) = Some v" "mapGet (rc_states c) (ns_node_id (content v)) = Some v'"
      using R(8) unfolding rc_inv_def by metis+
    then have "v = v'" by simp
    moreover have "ns_node_state_key (content v) = k" "ns_node_state_key (content v') = k'"
      using * R(9) unfolding mem_wf_def states_wf_def R(5) by blast+
    ultimately show "k = k'" by simp
  qed
  then have dT: "distinct (map (\<lambda>v. ns_node_id (content v)) ?T)" by (rule distinct_runStates [OF R(9)])
  have get: "mapGet (statesByNode ?T) n = mapGet (rc_states c) n" for n
  proof (cases "mapGet (rc_states c) n")
    case (Some v)
    then show ?thesis using inT [of v] key [OF Some] statesByNode_get [OF dT, of v] by auto
  next
    case None
    have "n \<noteq> ns_node_id (content v)" if "v \<in> set ?T" for v using that inT [of v] None by auto
    then have "n \<notin> fst ` set (statesByNode ?T)" unfolding statesByNode_distinct [OF dT] by force
    then have "mapGet (statesByNode ?T) n = None" by (simp add: map_of_eq_None_iff)
    with None show ?thesis by simp
  qed
  have statuses: "set (map (\<lambda>st. ns_status (content st)) ?T) = set (map (\<lambda>e. ns_status (content (snd e))) (rc_states c))"
  proof -
    have "set ?T = snd ` set (rc_states c)"
    proof (intro set_eqI iffI)
      fix v assume "v \<in> set ?T"
      then show "v \<in> snd ` set (rc_states c)" using inT by (force dest: map_of_SomeD)
    next
      fix v assume "v \<in> snd ` set (rc_states c)"
      then obtain n where "mapGet (rc_states c) n = Some v" using dc by auto
      then show "v \<in> set ?T" using inT key by blast
    qed
    then show ?thesis by (auto simp: image_image)
  qed
  have "detectFindings r' ?T (runAttempts runId t) (runResolutions runId t) = []"
    unfolding detectFindings_Nil same
  proof (intro conjI)
    show "\<forall>e \<in> set (groupByNode (runAttempts runId s)). mapHas (statesByNode ?T) (fst e)"
      using R(10) dc unfolding mapHas_iff get by force
    show "\<forall>st \<in> set ?T. detectState (groupByNode (runAttempts runId s)) ([], []) st = ([], [])"
      using R(11) inT by blast
    show "\<forall>e \<in> set (resolutionGroups (runResolutions runId s)).
        detectResolution (attemptsByIdMap (runAttempts runId s)) (statesByNode ?T) [] e = []"
      using R(12) unfolding detectResolution_Nil get by blast
    show "computeRunAggregateStatus (map (\<lambda>st. ns_status (content st)) ?T) (nr_started_at (content r')) = nr_status (content r')"
      unfolding R(3,4) by (rule computeRunAggregateStatus_cong [OF statuses])
  qed
  moreover have keeps: "guarantees (mem_history digest) (reconcileRun (mem_repository digest collate) now uuid runId)"
    by (rule repository_client.reconcileRun_keeps [OF store_client [OF outs]])
  have "mem_evolves s t" using guaranteesD [OF keeps run] wf(1) by (auto simp: mem_history_def)
  ultimately show ?thesis using R(2,6,7,9) by (simp add: detect_run)
qed

definition crashedStore :: mem where
  "crashedStore = (oneNodeStore RUNNING (Some ''at1'') FAILED)
     \<lparr> m_runs := [(''run1'', versioned (sampleRun\<lparr> nr_status := FAILED \<rparr>) 1)] \<rparr>"

lemma crashedStore_wf: "mem_wf padDigest crashedStore"
proof -
  have wf: "mem_wf padDigest (oneNodeStore RUNNING (Some ''at1'') FAILED)"
    by (rule oneNodeStore_wf) (simp add: is_node_state_status_def)
  then have "runs_wf padDigest [(''run1'', versioned sampleRun 1)] [(sampleRunKey, ''run1'')]"
    by (simp add: mem_wf_def oneNodeStore_def sampleStore_def)
  then have "runs_wf padDigest [(''run1'', versioned (sampleRun\<lparr> nr_status := FAILED \<rparr>) 1)] [(sampleRunKey, ''run1'')]"
    by (auto simp: runs_wf_def run_key_of_def sampleRun_def split: if_splits)
  with wf show ?thesis
    by (simp add: crashedStore_def mem_wf_def keys_distinct_def oneNodeStore_def sampleStore_def)
qed

theorem reconciled_run_is_clean_witness:
  "\<exists>res t. reconcileRun (mem_repository padDigest (\<lambda>_ _. True)) (retP ''t9'') (retP ''u1'') ''run1'' crashedStore = (Inr res, t) \<and>
    length (rs_repaired res) = 1 \<and>
    detectReconciliation (mem_repository padDigest (\<lambda>_ _. True)) ''run1'' t = (Inr [], t)"
proof -
  have "\<exists>res t. reconcileRun (mem_repository padDigest (\<lambda>_ _. True)) (retP ''t9'') (retP ''u1'') ''run1'' crashedStore = (Inr res, t) \<and>
      length (rs_repaired res) = 1"
    using attemptKey_nonempty [OF sampleAttemptKey]
    by (simp add: reconcileRun_def reads runStates_def runAttempts_def runResolutions_def im_getRun_def required_def
        bindP_def Let_def sortBy_def groupByNode_def pushTo_def orElse_def statesByNode_def mapFromEntries_def
        noteMissingState_def reconcileStateStep_def activeAttempt_def reconcileRevision_def reconcileActive_def
        isTerminalAttempt_def applyTerminalAttempt_def repairState_def im_upsertNodeState_def storeState_def
        upsertRejection_def durableResolution_def isAllowedNodeStateTransition_def recordRepair_def
        im_appendOperationAudit_def resolutionGroups_def reconcileAggregate_def computeRunAggregateStatus_def
        crashedStore_def oneNodeStore_def sampleStore_def emptyMem_def sampleState_def sampleAttempt_def
        newAttempt_def sampleRun_def mapHas_def)
  then obtain res t where run: "reconcileRun (mem_repository padDigest (\<lambda>_ _. True)) (retP ''t9'') (retP ''u1'') ''run1'' crashedStore = (Inr res, t)"
    and len: "length (rs_repaired res) = 1" by blast
  have "nodes_distinct ''run1'' crashedStore" by (simp add: nodes_distinct_def crashedStore_def oneNodeStore_def)
  from reconciled_run_is_clean [OF crashedStore_wf this _ _ run] run len show ?thesis by auto
qed

text \<open>
  C7: A run one of whose resolved attempts has since been superseded never passes the gate again:
  once a node has a later attempt than one that carries a resolution, reconciliation of the run
  does not return, whatever else is in the store. A node that was resolved from UNKNOWN to FAILED
  or CANCELLED and then resumed is in this situation for good.
\<close>

theorem superseded_resolution_blocks_run:
  assumes wf: "mem_wf digest s" "nodes_distinct runId s" and outs: "outside_store now" "outside_store uuid"
    and res: "r \<in> set (m_resolutions s)"
    and att: "mapGet (m_attempts s) k = Some a" "na_node_attempt_id (content a) = ar_attempt_id (content r)" "na_run_id (content a) = runId"
    and st: "mapGet (m_states s) k' = Some st" "ns_run_id (content st) = runId" "ns_node_id (content st) = na_node_id (content a)"
    and later: "na_attempt_no (content a) < ns_latest_attempt_no (content st)"
  shows "fst (reconcileRun (mem_repository digest collate) now uuid runId s) \<noteq> Inr res'"
proof
  assume "fst (reconcileRun (mem_repository digest collate) now uuid runId s) = Inr res'"
  then obtain t where run: "reconcileRun (mem_repository digest collate) now uuid runId s = (Inr res', t)"
    by (metis prod.collapse)
  obtain c :: rc where R: "\<forall>n v. mapGet (rc_states c) n = Some v \<longrightarrow> detectState (groupByNode (runAttempts runId s)) ([], []) v = ([], []) \<and>
       (\<exists>st \<in> set (runStates collate runId s). ns_node_id (content st) = n \<and> ns_latest_attempt_no (content st) = ns_latest_attempt_no (content v))"
    "fst ` set (rc_states c) = (\<lambda>v. ns_node_id (content v)) ` set (runStates collate runId s)"
    "\<forall>e \<in> set (resolutionGroups (runResolutions runId s)). detectResolution (attemptsByIdMap (runAttempts runId s)) (rc_states c) [] e = []"
  proof (rule reconcileRun_success [OF wf outs run], goal_cases)
    case (1 run run' s2 c2)
    then show ?thesis by (intro that [of c2])
  qed
  have a: "a \<in> set (runAttempts runId s)"
    using att(1,3) by (force simp: runAttempts_def dest: map_of_SomeD)
  then have "r \<in> set (runResolutions runId s)" using res att(2) by (force simp: runResolutions_def)
  then have "ar_attempt_id (content r) \<in> fst ` set (resolutionGroups (runResolutions runId s))"
    using conjunct2 [OF pushTo_keys [of "[]" "\<lambda>r. ar_attempt_id (content r)" "runResolutions runId s"]]
    by (simp add: resolutionGroups_def)
  then obtain e where e: "e \<in> set (resolutionGroups (runResolutions runId s))" "fst e = ar_attempt_id (content r)" by auto
  have "fst e \<in> fst ` set (attemptsByIdMap (runAttempts runId s))"
    using a att(2) e(2) by (force simp: attemptsByIdMap_def)
  then obtain b where b: "mapGet (attemptsByIdMap (runAttempts runId s)) (fst e) = Some b"
    by (metis map_of_eq_None_iff option.exhaust set_map)
  have "b = a"
  proof -
    have "b \<in> set (runAttempts runId s)" "na_node_attempt_id (content b) = na_node_attempt_id (content a)"
      using attemptsByIdMap_get [OF b] e(2) att(2) by auto
    then obtain kb where kb: "mapGet (m_attempts s) kb = Some b"
      using wf(1) by (force simp: runAttempts_def mem_wf_def keys_distinct_def)
    then have "mapGet (m_attemptIds s) (na_node_attempt_id (content b)) = Some kb"
      "mapGet (m_attemptIds s) (na_node_attempt_id (content a)) = Some k"
      using wf(1) att(1) unfolding mem_wf_def attempts_wf_def by blast+
    with \<open>na_node_attempt_id (content b) = _\<close> kb att(1) show ?thesis by simp
  qed
  have stS: "st \<in> set (runStates collate runId s)"
  proof -
    have "ns_node_state_key (content st) = k'" using st(1) wf(1) unfolding mem_wf_def states_wf_def by blast
    with st(1,2) show ?thesis by (simp add: set_runStates [OF wf(1)])
  qed
  then obtain v where v: "mapGet (rc_states c) (na_node_id (content a)) = Some v"
  proof -
    have "na_node_id (content a) \<in> fst ` set (rc_states c)" unfolding R(2) using stS st(3) by force
    then show ?thesis using that by (metis map_of_eq_None_iff option.exhaust)
  qed
  then obtain st' where "st' \<in> set (runStates collate runId s)" "ns_node_id (content st') = na_node_id (content a)"
    "ns_latest_attempt_no (content st') = ns_latest_attempt_no (content v)" using R(1) by blast
  moreover from this have "st' = st"
    using distinct_runStates [OF wf, of collate] stS st(3) unfolding distinct_map inj_on_def by metis
  ultimately have "ns_latest_attempt_no (content v) = ns_latest_attempt_no (content st)" by simp
  moreover have "na_attempt_no (content a) = ns_latest_attempt_no (content v)"
    using R(3) e(1) b v \<open>b = a\<close> unfolding detectResolution_Nil by blast
  ultimately show False using later by simp
qed

definition supersededStore :: mem where
  "supersededStore = (oneNodeStore FAILED None FAILED)\<lparr>
     m_states := [(''k1'', versioned (sampleState\<lparr> ns_status := FAILED, ns_latest_attempt_no := 2, ns_revision := 5 \<rparr>) 5)],
     m_resolutions := [versioned (resolutionOf sampleResolveInput ''at1'' ''t2'') 1] \<rparr>"

lemma supersededStore_wf: "mem_wf padDigest supersededStore"
proof -
  have wf: "mem_wf padDigest (oneNodeStore FAILED None FAILED)"
    by (rule oneNodeStore_wf) (simp add: is_node_state_status_def)
  then show ?thesis
    by (auto simp: supersededStore_def mem_wf_def keys_distinct_def oneNodeStore_def resolutions_wf_def states_wf_def
        resolutionOf_def sampleAttempt_def newAttempt_def sampleState_def is_node_state_status_def split: if_splits)
qed

theorem superseded_resolution_blocks_run_witness:
  "fst (reconcileRun (mem_repository padDigest (\<lambda>_ _. True)) (retP ''t9'') (retP ''u1'') ''run1'' supersededStore)
     \<noteq> Inr \<lparr> rs_repaired = [], rs_aggregateUpdated = False \<rparr>"
proof (rule superseded_resolution_blocks_run [OF supersededStore_wf])
  show "nodes_distinct ''run1'' supersededStore" by (simp add: nodes_distinct_def supersededStore_def)
  show "versioned (resolutionOf sampleResolveInput ''at1'' ''t2'') 1 \<in> set (m_resolutions supersededStore)"
    by (simp add: supersededStore_def)
  show "mapGet (m_attempts supersededStore) sampleAttemptKey = Some (versioned (sampleAttempt FAILED) 2)"
    by (simp add: supersededStore_def oneNodeStore_def)
  show "mapGet (m_states supersededStore) ''k1'' =
      Some (versioned (sampleState\<lparr> ns_status := FAILED, ns_latest_attempt_no := 2, ns_revision := 5 \<rparr>) 5)"
    by (simp add: supersededStore_def)
qed (simp_all add: resolutionOf_def sampleAttempt_def newAttempt_def sampleState_def)

end
