(* ===== verification/Archive.thy ===== *)
theory Archive
  imports ResolveNode
begin

text \<open>
  Closing a run under the network lock: \<open>src/orchestration/archive-run.ts\<close>.
  \<open>archive_deps\<close> is what the command is given besides the repository: the lock manager, the lease
  monitor, the clock and the UUID source; building the manager or the monitor may throw (\<open>ad_manager\<close>, \<open>ad_monitor\<close>),
  the latter when the lock is already held; stopping the monitor cannot throw. The body of the command is split where the code is:
  \<open>archiveReview\<close> (may this run be closed), \<open>archiveWrite\<close> (write, and what to do when the
  outcome of the write is unclear), \<open>archiveAudit\<close>; each returns the result before the lock is
  released (\<open>BeforeRelease\<close>) or lets the next step go on.
\<close>

section \<open>Outcomes\<close>

datatype archive_code =
    ARC_LOCK_CONFLICT | ARC_LOCK_UNAVAILABLE | LEASE_INTERRUPTED | RUN_READ_FAILED
  | RUN_STATUS_NOT_CLOSABLE | RUN_UNKNOWN_NOT_CLOSABLE | RUN_NOT_TERMINAL | RUN_ON_HOLD | RUN_LIVE
  | ARCHIVE_WRITE_FAILED

datatype archive_pending_code = ARCHIVE_AUDIT_FAILED | ARC_AUDIT_CONFLICT | LEASE_INTERRUPTED_AFTER_ARCHIVE

datatype archive_outcome =
    ArchivedRecorded int
  | ArchivedPending int archive_pending_code
  | AlreadyArchived int
  | ArchiveUnconfirmed
  | ArchiveRejected "int option" archive_code

record archive_result =
  ao_run_id :: string
  ao_event_id :: string
  ao_lock_released :: bool
  ao_outcome :: archive_outcome

record ('s, 'ref) archive_deps =
  ad_manager :: "string \<Rightarrow> js_error + unit"
  ad_acquire :: "string \<Rightarrow> ('s, 'ref) prog"
  ad_release :: "'ref \<Rightarrow> ('s, unit) prog"
  ad_monitor :: "'ref \<Rightarrow> js_error + unit"
  ad_start :: "'ref \<Rightarrow> ('s, unit) prog"
  ad_stop :: "'ref \<Rightarrow> 's \<Rightarrow> 's"
  ad_tick :: "'ref \<Rightarrow> ('s, bool) prog"
  ad_now :: "('s, string) prog"
  ad_uuid :: "('s, string) prog"

record archive_input =
  ai_runId :: string
  ai_requestedBy :: string
  ai_reason :: string
  ai_servicePrincipal :: string

section \<open>The command\<close>

text \<open>The test is for a property \<open>code\<close> on any thrown object.\<close>

definition isLockConflict :: "js_error \<Rightarrow> bool" where
  "isLockConflict error = (case error of
     NetworkLockError code _ \<Rightarrow> code = LOCK_CONFLICT
   | CodedError code \<Rightarrow> code = ''LOCK_CONFLICT''
   | CanonicalKeyError code _ \<Rightarrow> code = ''LOCK_CONFLICT''
   | DescendantsError code \<Rightarrow> code = ''LOCK_CONFLICT''
   | CancelRequestError code \<Rightarrow> code = ''LOCK_CONFLICT''
   | ResolveNodeError code \<Rightarrow> code = ''LOCK_CONFLICT''
   | JobLockAuditError code \<Rightarrow> code = ''LOCK_CONFLICT''
   | EnsureRunError code _ _ \<Rightarrow> code = ''LOCK_CONFLICT''
   | InputPathError code \<Rightarrow> code = ''LOCK_CONFLICT''
   | _ \<Rightarrow> False)"

definition isRepositoryError :: "repository_error_code \<Rightarrow> js_error \<Rightarrow> bool" where
  "isRepositoryError code error = (case error of RepositoryError c _ \<Rightarrow> c = code | _ \<Rightarrow> False)"

definition closableProblem :: "status \<Rightarrow> archive_code option" where
  "closableProblem st =
     (if st = SUCCESS then Some RUN_STATUS_NOT_CLOSABLE
      else if st = UNKNOWN then Some RUN_UNKNOWN_NOT_CLOSABLE
      else if st = CREATED \<or> st = RUNNING then Some RUN_NOT_TERMINAL
      else None)"

text \<open>\<open>Inl\<close> of the final result, or \<open>Inr\<close> of the run that may be archived.\<close>

definition archiveReview ::
  "'s repository \<Rightarrow> ('s, bool) prog \<Rightarrow> string \<Rightarrow> ('s, archive_outcome + network_run versioned) prog" where
  "archiveReview R tick runId =
     bindP (attemptP (getRun R runId)) (\<lambda>r.
     case r of
       Inl _ \<Rightarrow> retP (Inl (ArchiveRejected None RUN_READ_FAILED))
     | Inr run \<Rightarrow>
         if nr_lifecycle_status (content run) = ARCHIVED then retP (Inl (AlreadyArchived (revision run)))
         else (case closableProblem (nr_status (content run)) of
           Some code \<Rightarrow> retP (Inl (ArchiveRejected (Some (revision run)) code))
         | None \<Rightarrow>
             bindP (attemptP (getCancelRequest R runId)) (\<lambda>c.
             case c of
               Inl _ \<Rightarrow> retP (Inl (ArchiveRejected (Some (revision run)) RUN_READ_FAILED))
             | Inr request \<Rightarrow>
                 if isCancelHold request then retP (Inl (ArchiveRejected (Some (revision run)) RUN_ON_HOLD))
                 else bindP tick (\<lambda>ok.
                   if \<not> ok then retP (Inl (ArchiveRejected (Some (revision run)) LEASE_INTERRUPTED))
                   else retP (Inr run)))))"

definition archiveAgain ::
  "'s repository \<Rightarrow> ('s, bool) prog \<Rightarrow> ('s, string) prog \<Rightarrow> string \<Rightarrow> network_run versioned \<Rightarrow>
   ('s, archive_outcome + network_run versioned) prog" where
  "archiveAgain R tick now runId reread =
     bindP tick (\<lambda>ok.
     if \<not> ok then retP (Inl (ArchiveRejected (Some (revision reread)) LEASE_INTERRUPTED))
     else bindP (attemptP (bindP now (\<lambda>at'. archiveRunRecord R runId (revision reread) at'))) (\<lambda>second.
       case second of
         Inr archived \<Rightarrow> retP (Inr archived)
       | Inl _ \<Rightarrow>
           bindP (attemptP (getRun R runId)) (\<lambda>final.
           case final of
             Inl _ \<Rightarrow> retP (Inl ArchiveUnconfirmed)
           | Inr f \<Rightarrow>
               if nr_lifecycle_status (content f) = ARCHIVED then retP (Inr f)
               else retP (Inl (ArchiveRejected (Some (revision f)) ARCHIVE_WRITE_FAILED)))))"

definition archiveWrite ::
  "'s repository \<Rightarrow> ('s, bool) prog \<Rightarrow> ('s, string) prog \<Rightarrow> string \<Rightarrow> network_run versioned \<Rightarrow>
   ('s, archive_outcome + network_run versioned) prog" where
  "archiveWrite R tick now runId run =
     bindP (attemptP (bindP now (\<lambda>at'. archiveRunRecord R runId (revision run) at'))) (\<lambda>first.
     case first of
       Inr archived \<Rightarrow> retP (Inr archived)
     | Inl e \<Rightarrow>
         bindP (attemptP (getRun R runId)) (\<lambda>r.
         case r of
           Inl _ \<Rightarrow> retP (Inl ArchiveUnconfirmed)
         | Inr reread \<Rightarrow>
             if nr_lifecycle_status (content reread) = ARCHIVED
             then retP (if isRepositoryError REVISION_CONFLICT e
                        then Inl (AlreadyArchived (revision reread)) else Inr reread)
             else if isRepositoryError REVISION_CONFLICT e then retP (Inl ArchiveUnconfirmed)
             else if \<not> isRepositoryError AMBIGUOUS_WRITE e
             then retP (Inl (ArchiveRejected (Some (revision reread)) ARCHIVE_WRITE_FAILED))
             else archiveAgain R tick now runId reread))"

definition sameArchiveAudit :: "operation_audit \<Rightarrow> string \<Rightarrow> run_archived_audit \<Rightarrow> bool" where
  "sameArchiveAudit left eventId right = (case left of
     RunArchivedOperationAudit i a \<Rightarrow> i = eventId \<and> aa_run_id a = aa_run_id right \<and>
       aa_previous_status a = aa_previous_status right \<and>
       aa_run_revision_before a = aa_run_revision_before right
   | _ \<Rightarrow> False)"

definition archiveAudit ::
  "'s repository \<Rightarrow> ('s, bool) prog \<Rightarrow> archive_input \<Rightarrow> string \<Rightarrow> network_run versioned \<Rightarrow>
   network_run versioned \<Rightarrow> ('s, archive_outcome) prog" where
  "archiveAudit R tick input eventId run archived =
     (let rev' = revision archived;
          audit = \<lparr> aa_run_id = ai_runId input, aa_requested_by = ai_requestedBy input,
            aa_reason = ai_reason input, aa_archived_at = nr_updated_at (content archived),
            aa_previous_status = nr_status (content run), aa_run_revision_before = revision run,
            aa_service_principal = ai_servicePrincipal input \<rparr>
      in bindP tick (\<lambda>ok.
      if \<not> ok then retP (ArchivedPending rev' LEASE_INTERRUPTED_AFTER_ARCHIVE)
      else bindP (attemptP (appendOperationAudit R (RunArchivedOperationAudit eventId audit))) (\<lambda>r.
        case r of
          Inr _ \<Rightarrow> retP (ArchivedRecorded rev')
        | Inl e \<Rightarrow>
            if isRepositoryError AUDIT_CONFLICT e then retP (ArchivedPending rev' ARC_AUDIT_CONFLICT)
            else if isRepositoryError AMBIGUOUS_WRITE e then
              bindP (attemptP (getOperationAuditByEventId R eventId)) (\<lambda>f.
              case f of
                Inl _ \<Rightarrow> retP (ArchivedPending rev' ARCHIVE_AUDIT_FAILED)
              | Inr (Some found) \<Rightarrow>
                  retP (if sameArchiveAudit (content found) eventId audit then ArchivedRecorded rev'
                        else ArchivedPending rev' ARC_AUDIT_CONFLICT)
              | Inr None \<Rightarrow>
                  bindP (attemptP (appendOperationAudit R (RunArchivedOperationAudit eventId audit))) (\<lambda>again.
                  retP (case again of Inr _ \<Rightarrow> ArchivedRecorded rev'
                                    | Inl _ \<Rightarrow> ArchivedPending rev' ARCHIVE_AUDIT_FAILED)))
            else retP (ArchivedPending rev' ARCHIVE_AUDIT_FAILED))))"

definition archiveBody ::
  "'s repository \<Rightarrow> ('s, 'ref) archive_deps \<Rightarrow> archive_input \<Rightarrow> string \<Rightarrow> 'ref \<Rightarrow> ('s, archive_outcome) prog" where
  "archiveBody R d input eventId reference =
     bindP (ad_start d reference) (\<lambda>_.
     bindP (archiveReview R (ad_tick d reference) (ai_runId input)) (\<lambda>review.
     case review of
       Inl outcome \<Rightarrow> retP outcome
     | Inr run \<Rightarrow>
         bindP (archiveWrite R (ad_tick d reference) (ad_now d) (ai_runId input) run) (\<lambda>written.
         case written of
           Inl outcome \<Rightarrow> retP outcome
         | Inr archived \<Rightarrow> archiveAudit R (ad_tick d reference) input eventId run archived)))"

text \<open>\<open>finish\<close>: a failed release is reported, not thrown.\<close>

definition archiveFinish ::
  "('s, 'ref) archive_deps \<Rightarrow> archive_input \<Rightarrow> string \<Rightarrow> 'ref \<Rightarrow> archive_outcome \<Rightarrow> ('s, archive_result) prog" where
  "archiveFinish d input eventId reference outcome =
     bindP (writeP (ad_stop d reference)) (\<lambda>_.
     bindP (attemptP (ad_release d reference)) (\<lambda>r.
     retP \<lparr> ao_run_id = ai_runId input, ao_event_id = eventId,
       ao_lock_released = (case r of Inl _ \<Rightarrow> False | Inr _ \<Rightarrow> True), ao_outcome = outcome \<rparr>))"

definition archiveRun ::
  "'s repository \<Rightarrow> ('s, 'ref) archive_deps \<Rightarrow> archive_input \<Rightarrow> ('s, archive_result) prog" where
  "archiveRun R d input =
     bindP (ad_uuid d) (\<lambda>u.
     let eventId = ''archive_'' @ u in
     bindP (liftP (ad_manager d eventId)) (\<lambda>_.
     bindP (attemptP (ad_acquire d eventId)) (\<lambda>acquired.
     case acquired of
       Inl e \<Rightarrow> retP \<lparr> ao_run_id = ai_runId input, ao_event_id = eventId, ao_lock_released = True,
         ao_outcome = ArchiveRejected None (if isLockConflict e then ARC_LOCK_CONFLICT else ARC_LOCK_UNAVAILABLE) \<rparr>
     | Inr reference \<Rightarrow>
         bindP (liftP (ad_monitor d reference)) (\<lambda>_.
         catchP (bindP (archiveBody R d input eventId reference) (archiveFinish d input eventId reference))
           (\<lambda>e. bindP (writeP (ad_stop d reference)) (\<lambda>_.
                bindP (attemptP (ad_release d reference)) (\<lambda>_. throwP e)))))))"

section \<open>Lemmas\<close>

definition deps_keep :: "('s \<Rightarrow> 's \<Rightarrow> bool) \<Rightarrow> ('s, 'ref) archive_deps \<Rightarrow> bool" where
  "deps_keep T d \<longleftrightarrow> (\<forall>i. guarantees T (ad_acquire d i)) \<and> (\<forall>r. guarantees T (ad_release d r)) \<and>
     (\<forall>r. guarantees T (ad_start d r)) \<and> (\<forall>r. guarantees T (writeP (ad_stop d r))) \<and>
     (\<forall>r. guarantees T (ad_tick d r)) \<and> guarantees T (ad_now d) \<and> guarantees T (ad_uuid d)"

context repository_client
begin

lemma archiveReview_keeps [guarantees_intro]:
  "guarantees T tick \<Longrightarrow> guarantees T (archiveReview R tick runId)"
  unfolding archiveReview_def by (intro guarantees_intro)

lemma archiveWrite_keeps [guarantees_intro]:
  "guarantees T tick \<Longrightarrow> guarantees T clock \<Longrightarrow> guarantees T (archiveWrite R tick clock runId run)"
  unfolding archiveWrite_def archiveAgain_def by (intro guarantees_intro)

lemma archiveAudit_keeps [guarantees_intro]:
  "guarantees T tick \<Longrightarrow> guarantees T (archiveAudit R tick input eventId run archived)"
  unfolding archiveAudit_def Let_def by (intro guarantees_intro)

lemma archiveRun_keeps [guarantees_intro]:
  assumes "deps_keep T d"
  shows "guarantees T (archiveRun R d input)"
proof -
  have [guarantees_intro]: "guarantees T (ad_acquire d i)" "guarantees T (ad_release d r)" "guarantees T (ad_start d r)"
    "guarantees T (writeP (ad_stop d r))" "guarantees T (ad_tick d r)" "guarantees T (ad_now d)" "guarantees T (ad_uuid d)" for i r
    using assms by (simp_all add: deps_keep_def)
  show ?thesis
    unfolding archiveRun_def archiveBody_def archiveFinish_def Let_def by (intro guarantees_intro)
qed

end

text \<open>Dependencies that do not write to the store, and what their runs leave as it was.\<close>

definition deps_outside :: "('w mem_scheme, 'ref) archive_deps \<Rightarrow> bool" where
  "deps_outside d \<longleftrightarrow> (\<forall>i. outside_store (ad_acquire d i)) \<and> (\<forall>r. outside_store (ad_release d r)) \<and>
     (\<forall>r. outside_store (ad_start d r)) \<and> (\<forall>r. outside_store (writeP (ad_stop d r))) \<and>
     (\<forall>r. outside_store (ad_tick d r)) \<and> outside_store (ad_now d) \<and> outside_store (ad_uuid d)"

lemma outside_run: "outside_store m \<Longrightarrow> m s = (r, t) \<Longrightarrow> mem.truncate t = mem.truncate s"
  unfolding outside_store_def by (metis snd_conv)

lemma truncate_fields:
  assumes "mem.truncate (t :: 'w mem_scheme) = mem.truncate (s :: 'w mem_scheme)"
  shows "m_runs t = m_runs s" "m_cancelRequests t = m_cancelRequests s" "m_operationAudits t = m_operationAudits s"
  using assms by (simp_all add: mem.truncate_def)

text \<open>What the three steps do to the run and to the audits of the in-memory store.\<close>

definition runs_and_audits :: "'w mem_scheme \<Rightarrow> network_run versioned jsmap \<times> operation_audit versioned list" where
  "runs_and_audits s = (m_runs s, m_operationAudits s)"

lemma outside_runs_and_audits:
  "outside_store m \<Longrightarrow> m s = (r, t) \<Longrightarrow> runs_and_audits t = runs_and_audits s"
  using truncate_fields [OF outside_run] by (auto simp: runs_and_audits_def)

lemma archiveReview_run:
  assumes "archiveReview (mem_repository digest collate) tick runId s = (Inr x, t)" "outside_store tick"
  shows "runs_and_audits t = runs_and_audits s"
    and "x = Inr run \<Longrightarrow> mapGet (m_runs s) runId = Some run \<and> nr_lifecycle_status (content run) \<noteq> ARCHIVED \<and>
      closableProblem (nr_status (content run)) = None \<and> \<not> isCancelHold (mapGet (m_cancelRequests s) runId)"
    and "x = Inl outcome \<Longrightarrow> (\<exists>r. outcome = AlreadyArchived r) \<or> (\<exists>r c. outcome = ArchiveRejected r c)"
  using assms
  by (auto simp: archiveReview_def im_getRun_def im_getCancelRequest_def required_def
      elim!: bindP_cases split: option.splits sum.splits if_splits dest: outside_runs_and_audits)

definition archivedRun :: "network_run versioned \<Rightarrow> string \<Rightarrow> network_run versioned" where
  "archivedRun run at' = nextStored run ((content run)\<lparr> nr_lifecycle_status := ARCHIVED, nr_updated_at := at' \<rparr>)"

lemma archive_try:
  assumes "outside_store now" "mapGet (m_runs s) i = Some run"
    and "bindP now (\<lambda>at'. im_archiveRun i (revision run) at') s = (r, t)"
  shows "(\<exists>at'. r = Inr (archivedRun run at') \<and>
      runs_and_audits t = (mapSet i (archivedRun run at') (m_runs s), m_operationAudits s)) \<or>
    (\<exists>e. r = Inl e \<and> runs_and_audits t = runs_and_audits s)"
  using assms(3)
proof (cases rule: bindP_cases)
  case (1 e)
  then show ?thesis using outside_runs_and_audits [OF assms(1)] by blast
next
  case (2 at' s')
  have "runs_and_audits s' = runs_and_audits s" using outside_runs_and_audits [OF assms(1) 2(1)] .
  with 2(2) assms(2) show ?thesis
    by (auto simp: runs_and_audits_def im_archiveRun_def im_run_defs archivedRun_def)
qed

lemma archiveAgain_run:
  assumes "archiveAgain (mem_repository digest collate) tick now runId run s = (Inr x, t)"
    and "mapGet (m_runs s) runId = Some run" "nr_lifecycle_status (content run) \<noteq> ARCHIVED"
    and out: "outside_store now" "outside_store tick"
  shows "(\<exists>at'. x = Inr (archivedRun run at') \<and>
      runs_and_audits t = (mapSet runId (archivedRun run at') (m_runs s), m_operationAudits s)) \<or>
    (\<exists>outcome. x = Inl outcome \<and> runs_and_audits t = runs_and_audits s \<and>
       (outcome = ArchiveUnconfirmed \<or> (\<exists>r c. outcome = ArchiveRejected r c)))"
proof -
  from assms(1) obtain ok s1 where 1: "tick s = (Inr ok, s1)" and
    2: "(if \<not> ok then retP (Inl (ArchiveRejected (Some (revision run)) LEASE_INTERRUPTED))
     else bindP (attemptP (bindP now (\<lambda>at'. archiveRunRecord (mem_repository digest collate) runId (revision run) at'))) (\<lambda>second.
       case second of
         Inr archived \<Rightarrow> retP (Inr archived)
       | Inl _ \<Rightarrow>
           bindP (attemptP (getRun (mem_repository digest collate) runId)) (\<lambda>final.
           case final of
             Inl _ \<Rightarrow> retP (Inl ArchiveUnconfirmed)
           | Inr f \<Rightarrow>
               if nr_lifecycle_status (content f) = ARCHIVED then retP (Inr f)
               else retP (Inl (ArchiveRejected (Some (revision f)) ARCHIVE_WRITE_FAILED))))) s1 = (Inr x, t)"
    by (auto simp: archiveAgain_def elim!: bindP_cases)
  have s1: "runs_and_audits s1 = runs_and_audits s" by (rule outside_runs_and_audits [OF out(2) 1])
  then have run1: "mapGet (m_runs s1) runId = Some run" using assms(2) by (simp add: runs_and_audits_def)
  obtain r s2 where r: "bindP now (\<lambda>at'. im_archiveRun runId (revision run) at') s1 = (r, s2)" by fastforce
  note tried = archive_try [OF out(1) run1 r]
  show ?thesis
    using 2 r tried s1 run1 assms(3)
    by (auto simp: runs_and_audits_def im_getRun_def required_def bindP_run split: if_splits)
qed

lemma archiveWrite_run:
  assumes "archiveWrite (mem_repository digest collate) tick now runId run s = (Inr x, t)"
    and run: "mapGet (m_runs s) runId = Some run" "nr_lifecycle_status (content run) \<noteq> ARCHIVED"
    and out: "outside_store now" "outside_store tick"
  shows "(\<exists>at'. x = Inr (archivedRun run at') \<and>
      runs_and_audits t = (mapSet runId (archivedRun run at') (m_runs s), m_operationAudits s)) \<or>
    (\<exists>outcome. x = Inl outcome \<and> runs_and_audits t = runs_and_audits s \<and>
       (outcome = ArchiveUnconfirmed \<or> (\<exists>r c. outcome = ArchiveRejected r c)))"
proof -
  obtain r s1 where r: "bindP now (\<lambda>at'. im_archiveRun runId (revision run) at') s = (r, s1)" by fastforce
  note tried = archive_try [OF out(1) run(1) r]
  show ?thesis
  proof (cases r)
    case (Inr v)
    with assms(1) r tried show ?thesis by (auto simp: archiveWrite_def bindP_run)
  next
    case (Inl e)
    with tried have s1: "runs_and_audits s1 = runs_and_audits s" by auto
    then have run1: "mapGet (m_runs s1) runId = Some run" using run(1) by (simp add: runs_and_audits_def)
    from assms(1) r Inl run1 run(2) have
      "(if isRepositoryError REVISION_CONFLICT e then retP (Inl ArchiveUnconfirmed)
        else if \<not> isRepositoryError AMBIGUOUS_WRITE e then retP (Inl (ArchiveRejected (Some (revision run)) ARCHIVE_WRITE_FAILED))
        else archiveAgain (mem_repository digest collate) tick now runId run) s1 = (Inr x, t)"
      by (simp add: archiveWrite_def bindP_run im_getRun_def required_def)
    then show ?thesis
      using s1 archiveAgain_run [OF _ run1 run(2) out] by (auto simp: runs_and_audits_def split: if_splits)
  qed
qed

lemma archiveAudit_run:
  assumes "archiveAudit (mem_repository digest collate) tick input eventId run archived s = (Inr outcome, t)"
    and "outside_store tick"
  shows "m_runs t = m_runs s"
    and "(outcome = ArchivedRecorded (revision archived) \<and>
          (\<exists>a. m_operationAudits t = m_operationAudits s @ [versioned (RunArchivedOperationAudit eventId a) 1] \<and>
             aa_run_id a = ai_runId input \<and> aa_run_revision_before a = revision run \<and>
             aa_previous_status a = nr_status (content run) \<and> aa_requested_by a = ai_requestedBy input)) \<or>
        (\<exists>c. outcome = ArchivedPending (revision archived) c \<and> m_operationAudits t = m_operationAudits s)"
proof -
  from assms(1) obtain ok s1 where 1: "tick s = (Inr ok, s1)"
    by (auto simp: archiveAudit_def Let_def elim!: bindP_cases)
  have same: "m_runs s1 = m_runs s" "m_operationAudits s1 = m_operationAudits s"
    using outside_runs_and_audits [OF assms(2) 1] by (simp_all add: runs_and_audits_def)
  have *: "m_runs t = m_runs s1 \<and> ((outcome = ArchivedRecorded (revision archived) \<and>
          (\<exists>a. m_operationAudits t = m_operationAudits s1 @ [versioned (RunArchivedOperationAudit eventId a) 1] \<and>
             aa_run_id a = ai_runId input \<and> aa_run_revision_before a = revision run \<and>
             aa_previous_status a = nr_status (content run) \<and> aa_requested_by a = ai_requestedBy input)) \<or>
        (\<exists>c. outcome = ArchivedPending (revision archived) c \<and> m_operationAudits t = m_operationAudits s1))"
    using assms(1) 1
    by (auto simp: archiveAudit_def Let_def im_appendOperationAudit_def im_run_defs isRepositoryError_def
        split: if_splits)
  then show "m_runs t = m_runs s" "(outcome = ArchivedRecorded (revision archived) \<and>
          (\<exists>a. m_operationAudits t = m_operationAudits s @ [versioned (RunArchivedOperationAudit eventId a) 1] \<and>
             aa_run_id a = ai_runId input \<and> aa_run_revision_before a = revision run \<and>
             aa_previous_status a = nr_status (content run) \<and> aa_requested_by a = ai_requestedBy input)) \<or>
        (\<exists>c. outcome = ArchivedPending (revision archived) c \<and> m_operationAudits t = m_operationAudits s)"
    unfolding same by blast+
qed

text \<open>What an outcome tells about the store before and after the body of the command.\<close>

definition archive_told ::
  "('w mem_scheme, 'ref) archive_deps \<Rightarrow> archive_input \<Rightarrow> string \<Rightarrow> 'w mem_scheme \<Rightarrow> archive_outcome \<Rightarrow> 'w mem_scheme \<Rightarrow> bool" where
  "archive_told d input eventId s outcome t \<longleftrightarrow> (case outcome of
      ArchivedRecorded r \<Rightarrow> (\<exists>v at' a. mapGet (m_runs s) (ai_runId input) = Some v \<and>
        nr_status (content v) \<in> {FAILED, CANCELLED} \<and> nr_lifecycle_status (content v) \<noteq> ARCHIVED \<and>
        \<not> isCancelHold (mapGet (m_cancelRequests s) (ai_runId input)) \<and> r = revision v + 1 \<and>
        m_runs t = mapSet (ai_runId input) (archivedRun v at') (m_runs s) \<and>
        m_operationAudits t = m_operationAudits s @ [versioned (RunArchivedOperationAudit eventId a) 1] \<and>
        aa_run_id a = ai_runId input \<and> aa_run_revision_before a = revision v \<and> aa_requested_by a = ai_requestedBy input)
    | ArchivedPending r c \<Rightarrow> (\<exists>v at'. mapGet (m_runs s) (ai_runId input) = Some v \<and>
        nr_status (content v) \<in> {FAILED, CANCELLED} \<and> nr_lifecycle_status (content v) \<noteq> ARCHIVED \<and>
        \<not> isCancelHold (mapGet (m_cancelRequests s) (ai_runId input)) \<and> r = revision v + 1 \<and>
        m_runs t = mapSet (ai_runId input) (archivedRun v at') (m_runs s) \<and> m_operationAudits t = m_operationAudits s)
    | _ \<Rightarrow> m_runs t = m_runs s \<and> m_operationAudits t = m_operationAudits s)"

lemma archiveBody_run:
  assumes body: "archiveBody (mem_repository digest collate) d input eventId ref s = (Inr outcome, t)"
    and out: "deps_outside d"
    and typed: "\<And>v. mapGet (m_runs s) (ai_runId input) = Some v \<Longrightarrow> is_network_run_status (nr_status (content v))"
  shows "archive_told d input eventId s outcome t"
proof -
  let ?M = "mem_repository digest collate"
  have o: "outside_store (ad_start d ref)" "outside_store (ad_tick d ref)" "outside_store (ad_now d)"
    using out by (simp_all add: deps_outside_def)
  from body obtain s1 review s2 where 1: "ad_start d ref s = (Inr (), s1)"
    and 2: "archiveReview ?M (ad_tick d ref) (ai_runId input) s1 = (Inr review, s2)"
    and 3: "(case review of Inl outcome \<Rightarrow> retP outcome
      | Inr run \<Rightarrow> bindP (archiveWrite ?M (ad_tick d ref) (ad_now d) (ai_runId input) run) (\<lambda>written.
         case written of
           Inl outcome \<Rightarrow> retP outcome
         | Inr archived \<Rightarrow> archiveAudit ?M (ad_tick d ref) input eventId run archived)) s2 = (Inr outcome, t)"
    by (auto simp: archiveBody_def elim!: bindP_cases)
  note s1 = truncate_fields [OF outside_run [OF o(1) 1]]
  have s2: "m_runs s2 = m_runs s" "m_operationAudits s2 = m_operationAudits s"
    using archiveReview_run(1) [OF 2 o(2)] s1 by (simp_all add: runs_and_audits_def)
  show ?thesis
  proof (cases review)
    case (Inl x)
    with 3 archiveReview_run(3) [OF 2 o(2)] s2 show ?thesis by (auto simp: archive_told_def)
  next
    case (Inr run)
    note review = archiveReview_run(2) [OF 2 o(2) Inr]
    then have run: "mapGet (m_runs s2) (ai_runId input) = Some run" "nr_lifecycle_status (content run) \<noteq> ARCHIVED"
      using s1 s2 by simp_all
    have closable: "nr_status (content run) \<in> {FAILED, CANCELLED}"
      using review typed s1 by (auto simp: closableProblem_def is_network_run_status_def split: if_splits)
    have hold: "\<not> isCancelHold (mapGet (m_cancelRequests s) (ai_runId input))" using review s1 by simp
    from 3 Inr obtain w s3 where 4: "archiveWrite ?M (ad_tick d ref) (ad_now d) (ai_runId input) run s2 = (Inr w, s3)"
      and 5: "(case w of Inl outcome \<Rightarrow> retP outcome
         | Inr archived \<Rightarrow> archiveAudit ?M (ad_tick d ref) input eventId run archived) s3 = (Inr outcome, t)"
      by (auto elim!: bindP_cases)
    from archiveWrite_run [OF 4 run o(3,2)] consider
        (written) at' where "w = Inr (archivedRun run at')"
          "runs_and_audits s3 = (mapSet (ai_runId input) (archivedRun run at') (m_runs s2), m_operationAudits s2)"
      | (not_done) x where "w = Inl x" "runs_and_audits s3 = runs_and_audits s2"
          "x = ArchiveUnconfirmed \<or> (\<exists>r c. x = ArchiveRejected r c)"
      by blast
    then show ?thesis
    proof cases
      case written
      with 5 have "archiveAudit ?M (ad_tick d ref) input eventId run (archivedRun run at') s3 = (Inr outcome, t)" by simp
      from archiveAudit_run [OF this o(2)] written(2) run(1) run(2) closable hold s2 show ?thesis
        by (auto simp: archive_told_def runs_and_audits_def archivedRun_def)
    next
      case not_done
      with 5 s2 show ?thesis by (auto simp: archive_told_def runs_and_audits_def)
    qed
  qed
qed

section \<open>Properties\<close>

text \<open>
  C5: The archive command tells the truth. Over the in-memory store, with a lock, a lease monitor,
  a clock and a UUID source that do not write to it: when it reports the run archived, the run had
  failed or been cancelled (no other status is closable), was not archived and not on hold, and it
  is now archived under the next revision, with an audit of who closed it and from which revision
  unless the report says the audit is pending; with every other report neither the runs nor the
  audits have changed.
\<close>

theorem archive_report_truthful:
  assumes run: "archiveRun (mem_repository digest collate) d input s = (Inr res, t)"
    and out: "deps_outside d"
    and typed: "\<And>v. mapGet (m_runs s) (ai_runId input) = Some v \<Longrightarrow> is_network_run_status (nr_status (content v))"
  shows "case ao_outcome res of
      ArchivedRecorded r \<Rightarrow> (\<exists>v at' a. mapGet (m_runs s) (ai_runId input) = Some v \<and>
        nr_status (content v) \<in> {FAILED, CANCELLED} \<and> nr_lifecycle_status (content v) \<noteq> ARCHIVED \<and>
        \<not> isCancelHold (mapGet (m_cancelRequests s) (ai_runId input)) \<and> r = revision v + 1 \<and>
        m_runs t = mapSet (ai_runId input) (archivedRun v at') (m_runs s) \<and>
        m_operationAudits t = m_operationAudits s @ [versioned (RunArchivedOperationAudit (ao_event_id res) a) 1] \<and>
        aa_run_id a = ai_runId input \<and> aa_run_revision_before a = revision v \<and> aa_requested_by a = ai_requestedBy input)
    | ArchivedPending r c \<Rightarrow> (\<exists>v at'. mapGet (m_runs s) (ai_runId input) = Some v \<and>
        nr_status (content v) \<in> {FAILED, CANCELLED} \<and> nr_lifecycle_status (content v) \<noteq> ARCHIVED \<and>
        \<not> isCancelHold (mapGet (m_cancelRequests s) (ai_runId input)) \<and> r = revision v + 1 \<and>
        m_runs t = mapSet (ai_runId input) (archivedRun v at') (m_runs s) \<and> m_operationAudits t = m_operationAudits s)
    | _ \<Rightarrow> m_runs t = m_runs s \<and> m_operationAudits t = m_operationAudits s"
proof -
  let ?M = "mem_repository digest collate"
  have o: "outside_store (ad_acquire d i)" "outside_store (ad_release d r)" "outside_store (ad_start d r)"
    "outside_store (writeP (ad_stop d r))" "outside_store (ad_tick d r)" "outside_store (ad_now d)" "outside_store (ad_uuid d)" for i r
    using out by (simp_all add: deps_outside_def)
  from run obtain u s1 where 1: "ad_uuid d s = (Inr u, s1)" by (auto simp: archiveRun_def elim!: bindP_cases)
  note s1 = outside_run [OF o(7) 1]
  from run 1 have manager: "ad_manager d (''archive_'' @ u) = Inr ()"
    by (cases "ad_manager d (''archive_'' @ u)") (auto simp: archiveRun_def bindP_run Let_def)
  obtain a s2 where 2: "ad_acquire d (''archive_'' @ u) s1 = (a, s2)" by fastforce
  have s2: "mem.truncate s2 = mem.truncate s" using outside_run [OF o(1) 2] s1 by simp
  show ?thesis
  proof (cases a)
    case (Inl e)
    with run 1 2 manager have "ao_outcome res = ArchiveRejected None (if isLockConflict e then ARC_LOCK_CONFLICT else ARC_LOCK_UNAVAILABLE)" "t = s2"
      by (auto simp: archiveRun_def bindP_run Let_def)
    with truncate_fields [OF s2] show ?thesis by simp
  next
    case (Inr ref)
    let ?body = "archiveBody ?M d input (''archive_'' @ u) ref"
    let ?finish = "archiveFinish d input (''archive_'' @ u) ref"
    from run 1 2 Inr manager have body: "bindP ?body ?finish s2 = (Inr res, t)"
      by (auto simp: archiveRun_def bindP_run Let_def catchP_def split: prod.splits sum.splits)
    then obtain outcome s3 where 3: "?body s2 = (Inr outcome, s3)" and 4: "?finish outcome s3 = (Inr res, t)"
      by (auto elim!: bindP_cases)
    have res: "ao_outcome res = outcome" "ao_event_id res = ''archive_'' @ u"
      using 4 by (auto simp: archiveFinish_def bindP_run split: prod.splits sum.splits)
    have "mem.truncate t = mem.truncate s3"
    proof -
      have "t = snd (ad_release d ref (ad_stop d ref s3))"
        using 4 by (auto simp: archiveFinish_def bindP_run split: prod.splits sum.splits)
      with o(2) [of ref] o(4) [of ref] show ?thesis by (simp add: outside_store_def)
    qed
    note t = truncate_fields [OF this] and s2 = truncate_fields [OF s2]
    have "archive_told d input (''archive_'' @ u) s2 outcome s3"
      by (rule archiveBody_run [OF 3 out]) (use typed s2 in simp)
    then show ?thesis
      unfolding archive_told_def res t s2 .
  qed
qed

text \<open>Dependencies that always succeed and touch nothing, and a failed run of the sample store.\<close>

definition idleDeps :: "('s, unit) archive_deps" where
  "idleDeps = \<lparr> ad_manager = (\<lambda>_. Inr ()), ad_acquire = (\<lambda>_. retP ()), ad_release = (\<lambda>_. retP ()),
     ad_monitor = (\<lambda>_. Inr ()), ad_start = (\<lambda>_. retP ()),
     ad_stop = (\<lambda>_ s. s), ad_tick = (\<lambda>_. retP True), ad_now = retP ''T9'', ad_uuid = retP ''u'' \<rparr>"

definition failedStore :: "mem" where
  "failedStore = emptyMem\<lparr> m_runs := [(''run1'', versioned (sampleRun\<lparr> nr_status := FAILED \<rparr>) 3)] \<rparr>"

definition sampleArchiveInput :: archive_input where
  "sampleArchiveInput = \<lparr> ai_runId = ''run1'', ai_requestedBy = ''ops'', ai_reason = ''done'', ai_servicePrincipal = ''svc'' \<rparr>"

lemma archive_report_truthful_witness:
  "case archiveRun (mem_repository padDigest (\<lambda>_ _. False)) idleDeps sampleArchiveInput failedStore of
     (Inr res, t) \<Rightarrow> ao_outcome res = ArchivedRecorded 4 \<and>
       (\<exists>v at'. mapGet (m_runs failedStore) ''run1'' = Some v \<and>
         m_runs t = mapSet ''run1'' (archivedRun v at') (m_runs failedStore))
   | _ \<Rightarrow> False"
proof -
  let ?res = "\<lparr> ao_run_id = ''run1'', ao_event_id = ''archive_u'', ao_lock_released = True, ao_outcome = ArchivedRecorded 4 \<rparr>"
  obtain t where run: "archiveRun (mem_repository padDigest (\<lambda>_ _. False)) idleDeps sampleArchiveInput failedStore = (Inr ?res, t)"
    by (simp add: archiveRun_def archiveBody_def archiveReview_def archiveWrite_def archiveAudit_def archiveFinish_def
        idleDeps_def failedStore_def sampleArchiveInput_def sampleRun_def im_getRun_def im_getCancelRequest_def
        im_archiveRun_def im_appendOperationAudit_def im_run_defs required_def closableProblem_def isCancelHold_def
        bindP_run catchP_def Let_def emptyMem_def)
  have "deps_outside (idleDeps :: (mem, unit) archive_deps)"
    by (simp add: deps_outside_def idleDeps_def outside_store_def)
  from archive_report_truthful [OF run this] run show ?thesis
    by (auto simp: failedStore_def sampleArchiveInput_def sampleRun_def is_network_run_status_def)
qed

text \<open>
  The lock is never kept by a finished archive command whose monitor can be built. Take any fact \<open>held\<close> about the lock
  that a failed acquisition and every release (also one that reports a failure) make false. However
  the repository, the monitor, the clock and the UUID source behave, once \<open>archiveRun\<close> is over
  - with a report or with a thrown error - the lock is not held, provided it was not held before
  and making a UUID does not take it.
\<close>

theorem archive_releases_lock:
  assumes monitor: "\<And>ref. ad_monitor d ref = Inr ()" and "\<And>i s e t. ad_acquire d i s = (Inl e, t) \<Longrightarrow> \<not> held t"
    and "\<And>ref s r t. ad_release d ref s = (r, t) \<Longrightarrow> \<not> held t"
    and "\<And>s r t. \<not> held s \<Longrightarrow> ad_uuid d s = (r, t) \<Longrightarrow> \<not> held t"
    and "\<not> held s" "archiveRun R d input s = (res, t)"
  shows "\<not> held t"
proof -
  have release: "\<not> held (snd (ad_release d ref s))" for ref s
    using assms(3) [of ref s "fst (ad_release d ref s)"] by simp
  have finish: "archiveFinish d input i ref x s = (r, t) \<Longrightarrow> \<not> held t \<and> (\<exists>y. r = Inr y)" for i ref x s r t
    using release by (auto simp: archiveFinish_def bindP_run)
  from assms(6) show ?thesis
    unfolding archiveRun_def Let_def
  proof (cases rule: bindP_cases)
    case (1 e)
    then show ?thesis using assms(4,5) by blast
  next
    case (2 u s1)
    obtain a s2 where a: "ad_acquire d (''archive_'' @ u) s1 = (a, s2)" by fastforce
    show ?thesis
    proof (cases "ad_manager d (''archive_'' @ u)")
      case (Inl e)
      with 2 assms(4,5) show ?thesis by (simp add: bindP_run)
    next
    case manager: (Inr x)
    show ?thesis
    proof (cases a)
      case (Inl e)
      with 2(2) a manager assms(2) [of _ s1] show ?thesis by (auto simp: bindP_run)
    next
      case (Inr ref)
      obtain b s3 where b: "archiveBody R d input (''archive_'' @ u) ref s2 = (b, s3)" by fastforce
      show ?thesis
      proof (cases b)
        case (Inl e)
        with 2(2) a manager monitor b \<open>a = Inr ref\<close> release show ?thesis by (auto simp: bindP_run catchP_def)
      next
        case (Inr x)
        obtain y s4 where f: "archiveFinish d input (''archive_'' @ u) ref x s3 = (y, s4)" by fastforce
        with finish obtain z where "y = Inr z" "\<not> held s4" by blast
        with 2(2) a manager monitor b f Inr \<open>a = Inr ref\<close> show ?thesis by (auto simp: bindP_run catchP_def)
      qed
    qed
    qed
  qed
qed

text \<open>A lock that is one bit beside the store.\<close>

definition bitDeps :: "(bool mem_scheme, unit) archive_deps" where
  "bitDeps = \<lparr> ad_manager = (\<lambda>_. Inr ()), ad_acquire = (\<lambda>_. writeP (mem.more_update (\<lambda>_. True))),
     ad_release = (\<lambda>_. writeP (mem.more_update (\<lambda>_. False))), ad_monitor = (\<lambda>_. Inr ()), ad_start = (\<lambda>_. retP ()),
     ad_stop = (\<lambda>_ s. s), ad_tick = (\<lambda>_. retP True), ad_now = retP ''T9'', ad_uuid = retP ''u'' \<rparr>"

lemma archive_releases_lock_witness:
  "\<not> mem.more (snd (archiveRun (mem_repository padDigest (\<lambda>_ _. False)) bitDeps sampleArchiveInput
      (mem.extend failedStore False)))"
proof -
  let ?s = "mem.extend failedStore False"
  obtain res t where run: "archiveRun (mem_repository padDigest (\<lambda>_ _. False)) bitDeps sampleArchiveInput ?s = (res, t)"
    by fastforce
  have "\<not> mem.more t"
    by (rule archive_releases_lock [OF _ _ _ _ _ run]) (auto simp: bitDeps_def mem.extend_def)
  with run show ?thesis by simp
qed

end
