(* ===== verification/NetworkLock.thy ===== *)
theory NetworkLock
  imports Kintone Keys
begin

text \<open>
  The network lock: class \<open>NetworkLockManager\<close> of \<open>src/persistence/network-lock.ts\<close>, over the REST
  client. \<open>lock_env\<close> is what the manager is given: \<open>fetch\<close>, the clock (milliseconds), the UUID source,
  the digest and \<open>dateText\<close>, the text \<open>toISOString\<close> gives a valid date. A reference is an object the
  manager updates in place: \<open>heartbeat\<close> and \<open>release\<close> return it, \<open>release\<close> beside its outcome,
  because it also moves the reference when it fails afterwards.
\<close>

section \<open>Data\<close>

record network_lock_reference =
  lk_lockKey :: string
  lk_recordId :: string
  lk_originalRecordKey :: string
  lk_leaseToken :: string
  lk_ownerInvocationId :: string
  lk_leaseDurationSec :: int
  lk_revision :: js_number
  lk_businessRevision :: js_number
  lk_heartbeatAt :: string
  lk_leaseExpiresAt :: string

record lock_config =
  lc_appId :: int
  lc_profile :: string
  lc_networkId :: string
  lc_ownerInvocationId :: string
  lc_ownerInstanceId :: string
  lc_leaseDurationSec :: int

record 's lock_env =
  le_fetch :: "'s fetch"
  le_now :: "('s, int) prog"
  le_uuid :: "('s, string) prog"
  le_dateText :: "int \<Rightarrow> string"
  le_digest :: "string \<Rightarrow> string"

record lock_manager =
  mg_config :: lock_config
  mg_lockKey :: string
  mg_recordKey :: string

abbreviation lockError :: "network_lock_error_code \<Rightarrow> js_error option \<Rightarrow> ('s, 'a) prog" where
  "lockError code cause \<equiv> throwP (NetworkLockError code cause)"

section \<open>Keys\<close>

definition recordKeyFor :: "string \<Rightarrow> js_error + string" where
  "recordKeyFor key =
     (let v = ''LOCK:'' @ key in
      if length v > MAX_KINTONE_UNIQUE_KEY_LENGTH then Inl (NetworkLockError LOCK_UNAVAILABLE None) else Inr v)"

definition releaseTombstoneRecordKey :: "(string \<Rightarrow> string) \<Rightarrow> string \<Rightarrow> string" where
  "releaseTombstoneRecordKey digest uniqueValue =
     (let direct = ''LOCKDONE:'' @ uniqueValue in
      if length direct \<le> MAX_KINTONE_UNIQUE_KEY_LENGTH then direct else ''LOCKDONE:'' @ digest uniqueValue)"

definition newLockManager :: "(string \<Rightarrow> string) \<Rightarrow> lock_config \<Rightarrow> js_error + lock_manager" where
  "newLockManager digest config =
     (if \<not> isSafeInteger (lc_leaseDurationSec config) \<or> lc_leaseDurationSec config \<le> 0 then Inl typeError
      else case networkLockKey digest (lc_profile config) (lc_networkId config) of Inl e \<Rightarrow> Inl e | Inr key \<Rightarrow>
      case recordKeyFor key of Inl e \<Rightarrow> Inl e | Inr recordKey \<Rightarrow>
      Inr \<lparr> mg_config = config, mg_lockKey = key, mg_recordKey = recordKey \<rparr>)"

section \<open>Reading\<close>

text \<open>\<open>new Date(ms).toISOString()\<close> throws outside the range of dates.\<close>

definition isoDate :: "(int \<Rightarrow> string) \<Rightarrow> int \<Rightarrow> ('s, string) prog" where
  "isoDate dateText ms = (if \<bar>ms\<bar> \<le> 8640000000000000 then retP (dateText ms) else throwP (PlainError ''RangeError''))"

definition decodeReference :: "kintone_record \<Rightarrow> string \<Rightarrow> string \<Rightarrow> int \<Rightarrow> network_lock_reference" where
  "decodeReference rec key recordKey lease = \<lparr> lk_lockKey = key, lk_recordId = fieldText rec ''$id'',
     lk_originalRecordKey = recordKey, lk_leaseToken = fieldText rec ''lease_token'',
     lk_ownerInvocationId = fieldText rec ''owner_invocation_id'', lk_leaseDurationSec = lease,
     lk_revision = revisionOf rec, lk_businessRevision = fieldNumber rec ''revision'',
     lk_heartbeatAt = fieldText rec ''heartbeat_at'', lk_leaseExpiresAt = fieldText rec ''lease_expires_at'' \<rparr>"

definition lockQuery :: "string \<Rightarrow> string" where
  "lockQuery recordKey = ''record_key in ('' @ quote recordKey @ '')''"

definition getUnique :: "'s fetch \<Rightarrow> int \<Rightarrow> string \<Rightarrow> ('s, kintone_record) prog" where
  "getUnique fetch app recordKey =
     bindP (attemptP (getRecords fetch app (lockQuery recordKey))) (\<lambda>r.
     case r of
       Inl error \<Rightarrow> lockError LOCK_UNAVAILABLE (Some error)
     | Inr answer \<Rightarrow>
         bindP (liftP (recordArray answer)) (\<lambda>records.
         case records of [rec] \<Rightarrow> retP rec | _ \<Rightarrow> lockError LOCK_UNAVAILABLE None))"

definition assertFence :: "kintone_record \<Rightarrow> network_lock_reference \<Rightarrow> ('s, unit) prog" where
  "assertFence current reference =
     (if fieldText current ''lease_token'' \<noteq> lk_leaseToken reference then lockError LEASE_TOKEN_MISMATCH None
      else if \<not> numberEq (revisionOf current) (lk_revision reference) then lockError LEASE_REVISION_MISMATCH None
      else retP ())"

section \<open>Acquiring\<close>

definition lockFields :: "lock_manager \<Rightarrow> string \<Rightarrow> string \<Rightarrow> string \<Rightarrow> (string \<times> json) list" where
  "lockFields m leaseToken acquiredAt leaseExpiresAt =
     [(''record_key'', JStr (mg_recordKey m)), (''record_type'', JStr ''NETWORK_LOCK''),
      (''lock_key'', JStr (mg_lockKey m)), (''profile'', JStr (lc_profile (mg_config m))),
      (''owner_invocation_id'', JStr (lc_ownerInvocationId (mg_config m))),
      (''lease_token'', JStr leaseToken), (''started_at'', JStr acquiredAt),
      (''heartbeat_at'', JStr acquiredAt), (''lease_expires_at'', JStr leaseExpiresAt),
      (''status'', JStr ''RUNNING''), (''revision'', JNum 1),
      (''status_reason'', JStr (''owner_instance_id='' @ lc_ownerInstanceId (mg_config m)))]"

text \<open>The reference of the record that was sent, with the id and revision of the answer.\<close>

definition createdReference :: "lock_manager \<Rightarrow> (string \<times> json) list \<Rightarrow> json option \<times> js_number \<Rightarrow> network_lock_reference" where
  "createdReference m fs created =
     (decodeReference (fieldsRecord (case fst created of None \<Rightarrow> fs | Some i \<Rightarrow> fs @ [(''$id'', i)]))
        (mg_lockKey m) (mg_recordKey m) (lc_leaseDurationSec (mg_config m)))\<lparr> lk_revision := snd created \<rparr>"

text \<open>The service may have inserted the record, or refused it as a duplicate.\<close>

definition insertUnclear :: "js_error \<Rightarrow> bool" where
  "insertUnclear error = (case error of
     KintoneTransportError \<Rightarrow> True
   | KintoneApiError st code \<Rightarrow> st = 400 \<and> code = Some ''CB_VA01''
   | _ \<Rightarrow> False)"

definition adjudicateAcquire ::
  "lock_manager \<Rightarrow> string \<Rightarrow> js_error \<Rightarrow> kintone_record \<Rightarrow> ('s, network_lock_reference) prog" where
  "adjudicateAcquire m leaseToken error current =
     (if fieldText current ''status'' = ''RUNNING'' \<and> fieldText current ''lease_token'' = leaseToken \<and>
         fieldText current ''owner_invocation_id'' = lc_ownerInvocationId (mg_config m)
      then retP (decodeReference current (mg_lockKey m) (mg_recordKey m) (lc_leaseDurationSec (mg_config m)))
      else if fieldText current ''status'' = ''RUNNING'' then lockError LOCK_CONFLICT (Some error)
      else lockError LOCK_UNAVAILABLE (Some error))"

definition insertLock :: "'s fetch \<Rightarrow> lock_manager \<Rightarrow> string \<Rightarrow> string \<Rightarrow> string \<Rightarrow> ('s, network_lock_reference) prog" where
  "insertLock fetch m leaseToken at' leaseExpiresAt =
     (let fs = lockFields m leaseToken at' leaseExpiresAt in
     bindP (attemptP (postRecord fetch (lc_appId (mg_config m)) (fieldsRecord fs))) (\<lambda>posted.
     case posted of
       Inr created \<Rightarrow> retP (createdReference m fs created)
     | Inl error \<Rightarrow>
         if \<not> insertUnclear error then lockError LOCK_UNAVAILABLE (Some error)
         else bindP (catchP (getUnique fetch (lc_appId (mg_config m)) (mg_recordKey m))
                (\<lambda>e. lockError LOCK_UNAVAILABLE (Some (AggregateError [error, e] None))))
              (adjudicateAcquire m leaseToken error)))"

definition acquireLock :: "'s lock_env \<Rightarrow> lock_manager \<Rightarrow> ('s, network_lock_reference) prog" where
  "acquireLock env m =
     bindP (le_now env) (\<lambda>acquiredAt.
     bindP (le_uuid env) (\<lambda>leaseToken.
     bindP (isoDate (le_dateText env) (acquiredAt + lc_leaseDurationSec (mg_config m) * 1000)) (\<lambda>leaseExpiresAt.
     bindP (isoDate (le_dateText env) acquiredAt) (\<lambda>at'.
     insertLock (le_fetch env) m leaseToken at' leaseExpiresAt))))"

section \<open>Heartbeat\<close>

definition heartbeatMoved :: "network_lock_reference \<Rightarrow> js_number \<Rightarrow> string \<Rightarrow> string \<Rightarrow> network_lock_reference" where
  "heartbeatMoved reference rev' at' leaseExpiresAt = reference\<lparr> lk_revision := rev',
     lk_businessRevision := addOne (lk_businessRevision reference), lk_heartbeatAt := at',
     lk_leaseExpiresAt := leaseExpiresAt \<rparr>"

definition heartbeatConfirmed :: "kintone_record \<Rightarrow> network_lock_reference \<Rightarrow> string \<Rightarrow> string \<Rightarrow> bool" where
  "heartbeatConfirmed adjudicated reference at' leaseExpiresAt \<longleftrightarrow>
     fieldText adjudicated ''lease_token'' = lk_leaseToken reference \<and>
     numberEq (revisionOf adjudicated) (addOne (lk_revision reference)) \<and>
     fieldText adjudicated ''heartbeat_at'' = at' \<and> fieldText adjudicated ''lease_expires_at'' = leaseExpiresAt"

definition isStatus :: "int \<Rightarrow> js_error \<Rightarrow> bool" where
  "isStatus st error = (case error of KintoneApiError s _ \<Rightarrow> s = st | _ \<Rightarrow> False)"

definition writeHeartbeat ::
  "'s fetch \<Rightarrow> int \<Rightarrow> network_lock_reference \<Rightarrow> string \<Rightarrow> string \<Rightarrow> ('s, network_lock_reference) prog" where
  "writeHeartbeat fetch app reference at' leaseExpiresAt =
     bindP (attemptP (putRecord fetch app (lk_originalRecordKey reference) (lk_revision reference)
        (fieldsRecord [(''heartbeat_at'', JStr at'), (''lease_expires_at'', JStr leaseExpiresAt),
          (''revision'', jsonNumber (addOne (lk_businessRevision reference)))]))) (\<lambda>put.
     case put of
       Inr rev' \<Rightarrow> retP (heartbeatMoved reference rev' at' leaseExpiresAt)
     | Inl error \<Rightarrow>
         if isStatus 409 error then lockError LEASE_REVISION_CONFLICT (Some error)
         else if error = KintoneTransportError then
           bindP (getUnique fetch app (lk_originalRecordKey reference)) (\<lambda>adjudicated.
           if heartbeatConfirmed adjudicated reference at' leaseExpiresAt
           then retP (heartbeatMoved reference (revisionOf adjudicated) at' leaseExpiresAt)
           else lockError LOCK_UNAVAILABLE (Some error))
         else lockError LOCK_UNAVAILABLE (Some error))"

definition heartbeat ::
  "'s lock_env \<Rightarrow> lock_manager \<Rightarrow> network_lock_reference \<Rightarrow> ('s, network_lock_reference) prog" where
  "heartbeat env m reference =
     bindP (getUnique (le_fetch env) (lc_appId (mg_config m)) (lk_originalRecordKey reference)) (\<lambda>current.
     bindP (assertFence current reference) (\<lambda>_.
     bindP (le_now env) (\<lambda>now.
     bindP (isoDate (le_dateText env) (now + lk_leaseDurationSec reference * 1000)) (\<lambda>leaseExpiresAt.
     writeHeartbeat (le_fetch env) (lc_appId (mg_config m)) reference (le_dateText env now) leaseExpiresAt))))"

section \<open>Release\<close>

type_synonym release_outcome = "(js_error + string) \<times> network_lock_reference"

definition releaseMoved :: "network_lock_reference \<Rightarrow> js_number \<Rightarrow> network_lock_reference" where
  "releaseMoved reference rev' = reference\<lparr> lk_revision := rev',
     lk_businessRevision := addOne (lk_businessRevision reference) \<rparr>"

definition releaseRecord ::
  "'s lock_env \<Rightarrow> lock_manager \<Rightarrow> string \<Rightarrow> string \<Rightarrow> string \<Rightarrow> network_lock_reference \<Rightarrow> ('s, js_number) prog" where
  "releaseRecord env m tombstone status' resultCode reference =
     bindP (le_now env) (\<lambda>now.
     putRecordById (le_fetch env) (lc_appId (mg_config m)) (lk_recordId reference) (lk_revision reference)
       (fieldsRecord [(''record_key'', JStr tombstone), (''lock_key'', JStr []), (''owner_invocation_id'', JStr []),
          (''lease_token'', JStr []), (''status'', JStr status'), (''status_reason'', JStr resultCode),
          (''finished_at'', JStr (le_dateText env now)),
          (''revision'', jsonNumber (addOne (lk_businessRevision reference)))]))"

definition adjudicateLostResponse ::
  "'s lock_env \<Rightarrow> lock_manager \<Rightarrow> string \<Rightarrow> string \<Rightarrow> network_lock_reference \<Rightarrow> js_error \<Rightarrow> ('s, release_outcome) prog" where
  "adjudicateLostResponse env m tombstone status' reference cause =
     bindP (attemptP (getUnique (le_fetch env) (lc_appId (mg_config m)) tombstone)) (\<lambda>r.
     retP (case r of
       Inr adjudicated \<Rightarrow>
         if fieldText adjudicated ''lock_key'' = [] \<and> fieldText adjudicated ''lease_token'' = [] \<and>
            fieldText adjudicated ''status'' = status'
         then (Inr tombstone, reference\<lparr> lk_revision := revisionOf adjudicated,
                lk_businessRevision := fieldNumber adjudicated ''revision'' \<rparr>)
         else (Inl (NetworkLockError LOCK_UNAVAILABLE (Some cause)), reference)
     | Inl _ \<Rightarrow> (Inl (NetworkLockError LOCK_UNAVAILABLE (Some cause)), reference)))"

text \<open>The second attempt, after a conflict with our own heartbeat.\<close>

definition releaseAgain ::
  "'s lock_env \<Rightarrow> lock_manager \<Rightarrow> string \<Rightarrow> string \<Rightarrow> string \<Rightarrow> network_lock_reference \<Rightarrow> ('s, release_outcome) prog" where
  "releaseAgain env m tombstone status' resultCode reference =
     bindP (attemptP (releaseRecord env m tombstone status' resultCode reference)) (\<lambda>put.
     case put of
       Inr rev' \<Rightarrow> retP (Inr tombstone, releaseMoved reference rev')
     | Inl retryError \<Rightarrow>
         if isStatus 409 retryError
         then retP (Inl (NetworkLockError LEASE_REVISION_CONFLICT (Some retryError)), reference)
         else if retryError = KintoneTransportError
         then adjudicateLostResponse env m tombstone status' reference retryError
         else retP (Inl (NetworkLockError LOCK_UNAVAILABLE (Some retryError)), reference))"

definition releaseConflict ::
  "'s lock_env \<Rightarrow> lock_manager \<Rightarrow> string \<Rightarrow> string \<Rightarrow> string \<Rightarrow> network_lock_reference \<Rightarrow> js_error \<Rightarrow> ('s, release_outcome) prog" where
  "releaseConflict env m tombstone status' resultCode reference error =
     bindP (attemptP (getUnique (le_fetch env) (lc_appId (mg_config m)) (lk_originalRecordKey reference))) (\<lambda>r.
     case r of
       Inl retryError \<Rightarrow> retP (Inl (NetworkLockError LEASE_REVISION_CONFLICT (Some retryError)), reference)
     | Inr latest \<Rightarrow>
         if fieldText latest ''record_key'' \<noteq> lk_originalRecordKey reference \<or>
            fieldText latest ''lease_token'' \<noteq> lk_leaseToken reference
         then retP (Inl (NetworkLockError LEASE_REVISION_CONFLICT (Some error)), reference)
         else releaseAgain env m tombstone status' resultCode
                (reference\<lparr> lk_revision := revisionOf latest, lk_businessRevision := fieldNumber latest ''revision'' \<rparr>))"

definition releaseLock ::
  "'s lock_env \<Rightarrow> lock_manager \<Rightarrow> network_lock_reference \<Rightarrow> string \<Rightarrow> string \<Rightarrow> ('s, release_outcome) prog" where
  "releaseLock env m reference status' resultCode =
     bindP (attemptP (bindP (getUnique (le_fetch env) (lc_appId (mg_config m)) (lk_originalRecordKey reference))
       (\<lambda>current. assertFence current reference))) (\<lambda>fence.
     case fence of
       Inl e \<Rightarrow> retP (Inl e, reference)
     | Inr _ \<Rightarrow>
         let tombstone = releaseTombstoneRecordKey (le_digest env) (lk_lockKey reference @ '':'' @ lk_leaseToken reference) in
         bindP (attemptP (releaseRecord env m tombstone status' resultCode reference)) (\<lambda>put.
         case put of
           Inr rev' \<Rightarrow> retP (Inr tombstone, releaseMoved reference rev')
         | Inl error \<Rightarrow>
             if isStatus 409 error then releaseConflict env m tombstone status' resultCode reference error
             else if error = KintoneTransportError
             then adjudicateLostResponse env m tombstone status' reference error
             else retP (Inl (NetworkLockError LOCK_UNAVAILABLE (Some error)), reference)))"

end
