(* ===== verification/NetworkLockProps.thy ===== *)
theory NetworkLockProps
  imports NetworkLock
begin

text \<open>
  What the network lock guarantees, relative to the documented behaviour of the kintone app that
  stores it (\<open>lock_service\<close>): \<open>record_key\<close> and \<open>$id\<close> are unique, a record is inserted or
  updated as a whole or not at all, an update needs the current revision and raises it by one, text
  fields come back as they were sent, and a request whose answer is lost may or may not have taken
  effect. \<open>view s\<close> are the records of the app by record key. Date-time fields come back in any form.
\<close>

section \<open>The service\<close>

definition lockTextFields :: "string set" where
  "lockTextFields = {''$id'', ''record_key'', ''lock_key'', ''owner_invocation_id'', ''lease_token'', ''status''}"

definition stored :: "(string \<times> json) list \<Rightarrow> kintone_record \<Rightarrow> bool" where
  "stored fs x \<longleftrightarrow> (\<forall>c v. mapGet fs c = Some (JStr v) \<and> c \<in> lockTextFields - {''$id''} \<longrightarrow> fieldText x c = v)"

definition merged :: "(string \<times> json) list \<Rightarrow> kintone_record \<Rightarrow> kintone_record \<Rightarrow> bool" where
  "merged fs x y \<longleftrightarrow> stored fs y \<and> (\<forall>c \<in> lockTextFields. mapGet fs c = None \<longrightarrow> fieldText y c = fieldText x c) \<and>
     revisionOf y = addOne (revisionOf x)"

type_synonym 's app_view = "'s \<Rightarrow> string \<Rightarrow> kintone_record option"

definition reads_app :: "'s fetch \<Rightarrow> int \<Rightarrow> 's app_view \<Rightarrow> bool" where
  "reads_app fetch app view \<longleftrightarrow> (\<forall>s key r t. getRecords fetch app (lockQuery key) s = (r, t) \<longrightarrow>
     view t = view s \<and> (\<forall>xs. r = Inr (Some (JArr xs)) \<longrightarrow> xs = (case view s key of None \<Rightarrow> [] | Some x \<Rightarrow> [x])))"

definition inserts_app :: "'s fetch \<Rightarrow> int \<Rightarrow> 's app_view \<Rightarrow> bool" where
  "inserts_app fetch app view \<longleftrightarrow> (\<forall>s fs key r t.
     postRecord fetch app (fieldsRecord fs) s = (r, t) \<and> mapGet fs ''record_key'' = Some (JStr key) \<longrightarrow>
     view t = view s \<and> (\<exists>e. r = Inl e) \<or>
     (\<exists>x. view s key = None \<and> view t = (view s)(key := Some x) \<and> stored fs x \<and>
        (r = Inl KintoneTransportError \<or> r = Inr (Some (JStr (fieldText x ''$id'')), revisionOf x))))"

definition updates_app :: "'s fetch \<Rightarrow> int \<Rightarrow> 's app_view \<Rightarrow> bool" where
  "updates_app fetch app view \<longleftrightarrow>
     (\<forall>s key n fs r t. putRecord fetch app key (Finite n) (fieldsRecord fs) s = (r, t) \<and> mapGet fs ''record_key'' = None \<longrightarrow>
       view t = view s \<and> (\<exists>e. r = Inl e) \<or>
       (\<exists>x y. view s key = Some x \<and> revisionOf x = Finite n \<and> view t = (view s)(key := Some y) \<and> merged fs x y \<and>
          (r = Inl KintoneTransportError \<or> r = Inr (revisionOf y)))) \<and>
     (\<forall>s i n fs key' r t. putRecordById fetch app i (Finite n) (fieldsRecord fs) s = (r, t) \<and>
         mapGet fs ''record_key'' = Some (JStr key') \<longrightarrow>
       view t = view s \<and> (\<exists>e. r = Inl e) \<or>
       (\<exists>key x y. view s key = Some x \<and> fieldText x ''$id'' = i \<and> revisionOf x = Finite n \<and>
          view t = (view s)(key := None, key' := Some y) \<and> merged fs x y \<and>
          (r = Inl KintoneTransportError \<or> r = Inr (revisionOf y))))"

definition ids_app :: "'s app_view \<Rightarrow> bool" where
  "ids_app view \<longleftrightarrow> (\<forall>s k k' x x'. view s k = Some x \<and> view s k' = Some x' \<and>
     fieldText x ''$id'' = fieldText x' ''$id'' \<longrightarrow> k = k') \<and>
     (\<forall>s k x. view s k = Some x \<longrightarrow> (\<exists>n. revisionOf x = Finite n))"

definition lock_service :: "'s fetch \<Rightarrow> int \<Rightarrow> 's app_view \<Rightarrow> bool" where
  "lock_service fetch app view \<longleftrightarrow>
     reads_app fetch app view \<and> inserts_app fetch app view \<and> updates_app fetch app view \<and> ids_app view"

text \<open>The clock and the UUID source do not write to the app.\<close>

definition beside_app :: "'s app_view \<Rightarrow> ('s, 'a) prog \<Rightarrow> bool" where
  "beside_app view p \<longleftrightarrow> (\<forall>s. view (snd (p s)) = view s)"

definition lock_world :: "'s lock_env \<Rightarrow> int \<Rightarrow> 's app_view \<Rightarrow> bool" where
  "lock_world env app view \<longleftrightarrow> lock_service (le_fetch env) app view \<and>
     beside_app view (le_now env) \<and> beside_app view (le_uuid env)"

lemma beside_app_run: "beside_app view p \<Longrightarrow> p s = (r, t) \<Longrightarrow> view t = view s"
  by (metis beside_app_def snd_conv)

section \<open>What the operations do to the app\<close>

lemma getUnique_run:
  assumes "reads_app fetch app view" "getUnique fetch app key s = (r, t)"
  shows "view t = view s" "r = Inr x \<Longrightarrow> view s key = Some x"
    "r = Inl e \<Longrightarrow> e = typeError \<or> (\<exists>c. e = NetworkLockError LOCK_UNAVAILABLE c)"
proof -
  obtain a u where 1: "getRecords fetch app (lockQuery key) s = (a, u)" by fastforce
  have u: "view u = view s" and xs: "\<And>xs. a = Inr (Some (JArr xs)) \<Longrightarrow> xs = (case view s key of None \<Rightarrow> [] | Some x \<Rightarrow> [x])"
    using assms(1) 1 unfolding reads_app_def by blast+
  show "view t = view s" "r = Inr x \<Longrightarrow> view s key = Some x"
    "r = Inl e \<Longrightarrow> e = typeError \<or> (\<exists>c. e = NetworkLockError LOCK_UNAVAILABLE c)"
    using assms(2) 1 u xs
    by (auto simp: getUnique_def bindP_run recordArray_def
        split: sum.splits option.splits json.splits list.splits)
qed

lemma isoDate_run: "isoDate f ms s = (r, t) \<Longrightarrow> t = s \<and> (r = Inr (f ms) \<or> r = Inl (PlainError ''RangeError''))"
  by (auto simp: isoDate_def split: if_splits)

lemma lockFields_key [simp]: "mapGet (lockFields m u a x) ''record_key'' = Some (JStr (mg_recordKey m))"
  by (simp add: lockFields_def)

lemma stored_lockFields:
  assumes "stored (lockFields m u a l) x"
  shows "fieldText x ''lease_token'' = u" "fieldText x ''status'' = ''RUNNING''"
    "fieldText x ''owner_invocation_id'' = lc_ownerInvocationId (mg_config m)"
  using assms unfolding stored_def
  by (auto simp: lockFields_def lockTextFields_def dest: spec [of _ "''lease_token''"] spec [of _ "''status''"]
      spec [of _ "''owner_invocation_id''"])

text \<open>A record that a reference names.\<close>

definition names_record :: "network_lock_reference \<Rightarrow> kintone_record \<Rightarrow> bool" where
  "names_record ref x \<longleftrightarrow> fieldText x ''lease_token'' = lk_leaseToken ref \<and> fieldText x ''$id'' = lk_recordId ref \<and>
     fieldText x ''owner_invocation_id'' = lk_ownerInvocationId ref \<and> fieldText x ''status'' = ''RUNNING''"

definition acquired_effect :: "'s app_view \<Rightarrow> lock_manager \<Rightarrow> string \<Rightarrow> js_error + network_lock_reference \<Rightarrow> 's \<Rightarrow> 's \<Rightarrow> bool" where
  "acquired_effect view m u r s t \<longleftrightarrow>
     (view t = view s \<or> (\<exists>x. view s (mg_recordKey m) = None \<and> view t = (view s)(mg_recordKey m := Some x))) \<and>
     (\<forall>ref. r = Inr ref \<longrightarrow> lk_originalRecordKey ref = mg_recordKey m \<and> lk_leaseToken ref = u \<and>
        lk_ownerInvocationId ref = lc_ownerInvocationId (mg_config m) \<and>
        (\<exists>x. view t (mg_recordKey m) = Some x \<and> names_record ref x))"

lemma createdReference_names:
  assumes "stored (lockFields m u a l) x"
  shows "names_record (createdReference m (lockFields m u a l) (Some (JStr (fieldText x ''$id'')), n)) x"
    "lk_originalRecordKey (createdReference m (lockFields m u a l) c) = mg_recordKey m"
    "lk_leaseToken (createdReference m (lockFields m u a l) c) = u"
    "lk_ownerInvocationId (createdReference m (lockFields m u a l) c) = lc_ownerInvocationId (mg_config m)"
  using stored_lockFields [OF assms]
  by (simp_all add: createdReference_def names_record_def decodeReference_def fieldText_def textOfJson_def lockFields_def
      split: option.split)

lemma adjudicateAcquire_run:
  "adjudicateAcquire m u e x s = (r, t) \<Longrightarrow> t = s \<and> (case r of
     Inr ref \<Rightarrow> names_record ref x \<and> lk_originalRecordKey ref = mg_recordKey m \<and> lk_leaseToken ref = u \<and>
       lk_ownerInvocationId ref = lc_ownerInvocationId (mg_config m)
   | Inl er \<Rightarrow> (\<exists>c. er = NetworkLockError LOCK_CONFLICT c) \<or> (\<exists>c. er = NetworkLockError LOCK_UNAVAILABLE c))"
  by (auto simp: adjudicateAcquire_def names_record_def decodeReference_def split: if_splits)

lemma acquire_tail:
  assumes service: "lock_service fetch app view" and app: "lc_appId (mg_config m) = app"
    and run: "insertLock fetch m u a l s = (r, t)"
  shows "acquired_effect view m u r s t" "r = Inl e \<Longrightarrow> \<exists>k c. e = NetworkLockError k c \<and> k \<in> {LOCK_CONFLICT, LOCK_UNAVAILABLE}"
proof -
  let ?fs = "lockFields m u a l"
  have reads: "reads_app fetch app view" and inserts: "inserts_app fetch app view"
    using service by (simp_all add: lock_service_def)
  obtain p s1 where post: "postRecord fetch app (fieldsRecord ?fs) s = (p, s1)" by fastforce
  obtain q s2 where get: "getUnique fetch app (mg_recordKey m) s1 = (q, s2)" by fastforce
  note got = getUnique_run [OF reads get]
  have post': "view s1 = view s \<and> (\<exists>e. p = Inl e) \<or>
     (\<exists>x. view s (mg_recordKey m) = None \<and> view s1 = (view s)(mg_recordKey m := Some x) \<and> stored ?fs x \<and>
        (p = Inl KintoneTransportError \<or> p = Inr (Some (JStr (fieldText x ''$id'')), revisionOf x)))"
    using inserts post lockFields_key [of m u a l] unfolding inserts_app_def by blast
  have tail: "\<exists>e. p = Inl e \<and> ((view t = view s1 \<and> (\<forall>ref. r \<noteq> Inr ref)) \<or> (\<exists>x. view t = view s1 \<and>
      view s1 (mg_recordKey m) = Some x \<and> adjudicateAcquire m u e x s2 = (r, t)))" if "\<forall>c. p \<noteq> Inr c"
    using run post get got app that
    by (cases p; cases q) (auto simp: insertLock_def Let_def bindP_run catchP_def split: if_splits dest!: adjudicateAcquire_run)
  show "acquired_effect view m u r s t"
  proof (cases p)
    case (Inr c)
    with post' obtain x where x: "view s (mg_recordKey m) = None" "view s1 = (view s)(mg_recordKey m := Some x)"
        "stored ?fs x" "c = (Some (JStr (fieldText x ''$id'')), revisionOf x)" by auto
    with run post app Inr have "r = Inr (createdReference m ?fs c)" "t = s1"
      by (simp_all add: insertLock_def Let_def bindP_run)
    with x createdReference_names [OF x(3)] show ?thesis by (auto simp: acquired_effect_def)
  next
    case (Inl e)
    with tail consider "view t = view s1" "\<forall>ref. r \<noteq> Inr ref"
      | x where "view t = view s1" "view s1 (mg_recordKey m) = Some x" "adjudicateAcquire m u e x s2 = (r, t)" by auto
    then show ?thesis
    proof cases
      case 1
      with post' show ?thesis by (auto simp: acquired_effect_def)
    next
      case 2
      with post' adjudicateAcquire_run [OF 2(3)] show ?thesis
        by (auto simp: acquired_effect_def)
    qed
  qed
  show "r = Inl e \<Longrightarrow> \<exists>k c. e = NetworkLockError k c \<and> k \<in> {LOCK_CONFLICT, LOCK_UNAVAILABLE}"
    using run post get app
    by (cases p; cases q) (auto simp: insertLock_def Let_def bindP_run catchP_def split: if_splits dest!: adjudicateAcquire_run)
qed

lemma acquire_run:
  assumes world: "lock_world env app view" and app: "lc_appId (mg_config m) = app"
    and run: "acquireLock env m s = (r, t)"
  shows "(\<exists>u s1 s2 s3. view s1 = view s \<and> view s2 = view s \<and> view s3 = view s \<and> le_uuid env s1 = (Inr u, s2) \<and>
      acquired_effect view m u r s3 t \<and> (\<forall>e. r = Inl e \<longrightarrow> (\<exists>k c. e = NetworkLockError k c \<and> k \<in> {LOCK_CONFLICT, LOCK_UNAVAILABLE}))) \<or>
    (view t = view s \<and> (\<exists>e. r = Inl e))"
proof -
  have service: "lock_service (le_fetch env) app view" and b: "beside_app view (le_now env)" "beside_app view (le_uuid env)"
    using world by (simp_all add: lock_world_def)
  obtain n s1 where n: "le_now env s = (n, s1)" by fastforce
  note v1 = beside_app_run [OF b(1) n]
  show ?thesis
  proof (cases n)
    case (Inl e)
    with run n v1 show ?thesis by (auto simp: acquireLock_def)
  next
    case (Inr ms)
    obtain u s2 where u: "le_uuid env s1 = (u, s2)" by fastforce
    note v2 = beside_app_run [OF b(2) u]
    show ?thesis
    proof (cases u)
      case (Inl e)
      with run n u v1 v2 \<open>n = Inr ms\<close> show ?thesis by (auto simp: acquireLock_def)
    next
      case (Inr token)
      show ?thesis
      proof (cases "\<bar>ms + lc_leaseDurationSec (mg_config m) * 1000\<bar> \<le> 8640000000000000 \<and> \<bar>ms\<bar> \<le> 8640000000000000")
        case True
        note tail = acquire_tail [OF service app, of token "le_dateText env ms"
            "le_dateText env (ms + lc_leaseDurationSec (mg_config m) * 1000)" s2 r t]
        have "acquired_effect view m token r s2 t"
          "\<forall>e. r = Inl e \<longrightarrow> (\<exists>k c. e = NetworkLockError k c \<and> k \<in> {LOCK_CONFLICT, LOCK_UNAVAILABLE})"
          using tail run n u Inr \<open>n = Inr ms\<close> True by (auto simp: acquireLock_def isoDate_def Let_def)
        with u Inr v1 v2 show ?thesis by metis
      next
        case False
        with run n u Inr \<open>n = Inr ms\<close> v1 v2 show ?thesis
          by (auto simp: acquireLock_def isoDate_def Let_def bindP_run split: if_splits)
      qed
    qed
  qed
qed

lemma assertFence_run:
  "assertFence x ref s = (r, t) \<Longrightarrow> t = s \<and> (r = Inr () \<longleftrightarrow>
     fieldText x ''lease_token'' = lk_leaseToken ref \<and> numberEq (revisionOf x) (lk_revision ref)) \<and>
     (\<forall>e. r = Inl e \<longrightarrow> (\<exists>k c. e = NetworkLockError k c))"
  by (auto simp: assertFence_def split: if_splits)

definition heartbeat_effect :: "'s app_view \<Rightarrow> network_lock_reference \<Rightarrow> js_error + network_lock_reference \<Rightarrow> 's \<Rightarrow> 's \<Rightarrow> bool" where
  "heartbeat_effect view ref r s t \<longleftrightarrow>
     (view t = view s \<or> (\<exists>x y. view s (lk_originalRecordKey ref) = Some x \<and> fieldText x ''lease_token'' = lk_leaseToken ref \<and>
        revisionOf x = lk_revision ref \<and> view t = (view s)(lk_originalRecordKey ref := Some y) \<and>
        (\<forall>c \<in> lockTextFields. fieldText y c = fieldText x c) \<and> revisionOf y = addOne (revisionOf x))) \<and>
     (\<forall>ref'. r = Inr ref' \<longrightarrow>
        ref' = ref\<lparr> lk_revision := addOne (lk_revision ref), lk_businessRevision := addOne (lk_businessRevision ref),
          lk_heartbeatAt := lk_heartbeatAt ref', lk_leaseExpiresAt := lk_leaseExpiresAt ref' \<rparr> \<and>
        (\<exists>x y. view s (lk_originalRecordKey ref) = Some x \<and> fieldText x ''lease_token'' = lk_leaseToken ref \<and>
          revisionOf x = lk_revision ref \<and> view t (lk_originalRecordKey ref) = Some y \<and>
          fieldText y ''lease_token'' = lk_leaseToken ref \<and> revisionOf y = lk_revision ref'))"

lemma put_run:
  assumes "lock_service fetch app view" "putRecord fetch app key (Finite n) (fieldsRecord fs) s = (r, t)"
    and "\<forall>c \<in> lockTextFields. mapGet fs c = None"
  shows "view t = view s \<and> (\<exists>e. r = Inl e) \<or>
    (\<exists>x y. view s key = Some x \<and> revisionOf x = Finite n \<and> view t = (view s)(key := Some y) \<and>
      (\<forall>c \<in> lockTextFields. fieldText y c = fieldText x c) \<and> revisionOf y = addOne (revisionOf x) \<and>
      (r = Inl KintoneTransportError \<or> r = Inr (revisionOf y)))"
proof -
  have "updates_app fetch app view" using assms(1) by (simp add: lock_service_def)
  moreover have "mapGet fs ''record_key'' = None" using assms(3) by (simp add: lockTextFields_def)
  ultimately have "view t = view s \<and> (\<exists>e. r = Inl e) \<or>
       (\<exists>x y. view s key = Some x \<and> revisionOf x = Finite n \<and> view t = (view s)(key := Some y) \<and> merged fs x y \<and>
          (r = Inl KintoneTransportError \<or> r = Inr (revisionOf y)))"
    using assms(2) unfolding updates_app_def by blast
  then show ?thesis using assms(3) unfolding merged_def by blast
qed

lemma heartbeat_fields: "\<forall>c \<in> lockTextFields. mapGet [(''heartbeat_at'', a), (''lease_expires_at'', b), (''revision'', d)] c = None"
  by (simp add: lockTextFields_def)

lemma heartbeat_tail:
  assumes service: "lock_service fetch app view"
    and x: "view s (lk_originalRecordKey ref) = Some x" "fieldText x ''lease_token'' = lk_leaseToken ref" "revisionOf x = lk_revision ref"
    and run: "writeHeartbeat fetch app ref a l s = (r, t)"
  shows "heartbeat_effect view ref r s t"
proof -
  let ?K = "lk_originalRecordKey ref"
  let ?put = "putRecord fetch app ?K (lk_revision ref) (fieldsRecord [(''heartbeat_at'', JStr a), (''lease_expires_at'', JStr l),
          (''revision'', jsonNumber (addOne (lk_businessRevision ref)))])"
  have reads: "reads_app fetch app view" and ids: "ids_app view"
    using service by (simp_all add: lock_service_def)
  from ids x(1) obtain n where n: "revisionOf x = Finite n" unfolding ids_app_def by blast
  obtain p s1 where p: "?put s = (p, s1)" by fastforce
  obtain q s2 where q: "getUnique fetch app ?K s1 = (q, s2)" by fastforce
  note got = getUnique_run [OF reads q]
  have put: "view s1 = view s \<and> (\<exists>e. p = Inl e) \<or>
    (\<exists>y. view s1 = (view s)(?K := Some y) \<and> (\<forall>c \<in> lockTextFields. fieldText y c = fieldText x c) \<and>
      revisionOf y = addOne (revisionOf x) \<and> (p = Inl KintoneTransportError \<or> p = Inr (revisionOf y)))"
  proof -
    have "putRecord fetch app ?K (Finite n) (fieldsRecord [(''heartbeat_at'', JStr a), (''lease_expires_at'', JStr l),
          (''revision'', jsonNumber (addOne (lk_businessRevision ref)))]) s = (p, s1)"
      using p n x(3) by simp
    from put_run [OF service this heartbeat_fields] x(1) show ?thesis by (metis option.inject)
  qed
  have tok: "''lease_token'' \<in> lockTextFields" by (simp add: lockTextFields_def)
  show ?thesis
  proof (cases p)
    case (Inr v)
    with put obtain y where y: "view s1 = (view s)(?K := Some y)" "\<forall>c \<in> lockTextFields. fieldText y c = fieldText x c"
      "revisionOf y = addOne (revisionOf x)" "v = revisionOf y" by auto
    from run p Inr have r: "r = Inr (heartbeatMoved ref v a l)" "t = s1"
      by (simp_all add: writeHeartbeat_def bindP_run)
    show ?thesis using r x y tok by (auto simp: heartbeat_effect_def heartbeatMoved_def)
  next
    case (Inl e)
    have cases': "(view t = view s1 \<and> (\<forall>ref'. r \<noteq> Inr ref')) \<or>
       (\<exists>y. view t = view s1 \<and> view s1 ?K = Some y \<and> heartbeatConfirmed y ref a l \<and> r = Inr (heartbeatMoved ref (revisionOf y) a l))"
      using run p Inl q got by (cases q) (auto simp: writeHeartbeat_def bindP_run split: if_splits)
    have keep: "view s1 = view s \<or> (\<exists>y. view s1 = (view s)(?K := Some y) \<and> (\<forall>c \<in> lockTextFields. fieldText y c = fieldText x c) \<and>
      revisionOf y = addOne (revisionOf x))" using put by blast
    from cases' show ?thesis
    proof (elim disjE exE conjE)
      assume "view t = view s1" "\<forall>ref'. r \<noteq> Inr ref'"
      with keep x show ?thesis by (auto simp: heartbeat_effect_def)
    next
      fix y
      assume y: "view t = view s1" "view s1 ?K = Some y" "heartbeatConfirmed y ref a l" "r = Inr (heartbeatMoved ref (revisionOf y) a l)"
      then have "revisionOf y = addOne (lk_revision ref)" "fieldText y ''lease_token'' = lk_leaseToken ref"
        by (simp_all add: heartbeatConfirmed_def numberEq_iff)
      with keep x y show ?thesis by (auto simp: heartbeat_effect_def heartbeatMoved_def)
    qed
  qed
qed

lemma heartbeat_quiet: "view t = view s \<Longrightarrow> heartbeat_effect view ref (Inl e) s t"
  by (simp add: heartbeat_effect_def)

lemma heartbeat_run:
  assumes world: "lock_world env app view" and app: "lc_appId (mg_config m) = app"
    and run: "heartbeat env m ref s = (r, t)"
  shows "heartbeat_effect view ref r s t"
proof -
  have service: "lock_service (le_fetch env) app view" and b: "beside_app view (le_now env)"
    using world by (simp_all add: lock_world_def)
  then have reads: "reads_app (le_fetch env) app view" and ids: "ids_app view" by (simp_all add: lock_service_def)
  obtain p s1 where p: "getUnique (le_fetch env) app (lk_originalRecordKey ref) s = (p, s1)" by fastforce
  note got = getUnique_run [OF reads p]
  show ?thesis
  proof (cases p)
    case (Inl e)
    with run p app got show ?thesis by (auto simp: heartbeat_def intro!: heartbeat_quiet)
  next
    case (Inr x)
    obtain f s2 where f: "assertFence x ref s1 = (f, s2)" by fastforce
    note fence = assertFence_run [OF f]
    show ?thesis
    proof (cases f)
      case (Inl e)
      with run p app got f fence \<open>p = Inr x\<close> show ?thesis by (auto simp: heartbeat_def intro!: heartbeat_quiet)
    next
      case (Inr u)
      obtain n s3 where n: "le_now env s2 = (n, s3)" by fastforce
      note v3 = beside_app_run [OF b n]
      show ?thesis
      proof (cases n)
        case (Inl e)
        with run p app got f fence n v3 \<open>p = Inr x\<close> \<open>f = Inr u\<close> show ?thesis by (auto simp: heartbeat_def intro!: heartbeat_quiet)
      next
        case (Inr ms)
        show ?thesis
        proof (cases "\<bar>ms + lk_leaseDurationSec ref * 1000\<bar> \<le> 8640000000000000")
          case False
          with run p app got f fence n v3 \<open>p = Inr x\<close> \<open>f = Inr u\<close> Inr show ?thesis
            by (auto simp: heartbeat_def isoDate_def intro!: heartbeat_quiet)
        next
          case True
          have x: "view s3 (lk_originalRecordKey ref) = Some x" "fieldText x ''lease_token'' = lk_leaseToken ref"
            "revisionOf x = lk_revision ref"
            using got \<open>p = Inr x\<close> v3 fence \<open>f = Inr u\<close> by (auto simp: numberEq_iff)
          have "heartbeat_effect view ref r s3 t"
            by (rule heartbeat_tail [OF service x, of "le_dateText env ms" "le_dateText env (ms + lk_leaseDurationSec ref * 1000)"])
              (use run p app f n \<open>p = Inr x\<close> \<open>f = Inr u\<close> Inr True in \<open>simp add: heartbeat_def isoDate_def Let_def\<close>)
          moreover have "view s3 = view s" using got v3 fence by simp
          ultimately show ?thesis by (simp add: heartbeat_effect_def)
        qed
      qed
    qed
  qed
qed

text \<open>A release either leaves the app alone or moves one record, the one of the reference, to the tombstone key.\<close>

definition moved_away :: "'s app_view \<Rightarrow> string \<Rightarrow> string \<Rightarrow> 's \<Rightarrow> 's \<Rightarrow> bool" where
  "moved_away view i tombstone s t \<longleftrightarrow> view t = view s \<or>
     (\<exists>key x y. view s key = Some x \<and> fieldText x ''$id'' = i \<and> view t = (view s)(key := None, tombstone := Some y))"

definition release_effect ::
  "'s app_view \<Rightarrow> (string \<Rightarrow> string) \<Rightarrow> network_lock_reference \<Rightarrow> (js_error + release_outcome) \<Rightarrow> 's \<Rightarrow> 's \<Rightarrow> bool" where
  "release_effect view digest ref r s t \<longleftrightarrow>
     (let tombstone = releaseTombstoneRecordKey digest (lk_lockKey ref @ '':'' @ lk_leaseToken ref) in
      moved_away view (lk_recordId ref) tombstone s t \<and>
      (view t \<noteq> view s \<longrightarrow> (\<exists>x. view s (lk_originalRecordKey ref) = Some x \<and> fieldText x ''lease_token'' = lk_leaseToken ref)) \<and>
      (\<forall>k ref'. r = Inr (Inr k, ref') \<longrightarrow> k = tombstone \<and> (view t \<noteq> view s \<or> view t tombstone \<noteq> None)))"

lemma releaseRecord_run:
  assumes service: "lock_service (le_fetch env) app view" and clock: "beside_app view (le_now env)"
    and app: "lc_appId (mg_config m) = app" and n: "lk_revision ref = Finite n"
    and run: "releaseRecord env m tombstone st code ref s = (r, t)"
  shows "view t = view s \<and> (\<exists>e. r = Inl e) \<or>
    (\<exists>key x y. view s key = Some x \<and> fieldText x ''$id'' = lk_recordId ref \<and>
       view t = (view s)(key := None, tombstone := Some y) \<and> (r = Inl KintoneTransportError \<or> (\<exists>v. r = Inr v)))"
proof -
  have up: "updates_app (le_fetch env) app view" using service by (simp add: lock_service_def)
  from run show ?thesis unfolding releaseRecord_def
  proof (cases rule: bindP_cases)
    case (1 e)
    then show ?thesis using beside_app_run [OF clock] by blast
  next
    case (2 ms s1)
    have v: "view s1 = view s" using beside_app_run [OF clock 2(1)] .
    let ?fs = "[(''record_key'', JStr tombstone), (''lock_key'', JStr []), (''owner_invocation_id'', JStr []),
          (''lease_token'', JStr []), (''status'', JStr st), (''status_reason'', JStr code),
          (''finished_at'', JStr (le_dateText env ms)),
          (''revision'', jsonNumber (addOne (lk_businessRevision ref)))]"
    have key: "mapGet ?fs ''record_key'' = Some (JStr tombstone)" by simp
    from up have "view t = view s1 \<and> (\<exists>e. r = Inl e) \<or>
       (\<exists>key x y. view s1 key = Some x \<and> fieldText x ''$id'' = lk_recordId ref \<and> revisionOf x = Finite n \<and>
          view t = (view s1)(key := None, tombstone := Some y) \<and> merged ?fs x y \<and>
          (r = Inl KintoneTransportError \<or> r = Inr (revisionOf y)))"
      using 2(2) app n key unfolding updates_app_def by metis
    then show ?thesis unfolding v by blast
  qed
qed

lemma adjudicateLostResponse_run:
  assumes "reads_app (le_fetch env) app view" "lc_appId (mg_config m) = app"
    and "adjudicateLostResponse env m tombstone st ref cause s = (r, t)"
  shows "view t = view s" "r = Inr (Inr k, ref') \<Longrightarrow> k = tombstone \<and> view s tombstone \<noteq> None"
proof -
  obtain q u where q: "getUnique (le_fetch env) app tombstone s = (q, u)" by fastforce
  note got = getUnique_run [OF assms(1) q]
  show "view t = view s" "r = Inr (Inr k, ref') \<Longrightarrow> k = tombstone \<and> view s tombstone \<noteq> None"
    using assms(2,3) q got
    by (auto simp: adjudicateLostResponse_def bindP_run split: sum.splits if_splits)
qed

lemma update_is_change: "view t = (view s)(key := None, tombstone := Some y) \<Longrightarrow> view t tombstone \<noteq> None"
  by simp

lemma releaseAgain_run:
  assumes service: "lock_service (le_fetch env) app view" and clock: "beside_app view (le_now env)"
    and app: "lc_appId (mg_config m) = app" and n: "lk_revision ref = Finite n"
    and run: "releaseAgain env m tombstone st code ref s = (r, t)"
  shows "moved_away view (lk_recordId ref) tombstone s t"
    "r = Inr (Inr k, ref') \<Longrightarrow> k = tombstone \<and> view t tombstone \<noteq> None"
proof -
  have reads: "reads_app (le_fetch env) app view" using service by (simp add: lock_service_def)
  obtain p s1 where p: "releaseRecord env m tombstone st code ref s = (p, s1)" by fastforce
  note put = releaseRecord_run [OF service clock app n p]
  have moved: "moved_away view (lk_recordId ref) tombstone s s1"
    using put unfolding moved_away_def by blast
  have split: "(\<exists>v. p = Inr v \<and> r = Inr (Inr tombstone, releaseMoved ref v) \<and> t = s1) \<or>
      (t = s1 \<and> (\<exists>e. r = Inr (Inl e, ref))) \<or>
      (p = Inl KintoneTransportError \<and> adjudicateLostResponse env m tombstone st ref KintoneTransportError s1 = (r, t))"
    using run p by (cases p) (auto simp: releaseAgain_def bindP_run split: if_splits)
  have "moved_away view (lk_recordId ref) tombstone s t \<and>
    (\<forall>k ref'. r = Inr (Inr k, ref') \<longrightarrow> k = tombstone \<and> view t tombstone \<noteq> None)"
    using split
  proof (elim disjE exE conjE)
    fix v assume "p = Inr v" "r = Inr (Inr tombstone, releaseMoved ref v)" "t = s1"
    with put moved show ?thesis by auto
  next
    fix e assume "t = s1" "r = Inr (Inl e, ref)"
    with moved show ?thesis by simp
  next
    assume a: "adjudicateLostResponse env m tombstone st ref KintoneTransportError s1 = (r, t)"
    have v: "view t = view s1" by (rule adjudicateLostResponse_run(1) [OF reads app a])
    show ?thesis
      using adjudicateLostResponse_run(2) [OF reads app a] moved v by (auto simp: moved_away_def)
  qed
  then show "moved_away view (lk_recordId ref) tombstone s t"
    "r = Inr (Inr k, ref') \<Longrightarrow> k = tombstone \<and> view t tombstone \<noteq> None" by blast+
qed

lemma releaseConflict_run:
  assumes service: "lock_service (le_fetch env) app view" and clock: "beside_app view (le_now env)"
    and app: "lc_appId (mg_config m) = app"
    and run: "releaseConflict env m tombstone st code ref error s = (r, t)"
  shows "moved_away view (lk_recordId ref) tombstone s t"
    "r = Inr (Inr k, ref') \<Longrightarrow> k = tombstone \<and> view t tombstone \<noteq> None"
proof -
  have reads: "reads_app (le_fetch env) app view" and ids: "ids_app view" using service by (simp_all add: lock_service_def)
  obtain q s1 where q: "getUnique (le_fetch env) app (lk_originalRecordKey ref) s = (q, s1)" by fastforce
  note got = getUnique_run [OF reads q]
  have "moved_away view (lk_recordId ref) tombstone s t \<and>
    (\<forall>k ref'. r = Inr (Inr k, ref') \<longrightarrow> k = tombstone \<and> view t tombstone \<noteq> None)"
  proof (cases "\<exists>e. r = Inr (Inl e, ref) \<and> t = s1")
    case True
    then show ?thesis using got by (auto simp: moved_away_def)
  next
    case False
    obtain x where x: "q = Inr x" "releaseAgain env m tombstone st code
        (ref\<lparr> lk_revision := revisionOf x, lk_businessRevision := fieldNumber x ''revision'' \<rparr>) s1 = (r, t)"
      using run q app False
      by (cases q) (auto simp: releaseConflict_def bindP_run split: if_splits)
    with got have "view s (lk_originalRecordKey ref) = Some x" by blast
    with ids obtain n where n: "revisionOf x = Finite n" unfolding ids_app_def by blast
    note again = releaseAgain_run [OF service clock app _ x(2), of n]
    show ?thesis using again n got by (auto simp: moved_away_def)
  qed
  then show "moved_away view (lk_recordId ref) tombstone s t"
    "r = Inr (Inr k, ref') \<Longrightarrow> k = tombstone \<and> view t tombstone \<noteq> None" by blast+
qed

lemma release_run:
  assumes world: "lock_world env app view" and app: "lc_appId (mg_config m) = app"
    and run: "releaseLock env m ref st code s = (r, t)"
  shows "release_effect view (le_digest env) ref r s t"
proof -
  let ?K = "lk_originalRecordKey ref"
  let ?T = "releaseTombstoneRecordKey (le_digest env) (lk_lockKey ref @ '':'' @ lk_leaseToken ref)"
  have service: "lock_service (le_fetch env) app view" and clock: "beside_app view (le_now env)"
    using world by (simp_all add: lock_world_def)
  then have reads: "reads_app (le_fetch env) app view" and ids: "ids_app view" by (simp_all add: lock_service_def)
  obtain f s1 where f: "bindP (getUnique (le_fetch env) app ?K) (\<lambda>current. assertFence current ref) s = (f, s1)" by fastforce
  have fence: "view s1 = view s \<and> (f = Inr () \<longrightarrow> (\<exists>x. view s ?K = Some x \<and>
      fieldText x ''lease_token'' = lk_leaseToken ref \<and> revisionOf x = lk_revision ref))"
    using f
  proof (cases rule: bindP_cases)
    case (1 e)
    then show ?thesis using getUnique_run [OF reads] by blast
  next
    case (2 x s')
    then show ?thesis using getUnique_run [OF reads 2(1)] assertFence_run [OF 2(2)] by (auto simp: numberEq_iff)
  qed
  show ?thesis
  proof (cases f)
    case (Inl e)
    with run f app fence have "r = Inr (Inl e, ref)" "t = s1" by (simp_all add: releaseLock_def bindP_run)
    with fence show ?thesis by (simp add: release_effect_def moved_away_def Let_def)
  next
    case (Inr u)
    with fence obtain x where x: "view s ?K = Some x" "fieldText x ''lease_token'' = lk_leaseToken ref" "revisionOf x = lk_revision ref"
      by auto
    with ids obtain n where n: "lk_revision ref = Finite n" unfolding ids_app_def by metis
    obtain p s2 where p: "releaseRecord env m ?T st code ref s1 = (p, s2)" by fastforce
    note put = releaseRecord_run [OF service clock app n p]
    have "moved_away view (lk_recordId ref) ?T s1 t \<and>
        (\<forall>k ref'. r = Inr (Inr k, ref') \<longrightarrow> k = ?T \<and> view t ?T \<noteq> None)"
    proof -
      have moved: "moved_away view (lk_recordId ref) ?T s1 s2"
        using put unfolding moved_away_def by blast
      have unmoved: "view s2 = view s1" if "p = Inl e" "isStatus 409 e" for e
        using put that by (auto simp: isStatus_def)
      have "(\<exists>v. p = Inr v \<and> r = Inr (Inr ?T, releaseMoved ref v) \<and> t = s2) \<or>
          (t = s2 \<and> (\<exists>e. r = Inr (Inl e, ref))) \<or>
          (p = Inl KintoneTransportError \<and> adjudicateLostResponse env m ?T st ref KintoneTransportError s2 = (r, t)) \<or>
          (\<exists>e. p = Inl e \<and> isStatus 409 e \<and> releaseConflict env m ?T st code ref e s2 = (r, t))"
        using run f app Inr p by (cases p) (auto simp: releaseLock_def bindP_run Let_def split: if_splits)
      then show ?thesis
      proof (elim disjE exE conjE)
        fix v assume "p = Inr v" "r = Inr (Inr ?T, releaseMoved ref v)" "t = s2"
        with put moved show ?thesis by auto
      next
        fix e assume "t = s2" "r = Inr (Inl e, ref)"
        with moved show ?thesis by simp
      next
        assume a: "adjudicateLostResponse env m ?T st ref KintoneTransportError s2 = (r, t)"
        have v: "view t = view s2" by (rule adjudicateLostResponse_run(1) [OF reads app a])
        show ?thesis
          using adjudicateLostResponse_run(2) [OF reads app a] moved v by (auto simp: moved_away_def)
      next
        fix e assume e: "p = Inl e" "isStatus 409 e" and c: "releaseConflict env m ?T st code ref e s2 = (r, t)"
        show ?thesis
          using releaseConflict_run [OF service clock app c] unmoved [OF e] by (auto simp: moved_away_def)
      qed
    qed
    with fence x show ?thesis by (auto simp: release_effect_def moved_away_def Let_def)
  qed
qed

section \<open>A service with room for one record\<close>

text \<open>
  The record key, the revision and the fields of the record. Date-time fields come back in the
  format of the service, to the minute and without milliseconds; with \<open>lost\<close> the answers to
  updates never arrive.
\<close>

type_synonym slot = "(string \<times> nat \<times> (string \<times> json) list) option"

definition slotRecord :: "nat \<Rightarrow> (string \<times> json) list \<Rightarrow> kintone_record" where
  "slotRecord n fs = fieldsRecord ((''$id'', JStr ''1'') # (''$revision'', JNum (of_nat n)) #
     (''heartbeat_at'', JStr ''1970-01-01T00:00:00Z'') # (''lease_expires_at'', JStr ''1970-01-01T00:01:00Z'') # fs)"

definition slotView :: "slot app_view" where
  "slotView s k = (case s of None \<Rightarrow> None | Some (k', n, fs) \<Rightarrow> if k = k' then Some (slotRecord n fs) else None)"

definition recordFields :: "json \<Rightarrow> (string \<times> json) list" where
  "recordFields rec = (case rec of
     JObj fs \<Rightarrow> map (\<lambda>(k, f). (k, case jsonGet f ''value'' of None \<Rightarrow> JNull | Some v \<Rightarrow> v)) fs | _ \<Rightarrow> [])"

definition slotAnswer :: "int \<Rightarrow> json \<Rightarrow> http_response" where
  "slotAnswer st body = \<lparr> hs_status = st, hs_ok = (st = 200), hs_body = Some body \<rparr>"

definition slotWritten :: "nat \<Rightarrow> json" where
  "slotWritten n = JObj [(''id'', JStr ''1''), (''revision'', JNum (of_nat n))]"

definition slotPut :: "json \<Rightarrow> (string \<times> json) list \<Rightarrow> string option \<Rightarrow> slot \<Rightarrow> http_response \<times> slot" where
  "slotPut body fs newKey s = (case s of
     None \<Rightarrow> (slotAnswer 404 JNull, s)
   | Some (k, n, gs) \<Rightarrow>
       if jsonGet body ''revision'' \<noteq> Some (JNum (of_nat n)) then (slotAnswer 409 JNull, s)
       else if jsonGet body ''id'' = Some (JStr ''1'') \<or>
         (case jsonGet body ''updateKey'' of Some u \<Rightarrow> jsonGet u ''value'' = Some (JStr k) | None \<Rightarrow> False)
       then (slotAnswer 200 (slotWritten (Suc n)), Some (case newKey of None \<Rightarrow> k | Some k' \<Rightarrow> k', Suc n, fs @ gs))
       else (slotAnswer 404 JNull, s))"

definition slotFetch :: "bool \<Rightarrow> slot fetch" where
  "slotFetch lost req s =
     (let body = (case hr_body req of None \<Rightarrow> JNull | Some b \<Rightarrow> b);
          fs = (case jsonGet body ''record'' of None \<Rightarrow> [] | Some r \<Rightarrow> recordFields r);
          newKey = (case mapGet fs ''record_key'' of Some (JStr k) \<Rightarrow> Some k | _ \<Rightarrow> None)
      in case hr_method req of
        GET \<Rightarrow> (Inr (slotAnswer 200 (JObj [(''records'', JArr (case s of None \<Rightarrow> []
            | Some (k, n, gs) \<Rightarrow> if mapGet (hr_params req) ''query'' = Some (lockQuery k) then [slotRecord n gs] else []))])), s)
      | POST \<Rightarrow> (case (s, newKey) of
            (None, Some k) \<Rightarrow> (Inr (slotAnswer 200 (slotWritten 1)), Some (k, 1, fs))
          | _ \<Rightarrow> (Inr (slotAnswer 400 (JObj [(''code'', JStr ''CB_VA01'')])), s))
      | PUT \<Rightarrow> (if lost then Inl (PlainError ''reset'') else Inr (fst (slotPut body fs newKey s)), snd (slotPut body fs newKey s)))"

lemma lockQuery_inject [simp]: "lockQuery k = lockQuery k' \<longleftrightarrow> k = k'"
proof
  assume "lockQuery k = lockQuery k'"
  then have "unquoteText (concat (map escapeChar k) @ CHR 0x22 # '')'') = unquoteText (concat (map escapeChar k') @ CHR 0x22 # '')'')"
    by (simp add: lockQuery_def quote_def)
  then show "k = k'" by (simp add: unquote_quote)
qed simp

lemma recordFields_fieldsRecord [simp]: "recordFields (fieldsRecord fs) = fs"
  by (induction fs) (auto simp: recordFields_def fieldsRecord_def jsonField_def jsonGet_def)

lemma slotRecord_simps [simp]:
  "revisionOf (slotRecord n fs) = Finite (of_nat n)"
  "fieldText (slotRecord n fs) ''$id'' = ''1''"
  "fieldText (slotRecord n fs) ''heartbeat_at'' = ''1970-01-01T00:00:00Z''"
  "c \<in> lockTextFields - {''$id''} \<Longrightarrow> fieldText (slotRecord n fs) c =
     (case mapGet fs c of None \<Rightarrow> [] | Some JNull \<Rightarrow> [] | Some v \<Rightarrow> textOfJson v)"
  by (auto simp: slotRecord_def revisionOf_def fieldNumber_def numberOf_def fieldText_def textOfJson_def lockTextFields_def)

lemma slot_reads: "reads_app (slotFetch lost) app slotView"
  by (auto simp: reads_app_def getRecords_def request_def bindP_run slotFetch_def slotAnswer_def property_def jsonGet_def
      slotView_def typeError_def Let_def split: option.splits)

lemma slot_ids: "ids_app slotView"
  by (auto simp: ids_app_def slotView_def split: option.splits if_splits)

lemma stored_slotRecord: "stored fs (slotRecord n (fs @ gs))"
  by (auto simp: stored_def textOfJson_def)

lemma merged_slotRecord: "merged fs (slotRecord n gs) (slotRecord (Suc n) (fs @ gs))"
proof -
  have "fieldText (slotRecord (Suc n) (fs @ gs)) c = fieldText (slotRecord n gs) c"
    if "c \<in> lockTextFields" "mapGet fs c = None" for c
  proof (cases "c = ''$id''")
    case True
    then show ?thesis by simp
  next
    case False
    with that show ?thesis by (simp add: map_add_def)
  qed
  then show ?thesis using stored_slotRecord by (simp add: merged_def add.commute)
qed

lemma slot_inserts: "inserts_app (slotFetch lost) app slotView"
  unfolding inserts_app_def
proof (intro allI impI, elim conjE)
  fix s fs key r t
  assume run: "postRecord (slotFetch lost) app (fieldsRecord fs) s = (r, t)" and key: "mapGet fs ''record_key'' = Some (JStr key)"
  show "slotView t = slotView s \<and> (\<exists>e. r = Inl e) \<or>
     (\<exists>x. slotView s key = None \<and> slotView t = (slotView s)(key := Some x) \<and> stored fs x \<and>
        (r = Inl KintoneTransportError \<or> r = Inr (Some (JStr (fieldText x ''$id'')), revisionOf x)))"
  proof (cases s)
    case None
    with run key have "t = Some (key, 1, fs)" "r = Inr (Some (JStr ''1''), Finite 1)"
      by (auto simp: postRecord_def request_def bindP_run slotFetch_def slotAnswer_def slotWritten_def property_def jsonGet_def
          typeError_def numberOf_def Let_def)
    with None stored_slotRecord [of fs 1 "[]"] show ?thesis
      by (intro disjI2 exI [of _ "slotRecord 1 fs"]) (auto simp: slotView_def fun_eq_iff)
  next
    case (Some a)
    with run key show ?thesis
      by (auto simp: postRecord_def request_def bindP_run slotFetch_def slotAnswer_def property_def jsonGet_def Let_def)
  qed
qed

lemma slot_updates: "updates_app (slotFetch lost) app slotView"
  unfolding updates_app_def
proof (intro conjI allI impI; elim conjE)
  fix s key n fs r t
  assume run: "putRecord (slotFetch lost) app key (Finite n) (fieldsRecord fs) s = (r, t)" and key: "mapGet fs ''record_key'' = None"
  show "slotView t = slotView s \<and> (\<exists>e. r = Inl e) \<or>
       (\<exists>x y. slotView s key = Some x \<and> revisionOf x = Finite n \<and> slotView t = (slotView s)(key := Some y) \<and> merged fs x y \<and>
          (r = Inl KintoneTransportError \<or> r = Inr (revisionOf y)))"
  proof (cases "\<exists>m gs. s = Some (key, m, gs) \<and> n = of_nat m")
    case True
    then obtain m gs where s: "s = Some (key, m, gs)" "n = of_nat m" by blast
    with run key have "t = Some (key, Suc m, fs @ gs) \<and> r = (if lost then Inl KintoneTransportError else Inr (Finite (of_nat (Suc m))))"
      by (cases lost; auto simp: putRecord_def request_def bindP_run slotFetch_def slotPut_def slotAnswer_def slotWritten_def property_def jsonGet_def
          typeError_def numberOf_def Let_def)
    with s merged_slotRecord [of fs m gs] show ?thesis
      by (cases lost; intro disjI2 exI [of _ "slotRecord m gs"] exI [of _ "slotRecord (Suc m) (fs @ gs)"]) (auto simp: slotView_def fun_eq_iff)
  next
    case False
    with run key show ?thesis
      by (cases lost; auto simp: putRecord_def request_def bindP_run slotFetch_def slotPut_def slotAnswer_def property_def jsonGet_def Let_def
          split: option.splits if_splits)
  qed
next
  fix s i n fs key' r t
  assume run: "putRecordById (slotFetch lost) app i (Finite n) (fieldsRecord fs) s = (r, t)" and key: "mapGet fs ''record_key'' = Some (JStr key')"
  show "slotView t = slotView s \<and> (\<exists>e. r = Inl e) \<or>
       (\<exists>key x y. slotView s key = Some x \<and> fieldText x ''$id'' = i \<and> revisionOf x = Finite n \<and>
          slotView t = (slotView s)(key := None, key' := Some y) \<and> merged fs x y \<and>
          (r = Inl KintoneTransportError \<or> r = Inr (revisionOf y)))"
  proof (cases "i = ''1'' \<and> (\<exists>k m gs. s = Some (k, m, gs) \<and> n = of_nat m)")
    case True
    then obtain k m gs where s: "i = ''1''" "s = Some (k, m, gs)" "n = of_nat m" by blast
    with run key have "t = Some (key', Suc m, fs @ gs) \<and> r = (if lost then Inl KintoneTransportError else Inr (Finite (of_nat (Suc m))))"
      by (cases lost; auto simp: putRecordById_def request_def bindP_run slotFetch_def slotPut_def slotAnswer_def slotWritten_def property_def jsonGet_def
          typeError_def numberOf_def Let_def)
    with s merged_slotRecord [of fs m gs] show ?thesis
      by (cases lost; intro disjI2 exI [of _ k] exI [of _ "slotRecord m gs"] exI [of _ "slotRecord (Suc m) (fs @ gs)"])
        (auto simp: slotView_def fun_eq_iff)
  next
    case False
    with run key show ?thesis
      by (cases lost; auto simp: putRecordById_def request_def bindP_run slotFetch_def slotPut_def slotAnswer_def property_def jsonGet_def Let_def
          split: option.splits if_splits)
  qed
qed

lemma slot_service: "lock_service (slotFetch lost) app slotView"
  by (simp add: lock_service_def slot_reads slot_inserts slot_updates slot_ids)

end
