(* ===== verification/LockSafety.thy ===== *)
theory LockSafety
  imports NetworkLockProps
begin

text \<open>
  Mutual exclusion by the network lock. \<open>lock_step\<close> is one operation of one of any number of
  processes on one app, or anything else that leaves the lock records alone; beside the state of
  the world it carries the references of the processes that hold a lock: acquired, not yet handed
  to \<open>release\<close>. The properties of the single operations close the theory.
\<close>

section \<open>Processes and the locks they hold\<close>

inductive lock_step ::
  "int \<Rightarrow> 's app_view \<Rightarrow> 's \<times> network_lock_reference set \<Rightarrow> 's \<times> network_lock_reference set \<Rightarrow> bool"
  for app view where
  acquired: "lock_world env app view \<Longrightarrow> newLockManager (le_digest env) config = Inr m \<Longrightarrow> lc_appId config = app \<Longrightarrow>
    acquireLock env m s = (Inr ref, t) \<Longrightarrow> lk_leaseToken ref \<notin> lk_leaseToken ` H \<Longrightarrow>
    lock_step app view (s, H) (t, insert ref H)"
| not_acquired: "lock_world env app view \<Longrightarrow> newLockManager (le_digest env) config = Inr m \<Longrightarrow> lc_appId config = app \<Longrightarrow>
    acquireLock env m s = (Inl e, t) \<Longrightarrow> lock_step app view (s, H) (t, H)"
| renewed: "lock_world env app view \<Longrightarrow> lc_appId (mg_config m) = app \<Longrightarrow> ref \<in> H \<Longrightarrow>
    heartbeat env m ref s = (Inr ref', t) \<Longrightarrow> lock_step app view (s, H) (t, insert ref' (H - {ref}))"
| not_renewed: "lock_world env app view \<Longrightarrow> lc_appId (mg_config m) = app \<Longrightarrow> ref \<in> H \<Longrightarrow>
    heartbeat env m ref s = (Inl e, t) \<Longrightarrow> lock_step app view (s, H) (t, H)"
| released: "lock_world env app view \<Longrightarrow> lc_appId (mg_config m) = app \<Longrightarrow> ref \<in> H \<Longrightarrow>
    releaseLock env m ref st code s = (r, t) \<Longrightarrow> lock_step app view (s, H) (t, H - {ref})"
| elsewhere: "(\<And>k. startsWith k ''LOCK:'' \<Longrightarrow> view t k = view s k) \<Longrightarrow> lock_step app view (s, H) (t, H)"

definition lock_inv :: "'s app_view \<Rightarrow> 's \<Rightarrow> network_lock_reference set \<Rightarrow> bool" where
  "lock_inv view s H \<longleftrightarrow>
     (\<forall>ref \<in> H. startsWith (lk_originalRecordKey ref) ''LOCK:'' \<and>
        (\<exists>x. view s (lk_originalRecordKey ref) = Some x \<and> names_record ref x)) \<and>
     (\<forall>a \<in> H. \<forall>b \<in> H. lk_leaseToken a = lk_leaseToken b \<longrightarrow> a = b)"

lemma newLockManager_Inr:
  assumes "newLockManager digest config = Inr m"
  shows "mg_config m = config" "startsWith (mg_recordKey m) ''LOCK:''" "mg_recordKey m = ''LOCK:'' @ mg_lockKey m"
    "networkLockKey digest (lc_profile config) (lc_networkId config) = Inr (mg_lockKey m)" "0 < lc_leaseDurationSec config"
  using assms by (auto simp: newLockManager_def recordKeyFor_def Let_def split: if_splits sum.splits)

lemma lock_inv_frame:
  assumes "lock_inv view s H" "\<And>ref x. ref \<in> H \<Longrightarrow> view s (lk_originalRecordKey ref) = Some x \<Longrightarrow> names_record ref x \<Longrightarrow>
    startsWith (lk_originalRecordKey ref) ''LOCK:'' \<Longrightarrow> \<exists>y. view t (lk_originalRecordKey ref) = Some y \<and> names_record ref y"
  shows "lock_inv view t H"
  using assms unfolding lock_inv_def by blast

lemma lock_inv_insert:
  assumes "lock_inv view t H" "startsWith (lk_originalRecordKey ref) ''LOCK:''"
    and "view t (lk_originalRecordKey ref) = Some x" "names_record ref x" "lk_leaseToken ref \<notin> lk_leaseToken ` H"
  shows "lock_inv view t (insert ref H)"
  using assms unfolding lock_inv_def by (metis imageI insert_iff)

lemma acquire_inv:
  assumes "lock_world env app view" "newLockManager (le_digest env) config = Inr m" "lc_appId config = app"
    and run: "acquireLock env m s = (r, t)" and inv: "lock_inv view s H"
    and fresh: "\<And>ref. r = Inr ref \<Longrightarrow> lk_leaseToken ref \<notin> lk_leaseToken ` H"
  shows "lock_inv view t (case r of Inl _ \<Rightarrow> H | Inr ref \<Rightarrow> insert ref H)"
proof -
  have m: "lc_appId (mg_config m) = app" "startsWith (mg_recordKey m) ''LOCK:''"
    using newLockManager_Inr [OF assms(2)] assms(3) by simp_all
  have grows: "view t = view s \<or> (\<exists>x. view s (mg_recordKey m) = None \<and> view t = (view s)(mg_recordKey m := Some x))"
    and ref: "\<And>ref. r = Inr ref \<Longrightarrow> lk_originalRecordKey ref = mg_recordKey m \<and>
      (\<exists>x. view t (mg_recordKey m) = Some x \<and> names_record ref x)"
    using acquire_run [OF assms(1) m(1) run] unfolding acquired_effect_def by auto
  have old: "lock_inv view t H"
    using inv
  proof (rule lock_inv_frame)
    fix ref x
    assume a: "view s (lk_originalRecordKey ref) = Some x" "names_record ref x"
    have "view t (lk_originalRecordKey ref) = Some x"
      using grows a(1) by (metis fun_upd_other option.distinct(1))
    with a(2) show "\<exists>y. view t (lk_originalRecordKey ref) = Some y \<and> names_record ref y" by blast
  qed
  show ?thesis
  proof (cases r)
    case (Inl e)
    with old show ?thesis by simp
  next
    case (Inr x)
    with ref [OF Inr] obtain y where "lk_originalRecordKey x = mg_recordKey m" "view t (mg_recordKey m) = Some y" "names_record x y"
      by blast
    with lock_inv_insert [OF old, of x y] m(2) fresh [OF Inr] Inr show ?thesis by simp
  qed
qed

lemma heartbeat_inv:
  assumes "lock_world env app view" "lc_appId (mg_config m) = app" "ref \<in> H"
    and run: "heartbeat env m ref s = (r, t)" and inv: "lock_inv view s H"
  shows "lock_inv view t (case r of Inl _ \<Rightarrow> H | Inr ref' \<Rightarrow> insert ref' (H - {ref}))"
proof -
  note effect = heartbeat_run [OF assms(1,2) run]
  have names: "names_record ref' x \<Longrightarrow> (\<forall>c \<in> lockTextFields. fieldText y c = fieldText x c) \<Longrightarrow> names_record ref' y" for ref' x y
    by (simp add: names_record_def lockTextFields_def)
  have old: "lock_inv view t H"
    using inv
  proof (rule lock_inv_frame)
    fix ref' x
    assume "view s (lk_originalRecordKey ref') = Some x" "names_record ref' x"
    then show "\<exists>y. view t (lk_originalRecordKey ref') = Some y \<and> names_record ref' y"
      using effect names unfolding heartbeat_effect_def by (metis fun_upd_apply option.inject)
  qed
  show ?thesis
  proof (cases r)
    case (Inl e)
    with old show ?thesis by simp
  next
    case (Inr ref')
    with effect obtain a b c d where r': "ref' = ref\<lparr> lk_revision := a, lk_businessRevision := b, lk_heartbeatAt := c, lk_leaseExpiresAt := d \<rparr>"
      unfolding heartbeat_effect_def by blast
    have same: "lk_originalRecordKey ref' = lk_originalRecordKey ref" "lk_leaseToken ref' = lk_leaseToken ref"
      "\<And>x. names_record ref' x = names_record ref x"
      unfolding r' by (simp_all add: names_record_def)
    with old assms(3) Inr show ?thesis by (auto simp: lock_inv_def)
  qed
qed

lemma tombstone_no_lock: "\<not> startsWith (releaseTombstoneRecordKey digest v) ''LOCK:''"
  by (simp add: releaseTombstoneRecordKey_def Let_def)

lemma release_inv:
  assumes "lock_world env app view" "lc_appId (mg_config m) = app" "ref \<in> H"
    and run: "releaseLock env m ref st code s = (r, t)" and inv: "lock_inv view s H"
  shows "lock_inv view t (H - {ref})"
proof -
  let ?T = "releaseTombstoneRecordKey (le_digest env) (lk_lockKey ref @ '':'' @ lk_leaseToken ref)"
  have ids: "ids_app view" using assms(1) by (simp add: lock_world_def lock_service_def)
  have moved: "moved_away view (lk_recordId ref) ?T s t"
    using release_run [OF assms(1,2) run] by (simp add: release_effect_def Let_def)
  from inv assms(3) obtain z where z: "view s (lk_originalRecordKey ref) = Some z" "names_record ref z"
    by (auto simp: lock_inv_def)
  have "lock_inv view s (H - {ref})" using inv by (auto simp: lock_inv_def)
  then show ?thesis
  proof (rule lock_inv_frame)
    fix other x
    assume o: "other \<in> H - {ref}" "view s (lk_originalRecordKey other) = Some x" "names_record other x"
      "startsWith (lk_originalRecordKey other) ''LOCK:''"
    have "view t (lk_originalRecordKey other) = view s (lk_originalRecordKey other)"
    proof (cases "view t = view s")
      case False
      then obtain key a b where k: "view s key = Some a" "fieldText a ''$id'' = lk_recordId ref"
          "view t = (view s)(key := None, ?T := Some b)"
        using moved by (auto simp: moved_away_def)
      have "key = lk_originalRecordKey ref"
        using ids k(1,2) z unfolding ids_app_def names_record_def by metis
      moreover have "lk_originalRecordKey other \<noteq> lk_originalRecordKey ref"
        using o z inv assms(3) by (auto simp: lock_inv_def names_record_def)
      moreover have "lk_originalRecordKey other \<noteq> ?T" using o(4) tombstone_no_lock by metis
      ultimately show ?thesis using k(3) by simp
    qed simp
    with o show "\<exists>y. view t (lk_originalRecordKey other) = Some y \<and> names_record other y" by simp
  qed
qed

lemma lock_step_inv:
  "lock_step app view c c' \<Longrightarrow> lock_inv view (fst c) (snd c) \<Longrightarrow> lock_inv view (fst c') (snd c')"
proof (induction rule: lock_step.induct)
  case (acquired env config m s ref t H)
  then show ?case using acquire_inv [of env app view config m s "Inr ref" t H] by simp
next
  case (not_acquired env config m s e t H)
  then show ?case using acquire_inv [of env app view config m s "Inl e" t H] by simp
next
  case (renewed env m ref H s ref' t)
  then show ?case using heartbeat_inv [of env app view m ref H s "Inr ref'" t] by simp
next
  case (not_renewed env m ref H s e t)
  then show ?case using heartbeat_inv [of env app view m ref H s "Inl e" t] by simp
next
  case (released env m ref H st code s r t)
  then show ?case using release_inv [of env app view m ref H st code s r t] by simp
next
  case (elsewhere t s H)
  then show ?case using lock_inv_frame [of view s H t] by auto
qed

lemma lock_steps_inv:
  "(lock_step app view)\<^sup>*\<^sup>* c c' \<Longrightarrow> lock_inv view (fst c) (snd c) \<Longrightarrow> lock_inv view (fst c') (snd c')"
  by (induction rule: rtranclp_induct) (blast intro: lock_step_inv)+

section \<open>A lock on the one-record service\<close>

definition sampleEnv :: "bool \<Rightarrow> slot lock_env" where
  "sampleEnv lost = \<lparr> le_fetch = slotFetch lost, le_now = retP 0, le_uuid = retP ''u1'',
     le_dateText = (\<lambda>_. ''1970-01-01T00:00:00.000Z''), le_digest = padDigest \<rparr>"

definition sampleConfig :: lock_config where
  "sampleConfig = \<lparr> lc_appId = 1, lc_profile = ''prod'', lc_networkId = ''monthly'', lc_ownerInvocationId = ''inv1'',
     lc_ownerInstanceId = ''i1'', lc_leaseDurationSec = 60 \<rparr>"

definition sampleManager :: lock_manager where
  "sampleManager = \<lparr> mg_config = sampleConfig, mg_lockKey = ''N1:'' @ padDigest (joinText [NUL] [''N1'', ''prod'', ''monthly'']),
     mg_recordKey = ''LOCK:'' @ ''N1:'' @ padDigest (joinText [NUL] [''N1'', ''prod'', ''monthly'']) \<rparr>"

lemma length_padDigest: "length (padDigest s) = 43"
  by (simp add: padDigest_def min_def)

lemma sampleManager: "newLockManager padDigest sampleConfig = Inr sampleManager"
proof -
  let ?k = "''N1:'' @ padDigest (joinText [NUL] [''N1'', ''prod'', ''monthly''])"
  have "validIdentifier ''prod''" "validIdentifier ''monthly''"
    by (simp_all add: validIdentifier_def NUL_def reservedIdentifier_def MAX_CANONICAL_LOCK_IDENTIFIER_LENGTH_def)
  then have "networkLockKey padDigest ''prod'' ''monthly'' = Inr ?k"
    by (simp add: networkLockKey_def lockKey_Inr CANONICAL_KEY_LENGTH_def length_padDigest)
  then show ?thesis
    by (simp add: newLockManager_def sampleConfig_def sampleManager_def isSafeInteger_def recordKeyFor_def Let_def
        MAX_KINTONE_UNIQUE_KEY_LENGTH_def length_padDigest)
qed

lemma sample_app: "lc_appId (mg_config sampleManager) = 1"
  by (simp add: sampleManager_def sampleConfig_def)

lemma sampleWorld: "lock_world (sampleEnv lost) 1 slotView"
  by (simp add: lock_world_def sampleEnv_def slot_service beside_app_def)

definition sampleFields :: "(string \<times> json) list" where
  "sampleFields = lockFields sampleManager ''u1'' ''1970-01-01T00:00:00.000Z'' ''1970-01-01T00:00:00.000Z''"

definition sampleReference :: network_lock_reference where
  "sampleReference = createdReference sampleManager sampleFields (Some (JStr ''1''), Finite 1)"

lemma sample_acquire: "acquireLock (sampleEnv lost) sampleManager None =
    (Inr sampleReference, Some (mg_recordKey sampleManager, 1, sampleFields))"
  by (simp add: acquireLock_def insertLock_def isoDate_def Let_def sampleEnv_def bindP_run postRecord_def request_def
      slotFetch_def sampleReference_def sampleFields_def sampleManager_def sampleConfig_def lockFields_def jsonGet_def slotAnswer_def slotWritten_def
      property_def numberOf_def)

lemma sample_step: "lock_step 1 slotView (None, {}) (Some (mg_recordKey sampleManager, 1, sampleFields), {sampleReference})"
  by (rule lock_step.acquired [where H = "{}" and config = sampleConfig, OF sampleWorld [of False] _ _ sample_acquire])
    (simp add: sampleEnv_def sampleManager, simp add: sampleConfig_def, simp)

lemma slot_getUnique: "getUnique (slotFetch lost) app k (Some (k, n, gs)) = (Inr (slotRecord n gs), Some (k, n, gs))"
  by (simp add: getUnique_def getRecords_def request_def bindP_run slotFetch_def slotAnswer_def jsonGet_def property_def
      recordArray_def Let_def)

lemma slot_put_key:
  "mapGet fs ''record_key'' = None \<Longrightarrow> putRecord (slotFetch False) app k (Finite (of_nat n)) (fieldsRecord fs) (Some (k, n, gs)) =
     (Inr (Finite (of_nat (Suc n))), Some (k, Suc n, fs @ gs))"
  by (simp add: putRecord_def request_def bindP_run slotFetch_def slotPut_def slotAnswer_def slotWritten_def jsonGet_def
      property_def numberOf_def Let_def)

lemma slot_put_lost:
  "mapGet fs ''record_key'' = None \<Longrightarrow> putRecord (slotFetch True) app k (Finite (of_nat n)) (fieldsRecord fs) (Some (k, n, gs)) =
     (Inl KintoneTransportError, Some (k, Suc n, fs @ gs))"
  by (simp add: putRecord_def request_def bindP_run slotFetch_def slotPut_def jsonGet_def Let_def)

lemma slot_put_id:
  "putRecordById (slotFetch False) app ''1'' (Finite (of_nat n)) (fieldsRecord fs) (Some (k, n, gs)) =
     (Inr (Finite (of_nat (Suc n))), Some (case mapGet fs ''record_key'' of Some (JStr k') \<Rightarrow> k' | _ \<Rightarrow> k, Suc n, fs @ gs))"
  by (auto simp: putRecordById_def request_def bindP_run slotFetch_def slotPut_def slotAnswer_def slotWritten_def jsonGet_def
      property_def numberOf_def Let_def split: option.splits json.splits)

lemma sample_fence: "fieldText (slotRecord n sampleFields) ''lease_token'' = ''u1''"
  by (simp add: sampleFields_def lockFields_def lockTextFields_def textOfJson_def)

section \<open>Properties\<close>

text \<open>
  C20: Mutual exclusion. Whatever processes acquire, renew and release network locks of one app,
  in any order, with lost answers, failing requests and unrelated writes in between, two
  references that are held for the same lock record are one and the same; and the app shows, for every held
  reference, a RUNNING record with its lease token and its owner.
\<close>

theorem network_lock_mutual_exclusion:
  assumes "(lock_step app view)\<^sup>*\<^sup>* (s, {}) (t, H)"
  shows "(\<forall>a \<in> H. \<forall>b \<in> H. lk_originalRecordKey a = lk_originalRecordKey b \<longrightarrow> a = b) \<and>
    (\<forall>ref \<in> H. \<exists>x. view t (lk_originalRecordKey ref) = Some x \<and> fieldText x ''status'' = ''RUNNING'' \<and>
       fieldText x ''lease_token'' = lk_leaseToken ref \<and> fieldText x ''owner_invocation_id'' = lk_ownerInvocationId ref)"
proof -
  have "lock_inv view s {}" by (simp add: lock_inv_def)
  then have inv: "lock_inv view t H" using lock_steps_inv [OF assms] by simp
  then show ?thesis unfolding lock_inv_def names_record_def by (metis option.inject)
qed

lemma network_lock_mutual_exclusion_witness:
  "\<exists>t. (lock_step 1 slotView)\<^sup>*\<^sup>* (None, {}) (t, {sampleReference}) \<and>
     (\<exists>x. slotView t (lk_originalRecordKey sampleReference) = Some x \<and> fieldText x ''lease_token'' = ''u1'')"
proof -
  have steps: "(lock_step 1 slotView)\<^sup>*\<^sup>* (None, {}) (Some (mg_recordKey sampleManager, 1, sampleFields), {sampleReference})"
    using sample_step by blast
  have "lk_leaseToken sampleReference = ''u1''"
    by (simp add: sampleReference_def createdReference_def decodeReference_def sampleFields_def lockFields_def fieldText_def textOfJson_def)
  with network_lock_mutual_exclusion [OF steps] steps show ?thesis by auto
qed

text \<open>
  A held lock cannot be taken. While the app shows a RUNNING record with another token under the
  lock key, \<open>acquire\<close> throws - whatever the service answers, also when the answer to the insert is
  lost - and the lock record stays exactly as it is.
\<close>

theorem held_lock_excludes:
  assumes "lock_world env app view" "lc_appId (mg_config m) = app"
    and "view s (mg_recordKey m) = Some x"
    and "\<And>s' u t'. le_uuid env s' = (Inr u, t') \<Longrightarrow> u \<noteq> fieldText x ''lease_token''"
    and "acquireLock env m s = (r, t)"
  shows "(\<exists>e. r = Inl e) \<and> view t = view s"
proof (cases "\<exists>u s1 s2 s3. view s1 = view s \<and> view s2 = view s \<and> view s3 = view s \<and> le_uuid env s1 = (Inr u, s2) \<and>
      acquired_effect view m u r s3 t")
  case True
  then obtain u s1 s2 s3 where a: "view s3 = view s" "le_uuid env s1 = (Inr u, s2)" "acquired_effect view m u r s3 t" by blast
  then have t: "view t = view s" using assms(3) unfolding acquired_effect_def by (metis option.distinct(1))
  have "r \<noteq> Inr ref" for ref
  proof
    assume "r = Inr ref"
    with a(3) t assms(3) have "fieldText x ''lease_token'' = u"
      unfolding acquired_effect_def names_record_def by (metis option.inject)
    with assms(4) [OF a(2)] show False by simp
  qed
  with t show ?thesis by (cases r) auto
next
  case False
  with acquire_run [OF assms(1,2,5)] show ?thesis by blast
qed

lemma held_lock_excludes_witness:
  "slotView (snd (acquireLock ((sampleEnv True)\<lparr> le_uuid := retP ''u2'' \<rparr>) sampleManager
      (Some (mg_recordKey sampleManager, 1, sampleFields)))) = slotView (Some (mg_recordKey sampleManager, 1, sampleFields))"
proof -
  let ?env = "(sampleEnv True)\<lparr> le_uuid := retP ''u2'' \<rparr>" and ?s = "Some (mg_recordKey sampleManager, 1, sampleFields)"
  obtain r t where run: "acquireLock ?env sampleManager ?s = (r, t)" by fastforce
  have world: "lock_world ?env 1 slotView"
    using sampleWorld [of True] by (simp add: lock_world_def beside_app_def)
  note app = sample_app
  have view: "slotView ?s (mg_recordKey sampleManager) = Some (slotRecord 1 sampleFields)" by (simp add: slotView_def)
  have "fieldText (slotRecord 1 sampleFields) ''lease_token'' = ''u1''"
    by (simp add: sampleFields_def lockFields_def lockTextFields_def textOfJson_def)
  with held_lock_excludes [OF world app view _ run] run show ?thesis by auto
qed

text \<open>
  Fencing. A heartbeat that returns has found the record with the lease token and the revision
  of the reference and leaves it with the same token and the revision of the returned reference; a
  heartbeat never changes a record that has another token or another revision.
\<close>

theorem heartbeat_is_fenced:
  assumes "lock_world env app view" "lc_appId (mg_config m) = app" "heartbeat env m ref s = (r, t)"
  shows "(\<forall>ref'. r = Inr ref' \<longrightarrow> lk_leaseToken ref' = lk_leaseToken ref \<and> lk_revision ref' = addOne (lk_revision ref) \<and>
      (\<exists>x y. view s (lk_originalRecordKey ref) = Some x \<and> fieldText x ''lease_token'' = lk_leaseToken ref \<and>
        revisionOf x = lk_revision ref \<and> view t (lk_originalRecordKey ref') = Some y \<and>
        fieldText y ''lease_token'' = lk_leaseToken ref' \<and> revisionOf y = lk_revision ref')) \<and>
    (\<forall>k x. view s k = Some x \<and> (k \<noteq> lk_originalRecordKey ref \<or> fieldText x ''lease_token'' \<noteq> lk_leaseToken ref \<or>
        revisionOf x \<noteq> lk_revision ref) \<longrightarrow> view t k = Some x)"
proof -
  note effect = heartbeat_run [OF assms, unfolded heartbeat_effect_def]
  have same: "lk_leaseToken ref' = lk_leaseToken ref \<and> lk_revision ref' = addOne (lk_revision ref) \<and>
      lk_originalRecordKey ref' = lk_originalRecordKey ref" if "r = Inr ref'" for ref'
  proof -
    from effect that obtain c d where "ref' = ref\<lparr> lk_revision := addOne (lk_revision ref),
        lk_businessRevision := addOne (lk_businessRevision ref), lk_heartbeatAt := c, lk_leaseExpiresAt := d \<rparr>" by blast
    then show ?thesis by simp
  qed
  have frame: "view t k = Some x" if "view s k = Some x" "k \<noteq> lk_originalRecordKey ref \<or>
      fieldText x ''lease_token'' \<noteq> lk_leaseToken ref \<or> revisionOf x \<noteq> lk_revision ref" for k x
  proof -
    from effect consider "view t = view s" | z y where "view s (lk_originalRecordKey ref) = Some z"
        "fieldText z ''lease_token'' = lk_leaseToken ref" "revisionOf z = lk_revision ref"
        "view t = (view s)(lk_originalRecordKey ref := Some y)" by blast
    then show ?thesis using that by cases auto
  qed
  have moved: "\<exists>x y. view s (lk_originalRecordKey ref) = Some x \<and> fieldText x ''lease_token'' = lk_leaseToken ref \<and>
        revisionOf x = lk_revision ref \<and> view t (lk_originalRecordKey ref) = Some y \<and>
        fieldText y ''lease_token'' = lk_leaseToken ref \<and> revisionOf y = lk_revision ref'" if "r = Inr ref'" for ref'
    using effect that by blast
  show ?thesis
  proof (intro conjI allI impI)
    fix ref'
    assume r: "r = Inr ref'"
    from same [OF r] show "lk_leaseToken ref' = lk_leaseToken ref" "lk_revision ref' = addOne (lk_revision ref)" by blast+
    from moved [OF r] same [OF r]
    show "\<exists>x y. view s (lk_originalRecordKey ref) = Some x \<and> fieldText x ''lease_token'' = lk_leaseToken ref \<and>
        revisionOf x = lk_revision ref \<and> view t (lk_originalRecordKey ref') = Some y \<and>
        fieldText y ''lease_token'' = lk_leaseToken ref' \<and> revisionOf y = lk_revision ref'" by simp
  next
    fix k x
    assume "view s k = Some x \<and> (k \<noteq> lk_originalRecordKey ref \<or> fieldText x ''lease_token'' \<noteq> lk_leaseToken ref \<or>
        revisionOf x \<noteq> lk_revision ref)"
    then show "view t k = Some x" using frame by blast
  qed
qed

lemma sampleReference_fields:
  "lk_originalRecordKey sampleReference = mg_recordKey sampleManager" "lk_leaseToken sampleReference = ''u1''"
  "lk_revision sampleReference = Finite 1" "lk_businessRevision sampleReference = Finite 1"
  "lk_leaseDurationSec sampleReference = 60" "lk_recordId sampleReference = ''1''"
  by (simp_all add: sampleReference_def createdReference_def decodeReference_def sampleFields_def lockFields_def fieldText_def textOfJson_def
      fieldNumber_def numberOf_def sampleManager_def sampleConfig_def)

lemma heartbeat_is_fenced_witness:
  "\<exists>r t. heartbeat (sampleEnv False) sampleManager sampleReference None = (r, t) \<and> (\<forall>ref'. r \<noteq> Inr ref')"
proof -
  obtain r t where run: "heartbeat (sampleEnv False) sampleManager sampleReference None = (r, t)" by fastforce
  note app = sample_app
  from heartbeat_is_fenced [OF sampleWorld app run] run show ?thesis by (auto simp: slotView_def)
qed

text \<open>
  A release that reports success has freed the lock: when the record the reference was acquired
  for is still there under its id, it is gone from the lock key and there is a tombstone in its place,
  so that the next acquisition finds the key free.
\<close>

theorem release_frees_lock:
  assumes "lock_world env app view" "lc_appId (mg_config m) = app"
    and "releaseLock env m ref st code s = (Inr (Inr k, ref'), t)"
    and "view s (lk_originalRecordKey ref) = Some x" "fieldText x ''$id'' = lk_recordId ref"
    and "view s (releaseTombstoneRecordKey (le_digest env) (lk_lockKey ref @ '':'' @ lk_leaseToken ref)) = None"
    and "startsWith (lk_originalRecordKey ref) ''LOCK:''"
  shows "view t (lk_originalRecordKey ref) = None \<and> view t k \<noteq> None \<and>
    k = releaseTombstoneRecordKey (le_digest env) (lk_lockKey ref @ '':'' @ lk_leaseToken ref)"
proof -
  let ?T = "releaseTombstoneRecordKey (le_digest env) (lk_lockKey ref @ '':'' @ lk_leaseToken ref)"
  have ids: "ids_app view" using assms(1) by (simp add: lock_world_def lock_service_def)
  have e: "moved_away view (lk_recordId ref) ?T s t" "k = ?T" "view t \<noteq> view s \<or> view t ?T \<noteq> None"
    using release_run [OF assms(1,2,3)] by (simp_all add: release_effect_def Let_def)
  then obtain key a b where k: "view s key = Some a" "fieldText a ''$id'' = lk_recordId ref"
      "view t = (view s)(key := None, ?T := Some b)"
    using assms(6) unfolding moved_away_def by metis
  have "key = lk_originalRecordKey ref" using ids k(1,2) assms(4,5) unfolding ids_app_def by metis
  moreover have "lk_originalRecordKey ref \<noteq> ?T" using assms(7) tombstone_no_lock by metis
  ultimately show ?thesis using k(3) e(2) by simp
qed

lemma release_frees_lock_witness:
  "\<exists>k ref' t. releaseLock (sampleEnv False) sampleManager sampleReference ''SUCCESS'' ''NORMAL''
       (Some (mg_recordKey sampleManager, 1, sampleFields)) = (Inr (Inr k, ref'), t) \<and>
     slotView t (mg_recordKey sampleManager) = None"
proof -
  let ?s = "Some (mg_recordKey sampleManager, 1, sampleFields)"
  note app = sample_app
  have key: "startsWith (mg_recordKey sampleManager) ''LOCK:''" by (simp add: sampleManager_def)
  obtain k ref' t where run: "releaseLock (sampleEnv False) sampleManager sampleReference ''SUCCESS'' ''NORMAL'' ?s = (Inr (Inr k, ref'), t)"
    using sampleReference_fields sample_fence
    by (simp add: releaseLock_def releaseRecord_def sampleEnv_def bindP_run slot_getUnique slot_put_id [where n = "Suc 0", simplified]
        app assertFence_def Let_def)
  have view: "slotView ?s (lk_originalRecordKey sampleReference) = Some (slotRecord 1 sampleFields)"
    by (simp add: slotView_def sampleReference_fields)
  have i: "fieldText (slotRecord 1 sampleFields) ''$id'' = lk_recordId sampleReference" by (simp add: sampleReference_fields)
  let ?T = "releaseTombstoneRecordKey (le_digest (sampleEnv False)) (lk_lockKey sampleReference @ '':'' @ lk_leaseToken sampleReference)"
  have "?T \<noteq> mg_recordKey sampleManager" using tombstone_no_lock key by metis
  then have free: "slotView ?s ?T = None" by (simp add: slotView_def)
  from release_frees_lock [OF sampleWorld app run view i free] key run show ?thesis
    by (simp add: sampleReference_fields)
qed

lemma lost_heartbeat:
  assumes "lock_world env app view" "lc_appId (mg_config m) = app"
    and "\<And>rev rec u. fst (putRecord (le_fetch env) app (lk_originalRecordKey ref) rev rec u) = Inl KintoneTransportError"
    and "\<And>u x ms. view u (lk_originalRecordKey ref) = Some x \<Longrightarrow> fieldText x ''heartbeat_at'' \<noteq> le_dateText env ms"
    and "heartbeat env m ref s = (r, t)"
  shows "\<exists>e. r = Inl e"
proof -
  have reads: "reads_app (le_fetch env) app view"
    using assms(1) by (simp_all add: lock_world_def lock_service_def)
  have tail: "\<exists>e. fst (writeHeartbeat (le_fetch env) app ref (le_dateText env ms) l u) = Inl e" for ms l u
  proof -
    let ?put = "putRecord (le_fetch env) app (lk_originalRecordKey ref) (lk_revision ref)
       (fieldsRecord [(''heartbeat_at'', JStr (le_dateText env ms)), (''lease_expires_at'', JStr l),
          (''revision'', jsonNumber (addOne (lk_businessRevision ref)))])"
    obtain v where p: "?put u = (Inl KintoneTransportError, v)" using assms(3) by (metis prod.collapse)
    obtain q w where q: "getUnique (le_fetch env) app (lk_originalRecordKey ref) v = (q, w)" by fastforce
    have "\<not> heartbeatConfirmed x ref (le_dateText env ms) l" if "q = Inr x" for x
      using assms(4) getUnique_run(2) [OF reads q that] by (auto simp: heartbeatConfirmed_def)
    then show ?thesis using p q by (cases q) (auto simp: writeHeartbeat_def bindP_run isStatus_def)
  qed
  show ?thesis
  proof (rule ccontr)
    assume "\<not> ?thesis"
    then obtain ref' where "r = Inr ref'" by (cases r) auto
    with assms(5) obtain ms l u where "writeHeartbeat (le_fetch env) app ref (le_dateText env ms) l u = (Inr ref', t)"
      unfolding heartbeat_def assms(2) by (elim bindP_cases) auto
    with tail [of ms l u] show False by simp
  qed
qed

text \<open>
  C21: A heartbeat whose answer is lost is never confirmed. When the app returns a date-time field
  in any text other than the one \<open>toISOString\<close> writes (kintone keeps whole minutes and writes no
  milliseconds), a heartbeat whose update goes unanswered always throws, although the code compares
  the record it reads back; and if the update had taken effect, the next heartbeat with that reference
  throws too, however well the service answers by then: the lease is lost although nobody else holds it.
\<close>

theorem lost_heartbeat_never_confirmed:
  assumes "lock_world env app view" "lc_appId (mg_config m) = app"
    and "\<And>rev rec u. fst (putRecord (le_fetch env) app (lk_originalRecordKey ref) rev rec u) = Inl KintoneTransportError"
    and "\<And>u x ms. view u (lk_originalRecordKey ref) = Some x \<Longrightarrow> fieldText x ''heartbeat_at'' \<noteq> le_dateText env ms"
    and "heartbeat env m ref s = (r, t)"
  shows "(\<exists>e. r = Inl e) \<and> (view t \<noteq> view s \<longrightarrow>
    (\<forall>env' m'. lock_world env' app view \<and> lc_appId (mg_config m') = app \<longrightarrow>
       (\<exists>e. fst (heartbeat env' m' ref t) = Inl e)))"
proof -
  have ids: "ids_app view" using assms(1) by (simp add: lock_world_def lock_service_def)
  have throws: "\<exists>e. r = Inl e" by (rule lost_heartbeat [OF assms])
  have late: "\<exists>e. fst (heartbeat env' m' ref t) = Inl e"
    if "view t \<noteq> view s" "lock_world env' app view" "lc_appId (mg_config m') = app" for env' m'
  proof (rule ccontr)
    assume "\<not> ?thesis"
    then obtain ref' u where run: "heartbeat env' m' ref t = (Inr ref', u)"
      by (cases "heartbeat env' m' ref t"; cases "fst (heartbeat env' m' ref t)") auto
    from heartbeat_run [OF that(2,3) run] obtain x where x: "view t (lk_originalRecordKey ref) = Some x"
      "revisionOf x = lk_revision ref" unfolding heartbeat_effect_def by blast
    from heartbeat_run [OF assms(1,2,5)] that(1) obtain z y where z: "view s (lk_originalRecordKey ref) = Some z"
      "revisionOf z = lk_revision ref" "view t = (view s)(lk_originalRecordKey ref := Some y)" "revisionOf y = addOne (revisionOf z)"
      unfolding heartbeat_effect_def by blast
    from ids z(1) obtain n where "revisionOf z = Finite n" unfolding ids_app_def by blast
    then have "addOne (revisionOf z) \<noteq> revisionOf z" by simp
    with x z show False by auto
  qed
  show ?thesis using throws late by blast
qed

lemma sample_lost: "fst (putRecord (le_fetch (sampleEnv True)) 1 k revn rec u) = Inl KintoneTransportError"
  by (simp add: putRecord_def sampleEnv_def request_def bindP_run slotFetch_def Let_def)

lemma sample_dates: "slotView u k = Some x \<Longrightarrow> fieldText x ''heartbeat_at'' \<noteq> le_dateText (sampleEnv True) ms"
  by (auto simp: slotView_def sampleEnv_def split: option.splits if_splits)

text \<open>The heartbeat takes effect on the one-record service that never answers.\<close>

lemma lost_heartbeat_never_confirmed_witness:
  "\<exists>t. heartbeat (sampleEnv True) sampleManager sampleReference (Some (mg_recordKey sampleManager, 1, sampleFields)) =
      (Inl (NetworkLockError LOCK_UNAVAILABLE (Some KintoneTransportError)), t) \<and>
    (\<exists>e. fst (heartbeat (sampleEnv False) sampleManager sampleReference t) = Inl e)"
proof -
  let ?s = "Some (mg_recordKey sampleManager, 1, sampleFields)"
  note app = sample_app
  obtain fs where run: "heartbeat (sampleEnv True) sampleManager sampleReference ?s =
      (Inl (NetworkLockError LOCK_UNAVAILABLE (Some KintoneTransportError)), Some (mg_recordKey sampleManager, 2, fs))"
    using sampleReference_fields sample_fence
    by (simp add: heartbeat_def writeHeartbeat_def isoDate_def sampleEnv_def bindP_run slot_getUnique slot_put_lost [where n = "Suc 0", simplified]
        app isStatus_def heartbeatConfirmed_def assertFence_def)
  have "slotView (Some (mg_recordKey sampleManager, 2, fs)) (mg_recordKey sampleManager) \<noteq> slotView ?s (mg_recordKey sampleManager)"
    by (simp add: slotView_def slotRecord_def fieldsRecord_def jsonField_def)
  then have moved: "slotView (Some (mg_recordKey sampleManager, 2, fs)) \<noteq> slotView ?s" by auto
  from lost_heartbeat_never_confirmed [OF sampleWorld app sample_lost _ run] sample_dates
  have "\<exists>e. fst (heartbeat (sampleEnv False) sampleManager sampleReference (Some (mg_recordKey sampleManager, 2, fs))) = Inl e"
    using sample_dates moved sampleWorld app by blast
  with run show ?thesis by blast
qed

end
