(* ===== verification/LeaseMonitor.thy ===== *)
theory LeaseMonitor
  imports LockSafety
begin

text \<open>
  The lease monitor: class \<open>LeaseMonitor\<close> of \<open>src/persistence/network-lock.ts\<close>. The state of the
  object is a record; \<open>lm_reference\<close> is the lock reference it renews and \<open>lm_events\<close> what it has told
  its listeners. \<open>performTick\<close> and \<open>confirmLeaseForFinalWrite\<close> are the operations run alone;
  \<open>monitor_step\<close> are the pieces between two awaits, in any interleaving. Dates are milliseconds;
  \<open>parseDate\<close> is \<open>Date.parse\<close> (\<open>None\<close> for NaN) and the numbers of the configuration are integers.
\<close>

section \<open>Data\<close>

datatype lease_state = HELD | LEASE_UNCERTAIN | FINAL_WRITE_CONFIRMED

datatype lease_reason =
  FAILURE_THRESHOLD | LEASE_SAFETY_THRESHOLD | FENCE_LOST | REASON_FINAL_WRITE_CONFIRMED

record lease_event =
  le_previous :: lease_state
  le_current :: lease_state
  le_reason :: lease_reason
  le_at :: int

record monitor_config =
  mc_leaseDurationSec :: int
  mc_heartbeatIntervalSec :: int
  mc_consecutiveFailureThreshold :: "int option"
  mc_remainingLeaseSafetySec :: "int option"
  mc_scheduleGiven :: bool
  mc_cancelScheduleGiven :: bool

record lease_monitor =
  lm_state :: lease_state
  lm_failures :: int
  lm_timer :: bool
  lm_tickInFlight :: bool
  lm_events :: "lease_event list"
  lm_reference :: network_lock_reference

section \<open>Configuration\<close>

definition failureThreshold :: "monitor_config \<Rightarrow> int" where
  "failureThreshold config = (case mc_consecutiveFailureThreshold config of None \<Rightarrow> 3 | Some n \<Rightarrow> n)"

definition safetySec :: "monitor_config \<Rightarrow> int" where
  "safetySec config = (case mc_remainingLeaseSafetySec config of None \<Rightarrow> mc_heartbeatIntervalSec config | Some n \<Rightarrow> n)"

definition validateMonitorConfig :: "monitor_config \<Rightarrow> js_error + unit" where
  "validateMonitorConfig config =
     (if mc_scheduleGiven config \<noteq> mc_cancelScheduleGiven config then Inl typeError
      else if \<not> list_all (\<lambda>v. isSafeInteger v \<and> v > 0) [mc_leaseDurationSec config, mc_heartbeatIntervalSec config,
          failureThreshold config, safetySec config] then Inl typeError
      else if mc_heartbeatIntervalSec config \<ge> mc_leaseDurationSec config then Inl typeError
      else Inr ())"

definition newLeaseMonitor :: "monitor_config \<Rightarrow> network_lock_reference \<Rightarrow> js_error + lease_monitor" where
  "newLeaseMonitor config reference = (case validateMonitorConfig config of Inl e \<Rightarrow> Inl e | Inr _ \<Rightarrow>
     Inr \<lparr> lm_state = HELD, lm_failures = 0, lm_timer = False, lm_tickInFlight = False, lm_events = [],
       lm_reference = reference \<rparr>)"

section \<open>Questions\<close>

definition canStartNewNode :: "lease_monitor \<Rightarrow> bool" where
  "canStartNewNode m \<longleftrightarrow> lm_state m = HELD"

definition canPersistResults :: "lease_monitor \<Rightarrow> bool" where
  "canPersistResults m \<longleftrightarrow> lm_state m = HELD \<or> lm_state m = FINAL_WRITE_CONFIRMED"

definition requiresNetworkLeaseInterruptedFinalization :: "lease_monitor \<Rightarrow> bool" where
  "requiresNetworkLeaseInterruptedFinalization m \<longleftrightarrow> lm_state m = FINAL_WRITE_CONFIRMED"

section \<open>Changes of state\<close>

definition transition :: "lease_state \<Rightarrow> lease_reason \<Rightarrow> int \<Rightarrow> lease_monitor \<Rightarrow> lease_monitor" where
  "transition current reason at' m =
     (if lm_state m = current then m
      else m\<lparr> lm_state := current, lm_events := lm_events m @
        [\<lparr> le_previous = lm_state m, le_current = current, le_reason = reason, le_at = at' \<rparr>] \<rparr>)"

definition markControlPlaneUnreachable :: "int \<Rightarrow> lease_monitor \<Rightarrow> lease_monitor" where
  "markControlPlaneUnreachable at' m =
     (if lm_state m \<noteq> LEASE_UNCERTAIN then transition LEASE_UNCERTAIN FAILURE_THRESHOLD at' m else m)"

definition fenceLost :: "js_error \<Rightarrow> bool" where
  "fenceLost error = (case error of
     NetworkLockError code _ \<Rightarrow> code = LEASE_TOKEN_MISMATCH \<or> code = LEASE_REVISION_MISMATCH \<or> code = LEASE_REVISION_CONFLICT
   | _ \<Rightarrow> False)"

definition startTimer :: "lease_monitor \<Rightarrow> lease_monitor" where
  "startTimer m = m\<lparr> lm_timer := True \<rparr>"

definition stopTimer :: "lease_monitor \<Rightarrow> lease_monitor" where
  "stopTimer m = m\<lparr> lm_timer := False \<rparr>"

text \<open>\<open>remainingLeaseMs() <= safetyMs\<close>; a comparison with NaN is false.\<close>

definition leaseRunsOut :: "(string \<Rightarrow> int option) \<Rightarrow> monitor_config \<Rightarrow> int \<Rightarrow> lease_monitor \<Rightarrow> bool" where
  "leaseRunsOut parseDate config nowMs m = (case parseDate (lk_leaseExpiresAt (lm_reference m)) of
     None \<Rightarrow> False
   | Some expires \<Rightarrow> expires - nowMs \<le> safetySec config * 1000)"

definition tickSucceeded :: "network_lock_reference \<Rightarrow> lease_monitor \<Rightarrow> lease_monitor" where
  "tickSucceeded reference m = m\<lparr> lm_failures := 0, lm_reference := reference \<rparr>"

definition tickFailed ::
  "(string \<Rightarrow> int option) \<Rightarrow> monitor_config \<Rightarrow> js_error \<Rightarrow> int \<Rightarrow> int \<Rightarrow> lease_monitor \<Rightarrow> lease_monitor" where
  "tickFailed parseDate config error nowMs at' m =
     (let counted = m\<lparr> lm_failures := lm_failures m + 1 \<rparr> in
      if fenceLost error then transition LEASE_UNCERTAIN FENCE_LOST at' counted
      else if lm_failures counted \<ge> failureThreshold config then transition LEASE_UNCERTAIN FAILURE_THRESHOLD at' counted
      else if leaseRunsOut parseDate config nowMs counted then transition LEASE_UNCERTAIN LEASE_SAFETY_THRESHOLD at' counted
      else counted)"

definition leaseConfirmed :: "network_lock_reference \<Rightarrow> int \<Rightarrow> lease_monitor \<Rightarrow> lease_monitor" where
  "leaseConfirmed reference at' m =
     transition FINAL_WRITE_CONFIRMED REASON_FINAL_WRITE_CONFIRMED at' (m\<lparr> lm_reference := reference \<rparr>)"

section \<open>Operations\<close>

definition performTick ::
  "'s lock_env \<Rightarrow> (string \<Rightarrow> int option) \<Rightarrow> lock_manager \<Rightarrow> monitor_config \<Rightarrow> lease_monitor \<Rightarrow> ('s, bool \<times> lease_monitor) prog" where
  "performTick env parseDate manager config m =
     (if lm_state m \<noteq> HELD then retP (False, m)
      else bindP (attemptP (heartbeat env manager (lm_reference m))) (\<lambda>r.
        case r of
          Inr reference \<Rightarrow> retP (True, tickSucceeded reference m)
        | Inl error \<Rightarrow>
            bindP (le_now env) (\<lambda>nowMs.
            bindP (le_now env) (\<lambda>at'.
            retP (False, tickFailed parseDate config error nowMs at' m)))))"

definition confirmLeaseForFinalWrite ::
  "'s lock_env \<Rightarrow> lock_manager \<Rightarrow> lease_monitor \<Rightarrow> ('s, bool \<times> lease_monitor) prog" where
  "confirmLeaseForFinalWrite env manager m =
     (if lm_state m \<noteq> LEASE_UNCERTAIN then retP (False, m)
      else bindP (attemptP (heartbeat env manager (lm_reference m))) (\<lambda>r.
        case r of
          Inr reference \<Rightarrow> bindP (le_now env) (\<lambda>at'. retP (True, leaseConfirmed reference at' m))
        | Inl _ \<Rightarrow> retP (False, m)))"

text \<open>The guards of the scheduler over a monitor (\<open>src/orchestration/sequential-scheduler.ts\<close>).\<close>

definition confirmOrdinaryWrite ::
  "'s lock_env \<Rightarrow> (string \<Rightarrow> int option) \<Rightarrow> lock_manager \<Rightarrow> monitor_config \<Rightarrow> lease_monitor \<Rightarrow> ('s, bool \<times> lease_monitor) prog" where
  "confirmOrdinaryWrite env parseDate manager config m =
     (if \<not> canStartNewNode m then retP (False, m) else performTick env parseDate manager config m)"

definition confirmAggregateWrite ::
  "'s lock_env \<Rightarrow> (string \<Rightarrow> int option) \<Rightarrow> lock_manager \<Rightarrow> monitor_config \<Rightarrow> lease_monitor \<Rightarrow> ('s, bool \<times> lease_monitor) prog" where
  "confirmAggregateWrite env parseDate manager config m =
     (if \<not> canPersistResults m then retP (False, m)
      else if requiresNetworkLeaseInterruptedFinalization m then retP (True, m)
      else performTick env parseDate manager config m)"

section \<open>Interleavings\<close>

text \<open>
  The monitor and the number of \<open>confirmLeaseForFinalWrite\<close> calls whose heartbeat is pending. A
  tick that finds one in flight only awaits it; a tick outside \<open>HELD\<close> does nothing. At most one
  tick is in flight, and control-plane failures may be reported while it is.
\<close>

inductive monitor_step ::
  "(string \<Rightarrow> int option) \<Rightarrow> monitor_config \<Rightarrow> lease_monitor \<times> nat \<Rightarrow> lease_monitor \<times> nat \<Rightarrow> bool"
  for parseDate config where
  tick_begins: "lm_state m = HELD \<Longrightarrow> \<not> lm_tickInFlight m \<Longrightarrow>
    monitor_step parseDate config (m, n) (m\<lparr> lm_tickInFlight := True \<rparr>, n)"
| tick_succeeds: "lm_tickInFlight m \<Longrightarrow>
    monitor_step parseDate config (m, n) ((tickSucceeded ref m)\<lparr> lm_tickInFlight := False \<rparr>, n)"
| tick_fails: "lm_tickInFlight m \<Longrightarrow>
    monitor_step parseDate config (m, n) ((tickFailed parseDate config e nowMs at' m)\<lparr> lm_tickInFlight := False \<rparr>, n)"
| unreachable: "monitor_step parseDate config (m, n) (markControlPlaneUnreachable at' m, n)"
| confirm_begins: "lm_state m = LEASE_UNCERTAIN \<Longrightarrow> \<not> lm_tickInFlight m \<Longrightarrow> monitor_step parseDate config (m, n) (m, Suc n)"
| confirm_succeeds: "monitor_step parseDate config (m, Suc n) (leaseConfirmed ref at' m, n)"
| confirm_fails: "monitor_step parseDate config (m, Suc n) (m, n)"
| starts: "monitor_step parseDate config (m, n) (startTimer m, n)"
| stops: "monitor_step parseDate config (m, n) (stopTimer m, n)"

section \<open>Invariant\<close>

text \<open>The events told to the listeners, read from \<open>HELD\<close>, lead to the current state.\<close>

fun event_path :: "lease_state \<Rightarrow> lease_event list \<Rightarrow> lease_state option" where
  "event_path st [] = Some st"
| "event_path st (e # es) =
     (if le_previous e = st \<and> le_current e \<noteq> st then event_path (le_current e) es else None)"

lemma event_path_snoc:
  "event_path st (es @ [e]) = (case event_path st es of None \<Rightarrow> None
     | Some st' \<Rightarrow> if le_previous e = st' \<and> le_current e \<noteq> st' then Some (le_current e) else None)"
  by (induction st es rule: event_path.induct) auto

definition event_ok :: "lease_event \<Rightarrow> bool" where
  "event_ok e \<longleftrightarrow> le_current e \<noteq> HELD \<and>
     (le_current e = FINAL_WRITE_CONFIRMED \<longrightarrow> le_previous e = LEASE_UNCERTAIN \<and> le_reason e = REASON_FINAL_WRITE_CONFIRMED) \<and>
     (le_reason e \<in> {FENCE_LOST, LEASE_SAFETY_THRESHOLD} \<longrightarrow> le_current e = LEASE_UNCERTAIN)"

definition monitor_inv :: "monitor_config \<Rightarrow> lease_monitor \<Rightarrow> nat \<Rightarrow> bool" where
  "monitor_inv config m n \<longleftrightarrow>
     event_path HELD (lm_events m) = Some (lm_state m) \<and> list_all event_ok (lm_events m) \<and>
     0 \<le> lm_failures m \<and> (lm_state m = HELD \<longrightarrow> lm_failures m < failureThreshold config \<and> n = 0)"

lemma transition_inv:
  assumes "event_path HELD (lm_events m) = Some (lm_state m)" "list_all event_ok (lm_events m)"
    and "lm_state m = to \<or> event_ok \<lparr> le_previous = lm_state m, le_current = to, le_reason = reason, le_at = at' \<rparr>"
  shows "event_path HELD (lm_events (transition to reason at' m)) = Some (lm_state (transition to reason at' m))"
    "list_all event_ok (lm_events (transition to reason at' m))"
    "lm_state (transition to reason at' m) = to" "lm_failures (transition to reason at' m) = lm_failures m"
    "lm_tickInFlight (transition to reason at' m) = lm_tickInFlight m"
  using assms by (auto simp: transition_def event_path_snoc)

lemma monitor_step_inv:
  "monitor_step parseDate config c c' \<Longrightarrow> monitor_inv config (fst c) (snd c) \<Longrightarrow> 0 < failureThreshold config \<Longrightarrow>
    monitor_inv config (fst c') (snd c')"
proof (induction rule: monitor_step.induct)
  case (tick_fails m n e nowMs at')
  let ?c = "m\<lparr> lm_failures := lm_failures m + 1 \<rparr>"
  have c: "event_path HELD (lm_events ?c) = Some (lm_state ?c)" "list_all event_ok (lm_events ?c)"
    using tick_fails by (simp_all add: monitor_inv_def)
  note t = transition_inv [OF c, of LEASE_UNCERTAIN]
  show ?case using tick_fails t [of _ at'] c
    by (auto simp: tickFailed_def Let_def monitor_inv_def event_ok_def)
next
  case (unreachable m n at')
  then have c: "event_path HELD (lm_events m) = Some (lm_state m)" "list_all event_ok (lm_events m)"
    by (simp_all add: monitor_inv_def)
  show ?case using unreachable transition_inv [OF c, of LEASE_UNCERTAIN FAILURE_THRESHOLD at']
    by (auto simp: markControlPlaneUnreachable_def monitor_inv_def event_ok_def)
next
  case (confirm_succeeds m n ref at')
  let ?c = "m\<lparr> lm_reference := ref \<rparr>"
  have c: "event_path HELD (lm_events ?c) = Some (lm_state ?c)" "list_all event_ok (lm_events ?c)" "lm_state ?c \<noteq> HELD"
    using confirm_succeeds by (auto simp: monitor_inv_def)
  show ?case using confirm_succeeds c transition_inv [OF c(1,2), of FINAL_WRITE_CONFIRMED REASON_FINAL_WRITE_CONFIRMED at']
    by (cases "lm_state m") (auto simp: leaseConfirmed_def monitor_inv_def event_ok_def)
qed (auto simp: monitor_inv_def tickSucceeded_def startTimer_def stopTimer_def)

lemma monitor_steps_inv:
  "(monitor_step parseDate config)\<^sup>*\<^sup>* c c' \<Longrightarrow> monitor_inv config (fst c) (snd c) \<Longrightarrow> 0 < failureThreshold config \<Longrightarrow>
    monitor_inv config (fst c') (snd c')"
  by (induction rule: rtranclp_induct) (blast intro: monitor_step_inv)+

lemma held_no_events:
  assumes "event_path HELD es = Some HELD" "list_all event_ok es"
  shows "es = []"
proof (cases es rule: rev_cases)
  case (snoc xs e)
  with assms have "le_current e = HELD" "event_ok e" by (auto simp: event_path_snoc split: option.splits if_splits)
  then show ?thesis by (simp add: event_ok_def)
qed simp

lemma monitor_step_not_held:
  "monitor_step parseDate config c c' \<Longrightarrow> lm_state (fst c) \<noteq> HELD \<Longrightarrow> lm_state (fst c') \<noteq> HELD"
  by (induction rule: monitor_step.induct)
    (auto simp: tickSucceeded_def tickFailed_def markControlPlaneUnreachable_def leaseConfirmed_def transition_def
      startTimer_def stopTimer_def Let_def)

lemma monitor_steps_not_held:
  "(monitor_step parseDate config)\<^sup>*\<^sup>* c c' \<Longrightarrow> lm_state (fst c) \<noteq> HELD \<Longrightarrow> lm_state (fst c') \<noteq> HELD"
proof (induction rule: rtranclp_induct)
  case (step y z)
  then show ?case using monitor_step_not_held [OF step.hyps(2)] by blast
qed

lemma newLeaseMonitor_Inr:
  assumes "newLeaseMonitor config ref = Inr m"
  shows "monitor_inv config m 0" "0 < failureThreshold config"
  using assms by (auto simp: newLeaseMonitor_def validateMonitorConfig_def monitor_inv_def split: if_splits)

section \<open>Properties\<close>

definition sampleMonitorConfig :: monitor_config where
  "sampleMonitorConfig = \<lparr> mc_leaseDurationSec = 60, mc_heartbeatIntervalSec = 20, mc_consecutiveFailureThreshold = None,
     mc_remainingLeaseSafetySec = None, mc_scheduleGiven = False, mc_cancelScheduleGiven = False \<rparr>"

definition sampleMonitor :: lease_monitor where
  "sampleMonitor = \<lparr> lm_state = HELD, lm_failures = 0, lm_timer = False, lm_tickInFlight = False, lm_events = [],
     lm_reference = sampleReference \<rparr>"

lemma sampleMonitor: "newLeaseMonitor sampleMonitorConfig sampleReference = Inr sampleMonitor"
  by (simp add: newLeaseMonitor_def validateMonitorConfig_def sampleMonitorConfig_def failureThreshold_def safetySec_def
      isSafeInteger_def sampleMonitor_def)

text \<open>
  C22: A doubtful lease stays doubtful. However ticks, confirmations, reports of an unreachable
  control plane and timer calls interleave on a monitor: while it is HELD nobody has been told
  anything and the failures in a row are below the threshold; its events lead from HELD to the
  current state, never back to HELD, and to FINAL_WRITE_CONFIRMED only from LEASE_UNCERTAIN; and once it has
  left HELD no later moment lets a new node start.
\<close>

theorem lease_never_recovers:
  assumes "newLeaseMonitor config ref = Inr m0" "(monitor_step parseDate config)\<^sup>*\<^sup>* (m0, 0) (m, n)"
  shows "(lm_state m = HELD \<longrightarrow> lm_events m = [] \<and> lm_failures m < failureThreshold config) \<and>
    event_path HELD (lm_events m) = Some (lm_state m) \<and>
    (\<forall>e \<in> set (lm_events m). le_current e \<noteq> HELD \<and> (le_current e = FINAL_WRITE_CONFIRMED \<longrightarrow> le_previous e = LEASE_UNCERTAIN)) \<and>
    (\<forall>m' n'. (monitor_step parseDate config)\<^sup>*\<^sup>* (m, n) (m', n') \<and> canStartNewNode m' \<longrightarrow> canStartNewNode m)"
proof -
  have inv: "monitor_inv config m n"
    using monitor_steps_inv [OF assms(2)] newLeaseMonitor_Inr [OF assms(1)] by simp
  then have "lm_state m = HELD \<Longrightarrow> lm_events m = []"
    using held_no_events by (auto simp: monitor_inv_def)
  moreover have "canStartNewNode m' \<Longrightarrow> canStartNewNode m" if "(monitor_step parseDate config)\<^sup>*\<^sup>* (m, n) (m', n')" for m' n'
    using monitor_steps_not_held [OF that] by (auto simp: canStartNewNode_def)
  moreover have "\<forall>e \<in> set (lm_events m). event_ok e" "event_path HELD (lm_events m) = Some (lm_state m)"
    "lm_state m = HELD \<longrightarrow> lm_failures m < failureThreshold config"
    using inv by (simp_all add: monitor_inv_def list_all_iff)
  ultimately show ?thesis unfolding event_ok_def by blast
qed

lemma lease_never_recovers_witness:
  "\<not> canStartNewNode (markControlPlaneUnreachable 7 sampleMonitor) \<and>
   event_path HELD (lm_events (markControlPlaneUnreachable 7 sampleMonitor)) = Some LEASE_UNCERTAIN"
proof -
  have "(monitor_step (\<lambda>_. None) sampleMonitorConfig)\<^sup>*\<^sup>* (sampleMonitor, 0) (markControlPlaneUnreachable 7 sampleMonitor, 0)"
    using monitor_step.unreachable by blast
  from lease_never_recovers [OF sampleMonitor this] show ?thesis
    by (simp add: canStartNewNode_def markControlPlaneUnreachable_def transition_def sampleMonitor_def)
qed

text \<open>
  An ordinary write is allowed only under the lock: when \<open>confirmOrdinaryWrite\<close> says yes, the
  monitor was HELD and is HELD, and the app shows, at that moment, the lock record with the lease token and
  the revision of the monitor's reference.
\<close>

theorem ordinary_write_holds_lock:
  assumes "lock_world env app view" "lc_appId (mg_config manager) = app"
    and "confirmOrdinaryWrite env parseDate manager config m s = (Inr (True, m'), t)"
  shows "canStartNewNode m \<and> canStartNewNode m' \<and> lm_failures m' = 0 \<and>
    lk_leaseToken (lm_reference m') = lk_leaseToken (lm_reference m) \<and>
    (\<exists>x. view t (lk_originalRecordKey (lm_reference m')) = Some x \<and>
       fieldText x ''lease_token'' = lk_leaseToken (lm_reference m') \<and> revisionOf x = lk_revision (lm_reference m'))"
proof -
  have held: "lm_state m = HELD"
    using assms(3) by (auto simp: confirmOrdinaryWrite_def canStartNewNode_def split: if_splits)
  then have run: "performTick env parseDate manager config m s = (Inr (True, m'), t)"
    using assms(3) by (simp add: confirmOrdinaryWrite_def canStartNewNode_def)
  obtain r u where h: "heartbeat env manager (lm_reference m) s = (r, u)" by fastforce
  from run held h obtain ref where ref: "r = Inr ref" "m' = tickSucceeded ref m" "t = u"
    by (cases r) (auto simp: performTick_def bindP_run split: prod.splits sum.splits)
  note fenced = heartbeat_run [OF assms(1,2) h, unfolded heartbeat_effect_def]
  obtain c d where "ref = (lm_reference m)\<lparr> lk_revision := addOne (lk_revision (lm_reference m)),
      lk_businessRevision := addOne (lk_businessRevision (lm_reference m)), lk_heartbeatAt := c, lk_leaseExpiresAt := d \<rparr>"
    using fenced ref(1) by blast
  then have same: "lk_leaseToken ref = lk_leaseToken (lm_reference m)"
    "lk_originalRecordKey ref = lk_originalRecordKey (lm_reference m)" by simp_all
  from fenced ref(1) obtain y where "view t (lk_originalRecordKey (lm_reference m)) = Some y"
    "fieldText y ''lease_token'' = lk_leaseToken (lm_reference m)" "revisionOf y = lk_revision ref"
    using ref(3) by blast
  with same held ref(2) show ?thesis by (simp add: tickSucceeded_def canStartNewNode_def)
qed

lemma ordinary_write_holds_lock_witness:
  "\<exists>m' t. confirmOrdinaryWrite (sampleEnv False) (\<lambda>_. None) sampleManager sampleMonitorConfig sampleMonitor
       (Some (mg_recordKey sampleManager, 1, sampleFields)) = (Inr (True, m'), t) \<and>
     (\<exists>x. slotView t (lk_originalRecordKey (lm_reference m')) = Some x)"
proof -
  obtain m' t where run: "confirmOrdinaryWrite (sampleEnv False) (\<lambda>_. None) sampleManager sampleMonitorConfig sampleMonitor
       (Some (mg_recordKey sampleManager, 1, sampleFields)) = (Inr (True, m'), t)"
    using sampleReference_fields sample_fence
    by (simp add: confirmOrdinaryWrite_def canStartNewNode_def performTick_def sampleMonitor_def heartbeat_def writeHeartbeat_def
        isoDate_def sampleEnv_def bindP_run slot_getUnique slot_put_key [where n = "Suc 0", simplified] sample_app assertFence_def)
  from ordinary_write_holds_lock [OF sampleWorld sample_app run] run show ?thesis by blast
qed


lemma transition_state [simp]: "lm_state (transition to reason at' m) = to"
  by (simp add: transition_def)





end
