(* ===== verification/LockRecovery.thy ===== *)
theory LockRecovery
  imports LockSafety RepositoryContract Cancel
begin

text \<open>
  Reading and breaking a network lock: \<open>src/persistence/network-lock-reader.ts\<close> and
  \<open>src/persistence/network-lock-recovery.ts\<close>. A stop confirmation is a program that says whether the
  owner of the lock is known to have stopped; its \<open>detail\<close>, a text for people, is not modelled. The
  process table (\<open>process.kill\<close> with signal 0) and the Cloud Run API are parameters.
\<close>

section \<open>Reading a lock\<close>

definition ownerInstanceIdFromStatusReason :: "string \<Rightarrow> string" where
  "ownerInstanceIdFromStatusReason statusReason =
     (if startsWith statusReason ''owner_instance_id='' then drop (length ''owner_instance_id='') statusReason else [])"

definition activeLockQuery :: "string \<Rightarrow> string" where
  "activeLockQuery key = ''record_type in ('' @ quote ''NETWORK_LOCK'' @ '') and lock_key in ('' @ quote key @
     '') and status in ('' @ quote ''RUNNING'' @ '')''"

text \<open>A revision is answered as a whole number; anything else would be \<open>NaN\<close> and is read as 0 here.\<close>

definition intOfNumber :: "js_number \<Rightarrow> int" where
  "intOfNumber n = (case n of Finite r \<Rightarrow> \<lfloor>r\<rfloor> | _ \<Rightarrow> 0)"

definition lockStatusOf :: "kintone_record \<Rightarrow> network_lock_status" where
  "lockStatusOf rec = \<lparr> ls_record_id = fieldText rec ''$id'',
     ls_owner_invocation_id = fieldText rec ''owner_invocation_id'',
     ls_owner_instance_id = ownerInstanceIdFromStatusReason (fieldText rec ''status_reason''),
     ls_heartbeat_at = fieldText rec ''heartbeat_at'', ls_lease_expires_at = fieldText rec ''lease_expires_at'',
     ls_revision = intOfNumber (fieldNumber rec ''revision'') \<rparr>"

definition getNetworkLock ::
  "'s fetch \<Rightarrow> int \<Rightarrow> (string \<Rightarrow> string) \<Rightarrow> string \<Rightarrow> string \<Rightarrow> ('s, network_lock_status option) prog" where
  "getNetworkLock fetch app digest profile networkId =
     bindP (liftP (networkLockKey digest profile networkId)) (\<lambda>key.
     bindP (getRecords fetch app (activeLockQuery key)) (\<lambda>answer.
     bindP (liftP (recordArray answer)) (\<lambda>records.
     case records of
       [] \<Rightarrow> retP None
     | [rec] \<Rightarrow> retP (Some (lockStatusOf rec))
     | _ \<Rightarrow> throwP (RepositoryError MULTIPLE_RECORDS None))))"

section \<open>Is the owner known to have stopped?\<close>

record stop_input =
  si_profile :: string
  si_networkId :: string
  si_expectedOwnerInvocationId :: string
  si_ownerInstanceId :: string
  si_stopConfirmedBy :: string
  si_stopMethod :: string
  si_stopEvidenceRef :: string

record stop_result =
  sr_confirmed :: bool
  sr_method :: string

type_synonym 's stop_confirmation = "stop_input \<Rightarrow> ('s, stop_result) prog"

definition manualStopConfirmation :: "'s stop_confirmation" where
  "manualStopConfirmation input = retP \<lparr> sr_confirmed = (si_stopMethod input = ''manual'' \<and>
     trim (si_stopConfirmedBy input) \<noteq> [] \<and> trim (si_stopEvidenceRef input) \<noteq> []), sr_method = ''manual'' \<rparr>"

fun splitText :: "char \<Rightarrow> string \<Rightarrow> string list" where
  "splitText c [] = [[]]"
| "splitText c (x # xs) =
     (if x = c then [] # splitText c xs
      else (case splitText c xs of [] \<Rightarrow> [[x]] | y # ys \<Rightarrow> (x # y) # ys))"

text \<open>\<open>localPidPattern\<close>: host and pid.\<close>

definition matchLocalPid :: "string \<Rightarrow> (string \<times> string) option" where
  "matchLocalPid s =
     (if startsWith s ''local-pid://'' then
        (case splitText CHR ''/'' (drop (length ''local-pid://'') s) of
           [host, pid] \<Rightarrow> if host \<noteq> [] \<and> pid \<noteq> [] then Some (host, pid) else None
         | _ \<Rightarrow> None)
      else None)"

definition validPid :: "string \<Rightarrow> int option" where
  "validPid pidText = (case pidText of
     [] \<Rightarrow> None
   | c # cs \<Rightarrow>
       if isDigit c \<and> c \<noteq> CHR ''0'' \<and> list_all isDigit cs \<and> isSafeInteger (int (natOfDigits pidText))
       then Some (int (natOfDigits pidText)) else None)"

text \<open>The code of a thrown system error.\<close>

definition errorCodeOf :: "js_error \<Rightarrow> string option" where
  "errorCodeOf error = (case error of CodedError code \<Rightarrow> Some code | _ \<Rightarrow> None)"

definition localPidStopConfirmation :: "string \<Rightarrow> (int \<Rightarrow> ('s, unit) prog) \<Rightarrow> 's stop_confirmation" where
  "localPidStopConfirmation host processKill input =
     (let no = \<lparr> sr_confirmed = False, sr_method = ''local_pid'' \<rparr> in
      case matchLocalPid (si_ownerInstanceId input) of
        None \<Rightarrow> retP no
      | Some (ownerHost, pidText) \<Rightarrow>
          if ownerHost \<noteq> host then retP no
          else (case validPid pidText of
            None \<Rightarrow> retP no
          | Some pid \<Rightarrow>
              bindP (attemptP (processKill pid)) (\<lambda>r.
              case r of
                Inr _ \<Rightarrow> retP no
              | Inl e \<Rightarrow> retP (if errorCodeOf e = Some ''ESRCH'' then no\<lparr> sr_confirmed := True \<rparr> else no))))"

definition isCloudRunExecution :: "string \<Rightarrow> bool" where
  "isCloudRunExecution s = (case splitText CHR ''/'' s of
     [a, p, b, l, c, j, d, e] \<Rightarrow> a = ''projects'' \<and> b = ''locations'' \<and> c = ''jobs'' \<and> d = ''executions'' \<and>
       p \<noteq> [] \<and> l \<noteq> [] \<and> j \<noteq> [] \<and> e \<noteq> []
   | _ \<Rightarrow> False)"

definition terminalCloudRunStates :: "string list" where
  "terminalCloudRunStates = [''SUCCEEDED'', ''FAILED'', ''CANCELLED'']"

definition executionState :: "json \<Rightarrow> string option" where
  "executionState body =
     (case jsonGet body ''state'' of Some (JStr s) \<Rightarrow> Some s | _ \<Rightarrow>
      case jsonGet body ''status'' of Some (JStr s) \<Rightarrow> Some s | _ \<Rightarrow>
      case jsonGet body ''terminalCondition'' of
        Some t \<Rightarrow> (case jsonGet t ''state'' of Some (JStr s) \<Rightarrow> Some s | _ \<Rightarrow> None)
      | None \<Rightarrow> None)"

text \<open>What the body of a successful answer says.\<close>

definition executionStopped :: "(string \<Rightarrow> int option) \<Rightarrow> string \<Rightarrow> json \<Rightarrow> bool" where
  "executionStopped parseDate resourceName body \<longleftrightarrow>
     jsonGet body ''name'' = Some (JStr resourceName) \<and>
     (case jsonGet body ''completionTime'' of
        Some (JStr time) \<Rightarrow> time \<noteq> [] \<and> parseDate time \<noteq> None
      | _ \<Rightarrow> False) \<and>
     (case executionState body of None \<Rightarrow> True | Some state \<Rightarrow> state \<in> set terminalCloudRunStates)"

definition cloudRunStopConfirmation ::
  "'s fetch \<Rightarrow> string option \<Rightarrow> (string \<Rightarrow> int option) \<Rightarrow> 's stop_confirmation" where
  "cloudRunStopConfirmation fetch accessToken parseDate input =
     (let result = (\<lambda>b. \<lparr> sr_confirmed = b, sr_method = ''cloud_run_job_execution'' \<rparr>) in
      if \<not> isCloudRunExecution (si_ownerInstanceId input) then retP (result False)
      else if (case accessToken of None \<Rightarrow> True | Some token \<Rightarrow> trim token = []) then retP (result False)
      else bindP (attemptP (fetch \<lparr> hr_method = GET,
               hr_path = ''https://run.googleapis.com/v2/'' @ si_ownerInstanceId input, hr_params = [], hr_body = None \<rparr>)) (\<lambda>r.
        retP (result (case r of
          Inl _ \<Rightarrow> False
        | Inr response \<Rightarrow> hs_ok response \<and>
            (case hs_body response of None \<Rightarrow> False
             | Some body \<Rightarrow> executionStopped parseDate (si_ownerInstanceId input) body)))))"

definition defaultStopConfirmations ::
  "string \<Rightarrow> (int \<Rightarrow> ('s, unit) prog) \<Rightarrow> 's fetch \<Rightarrow> string option \<Rightarrow> (string \<Rightarrow> int option) \<Rightarrow> 's stop_confirmation jsmap" where
  "defaultStopConfirmations host processKill fetch accessToken parseDate =
     [(''manual'', manualStopConfirmation), (''local_pid'', localPidStopConfirmation host processKill),
      (''cloud_run_job_execution'', cloudRunStopConfirmation fetch accessToken parseDate)]"

section \<open>Breaking a lock\<close>

record force_unlock_input =
  fu_networkId :: string
  fu_profile :: string
  fu_expectedOwnerInvocationId :: string
  fu_reason :: string
  fu_evidenceRef :: string
  fu_stopConfirmedBy :: string
  fu_stopEvidenceRef :: string
  fu_stopMethod :: string
  fu_servicePrincipal :: string
  fu_requestedBy :: string

record lock_snapshot =
  sn_recordId :: string
  sn_revision :: js_number
  sn_businessRevision :: js_number
  sn_ownerInvocationId :: string
  sn_ownerInstanceId :: string
  sn_leaseToken :: string
  sn_heartbeatAt :: string
  sn_leaseExpiresAt :: string

record force_unlock_result =
  fr_lockKey :: string
  fr_previousOwnerInvocationId :: string
  fr_postReleaseRevision :: js_number
  fr_audit :: network_lock_audit

abbreviation recoveryError :: "network_lock_recovery_error_code \<Rightarrow> ('s, 'a) prog" where
  "recoveryError code \<equiv> throwP (NetworkLockRecoveryError code)"

definition isSafeNumber :: "js_number \<Rightarrow> bool" where
  "isSafeNumber n = (case n of Finite r \<Rightarrow> of_int \<lfloor>r\<rfloor> = r \<and> isSafeInteger \<lfloor>r\<rfloor> | _ \<Rightarrow> False)"

definition snapshotOf :: "kintone_record \<Rightarrow> lock_snapshot" where
  "snapshotOf rec = \<lparr> sn_recordId = fieldText rec ''$id'', sn_revision = revisionOf rec,
     sn_businessRevision = fieldNumber rec ''revision'', sn_ownerInvocationId = fieldText rec ''owner_invocation_id'',
     sn_ownerInstanceId = ownerInstanceIdFromStatusReason (fieldText rec ''status_reason''),
     sn_leaseToken = fieldText rec ''lease_token'', sn_heartbeatAt = fieldText rec ''heartbeat_at'',
     sn_leaseExpiresAt = fieldText rec ''lease_expires_at'' \<rparr>"

definition lockSnapshot :: "(string \<Rightarrow> int option) \<Rightarrow> kintone_record \<Rightarrow> ('s, lock_snapshot) prog" where
  "lockSnapshot parseDate rec =
     (let result = snapshotOf rec in
      if sn_recordId result = [] \<or> \<not> isSafeNumber (sn_revision result) \<or> \<not> isSafeNumber (sn_businessRevision result) \<or>
         sn_leaseToken result = [] \<or> parseDate (sn_leaseExpiresAt result) = None
      then recoveryError LOCK_READ_FAILED else retP result)"

definition getInitialLock ::
  "'s fetch \<Rightarrow> int \<Rightarrow> (string \<Rightarrow> int option) \<Rightarrow> string \<Rightarrow> ('s, lock_snapshot) prog" where
  "getInitialLock fetch app parseDate recordKey =
     bindP (attemptP (getRecords fetch app (lockQuery recordKey))) (\<lambda>r.
     case r of
       Inl _ \<Rightarrow> recoveryError LOCK_READ_FAILED
     | Inr answer \<Rightarrow>
         bindP (liftP (recordArray answer)) (\<lambda>records.
         case records of
           [] \<Rightarrow> recoveryError LOCK_NOT_FOUND
         | [rec] \<Rightarrow> lockSnapshot parseDate rec
         | _ \<Rightarrow> recoveryError LOCK_READ_FAILED))"

definition requireNonEmpty :: "force_unlock_input \<Rightarrow> js_error + unit" where
  "requireNonEmpty i =
     (if list_all (\<lambda>v. trim v \<noteq> []) [fu_networkId i, fu_profile i, fu_expectedOwnerInvocationId i, fu_reason i, fu_evidenceRef i,
          fu_stopConfirmedBy i, fu_stopEvidenceRef i, fu_stopMethod i, fu_servicePrincipal i, fu_requestedBy i]
      then Inr () else Inl (NetworkLockRecoveryError INVALID_ARGUMENT))"

definition releaseConfirmed :: "kintone_record \<Rightarrow> lock_snapshot \<Rightarrow> string \<Rightarrow> bool" where
  "releaseConfirmed rec initial tombstone \<longleftrightarrow>
     fieldText rec ''$id'' = sn_recordId initial \<and> fieldText rec ''record_key'' = tombstone \<and>
     fieldText rec ''lock_key'' = [] \<and> fieldText rec ''owner_invocation_id'' = [] \<and> fieldText rec ''lease_token'' = [] \<and>
     fieldText rec ''status'' = ''CANCELLED'' \<and> fieldText rec ''status_reason'' = ''NETWORK_LOCK_FORCE_RELEASED'' \<and>
     numberEq (revisionOf rec) (addOne (sn_revision initial))"

definition stopInputOf :: "force_unlock_input \<Rightarrow> lock_snapshot \<Rightarrow> stop_input" where
  "stopInputOf input initial = \<lparr> si_profile = fu_profile input, si_networkId = fu_networkId input,
     si_expectedOwnerInvocationId = fu_expectedOwnerInvocationId input, si_ownerInstanceId = sn_ownerInstanceId initial,
     si_stopConfirmedBy = fu_stopConfirmedBy input, si_stopMethod = fu_stopMethod input,
     si_stopEvidenceRef = fu_stopEvidenceRef input \<rparr>"

text \<open>The persisted expiry may be truncated, so the bound of the truncation is added.\<close>

definition leaseMayLive :: "(string \<Rightarrow> int option) \<Rightarrow> lock_snapshot \<Rightarrow> int \<Rightarrow> bool" where
  "leaseMayLive parseDate initial nowMs = (case parseDate (sn_leaseExpiresAt initial) of
     None \<Rightarrow> False
   | Some t \<Rightarrow> t + KINTONE_DATETIME_TRUNCATION_MS > nowMs)"

text \<open>Lines 478 to 527: may this lock be broken?\<close>

definition reviewForceUnlock ::
  "'s lock_env \<Rightarrow> int \<Rightarrow> (string \<Rightarrow> int option) \<Rightarrow> 's stop_confirmation jsmap \<Rightarrow> force_unlock_input \<Rightarrow> string \<Rightarrow>
   ('s, lock_snapshot \<times> stop_result) prog" where
  "reviewForceUnlock env app parseDate confirmations input recordKey =
     bindP (getInitialLock (le_fetch env) app parseDate recordKey) (\<lambda>initial.
     if sn_ownerInvocationId initial \<noteq> fu_expectedOwnerInvocationId input then recoveryError OWNER_MISMATCH
     else bindP (le_now env) (\<lambda>nowMs.
       if leaseMayLive parseDate initial nowMs then recoveryError LEASE_STILL_ACTIVE
       else (case mapGet confirmations (fu_stopMethod input) of
         None \<Rightarrow> recoveryError STOP_NOT_CONFIRMED
       | Some confirmation \<Rightarrow>
           bindP (attemptP (confirmation (stopInputOf input initial))) (\<lambda>r.
           case r of
             Inl _ \<Rightarrow> recoveryError STOP_NOT_CONFIRMED
           | Inr confirmed \<Rightarrow>
               if sr_confirmed confirmed then retP (initial, confirmed) else recoveryError STOP_NOT_CONFIRMED))))"

text \<open>Lines 529 to 549: nothing has happened to the lock meanwhile.\<close>

definition recheckLock ::
  "'s lock_env \<Rightarrow> int \<Rightarrow> (string \<Rightarrow> int option) \<Rightarrow> string \<Rightarrow> lock_snapshot \<Rightarrow> ('s, unit) prog" where
  "recheckLock env app parseDate recordKey initial =
     bindP (attemptP (getInitialLock (le_fetch env) app parseDate recordKey)) (\<lambda>r.
     case r of
       Inl _ \<Rightarrow> recoveryError HEARTBEAT_ADVANCED
     | Inr checked \<Rightarrow>
         if \<not> numberEq (sn_revision checked) (sn_revision initial) \<or> sn_heartbeatAt checked \<noteq> sn_heartbeatAt initial \<or>
            sn_ownerInvocationId checked \<noteq> sn_ownerInvocationId initial \<or> sn_leaseToken checked \<noteq> sn_leaseToken initial
         then recoveryError HEARTBEAT_ADVANCED else retP ())"

definition isRevisionConflict :: "js_error \<Rightarrow> bool" where
  "isRevisionConflict error = (case error of
     KintoneApiError st code \<Rightarrow> st = 409 \<or> code = Some ''GAIA_CO02''
   | _ \<Rightarrow> False)"

definition terminalFields :: "lock_snapshot \<Rightarrow> string \<Rightarrow> string \<Rightarrow> (string \<times> json) list" where
  "terminalFields initial tombstone releasedAt =
     [(''record_key'', JStr tombstone), (''lock_key'', JStr []), (''owner_invocation_id'', JStr []), (''lease_token'', JStr []),
      (''status'', JStr ''CANCELLED''), (''status_reason'', JStr ''NETWORK_LOCK_FORCE_RELEASED''),
      (''finished_at'', JStr releasedAt), (''revision'', jsonNumber (addOne (sn_businessRevision initial)))]"

text \<open>Lines 551 to 611: the release, and what to do when its answer is lost.\<close>

definition breakLock ::
  "'s fetch \<Rightarrow> int \<Rightarrow> lock_snapshot \<Rightarrow> string \<Rightarrow> string \<Rightarrow> ('s, js_number) prog" where
  "breakLock fetch app initial tombstone releasedAt =
     bindP (attemptP (putRecordById fetch app (sn_recordId initial) (sn_revision initial)
        (fieldsRecord (terminalFields initial tombstone releasedAt)))) (\<lambda>put.
     case put of
       Inr postReleaseRevision \<Rightarrow> retP postReleaseRevision
     | Inl error \<Rightarrow>
         if isRevisionConflict error then recoveryError RECOVERY_REVISION_CONFLICT
         else if error \<noteq> KintoneTransportError then recoveryError RELEASE_UNCONFIRMED
         else bindP (attemptP (getRecords fetch app (lockQuery tombstone))) (\<lambda>r.
           case r of
             Inl _ \<Rightarrow> recoveryError RELEASE_UNCONFIRMED
           | Inr answer \<Rightarrow>
               bindP (liftP (recordArray answer)) (\<lambda>records.
               case records of
                 [rec] \<Rightarrow> if releaseConfirmed rec initial tombstone then retP (revisionOf rec)
                           else recoveryError RELEASE_UNCONFIRMED
               | _ \<Rightarrow> recoveryError RELEASE_UNCONFIRMED)))"

definition forceReleaseAudit ::
  "force_unlock_input \<Rightarrow> string \<Rightarrow> lock_snapshot \<Rightarrow> stop_result \<Rightarrow> string \<Rightarrow> js_number \<Rightarrow> network_lock_audit" where
  "forceReleaseAudit input key initial confirmed releasedAt postReleaseRevision = \<lparr>
     la_network_id = fu_networkId input, la_profile = fu_profile input, la_lock_key = key,
     la_record_id = sn_recordId initial, la_previous_owner_invocation_id = sn_ownerInvocationId initial,
     la_previous_lease_token = sn_leaseToken initial, la_previous_heartbeat_at = sn_heartbeatAt initial,
     la_previous_lease_expires_at = sn_leaseExpiresAt initial, la_service_principal = fu_servicePrincipal input,
     la_requested_by = fu_requestedBy input, la_stop_confirmed_by = fu_stopConfirmedBy input,
     la_stop_method = sr_method confirmed, la_stop_evidence_ref = fu_stopEvidenceRef input,
     la_reason = fu_reason input, la_evidence_ref = fu_evidenceRef input, la_released_at = releasedAt,
     la_post_release_revision = intOfNumber postReleaseRevision \<rparr>"

definition forceUnlockNetwork ::
  "'s repository \<Rightarrow> 's lock_env \<Rightarrow> int \<Rightarrow> (string \<Rightarrow> int option) \<Rightarrow> 's stop_confirmation jsmap \<Rightarrow> force_unlock_input \<Rightarrow>
   ('s, force_unlock_result) prog" where
  "forceUnlockNetwork R env app parseDate confirmations input =
     bindP (liftP (requireNonEmpty input)) (\<lambda>_.
     bindP (liftP (networkLockKey (le_digest env) (fu_profile input) (fu_networkId input))) (\<lambda>key.
     let recordKey = ''LOCK:'' @ key in
     bindP (reviewForceUnlock env app parseDate confirmations input recordKey) (\<lambda>(initial, confirmed).
     bindP (recheckLock env app parseDate recordKey initial) (\<lambda>_.
     bindP (le_now env) (\<lambda>nowMs.
     let releasedAt = le_dateText env nowMs;
         tombstone = releaseTombstoneRecordKey (le_digest env) (key @ '':'' @ sn_leaseToken initial) in
     bindP (breakLock (le_fetch env) app initial tombstone releasedAt) (\<lambda>postReleaseRevision.
     bindP (le_uuid env) (\<lambda>u.
     let audit = forceReleaseAudit input key initial confirmed releasedAt postReleaseRevision in
     bindP (attemptP (appendOperationAudit R (NetworkLockForceReleaseOperationAudit (''net_unlock_'' @ u) audit))) (\<lambda>r.
     case r of
       Inl _ \<Rightarrow> recoveryError AUDIT_FAILED
     | Inr _ \<Rightarrow> retP \<lparr> fr_lockKey = key, fr_previousOwnerInvocationId = sn_ownerInvocationId initial,
         fr_postReleaseRevision = postReleaseRevision, fr_audit = audit \<rparr>))))))))"

section \<open>Lemmas\<close>

lemma getInitialLock_run:
  assumes "reads_app fetch app view" "getInitialLock fetch app parseDate key s = (r, t)"
  shows "view t = view s" "r = Inr sn \<Longrightarrow> \<exists>x. view s key = Some x \<and> sn = snapshotOf x \<and> parseDate (sn_leaseExpiresAt sn) \<noteq> None"
proof -
  obtain a u where 1: "getRecords fetch app (lockQuery key) s = (a, u)" by fastforce
  have u: "view u = view s" and xs: "\<And>xs. a = Inr (Some (JArr xs)) \<Longrightarrow> xs = (case view s key of None \<Rightarrow> [] | Some x \<Rightarrow> [x])"
    using assms(1) 1 unfolding reads_app_def by blast+
  show "view t = view s" "r = Inr sn \<Longrightarrow> \<exists>x. view s key = Some x \<and> sn = snapshotOf x \<and> parseDate (sn_leaseExpiresAt sn) \<noteq> None"
    using assms(2) 1 u xs
    by (auto simp: getInitialLock_def bindP_run recordArray_def lockSnapshot_def Let_def
        split: sum.splits option.splits json.splits list.splits if_splits)
qed

lemma breakLock_run:
  assumes service: "lock_service fetch app view" and n: "sn_revision initial = Finite n"
    and run: "breakLock fetch app initial tombstone at' s = (r, t)"
  shows "moved_away view (sn_recordId initial) tombstone s t"
proof -
  have reads: "reads_app fetch app view" and up: "updates_app fetch app view" using service by (simp_all add: lock_service_def)
  obtain p s1 where p: "putRecordById fetch app (sn_recordId initial) (Finite n) (fieldsRecord (terminalFields initial tombstone at')) s = (p, s1)"
    by fastforce
  have key: "mapGet (terminalFields initial tombstone at') ''record_key'' = Some (JStr tombstone)" by (simp add: terminalFields_def)
  have "moved_away view (sn_recordId initial) tombstone s s1"
    using up p key unfolding updates_app_def moved_away_def by blast
  moreover have "view t = view s1"
  proof -
    obtain a u where 1: "getRecords fetch app (lockQuery tombstone) s1 = (a, u)" by fastforce
    have "view u = view s1" using reads 1 unfolding reads_app_def by blast
    then show ?thesis using run p n 1
      by (auto simp: breakLock_def bindP_run split: sum.splits if_splits list.splits)
  qed
  ultimately show ?thesis by (simp add: moved_away_def)
qed

lemma reviewForceUnlock_run:
  assumes world: "lock_world env app view"
    and beside: "\<forall>k c i. mapGet confirmations k = Some c \<longrightarrow> beside_app view (c i)"
    and run: "reviewForceUnlock env app parseDate confirmations input key s = (r, t)"
  shows "view t = view s"
    "r = Inr (initial, confirmed) \<Longrightarrow> \<exists>x expires nowMs u v c u' v'. view s key = Some x \<and> initial = snapshotOf x \<and>
       sn_ownerInvocationId initial = fu_expectedOwnerInvocationId input \<and>
       parseDate (sn_leaseExpiresAt initial) = Some expires \<and> le_now env u = (Inr nowMs, v) \<and>
       expires + KINTONE_DATETIME_TRUNCATION_MS \<le> nowMs \<and> mapGet confirmations (fu_stopMethod input) = Some c \<and>
       c (stopInputOf input initial) u' = (Inr confirmed, v') \<and> sr_confirmed confirmed"
proof -
  have reads: "reads_app (le_fetch env) app view" and clock: "beside_app view (le_now env)"
    using world by (simp_all add: lock_world_def lock_service_def)
  have "view t = view s \<and> (\<forall>initial confirmed. r = Inr (initial, confirmed) \<longrightarrow>
     (\<exists>x expires nowMs u v c u' v'. view s key = Some x \<and> initial = snapshotOf x \<and>
       sn_ownerInvocationId initial = fu_expectedOwnerInvocationId input \<and>
       parseDate (sn_leaseExpiresAt initial) = Some expires \<and> le_now env u = (Inr nowMs, v) \<and>
       expires + KINTONE_DATETIME_TRUNCATION_MS \<le> nowMs \<and> mapGet confirmations (fu_stopMethod input) = Some c \<and>
       c (stopInputOf input initial) u' = (Inr confirmed, v') \<and> sr_confirmed confirmed))"
    using run unfolding reviewForceUnlock_def
  proof (cases rule: bindP_cases)
    case (1 e)
    then show ?thesis using getInitialLock_run(1) [OF reads] by blast
  next
    case (2 sn s1)
    from getInitialLock_run [OF reads 2(1)] obtain x expires where x: "view s1 = view s" "view s key = Some x" "sn = snapshotOf x"
      "parseDate (sn_leaseExpiresAt sn) = Some expires" by blast
    show ?thesis
    proof (cases "sn_ownerInvocationId sn = fu_expectedOwnerInvocationId input")
      case False
      with 2 x show ?thesis by auto
    next
      case True
      with 2(2) have "bindP (le_now env) (\<lambda>nowMs.
         if leaseMayLive parseDate sn nowMs then recoveryError LEASE_STILL_ACTIVE
         else (case mapGet confirmations (fu_stopMethod input) of
           None \<Rightarrow> recoveryError STOP_NOT_CONFIRMED
         | Some confirmation \<Rightarrow>
             bindP (attemptP (confirmation (stopInputOf input sn))) (\<lambda>r.
             case r of
               Inl _ \<Rightarrow> recoveryError STOP_NOT_CONFIRMED
             | Inr confirmed \<Rightarrow>
                 if sr_confirmed confirmed then retP (sn, confirmed) else recoveryError STOP_NOT_CONFIRMED))) s1 = (r, t)"
        by simp
      then show ?thesis
      proof (cases rule: bindP_cases)
        case (1 e)
        then show ?thesis using beside_app_run [OF clock] x(1) by (metis sum.distinct(1))
      next
        case (2 nowMs s2)
        note v2 = beside_app_run [OF clock 2(1)]
        show ?thesis
        proof (cases "leaseMayLive parseDate sn nowMs")
          case True
          with 2 v2 x(1) show ?thesis by auto
        next
          case False
          then have expired: "expires + KINTONE_DATETIME_TRUNCATION_MS \<le> nowMs" using x(4) by (simp add: leaseMayLive_def)
          show ?thesis
          proof (cases "mapGet confirmations (fu_stopMethod input)")
            case None
            with 2 False v2 x(1) show ?thesis by auto
          next
            case (Some c)
            obtain q s3 where q: "c (stopInputOf input sn) s2 = (q, s3)" by fastforce
            have "beside_app view (c (stopInputOf input sn))" using beside Some by blast
            note v3 = beside_app_run [OF this q]
            have "t = s3 \<and> (\<forall>p. r = Inr p \<longrightarrow> (\<exists>confirmed. q = Inr confirmed \<and> sr_confirmed confirmed \<and> p = (sn, confirmed)))"
              using 2(2) False Some q by (auto split: sum.splits if_splits)
            with q v2 v3 x expired Some True 2(1) show ?thesis by (metis prod.inject)
          qed
        qed
      qed
    qed
  qed
  then show "view t = view s"
    "r = Inr (initial, confirmed) \<Longrightarrow> \<exists>x expires nowMs u v c u' v'. view s key = Some x \<and> initial = snapshotOf x \<and>
       sn_ownerInvocationId initial = fu_expectedOwnerInvocationId input \<and>
       parseDate (sn_leaseExpiresAt initial) = Some expires \<and> le_now env u = (Inr nowMs, v) \<and>
       expires + KINTONE_DATETIME_TRUNCATION_MS \<le> nowMs \<and> mapGet confirmations (fu_stopMethod input) = Some c \<and>
       c (stopInputOf input initial) u' = (Inr confirmed, v') \<and> sr_confirmed confirmed" by blast+
qed

lemma recheckLock_run:
  assumes "reads_app (le_fetch env) app view" "recheckLock env app parseDate key initial s = (r, t)"
  shows "view t = view s"
proof -
  obtain q u where q: "getInitialLock (le_fetch env) app parseDate key s = (q, u)" by fastforce
  have "t = u" using assms(2) q by (auto simp: recheckLock_def bindP_run split: sum.splits if_splits)
  with getInitialLock_run(1) [OF assms(1) q] show ?thesis by simp
qed

section \<open>Properties\<close>

text \<open>
  C24: A lock is broken only when it is dead on paper and its owner is confirmed to have stopped. If
  \<open>force-unlock\<close> changes the app at all, whatever it reports, then the lock record named the expected owner, its
  persisted expiry lay at least the 60 seconds of the date-time truncation before a reading of the
  clock, the chosen confirmation method is known and confirmed the stop, and the change is exactly
  that the record has left the lock key for its tombstone.
\<close>

theorem force_unlock_needs_evidence:
  assumes world: "lock_world env app view"
    and beside: "\<forall>k c i. mapGet confirmations k = Some c \<longrightarrow> beside_app view (c i)"
    and audit: "\<And>a. beside_app view (appendOperationAudit R a)"
    and key: "networkLockKey (le_digest env) (fu_profile input) (fu_networkId input) = Inr key"
    and run: "forceUnlockNetwork R env app parseDate confirmations input s = (r, t)"
    and changed: "view t \<noteq> view s"
  shows "\<exists>x y expires nowMs u v c u' v' confirmed. view s (''LOCK:'' @ key) = Some x \<and>
     fieldText x ''owner_invocation_id'' = fu_expectedOwnerInvocationId input \<and>
     parseDate (fieldText x ''lease_expires_at'') = Some expires \<and>
     le_now env u = (Inr nowMs, v) \<and> expires + 60000 \<le> nowMs \<and>
     mapGet confirmations (fu_stopMethod input) = Some c \<and>
     c (stopInputOf input (snapshotOf x)) u' = (Inr confirmed, v') \<and> sr_confirmed confirmed \<and>
     view t = (view s)(''LOCK:'' @ key := None,
       releaseTombstoneRecordKey (le_digest env) (key @ '':'' @ fieldText x ''lease_token'') := Some y)"
proof -
  let ?K = "''LOCK:'' @ key"
  have service: "lock_service (le_fetch env) app view" and ids: "ids_app view"
    and reads: "reads_app (le_fetch env) app view" and clock: "beside_app view (le_now env)" "beside_app view (le_uuid env)"
    using world by (simp_all add: lock_world_def lock_service_def)
  have valid: "requireNonEmpty input = Inr ()"
    using run changed by (cases "requireNonEmpty input") (auto simp: forceUnlockNetwork_def bindP_run)
  obtain q s1 where q: "reviewForceUnlock env app parseDate confirmations input ?K s = (q, s1)" by fastforce
  note review = reviewForceUnlock_run [OF world beside q]
  have "q \<noteq> Inl e" for e
    using run changed valid key q review(1) by (auto simp: forceUnlockNetwork_def bindP_run Let_def)
  then obtain initial confirmed where q': "q = Inr (initial, confirmed)" by (cases q) auto
  obtain w s2 where w: "recheckLock env app parseDate ?K initial s1 = (w, s2)" by fastforce
  have v2: "view s2 = view s" using recheckLock_run [OF reads w] review(1) by simp
  have "w \<noteq> Inl e" for e
    using run changed valid key q q' w v2 by (auto simp: forceUnlockNetwork_def bindP_run Let_def)
  then have w': "w = Inr ()" by (cases w) auto
  obtain n s3 where n: "le_now env s2 = (n, s3)" by fastforce
  have v3: "view s3 = view s" using beside_app_run [OF clock(1) n] v2 by simp
  have "n \<noteq> Inl e" for e
    using run changed valid key q q' w w' n v3 by (auto simp: forceUnlockNetwork_def bindP_run Let_def)
  then obtain ms where n': "n = Inr ms" by (cases n) auto
  let ?T = "releaseTombstoneRecordKey (le_digest env) (key @ '':'' @ sn_leaseToken initial)"
  obtain b s4 where b: "breakLock (le_fetch env) app initial ?T (le_dateText env ms) s3 = (b, s4)" by fastforce
  from review(2) [OF q'] obtain x expires nowMs u v c u' v' where x: "view s ?K = Some x" "initial = snapshotOf x"
     "sn_ownerInvocationId initial = fu_expectedOwnerInvocationId input"
     "parseDate (sn_leaseExpiresAt initial) = Some expires" "le_now env u = (Inr nowMs, v)"
     "expires + KINTONE_DATETIME_TRUNCATION_MS \<le> nowMs" "mapGet confirmations (fu_stopMethod input) = Some c"
     "c (stopInputOf input initial) u' = (Inr confirmed, v')" "sr_confirmed confirmed" by blast
  from ids x(1) obtain m where "revisionOf x = Finite m" unfolding ids_app_def by blast
  then have m: "sn_revision initial = Finite m" by (simp add: x(2) snapshotOf_def)
  have tail: "view t = view s4"
  proof -
    have "s4 = t \<or> (\<exists>p. b = Inr p)" using run valid key q q' w w' n n' b
      by (cases b) (auto simp: forceUnlockNetwork_def bindP_run Let_def)
    then show ?thesis
    proof (elim disjE exE)
      fix p assume p: "b = Inr p"
      obtain i s5 where i: "le_uuid env s4 = (i, s5)" by fastforce
      note v5 = beside_app_run [OF clock(2) i]
      show ?thesis
      proof (cases i)
        case (Inl e)
        with run valid key q q' w w' n n' b p i v5 show ?thesis
          by (auto simp: forceUnlockNetwork_def bindP_run Let_def)
      next
        case (Inr uu)
        let ?a = "NetworkLockForceReleaseOperationAudit (''net_unlock_'' @ uu) (forceReleaseAudit input key initial confirmed (le_dateText env ms) p)"
        obtain z s6 where z: "appendOperationAudit R ?a s5 = (z, s6)" by fastforce
        have "t = s6"
          using run valid key q q' w w' n n' b p i Inr z by (auto simp: forceUnlockNetwork_def bindP_run Let_def split: sum.splits)
        with beside_app_run [OF audit z] v5 show ?thesis by simp
      qed
    qed simp
  qed
  have "moved_away view (sn_recordId initial) ?T s3 s4" by (rule breakLock_run [OF service m b])
  with tail v3 changed obtain k a y where k: "view s k = Some a" "fieldText a ''$id'' = sn_recordId initial"
    "view t = (view s)(k := None, ?T := Some y)" by (auto simp: moved_away_def)
  have "fieldText x ''$id'' = sn_recordId initial" by (simp add: x(2) snapshotOf_def)
  then have "k = ?K" using ids k(1,2) x(1) unfolding ids_app_def by metis
  then have "view t = (view s)(?K := None,
      releaseTombstoneRecordKey (le_digest env) (key @ '':'' @ fieldText x ''lease_token'') := Some y)"
    using k(3) x(2) by (simp add: snapshotOf_def)
  moreover have "fieldText x ''owner_invocation_id'' = fu_expectedOwnerInvocationId input"
    "parseDate (fieldText x ''lease_expires_at'') = Some expires" "expires + 60000 \<le> nowMs"
    using x(2,3,4,6) by (simp_all add: snapshotOf_def KINTONE_DATETIME_TRUNCATION_MS_def)
  moreover have "c (stopInputOf input (snapshotOf x)) u' = (Inr confirmed, v')" using x(2,8) by simp
  ultimately show ?thesis using x(1,5,7,9) by blast
qed

definition sampleForceInput :: force_unlock_input where
  "sampleForceInput = \<lparr> fu_networkId = ''monthly'', fu_profile = ''prod'', fu_expectedOwnerInvocationId = ''inv1'',
     fu_reason = ''r'', fu_evidenceRef = ''e'', fu_stopConfirmedBy = ''ops'', fu_stopEvidenceRef = ''ticket'',
     fu_stopMethod = ''manual'', fu_servicePrincipal = ''svc'', fu_requestedBy = ''ops'' \<rparr>"

definition lateEnv :: "slot lock_env" where
  "lateEnv = (sampleEnv False)\<lparr> le_now := retP 600000 \<rparr>"

text \<open>Only the audit is written to the repository.\<close>

definition auditRepository :: "slot repository" where
  "auditRepository = undefined\<lparr> appendOperationAudit := (\<lambda>a. retP (versioned a 1)) \<rparr>"

lemma slot_getInitialLock:
  assumes "fieldText (slotRecord n fs) ''lease_token'' \<noteq> []" "parseDate ''1970-01-01T00:01:00Z'' \<noteq> None" "n < 100"
    and "fieldNumber (slotRecord n fs) ''revision'' = Finite 1"
  shows "getInitialLock (slotFetch lost) app parseDate k (Some (k, n, fs)) = (Inr (snapshotOf (slotRecord n fs)), Some (k, n, fs))"
proof -
  have "isSafeNumber (Finite (of_nat n))" "isSafeNumber (Finite 1)"
    using assms(3) by (simp_all add: isSafeNumber_def isSafeInteger_def)
  moreover have "fieldText (slotRecord n fs) ''lease_expires_at'' = ''1970-01-01T00:01:00Z''"
    by (simp add: slotRecord_def fieldText_def textOfJson_def)
  ultimately show ?thesis using assms
    by (simp add: getInitialLock_def getRecords_def request_def bindP_run slotFetch_def slotAnswer_def jsonGet_def property_def
        recordArray_def lockSnapshot_def snapshotOf_def Let_def)
qed

lemma sample_snapshot:
  "fieldText (slotRecord (Suc 0) sampleFields) ''lease_token'' = ''u1''" "fieldNumber (slotRecord (Suc 0) sampleFields) ''revision'' = Finite 1"
  "fieldText (slotRecord (Suc 0) sampleFields) ''owner_invocation_id'' = ''inv1''"
  "fieldText (slotRecord (Suc 0) sampleFields) ''lease_expires_at'' = ''1970-01-01T00:01:00Z''"
  by (simp_all add: slotRecord_def sampleFields_def lockFields_def fieldText_def fieldNumber_def numberOf_def textOfJson_def
      sampleManager_def sampleConfig_def)

lemma sampleKey: "networkLockKey padDigest ''prod'' ''monthly'' = Inr (mg_lockKey sampleManager)"
  "mg_recordKey sampleManager = ''LOCK:'' @ mg_lockKey sampleManager"
  using newLockManager_Inr [OF sampleManager] by (simp_all add: sampleConfig_def)

lemma sampleTombstone: "releaseTombstoneRecordKey digest v \<noteq> mg_recordKey sampleManager"
  using tombstone_no_lock [of digest v] newLockManager_Inr(2) [OF sampleManager] by metis

definition sampleSnapshot :: lock_snapshot where
  "sampleSnapshot = snapshotOf (slotRecord (Suc 0) sampleFields)"

abbreviation sampleStops :: "slot stop_confirmation jsmap" where
  "sampleStops \<equiv> defaultStopConfirmations ''h'' (\<lambda>_. retP ()) (slotFetch False) None (\<lambda>_. None)"

lemma sampleSnapshot:
  "sn_recordId sampleSnapshot = ''1''" "sn_revision sampleSnapshot = Finite 1" "sn_ownerInvocationId sampleSnapshot = ''inv1''"
  "sn_leaseToken sampleSnapshot = ''u1''" "sn_leaseExpiresAt sampleSnapshot = ''1970-01-01T00:01:00Z''"
  using sample_snapshot by (simp_all add: sampleSnapshot_def snapshotOf_def)

lemma sample_initial:
  "getInitialLock (slotFetch False) 1 (\<lambda>_. Some 60000) k (Some (k, Suc 0, sampleFields)) = (Inr sampleSnapshot, Some (k, Suc 0, sampleFields))"
proof -
  have "fieldText (slotRecord (Suc 0) sampleFields) ''lease_token'' \<noteq> []" using sample_snapshot by simp
  then show ?thesis
    using slot_getInitialLock [of "Suc 0" sampleFields "\<lambda>_. Some 60000" False 1 k, simplified] sample_snapshot(2) by (simp add: sampleSnapshot_def)
qed

lemma sample_review:
  "\<exists>c. reviewForceUnlock lateEnv 1 (\<lambda>_. Some 60000) sampleStops sampleForceInput k (Some (k, Suc 0, sampleFields)) =
     (Inr (sampleSnapshot, c), Some (k, Suc 0, sampleFields))"
  using sample_initial [of k]
  by (simp add: reviewForceUnlock_def bindP_run lateEnv_def sampleEnv_def sampleSnapshot sampleForceInput_def leaseMayLive_def
      KINTONE_DATETIME_TRUNCATION_MS_def defaultStopConfirmations_def manualStopConfirmation_def stopInputOf_def trim_def is_js_space_def)

lemma sample_recheck:
  "recheckLock lateEnv 1 (\<lambda>_. Some 60000) k sampleSnapshot (Some (k, Suc 0, sampleFields)) = (Inr (), Some (k, Suc 0, sampleFields))"
  using sample_initial [of k]
  by (simp add: recheckLock_def bindP_run lateEnv_def sampleEnv_def sampleSnapshot)

lemma sample_break:
  "breakLock (slotFetch False) 1 sampleSnapshot T d (Some (k, Suc 0, sampleFields)) =
     (Inr (Finite 2), Some (T, 2, terminalFields sampleSnapshot T d @ sampleFields))"
  using slot_put_id [of 1 "Suc 0" "terminalFields sampleSnapshot T d" k sampleFields]
  by (simp add: breakLock_def bindP_run sampleSnapshot terminalFields_def numeral_2_eq_2)

lemma sample_force:
  "\<exists>r t. forceUnlockNetwork auditRepository lateEnv 1 (\<lambda>_. Some 60000) sampleStops sampleForceInput
       (Some (mg_recordKey sampleManager, Suc 0, sampleFields)) = (Inr r, t) \<and> slotView t (mg_recordKey sampleManager) = None"
proof -
  let ?k = "mg_recordKey sampleManager"
  obtain c where c: "reviewForceUnlock lateEnv 1 (\<lambda>_. Some 60000) sampleStops sampleForceInput ?k (Some (?k, Suc 0, sampleFields)) =
     (Inr (sampleSnapshot, c), Some (?k, Suc 0, sampleFields))" using sample_review by blast
  have valid: "requireNonEmpty sampleForceInput = Inr ()"
    by (simp add: requireNonEmpty_def sampleForceInput_def trim_def is_js_space_def)
  have key: "networkLockKey (le_digest lateEnv) (fu_profile sampleForceInput) (fu_networkId sampleForceInput) = Inr (mg_lockKey sampleManager)"
    using sampleKey(1) by (simp add: lateEnv_def sampleEnv_def sampleForceInput_def)
  have env: "le_now lateEnv = retP 600000" "le_fetch lateEnv = slotFetch False" "le_uuid lateEnv = retP ''u1''"
    by (simp_all add: lateEnv_def sampleEnv_def)
  let ?T = "releaseTombstoneRecordKey (le_digest lateEnv) (mg_lockKey sampleManager @ '':'' @ sn_leaseToken sampleSnapshot)"
  let ?t = "Some (?T, 2, terminalFields sampleSnapshot ?T (le_dateText lateEnv 600000) @ sampleFields)"
  note parts = sample_recheck [of ?k] sample_break [of ?T "le_dateText lateEnv 600000" ?k] c
  have "\<exists>r. forceUnlockNetwork auditRepository lateEnv 1 (\<lambda>_. Some 60000) sampleStops sampleForceInput
       (Some (?k, Suc 0, sampleFields)) = (Inr r, ?t)"
    unfolding forceUnlockNetwork_def bindP_run valid key env auditRepository_def Let_def
    using parts by (simp add: sampleKey(2) [symmetric] del: append.simps)
  moreover have "slotView ?t ?k = None" by (simp add: slotView_def sampleTombstone [symmetric])
  ultimately show ?thesis by blast
qed

lemma sampleStops_beside: "mapGet sampleStops k = Some c \<Longrightarrow> beside_app slotView (c i)"
  by (auto simp: defaultStopConfirmations_def manualStopConfirmation_def localPidStopConfirmation_def cloudRunStopConfirmation_def
      beside_app_def bindP_run Let_def split: if_splits option.splits prod.splits)

lemma lateWorld: "lock_world lateEnv 1 slotView"
  using sampleWorld [of False] by (simp add: lock_world_def lateEnv_def beside_app_def)

lemma force_unlock_needs_evidence_witness:
  "\<exists>r t. forceUnlockNetwork auditRepository lateEnv 1 (\<lambda>_. Some 60000) sampleStops sampleForceInput
       (Some (mg_recordKey sampleManager, Suc 0, sampleFields)) = (Inr r, t) \<and>
     slotView t (mg_recordKey sampleManager) = None \<and>
     (\<exists>u nowMs v. le_now lateEnv u = (Inr nowMs, v) \<and> 60000 + 60000 \<le> nowMs)"
proof -
  let ?s = "Some (mg_recordKey sampleManager, Suc 0, sampleFields)"
  obtain r t where run: "forceUnlockNetwork auditRepository lateEnv 1 (\<lambda>_. Some 60000) sampleStops sampleForceInput ?s = (Inr r, t)"
    and t: "slotView t (mg_recordKey sampleManager) = None" using sample_force by blast
  have "slotView t \<noteq> slotView ?s" using t by (auto simp: slotView_def dest: fun_cong [of _ _ "mg_recordKey sampleManager"])
  moreover have "beside_app slotView (appendOperationAudit auditRepository a)" for a
    by (simp add: auditRepository_def beside_app_def)
  moreover have "networkLockKey (le_digest lateEnv) (fu_profile sampleForceInput) (fu_networkId sampleForceInput) = Inr (mg_lockKey sampleManager)"
    using sampleKey(1) by (simp add: lateEnv_def sampleEnv_def sampleForceInput_def)
  ultimately have "\<exists>u nowMs v. le_now lateEnv u = (Inr nowMs, v) \<and> 60000 + 60000 \<le> nowMs"
    using force_unlock_needs_evidence [OF lateWorld _ _ _ run] sampleStops_beside by fastforce
  with run t show ?thesis by blast
qed

end
