(* ===== verification/Json.thy ===== *)
theory Json
  imports Kintone "HOL-Library.List_Lexorder" "HOL-Library.Char_ord"
begin

text \<open>
  \<open>JSON.stringify\<close> without indentation and \<open>JSON.parse\<close>. Numbers are exact rationals: rounding to a
  double is not modelled beyond the overflow to infinity. \<open>JSON.stringify\<close> is that of values
  whose numbers are integers, the only ones the modelled code writes.
\<close>

section \<open>Writing\<close>

definition hexDigit :: "nat \<Rightarrow> char" where
  "hexDigit n = (if n < 10 then char_of (48 + n) else char_of (87 + n))"

definition escapeJson :: "char \<Rightarrow> string" where
  "escapeJson c = (let n = of_char c :: nat in
     if n = 34 \<or> n = 92 then [CHR 0x5C, c]
     else if n = 8 then [CHR 0x5C, CHR ''b'']
     else if n = 9 then [CHR 0x5C, CHR ''t'']
     else if n = 10 then [CHR 0x5C, CHR ''n'']
     else if n = 12 then [CHR 0x5C, CHR ''f'']
     else if n = 13 then [CHR 0x5C, CHR ''r'']
     else if n < 32 then [CHR 0x5C, CHR ''u'', CHR ''0'', CHR ''0'', hexDigit (n div 16), hexDigit (n mod 16)]
     else [c])"

definition stringifyText :: "string \<Rightarrow> string" where
  "stringifyText s = CHR 0x22 # concat (map escapeJson s) @ [CHR 0x22]"

fun stringify :: "json \<Rightarrow> string" where
  "stringify JNull = ''null''"
| "stringify (JBool b) = (if b then ''true'' else ''false'')"
| "stringify (JNum r) = textOfRat r"
| "stringify JInfinite = ''null''"
| "stringify (JStr s) = stringifyText s"
| "stringify (JArr vs) = CHR ''['' # joinText '','' (map stringify vs) @ '']''"
| "stringify (JObj fs) = CHR ''{'' # joinText '','' (map (\<lambda>(k, v). stringifyText k @ '':'' @ stringify v) fs) @ ''}''"

section \<open>Reading\<close>

definition isJsonSpace :: "char \<Rightarrow> bool" where
  "isJsonSpace c \<longleftrightarrow> (let n = of_char c :: nat in n = 9 \<or> n = 10 \<or> n = 13 \<or> n = 32)"

definition skipSpace :: "string \<Rightarrow> string" where
  "skipSpace s = dropWhile isJsonSpace s"

definition hexValue :: "char \<Rightarrow> nat option" where
  "hexValue c = (let n = of_char c :: nat in
     if 48 \<le> n \<and> n \<le> 57 then Some (n - 48)
     else if 97 \<le> n \<and> n \<le> 102 then Some (n - 87)
     else if 65 \<le> n \<and> n \<le> 70 then Some (n - 55)
     else None)"

text \<open>The code unit of four hexadecimal digits; one above 255 is outside the modelled texts.\<close>

definition hexChar :: "char \<Rightarrow> char \<Rightarrow> char \<Rightarrow> char \<Rightarrow> char option" where
  "hexChar a b c d = (case (hexValue a, hexValue b, hexValue c, hexValue d) of
     (Some 0, Some 0, Some i, Some j) \<Rightarrow> Some (char_of (16 * i + j))
   | _ \<Rightarrow> None)"

definition unescapeJson :: "char \<Rightarrow> char option" where
  "unescapeJson e =
     (if e = CHR 0x22 \<or> e = CHR 0x5C \<or> e = CHR ''/'' then Some e
      else if e = CHR ''b'' then Some (CHR 0x08)
      else if e = CHR ''t'' then Some (CHR 0x09)
      else if e = CHR ''n'' then Some (CHR 0x0A)
      else if e = CHR ''f'' then Some (CHR 0x0C)
      else if e = CHR ''r'' then Some (CHR 0x0D)
      else None)"

definition consChar :: "char \<Rightarrow> (string \<times> string) option \<Rightarrow> (string \<times> string) option" where
  "consChar c r = (case r of None \<Rightarrow> None | Some (cs, rest) \<Rightarrow> Some (c # cs, rest))"

text \<open>The rest of a string after its opening quote.\<close>

fun parseChars :: "string \<Rightarrow> (string \<times> string) option" where
  "parseChars [] = None"
| "parseChars (c # cs) =
     (if c = CHR 0x22 then Some ([], cs)
      else if c = CHR 0x5C then
        (case cs of
           [] \<Rightarrow> None
         | e # es \<Rightarrow>
             if e = CHR ''u'' then
               (case es of
                  w # x # y # z # rest \<Rightarrow>
                    (case hexChar w x y z of None \<Rightarrow> None | Some d \<Rightarrow> consChar d (parseChars rest))
                | _ \<Rightarrow> None)
             else (case unescapeJson e of None \<Rightarrow> None | Some d \<Rightarrow> consChar d (parseChars es)))
      else if (of_char c :: nat) < 32 then None
      else consChar c (parseChars cs))"

text \<open>From here on a number rounds to infinity.\<close>

definition doubleLimit :: rat where "doubleLimit = 2 ^ 1024 - 2 ^ 970"

definition jsonOfRat :: "rat \<Rightarrow> json" where
  "jsonOfRat r = (if \<bar>r\<bar> \<ge> doubleLimit then JInfinite else JNum r)"

text \<open>Fraction and exponent of a number, given its digits before the point.\<close>

definition parseFraction :: "string \<Rightarrow> (rat \<times> string) option" where
  "parseFraction s = (case s of
     c # cs \<Rightarrow>
       if c = CHR ''.'' then
         (let ds = takeWhile isDigit cs in
          if ds = [] then None
          else Some (of_nat (natOfDigits ds) / 10 ^ length ds, dropWhile isDigit cs))
       else Some (0, s)
   | [] \<Rightarrow> Some (0, s))"

definition parseExponent :: "string \<Rightarrow> (rat \<times> string) option" where
  "parseExponent s = (case s of
     c # cs \<Rightarrow>
       if c = CHR ''e'' \<or> c = CHR ''E'' then
         (let (neg, body) = (case cs of
              d # ds \<Rightarrow> if d = CHR ''-'' then (True, ds) else if d = CHR ''+'' then (False, ds) else (False, cs)
            | [] \<Rightarrow> (False, cs));
              ds = takeWhile isDigit body
          in if ds = [] then None
             else Some ((if neg then inverse else id) (10 ^ natOfDigits ds), dropWhile isDigit body))
       else Some (1, s)
   | [] \<Rightarrow> Some (1, s))"

definition parseNumber :: "string \<Rightarrow> (json \<times> string) option" where
  "parseNumber s =
     (let (neg, body) = (case s of c # cs \<Rightarrow> if c = CHR ''-'' then (True, cs) else (False, s) | [] \<Rightarrow> (False, s));
          ds = takeWhile isDigit body
      in if ds = [] \<or> (hd ds = CHR ''0'' \<and> length ds > 1) then None
         else (case parseFraction (dropWhile isDigit body) of
             None \<Rightarrow> None
           | Some (fraction, rest) \<Rightarrow>
               (case parseExponent rest of
                  None \<Rightarrow> None
                | Some (factor, rest') \<Rightarrow>
                    Some (jsonOfRat ((if neg then - 1 else 1) * (of_nat (natOfDigits ds) + fraction) * factor), rest'))))"

definition parseWord :: "string \<Rightarrow> (json \<times> string) option" where
  "parseWord s =
     (if startsWith s ''null'' then Some (JNull, drop 4 s)
      else if startsWith s ''true'' then Some (JBool True, drop 4 s)
      else if startsWith s ''false'' then Some (JBool False, drop 5 s)
      else parseNumber s)"

text \<open>
  A value, the elements of a non-empty array up to its bracket and the members of a non-empty object up to its
  brace. Each call spends one unit of fuel and consumes at least one character.
\<close>

fun parseValue :: "nat \<Rightarrow> string \<Rightarrow> (json \<times> string) option"
  and parseElements :: "nat \<Rightarrow> string \<Rightarrow> (json list \<times> string) option"
  and parseMembers :: "nat \<Rightarrow> string \<Rightarrow> ((string \<times> json) list \<times> string) option" where
  "parseValue 0 s = None"
| "parseElements 0 s = None"
| "parseMembers 0 s = None"
| "parseValue (Suc n) s = (case skipSpace s of
     [] \<Rightarrow> None
   | c # cs \<Rightarrow>
       if c = CHR 0x22 then (case parseChars cs of None \<Rightarrow> None | Some (t, rest) \<Rightarrow> Some (JStr t, rest))
       else if c = CHR ''['' then
         (case skipSpace cs of
            d # rest \<Rightarrow>
              if d = CHR '']'' then Some (JArr [], rest)
              else (case parseElements n cs of None \<Rightarrow> None | Some (vs, rest) \<Rightarrow> Some (JArr vs, rest))
          | [] \<Rightarrow> None)
       else if c = CHR ''{'' then
         (case skipSpace cs of
            d # rest \<Rightarrow>
              if d = CHR ''}'' then Some (JObj [], rest)
              else (case parseMembers n cs of None \<Rightarrow> None | Some (fs, rest) \<Rightarrow> Some (JObj (mapFromEntries fs), rest))
          | [] \<Rightarrow> None)
       else parseWord (c # cs))"
| "parseElements (Suc n) s = (case parseValue n s of
     None \<Rightarrow> None
   | Some (v, rest) \<Rightarrow>
       (case skipSpace rest of
          [] \<Rightarrow> None
        | c # cs \<Rightarrow>
            if c = CHR '']'' then Some ([v], cs)
            else if c = CHR '','' then
              (case parseElements n cs of None \<Rightarrow> None | Some (vs, rest') \<Rightarrow> Some (v # vs, rest'))
            else None))"
| "parseMembers (Suc n) s = (case skipSpace s of
     [] \<Rightarrow> None
   | q # qs \<Rightarrow>
       if q \<noteq> CHR 0x22 then None
       else (case parseChars qs of
         None \<Rightarrow> None
       | Some (k, rest) \<Rightarrow>
           (case skipSpace rest of
              [] \<Rightarrow> None
            | c # cs \<Rightarrow>
                if c \<noteq> CHR '':'' then None
                else (case parseValue n cs of
                  None \<Rightarrow> None
                | Some (v, rest') \<Rightarrow>
                    (case skipSpace rest' of
                       [] \<Rightarrow> None
                     | d # ds \<Rightarrow>
                         if d = CHR ''}'' then Some ([(k, v)], ds)
                         else if d = CHR '','' then
                           (case parseMembers n ds of None \<Rightarrow> None | Some (fs, rest'') \<Rightarrow> Some ((k, v) # fs, rest''))
                         else None)))))"

text \<open>\<open>JSON.parse\<close>; \<open>None\<close> where it throws.\<close>

definition parseJson :: "string \<Rightarrow> json option" where
  "parseJson s = (case parseValue (Suc (length s)) s of
     Some (v, rest) \<Rightarrow> if skipSpace rest = [] then Some v else None
   | None \<Rightarrow> None)"

section \<open>Fuel\<close>

lemma length_skipSpace: "length (skipSpace s) \<le> length s"
  by (simp add: skipSpace_def length_dropWhile_le)

lemma consChar_Some: "consChar c r = Some (cs, rest) \<longleftrightarrow> (\<exists>ds. cs = c # ds \<and> r = Some (ds, rest))"
  by (auto simp: consChar_def split: option.splits)

lemma parseChars_shorter: "parseChars s = Some (t, rest) \<Longrightarrow> length rest < length s"
proof (induction s arbitrary: t rest rule: parseChars.induct)
  case (2 c cs)
  then show ?case
    by (fastforce simp: consChar_Some split: if_splits list.splits option.splits)
qed simp

lemma parseFraction_shorter: "parseFraction s = Some (f, rest) \<Longrightarrow> length rest \<le> length s"
  using length_dropWhile_le [of isDigit]
  by (auto simp: parseFraction_def Let_def le_Suc_eq split: list.splits if_splits)

lemma parseExponent_shorter: "parseExponent s = Some (f, rest) \<Longrightarrow> length rest \<le> length s"
  using length_dropWhile_le [of isDigit] le_trans
  by (fastforce simp: parseExponent_def Let_def le_Suc_eq split: list.splits if_splits prod.splits)

lemma dropWhile_shorter: "takeWhile P s \<noteq> [] \<Longrightarrow> length (dropWhile P s) < length s"
  by (cases s) (auto simp: less_Suc_eq_le length_dropWhile_le split: if_splits)

lemma parseNumber_shorter:
  assumes "parseNumber s = Some (v, rest)"
  shows "length rest < length s"
proof -
  obtain neg body where b: "(case s of c # cs \<Rightarrow> if c = CHR ''-'' then (True, cs) else (False, s) | [] \<Rightarrow> (False, s)) = (neg, body)"
    by fastforce
  then have "length body \<le> length s" by (auto split: list.splits if_splits)
  moreover obtain f r1 g where r: "takeWhile isDigit body \<noteq> []" "parseFraction (dropWhile isDigit body) = Some (f, r1)"
      "parseExponent r1 = Some (g, rest)"
    using assms unfolding parseNumber_def b Let_def by (auto split: if_splits option.splits)
  moreover note dropWhile_shorter [OF r(1)] parseFraction_shorter [OF r(2)] parseExponent_shorter [OF r(3)]
  ultimately show ?thesis by linarith
qed

lemma startsWith_length: "startsWith s p \<Longrightarrow> length p \<le> length s"
  by (induction s p rule: startsWith.induct) auto

lemma parseWord_shorter: "parseWord s = Some (v, rest) \<Longrightarrow> length rest < length s"
  using startsWith_length [of s "''null''"] startsWith_length [of s "''true''"] startsWith_length [of s "''false''"]
  by (auto simp: parseWord_def parseNumber_shorter split: if_splits)

text \<open>A successful parse never needs more fuel than the characters it consumed.\<close>

definition enough :: "(nat \<Rightarrow> string \<Rightarrow> ('a \<times> string) option) \<Rightarrow> string \<Rightarrow> 'a \<Rightarrow> string \<Rightarrow> bool" where
  "enough p s x r \<longleftrightarrow> length r < length s \<and> (\<forall>m \<ge> length s - length r. p m s = Some (x, r))"

lemma enoughI:
  "length r < length s \<Longrightarrow> (\<And>m. length s - length r \<le> Suc m \<Longrightarrow> p (Suc m) s = Some (x, r)) \<Longrightarrow> enough p s x r"
  unfolding enough_def by (metis Suc_pred diff_is_0_eq gr0I not_le zero_less_diff)

lemma enough_run: "enough p s x r \<Longrightarrow> length s - length r \<le> m \<Longrightarrow> p m s = Some (x, r)"
  and enough_length: "enough p s x r \<Longrightarrow> length r < length s"
  by (simp_all add: enough_def)

lemma skipSpace_Cons_length: "skipSpace s = c # cs \<Longrightarrow> length cs < length s"
  using length_skipSpace [of s] by simp

lemma parse_fuel:
  "parseValue n s = Some (v, r) \<Longrightarrow> enough parseValue s v r"
  "parseElements n s = Some (vs, r) \<Longrightarrow> enough parseElements s vs r"
  "parseMembers n s = Some (fs, r) \<Longrightarrow> enough parseMembers s fs r"
proof (induction n s and n s and n s arbitrary: v r and vs r and fs r rule: parseValue_parseElements_parseMembers.induct)
  case (4 n s)
  obtain c cs where s: "skipSpace s = c # cs" using 4(3) by (auto split: list.splits)
  note len = skipSpace_Cons_length [OF s]
  show ?case
  proof (cases "c = CHR 0x22 \<or> (c \<noteq> CHR ''['' \<and> c \<noteq> CHR ''{'')")
    case True
    have "length r < length s"
      using 4(3) s len True parseChars_shorter [of cs] parseWord_shorter [of "c # cs"] length_skipSpace [of s]
      by (fastforce split: if_splits option.splits prod.splits)
    moreover have "parseValue (Suc m) s = parseValue (Suc n) s" for m using s True by auto
    ultimately show ?thesis using 4(3) by (intro enoughI) simp_all
  next
    case False
    obtain d ds where cs: "skipSpace cs = d # ds" using 4(3) s False by (auto split: list.splits if_splits)
    note len' = skipSpace_Cons_length [OF cs]
    show ?thesis
    proof (cases "d = (if c = CHR ''['' then CHR '']'' else CHR ''}'')")
      case True
      then show ?thesis using 4(3) s cs False len len' by (intro enoughI) (auto split: if_splits)
    next
      case False': False
      show ?thesis
      proof (cases "c = CHR ''[''")
        case True
        with 4(3) s cs False False' obtain vs where vs: "parseElements n cs = Some (vs, r)" "v = JArr vs"
          by (auto split: option.splits)
        from 4(1) [OF s _ True cs _ vs(1)] False False' True have e: "enough parseElements cs vs r" by simp
        from enough_run [OF e] enough_length [OF e] len len' show ?thesis
          using s cs False False' True vs(2) by (intro enoughI) auto
      next
        case c: False
        with 4(3) s cs False False' obtain fs where fs: "parseMembers n cs = Some (fs, r)" "v = JObj (mapFromEntries fs)"
          by (auto split: option.splits)
        from 4(2) [OF s _ c _ cs _ fs(1)] False False' c have e: "enough parseMembers cs fs r" by simp
        from enough_run [OF e] enough_length [OF e] len len' show ?thesis
          using s cs False False' c fs(2) by (intro enoughI) auto
      qed
    qed
  qed
next
  case (5 n s)
  obtain v rest where v: "parseValue n s = Some (v, rest)" using 5(3) by (auto split: option.splits)
  note e = 5(1) [OF v]
  obtain c cs where c: "skipSpace rest = c # cs" using 5(3) v by (auto split: list.splits)
  note len = skipSpace_Cons_length [OF c]
  show ?case
  proof (cases "c = CHR '']''")
    case True
    with 5(3) v c have "vs = [v]" "r = cs" by auto
    then show ?thesis using enough_run [OF e] enough_length [OF e] c True len by (intro enoughI) auto
  next
    case False
    with 5(3) v c obtain ws where ws: "c = CHR '',''" "parseElements n cs = Some (ws, r)" "vs = v # ws"
      by (auto split: if_splits option.splits)
    from 5(2) [OF v _ c False ws(1,2)] have e': "enough parseElements cs ws r" by simp
    show ?thesis using enough_run [OF e] enough_length [OF e] enough_run [OF e'] enough_length [OF e'] c False ws len
      by (intro enoughI) auto
  qed
next
  case (6 n s)
  obtain qs where q: "skipSpace s = CHR 0x22 # qs" using 6(3) by (auto split: list.splits if_splits)
  obtain k rest where k: "parseChars qs = Some (k, rest)" using 6(3) q by (auto split: option.splits)
  obtain cs where c: "skipSpace rest = CHR '':'' # cs" using 6(3) q k by (auto split: list.splits if_splits)
  obtain v rest' where v: "parseValue n cs = Some (v, rest')" using 6(3) q k c by (auto split: option.splits)
  note e = 6(1) [OF q _ k _ c _ v]
  obtain d ds where d: "skipSpace rest' = d # ds" using 6(3) q k c v by (auto split: list.splits)
  note len = skipSpace_Cons_length [OF q] parseChars_shorter [OF k] skipSpace_Cons_length [OF c] skipSpace_Cons_length [OF d]
  show ?case
  proof (cases "d = CHR ''}''")
    case True
    with 6(3) q k c v d have "fs = [(k, v)]" "r = ds" by auto
    then show ?thesis using enough_run [OF e] enough_length [OF e] q k c d True len by (intro enoughI) auto
  next
    case False
    with 6(3) q k c v d obtain gs where gs: "d = CHR '',''" "parseMembers n ds = Some (gs, r)" "fs = (k, v) # gs"
      by (auto split: if_splits option.splits)
    have e': "enough parseMembers ds gs r"
      using 6(2) [OF q _ k _ c _ v _ d False gs(1,2)] by simp
    show ?thesis using enough_run [OF e] enough_length [OF e] enough_run [OF e'] enough_length [OF e'] q k c d False gs len
      by (intro enoughI) auto
  qed
qed simp_all

section \<open>Round trip\<close>

text \<open>Values the modelled code writes: integral numbers in the range of a double, and no key twice.\<close>

fun plain_json :: "json \<Rightarrow> bool" where
  "plain_json (JNum r) \<longleftrightarrow> of_int \<lfloor>r\<rfloor> = r \<and> \<bar>r\<bar> < doubleLimit"
| "plain_json JInfinite \<longleftrightarrow> False"
| "plain_json (JArr vs) \<longleftrightarrow> (\<forall>v \<in> set vs. plain_json v)"
| "plain_json (JObj fs) \<longleftrightarrow> distinct (map fst fs) \<and> (\<forall>f \<in> set fs. plain_json (snd f))"
| "plain_json _ \<longleftrightarrow> True"

text \<open>What may follow a value: nothing that continues a number.\<close>

definition ends_value :: "string \<Rightarrow> bool" where
  "ends_value rest \<longleftrightarrow> (case rest of [] \<Rightarrow> True | c # _ \<Rightarrow> \<not> isDigit c \<and> c \<noteq> CHR ''.'' \<and> c \<noteq> CHR ''e'' \<and> c \<noteq> CHR ''E'')"

lemma hexValue_hexDigit: "n < 16 \<Longrightarrow> hexValue (hexDigit n) = Some n"
  by (auto simp: hexValue_def hexDigit_def Let_def)

lemma hexChar_hexDigit: "hexChar CHR ''0'' CHR ''0'' (hexDigit ((of_char c :: nat) div 16)) (hexDigit ((of_char c :: nat) mod 16)) = Some c"
proof -
  have "(of_char c :: nat) < 256" by (rule nat_of_char_less_256)
  then have "(of_char c :: nat) div 16 < 16" by (simp only: less_mult_imp_div_less [of _ 16 16, simplified])
  then have "hexValue (hexDigit ((of_char c :: nat) div 16)) = Some (of_char c div 16)"
    "hexValue (hexDigit ((of_char c :: nat) mod 16)) = Some (of_char c mod 16)" by (simp_all add: hexValue_hexDigit)
  moreover have "hexValue CHR ''0'' = Some 0" by (simp add: hexValue_def Let_def)
  ultimately show ?thesis by (simp add: hexChar_def)
qed

lemma of_char_eq: "(of_char c :: nat) = n \<Longrightarrow> c = char_of n"
  by (metis char_of_char)

lemma of_char_codes:
  "(of_char c :: nat) = 34 \<longleftrightarrow> c = CHR 0x22" "(of_char c :: nat) = 92 \<longleftrightarrow> c = CHR 0x5C"
  "(of_char c :: nat) = 8 \<longleftrightarrow> c = CHR 0x08" "(of_char c :: nat) = 9 \<longleftrightarrow> c = CHR 0x09"
  "(of_char c :: nat) = 10 \<longleftrightarrow> c = CHR 0x0A" "(of_char c :: nat) = 12 \<longleftrightarrow> c = CHR 0x0C"
  "(of_char c :: nat) = 13 \<longleftrightarrow> c = CHR 0x0D"
  by (auto dest!: of_char_eq simp: char_of_def bit_numeral_rec bit_0)

lemma parse_escaped: "parseChars (escapeJson c @ rest) = consChar c (parseChars rest)"
  using hexChar_hexDigit [of c] by (auto simp: escapeJson_def Let_def unescapeJson_def of_char_codes)

lemma parse_text: "parseChars (concat (map escapeJson s) @ CHR 0x22 # rest) = Some (s, rest)"
  by (induction s) (simp_all add: parse_escaped consChar_def)

lemma enough_value:
  assumes "parseValue n s = Some (v, r)"
  shows "enough parseValue s v r"
  by (rule parse_fuel(1) [OF assms])

lemma digitsOfNat_no_leading_zero:
  "digitsOfNat n \<noteq> [] \<and> (hd (digitsOfNat n) = CHR ''0'' \<longrightarrow> n = 0)"
proof (induction n rule: digitsOfNat.induct)
  case (1 n)
  show ?case
  proof (cases "n < 10")
    case True
    have "char_of (48 + n) = CHR ''0'' \<Longrightarrow> n = 0"
    proof -
      assume "char_of (48 + n) = CHR ''0''"
      then have "(of_char (char_of (48 + n)) :: nat) = of_char CHR ''0''" by simp
      with True show "n = 0" by simp
    qed
    with True show ?thesis by (simp add: digitsOfNat.simps [of n])
  next
    case False
    with 1 show ?thesis by (auto simp: digitsOfNat.simps [of n] div_eq_0_iff)
  qed
qed

lemma digits_isDigit: "list_all isDigit (digitsOfNat n)"
  using digitsOfNat_chars by (simp add: list_all_iff isDigit_def)

lemma takeWhile_digits:
  assumes "list_all isDigit ds" "ends_value rest"
  shows "takeWhile isDigit (ds @ rest) = ds" "dropWhile isDigit (ds @ rest) = rest"
  using assms by (auto simp: takeWhile_append dropWhile_append list_all_iff ends_value_def split: list.splits)

lemma parse_integer:
  assumes "ends_value rest" "\<bar>of_int i :: rat\<bar> < doubleLimit"
  shows "parseNumber (stringOfInt i @ rest) = Some (JNum (of_int i), rest)"
proof -
  let ?n = "nat \<bar>i\<bar>"
  let ?ds = "digitsOfNat ?n"
  have tail: "parseFraction rest = Some (0, rest)" "parseExponent rest = Some (1, rest)"
    using assms(1) by (auto simp: ends_value_def parseFraction_def parseExponent_def split: list.splits)
  note lead = digitsOfNat_no_leading_zero [of ?n]
  have one: "\<not> Suc 0 < length (digitsOfNat 0)" by (simp add: digitsOfNat.simps [of 0])
  have "isDigit (hd ?ds)" using digits_isDigit [of ?n] lead by (simp add: list_all_iff)
  moreover have "\<not> isDigit CHR ''-''" by (simp add: isDigit_def)
  ultimately have head: "hd ?ds \<noteq> CHR ''-''" by metis
  have body: "takeWhile isDigit (?ds @ rest) = ?ds" "dropWhile isDigit (?ds @ rest) = rest"
    by (rule takeWhile_digits [OF digits_isDigit assms(1)])+
  have signed: "(case stringOfInt i @ rest of c # cs \<Rightarrow> if c = CHR ''-'' then (True, cs) else (False, stringOfInt i @ rest)
      | [] \<Rightarrow> (False, stringOfInt i @ rest)) = (i < 0, ?ds @ rest)"
  proof -
    obtain d ds where d: "?ds = d # ds" using lead by (metis list.exhaust)
    with head show ?thesis by (cases "i < 0") (auto simp: stringOfInt_def)
  qed
  have "jsonOfRat (of_int i) = JNum (of_int i)" using assms(2) by (simp add: jsonOfRat_def)
  moreover have "(if i < 0 then - 1 else 1) * (of_nat ?n :: rat) = of_int i" by simp
  ultimately show ?thesis
    unfolding parseNumber_def signed using lead one tail body
    by (simp add: Let_def natOfDigits_digitsOfNat)
qed

definition value_start :: "char \<Rightarrow> bool" where
  "value_start c \<longleftrightarrow> c = CHR 0x22 \<or> c = CHR ''['' \<or> c = CHR ''{'' \<or> c = CHR ''n'' \<or> c = CHR ''t'' \<or> c = CHR ''f'' \<or> c = CHR ''-'' \<or> isDigit c"

lemma value_start: "value_start c \<Longrightarrow> \<not> isJsonSpace c \<and> c \<noteq> CHR '']'' \<and> c \<noteq> CHR ''}''"
  by (auto simp: value_start_def isJsonSpace_def isDigit_def Let_def)

definition numeral_start :: "char \<Rightarrow> bool" where
  "numeral_start c \<longleftrightarrow> c = CHR ''-'' \<or> isDigit c"

lemma numeral_start:
  "numeral_start c \<Longrightarrow> value_start c \<and> c \<noteq> CHR ''n'' \<and> c \<noteq> CHR ''t'' \<and> c \<noteq> CHR ''f'' \<and> c \<noteq> CHR ''['' \<and> c \<noteq> CHR ''{'' \<and> c \<noteq> CHR 0x22"
  by (auto simp: numeral_start_def value_start_def isDigit_def)

lemma stringOfInt_start: "\<exists>c cs. stringOfInt i = c # cs \<and> numeral_start c"
proof -
  have "\<exists>c cs. digitsOfNat n = c # cs \<and> numeral_start c" for n
    using digitsOfNat_no_leading_zero [of n] digits_isDigit [of n] by (cases "digitsOfNat n") (auto simp: numeral_start_def)
  then show ?thesis unfolding stringOfInt_def by (simp add: numeral_start_def)
qed

lemma textOfRat_integer: "of_int \<lfloor>r\<rfloor> = r \<Longrightarrow> textOfRat r = stringOfInt \<lfloor>r\<rfloor>"
proof -
  assume "of_int \<lfloor>r\<rfloor> = r"
  moreover have "textOfRat (of_int k) = stringOfInt k" for k by (simp add: textOfRat_def)
  ultimately show "textOfRat r = stringOfInt \<lfloor>r\<rfloor>" by metis
qed

lemma stringify_start: "plain_json v \<Longrightarrow> \<exists>c cs. stringify v = c # cs \<and> value_start c"
proof (cases v)
  case (JNum r)
  assume "plain_json v"
  then have "stringify v = stringOfInt \<lfloor>r\<rfloor>" using JNum by (simp only: plain_json.simps stringify.simps textOfRat_integer)
  moreover obtain c cs where "stringOfInt \<lfloor>r\<rfloor> = c # cs" "numeral_start c" using stringOfInt_start by blast
  ultimately show ?thesis using numeral_start by auto
qed (auto simp: value_start_def stringifyText_def)

lemma skipSpace_start [simp]: "value_start c \<Longrightarrow> skipSpace (c # cs) = c # cs"
  using value_start by (simp add: skipSpace_def)

lemma skipSpace_punctuation [simp]:
  "skipSpace (CHR '','' # s) = CHR '','' # s" "skipSpace (CHR '']'' # s) = CHR '']'' # s"
  "skipSpace (CHR ''}'' # s) = CHR ''}'' # s" "skipSpace (CHR '':'' # s) = CHR '':'' # s" "skipSpace (CHR 0x22 # s) = CHR 0x22 # s"
  "skipSpace (CHR ''['' # s) = CHR ''['' # s" "skipSpace (CHR ''{'' # s) = CHR ''{'' # s"
  by (simp_all add: skipSpace_def isJsonSpace_def)

lemma ends_punctuation [simp]: "ends_value []" "ends_value (CHR '','' # s)" "ends_value (CHR '']'' # s)" "ends_value (CHR ''}'' # s)"
  by (simp_all add: ends_value_def isDigit_def)

text \<open>Elements and members, given that each value reads back.\<close>

lemma parse_elements:
  assumes "\<forall>v \<in> set (v # vs). \<forall>rest. ends_value rest \<longrightarrow> enough parseValue (stringify v @ rest) v rest"
  shows "enough parseElements (joinText '','' (map stringify (v # vs)) @ CHR '']'' # rest) (v # vs) rest"
  using assms
proof (induction vs arbitrary: v)
  case Nil
  then have e: "enough parseValue (stringify v @ CHR '']'' # rest) v (CHR '']'' # rest)" by simp
  show ?case using enough_run [OF e] enough_length [OF e] by (intro enoughI) auto
next
  case (Cons w ws)
  let ?s = "joinText '','' (map stringify (w # ws)) @ CHR '']'' # rest"
  have e: "enough parseValue (stringify v @ CHR '','' # ?s) v (CHR '','' # ?s)" using Cons.prems by simp
  have e': "enough parseElements ?s (w # ws) rest" using Cons by simp
  show ?case using enough_run [OF e] enough_length [OF e] enough_run [OF e'] enough_length [OF e'] by (intro enoughI) auto
qed

definition member :: "string \<times> json \<Rightarrow> string" where
  "member = (\<lambda>(k, v). stringifyText k @ '':'' @ stringify v)"

lemma parse_members:
  assumes "\<forall>f \<in> set (f # fs). \<forall>rest. ends_value rest \<longrightarrow> enough parseValue (stringify (snd f) @ rest) (snd f) rest"
  shows "enough parseMembers (joinText '','' (map member (f # fs)) @ CHR ''}'' # rest) (f # fs) rest"
  using assms
proof (induction fs arbitrary: f)
  case Nil
  obtain k v where f: "f = (k, v)" by fastforce
  have e: "enough parseValue (stringify v @ CHR ''}'' # rest) v (CHR ''}'' # rest)" using Nil by (simp add: f)
  show ?case using enough_run [OF e] enough_length [OF e]
    by (intro enoughI) (auto simp: f member_def stringifyText_def parse_text)
next
  case (Cons g gs)
  obtain k v where f: "f = (k, v)" by fastforce
  let ?s = "joinText '','' (map member (g # gs)) @ CHR ''}'' # rest"
  have e: "enough parseValue (stringify v @ CHR '','' # ?s) v (CHR '','' # ?s)" using Cons.prems by (simp add: f)
  have e': "enough parseMembers ?s (g # gs) rest" using Cons by simp
  show ?case using enough_run [OF e] enough_length [OF e] enough_run [OF e'] enough_length [OF e']
    by (intro enoughI) (auto simp: f member_def stringifyText_def parse_text)
qed

lemma parse_stringify:
  "plain_json v \<Longrightarrow> ends_value rest \<Longrightarrow> enough parseValue (stringify v @ rest) v rest"
proof (induction v arbitrary: rest rule: stringify.induct)
  case (3 r)
  obtain c cs where c: "stringOfInt \<lfloor>r\<rfloor> = c # cs" "numeral_start c" using stringOfInt_start by blast
  note start = numeral_start [OF c(2)]
  have "parseNumber (stringOfInt \<lfloor>r\<rfloor> @ rest) = Some (JNum (of_int \<lfloor>r\<rfloor>), rest)"
    by (rule parse_integer) (use 3 in auto)
  then have "parseValue 1 (stringOfInt \<lfloor>r\<rfloor> @ rest) = Some (JNum r, rest)"
    using 3(1) c(1) start by (auto simp: parseWord_def)
  from enough_value [OF this] show ?case using 3(1) by (simp only: stringify.simps plain_json.simps textOfRat_integer)
next
  case (6 vs)
  show ?case
  proof (cases vs)
    case Nil
    then show ?thesis by (intro enough_value [of 1]) simp
  next
    case (Cons w ws)
    have e: "enough parseElements (joinText '','' (map stringify vs) @ CHR '']'' # rest) vs rest"
      unfolding Cons by (rule parse_elements) (use 6 Cons in auto)
    obtain c cs where c: "stringify w = c # cs" "value_start c" using stringify_start [of w] 6 Cons by auto
    then have "\<exists>ds. joinText '','' (map stringify vs) = c # ds" unfolding Cons by (cases ws) auto
    then obtain ds where ds: "joinText '','' (map stringify vs) = c # ds" by blast
    note bracket = value_start [OF c(2)]
    show ?thesis using enough_run [OF e] enough_length [OF e] ds c bracket
      by (intro enoughI) auto
  qed
next
  case (7 fs)
  have join: "stringify (JObj fs) = CHR ''{'' # joinText '','' (map member fs) @ ''}''" by (simp add: member_def)
  show ?case
  proof (cases fs)
    case Nil
    then show ?thesis by (intro enough_value [of 1]) simp
  next
    case (Cons f gs)
    have e: "enough parseMembers (joinText '','' (map member fs) @ CHR ''}'' # rest) fs rest"
    proof -
      have "\<forall>f \<in> set fs. \<forall>rest. ends_value rest \<longrightarrow> enough parseValue (stringify (snd f) @ rest) (snd f) rest"
      proof (intro ballI allI impI)
        fix f rest
        assume "f \<in> set fs" "ends_value rest"
        then show "enough parseValue (stringify (snd f) @ rest) (snd f) rest"
          using 7(1) [of f "fst f" "snd f" rest] 7(2) by simp
      qed
      then show ?thesis unfolding Cons by (rule parse_members)
    qed
    have "\<exists>ds. joinText '','' (map member fs) = CHR 0x22 # ds"
      unfolding Cons by (cases gs; cases f) (auto simp: member_def stringifyText_def)
    then obtain ds where ds: "joinText '','' (map member fs) = CHR 0x22 # ds" by blast
    have "mapFromEntries fs = fs" using 7(2) by (simp add: mapFromEntries_distinct)
    with enough_run [OF e] enough_length [OF e] ds show ?thesis unfolding join
      by (intro enoughI) auto
  qed
qed (auto intro!: enough_value [of 1] simp: parseWord_def stringifyText_def parse_text value_start_def skipSpace_start split: if_splits)

theorem parse_after_stringify: "plain_json v \<Longrightarrow> parseJson (stringify v) = Some v"
  using enough_run [OF parse_stringify [of v "[]"], of "Suc (length (stringify v))"]
  by (simp add: parseJson_def skipSpace_def del: parseValue.simps)

lemma stringify_inject: "plain_json v \<Longrightarrow> plain_json w \<Longrightarrow> stringify v = stringify w \<longleftrightarrow> v = w"
  by (metis parse_after_stringify option.inject)

end
