(* ===== verification/InputBaseline.thy ===== *)
theory InputBaseline
  imports Json
begin

text \<open>
  \<open>src/io/input-baseline.ts\<close>: the safe summary of the input and output files of an attempt, kept in its
  \<open>error_message\<close>, how it is written and read back, and the comparison of two baselines. A receipt of
  the runner is an \<open>execution_file\<close> (\<open>src/executor/result-classifier.ts\<close>). Strings are compared by
  code units, the order of \<open>List_Lexorder\<close> over \<open>Char_ord\<close>.
\<close>

section \<open>Data\<close>

record input_baseline =
  ib_name :: string
  ib_path :: string
  ib_sha256 :: string
  ib_bytes :: int

record stored_baseline =
  sb_source :: string
  sb_sha256 :: string
  sb_bytes :: int

record execution_file =
  ef_name :: string
  ef_sha256 :: string
  ef_bytes :: int
  ef_rows :: int
  ef_encoding :: string

definition INPUT_AUDIT_SUMMARY_MAX_LENGTH :: nat where "INPUT_AUDIT_SUMMARY_MAX_LENGTH = 10000"
definition MAX_SAFE_INTEGER :: int where "MAX_SAFE_INTEGER = 9007199254740991"

section \<open>Checks\<close>

definition isSafeSourceName :: "string \<Rightarrow> bool" where
  "isSafeSourceName v \<longleftrightarrow> length v \<ge> 1 \<and> length v \<le> 128 \<and> v \<noteq> ''__net__'' \<and>
     CHR '':'' \<notin> set v \<and> CHR ''='' \<notin> set v \<and>
     \<not> list_ex (\<lambda>c. let n = of_char c :: nat in n \<le> 0x1f \<or> n = 0x7f) v"

text \<open>\<open>/^[a-f0-9]{64}$/u\<close>\<close>

definition isSha256 :: "string \<Rightarrow> bool" where
  "isSha256 s \<longleftrightarrow> length s = 64 \<and>
     list_all (\<lambda>c. let n = of_char c :: nat in 97 \<le> n \<and> n \<le> 102 \<or> 48 \<le> n \<and> n \<le> 57) s"

text \<open>\<open>/^[A-Za-z0-9._-]{1,32}$/u\<close>\<close>

definition isEncodingName :: "string \<Rightarrow> bool" where
  "isEncodingName s \<longleftrightarrow> 1 \<le> length s \<and> length s \<le> 32 \<and>
     list_all (\<lambda>c. let n = of_char c :: nat in
        65 \<le> n \<and> n \<le> 90 \<or> 97 \<le> n \<and> n \<le> 122 \<or> 48 \<le> n \<and> n \<le> 57 \<or> n = 46 \<or> n = 95 \<or> n = 45) s"

definition assertStoredBaseline :: "stored_baseline \<Rightarrow> bool" where
  "assertStoredBaseline b \<longleftrightarrow> isSafeSourceName (sb_source b) \<and> isSha256 (sb_sha256 b) \<and>
     isSafeInteger (sb_bytes b) \<and> 0 \<le> sb_bytes b"

text \<open>The objects of a value that is one, with exactly these keys.\<close>

definition hasOnlyKeys :: "json \<Rightarrow> string list \<Rightarrow> bool" where
  "hasOnlyKeys v keys \<longleftrightarrow> (case v of JObj fs \<Rightarrow> sort (map fst fs) = sort keys | _ \<Rightarrow> False)"

definition checkedJson :: "json \<Rightarrow> js_error + string" where
  "checkedJson v = (let summary = stringify v in
     if length summary > INPUT_AUDIT_SUMMARY_MAX_LENGTH then Inl (PlainError ''Error'') else Inr summary)"

section \<open>Writing\<close>

definition storedJson :: "stored_baseline \<Rightarrow> json" where
  "storedJson b = JObj [(''source'', JStr (sb_source b)), (''sha256'', JStr (sb_sha256 b)), (''bytes'', jsonInt (sb_bytes b))]"

definition storedOf :: "input_baseline \<Rightarrow> stored_baseline" where
  "storedOf i = \<lparr> sb_source = ib_name i, sb_sha256 = ib_sha256 i, sb_bytes = ib_bytes i \<rparr>"

definition normalizeBaseline :: "input_baseline list \<Rightarrow> js_error + stored_baseline list" where
  "normalizeBaseline inputs =
     (let normalized = sort_key sb_source (map storedOf inputs) in
      if \<not> list_all assertStoredBaseline normalized then Inl (PlainError ''Error'')
      else if \<not> distinct (map sb_source normalized) then Inl (PlainError ''Error'')
      else Inr normalized)"

definition baselineEnvelope :: "stored_baseline list \<Rightarrow> json" where
  "baselineEnvelope inputs = JObj [(''version'', JNum 1), (''kind'', JStr ''KSQL_FLOWNET_INPUT_BASELINE''),
     (''inputs'', JArr (map storedJson inputs))]"

definition importJson :: "string \<Rightarrow> string \<Rightarrow> int \<Rightarrow> int \<Rightarrow> string \<Rightarrow> json" where
  "importJson source sha bytes rows encoding = JObj [(''source'', JStr source), (''type'', JStr ''IMPORT''),
     (''sha256'', JStr (take 12 sha)), (''bytes'', jsonInt bytes), (''rows'', jsonInt rows), (''encoding'', JStr encoding)]"

definition auditEnvelope :: "stored_baseline list \<Rightarrow> json list \<Rightarrow> json" where
  "auditEnvelope baseline files = JObj [(''version'', JNum 1), (''kind'', JStr ''KSQL_FLOWNET_INPUT_AUDIT''),
     (''baseline'', JArr (map storedJson baseline)), (''input_files'', JArr files)]"

text \<open>The second check reserves room for the receipts that replace the baseline later.\<close>

definition serializeInputBaseline :: "input_baseline list \<Rightarrow> js_error + string" where
  "serializeInputBaseline inputs =
     (case normalizeBaseline inputs of Inl e \<Rightarrow> Inl e | Inr normalized \<Rightarrow>
      case checkedJson (baselineEnvelope normalized) of Inl e \<Rightarrow> Inl e | Inr summary \<Rightarrow>
      case checkedJson (auditEnvelope normalized
        (map (\<lambda>b. importJson (sb_source b) (sb_sha256 b) (sb_bytes b) MAX_SAFE_INTEGER (replicate 32 CHR ''x'')) normalized))
      of Inl e \<Rightarrow> Inl e | Inr _ \<Rightarrow> Inr summary)"

definition receiptOk :: "execution_file \<Rightarrow> bool" where
  "receiptOk r \<longleftrightarrow> assertStoredBaseline \<lparr> sb_source = ef_name r, sb_sha256 = ef_sha256 r, sb_bytes = ef_bytes r \<rparr> \<and>
     isSafeInteger (ef_rows r) \<and> 0 \<le> ef_rows r \<and> isEncodingName (ef_encoding r)"

definition receiptJson :: "execution_file \<Rightarrow> json" where
  "receiptJson r = importJson (ef_name r) (ef_sha256 r) (ef_bytes r) (ef_rows r) (ef_encoding r)"

definition serializeInputAuditSummary :: "input_baseline list \<Rightarrow> execution_file list \<Rightarrow> js_error + string" where
  "serializeInputAuditSummary baseline receipts =
     (case normalizeBaseline baseline of Inl e \<Rightarrow> Inl e | Inr normalized \<Rightarrow>
      let sorted = sort_key ef_name receipts in
      if \<not> list_all receiptOk sorted then Inl (PlainError ''Error'')
      else checkedJson (auditEnvelope normalized (map receiptJson sorted)))"

definition outputOk :: "execution_file \<Rightarrow> bool" where
  "outputOk r \<longleftrightarrow> isSafeSourceName (ef_name r) \<and> isSha256 (ef_sha256 r) \<and> isSafeInteger (ef_bytes r) \<and> 0 \<le> ef_bytes r \<and>
     isSafeInteger (ef_rows r) \<and> 0 \<le> ef_rows r \<and> ef_encoding r \<in> {''utf8'', ''sjis''}"

definition exportJson :: "execution_file \<Rightarrow> json" where
  "exportJson r = JObj [(''sink'', JStr (ef_name r)), (''type'', JStr ''EXPORT''), (''sha256'', JStr (ef_sha256 r)),
     (''bytes'', jsonInt (ef_bytes r)), (''rows'', jsonInt (ef_rows r)), (''encoding'', JStr (ef_encoding r))]"

definition normalizeOutputReceipts :: "execution_file list \<Rightarrow> js_error + json list" where
  "normalizeOutputReceipts outputs =
     (if \<not> list_all outputOk outputs then Inl (PlainError ''Error'')
      else if \<not> distinct (map ef_name outputs) then Inl (PlainError ''Error'')
      else Inr (map exportJson outputs))"

definition serializeOutputAuditSummary :: "execution_file list \<Rightarrow> js_error + string" where
  "serializeOutputAuditSummary outputs =
     (case normalizeOutputReceipts outputs of Inl e \<Rightarrow> Inl e | Inr files \<Rightarrow>
      checkedJson (JObj [(''version'', JNum 1), (''kind'', JStr ''KSQL_FLOWNET_OUTPUT_AUDIT''), (''output_files'', JArr files)]))"

text \<open>A property that is absent is left out by \<open>JSON.stringify\<close>.\<close>

definition presentFields :: "(string \<times> json option) list \<Rightarrow> (string \<times> json) list" where
  "presentFields fs = concat (map (\<lambda>(k, v). case v of None \<Rightarrow> [] | Some x \<Rightarrow> [(k, x)]) fs)"

definition serializeIoAuditSummary :: "input_baseline list \<Rightarrow> execution_file list \<Rightarrow> execution_file list \<Rightarrow> js_error + string" where
  "serializeIoAuditSummary baseline inputReceipts outputReceipts =
     (case serializeInputAuditSummary baseline inputReceipts of Inl e \<Rightarrow> Inl e | Inr written \<Rightarrow>
      case parseJson written of None \<Rightarrow> Inl (PlainError ''SyntaxError'') | Some inputAudit \<Rightarrow>
      case normalizeOutputReceipts outputReceipts of Inl e \<Rightarrow> Inl e | Inr files \<Rightarrow>
      checkedJson (JObj (presentFields [(''version'', Some (JNum 1)), (''kind'', Some (JStr ''KSQL_FLOWNET_IO_AUDIT'')),
        (''baseline'', jsonGet inputAudit ''baseline''), (''input_files'', jsonGet inputAudit ''input_files''),
        (''output_files'', Some (JArr files))])))"

section \<open>Reading\<close>

definition storedOfJson :: "json \<Rightarrow> stored_baseline option" where
  "storedOfJson item =
     (if \<not> hasOnlyKeys item [''source'', ''sha256'', ''bytes''] then None
      else case (jsonGet item ''source'', jsonGet item ''sha256'', jsonGet item ''bytes'') of
        (Some (JStr source), Some (JStr sha), Some (JNum r)) \<Rightarrow>
          (let b = \<lparr> sb_source = source, sb_sha256 = sha, sb_bytes = \<lfloor>r\<rfloor> \<rparr> in
           if of_int \<lfloor>r\<rfloor> = r \<and> assertStoredBaseline b then Some b else None)
      | _ \<Rightarrow> None)"

fun storedListOfJson :: "json list \<Rightarrow> stored_baseline list option" where
  "storedListOfJson [] = Some []"
| "storedListOfJson (v # vs) = (case storedOfJson v of None \<Rightarrow> None | Some b \<Rightarrow>
     (case storedListOfJson vs of None \<Rightarrow> None | Some bs \<Rightarrow> Some (b # bs)))"

definition strictBaseline :: "json list \<Rightarrow> js_error + stored_baseline list" where
  "strictBaseline v =
     (case storedListOfJson v of None \<Rightarrow> Inl (PlainError ''Error'') | Some inputs \<Rightarrow>
      let canonical = sort_key sb_source inputs in
      if stringify (JArr (map storedJson inputs)) \<noteq> stringify (JArr (map storedJson canonical)) then Inl (PlainError ''Error'')
      else if \<not> distinct (map sb_source inputs) then Inl (PlainError ''Error'')
      else Inr inputs)"

text \<open>One envelope: its keys, its version and the array of its baseline.\<close>

definition envelopeBaseline :: "json \<Rightarrow> string list \<Rightarrow> string \<Rightarrow> js_error + stored_baseline list option" where
  "envelopeBaseline v keys field =
     (if \<not> hasOnlyKeys v keys then Inl (PlainError ''Error'')
      else case (jsonGet v ''version'', jsonGet v field) of
        (Some (JNum r), Some (JArr items)) \<Rightarrow>
          if r \<noteq> 1 then Inl (PlainError ''Error'')
          else (case strictBaseline items of Inl e \<Rightarrow> Inl e | Inr bs \<Rightarrow> Inr (Some bs))
      | _ \<Rightarrow> Inl (PlainError ''Error''))"

definition parseInputBaseline :: "string option \<Rightarrow> js_error + stored_baseline list option" where
  "parseInputBaseline summary = (case summary of
     None \<Rightarrow> Inr None
   | Some s \<Rightarrow>
       if length s > INPUT_AUDIT_SUMMARY_MAX_LENGTH then Inr None
       else (case parseJson s of
         Some (JObj fs) \<Rightarrow>
           (let v = JObj fs; kind = jsonGet v ''kind'' in
            if kind = Some (JStr ''KSQL_FLOWNET_IO_AUDIT'')
            then envelopeBaseline v [''version'', ''kind'', ''baseline'', ''input_files'', ''output_files''] ''baseline''
            else if kind = Some (JStr ''KSQL_FLOWNET_INPUT_AUDIT'')
            then envelopeBaseline v [''version'', ''kind'', ''baseline'', ''input_files''] ''baseline''
            else if kind \<noteq> Some (JStr ''KSQL_FLOWNET_INPUT_BASELINE'') then Inr None
            else envelopeBaseline v [''version'', ''kind'', ''inputs''] ''inputs'')
       | _ \<Rightarrow> Inr None))"

section \<open>Comparison\<close>

definition serializeStoredBaseline :: "stored_baseline list \<Rightarrow> js_error + string" where
  "serializeStoredBaseline inputs =
     (if \<not> list_all assertStoredBaseline inputs then Inl (PlainError ''Error'')
      else checkedJson (baselineEnvelope (sort_key sb_source inputs)))"

definition inputBaselinesEqual :: "stored_baseline list \<Rightarrow> input_baseline list \<Rightarrow> js_error + bool" where
  "inputBaselinesEqual expected actual =
     (case serializeStoredBaseline expected of Inl e \<Rightarrow> Inl e | Inr a \<Rightarrow>
      case serializeInputBaseline actual of Inl e \<Rightarrow> Inl e | Inr b \<Rightarrow> Inr (a = b))"

section \<open>Lemmas\<close>

lemma plain_int: "isSafeInteger i \<Longrightarrow> plain_json (jsonInt i)"
proof -
  assume "isSafeInteger i"
  then have "\<bar>of_int i :: rat\<bar> \<le> 2 ^ 53 - 1" by (simp add: isSafeInteger_def flip: of_int_abs)
  also have "(2 :: rat) ^ 53 - 1 < doubleLimit" by (simp add: doubleLimit_def)
  finally show ?thesis by (simp add: jsonInt_def)
qed

lemma plain_one: "plain_json (JNum 1)"
  using plain_int [of 1] by (simp add: jsonInt_def isSafeInteger_def)

lemma plain_stored: "assertStoredBaseline b \<Longrightarrow> plain_json (storedJson b)"
  using plain_int by (simp add: storedJson_def assertStoredBaseline_def)

lemma plain_import:
  "isSafeInteger bytes \<Longrightarrow> isSafeInteger rows \<Longrightarrow> plain_json (importJson source sha bytes rows encoding)"
  using plain_int by (simp add: importJson_def)

lemma plain_export: "outputOk r \<Longrightarrow> plain_json (exportJson r)"
  using plain_int by (simp add: exportJson_def outputOk_def)

lemma normalizeBaseline_Inr:
  assumes "normalizeBaseline inputs = Inr bs"
  shows "list_all assertStoredBaseline bs" "distinct (map sb_source bs)" "sorted (map sb_source bs)"
    "bs = sort_key sb_source (map storedOf inputs)"
  using assms by (auto simp: normalizeBaseline_def Let_def split: if_splits)

lemma storedOfJson_storedJson: "assertStoredBaseline b \<Longrightarrow> storedOfJson (storedJson b) = Some b"
  by (cases b) (simp add: storedOfJson_def storedJson_def hasOnlyKeys_def jsonGet_def jsonInt_def Let_def)

lemma storedListOfJson_map: "list_all assertStoredBaseline bs \<Longrightarrow> storedListOfJson (map storedJson bs) = Some bs"
  by (induction bs) (simp_all add: storedOfJson_storedJson)

lemma strictBaseline_map:
  "list_all assertStoredBaseline bs \<Longrightarrow> distinct (map sb_source bs) \<Longrightarrow> sorted (map sb_source bs) \<Longrightarrow>
     strictBaseline (map storedJson bs) = Inr bs"
  by (simp add: strictBaseline_def storedListOfJson_map sort_key_id_if_sorted)

lemma checkedJson_Inr: "checkedJson v = Inr s \<longleftrightarrow> s = stringify v \<and> length s \<le> INPUT_AUDIT_SUMMARY_MAX_LENGTH"
  by (auto simp: checkedJson_def Let_def)

lemma parse_checked: "checkedJson v = Inr s \<Longrightarrow> plain_json v \<Longrightarrow> parseJson s = Some v \<and> length s \<le> INPUT_AUDIT_SUMMARY_MAX_LENGTH"
  using parse_after_stringify by (auto simp: checkedJson_Inr)

lemma plain_array: "list_all assertStoredBaseline bs \<Longrightarrow> plain_json (JArr (map storedJson bs))"
  using plain_stored by (auto simp: list_all_iff)

lemma plain_baseline: "list_all assertStoredBaseline bs \<Longrightarrow> plain_json (baselineEnvelope bs)"
  using plain_array plain_one by (simp add: baselineEnvelope_def)

lemma plain_audit: "list_all assertStoredBaseline bs \<Longrightarrow> \<forall>f \<in> set fs. plain_json f \<Longrightarrow> plain_json (auditEnvelope bs fs)"
  using plain_array plain_one by (simp add: auditEnvelope_def)

lemma plain_receipts: "list_all receiptOk rs \<Longrightarrow> f \<in> set (map receiptJson rs) \<Longrightarrow> plain_json f"
  using plain_import by (auto simp: receiptJson_def receiptOk_def assertStoredBaseline_def list_all_iff)

lemma parse_envelopes:
  assumes "list_all assertStoredBaseline bs" "distinct (map sb_source bs)" "sorted (map sb_source bs)"
  shows "parseJson s = Some (baselineEnvelope bs) \<Longrightarrow> length s \<le> INPUT_AUDIT_SUMMARY_MAX_LENGTH \<Longrightarrow> parseInputBaseline (Some s) = Inr (Some bs)"
    and "parseJson s = Some (auditEnvelope bs fs) \<Longrightarrow> length s \<le> INPUT_AUDIT_SUMMARY_MAX_LENGTH \<Longrightarrow> parseInputBaseline (Some s) = Inr (Some bs)"
  using strictBaseline_map [OF assms]
  by (simp_all add: parseInputBaseline_def baselineEnvelope_def auditEnvelope_def Let_def envelopeBaseline_def hasOnlyKeys_def jsonGet_def)

section \<open>Properties\<close>

text \<open>
  C27: Round trip of the input baseline: whatever summary of an attempt is written over a set of input
  files - the baseline before the execution, the audit of the inputs after it, or the audit of inputs
  and outputs - reading it back gives the same baseline, the (source, SHA-256, bytes) triples in source order.
\<close>

theorem input_baseline_roundtrip:
  assumes "serializeInputBaseline inputs = Inr s \<or> serializeInputAuditSummary inputs receipts = Inr s \<or>
    serializeIoAuditSummary inputs receipts outputs = Inr s"
  shows "parseInputBaseline (Some s) = Inr (Some (sort_key sb_source (map storedOf inputs)))"
proof -
  obtain bs where n: "normalizeBaseline inputs = Inr bs"
    using assms by (cases "normalizeBaseline inputs")
      (auto simp: serializeInputBaseline_def serializeInputAuditSummary_def serializeIoAuditSummary_def)
  note bs = normalizeBaseline_Inr [OF n]
  have audit: "parseJson t = Some (auditEnvelope bs (map receiptJson (sort_key ef_name receipts))) \<and>
      length t \<le> INPUT_AUDIT_SUMMARY_MAX_LENGTH \<and> list_all receiptOk (sort_key ef_name receipts)"
    if "serializeInputAuditSummary inputs receipts = Inr t" for t
  proof -
    have ok: "list_all receiptOk (sort_key ef_name receipts)" "checkedJson (auditEnvelope bs (map receiptJson (sort_key ef_name receipts))) = Inr t"
      using that by (auto simp: serializeInputAuditSummary_def n Let_def split: if_splits)
    then show ?thesis using parse_checked [OF ok(2) plain_audit [OF bs(1)]] plain_receipts by blast
  qed
  consider "serializeInputBaseline inputs = Inr s" | "serializeInputAuditSummary inputs receipts = Inr s"
    | "serializeIoAuditSummary inputs receipts outputs = Inr s" using assms by blast
  then have "parseInputBaseline (Some s) = Inr (Some bs)"
  proof cases
    case 1
    then have "checkedJson (baselineEnvelope bs) = Inr s"
      by (auto simp: serializeInputBaseline_def n split: sum.splits)
    with parse_checked [OF this plain_baseline [OF bs(1)]] parse_envelopes(1) [OF bs(1-3)] show ?thesis by blast
  next
    case 2
    with audit parse_envelopes(2) [OF bs(1-3)] show ?thesis by blast
  next
    case 3
    then obtain t where t: "serializeInputAuditSummary inputs receipts = Inr t"
      by (auto simp: serializeIoAuditSummary_def split: sum.splits)
    note a = audit [OF t]
    let ?in = "map receiptJson (sort_key ef_name receipts)"
    obtain files where files: "normalizeOutputReceipts outputs = Inr files"
        "checkedJson (JObj [(''version'', JNum 1), (''kind'', JStr ''KSQL_FLOWNET_IO_AUDIT''),
          (''baseline'', JArr (map storedJson bs)), (''input_files'', JArr ?in), (''output_files'', JArr files)]) = Inr s"
      using 3 a by (auto simp: serializeIoAuditSummary_def t auditEnvelope_def jsonGet_def presentFields_def split: sum.splits)
    have "\<forall>f \<in> set files. plain_json f"
      using files(1) plain_export by (auto simp: normalizeOutputReceipts_def list_all_iff split: if_splits)
    moreover have "\<forall>f \<in> set ?in. plain_json f" using a plain_receipts by blast
    ultimately have "parseJson s = Some (JObj [(''version'', JNum 1), (''kind'', JStr ''KSQL_FLOWNET_IO_AUDIT''),
          (''baseline'', JArr (map storedJson bs)), (''input_files'', JArr ?in), (''output_files'', JArr files)]) \<and>
        length s \<le> INPUT_AUDIT_SUMMARY_MAX_LENGTH"
      by (intro parse_checked [OF files(2)]) (use plain_array [OF bs(1)] plain_one in simp)
    then show ?thesis using strictBaseline_map [OF bs(1-3)]
      by (simp add: parseInputBaseline_def Let_def envelopeBaseline_def hasOnlyKeys_def jsonGet_def)
  qed
  with bs(4) show ?thesis by simp
qed

definition sampleInput :: input_baseline where
  "sampleInput = \<lparr> ib_name = ''orders'', ib_path = ''/io/in/orders.csv'', ib_sha256 = replicate 64 CHR ''a'', ib_bytes = 42 \<rparr>"

lemma sampleInput_stored: "assertStoredBaseline (storedOf sampleInput)"
  by (simp add: assertStoredBaseline_def storedOf_def sampleInput_def isSafeSourceName_def isSha256_def isSafeInteger_def list_all_iff)

lemma sampleInput_normalized: "normalizeBaseline [sampleInput] = Inr [storedOf sampleInput]"
  by (simp add: normalizeBaseline_def sampleInput_stored)

lemma concat_replicate_single [simp]: "concat (replicate n [c]) = replicate n c"
  by (induction n) simp_all

lemma sample_serialized: "\<exists>s. serializeInputBaseline [sampleInput] = Inr s"
proof -
  have "stringOfInt 1 = ''1''" "stringOfInt 42 = ''42''" "stringOfInt 9007199254740991 = ''9007199254740991''"
    by (simp_all add: stringOfInt_def digitsOfNat.simps char_of_def bit_numeral_rec bit_0)
  moreover have "sb_source (storedOf sampleInput) = ''orders''" "sb_sha256 (storedOf sampleInput) = replicate 64 CHR ''a''"
    "sb_bytes (storedOf sampleInput) = 42" by (simp_all add: storedOf_def sampleInput_def)
  ultimately show ?thesis
    by (simp add: serializeInputBaseline_def sampleInput_normalized checkedJson_def Let_def baselineEnvelope_def auditEnvelope_def
        storedJson_def importJson_def stringifyText_def escapeJson_def textOfRat_def jsonInt_def
        MAX_SAFE_INTEGER_def INPUT_AUDIT_SUMMARY_MAX_LENGTH_def)
qed

lemma input_baseline_roundtrip_witness:
  "\<exists>s. serializeInputBaseline [sampleInput] = Inr s \<and> parseInputBaseline (Some s) = Inr (Some [storedOf sampleInput])"
proof -
  obtain s where s: "serializeInputBaseline [sampleInput] = Inr s" using sample_serialized by blast
  with input_baseline_roundtrip [of "[sampleInput]" s "[]" "[]"] show ?thesis by simp
qed

text \<open>
  The comparison of two baselines, by their texts, is that of the files they name: whenever both can be
  written, the answer is whether the stored entries in source order are the (source, SHA-256, bytes) triples
  of the files in source order.
\<close>

theorem baselines_equal_iff:
  assumes "inputBaselinesEqual stored inputs = Inr b"
  shows "b \<longleftrightarrow> sort_key sb_source stored = sort_key sb_source (map storedOf inputs)"
proof -
  obtain x y where xy: "serializeStoredBaseline stored = Inr x" "serializeInputBaseline inputs = Inr y" "b \<longleftrightarrow> x = y"
    using assms by (auto simp: inputBaselinesEqual_def split: sum.splits)
  obtain bs where n: "normalizeBaseline inputs = Inr bs" and y: "checkedJson (baselineEnvelope bs) = Inr y"
    using xy(2) by (auto simp: serializeInputBaseline_def split: sum.splits)
  note bs = normalizeBaseline_Inr [OF n]
  have x: "checkedJson (baselineEnvelope (sort_key sb_source stored)) = Inr x" "list_all assertStoredBaseline stored"
    using xy(1) by (auto simp: serializeStoredBaseline_def split: if_splits)
  then have ok: "list_all assertStoredBaseline (sort_key sb_source stored)" by (simp add: list_all_iff)
  have "x = y \<longleftrightarrow> baselineEnvelope (sort_key sb_source stored) = baselineEnvelope bs"
    using x(1) y stringify_inject [OF plain_baseline [OF ok] plain_baseline [OF bs(1)]] unfolding checkedJson_Inr by blast
  also have "\<dots> \<longleftrightarrow> sort_key sb_source stored = bs"
  proof
    assume "baselineEnvelope (sort_key sb_source stored) = baselineEnvelope bs"
    then have "map storedJson (sort_key sb_source stored) = map storedJson bs" by (simp add: baselineEnvelope_def)
    with storedListOfJson_map [OF ok] storedListOfJson_map [OF bs(1)] show "sort_key sb_source stored = bs"
      by (metis option.inject)
  qed simp
  finally show ?thesis using xy(3) bs(4) by simp
qed

lemma baselines_equal_iff_witness:
  "inputBaselinesEqual [storedOf sampleInput] [sampleInput] = Inr True"
proof -
  obtain y where y: "serializeInputBaseline [sampleInput] = Inr y" using sample_serialized by blast
  then have "serializeStoredBaseline [storedOf sampleInput] = Inr y"
    by (auto simp: serializeInputBaseline_def sampleInput_normalized serializeStoredBaseline_def sampleInput_stored split: sum.splits)
  then have "inputBaselinesEqual [storedOf sampleInput] [sampleInput] = Inr b \<longleftrightarrow> b" for b
    using y by (simp add: inputBaselinesEqual_def)
  with baselines_equal_iff [of "[storedOf sampleInput]" "[sampleInput]"] show ?thesis by simp
qed

end
