(* ===== verification/ResultClassifier.thy ===== *)
theory ResultClassifier
  imports InputBaseline JobLog
begin

text \<open>
  \<open>src/executor/result-classifier.ts\<close>: what the result file of an attempt says. The parsed file is a
  JSON value; \<open>parseDate\<close> is \<open>Date.parse\<close> (\<open>None\<close> for NaN). The \<open>details\<close> of a classification are
  modelled as they are written, because they end up in the attempt's record.
\<close>

section \<open>Data\<close>

datatype attempt_outcome = Outcome status | LockConflict

datatype classification_kind = VALID_RESULT | INVALID_RESULT | NO_RESULT

record execution_result =
  er_executionId :: string
  er_resultCode :: string
  er_finishedAt :: string
  er_durationMs :: rat
  er_readCount :: int
  er_writtenCount :: int
  er_lastSuccessfulChunkNo :: "int option"
  er_lastWrittenKey :: "string option"
  er_errorMessage :: "string option"
  er_input_files :: "execution_file list option"
  er_output_files :: "execution_file list option"

record classification_context =
  cc_correlationId :: string
  cc_attemptId :: string
  cc_processExitCode :: "int option"

record result_classification =
  cl_kind :: classification_kind
  cl_attemptOutcome :: attempt_outcome
  cl_resultCode :: "string option"
  cl_details :: "string list"
  cl_result :: "execution_result option"
  cl_invocationResultCode :: "string option"

section \<open>Known result codes\<close>

definition KNOWN_RESULTS :: "(status \<times> int) jsmap" where
  "KNOWN_RESULTS = [(''OK'', (SUCCESS, 0)), (''NO_DATA'', (SUCCESS, 0)), (''VALIDATION_ERROR'', (FAILED, 1)),
     (''ASSERT_FAILED'', (FAILED, 2)), (''SQL_ERROR'', (FAILED, 1)), (''API_ERROR'', (FAILED, 3)),
     (''AUTH_ERROR'', (FAILED, 3)), (''EXECUTION_TIMEOUT'', (FAILED, 3)), (''LOCK_UNAVAILABLE'', (FAILED, 3)),
     (''INTERNAL_ERROR'', (FAILED, 3)), (''CANCELLED'', (CANCELLED, 3)), (''LOCK_CONFLICT'', (FAILED, 5))]"

text \<open>
  The names every object inherits: looked up in the table they give a value that is no entry, so that its
  \<open>status\<close> is \<open>undefined\<close> and agrees with none.
\<close>

definition inheritedNames :: "string list" where
  "inheritedNames = [''constructor'', ''__defineGetter__'', ''__defineSetter__'', ''hasOwnProperty'', ''__lookupGetter__'',
     ''__lookupSetter__'', ''isPrototypeOf'', ''propertyIsEnumerable'', ''toString'', ''valueOf'', ''__proto__'',
     ''toLocaleString'']"

definition isStatusExitCompatible :: "json option \<Rightarrow> int \<Rightarrow> bool" where
  "isStatusExitCompatible st exitCode =
     (if st = Some (JStr ''SUCCESS'') then exitCode = 0
      else if st = Some (JStr ''CANCELLED'') then exitCode = 3
      else exitCode \<in> {1, 2, 3, 5})"

section \<open>Shape\<close>

definition isSafeNumberJson :: "json option \<Rightarrow> bool" where
  "isSafeNumberJson v = (case v of Some (JNum r) \<Rightarrow> of_int \<lfloor>r\<rfloor> = r \<and> isSafeInteger \<lfloor>r\<rfloor> | _ \<Rightarrow> False)"

definition intOfJson :: "json option \<Rightarrow> int" where
  "intOfJson v = (case v of Some (JNum r) \<Rightarrow> \<lfloor>r\<rfloor> | _ \<Rightarrow> 0)"

definition isNonNegativeJson :: "json option \<Rightarrow> bool" where
  "isNonNegativeJson v \<longleftrightarrow> isSafeNumberJson v \<and> 0 \<le> intOfJson v"

text \<open>\<open>/T.*Z$/\<close> and \<open>/T.*(?:Z|[+-]\d{2}:\d{2})$/\<close>; a dot does not match a line terminator.\<close>

definition lineHasT :: "string \<Rightarrow> bool" where
  "lineHasT body \<longleftrightarrow> CHR ''T'' \<in> set (takeWhile (\<lambda>c. c \<noteq> CHR 0x0A \<and> c \<noteq> CHR 0x0D) (rev body))"

definition utcPattern :: "string \<Rightarrow> bool" where
  "utcPattern s \<longleftrightarrow> s \<noteq> [] \<and> last s = CHR ''Z'' \<and> lineHasT (butlast s)"

definition offsetSuffix :: "string \<Rightarrow> bool" where
  "offsetSuffix s = (case s of
     [sign, a, b, colon, c, d] \<Rightarrow> (sign = CHR ''+'' \<or> sign = CHR ''-'') \<and> isDigit a \<and> isDigit b \<and> colon = CHR '':'' \<and>
       isDigit c \<and> isDigit d
   | _ \<Rightarrow> False)"

definition offsetPattern :: "string \<Rightarrow> bool" where
  "offsetPattern s \<longleftrightarrow> utcPattern s \<or> (offsetSuffix (drop (length s - 6) s) \<and> lineHasT (take (length s - 6) s))"

definition isUtcIso :: "(string \<Rightarrow> int option) \<Rightarrow> json option \<Rightarrow> bool" where
  "isUtcIso parseDate v = (case v of Some (JStr s) \<Rightarrow> utcPattern s \<and> parseDate s \<noteq> None | _ \<Rightarrow> False)"

definition isOffsetIso :: "(string \<Rightarrow> int option) \<Rightarrow> json option \<Rightarrow> bool" where
  "isOffsetIso parseDate v = (case v of Some (JStr s) \<Rightarrow> offsetPattern s \<and> parseDate s \<noteq> None | _ \<Rightarrow> False)"

definition isBoolJson :: "json option \<Rightarrow> bool" where
  "isBoolJson v = (case v of Some (JBool _) \<Rightarrow> True | _ \<Rightarrow> False)"

definition isTextJson :: "json option \<Rightarrow> bool" where
  "isTextJson v = (case v of Some (JStr _) \<Rightarrow> True | _ \<Rightarrow> False)"

definition textOf :: "json option \<Rightarrow> string" where
  "textOf v = (case v of Some (JStr s) \<Rightarrow> s | _ \<Rightarrow> [])"

definition isExecutionError :: "json option \<Rightarrow> bool" where
  "isExecutionError v = (case v of
     Some (JObj fs) \<Rightarrow> isTextJson (mapGet fs ''category'') \<and> isTextJson (mapGet fs ''code'') \<and> isTextJson (mapGet fs ''message'') \<and>
       isBoolJson (mapGet fs ''retryable'') \<and> isBoolJson (mapGet fs ''detailsTruncated'')
   | _ \<Rightarrow> False)"

definition isReceipt :: "bool \<Rightarrow> string list \<Rightarrow> json \<Rightarrow> bool" where
  "isReceipt output names item = (case item of
     JObj _ \<Rightarrow> (output \<longrightarrow> hasOnlyKeys item [''name'', ''sha256'', ''bytes'', ''rows'', ''encoding'']) \<and>
       isTextJson (jsonGet item ''name'') \<and> isSafeSourceName (textOf (jsonGet item ''name'')) \<and>
       textOf (jsonGet item ''name'') \<notin> set names \<and>
       isTextJson (jsonGet item ''sha256'') \<and> isSha256 (textOf (jsonGet item ''sha256'')) \<and>
       isNonNegativeJson (jsonGet item ''bytes'') \<and> isNonNegativeJson (jsonGet item ''rows'') \<and>
       isTextJson (jsonGet item ''encoding'') \<and>
       (if output then textOf (jsonGet item ''encoding'') \<in> {''utf8'', ''sjis''}
        else isEncodingName (textOf (jsonGet item ''encoding'')))
   | _ \<Rightarrow> False)"

fun areReceipts :: "bool \<Rightarrow> string list \<Rightarrow> json list \<Rightarrow> bool" where
  "areReceipts output names [] = True"
| "areReceipts output names (item # items) =
     (isReceipt output names item \<and> areReceipts output (textOf (jsonGet item ''name'') # names) items)"

definition isExecutionFileReceipts :: "json \<Rightarrow> bool \<Rightarrow> bool" where
  "isExecutionFileReceipts v output = (case v of JArr items \<Rightarrow> areReceipts output [] items | _ \<Rightarrow> False)"

definition complain :: "bool \<Rightarrow> string \<Rightarrow> string list" where
  "complain ok message = (if ok then [] else [message])"

definition requireString :: "json \<Rightarrow> string \<Rightarrow> string list" where
  "requireString v field = complain (isTextJson (jsonGet v field) \<and> textOf (jsonGet v field) \<noteq> []) (field @ '' must be a non-empty string'')"

definition requireNonNegativeInteger :: "json \<Rightarrow> string \<Rightarrow> string list" where
  "requireNonNegativeInteger v field = complain (isNonNegativeJson (jsonGet v field)) (field @ '' must be a non-negative integer'')"

definition literalField :: "json \<Rightarrow> string \<Rightarrow> json \<Rightarrow> string list" where
  "literalField v field expected = complain (jsonGet v field = Some expected) (field @ '' must be '' @ textOfJson expected)"

definition validateFields :: "(string \<Rightarrow> int option) \<Rightarrow> json \<Rightarrow> string list" where
  "validateFields parseDate v =
     literalField v ''formatVersion'' (JNum 1) @
     literalField v ''kind'' (JStr ''EXECUTION_RESULT'') @
     literalField v ''contract'' (JStr ''ksql-flow.execution/v1'') @
     concat (map (requireString v) [''correlationId'', ''attemptId'', ''executionId'', ''jobId'', ''profile'', ''resultCode'',
       ''finishedAt'', ''ksqlFlowVersion'', ''engineVersion'']) @
     complain (case jsonGet v ''status'' of Some s \<Rightarrow> textOfJson s \<in> {''SUCCESS'', ''FAILED'', ''CANCELLED''} | None \<Rightarrow> False)
       ''status must be SUCCESS, FAILED, or CANCELLED'' @
     complain (isBoolJson (jsonGet v ''executionStarted'')) ''executionStarted must be boolean'' @
     complain (isSafeNumberJson (jsonGet v ''exitCode'')) ''exitCode must be an integer'' @
     complain (jsonGet v ''asOf'' = Some JNull \<or> isOffsetIso parseDate (jsonGet v ''asOf''))
       ''asOf must be an ISO-8601 timestamp or null'' @
     complain (jsonGet v ''startedAt'' = Some JNull \<or> isUtcIso parseDate (jsonGet v ''startedAt''))
       ''startedAt must be a UTC ISO-8601 timestamp or null'' @
     complain (isUtcIso parseDate (jsonGet v ''finishedAt'')) ''finishedAt must be a UTC ISO-8601 timestamp'' @
     complain (case jsonGet v ''durationMs'' of Some (JNum r) \<Rightarrow> 0 \<le> r | _ \<Rightarrow> False) ''durationMs must be non-negative''"

definition validateShape :: "(string \<Rightarrow> int option) \<Rightarrow> json \<Rightarrow> string list" where
  "validateShape parseDate v = (case v of
     JObj _ \<Rightarrow>
       validateFields parseDate v @
       concat (map (requireNonNegativeInteger v) [''readCount'', ''writtenCount'', ''deletedCount'', ''apiCalls'']) @
       complain (jsonGet v ''lastSuccessfulChunkNo'' = Some JNull \<or> isNonNegativeJson (jsonGet v ''lastSuccessfulChunkNo''))
         ''lastSuccessfulChunkNo must be a non-negative integer or null'' @
       complain (jsonGet v ''lastWrittenKey'' = Some JNull \<or> isTextJson (jsonGet v ''lastWrittenKey''))
         ''lastWrittenKey must be string or null'' @
       complain (jsonGet v ''error'' = Some JNull \<or> isExecutionError (jsonGet v ''error''))
         ''error must be a contract error object or null'' @
       complain (case jsonGet v ''input_files'' of None \<Rightarrow> True | Some f \<Rightarrow> isExecutionFileReceipts f False)
         ''input_files must contain safe input receipt entries'' @
       complain (case jsonGet v ''output_files'' of None \<Rightarrow> True | Some f \<Rightarrow> isExecutionFileReceipts f True)
         ''output_files must contain safe output receipt entries'' @
       complain (jsonGet v ''status'' = Some (JStr ''SUCCESS'') \<longrightarrow> jsonGet v ''error'' = Some JNull) ''SUCCESS requires error=null'' @
       complain (jsonGet v ''status'' \<noteq> Some (JStr ''SUCCESS'') \<longrightarrow> jsonGet v ''error'' \<noteq> Some JNull)
         ''non-success result requires an error object''
   | _ \<Rightarrow> [''result must be a JSON object''])"

section \<open>Classification\<close>

definition invalidResult :: "string list \<Rightarrow> result_classification" where
  "invalidResult details = \<lparr> cl_kind = INVALID_RESULT, cl_attemptOutcome = Outcome UNKNOWN, cl_resultCode = None,
     cl_details = details, cl_result = None, cl_invocationResultCode = Some ''INVALID_EXECUTION_RESULT'' \<rparr>"

definition noResult :: "string \<Rightarrow> result_classification" where
  "noResult detail = \<lparr> cl_kind = NO_RESULT, cl_attemptOutcome = Outcome UNKNOWN, cl_resultCode = None,
     cl_details = [detail], cl_result = None, cl_invocationResultCode = Some NO_EXECUTION_RESULT \<rparr>"

text \<open>The validated value as an \<open>ExecutionResult\<close>.\<close>

definition receiptOfJson :: "json \<Rightarrow> execution_file" where
  "receiptOfJson item = \<lparr> ef_name = textOf (jsonGet item ''name''), ef_sha256 = textOf (jsonGet item ''sha256''),
     ef_bytes = intOfJson (jsonGet item ''bytes''), ef_rows = intOfJson (jsonGet item ''rows''),
     ef_encoding = textOf (jsonGet item ''encoding'') \<rparr>"

definition receiptsOfJson :: "json option \<Rightarrow> execution_file list option" where
  "receiptsOfJson v = (case v of Some (JArr items) \<Rightarrow> Some (map receiptOfJson items) | _ \<Rightarrow> None)"

definition executionResultOf :: "json \<Rightarrow> execution_result" where
  "executionResultOf v = \<lparr> er_executionId = textOf (jsonGet v ''executionId''), er_resultCode = textOf (jsonGet v ''resultCode''),
     er_finishedAt = textOf (jsonGet v ''finishedAt''),
     er_durationMs = (case jsonGet v ''durationMs'' of Some (JNum r) \<Rightarrow> r | _ \<Rightarrow> 0),
     er_readCount = intOfJson (jsonGet v ''readCount''), er_writtenCount = intOfJson (jsonGet v ''writtenCount''),
     er_lastSuccessfulChunkNo = (case jsonGet v ''lastSuccessfulChunkNo'' of Some (JNum r) \<Rightarrow> Some \<lfloor>r\<rfloor> | _ \<Rightarrow> None),
     er_lastWrittenKey = (case jsonGet v ''lastWrittenKey'' of Some (JStr s) \<Rightarrow> Some s | _ \<Rightarrow> None),
     er_errorMessage = (case jsonGet v ''error'' of Some (JObj fs) \<Rightarrow> Some (textOf (mapGet fs ''message'')) | _ \<Rightarrow> None),
     er_input_files = receiptsOfJson (jsonGet v ''input_files''),
     er_output_files = receiptsOfJson (jsonGet v ''output_files'') \<rparr>"

definition knownMismatch :: "string \<Rightarrow> json option \<Rightarrow> int \<Rightarrow> string list" where
  "knownMismatch resultCode st exitCode = (case mapGet KNOWN_RESULTS resultCode of
     Some (s, e) \<Rightarrow> complain (st = Some (JStr (statusText s)) \<and> e = exitCode)
       ''status/resultCode/exitCode combination is inconsistent''
   | None \<Rightarrow>
       if resultCode \<in> set inheritedNames then [''status/resultCode/exitCode combination is inconsistent'']
       else complain (isStatusExitCompatible st exitCode) ''unknown resultCode has an inconsistent status/exitCode'')"

definition consistencyErrors :: "json \<Rightarrow> classification_context \<Rightarrow> string list" where
  "consistencyErrors v c =
     (let st = jsonGet v ''status''; resultCode = textOf (jsonGet v ''resultCode''); exitCode = intOfJson (jsonGet v ''exitCode'') in
      complain (jsonGet v ''correlationId'' = Some (JStr (cc_correlationId c))) ''correlationId does not echo the invocation value'' @
      complain (jsonGet v ''attemptId'' = Some (JStr (cc_attemptId c))) ''attemptId does not echo the invocation value'' @
      complain (cc_processExitCode c = Some exitCode) ''result exitCode does not match process exit code'' @
      knownMismatch resultCode st exitCode @
      complain ((resultCode = ''VALIDATION_ERROR'' \<or> resultCode = ''LOCK_CONFLICT'') \<longrightarrow>
          jsonGet v ''executionStarted'' = Some (JBool False)) (resultCode @ '' requires executionStarted=false'') @
      complain (st = Some (JStr ''SUCCESS'') \<longrightarrow> jsonGet v ''executionStarted'' = Some (JBool True))
        ''SUCCESS requires executionStarted=true'')"

definition classifyResult :: "(string \<Rightarrow> int option) \<Rightarrow> json \<Rightarrow> classification_context \<Rightarrow> result_classification" where
  "classifyResult parseDate v c =
     (let errors = validateShape parseDate v in
      if errors \<noteq> [] then invalidResult errors
      else let errors = consistencyErrors v c in
      if errors \<noteq> [] then invalidResult errors
      else let resultCode = textOf (jsonGet v ''resultCode'') in
       \<lparr> cl_kind = VALID_RESULT,
         cl_attemptOutcome =
           (if resultCode = ''LOCK_CONFLICT'' then LockConflict
            else if jsonGet v ''status'' = Some (JStr ''SUCCESS'') then Outcome SUCCESS
            else if jsonGet v ''status'' = Some (JStr ''CANCELLED'') then Outcome CANCELLED
            else Outcome FAILED),
         cl_resultCode = Some resultCode, cl_details = [], cl_result = Some (executionResultOf v),
         cl_invocationResultCode = (if resultCode = ''LOCK_CONFLICT'' then Some ''LOCK_CONFLICT'' else None) \<rparr>)"

text \<open>\<open>reader\<close> reads the file of the path, and may throw.\<close>

definition readAndClassifyResult ::
  "(string \<Rightarrow> int option) \<Rightarrow> (string \<Rightarrow> ('s, string) prog) \<Rightarrow> string \<Rightarrow> classification_context \<Rightarrow>
   ('s, result_classification) prog" where
  "readAndClassifyResult parseDate reader path c =
     bindP (attemptP (reader path)) (\<lambda>r. retP (case r of
       Inl _ \<Rightarrow> noResult ''result file does not exist or could not be read''
     | Inr source \<Rightarrow>
         (case parseJson source of
            None \<Rightarrow> noResult ''result file is not complete JSON''
          | Some v \<Rightarrow> classifyResult parseDate v c)))"

section \<open>Properties\<close>

lemma complain_Nil [simp]: "complain ok message = [] \<longleftrightarrow> ok"
  by (simp add: complain_def)

lemma knownMismatch_Nil:
  assumes "knownMismatch resultCode st exitCode = []"
  shows "st = Some (JStr ''SUCCESS'') \<longleftrightarrow> exitCode = 0"
    and "st = Some (JStr ''CANCELLED'') \<longrightarrow> exitCode = 3"
    and "resultCode = ''LOCK_CONFLICT'' \<longrightarrow> st = Some (JStr ''FAILED'') \<and> exitCode = 5"
  using assms
  by (auto simp: knownMismatch_def KNOWN_RESULTS_def isStatusExitCompatible_def split: if_splits option.splits)

lemma classified:
  assumes "cl_attemptOutcome (classifyResult parseDate v c) \<noteq> Outcome UNKNOWN"
  shows "validateShape parseDate v = []" "consistencyErrors v c = []"
  using assms by (auto simp: classifyResult_def invalidResult_def Let_def split: if_splits)

lemma shape_error: "validateShape parseDate v = [] \<Longrightarrow> jsonGet v ''status'' = Some (JStr ''SUCCESS'') \<Longrightarrow> jsonGet v ''error'' = Some JNull"
  by (simp add: validateShape_def split: json.splits)

lemma classified_result_is_backed_facts:
  assumes run: "readAndClassifyResult parseDate reader path c s = (Inr r, t)"
    and verdict: "cl_attemptOutcome r \<noteq> Outcome UNKNOWN"
  shows "\<exists>source v code. reader path s = (Inr source, t) \<and> parseJson source = Some v \<and>
     jsonGet v ''correlationId'' = Some (JStr (cc_correlationId c)) \<and>
     jsonGet v ''attemptId'' = Some (JStr (cc_attemptId c)) \<and> cc_processExitCode c = Some code \<and>
     (cl_attemptOutcome r = Outcome SUCCESS \<longleftrightarrow> code = 0) \<and>
     (cl_attemptOutcome r = Outcome SUCCESS \<longrightarrow>
        jsonGet v ''executionStarted'' = Some (JBool True) \<and> jsonGet v ''error'' = Some JNull) \<and>
     (cl_attemptOutcome r = Outcome CANCELLED \<longrightarrow> code = 3) \<and>
     (cl_attemptOutcome r = LockConflict \<longrightarrow> code = 5 \<and> jsonGet v ''executionStarted'' = Some (JBool False))"
proof -
  obtain q t' where q: "reader path s = (q, t')" by fastforce
  then have t: "t' = t" using run by (simp add: readAndClassifyResult_def bindP_run)
  obtain source v where v: "q = Inr source" "parseJson source = Some v" "r = classifyResult parseDate v c"
    using run verdict q by (auto simp: readAndClassifyResult_def bindP_run noResult_def split: sum.splits option.splits)
  note ok = classified [OF verdict [unfolded v(3)]]
  define code where "code = intOfJson (jsonGet v ''exitCode'')"
  define st where "st = jsonGet v ''status''"
  define rc where "rc = textOf (jsonGet v ''resultCode'')"
  have c: "jsonGet v ''correlationId'' = Some (JStr (cc_correlationId c))" "jsonGet v ''attemptId'' = Some (JStr (cc_attemptId c))"
    "cc_processExitCode c = Some code" "knownMismatch rc st code = []"
    "rc = ''LOCK_CONFLICT'' \<longrightarrow> jsonGet v ''executionStarted'' = Some (JBool False)"
    "st = Some (JStr ''SUCCESS'') \<longrightarrow> jsonGet v ''executionStarted'' = Some (JBool True)"
    using ok(2) by (simp_all add: consistencyErrors_def Let_def code_def st_def rc_def)
  note known = knownMismatch_Nil [OF c(4)]
  have outcome: "cl_attemptOutcome r = (if rc = ''LOCK_CONFLICT'' then LockConflict else if st = Some (JStr ''SUCCESS'') then Outcome SUCCESS
      else if st = Some (JStr ''CANCELLED'') then Outcome CANCELLED else Outcome FAILED)"
    using ok by (simp add: v(3) classifyResult_def Let_def st_def rc_def)
  have error: "st = Some (JStr ''SUCCESS'') \<longrightarrow> jsonGet v ''error'' = Some JNull"
    using shape_error [OF ok(1)] by (simp add: st_def)
  show ?thesis
    by (rule exI [of _ source], rule exI [of _ v], rule exI [of _ code]) (use q t v c known outcome error in auto)
qed

text \<open>
  C28: A verdict on an attempt other than UNKNOWN is backed by the runner: the result file could be read and is
  complete JSON, it echoes the run and the attempt it was started for and the exit code of the process; the attempt
  succeeded exactly if that exit code is 0, and then the result says that execution started and names no error; a
  cancellation has exit code 3, and a lock conflict exit code 5 with no execution started.
\<close>

theorem classified_result_is_backed:
  assumes run: "readAndClassifyResult parseDate reader path c s = (Inr r, t)"
    and verdict: "cl_attemptOutcome r \<noteq> Outcome UNKNOWN"
  shows "\<exists>source v code. reader path s = (Inr source, t) \<and> parseJson source = Some v \<and>
     jsonGet v ''correlationId'' = Some (JStr (cc_correlationId c)) \<and>
     jsonGet v ''attemptId'' = Some (JStr (cc_attemptId c)) \<and> cc_processExitCode c = Some code \<and>
     (cl_attemptOutcome r = Outcome SUCCESS \<longleftrightarrow> code = 0) \<and>
     (cl_attemptOutcome r = Outcome SUCCESS \<longrightarrow>
        jsonGet v ''executionStarted'' = Some (JBool True) \<and> jsonGet v ''error'' = Some JNull) \<and>
     (cl_attemptOutcome r = Outcome CANCELLED \<longrightarrow> code = 3) \<and>
     (cl_attemptOutcome r = LockConflict \<longrightarrow> code = 5 \<and> jsonGet v ''executionStarted'' = Some (JBool False))"
  by (rule classified_result_is_backed_facts [OF assms])

definition sampleResult :: json where
  "sampleResult = JObj [(''formatVersion'', JNum 1), (''kind'', JStr ''EXECUTION_RESULT''),
     (''contract'', JStr ''ksql-flow.execution/v1''), (''correlationId'', JStr ''run1''), (''attemptId'', JStr ''attempt_1''),
     (''executionId'', JStr ''e1''), (''jobId'', JStr ''j1''), (''profile'', JStr ''prod''), (''status'', JStr ''SUCCESS''),
     (''resultCode'', JStr ''OK''), (''executionStarted'', JBool True), (''exitCode'', JNum 0), (''asOf'', JNull),
     (''startedAt'', JNull), (''finishedAt'', JStr ''2026-01-01T00:00:00Z''), (''durationMs'', JNum 1500),
     (''readCount'', JNum 1), (''writtenCount'', JNum 1), (''deletedCount'', JNum 0), (''apiCalls'', JNum 2),
     (''lastSuccessfulChunkNo'', JNull), (''lastWrittenKey'', JNull), (''ksqlFlowVersion'', JStr ''1''),
     (''engineVersion'', JStr ''1''), (''error'', JNull)]"

definition sampleContext :: classification_context where
  "sampleContext = \<lparr> cc_correlationId = ''run1'', cc_attemptId = ''attempt_1'', cc_processExitCode = Some 0 \<rparr>"

lemma sampleResult_plain: "plain_json sampleResult"
  by (simp add: sampleResult_def doubleLimit_def)

lemma sampleResult_fields:
  "jsonGet sampleResult ''formatVersion'' = Some (JNum 1)" "jsonGet sampleResult ''kind'' = Some (JStr
  ''EXECUTION_RESULT'')" "jsonGet sampleResult ''contract'' = Some (JStr ''ksql-flow.execution/v1'')" "jsonGet
  sampleResult ''correlationId'' = Some (JStr ''run1'')" "jsonGet sampleResult ''attemptId'' = Some (JStr
  ''attempt_1'')" "jsonGet sampleResult ''executionId'' = Some (JStr ''e1'')" "jsonGet sampleResult ''jobId'' = Some
  (JStr ''j1'')" "jsonGet sampleResult ''profile'' = Some (JStr ''prod'')" "jsonGet sampleResult ''status'' = Some
  (JStr ''SUCCESS'')" "jsonGet sampleResult ''resultCode'' = Some (JStr ''OK'')" "jsonGet sampleResult
  ''executionStarted'' = Some (JBool True)" "jsonGet sampleResult ''exitCode'' = Some (JNum 0)" "jsonGet sampleResult
  ''asOf'' = Some JNull" "jsonGet sampleResult ''startedAt'' = Some JNull" "jsonGet sampleResult ''finishedAt'' = Some
  (JStr ''2026-01-01T00:00:00Z'')" "jsonGet sampleResult ''durationMs'' = Some (JNum 1500)" "jsonGet sampleResult
  ''readCount'' = Some (JNum 1)" "jsonGet sampleResult ''writtenCount'' = Some (JNum 1)" "jsonGet sampleResult
  ''deletedCount'' = Some (JNum 0)" "jsonGet sampleResult ''apiCalls'' = Some (JNum 2)" "jsonGet sampleResult
  ''lastSuccessfulChunkNo'' = Some JNull" "jsonGet sampleResult ''lastWrittenKey'' = Some JNull" "jsonGet sampleResult
  ''ksqlFlowVersion'' = Some (JStr ''1'')" "jsonGet sampleResult ''engineVersion'' = Some (JStr ''1'')" "jsonGet
  sampleResult ''error'' = Some JNull"
  "jsonGet sampleResult ''input_files'' = None" "jsonGet sampleResult ''output_files'' = None"
  by (simp_all add: sampleResult_def jsonGet_def)

lemma sampleResult_dates: "utcPattern ''2026-01-01T00:00:00Z''"
  by (simp add: utcPattern_def lineHasT_def)

lemma sampleResult_shape: "validateShape (\<lambda>_. Some 0) sampleResult = []"
proof -
  have "validateFields (\<lambda>_. Some 0) sampleResult = []"
    by (simp add: validateFields_def literalField_def requireString_def sampleResult_fields isTextJson_def textOf_def
        isBoolJson_def isSafeNumberJson_def isSafeInteger_def isUtcIso_def sampleResult_dates textOfJson_def)
  moreover have "(case sampleResult of JObj _ \<Rightarrow> a | _ \<Rightarrow> b) = a" for a b :: "string list" by (simp add: sampleResult_def)
  ultimately show ?thesis
    by (simp add: validateShape_def sampleResult_fields requireNonNegativeInteger_def isNonNegativeJson_def isSafeNumberJson_def isSafeInteger_def intOfJson_def)
qed

lemma sampleResult_valid: "cl_attemptOutcome (classifyResult (\<lambda>_. Some 0) sampleResult sampleContext) = Outcome SUCCESS"
proof -
  have "consistencyErrors sampleResult sampleContext = []"
    by (simp add: consistencyErrors_def knownMismatch_def KNOWN_RESULTS_def textOf_def intOfJson_def sampleResult_fields
        sampleContext_def)
  moreover have "textOf (jsonGet sampleResult ''resultCode'') = ''OK''" by (simp add: textOf_def sampleResult_fields)
  ultimately show ?thesis using sampleResult_shape by (simp add: classifyResult_def Let_def sampleResult_fields)
qed

lemma classified_result_is_backed_witness:
  "\<exists>r. readAndClassifyResult (\<lambda>_. Some 0) (\<lambda>_. retP (stringify sampleResult)) ''r.json'' sampleContext () = (Inr r, ()) \<and>
     cl_attemptOutcome r = Outcome SUCCESS \<and> cc_processExitCode sampleContext = Some 0"
proof -
  let ?r = "classifyResult (\<lambda>_. Some 0) sampleResult sampleContext"
  have run: "readAndClassifyResult (\<lambda>_. Some 0) (\<lambda>_. retP (stringify sampleResult)) ''r.json'' sampleContext () = (Inr ?r, ())"
    by (simp add: readAndClassifyResult_def bindP_run parse_after_stringify [OF sampleResult_plain])
  have "cl_attemptOutcome ?r \<noteq> Outcome UNKNOWN" by (simp add: sampleResult_valid)
  from classified_result_is_backed [OF run this] sampleResult_valid run show ?thesis by auto
qed

end
