(* ===== verification/AttemptExecutor.thy ===== *)
theory AttemptExecutor
  imports ResultClassifier Repository
begin

text \<open>
  \<open>src/executor/attempt-executor.ts\<close>: one attempt, from the durable start marker over the subprocess
  to the terminal records. The subprocess runner, the reader of its result file and the job log
  are the programs the code is given. \<open>runControlPlaneOperation\<close>, a polymorphic callback, is the
  record of its three instances.
\<close>

section \<open>Data\<close>

record executor_input =
  ei_attempt :: "node_attempt versioned"
  ei_nodeState :: "node_state versioned"
  ei_sqlPath :: string
  ei_profile :: string
  ei_configPath :: string
  ei_asOf :: string
  ei_correlationId :: string
  ei_attemptId :: string
  ei_expectedJobId :: string
  ei_imports :: "input_baseline list"
  ei_exports :: "(string \<times> string) list"
  ei_executionStartedAt :: string

record subprocess_result =
  sp_exitCode :: "int option"
  sp_stdout :: string
  sp_stderr :: string
  sp_resultJsonPath :: string
  sp_timedOut :: bool
  sp_forced :: bool
  sp_launchFailureConfirmed :: bool

record execution_outcome =
  eo_classification :: result_classification
  eo_process :: subprocess_result
  eo_attempt :: "node_attempt versioned"
  eo_nodeState :: "node_state versioned"
  eo_invocationResultCode :: "string option"

text \<open>A lookup of the marker: \<open>undefined\<close> when it failed, \<open>null\<close> when there is none.\<close>

type_synonym marker_lookup = "job_log_marker option option"

record 's control_plane =
  cp_marker :: "('s, marker_lookup) prog \<Rightarrow> ('s, marker_lookup) prog"
  cp_attempt :: "('s, node_attempt versioned) prog \<Rightarrow> ('s, node_attempt versioned) prog"
  cp_state :: "('s, node_state versioned) prog \<Rightarrow> ('s, node_state versioned) prog"

record 's attempt_executor =
  ax_repository :: "'s repository"
  ax_run :: "executor_input \<Rightarrow> ('s, subprocess_result) prog"
  ax_findExecutionStarted :: "job_log_lookup \<Rightarrow> ('s, job_log_marker option) prog"
  ax_reader :: "string \<Rightarrow> ('s, string) prog"
  ax_now :: "('s, string) prog"
  ax_parseDate :: "string \<Rightarrow> int option"
  ax_collate :: "string \<Rightarrow> string \<Rightarrow> bool"

section \<open>Receipts\<close>

definition prepared :: "executor_input \<Rightarrow> bool" where
  "prepared i \<longleftrightarrow> na_status (content (ei_attempt i)) = RUNNING \<and> ns_status (content (ei_nodeState i)) = RUNNING \<and>
     ns_active_attempt_id (content (ei_nodeState i)) = Some (na_node_attempt_id (content (ei_attempt i))) \<and>
     na_node_attempt_id (content (ei_attempt i)) = ei_attemptId i"

definition tripleJson :: "string \<Rightarrow> string \<Rightarrow> int \<Rightarrow> json" where
  "tripleJson name sha bytes = JObj [(''name'', JStr name), (''sha256'', JStr sha), (''bytes'', jsonInt bytes)]"

definition rejected :: "string \<Rightarrow> string \<Rightarrow> result_classification" where
  "rejected detail code = (invalidResult [detail])\<lparr> cl_invocationResultCode := Some code \<rparr>"

text \<open>Lines 103 to 127: the runner read exactly the files of the baseline.\<close>

definition checkInputs :: "(string \<Rightarrow> string \<Rightarrow> bool) \<Rightarrow> input_baseline list \<Rightarrow> result_classification \<Rightarrow> result_classification" where
  "checkInputs collate imports c =
     (if cl_kind c = VALID_RESULT \<and> imports \<noteq> [] then
        (let receipts = (case cl_result c of None \<Rightarrow> None | Some r \<Rightarrow> er_input_files r);
             actual = map (\<lambda>f. tripleJson (ef_name f) (ef_sha256 f) (ef_bytes f))
               (sortBy (\<lambda>a b. collate (ef_name a) (ef_name b)) (case receipts of None \<Rightarrow> [] | Some fs \<Rightarrow> fs));
             expected = map (\<lambda>i. tripleJson (ib_name i) (ib_sha256 i) (ib_bytes i))
               (sortBy (\<lambda>a b. collate (ib_name a) (ib_name b)) imports)
         in if receipts = None \<or> stringify (JArr actual) \<noteq> stringify (JArr expected)
            then rejected ''input_files does not match the preflight input baseline'' ''INVALID_EXECUTION_RESULT''
            else c)
      else c)"

fun indexOf :: "string list \<Rightarrow> string \<Rightarrow> int" where
  "indexOf [] x = - 1"
| "indexOf (y # ys) x = (if x = y then 0 else let i = indexOf ys x in if i < 0 then - 1 else i + 1)"

fun namesInOrder :: "string list \<Rightarrow> int \<Rightarrow> string list \<Rightarrow> bool" where
  "namesInOrder expected previous [] = True"
| "namesInOrder expected previous (n # ns) =
     (let i = indexOf expected n in
      if i < 0 \<or> i \<le> previous then False else namesInOrder expected i ns)"

text \<open>Lines 128 to 168: the runner wrote only configured sinks.\<close>

definition checkOutputs :: "(string \<times> string) list \<Rightarrow> result_classification \<Rightarrow> result_classification" where
  "checkOutputs exports c =
     (let receipts = (case cl_result c of None \<Rightarrow> None | Some r \<Rightarrow> er_output_files r) in
      if cl_kind c = VALID_RESULT \<and> exports \<noteq> [] then
        (if receipts = None \<or> \<not> namesInOrder (sort (map fst exports)) (- 1)
              (map ef_name (case receipts of None \<Rightarrow> [] | Some fs \<Rightarrow> fs))
         then rejected ''output_files does not match the configured export sinks'' ''INVALID_EXECUTION_RESULT''
         else c)
      else if cl_kind c = VALID_RESULT \<and> (case receipts of None \<Rightarrow> False | Some fs \<Rightarrow> fs \<noteq> [])
      then rejected ''output_files contains an unconfigured export sink'' ''INVALID_EXECUTION_RESULT''
      else c)"

text \<open>Lines 170 to 181.\<close>

definition checkForced :: "bool \<Rightarrow> result_classification \<Rightarrow> result_classification" where
  "checkForced forced c =
     (if forced then rejected ''process exceeded its grace period and was forcibly terminated'' ''FORCED_TERMINATION'' else c)"

section \<open>The terminal records\<close>

text \<open>Lines 189 to 226: statuses of attempt and node, result code, and the code of the invocation.\<close>

record attempt_decision =
  dc_terminalStatus :: status
  dc_resultCode :: string
  dc_stateStatus :: status
  dc_invocationCode :: "string option"

definition decideAttempt ::
  "result_classification \<Rightarrow> bool \<Rightarrow> bool \<Rightarrow> string option \<Rightarrow> marker_lookup \<Rightarrow> attempt_decision" where
  "decideAttempt c forced launchFailure orchestratorStartedAt marker =
     (let runnerStartedAt = (case marker of Some (Some m) \<Rightarrow> jm_runnerExecutionStartedAt m | _ \<Rightarrow> None) in
      if cl_kind c = VALID_RESULT then
        (case cl_attemptOutcome c of
           LockConflict \<Rightarrow> \<lparr> dc_terminalStatus = CANCELLED, dc_resultCode = ''PREPARE_FAILED'', dc_stateStatus = WAITING,
             dc_invocationCode = cl_invocationResultCode c \<rparr>
         | Outcome st \<Rightarrow> \<lparr> dc_terminalStatus = st, dc_resultCode = orElse (cl_resultCode c) [], dc_stateStatus = st,
             dc_invocationCode = cl_invocationResultCode c \<rparr>)
      else if decideMissingResult orchestratorStartedAt runnerStartedAt (launchFailure \<and> marker \<noteq> None) = NOT_EXECUTED
      then \<lparr> dc_terminalStatus = CANCELLED, dc_resultCode = ''PREPARE_FAILED'', dc_stateStatus = WAITING,
             dc_invocationCode = Some (orElse (cl_invocationResultCode c) ''PREPARE_FAILED'') \<rparr>
      else \<lparr> dc_terminalStatus = UNKNOWN,
             dc_resultCode = (if forced then ''FORCED_TERMINATION''
               else if cl_kind c = NO_RESULT then NO_EXECUTION_RESULT else ''INVALID_EXECUTION_RESULT''),
             dc_stateStatus = UNKNOWN, dc_invocationCode = cl_invocationResultCode c \<rparr>)"

definition auditSummary ::
  "input_baseline list \<Rightarrow> (string \<times> string) list \<Rightarrow> execution_result option \<Rightarrow> string list \<Rightarrow> js_error + string option" where
  "auditSummary imports exports result details =
     (case result of
        Some r \<Rightarrow>
          if imports \<noteq> [] \<and> exports \<noteq> [] then
            (case serializeIoAuditSummary imports (orElse (er_input_files r) []) (orElse (er_output_files r) []) of
               Inl e \<Rightarrow> Inl e | Inr s \<Rightarrow> Inr (Some s))
          else if exports \<noteq> [] then
            (case serializeOutputAuditSummary (orElse (er_output_files r) []) of Inl e \<Rightarrow> Inl e | Inr s \<Rightarrow> Inr (Some s))
          else if imports \<noteq> [] then
            (case (case er_input_files r of None \<Rightarrow> serializeInputBaseline imports
                   | Some fs \<Rightarrow> serializeInputAuditSummary imports fs) of
               Inl e \<Rightarrow> Inl e | Inr s \<Rightarrow> Inr (Some s))
          else Inr (case er_errorMessage r of Some m \<Rightarrow> Some m
                    | None \<Rightarrow> (let d = joinText ''; '' details in if d = [] then None else Some d))
      | None \<Rightarrow>
          if imports \<noteq> [] then (case serializeInputBaseline imports of Inl e \<Rightarrow> Inl e | Inr s \<Rightarrow> Inr (Some s))
          else Inr (let d = joinText ''; '' details in if d = [] then None else Some d))"

definition attemptFinalization ::
  "attempt_decision \<Rightarrow> marker_lookup \<Rightarrow> execution_result option \<Rightarrow> string \<Rightarrow> string option \<Rightarrow> attempt_finalization" where
  "attemptFinalization d marker result finishedAt message = \<lparr> af_status = dc_terminalStatus d, af_result_code = dc_resultCode d,
     af_runner_execution_started_at = (case marker of Some (Some m) \<Rightarrow> jm_runnerExecutionStartedAt m | _ \<Rightarrow> None),
     af_execution_id = (case result of Some r \<Rightarrow> Some (er_executionId r)
       | None \<Rightarrow> (case marker of Some (Some m) \<Rightarrow> jm_executionId m | _ \<Rightarrow> None)),
     af_finished_at = finishedAt,
     af_duration_sec = (case result of Some r \<Rightarrow> Some (er_durationMs r / 1000) | None \<Rightarrow> None),
     af_error_message = message,
     af_read_count = (case result of Some r \<Rightarrow> er_readCount r | None \<Rightarrow> 0),
     af_written_count = (case result of Some r \<Rightarrow> er_writtenCount r | None \<Rightarrow> 0),
     af_last_successful_chunk_no = (case result of Some r \<Rightarrow> er_lastSuccessfulChunkNo r | None \<Rightarrow> None),
     af_last_written_key = (case result of Some r \<Rightarrow> er_lastWrittenKey r | None \<Rightarrow> None) \<rparr>"

definition finishedState :: "node_state \<Rightarrow> attempt_decision \<Rightarrow> string \<Rightarrow> node_state" where
  "finishedState v d finishedAt = (let waiting = dc_stateStatus d = WAITING in v\<lparr>
     ns_status := dc_stateStatus d, ns_active_attempt_id := None,
     ns_status_reason := Some (if waiting then ''PREPARE_FAILED'' else dc_resultCode d),
     ns_started_at := (if waiting then None else ns_started_at v),
     ns_finished_at := (if waiting then None else Some finishedAt), ns_updated_at := finishedAt \<rparr>)"

section \<open>Execution\<close>

definition identityControlPlane :: "'s control_plane" where
  "identityControlPlane = \<lparr> cp_marker = id, cp_attempt = id, cp_state = id \<rparr>"

definition readMarker :: "'s attempt_executor \<Rightarrow> string \<Rightarrow> string option \<Rightarrow> ('s, marker_lookup) prog" where
  "readMarker x attemptId executionId =
     catchP (bindP (ax_findExecutionStarted x \<lparr> jo_attemptId = attemptId, jo_executionId = executionId \<rparr>) (\<lambda>m. retP (Some m)))
       (\<lambda>error. case error of
          KintoneTransportError \<Rightarrow> throwP error
        | KintoneApiError _ _ \<Rightarrow> throwP error
        | _ \<Rightarrow> retP None)"

definition classifyRun :: "'s attempt_executor \<Rightarrow> executor_input \<Rightarrow> subprocess_result \<Rightarrow> ('s, result_classification) prog" where
  "classifyRun x i process =
     bindP (readAndClassifyResult (ax_parseDate x) (ax_reader x) (sp_resultJsonPath process)
        \<lparr> cc_correlationId = ei_correlationId i, cc_attemptId = ei_attemptId i, cc_processExitCode = sp_exitCode process \<rparr>) (\<lambda>c.
     retP (checkForced (sp_forced process) (checkOutputs (ei_exports i) (checkInputs (ax_collate x) (ei_imports i) c))))"

text \<open>Lines 228 to 278: the writes, if the lease permits them.\<close>

definition writeOutcome ::
  "'s attempt_executor \<Rightarrow> 's control_plane \<Rightarrow> executor_input \<Rightarrow> node_attempt versioned \<Rightarrow> subprocess_result \<Rightarrow>
   result_classification \<Rightarrow> marker_lookup \<Rightarrow> attempt_decision \<Rightarrow> string \<Rightarrow> ('s, execution_outcome) prog" where
  "writeOutcome x cp i started process c marker d finishedAt =
     bindP (cp_attempt cp (bindP (liftP (auditSummary (ei_imports i) (ei_exports i) (cl_result c) (cl_details c))) (\<lambda>message.
       finalizeAttempt (ax_repository x) (na_node_attempt_id (content started)) (revision started)
         (attemptFinalization d marker (cl_result c) finishedAt message)))) (\<lambda>attempt.
     bindP (cp_state cp (upsertNodeState (ax_repository x) \<lparr> nw_value = finishedState (content (ei_nodeState i)) d finishedAt,
       nw_expected_revision = Some (revision (ei_nodeState i)), nw_resolution_event = None \<rparr>)) (\<lambda>nodeState.
     retP \<lparr> eo_classification = c, eo_process = process, eo_attempt = attempt, eo_nodeState = nodeState,
       eo_invocationResultCode = dc_invocationCode d \<rparr>))"

definition persistOutcome ::
  "'s attempt_executor \<Rightarrow> 's control_plane \<Rightarrow> ('s, bool) prog option \<Rightarrow> executor_input \<Rightarrow> node_attempt versioned \<Rightarrow>
   subprocess_result \<Rightarrow> result_classification \<Rightarrow> marker_lookup \<Rightarrow> ('s, execution_outcome) prog" where
  "persistOutcome x cp authorize i started process c marker =
     bindP (case cl_result c of Some r \<Rightarrow> retP (er_finishedAt r) | None \<Rightarrow> ax_now x) (\<lambda>finishedAt.
     bindP (case authorize of None \<Rightarrow> retP True | Some a \<Rightarrow> a) (\<lambda>authorized.
     if \<not> authorized then throwP (CodedError ''NETWORK_LEASE_INTERRUPTED'')
     else writeOutcome x cp i started process c marker
       (decideAttempt c (sp_forced process) (sp_launchFailureConfirmed process) (na_execution_started_at (content started)) marker)
       finishedAt))"

definition executeAttempt ::
  "'s attempt_executor \<Rightarrow> 's control_plane \<Rightarrow> ('s, bool) prog option \<Rightarrow> executor_input \<Rightarrow> ('s, execution_outcome) prog" where
  "executeAttempt x cp authorize i =
     (if \<not> prepared i then throwP (PlainError ''Error'')
      else bindP (setAttemptExecutionStarted (ax_repository x) (na_node_attempt_id (content (ei_attempt i)))
             (revision (ei_attempt i)) (ei_executionStartedAt i)) (\<lambda>started.
           bindP (ax_run x i) (\<lambda>process.
           bindP (classifyRun x i process) (\<lambda>c.
           bindP (cp_marker cp (readMarker x (ei_attemptId i)
              (case cl_result c of Some r \<Rightarrow> Some (er_executionId r) | None \<Rightarrow> None))) (\<lambda>marker.
           persistOutcome x cp authorize i started process c marker)))))"

section \<open>What an execution relies on\<close>

text \<open>A result of the control plane is the result of one run of the operation.\<close>

definition retries :: "(('s, 'a) prog \<Rightarrow> ('s, 'a) prog) \<Rightarrow> bool" where
  "retries cp \<longleftrightarrow> (\<forall>op s x t. cp op s = (Inr x, t) \<longrightarrow> (\<exists>u u'. op u = (Inr x, u')))"

definition retrying :: "'s control_plane \<Rightarrow> bool" where
  "retrying cp \<longleftrightarrow> retries (cp_marker cp) \<and> retries (cp_attempt cp) \<and> retries (cp_state cp)"

text \<open>A write answers with the statuses that were written.\<close>

definition answers_writes :: "'s repository \<Rightarrow> bool" where
  "answers_writes R \<longleftrightarrow>
     (\<forall>w s v t. upsertNodeState R w s = (Inr v, t) \<longrightarrow> ns_status (content v) = ns_status (nw_value w)) \<and>
     (\<forall>i n f s v t. finalizeAttempt R i n f s = (Inr v, t) \<longrightarrow>
        na_status (content v) = af_status f \<and> na_result_code (content v) = af_result_code f)"

lemma retriesD: "retries cp \<Longrightarrow> cp op s = (Inr x, t) \<Longrightarrow> \<exists>u u'. op u = (Inr x, u')"
  unfolding retries_def by blast

lemma mem_answers_writes: "answers_writes (mem_repository digest collate)"
proof -
  have "ns_status (content v) = ns_status (nw_value w)" if "im_upsertNodeState w s = (Inr v, t)" for w v and s t :: "'a mem_scheme"
    using that by (auto simp: im_upsertNodeState_def storeState_def Let_def bindP_run split: option.splits if_splits)
  moreover have "na_status (content v) = af_status f \<and> na_result_code (content v) = af_result_code f"
    if "im_finalizeAttempt i n f s = (Inr v, t)" for i n f v and s t :: "'a mem_scheme"
    using that by (auto simp: im_finalizeAttempt_def storeAttempt_def finalizedAttempt_def bindP_run split: option.splits if_splits sum.splits prod.splits)
  ultimately show ?thesis by (simp add: answers_writes_def mem_repository_def)
qed

lemma identity_retrying: "retrying identityControlPlane"
  by (auto simp: retrying_def retries_def identityControlPlane_def)

section \<open>The checks only ever reject\<close>

lemma checks_reject:
  "cl_kind (checkInputs collate imports c) = VALID_RESULT \<Longrightarrow> checkInputs collate imports c = c"
  "cl_kind (checkOutputs exports c) = VALID_RESULT \<Longrightarrow> checkOutputs exports c = c"
  "cl_kind (checkForced forced c) = VALID_RESULT \<Longrightarrow> checkForced forced c = c \<and> \<not> forced"
  by (auto simp: checkInputs_def checkOutputs_def checkForced_def rejected_def invalidResult_def Let_def split: if_splits)

lemma classifyRun_valid:
  assumes "classifyRun x i process s = (Inr c, t)" "cl_kind c = VALID_RESULT"
  shows "readAndClassifyResult (ax_parseDate x) (ax_reader x) (sp_resultJsonPath process)
      \<lparr> cc_correlationId = ei_correlationId i, cc_attemptId = ei_attemptId i, cc_processExitCode = sp_exitCode process \<rparr> s = (Inr c, t) \<and>
    \<not> sp_forced process"
proof -
  obtain c0 where c0: "readAndClassifyResult (ax_parseDate x) (ax_reader x) (sp_resultJsonPath process)
      \<lparr> cc_correlationId = ei_correlationId i, cc_attemptId = ei_attemptId i, cc_processExitCode = sp_exitCode process \<rparr> s = (Inr c0, t)"
    and c: "c = checkForced (sp_forced process) (checkOutputs (ei_exports i) (checkInputs (ax_collate x) (ei_imports i) c0))"
    using assms(1) unfolding classifyRun_def by (auto elim!: bindP_cases)
  from checks_reject(3) assms(2) c have 1: "c = checkOutputs (ei_exports i) (checkInputs (ax_collate x) (ei_imports i) c0)" "\<not> sp_forced process"
    by metis+
  with assms(2) checks_reject(2) have "c = checkInputs (ax_collate x) (ei_imports i) c0" by metis
  with assms(2) checks_reject(1) have "c = c0" by metis
  with c0 1 show ?thesis by simp
qed

lemma valid_outcome: "cl_kind (classifyResult parseDate v c) = VALID_RESULT \<Longrightarrow> cl_attemptOutcome (classifyResult parseDate v c) \<noteq> Outcome UNKNOWN"
  by (auto simp: classifyResult_def invalidResult_def Let_def split: if_splits)

lemma read_valid:
  assumes "readAndClassifyResult parseDate reader path c s = (Inr r, t)" "cl_kind r = VALID_RESULT"
  shows "cl_attemptOutcome r \<in> {Outcome SUCCESS, Outcome FAILED, Outcome CANCELLED, LockConflict}"
  using assms
  by (auto simp: readAndClassifyResult_def bindP_run noResult_def classifyResult_def invalidResult_def Let_def
      split: sum.splits option.splits if_splits)

text \<open>The statuses of attempt and node agree, except that a node whose execution did not start waits again.\<close>

lemma decideAttempt_agrees:
  assumes "cl_kind c = VALID_RESULT \<Longrightarrow> cl_attemptOutcome c \<in> {Outcome SUCCESS, Outcome FAILED, Outcome CANCELLED, LockConflict}"
  shows "dc_terminalStatus (decideAttempt c forced lf started marker) \<in> {SUCCESS, FAILED, CANCELLED, UNKNOWN}"
    and "dc_stateStatus (decideAttempt c forced lf started marker) = dc_terminalStatus (decideAttempt c forced lf started marker) \<or>
      dc_stateStatus (decideAttempt c forced lf started marker) = WAITING \<and>
      dc_terminalStatus (decideAttempt c forced lf started marker) = CANCELLED \<and>
      dc_resultCode (decideAttempt c forced lf started marker) = ''PREPARE_FAILED''"
  using assms by (auto simp: decideAttempt_def Let_def split: attempt_outcome.splits)

lemma decideAttempt_success:
  "dc_stateStatus (decideAttempt c forced lf started marker) = SUCCESS \<Longrightarrow> cl_kind c = VALID_RESULT \<and> cl_attemptOutcome c = Outcome SUCCESS"
  by (auto simp: decideAttempt_def Let_def split: attempt_outcome.splits if_splits)

lemma executeAttempt_parts:
  assumes "executeAttempt x cp authorize i s = (Inr r, t)"
  obtains started process c marker s1 s2 s3 s4 where "prepared i"
    "setAttemptExecutionStarted (ax_repository x) (na_node_attempt_id (content (ei_attempt i))) (revision (ei_attempt i))
       (ei_executionStartedAt i) s = (Inr started, s1)"
    "ax_run x i s1 = (Inr process, s2)" "classifyRun x i process s2 = (Inr c, s3)"
    "persistOutcome x cp authorize i started process c marker s4 = (Inr r, t)"
  using assms unfolding executeAttempt_def by (auto simp: bindP_Inr_iff split: if_splits)

lemma persistOutcome_parts:
  assumes "persistOutcome x cp authorize i started process c marker s = (Inr r, t)"
  obtains finishedAt u where "case authorize of None \<Rightarrow> True | Some a \<Rightarrow> \<exists>v v'. a v = (Inr True, v')"
    "writeOutcome x cp i started process c marker
       (decideAttempt c (sp_forced process) (sp_launchFailureConfirmed process) (na_execution_started_at (content started)) marker)
       finishedAt u = (Inr r, t)"
proof -
  from assms obtain f s1 ok u where "(case authorize of None \<Rightarrow> retP True | Some a \<Rightarrow> a) s1 = (Inr ok, u)"
    and w: "(if \<not> ok then throwP (CodedError ''NETWORK_LEASE_INTERRUPTED'') else writeOutcome x cp i started process c marker
       (decideAttempt c (sp_forced process) (sp_launchFailureConfirmed process) (na_execution_started_at (content started)) marker)
       f) u = (Inr r, t)"
    unfolding persistOutcome_def bindP_Inr_iff by blast
  moreover from w have ok by (cases ok) simp_all
  ultimately show thesis using that [of f u] by (auto split: option.splits)
qed

lemma writeOutcome_parts:
  assumes "writeOutcome x cp i started process c marker d finishedAt s = (Inr r, t)"
    and cp: "retrying cp" and R: "answers_writes (ax_repository x)"
  shows "eo_process r = process" "eo_classification r = c" "na_status (content (eo_attempt r)) = dc_terminalStatus d"
    "na_result_code (content (eo_attempt r)) = dc_resultCode d" "ns_status (content (eo_nodeState r)) = dc_stateStatus d"
proof -
  let ?f = "bindP (liftP (auditSummary (ei_imports i) (ei_exports i) (cl_result c) (cl_details c)))
       (\<lambda>message. finalizeAttempt (ax_repository x) (na_node_attempt_id (content started)) (revision started)
         (attemptFinalization d marker (cl_result c) finishedAt message))"
  let ?g = "upsertNodeState (ax_repository x) \<lparr> nw_value = finishedState (content (ei_nodeState i)) d finishedAt,
       nw_expected_revision = Some (revision (ei_nodeState i)), nw_resolution_event = None \<rparr>"
  from assms(1) obtain attempt state u1 u2 where a: "cp_attempt cp ?f s = (Inr attempt, u1)" and n: "cp_state cp ?g u1 = (Inr state, u2)"
    and r: "r = \<lparr> eo_classification = c, eo_process = process, eo_attempt = attempt, eo_nodeState = state,
       eo_invocationResultCode = dc_invocationCode d \<rparr>"
    unfolding writeOutcome_def bindP_Inr_iff by auto
  obtain v v' where "?f v = (Inr attempt, v')"
    using retriesD [of "cp_attempt cp" ?f s attempt u1] a cp unfolding retrying_def by blast
  with R have "na_status (content attempt) = dc_terminalStatus d" "na_result_code (content attempt) = dc_resultCode d"
    unfolding answers_writes_def bindP_Inr_iff by (fastforce simp: attemptFinalization_def)+
  moreover obtain w w' where "?g w = (Inr state, w')"
    using retriesD [of "cp_state cp" ?g u1 state u2] n cp unfolding retrying_def by blast
  with R have "ns_status (content state) = dc_stateStatus d"
    unfolding answers_writes_def by (fastforce simp: finishedState_def Let_def)
  ultimately show "eo_process r = process" "eo_classification r = c" "na_status (content (eo_attempt r)) = dc_terminalStatus d"
    "na_result_code (content (eo_attempt r)) = dc_resultCode d" "ns_status (content (eo_nodeState r)) = dc_stateStatus d"
    using r by simp_all
qed

text \<open>The records that an execution leaves behind.\<close>

lemma executed_agree:
  assumes run: "executeAttempt x cp authorize i s = (Inr r, t)" and cp: "retrying cp" and R: "answers_writes (ax_repository x)"
  shows "na_status (content (eo_attempt r)) \<in> {SUCCESS, FAILED, CANCELLED, UNKNOWN}"
    and "ns_status (content (eo_nodeState r)) = na_status (content (eo_attempt r)) \<or>
      ns_status (content (eo_nodeState r)) = WAITING \<and> na_status (content (eo_attempt r)) = CANCELLED \<and>
      na_result_code (content (eo_attempt r)) = ''PREPARE_FAILED''"
proof -
  from run obtain started process c marker s1 s2 s3 s4 where parts: "classifyRun x i process s2 = (Inr c, s3)"
      "persistOutcome x cp authorize i started process c marker s4 = (Inr r, t)"
    by (rule executeAttempt_parts)
  from parts(2) obtain f v where written: "writeOutcome x cp i started process c marker
      (decideAttempt c (sp_forced process) (sp_launchFailureConfirmed process) (na_execution_started_at (content started)) marker) f v = (Inr r, t)"
    by (rule persistOutcome_parts)
  note w = writeOutcome_parts [OF written cp R]
  have "cl_kind c = VALID_RESULT \<Longrightarrow> cl_attemptOutcome c \<in> {Outcome SUCCESS, Outcome FAILED, Outcome CANCELLED, LockConflict}"
    by (rule read_valid [OF conjunct1 [OF classifyRun_valid [OF parts(1)]]])
  from decideAttempt_agrees [OF this] w(3-5) show
    "na_status (content (eo_attempt r)) \<in> {SUCCESS, FAILED, CANCELLED, UNKNOWN}"
    "ns_status (content (eo_nodeState r)) = na_status (content (eo_attempt r)) \<or>
      ns_status (content (eo_nodeState r)) = WAITING \<and> na_status (content (eo_attempt r)) = CANCELLED \<and>
      na_result_code (content (eo_attempt r)) = ''PREPARE_FAILED''"
    by simp_all
qed

section \<open>Without the lease nothing is written\<close>

text \<open>What an execution does besides the two result writes.\<close>

definition runner_keeps :: "('s \<Rightarrow> 's \<Rightarrow> bool) \<Rightarrow> 's attempt_executor \<Rightarrow> 's control_plane \<Rightarrow> ('s, bool) prog \<Rightarrow> bool" where
  "runner_keeps T x cp gate \<longleftrightarrow>
     (\<forall>i n at'. guarantees T (setAttemptExecutionStarted (ax_repository x) i n at')) \<and> (\<forall>i. guarantees T (ax_run x i)) \<and>
     (\<forall>p. guarantees T (ax_reader x p)) \<and> (\<forall>l. guarantees T (ax_findExecutionStarted x l)) \<and> guarantees T (ax_now x) \<and>
     guarantees T gate \<and> (\<forall>op. guarantees T op \<longrightarrow> guarantees T (cp_marker cp op))"

context state_order
begin

lemma guarantees_case_error:
  "guarantees T (h e) \<Longrightarrow> guarantees T g \<Longrightarrow>
     guarantees T (case e of KintoneTransportError \<Rightarrow> h e | KintoneApiError _ _ \<Rightarrow> h e | _ \<Rightarrow> g)"
  by (cases e) simp_all

lemma readMarker_keeps: "runner_keeps T x cp gate \<Longrightarrow> guarantees T (readMarker x i e)"
  unfolding readMarker_def runner_keeps_def
  by (intro guarantees_intro guarantees_case_error [where h = throwP]) auto

lemma classifyRun_keeps: "runner_keeps T x cp gate \<Longrightarrow> guarantees T (classifyRun x i process)"
  unfolding classifyRun_def readAndClassifyResult_def runner_keeps_def by (intro guarantees_intro) auto

lemma refused_keeps:
  assumes k: "runner_keeps T x cp gate" and no: "\<And>u v. gate u \<noteq> (Inr True, v)"
  shows "guarantees T (persistOutcome x cp (Some gate) i started process c marker)"
  unfolding guarantees_def
proof
  fix s
  obtain f s1 where f: "(case cl_result c of Some r \<Rightarrow> retP (er_finishedAt r) | None \<Rightarrow> ax_now x) s = (f, s1)" by fastforce
  obtain g s2 where g: "gate s1 = (g, s2)" by fastforce
  have "T s s1" using f k T_refl unfolding runner_keeps_def by (auto split: option.splits dest: guaranteesD)
  moreover have "T s1 s2" using g k unfolding runner_keeps_def by (auto dest: guaranteesD)
  moreover have "snd (persistOutcome x cp (Some gate) i started process c marker s) \<in> {s1, s2}"
    using f g no [of s1 s2] by (cases f; cases g) (auto simp: persistOutcome_def bindP_run)
  ultimately show "T s (snd (persistOutcome x cp (Some gate) i started process c marker s))" using T_trans by blast
qed

lemma executeAttempt_refused:
  assumes k: "runner_keeps T x cp gate" and no: "\<And>u v. gate u \<noteq> (Inr True, v)"
  shows "guarantees T (executeAttempt x cp (Some gate) i)"
proof -
  have "guarantees T (cp_marker cp (readMarker x j e))" for j e
    using k readMarker_keeps [OF k] unfolding runner_keeps_def by blast
  then show ?thesis
    unfolding executeAttempt_def
    by (intro guarantees_intro refused_keeps [OF k no] classifyRun_keeps [OF k]) (use k in \<open>auto simp: runner_keeps_def\<close>)
qed

end

section \<open>Properties\<close>

text \<open>
  C29: Success needs evidence: when the execution of an attempt leaves its node in SUCCESS, the subprocess was run
  and ended with exit code 0 without being killed, the result file it left echoes the run and the attempt, says that
  execution started and names no error, and the gate that authorizes the writes, if there is one, let them through.
\<close>

theorem executed_success_is_backed:
  assumes run: "executeAttempt x cp authorize i s = (Inr r, t)" and cp: "retrying cp" and R: "answers_writes (ax_repository x)"
    and success: "ns_status (content (eo_nodeState r)) = SUCCESS"
  shows "sp_exitCode (eo_process r) = Some 0 \<and> \<not> sp_forced (eo_process r) \<and>
     (\<exists>u u'. ax_run x i u = (Inr (eo_process r), u')) \<and>
     (\<exists>source v u u'. ax_reader x (sp_resultJsonPath (eo_process r)) u = (Inr source, u') \<and> parseJson source = Some v \<and>
        jsonGet v ''correlationId'' = Some (JStr (ei_correlationId i)) \<and> jsonGet v ''attemptId'' = Some (JStr (ei_attemptId i)) \<and>
        jsonGet v ''executionStarted'' = Some (JBool True) \<and> jsonGet v ''error'' = Some JNull) \<and>
     (case authorize of None \<Rightarrow> True | Some a \<Rightarrow> \<exists>u u'. a u = (Inr True, u'))"
proof -
  from run obtain started process c marker s1 s2 s3 s4 where parts: "ax_run x i s1 = (Inr process, s2)"
      "classifyRun x i process s2 = (Inr c, s3)" "persistOutcome x cp authorize i started process c marker s4 = (Inr r, t)"
    by (rule executeAttempt_parts)
  define d where "d = decideAttempt c (sp_forced process) (sp_launchFailureConfirmed process) (na_execution_started_at (content started)) marker"
  from parts(3) obtain f v where auth: "case authorize of None \<Rightarrow> True | Some a \<Rightarrow> \<exists>v v'. a v = (Inr True, v')"
    and written: "writeOutcome x cp i started process c marker d f v = (Inr r, t)"
    unfolding d_def by (rule persistOutcome_parts)
  note w = writeOutcome_parts [OF written cp R]
  have "dc_stateStatus d = SUCCESS" using success w(5) by simp
  then have valid: "cl_kind c = VALID_RESULT" "cl_attemptOutcome c = Outcome SUCCESS"
    using decideAttempt_success unfolding d_def by blast+
  note read = classifyRun_valid [OF parts(2) valid(1)]
  from classified_result_is_backed_facts [OF conjunct1 [OF read]] valid(2)
  obtain source v where "ax_reader x (sp_resultJsonPath process) s2 = (Inr source, s3)" "parseJson source = Some v"
      "jsonGet v ''correlationId'' = Some (JStr (ei_correlationId i))" "jsonGet v ''attemptId'' = Some (JStr (ei_attemptId i))"
      "sp_exitCode process = Some 0" "jsonGet v ''executionStarted'' = Some (JBool True)" "jsonGet v ''error'' = Some JNull"
    by auto
  with read w auth parts(1) show ?thesis by auto
qed

text \<open>A runner that succeeds, over a repository that answers what is written.\<close>

definition preparedAttempt :: node_attempt where
  "preparedAttempt = newAttempt \<lparr> ca_node_state = versioned undefined 1, ca_node_attempt_id = ''attempt_1'',
     ca_invocation_id = ''inv1'' \<rparr> ''k'' 1"

definition preparedState :: node_state where
  "preparedState = \<lparr> ns_node_state_id = ''s1'', ns_node_state_key = ''k1'', ns_run_id = ''run1'', ns_node_id = ''n1'', ns_job_id = ''j1'',
     ns_status = RUNNING, ns_latest_attempt_no = 1, ns_active_attempt_id = Some ''attempt_1'', ns_revision = 2, ns_idempotent = True,
     ns_trigger_rule = ALL_SUCCESS, ns_blocked_by = [], ns_status_reason = None, ns_started_at = Some ''T1'', ns_finished_at = None,
     ns_updated_at = ''T1'' \<rparr>"

definition echoRepository :: "unit repository" where
  "echoRepository = undefined\<lparr>
     setAttemptExecutionStarted := (\<lambda>i n at'. retP (versioned (preparedAttempt\<lparr> na_execution_started_at := Some at' \<rparr>) (n + 1))),
     finalizeAttempt := (\<lambda>i n f. retP (versioned (finalizedAttempt preparedAttempt f) (n + 1))),
     upsertNodeState := (\<lambda>w. retP (versioned (nw_value w) 3)) \<rparr>"

definition sampleProcess :: subprocess_result where
  "sampleProcess = \<lparr> sp_exitCode = Some 0, sp_stdout = [], sp_stderr = [], sp_resultJsonPath = ''r.json'', sp_timedOut = False,
     sp_forced = False, sp_launchFailureConfirmed = False \<rparr>"

definition sampleExecutor :: "unit attempt_executor" where
  "sampleExecutor = \<lparr> ax_repository = echoRepository, ax_run = (\<lambda>_. retP sampleProcess), ax_findExecutionStarted = (\<lambda>_. retP None),
     ax_reader = (\<lambda>_. retP (stringify sampleResult)), ax_now = retP ''T2'', ax_parseDate = (\<lambda>_. Some 0), ax_collate = (\<le>) \<rparr>"

definition sampleExecutorInput :: executor_input where
  "sampleExecutorInput = \<lparr> ei_attempt = versioned preparedAttempt 1, ei_nodeState = versioned preparedState 2, ei_sqlPath = ''a.sql'',
     ei_profile = ''prod'', ei_configPath = ''c'', ei_asOf = ''T1'', ei_correlationId = ''run1'', ei_attemptId = ''attempt_1'',
     ei_expectedJobId = ''j1'', ei_imports = [], ei_exports = [], ei_executionStartedAt = ''T1'' \<rparr>"

lemma echo_answers: "answers_writes echoRepository"
  by (simp add: answers_writes_def echoRepository_def finalizedAttempt_def)

lemma sample_classified:
  "\<exists>c r. classifyRun sampleExecutor sampleExecutorInput sampleProcess () = (Inr c, ()) \<and> cl_kind c = VALID_RESULT \<and>
     cl_attemptOutcome c = Outcome SUCCESS \<and> cl_result c = Some r \<and> er_output_files r = None"
proof -
  let ?c = "classifyResult (\<lambda>_. Some 0) sampleResult sampleContext"
  have ok: "validateShape (\<lambda>_. Some 0) sampleResult = []" "consistencyErrors sampleResult sampleContext = []"
    using classified [of "\<lambda>_. Some 0" sampleResult sampleContext] sampleResult_valid by simp_all
  then have "cl_kind ?c = VALID_RESULT" "cl_result ?c = Some (executionResultOf sampleResult)"
    by (simp_all add: classifyResult_def Let_def)
  moreover have "er_output_files (executionResultOf sampleResult) = None"
    by (simp add: executionResultOf_def receiptsOfJson_def sampleResult_fields)
  moreover have "classifyRun sampleExecutor sampleExecutorInput sampleProcess () = (Inr ?c, ())"
    using calculation
    by (simp add: classifyRun_def readAndClassifyResult_def sampleExecutor_def sampleExecutorInput_def sampleProcess_def bindP_run
        parse_after_stringify [OF sampleResult_plain] checkForced_def checkOutputs_def checkInputs_def sampleContext_def [symmetric] Let_def)
  ultimately show ?thesis using sampleResult_valid by blast
qed

lemma sample_executed:
  "\<exists>r. executeAttempt sampleExecutor identityControlPlane (Some (retP True)) sampleExecutorInput () = (Inr r, ()) \<and>
     ns_status (content (eo_nodeState r)) = SUCCESS"
proof -
  obtain c e where c: "classifyRun sampleExecutor sampleExecutorInput sampleProcess () = (Inr c, ())" "cl_kind c = VALID_RESULT"
     "cl_attemptOutcome c = Outcome SUCCESS" "cl_result c = Some e" using sample_classified by blast
  have ready: "prepared sampleExecutorInput"
    by (simp add: prepared_def sampleExecutorInput_def preparedAttempt_def newAttempt_def preparedState_def)
  have d: "dc_stateStatus (decideAttempt c f l st m) = SUCCESS" for f l st m
    using c by (simp add: decideAttempt_def)
  have "auditSummary [] [] (cl_result c) (cl_details c) \<noteq> Inl x" for x
    using c by (auto simp: auditSummary_def Let_def split: option.splits)
  then obtain m where m: "auditSummary [] [] (cl_result c) (cl_details c) = Inr m" by (cases "auditSummary [] [] (cl_result c) (cl_details c)") auto
  have marker: "readMarker sampleExecutor i j () = (Inr (Some None), ())" for i j
    by (simp add: readMarker_def sampleExecutor_def)
  have run: "ax_run sampleExecutor i () = (Inr sampleProcess, ())" for i by (simp add: sampleExecutor_def)
  have repository: "ax_repository sampleExecutor = echoRepository" by (simp add: sampleExecutor_def)
  have input: "ei_imports sampleExecutorInput = []" "ei_exports sampleExecutorInput = []" by (simp_all add: sampleExecutorInput_def)
  show ?thesis
    using c(1) ready m d marker run
    by (simp add: executeAttempt_def bindP_run persistOutcome_def writeOutcome_def identityControlPlane_def input c(4)
        repository echoRepository_def finishedState_def Let_def)
qed

lemma executed_success_is_backed_witness:
  "\<exists>r. executeAttempt sampleExecutor identityControlPlane (Some (retP True)) sampleExecutorInput () = (Inr r, ()) \<and>
     sp_exitCode (eo_process r) = Some 0"
proof -
  obtain r where r: "executeAttempt sampleExecutor identityControlPlane (Some (retP True)) sampleExecutorInput () = (Inr r, ())"
    "ns_status (content (eo_nodeState r)) = SUCCESS" using sample_executed by blast
  have "answers_writes (ax_repository sampleExecutor)" using echo_answers by (simp add: sampleExecutor_def)
  from executed_success_is_backed [OF r(1) identity_retrying this r(2)] r(1) show ?thesis by blast
qed

text \<open>
  A result that the lease does not permit to persist is not persisted: if the gate never opens, an execution never
  returns an outcome, and it changes nothing but what the start marker, the subprocess, its result file, the
  job log, the clock and the gate change (any relation between states these keep is kept): neither
  \<open>finalizeAttempt\<close> nor \<open>upsertNodeState\<close> is called.
\<close>

theorem unauthorized_result_deferred:
  assumes T: "state_order T" and keeps: "runner_keeps T x cp gate" and closed: "\<And>u v. gate u \<noteq> (Inr True, v)"
    and run: "executeAttempt x cp (Some gate) i s = (r, t)"
  shows "T s t \<and> (\<exists>e. r = Inl e)"
proof -
  have "T s t" using state_order.executeAttempt_refused [OF T keeps closed] run by (rule guaranteesD)
  moreover have "\<exists>e. r = Inl e"
  proof (cases r)
    case (Inr o')
    from run [unfolded Inr] obtain started process c marker s4 where
      "persistOutcome x cp (Some gate) i started process c marker s4 = (Inr o', t)" by (rule executeAttempt_parts)
    then obtain v v' where "gate v = (Inr True, v')" by (rule persistOutcome_parts) auto
    with closed show ?thesis by blast
  qed simp
  ultimately show ?thesis by blast
qed

lemma unauthorized_result_deferred_witness:
  "\<exists>e. executeAttempt sampleExecutor identityControlPlane (Some (retP False)) sampleExecutorInput () = (Inl e, ())"
proof -
  have keeps: "runner_keeps (=) sampleExecutor identityControlPlane (retP False)"
    by (simp add: runner_keeps_def guarantees_def identityControlPlane_def)
  obtain r where run: "executeAttempt sampleExecutor identityControlPlane (Some (retP False)) sampleExecutorInput () = (r, ())"
    by (metis old.unit.exhaust surj_pair)
  have "state_order ((=) :: unit \<Rightarrow> unit \<Rightarrow> bool)" by unfold_locales simp_all
  from unauthorized_result_deferred [OF this keeps _ run] run show ?thesis by auto
qed

end
