(* ===== verification/Scheduler.thy ===== *)
theory Scheduler
  imports AttemptExecutor Orphan Dag
begin

text \<open>
  The sequential scheduler, \<open>src/orchestration/sequential-scheduler.ts\<close>: one invocation, one node at a time.
  What the code is given are the fields of \<open>'s scheduler_input\<close>; the file system (unpacking the bundle,
  resolving input and output paths, removing the directory) is among them, and \<open>ss_messageOf\<close> is the text of an error.
  The local variables that the \<open>catch\<close> block reads are the record \<open>locals\<close>: the body is a program over the
  world and the locals, so that a throw keeps them. The closure variable \<open>deadline\<close> of the control plane is a
  place in the world, given by its two accessors.
\<close>

section \<open>What the scheduler is given\<close>

record 's scheduler_monitor =
  sm_canStartNewNode :: "'s \<Rightarrow> bool"
  sm_canPersistResults :: "'s \<Rightarrow> bool"
  sm_confirmLease :: "('s, bool) prog"
  sm_requiresInterrupted :: "'s \<Rightarrow> bool"
  sm_markUnreachable :: "'s \<Rightarrow> 's"
  sm_tick :: "('s, bool) prog option"
  sm_start :: "('s, unit) prog"
  sm_stop :: "('s, unit) prog"

record scheduler_close =
  sc_status :: status
  sc_resultCode :: string
  sc_selectedNodeIds :: "string list"
  sc_preservedNodeIds :: "string list"
  sc_blockedNodeIds :: "string list"
  sc_reason :: "string option"
  sc_persistInvocation :: "bool option"

record extracted_bundle =
  ex_directory :: string
  ex_definition :: network_definition
  ex_sqlPaths :: "string jsmap"

record path_request =
  pr_ioRoot :: string
  pr_patterns :: "(string \<times> string) list"
  pr_businessKey :: string
  pr_profile :: string
  pr_runId :: string
  pr_nodeId :: string

record 's scheduler_input =
  ss_run :: "network_run versioned"
  ss_invocation :: "run_invocation versioned"
  ss_extract :: "('s, extracted_bundle) prog"
  ss_repository :: "'s repository"
  ss_execute :: "'s control_plane \<Rightarrow> ('s, bool) prog option \<Rightarrow> executor_input \<Rightarrow> ('s, execution_outcome) prog"
  ss_findAttemptResult :: "(string \<Rightarrow> ('s, job_log_result option) prog) option"
  ss_monitor :: "'s scheduler_monitor"
  ss_profile :: string
  ss_configPath :: string
  ss_ioRoot :: "string option"
  ss_close :: "scheduler_close \<Rightarrow> ('s, unit) prog"
  ss_now :: "('s, string) prog"
  ss_uuid :: "('s, string) prog"
  ss_randomUUID :: "('s, string) prog"
  ss_retryDelayMs :: int
  ss_nowMs :: "('s, int) prog"
  ss_sleep :: "int \<Rightarrow> ('s, unit) prog"
  ss_resolveInputs :: "path_request \<Rightarrow> ('s, input_baseline list) prog"
  ss_resolveOutputs :: "path_request \<Rightarrow> ('s, (string \<times> string) list) prog"
  ss_removeDirectory :: "string \<Rightarrow> ('s, unit) prog"
  ss_messageOf :: "js_error \<Rightarrow> string"
  ss_deadline :: "'s \<Rightarrow> int option"
  ss_setDeadline :: "int \<Rightarrow> 's \<Rightarrow> 's"
  ss_fuel :: nat

datatype disposition = D_EXECUTED | D_PRESERVED | D_BLOCKED | D_DEFERRED | D_EXCLUDED

record node_result =
  rs_nodeId :: string
  rs_disposition :: disposition
  rs_status :: status
  rs_attemptNo :: "int option"
  rs_resultCode :: "string option"

record scheduler_summary =
  su_nodeResults :: "node_result list"
  su_aggregateStatus :: status
  su_invocationStatus :: status
  su_invocationResultCode :: string
  su_selectedNodeIds :: "string list"
  su_preservedNodeIds :: "string list"
  su_blockedNodeIds :: "string list"
  su_retryBrakeNodeIds :: "string list"
  su_reconciliationRequired :: bool

text \<open>A JavaScript \<open>Set\<close> of strings in insertion order.\<close>

definition setAdd :: "string \<Rightarrow> string list \<Rightarrow> string list" where
  "setAdd x xs = (if x \<in> set xs then xs else xs @ [x])"

definition setOf :: "string list \<Rightarrow> string list" where
  "setOf xs = foldl (\<lambda>acc x. setAdd x acc) [] xs"

section \<open>The lease\<close>

definition leaseError :: "js_error option \<Rightarrow> js_error" where
  "leaseError cause = SchedulerLeaseInterruptedError True cause"

definition ordinaryWrite :: "'s scheduler_monitor \<Rightarrow> ('s, bool) prog" where
  "ordinaryWrite m = bindP (readP (sm_canStartNewNode m)) (\<lambda>ok.
     if \<not> ok then retP False else (case sm_tick m of None \<Rightarrow> retP True | Some tick \<Rightarrow> tick))"

definition aggregateWrite :: "'s scheduler_monitor \<Rightarrow> ('s, bool) prog" where
  "aggregateWrite m = bindP (readP (sm_canPersistResults m)) (\<lambda>ok.
     if \<not> ok then retP False
     else bindP (readP (sm_requiresInterrupted m)) (\<lambda>interrupted.
       if interrupted then retP True else (case sm_tick m of None \<Rightarrow> retP True | Some tick \<Rightarrow> tick)))"

definition requireOrdinaryWrite :: "'s scheduler_monitor \<Rightarrow> ('s, unit) prog" where
  "requireOrdinaryWrite m = bindP (ordinaryWrite m) (\<lambda>ok. if ok then retP () else throwP (leaseError None))"

text \<open>The gate before the results of a finished subprocess are written.\<close>

definition persistGate :: "'s scheduler_monitor \<Rightarrow> ('s, bool) prog" where
  "persistGate m = bindP (readP (sm_canPersistResults m)) (\<lambda>ok. if ok then retP True else sm_confirmLease m)"

section \<open>Draining the control plane\<close>

fun isKintoneTransportFailure :: "js_error \<Rightarrow> bool" where
  "isKintoneTransportFailure KintoneTransportError = True"
| "isKintoneTransportFailure (RepositoryError code cause) =
     ((code = AMBIGUOUS_WRITE \<or> code = REMOTE_ERROR) \<and> (case cause of None \<Rightarrow> False | Some e \<Rightarrow> isKintoneTransportFailure e))"
| "isKintoneTransportFailure (AggregateError es _) = list_ex isKintoneTransportFailure es"
| "isKintoneTransportFailure (SchedulerLeaseInterruptedError _ cause) =
     (case cause of None \<Rightarrow> False | Some e \<Rightarrow> isKintoneTransportFailure e)"
| "isKintoneTransportFailure (EnsureRunError _ _ cause) = (case cause of None \<Rightarrow> False | Some e \<Rightarrow> isKintoneTransportFailure e)"
| "isKintoneTransportFailure _ = False"

text \<open>
  The loop that repeats an operation until the deadline, one unit of fuel per round. The fuel is enough when every
  sleep lets the clock advance (\<open>drain_terminates\<close>).
\<close>

definition outOfFuel :: js_error where "outOfFuel = PlainError ''out of fuel''"

fun drainLoop :: "'s scheduler_input \<Rightarrow> int \<Rightarrow> ('s, 'a) prog \<Rightarrow> nat \<Rightarrow> js_error \<Rightarrow> ('s, 'a) prog" where
  "drainLoop i deadline op 0 lastError = throwP outOfFuel"
| "drainLoop i deadline op (Suc n) lastError =
     bindP (ss_nowMs i) (\<lambda>t1.
     if \<not> t1 < deadline then throwP (leaseError (Some lastError))
     else bindP (ss_nowMs i) (\<lambda>t2.
       bindP (ss_sleep i (min (ss_retryDelayMs i) (max 0 (deadline - t2)))) (\<lambda>_.
       bindP (ss_nowMs i) (\<lambda>t3.
       if t3 \<ge> deadline then throwP (leaseError (Some lastError))
       else bindP (sm_confirmLease (ss_monitor i)) (\<lambda>confirmed.
         if \<not> confirmed then drainLoop i deadline op n lastError
         else bindP (attemptP op) (\<lambda>r.
           case r of
             Inr x \<Rightarrow> retP x
           | Inl error \<Rightarrow>
               if \<not> isKintoneTransportFailure error then throwP error
               else bindP (writeP (sm_markUnreachable (ss_monitor i))) (\<lambda>_.
                 drainLoop i deadline op n error)))))))"

text \<open>\<open>deadline ??= nowMs() + maxDurationMs\<close>\<close>

definition drainDeadline :: "'s scheduler_input \<Rightarrow> int \<Rightarrow> ('s, int) prog" where
  "drainDeadline i maxDurationMs = bindP (readP (ss_deadline i)) (\<lambda>d.
     case d of
       Some deadline \<Rightarrow> retP deadline
     | None \<Rightarrow> bindP (ss_nowMs i) (\<lambda>now.
         bindP (writeP (ss_setDeadline i (now + maxDurationMs))) (\<lambda>_. retP (now + maxDurationMs))))"

definition controlPlane :: "'s scheduler_input \<Rightarrow> int \<Rightarrow> ('s, 'a) prog \<Rightarrow> ('s, 'a) prog" where
  "controlPlane i maxDurationMs op =
     bindP (attemptP op) (\<lambda>r.
     case r of
       Inr x \<Rightarrow> retP x
     | Inl error \<Rightarrow>
         if \<not> isKintoneTransportFailure error then throwP error
         else bindP (drainDeadline i maxDurationMs) (\<lambda>deadline.
           bindP (writeP (sm_markUnreachable (ss_monitor i))) (\<lambda>_.
           drainLoop i deadline op (ss_fuel i) error)))"

definition schedulerControlPlane :: "'s scheduler_input \<Rightarrow> int \<Rightarrow> 's control_plane" where
  "schedulerControlPlane i maxMs = \<lparr> cp_marker = controlPlane i maxMs, cp_attempt = controlPlane i maxMs,
     cp_state = controlPlane i maxMs \<rparr>"

section \<open>Single writes\<close>

definition writeNodeState :: "'s repository \<Rightarrow> node_state versioned \<Rightarrow> (node_state \<Rightarrow> node_state) \<Rightarrow> ('s, node_state versioned) prog" where
  "writeNodeState R current update = upsertNodeState R \<lparr> nw_value = update (content current),
     nw_expected_revision = Some (revision current), nw_resolution_event = None \<rparr>"

definition ensureRunStarted :: "'s scheduler_input \<Rightarrow> ('s, network_run versioned) prog" where
  "ensureRunStarted i =
     (if nr_started_at (content (ss_run i)) \<noteq> None then retP (ss_run i)
      else bindP (requireOrdinaryWrite (ss_monitor i)) (\<lambda>_.
        bindP (ss_now i) (\<lambda>at'.
        updateRunAggregate (ss_repository i) (nr_run_id (content (ss_run i))) (revision (ss_run i))
          \<lparr> ru_status = RUNNING, ru_started_at = Some at', ru_finished_at = None, ru_updated_at = at' \<rparr>)))"

definition isTerminalAggregate :: "status \<Rightarrow> bool" where
  "isTerminalAggregate st \<longleftrightarrow> st \<noteq> CREATED \<and> st \<noteq> RUNNING"

definition updateAggregate ::
  "'s scheduler_input \<Rightarrow> int \<Rightarrow> network_run versioned \<Rightarrow> node_state versioned jsmap \<Rightarrow> ('s, network_run versioned) prog" where
  "updateAggregate i maxMs run states =
     bindP (aggregateWrite (ss_monitor i)) (\<lambda>ok.
     if \<not> ok then throwP (leaseError None)
     else
       let status = computeRunAggregateStatus (map (\<lambda>s. ns_status (content (snd s))) states) (nr_started_at (content run)) in
       bindP (ss_now i) (\<lambda>at'.
       controlPlane i maxMs (updateRunAggregate (ss_repository i) (nr_run_id (content run)) (revision run)
         \<lparr> ru_status = status, ru_started_at = nr_started_at (content run),
           ru_finished_at = (if isTerminalAggregate status then Some at' else None), ru_updated_at = at' \<rparr>)))"

definition invocationOutcome :: "status \<Rightarrow> status \<times> string" where
  "invocationOutcome st =
     (if st = SUCCESS then (SUCCESS, ''OK'')
      else if st = UNKNOWN then (UNKNOWN, ''NODE_RESULT_UNKNOWN'')
      else if st = FAILED then (FAILED, ''NODE_FAILED_OR_BLOCKED'')
      else if st = CANCELLED then (CANCELLED, ''NODE_CANCELLED'')
      else (CANCELLED, ''NODES_DEFERRED''))"

definition nodeResult :: "string \<Rightarrow> disposition \<Rightarrow> node_state versioned \<Rightarrow> node_result" where
  "nodeResult nodeId d state = \<lparr> rs_nodeId = nodeId, rs_disposition = d, rs_status = ns_status (content state),
     rs_attemptNo = None, rs_resultCode = ns_status_reason (content state) \<rparr>"

definition stateMap :: "node_state versioned list \<Rightarrow> node_state versioned jsmap" where
  "stateMap states = mapFromEntries (map (\<lambda>s. (ns_node_id (content s), s)) states)"

definition requiredState :: "node_state versioned jsmap \<Rightarrow> string \<Rightarrow> js_error + node_state versioned" where
  "requiredState states nodeId = (case mapGet states nodeId of
     None \<Rightarrow> Inl (PlainError ''Error'') | Some s \<Rightarrow> Inr s)"

fun requiredStates :: "node_state versioned jsmap \<Rightarrow> string list \<Rightarrow> js_error + node_state versioned list" where
  "requiredStates states [] = Inr []"
| "requiredStates states (k # ks) = (case requiredState states k of Inl e \<Rightarrow> Inl e | Inr s \<Rightarrow>
     (case requiredStates states ks of Inl e \<Rightarrow> Inl e | Inr ss \<Rightarrow> Inr (s # ss)))"

section \<open>Input and output files of a node\<close>

definition latestFirst :: "node_attempt versioned list \<Rightarrow> string \<Rightarrow> node_attempt versioned list" where
  "latestFirst attempts nodeId =
     sort_key (\<lambda>a. - na_attempt_no (content a)) (filter (\<lambda>a. na_node_id (content a) = nodeId) attempts)"

definition shouldComparePreviousBaseline ::
  "invocation_mode \<Rightarrow> string list \<Rightarrow> string \<Rightarrow> node_attempt versioned list \<Rightarrow> bool" where
  "shouldComparePreviousBaseline mode selected nodeId attempts =
     (if mode = RERUN_FROM then nodeId \<in> set selected
      else if mode \<noteq> RESUME then False
      else (case latestFirst attempts nodeId of
        [] \<Rightarrow> False
      | a # _ \<Rightarrow> na_status (content a) = FAILED \<or> na_status (content a) = CANCELLED))"

fun firstBaseline :: "node_attempt versioned list \<Rightarrow> js_error + stored_baseline list option" where
  "firstBaseline [] = Inr None"
| "firstBaseline (a # as) = (case parseInputBaseline (na_error_message (content a)) of
     Inl e \<Rightarrow> Inl e
   | Inr (Some b) \<Rightarrow> Inr (Some b)
   | Inr None \<Rightarrow> firstBaseline as)"

definition latestInputBaseline :: "node_attempt versioned list \<Rightarrow> string \<Rightarrow> js_error + stored_baseline list option" where
  "latestInputBaseline attempts nodeId = firstBaseline (latestFirst attempts nodeId)"

definition baselineConfirmed :: "node_attempt versioned \<Rightarrow> string \<Rightarrow> bool" where
  "baselineConfirmed a summary \<longleftrightarrow> na_status (content a) = RUNNING \<and> na_execution_started_at (content a) = None \<and>
     na_error_message (content a) = Some summary"

definition persistInputBaseline ::
  "'s scheduler_input \<Rightarrow> int \<Rightarrow> node_attempt versioned \<Rightarrow> string \<Rightarrow> ('s, node_attempt versioned) prog" where
  "persistInputBaseline i maxMs attempt summary =
     catchP (controlPlane i maxMs (setAttemptInputBaseline (ss_repository i) (na_node_attempt_id (content attempt)) (revision attempt) summary))
       (\<lambda>error.
        if \<not> (case error of RepositoryError code _ \<Rightarrow> code = REVISION_CONFLICT \<or> code = AMBIGUOUS_WRITE | _ \<Rightarrow> False)
        then throwP error
        else bindP (controlPlane i maxMs (getAttempts (ss_repository i) (na_run_id (content attempt)))) (\<lambda>attempts.
          case filter (\<lambda>a. na_node_attempt_id (content a) = na_node_attempt_id (content attempt)) attempts of
            [found] \<Rightarrow> if baselineConfirmed found summary then retP found
                       else throwP (RepositoryError AMBIGUOUS_WRITE (Some error))
          | _ \<Rightarrow> throwP (RepositoryError AMBIGUOUS_WRITE (Some error))))"

definition requiredIoRoot :: "string option \<Rightarrow> js_error + string" where
  "requiredIoRoot ioRoot = (case ioRoot of None \<Rightarrow> Inl (InputPathError ''INPUT_PATH_REJECTED'') | Some r \<Rightarrow> Inr r)"

definition requiredOutputIoRoot :: "string option \<Rightarrow> js_error + string" where
  "requiredOutputIoRoot ioRoot = (case ioRoot of None \<Rightarrow> Inl OutputPathError | Some r \<Rightarrow> Inr r)"

definition ioErrorCode :: "js_error \<Rightarrow> string option" where
  "ioErrorCode e = (case e of InputPathError code \<Rightarrow> Some code | OutputPathError \<Rightarrow> Some ''OUTPUT_PATH_REJECTED'' | _ \<Rightarrow> None)"

definition pathRequest :: "'s scheduler_input \<Rightarrow> string \<Rightarrow> (string \<times> string) list \<Rightarrow> string \<Rightarrow> path_request" where
  "pathRequest i ioRoot patterns nodeId = \<lparr> pr_ioRoot = ioRoot, pr_patterns = patterns,
     pr_businessKey = nr_business_key (content (ss_run i)), pr_profile = ss_profile i,
     pr_runId = nr_run_id (content (ss_run i)), pr_nodeId = nodeId \<rparr>"

definition nodeImports :: "'s scheduler_input \<Rightarrow> network_node \<Rightarrow> ('s, input_baseline list) prog" where
  "nodeImports i node = (let patterns = orElse (nn_inputs node) [] in
     if patterns = [] then retP []
     else bindP (liftP (requiredIoRoot (ss_ioRoot i))) (\<lambda>root. ss_resolveInputs i (pathRequest i root patterns (nn_id node))))"

definition nodeExports :: "'s scheduler_input \<Rightarrow> network_node \<Rightarrow> ('s, (string \<times> string) list) prog" where
  "nodeExports i node = (let patterns = orElse (nn_outputs node) [] in
     if patterns = [] then retP []
     else bindP (liftP (requiredOutputIoRoot (ss_ioRoot i))) (\<lambda>root. ss_resolveOutputs i (pathRequest i root patterns (nn_id node))))"

text \<open>Lines 409 to 425: the inputs of a repeated node are those of its last attempt.\<close>

definition checkBaseline ::
  "invocation_mode \<Rightarrow> string list \<Rightarrow> node_attempt versioned list \<Rightarrow> string \<Rightarrow> input_baseline list \<Rightarrow> js_error + unit" where
  "checkBaseline mode selected attempts nodeId imports =
     (if imports \<noteq> [] \<and> shouldComparePreviousBaseline mode selected nodeId attempts then
        (case latestInputBaseline attempts nodeId of
           Inl e \<Rightarrow> Inl e
         | Inr None \<Rightarrow> Inr ()
         | Inr (Some previous) \<Rightarrow>
             (case inputBaselinesEqual previous imports of
                Inl e \<Rightarrow> Inl e
              | Inr b \<Rightarrow> if b then Inr () else Inl (InputPathError ''INPUT_FILE_MUTATED'')))
      else Inr ())"

definition ioFailureClassification :: "string \<Rightarrow> string \<Rightarrow> result_classification" where
  "ioFailureClassification code message = \<lparr> cl_kind = NO_RESULT, cl_attemptOutcome = Outcome FAILED, cl_resultCode = Some code,
     cl_details = [message], cl_result = None, cl_invocationResultCode = Some code \<rparr>"

definition ioFailureProcess :: subprocess_result where
  "ioFailureProcess = \<lparr> sp_exitCode = None, sp_stdout = [], sp_stderr = [], sp_resultJsonPath = [], sp_timedOut = False,
     sp_forced = False, sp_launchFailureConfirmed = True \<rparr>"

definition ioFailureFinalization :: "string \<Rightarrow> string \<Rightarrow> string \<Rightarrow> attempt_finalization" where
  "ioFailureFinalization code message finishedAt = \<lparr> af_status = FAILED, af_result_code = code,
     af_runner_execution_started_at = None, af_execution_id = None, af_finished_at = finishedAt, af_duration_sec = None,
     af_error_message = Some message, af_read_count = 0, af_written_count = 0, af_last_successful_chunk_no = None,
     af_last_written_key = None \<rparr>"

definition finalizeIoPathFailure ::
  "'s scheduler_input \<Rightarrow> int \<Rightarrow> node_attempt versioned \<Rightarrow> node_state versioned \<Rightarrow> js_error \<Rightarrow> string \<Rightarrow> string \<Rightarrow>
   ('s, execution_outcome) prog" where
  "finalizeIoPathFailure i maxMs attempt state error code finishedAt =
     (let message = ss_messageOf i error in
      bindP (controlPlane i maxMs (finalizeAttempt (ss_repository i) (na_node_attempt_id (content attempt)) (revision attempt)
        (ioFailureFinalization code message finishedAt))) (\<lambda>finalizedAttempt.
      bindP (controlPlane i maxMs (writeNodeState (ss_repository i) state (\<lambda>v. v\<lparr> ns_status := FAILED, ns_active_attempt_id := None,
        ns_status_reason := Some code, ns_finished_at := Some finishedAt, ns_updated_at := finishedAt \<rparr>))) (\<lambda>finalizedState.
      retP \<lparr> eo_classification = ioFailureClassification code message, eo_process = ioFailureProcess,
        eo_attempt = finalizedAttempt, eo_nodeState = finalizedState, eo_invocationResultCode = Some code \<rparr>)))"

section \<open>The retry brake\<close>

fun brakeCount :: "node_attempt versioned list \<Rightarrow> string option \<Rightarrow> int \<Rightarrow> string option \<times> int" where
  "brakeCount [] kind n = (kind, n)"
| "brakeCount (a # as) kind n =
     (let v = content a in
      if na_status v = CANCELLED \<and> na_result_code v = ''PREPARE_FAILED'' then brakeCount as kind n
      else if na_status v \<noteq> FAILED then (kind, n)
      else let current = trim (na_result_code v) in
        if current = [] then (kind, n)
        else let kind' = orElse kind current in
          if current \<noteq> kind' then (Some kind', n) else brakeCount as (Some kind') (n + 1))"

definition retryBrakeForNode :: "node_attempt versioned list \<Rightarrow> string \<Rightarrow> (string \<times> int) option" where
  "retryBrakeForNode attempts nodeId = (case brakeCount (latestFirst attempts nodeId) None 0 of
     (Some kind, n) \<Rightarrow> if n \<ge> 3 then Some (kind, n) else None
   | (None, _) \<Rightarrow> None)"

section \<open>Locals\<close>

record locals =
  l_directory :: "string option"
  l_selected :: "string list"
  l_preserved :: "string list"
  l_blocked :: "string list"
  l_results :: "node_result jsmap"
  l_aggregateStatus :: status
  l_close :: "scheduler_close option"
  l_reconciliationRequired :: bool
  l_adjudicationReason :: "string option"
  l_ioFailure :: "string option"
  l_run :: "network_run versioned"
  l_attempts :: "node_attempt versioned list"
  l_states :: "node_state versioned jsmap"

type_synonym ('s, 'a) sprog = "('s \<times> locals, 'a) prog"

definition initialLocals :: "'s scheduler_input \<Rightarrow> locals" where
  "initialLocals i = \<lparr> l_directory = None,
     l_selected = (if ri_mode (content (ss_invocation i)) = RERUN_FROM
       then setOf (ri_selected_node_ids (content (ss_invocation i))) else []),
     l_preserved = [], l_blocked = [], l_results = [], l_aggregateStatus = nr_status (content (ss_run i)), l_close = None,
     l_reconciliationRequired = False, l_adjudicationReason = None, l_ioFailure = None, l_run = ss_run i, l_attempts = [],
     l_states = [] \<rparr>"

definition finalization :: "status \<Rightarrow> string \<Rightarrow> locals \<Rightarrow> string option \<Rightarrow> scheduler_close" where
  "finalization st code l reason = \<lparr> sc_status = st, sc_resultCode = code, sc_selectedNodeIds = l_selected l,
     sc_preservedNodeIds = l_preserved l, sc_blockedNodeIds = l_blocked l, sc_reason = reason, sc_persistInvocation = None \<rparr>"

definition putResult :: "string \<Rightarrow> node_result \<Rightarrow> locals \<Rightarrow> locals" where
  "putResult nodeId r l = l\<lparr> l_results := mapSet nodeId r (l_results l) \<rparr>"

definition putState :: "string \<Rightarrow> node_state versioned \<Rightarrow> locals \<Rightarrow> locals" where
  "putState nodeId st l = l\<lparr> l_states := mapSet nodeId st (l_states l) \<rparr>"

definition addSelected :: "string \<Rightarrow> locals \<Rightarrow> locals" where
  "addSelected n l = l\<lparr> l_selected := setAdd n (l_selected l) \<rparr>"

definition addPreserved :: "string \<Rightarrow> locals \<Rightarrow> locals" where
  "addPreserved n l = l\<lparr> l_preserved := setAdd n (l_preserved l) \<rparr>"

definition addBlocked :: "string \<Rightarrow> locals \<Rightarrow> locals" where
  "addBlocked n l = l\<lparr> l_blocked := setAdd n (l_blocked l) \<rparr>"

definition throwLease :: "('s, 'a) sprog" where
  "throwLease = bindP (setL (\<lambda>l. l\<lparr> l_reconciliationRequired := True \<rparr>)) (\<lambda>_. throwP (leaseError None))"

text \<open>\<open>run = await updateAggregate(...); aggregateStatus = run.value.status\<close>\<close>

definition refreshAggregate :: "'s scheduler_input \<Rightarrow> int \<Rightarrow> ('s, unit) sprog" where
  "refreshAggregate i maxMs =
     bindP (getL (\<lambda>l. (l_run l, l_states l))) (\<lambda>(run, states).
     bindP (world (updateAggregate i maxMs run states)) (\<lambda>run'.
     setL (\<lambda>l. l\<lparr> l_run := run', l_aggregateStatus := nr_status (content run') \<rparr>)))"

end
