(* ===== verification/SchedulerRun.thy ===== *)
theory SchedulerRun
  imports Scheduler Cancel
begin

text \<open>
  \<open>runSequentialScheduler\<close> of \<open>src/orchestration/sequential-scheduler.ts\<close>: the recovery before a resumed run, the
  preparation of the node states, the step taken for one node of the order, the loop over the order and the closing
  of the invocation, also when something was thrown.
\<close>

section \<open>Before the loop\<close>

definition jobLogOf :: "'s scheduler_input \<Rightarrow> string \<Rightarrow> ('s, job_log_result option) prog" where
  "jobLogOf i = (case ss_findAttemptResult i of None \<Rightarrow> (\<lambda>_. throwP (PlainError ''Error'')) | Some lookup \<Rightarrow> lookup)"

definition patchAttempts :: "adjudication list \<Rightarrow> node_attempt versioned list \<Rightarrow> node_attempt versioned list" where
  "patchAttempts adjudications attempts =
     (if adjudications = [] then attempts
      else let byId = mapFromEntries (map (\<lambda>a. (ad_attemptId a, a)) adjudications) in
        map (\<lambda>a. case mapGet byId (na_node_attempt_id (content a)) of
            None \<Rightarrow> a
          | Some d \<Rightarrow> a\<lparr> content := (content a)\<lparr> na_status := ad_status d, na_result_code := ad_resultCode d \<rparr>,
                          revision := revision a + 1 \<rparr>) attempts)"

definition recoverRun :: "'s scheduler_input \<Rightarrow> int \<Rightarrow> ('s, unit) sprog" where
  "recoverRun i maxMs =
     (let R = ss_repository i; runId = nr_run_id (content (ss_run i));
          invocationId = ri_invocation_id (content (ss_invocation i)); confirm = ordinaryWrite (ss_monitor i) in
      if ri_mode (content (ss_invocation i)) = NEW then retP ()
      else bindP (world (controlPlane i maxMs (getAttempts R runId))) (\<lambda>attempts.
        bindP (setL (\<lambda>l. l\<lparr> l_attempts := attempts \<rparr>)) (\<lambda>_.
        bindP (world (adjudicateOrphanRunningAttempts R (ss_now i) (jobLogOf i) confirm runId invocationId (Some attempts))) (\<lambda>adjudications.
        bindP (setL (\<lambda>l. l\<lparr> l_attempts := patchAttempts adjudications attempts,
                            l_adjudicationReason := orphanAdjudicationReason adjudications \<rparr>)) (\<lambda>_.
        bindP (world (finalizeAbandonedInvocations R (ss_now i) (ss_randomUUID i) confirm runId invocationId)) (\<lambda>_.
        retP ()))))))"

definition excludedByStatus :: "node_state \<Rightarrow> bool" where
  "excludedByStatus v \<longleftrightarrow> ns_status v = UNKNOWN \<or> ((ns_status v = FAILED \<or> ns_status v = CANCELLED) \<and> \<not> ns_idempotent v)"

definition resetState :: "string \<Rightarrow> node_state \<Rightarrow> node_state" where
  "resetState at' v = v\<lparr> ns_status := WAITING, ns_active_attempt_id := None, ns_blocked_by := [], ns_status_reason := None,
     ns_finished_at := None, ns_updated_at := at' \<rparr>"

definition brakeReason :: "string \<Rightarrow> int \<Rightarrow> string" where
  "brakeReason kind n = ''RETRY_BRAKE:'' @ kind @ ''x'' @ stringOfInt n"

text \<open>One node of \<open>prepareResumeStates\<close>; the accumulator is \<open>excludedRoots\<close>.\<close>

definition prepareNode :: "'s scheduler_input \<Rightarrow> network_node \<Rightarrow> string list \<Rightarrow> ('s, string list) sprog" where
  "prepareNode i node roots =
     bindP (getL (\<lambda>l. (l_states l, l_attempts l))) (\<lambda>(states, attempts).
     bindP (liftP (requiredState states (nn_id node))) (\<lambda>state.
     let v = content state; R = ss_repository i; resume = (ri_mode (content (ss_invocation i)) = RESUME);
         roots' = (if excludedByStatus v then setAdd (nn_id node) roots else roots);
         resetBlocked = (resume \<and> ns_status v = BLOCKED);
         resetRetryable = (resume \<and> (ns_status v = FAILED \<or> ns_status v = CANCELLED) \<and> ns_idempotent v) in
     if ns_status v = SUCCESS then bindP (setL (addPreserved (nn_id node))) (\<lambda>_. retP roots)
     else (case (if resetRetryable then retryBrakeForNode attempts (nn_id node) else None) of
       Some (kind, n) \<Rightarrow>
         bindP (world (requireOrdinaryWrite (ss_monitor i))) (\<lambda>_.
         bindP (world (ss_now i)) (\<lambda>at'.
         bindP (world (writeNodeState R state (\<lambda>v. v\<lparr> ns_status_reason := Some (brakeReason kind n), ns_updated_at := at' \<rparr>))) (\<lambda>state'.
         bindP (setL (\<lambda>l. addBlocked (nn_id node) (putState (nn_id node) state' l))) (\<lambda>_.
         retP (setAdd (nn_id node) roots')))))
     | None \<Rightarrow>
         if resetBlocked \<or> resetRetryable then
           bindP (world (requireOrdinaryWrite (ss_monitor i))) (\<lambda>_.
           bindP (world (ss_now i)) (\<lambda>at'.
           bindP (world (writeNodeState R state (resetState at'))) (\<lambda>state'.
           bindP (setL (putState (nn_id node) state')) (\<lambda>_. retP roots'))))
         else retP roots')))"

definition prepareResumeStates :: "'s scheduler_input \<Rightarrow> network_definition \<Rightarrow> ('s, string list) sprog" where
  "prepareResumeStates i def =
     bindP (foldP (prepareNode i) (nd_nodes def) []) (\<lambda>roots.
     bindP (setL (\<lambda>l. foldl (\<lambda>l id'. addBlocked id' l) l roots)) (\<lambda>_.
     retP (descendantsIncludingRoots def roots)))"

text \<open>Lines 225 to 234: the brake reasons are appended to the reason of the invocation.\<close>

definition hasBrakeReason :: "locals \<Rightarrow> string \<Rightarrow> bool" where
  "hasBrakeReason l nodeId = (case mapGet (l_states l) nodeId of
     None \<Rightarrow> False
   | Some st \<Rightarrow> (case ns_status_reason (content st) of None \<Rightarrow> False | Some r \<Rightarrow> startsWith r ''RETRY_BRAKE:''))"

definition retryBrakeNodeIds :: "locals \<Rightarrow> string list" where
  "retryBrakeNodeIds l = filter (hasBrakeReason l) (l_blocked l)"

definition reasonOf :: "locals \<Rightarrow> string \<Rightarrow> string" where
  "reasonOf l nodeId = (case mapGet (l_states l) nodeId of
     None \<Rightarrow> [] | Some st \<Rightarrow> orElse (ns_status_reason (content st)) [])"

definition addBrakeReasons :: "locals \<Rightarrow> locals" where
  "addBrakeReasons l = (let ids = retryBrakeNodeIds l in
     if ids = [] then l
     else l\<lparr> l_adjudicationReason := Some (joinText ''; ''
       ((case l_adjudicationReason l of None \<Rightarrow> [] | Some r \<Rightarrow> [r]) @ map (reasonOf l) ids)) \<rparr>)"

section \<open>One node\<close>

definition failedStatus :: "status \<Rightarrow> bool" where
  "failedStatus st \<longleftrightarrow> st \<in> {FAILED, BLOCKED, CANCELLED, UNKNOWN}"

definition failedDependencies :: "node_state versioned list \<Rightarrow> string list" where
  "failedDependencies deps = map (\<lambda>s. ns_node_id (content s)) (filter (\<lambda>s. failedStatus (ns_status (content s))) deps)"

definition isDescendantThatMustBlock :: "string \<Rightarrow> node_state versioned \<Rightarrow> bool" where
  "isDescendantThatMustBlock nodeId state \<longleftrightarrow> ns_node_id (content state) = nodeId \<and> ns_status (content state) = WAITING"

definition blockedState :: "string list \<Rightarrow> string \<Rightarrow> string \<Rightarrow> node_state \<Rightarrow> node_state" where
  "blockedState failed finishedAt updatedAt v = v\<lparr> ns_status := BLOCKED, ns_blocked_by := failed,
     ns_status_reason := Some ''ALL_SUCCESS_NOT_SATISFIED'', ns_finished_at := Some finishedAt, ns_updated_at := updatedAt \<rparr>"

definition blockNode :: "'s scheduler_input \<Rightarrow> int \<Rightarrow> string \<Rightarrow> node_state versioned \<Rightarrow> string list \<Rightarrow> ('s, unit) sprog" where
  "blockNode i maxMs nodeId state failed =
     bindP (world (ordinaryWrite (ss_monitor i))) (\<lambda>ok.
     if \<not> ok then throwLease
     else bindP (world (ss_now i)) (\<lambda>finishedAt.
       bindP (world (ss_now i)) (\<lambda>updatedAt.
       bindP (world (writeNodeState (ss_repository i) state (blockedState failed finishedAt updatedAt))) (\<lambda>state'.
       bindP (setL (\<lambda>l. putResult nodeId (nodeResult nodeId D_BLOCKED state') (addBlocked nodeId (putState nodeId state' l)))) (\<lambda>_.
       refreshAggregate i maxMs)))))"

text \<open>Lines 315 to 343: the cancel request that holds when the node is about to start.\<close>

definition isConflict :: "js_error \<Rightarrow> bool" where
  "isConflict e = (case e of RepositoryError code _ \<Rightarrow> code = REVISION_CONFLICT | _ \<Rightarrow> False)"

definition acceptedRequest :: "string \<Rightarrow> cancel_request \<Rightarrow> cancel_request" where
  "acceptedRequest at' c = c\<lparr> cr_state := CR_ACCEPTED, cr_accepted_at := Some at' \<rparr>"

definition effectiveCancel :: "'s scheduler_input \<Rightarrow> int \<Rightarrow> ('s, cancel_request versioned option) prog" where
  "effectiveCancel i maxMs =
     (let R = ss_repository i; runId = nr_run_id (content (ss_run i)) in
      bindP (controlPlane i maxMs (getCancelRequest R runId)) (\<lambda>request.
      case request of
        None \<Rightarrow> retP None
      | Some r \<Rightarrow>
          if cr_state (content r) = CR_REQUESTED then
            catchP (someP (controlPlane i maxMs (bindP (ss_now i) (\<lambda>at'.
                      updateCancelRequest R runId (revision r) (acceptedRequest at' (content r))))))
              (\<lambda>error. if isConflict error then controlPlane i maxMs (getCancelRequest R runId) else throwP error)
          else retP (Some r)))"

definition runningState :: "string \<Rightarrow> node_attempt versioned \<Rightarrow> string \<Rightarrow> node_state \<Rightarrow> node_state" where
  "runningState attemptId attempt startedAt v = v\<lparr> ns_status := RUNNING, ns_latest_attempt_no := na_attempt_no (content attempt),
     ns_active_attempt_id := Some attemptId, ns_blocked_by := [], ns_status_reason := None, ns_started_at := Some startedAt,
     ns_finished_at := None, ns_updated_at := startedAt \<rparr>"

record started_node =
  st_attemptId :: string
  st_attempt :: "node_attempt versioned"
  st_state :: "node_state versioned"
  st_startedAt :: string

definition startNode :: "'s scheduler_input \<Rightarrow> node_state versioned \<Rightarrow> ('s, started_node) prog" where
  "startNode i state =
     bindP (ss_uuid i) (\<lambda>u.
     let attemptId = ''attempt_'' @ u in
     bindP (createAttempt (ss_repository i) \<lparr> ca_node_state = state, ca_node_attempt_id = attemptId,
         ca_invocation_id = ri_invocation_id (content (ss_invocation i)) \<rparr>) (\<lambda>attempt.
     bindP (ss_now i) (\<lambda>startedAt.
     bindP (writeNodeState (ss_repository i) state (runningState attemptId attempt startedAt)) (\<lambda>state'.
     retP \<lparr> st_attemptId = attemptId, st_attempt = attempt, st_state = state', st_startedAt = startedAt \<rparr>))))"

text \<open>Lines 387 to 425: the files of the node and the comparison with the previous attempt.\<close>

definition nodeFiles :: "'s scheduler_input \<Rightarrow> string list \<Rightarrow> node_attempt versioned list \<Rightarrow> network_node \<Rightarrow>
  ('s, input_baseline list \<times> (string \<times> string) list) prog" where
  "nodeFiles i selected attempts node =
     bindP (nodeImports i node) (\<lambda>imports.
     bindP (nodeExports i node) (\<lambda>exports.
     bindP (liftP (checkBaseline (ri_mode (content (ss_invocation i))) selected attempts (nn_id node) imports)) (\<lambda>_.
     retP (imports, exports))))"

definition keepBaseline :: "'s scheduler_input \<Rightarrow> int \<Rightarrow> node_attempt versioned \<Rightarrow> input_baseline list \<Rightarrow> ('s, node_attempt versioned) prog" where
  "keepBaseline i maxMs attempt imports =
     (if imports = [] then retP attempt
      else bindP (liftP (serializeInputBaseline imports)) (persistInputBaseline i maxMs attempt))"

text \<open>\<open>extractBundle\<close> refuses a bundle without a SQL path for a node (lines 1105 to 1107), so the path is there.\<close>

definition executorInput :: "'s scheduler_input \<Rightarrow> extracted_bundle \<Rightarrow> network_node \<Rightarrow> started_node \<Rightarrow> node_attempt versioned \<Rightarrow>
  input_baseline list \<Rightarrow> (string \<times> string) list \<Rightarrow> executor_input" where
  "executorInput i ex node started attempt imports exports =
     (let run = content (ss_run i) in
      \<lparr> ei_attempt = attempt, ei_nodeState = st_state started, ei_sqlPath = getOr [] (ex_sqlPaths ex) (nn_id node),
        ei_profile = ss_profile i, ei_configPath = ss_configPath i, ei_asOf = orElse (nr_as_of run) (nr_created_at run),
        ei_correlationId = nr_run_id run, ei_attemptId = st_attemptId started, ei_expectedJobId = nn_job_id node,
        ei_imports = imports, ei_exports = exports, ei_executionStartedAt = st_startedAt started \<rparr>)"

text \<open>The \<open>try\<close> block of lines 386 to 452: the attempt as it then is, and what was thrown or returned.\<close>

definition tryNode :: "'s scheduler_input \<Rightarrow> int \<Rightarrow> extracted_bundle \<Rightarrow> string list \<Rightarrow> node_attempt versioned list \<Rightarrow> network_node \<Rightarrow>
  started_node \<Rightarrow> ('s, node_attempt versioned \<times> (js_error + execution_outcome)) prog" where
  "tryNode i maxMs ex selected attempts node started =
     bindP (attemptP (nodeFiles i selected attempts node)) (\<lambda>files.
     case files of
       Inl e \<Rightarrow> retP (st_attempt started, Inl e)
     | Inr (imports, exports) \<Rightarrow>
         bindP (attemptP (keepBaseline i maxMs (st_attempt started) imports)) (\<lambda>kept.
         case kept of
           Inl e \<Rightarrow> retP (st_attempt started, Inl e)
         | Inr attempt \<Rightarrow>
             bindP (attemptP (ss_execute i (schedulerControlPlane i maxMs) (Some (persistGate (ss_monitor i)))
                 (executorInput i ex node started attempt imports exports))) (\<lambda>outcome.
             retP (attempt, outcome))))"

definition runNode :: "'s scheduler_input \<Rightarrow> int \<Rightarrow> extracted_bundle \<Rightarrow> network_node \<Rightarrow> started_node \<Rightarrow> ('s, execution_outcome) sprog" where
  "runNode i maxMs ex node started =
     bindP (getL (\<lambda>l. (l_selected l, l_attempts l))) (\<lambda>(selected, attempts).
     bindP (world (tryNode i maxMs ex selected attempts node started)) (\<lambda>(attempt, outcome).
     case outcome of
       Inr x \<Rightarrow> retP x
     | Inl error \<Rightarrow> (case ioErrorCode error of
         None \<Rightarrow> throwP error
       | Some code \<Rightarrow> bindP (world (persistGate (ss_monitor i))) (\<lambda>authorized.
           if \<not> authorized then throwLease
           else bindP (world (ss_now i)) (\<lambda>finishedAt.
             world (finalizeIoPathFailure i maxMs attempt (st_state started) error code finishedAt))))))"

definition isIoResultCode :: "string \<Rightarrow> bool" where
  "isIoResultCode c \<longleftrightarrow> c = ''INPUT_FILE_MISSING'' \<or> c = ''INPUT_FILE_MUTATED'' \<or> c = ''OUTPUT_PATH_REJECTED''"

definition outcomeResult :: "string \<Rightarrow> execution_outcome \<Rightarrow> node_result" where
  "outcomeResult nodeId x =
     \<lparr> rs_nodeId = nodeId,
       rs_disposition = (if ns_status (content (eo_nodeState x)) = WAITING then D_DEFERRED else D_EXECUTED),
       rs_status = ns_status (content (eo_nodeState x)), rs_attemptNo = Some (na_attempt_no (content (eo_attempt x))),
       rs_resultCode = Some (na_result_code (content (eo_attempt x))) \<rparr>"

definition recordOutcome :: "string \<Rightarrow> execution_outcome \<Rightarrow> locals \<Rightarrow> locals" where
  "recordOutcome nodeId x l =
     (let l1 = (case eo_invocationResultCode x of
                  Some c \<Rightarrow> if isIoResultCode c then l\<lparr> l_ioFailure := Some c \<rparr> else l
                | None \<Rightarrow> l) in
      putResult nodeId (outcomeResult nodeId x) (putState nodeId (eo_nodeState x) l1))"

text \<open>Lines 366 to 513; the result says whether the loop is left.\<close>

definition executeNode :: "'s scheduler_input \<Rightarrow> int \<Rightarrow> extracted_bundle \<Rightarrow> network_node \<Rightarrow> node_state versioned \<Rightarrow> ('s, bool) sprog" where
  "executeNode i maxMs ex node state =
     bindP (world (startNode i state)) (\<lambda>started.
     bindP (setL (putState (nn_id node) (st_state started))) (\<lambda>_.
     bindP (runNode i maxMs ex node started) (\<lambda>outcome.
     bindP (setL (recordOutcome (nn_id node) outcome)) (\<lambda>_.
     bindP (refreshAggregate i maxMs) (\<lambda>_.
     bindP (world (readP (sm_requiresInterrupted (ss_monitor i)))) (\<lambda>interrupted.
     if interrupted
     then bindP (setL (\<lambda>l. l\<lparr> l_close := Some (finalization CANCELLED ''NETWORK_LEASE_INTERRUPTED'' l (l_adjudicationReason l)) \<rparr>))
            (\<lambda>_. retP True)
     else retP False))))))"

text \<open>Lines 314 to 364: a selected node that waits for nothing.\<close>

definition readyNode :: "'s scheduler_input \<Rightarrow> int \<Rightarrow> extracted_bundle \<Rightarrow> network_node \<Rightarrow> node_state versioned \<Rightarrow> ('s, bool) sprog" where
  "readyNode i maxMs ex node state =
     (let nodeId = nn_id node; deferred = putResult nodeId (nodeResult nodeId D_DEFERRED state) in
      bindP (setL (addSelected nodeId)) (\<lambda>_.
      bindP (world (effectiveCancel i maxMs)) (\<lambda>cancel.
      if isCancelHold cancel then
        bindP (setL (\<lambda>l. (deferred l)\<lparr> l_close := Some (finalization CANCELLED ''STOP_REQUESTED'' l
             (Some (''cancel request CANCEL:'' @ nr_run_id (content (ss_run i)) @ '' accepted''))) \<rparr>)) (\<lambda>_. retP True)
      else bindP (world (readP (sm_canStartNewNode (ss_monitor i)))) (\<lambda>canStart.
        if \<not> canStart then bindP (setL deferred) (\<lambda>_. retP True)
        else bindP (world (ordinaryWrite (ss_monitor i))) (\<lambda>ok.
          if \<not> ok then throwLease else executeNode i maxMs ex node state)))))"

definition recordNode :: "string \<Rightarrow> disposition \<Rightarrow> node_state versioned \<Rightarrow> (locals \<Rightarrow> locals) \<Rightarrow> ('s, bool) sprog" where
  "recordNode nodeId d state f = bindP (setL (\<lambda>l. putResult nodeId (nodeResult nodeId d state) (f l))) (\<lambda>_. retP False)"

definition nodeStep :: "'s scheduler_input \<Rightarrow> int \<Rightarrow> extracted_bundle \<Rightarrow> string list \<Rightarrow> network_node \<Rightarrow> ('s, bool) sprog" where
  "nodeStep i maxMs ex excluded node =
     (let nodeId = nn_id node in
      bindP (getL (\<lambda>l. (l_states l, l_selected l))) (\<lambda>(states, selected).
      bindP (liftP (requiredState states nodeId)) (\<lambda>state.
      let st = ns_status (content state) in
      if ri_mode (content (ss_invocation i)) = RERUN_FROM \<and> nodeId \<notin> set selected then
        (if st = SUCCESS then recordNode nodeId D_PRESERVED state (addPreserved nodeId)
         else recordNode nodeId D_EXCLUDED state id)
      else if st = SUCCESS then recordNode nodeId D_PRESERVED state (addPreserved nodeId)
      else if nodeId \<in> set excluded \<and> \<not> isDescendantThatMustBlock nodeId state then
        recordNode nodeId D_EXCLUDED state (addBlocked nodeId)
      else bindP (liftP (requiredStates states (nn_depends_on node))) (\<lambda>deps.
        if failedDependencies deps \<noteq> [] \<or> nodeId \<in> set excluded then
          bindP (blockNode i maxMs nodeId state (failedDependencies deps)) (\<lambda>_. retP False)
        else if list_ex (\<lambda>d. ns_status (content d) = WAITING \<or> ns_status (content d) = RUNNING) deps then
          recordNode nodeId D_DEFERRED state (addSelected nodeId)
        else if st \<noteq> WAITING then recordNode nodeId D_EXCLUDED state (addBlocked nodeId)
        else readyNode i maxMs ex node state))))"

section \<open>The loop and the end\<close>

fun nodeLoop :: "'s scheduler_input \<Rightarrow> int \<Rightarrow> extracted_bundle \<Rightarrow> string list \<Rightarrow> network_node jsmap \<Rightarrow> string list \<Rightarrow> ('s, unit) sprog" where
  "nodeLoop i maxMs ex excluded nodes [] = retP ()"
| "nodeLoop i maxMs ex excluded nodes (nodeId # rest) =
     (case mapGet nodes nodeId of
        None \<Rightarrow> throwP (PlainError ''TypeError'')
      | Some node \<Rightarrow> bindP (nodeStep i maxMs ex excluded node) (\<lambda>stop.
          if stop then retP () else nodeLoop i maxMs ex excluded nodes rest))"

definition closeOfRun :: "locals \<Rightarrow> scheduler_close" where
  "closeOfRun l = (case invocationOutcome (l_aggregateStatus l) of (st, code) \<Rightarrow>
     finalization st (case l_ioFailure l of Some c \<Rightarrow> if st = FAILED then c else code | None \<Rightarrow> code) l (l_adjudicationReason l))"

fun resultsInOrder :: "locals \<Rightarrow> string list \<Rightarrow> js_error + node_result list" where
  "resultsInOrder l [] = Inr []"
| "resultsInOrder l (nodeId # rest) =
     (case (case mapGet (l_results l) nodeId of
              Some r \<Rightarrow> Inr r
            | None \<Rightarrow> (case requiredState (l_states l) nodeId of Inl e \<Rightarrow> Inl e | Inr st \<Rightarrow> Inr (nodeResult nodeId D_DEFERRED st))) of
        Inl e \<Rightarrow> Inl e
      | Inr r \<Rightarrow> (case resultsInOrder l rest of Inl e \<Rightarrow> Inl e | Inr rs \<Rightarrow> Inr (r # rs)))"

definition closeRun :: "'s scheduler_input \<Rightarrow> string list \<Rightarrow> string list \<Rightarrow> scheduler_close \<Rightarrow> ('s, scheduler_summary) sprog" where
  "closeRun i order brakeIds c =
     bindP (world (sm_stop (ss_monitor i))) (\<lambda>_.
     bindP (world (ss_close i c)) (\<lambda>_.
     bindP (getL (\<lambda>l. l)) (\<lambda>l.
     bindP (liftP (resultsInOrder l order)) (\<lambda>results.
     retP \<lparr> su_nodeResults = results, su_aggregateStatus = l_aggregateStatus l, su_invocationStatus = sc_status c,
       su_invocationResultCode = sc_resultCode c, su_selectedNodeIds = l_selected l, su_preservedNodeIds = l_preserved l,
       su_blockedNodeIds = l_blocked l, su_retryBrakeNodeIds = brakeIds, su_reconciliationRequired = l_reconciliationRequired l \<rparr>))))"

definition finishRun :: "'s scheduler_input \<Rightarrow> int \<Rightarrow> string list \<Rightarrow> string list \<Rightarrow> ('s, scheduler_summary) sprog" where
  "finishRun i maxMs order brakeIds =
     bindP (getL l_close) (\<lambda>given.
     case given of
       Some c \<Rightarrow> closeRun i order brakeIds c
     | None \<Rightarrow> bindP (refreshAggregate i maxMs) (\<lambda>_.
         bindP (getL closeOfRun) (\<lambda>c.
         bindP (setL (\<lambda>l. l\<lparr> l_close := Some c \<rparr>)) (\<lambda>_.
         closeRun i order brakeIds c))))"

text \<open>Lines 165 to 223.\<close>

definition prepareRun :: "'s scheduler_input \<Rightarrow> ('s, extracted_bundle \<times> string list) sprog" where
  "prepareRun i =
     bindP (world (ss_extract i)) (\<lambda>ex.
     let maxMs = nl_lease_duration_sec (nd_network_lock (ex_definition ex)) * 1000 in
     bindP (setL (\<lambda>l. l\<lparr> l_directory := Some (ex_directory ex) \<rparr>)) (\<lambda>_.
     bindP (world (ensureRunStarted i)) (\<lambda>run.
     bindP (setL (\<lambda>l. l\<lparr> l_run := run \<rparr>)) (\<lambda>_.
     bindP (recoverRun i maxMs) (\<lambda>_.
     bindP (world (getNodeStates (ss_repository i) (nr_run_id (content (ss_run i))))) (\<lambda>list.
     bindP (setL (\<lambda>l. l\<lparr> l_states := stateMap list \<rparr>)) (\<lambda>_.
     bindP (prepareResumeStates i (ex_definition ex)) (\<lambda>excluded.
     retP (ex, excluded)))))))))"

definition runBody :: "'s scheduler_input \<Rightarrow> ('s, scheduler_summary) sprog" where
  "runBody i =
     bindP (prepareRun i) (\<lambda>(ex, excluded).
     bindP (getL retryBrakeNodeIds) (\<lambda>brakeIds.
     bindP (setL addBrakeReasons) (\<lambda>_.
     let maxMs = nl_lease_duration_sec (nd_network_lock (ex_definition ex)) * 1000;
         nodes = nd_nodes (ex_definition ex);
         order = ts_order (stableTopologicalSort nodes) in
     bindP (nodeLoop i maxMs ex excluded (mapFromEntries (map (\<lambda>n. (nn_id n, n)) nodes)) order) (\<lambda>_.
     finishRun i maxMs order brakeIds))))"

fun hasCode :: "string \<Rightarrow> js_error \<Rightarrow> bool" where
  "hasCode c (SchedulerLeaseInterruptedError _ _) = (c = ''NETWORK_LEASE_INTERRUPTED'')"
| "hasCode c (CanonicalKeyError code _) = (c = code)"
| "hasCode c (DescendantsError code) = (c = code)"
| "hasCode c (CancelRequestError code) = (c = code)"
| "hasCode c (ResolveNodeError code) = (c = code)"
| "hasCode c (JobLockAuditError code) = (c = code)"
| "hasCode c (EnsureRunError code _ _) = (c = code)"
| "hasCode c (InputPathError code) = (c = code)"
| "hasCode c (CodedError code) = (c = code)"
| "hasCode c _ = False"

definition failureClose :: "locals \<Rightarrow> js_error \<Rightarrow> scheduler_close" where
  "failureClose l error =
     (if hasCode ''NETWORK_LEASE_INTERRUPTED'' error
      then (finalization CANCELLED ''NETWORK_LEASE_INTERRUPTED'' l (l_adjudicationReason l))\<lparr> sc_persistInvocation := Some False \<rparr>
      else finalization FAILED ''SCHEDULER_FAILED'' l (l_adjudicationReason l))"

text \<open>The \<open>catch\<close> and the \<open>finally\<close> block.\<close>

definition handleFailure :: "'s scheduler_input \<Rightarrow> locals \<Rightarrow> js_error \<Rightarrow> ('s, scheduler_summary) prog" where
  "handleFailure i l error =
     (if l_close l \<noteq> None then throwP error
      else bindP (attemptP (bindP (sm_stop (ss_monitor i)) (\<lambda>_. ss_close i (failureClose l error)))) (\<lambda>r.
        case r of
          Inl closeError \<Rightarrow> throwP (AggregateError [error, closeError] (Some closeError))
        | Inr _ \<Rightarrow> throwP error))"

definition cleanUp :: "'s scheduler_input \<Rightarrow> locals \<Rightarrow> ('s, unit) prog" where
  "cleanUp i l = bindP (sm_stop (ss_monitor i)) (\<lambda>_.
     case l_directory l of None \<Rightarrow> retP () | Some d \<Rightarrow> ss_removeDirectory i d)"

definition settleRun :: "'s scheduler_input \<Rightarrow> locals \<Rightarrow> js_error + scheduler_summary \<Rightarrow> ('s, scheduler_summary) prog" where
  "settleRun i l outcome =
     bindP (attemptP (case outcome of Inr summary \<Rightarrow> retP summary | Inl error \<Rightarrow> handleFailure i l error)) (\<lambda>r.
     bindP (cleanUp i l) (\<lambda>_. liftP r))"

definition runSequentialScheduler :: "'s scheduler_input \<Rightarrow> ('s, scheduler_summary) prog" where
  "runSequentialScheduler i =
     bindP (sm_start (ss_monitor i)) (\<lambda>_ s.
       case runBody i (s, initialLocals i) of (r, (s1, l)) \<Rightarrow> settleRun i l r s1)"

end
