(* ===== verification/DrainProps.thy ===== *)
theory DrainProps
  imports SchedulerRun
begin

text \<open>
  The drain of the control plane (\<open>controlPlaneDrainRunner\<close> of \<open>src/orchestration/sequential-scheduler.ts\<close>): an operation is
  repeated only right after the lease was confirmed before the deadline, and the drain ends. And the retry brake: how it
  counts.
\<close>

section \<open>The drain ends\<close>

text \<open>
  \<open>clk\<close> is the clock in milliseconds: no call turns it back, and a positive sleep advances it. The clock, the sleep and the
  confirmation of the lease do not throw. Only setting the deadline changes it.
\<close>

definition goesOn :: "'s scheduler_input \<Rightarrow> ('s \<Rightarrow> int) \<Rightarrow> 's \<Rightarrow> 's \<Rightarrow> bool" where
  "goesOn i clk s t \<longleftrightarrow> clk s \<le> clk t \<and> ss_deadline i t = ss_deadline i s"

definition drains :: "'s scheduler_input \<Rightarrow> ('s \<Rightarrow> int) \<Rightarrow> ('s, 'a) prog \<Rightarrow> bool" where
  "drains i clk op \<longleftrightarrow> 0 < ss_retryDelayMs i \<and>
     (\<forall>s. \<exists>t. ss_nowMs i s = (Inr (clk s), t) \<and> goesOn i clk s t) \<and>
     (\<forall>d s. \<exists>t. ss_sleep i d s = (Inr (), t) \<and> goesOn i clk s t \<and> (0 < d \<longrightarrow> clk s < clk t)) \<and>
     (\<forall>s. \<exists>b t. sm_confirmLease (ss_monitor i) s = (Inr b, t) \<and> goesOn i clk s t) \<and>
     (\<forall>s. goesOn i clk s (sm_markUnreachable (ss_monitor i) s)) \<and>
     (\<forall>d s. clk s \<le> clk (ss_setDeadline i d s) \<and> ss_deadline i (ss_setDeadline i d s) = Some d) \<and>
     (\<forall>s. goesOn i clk s (snd (op s)))"

lemma goesOn_trans: "goesOn i clk s t \<Longrightarrow> goesOn i clk t u \<Longrightarrow> goesOn i clk s u"
  by (simp add: goesOn_def)

text \<open>
  What may happen after a transport failure \<open>e\<close> that left the state \<open>s\<close>: the list holds the further calls of the operation in
  their order, each with the state it started from, its answer and the state it left. Each call starts from the state in which
  the confirmation of the lease said yes, which had begun when the clock had just shown less than the deadline. A call that
  fails in transport is followed by the next one, any other answer is the answer of the drain. Without a further call the
  lease counts as interrupted by the failure of the last call, and the deadline is over.
\<close>

definition transportFailed :: "js_error + 'a \<Rightarrow> bool" where
  "transportFailed x \<longleftrightarrow> (case x of Inl e \<Rightarrow> isKintoneTransportFailure e | Inr _ \<Rightarrow> False)"

definition confirmedBefore :: "'s scheduler_input \<Rightarrow> ('s \<Rightarrow> int) \<Rightarrow> int \<Rightarrow> 's \<Rightarrow> bool" where
  "confirmedBefore i clk deadline u \<longleftrightarrow> (\<exists>w0 w. ss_nowMs i w0 = (Inr (clk w0), w) \<and> clk w0 < deadline \<and>
     sm_confirmLease (ss_monitor i) w = (Inr True, u))"

fun retried :: "'s scheduler_input \<Rightarrow> ('s \<Rightarrow> int) \<Rightarrow> int \<Rightarrow> ('s, 'a) prog \<Rightarrow> js_error \<Rightarrow> 's \<Rightarrow>
    ('s \<times> (js_error + 'a) \<times> 's) list \<Rightarrow> js_error + 'a \<Rightarrow> 's \<Rightarrow> bool" where
  "retried i clk deadline op e s [] r t \<longleftrightarrow>
     clk s \<le> clk t \<and> deadline \<le> clk t \<and> r = Inl (leaseError (Some e))"
| "retried i clk deadline op e s ((u, x, v) # calls) r t \<longleftrightarrow>
     clk s \<le> clk u \<and> confirmedBefore i clk deadline u \<and> op u = (x, v) \<and>
     (if transportFailed x then retried i clk deadline op (projl x) v calls r t else calls = [] \<and> r = x \<and> t = v)"

lemma retried_later: "retried i clk deadline op e s calls r t \<Longrightarrow> clk s' \<le> clk s \<Longrightarrow> retried i clk deadline op e s' calls r t"
  by (cases calls) auto

text \<open>One round of the loop: the time is up, the lease is not confirmed, or the operation is called again.\<close>

lemma drainLoop_round:
  assumes d: "drains i clk op" and run: "drainLoop i deadline op (Suc n) e s = (r, t)"
  obtains "r = Inl (leaseError (Some e))" "goesOn i clk s t" "deadline \<le> clk t"
  | u where "clk s < deadline" "clk s < clk u" "goesOn i clk s u" "drainLoop i deadline op n e u = (r, t)"
  | u x v where "clk s < deadline" "clk s < clk u" "goesOn i clk s u" "confirmedBefore i clk deadline u" "op u = (x, v)" "goesOn i clk u v"
      "if transportFailed x then drainLoop i deadline op n (projl x) (sm_markUnreachable (ss_monitor i) v) = (r, t)
       else r = x \<and> t = v"
proof -
  obtain s1 where s1: "ss_nowMs i s = (Inr (clk s), s1)" "goesOn i clk s s1" using d unfolding drains_def by blast
  obtain s2 where s2: "ss_nowMs i s1 = (Inr (clk s1), s2)" "goesOn i clk s1 s2" using d unfolding drains_def by blast
  define pause where "pause = min (ss_retryDelayMs i) (max 0 (deadline - clk s1))"
  obtain s3 where s3: "ss_sleep i pause s2 = (Inr (), s3)" "goesOn i clk s2 s3" "0 < pause \<longrightarrow> clk s2 < clk s3"
    using d unfolding drains_def by blast
  obtain s4 where s4: "ss_nowMs i s3 = (Inr (clk s3), s4)" "goesOn i clk s3 s4" using d unfolding drains_def by blast
  obtain b u where u: "sm_confirmLease (ss_monitor i) s4 = (Inr b, u)" "goesOn i clk s4 u" using d unfolding drains_def by blast
  note go = s1(2) s2(2) s3(2) s4(2) u(2)
  have on: "goesOn i clk s s1" "goesOn i clk s s4" "goesOn i clk s u" using go by (simp_all add: goesOn_def)
  show thesis
  proof (cases "clk s < deadline \<and> clk s3 < deadline")
    case over: False
    then have "r = Inl (leaseError (Some e)) \<and> (t = s1 \<and> deadline \<le> clk s \<or> t = s4 \<and> deadline \<le> clk s3)"
      using run s1(1) s2(1) s3(1) s4(1) by (auto simp: pause_def split: if_splits)
    with on go that(1) show thesis by (auto simp: goesOn_def)
  next
    case True
    then have "0 < pause" using d s2 s3 by (auto simp: pause_def drains_def goesOn_def)
    then have later: "clk s < clk u" using go s3(3) by (auto simp: goesOn_def)
    show thesis
    proof (cases b)
      case False
      then have "drainLoop i deadline op n e u = (r, t)"
        using run True s1(1) s2(1) s3(1) s4(1) u(1) by (simp add: pause_def)
      with that(2) True later on(3) show thesis by blast
    next
      case b: True
      obtain x v where op: "op u = (x, v)" by fastforce
      have "if transportFailed x then drainLoop i deadline op n (projl x) (sm_markUnreachable (ss_monitor i) v) = (r, t)
          else r = x \<and> t = v"
        using run True s1(1) s2(1) s3(1) s4(1) u(1) b op
        by (auto simp: pause_def transportFailed_def split: sum.splits if_splits)
      moreover have "confirmedBefore i clk deadline u" unfolding confirmedBefore_def using s4(1) u(1) b True by (intro exI [of _ s3] exI [of _ s4]) simp
      moreover have "goesOn i clk u v" using d op unfolding drains_def by (metis snd_conv)
      ultimately show thesis using that(3) True later on(3) op by blast
    qed
  qed
qed

lemma drainLoop_retried:
  assumes d: "drains i clk op"
  shows "deadline - clk s < int n \<Longrightarrow> 0 < n \<Longrightarrow> drainLoop i deadline op n e s = (r, t) \<Longrightarrow>
    ss_deadline i t = ss_deadline i s \<and> (\<exists>calls. retried i clk deadline op e s calls r t)"
proof (induction n arbitrary: s e)
  case (Suc n)
  from d Suc.prems(3) show ?case
  proof (cases rule: drainLoop_round)
    case 1
    then have "retried i clk deadline op e s [] r t" "ss_deadline i t = ss_deadline i s" by (simp_all add: goesOn_def)
    then show ?thesis by blast
  next
    case (2 u)
    with Suc.prems(1) have "deadline - clk u < int n" "0 < n" by linarith+
    from Suc.IH [OF this 2(4)] obtain calls where "ss_deadline i t = ss_deadline i u" "retried i clk deadline op e u calls r t" by blast
    with retried_later [of i clk deadline op e u calls r t s] 2(3) show ?thesis by (auto simp: goesOn_def)
  next
    case (3 u x v)
    show ?thesis
    proof (cases "transportFailed x")
      case False
      with 3 have "retried i clk deadline op e s [(u, x, v)] r t" by (simp add: goesOn_def)
      moreover have "ss_deadline i t = ss_deadline i s" using 3 False by (simp add: goesOn_def)
      ultimately show ?thesis by blast
    next
      case True
      let ?w = "sm_markUnreachable (ss_monitor i) v"
      have w: "goesOn i clk v ?w" using d unfolding drains_def by blast
      with 3(2,6) Suc.prems(1) 3(1) have "deadline - clk ?w < int n" "0 < n" by (auto simp: goesOn_def)
      moreover have "drainLoop i deadline op n (projl x) ?w = (r, t)" using 3(7) True by simp
      ultimately obtain calls where "ss_deadline i t = ss_deadline i ?w" "retried i clk deadline op (projl x) ?w calls r t"
        using Suc.IH by blast
      with retried_later [of i clk deadline op "projl x" ?w calls r t v] w
      have c: "retried i clk deadline op (projl x) v calls r t" "ss_deadline i t = ss_deadline i v" by (auto simp: goesOn_def)
      with 3 True have "retried i clk deadline op e s ((u, x, v) # calls) r t" by (simp add: goesOn_def)
      moreover have "ss_deadline i t = ss_deadline i s" using c(2) 3(3,6) by (simp add: goesOn_def)
      ultimately show ?thesis by blast
    qed
  qed
qed simp

text \<open>The deadline: that of the run, or the time of its first transport failure and \<open>maxMs\<close> milliseconds.\<close>

definition drainEnd :: "'s scheduler_input \<Rightarrow> ('s \<Rightarrow> int) \<Rightarrow> int \<Rightarrow> 's \<Rightarrow> int" where
  "drainEnd i clk maxMs s = (case ss_deadline i s of Some d \<Rightarrow> d | None \<Rightarrow> clk s + maxMs)"

lemma drainDeadline_end:
  assumes "drains i clk op"
  shows "\<exists>t. drainDeadline i maxMs s = (Inr (drainEnd i clk maxMs s), t) \<and> clk s \<le> clk t \<and>
    ss_deadline i t = Some (drainEnd i clk maxMs s)"
proof (cases "ss_deadline i s")
  case None
  obtain u where u: "ss_nowMs i s = (Inr (clk s), u)" "goesOn i clk s u" using assms unfolding drains_def by blast
  have "clk u \<le> clk (ss_setDeadline i (clk s + maxMs) u)" "ss_deadline i (ss_setDeadline i (clk s + maxMs) u) = Some (clk s + maxMs)"
    using assms unfolding drains_def by blast+
  with u None show ?thesis by (auto simp: drainDeadline_def drainEnd_def goesOn_def)
qed (simp add: drainDeadline_def drainEnd_def)

text \<open>
  C16: The control plane always comes to an end and never repeats an operation blindly. The first answer that is no transport
  failure is the answer, and nothing else happens. After a transport failure there is one deadline for the whole run, \<open>maxMs\<close>
  milliseconds after the first such failure; it is kept for the operations to come. Each further call of the operation starts
  directly from a confirmation of the lease that began before the deadline, no call follows an answer, and without an answer
  the drain ends only after the deadline, with the error that the lease was interrupted, whose cause is the failure of the
  last call. One unit of fuel per millisecond of the drain is enough.
\<close>

theorem drain_terminates:
  assumes "drains i clk op" "\<forall>d. ss_deadline i s = Some d \<longrightarrow> d - clk s \<le> maxMs" "maxMs < int (ss_fuel i)" "0 \<le> maxMs"
    and run: "controlPlane i maxMs op s = (r, t)"
  shows "\<exists>x v. op s = (x, v) \<and>
    (if transportFailed x
     then ss_deadline i t = Some (drainEnd i clk maxMs v) \<and> (\<exists>calls. retried i clk (drainEnd i clk maxMs v) op (projl x) v calls r t)
     else r = x \<and> t = v)"
proof -
  note d = assms(1)
  obtain x v where op: "op s = (x, v)" by fastforce
  have v: "goesOn i clk s v" using d op unfolding drains_def by (metis snd_conv)
  have "if transportFailed x
     then ss_deadline i t = Some (drainEnd i clk maxMs v) \<and> (\<exists>calls. retried i clk (drainEnd i clk maxMs v) op (projl x) v calls r t)
     else r = x \<and> t = v"
  proof (cases "transportFailed x")
    case False
    then show ?thesis using run op by (auto simp: controlPlane_def bindP_run transportFailed_def split: sum.splits if_splits)
  next
    case True
    then obtain e where e: "x = Inl e" "isKintoneTransportFailure e" by (auto simp: transportFailed_def split: sum.splits)
    let ?limit = "drainEnd i clk maxMs v"
    obtain u where u: "drainDeadline i maxMs v = (Inr ?limit, u)" "clk v \<le> clk u" "ss_deadline i u = Some ?limit"
      using drainDeadline_end [OF d] by blast
    let ?w = "sm_markUnreachable (ss_monitor i) u"
    have w: "goesOn i clk u ?w" using d unfolding drains_def by blast
    have "?limit - clk v \<le> maxMs" using assms(2) v by (auto simp: drainEnd_def goesOn_def split: option.splits)
    with w u(2) assms(3,4) have "?limit - clk ?w < int (ss_fuel i)" "0 < ss_fuel i" by (auto simp: goesOn_def)
    moreover have "drainLoop i ?limit op (ss_fuel i) e ?w = (r, t)"
      using run op e u(1) by (simp add: controlPlane_def bindP_run)
    ultimately obtain calls where "ss_deadline i t = ss_deadline i ?w" "retried i clk ?limit op e ?w calls r t"
      using drainLoop_retried [OF d] by blast
    with retried_later [of i clk ?limit op e ?w calls r t v] w u(2,3) e True show ?thesis by (auto simp: goesOn_def)
  qed
  with op show ?thesis by blast
qed

text \<open>A sample: a clock in the world, a lease that is always confirmed and an operation that reaches kintone after 1.5 seconds.\<close>

definition drainMonitor :: "(int \<times> int option) scheduler_monitor" where
  "drainMonitor = \<lparr> sm_canStartNewNode = (\<lambda>_. True), sm_canPersistResults = (\<lambda>_. True), sm_confirmLease = retP True,
     sm_requiresInterrupted = (\<lambda>_. False), sm_markUnreachable = id, sm_tick = None, sm_start = retP (), sm_stop = retP () \<rparr>"

definition drainInput :: "(int \<times> int option) scheduler_input" where
  "drainInput = undefined\<lparr> ss_monitor := drainMonitor, ss_retryDelayMs := 1000, ss_nowMs := readP fst,
     ss_sleep := (\<lambda>d. writeP (\<lambda>(now, deadline). (now + max 0 d, deadline))), ss_deadline := snd,
     ss_setDeadline := (\<lambda>ms (now, _). (now, Some ms)), ss_fuel := 300001 \<rparr>"

definition lateAnswer :: "(int \<times> int option, unit) prog" where
  "lateAnswer s = (if fst s < 1500 then (Inl KintoneTransportError, s) else (Inr (), s))"

lemma drain_terminates_witness:
  "\<exists>calls. controlPlane drainInput 300000 lateAnswer (0, None) = (Inr (), (2000, Some 300000)) \<and>
     retried drainInput fst 300000 lateAnswer KintoneTransportError (0, None) calls (Inr ()) (2000, Some 300000)"
proof -
  have d: "drains drainInput fst lateAnswer" by (auto simp: drains_def goesOn_def drainInput_def drainMonitor_def lateAnswer_def)
  have fuel: "ss_fuel drainInput = Suc (Suc 299999)" by (simp add: drainInput_def)
  have parts: "ss_monitor drainInput = drainMonitor" "ss_retryDelayMs drainInput = 1000" "ss_nowMs drainInput = readP fst"
    "ss_sleep drainInput = (\<lambda>d. writeP (\<lambda>(now, deadline). (now + max 0 d, deadline)))" "ss_deadline drainInput = snd"
    "ss_setDeadline drainInput = (\<lambda>ms (now, _). (now, Some ms))" by (simp_all add: drainInput_def)
  have run: "controlPlane drainInput 300000 lateAnswer (0, None) = (Inr (), (2000, Some 300000))"
    unfolding controlPlane_def fuel drainLoop.simps by (simp add: parts drainMonitor_def drainDeadline_def lateAnswer_def)
  have "\<exists>x v. lateAnswer (0, None) = (x, v) \<and>
    (if transportFailed x
     then ss_deadline drainInput (2000, Some 300000) = Some (drainEnd drainInput fst 300000 v) \<and>
       (\<exists>calls. retried drainInput fst (drainEnd drainInput fst 300000 v) lateAnswer (projl x) v calls (Inr ()) (2000, Some 300000))
     else Inr () = x \<and> (2000, Some 300000) = v)"
    by (rule drain_terminates [OF d _ _ _ run]) (simp_all add: drainInput_def)
  then show ?thesis using run by (simp add: lateAnswer_def transportFailed_def drainEnd_def) (simp add: drainInput_def)
qed

section \<open>The retry brake\<close>

definition prepareFailed :: "node_attempt \<Rightarrow> bool" where
  "prepareFailed v \<longleftrightarrow> na_status v = CANCELLED \<and> na_result_code v = ''PREPARE_FAILED''"

definition failedWith :: "string \<Rightarrow> node_attempt \<Rightarrow> bool" where
  "failedWith kind v \<longleftrightarrow> na_status v = FAILED \<and> trim (na_result_code v) = kind"

definition failureStreak :: "node_attempt versioned list \<Rightarrow> string \<Rightarrow> node_attempt list" where
  "failureStreak attempts kind =
     takeWhile (failedWith kind) (filter (\<lambda>v. \<not> prepareFailed v) (map content attempts))"

lemma brakeCount_kind:
  "kind \<noteq> [] \<Longrightarrow> brakeCount attempts (Some kind) n = (Some kind, n + int (length (failureStreak attempts kind)))"
  by (induction attempts arbitrary: n)
    (auto simp: failureStreak_def failedWith_def prepareFailed_def Let_def orElse_def)

lemma brakeCount_start:
  "(\<exists>n. brakeCount attempts None 0 = (None, n)) \<and> (\<forall>kind. kind \<noteq> [] \<longrightarrow> failureStreak attempts kind = []) \<or>
   (\<exists>kind. kind \<noteq> [] \<and> brakeCount attempts None 0 = (Some kind, int (length (failureStreak attempts kind))) \<and>
      (\<forall>k. k \<noteq> kind \<longrightarrow> failureStreak attempts k = []))"
proof (induction attempts)
  case (Cons a attempts)
  let ?v = "content a"
  show ?case
  proof (cases "prepareFailed ?v")
    case True
    then show ?thesis using Cons by (simp add: failureStreak_def prepareFailed_def Let_def)
  next
    case relevant: False
    show ?thesis
    proof (cases "na_status ?v = FAILED \<and> trim (na_result_code ?v) \<noteq> []")
      case True
      then have "brakeCount (a # attempts) None 0 =
          (Some (trim (na_result_code ?v)), int (length (failureStreak (a # attempts) (trim (na_result_code ?v)))))"
        using relevant by (simp add: Let_def prepareFailed_def orElse_def brakeCount_kind) (simp add: failureStreak_def failedWith_def prepareFailed_def)
      moreover have "failureStreak (a # attempts) k = []" if "k \<noteq> trim (na_result_code ?v)" for k
        using that relevant by (simp add: failureStreak_def failedWith_def)
      ultimately show ?thesis using True by blast
    next
      case False
      then show ?thesis using relevant
        by (auto simp: Let_def prepareFailed_def failureStreak_def failedWith_def)
    qed
  qed
qed (simp add: failureStreak_def)

text \<open>
  C17: The retry brake holds a node exactly when the newest attempts that got as far as running, at least three of them,
  all failed with the same result code (compared without surrounding blanks, and not blank); the count it reports
  is the length of that streak. Attempts that failed in preparation neither count nor break the streak.
\<close>

theorem retry_brake_iff_streak:
  "retryBrakeForNode attempts nodeId = Some (kind, n) \<longleftrightarrow>
     kind \<noteq> [] \<and> n = int (length (failureStreak (latestFirst attempts nodeId) kind)) \<and> 3 \<le> n"
  using brakeCount_start [of "latestFirst attempts nodeId"]
proof (elim disjE exE conjE)
  fix k
  let ?streak = "failureStreak (latestFirst attempts nodeId)"
  assume k: "k \<noteq> []" "brakeCount (latestFirst attempts nodeId) None 0 = (Some k, int (length (?streak k)))"
    and "\<forall>k'. k' \<noteq> k \<longrightarrow> ?streak k' = []"
  then have "k = kind \<or> length (?streak kind) = 0" by auto
  with k show ?thesis by (auto simp: retryBrakeForNode_def)
qed (auto simp: retryBrakeForNode_def)

end
