(* ===== verification/BusinessKey.thy ===== *)
theory BusinessKey
  imports Model
begin

text \<open>
  Business keys, \<open>src/domain/business-key.ts\<close>: the scheduled timestamp, the placeholders of a period format and the
  key itself. Parameters are what JavaScript's \<open>Date\<close> and \<open>Intl\<close> compute: \<open>parseDate\<close> is \<open>Date.parse\<close> (\<open>None\<close> for
  NaN), \<open>zoneKnown\<close> whether \<open>Intl\<close> accepts a time zone, and \<open>calendar\<close> the year, month and day of an instant in
  a zone (\<open>None\<close> when \<open>Intl\<close> throws or leaves a part out). A validation error is its code and its path.
\<close>

section \<open>The scheduled timestamp\<close>

definition MAX_BUSINESS_KEY_LENGTH :: nat where "MAX_BUSINESS_KEY_LENGTH = 128"

definition hasControlCharacter :: "string \<Rightarrow> bool" where
  "hasControlCharacter v = list_ex (\<lambda>c. let n = of_char c :: nat in n \<le> 31 \<or> (127 \<le> n \<and> n \<le> 159)) v"

definition isLeapYear :: "nat \<Rightarrow> bool" where
  "isLeapYear year \<longleftrightarrow> year mod 4 = 0 \<and> (year mod 100 \<noteq> 0 \<or> year mod 400 = 0)"

definition daysInMonth :: "nat \<Rightarrow> nat \<Rightarrow> nat" where
  "daysInMonth year month = (let days = [31, if isLeapYear year then 29 else 28, 31, 30, 31, 30, 31, 31, 30, 31, 30, 31] in
     if 1 \<le> month \<and> month \<le> 12 then days ! (month - 1) else 0)"

definition isDecimal :: "char \<Rightarrow> bool" where
  "isDecimal c \<longleftrightarrow> (let n = of_char c :: nat in 48 \<le> n \<and> n \<le> 57)"

text \<open>Exactly \<open>n\<close> digits, then the rest.\<close>

definition takeDigits :: "nat \<Rightarrow> string \<Rightarrow> (nat \<times> string) option" where
  "takeDigits n s = (if n \<le> length s \<and> list_all isDecimal (take n s) then Some (natOfDigits (take n s), drop n s) else None)"

definition takeChar :: "char \<Rightarrow> string \<Rightarrow> string option" where
  "takeChar c s = (case s of d # rest \<Rightarrow> if c = d then Some rest else None | [] \<Rightarrow> None)"

record timestamp =
  tm_year :: nat
  tm_month :: nat
  tm_day :: nat
  tm_hour :: nat
  tm_minute :: nat
  tm_second :: nat
  tm_offsetHour :: nat
  tm_offsetMinute :: nat

text \<open>\<open>(Z|([+-])(\d{2}):(\d{2}))$\<close>: the offset, zero for Z.\<close>

definition matchZone :: "string \<Rightarrow> (nat \<times> nat) option" where
  "matchZone s = (case s of
     [] \<Rightarrow> None
   | c # rest \<Rightarrow>
       if c = CHR ''Z'' then (if rest = [] then Some (0, 0) else None)
       else if c = CHR ''+'' \<or> c = CHR ''-'' then
         Option.bind (takeDigits 2 rest) (\<lambda>(h, r1). Option.bind (takeChar CHR '':'' r1) (\<lambda>r2.
         Option.bind (takeDigits 2 r2) (\<lambda>(m, r3). if r3 = [] then Some (h, m) else None)))
       else None)"

text \<open>\<open>(?:\.(\d{1,3}))?\<close>\<close>

definition skipMillis :: "string \<Rightarrow> string option" where
  "skipMillis s = (case takeChar CHR ''.'' s of
     None \<Rightarrow> Some s
   | Some r \<Rightarrow> (let ds = takeWhile isDecimal r in
       if ds = [] \<or> length ds > 3 then None else Some (drop (length ds) r)))"

text \<open>\<open>(?::(\d{2})(?:\.(\d{1,3}))?)?\<close>\<close>

definition matchSeconds :: "string \<Rightarrow> (nat \<times> string) option" where
  "matchSeconds s = (case takeChar CHR '':'' s of
     None \<Rightarrow> Some (0, s)
   | Some r \<Rightarrow> (case takeDigits 2 r of None \<Rightarrow> None | Some (sec, r1) \<Rightarrow>
       (case skipMillis r1 of None \<Rightarrow> None | Some r2 \<Rightarrow> Some (sec, r2))))"

definition matchDate :: "string \<Rightarrow> ((nat \<times> nat \<times> nat) \<times> string) option" where
  "matchDate s =
     Option.bind (takeDigits 4 s) (\<lambda>(year, r1). Option.bind (takeChar CHR ''-'' r1) (\<lambda>r2.
     Option.bind (takeDigits 2 r2) (\<lambda>(month, r3). Option.bind (takeChar CHR ''-'' r3) (\<lambda>r4.
     Option.bind (takeDigits 2 r4) (\<lambda>(day, r5). Some ((year, month, day), r5))))))"

definition matchTime :: "string \<Rightarrow> ((nat \<times> nat \<times> nat) \<times> string) option" where
  "matchTime s =
     Option.bind (takeDigits 2 s) (\<lambda>(hour, r1). Option.bind (takeChar CHR '':'' r1) (\<lambda>r2.
     Option.bind (takeDigits 2 r2) (\<lambda>(minute, r3). Option.bind (matchSeconds r3) (\<lambda>(sec, r4).
     Some ((hour, minute, sec), r4)))))"

definition matchTimestamp :: "string \<Rightarrow> timestamp option" where
  "matchTimestamp s =
     Option.bind (matchDate s) (\<lambda>((year, month, day), r1). Option.bind (takeChar CHR ''T'' r1) (\<lambda>r2.
     Option.bind (matchTime r2) (\<lambda>((hour, minute, sec), r3). Option.bind (matchZone r3) (\<lambda>(oh, om).
     Some \<lparr> tm_year = year, tm_month = month, tm_day = day, tm_hour = hour, tm_minute = minute, tm_second = sec,
            tm_offsetHour = oh, tm_offsetMinute = om \<rparr>))))"

definition validTimestamp :: "timestamp \<Rightarrow> bool" where
  "validTimestamp t \<longleftrightarrow> \<not> (tm_year t = 0 \<or> tm_month t < 1 \<or> tm_month t > 12 \<or> tm_day t < 1 \<or>
     tm_day t > daysInMonth (tm_year t) (tm_month t) \<or> tm_hour t > 23 \<or> tm_minute t > 59 \<or> tm_second t > 59 \<or>
     tm_offsetHour t > 14 \<or> tm_offsetMinute t > 59 \<or> (tm_offsetHour t = 14 \<and> tm_offsetMinute t \<noteq> 0))"

definition parseScheduledFor :: "(string \<Rightarrow> int option) \<Rightarrow> string \<Rightarrow> int option" where
  "parseScheduledFor parseDate v = (case matchTimestamp v of
     None \<Rightarrow> None
   | Some t \<Rightarrow> if validTimestamp t then parseDate v else None)"

section \<open>Placeholders\<close>

definition isBrace :: "char \<Rightarrow> bool" where
  "isBrace c \<longleftrightarrow> c = CHR ''{'' \<or> c = CHR ''}''"

text \<open>
  The string is cut into placeholders (\<open>Inl\<close>, the matches of \<open>/\{[^{}]*\}/g\<close> from left to right) and the single
  characters between them (\<open>Inr\<close>).
\<close>

function segments :: "string \<Rightarrow> (string + char) list" where
  "segments [] = []"
| "segments (c # cs) =
     (let body = takeWhile (\<lambda>d. \<not> isBrace d) cs; rest = dropWhile (\<lambda>d. \<not> isBrace d) cs in
      if c = CHR ''{'' \<and> rest \<noteq> [] \<and> hd rest = CHR ''}''
      then Inl (c # body @ [CHR ''}'']) # segments (tl rest)
      else Inr c # segments cs)"
  by pat_completeness auto
termination
  by (relation "measure length") (auto simp: less_Suc_eq_le intro: order_trans [OF diff_le_self length_dropWhile_le])

definition placeholdersOf :: "string \<Rightarrow> string list" where
  "placeholdersOf f = concat (map (\<lambda>x. case x of Inl p \<Rightarrow> [p] | Inr _ \<Rightarrow> []) (segments f))"

definition replacePlaceholders :: "(string \<Rightarrow> string) \<Rightarrow> string \<Rightarrow> string" where
  "replacePlaceholders g f = concat (map (\<lambda>x. case x of Inl p \<Rightarrow> g p | Inr c \<Rightarrow> [c]) (segments f))"

text \<open>\<open>value.replace(placeholder, "")\<close> removes the first occurrence.\<close>

fun removeFirst :: "string \<Rightarrow> string \<Rightarrow> string" where
  "removeFirst p [] = []"
| "removeFirst p (c # cs) = (if startsWith (c # cs) p then drop (length p) (c # cs) else c # removeFirst p cs)"

definition ALLOWED_PLACEHOLDERS :: "string list" where
  "ALLOWED_PLACEHOLDERS = [''{network_id}'', ''{yyyy}'', ''{MM}'', ''{dd}'']"

type_synonym validation_error = "string \<times> string"

definition requiredPlaceholders :: "period \<Rightarrow> string list" where
  "requiredPlaceholders p = (if p = DAY then [''{yyyy}'', ''{MM}'', ''{dd}''] else [''{yyyy}'', ''{MM}''])"

definition validateScheduledPeriodPolicy :: "(string \<Rightarrow> bool) \<Rightarrow> period \<Rightarrow> string \<Rightarrow> string \<Rightarrow> validation_error list" where
  "validateScheduledPeriodPolicy zoneKnown period timezone format =
     (let at' = ''$.business_key_policy.format''; placeholders = placeholdersOf format;
          remainder = foldl (\<lambda>v p. removeFirst p v) format placeholders in
      (if zoneKnown timezone then [] else [(''TIMEZONE_INVALID'', ''$.business_key_policy.timezone'')]) @
      map (\<lambda>_. (''FORMAT_PLACEHOLDER_UNSUPPORTED'', at')) (filter (\<lambda>p. p \<notin> set ALLOWED_PLACEHOLDERS) placeholders) @
      (if CHR ''{'' \<in> set remainder \<or> CHR ''}'' \<in> set remainder then [(''FORMAT_PLACEHOLDER_INVALID'', at')] else []) @
      map (\<lambda>_. (''FORMAT_PERIOD_MISMATCH'', at')) (filter (\<lambda>p. p \<notin> set placeholders) (requiredPlaceholders period)) @
      (if period = MONTH \<and> ''{dd}'' \<in> set placeholders then [(''FORMAT_PERIOD_MISMATCH'', at')] else []))"

section \<open>The key\<close>

definition validateBusinessKey :: "string \<Rightarrow> string \<Rightarrow> validation_error list" where
  "validateBusinessKey v path =
     (if v = [] then [(''BUSINESS_KEY_EMPTY'', path)] else []) @
     (if length v > MAX_BUSINESS_KEY_LENGTH then [(''BUSINESS_KEY_TOO_LONG'', path)] else []) @
     (if hasControlCharacter v then [(''BUSINESS_KEY_CONTROL_CHARACTER'', path)] else [])"

record business_key_input =
  bi_networkId :: string
  bi_policy :: business_key_policy
  bi_scheduledFor :: "string option"
  bi_businessKey :: "string option"

record business_key_result =
  br_businessKey :: "string option"
  br_errors :: "validation_error list"

definition keyResult :: "string \<Rightarrow> validation_error list \<Rightarrow> business_key_result" where
  "keyResult key errors = \<lparr> br_businessKey = (if errors = [] then Some key else None), br_errors = errors \<rparr>"

definition keyFailure :: "validation_error list \<Rightarrow> business_key_result" where
  "keyFailure errors = \<lparr> br_businessKey = None, br_errors = errors \<rparr>"

definition replacement :: "string \<Rightarrow> period \<Rightarrow> string \<times> string \<times> string \<Rightarrow> string \<Rightarrow> string" where
  "replacement networkId period date p = (case date of (yyyy, MM, dd) \<Rightarrow>
     if p = ''{network_id}'' then networkId else if p = ''{yyyy}'' then yyyy else if p = ''{MM}'' then MM
     else if p = ''{dd}'' then (if period = MONTH then ''01'' else dd) else p)"

definition scheduledKey ::
  "(string \<Rightarrow> int option) \<Rightarrow> (int \<Rightarrow> string \<Rightarrow> (string \<times> string \<times> string) option) \<Rightarrow> business_key_input \<Rightarrow> period \<Rightarrow> string \<Rightarrow>
   string \<Rightarrow> validation_error list \<Rightarrow> string \<Rightarrow> business_key_result" where
  "scheduledKey parseDate calendar i period timezone format policyErrors scheduledFor =
     (case parseScheduledFor parseDate scheduledFor of
        None \<Rightarrow> keyFailure (policyErrors @ [(''SCHEDULED_FOR_INVALID'', ''--scheduled-for'')])
      | Some instant \<Rightarrow>
          if policyErrors \<noteq> [] then keyFailure policyErrors
          else (case bi_businessKey i of
            Some key \<Rightarrow> keyResult key (validateBusinessKey key ''--business-key'')
          | None \<Rightarrow> (case calendar instant timezone of
              None \<Rightarrow> keyFailure [(''TIMEZONE_INVALID'', ''$.business_key_policy.timezone'')]
            | Some date \<Rightarrow>
                let key = replacePlaceholders (replacement (bi_networkId i) period date) format in
                keyResult key (validateBusinessKey key ''$.business_key_policy.format''))))"

definition resolveBusinessKey ::
  "(string \<Rightarrow> int option) \<Rightarrow> (string \<Rightarrow> bool) \<Rightarrow> (int \<Rightarrow> string \<Rightarrow> (string \<times> string \<times> string) option) \<Rightarrow> business_key_input \<Rightarrow>
   business_key_result" where
  "resolveBusinessKey parseDate zoneKnown calendar i = (case bi_policy i of
     Explicit \<Rightarrow>
       (let errors = (if bi_scheduledFor i \<noteq> None then [(''SCHEDULED_FOR_NOT_ALLOWED'', ''--scheduled-for'')] else []) in
        case bi_businessKey i of
          None \<Rightarrow> keyFailure (errors @ [(''BUSINESS_KEY_REQUIRED'', ''--business-key'')])
        | Some key \<Rightarrow> keyResult key (errors @ validateBusinessKey key ''--business-key''))
   | ScheduledPeriod period timezone format \<Rightarrow>
       (let policyErrors = validateScheduledPeriodPolicy zoneKnown period timezone format in
        case bi_scheduledFor i of
          None \<Rightarrow> (case bi_businessKey i of
              None \<Rightarrow> keyFailure (policyErrors @ [(''SCHEDULED_FOR_REQUIRED'', ''--scheduled-for/--business-key'')])
            | Some key \<Rightarrow> keyResult key (policyErrors @ validateBusinessKey key ''--business-key''))
        | Some scheduledFor \<Rightarrow> scheduledKey parseDate calendar i period timezone format policyErrors scheduledFor))"

section \<open>What a key is like\<close>

lemma validateBusinessKey_Nil:
  "validateBusinessKey v path = [] \<longleftrightarrow> v \<noteq> [] \<and> length v \<le> MAX_BUSINESS_KEY_LENGTH \<and> \<not> hasControlCharacter v"
  by (auto simp: validateBusinessKey_def)

lemma keyFailure_Some [simp]: "br_businessKey (keyFailure errors) = None" "br_errors (keyFailure errors) = errors"
  by (simp_all add: keyFailure_def)

section \<open>What a label tells\<close>

lemma concat_map_eq_iff:
  "(\<And>x. x \<in> set xs \<Longrightarrow> length (g x) = length (h x)) \<Longrightarrow>
   concat (map g xs) = concat (map h xs) \<longleftrightarrow> (\<forall>x \<in> set xs. g x = h x)"
  by (induction xs) auto

lemma concat_map_shorter:
  "(\<And>x. x \<in> set xs \<Longrightarrow> length (g x) \<le> length (h x)) \<Longrightarrow> x \<in> set xs \<Longrightarrow> length (g x) < length (h x) \<Longrightarrow>
   length (concat (map g xs)) < length (concat (map h xs))"
proof (induction xs)
  case (Cons a xs)
  have le: "length (concat (map g xs)) \<le> length (concat (map h xs))"
    using Cons.prems(1) by (induction xs) (auto intro: add_mono)
  show ?case
  proof (cases "x = a")
    case True
    then show ?thesis using Cons.prems(3) le by (simp add: add_less_le_mono)
  next
    case False
    then have "length (concat (map g xs)) < length (concat (map h xs))" using Cons by auto
    then show ?thesis using Cons.prems(1) by (simp add: add_le_less_mono)
  qed
qed simp

definition segmentText :: "(string \<Rightarrow> string) \<Rightarrow> string + char \<Rightarrow> string" where
  "segmentText g x = (case x of Inl p \<Rightarrow> g p | Inr c \<Rightarrow> [c])"

lemma replacePlaceholders_segments: "replacePlaceholders g f = concat (map (segmentText g) (segments f))"
  unfolding replacePlaceholders_def segmentText_def ..

lemma placeholder_segment: "p \<in> set (placeholdersOf f) \<longleftrightarrow> Inl p \<in> set (segments f)"
  by (force simp: placeholdersOf_def split: sum.splits)

lemma policy_placeholders:
  "validateScheduledPeriodPolicy zoneKnown period timezone f = [] \<Longrightarrow>
   Inl ''{yyyy}'' \<in> set (segments f) \<and> Inl ''{MM}'' \<in> set (segments f) \<and> (period = DAY \<longrightarrow> Inl ''{dd}'' \<in> set (segments f))"
  by (cases period)
    (auto simp: validateScheduledPeriodPolicy_def Let_def requiredPlaceholders_def placeholder_segment filter_empty_conv
      split: if_splits)

text \<open>
  C30: The label of a valid period format identifies the period: as long as months and days have two digits, the same
  network gets the same business key for two dates exactly when they are the same day (or, for a monthly policy, lie
  in the same month), however the placeholders are arranged and repeated.
\<close>

theorem period_label_identifies:
  assumes valid: "validateScheduledPeriodPolicy zoneKnown period timezone f = []"
    and len: "length M = 2" "length M' = 2" "length d = 2" "length d' = 2"
  shows "replacePlaceholders (replacement n period (y, M, d)) f = replacePlaceholders (replacement n period (y', M', d')) f
    \<longleftrightarrow> y = y' \<and> M = M' \<and> (period = MONTH \<or> d = d')"
proof -
  let ?g = "segmentText (replacement n period (y, M, d))" and ?h = "segmentText (replacement n period (y', M', d'))"
  note segs = policy_placeholders [OF valid]
  have other: "x \<noteq> Inl ''{yyyy}'' \<Longrightarrow> length (?g x) = length (?h x)" for x
    using len by (cases x) (simp_all add: segmentText_def replacement_def)
  have year: "?g (Inl ''{yyyy}'') = y" "?h (Inl ''{yyyy}'') = y'" by (simp_all add: segmentText_def replacement_def)
  consider (less) "length y < length y'" | (more) "length y' < length y" | (same) "length y = length y'" by linarith
  then show ?thesis
  proof cases
    case less
    have "length (?g x) \<le> length (?h x)" for x using other [of x] less year by (cases "x = Inl ''{yyyy}''") auto
    then have "length (concat (map ?g (segments f))) < length (concat (map ?h (segments f)))"
      using segs less year by (intro concat_map_shorter [where x = "Inl ''{yyyy}''"]) auto
    then show ?thesis using less by (auto simp: replacePlaceholders_segments)
  next
    case more
    have "length (?h x) \<le> length (?g x)" for x using other [of x] more year by (cases "x = Inl ''{yyyy}''") auto
    then have "length (concat (map ?h (segments f))) < length (concat (map ?g (segments f)))"
      using segs more year by (intro concat_map_shorter [where x = "Inl ''{yyyy}''"]) auto
    then show ?thesis using more by (auto simp: replacePlaceholders_segments)
  next
    case same
    then have "length (?g x) = length (?h x)" for x using other [of x] year by (cases "x = Inl ''{yyyy}''") auto
    then have "concat (map ?g (segments f)) = concat (map ?h (segments f)) \<longleftrightarrow> (\<forall>x \<in> set (segments f). ?g x = ?h x)"
      by (rule concat_map_eq_iff)
    moreover have "(\<forall>x \<in> set (segments f). ?g x = ?h x) \<longleftrightarrow> y = y' \<and> M = M' \<and> (period = MONTH \<or> d = d')"
    proof
      assume eq: "\<forall>x \<in> set (segments f). ?g x = ?h x"
      have "M = M'" using eq segs by (force simp: segmentText_def replacement_def)
      moreover have "period = DAY \<Longrightarrow> d = d'" using eq segs by (force simp: segmentText_def replacement_def)
      moreover have "y = y'" using eq segs year by force
      ultimately show "y = y' \<and> M = M' \<and> (period = MONTH \<or> d = d')" by (cases period) auto
    next
      assume "y = y' \<and> M = M' \<and> (period = MONTH \<or> d = d')"
      then show "\<forall>x \<in> set (segments f). ?g x = ?h x"
        by (auto simp: segmentText_def replacement_def split: sum.splits)
    qed
    ultimately show ?thesis by (simp add: replacePlaceholders_segments)
  qed
qed

lemma period_label_identifies_witness:
  "replacePlaceholders (replacement ''sales'' DAY (''2026'', ''01'', ''31'')) ''{network_id}-{yyyy}{MM}{dd}'' \<noteq>
   replacePlaceholders (replacement ''sales'' DAY (''2026'', ''02'', ''01'')) ''{network_id}-{yyyy}{MM}{dd}''"
proof -
  have "validateScheduledPeriodPolicy (\<lambda>_. True) DAY ''Asia/Tokyo'' ''{network_id}-{yyyy}{MM}{dd}'' = []"
    by code_simp
  from period_label_identifies [OF this, of "''01''" "''02''" "''31''" "''01''" "''sales''" "''2026''" "''2026''"]
  show ?thesis by simp
qed

definition wellformedResult :: "business_key_result \<Rightarrow> bool" where
  "wellformedResult r = (case br_businessKey r of
     Some key \<Rightarrow> br_errors r = [] \<and> key \<noteq> [] \<and> length key \<le> MAX_BUSINESS_KEY_LENGTH \<and> \<not> hasControlCharacter key
   | None \<Rightarrow> br_errors r \<noteq> [])"

lemma wellformed_keyResult: "wellformedResult (keyResult key (errors @ validateBusinessKey key path))"
proof (cases "errors @ validateBusinessKey key path = []")
  case True
  then have "validateBusinessKey key path = []" "errors = []" by simp_all
  then show ?thesis by (simp add: wellformedResult_def keyResult_def validateBusinessKey_Nil)
qed (auto simp: wellformedResult_def keyResult_def)

lemmas wellformed_checked = wellformed_keyResult wellformed_keyResult [where errors = "[]", simplified]
  wellformed_keyResult [where errors = "[e]" for e, simplified]

lemma wellformed_keyFailure [simp]: "wellformedResult (keyFailure errors) \<longleftrightarrow> errors \<noteq> []"
  by (simp add: wellformedResult_def)

text \<open>
  A resolved business key is always usable as a key: whenever the resolution reports a key, it reports no error,
  and the key is not empty, at most 128 characters long and free of control characters; otherwise it reports at
  least one error.
\<close>

theorem resolved_key_wellformed:
  "wellformedResult (resolveBusinessKey parseDate zoneKnown calendar i)"
  unfolding resolveBusinessKey_def scheduledKey_def Let_def
  by (auto split: business_key_policy.splits option.splits intro: wellformed_checked)

end
