(* ===== verification/Preflight.thy ===== *)
theory Preflight
  imports AttemptExecutor
begin

text \<open>
  The commands of the executor (\<open>src/executor/ksql-flow-cli.ts\<close>) and the checks made with their answers
  (\<open>src/executor/preflight.ts\<close>). The answers stay the JSON values the commands printed, as the code casts them.
  Starting a process is a parameter, and so are SHA-256 and \<open>Date.parse\<close>. Objects keep the order of their
  entries; that JavaScript lists integer-like property names first is not modelled.
\<close>

section \<open>Running a command\<close>

record spawn_result =
  sr_exitCode :: "int option"
  sr_stdout :: string
  sr_stderr :: string

record 's cli_options =
  co_command :: string
  co_binArgs :: "string list option"
  co_profile :: string
  co_configPath :: string
  co_spawn :: "string \<Rightarrow> string list \<Rightarrow> ('s, spawn_result) prog"

definition isStringArray :: "json option \<Rightarrow> bool" where
  "isStringArray v = (case v of Some (JArr vs) \<Rightarrow> list_all (\<lambda>x. isTextJson (Some x)) vs | _ \<Rightarrow> False)"

definition isObjectJson :: "json option \<Rightarrow> bool" where
  "isObjectJson v = (case v of Some (JObj _) \<Rightarrow> True | _ \<Rightarrow> False)"

definition isNumberJson :: "json option \<Rightarrow> bool" where
  "isNumberJson v = (case v of Some (JNum _) \<Rightarrow> True | Some JInfinite \<Rightarrow> True | _ \<Rightarrow> False)"

definition valuesOf :: "json option \<Rightarrow> json list" where
  "valuesOf v = (case v of Some (JObj fs) \<Rightarrow> map snd fs | _ \<Rightarrow> [])"

definition memberOf :: "json option \<Rightarrow> string \<Rightarrow> json option" where
  "memberOf v k = (case v of None \<Rightarrow> None | Some x \<Rightarrow> jsonGet x k)"

definition isCapabilities :: "json \<Rightarrow> bool" where
  "isCapabilities v \<longleftrightarrow>
     isObjectJson (Some v) \<and> isObjectJson (jsonGet v ''resultSchema'') \<and> isObjectJson (jsonGet v ''features'') \<and>
     jsonGet v ''formatVersion'' = Some (JNum 1) \<and> jsonGet v ''kind'' = Some (JStr ''CAPABILITIES'') \<and>
     isTextJson (jsonGet v ''ksqlFlowVersion'') \<and> isTextJson (jsonGet v ''engineVersion'') \<and>
     isStringArray (jsonGet v ''executionContracts'') \<and> isTextJson (memberOf (jsonGet v ''resultSchema'') ''$id'') \<and>
     isTextJson (memberOf (jsonGet v ''resultSchema'') ''contract'') \<and>
     list_all (\<lambda>f. isBoolJson (Some f) \<or> isTextJson (Some f)) (valuesOf (jsonGet v ''features''))"

definition isNullable :: "(json option \<Rightarrow> bool) \<Rightarrow> json option \<Rightarrow> bool" where
  "isNullable p v \<longleftrightarrow> v = Some JNull \<or> p v"

definition isLogApp :: "json option \<Rightarrow> bool" where
  "isLogApp v \<longleftrightarrow> isObjectJson v \<and> isTextJson (memberOf v ''name'') \<and> isSafeNumberJson (memberOf v ''appId'')"

definition isRetry :: "json option \<Rightarrow> bool" where
  "isRetry v \<longleftrightarrow> isObjectJson v \<and> isNumberJson (memberOf v ''initialDelayMs'') \<and> isNumberJson (memberOf v ''maxAttempts'') \<and>
     isNumberJson (memberOf v ''maxDelayMs'') \<and> isBoolJson (memberOf v ''respectRetryAfter'')"

definition isProfileDescription :: "json \<Rightarrow> bool" where
  "isProfileDescription v \<longleftrightarrow>
     isObjectJson (Some v) \<and> isObjectJson (jsonGet v ''apps'') \<and> isObjectJson (jsonGet v ''limits'') \<and>
     jsonGet v ''formatVersion'' = Some (JNum 1) \<and> jsonGet v ''kind'' = Some (JStr ''PROFILE_DESCRIPTION'') \<and>
     isTextJson (jsonGet v ''profile'') \<and> isTextJson (jsonGet v ''baseUrl'') \<and>
     isNullable isSafeNumberJson (jsonGet v ''guestSpaceId'') \<and> isNullable isTextJson (jsonGet v ''timezone'') \<and>
     list_all (\<lambda>a. isSafeNumberJson (Some a)) (valuesOf (jsonGet v ''apps'')) \<and>
     isNullable isLogApp (jsonGet v ''logApp'') \<and>
     list_all (\<lambda>l. isNullable isNumberJson (Some l)) (valuesOf (jsonGet v ''limits'')) \<and>
     isRetry (jsonGet v ''retry'') \<and> isNumberJson (jsonGet v ''httpTimeoutMs'')"

definition isDiagnostic :: "json \<Rightarrow> bool" where
  "isDiagnostic v \<longleftrightarrow> isObjectJson (Some v) \<and> isTextJson (jsonGet v ''code'') \<and> isTextJson (jsonGet v ''severity'') \<and>
     isSafeNumberJson (jsonGet v ''line'') \<and> isSafeNumberJson (jsonGet v ''column'') \<and> isTextJson (jsonGet v ''message'')"

definition isDiagnosticArray :: "json option \<Rightarrow> bool" where
  "isDiagnosticArray v = (case v of Some (JArr ds) \<Rightarrow> list_all isDiagnostic ds | _ \<Rightarrow> False)"

definition isJobInspection :: "json \<Rightarrow> bool" where
  "isJobInspection v \<longleftrightarrow>
     isObjectJson (Some v) \<and> jsonGet v ''formatVersion'' = Some (JNum 1) \<and> jsonGet v ''kind'' = Some (JStr ''JOB_INSPECTION'') \<and>
     isTextJson (jsonGet v ''jobId'') \<and> isTextJson (jsonGet v ''fileName'') \<and> isSafeNumberJson (jsonGet v ''dialect'') \<and>
     isSafeNumberJson (jsonGet v ''statementCount'') \<and> isStringArray (jsonGet v ''dependsOn'') \<and>
     isNullable isSafeNumberJson (jsonGet v ''timeoutSec'') \<and> isDiagnosticArray (jsonGet v ''diagnostics'') \<and>
     isDiagnosticArray (jsonGet v ''nondeterministicElements'')"

definition invokeJson :: "'s cli_options \<Rightarrow> string list \<Rightarrow> (json \<Rightarrow> bool) \<Rightarrow> ('s, json) prog" where
  "invokeJson opts args validate =
     bindP (attemptP (co_spawn opts (co_command opts) (orElse (co_binArgs opts) [] @ args))) (\<lambda>r.
     case r of
       Inl _ \<Rightarrow> throwP (CodedError ''KSQL_FLOW_PROCESS_FAILED'')
     | Inr result \<Rightarrow>
         if sr_exitCode result = None then throwP (CodedError ''KSQL_FLOW_PROCESS_FAILED'')
         else if sr_exitCode result \<noteq> Some 0 then throwP (CodedError ''KSQL_FLOW_EXIT_MISMATCH'')
         else (case parseJson (sr_stdout result) of
           None \<Rightarrow> throwP (CodedError ''KSQL_FLOW_INVALID_JSON'')
         | Some v \<Rightarrow> if validate v then retP v else throwP (CodedError ''KSQL_FLOW_OUTPUT_INVALID'')))"

definition cliCapabilities :: "'s cli_options \<Rightarrow> ('s, json) prog" where
  "cliCapabilities opts = invokeJson opts [''capabilities'', ''--json''] isCapabilities"

definition cliDescribeProfile :: "'s cli_options \<Rightarrow> ('s, json) prog" where
  "cliDescribeProfile opts = invokeJson opts
     [''describe-profile'', ''--profile'', co_profile opts, ''--config'', co_configPath opts, ''--json''] isProfileDescription"

definition cliInspectJob :: "'s cli_options \<Rightarrow> string \<Rightarrow> ('s, json) prog" where
  "cliInspectJob opts sqlPath = invokeJson opts
     [''inspect-job'', ''-f'', sqlPath, ''--profile'', co_profile opts, ''--config'', co_configPath opts, ''--json''] isJobInspection"

section \<open>Canonical JSON\<close>

fun sortJsonKeys :: "json \<Rightarrow> json" where
  "sortJsonKeys (JArr vs) = JArr (map sortJsonKeys vs)"
| "sortJsonKeys (JObj fs) = JObj (sort_key fst (map (\<lambda>f. (fst f, sortJsonKeys (snd f))) fs))"
| "sortJsonKeys v = v"

definition canonicalJson :: "json \<Rightarrow> string" where
  "canonicalJson v = stringify (sortJsonKeys v)"

definition canonicalJsonSha256 :: "(string \<Rightarrow> string) \<Rightarrow> json \<Rightarrow> string" where
  "canonicalJsonSha256 sha256 v = sha256 (canonicalJson v)"

section \<open>Capabilities and profile\<close>

definition EXECUTION_CONTRACT :: string where "EXECUTION_CONTRACT = ''ksql-flow.execution/v1''"

definition REQUIRED_CAPABILITY_FEATURES :: "string list" where
  "REQUIRED_CAPABILITY_FEATURES = [''resultJson'', ''correlationIds'', ''describeProfile'', ''inspectJob'', ''durableExecutionStarted'']"

definition stringsOf :: "json option \<Rightarrow> string list" where
  "stringsOf v = (case v of Some (JArr vs) \<Rightarrow> map (\<lambda>x. textOf (Some x)) vs | _ \<Rightarrow> [])"

definition validateCapabilities :: "json \<Rightarrow> string list \<Rightarrow> js_error + unit" where
  "validateCapabilities capabilities additional =
     (if EXECUTION_CONTRACT \<notin> set (stringsOf (jsonGet capabilities ''executionContracts''))
      then Inl (CodedError ''CAPABILITY_CONTRACT_MISSING'')
      else if list_ex (\<lambda>f. memberOf (jsonGet capabilities ''features'') f \<noteq> Some (JBool True)) (REQUIRED_CAPABILITY_FEATURES @ additional)
      then Inl (CodedError ''CAPABILITY_FEATURE_MISSING'')
      else Inr ())"

record profile_snapshot =
  ps_sha256 :: string
  ps_baseUrl :: "json option"
  ps_guestSpaceId :: "json option"
  ps_apps :: "json option"
  ps_timezone :: "json option"

definition profileSnapshot :: "(string \<Rightarrow> string) \<Rightarrow> json \<Rightarrow> profile_snapshot" where
  "profileSnapshot sha256 description = \<lparr> ps_sha256 = canonicalJsonSha256 sha256 description,
     ps_baseUrl = jsonGet description ''baseUrl'', ps_guestSpaceId = jsonGet description ''guestSpaceId'',
     ps_apps = jsonGet description ''apps'', ps_timezone = jsonGet description ''timezone'' \<rparr>"

definition canonicalMember :: "json option \<Rightarrow> string option" where
  "canonicalMember v = map_option canonicalJson v"

definition assertProfileSnapshot :: "(string \<Rightarrow> string) \<Rightarrow> json \<Rightarrow> profile_snapshot \<Rightarrow> js_error + unit" where
  "assertProfileSnapshot sha256 description expected =
     (let actual = profileSnapshot sha256 description in
      if ps_sha256 actual \<noteq> ps_sha256 expected \<or> ps_baseUrl actual \<noteq> ps_baseUrl expected \<or>
         ps_guestSpaceId actual \<noteq> ps_guestSpaceId expected \<or> ps_timezone actual \<noteq> ps_timezone expected \<or>
         canonicalMember (ps_apps actual) \<noteq> canonicalMember (ps_apps expected)
      then Inl (CodedError ''PROFILE_SNAPSHOT_MISMATCH'') else Inr ())"

section \<open>Inspected jobs\<close>

definition NONDETERMINISTIC_CODES :: "string list" where "NONDETERMINISTIC_CODES = [''KSQL1306'']"

record approved_exception =
  ae_node_id :: string
  ae_code :: string
  ae_approved_by :: string
  ae_reason :: string
  ae_approved_at :: string

record inspected_node =
  in_nodeId :: string
  in_jobId :: string
  in_inspection :: json
  in_nondeterministicCodes :: "string list"
  in_approvedExceptions :: "approved_exception list"

definition uniqueSorted :: "string list \<Rightarrow> string list" where
  "uniqueSorted vs = sort (remdups vs)"

definition validException :: "(string \<Rightarrow> int option) \<Rightarrow> network_node list \<Rightarrow> approved_exception \<Rightarrow> bool" where
  "validException parseDate nodes e \<longleftrightarrow> list_ex (\<lambda>n. nn_id n = ae_node_id e) nodes \<and> ae_code e \<in> set NONDETERMINISTIC_CODES \<and>
     trim (ae_approved_by e) \<noteq> [] \<and> trim (ae_reason e) \<noteq> [] \<and> parseDate (ae_approved_at e) \<noteq> None"

definition exceptionKey :: "approved_exception \<Rightarrow> string" where
  "exceptionKey e = ae_node_id e @ [CHR 0x00] @ ae_code e"

definition detectedCodes :: "json \<Rightarrow> string list" where
  "detectedCodes inspection = uniqueSorted (filter (\<lambda>c. c \<in> set NONDETERMINISTIC_CODES)
     (case jsonGet inspection ''nondeterministicElements'' of
        Some (JArr ds) \<Rightarrow> map (\<lambda>d. textOf (jsonGet d ''code'')) ds | _ \<Rightarrow> []))"

definition inspectNode :: "json jsmap \<Rightarrow> approved_exception list \<Rightarrow> network_node \<Rightarrow> js_error + inspected_node" where
  "inspectNode inspections exceptions node = (case mapGet inspections (nn_id node) of
     None \<Rightarrow> Inl (CodedError ''JOB_ID_MISMATCH'')
   | Some inspection \<Rightarrow>
       let jobId = textOf (jsonGet inspection ''jobId''); detected = detectedCodes inspection;
           approved = filter (\<lambda>e. ae_node_id e = nn_id node) exceptions;
           unapproved = filter (\<lambda>c. \<not> list_ex (\<lambda>e. ae_code e = c) approved) detected in
       if jobId \<noteq> nn_job_id node then Inl (CodedError ''JOB_ID_MISMATCH'')
       else if list_ex (\<lambda>e. ae_code e \<notin> set detected) approved then Inl (CodedError ''INSPECTION_EXCEPTION_NOT_DETECTED'')
       else if nn_idempotent node \<and> unapproved \<noteq> [] then Inl (CodedError ''NONDETERMINISTIC_IDEMPOTENT_JOB'')
       else Inr \<lparr> in_nodeId = nn_id node, in_jobId = jobId, in_inspection = inspection, in_nondeterministicCodes = detected,
                  in_approvedExceptions = approved \<rparr>)"

fun inspectNodes :: "json jsmap \<Rightarrow> approved_exception list \<Rightarrow> network_node list \<Rightarrow> js_error + inspected_node list" where
  "inspectNodes inspections exceptions [] = Inr []"
| "inspectNodes inspections exceptions (n # ns) = (case inspectNode inspections exceptions n of
     Inl e \<Rightarrow> Inl e
   | Inr x \<Rightarrow> (case inspectNodes inspections exceptions ns of Inl e \<Rightarrow> Inl e | Inr xs \<Rightarrow> Inr (x # xs)))"

definition validateJobInspections ::
  "(string \<Rightarrow> int option) \<Rightarrow> network_node list \<Rightarrow> json jsmap \<Rightarrow> approved_exception list \<Rightarrow> js_error + inspected_node list" where
  "validateJobInspections parseDate nodes inspections exceptions =
     (if \<not> list_all (validException parseDate nodes) exceptions \<or> \<not> distinct (map exceptionKey exceptions)
      then Inl (CodedError ''INSPECTION_EXCEPTION_INVALID'')
      else inspectNodes inspections exceptions nodes)"

end
