(* ===== verification/EnsureRun.thy ===== *)
theory EnsureRun
  imports Scheduler NetworkLock Cancel Reconciliation BusinessKey Preflight
begin

text \<open>
  Starting, resuming and repeating a run, \<open>src/orchestration/ensure-run.ts\<close>. What the code is given are the fields of
  \<open>'s ensure_input\<close>: the repository, the lock manager, the executor's commands, the bundle store, the file system, and
  as parameters the parts that are not modelled (the validated definition of the network file, bundles and their
  verification, SHA-256, \<open>Date\<close> and \<open>Intl\<close>). The variables \<open>lock\<close>, \<open>invocation\<close> and \<open>handedOff\<close> that the \<open>catch\<close>
  and \<open>finally\<close> blocks read are the record \<open>ensure_locals\<close>; the variable \<open>closed\<close> of the result's \<open>close\<close> is a place
  in the world. Concurrent reads (\<open>Promise.all\<close>) happen in list order.
\<close>

section \<open>What is given\<close>

record bundle_expectation =
  be_zipSha256 :: string
  be_manifest :: "(string \<times> json) option"

record built_bundle =
  bb_zipBytes :: string
  bb_zipSha256 :: string
  bb_manifestSha256 :: string
  bb_manifest :: json

record bundle_job =
  bj_path :: string
  bj_sqlBytes :: string
  bj_inspectedNode :: inspected_node

record 's ensure_input =
  en_networkPath :: string
  en_profile :: string
  en_scheduledFor :: "string option"
  en_businessKey :: "string option"
  en_resume :: bool
  en_resumeRunId :: "string option"
  en_rerunFrom :: "string option"
  en_requestedBy :: string
  en_host :: string
  en_invocationId :: "string option"
  en_repository :: "'s repository"
  en_acquire :: "('s, network_lock_reference) prog"
  en_release :: "network_lock_reference \<Rightarrow> string \<Rightarrow> string \<Rightarrow> ('s, unit) prog"
  en_capabilities :: "('s, json) prog"
  en_describeProfile :: "('s, json) prog"
  en_inspectJob :: "string \<Rightarrow> ('s, json) prog"
  en_upload :: "string \<Rightarrow> ('s, string) prog"
  en_download :: "string \<Rightarrow> ('s, string) prog"
  en_beforeLock :: "(network_definition \<Rightarrow> ('s, (string \<times> int) option) prog) option"
  en_ioRoot :: "string option"
  en_ioRetentionDays :: "int option"
  en_now :: "('s, string) prog"
  en_uuid :: "('s, string) prog"
  en_systemNow :: "('s, string) prog"
  en_randomUUID :: "('s, string) prog"
  en_loadNetwork :: "string \<Rightarrow> ('s, network_definition option) prog"
  en_loadSource :: "string \<Rightarrow> network_definition option"
  en_readFile :: "string \<Rightarrow> ('s, string) prog"
  en_sqlPath :: "string \<Rightarrow> string \<Rightarrow> string"
  en_buildBundle :: "string \<Rightarrow> bundle_job list \<Rightarrow> js_error + built_bundle"
  en_verifyBundle :: "string \<Rightarrow> bundle_expectation \<Rightarrow> js_error + unit"
  en_networkYaml :: "string \<Rightarrow> js_error + string option"
  en_resolveInputs :: "path_request \<Rightarrow> ('s, input_baseline list) prog"
  en_sha256 :: "string \<Rightarrow> string"
  en_digest :: "string \<Rightarrow> string"
  en_parseDate :: "string \<Rightarrow> int option"
  en_zoneKnown :: "string \<Rightarrow> bool"
  en_calendar :: "int \<Rightarrow> string \<Rightarrow> (string \<times> string \<times> string) option"
  en_timeOf :: "string \<Rightarrow> int"
  en_isClosed :: "'s \<Rightarrow> bool"
  en_markClosed :: "'s \<Rightarrow> 's"
  en_markOpen :: "'s \<Rightarrow> 's"

record ensure_close =
  ec_status :: status
  ec_resultCode :: string
  ec_selectedNodeIds :: "string list option"
  ec_preservedNodeIds :: "string list option"
  ec_blockedNodeIds :: "string list option"
  ec_reason :: "string option"
  ec_persistInvocation :: "bool option"

record ensure_execution =
  ex_outcome :: invocation_mode
  ex_run :: "network_run versioned"
  ex_invocation :: "run_invocation versioned"
  ex_businessKey :: string
  ex_bundleBytes :: string
  ex_lock :: network_lock_reference

datatype ensure_result = EnsureNoop "network_run versioned" string | EnsureExecution ensure_execution

record ensure_locals =
  el_lock :: "network_lock_reference option"
  el_invocation :: "run_invocation versioned option"
  el_handedOff :: bool

definition ensureError :: "string \<Rightarrow> js_error" where
  "ensureError code = EnsureRunError code [] None"

section \<open>Checks\<close>

definition removeChar :: "char \<Rightarrow> string \<Rightarrow> string" where
  "removeChar c s = filter (\<lambda>d. d \<noteq> c) s"

definition manualTimestamp :: "string \<Rightarrow> string" where
  "manualTimestamp text' = remove1 CHR ''.'' (removeChar CHR '':'' (removeChar CHR ''-'' text'))"

definition keyInputOf :: "'s ensure_input \<Rightarrow> network_definition \<Rightarrow> string option \<Rightarrow> business_key_input" where
  "keyInputOf i def key = \<lparr> bi_networkId = nd_network_id def, bi_policy = nd_business_key_policy def,
     bi_scheduledFor = en_scheduledFor i, bi_businessKey = key \<rparr>"

definition resolvedKey :: "'s ensure_input \<Rightarrow> network_definition \<Rightarrow> string option \<Rightarrow> js_error + string" where
  "resolvedKey i def key =
     (let resolved = resolveBusinessKey (en_parseDate i) (en_zoneKnown i) (en_calendar i) (keyInputOf i def key) in
      case br_businessKey resolved of
        None \<Rightarrow> Inl (ensureError ''BUSINESS_KEY_INVALID'')
      | Some k \<Rightarrow> if br_errors resolved \<noteq> [] then Inl (ensureError ''BUSINESS_KEY_INVALID'') else Inr k)"

definition resolveEnsureBusinessKey :: "'s ensure_input \<Rightarrow> network_definition \<Rightarrow> ('s, string) prog" where
  "resolveEnsureBusinessKey i def =
     (if en_resumeRunId i \<noteq> None then retP []
      else if \<not> en_resume i \<and> en_scheduledFor i = None \<and> en_businessKey i = None then
        bindP (en_now i) (\<lambda>now. liftP (resolvedKey i def (Some (nd_network_id def @ ''@manual-'' @ manualTimestamp now))))
      else liftP (resolvedKey i def (en_businessKey i)))"

definition hasInputs :: "network_node \<Rightarrow> bool" where
  "hasInputs node \<longleftrightarrow> orElse (nn_inputs node) [] \<noteq> []"

definition hasOutputs :: "network_node \<Rightarrow> bool" where
  "hasOutputs node \<longleftrightarrow> orElse (nn_outputs node) [] \<noteq> []"

definition additionalFeatures :: "network_definition \<Rightarrow> string list" where
  "additionalFeatures def = (if list_ex hasInputs (nd_nodes def) then [''importCsv''] else []) @
     (if list_ex hasOutputs (nd_nodes def) then [''resultCsv''] else [])"

definition assertRunIdentity :: "network_run \<Rightarrow> string \<Rightarrow> string \<Rightarrow> js_error + unit" where
  "assertRunIdentity run profile networkId =
     (if nr_network_id run \<noteq> networkId \<or> rp_profile (nr_resolved_profile_snapshot run) \<noteq> profile
      then Inl (ensureError ''RUN_ID_MISMATCH'') else Inr ())"

definition assertRunResumable :: "network_run \<Rightarrow> js_error + unit" where
  "assertRunResumable run =
     (if \<not> nr_resume_allowed run \<or> nr_lifecycle_status run = ARCHIVED then Inl (ensureError ''RUN_NOT_RESUMABLE'') else Inr ())"

definition assertDescriptionProfile :: "json \<Rightarrow> string \<Rightarrow> js_error + unit" where
  "assertDescriptionProfile description profile =
     (if jsonGet description ''profile'' \<noteq> Some (JStr profile) then Inl (ensureError ''PROFILE_DESCRIPTION_INVALID'') else Inr ())"

definition storedSnapshot :: "network_run \<Rightarrow> profile_snapshot" where
  "storedSnapshot run = (let p = nr_resolved_profile_snapshot run in
     \<lparr> ps_sha256 = nr_resolved_profile_sha256 run, ps_baseUrl = Some (JStr (rp_base_url p)),
       ps_guestSpaceId = Some (case rp_guest_space_id p of None \<Rightarrow> JNull | Some n \<Rightarrow> jsonInt n),
       ps_apps = Some (JObj (map (\<lambda>a. (fst a, jsonInt (snd a))) (rp_apps p))), ps_timezone = Some (JStr (rp_timezone p)) \<rparr>)"

definition assertStoredProfile :: "(string \<Rightarrow> string) \<Rightarrow> json \<Rightarrow> network_run \<Rightarrow> js_error + unit" where
  "assertStoredProfile sha256 description run = assertProfileSnapshot sha256 description (storedSnapshot run)"

text \<open>\<open>isFiniteNumberOrNull\<close>: \<open>None\<close> when it is neither.\<close>

definition isFiniteNumberOrNull :: "json option \<Rightarrow> rat option option" where
  "isFiniteNumberOrNull v = (case v of Some JNull \<Rightarrow> Some None | Some (JNum r) \<Rightarrow> Some (Some r) | _ \<Rightarrow> None)"

definition appsOf :: "json option \<Rightarrow> (string \<times> int) list" where
  "appsOf v = (case v of Some (JObj fs) \<Rightarrow> map (\<lambda>f. (fst f, intOfJson (Some (snd f)))) fs | _ \<Rightarrow> [])"

definition nullableInt :: "json option \<Rightarrow> int option" where
  "nullableInt v = (if v = Some JNull then None else Some (intOfJson v))"

definition persistenceProfileSnapshot :: "json \<Rightarrow> js_error + resolved_profile_snapshot" where
  "persistenceProfileSnapshot d =
     (let limit = (\<lambda>k. isFiniteNumberOrNull (memberOf (jsonGet d ''limits'') k)) in
      case (limit ''maxApiCalls'', limit ''maxReadRows'', limit ''batchTimeoutSec'') of
        (Some calls, Some rows, Some timeout) \<Rightarrow>
          if jsonGet d ''timezone'' = Some JNull then Inl (ensureError ''PROFILE_DESCRIPTION_INVALID'')
          else Inr \<lparr> rp_profile = textOf (jsonGet d ''profile''), rp_base_url = textOf (jsonGet d ''baseUrl''),
            rp_guest_space_id = nullableInt (jsonGet d ''guestSpaceId''), rp_timezone = textOf (jsonGet d ''timezone''),
            rp_apps = appsOf (jsonGet d ''apps''), rp_max_api_calls = calls, rp_max_read_rows = rows, rp_batch_timeout_sec = timeout \<rparr>
      | _ \<Rightarrow> Inl (ensureError ''PROFILE_DESCRIPTION_INVALID''))"

definition assertInputRetention :: "(string \<Rightarrow> int option) \<Rightarrow> network_run \<Rightarrow> network_definition \<Rightarrow> int \<Rightarrow> int \<Rightarrow> js_error + unit" where
  "assertInputRetention parseDate run def retentionDays nowMs =
     (if \<not> list_ex hasInputs (nd_nodes def) then Inr ()
      else if \<not> isSafeInteger retentionDays \<or> retentionDays \<le> 0 then Inl (ensureError ''INPUT_RETENTION_EXPIRED'')
      else (case parseDate (nr_created_at run) of
        None \<Rightarrow> Inl (ensureError ''RUN_SNAPSHOT_MISMATCH'')
      | Some createdAt \<Rightarrow>
          if nowMs \<le> createdAt + retentionDays * 86400000 + 59999 then Inr ()
          else Inl (ensureError ''INPUT_RETENTION_EXPIRED'')))"

definition definitionFromBundle :: "'s ensure_input \<Rightarrow> string \<Rightarrow> network_run \<Rightarrow> js_error + network_definition" where
  "definitionFromBundle i bundleBytes run = (case en_networkYaml i bundleBytes of
     Inl e \<Rightarrow> Inl e
   | Inr None \<Rightarrow> Inl (ensureError ''RUN_SNAPSHOT_MISMATCH'')
   | Inr (Some networkBytes) \<Rightarrow>
       if en_sha256 i networkBytes \<noteq> nr_definition_sha256 run then Inl (ensureError ''RUN_SNAPSHOT_MISMATCH'')
       else (case en_loadSource i networkBytes of
         None \<Rightarrow> Inl (ensureError ''RUN_SNAPSHOT_MISMATCH'')
       | Some def \<Rightarrow>
           if nd_network_id def \<noteq> nr_network_id run \<or> nd_schema_version def \<noteq> nr_definition_schema_version run
           then Inl (ensureError ''RUN_SNAPSHOT_MISMATCH'') else Inr def))"

section \<open>Node states and invocations\<close>

definition initialNodeState :: "string \<Rightarrow> string \<Rightarrow> string \<Rightarrow> network_node \<Rightarrow> string \<Rightarrow> node_state" where
  "initialNodeState uuid key runId node at' = \<lparr> ns_node_state_id = ''nodestate_'' @ uuid, ns_node_state_key = key,
     ns_run_id = runId, ns_node_id = nn_id node, ns_job_id = nn_job_id node, ns_status = WAITING, ns_latest_attempt_no = 0,
     ns_active_attempt_id = None, ns_revision = 1, ns_idempotent = nn_idempotent node, ns_trigger_rule = ALL_SUCCESS,
     ns_blocked_by = [], ns_status_reason = None, ns_started_at = None, ns_finished_at = None, ns_updated_at = at' \<rparr>"

definition stateMatches :: "network_node jsmap \<Rightarrow> node_state versioned \<Rightarrow> bool" where
  "stateMatches nodesById st = (case mapGet nodesById (ns_node_id (content st)) of
     None \<Rightarrow> False
   | Some node \<Rightarrow> ns_job_id (content st) = nn_job_id node \<and> ns_idempotent (content st) = nn_idempotent node \<and>
       ns_trigger_rule (content st) = nn_trigger_rule node)"

definition nodesByIdMap :: "network_definition \<Rightarrow> network_node jsmap" where
  "nodesByIdMap def = mapFromEntries (map (\<lambda>n. (nn_id n, n)) (nd_nodes def))"

definition ensureNodeState :: "'s ensure_input \<Rightarrow> string \<Rightarrow> string \<Rightarrow> string list \<Rightarrow> network_node \<Rightarrow> unit \<Rightarrow> ('s, unit) prog" where
  "ensureNodeState i runId at' existingIds node u =
     (if nn_id node \<in> set existingIds then retP ()
      else bindP (en_uuid i) (\<lambda>uuid.
        bindP (liftP (nodeStateKey (en_digest i) runId (nn_id node))) (\<lambda>key.
        bindP (upsertNodeState (en_repository i) \<lparr> nw_value = initialNodeState uuid key runId node at',
            nw_expected_revision = None, nw_resolution_event = None \<rparr>) (\<lambda>_. retP ()))))"

definition ensureNodeStates :: "'s ensure_input \<Rightarrow> string \<Rightarrow> network_definition \<Rightarrow> string \<Rightarrow> ('s, unit) prog" where
  "ensureNodeStates i runId def at' =
     bindP (getNodeStates (en_repository i) runId) (\<lambda>existing.
     if \<not> list_all (stateMatches (nodesByIdMap def)) existing then throwP (ensureError ''RUN_SNAPSHOT_MISMATCH'')
     else foldP (ensureNodeState i runId at' (map (\<lambda>s. ns_node_id (content s)) existing)) (nd_nodes def) ())"

definition idsWith :: "(node_state \<Rightarrow> bool) \<Rightarrow> node_state versioned list \<Rightarrow> string list" where
  "idsWith p states = sort (map (\<lambda>s. ns_node_id (content s)) (filter (\<lambda>s. p (content s)) states))"

definition stuckState :: "node_state \<Rightarrow> bool" where
  "stuckState v \<longleftrightarrow> ns_status v = UNKNOWN \<or> ((ns_status v = FAILED \<or> ns_status v = CANCELLED) \<and> \<not> ns_idempotent v)"

definition invocationReason :: "'s ensure_input \<Rightarrow> invocation_mode \<Rightarrow> string" where
  "invocationReason i mode = (case mode of
     NEW \<Rightarrow> ''new business run'' | RERUN_FROM \<Rightarrow> ''rerun from '' @ orElse (en_rerunFrom i) ''undefined'' | RESUME \<Rightarrow> ''resume incomplete run'')"

definition newInvocation ::
  "'s ensure_input \<Rightarrow> string \<Rightarrow> invocation_mode \<Rightarrow> string \<Rightarrow> string \<Rightarrow> string list option \<Rightarrow> node_state versioned list \<Rightarrow> run_invocation" where
  "newInvocation i runId mode invocationId startedAt given states =
     (let blocked = idsWith stuckState states in
      \<lparr> ri_invocation_id = invocationId, ri_run_id = runId, ri_mode = mode, ri_requested_by = en_requestedBy i,
        ri_host = en_host i, ri_started_at = startedAt, ri_finished_at = None, ri_status = RUNNING, ri_result_code = ''PENDING'',
        ri_selected_node_ids = (case given of
            Some ids \<Rightarrow> ids
          | None \<Rightarrow> idsWith (\<lambda>v. ns_status v \<noteq> SUCCESS \<and> ns_node_id v \<notin> set blocked) states),
        ri_preserved_node_ids = idsWith (\<lambda>v. ns_status v = SUCCESS) states, ri_blocked_node_ids = blocked,
        ri_reason = invocationReason i mode \<rparr>)"

definition createRunInvocation ::
  "'s ensure_input \<Rightarrow> network_run versioned \<Rightarrow> invocation_mode \<Rightarrow> string list option \<Rightarrow> ('s, run_invocation versioned) prog" where
  "createRunInvocation i run mode given =
     (let runId = nr_run_id (content run) in
      bindP (if given = None then getNodeStates (en_repository i) runId else retP []) (\<lambda>states.
      bindP (case en_invocationId i of Some v \<Rightarrow> retP v | None \<Rightarrow> bindP (en_uuid i) (\<lambda>u. retP (''invoke_'' @ u))) (\<lambda>invocationId.
      bindP (en_now i) (\<lambda>startedAt.
      createInvocation (en_repository i) (newInvocation i runId mode invocationId startedAt given states)))))"

section \<open>Repeating from a node\<close>

definition rerunError :: "js_error \<Rightarrow> js_error" where
  "rerunError error = (case error of
     DescendantsError code \<Rightarrow> EnsureRunError
       (if code = ''DESCENDANTS_NODE_NOT_FOUND'' then ''RERUN_FROM_NODE_NOT_FOUND'' else ''RERUN_FROM_DAG_INVALID'') [] (Some error)
   | _ \<Rightarrow> error)"

fun statesOf :: "node_state versioned jsmap \<Rightarrow> string list \<Rightarrow> js_error + node_state versioned list" where
  "statesOf byId [] = Inr []"
| "statesOf byId (k # ks) = (case mapGet byId k of
     None \<Rightarrow> Inl (ensureError ''RERUN_FROM_DAG_INVALID'')
   | Some st \<Rightarrow> (case statesOf byId ks of Inl e \<Rightarrow> Inl e | Inr sts \<Rightarrow> Inr (st # sts)))"

definition rerunAllowed :: "network_run \<Rightarrow> node_state versioned list \<Rightarrow> js_error + unit" where
  "rerunAllowed run states =
     (if nr_status run = SUCCESS then Inl (ensureError ''RERUN_FROM_SUCCESS_RUN'')
      else if list_ex (\<lambda>s. ns_status (content s) = UNKNOWN) states then Inl (ensureError ''RERUN_FROM_UNKNOWN_STATE'')
      else if list_ex (\<lambda>s. \<not> ns_idempotent (content s) \<and> ns_latest_attempt_no (content s) > 0) states
      then Inl (ensureError ''RERUN_FROM_NON_IDEMPOTENT'')
      else Inr ())"

definition rerunState :: "string \<Rightarrow> node_state \<Rightarrow> node_state" where
  "rerunState at' v = v\<lparr> ns_status := WAITING, ns_active_attempt_id := None, ns_blocked_by := [], ns_status_reason := None,
     ns_finished_at := None, ns_updated_at := at' \<rparr>"

definition prepareRerunFrom ::
  "'s ensure_input \<Rightarrow> network_run versioned \<Rightarrow> network_definition \<Rightarrow> string \<Rightarrow> (string list \<Rightarrow> ('s, unit) prog) \<Rightarrow>
   ('s, string list) prog" where
  "prepareRerunFrom i run def nodeId beforeTransitions =
     bindP (liftP (case descendantsIncludingSelf def nodeId of Inl e \<Rightarrow> Inl (rerunError e) | Inr ids \<Rightarrow> Inr ids)) (\<lambda>selected.
     bindP (getNodeStates (en_repository i) (nr_run_id (content run))) (\<lambda>states.
     bindP (liftP (statesOf (mapFromEntries (map (\<lambda>s. (ns_node_id (content s), s)) states)) selected)) (\<lambda>selectedStates.
     bindP (liftP (rerunAllowed (content run) selectedStates)) (\<lambda>_.
     bindP (beforeTransitions selected) (\<lambda>_.
     bindP (en_now i) (\<lambda>at'.
     bindP (foldP (\<lambda>st u. bindP (upsertNodeState (en_repository i) \<lparr> nw_value = rerunState at' (content st),
         nw_expected_revision = Some (revision st), nw_resolution_event = None \<rparr>) (\<lambda>_. retP ())) selectedStates ()) (\<lambda>_.
     retP selected)))))))"

definition latestStoredBaseline :: "node_attempt versioned list \<Rightarrow> string \<Rightarrow> js_error + stored_baseline list option" where
  "latestStoredBaseline attempts nodeId = (case firstBaseline (latestFirst attempts nodeId) of
     Inl e \<Rightarrow> Inl (EnsureRunError ''INPUT_FILE_MUTATED'' [] (Some e))
   | Inr b \<Rightarrow> Inr b)"

definition inputRequest :: "'s ensure_input \<Rightarrow> network_run \<Rightarrow> string \<Rightarrow> network_node \<Rightarrow> path_request" where
  "inputRequest i run ioRoot node = \<lparr> pr_ioRoot = ioRoot, pr_patterns = orElse (nn_inputs node) [],
     pr_businessKey = nr_business_key run, pr_profile = en_profile i, pr_runId = nr_run_id run, pr_nodeId = nn_id node \<rparr>"

definition verifyNodeBaseline ::
  "'s ensure_input \<Rightarrow> network_run \<Rightarrow> string \<Rightarrow> string list \<Rightarrow> node_attempt versioned list \<Rightarrow> network_node \<Rightarrow> unit \<Rightarrow> ('s, unit) prog" where
  "verifyNodeBaseline i run ioRoot targetIds attempts node u =
     (if nn_id node \<notin> set targetIds \<or> \<not> hasInputs node then retP ()
      else bindP (liftP (latestStoredBaseline attempts (nn_id node))) (\<lambda>stored.
        case stored of
          None \<Rightarrow> retP ()
        | Some previous \<Rightarrow>
            bindP (catchP (someP (en_resolveInputs i (inputRequest i run ioRoot node)))
              (\<lambda>error. case error of InputPathError _ \<Rightarrow> retP None | _ \<Rightarrow> throwP error)) (\<lambda>current.
            case current of
              None \<Rightarrow> retP ()
            | Some files \<Rightarrow> bindP (liftP (inputBaselinesEqual previous files)) (\<lambda>same.
                if same then retP () else throwP (ensureError ''INPUT_FILE_MUTATED'')))))"

definition verifyExistingInputBaselines ::
  "'s ensure_input \<Rightarrow> network_run \<Rightarrow> network_definition \<Rightarrow> string option \<Rightarrow> string list \<Rightarrow> ('s, unit) prog" where
  "verifyExistingInputBaselines i run def ioRoot targetIds = (case ioRoot of
     None \<Rightarrow> retP ()
   | Some root' \<Rightarrow>
       if targetIds = [] then retP ()
       else bindP (getAttempts (en_repository i) (nr_run_id run)) (\<lambda>attempts.
         foldP (verifyNodeBaseline i run root' targetIds attempts) (nd_nodes def) ()))"

section \<open>A new run\<close>

definition inspectJobs ::
  "'s ensure_input \<Rightarrow> network_node \<Rightarrow> (network_node \<times> string \<times> json) list \<Rightarrow> ('s, (network_node \<times> string \<times> json) list) prog" where
  "inspectJobs i node inspected =
     (let sqlPath = en_sqlPath i (en_networkPath i) (nn_sql node) in
      bindP (en_readFile i sqlPath) (\<lambda>before.
      bindP (en_inspectJob i sqlPath) (\<lambda>inspection.
      bindP (en_readFile i sqlPath) (\<lambda>after.
      if before \<noteq> after then throwP (ensureError ''BUNDLE_INPUT_CHANGED'')
      else retP (inspected @ [(node, after, inspection)])))))"

definition bundleJobs :: "(network_node \<times> string \<times> json) list \<Rightarrow> inspected_node list \<Rightarrow> bundle_job list" where
  "bundleJobs inspected validated =
     map (\<lambda>((node, sqlBytes, _), checked). \<lparr> bj_path = ''jobs/'' @ nn_id node @ ''.sql'', bj_sqlBytes = sqlBytes,
       bj_inspectedNode = checked \<rparr>) (zip inspected validated)"

definition dialectsOf :: "(network_node \<times> string \<times> json) list \<Rightarrow> json option list" where
  "dialectsOf inspected = rev (remdups (rev (map (\<lambda>(_, _, inspection). jsonGet inspection ''dialect'') inspected)))"

definition jobBundle :: "'s ensure_input \<Rightarrow> network_definition \<Rightarrow> string \<Rightarrow> (network_node \<times> string \<times> json) list \<Rightarrow> js_error + built_bundle" where
  "jobBundle i def networkBytes inspected =
     (case validateJobInspections (en_parseDate i) (nd_nodes def)
             (mapFromEntries (map (\<lambda>(node, _, inspection). (nn_id node, inspection)) inspected)) [] of
        Inl e \<Rightarrow> Inl e
      | Inr validated \<Rightarrow>
          if length (dialectsOf inspected) \<noteq> 1 then Inl (ensureError ''BUNDLE_DIALECT_MISMATCH'')
          else (case en_buildBundle i networkBytes (bundleJobs inspected validated) of
            Inl e \<Rightarrow> Inl e
          | Inr bundle \<Rightarrow> (case en_verifyBundle i (bb_zipBytes bundle) \<lparr> be_zipSha256 = bb_zipSha256 bundle,
                be_manifest = Some (bb_manifestSha256 bundle, bb_manifest bundle) \<rparr> of
              Inl e \<Rightarrow> Inl e | Inr _ \<Rightarrow> Inr bundle)))"

definition newRunRecord ::
  "'s ensure_input \<Rightarrow> network_definition \<Rightarrow> string \<Rightarrow> json \<Rightarrow> json \<Rightarrow> string \<Rightarrow> resolved_profile_snapshot \<Rightarrow> built_bundle \<Rightarrow>
   json option \<Rightarrow> string \<Rightarrow> string \<Rightarrow> string \<Rightarrow> network_run" where
  "newRunRecord i def key capabilities description networkBytes snapshot bundle dialect fileKey uuid at' =
     \<lparr> nr_run_id = ''netrun_'' @ uuid, nr_network_id = nd_network_id def, nr_business_key = key,
       nr_max_active_runs = nd_max_active_runs def, nr_status = CREATED, nr_lifecycle_status = ACTIVE, nr_resume_allowed = True,
       nr_as_of = en_scheduledFor i, nr_definition_schema_version = nd_schema_version def,
       nr_definition_sha256 = en_sha256 i networkBytes, nr_source_bundle_sha256 = bb_zipSha256 bundle,
       nr_source_bundle_attachment = fileKey, nr_resolved_profile_snapshot = snapshot,
       nr_resolved_profile_sha256 = ps_sha256 (profileSnapshot (en_sha256 i) description),
       nr_ksql_flow_version = textOf (jsonGet capabilities ''ksqlFlowVersion''),
       nr_engine_version = textOf (jsonGet capabilities ''engineVersion''), nr_dialect = intOfJson dialect,
       nr_created_at = at', nr_started_at = None, nr_finished_at = None, nr_updated_at = at' \<rparr>"

text \<open>Lines 533 to 605: the stored run, the hash of its bundle and the time of its creation.\<close>

definition storeNewRun ::
  "'s ensure_input \<Rightarrow> network_definition \<Rightarrow> string \<Rightarrow> json \<Rightarrow> ('s, network_run versioned \<times> string \<times> string) prog" where
  "storeNewRun i def key capabilities =
     bindP (en_describeProfile i) (\<lambda>description.
     bindP (liftP (assertDescriptionProfile description (en_profile i))) (\<lambda>_.
     bindP (en_readFile i (en_networkPath i)) (\<lambda>networkBytes.
     bindP (foldP (inspectJobs i) (nd_nodes def) []) (\<lambda>inspected.
     bindP (liftP (jobBundle i def networkBytes inspected)) (\<lambda>bundle.
     bindP (en_upload i (bb_zipBytes bundle)) (\<lambda>fileKey.
     bindP (en_now i) (\<lambda>at'.
     bindP (liftP (persistenceProfileSnapshot description)) (\<lambda>snapshot.
     bindP (en_uuid i) (\<lambda>uuid.
     bindP (createRun (en_repository i) (newRunRecord i def key capabilities description networkBytes snapshot bundle
         (hd (dialectsOf inspected)) fileKey uuid at')) (\<lambda>created.
     bindP (getRun (en_repository i) (nr_run_id (content created))) (\<lambda>stored.
     retP (stored, bb_zipSha256 bundle, at'))))))))))))"

text \<open>Lines 607 to 618.\<close>

definition fetchNewBundle :: "'s ensure_input \<Rightarrow> network_definition \<Rightarrow> network_run versioned \<Rightarrow> string \<Rightarrow> string \<Rightarrow> ('s, string) prog" where
  "fetchNewBundle i def stored zipSha256 at' =
     bindP (en_download i (nr_source_bundle_attachment (content stored))) (\<lambda>bytes.
     bindP (liftP (en_verifyBundle i bytes \<lparr> be_zipSha256 = zipSha256, be_manifest = None \<rparr>)) (\<lambda>_.
     bindP (ensureNodeStates i (nr_run_id (content stored)) def at') (\<lambda>_.
     retP bytes)))"

type_synonym ('s, 'a) eprog = "('s \<times> ensure_locals, 'a) prog"

definition keptInvocation ::
  "'s ensure_input \<Rightarrow> network_run versioned \<Rightarrow> invocation_mode \<Rightarrow> string list option \<Rightarrow> ('s, run_invocation versioned) eprog" where
  "keptInvocation i run mode given = bindP (world (createRunInvocation i run mode given)) (\<lambda>v.
     bindP (setL (\<lambda>l. l\<lparr> el_invocation := Some v \<rparr>)) (\<lambda>_. retP v))"

definition openInvocation ::
  "'s ensure_input \<Rightarrow> network_run versioned \<Rightarrow> invocation_mode \<Rightarrow> string list option \<Rightarrow> ('s, unit) eprog" where
  "openInvocation i run mode given = bindP (keptInvocation i run mode given) (\<lambda>_. retP ())"

definition createNewRun :: "'s ensure_input \<Rightarrow> network_definition \<Rightarrow> string \<Rightarrow> json \<Rightarrow> ('s, network_run versioned \<times> string) eprog" where
  "createNewRun i def key capabilities =
     bindP (world (storeNewRun i def key capabilities)) (\<lambda>(stored, zipSha256, at').
     bindP (openInvocation i stored NEW (Some (map nn_id (nd_nodes def)))) (\<lambda>_.
     bindP (world (fetchNewBundle i def stored zipSha256 at')) (\<lambda>bytes.
     retP (stored, bytes))))"

definition blocksNewRun :: "string \<Rightarrow> network_run \<Rightarrow> bool" where
  "blocksNewRun key run \<longleftrightarrow> nr_business_key run \<noteq> key \<and> nr_resume_allowed run \<and> nr_lifecycle_status run \<noteq> ARCHIVED \<and>
     nr_status run \<noteq> SUCCESS"

definition blockingRuns :: "string \<Rightarrow> network_run versioned list \<Rightarrow> string list" where
  "blockingRuns key runs = sort (map (\<lambda>r. nr_run_id (content r)) (filter (\<lambda>r. blocksNewRun key (content r)) runs))"

text \<open>Lines 387 to 406: reconciliation of a new run, and the hand-over.\<close>

definition handOver :: "'s ensure_input \<Rightarrow> invocation_mode \<Rightarrow> network_run versioned \<Rightarrow> string \<Rightarrow> network_lock_reference \<Rightarrow> ('s, ensure_result) eprog" where
  "handOver i outcome run bytes lock =
     bindP (getL el_invocation) (\<lambda>given.
     bindP (case given of Some v \<Rightarrow> retP v | None \<Rightarrow> keptInvocation i run outcome None) (\<lambda>invocation.
     bindP (if outcome = NEW then
         bindP (world (reconcileRun (en_repository i) (en_systemNow i) (en_randomUUID i) (nr_run_id (content run)))) (\<lambda>_.
         world (getRun (en_repository i) (nr_run_id (content run))))
       else retP run) (\<lambda>current.
     bindP (world (writeP (en_markOpen i))) (\<lambda>_.
     bindP (setL (\<lambda>l. l\<lparr> el_handedOff := True \<rparr>)) (\<lambda>_.
     retP (EnsureExecution \<lparr> ex_outcome = outcome, ex_run = current, ex_invocation = invocation,
       ex_businessKey = nr_business_key (content current), ex_bundleBytes = bytes, ex_lock = lock \<rparr>))))))"

definition startNewRun :: "'s ensure_input \<Rightarrow> network_definition \<Rightarrow> string \<Rightarrow> json \<Rightarrow> network_lock_reference \<Rightarrow> ('s, ensure_result) eprog" where
  "startNewRun i def key capabilities lock =
     (if en_resumeRunId i \<noteq> None \<or> en_rerunFrom i \<noteq> None then throwP (ensureError ''RUN_NOT_FOUND'')
      else bindP (world (listRuns (en_repository i) (en_profile i) (nd_network_id def))) (\<lambda>runs.
        let blockedBy = blockingRuns key runs in
        if int (length blockedBy) \<ge> nd_max_active_runs def then throwP (EnsureRunError ''MAX_ACTIVE_RUNS'' blockedBy None)
        else bindP (createNewRun i def key capabilities) (\<lambda>(run, bytes). handOver i NEW run bytes lock)))"

section \<open>An existing run\<close>

definition findRunInsideLock :: "'s ensure_input \<Rightarrow> string \<Rightarrow> string \<Rightarrow> ('s, network_run versioned option) prog" where
  "findRunInsideLock i networkId key =
     catchP (case en_resumeRunId i of
         Some runId \<Rightarrow> someP (getRun (en_repository i) runId)
       | None \<Rightarrow> getRunByBusinessKey (en_repository i) (en_profile i) networkId key)
       (\<lambda>error. case error of
          RepositoryError code _ \<Rightarrow>
            if code = MULTIPLE_RECORDS then throwP (ensureError ''MULTIPLE_RUNS'')
            else if en_resumeRunId i \<noteq> None \<and> code = RECORD_NOT_FOUND then retP None
            else throwP error
        | _ \<Rightarrow> throwP error)"

text \<open>Lines 315 to 328: the stored definition, after the profile and the bundle were checked; with the bundle.\<close>

definition storedDefinition :: "'s ensure_input \<Rightarrow> network_run versioned \<Rightarrow> int \<Rightarrow> ('s, network_definition \<times> string) prog" where
  "storedDefinition i run retentionDays =
     (let v = content run in
      bindP (en_describeProfile i) (\<lambda>description.
      bindP (liftP (assertDescriptionProfile description (en_profile i))) (\<lambda>_.
      bindP (liftP (assertStoredProfile (en_sha256 i) description v)) (\<lambda>_.
      bindP (en_download i (nr_source_bundle_attachment v)) (\<lambda>bytes.
      bindP (liftP (en_verifyBundle i bytes \<lparr> be_zipSha256 = nr_source_bundle_sha256 v, be_manifest = None \<rparr>)) (\<lambda>_.
      bindP (liftP (definitionFromBundle i bytes v)) (\<lambda>def.
      bindP (en_now i) (\<lambda>now.
      bindP (liftP (assertInputRetention (en_parseDate i) v def retentionDays (en_timeOf i now))) (\<lambda>_.
      retP (def, bytes))))))))))"

definition resumeTarget :: "node_state \<Rightarrow> bool" where
  "resumeTarget v \<longleftrightarrow> ns_idempotent v \<and> (ns_status v = FAILED \<or> ns_status v = CANCELLED)"

text \<open>Lines 337 to 384.\<close>

definition reopenRun ::
  "'s ensure_input \<Rightarrow> network_run versioned \<Rightarrow> network_definition \<Rightarrow> string option \<Rightarrow> ('s, network_run versioned) eprog" where
  "reopenRun i run def ioRoot =
     (let R = en_repository i; runId = nr_run_id (content run) in
      bindP (world (reconcileRun R (en_systemNow i) (en_randomUUID i) runId)) (\<lambda>_.
      bindP (world (getRun R runId)) (\<lambda>current.
      bindP (getL el_invocation) (\<lambda>invocation.
      bindP (case en_rerunFrom i of
          Some nodeId \<Rightarrow>
            bindP (world (prepareRerunFrom i current def nodeId
              (verifyExistingInputBaselines i (content current) def ioRoot))) (\<lambda>selected.
            openInvocation i current RERUN_FROM (Some selected))
        | None \<Rightarrow>
            if invocation \<noteq> None then retP ()
            else bindP (world (getNodeStates R runId)) (\<lambda>states.
              bindP (world (verifyExistingInputBaselines i (content current) def ioRoot
                (map (\<lambda>s. ns_node_id (content s)) (filter (\<lambda>s. resumeTarget (content s)) states)))) (\<lambda>_.
              openInvocation i current RESUME None))) (\<lambda>_.
      retP current)))))"

definition continueRun ::
  "'s ensure_input \<Rightarrow> network_definition \<Rightarrow> network_run versioned \<Rightarrow> network_lock_reference \<Rightarrow> string option \<Rightarrow> int \<Rightarrow>
   ('s, ensure_result) eprog" where
  "continueRun i def run lock ioRoot retentionDays =
     (let v = content run in
      bindP (world (getCancelRequest (en_repository i) (nr_run_id v))) (\<lambda>cancel.
      if isCancelHold cancel then throwP (ensureError ''RUN_ON_HOLD'')
      else bindP (if en_rerunFrom i = None \<and> \<not> list_ex hasInputs (nd_nodes def) then openInvocation i run RESUME None else retP ()) (\<lambda>_.
        bindP (if en_rerunFrom i \<noteq> None \<and> nr_status v = SUCCESS then retP () else liftP (assertRunResumable v)) (\<lambda>_.
        bindP (world (storedDefinition i run retentionDays)) (\<lambda>(snapshot, bytes).
        bindP (world (en_now i)) (\<lambda>at'.
        bindP (world (ensureNodeStates i (nr_run_id v) snapshot at')) (\<lambda>_.
        bindP (reopenRun i run snapshot ioRoot) (\<lambda>current.
        handOver i RESUME current bytes lock))))))))"

definition existingRun ::
  "'s ensure_input \<Rightarrow> network_definition \<Rightarrow> network_run versioned \<Rightarrow> network_lock_reference \<Rightarrow> string option \<Rightarrow> int \<Rightarrow>
   ('s, ensure_result) eprog" where
  "existingRun i def run lock ioRoot retentionDays =
     bindP (liftP (assertRunIdentity (content run) (en_profile i) (nd_network_id def))) (\<lambda>_.
     if nr_status (content run) = SUCCESS \<and> en_rerunFrom i = None then
       bindP (world (en_release i lock ''SUCCESS'' ''ALREADY_SUCCESS'')) (\<lambda>_.
       bindP (setL (\<lambda>l. l\<lparr> el_lock := None \<rparr>)) (\<lambda>_.
       retP (EnsureNoop run (nr_business_key (content run)))))
     else if \<not> en_resume i \<and> en_resumeRunId i = None \<and> en_rerunFrom i = None then
       throwP (EnsureRunError ''RUN_ALREADY_EXISTS'' [nr_run_id (content run)] None)
     else continueRun i def run lock ioRoot retentionDays)"

section \<open>The whole\<close>

definition ensureBody :: "'s ensure_input \<Rightarrow> network_definition \<Rightarrow> string \<Rightarrow> json \<Rightarrow> string option \<Rightarrow> int \<Rightarrow> ('s, ensure_result) eprog" where
  "ensureBody i def key capabilities ioRoot retentionDays =
     bindP (world (en_acquire i)) (\<lambda>lock.
     bindP (setL (\<lambda>l. l\<lparr> el_lock := Some lock \<rparr>)) (\<lambda>_.
     bindP (world (findRunInsideLock i (nd_network_id def) key)) (\<lambda>found.
     case found of
       None \<Rightarrow> startNewRun i def key capabilities lock
     | Some run \<Rightarrow> existingRun i def run lock ioRoot retentionDays)))"

fun repositoryCodeText :: "repository_error_code \<Rightarrow> string" where
  "repositoryCodeText DUPLICATE_RECORD = ''DUPLICATE_RECORD''"
| "repositoryCodeText REVISION_CONFLICT = ''REVISION_CONFLICT''"
| "repositoryCodeText INVALID_STATE_TRANSITION = ''INVALID_STATE_TRANSITION''"
| "repositoryCodeText ATTEMPT_NUMBER_CONFLICT = ''ATTEMPT_NUMBER_CONFLICT''"
| "repositoryCodeText ATTEMPT_TERMINAL = ''ATTEMPT_TERMINAL''"
| "repositoryCodeText ATTEMPT_LIFECYCLE_VIOLATION = ''ATTEMPT_LIFECYCLE_VIOLATION''"
| "repositoryCodeText AMBIGUOUS_WRITE = ''AMBIGUOUS_WRITE''"
| "repositoryCodeText RECORD_NOT_FOUND = ''RECORD_NOT_FOUND''"
| "repositoryCodeText MULTIPLE_RECORDS = ''MULTIPLE_RECORDS''"
| "repositoryCodeText UNIQUE_KEY_TOO_LONG = ''UNIQUE_KEY_TOO_LONG''"
| "repositoryCodeText REMOTE_ERROR = ''REMOTE_ERROR''"
| "repositoryCodeText AUDIT_CONFLICT = ''AUDIT_CONFLICT''"

fun lockCodeText :: "network_lock_error_code \<Rightarrow> string" where
  "lockCodeText LOCK_CONFLICT = ''LOCK_CONFLICT''"
| "lockCodeText LOCK_UNAVAILABLE = ''LOCK_UNAVAILABLE''"
| "lockCodeText LEASE_TOKEN_MISMATCH = ''LEASE_TOKEN_MISMATCH''"
| "lockCodeText LEASE_REVISION_MISMATCH = ''LEASE_REVISION_MISMATCH''"
| "lockCodeText LEASE_REVISION_CONFLICT = ''LEASE_REVISION_CONFLICT''"

fun recoveryCodeText :: "network_lock_recovery_error_code \<Rightarrow> string" where
  "recoveryCodeText INVALID_ARGUMENT = ''INVALID_ARGUMENT''"
| "recoveryCodeText LOCK_NOT_FOUND = ''LOCK_NOT_FOUND''"
| "recoveryCodeText LOCK_READ_FAILED = ''LOCK_READ_FAILED''"
| "recoveryCodeText OWNER_MISMATCH = ''OWNER_MISMATCH''"
| "recoveryCodeText LEASE_STILL_ACTIVE = ''LEASE_STILL_ACTIVE''"
| "recoveryCodeText STOP_NOT_CONFIRMED = ''STOP_NOT_CONFIRMED''"
| "recoveryCodeText HEARTBEAT_ADVANCED = ''HEARTBEAT_ADVANCED''"
| "recoveryCodeText RECOVERY_REVISION_CONFLICT = ''REVISION_CONFLICT''"
| "recoveryCodeText RELEASE_UNCONFIRMED = ''RELEASE_UNCONFIRMED''"
| "recoveryCodeText AUDIT_FAILED = ''AUDIT_FAILED''"

text \<open>The \<open>code\<close> of an error, if it has one that is a string.\<close>

fun codeOf :: "js_error \<Rightarrow> string option" where
  "codeOf (RepositoryError code _) = Some (repositoryCodeText code)"
| "codeOf (KintoneApiError _ code) = code"
| "codeOf (NetworkLockError code _) = Some (lockCodeText code)"
| "codeOf (NetworkLockRecoveryError code) = Some (recoveryCodeText code)"
| "codeOf (CanonicalKeyError code _) = Some code"
| "codeOf (DescendantsError code) = Some code"
| "codeOf (CancelRequestError code) = Some code"
| "codeOf (ResolveNodeError code) = Some code"
| "codeOf (JobLockAuditError code) = Some code"
| "codeOf (EnsureRunError code _ _) = Some code"
| "codeOf (ReconciliationRequiredError _) = Some ''RECONCILIATION_REQUIRED''"
| "codeOf (SchedulerLeaseInterruptedError _ _) = Some ''NETWORK_LEASE_INTERRUPTED''"
| "codeOf (InputPathError code) = Some code"
| "codeOf OutputPathError = Some ''OUTPUT_PATH_REJECTED''"
| "codeOf (CodedError code) = Some code"
| "codeOf _ = None"

definition errorCode :: "js_error \<Rightarrow> string" where
  "errorCode error = orElse (codeOf error) ''ENSURE_RUN_FAILED''"

definition failedInvocation :: "js_error \<Rightarrow> string \<Rightarrow> invocation_finalization" where
  "failedInvocation error at' = \<lparr> if_status = FAILED, if_result_code = errorCode error, if_finished_at = at',
     if_selected_node_ids = None, if_preserved_node_ids = None, if_blocked_node_ids = None, if_reason = None \<rparr>"

text \<open>The \<open>catch\<close> block, and the \<open>finally\<close> block.\<close>

definition failEnsure :: "'s ensure_input \<Rightarrow> ensure_locals \<Rightarrow> js_error \<Rightarrow> ('s, ensure_result) prog" where
  "failEnsure i l error = (case el_invocation l of
     None \<Rightarrow> throwP error
   | Some invocation \<Rightarrow>
       bindP (attemptP (bindP (en_now i) (\<lambda>at'. finalizeInvocation (en_repository i) (ri_invocation_id (content invocation))
           (revision invocation) (failedInvocation error at')))) (\<lambda>r.
       case r of
         Inl finalizationError \<Rightarrow> throwP (AggregateError [error, finalizationError] (Some error))
       | Inr _ \<Rightarrow> throwP error))"

definition releaseUnlessHandedOff :: "'s ensure_input \<Rightarrow> ensure_locals \<Rightarrow> ('s, unit) prog" where
  "releaseUnlessHandedOff i l = (case el_lock l of
     None \<Rightarrow> retP ()
   | Some lock \<Rightarrow> if el_handedOff l then retP () else en_release i lock ''FAILED'' ''ENSURE_RUN_FAILED'')"

definition settleEnsure :: "'s ensure_input \<Rightarrow> ensure_locals \<Rightarrow> js_error + ensure_result \<Rightarrow> ('s, ensure_result) prog" where
  "settleEnsure i l outcome =
     bindP (attemptP (case outcome of Inr x \<Rightarrow> retP x | Inl error \<Rightarrow> failEnsure i l error)) (\<lambda>r.
     bindP (releaseUnlessHandedOff i l) (\<lambda>_. liftP r))"

definition lockedEnsure :: "'s ensure_input \<Rightarrow> network_definition \<Rightarrow> string \<Rightarrow> json \<Rightarrow> string option \<Rightarrow> int \<Rightarrow> ('s, ensure_result) prog" where
  "lockedEnsure i def key capabilities ioRoot retentionDays = (\<lambda>s.
     case ensureBody i def key capabilities ioRoot retentionDays
            (s, \<lparr> el_lock = None, el_invocation = None, el_handedOff = False \<rparr>) of
       (r, (s1, l)) \<Rightarrow> settleEnsure i l r s1)"

definition configuredIo :: "'s ensure_input \<Rightarrow> network_definition \<Rightarrow> ('s, (string \<times> int) option) prog" where
  "configuredIo i def = (case en_beforeLock i of None \<Rightarrow> retP None | Some before \<Rightarrow> before def)"

definition ensureRun :: "'s ensure_input \<Rightarrow> ('s, ensure_result) prog" where
  "ensureRun i =
     bindP (en_loadNetwork i (en_networkPath i)) (\<lambda>loaded.
     case loaded of
       None \<Rightarrow> throwP (ensureError ''NETWORK_VALIDATION_FAILED'')
     | Some def \<Rightarrow>
         bindP (resolveEnsureBusinessKey i def) (\<lambda>key.
         bindP (en_capabilities i) (\<lambda>capabilities.
         bindP (liftP (validateCapabilities capabilities (additionalFeatures def))) (\<lambda>_.
         bindP (configuredIo i def) (\<lambda>io.
         lockedEnsure i def key capabilities
           (case io of Some (root', _) \<Rightarrow> Some root' | None \<Rightarrow> en_ioRoot i)
           (case io of Some (_, days) \<Rightarrow> days | None \<Rightarrow> orElse (en_ioRetentionDays i) 90))))))"

section \<open>Closing\<close>

definition closeFinalization :: "run_invocation \<Rightarrow> ensure_close \<Rightarrow> string \<Rightarrow> invocation_finalization" where
  "closeFinalization invocation c at' = \<lparr> if_status = ec_status c, if_result_code = ec_resultCode c, if_finished_at = at',
     if_selected_node_ids = ec_selectedNodeIds c, if_preserved_node_ids = ec_preservedNodeIds c,
     if_blocked_node_ids = ec_blockedNodeIds c,
     if_reason = (case ec_reason c of None \<Rightarrow> None | Some r \<Rightarrow> Some (ri_reason invocation @ ''; '' @ r)) \<rparr>"

definition closeInvocation :: "'s ensure_input \<Rightarrow> ensure_execution \<Rightarrow> ensure_close \<Rightarrow> ('s, js_error option) prog" where
  "closeInvocation i x c =
     (if ec_persistInvocation c = Some False then retP None
      else bindP (attemptP (bindP (en_now i) (\<lambda>at'. finalizeInvocation (en_repository i)
          (ri_invocation_id (content (ex_invocation x))) (revision (ex_invocation x))
          (closeFinalization (content (ex_invocation x)) c at')))) (\<lambda>r.
        retP (case r of Inl e \<Rightarrow> Some e | Inr _ \<Rightarrow> None)))"

definition closeEnsured :: "'s ensure_input \<Rightarrow> ensure_execution \<Rightarrow> ensure_close \<Rightarrow> ('s, unit) prog" where
  "closeEnsured i x c =
     bindP (readP (en_isClosed i)) (\<lambda>closed.
     if closed then retP ()
     else bindP (writeP (en_markClosed i)) (\<lambda>_.
       bindP (closeInvocation i x c) (\<lambda>failed.
       bindP (attemptP (en_release i (ex_lock x) (statusText (ec_status c)) (ec_resultCode c))) (\<lambda>released.
       case released of
         Inl releaseError \<Rightarrow> throwP (AggregateError (case failed of None \<Rightarrow> [releaseError] | Some e \<Rightarrow> [e, releaseError]) (Some releaseError))
       | Inr _ \<Rightarrow> (case failed of Some e \<Rightarrow> throwP e | None \<Rightarrow> retP ())))))"

end
