(* ===== verification/SchedulerFrame.thy ===== *)
theory SchedulerFrame
  imports SchedulerRun RepositoryContract
begin

text \<open>
  What a run of the scheduler does to the world, as far as it is the same for every part of it: if the repository,
  the monitor, the clock and the other parameters relate the states before and after each call by \<open>T\<close>, then so do
  the parts of the scheduler. Creating an attempt, accepting a cancel request and writing a
  node state are left out of the first contract (\<open>stillRepository\<close>), so that \<open>T\<close> may forbid them, and are added by the
  locales that extend it.
\<close>

section \<open>The interface of the scheduler\<close>

definition quietRepository :: "'s repository \<Rightarrow> 's repository" where
  "quietRepository R = R\<lparr> createAttempt := (\<lambda>_. throwP (PlainError ''Error'')),
     updateCancelRequest := (\<lambda>_ _ _. throwP (PlainError ''Error'')) \<rparr>"

definition stillRepository :: "'s repository \<Rightarrow> 's repository" where
  "stillRepository R = (quietRepository R)\<lparr> upsertNodeState := (\<lambda>_. throwP (PlainError ''Error'')) \<rparr>"

lemma quietRepository_simps [simp]:
  "getRun (quietRepository R) = getRun R" "getCancelRequest (quietRepository R) = getCancelRequest R"
  "updateRunAggregate (quietRepository R) = updateRunAggregate R" "getInvocations (quietRepository R) = getInvocations R"
  "finalizeInvocation (quietRepository R) = finalizeInvocation R" "getNodeStates (quietRepository R) = getNodeStates R"
  "getAttempts (quietRepository R) = getAttempts R" "upsertNodeState (quietRepository R) = upsertNodeState R"
  "setAttemptInputBaseline (quietRepository R) = setAttemptInputBaseline R"
  "setAttemptExecutionStarted (quietRepository R) = setAttemptExecutionStarted R"
  "finalizeAttempt (quietRepository R) = finalizeAttempt R"
  "appendOperationAudit (quietRepository R) = appendOperationAudit R"
  "getOperationAuditByEventId (quietRepository R) = getOperationAuditByEventId R"
  by (simp_all add: quietRepository_def)

lemma stillRepository_simps [simp]:
  "getRun (stillRepository R) = getRun R" "getCancelRequest (stillRepository R) = getCancelRequest R"
  "updateRunAggregate (stillRepository R) = updateRunAggregate R" "getInvocations (stillRepository R) = getInvocations R"
  "finalizeInvocation (stillRepository R) = finalizeInvocation R" "getNodeStates (stillRepository R) = getNodeStates R"
  "getAttempts (stillRepository R) = getAttempts R"
  "setAttemptInputBaseline (stillRepository R) = setAttemptInputBaseline R"
  "setAttemptExecutionStarted (stillRepository R) = setAttemptExecutionStarted R"
  "finalizeAttempt (stillRepository R) = finalizeAttempt R"
  "appendOperationAudit (stillRepository R) = appendOperationAudit R"
  "getOperationAuditByEventId (stillRepository R) = getOperationAuditByEventId R"
  by (simp_all add: stillRepository_def)

lemma adjudicate_quiet:
  "adjudicateOrphanRunningAttempts (quietRepository R) = adjudicateOrphanRunningAttempts R"
proof -
  have "adjudicateOne (quietRepository R) = adjudicateOne R" by (intro ext) (simp add: adjudicateOne_def)
  then show ?thesis by (intro ext) (simp add: adjudicateOrphanRunningAttempts_def cong: option.case_cong)
qed

lemma finalizeAbandoned_quiet: "finalizeAbandonedInvocations (quietRepository R) = finalizeAbandonedInvocations R"
proof -
  have "finalizeAbandonedOne (quietRepository R) = finalizeAbandonedOne R" by (intro ext) (simp only: finalizeAbandonedOne_def quietRepository_simps)
  then show ?thesis by (intro ext) (simp add: finalizeAbandonedInvocations_def)
qed

definition both :: "('s \<Rightarrow> 's \<Rightarrow> bool) \<Rightarrow> ('l \<Rightarrow> 'l \<Rightarrow> bool) \<Rightarrow> 's \<times> 'l \<Rightarrow> 's \<times> 'l \<Rightarrow> bool" where
  "both T L x y \<longleftrightarrow> T (fst x) (fst y) \<and> L (snd x) (snd y)"

definition cp_keeps :: "('s \<Rightarrow> 's \<Rightarrow> bool) \<Rightarrow> 's control_plane \<Rightarrow> bool" where
  "cp_keeps T cp \<longleftrightarrow> (\<forall>op. guarantees T op \<longrightarrow> guarantees T (cp_marker cp op)) \<and>
     (\<forall>op. guarantees T op \<longrightarrow> guarantees T (cp_attempt cp op)) \<and> (\<forall>op. guarantees T op \<longrightarrow> guarantees T (cp_state cp op))"

locale scheduler_calls = repository_client T "stillRepository (ss_repository i)" "ss_now i" "ss_randomUUID i"
  for T :: "'s \<Rightarrow> 's \<Rightarrow> bool" and i :: "'s scheduler_input" +
  fixes L :: "locals \<Rightarrow> locals \<Rightarrow> bool"
  assumes parameters [guarantees_intro]:
    "guarantees T (ss_uuid i)" "guarantees T (ss_nowMs i)" "guarantees T (ss_sleep i d)" "guarantees T (ss_extract i)"
    "guarantees T (ss_resolveInputs i p)" "guarantees T (ss_resolveOutputs i p)" "guarantees T (ss_removeDirectory i dir)"
    "guarantees T (sm_confirmLease (ss_monitor i))" "guarantees T (sm_start (ss_monitor i))"
    "guarantees T (sm_stop (ss_monitor i))"
    and tick_keeps: "sm_tick (ss_monitor i) = Some tick \<Longrightarrow> guarantees T tick"
    and jobLog_keeps: "ss_findAttemptResult i = Some lookup \<Longrightarrow> guarantees T (lookup a)"
    and mark_keeps: "T s (sm_markUnreachable (ss_monitor i) s)"
    and deadline_keeps: "T s (ss_setDeadline i ms s)"
    and L_refl: "L l l"
    and L_trans: "L l l' \<Longrightarrow> L l' l'' \<Longrightarrow> L l l''"
    and bookkeeping: "L l (l\<lparr> l_run := run \<rparr>)" "L l (l\<lparr> l_run := run, l_aggregateStatus := st \<rparr>)"
      "L l (l\<lparr> l_attempts := attempts \<rparr>)" "L l (l\<lparr> l_attempts := attempts, l_adjudicationReason := reason \<rparr>)"
      "L l (l\<lparr> l_directory := directory \<rparr>)" "L l (l\<lparr> l_reconciliationRequired := b \<rparr>)"

text \<open>Node states are written and attempts executed.\<close>

locale scheduler_frame = scheduler_calls T i L
  for T :: "'s \<Rightarrow> 's \<Rightarrow> bool" and i :: "'s scheduler_input" and L :: "locals \<Rightarrow> locals \<Rightarrow> bool" +
  assumes upsert_keeps [guarantees_intro]: "guarantees T (upsertNodeState (ss_repository i) w)"
    and execute_keeps: "cp_keeps T cp \<Longrightarrow> guarantees T gate \<Longrightarrow> guarantees T (ss_execute i cp (Some gate) x)"

text \<open>The tables of the loop, and at last the input of \<open>close\<close>, change as well.\<close>

locale scheduler_tables = scheduler_frame T i L
  for T :: "'s \<Rightarrow> 's \<Rightarrow> bool" and i :: "'s scheduler_input" and L :: "locals \<Rightarrow> locals \<Rightarrow> bool" +
  assumes tables: "L l (l\<lparr> l_states := m \<rparr>)" "L l (l\<lparr> l_results := rs \<rparr>)" "L l (l\<lparr> l_selected := ids \<rparr>)"
      "L l (l\<lparr> l_preserved := ids \<rparr>)" "L l (l\<lparr> l_blocked := ids \<rparr>)" "L l (l\<lparr> l_ioFailure := code \<rparr>)"
      "L l (l\<lparr> l_adjudicationReason := reason \<rparr>)"
    and creates [guarantees_intro]: "guarantees T (createAttempt (ss_repository i) a)"
    and accepts [guarantees_intro]: "guarantees T (updateCancelRequest (ss_repository i) run n cancel)"

locale scheduler_run = scheduler_tables T i L
  for T :: "'s \<Rightarrow> 's \<Rightarrow> bool" and i :: "'s scheduler_input" and L :: "locals \<Rightarrow> locals \<Rightarrow> bool" +
  assumes closes: "L l (l\<lparr> l_close := c \<rparr>)"
    and close_keeps [guarantees_intro]: "guarantees T (ss_close i c')"

sublocale scheduler_calls \<subseteq> lifted: state_order "both T L"
  by unfold_locales (auto simp: both_def intro: T_refl T_trans L_refl L_trans)

sublocale scheduler_frame \<subseteq> quiet: repository_client T "quietRepository (ss_repository i)" "ss_now i" "ss_randomUUID i"
  using writes reads now_keeps uuid_keeps upsert_keeps
  by unfold_locales (simp_all add: stillRepository_def quietRepository_def)

section \<open>The parts of the scheduler\<close>

context scheduler_calls
begin

lemmas repository_keeps [guarantees_intro] = writes [simplified] reads [simplified]

lemma writeP_keeps: "(\<And>s. T s (f s)) \<Longrightarrow> guarantees T (writeP f)"
  by (simp add: guarantees_def)

lemma lease_keeps [guarantees_intro]:
  "guarantees T (ordinaryWrite (ss_monitor i))" "guarantees T (aggregateWrite (ss_monitor i))"
  "guarantees T (persistGate (ss_monitor i))"
proof -
  have tick: "guarantees T (case sm_tick (ss_monitor i) of None \<Rightarrow> retP True | Some tick \<Rightarrow> tick)"
    by (cases "sm_tick (ss_monitor i)") (auto intro: tick_keeps guarantees_pure)
  show "guarantees T (ordinaryWrite (ss_monitor i))" "guarantees T (aggregateWrite (ss_monitor i))"
    "guarantees T (persistGate (ss_monitor i))"
    unfolding ordinaryWrite_def aggregateWrite_def persistGate_def by (intro guarantees_intro tick)+
qed

lemma requireOrdinaryWrite_keeps [guarantees_intro]: "guarantees T (requireOrdinaryWrite (ss_monitor i))"
  unfolding requireOrdinaryWrite_def by (intro guarantees_intro)

lemma drainLoop_keeps: "guarantees T op \<Longrightarrow> guarantees T (drainLoop i deadline op n e)"
proof (induction n arbitrary: e)
  case (Suc n)
  show ?case
    by (simp only: drainLoop.simps) (intro guarantees_intro writeP_keeps mark_keeps Suc)
qed (simp add: guarantees_pure)

lemma drainDeadline_keeps [guarantees_intro]: "guarantees T (drainDeadline i maxMs)"
  unfolding drainDeadline_def by (intro guarantees_intro writeP_keeps deadline_keeps)

lemma controlPlane_keeps [guarantees_intro]: "guarantees T op \<Longrightarrow> guarantees T (controlPlane i maxMs op)"
  unfolding controlPlane_def by (intro guarantees_intro writeP_keeps mark_keeps drainLoop_keeps)

lemma schedulerControlPlane_keeps: "cp_keeps T (schedulerControlPlane i maxMs)"
  by (simp add: cp_keeps_def schedulerControlPlane_def controlPlane_keeps)

lemma ensureRunStarted_keeps [guarantees_intro]: "guarantees T (ensureRunStarted i)"
  unfolding ensureRunStarted_def by (intro guarantees_intro)

lemma updateAggregate_keeps [guarantees_intro]: "guarantees T (updateAggregate i maxMs run states)"
  unfolding updateAggregate_def by (intro guarantees_intro)

lemma persistInputBaseline_keeps [guarantees_intro]: "guarantees T (persistInputBaseline i maxMs attempt summary)"
  unfolding persistInputBaseline_def by (intro guarantees_intro)

lemma files_keep [guarantees_intro]:
  "guarantees T (nodeImports i node)" "guarantees T (nodeExports i node)" "guarantees T (nodeFiles i sel attempts node)"
  "guarantees T (keepBaseline i maxMs attempt imports)"
proof -
  show a: "guarantees T (nodeImports i node)" and b: "guarantees T (nodeExports i node)"
    unfolding nodeImports_def nodeExports_def by (intro guarantees_intro)+
  show "guarantees T (nodeFiles i sel attempts node)" unfolding nodeFiles_def by (intro guarantees_intro a b)
  show "guarantees T (keepBaseline i maxMs attempt imports)" unfolding keepBaseline_def by (intro guarantees_intro)
qed

lemma world_keeps [guarantees_intro]: "guarantees T m \<Longrightarrow> guarantees (both T L) (world m)"
  unfolding guarantees_def world_def both_def by (auto split: prod.splits simp: L_refl) (metis snd_conv)

lemma setL_keeps: "(\<And>l. L l (f l)) \<Longrightarrow> guarantees (both T L) (setL f)"
  by (auto simp: guarantees_def setL_def both_def T_refl split: prod.splits)

lemma getL_keeps [guarantees_intro]: "guarantees (both T L) (getL g)"
  by (auto simp: guarantees_def getL_def both_def T_refl L_refl split: prod.splits)

lemma throwLease_keeps [guarantees_intro]: "guarantees (both T L) throwLease"
  unfolding throwLease_def by (intro guarantees_intro setL_keeps bookkeeping)

lemma refreshAggregate_keeps [guarantees_intro]: "guarantees (both T L) (refreshAggregate i maxMs)"
  unfolding refreshAggregate_def by (intro guarantees_intro setL_keeps bookkeeping)

end

context scheduler_frame
begin

lemma writeNodeState_keeps [guarantees_intro]: "guarantees T (writeNodeState (ss_repository i) st f)"
  unfolding writeNodeState_def by (intro guarantees_intro)

lemma finalizeIoPathFailure_keeps [guarantees_intro]:
  "guarantees T (finalizeIoPathFailure i maxMs attempt state error code finishedAt)"
  unfolding finalizeIoPathFailure_def by (intro guarantees_intro)

lemma tryNode_keeps [guarantees_intro]: "guarantees T (tryNode i maxMs ex sel attempts node started)"
  unfolding tryNode_def by (intro guarantees_intro execute_keeps schedulerControlPlane_keeps)

lemma recoverRun_keeps [guarantees_intro]: "guarantees (both T L) (recoverRun i maxMs)"
proof -
  have log: "guarantees T (jobLogOf i a)" for a
    unfolding jobLogOf_def by (cases "ss_findAttemptResult i") (auto intro: jobLog_keeps guarantees_pure)
  have "guarantees T (adjudicateOrphanRunningAttempts (ss_repository i) (ss_now i) (jobLogOf i)
      (ordinaryWrite (ss_monitor i)) run inv given)" for run inv given
    using quiet.adjudicate_keeps [of "jobLogOf i" "ordinaryWrite (ss_monitor i)" run inv given] log lease_keeps
    by (simp add: adjudicate_quiet)
  moreover have "guarantees T (finalizeAbandonedInvocations (ss_repository i) (ss_now i) (ss_randomUUID i)
      (ordinaryWrite (ss_monitor i)) run inv)" for run inv
    using quiet.finalizeAbandoned_keeps [of "ordinaryWrite (ss_monitor i)" run inv] lease_keeps
    by (simp add: finalizeAbandoned_quiet)
  ultimately show ?thesis
    unfolding recoverRun_def Let_def by (intro guarantees_intro setL_keeps bookkeeping)
qed

lemma runNode_keeps [guarantees_intro]: "guarantees (both T L) (runNode i maxMs ex node started)"
  unfolding runNode_def by (intro guarantees_intro)

end

context scheduler_tables
begin

lemma table_updates:
  "L l (putState n st l)" "L l (putResult n r l)" "L l (addSelected n l)" "L l (addPreserved n l)" "L l (addBlocked n l)"
  "L l (foldl (\<lambda>l n. addBlocked n l) l ns)" "L l (addBrakeReasons l)" "L l (recordOutcome n x l)"
proof -
  show p: "L l (putState n st l)" and r: "L l (putResult n r l)" and "L l (addSelected n l)" "L l (addPreserved n l)"
    for l n st r
    by (simp_all add: putState_def putResult_def addSelected_def addPreserved_def tables)
  show b: "L l (addBlocked n l)" for l n by (simp add: addBlocked_def tables)
  show "L l (foldl (\<lambda>l n. addBlocked n l) l ns)" by (induction ns arbitrary: l) (auto intro: L_refl L_trans b)
  show "L l (addBrakeReasons l)" by (simp add: addBrakeReasons_def Let_def L_refl tables)
  show "L l (recordOutcome n x l)"
    by (auto simp: recordOutcome_def Let_def intro!: L_trans [OF _ r] L_trans [OF _ p] L_refl tables split: option.splits)
qed

lemma composed_updates: "L l (f l) \<Longrightarrow> L l (putResult n r (f l))" "L l (f l) \<Longrightarrow> L l (addBlocked n (f l))"
  by (auto intro: L_trans table_updates)

lemma recordNode_keeps: "(\<And>l. L l (f l)) \<Longrightarrow> guarantees (both T L) (recordNode nodeId d state f)"
  unfolding recordNode_def by (intro guarantees_intro setL_keeps composed_updates) blast

lemma prepareResumeStates_keeps [guarantees_intro]: "guarantees (both T L) (prepareResumeStates i def)"
  unfolding prepareResumeStates_def prepareNode_def Let_def
  by (intro guarantees_intro setL_keeps composed_updates table_updates)

lemma prepareRun_keeps [guarantees_intro]: "guarantees (both T L) (prepareRun i)"
  unfolding prepareRun_def Let_def by (intro guarantees_intro setL_keeps bookkeeping tables)

lemma effectiveCancel_keeps [guarantees_intro]: "guarantees T (effectiveCancel i maxMs)"
  unfolding effectiveCancel_def someP_def Let_def by (intro guarantees_intro)

lemma startNode_keeps [guarantees_intro]: "guarantees T (startNode i state)"
  unfolding startNode_def Let_def by (intro guarantees_intro)

lemma blockNode_keeps [guarantees_intro]: "guarantees (both T L) (blockNode i maxMs nodeId state failed)"
  unfolding blockNode_def by (intro guarantees_intro setL_keeps composed_updates table_updates)

end

context scheduler_run
begin

lemma executeNode_keeps [guarantees_intro]: "guarantees (both T L) (executeNode i maxMs ex node state)"
  unfolding executeNode_def by (intro guarantees_intro setL_keeps table_updates closes)

lemma readyNode_keeps [guarantees_intro]: "guarantees (both T L) (readyNode i maxMs ex node state)"
proof -
  have "L l ((putResult n r l)\<lparr> l_close := c \<rparr>)" for l n r c by (rule L_trans [OF table_updates(2) closes])
  then show ?thesis unfolding readyNode_def Let_def by (intro guarantees_intro setL_keeps table_updates)
qed

lemma nodeStep_keeps [guarantees_intro]: "guarantees (both T L) (nodeStep i maxMs ex excluded node)"
  unfolding nodeStep_def Let_def by (intro guarantees_intro recordNode_keeps table_updates) (simp add: L_refl)

lemma nodeLoop_keeps [guarantees_intro]: "guarantees (both T L) (nodeLoop i maxMs ex excluded nodes order)"
  by (induction order) (simp_all only: nodeLoop.simps, (intro guarantees_intro, assumption?)+)

lemma finishRun_keeps [guarantees_intro]: "guarantees (both T L) (finishRun i maxMs order brakeIds)"
  unfolding finishRun_def closeRun_def by (intro guarantees_intro setL_keeps closes)

lemma runBody_keeps [guarantees_intro]: "guarantees (both T L) (runBody i)"
  unfolding runBody_def Let_def by (intro guarantees_intro setL_keeps table_updates)

lemma settleRun_keeps [guarantees_intro]: "guarantees T (settleRun i l outcome)"
  unfolding settleRun_def handleFailure_def cleanUp_def by (intro guarantees_intro)

lemma runSequentialScheduler_keeps: "guarantees T (runSequentialScheduler i)"
proof -
  have "T s (snd (case runBody i (s, l) of (r, (s1, l)) \<Rightarrow> settleRun i l r s1))" for s l
  proof -
    obtain r s1 l1 where run: "runBody i (s, l) = (r, (s1, l1))" by (metis prod.collapse)
    have "T s s1" using runBody_keeps run unfolding guarantees_def both_def by (metis fst_conv snd_conv)
    moreover have "T s1 (snd (settleRun i l1 r s1))" using settleRun_keeps unfolding guarantees_def by blast
    ultimately show ?thesis using run by (auto intro: T_trans)
  qed
  then show ?thesis
    unfolding runSequentialScheduler_def by (intro guarantees_bindP parameters) (simp add: guarantees_def)
qed

end

end
