(* ===== verification/EnsureProps.thy ===== *)
theory EnsureProps
  imports EnsureRun SchedulerFrame
begin

text \<open>
  What starting a run does to the world: the contract of \<open>ensureRun\<close> with the repository, the lock manager and its
  other parameters, lifted from the single calls to the whole operation, and to the variables of the function (\<open>L\<close>).
\<close>

text \<open>The locks and the end of the function are left out of the first contract, so that \<open>T\<close> may count them.\<close>

locale ensure_calls = repository_client T "en_repository i" "en_now i" "en_uuid i"
  for T :: "'s \<Rightarrow> 's \<Rightarrow> bool" and i :: "'s ensure_input" +
  fixes L :: "ensure_locals \<Rightarrow> ensure_locals \<Rightarrow> bool"
  assumes given_keeps [guarantees_intro]:
    "guarantees T (en_systemNow i)" "guarantees T (en_randomUUID i)"
    "guarantees T (en_capabilities i)" "guarantees T (en_describeProfile i)" "guarantees T (en_inspectJob i p)"
    "guarantees T (en_upload i z)" "guarantees T (en_download i k)" "guarantees T (en_loadNetwork i p)"
    "guarantees T (en_readFile i p)" "guarantees T (en_resolveInputs i q)"
    and beforeLock_keeps: "en_beforeLock i = Some f \<Longrightarrow> guarantees T (f def)"
    and closed_keeps: "T s (en_markClosed i s)" "T s (en_markOpen i s)"
    and L_refl: "L l l"
    and L_trans: "L l l' \<Longrightarrow> L l' l'' \<Longrightarrow> L l l''"
    and opened: "L l (l\<lparr> el_invocation := v \<rparr>)"

locale ensure_client = ensure_calls T i L
  for T :: "'s \<Rightarrow> 's \<Rightarrow> bool" and i :: "'s ensure_input" and L :: "ensure_locals \<Rightarrow> ensure_locals \<Rightarrow> bool" +
  assumes lock_keeps [guarantees_intro]: "guarantees T (en_acquire i)" "guarantees T (en_release i lock st code)"
    and ended: "L l (l\<lparr> el_lock := lock' \<rparr>)" "L l (l\<lparr> el_handedOff := b \<rparr>)"

sublocale ensure_calls \<subseteq> system: repository_client T "en_repository i" "en_systemNow i" "en_randomUUID i"
  by unfold_locales (rule given_keeps)+

sublocale ensure_calls \<subseteq> lifted: state_order "both T L"
  by unfold_locales (auto simp: both_def intro: T_refl T_trans L_refl L_trans)

context ensure_calls
begin

lemma world_keeps [guarantees_intro]: "guarantees T m \<Longrightarrow> guarantees (both T L) (world m)"
  unfolding guarantees_def world_def both_def by (auto split: prod.splits simp: L_refl) (metis snd_conv)

lemma setL_keeps: "(\<And>l. L l (f l)) \<Longrightarrow> guarantees (both T L) (setL f)"
  by (auto simp: guarantees_def setL_def both_def T_refl split: prod.splits)

lemma getL_keeps [guarantees_intro]: "guarantees (both T L) (getL g)"
  by (auto simp: guarantees_def getL_def both_def T_refl L_refl split: prod.splits)

lemma resolveEnsureBusinessKey_keeps [guarantees_intro]: "guarantees T (resolveEnsureBusinessKey i def)"
  unfolding resolveEnsureBusinessKey_def by (intro guarantees_intro)

lemma configuredIo_keeps [guarantees_intro]: "guarantees T (configuredIo i def)"
  unfolding configuredIo_def by (cases "en_beforeLock i") (auto intro: beforeLock_keeps guarantees_pure)

lemma findRunInsideLock_keeps [guarantees_intro]: "guarantees T (findRunInsideLock i networkId key)"
proof -
  have "guarantees T (case error of
          RepositoryError code _ \<Rightarrow>
            if code = MULTIPLE_RECORDS then throwP (ensureError ''MULTIPLE_RUNS'')
            else if en_resumeRunId i \<noteq> None \<and> code = RECORD_NOT_FOUND then retP None
            else throwP error
        | _ \<Rightarrow> throwP error)" for error
    by (cases error) (auto intro: guarantees_intro)
  then show ?thesis unfolding findRunInsideLock_def someP_def by (intro guarantees_intro)
qed

lemma ensureNodeStates_keeps [guarantees_intro]: "guarantees T (ensureNodeStates i runId def at')"
  unfolding ensureNodeStates_def ensureNodeState_def by (intro guarantees_intro)

lemma createRunInvocation_keeps [guarantees_intro]: "guarantees T (createRunInvocation i run mode given)"
  unfolding createRunInvocation_def Let_def by (intro guarantees_intro)

lemma openInvocation_keeps [guarantees_intro]:
  "guarantees (both T L) (keptInvocation i run mode given)" "guarantees (both T L) (openInvocation i run mode given)"
  unfolding openInvocation_def keptInvocation_def by (intro guarantees_intro setL_keeps opened)+

lemma prepareRerunFrom_keeps [guarantees_intro]:
  "(\<And>ids. guarantees T (check ids)) \<Longrightarrow> guarantees T (prepareRerunFrom i run def nodeId check)"
  unfolding prepareRerunFrom_def by (intro guarantees_intro)

lemma verify_keeps [guarantees_intro]: "guarantees T (verifyExistingInputBaselines i run def ioRoot ids)"
proof -
  have "guarantees T (case error of InputPathError _ \<Rightarrow> retP None | _ \<Rightarrow> throwP error)" for error
    by (cases error) (auto intro: guarantees_intro)
  then have "guarantees T (verifyNodeBaseline i run root' ids attempts node u)" for root' attempts node u
    unfolding verifyNodeBaseline_def someP_def by (intro guarantees_intro)
  then show ?thesis unfolding verifyExistingInputBaselines_def by (intro guarantees_intro)
qed

lemma storedDefinition_keeps [guarantees_intro]: "guarantees T (storedDefinition i run days)"
  unfolding storedDefinition_def Let_def by (intro guarantees_intro)

lemma storeNewRun_keeps [guarantees_intro]: "guarantees T (storeNewRun i def key capabilities)"
  unfolding storeNewRun_def inspectJobs_def Let_def by (intro guarantees_intro)

lemma createNewRun_keeps [guarantees_intro]: "guarantees (both T L) (createNewRun i def key capabilities)"
  unfolding createNewRun_def fetchNewBundle_def by (intro guarantees_intro)

lemma marks_keep [guarantees_intro]: "guarantees T (writeP (en_markClosed i))" "guarantees T (writeP (en_markOpen i))"
  by (simp_all add: guarantees_def closed_keeps)

lemma reopenRun_keeps [guarantees_intro]: "guarantees (both T L) (reopenRun i run def ioRoot)"
  unfolding reopenRun_def Let_def by (intro guarantees_intro system.reconcileRun_keeps)

lemma failEnsure_keeps [guarantees_intro]: "guarantees T (failEnsure i l error)"
  unfolding failEnsure_def by (intro guarantees_intro)

lemma closeInvocation_keeps [guarantees_intro]: "guarantees T (closeInvocation i x c)"
  unfolding closeInvocation_def by (intro guarantees_intro)

end

context ensure_client
begin

lemma handOver_keeps [guarantees_intro]: "guarantees (both T L) (handOver i outcome run bytes lock)"
  unfolding handOver_def by (intro guarantees_intro system.reconcileRun_keeps marks_keep setL_keeps ended)

lemma startNewRun_keeps [guarantees_intro]: "guarantees (both T L) (startNewRun i def key capabilities lock)"
  unfolding startNewRun_def Let_def by (intro guarantees_intro)

lemma continueRun_keeps [guarantees_intro]: "guarantees (both T L) (continueRun i def run lock ioRoot days)"
  unfolding continueRun_def Let_def by (intro guarantees_intro)

lemma ensureBody_keeps: "guarantees (both T L) (ensureBody i def key capabilities ioRoot days)"
  unfolding ensureBody_def existingRun_def by (intro guarantees_intro setL_keeps ended)

lemma settleEnsure_keeps: "guarantees T (settleEnsure i l outcome)"
  unfolding settleEnsure_def releaseUnlessHandedOff_def by (intro guarantees_intro)

lemma lockedEnsure_keeps [guarantees_intro]: "guarantees T (lockedEnsure i def key capabilities ioRoot days)"
proof -
  have "T s (snd (case ensureBody i def key capabilities ioRoot days (s, l) of (r, (s1, l)) \<Rightarrow> settleEnsure i l r s1))" for s l
  proof -
    obtain r s1 l1 where run: "ensureBody i def key capabilities ioRoot days (s, l) = (r, (s1, l1))" by (metis prod.collapse)
    have "T s s1" using ensureBody_keeps run unfolding guarantees_def both_def by (metis fst_conv snd_conv)
    moreover have "T s1 (snd (settleEnsure i l1 r s1))" using settleEnsure_keeps unfolding guarantees_def by blast
    ultimately show ?thesis using run by (auto intro: T_trans)
  qed
  then show ?thesis by (simp add: guarantees_def lockedEnsure_def)
qed

lemma ensureRun_keeps [guarantees_intro]: "guarantees T (ensureRun i)"
  unfolding ensureRun_def by (intro guarantees_intro)

lemma closeEnsured_keeps [guarantees_intro]: "guarantees T (closeEnsured i x c)"
  unfolding closeEnsured_def by (intro guarantees_intro)

end

end
