(* ===== verification/RunNetwork.thy ===== *)
theory RunNetwork
  imports EnsureProps SchedulerRun
begin

text \<open>
  The command \<open>run-network\<close>, \<open>src/cli/run-network-command.ts\<close>: its arguments, the composition of \<open>ensureRun\<close>, the
  attempt executor, the lease monitor and the scheduler (\<open>productionDependencies\<close>), and the result with its exit code.
  The environment variables and the objects built from them are the fields of \<open>'s network_runtime\<close>; the texts for a
  human reader are left out, the result for \<open>--json\<close> is kept. The closure variable \<open>ioConfig\<close> is a place in the world.
\<close>

section \<open>Arguments\<close>

datatype argument_error = SpecifiedTwice string | RequiresValue string | UnknownOption string | UnexpectedArgument string
  | RequiresPath | ResumeRunCombined | RerunFromAlone

record run_network_arguments =
  ra_networkPath :: "string option"
  ra_scheduledFor :: "string option"
  ra_businessKey :: "string option"
  ra_resume :: bool
  ra_resumeRunId :: "string option"
  ra_rerunFrom :: "string option"
  ra_ksqlFlowBin :: "string option"
  ra_ksqlFlowConfig :: "string option"
  ra_ksqlFlowWorkdir :: "string option"
  ra_json :: bool
  ra_errors :: "argument_error list"

definition noArguments :: run_network_arguments where
  "noArguments = \<lparr> ra_networkPath = None, ra_scheduledFor = None, ra_businessKey = None, ra_resume = False,
     ra_resumeRunId = None, ra_rerunFrom = None, ra_ksqlFlowBin = None, ra_ksqlFlowConfig = None,
     ra_ksqlFlowWorkdir = None, ra_json = False, ra_errors = [] \<rparr>"

definition argumentError :: "argument_error \<Rightarrow> run_network_arguments \<Rightarrow> run_network_arguments" where
  "argumentError e a = a\<lparr> ra_errors := ra_errors a @ [e] \<rparr>"

definition errorIf :: "bool \<Rightarrow> argument_error \<Rightarrow> run_network_arguments \<Rightarrow> run_network_arguments" where
  "errorIf b e a = (if b then argumentError e a else a)"

definition VALUE_OPTIONS :: "string list" where
  "VALUE_OPTIONS = [''--scheduled-for'', ''--business-key'', ''--resume-run'', ''--rerun-from'', ''--ksql-flow-bin'',
     ''--ksql-flow-config'', ''--ksql-flow-workdir'']"

definition optionOf :: "string \<Rightarrow> run_network_arguments \<Rightarrow> string option" where
  "optionOf argument a =
     (if argument = ''--scheduled-for'' then ra_scheduledFor a else if argument = ''--business-key'' then ra_businessKey a
      else if argument = ''--resume-run'' then ra_resumeRunId a else if argument = ''--rerun-from'' then ra_rerunFrom a
      else if argument = ''--ksql-flow-bin'' then ra_ksqlFlowBin a
      else if argument = ''--ksql-flow-config'' then ra_ksqlFlowConfig a else ra_ksqlFlowWorkdir a)"

definition setOption :: "string \<Rightarrow> string \<Rightarrow> run_network_arguments \<Rightarrow> run_network_arguments" where
  "setOption argument v a =
     (if argument = ''--scheduled-for'' then a\<lparr> ra_scheduledFor := Some v \<rparr>
      else if argument = ''--business-key'' then a\<lparr> ra_businessKey := Some v \<rparr>
      else if argument = ''--resume-run'' then a\<lparr> ra_resumeRunId := Some v \<rparr>
      else if argument = ''--rerun-from'' then a\<lparr> ra_rerunFrom := Some v \<rparr>
      else if argument = ''--ksql-flow-bin'' then a\<lparr> ra_ksqlFlowBin := Some v \<rparr>
      else if argument = ''--ksql-flow-config'' then a\<lparr> ra_ksqlFlowConfig := Some v \<rparr>
      else a\<lparr> ra_ksqlFlowWorkdir := Some v \<rparr>)"

fun parseLoop :: "string list \<Rightarrow> run_network_arguments \<Rightarrow> run_network_arguments" where
  "parseLoop [] a = a"
| "parseLoop (argument # rest) a =
     (if argument = ''--json'' then parseLoop rest ((errorIf (ra_json a) (SpecifiedTwice argument) a)\<lparr> ra_json := True \<rparr>)
      else if argument = ''--resume'' then parseLoop rest ((errorIf (ra_resume a) (SpecifiedTwice argument) a)\<lparr> ra_resume := True \<rparr>)
      else if argument \<in> set VALUE_OPTIONS then
        (case rest of
           [] \<Rightarrow> argumentError (RequiresValue argument) a
         | v # rest' \<Rightarrow>
             if startsWith v ''--'' then parseLoop rest (argumentError (RequiresValue argument) a)
             else parseLoop rest' (setOption argument v (errorIf (optionOf argument a \<noteq> None) (SpecifiedTwice argument) a)))
      else if startsWith argument ''-'' then parseLoop rest (argumentError (UnknownOption argument) a)
      else if ra_networkPath a = None then parseLoop rest (a\<lparr> ra_networkPath := Some argument \<rparr>)
      else parseLoop rest (argumentError (UnexpectedArgument argument) a))"

definition checkCombination :: "run_network_arguments \<Rightarrow> run_network_arguments" where
  "checkCombination a =
     errorIf (ra_rerunFrom a \<noteq> None \<and> ra_resumeRunId a = None \<and> \<not> ra_resume a) RerunFromAlone
       (errorIf (ra_resumeRunId a \<noteq> None \<and> (ra_scheduledFor a \<noteq> None \<or> ra_businessKey a \<noteq> None \<or> ra_resume a)) ResumeRunCombined
         (errorIf (ra_networkPath a = None) RequiresPath a))"

definition parseRunNetworkArguments :: "string list \<Rightarrow> run_network_arguments" where
  "parseRunNetworkArguments args = checkCombination (parseLoop args noArguments)"

section \<open>What the command is given\<close>

text \<open>
  \<open>rt_ensure\<close> and \<open>rt_scheduler\<close> hold the repository, the lock manager, the executor and the defaults of the two
  operations; what a run supplies is filled in by \<open>ensureInput\<close> and \<open>networkScheduler\<close>.
\<close>

record 's network_runtime =
  rt_ensure :: "'s ensure_input"
  rt_scheduler :: "'s scheduler_input"
  rt_loadIoConfig :: "('s, string \<times> int) prog"
  rt_keepIoConfig :: "string \<times> int \<Rightarrow> 's \<Rightarrow> 's"
  rt_ioConfig :: "'s \<Rightarrow> (string \<times> int) option"
  rt_extract :: "string \<Rightarrow> ('s, extracted_bundle) prog"
  rt_monitor :: "network_lock_reference \<Rightarrow> network_definition \<Rightarrow> js_error + 's scheduler_monitor"
  rt_run :: "network_run \<Rightarrow> executor_input \<Rightarrow> ('s, subprocess_result) prog"
  rt_findExecutionStarted :: "job_log_lookup \<Rightarrow> ('s, job_log_marker option) prog"
  rt_findAttemptResult :: "string \<Rightarrow> ('s, job_log_result option) prog"
  rt_readResult :: "string \<Rightarrow> ('s, string) prog"
  rt_collate :: "string \<Rightarrow> string \<Rightarrow> bool"
  rt_configPath :: string

definition needsIo :: "network_definition \<Rightarrow> bool" where
  "needsIo def \<longleftrightarrow> list_ex (\<lambda>node. hasInputs node \<or> hasOutputs node) (nd_nodes def)"

definition beforeLock :: "'s network_runtime \<Rightarrow> network_definition \<Rightarrow> ('s, (string \<times> int) option) prog" where
  "beforeLock rt def =
     (if needsIo def then bindP (rt_loadIoConfig rt) (\<lambda>config.
        bindP (writeP (rt_keepIoConfig rt config)) (\<lambda>_. retP (Some config)))
      else retP None)"

definition ensureInput :: "'s network_runtime \<Rightarrow> run_network_arguments \<Rightarrow> string \<Rightarrow> string \<Rightarrow> 's ensure_input" where
  "ensureInput rt a path invocationId = (rt_ensure rt)\<lparr> en_networkPath := path, en_resume := ra_resume a,
     en_scheduledFor := ra_scheduledFor a, en_businessKey := ra_businessKey a, en_resumeRunId := ra_resumeRunId a,
     en_rerunFrom := ra_rerunFrom a, en_invocationId := Some invocationId, en_beforeLock := Some (beforeLock rt),
     en_ioRoot := None, en_ioRetentionDays := None \<rparr>"

section \<open>Starting and scheduling\<close>

definition plainError :: js_error where
  "plainError = PlainError ''Error''"

text \<open>\<open>invoke\<close>, with the input of \<open>ensureRun\<close>, which \<open>close\<close> uses again.\<close>

definition invokeNetwork ::
  "'s network_runtime \<Rightarrow> run_network_arguments \<Rightarrow> string \<Rightarrow> ('s, 's ensure_input \<times> ensure_result) prog" where
  "invokeNetwork rt a path =
     bindP (en_randomUUID (rt_ensure rt)) (\<lambda>uuid.
     bindP (en_loadNetwork (rt_ensure rt) path) (\<lambda>loaded.
     if loaded = None then throwP plainError
     else let i = ensureInput rt a path (''invoke_'' @ uuid) in
       bindP (ensureRun i) (\<lambda>result. retP (i, result))))"

definition closeInput :: "scheduler_close \<Rightarrow> ensure_close" where
  "closeInput c = \<lparr> ec_status = sc_status c, ec_resultCode = sc_resultCode c, ec_selectedNodeIds = Some (sc_selectedNodeIds c),
     ec_preservedNodeIds = Some (sc_preservedNodeIds c), ec_blockedNodeIds = Some (sc_blockedNodeIds c),
     ec_reason = sc_reason c, ec_persistInvocation = sc_persistInvocation c \<rparr>"

definition attemptExecutor :: "'s network_runtime \<Rightarrow> network_run \<Rightarrow> 's attempt_executor" where
  "attemptExecutor rt run = \<lparr> ax_repository = en_repository (rt_ensure rt), ax_run = rt_run rt run,
     ax_findExecutionStarted = rt_findExecutionStarted rt, ax_reader = rt_readResult rt, ax_now = en_systemNow (rt_ensure rt),
     ax_parseDate = en_parseDate (rt_ensure rt), ax_collate = rt_collate rt \<rparr>"

definition networkScheduler ::
  "'s network_runtime \<Rightarrow> 's ensure_input \<Rightarrow> ensure_execution \<Rightarrow> (string \<times> int) option \<Rightarrow> 's scheduler_monitor \<Rightarrow> 's scheduler_input" where
  "networkScheduler rt i x io monitor = (rt_scheduler rt)\<lparr> ss_run := ex_run x, ss_invocation := ex_invocation x,
     ss_extract := rt_extract rt (ex_bundleBytes x), ss_repository := en_repository (rt_ensure rt),
     ss_execute := executeAttempt (attemptExecutor rt (content (ex_run x))),
     ss_findAttemptResult := Some (rt_findAttemptResult rt), ss_monitor := monitor, ss_profile := en_profile (rt_ensure rt),
     ss_configPath := rt_configPath rt, ss_ioRoot := map_option fst io, ss_close := (\<lambda>c. closeEnsured i x (closeInput c)),
     ss_now := en_systemNow (rt_ensure rt), ss_uuid := en_randomUUID (rt_ensure rt), ss_randomUUID := en_randomUUID (rt_ensure rt) \<rparr>"

text \<open>\<open>schedule\<close>.\<close>

definition bundledDefinition :: "'s network_runtime \<Rightarrow> string \<Rightarrow> js_error + network_definition" where
  "bundledDefinition rt bytes = (case en_networkYaml (rt_ensure rt) bytes of
     Inl e \<Rightarrow> Inl e
   | Inr None \<Rightarrow> Inl plainError
   | Inr (Some networkBytes) \<Rightarrow> (case en_loadSource (rt_ensure rt) networkBytes of None \<Rightarrow> Inl plainError | Some def \<Rightarrow> Inr def))"

definition scheduleNetwork :: "'s network_runtime \<Rightarrow> 's ensure_input \<Rightarrow> ensure_execution \<Rightarrow> ('s, scheduler_summary) prog" where
  "scheduleNetwork rt i x =
     bindP (liftP (bundledDefinition rt (ex_bundleBytes x))) (\<lambda>def.
     bindP (liftP (rt_monitor rt (ex_lock x) def)) (\<lambda>monitor.
     bindP (readP (rt_ioConfig rt)) (\<lambda>io.
     runSequentialScheduler (networkScheduler rt i x io monitor))))"

section \<open>The command\<close>

datatype run_outcome = OUTCOME_NEW | OUTCOME_RESUME | OUTCOME_NOOP | OUTCOME_REJECTED

record run_network_result =
  rj_outcome :: run_outcome
  rj_run_id :: "string option"
  rj_invocation_id :: "string option"
  rj_aggregate_status :: "string option"
  rj_invocation_result_code :: string
  rj_retry_brake_node_ids :: "string list"
  rj_blocked_run_ids :: "string list"

definition outcomeOf :: "invocation_mode \<Rightarrow> run_outcome" where
  "outcomeOf mode = (case mode of NEW \<Rightarrow> OUTCOME_NEW | _ \<Rightarrow> OUTCOME_RESUME)"

definition invalidArguments :: "run_network_arguments \<Rightarrow> run_network_result" where
  "invalidArguments a = \<lparr> rj_outcome = OUTCOME_REJECTED, rj_run_id = ra_resumeRunId a, rj_invocation_id = None,
     rj_aggregate_status = None, rj_invocation_result_code = ''INVALID_ARGUMENTS'', rj_retry_brake_node_ids = [],
     rj_blocked_run_ids = [] \<rparr>"

definition noopResult :: "network_run versioned \<Rightarrow> run_network_result" where
  "noopResult run = \<lparr> rj_outcome = OUTCOME_NOOP, rj_run_id = Some (nr_run_id (content run)), rj_invocation_id = None,
     rj_aggregate_status = Some ''SUCCESS'', rj_invocation_result_code = ''NOOP_ALREADY_SUCCESS'', rj_retry_brake_node_ids = [],
     rj_blocked_run_ids = [] \<rparr>"

definition finishedResult :: "ensure_execution \<Rightarrow> scheduler_summary \<Rightarrow> run_network_result" where
  "finishedResult x summary = \<lparr> rj_outcome = outcomeOf (ex_outcome x), rj_run_id = Some (nr_run_id (content (ex_run x))),
     rj_invocation_id = Some (ri_invocation_id (content (ex_invocation x))),
     rj_aggregate_status = Some (statusText (su_aggregateStatus summary)),
     rj_invocation_result_code = su_invocationResultCode summary, rj_retry_brake_node_ids = su_retryBrakeNodeIds summary,
     rj_blocked_run_ids = [] \<rparr>"

definition commandCode :: "js_error \<Rightarrow> string" where
  "commandCode error = orElse (codeOf error) ''RUN_NETWORK_FAILED''"

definition blockedBy :: "js_error \<Rightarrow> string list" where
  "blockedBy error = (case error of EnsureRunError _ ids _ \<Rightarrow> ids | _ \<Rightarrow> [])"

definition failedResult :: "run_network_arguments \<Rightarrow> ensure_execution option \<Rightarrow> js_error \<Rightarrow> run_network_result" where
  "failedResult a created error = \<lparr>
     rj_outcome = (case created of None \<Rightarrow> OUTCOME_REJECTED | Some x \<Rightarrow> outcomeOf (ex_outcome x)),
     rj_run_id = (case created of None \<Rightarrow> ra_resumeRunId a | Some x \<Rightarrow> Some (nr_run_id (content (ex_run x)))),
     rj_invocation_id = map_option (\<lambda>x. ri_invocation_id (content (ex_invocation x))) created,
     rj_aggregate_status = None, rj_invocation_result_code = commandCode error, rj_retry_brake_node_ids = [],
     rj_blocked_run_ids = blockedBy error \<rparr>"

text \<open>The exit code and the result.\<close>

definition runScheduled ::
  "'s network_runtime \<Rightarrow> run_network_arguments \<Rightarrow> 's ensure_input \<Rightarrow> ensure_execution \<Rightarrow> ('s, int \<times> run_network_result) prog" where
  "runScheduled rt a i x = bindP (attemptP (scheduleNetwork rt i x)) (\<lambda>r. retP (case r of
     Inl error \<Rightarrow> (1, failedResult a (Some x) error)
   | Inr summary \<Rightarrow> (if su_aggregateStatus summary = SUCCESS then 0 else 1, finishedResult x summary)))"

definition runRunNetworkCommand :: "'s network_runtime \<Rightarrow> string list \<Rightarrow> ('s, int \<times> run_network_result) prog" where
  "runRunNetworkCommand rt args =
     (let a = parseRunNetworkArguments args in
      case ra_networkPath a of
        None \<Rightarrow> retP (1, invalidArguments a)
      | Some path \<Rightarrow>
          if ra_errors a \<noteq> [] then retP (1, invalidArguments a)
          else bindP (attemptP (invokeNetwork rt a path)) (\<lambda>r. case r of
              Inl error \<Rightarrow> retP (1, failedResult a None error)
            | Inr (i, result) \<Rightarrow> (case result of
                EnsureNoop run key \<Rightarrow> retP (0, noopResult run)
              | EnsureExecution x \<Rightarrow> runScheduled rt a i x)))"

end
