(* ===== verification/SchedulerClosing.thy ===== *)
theory SchedulerClosing
  imports SchedulerFrame
begin

text \<open>
  How a run of the scheduler ends: whatever happens after the monitor was started, the invocation is closed exactly
  once. \<open>cl\<close> reads from the world what the calls of \<open>close\<close> leave behind (a log of them, or the lock they release), and
  \<open>add\<close> says what one call does to it.
\<close>

locale closing_scheduler = scheduler_tables "\<lambda>s t. cl t = cl s" i "\<lambda>l l'. l_close l' = l_close l"
  for cl :: "'s \<Rightarrow> 'k" and i :: "'s scheduler_input" +
  fixes add :: "scheduler_close \<Rightarrow> 'k \<Rightarrow> 'k"
  assumes close_logged: "cl (snd (ss_close i c s)) = add c (cl s)"
    and stop_returns: "fst (sm_stop (ss_monitor i) s) = Inr ()"

text \<open>Nothing is closed yet, and nothing is known of how to close.\<close>

definition still_open :: "('s \<Rightarrow> 'k) \<Rightarrow> 'k \<Rightarrow> 's \<times> locals \<Rightarrow> bool" where
  "still_open cl c0 x \<longleftrightarrow> cl (fst x) = c0 \<and> l_close (snd x) = None"

definition not_closed :: "('s \<Rightarrow> 'k) \<Rightarrow> 'k \<Rightarrow> 's \<times> locals \<Rightarrow> bool" where
  "not_closed cl c0 x \<longleftrightarrow> cl (fst x) = c0"

definition agreeing :: "scheduler_close \<Rightarrow> scheduler_summary \<Rightarrow> bool" where
  "agreeing c summary \<longleftrightarrow> sc_status c = su_invocationStatus summary \<and> sc_resultCode c = su_invocationResultCode summary \<and>
     sc_persistInvocation c = None"

text \<open>A close that does not write the invocation says that the lease was interrupted.\<close>

definition planned :: "scheduler_close \<Rightarrow> bool" where
  "planned c \<longleftrightarrow> sc_persistInvocation c = None \<or>
     sc_persistInvocation c = Some False \<and> sc_status c = CANCELLED \<and> sc_resultCode c = ''NETWORK_LEASE_INTERRUPTED''"

definition persisting :: "locals \<Rightarrow> bool" where
  "persisting l \<longleftrightarrow> (\<forall>c. l_close l = Some c \<longrightarrow> sc_persistInvocation c = None)"

text \<open>The body closed the invocation, or it threw without having decided how to close.\<close>

definition body_end :: "(scheduler_close \<Rightarrow> 'k \<Rightarrow> 'k) \<Rightarrow> ('s \<Rightarrow> 'k) \<Rightarrow> 'k \<Rightarrow> js_error + scheduler_summary \<Rightarrow> 's \<times> locals \<Rightarrow> bool" where
  "body_end add cl c0 r x \<longleftrightarrow>
     (\<exists>c. cl (fst x) = add c c0 \<and> l_close (snd x) = Some c \<and> sc_persistInvocation c = None \<and>
        (\<forall>summary. r = Inr summary \<longrightarrow> agreeing c summary)) \<or>
     still_open cl c0 x \<and> (\<exists>e. r = Inl e)"

lemma body_endI: "still_open cl c0 x \<Longrightarrow> body_end add cl c0 (Inl e) x"
  by (simp add: body_end_def)

context closing_scheduler
begin

abbreviation "quiet_order \<equiv> both (\<lambda>s t. cl t = cl s) (\<lambda>l l'. l_close l' = l_close l)"

lemma quiet_open:
  "guarantees quiet_order m \<Longrightarrow> ensures (still_open cl c0) m (\<lambda>_. still_open cl c0) (\<lambda>_. still_open cl c0)"
  by (erule ensures_guarantees) (simp add: still_open_def both_def)

lemmas quiet = quiet_open [OF world_keeps] quiet_open [OF getL_keeps] quiet_open [OF throwLease_keeps]
  quiet_open [OF refreshAggregate_keeps] quiet_open [OF runNode_keeps] quiet_open [OF prepareRun_keeps]
  quiet_open [OF blockNode_keeps]

text \<open>After a step: only a step that leaves the loop may have decided how to close.\<close>

definition stepped :: "'k \<Rightarrow> bool \<Rightarrow> 's \<times> locals \<Rightarrow> bool" where
  "stepped c0 stop x \<longleftrightarrow> cl (fst x) = c0 \<and> persisting (snd x) \<and> (stop \<or> l_close (snd x) = None)"

lemma open_stepped: "still_open cl c0 x \<Longrightarrow> stepped c0 b x"
  by (simp add: still_open_def stepped_def persisting_def)

lemma decided:
  "(\<And>l. \<exists>c. l_close (f l) = Some c \<and> sc_persistInvocation c = None) \<Longrightarrow>
   ensures (still_open cl c0) (bindP (setL f) (\<lambda>_. retP True)) (stepped c0) (\<lambda>_. still_open cl c0)"
  by (simp add: ensures_def setL_def still_open_def stepped_def persisting_def bindP_run split: prod.splits)
    (metis option.inject)

lemma returned: "ensures (still_open cl c0) (retP b) (stepped c0) (\<lambda>_. still_open cl c0)"
  by (rule ensures_pure) (rule open_stepped)

lemma quiet_setL: "(\<And>l. l_close (f l) = l_close l) \<Longrightarrow>
   ensures (still_open cl c0) (setL f) (\<lambda>_. still_open cl c0) (\<lambda>_. still_open cl c0)"
  by (intro quiet_open setL_keeps)

lemma sequenced:
  "ensures (still_open cl c0) m (\<lambda>_. still_open cl c0) (\<lambda>_. still_open cl c0) \<Longrightarrow>
   (\<And>x. ensures (still_open cl c0) (k x) Q (\<lambda>_. still_open cl c0)) \<Longrightarrow>
   ensures (still_open cl c0) (bindP m k) Q (\<lambda>_. still_open cl c0)"
  by (rule ensures_bindP)

lemma executeNode_open:
  "ensures (still_open cl c0) (executeNode i maxMs ex node state) (stepped c0) (\<lambda>_. still_open cl c0)"
  unfolding executeNode_def
  by (rule sequenced, (intro quiet quiet_setL startNode_keeps guarantees_pure table_updates)[1])+
    (intro ensures_if decided returned, simp add: finalization_def)

lemma recordNode_open:
  "(\<And>l. l_close (f l) = l_close l) \<Longrightarrow>
   ensures (still_open cl c0) (recordNode nodeId d state f) (stepped c0) (\<lambda>_. still_open cl c0)"
  unfolding recordNode_def by (intro sequenced returned quiet_setL composed_updates)

lemma readyNode_open:
  "ensures (still_open cl c0) (readyNode i maxMs ex node state) (stepped c0) (\<lambda>_. still_open cl c0)"
proof -
  have lost: "ensures (still_open cl c0) throwLease (stepped c0) (\<lambda>_. still_open cl c0)"
    by (rule ensures_weaken [OF quiet(3)]) (auto intro: open_stepped)
  show ?thesis
    unfolding readyNode_def Let_def
    by (rule sequenced, rule quiet_setL, rule table_updates, rule sequenced, rule quiet(1), rule effectiveCancel_keeps,
      rule ensures_if, rule decided, simp add: finalization_def, rule sequenced, rule quiet(1), rule guarantees_pure,
      rule ensures_if, rule sequenced, rule quiet_setL, rule table_updates, rule returned,
      rule sequenced, rule quiet(1), rule lease_keeps, rule ensures_if, rule lost, rule executeNode_open)
qed

lemma nodeStep_open:
  "ensures (still_open cl c0) (nodeStep i maxMs ex excluded node) (stepped c0) (\<lambda>_. still_open cl c0)"
proof -
  have block: "ensures (still_open cl c0) (bindP (blockNode i maxMs nodeId state failed) (\<lambda>_. retP False)) (stepped c0)
      (\<lambda>_. still_open cl c0)" for nodeId state failed
    by (intro sequenced quiet returned)
  have recorded: "(\<And>l. l_close (f l) = l_close l) \<Longrightarrow>
      ensures (still_open cl c0) (recordNode nodeId d state f) (stepped c0) (\<lambda>_. still_open cl c0)" for nodeId d state f
    by (rule recordNode_open)
  have ready: "ensures (still_open cl c0) (readyNode i maxMs ex node state) (stepped c0) (\<lambda>_. still_open cl c0)" for state
    by (rule readyNode_open)
  have lift: "(\<And>x. ensures (still_open cl c0) (k x) Q (\<lambda>_. still_open cl c0)) \<Longrightarrow>
      ensures (still_open cl c0) (bindP (liftP r) k) Q (\<lambda>_. still_open cl c0)" for r :: "js_error + 'x" and k and Q :: "bool \<Rightarrow> _"
    by (rule ensures_liftP)
  show ?thesis
    unfolding nodeStep_def Let_def case_prod_unfold
    by (rule sequenced, rule quiet(2), rule lift) (intro ensures_if lift recorded block ready table_updates, simp_all)
qed

lemma nodeLoop_open:
  "ensures (still_open cl c0) (nodeLoop i maxMs ex excluded nodes order) (\<lambda>_. stepped c0 True) (\<lambda>_. still_open cl c0)"
proof (induction order)
  case Nil
  show ?case unfolding nodeLoop.simps by (rule ensures_pure) (rule open_stepped)
next
  case (Cons nodeId order)
  show ?case
  proof (cases "mapGet nodes nodeId")
    case (Some node)
    have "ensures (stepped c0 stop) (if stop then retP () else nodeLoop i maxMs ex excluded nodes order)
        (\<lambda>_. stepped c0 True) (\<lambda>_. still_open cl c0)" for stop
      using Cons by (cases stop) (auto intro!: ensures_pure elim!: ensures_weaken simp: stepped_def still_open_def)
    from ensures_bindP [OF nodeStep_open this] show ?thesis by (simp add: Some)
  next
    case None
    then show ?thesis by (simp only: nodeLoop.simps option.case) (rule ensures_pure)
  qed
qed

lemma closeRun_end:
  assumes "cl s = c0" "l_close l = Some c" "sc_persistInvocation c = None"
    and run: "closeRun i order brakeIds c (s, l) = (r, x)"
  shows "body_end add cl c0 r x"
proof -
  obtain s1 where stop: "world (sm_stop (ss_monitor i)) (s, l) = (Inr (), (s1, l))"
    using stop_returns [of s] by (cases "sm_stop (ss_monitor i) s") (simp add: world_def)
  have "cl s1 = cl s" using guaranteesD [OF parameters(10), of s "Inr ()" s1] stop
    by (auto simp: world_def split: prod.splits)
  moreover obtain rc s2 where close: "world (ss_close i c) (s1, l) = (rc, (s2, l))" "cl s2 = add c (cl s1)"
    using close_logged [of c s1] by (cases "ss_close i c s1") (simp add: world_def)
  ultimately have s2: "cl s2 = add c c0" using assms(1) by simp
  have "x = (s2, l) \<and> (\<forall>summary. r = Inr summary \<longrightarrow> agreeing c summary)"
    using run stop close(1) assms(3)
    by (cases rc) (auto simp: closeRun_def bindP_run getL_def agreeing_def split: sum.splits)
  with s2 assms(2,3) show ?thesis by (auto simp: body_end_def)
qed

lemma finishRun_end:
  assumes "stepped c0 True x" and run: "finishRun i maxMs order brakeIds x = (r, y)"
  shows "body_end add cl c0 r y"
proof -
  obtain s l where x: "x = (s, l)" by (cases x)
  show ?thesis
  proof (cases "l_close l")
    case (Some c)
    with assms x show ?thesis
      by (intro closeRun_end [of s c0 l c order brakeIds]) (auto simp: finishRun_def getL_def stepped_def persisting_def)
  next
    case None
    then have o: "still_open cl c0 x" using assms(1) x by (simp add: still_open_def stepped_def)
    obtain q z where q: "refreshAggregate i maxMs x = (q, z)" by (metis prod.collapse)
    have z: "still_open cl c0 z" using quiet(4) [of c0 maxMs] o q by (cases q) (auto dest: ensures_Inr ensures_Inl)
    obtain s' l' where l': "z = (s', l')" by (cases z)
    show ?thesis
    proof (cases q)
      case (Inl e)
      then show ?thesis using run q x None z by (auto simp: finishRun_def getL_def bindP_run body_end_def)
    next
      case (Inr u)
      let ?c = "closeOfRun l'"
      have "closeRun i order brakeIds ?c (s', l'\<lparr> l_close := Some ?c \<rparr>) = (r, y)"
        using run q x None Inr l' by (simp add: finishRun_def getL_def setL_def bindP_run)
      then show ?thesis using z l'
        by (intro closeRun_end) (auto simp: still_open_def closeOfRun_def finalization_def split: prod.splits)
    qed
  qed
qed

lemma runBody_end:
  assumes "still_open cl c0 x" and run: "runBody i x = (r, y)"
  shows "body_end add cl c0 r y"
proof -
  have prep: "ensures (still_open cl c0) (prepareRun i) (\<lambda>_. still_open cl c0) (\<lambda>_. still_open cl c0)" by (rule quiet)
  have reasons: "ensures (still_open cl c0) (bindP (setL addBrakeReasons) k) Q E"
    if "ensures (still_open cl c0) (k ()) Q E" for k :: "unit \<Rightarrow> ('s, scheduler_summary) sprog" and Q E
    using that by (auto simp: ensures_def setL_def still_open_def table_updates(7))
  have getting: "ensures P (bindP (getL g) k) Q E" if "\<And>ids. ensures P (k ids) Q E"
    for P Q E and g :: "locals \<Rightarrow> string list" and k :: "_ \<Rightarrow> ('s, scheduler_summary) sprog"
    using that by (auto simp: ensures_def getL_def)
  have body: "ensures (still_open cl c0) (bindP (nodeLoop i maxMs ex excluded nodes order) (\<lambda>_. finishRun i maxMs order brakeIds))
      (\<lambda>summary. body_end add cl c0 (Inr summary)) (\<lambda>e. body_end add cl c0 (Inl e))" for maxMs ex excluded nodes order brakeIds
  proof (rule ensures_bindP [where R = "\<lambda>_. stepped c0 True"])
    show "ensures (still_open cl c0) (nodeLoop i maxMs ex excluded nodes order) (\<lambda>_. stepped c0 True)
        (\<lambda>e. body_end add cl c0 (Inl e))"
      by (rule ensures_weaken [OF nodeLoop_open]) (auto intro: body_endI)
    show "ensures (stepped c0 True) (finishRun i maxMs order brakeIds) (\<lambda>summary. body_end add cl c0 (Inr summary))
        (\<lambda>e. body_end add cl c0 (Inl e))"
      by (rule ensuresI) (blast intro: finishRun_end)+
  qed
  have "ensures (still_open cl c0) (runBody i) (\<lambda>summary. body_end add cl c0 (Inr summary)) (\<lambda>e. body_end add cl c0 (Inl e))"
    unfolding runBody_def Let_def case_prod_unfold
  proof (rule ensures_bindP)
    show "ensures (still_open cl c0) (prepareRun i) (\<lambda>_. still_open cl c0) (\<lambda>e. body_end add cl c0 (Inl e))"
      by (rule ensures_weaken [OF prep]) (auto intro: body_endI)
  qed (intro getting reasons body)
  then show ?thesis using assms by (cases r) (auto dest: ensures_Inr ensures_Inl)
qed

lemma cleanUp_keeps: "cl (snd (cleanUp i l s)) = cl s"
proof -
  have "guarantees (\<lambda>s t. cl t = cl s) (cleanUp i l)" unfolding cleanUp_def by (intro guarantees_intro)
  then show ?thesis by (simp add: guarantees_def)
qed

lemma handleFailure_open:
  assumes "l_close l = None" "handleFailure i l e s = (r, t)"
  shows "cl t = add (failureClose l e) (cl s) \<and> (\<exists>e'. r = Inl e')"
proof -
  obtain s1 where stop: "sm_stop (ss_monitor i) s = (Inr (), s1)"
    using stop_returns [of s] by (cases "sm_stop (ss_monitor i) s") simp
  moreover have "cl s1 = cl s" using guaranteesD [OF parameters(10) stop] .
  moreover obtain q s2 where "ss_close i (failureClose l e) s1 = (q, s2)" "cl s2 = add (failureClose l e) (cl s1)"
    using close_logged [of "failureClose l e" s1] by (metis prod.collapse)
  ultimately show ?thesis using assms by (cases q) (auto simp: handleFailure_def bindP_run)
qed

lemma settleRun_end:
  assumes "body_end add cl c0 r (s, l)" and run: "settleRun i l r s = (q, t)"
  shows "\<exists>c. cl t = add c c0 \<and> planned c \<and> (\<forall>summary. q = Inr summary \<longrightarrow> agreeing c summary)"
proof -
  define m where "m = (case r of Inr summary \<Rightarrow> retP summary | Inl error \<Rightarrow> handleFailure i l error)"
  obtain p s1 where m: "m s = (p, s1)" by fastforce
  have t: "cl t = cl s1" "q = p \<or> (\<exists>e. q = Inl e)"
    using run m cleanUp_keeps [of l s1]
    by (auto simp: settleRun_def m_def [symmetric] bindP_run split: prod.splits sum.splits)
  have "\<exists>c. cl s1 = add c c0 \<and> planned c \<and> (\<forall>summary. p = Inr summary \<longrightarrow> agreeing c summary)"
  proof (cases "l_close l")
    case (Some c)
    then have "s1 = s \<and> p = r" using m by (cases r) (auto simp: m_def handleFailure_def)
    with Some assms(1) show ?thesis by (auto simp: body_end_def still_open_def planned_def)
  next
    case None
    then obtain e where e: "r = Inl e" "cl s = c0" using assms(1) by (auto simp: body_end_def still_open_def)
    with m have "handleFailure i l e s = (p, s1)" by (simp add: m_def)
    with handleFailure_open [OF None] e show ?thesis
      by (fastforce simp: planned_def failureClose_def finalization_def)
  qed
  with t show ?thesis by auto
qed

lemma run_closes_once_facts:
  assumes start: "sm_start (ss_monitor i) s = (Inr (), s0)" and run: "runSequentialScheduler i s = (r, t)"
  shows "\<exists>c. cl t = add c (cl s) \<and> planned c \<and> (\<forall>summary. r = Inr summary \<longrightarrow> agreeing c summary)"
proof -
  obtain q s1 l where body: "runBody i (s0, initialLocals i) = (q, (s1, l))" by (metis prod.collapse)
  have "cl s0 = cl s" using guaranteesD [OF parameters(9) start] .
  then have "body_end add cl (cl s) q (s1, l)"
    using body by (intro runBody_end) (auto simp: still_open_def initialLocals_def)
  moreover have "settleRun i l q s1 = (r, t)" using run start body by (simp add: runSequentialScheduler_def)
  ultimately show ?thesis by (rule settleRun_end)
qed

end

end
