(* ===== verification/NetworkStore.thy ===== *)
theory NetworkStore
  imports RunNetwork SchedulerClosing StoreProps
begin

text \<open>
  The command \<open>run-network\<close> on the store. Everything the command is given besides the repository (processes, files,
  the kintone apps of locks and job logs) is confined to what lies outside the store, and is arbitrary there. The
  contracts of \<open>ensureRun\<close> and of the scheduler are interpreted on this composition: for the history of the store, and
  for what the command does to its lock.
\<close>

section \<open>The world of a command\<close>

text \<open>
  Besides the store, the clock and the UUIDs: the closure variables of the command, and as a record for the
  properties how often a lock was acquired and released, and how \<open>close\<close> was called.
\<close>

record session = world +
  w_closed :: bool
  w_io :: "(string \<times> int) option"
  w_deadline :: "int option"
  w_acquired :: nat
  w_released :: nat
  w_closes :: "scheduler_close list"

definition outside :: "('w session_scheme, 'a) prog \<Rightarrow> ('w session_scheme, 'a) prog" where
  "outside m = (\<lambda>s. case m s of (r, t) \<Rightarrow> (r, session.more_update (\<lambda>_. session.more t) s))"

definition outsideWrite :: "('w session_scheme \<Rightarrow> 'w session_scheme) \<Rightarrow> 'w session_scheme \<Rightarrow> 'w session_scheme" where
  "outsideWrite f s = session.more_update (\<lambda>_. session.more (f s)) s"

definition countedAcquire :: "('w session_scheme, 'a) prog \<Rightarrow> ('w session_scheme, 'a) prog" where
  "countedAcquire m = bindP (outside m) (\<lambda>x. bindP (writeP (w_acquired_update Suc)) (\<lambda>_. retP x))"

definition countedRelease :: "('w session_scheme, 'a) prog \<Rightarrow> ('w session_scheme, 'a) prog" where
  "countedRelease m = bindP (writeP (w_released_update Suc)) (\<lambda>_. outside m)"

definition storeEnsure ::
  "(string \<Rightarrow> string) \<Rightarrow> (string \<Rightarrow> string \<Rightarrow> bool) \<Rightarrow> 'w session_scheme ensure_input \<Rightarrow> 'w session_scheme ensure_input" where
  "storeEnsure digest collate e = e\<lparr> en_repository := mem_repository digest collate, en_digest := digest,
     en_acquire := countedAcquire (en_acquire e), en_release := (\<lambda>l st code. countedRelease (en_release e l st code)),
     en_capabilities := outside (en_capabilities e), en_describeProfile := outside (en_describeProfile e),
     en_inspectJob := (\<lambda>p. outside (en_inspectJob e p)), en_upload := (\<lambda>z. outside (en_upload e z)),
     en_download := (\<lambda>k. outside (en_download e k)), en_beforeLock := map_option (\<lambda>f def. outside (f def)) (en_beforeLock e),
     en_now := worldNow, en_uuid := worldUuid, en_systemNow := worldNow, en_randomUUID := worldUuid,
     en_loadNetwork := (\<lambda>p. outside (en_loadNetwork e p)), en_readFile := (\<lambda>p. outside (en_readFile e p)),
     en_resolveInputs := (\<lambda>q. outside (en_resolveInputs e q)), en_isClosed := w_closed,
     en_markClosed := w_closed_update (\<lambda>_. True), en_markOpen := w_closed_update (\<lambda>_. False) \<rparr>"

definition storeScheduler :: "'w session_scheme scheduler_input \<Rightarrow> 'w session_scheme scheduler_input" where
  "storeScheduler i = i\<lparr> ss_nowMs := outside (ss_nowMs i), ss_sleep := (\<lambda>d. outside (ss_sleep i d)),
     ss_resolveInputs := (\<lambda>p. outside (ss_resolveInputs i p)), ss_resolveOutputs := (\<lambda>p. outside (ss_resolveOutputs i p)),
     ss_removeDirectory := (\<lambda>d. outside (ss_removeDirectory i d)), ss_deadline := w_deadline,
     ss_setDeadline := (\<lambda>ms. w_deadline_update (\<lambda>_. Some ms)) \<rparr>"

text \<open>\<open>stop\<close> clears a timer and cannot throw.\<close>

definition storeMonitor :: "'w session_scheme scheduler_monitor \<Rightarrow> 'w session_scheme scheduler_monitor" where
  "storeMonitor m = m\<lparr> sm_confirmLease := outside (sm_confirmLease m), sm_markUnreachable := outsideWrite (sm_markUnreachable m),
     sm_tick := map_option outside (sm_tick m), sm_start := outside (sm_start m),
     sm_stop := writeP (\<lambda>s. snd (outside (sm_stop m) s)) \<rparr>"

definition storeRuntime ::
  "(string \<Rightarrow> string) \<Rightarrow> (string \<Rightarrow> string \<Rightarrow> bool) \<Rightarrow> 'w session_scheme network_runtime \<Rightarrow> 'w session_scheme network_runtime" where
  "storeRuntime digest collate rt = \<lparr> rt_ensure = storeEnsure digest collate (rt_ensure rt),
     rt_scheduler = storeScheduler (rt_scheduler rt), rt_loadIoConfig = outside (rt_loadIoConfig rt),
     rt_keepIoConfig = (\<lambda>io. w_io_update (\<lambda>_. Some io)), rt_ioConfig = w_io, rt_extract = (\<lambda>b. outside (rt_extract rt b)),
     rt_monitor = (\<lambda>l def. case rt_monitor rt l def of Inl e \<Rightarrow> Inl e | Inr m \<Rightarrow> Inr (storeMonitor m)),
     rt_run = (\<lambda>run x. outside (rt_run rt run x)), rt_findExecutionStarted = (\<lambda>l. outside (rt_findExecutionStarted rt l)),
     rt_findAttemptResult = (\<lambda>a. outside (rt_findAttemptResult rt a)), rt_readResult = (\<lambda>p. outside (rt_readResult rt p)),
     rt_collate = rt_collate rt, rt_configPath = rt_configPath rt \<rparr>"

definition storeInput ::
  "(string \<Rightarrow> string) \<Rightarrow> (string \<Rightarrow> string \<Rightarrow> bool) \<Rightarrow> 'w session_scheme network_runtime \<Rightarrow> run_network_arguments \<Rightarrow> string \<Rightarrow>
   string \<Rightarrow> 'w session_scheme ensure_input" where
  "storeInput digest collate rt a path invocationId = ensureInput (storeRuntime digest collate rt) a path invocationId"

definition networkInput ::
  "(string \<Rightarrow> string) \<Rightarrow> (string \<Rightarrow> string \<Rightarrow> bool) \<Rightarrow> 'w session_scheme network_runtime \<Rightarrow> run_network_arguments \<Rightarrow> string \<Rightarrow>
   string \<Rightarrow> ensure_execution \<Rightarrow> (string \<times> int) option \<Rightarrow> 'w session_scheme scheduler_monitor \<Rightarrow> 'w session_scheme scheduler_input" where
  "networkInput digest collate rt a path invocationId x io m =
     networkScheduler (storeRuntime digest collate rt) (storeInput digest collate rt a path invocationId) x io (storeMonitor m)"

text \<open>The scheduler with its calls of \<open>close\<close> on record.\<close>

definition recorded :: "'w session_scheme scheduler_input \<Rightarrow> 'w session_scheme scheduler_input" where
  "recorded i = i\<lparr> ss_close := (\<lambda>c. bindP (writeP (w_closes_update (\<lambda>cs. cs @ [c]))) (\<lambda>_. ss_close i c)) \<rparr>"

section \<open>What the parameters leave alone\<close>

text \<open>A relation that holds between two worlds that differ only outside the store, in the clock and in the UUIDs.\<close>

definition about_store :: "('w session_scheme \<Rightarrow> 'w session_scheme \<Rightarrow> bool) \<Rightarrow> bool" where
  "about_store T \<longleftrightarrow> (\<forall>s t. mem.truncate t = mem.truncate s \<and> w_closed t = w_closed s \<and> w_acquired t = w_acquired s \<and>
     w_released t = w_released s \<and> w_closes t = w_closes s \<longrightarrow> T s t)"

lemma outside_simps [simp]:
  "mem.truncate (snd (outside m s)) = mem.truncate s" "w_closed (snd (outside m s)) = w_closed s"
  "w_acquired (snd (outside m s)) = w_acquired s" "w_released (snd (outside m s)) = w_released s"
  "w_closes (snd (outside m s)) = w_closes s"
  by (simp_all add: outside_def mem.truncate_def split: prod.splits)

lemma outsideWrite_simps [simp]:
  "mem.truncate (outsideWrite f s) = mem.truncate s" "w_closed (outsideWrite f s) = w_closed s"
  "w_acquired (outsideWrite f s) = w_acquired s" "w_released (outsideWrite f s) = w_released s"
  "w_closes (outsideWrite f s) = w_closes s"
  by (simp_all add: outsideWrite_def mem.truncate_def)

lemma about_storeD:
  "about_store T \<Longrightarrow> mem.truncate t = mem.truncate s \<Longrightarrow> w_closed t = w_closed s \<Longrightarrow> w_acquired t = w_acquired s \<Longrightarrow>
     w_released t = w_released s \<Longrightarrow> w_closes t = w_closes s \<Longrightarrow> T s t"
  by (simp add: about_store_def)

lemma about_store_outside: "about_store T \<Longrightarrow> guarantees T (outside m)"
  unfolding guarantees_def by (rule allI, erule about_storeD) simp_all

lemma about_store_world: "about_store T \<Longrightarrow> guarantees T worldNow" "about_store T \<Longrightarrow> guarantees T worldUuid"
  unfolding guarantees_def
  by (rule allI, erule about_storeD; simp add: worldNow_def worldUuid_def mem.truncate_def split: list.split)+

lemma about_history: "about_store (mem_history digest)"
  by (simp add: about_store_def same_store_history)

section \<open>The store keeps what is not its own\<close>

lemma order_more: "state_order (\<lambda>s t. mem.more t = mem.more s)"
  by unfold_locales simp_all

lemma writeP_more: "(\<And>s. mem.more (f s) = mem.more s) \<Longrightarrow> guarantees (\<lambda>s t. mem.more t = mem.more s) (writeP f)"
  by (simp add: guarantees_def)

interpretation rest: repository_contract "\<lambda>s t. mem.more t = mem.more s" "mem_repository digest collate"
  for digest collate
proof (intro repository_contract.intro order_more repository_contract_axioms.intro)
qed (auto simp: guarantees_def im_run_defs im_createRun_def im_createCancelRequest_def im_updateCancelRequest_def im_updateRunAggregate_def
   im_archiveRun_def im_createInvocation_def im_finalizeInvocation_def im_upsertNodeState_def storeState_def im_createAttempt_def
   im_setAttemptInputBaseline_def im_setAttemptExecutionStarted_def im_finalizeAttempt_def im_appendResolution_def
   im_appendOperationAudit_def im_getRun_def im_getRunByBusinessKey_def im_listRuns_def im_getCancelRequest_def im_getInvocations_def
   im_getNodeStates_def im_getAttempts_def im_getResolutions_def im_getOperationAuditByEventId_def im_listInconsistencies_def Let_def
   split: sum.splits option.splits prod.splits if_splits)

section \<open>The contracts\<close>

definition execution_keeps :: "('s \<Rightarrow> 's \<Rightarrow> bool) \<Rightarrow> 's attempt_executor \<Rightarrow> bool" where
  "execution_keeps T x \<longleftrightarrow>
     (\<forall>i n at'. guarantees T (setAttemptExecutionStarted (ax_repository x) i n at')) \<and> (\<forall>i. guarantees T (ax_run x i)) \<and>
     (\<forall>p. guarantees T (ax_reader x p)) \<and> (\<forall>l. guarantees T (ax_findExecutionStarted x l)) \<and> guarantees T (ax_now x) \<and>
     (\<forall>i n f. guarantees T (finalizeAttempt (ax_repository x) i n f)) \<and> (\<forall>w. guarantees T (upsertNodeState (ax_repository x) w))"

context state_order
begin

lemma executeAttempt_keeps:
  assumes x: "execution_keeps T x" and cp: "cp_keeps T cp" and gate: "guarantees T gate"
  shows "guarantees T (executeAttempt x cp (Some gate) i)"
proof -
  have k: "runner_keeps T x cp gate" using assms by (simp add: runner_keeps_def execution_keeps_def cp_keeps_def)
  have parts: "guarantees T (setAttemptExecutionStarted (ax_repository x) a n at')" "guarantees T (ax_run x i)"
    "guarantees T (ax_now x)" "guarantees T (finalizeAttempt (ax_repository x) a n f)"
    "guarantees T (upsertNodeState (ax_repository x) w)" for a n at' i f w
    using x by (simp_all add: execution_keeps_def)
  have through: "guarantees T op \<Longrightarrow> guarantees T (cp_attempt cp op)" "guarantees T op' \<Longrightarrow> guarantees T (cp_state cp op')"
    "guarantees T op'' \<Longrightarrow> guarantees T (cp_marker cp op'')" for op op' op''
    using cp by (simp_all add: cp_keeps_def)
  show ?thesis
    unfolding executeAttempt_def persistOutcome_def writeOutcome_def option.case
    by (intro guarantees_intro gate classifyRun_keeps [OF k] readMarker_keeps [OF k] parts through)
qed

end

lemma store_run_simps [simp]:
  "en_repository (storeInput digest collate rt a path v) = mem_repository digest collate"
  "en_now (storeInput digest collate rt a path v) = worldNow" "en_uuid (storeInput digest collate rt a path v) = worldUuid"
  by (simp_all add: storeInput_def ensureInput_def storeRuntime_def storeEnsure_def)

lemma beforeLock_store:
  assumes T: "about_store T" and ord: "state_order T"
  shows "guarantees T (beforeLock (storeRuntime digest collate rt) def)"
proof -
  have "guarantees T (writeP (rt_keepIoConfig (storeRuntime digest collate rt) io))" for io
    unfolding guarantees_def by (rule allI, rule about_storeD [OF T]) (simp_all add: storeRuntime_def mem.truncate_def)
  moreover have "guarantees T (rt_loadIoConfig (storeRuntime digest collate rt))"
    by (simp add: storeRuntime_def about_store_outside [OF T])
  ultimately show ?thesis
    unfolding beforeLock_def
    by (intro state_order.guarantees_bindP [OF ord] state_order.guarantees_if [OF ord] state_order.guarantees_pure [OF ord])
qed

lemma storeInput_calls:
  assumes T: "about_store T" and R: "repository_contract T (mem_repository digest collate)"
    and closed: "\<And>s b. T s (w_closed_update (\<lambda>_. b) s)"
    and L: "L = (\<lambda>_ _. True) \<or> L = (\<lambda>l l'. el_lock l' = el_lock l \<and> el_handedOff l' = el_handedOff l)"
  shows "ensure_calls T (storeInput digest collate rt a path v) L"
proof (intro ensure_calls.intro ensure_calls_axioms.intro repository_client.intro repository_client_axioms.intro)
  show "repository_contract T (en_repository (storeInput digest collate rt a path v))" using R by simp
  have ord: "state_order T" using R by (rule repository_contract.axioms)
  show "guarantees T (f def)" if "en_beforeLock (storeInput digest collate rt a path v) = Some f" for f def
    using that beforeLock_store [OF T ord, of digest collate rt def] by (auto simp: storeInput_def ensureInput_def)
qed (use L in \<open>auto simp: storeInput_def ensureInput_def storeRuntime_def storeEnsure_def
   intro: about_store_outside [OF T] about_store_world [OF T] closed\<close>)

section \<open>The scheduler\<close>

lemma networkInput_simps [simp]:
  "ss_repository (networkInput digest collate rt a path v x io m) = mem_repository digest collate"
  "ss_now (networkInput digest collate rt a path v x io m) = worldNow"
  "ss_uuid (networkInput digest collate rt a path v x io m) = worldUuid"
  "ss_randomUUID (networkInput digest collate rt a path v x io m) = worldUuid"
  "ss_monitor (networkInput digest collate rt a path v x io m) = storeMonitor m"
  by (simp_all add: networkInput_def networkScheduler_def storeRuntime_def storeEnsure_def)

lemma still_contract:
  "repository_contract T R \<Longrightarrow> repository_contract T (stillRepository R)"
  by (auto simp: repository_contract_def repository_contract_axioms_def stillRepository_def quietRepository_def
      intro: state_order.guarantees_pure)

lemma execution_store:
  assumes T: "about_store T" and R: "repository_contract T (mem_repository digest collate)"
  shows "execution_keeps T (attemptExecutor (storeRuntime digest collate rt) run)"
  using repository_contract.writes [OF R]
  by (auto simp: execution_keeps_def attemptExecutor_def storeRuntime_def storeEnsure_def
      intro: about_store_outside [OF T] about_store_world [OF T])

lemma networkInput_tables:
  assumes T: "about_store T" and R: "repository_contract T (mem_repository digest collate)"
    and L: "L = (\<lambda>_ _. True) \<or> L = (\<lambda>l l'. l_close l' = l_close l)"
  shows "scheduler_tables T ((networkInput digest collate rt a path v x io m)\<lparr> ss_close := close \<rparr>) L"
proof (intro scheduler_tables.intro scheduler_frame.intro scheduler_calls.intro scheduler_tables_axioms.intro
    scheduler_frame_axioms.intro scheduler_calls_axioms.intro repository_client.intro repository_client_axioms.intro)
  have ord: "state_order T" using R by (rule repository_contract.axioms)
  have w: "T s (outsideWrite f s)" "T s (w_deadline_update (\<lambda>_. d) s)" for s f d
    by (rule about_storeD [OF T]; simp) (rule about_storeD [OF T]; simp add: mem.truncate_def)
  have stop: "guarantees T (writeP (\<lambda>s. snd (outside p s)))" for p :: "('a session_scheme, unit) prog"
    unfolding guarantees_def by (rule allI, rule about_storeD [OF T]) simp_all
  show "repository_contract T (stillRepository (ss_repository ((networkInput digest collate rt a path v x io m)\<lparr> ss_close := close \<rparr>)))"
    using still_contract [OF R] by simp
  show "guarantees T (ss_execute ((networkInput digest collate rt a path v x io m)\<lparr> ss_close := close \<rparr>) cp (Some gate) e)"
    if "cp_keeps T cp" "guarantees T gate" for cp gate e
    using state_order.executeAttempt_keeps [OF ord execution_store [OF T R] that]
    by (simp add: networkInput_def networkScheduler_def)
  show "T s (sm_markUnreachable (ss_monitor ((networkInput digest collate rt a path v x io m)\<lparr> ss_close := close \<rparr>)) s)" for s
    by (simp add: storeMonitor_def w)
  show "T s (ss_setDeadline ((networkInput digest collate rt a path v x io m)\<lparr> ss_close := close \<rparr>) ms s)" for s ms
    by (simp add: networkInput_def networkScheduler_def storeRuntime_def storeScheduler_def w)
  show "guarantees T (sm_stop (ss_monitor ((networkInput digest collate rt a path v x io m)\<lparr> ss_close := close \<rparr>)))"
    by (simp add: storeMonitor_def stop)
qed (use L repository_contract.writes [OF R] in \<open>auto simp: networkInput_def networkScheduler_def storeRuntime_def storeMonitor_def storeScheduler_def storeEnsure_def
   mem.truncate_def intro: about_store_outside [OF T] about_store_world [OF T]\<close>)

lemma tables_run:
  assumes T: "about_store T" "repository_contract T (mem_repository digest collate)"
    and L: "L = (\<lambda>_ _. True) \<or> L = (\<lambda>l l'. l_close l' = l_close l)"
  shows "scheduler_tables T (networkInput digest collate rt a path v x io m) L"
  using networkInput_tables [OF assms, where rt = rt and a = a and path = path and v = v and x = x and io = io and m = m and close = "ss_close (networkInput digest collate rt a path v x io m)"] by simp

interpretation start_history: ensure_client "mem_history digest" "storeInput digest collate rt a path v" "\<lambda>_ _. True"
  for digest collate rt a path v
proof (intro ensure_client.intro ensure_client_axioms.intro)
  have w: "guarantees (mem_history digest) (writeP (w_acquired_update Suc :: 'a session_scheme \<Rightarrow> _))"
    "guarantees (mem_history digest) (writeP (w_released_update Suc :: 'a session_scheme \<Rightarrow> _))"
    by (simp_all add: guarantees_def mem.truncate_def same_store_history)
  show "ensure_calls (mem_history digest) (storeInput digest collate rt a path v) (\<lambda>_ _. True)"
    by (intro storeInput_calls about_history store.repository_contract_axioms) (simp_all add: mem.truncate_def same_store_history)
  show "guarantees (mem_history digest) (en_acquire (storeInput digest collate rt a path v))"
    "guarantees (mem_history digest) (en_release (storeInput digest collate rt a path v) lock st code)" for lock st code
    by (auto simp: storeInput_def ensureInput_def storeRuntime_def storeEnsure_def countedAcquire_def countedRelease_def
        intro!: store.guarantees_bindP store.guarantees_pure w about_store_outside about_history)
qed simp_all

interpretation run_history: scheduler_run "mem_history digest" "networkInput digest collate rt a path v x io m" "\<lambda>_ _. True"
  for digest collate rt a path v x io m
proof (intro scheduler_run.intro scheduler_run_axioms.intro tables_run about_history store.repository_contract_axioms)
  show "guarantees (mem_history digest) (ss_close (networkInput digest collate rt a path v x io m) c)" for c
    using start_history.closeEnsured_keeps by (simp add: networkInput_def networkScheduler_def)
qed simp_all

section \<open>The calls of \<open>close\<close> and the lock\<close>

lemma more_session:
  "mem.more t = mem.more s \<Longrightarrow> w_closed t = w_closed s \<and> w_acquired t = w_acquired s \<and> w_released t = w_released s \<and>
     w_closes t = w_closes s"
  by (cases s, cases t) simp

lemma kept_contract:
  assumes "\<And>s t. mem.more t = mem.more s \<Longrightarrow> K t = K s"
  shows "repository_contract (\<lambda>s t. K t = K s) (mem_repository digest collate)"
proof -
  have keep: "guarantees (\<lambda>s t. K t = K s) m" if "guarantees (\<lambda>s t. mem.more t = mem.more s) m" for m :: "('a mem_scheme, 'c) prog"
    using that unfolding guarantees_def by (intro allI assms) blast
  show ?thesis
  proof (intro repository_contract.intro repository_contract_axioms.intro)
    show "state_order (\<lambda>s t. K t = K s)" by unfold_locales simp_all
  qed (rule keep, rule rest.writes rest.reads)+
qed

definition lockCounts :: "'w session_scheme \<Rightarrow> nat \<times> nat" where
  "lockCounts s = (w_acquired s, w_released s)"

definition lockCloses :: "'w session_scheme \<Rightarrow> bool \<times> nat \<times> nat" where
  "lockCloses s = (w_closed s, w_acquired s, w_released s)"

text \<open>What a call of \<open>close\<close> does to the lock: the first one releases it.\<close>

definition releaseOnce :: "scheduler_close \<Rightarrow> bool \<times> nat \<times> nat \<Rightarrow> bool \<times> nat \<times> nat" where
  "releaseOnce c = (\<lambda>(closed, a, r). (True, a, if closed then r else Suc r))"

lemma about_kept:
  "about_store (\<lambda>s t. lockCounts t = lockCounts s)" "about_store (\<lambda>s t. lockCloses t = lockCloses s)"
  "about_store (\<lambda>s t. w_closes t = w_closes s)"
  by (simp_all add: about_store_def lockCounts_def lockCloses_def)

lemma store_kept:
  "repository_contract (\<lambda>s t. lockCounts t = lockCounts s) (mem_repository digest collate)"
  "repository_contract (\<lambda>s t. lockCloses t = lockCloses s) (mem_repository digest collate)"
  "repository_contract (\<lambda>s t. w_closes t = w_closes s) (mem_repository digest collate)"
  by (rule kept_contract, drule more_session, simp add: lockCounts_def lockCloses_def)+

interpretation start_lock: ensure_calls "\<lambda>s t. lockCounts t = lockCounts s" "storeInput digest collate rt a path v"
    "\<lambda>l l'. el_lock l' = el_lock l \<and> el_handedOff l' = el_handedOff l"
  for digest collate rt a path v
  by (intro storeInput_calls about_kept store_kept) (simp_all add: lockCounts_def)

lemma closeEnsured_lock:
  "lockCloses (snd (closeEnsured (storeInput digest collate rt a path v) x c s)) = releaseOnce c' (lockCloses s)"
proof -
  let ?i = "storeInput digest collate rt a path v"
  let ?s = "w_closed_update (\<lambda>_. True) s"
  have fin: "lockCloses (snd (closeInvocation ?i x c u)) = lockCloses u" for u
  proof -
    have ord: "state_order (\<lambda>s t. lockCloses t = lockCloses s)" by (rule repository_contract.axioms [OF store_kept(2)])
    have "guarantees (\<lambda>s t. lockCloses t = lockCloses s) (closeInvocation ?i x c)"
      unfolding closeInvocation_def store_run_simps
      by (intro state_order.guarantees_if [OF ord] state_order.guarantees_bindP [OF ord] state_order.guarantees_attemptP [OF ord]
          state_order.guarantees_pure [OF ord] repository_contract.writes [OF store_kept(2)] about_store_world about_kept)
    then show ?thesis by (simp add: guarantees_def)
  qed
  obtain failed s1 where f: "closeInvocation ?i x c ?s = (Inr failed, s1)" "lockCloses s1 = lockCloses ?s"
  proof -
    have "\<exists>f. fst (closeInvocation ?i x c ?s) = Inr f" by (auto simp: closeInvocation_def bindP_run)
    then show thesis using that fin [of ?s] by (metis prod.collapse)
  qed
  have flags: "en_isClosed ?i = w_closed" "en_markClosed ?i = w_closed_update (\<lambda>_. True)"
    "en_release ?i l st code = countedRelease (en_release (rt_ensure rt) l st code)" for l st code
    by (simp_all add: storeInput_def ensureInput_def storeRuntime_def storeEnsure_def)
  obtain r s2 where rel: "countedRelease (en_release (rt_ensure rt) (ex_lock x) (statusText (ec_status c)) (ec_resultCode c)) s1 = (r, s2)"
    by fastforce
  have s2: "w_closed s2 = w_closed s1" "w_acquired s2 = w_acquired s1" "w_released s2 = Suc (w_released s1)"
    using rel by (auto simp: countedRelease_def outside_def split: prod.splits)
  show ?thesis
  proof (cases "w_closed s")
    case True
    then show ?thesis by (simp add: closeEnsured_def flags bindP_run lockCloses_def releaseOnce_def)
  next
    case False
    then have "snd (closeEnsured ?i x c s) = s2"
      using f(1) rel by (auto simp: closeEnsured_def flags bindP_run split: sum.splits option.splits)
    then show ?thesis using False s2 f(2) by (simp add: lockCloses_def releaseOnce_def)
  qed
qed

lemma stop_store: "fst (sm_stop (storeMonitor m) s) = Inr ()"
  by (simp add: storeMonitor_def)

interpretation lock: closing_scheduler lockCloses "networkInput digest collate rt a path v x io m" releaseOnce
  for digest collate rt a path v x io m
proof (intro closing_scheduler.intro closing_scheduler_axioms.intro tables_run about_kept store_kept)
  show "lockCloses (snd (ss_close (networkInput digest collate rt a path v x io m) c s)) = releaseOnce c (lockCloses s)" for c s
    by (simp add: networkInput_def networkScheduler_def closeEnsured_lock [where c' = c])
qed (simp_all add: stop_store)

interpretation log: closing_scheduler w_closes "recorded (networkInput digest collate rt a path v x io m)" "\<lambda>c cs. cs @ [c]"
  for digest collate rt a path v x io m
proof (intro closing_scheduler.intro closing_scheduler_axioms.intro)
  show "scheduler_tables (\<lambda>s t. w_closes t = w_closes s) (recorded (networkInput digest collate rt a path v x io m))
      (\<lambda>l l'. l_close l' = l_close l)"
    unfolding recorded_def by (intro networkInput_tables about_kept store_kept) simp
  have "w_closes (snd (closeEnsured (storeInput digest collate rt a path v) x c s)) = w_closes s" for c s
  proof -
    have ord: "state_order (\<lambda>s t. w_closes t = w_closes s)" by (rule repository_contract.axioms [OF store_kept(3)])
    have rel: "guarantees (\<lambda>s t. w_closes t = w_closes s) (en_release (storeInput digest collate rt a path v) l st code)" for l st code
      by (simp add: storeInput_def ensureInput_def storeRuntime_def storeEnsure_def countedRelease_def guarantees_def bindP_run)
    have mark: "guarantees (\<lambda>s t. w_closes t = w_closes s) (writeP (en_markClosed (storeInput digest collate rt a path v)))"
      by (simp add: storeInput_def ensureInput_def storeRuntime_def storeEnsure_def guarantees_def)
    have "guarantees (\<lambda>s t. w_closes t = w_closes s) (closeEnsured (storeInput digest collate rt a path v) x c)"
      unfolding closeEnsured_def closeInvocation_def store_run_simps
      by (intro state_order.guarantees_if [OF ord] state_order.guarantees_bindP [OF ord] state_order.guarantees_attemptP [OF ord]
          state_order.guarantees_pure [OF ord] state_order.guarantees_case_sum [OF ord] state_order.guarantees_case_option [OF ord]
          repository_contract.writes [OF store_kept(3)] about_store_world about_kept rel mark)
    then show ?thesis by (simp add: guarantees_def)
  qed
  then show "w_closes (snd (ss_close (recorded (networkInput digest collate rt a path v x io m)) c s)) = w_closes s @ [c]" for c s
    by (simp add: recorded_def networkInput_def networkScheduler_def bindP_run)
qed (simp_all add: stop_store recorded_def)

end
