(* ===== verification/NetworkCommand.thy ===== *)
theory NetworkCommand
  imports NetworkStore "HOL-Library.Code_Target_Nat"
begin

text \<open>
  What a whole command \<open>run-network\<close> promises: \<open>ensureRun\<close> hands its lock over or has given it back, what it hands over
  was verified, the scheduler closes the invocation and releases the lock once, and so a command that ends has called the
  release of every lock it acquired, unless it failed between the hand-over and the start of the scheduler.
\<close>

section \<open>The lock of \<open>ensureRun\<close>\<close>






















section \<open>The bundle\<close>












section \<open>The command\<close>

lemma given_simps [simp]:
  "en_randomUUID (rt_ensure (storeRuntime digest collate rt)) = worldUuid"
  "en_loadNetwork (rt_ensure (storeRuntime digest collate rt)) path = outside (en_loadNetwork (rt_ensure rt) path)"
  by (simp_all add: storeRuntime_def storeEnsure_def)

lemma monitor_store: "rt_monitor rt l def = Inr m \<Longrightarrow> rt_monitor (storeRuntime digest collate rt) l def = Inr (storeMonitor m)"
  by (simp add: storeRuntime_def)


lemma ensureInput_store: "ensureInput (storeRuntime digest collate rt) a path v = storeInput digest collate rt a path v"
  by (simp add: storeInput_def)

lemma scheduleNetwork_keeps:
  "guarantees (mem_history digest) (scheduleNetwork (storeRuntime digest collate rt) (storeInput digest collate rt a path v) x)"
proof -
  have run: "guarantees (mem_history digest) (runSequentialScheduler (networkScheduler (storeRuntime digest collate rt)
      (storeInput digest collate rt a path v) x io monitor))" if "rt_monitor (storeRuntime digest collate rt) l def = Inr monitor" for io l def monitor
    using that run_history.runSequentialScheduler_keeps
    by (auto simp: storeRuntime_def networkInput_def split: sum.splits)
  show ?thesis
    unfolding scheduleNetwork_def guarantees_def
  proof
    fix s
    show "mem_history digest s (snd (bindP (liftP (bundledDefinition (storeRuntime digest collate rt) (ex_bundleBytes x))) (\<lambda>def.
      bindP (liftP (rt_monitor (storeRuntime digest collate rt) (ex_lock x) def)) (\<lambda>monitor.
      bindP (readP (rt_ioConfig (storeRuntime digest collate rt))) (\<lambda>io.
      runSequentialScheduler (networkScheduler (storeRuntime digest collate rt) (storeInput digest collate rt a path v) x io monitor)))) s))"
      using run unfolding guarantees_def
      by (auto simp: bindP_run intro: store.T_refl split: sum.splits)
  qed
qed

lemma invokeNetwork_parts:
  assumes "invokeNetwork (storeRuntime digest collate rt) a path s = (r, t)"
  obtains e where "r = Inl e" "mem_history digest s t" "lockCounts t = lockCounts s"
    | v s1 q where "mem_history digest s s1" "lockCounts s1 = lockCounts s" "ensureRun (storeInput digest collate rt a path v) s1 = (q, t)"
      "r = (case q of Inl e \<Rightarrow> Inl e | Inr x \<Rightarrow> Inr (storeInput digest collate rt a path v, x))"
proof -
  obtain u s1 where u: "worldUuid s = (Inr u, s1)" by (cases "w_uuids s") (auto simp: worldUuid_def)
  obtain l s2 where l: "outside (en_loadNetwork (rt_ensure rt) path) s1 = (l, s2)" by fastforce
  have h: "mem_history digest s s2"
    using guaranteesD [OF about_store_world(2) [OF about_history] u] guaranteesD [OF about_store_outside [OF about_history] l]
    by (rule mem_history_trans)
  have c: "lockCounts s2 = lockCounts s"
    using guaranteesD [OF about_store_world(2) [OF about_kept(1)] u] guaranteesD [OF about_store_outside [OF about_kept(1)] l] by simp
  show thesis
  proof (cases "\<exists>def. l = Inr (Some def)")
    case True
    then obtain def where def: "l = Inr (Some def)" by blast
    let ?i = "storeInput digest collate rt a path (''invoke_'' @ u)"
    obtain q t' where q: "ensureRun ?i s2 = (q, t')" by fastforce
    have "t' = t" "r = (case q of Inl e \<Rightarrow> Inl e | Inr x \<Rightarrow> Inr (?i, x))"
      using assms u l def q
      by (auto simp: invokeNetwork_def ensureInput_store Let_def bindP_run simp del: append.simps split: sum.splits)
    then show thesis using that(2) [OF h c, of "''invoke_'' @ u" q] q by simp
  next
    case False
    then obtain e where "r = Inl e" "t = s2"
      using assms u l by (cases l) (auto simp: invokeNetwork_def bindP_run)
    then show thesis using that(1) h c by blast
  qed
qed

lemma command_parts:
  assumes "runRunNetworkCommand (storeRuntime digest collate rt) args s = (r, t)"
  obtains "t = s"
    | a path q where "invokeNetwork (storeRuntime digest collate rt) a path s = (q, t)" "\<And>i x. q \<noteq> Inr (i, EnsureExecution x)"
    | a path i x s1 q where "invokeNetwork (storeRuntime digest collate rt) a path s = (Inr (i, EnsureExecution x), s1)"
      "scheduleNetwork (storeRuntime digest collate rt) i x s1 = (q, t)"
      "r = Inr (case q of Inl error \<Rightarrow> (1, failedResult a (Some x) error)
        | Inr summary \<Rightarrow> (if su_aggregateStatus summary = SUCCESS then 0 else 1, finishedResult x summary))"
  using assms
  by (auto simp: runRunNetworkCommand_def runScheduled_def Let_def bindP_def attemptP_def simp del: attemptP_run
      split: option.splits if_splits sum.splits prod.splits ensure_result.splits)

lemma runRunNetworkCommand_keeps: "guarantees (mem_history digest) (runRunNetworkCommand (storeRuntime digest collate rt) args)"
  unfolding guarantees_def
proof
  fix s
  obtain r t where run: "runRunNetworkCommand (storeRuntime digest collate rt) args s = (r, t)" by fastforce
  have invoke: "mem_history digest s u" if "invokeNetwork (storeRuntime digest collate rt) a path s = (q, u)" for a path q u
    using that by (rule invokeNetwork_parts) (auto dest: guaranteesD [OF start_history.ensureRun_keeps] intro: mem_history_trans)
  have "mem_history digest s t"
    using run
  proof (cases rule: command_parts)
    case (3 a path i x s1 q)
    from 3(1) obtain v where "i = storeInput digest collate rt a path v"
      by (rule invokeNetwork_parts) (auto split: sum.splits)
    with mem_history_trans [OF invoke [OF 3(1)] guaranteesD [OF scheduleNetwork_keeps]] 3(2) show ?thesis by blast
  qed (auto intro: invoke mem_history_refl)
  then show "mem_history digest s (snd (runRunNetworkCommand (storeRuntime digest collate rt) args s))" using run by simp
qed

section \<open>Properties\<close>




section \<open>A sample\<close>

definition sampleDefinition :: network_definition where
  "sampleDefinition = \<lparr> nd_schema_version = 1, nd_network_id = ''monthly'', nd_description = None,
     nd_business_key_policy = Explicit, nd_max_active_runs = 1,
     nd_network_lock = \<lparr> nl_lease_duration_sec = 300, nl_heartbeat_interval_sec = 60 \<rparr>,
     nd_nodes = [\<lparr> nn_id = ''load'', nn_job_id = ''load_sales'', nn_sql = ''load.sql'', nn_depends_on = [],
       nn_trigger_rule = ALL_SUCCESS, nn_idempotent = True, nn_inputs = None, nn_outputs = None \<rparr>] \<rparr>"

definition sampleLock :: network_lock_reference where
  "sampleLock = \<lparr> lk_lockKey = ''NETWORK_LOCK:1'', lk_recordId = ''1'', lk_originalRecordKey = ''NETWORK_LOCK:1'',
     lk_leaseToken = ''lease_1'', lk_ownerInvocationId = ''invoke_1'', lk_leaseDurationSec = 300, lk_revision = Finite 1, lk_businessRevision = Finite 1,
     lk_heartbeatAt = ''T1'', lk_leaseExpiresAt = ''T9'' \<rparr>"

definition sampleEnsure :: "'s ensure_input" where
  "sampleEnsure = \<lparr> en_networkPath = ''net.yaml'', en_profile = ''prod'', en_scheduledFor = None, en_businessKey = None,
     en_resume = False, en_resumeRunId = None, en_rerunFrom = None, en_requestedBy = ''ops'', en_host = ''host1'',
     en_invocationId = None, en_repository = undefined, en_acquire = retP sampleLock, en_release = (\<lambda>_ _ _. retP ()),
     en_capabilities = retP JNull, en_describeProfile = retP JNull, en_inspectJob = (\<lambda>_. retP JNull),
     en_upload = (\<lambda>_. retP ''file1''), en_download = (\<lambda>_. retP ''zip''), en_beforeLock = None, en_ioRoot = None,
     en_ioRetentionDays = None, en_now = retP ''T1'', en_uuid = retP ''u1'', en_systemNow = retP ''T1'', en_randomUUID = retP ''u1'',
     en_loadNetwork = (\<lambda>_. retP (Some sampleDefinition)), en_loadSource = (\<lambda>_. Some sampleDefinition),
     en_readFile = (\<lambda>_. retP ''select 1''), en_sqlPath = (\<lambda>_ sql. sql),
     en_buildBundle = (\<lambda>yaml _. Inr \<lparr> bb_zipBytes = yaml, bb_zipSha256 = ''z'', bb_manifestSha256 = ''m'', bb_manifest = JNull \<rparr>),
     en_verifyBundle = (\<lambda>_ _. Inr ()), en_networkYaml = (\<lambda>bytes. Inr (Some bytes)), en_resolveInputs = (\<lambda>_. retP []),
     en_sha256 = id, en_digest = padDigest, en_parseDate = (\<lambda>_. Some 0), en_zoneKnown = (\<lambda>_. True), en_calendar = (\<lambda>_ _. None),
     en_timeOf = (\<lambda>_. 0), en_isClosed = (\<lambda>_. False), en_markClosed = id, en_markOpen = id \<rparr>"

definition idleMonitor :: "'s scheduler_monitor" where
  "idleMonitor = \<lparr> sm_canStartNewNode = (\<lambda>_. True), sm_canPersistResults = (\<lambda>_. True), sm_confirmLease = retP True,
     sm_requiresInterrupted = (\<lambda>_. False), sm_markUnreachable = id, sm_tick = None, sm_start = retP (), sm_stop = retP () \<rparr>"

definition sampleBundle :: extracted_bundle where
  "sampleBundle = \<lparr> ex_directory = ''dir'', ex_definition = sampleDefinition, ex_sqlPaths = [(''load'', ''load.sql'')] \<rparr>"

definition sampleRuntime :: "'w session_scheme network_runtime" where
  "sampleRuntime = \<lparr> rt_ensure = sampleEnsure,
     rt_scheduler = undefined\<lparr> ss_retryDelayMs := 1000, ss_nowMs := retP 0, ss_sleep := (\<lambda>_. retP ()),
       ss_resolveInputs := (\<lambda>_. retP []), ss_resolveOutputs := (\<lambda>_. retP []), ss_removeDirectory := (\<lambda>_. retP ()),
       ss_messageOf := (\<lambda>_. ''error''), ss_fuel := 300000 \<rparr>,
     rt_loadIoConfig = retP (''/io'', 90), rt_keepIoConfig = (\<lambda>_ s. s), rt_ioConfig = (\<lambda>_. None),
     rt_extract = (\<lambda>_. retP sampleBundle), rt_monitor = (\<lambda>_ _. Inr idleMonitor), rt_run = (\<lambda>_ _. retP sampleProcess),
     rt_findExecutionStarted = (\<lambda>_. retP None), rt_findAttemptResult = (\<lambda>_. retP None),
     rt_readResult = (\<lambda>_. retP (stringify sampleResult)), rt_collate = (\<le>), rt_configPath = ''c.yaml'' \<rparr>"

definition sampleSession :: session where
  "sampleSession = world.extend (mem.extend sampleStore \<lparr> w_times = [''T1''], w_uuids = [''u1''] \<rparr>)
     \<lparr> w_closed = False, w_io = None, w_deadline = None, w_acquired = 0, w_released = 0, w_closes = [] \<rparr>"

definition sampleExecution :: ensure_execution where
  "sampleExecution = \<lparr> ex_outcome = NEW, ex_run = versioned sampleRun 1, ex_invocation = versioned sampleInvocation 1,
     ex_businessKey = ''2026-01'', ex_bundleBytes = ''zip'', ex_lock = sampleLock \<rparr>"

text \<open>
  C14: Once the monitor of the scheduler has started, the invocation is closed exactly once, however the run goes on: a
  run that returns closes it with the status and the result code of its summary and writes the invocation, and only a
  close for an interrupted lease leaves the invocation unwritten.
\<close>

theorem run_closes_once:
  assumes "sm_start (storeMonitor m) s = (Inr (), s0)"
    and "runSequentialScheduler (recorded (networkInput digest collate rt a path v x io m)) s = (r, t)"
  shows "\<exists>c. w_closes t = w_closes s @ [c] \<and> planned c \<and> (\<forall>summary. r = Inr summary \<longrightarrow> agreeing c summary)"
  by (rule log.run_closes_once_facts) (use assms in \<open>simp_all add: recorded_def\<close>)

lemma run_closes_once_witness:
  "\<exists>c. w_closes (snd (runSequentialScheduler (recorded (networkInput padDigest (\<le>) sampleRuntime noArguments ''net.yaml''
      ''invoke_1'' sampleExecution None idleMonitor)) sampleSession)) = [c] \<and> planned c"
proof -
  let ?i = "recorded (networkInput padDigest (\<le>) sampleRuntime noArguments ''net.yaml'' ''invoke_1'' sampleExecution None idleMonitor)"
  have start: "sm_start (storeMonitor idleMonitor) sampleSession = (Inr (), sampleSession)"
    by (simp add: storeMonitor_def idleMonitor_def outside_def)
  obtain r t where run: "runSequentialScheduler ?i sampleSession = (r, t)" by fastforce
  have "w_closes sampleSession = []" by (simp add: sampleSession_def world.extend_def)
  with run_closes_once [OF start run] run show ?thesis by auto
qed















end
