(* ===== verification/KintoneCodec.thy ===== *)
theory KintoneCodec
  imports Json Keys ResolveNode
begin

text \<open>
  How records of the control plane are written to kintone fields and read back: the first half of
  \<open>src/persistence/kintone/repository.ts\<close>. A record that is written is the list of its fields. A value that the code
  casts to a union of literals or to a number is decoded to the model's type; a text outside the union or a number that is
  no integer is outside the model (\<open>undecodable\<close>), and so is a JSON text whose members do not have the declared types.
\<close>

section \<open>Fields\<close>

definition bindE :: "'e + 'a \<Rightarrow> ('a \<Rightarrow> 'e + 'b) \<Rightarrow> 'e + 'b" where
  "bindE r k = (case r of Inl e \<Rightarrow> Inl e | Inr x \<Rightarrow> k x)"

lemma bindE_simps [simp]: "bindE (Inr x) k = k x" "bindE (Inl e) k = Inl e"
  by (simp_all add: bindE_def)

lemma bindE_Inr_iff: "bindE r k = Inr y \<longleftrightarrow> (\<exists>x. r = Inr x \<and> k x = Inr y)"
  by (cases r) simp_all

fun mapE :: "('a \<Rightarrow> 'e + 'b) \<Rightarrow> 'a list \<Rightarrow> 'e + 'b list" where
  "mapE f [] = Inr []"
| "mapE f (x # xs) = bindE (f x) (\<lambda>y. bindE (mapE f xs) (\<lambda>ys. Inr (y # ys)))"

lemma mapE_Inr: "mapE f xs = Inr ys \<longleftrightarrow> list_all2 (\<lambda>x y. f x = Inr y) xs ys"
proof (induction xs arbitrary: ys)
  case (Cons x xs)
  then show ?case by (auto simp: bindE_Inr_iff list_all2_Cons1)
qed auto

definition undecodable :: js_error where "undecodable = PlainError ''undecodable''"

definition syntaxError :: js_error where "syntaxError = PlainError ''SyntaxError''"

definition someE :: "'a option \<Rightarrow> js_error + 'a" where
  "someE x = (case x of None \<Rightarrow> Inl undecodable | Some v \<Rightarrow> Inr v)"

lemma someE_simps [simp]: "someE None = Inl undecodable" "someE (Some v) = Inr v"
  by (simp_all add: someE_def)

definition nullableText :: "kintone_record \<Rightarrow> string \<Rightarrow> string option" where
  "nullableText rec code = (let v = fieldText rec code in if v = [] then None else Some v)"

definition integerOf :: "js_number \<Rightarrow> js_error + int" where
  "integerOf n = (case n of Finite r \<Rightarrow> if r = of_int \<lfloor>r\<rfloor> then Inr \<lfloor>r\<rfloor> else Inl undecodable | _ \<Rightarrow> Inl undecodable)"

definition numberValue :: "kintone_record \<Rightarrow> string \<Rightarrow> js_error + int" where
  "numberValue rec code = integerOf (fieldNumber rec code)"

definition noNumber :: "json option \<Rightarrow> bool" where
  "noNumber v \<longleftrightarrow> v = None \<or> v = Some JNull \<or> v = Some (JStr [])"

definition nullableInteger :: "kintone_record \<Rightarrow> string \<Rightarrow> js_error + int option" where
  "nullableInteger rec code =
     (if noNumber (fieldValue rec code) then Inr None else bindE (numberValue rec code) (\<lambda>n. Inr (Some n)))"

definition nullableNumber :: "kintone_record \<Rightarrow> string \<Rightarrow> js_error + rat option" where
  "nullableNumber rec code =
     (if noNumber (fieldValue rec code) then Inr None
      else (case fieldNumber rec code of Finite r \<Rightarrow> Inr (Some r) | _ \<Rightarrow> Inl undecodable))"

definition parsedField :: "kintone_record \<Rightarrow> string \<Rightarrow> js_error + json" where
  "parsedField rec code = (case parseJson (fieldText rec code) of None \<Rightarrow> Inl syntaxError | Some v \<Rightarrow> Inr v)"

fun stringOfJson :: "json \<Rightarrow> string option" where
  "stringOfJson (JStr s) = Some s"
| "stringOfJson _ = None"

fun stringsOfJson :: "json \<Rightarrow> string list option" where
  "stringsOfJson (JArr vs) = those (map stringOfJson vs)"
| "stringsOfJson _ = None"

definition jsonArray :: "kintone_record \<Rightarrow> string \<Rightarrow> js_error + string list" where
  "jsonArray rec code = bindE (parsedField rec code) (\<lambda>v. someE (stringsOfJson v))"

definition jsonStrings :: "string list \<Rightarrow> json" where
  "jsonStrings xs = JArr (map JStr xs)"

definition textField :: "string option \<Rightarrow> json" where
  "textField x = JStr (orElse x [])"

definition integerField :: "int option \<Rightarrow> json" where
  "integerField x = (case x of None \<Rightarrow> JStr [] | Some n \<Rightarrow> jsonInt n)"

definition numberField :: "rat option \<Rightarrow> json" where
  "numberField x = (case x of None \<Rightarrow> JStr [] | Some n \<Rightarrow> JNum n)"

definition boolText :: "bool \<Rightarrow> string" where
  "boolText b = (if b then ''true'' else ''false'')"

definition uniqueKey :: "string \<Rightarrow> js_error + string" where
  "uniqueKey v = (if length v > MAX_KINTONE_UNIQUE_KEY_LENGTH then Inl (RepositoryError UNIQUE_KEY_TOO_LONG None) else Inr v)"

text \<open>\<open>$revision\<close> of an answer.\<close>

definition versionedRecord :: "(kintone_record \<Rightarrow> js_error + 'a) \<Rightarrow> kintone_record \<Rightarrow> js_error + 'a versioned" where
  "versionedRecord decode rec = bindE (decode rec) (\<lambda>v. bindE (integerOf (revisionOf rec)) (\<lambda>n. Inr (versioned v n)))"

section \<open>Texts of enumerations\<close>

text \<open>The value of an enumeration with a given text.\<close>

definition fromText :: "('a \<Rightarrow> string) \<Rightarrow> 'a list \<Rightarrow> string \<Rightarrow> 'a option" where
  "fromText f values s = find (\<lambda>v. f v = s) values"

fun lifecycleText :: "lifecycle_status \<Rightarrow> string" where
  "lifecycleText ACTIVE = ''ACTIVE''"
| "lifecycleText ARCHIVED = ''ARCHIVED''"

fun modeText :: "invocation_mode \<Rightarrow> string" where
  "modeText NEW = ''NEW''"
| "modeText RESUME = ''RESUME''"
| "modeText RERUN_FROM = ''RERUN_FROM''"

fun triggerText :: "trigger_rule \<Rightarrow> string" where
  "triggerText ALL_SUCCESS = ''all_success''"
| "triggerText NONE_FAILED = ''none_failed''"
| "triggerText ALL_DONE = ''all_done''"

fun cancelStateText :: "cancel_request_state \<Rightarrow> string" where
  "cancelStateText CR_REQUESTED = ''REQUESTED''"
| "cancelStateText CR_ACCEPTED = ''ACCEPTED''"
| "cancelStateText CR_RELEASED = ''RELEASED''"

definition statusOf :: "string \<Rightarrow> js_error + status" where
  "statusOf s = someE (fromText statusText
     [CREATED, WAITING, RUNNING, SUCCESS, FAILED, BLOCKED, SKIPPED, CANCELLED, UNKNOWN] s)"

definition lifecycleOf :: "string \<Rightarrow> js_error + lifecycle_status" where
  "lifecycleOf s = someE (fromText lifecycleText [ACTIVE, ARCHIVED] s)"

definition modeOf :: "string \<Rightarrow> js_error + invocation_mode" where
  "modeOf s = someE (fromText modeText [NEW, RESUME, RERUN_FROM] s)"

definition triggerOf :: "string \<Rightarrow> js_error + trigger_rule" where
  "triggerOf s = someE (fromText triggerText [ALL_SUCCESS, NONE_FAILED, ALL_DONE] s)"

definition cancelStateOf :: "string \<Rightarrow> cancel_request_state option" where
  "cancelStateOf s = fromText cancelStateText [CR_REQUESTED, CR_ACCEPTED, CR_RELEASED] s"

definition resolutionTypeOf :: "string \<Rightarrow> js_error + resolution_type" where
  "resolutionTypeOf s = someE (fromText resolutionTypeText
     [OUTCOME_CONFIRMED, NODE_MANUAL_COMPLETION_CONFIRMED, NODE_COMPENSATION_COMPLETED] s)"

section \<open>Runs\<close>

definition nullableJson :: "('a \<Rightarrow> json) \<Rightarrow> 'a option \<Rightarrow> json" where
  "nullableJson f x = (case x of None \<Rightarrow> JNull | Some v \<Rightarrow> f v)"

definition profileJson :: "resolved_profile_snapshot \<Rightarrow> json" where
  "profileJson p = JObj [(''profile'', JStr (rp_profile p)), (''base_url'', JStr (rp_base_url p)),
     (''guest_space_id'', nullableJson jsonInt (rp_guest_space_id p)), (''timezone'', JStr (rp_timezone p)),
     (''apps'', JObj (map (\<lambda>(k, n). (k, jsonInt n)) (rp_apps p))),
     (''limits'', JObj [(''max_api_calls'', nullableJson JNum (rp_max_api_calls p)),
        (''max_read_rows'', nullableJson JNum (rp_max_read_rows p)),
        (''batch_timeout_sec'', nullableJson JNum (rp_batch_timeout_sec p))])]"

text \<open>Members of a parsed JSON object with the type they are declared with.\<close>

definition textMember :: "json \<Rightarrow> string \<Rightarrow> js_error + string" where
  "textMember v k = someE (Option.bind (jsonGet v k) stringOfJson)"

definition integerMember :: "json \<Rightarrow> string \<Rightarrow> js_error + int" where
  "integerMember v k = (case jsonGet v k of Some (JNum r) \<Rightarrow> integerOf (Finite r) | _ \<Rightarrow> Inl undecodable)"

definition nullableMember :: "(json \<Rightarrow> string \<Rightarrow> js_error + 'a) \<Rightarrow> json \<Rightarrow> string \<Rightarrow> js_error + 'a option" where
  "nullableMember read v k = (if jsonGet v k = Some JNull then Inr None else bindE (read v k) (\<lambda>x. Inr (Some x)))"

definition numberMember :: "json \<Rightarrow> string \<Rightarrow> js_error + rat" where
  "numberMember v k = (case jsonGet v k of Some (JNum r) \<Rightarrow> Inr r | _ \<Rightarrow> Inl undecodable)"

fun appsOfMembers :: "(string \<times> json) list \<Rightarrow> js_error + (string \<times> int) list" where
  "appsOfMembers [] = Inr []"
| "appsOfMembers ((k, v) # fs) = (case v of
     JNum r \<Rightarrow> bindE (integerOf (Finite r)) (\<lambda>n. bindE (appsOfMembers fs) (\<lambda>apps. Inr ((k, n) # apps)))
   | _ \<Rightarrow> Inl undecodable)"

definition appsMember :: "json \<Rightarrow> js_error + (string \<times> int) list" where
  "appsMember v = (case jsonGet v ''apps'' of Some (JObj fs) \<Rightarrow> appsOfMembers fs | _ \<Rightarrow> Inl undecodable)"

definition profileOfJson :: "json \<Rightarrow> js_error + resolved_profile_snapshot" where
  "profileOfJson v =
     bindE (textMember v ''profile'') (\<lambda>profile. bindE (textMember v ''base_url'') (\<lambda>baseUrl.
     bindE (nullableMember integerMember v ''guest_space_id'') (\<lambda>guest. bindE (textMember v ''timezone'') (\<lambda>timezone.
     bindE (appsMember v) (\<lambda>apps.
     bindE (someE (jsonGet v ''limits'')) (\<lambda>limits.
     bindE (nullableMember numberMember limits ''max_api_calls'') (\<lambda>calls.
     bindE (nullableMember numberMember limits ''max_read_rows'') (\<lambda>rows.
     bindE (nullableMember numberMember limits ''batch_timeout_sec'') (\<lambda>timeout.
     Inr \<lparr> rp_profile = profile, rp_base_url = baseUrl, rp_guest_space_id = guest, rp_timezone = timezone, rp_apps = apps,
       rp_max_api_calls = calls, rp_max_read_rows = rows, rp_batch_timeout_sec = timeout \<rparr>)))))))))"

definition runRecordKey :: "(string \<Rightarrow> string) \<Rightarrow> network_run \<Rightarrow> js_error + string" where
  "runRecordKey digest run =
     runKey digest (rp_profile (nr_resolved_profile_snapshot run)) (nr_network_id run) (nr_business_key run)"

definition attachmentField :: "string \<Rightarrow> json" where
  "attachmentField fileKey = JArr [JObj [(''fileKey'', JStr fileKey)]]"

definition runFields :: "string \<Rightarrow> network_run \<Rightarrow> (string \<times> json) list" where
  "runFields key run = [(''record_key'', JStr key), (''record_type'', JStr ''NETWORK_RUN''), (''run_id'', JStr (nr_run_id run)),
     (''network_id'', JStr (nr_network_id run)), (''business_key'', JStr (nr_business_key run)),
     (''max_active_runs'', jsonInt (nr_max_active_runs run)), (''status'', JStr (statusText (nr_status run))),
     (''lifecycle_status'', JStr (lifecycleText (nr_lifecycle_status run))),
     (''resume_allowed'', JStr (boolText (nr_resume_allowed run))), (''as_of'', textField (nr_as_of run)),
     (''definition_schema_version'', jsonInt (nr_definition_schema_version run)),
     (''definition_sha256'', JStr (nr_definition_sha256 run)), (''source_bundle_sha256'', JStr (nr_source_bundle_sha256 run)),
     (''source_bundle_attachment'', attachmentField (nr_source_bundle_attachment run)),
     (''resolved_profile_snapshot'', JStr (stringify (profileJson (nr_resolved_profile_snapshot run)))),
     (''resolved_profile_sha256'', JStr (nr_resolved_profile_sha256 run)),
     (''ksql_flow_version'', JStr (nr_ksql_flow_version run)), (''engine_version'', JStr (nr_engine_version run)),
     (''dialect'', jsonInt (nr_dialect run)), (''created_at'', JStr (nr_created_at run)),
     (''started_at'', textField (nr_started_at run)), (''finished_at'', textField (nr_finished_at run)),
     (''updated_at'', JStr (nr_updated_at run))]"

definition runRecord :: "(string \<Rightarrow> string) \<Rightarrow> network_run \<Rightarrow> js_error + (string \<times> json) list" where
  "runRecord digest run = bindE (runRecordKey digest run) (\<lambda>k. bindE (uniqueKey k) (\<lambda>key. Inr (runFields key run)))"

definition attachmentOf :: "kintone_record \<Rightarrow> string" where
  "attachmentOf rec = (case fieldValue rec ''source_bundle_attachment'' of
     Some (JArr (a # _)) \<Rightarrow> (case jsonGet a ''fileKey'' of
         Some (JStr k) \<Rightarrow> k
       | _ \<Rightarrow> (case jsonGet a ''name'' of Some (JStr n) \<Rightarrow> n | _ \<Rightarrow> []))
   | _ \<Rightarrow> [])"

definition decodeRun :: "kintone_record \<Rightarrow> js_error + network_run" where
  "decodeRun rec =
     bindE (numberValue rec ''max_active_runs'') (\<lambda>maxActive.
     bindE (statusOf (fieldText rec ''status'')) (\<lambda>st.
     bindE (lifecycleOf (fieldText rec ''lifecycle_status'')) (\<lambda>lifecycle.
     bindE (numberValue rec ''definition_schema_version'') (\<lambda>schema.
     bindE (parsedField rec ''resolved_profile_snapshot'') (\<lambda>parsed.
     bindE (profileOfJson parsed) (\<lambda>profile.
     bindE (numberValue rec ''dialect'') (\<lambda>dialect.
     Inr \<lparr> nr_run_id = fieldText rec ''run_id'', nr_network_id = fieldText rec ''network_id'',
       nr_business_key = fieldText rec ''business_key'', nr_max_active_runs = maxActive, nr_status = st,
       nr_lifecycle_status = lifecycle, nr_resume_allowed = (fieldText rec ''resume_allowed'' = ''true''),
       nr_as_of = nullableText rec ''as_of'', nr_definition_schema_version = schema,
       nr_definition_sha256 = fieldText rec ''definition_sha256'', nr_source_bundle_sha256 = fieldText rec ''source_bundle_sha256'',
       nr_source_bundle_attachment = attachmentOf rec, nr_resolved_profile_snapshot = profile,
       nr_resolved_profile_sha256 = fieldText rec ''resolved_profile_sha256'',
       nr_ksql_flow_version = fieldText rec ''ksql_flow_version'', nr_engine_version = fieldText rec ''engine_version'',
       nr_dialect = dialect, nr_created_at = fieldText rec ''created_at'', nr_started_at = nullableText rec ''started_at'',
       nr_finished_at = nullableText rec ''finished_at'', nr_updated_at = fieldText rec ''updated_at'' \<rparr>)))))))"

section \<open>Cancel requests\<close>

definition cancelDetails :: "cancel_request \<Rightarrow> json" where
  "cancelDetails v = JObj [(''state'', JStr (cancelStateText (cr_state v))), (''requested_by'', JStr (cr_requested_by v)),
     (''reason'', JStr (cr_reason v)), (''requested_at'', JStr (cr_requested_at v)),
     (''accepted_at'', nullableJson JStr (cr_accepted_at v)), (''released_at'', nullableJson JStr (cr_released_at v)),
     (''release_reason'', nullableJson JStr (cr_release_reason v)),
     (''release_requested_by'', nullableJson JStr (cr_release_requested_by v))]"

definition cancelRequestRecord :: "cancel_request \<Rightarrow> js_error + (string \<times> json) list" where
  "cancelRequestRecord v = bindE (uniqueKey (''CANCEL:'' @ cr_run_id v)) (\<lambda>key.
     Inr [(''record_key'', JStr key), (''record_type'', JStr ''CANCEL_REQUEST''), (''run_id'', JStr (cr_run_id v)),
       (''status_reason'', JStr (stringify (cancelDetails v)))])"

definition remoteError :: js_error where "remoteError = RepositoryError REMOTE_ERROR None"

definition decodeCancelRequest :: "kintone_record \<Rightarrow> js_error + cancel_request" where
  "decodeCancelRequest rec = (case parseJson (fieldText rec ''status_reason'') of
     None \<Rightarrow> Inl (RepositoryError REMOTE_ERROR (Some syntaxError))
   | Some v \<Rightarrow> (case Option.bind (jsonGet v ''state'') (\<lambda>st. cancelStateOf (textOfJson st)) of
         None \<Rightarrow> Inl remoteError
       | Some st \<Rightarrow>
           bindE (textMember v ''requested_by'') (\<lambda>requestedBy. bindE (textMember v ''reason'') (\<lambda>reason.
           bindE (textMember v ''requested_at'') (\<lambda>requestedAt. bindE (nullableMember textMember v ''accepted_at'') (\<lambda>acceptedAt.
           bindE (nullableMember textMember v ''released_at'') (\<lambda>releasedAt.
           bindE (nullableMember textMember v ''release_reason'') (\<lambda>releaseReason.
           bindE (nullableMember textMember v ''release_requested_by'') (\<lambda>releasedBy.
           Inr \<lparr> cr_run_id = (case jsonGet v ''run_id'' of Some (JStr i) \<Rightarrow> i | _ \<Rightarrow> fieldText rec ''run_id''), cr_state = st, cr_requested_by = requestedBy, cr_reason = reason,
             cr_requested_at = requestedAt, cr_accepted_at = acceptedAt, cr_released_at = releasedAt,
             cr_release_reason = releaseReason, cr_release_requested_by = releasedBy \<rparr>)))))))))"

section \<open>Invocations\<close>

definition invocationRecord :: "run_invocation \<Rightarrow> js_error + (string \<times> json) list" where
  "invocationRecord v = bindE (uniqueKey (''INV:'' @ ri_invocation_id v)) (\<lambda>key.
     Inr [(''record_key'', JStr key), (''record_type'', JStr ''RUN_INVOCATION''), (''run_id'', JStr (ri_run_id v)),
       (''started_at'', JStr (ri_started_at v)), (''finished_at'', textField (ri_finished_at v)),
       (''status'', JStr (statusText (ri_status v))), (''result_code'', JStr (ri_result_code v)),
       (''invocation_id'', JStr (ri_invocation_id v)), (''mode'', JStr (modeText (ri_mode v))),
       (''requested_by'', JStr (ri_requested_by v)), (''host'', JStr (ri_host v)),
       (''selected_node_ids'', JStr (stringify (jsonStrings (ri_selected_node_ids v)))),
       (''preserved_node_ids'', JStr (stringify (jsonStrings (ri_preserved_node_ids v)))),
       (''blocked_node_ids'', JStr (stringify (jsonStrings (ri_blocked_node_ids v)))), (''reason'', JStr (ri_reason v))])"

definition decodeInvocation :: "kintone_record \<Rightarrow> js_error + run_invocation" where
  "decodeInvocation rec =
     bindE (modeOf (fieldText rec ''mode'')) (\<lambda>mode.
     bindE (statusOf (fieldText rec ''status'')) (\<lambda>st.
     bindE (jsonArray rec ''selected_node_ids'') (\<lambda>selected.
     bindE (jsonArray rec ''preserved_node_ids'') (\<lambda>preserved.
     bindE (jsonArray rec ''blocked_node_ids'') (\<lambda>blocked.
     Inr \<lparr> ri_invocation_id = fieldText rec ''invocation_id'', ri_run_id = fieldText rec ''run_id'', ri_mode = mode,
       ri_requested_by = fieldText rec ''requested_by'', ri_host = fieldText rec ''host'',
       ri_started_at = fieldText rec ''started_at'', ri_finished_at = nullableText rec ''finished_at'', ri_status = st,
       ri_result_code = fieldText rec ''result_code'', ri_selected_node_ids = selected, ri_preserved_node_ids = preserved,
       ri_blocked_node_ids = blocked, ri_reason = fieldText rec ''reason'' \<rparr>)))))"

section \<open>Node states\<close>

definition stateFields :: "string \<Rightarrow> string \<Rightarrow> node_state \<Rightarrow> (string \<times> json) list" where
  "stateFields recordKey stateKey v =
     [(''record_key'', JStr recordKey), (''record_type'', JStr ''NODE_STATE''), (''run_id'', JStr (ns_run_id v)),
      (''revision'', jsonInt (ns_revision v)), (''status'', JStr (statusText (ns_status v))),
      (''started_at'', textField (ns_started_at v)), (''finished_at'', textField (ns_finished_at v)),
      (''updated_at'', JStr (ns_updated_at v)), (''node_state_id'', JStr (ns_node_state_id v)),
      (''node_state_key'', JStr stateKey), (''node_id'', JStr (ns_node_id v)), (''job_id'', JStr (ns_job_id v)),
      (''latest_attempt_no'', jsonInt (ns_latest_attempt_no v)), (''active_attempt_id'', textField (ns_active_attempt_id v)),
      (''idempotent'', JStr (boolText (ns_idempotent v))), (''trigger_rule'', JStr (triggerText (ns_trigger_rule v))),
      (''blocked_by'', JStr (stringify (jsonStrings (ns_blocked_by v)))), (''status_reason'', textField (ns_status_reason v))]"

definition stateRecord :: "node_state \<Rightarrow> js_error + (string \<times> json) list" where
  "stateRecord v = bindE (uniqueKey (''STATE:'' @ ns_node_state_key v)) (\<lambda>recordKey.
     bindE (uniqueKey (ns_node_state_key v)) (\<lambda>stateKey. Inr (stateFields recordKey stateKey v)))"

definition decodeState :: "kintone_record \<Rightarrow> js_error + node_state" where
  "decodeState rec =
     bindE (statusOf (fieldText rec ''status'')) (\<lambda>st.
     bindE (numberValue rec ''latest_attempt_no'') (\<lambda>latest.
     bindE (numberValue rec ''revision'') (\<lambda>rev'.
     bindE (triggerOf (fieldText rec ''trigger_rule'')) (\<lambda>trigger.
     bindE (jsonArray rec ''blocked_by'') (\<lambda>blockedBy.
     Inr \<lparr> ns_node_state_id = fieldText rec ''node_state_id'', ns_node_state_key = fieldText rec ''node_state_key'',
       ns_run_id = fieldText rec ''run_id'', ns_node_id = fieldText rec ''node_id'', ns_job_id = fieldText rec ''job_id'',
       ns_status = st, ns_latest_attempt_no = latest, ns_active_attempt_id = nullableText rec ''active_attempt_id'',
       ns_revision = rev', ns_idempotent = (fieldText rec ''idempotent'' = ''true''), ns_trigger_rule = trigger,
       ns_blocked_by = blockedBy, ns_status_reason = nullableText rec ''status_reason'',
       ns_started_at = nullableText rec ''started_at'', ns_finished_at = nullableText rec ''finished_at'',
       ns_updated_at = fieldText rec ''updated_at'' \<rparr>)))))"

section \<open>Attempts\<close>

definition attemptFields :: "string \<Rightarrow> string \<Rightarrow> string \<Rightarrow> node_attempt \<Rightarrow> (string \<times> json) list" where
  "attemptFields recordKey attemptId key v =
     [(''record_key'', JStr recordKey), (''record_type'', JStr ''NODE_ATTEMPT''), (''run_id'', JStr (na_run_id v)),
      (''finished_at'', textField (na_finished_at v)), (''status'', JStr (statusText (na_status v))),
      (''result_code'', JStr (na_result_code v)), (''node_attempt_id'', JStr attemptId), (''attempt_key'', JStr key),
      (''node_id'', JStr (na_node_id v)), (''job_id'', JStr (na_job_id v)), (''invocation_id'', JStr (na_invocation_id v)),
      (''attempt_no'', jsonInt (na_attempt_no v)), (''execution_started_at'', textField (na_execution_started_at v)),
      (''runner_execution_started_at'', textField (na_runner_execution_started_at v)),
      (''execution_id'', textField (na_execution_id v)), (''duration_sec'', numberField (na_duration_sec v)),
      (''error_message'', textField (na_error_message v)), (''read_count'', jsonInt (na_read_count v)),
      (''written_count'', jsonInt (na_written_count v)),
      (''last_successful_chunk_no'', integerField (na_last_successful_chunk_no v)),
      (''last_written_key'', textField (na_last_written_key v)),
      (''state_revision_before'', integerField (na_state_revision_before v))]"

definition attemptRecord :: "node_attempt \<Rightarrow> js_error + (string \<times> json) list" where
  "attemptRecord v = bindE (uniqueKey (''ATT:'' @ na_node_attempt_id v)) (\<lambda>recordKey.
     bindE (uniqueKey (na_node_attempt_id v)) (\<lambda>attemptId.
     bindE (uniqueKey (na_attempt_key v)) (\<lambda>key. Inr (attemptFields recordKey attemptId key v))))"

definition decodeAttempt :: "kintone_record \<Rightarrow> js_error + node_attempt" where
  "decodeAttempt rec =
     bindE (numberValue rec ''attempt_no'') (\<lambda>attemptNo.
     bindE (statusOf (fieldText rec ''status'')) (\<lambda>st.
     bindE (nullableNumber rec ''duration_sec'') (\<lambda>duration.
     bindE (numberValue rec ''read_count'') (\<lambda>readCount.
     bindE (numberValue rec ''written_count'') (\<lambda>writtenCount.
     bindE (nullableInteger rec ''last_successful_chunk_no'') (\<lambda>chunk.
     bindE (nullableInteger rec ''state_revision_before'') (\<lambda>before'.
     Inr \<lparr> na_node_attempt_id = fieldText rec ''node_attempt_id'', na_attempt_key = fieldText rec ''attempt_key'',
       na_run_id = fieldText rec ''run_id'', na_node_id = fieldText rec ''node_id'', na_job_id = fieldText rec ''job_id'',
       na_invocation_id = fieldText rec ''invocation_id'', na_attempt_no = attemptNo, na_status = st,
       na_result_code = fieldText rec ''result_code'', na_execution_started_at = nullableText rec ''execution_started_at'',
       na_runner_execution_started_at = nullableText rec ''runner_execution_started_at'',
       na_execution_id = nullableText rec ''execution_id'', na_finished_at = nullableText rec ''finished_at'',
       na_duration_sec = duration, na_error_message = nullableText rec ''error_message'', na_read_count = readCount,
       na_written_count = writtenCount, na_last_successful_chunk_no = chunk,
       na_last_written_key = nullableText rec ''last_written_key'', na_state_revision_before = before' \<rparr>)))))))"

section \<open>Resolutions\<close>

definition MAX_RESOLUTION_DIGEST :: nat where "MAX_RESOLUTION_DIGEST = MAX_KINTONE_UNIQUE_KEY_LENGTH - 4"

definition resolutionRecordKey :: "(string \<Rightarrow> string) \<Rightarrow> string \<Rightarrow> string \<Rightarrow> string" where
  "resolutionRecordKey hex attemptId resolvedAt =
     ''RES:'' @ take MAX_RESOLUTION_DIGEST (hex (attemptId @ CHR 0x00 # resolvedAt))"

definition resolutionDetailsJson :: "attempt_resolution \<Rightarrow> json" where
  "resolutionDetailsJson v = JObj [(''resolution_type'', JStr (resolutionTypeText (ar_resolution_type v))),
     (''reason'', JStr (ar_reason v)), (''stop_confirmed_by'', JStr (ar_stop_confirmed_by v)),
     (''stop_evidence_ref'', JStr (ar_stop_evidence_ref v)), (''resolved_at'', JStr (ar_resolved_at v))]"

definition resolutionFields :: "string \<Rightarrow> attempt_resolution \<Rightarrow> (string \<times> json) list" where
  "resolutionFields key v = [(''record_key'', JStr key), (''record_type'', JStr ''ATTEMPT_RESOLUTION''),
     (''event_type'', JStr ''ATTEMPT_RESOLVED''), (''attempt_id'', JStr (ar_attempt_id v)),
     (''resolved_outcome'', JStr (statusText (ar_resolved_outcome v))), (''evidence_ref'', JStr (ar_evidence_ref v)),
     (''service_principal'', JStr (ar_service_principal v)), (''requested_by'', JStr (ar_requested_by v)),
     (''approved_by'', JStr (ar_approved_by v)), (''reason'', JStr (stringify (resolutionDetailsJson v))),
     (''resolved_at'', JStr (ar_resolved_at v))]"

text \<open>\<open>String(value.member ?? "")\<close>\<close>

definition memberText :: "json \<Rightarrow> string \<Rightarrow> string" where
  "memberText v k = (case jsonGet v k of None \<Rightarrow> [] | Some JNull \<Rightarrow> [] | Some x \<Rightarrow> textOfJson x)"

record resolution_details =
  rd_resolution_type :: resolution_type
  rd_reason :: string
  rd_stop_confirmed_by :: string
  rd_stop_evidence_ref :: string
  rd_resolved_at :: "string option"

text \<open>Reading a member of \<open>null\<close> throws inside the \<open>try\<close>, as a text that is no JSON does.\<close>

definition resolutionDetails :: "kintone_record \<Rightarrow> js_error + resolution_details" where
  "resolutionDetails rec = (let raw = fieldText rec ''reason'' in
     case parseJson raw of
       Some v \<Rightarrow>
         if v = JNull then Inr \<lparr> rd_resolution_type = OUTCOME_CONFIRMED, rd_reason = raw, rd_stop_confirmed_by = [],
           rd_stop_evidence_ref = [], rd_resolved_at = None \<rparr>
         else bindE (bindE (textMember v ''resolution_type'') resolutionTypeOf) (\<lambda>resolutionType.
           Inr \<lparr> rd_resolution_type = resolutionType, rd_reason = memberText v ''reason'',
             rd_stop_confirmed_by = memberText v ''stop_confirmed_by'', rd_stop_evidence_ref = memberText v ''stop_evidence_ref'',
             rd_resolved_at = Option.bind (jsonGet v ''resolved_at'') stringOfJson \<rparr>)
     | None \<Rightarrow> Inr \<lparr> rd_resolution_type = OUTCOME_CONFIRMED, rd_reason = raw, rd_stop_confirmed_by = [],
         rd_stop_evidence_ref = [], rd_resolved_at = None \<rparr>)"

definition decodeResolution :: "kintone_record \<Rightarrow> js_error + attempt_resolution" where
  "decodeResolution rec =
     bindE (resolutionDetails rec) (\<lambda>d.
     bindE (statusOf (fieldText rec ''resolved_outcome'')) (\<lambda>outcome.
     Inr \<lparr> ar_resolution_type = rd_resolution_type d, ar_attempt_id = fieldText rec ''attempt_id'', ar_resolved_outcome = outcome,
       ar_reason = rd_reason d, ar_evidence_ref = fieldText rec ''evidence_ref'',
       ar_service_principal = fieldText rec ''service_principal'', ar_requested_by = fieldText rec ''requested_by'',
       ar_approved_by = fieldText rec ''approved_by'', ar_stop_confirmed_by = rd_stop_confirmed_by d,
       ar_stop_evidence_ref = rd_stop_evidence_ref d,
       ar_resolved_at = orElse (rd_resolved_at d) (fieldText rec ''resolved_at'') \<rparr>))"

section \<open>Operation audits\<close>

text \<open>The \<open>basis\<close> of a repair, a text for a reader, is left out.\<close>

fun repairText :: "repair_type \<Rightarrow> string" where
  "repairText TERMINAL_ATTEMPT_APPLIED = ''TERMINAL_ATTEMPT_APPLIED''"
| "repairText ATTEMPT_RESOLUTION_APPLIED = ''ATTEMPT_RESOLUTION_APPLIED''"
| "repairText RUN_AGGREGATE_RECOMPUTED = ''RUN_AGGREGATE_RECOMPUTED''"
| "repairText INVOCATION_FINALIZED = ''INVOCATION_FINALIZED''"

fun targetText :: "repair_target \<Rightarrow> string" where
  "targetText NODE_STATE = ''NODE_STATE''"
| "targetText NETWORK_RUN = ''NETWORK_RUN''"
| "targetText RUN_INVOCATION = ''RUN_INVOCATION''"

fun recoveryText :: "lock_recovery_outcome \<Rightarrow> string" where
  "recoveryText LR_RELEASED = ''RELEASED''"
| "recoveryText LR_NOT_FOUND = ''NOT_FOUND''"
| "recoveryText LR_NOT_RUNNING = ''NOT_RUNNING''"
| "recoveryText LR_CONFLICT = ''CONFLICT''"
| "recoveryText LR_UNCONFIRMED = ''UNCONFIRMED''"

definition recoveryJson :: "lock_recovery_result \<Rightarrow> json" where
  "recoveryJson v = JObj ([(''kind'', JStr ''LOCK_RECOVERY_RESULT''), (''formatVersion'', jsonInt 1),
     (''jobKey'', JStr (lr_jobKey v)), (''recordId'', nullableJson JStr (lr_recordId v)),
     (''outcome'', JStr (recoveryText (lr_outcome v))),
     (''before'', nullableJson (\<lambda>(batchId, startedAt, host).
        JObj [(''batchId'', JStr batchId), (''startedAt'', JStr startedAt), (''host'', JStr host)]) (lr_before v)),
     (''executedAt'', JStr (lr_executedAt v))] @
     (case lr_nextAction v of None \<Rightarrow> [] | Some a \<Rightarrow> [(''nextAction'', JStr a)]))"

fun auditJson :: "operation_audit \<Rightarrow> json" where
  "auditJson (ReconciliationOperationAudit i a) = JObj [(''event_id'', JStr i), (''event_type'', JStr ''RECONCILIATION_REPAIR''),
     (''repair_type'', JStr (repairText (ra_repair_type a))), (''run_id'', JStr (ra_run_id a)),
     (''target_type'', JStr (targetText (ra_target_type a))), (''target_id'', JStr (ra_target_id a)),
     (''before'', JObj (ra_before a)), (''after'', JObj (ra_after a)), (''occurred_at'', JStr (ra_occurred_at a))]"
| "auditJson (JobLockRecoveryOperationAudit i a) = JObj [(''event_id'', JStr i),
     (''event_type'', JStr ''JOB_LOCK_FORCE_UNLOCK_RECORDED''), (''run_id'', JStr (ja_run_id a)), (''node_id'', JStr (ja_node_id a)),
     (''job_id'', JStr (ja_job_id a)), (''service_principal'', JStr (ja_service_principal a)),
     (''requested_by'', JStr (ja_requested_by a)), (''stop_confirmed_by'', JStr (ja_stop_confirmed_by a)),
     (''reason'', JStr (ja_reason a)), (''evidence_ref'', JStr (ja_evidence_ref a)), (''recorded_at'', JStr (ja_recorded_at a)),
     (''lock_recovery_result'', recoveryJson (ja_lock_recovery_result a))]"
| "auditJson (NetworkLockForceReleaseOperationAudit i a) = JObj [(''event_id'', JStr i),
     (''event_type'', JStr ''NETWORK_LOCK_FORCE_RELEASED''), (''network_id'', JStr (la_network_id a)),
     (''profile'', JStr (la_profile a)), (''lock_key'', JStr (la_lock_key a)), (''record_id'', JStr (la_record_id a)),
     (''previous_owner_invocation_id'', JStr (la_previous_owner_invocation_id a)),
     (''previous_lease_token'', JStr (la_previous_lease_token a)), (''previous_heartbeat_at'', JStr (la_previous_heartbeat_at a)),
     (''previous_lease_expires_at'', JStr (la_previous_lease_expires_at a)),
     (''service_principal'', JStr (la_service_principal a)), (''requested_by'', JStr (la_requested_by a)),
     (''stop_confirmed_by'', JStr (la_stop_confirmed_by a)), (''stop_method'', JStr (la_stop_method a)),
     (''stop_evidence_ref'', JStr (la_stop_evidence_ref a)), (''reason'', JStr (la_reason a)),
     (''evidence_ref'', JStr (la_evidence_ref a)), (''released_at'', JStr (la_released_at a)),
     (''post_release_revision'', jsonInt (la_post_release_revision a))]"
| "auditJson (RunArchivedOperationAudit i a) = JObj [(''event_id'', JStr i), (''event_type'', JStr ''RUN_ARCHIVED''),
     (''run_id'', JStr (aa_run_id a)), (''result_code'', JStr ''RUN_ARCHIVED''), (''requested_by'', JStr (aa_requested_by a)),
     (''reason'', JStr (aa_reason a)), (''archived_at'', JStr (aa_archived_at a)),
     (''previous_status'', JStr (statusText (aa_previous_status a))),
     (''run_revision_before'', jsonInt (aa_run_revision_before a)), (''service_principal'', JStr (aa_service_principal a))]"

definition objectMember :: "json \<Rightarrow> string \<Rightarrow> js_error + (string \<times> json) list" where
  "objectMember v k = (case jsonGet v k of Some (JObj fs) \<Rightarrow> Inr fs | _ \<Rightarrow> Inl undecodable)"

definition enumMember :: "('a \<Rightarrow> string) \<Rightarrow> 'a list \<Rightarrow> json \<Rightarrow> string \<Rightarrow> js_error + 'a" where
  "enumMember f values v k = bindE (textMember v k) (\<lambda>s. someE (fromText f values s))"

definition recoveryBefore :: "json \<Rightarrow> js_error + (string \<times> string \<times> string)" where
  "recoveryBefore v = bindE (textMember v ''batchId'') (\<lambda>batchId. bindE (textMember v ''startedAt'') (\<lambda>startedAt.
     bindE (textMember v ''host'') (\<lambda>host. Inr (batchId, startedAt, host))))"

definition recoveryOfJson :: "json \<Rightarrow> js_error + lock_recovery_result" where
  "recoveryOfJson v =
     bindE (textMember v ''jobKey'') (\<lambda>jobKey. bindE (nullableMember textMember v ''recordId'') (\<lambda>recordId.
     bindE (enumMember recoveryText [LR_RELEASED, LR_NOT_FOUND, LR_NOT_RUNNING, LR_CONFLICT, LR_UNCONFIRMED] v ''outcome'') (\<lambda>outcome.
     bindE (nullableMember (\<lambda>w k. bindE (someE (jsonGet w k)) recoveryBefore) v ''before'') (\<lambda>before'.
     bindE (textMember v ''executedAt'') (\<lambda>executedAt.
     Inr \<lparr> lr_jobKey = jobKey, lr_recordId = recordId, lr_outcome = outcome, lr_before = before', lr_executedAt = executedAt,
       lr_nextAction = Option.bind (jsonGet v ''nextAction'') stringOfJson \<rparr>)))))"

definition repairAuditOfJson :: "json \<Rightarrow> js_error + reconciliation_audit" where
  "repairAuditOfJson v =
     bindE (enumMember repairText [TERMINAL_ATTEMPT_APPLIED, ATTEMPT_RESOLUTION_APPLIED, RUN_AGGREGATE_RECOMPUTED,
       INVOCATION_FINALIZED] v ''repair_type'') (\<lambda>repair. bindE (textMember v ''run_id'') (\<lambda>runId.
     bindE (enumMember targetText [NODE_STATE, NETWORK_RUN, RUN_INVOCATION] v ''target_type'') (\<lambda>target.
     bindE (textMember v ''target_id'') (\<lambda>targetId. bindE (objectMember v ''before'') (\<lambda>before'.
     bindE (objectMember v ''after'') (\<lambda>after'. bindE (textMember v ''occurred_at'') (\<lambda>occurredAt.
     Inr \<lparr> ra_repair_type = repair, ra_run_id = runId, ra_target_type = target, ra_target_id = targetId, ra_before = before',
       ra_after = after', ra_occurred_at = occurredAt \<rparr>)))))))"

definition jobLockAuditOfJson :: "json \<Rightarrow> js_error + job_lock_audit" where
  "jobLockAuditOfJson v =
     bindE (textMember v ''run_id'') (\<lambda>runId. bindE (textMember v ''node_id'') (\<lambda>nodeId. bindE (textMember v ''job_id'') (\<lambda>jobId.
     bindE (textMember v ''service_principal'') (\<lambda>principal. bindE (textMember v ''requested_by'') (\<lambda>requestedBy.
     bindE (textMember v ''stop_confirmed_by'') (\<lambda>confirmedBy. bindE (textMember v ''reason'') (\<lambda>reason.
     bindE (textMember v ''evidence_ref'') (\<lambda>evidence. bindE (textMember v ''recorded_at'') (\<lambda>recordedAt.
     bindE (bindE (someE (jsonGet v ''lock_recovery_result'')) recoveryOfJson) (\<lambda>recovery.
     Inr \<lparr> ja_run_id = runId, ja_node_id = nodeId, ja_job_id = jobId, ja_service_principal = principal,
       ja_requested_by = requestedBy, ja_stop_confirmed_by = confirmedBy, ja_reason = reason, ja_evidence_ref = evidence,
       ja_recorded_at = recordedAt, ja_lock_recovery_result = recovery \<rparr>))))))))))"

text \<open>The texts of an object, member by member.\<close>

fun textMembers :: "json \<Rightarrow> string list \<Rightarrow> js_error + string list" where
  "textMembers v [] = Inr []"
| "textMembers v (k # ks) = bindE (textMember v k) (\<lambda>x. bindE (textMembers v ks) (\<lambda>xs. Inr (x # xs)))"

definition networkLockAuditOfJson :: "json \<Rightarrow> js_error + network_lock_audit" where
  "networkLockAuditOfJson v =
     bindE (textMembers v [''network_id'', ''profile'', ''lock_key'', ''record_id'', ''previous_owner_invocation_id'',
       ''previous_lease_token'', ''previous_heartbeat_at'', ''previous_lease_expires_at'', ''service_principal'', ''requested_by'',
       ''stop_confirmed_by'', ''stop_method'', ''stop_evidence_ref'', ''reason'', ''evidence_ref'', ''released_at'']) (\<lambda>x.
     bindE (integerMember v ''post_release_revision'') (\<lambda>n.
     Inr \<lparr> la_network_id = x ! 0, la_profile = x ! 1, la_lock_key = x ! 2, la_record_id = x ! 3,
       la_previous_owner_invocation_id = x ! 4, la_previous_lease_token = x ! 5, la_previous_heartbeat_at = x ! 6,
       la_previous_lease_expires_at = x ! 7, la_service_principal = x ! 8, la_requested_by = x ! 9,
       la_stop_confirmed_by = x ! 10, la_stop_method = x ! 11, la_stop_evidence_ref = x ! 12, la_reason = x ! 13,
       la_evidence_ref = x ! 14, la_released_at = x ! 15, la_post_release_revision = n \<rparr>))"

definition archivedAuditOfJson :: "json \<Rightarrow> js_error + run_archived_audit" where
  "archivedAuditOfJson v =
     bindE (textMember v ''run_id'') (\<lambda>runId. bindE (textMember v ''requested_by'') (\<lambda>requestedBy.
     bindE (textMember v ''reason'') (\<lambda>reason. bindE (textMember v ''archived_at'') (\<lambda>archivedAt.
     bindE (bindE (textMember v ''previous_status'') statusOf) (\<lambda>previous.
     bindE (integerMember v ''run_revision_before'') (\<lambda>before'. bindE (textMember v ''service_principal'') (\<lambda>principal.
     Inr \<lparr> aa_run_id = runId, aa_requested_by = requestedBy, aa_reason = reason, aa_archived_at = archivedAt,
       aa_previous_status = previous, aa_run_revision_before = before', aa_service_principal = principal \<rparr>)))))))"

definition auditOfJson :: "json \<Rightarrow> js_error + operation_audit" where
  "auditOfJson v = bindE (textMember v ''event_id'') (\<lambda>i. bindE (textMember v ''event_type'') (\<lambda>type.
     if type = ''RECONCILIATION_REPAIR'' then bindE (repairAuditOfJson v) (\<lambda>a. Inr (ReconciliationOperationAudit i a))
     else if type = ''JOB_LOCK_FORCE_UNLOCK_RECORDED'' then bindE (jobLockAuditOfJson v) (\<lambda>a. Inr (JobLockRecoveryOperationAudit i a))
     else if type = ''NETWORK_LOCK_FORCE_RELEASED''
     then bindE (networkLockAuditOfJson v) (\<lambda>a. Inr (NetworkLockForceReleaseOperationAudit i a))
     else if type = ''RUN_ARCHIVED'' then bindE (archivedAuditOfJson v) (\<lambda>a. Inr (RunArchivedOperationAudit i a))
     else Inl undecodable))"

definition decodeAudit :: "kintone_record \<Rightarrow> js_error + operation_audit" where
  "decodeAudit rec = bindE (parsedField rec ''reason'') auditOfJson"

fun auditRun :: "operation_audit \<Rightarrow> string" where
  "auditRun (ReconciliationOperationAudit _ a) = ra_run_id a"
| "auditRun (JobLockRecoveryOperationAudit _ a) = ja_run_id a"
| "auditRun (NetworkLockForceReleaseOperationAudit _ _) = []"
| "auditRun (RunArchivedOperationAudit _ a) = aa_run_id a"

fun auditResultCode :: "operation_audit \<Rightarrow> string" where
  "auditResultCode (ReconciliationOperationAudit _ a) = repairText (ra_repair_type a)"
| "auditResultCode (JobLockRecoveryOperationAudit _ a) = recoveryText (lr_outcome (ja_lock_recovery_result a))"
| "auditResultCode (NetworkLockForceReleaseOperationAudit _ _) = ''NETWORK_LOCK_FORCE_RELEASED''"
| "auditResultCode (RunArchivedOperationAudit _ _) = ''RUN_ARCHIVED''"

fun auditTime :: "operation_audit \<Rightarrow> string" where
  "auditTime (ReconciliationOperationAudit _ a) = ra_occurred_at a"
| "auditTime (JobLockRecoveryOperationAudit _ a) = ja_recorded_at a"
| "auditTime (NetworkLockForceReleaseOperationAudit _ a) = la_released_at a"
| "auditTime (RunArchivedOperationAudit _ a) = aa_archived_at a"

definition auditFields :: "string \<Rightarrow> operation_audit \<Rightarrow> (string \<times> json) list" where
  "auditFields key v = [(''record_key'', JStr key), (''record_type'', JStr ''OPERATION_AUDIT''), (''run_id'', JStr (auditRun v)),
     (''result_code'', JStr (auditResultCode v)), (''reason'', JStr (stringify (auditJson v))), (''resolved_at'', JStr (auditTime v))]"

definition auditKey :: "string \<Rightarrow> js_error + string" where
  "auditKey eventId = uniqueKey (''OP:'' @ eventId)"

text \<open>The audit found under an event is the one that was to be written.\<close>

definition sameAudit :: "operation_audit \<Rightarrow> operation_audit \<Rightarrow> bool" where
  "sameAudit v found \<longleftrightarrow> event_id found = event_id v \<and> (case v of
     RunArchivedOperationAudit _ a \<Rightarrow> (case found of
        RunArchivedOperationAudit _ b \<Rightarrow> aa_run_id b = aa_run_id a \<and> aa_previous_status b = aa_previous_status a \<and>
          aa_run_revision_before b = aa_run_revision_before a
      | _ \<Rightarrow> False)
   | _ \<Rightarrow> True)"

definition isArchivedAudit :: "operation_audit \<Rightarrow> bool" where
  "isArchivedAudit v \<longleftrightarrow> (case v of RunArchivedOperationAudit _ _ \<Rightarrow> True | _ \<Rightarrow> False)"

end
