(* ===== verification/KintoneRepository.thy ===== *)
theory KintoneRepository
  imports KintoneCodec NetworkLock
begin

text \<open>
  The repository on kintone records: class \<open>KintonePersistenceRepository\<close> of
  \<open>src/persistence/kintone/repository.ts\<close>. A client is \<open>fetch\<close> with the base URL and token it was made with, and the
  number of its app; runs, node states and cancel requests are in the state app, the rest in the audit app.
  \<open>digest\<close> and \<open>hex\<close> are SHA-256 in base64url and in hexadecimal digits, \<open>collate\<close> is \<open>localeCompare\<close>. A revision in an answer
  that is no integer is outside the model, as in the decoders.
\<close>

section \<open>Queries\<close>

record 's kintone_client =
  kt_fetch :: "'s fetch"
  kt_app :: int

record 's kintone_apps =
  ka_state :: "'s kintone_client"
  ka_audit :: "'s kintone_client"

definition inQuery :: "string \<Rightarrow> string \<Rightarrow> string" where
  "inQuery fieldCode v = fieldCode @ '' in ('' @ quote v @ '')''"

definition andQuery :: "string \<Rightarrow> string \<Rightarrow> string" where
  "andQuery p q = p @ '' and '' @ q"

definition clientRecords :: "'s kintone_client \<Rightarrow> string \<Rightarrow> ('s, kintone_record list) prog" where
  "clientRecords c query = bindP (getRecords (kt_fetch c) (kt_app c) query) (\<lambda>answer. liftP (recordArray answer))"

definition mapError :: "js_error \<Rightarrow> js_error" where
  "mapError error = (case error of
     KintoneApiError st code \<Rightarrow>
       if st = 409 \<and> code = Some ''GAIA_CO02'' then RepositoryError REVISION_CONFLICT (Some error)
       else if st = 400 \<and> code = Some ''CB_VA01'' then RepositoryError DUPLICATE_RECORD (Some error)
       else RepositoryError REMOTE_ERROR (Some error)
   | KintoneTransportError \<Rightarrow> RepositoryError AMBIGUOUS_WRITE (Some error)
   | _ \<Rightarrow> RepositoryError REMOTE_ERROR (Some error))"

text \<open>\<open>try { ... } catch (error) { mapError(error); }\<close>\<close>

definition mapped :: "('s, 'a) prog \<Rightarrow> ('s, 'a) prog" where
  "mapped m = catchP m (\<lambda>error. throwP (mapError error))"

text \<open>A query under \<open>mapped\<close> whose answer is inspected after it.\<close>

definition mappedRecords :: "'s kintone_client \<Rightarrow> string \<Rightarrow> ('s, kintone_record list) prog" where
  "mappedRecords c query =
     bindP (mapped (getRecords (kt_fetch c) (kt_app c) query)) (\<lambda>answer. liftP (recordArray answer))"

definition PAGE_LIMIT :: nat where "PAGE_LIMIT = 100"

definition pageQuery :: "string \<Rightarrow> int \<Rightarrow> string" where
  "pageQuery restriction lastId =
     restriction @ '' and $id > '' @ stringOfInt lastId @ '' order by $id asc limit '' @ stringOfInt (int PAGE_LIMIT)"

text \<open>The \<open>$id\<close> of the last record of a page, when it is a safe integer above the one before.\<close>

definition nextId :: "int \<Rightarrow> kintone_record list \<Rightarrow> int option" where
  "nextId lastId page = (if page = [] then None else
     case fieldNumber (last page) ''$id'' of
       Finite r \<Rightarrow> if r = of_int \<lfloor>r\<rfloor> \<and> isSafeInteger \<lfloor>r\<rfloor> \<and> lastId < \<lfloor>r\<rfloor> then Some \<lfloor>r\<rfloor> else None
     | _ \<Rightarrow> None)"

lemma nextId_bounds: "nextId lastId page = Some n \<Longrightarrow> lastId < n \<and> n \<le> 2 ^ 53 - 1"
  by (auto simp: nextId_def isSafeInteger_def split: if_splits js_number.splits)

lemma bindP_cong [fundef_cong]: "m = m' \<Longrightarrow> (\<And>x. k x = k' x) \<Longrightarrow> bindP m k = bindP m' k'"
  by presburger

function pagedFrom :: "'s kintone_client \<Rightarrow> string \<Rightarrow> int \<Rightarrow> kintone_record list \<Rightarrow> ('s, kintone_record list) prog" where
  "pagedFrom c restriction lastId result =
     bindP (clientRecords c (pageQuery restriction lastId)) (\<lambda>page.
     if length page < PAGE_LIMIT then retP (result @ page)
     else case nextId lastId page of
       None \<Rightarrow> throwP remoteError
     | Some n \<Rightarrow> pagedFrom c restriction n (result @ page))"
  by pat_completeness auto

text \<open>The loop ends whatever the service answers: an \<open>$id\<close> grows with every page and is a safe integer.\<close>

termination
proof (relation "measure (\<lambda>(_, _, lastId, _). nat (2 ^ 53 - lastId))")
qed (auto dest: nextId_bounds)

declare pagedFrom.simps [simp del]

definition pagedRecords :: "'s kintone_client \<Rightarrow> string \<Rightarrow> ('s, kintone_record list) prog" where
  "pagedRecords c restriction = pagedFrom c restriction 0 []"

section \<open>Reading and writing one record\<close>

definition repositoryError :: "repository_error_code \<Rightarrow> ('s, 'a) prog" where
  "repositoryError code = throwP (RepositoryError code None)"

definition onlyRecord :: "(kintone_record \<Rightarrow> js_error + 'a) \<Rightarrow> kintone_record list \<Rightarrow> ('s, 'a versioned) prog" where
  "onlyRecord decode records = (case records of
     [] \<Rightarrow> repositoryError RECORD_NOT_FOUND
   | [rec] \<Rightarrow> liftP (versionedRecord decode rec)
   | _ \<Rightarrow> repositoryError MULTIPLE_RECORDS)"

definition optionalRecord :: "(kintone_record \<Rightarrow> js_error + 'a) \<Rightarrow> kintone_record list \<Rightarrow> ('s, 'a versioned option) prog" where
  "optionalRecord decode records = (case records of
     [] \<Rightarrow> retP None
   | [rec] \<Rightarrow> liftP (bindE (versionedRecord decode rec) (\<lambda>v. Inr (Some v)))
   | _ \<Rightarrow> repositoryError MULTIPLE_RECORDS)"

definition requiredByRecordKey ::
  "'s kintone_client \<Rightarrow> string \<Rightarrow> (kintone_record \<Rightarrow> js_error + 'a) \<Rightarrow> ('s, 'a versioned) prog" where
  "requiredByRecordKey c recordKey decode =
     bindP (mappedRecords c (inQuery ''record_key'' recordKey)) (onlyRecord decode)"

text \<open>What is left of an insert that failed: the record may be there, from this call or from another one.\<close>

definition adjudicateInsert ::
  "'s kintone_client \<Rightarrow> string \<Rightarrow> (kintone_record \<Rightarrow> js_error + 'a) \<Rightarrow> ('a \<Rightarrow> bool) \<Rightarrow> repository_error_code option \<Rightarrow>
   js_error \<Rightarrow> ('s, 'a versioned) prog" where
  "adjudicateInsert c recordKey decode same mismatchCode error =
     (if \<not> insertUnclear error then throwP (mapError error)
      else bindP (mappedRecords c (inQuery ''record_key'' recordKey)) (\<lambda>records.
        let unconfirmed = throwP (RepositoryError
              (if error = KintoneTransportError then AMBIGUOUS_WRITE else DUPLICATE_RECORD) (Some error)) in
        case records of
          [rec] \<Rightarrow> bindP (liftP (versionedRecord decode rec)) (\<lambda>found.
            if same (content found) then retP found
            else case mismatchCode of
              Some code \<Rightarrow> throwP (RepositoryError code (Some error))
            | None \<Rightarrow> unconfirmed)
        | _ \<Rightarrow> unconfirmed))"

definition revisionText :: "js_number \<Rightarrow> string" where
  "revisionText n = (case n of Finite r \<Rightarrow> textOfRat r | Infinite \<Rightarrow> ''Infinity'' | NaN \<Rightarrow> ''NaN'')"

definition createdRecord ::
  "(kintone_record \<Rightarrow> js_error + 'a) \<Rightarrow> (string \<times> json) list \<Rightarrow> js_number \<Rightarrow> js_error + 'a versioned" where
  "createdRecord decode fs rev' =
     bindE (decode (fieldsRecord (fs @ [(''$revision'', JStr (revisionText rev'))]))) (\<lambda>v.
     bindE (integerOf rev') (\<lambda>n. Inr (versioned v n)))"

definition createWithAdjudication ::
  "'s kintone_client \<Rightarrow> string \<Rightarrow> (string \<times> json) list \<Rightarrow> (kintone_record \<Rightarrow> js_error + 'a) \<Rightarrow> ('a \<Rightarrow> bool) \<Rightarrow>
   repository_error_code option \<Rightarrow> ('s, 'a versioned) prog" where
  "createWithAdjudication c recordKey fs decode same mismatchCode =
     catchP (bindP (postRecord (kt_fetch c) (kt_app c) (fieldsRecord fs)) (\<lambda>created. liftP (createdRecord decode fs (snd created))))
       (adjudicateInsert c recordKey decode same mismatchCode)"

definition lostTarget :: "int \<Rightarrow> kintone_record list \<Rightarrow> bool" where
  "lostTarget expected records \<longleftrightarrow> (case records of
     [] \<Rightarrow> True
   | [rec] \<Rightarrow> (case revisionOf rec of Finite r \<Rightarrow> of_int expected < r | Infinite \<Rightarrow> True | NaN \<Rightarrow> False)
   | _ \<Rightarrow> False)"

definition adjudicateUpdate :: "'s kintone_client \<Rightarrow> string \<Rightarrow> int \<Rightarrow> js_error \<Rightarrow> ('s, unit) prog" where
  "adjudicateUpdate c recordKey expected error =
     (if error = KintoneApiError 400 (Some ''GAIA_DA02'') then
        bindP (catchP (getRecords (kt_fetch c) (kt_app c) (inQuery ''record_key'' recordKey)) (\<lambda>_. throwP (mapError error))) (\<lambda>answer.
        bindP (liftP (recordArray answer)) (\<lambda>records.
        if lostTarget expected records then throwP (RepositoryError REVISION_CONFLICT (Some error))
        else throwP (mapError error)))
      else throwP (mapError error))"

definition put :: "'s kintone_client \<Rightarrow> string \<Rightarrow> int \<Rightarrow> (string \<times> json) list \<Rightarrow> ('s, unit) prog" where
  "put c recordKey expected fs =
     catchP (bindP (putRecord (kt_fetch c) (kt_app c) recordKey (Finite (of_int expected))
               (fieldsRecord (filter (\<lambda>f. fst f \<noteq> ''record_key'') fs))) (\<lambda>_. retP ()))
       (adjudicateUpdate c recordKey expected)"

text \<open>The result of an update is what was sent, with the revision that the update makes.\<close>

definition putAs ::
  "'s kintone_client \<Rightarrow> string \<Rightarrow> int \<Rightarrow> (string \<times> json) list \<Rightarrow> 'a \<Rightarrow> ('s, 'a versioned) prog" where
  "putAs c recordKey expected fs v = bindP (put c recordKey expected fs) (\<lambda>_. retP (versioned v (expected + 1)))"

section \<open>Runs\<close>

definition kt_createRun :: "(string \<Rightarrow> string) \<Rightarrow> 's kintone_apps \<Rightarrow> network_run \<Rightarrow> ('s, network_run versioned) prog" where
  "kt_createRun digest a run =
     bindP (liftP (runRecordKey digest run)) (\<lambda>recordKey.
     bindP (liftP (runRecord digest run)) (\<lambda>fs.
     createWithAdjudication (ka_state a) recordKey fs decodeRun (\<lambda>found. nr_run_id found = nr_run_id run) None))"

definition kt_getRunByBusinessKey ::
  "(string \<Rightarrow> string) \<Rightarrow> 's kintone_apps \<Rightarrow> string \<Rightarrow> string \<Rightarrow> string \<Rightarrow> ('s, network_run versioned option) prog" where
  "kt_getRunByBusinessKey digest a profile networkId businessKey =
     bindP (liftP (runKey digest profile networkId businessKey)) (\<lambda>recordKey.
     bindP (mappedRecords (ka_state a) (inQuery ''record_key'' recordKey)) (\<lambda>records.
     bindP (optionalRecord decodeRun records) (\<lambda>found.
     case found of
       None \<Rightarrow> retP None
     | Some run \<Rightarrow>
         bindP (liftP (runRecordKey digest (content run))) (\<lambda>key.
         if key \<noteq> recordKey then repositoryError REMOTE_ERROR else retP found))))"

definition requiredRunById :: "'s kintone_apps \<Rightarrow> string \<Rightarrow> ('s, network_run versioned) prog" where
  "requiredRunById a runId =
     bindP (mappedRecords (ka_state a) (andQuery (inQuery ''record_type'' ''NETWORK_RUN'') (inQuery ''run_id'' runId)))
       (onlyRecord decodeRun)"

definition kt_listRuns ::
  "(string \<Rightarrow> string \<Rightarrow> bool) \<Rightarrow> 's kintone_apps \<Rightarrow> string \<Rightarrow> string \<Rightarrow> ('s, network_run versioned list) prog" where
  "kt_listRuns collate a profile networkId =
     bindP (mapped (pagedRecords (ka_state a)
       (andQuery (inQuery ''record_type'' ''NETWORK_RUN'') (inQuery ''network_id'' networkId)))) (\<lambda>records.
     bindP (liftP (mapE (versionedRecord decodeRun) records)) (\<lambda>runs.
     retP (sortBy (\<lambda>l r. collate (nr_run_id (content l)) (nr_run_id (content r)))
       (filter (\<lambda>v. rp_profile (nr_resolved_profile_snapshot (content v)) = profile) runs))))"

definition aggregateFields :: "run_aggregate_update \<Rightarrow> (string \<times> json) list" where
  "aggregateFields u = [(''status'', JStr (statusText (ru_status u))), (''started_at'', textField (ru_started_at u)),
     (''finished_at'', textField (ru_finished_at u)), (''updated_at'', JStr (ru_updated_at u))]"

definition aggregatedRun :: "network_run \<Rightarrow> run_aggregate_update \<Rightarrow> network_run" where
  "aggregatedRun run u = run\<lparr> nr_status := ru_status u, nr_started_at := ru_started_at u,
     nr_finished_at := ru_finished_at u, nr_updated_at := ru_updated_at u \<rparr>"

definition kt_updateRunAggregate ::
  "(string \<Rightarrow> string) \<Rightarrow> 's kintone_apps \<Rightarrow> string \<Rightarrow> int \<Rightarrow> run_aggregate_update \<Rightarrow> ('s, network_run versioned) prog" where
  "kt_updateRunAggregate digest a runId expected u =
     bindP (requiredRunById a runId) (\<lambda>current.
     bindP (liftP (runRecordKey digest (content current))) (\<lambda>recordKey.
     putAs (ka_state a) recordKey expected (aggregateFields u) (aggregatedRun (content current) u)))"

definition kt_archiveRun ::
  "(string \<Rightarrow> string) \<Rightarrow> 's kintone_apps \<Rightarrow> string \<Rightarrow> int \<Rightarrow> string \<Rightarrow> ('s, network_run versioned) prog" where
  "kt_archiveRun digest a runId expected at' =
     bindP (requiredRunById a runId) (\<lambda>current.
     bindP (liftP (runRecordKey digest (content current))) (\<lambda>recordKey.
     putAs (ka_state a) recordKey expected [(''lifecycle_status'', JStr ''ARCHIVED''), (''updated_at'', JStr at')]
       ((content current)\<lparr> nr_lifecycle_status := ARCHIVED, nr_updated_at := at' \<rparr>)))"

section \<open>Cancel requests\<close>

definition cancelKey :: "string \<Rightarrow> string" where "cancelKey runId = ''CANCEL:'' @ runId"

definition rethrownError :: "js_error \<Rightarrow> js_error" where
  "rethrownError error = (case error of RepositoryError _ _ \<Rightarrow> error | _ \<Rightarrow> mapError error)"

definition kt_getCancelRequest :: "'s kintone_apps \<Rightarrow> string \<Rightarrow> ('s, cancel_request versioned option) prog" where
  "kt_getCancelRequest a runId =
     catchP (bindP (clientRecords (ka_state a) (inQuery ''record_key'' (cancelKey runId))) (optionalRecord decodeCancelRequest))
       (\<lambda>error. throwP (rethrownError error))"

definition kt_createCancelRequest :: "'s kintone_apps \<Rightarrow> cancel_request \<Rightarrow> ('s, cancel_request versioned) prog" where
  "kt_createCancelRequest a v =
     (if cr_state v \<noteq> CR_REQUESTED then repositoryError INVALID_STATE_TRANSITION
      else bindP (liftP (cancelRequestRecord v)) (\<lambda>fs.
        createWithAdjudication (ka_state a) (cancelKey (cr_run_id v)) fs decodeCancelRequest
          (\<lambda>found. cr_run_id found = cr_run_id v) None))"

definition allowedCancelTransition :: "cancel_request_state \<Rightarrow> cancel_request_state \<Rightarrow> bool" where
  "allowedCancelTransition before to \<longleftrightarrow>
     (before = CR_REQUESTED \<and> (to = CR_ACCEPTED \<or> to = CR_RELEASED)) \<or> (before = CR_ACCEPTED \<and> to = CR_RELEASED) \<or>
     (before = CR_RELEASED \<and> to = CR_REQUESTED)"

definition kt_updateCancelRequest ::
  "'s kintone_apps \<Rightarrow> string \<Rightarrow> int \<Rightarrow> cancel_request \<Rightarrow> ('s, cancel_request versioned) prog" where
  "kt_updateCancelRequest a runId expected v =
     bindP (requiredByRecordKey (ka_state a) (cancelKey runId) decodeCancelRequest) (\<lambda>current.
     if cr_run_id v \<noteq> runId \<or> \<not> allowedCancelTransition (cr_state (content current)) (cr_state v)
     then repositoryError INVALID_STATE_TRANSITION
     else bindP (liftP (cancelRequestRecord v)) (\<lambda>fs.
       putAs (ka_state a) (cancelKey runId) expected (filter (\<lambda>f. fst f = ''status_reason'') fs) v))"

section \<open>Invocations\<close>

definition invocationKey :: "string \<Rightarrow> string" where "invocationKey i = ''INV:'' @ i"

definition kt_createInvocation :: "'s kintone_apps \<Rightarrow> run_invocation \<Rightarrow> ('s, run_invocation versioned) prog" where
  "kt_createInvocation a v = bindP (liftP (invocationRecord v)) (\<lambda>fs.
     createWithAdjudication (ka_audit a) (invocationKey (ri_invocation_id v)) fs decodeInvocation
       (\<lambda>found. ri_invocation_id found = ri_invocation_id v) None)"

definition kt_getInvocations :: "'s kintone_apps \<Rightarrow> string \<Rightarrow> ('s, run_invocation versioned list) prog" where
  "kt_getInvocations a runId =
     bindP (mapped (pagedRecords (ka_audit a) (andQuery (inQuery ''record_type'' ''RUN_INVOCATION'') (inQuery ''run_id'' runId))))
       (\<lambda>records. liftP (mapE (versionedRecord decodeInvocation) records))"

definition optionalField :: "string \<Rightarrow> ('a \<Rightarrow> json) \<Rightarrow> 'a option \<Rightarrow> (string \<times> json) list" where
  "optionalField code f x = (case x of None \<Rightarrow> [] | Some v \<Rightarrow> [(code, f v)])"

definition finalizationFields :: "invocation_finalization \<Rightarrow> (string \<times> json) list" where
  "finalizationFields f = [(''status'', JStr (statusText (if_status f))), (''result_code'', JStr (if_result_code f)),
       (''finished_at'', JStr (if_finished_at f))] @
     optionalField ''selected_node_ids'' (\<lambda>xs. JStr (stringify (jsonStrings xs))) (if_selected_node_ids f) @
     optionalField ''preserved_node_ids'' (\<lambda>xs. JStr (stringify (jsonStrings xs))) (if_preserved_node_ids f) @
     optionalField ''blocked_node_ids'' (\<lambda>xs. JStr (stringify (jsonStrings xs))) (if_blocked_node_ids f) @
     optionalField ''reason'' JStr (if_reason f)"

definition kt_finalizeInvocation ::
  "'s kintone_apps \<Rightarrow> string \<Rightarrow> int \<Rightarrow> invocation_finalization \<Rightarrow> ('s, run_invocation versioned) prog" where
  "kt_finalizeInvocation a i expected f =
     bindP (requiredByRecordKey (ka_audit a) (invocationKey i) decodeInvocation) (\<lambda>current.
     if ri_status (content current) \<noteq> RUNNING \<and> ri_status (content current) \<noteq> CREATED
     then repositoryError INVALID_STATE_TRANSITION
     else putAs (ka_audit a) (invocationKey i) expected (finalizationFields f) (finalizedInvocation (content current) f))"

section \<open>Node states\<close>

definition stateKey :: "string \<Rightarrow> string" where "stateKey k = ''STATE:'' @ k"

definition kt_getNodeStates :: "'s kintone_apps \<Rightarrow> string \<Rightarrow> ('s, node_state versioned list) prog" where
  "kt_getNodeStates a runId =
     bindP (clientRecords (ka_state a) (andQuery (inQuery ''record_type'' ''NODE_STATE'') (inQuery ''run_id'' runId)))
       (\<lambda>records. liftP (mapE (versionedRecord decodeState) records))"

definition createState :: "'s kintone_apps \<Rightarrow> node_state \<Rightarrow> ('s, node_state versioned) prog" where
  "createState a v =
     (if ns_status v \<noteq> WAITING then repositoryError INVALID_STATE_TRANSITION
      else bindP (liftP (stateRecord v)) (\<lambda>fs.
        createWithAdjudication (ka_state a) (stateKey (ns_node_state_key v)) fs decodeState
          (\<lambda>found. ns_node_state_key found = ns_node_state_key v) None))"

text \<open>\<open>event_type\<close> has one value, so that it always agrees.\<close>

definition correlatedResolution :: "(string \<Rightarrow> string) \<Rightarrow> 's kintone_apps \<Rightarrow> resolution_event option \<Rightarrow> ('s, unit) prog" where
  "correlatedResolution hex a event = (case event of
     None \<Rightarrow> retP ()
   | Some e \<Rightarrow>
       bindP (requiredByRecordKey (ka_audit a) (resolutionRecordKey hex (re_attempt_id e) (re_resolved_at e)) decodeResolution)
       (\<lambda>resolution. let v = content resolution in
         whenP (ar_attempt_id v \<noteq> re_attempt_id e \<or> ar_resolved_outcome v \<noteq> re_resolved_outcome e \<or>
                ar_resolved_at v \<noteq> re_resolved_at e) (repositoryError RECORD_NOT_FOUND)))"

definition stateMoveAllowed :: "node_state \<Rightarrow> node_state_write \<Rightarrow> bool" where
  "stateMoveAllowed current w = (let before = ns_status current; to = ns_status (nw_value w) in
     (isAllowedNodeStateTransition before to \<or>
      (case nw_resolution_event w of
         None \<Rightarrow> False
       | Some e \<Rightarrow> re_resolved_outcome e = to \<and> isAllowedResolutionTransition before to)) \<and>
     \<not> ((before = FAILED \<or> before = CANCELLED) \<and> to = WAITING \<and> \<not> ns_idempotent current))"

definition kt_upsertNodeState ::
  "(string \<Rightarrow> string) \<Rightarrow> 's kintone_apps \<Rightarrow> node_state_write \<Rightarrow> ('s, node_state versioned) prog" where
  "kt_upsertNodeState hex a w = (case nw_expected_revision w of
     None \<Rightarrow> createState a (nw_value w)
   | Some expected \<Rightarrow>
       let key = stateKey (ns_node_state_key (nw_value w)); v = (nw_value w)\<lparr> ns_revision := expected + 1 \<rparr> in
       bindP (requiredByRecordKey (ka_state a) key decodeState) (\<lambda>current.
       bindP (correlatedResolution hex a (nw_resolution_event w)) (\<lambda>_.
       if \<not> stateMoveAllowed (content current) w then repositoryError INVALID_STATE_TRANSITION
       else bindP (liftP (stateRecord v)) (\<lambda>fs. putAs (ka_state a) key expected fs v))))"

section \<open>Attempts\<close>

definition attemptRecordKey :: "string \<Rightarrow> string" where "attemptRecordKey i = ''ATT:'' @ i"

definition requiredAttempt :: "'s kintone_apps \<Rightarrow> string \<Rightarrow> ('s, node_attempt versioned) prog" where
  "requiredAttempt a i = requiredByRecordKey (ka_audit a) (attemptRecordKey i) decodeAttempt"

definition attemptsOfRun :: "string \<Rightarrow> string" where
  "attemptsOfRun runId = andQuery (inQuery ''record_type'' ''NODE_ATTEMPT'') (inQuery ''run_id'' runId)"

definition kt_getAttempts :: "'s kintone_apps \<Rightarrow> string \<Rightarrow> ('s, node_attempt versioned list) prog" where
  "kt_getAttempts a runId =
     bindP (clientRecords (ka_audit a) (attemptsOfRun runId)) (\<lambda>records. liftP (mapE (versionedRecord decodeAttempt) records))"

text \<open>A conflict or a lost answer is settled by the attempt that holds the number.\<close>

definition confirmAttempt :: "'s kintone_apps \<Rightarrow> node_attempt \<Rightarrow> js_error \<Rightarrow> ('s, node_attempt versioned) prog" where
  "confirmAttempt a v error =
     bindP (clientRecords (ka_audit a) (andQuery (inQuery ''record_type'' ''NODE_ATTEMPT'') (inQuery ''attempt_key'' (na_attempt_key v))))
     (\<lambda>matches. case matches of
        [m] \<Rightarrow> if fieldText m ''node_attempt_id'' = na_node_attempt_id v then liftP (versionedRecord decodeAttempt m)
               else throwP (RepositoryError ATTEMPT_NUMBER_CONFLICT (Some error))
      | _ \<Rightarrow> throwP (RepositoryError ATTEMPT_NUMBER_CONFLICT (Some error)))"

definition insertAttempt :: "'s kintone_apps \<Rightarrow> node_attempt \<Rightarrow> ('s, node_attempt versioned) prog" where
  "insertAttempt a v = bindP (liftP (attemptRecord v)) (\<lambda>fs.
     createWithAdjudication (ka_audit a) (attemptRecordKey (na_node_attempt_id v)) fs decodeAttempt
       (\<lambda>found. na_node_attempt_id found = na_node_attempt_id v) None)"

definition kt_createAttempt ::
  "(string \<Rightarrow> string) \<Rightarrow> 's kintone_apps \<Rightarrow> create_attempt_input \<Rightarrow> ('s, node_attempt versioned) prog" where
  "kt_createAttempt digest a input =
     (let state = content (ca_node_state input); attemptNo = ns_latest_attempt_no state + 1 in
      bindP (liftP (attemptKey digest (ns_run_id state) (ns_node_id state) attemptNo)) (\<lambda>key.
      let v = newAttempt input key attemptNo in
      catchP (insertAttempt a v) (\<lambda>error.
        case error of
          RepositoryError code _ \<Rightarrow>
            if code = DUPLICATE_RECORD \<or> code = AMBIGUOUS_WRITE then confirmAttempt a v error else throwP error
        | _ \<Rightarrow> throwP error)))"

definition kt_setAttemptExecutionStarted ::
  "'s kintone_apps \<Rightarrow> string \<Rightarrow> int \<Rightarrow> string \<Rightarrow> ('s, node_attempt versioned) prog" where
  "kt_setAttemptExecutionStarted a i expected startedAt =
     bindP (requiredAttempt a i) (\<lambda>current.
     if na_status (content current) \<noteq> RUNNING then repositoryError ATTEMPT_TERMINAL
     else if na_execution_started_at (content current) \<noteq> None then repositoryError ATTEMPT_LIFECYCLE_VIOLATION
     else putAs (ka_audit a) (attemptRecordKey i) expected [(''execution_started_at'', JStr startedAt)]
       ((content current)\<lparr> na_execution_started_at := Some startedAt \<rparr>))"

definition kt_setAttemptInputBaseline ::
  "'s kintone_apps \<Rightarrow> string \<Rightarrow> int \<Rightarrow> string \<Rightarrow> ('s, node_attempt versioned) prog" where
  "kt_setAttemptInputBaseline a i expected message =
     bindP (requiredAttempt a i) (\<lambda>current.
     if na_status (content current) \<noteq> RUNNING \<or> na_execution_started_at (content current) \<noteq> None
     then repositoryError ATTEMPT_LIFECYCLE_VIOLATION
     else putAs (ka_audit a) (attemptRecordKey i) expected [(''error_message'', JStr message)]
       ((content current)\<lparr> na_error_message := Some message \<rparr>))"

definition kt_finalizeAttempt ::
  "'s kintone_apps \<Rightarrow> string \<Rightarrow> int \<Rightarrow> attempt_finalization \<Rightarrow> ('s, node_attempt versioned) prog" where
  "kt_finalizeAttempt a i expected f =
     bindP (requiredAttempt a i) (\<lambda>current.
     if na_status (content current) \<noteq> RUNNING then repositoryError ATTEMPT_TERMINAL
     else let v = finalizedAttempt (content current) f in
       bindP (liftP (attemptRecord v)) (\<lambda>fs. putAs (ka_audit a) (attemptRecordKey i) expected fs v))"

section \<open>Resolutions and audits\<close>

definition kt_getResolutions :: "'s kintone_apps \<Rightarrow> string \<Rightarrow> ('s, attempt_resolution versioned list) prog" where
  "kt_getResolutions a runId =
     bindP (kt_getAttempts a runId) (\<lambda>attempts.
     let attemptIds = map (\<lambda>v. na_node_attempt_id (content v)) attempts in
     bindP (clientRecords (ka_audit a) (inQuery ''record_type'' ''ATTEMPT_RESOLUTION'')) (\<lambda>records.
     liftP (mapE (versionedRecord decodeResolution) (filter (\<lambda>rec. fieldText rec ''attempt_id'' \<in> set attemptIds) records))))"

definition kt_appendResolution ::
  "(string \<Rightarrow> string) \<Rightarrow> 's kintone_apps \<Rightarrow> attempt_resolution \<Rightarrow> ('s, attempt_resolution versioned) prog" where
  "kt_appendResolution hex a v =
     bindP (requiredAttempt a (ar_attempt_id v)) (\<lambda>attempt.
     if na_status (content attempt) \<noteq> UNKNOWN \<and> na_status (content attempt) \<noteq> FAILED
     then repositoryError ATTEMPT_LIFECYCLE_VIOLATION
     else let key = resolutionRecordKey hex (ar_attempt_id v) (ar_resolved_at v) in
       createWithAdjudication (ka_audit a) key (resolutionFields key v) (\<lambda>_. Inr v) (\<lambda>_. True) None)"

definition kt_appendOperationAudit :: "'s kintone_apps \<Rightarrow> operation_audit \<Rightarrow> ('s, operation_audit versioned) prog" where
  "kt_appendOperationAudit a v = bindP (liftP (auditKey (event_id v))) (\<lambda>key.
     createWithAdjudication (ka_audit a) key (auditFields key v) decodeAudit (sameAudit v)
       (if isArchivedAudit v then Some AUDIT_CONFLICT else None))"

definition kt_getOperationAuditByEventId :: "'s kintone_apps \<Rightarrow> string \<Rightarrow> ('s, operation_audit versioned option) prog" where
  "kt_getOperationAuditByEventId a i = bindP (liftP (auditKey i)) (\<lambda>key.
     bindP (mappedRecords (ka_audit a) (inQuery ''record_key'' key)) (optionalRecord decodeAudit))"

section \<open>Inconsistencies\<close>

definition attemptInconsistencies :: "node_attempt versioned list \<Rightarrow> node_state versioned \<Rightarrow> inconsistency list" where
  "attemptInconsistencies attempts state =
     (let nodeAttempts = filter (\<lambda>v. na_node_id (content v) = ns_node_id (content state)) attempts;
          running = filter (\<lambda>v. na_status (content v) = RUNNING) nodeAttempts
      in (if length running > 1 then [MultipleRunningAttempts state running] else []) @
         (case ns_active_attempt_id (content state) of
            None \<Rightarrow> []
          | Some activeId \<Rightarrow>
              if activeId = [] then []
              else (case find (\<lambda>v. na_node_attempt_id (content v) = activeId) nodeAttempts of
                      None \<Rightarrow> [ActiveAttemptMissing state]
                    | Some active \<Rightarrow>
                        if na_status (content active) \<noteq> ns_status (content state)
                        then [StateAttemptStatusMismatch state active] else [])))"

definition kt_listInconsistencies :: "'s kintone_apps \<Rightarrow> string \<Rightarrow> ('s, inconsistency list) prog" where
  "kt_listInconsistencies a runId =
     bindP (kt_getNodeStates a runId) (\<lambda>states.
     bindP (clientRecords (ka_audit a) (attemptsOfRun runId)) (\<lambda>records.
     bindP (liftP (mapE (versionedRecord decodeAttempt) records)) (\<lambda>attempts.
     retP (concat (map (attemptInconsistencies attempts) states)))))"

section \<open>The repository value\<close>

definition kintone_repository ::
  "(string \<Rightarrow> string) \<Rightarrow> (string \<Rightarrow> string) \<Rightarrow> (string \<Rightarrow> string \<Rightarrow> bool) \<Rightarrow> 's kintone_apps \<Rightarrow> 's repository" where
  "kintone_repository digest hex collate a = \<lparr>
     createRun = kt_createRun digest a,
     getRun = requiredRunById a,
     getRunByBusinessKey = kt_getRunByBusinessKey digest a,
     listRuns = kt_listRuns collate a,
     getCancelRequest = kt_getCancelRequest a,
     createCancelRequest = kt_createCancelRequest a,
     updateCancelRequest = kt_updateCancelRequest a,
     updateRunAggregate = kt_updateRunAggregate digest a,
     archiveRunRecord = kt_archiveRun digest a,
     createInvocation = kt_createInvocation a,
     getInvocations = kt_getInvocations a,
     finalizeInvocation = kt_finalizeInvocation a,
     getNodeStates = kt_getNodeStates a,
     getAttempts = kt_getAttempts a,
     getResolutions = kt_getResolutions a,
     upsertNodeState = kt_upsertNodeState hex a,
     createAttempt = kt_createAttempt digest a,
     setAttemptInputBaseline = kt_setAttemptInputBaseline a,
     setAttemptExecutionStarted = kt_setAttemptExecutionStarted a,
     finalizeAttempt = kt_finalizeAttempt a,
     appendResolution = kt_appendResolution hex a,
     appendOperationAudit = kt_appendOperationAudit a,
     getOperationAuditByEventId = kt_getOperationAuditByEventId a,
     listInconsistencies = kt_listInconsistencies a \<rparr>"

end
