(* ===== verification/KintoneContract.thy ===== *)
theory KintoneContract
  imports KintoneRepository RepositoryContract
begin

text \<open>
  The kintone repository as a provider of the repository contract, relative to the documented behaviour of the apps
  (\<open>kintone_app\<close>): \<open>record_key\<close> is unique, a record is inserted or updated as a whole or not at all, an update needs the
  current revision and raises it by one, a request whose answer is lost may or may not have taken effect, and a query
  changes nothing. \<open>view s\<close> are the records of an app by record key. A date comes back as some date, the attachment under
  some other key, everything else as it was sent.
\<close>

section \<open>The service\<close>

text \<open>The fields of \<open>src/persistence/kintone/schema.ts\<close>.\<close>

datatype kintone_record_type =
    R_NETWORK_RUN | R_NODE_STATE | R_CANCEL_REQUEST | R_RUN_INVOCATION | R_NODE_ATTEMPT | R_ATTEMPT_RESOLUTION
  | R_OPERATION_AUDIT

fun KINTONE_FIELD_MAP :: "kintone_record_type \<Rightarrow> string list" where
  "KINTONE_FIELD_MAP R_NETWORK_RUN = [''record_key'', ''record_type'', ''run_id'', ''network_id'', ''business_key'',
     ''max_active_runs'', ''status'', ''lifecycle_status'', ''resume_allowed'', ''as_of'', ''definition_schema_version'',
     ''definition_sha256'', ''source_bundle_sha256'', ''source_bundle_attachment'', ''resolved_profile_snapshot'',
     ''resolved_profile_sha256'', ''ksql_flow_version'', ''engine_version'', ''dialect'', ''created_at'', ''started_at'',
     ''finished_at'', ''updated_at'']"
| "KINTONE_FIELD_MAP R_NODE_STATE = [''record_key'', ''record_type'', ''run_id'', ''revision'', ''status'', ''started_at'',
     ''finished_at'', ''updated_at'', ''node_state_id'', ''node_state_key'', ''node_id'', ''job_id'', ''latest_attempt_no'',
     ''active_attempt_id'', ''idempotent'', ''trigger_rule'', ''blocked_by'', ''status_reason'']"
| "KINTONE_FIELD_MAP R_CANCEL_REQUEST = [''record_key'', ''record_type'', ''run_id'', ''status_reason'']"
| "KINTONE_FIELD_MAP R_RUN_INVOCATION = [''record_key'', ''record_type'', ''run_id'', ''started_at'', ''finished_at'',
     ''status'', ''result_code'', ''invocation_id'', ''mode'', ''requested_by'', ''host'', ''selected_node_ids'',
     ''preserved_node_ids'', ''blocked_node_ids'', ''reason'']"
| "KINTONE_FIELD_MAP R_NODE_ATTEMPT = [''record_key'', ''record_type'', ''run_id'', ''finished_at'', ''status'',
     ''result_code'', ''node_attempt_id'', ''attempt_key'', ''node_id'', ''job_id'', ''invocation_id'', ''attempt_no'',
     ''execution_started_at'', ''runner_execution_started_at'', ''execution_id'', ''duration_sec'', ''error_message'',
     ''read_count'', ''written_count'', ''last_successful_chunk_no'', ''last_written_key'', ''state_revision_before'']"
| "KINTONE_FIELD_MAP R_ATTEMPT_RESOLUTION = [''record_key'', ''record_type'', ''event_type'', ''attempt_id'',
     ''resolved_outcome'', ''evidence_ref'', ''service_principal'', ''requested_by'', ''approved_by'', ''resolved_at'']"
| "KINTONE_FIELD_MAP R_OPERATION_AUDIT = [''record_key'', ''record_type'', ''run_id'', ''result_code'', ''reason'',
     ''resolved_at'']"

definition appFields :: "string set" where
  "appFields = \<Union> (set ` KINTONE_FIELD_MAP ` {R_NETWORK_RUN, R_NODE_STATE, R_CANCEL_REQUEST, R_RUN_INVOCATION, R_NODE_ATTEMPT,
     R_ATTEMPT_RESOLUTION, R_OPERATION_AUDIT})"

definition dateFields :: "string set" where
  "dateFields = {''as_of'', ''created_at'', ''started_at'', ''finished_at'', ''updated_at'', ''execution_started_at'',
     ''runner_execution_started_at'', ''resolved_at''}"

text \<open>How the value \<open>v\<close> that was sent for the field \<open>c\<close> comes back.\<close>

definition sentText :: "json \<Rightarrow> string" where
  "sentText v = (case v of JNull \<Rightarrow> [] | _ \<Rightarrow> textOfJson v)"

definition kept_as :: "string \<Rightarrow> json \<Rightarrow> kintone_record \<Rightarrow> bool" where
  "kept_as c v x \<longleftrightarrow>
     (if c \<in> dateFields then fieldText x c = [] \<longleftrightarrow> sentText v = []
      else if c = ''source_bundle_attachment'' then True
      else fieldText x c = sentText v \<and> (noNumber (Some v) \<longleftrightarrow> noNumber (fieldValue x c)) \<and>
        (\<forall>n. v = JNum n \<longrightarrow> fieldNumber x c = Finite n))"

definition holds_fields :: "(string \<times> json) list \<Rightarrow> kintone_record \<Rightarrow> bool" where
  "holds_fields fs x \<longleftrightarrow> (\<forall>c \<in> appFields. \<forall>v. mapGet fs c = Some v \<longrightarrow> kept_as c v x)"

definition updated_by :: "(string \<times> json) list \<Rightarrow> kintone_record \<Rightarrow> kintone_record \<Rightarrow> bool" where
  "updated_by fs x y \<longleftrightarrow> holds_fields fs y \<and> (\<forall>c \<in> appFields. mapGet fs c = None \<longrightarrow> fieldValue y c = fieldValue x c)"

type_synonym 's kintone_view = "'s \<Rightarrow> string \<Rightarrow> kintone_record option"

locale kintone_app =
  fixes c :: "'s kintone_client" and view other :: "'s kintone_view"
  assumes query: "getRecords (kt_fetch c) (kt_app c) q s = (r, t) \<Longrightarrow> view t = view s \<and> other t = other s"
    and answer: "getRecords (kt_fetch c) (kt_app c) q s = (Inr (Some (JArr xs)), t) \<Longrightarrow> x \<in> set xs \<Longrightarrow>
      view s (fieldText x ''record_key'') = Some x"
    and answer_of_key: "getRecords (kt_fetch c) (kt_app c) (inQuery ''record_key'' k) s = (Inr (Some (JArr xs)), t) \<Longrightarrow>
      xs = (case view s k of None \<Rightarrow> [] | Some x \<Rightarrow> [x])"
    and answer_of_run: "getRecords (kt_fetch c) (kt_app c)
        (andQuery (inQuery ''record_type'' ''NETWORK_RUN'') (inQuery ''run_id'' i)) s = (Inr (Some (JArr xs)), t) \<Longrightarrow>
      x \<in> set xs \<Longrightarrow> fieldText x ''record_type'' = ''NETWORK_RUN'' \<and> fieldText x ''run_id'' = i"
    and insert: "postRecord (kt_fetch c) (kt_app c) (fieldsRecord fs) s = (p, t) \<Longrightarrow> mapGet fs ''record_key'' = Some (JStr k) \<Longrightarrow>
      other t = other s \<and>
      (view t = view s \<and> (\<exists>e. p = Inl e) \<or>
       (\<exists>x. view s k = None \<and> view t = (view s)(k \<mapsto> x) \<and> holds_fields fs x \<and>
          ((\<exists>e. p = Inl e) \<or> (\<exists>j. p = Inr (j, revisionOf x)))))"
    and update: "putRecord (kt_fetch c) (kt_app c) k (Finite (of_int n)) (fieldsRecord fs) s = (u, t) \<Longrightarrow>
      mapGet fs ''record_key'' = None \<Longrightarrow>
      other t = other s \<and>
      (view t = view s \<and> (\<exists>e. u = Inl e) \<or>
       (\<exists>x y. view s k = Some x \<and> revisionOf x = Finite (of_int n) \<and> view t = (view s)(k \<mapsto> y) \<and>
          revisionOf y = Finite (of_int (n + 1)) \<and> updated_by fs x y \<and> ((\<exists>e. u = Inl e) \<or> u = Inr (revisionOf y))))"

locale kintone_service =
  fixes a :: "'s kintone_apps" and sv av :: "'s kintone_view"
  assumes state_app: "kintone_app (ka_state a) sv av"
    and audit_app: "kintone_app (ka_audit a) av sv"

sublocale kintone_service \<subseteq> state: kintone_app "ka_state a" sv av
  by (rule state_app)

sublocale kintone_service \<subseteq> audit: kintone_app "ka_audit a" av sv
  by (rule audit_app)

section \<open>History\<close>

text \<open>Records that never change again: resolutions, audits, and attempts and invocations that are over.\<close>

definition frozen :: "string \<Rightarrow> kintone_record \<Rightarrow> bool" where
  "frozen k x \<longleftrightarrow> startsWith k ''RES:'' \<or> startsWith k ''OP:'' \<or>
     (startsWith k ''ATT:'' \<and> fieldText x ''status'' \<noteq> ''RUNNING'') \<or>
     (startsWith k ''INV:'' \<and> fieldText x ''status'' \<notin> {''RUNNING'', ''CREATED''})"

definition revised :: "kintone_record \<Rightarrow> kintone_record \<Rightarrow> bool" where
  "revised x y \<longleftrightarrow> (\<exists>n m :: int. revisionOf x = Finite (of_int n) \<and> revisionOf y = Finite (of_int m) \<and> n < m)"

definition record_may_become :: "string \<Rightarrow> kintone_record \<Rightarrow> kintone_record \<Rightarrow> bool" where
  "record_may_become k x y \<longleftrightarrow> y = x \<or> (\<not> frozen k x \<and> revised x y \<and>
     (fieldText x ''lifecycle_status'' = ''ARCHIVED'' \<longrightarrow> fieldText y ''lifecycle_status'' = ''ARCHIVED''))"

text \<open>The records of the network lock, in the state app, are not the repository's.\<close>

definition app_evolves :: "(string \<Rightarrow> kintone_record option) \<Rightarrow> (string \<Rightarrow> kintone_record option) \<Rightarrow> bool" where
  "app_evolves v w \<longleftrightarrow> (\<forall>k x. v k = Some x \<and> \<not> startsWith k ''LOCK'' \<longrightarrow> (\<exists>y. w k = Some y \<and> record_may_become k x y))"

definition kintone_history :: "'s kintone_view \<Rightarrow> 's kintone_view \<Rightarrow> 's \<Rightarrow> 's \<Rightarrow> bool" where
  "kintone_history sv av s t \<longleftrightarrow> app_evolves (sv s) (sv t) \<and> app_evolves (av s) (av t)"

lemma revised_trans: "revised x y \<Longrightarrow> revised y z \<Longrightarrow> revised x z"
  by (fastforce simp: revised_def)

lemma record_may_become_refl [simp]: "record_may_become k x x"
  by (simp add: record_may_become_def)

lemma record_may_become_trans: "record_may_become k x y \<Longrightarrow> record_may_become k y z \<Longrightarrow> record_may_become k x z"
  by (auto simp: record_may_become_def intro: revised_trans)

lemma app_evolves_refl [simp]: "app_evolves v v"
  by (simp add: app_evolves_def)

lemma app_evolves_trans: "app_evolves u v \<Longrightarrow> app_evolves v w \<Longrightarrow> app_evolves u w"
  unfolding app_evolves_def by (meson record_may_become_trans)

lemma app_evolves_insert: "v k = None \<Longrightarrow> app_evolves v (v(k \<mapsto> x))"
  by (auto simp: app_evolves_def)

lemma app_evolves_update: "v k = Some x \<Longrightarrow> record_may_become k x y \<Longrightarrow> app_evolves v (v(k \<mapsto> y))"
  by (auto simp: app_evolves_def)

lemma kintone_order: "state_order (kintone_history sv av)"
  by unfold_locales (auto simp: kintone_history_def intro: app_evolves_trans)

section \<open>One app\<close>

definition same_apps :: "'s kintone_view \<Rightarrow> 's kintone_view \<Rightarrow> 's \<Rightarrow> 's \<Rightarrow> bool" where
  "same_apps view other s t \<longleftrightarrow> view t = view s \<and> other t = other s"

lemma same_apps_order: "state_order (same_apps view other)"
  by unfold_locales (auto simp: same_apps_def)

text \<open>The effect of an update of one record, if any; \<open>done'\<close> says that it surely took effect.\<close>

definition put_effect ::
  "'s kintone_view \<Rightarrow> 's kintone_view \<Rightarrow> string \<Rightarrow> int \<Rightarrow> (string \<times> json) list \<Rightarrow> bool \<Rightarrow> 's \<Rightarrow> 's \<Rightarrow> bool" where
  "put_effect view other k n fs done' s t \<longleftrightarrow> other t = other s \<and>
     (view t = view s \<and> \<not> done' \<or>
      (\<exists>x y. view s k = Some x \<and> revisionOf x = Finite (of_int n) \<and> view t = (view s)(k \<mapsto> y) \<and>
         revisionOf y = Finite (of_int (n + 1)) \<and> updated_by (filter (\<lambda>f. fst f \<noteq> ''record_key'') fs) x y))"

text \<open>The effect of an insert, if any.\<close>

definition insert_effect ::
  "'s kintone_view \<Rightarrow> 's kintone_view \<Rightarrow> string \<Rightarrow> (string \<times> json) list \<Rightarrow> 's \<Rightarrow> 's \<Rightarrow> bool" where
  "insert_effect view other k fs s t \<longleftrightarrow> other t = other s \<and>
     (view t = view s \<or> (\<exists>x. view s k = None \<and> view t = (view s)(k \<mapsto> x) \<and> holds_fields fs x))"

sublocale kintone_app \<subseteq> same: state_order "same_apps view other"
  by (rule same_apps_order)

context state_order
begin

lemma guarantees_pagedFrom:
  "(\<And>q. guarantees T (clientRecords c q)) \<Longrightarrow> guarantees T (pagedFrom c q n xs)"
proof (induction c q n xs rule: pagedFrom.induct)
  case (1 c q n xs)
  show ?case
    unfolding pagedFrom.simps [of c q n xs]
    by (intro guarantees_bindP) (auto split: option.splits intro: 1 guarantees_pure)
qed

end

context kintone_app
begin

lemma getRecords_same [guarantees_intro]: "guarantees (same_apps view other) (getRecords (kt_fetch c) (kt_app c) q)"
  unfolding guarantees_def same_apps_def by (metis prod.collapse query)

lemma clientRecords_same [guarantees_intro]: "guarantees (same_apps view other) (clientRecords c q)"
  unfolding clientRecords_def by (intro guarantees_intro same.guarantees_bindP same.guarantees_pure)

lemma mapped_same [guarantees_intro]: "guarantees (same_apps view other) m \<Longrightarrow> guarantees (same_apps view other) (mapped m)"
  unfolding mapped_def by (intro guarantees_intro same.guarantees_catchP same.guarantees_pure)

lemma mappedRecords_same [guarantees_intro]: "guarantees (same_apps view other) (mappedRecords c q)"
  unfolding mappedRecords_def by (intro guarantees_intro same.guarantees_bindP same.guarantees_pure)

lemma pagedRecords_same [guarantees_intro]: "guarantees (same_apps view other) (pagedRecords c q)"
  unfolding pagedRecords_def by (intro same.guarantees_pagedFrom clientRecords_same)

lemma onlyRecord_same [guarantees_intro]: "guarantees (same_apps view other) (onlyRecord decode records)"
  unfolding onlyRecord_def repositoryError_def by (intro same.guarantees_case_list same.guarantees_pure)

lemma optionalRecord_same [guarantees_intro]: "guarantees (same_apps view other) (optionalRecord decode records)"
  unfolding optionalRecord_def repositoryError_def by (intro same.guarantees_case_list same.guarantees_pure)

lemma requiredByRecordKey_same [guarantees_intro]: "guarantees (same_apps view other) (requiredByRecordKey c k decode)"
  unfolding requiredByRecordKey_def by (intro same.guarantees_bindP guarantees_intro)

lemma clientRecords_answer:
  assumes "mappedRecords c q s = (Inr xs, t) \<or> clientRecords c q s = (Inr xs, t)"
  shows "getRecords (kt_fetch c) (kt_app c) q s = (Inr (Some (JArr xs)), t)"
  using assms by (auto simp: mappedRecords_def clientRecords_def mapped_def catchP_def bindP_run recordArray_def
      split: prod.splits sum.splits option.splits json.splits)

lemma requiredByRecordKey_found:
  assumes "requiredByRecordKey c k decode s = (Inr v, t)"
  obtains x where "view s k = Some x" "versionedRecord decode x = Inr v" "view t = view s" "other t = other s"
proof -
  from assms obtain xs u where m: "mappedRecords c (inQuery ''record_key'' k) s = (Inr xs, u)" and o: "onlyRecord decode xs u = (Inr v, t)"
    unfolding requiredByRecordKey_def bindP_Inr_iff by blast
  have "xs = (case view s k of None \<Rightarrow> [] | Some x \<Rightarrow> [x])"
    using clientRecords_answer [OF disjI1 [OF m]] by (rule answer_of_key)
  moreover have "view u = view s" "other u = other s"
    using guaranteesD [OF mappedRecords_same m] by (auto simp: same_apps_def)
  ultimately show thesis
    using o that by (auto simp: onlyRecord_def repositoryError_def split: option.splits)
qed

lemma app_put:
  assumes "put c k n fs s = (r, t)"
  shows "put_effect view other k n fs (r = Inr ()) s t"
proof -
  let ?fs = "filter (\<lambda>f. fst f \<noteq> ''record_key'') fs"
  have key: "mapGet ?fs ''record_key'' = None" by (induction fs) auto
  obtain p u where p: "putRecord (kt_fetch c) (kt_app c) k (Finite (of_int n)) (fieldsRecord ?fs) s = (p, u)" by fastforce
  have "guarantees (same_apps view other) (adjudicateUpdate c k n e)" for e
    unfolding adjudicateUpdate_def by (intro guarantees_intro same.guarantees_if same.guarantees_bindP same.guarantees_pure same.guarantees_catchP)
  then have adjudicated: "same_apps view other u t \<and> r \<noteq> Inr ()" if "p = Inl e" for e
    using assms p that
    by (auto simp: put_def catchP_def bindP_run intro: guaranteesD)
      (auto simp: adjudicateUpdate_def bindP_run split: if_splits prod.splits sum.splits)
  show ?thesis
  proof (cases p)
    case (Inl e)
    with adjudicated update [OF p key] show ?thesis by (auto simp: put_effect_def same_apps_def)
  next
    case (Inr x)
    with assms p have "r = Inr ()" "t = u" by (simp_all add: put_def)
    with update [OF p key] Inr show ?thesis by (auto simp: put_effect_def)
  qed
qed

text \<open>What an insert that returns has found: its own record, or one that was there and is the same.\<close>

lemma app_create:
  assumes run: "createWithAdjudication c k fs decode same mm s = (r, t)" and key: "mapGet fs ''record_key'' = Some (JStr k)"
  shows "insert_effect view other k fs s t"
    and "r = Inr v \<Longrightarrow> (\<exists>x. view t k = Some x \<and> versionedRecord decode x = Inr v \<and> same (content v)) \<or>
      (\<exists>x. view s k = None \<and> view t = (view s)(k \<mapsto> x) \<and> holds_fields fs x \<and> createdRecord decode fs (revisionOf x) = Inr v)"
proof -
  obtain p u where p: "postRecord (kt_fetch c) (kt_app c) (fieldsRecord fs) s = (p, u)" by fastforce
  have eff: "insert_effect view other k fs s u" using insert [OF p key] by (auto simp: insert_effect_def)
  have "guarantees (same_apps view other) (adjudicateInsert c k decode same mm e)" for e
    unfolding adjudicateInsert_def Let_def
    by (intro guarantees_intro same.guarantees_if same.guarantees_bindP same.guarantees_pure same.guarantees_case_list
        same.guarantees_case_option)
  then have adj: "same_apps view other u t" if "adjudicateInsert c k decode same mm e u = (r, t)" for e
    using that guaranteesD by metis
  have cases: "(\<exists>e. adjudicateInsert c k decode same mm e u = (r, t)) \<or>
      (\<exists>b. p = Inr b \<and> r = createdRecord decode fs (snd b) \<and> (\<exists>v. r = Inr v) \<and> t = u)"
    using run p by (cases p) (auto simp: createWithAdjudication_def catchP_def bindP_run split: sum.splits, metis)
  then show "insert_effect view other k fs s t"
    using eff adj by (auto simp: insert_effect_def same_apps_def)
  assume r: "r = Inr v"
  from cases show "(\<exists>x. view t k = Some x \<and> versionedRecord decode x = Inr v \<and> same (content v)) \<or>
      (\<exists>x. view s k = None \<and> view t = (view s)(k \<mapsto> x) \<and> holds_fields fs x \<and> createdRecord decode fs (revisionOf x) = Inr v)"
  proof (elim disjE exE conjE)
    fix e
    assume e: "adjudicateInsert c k decode same mm e u = (r, t)"
    with r obtain xs u' where m: "mappedRecords c (inQuery ''record_key'' k) u = (Inr xs, u')"
      and x: "\<exists>x. xs = [x] \<and> versionedRecord decode x = Inr v \<and> same (content v)"
      by (auto simp: adjudicateInsert_def bindP_run Let_def split: if_splits prod.splits sum.splits list.splits option.splits)
    have "xs = (case view u k of None \<Rightarrow> [] | Some x \<Rightarrow> [x])"
      using clientRecords_answer [OF disjI1 [OF m]] by (rule answer_of_key)
    with x adj [OF e] show ?thesis by (auto simp: same_apps_def split: option.splits)
  next
    fix b v'
    assume b: "p = Inr b" "r = createdRecord decode fs (snd b)" "t = u"
    with insert [OF p key] r show ?thesis by fastforce
  qed
qed

end

section \<open>Both apps\<close>

definition lifecycle_kept :: "(string \<times> json) list \<Rightarrow> bool" where
  "lifecycle_kept fs \<longleftrightarrow> (case mapGet (filter (\<lambda>f. fst f \<noteq> ''record_key'') fs) ''lifecycle_status'' of
     None \<Rightarrow> True | Some v \<Rightarrow> v = JStr ''ARCHIVED'')"

lemma lifecycle_field: "''lifecycle_status'' \<in> appFields" "''lifecycle_status'' \<notin> dateFields"
  by (simp_all add: appFields_def dateFields_def)

lemma updated_lifecycle:
  assumes "updated_by (filter (\<lambda>f. fst f \<noteq> ''record_key'') fs) x y" "lifecycle_kept fs" "fieldText x ''lifecycle_status'' = ''ARCHIVED''"
  shows "fieldText y ''lifecycle_status'' = ''ARCHIVED''"
proof (cases "mapGet (filter (\<lambda>f. fst f \<noteq> ''record_key'') fs) ''lifecycle_status''")
  case None
  with assms(1) lifecycle_field have "fieldValue y ''lifecycle_status'' = fieldValue x ''lifecycle_status''"
    by (auto simp: updated_by_def)
  with assms(3) show ?thesis by (simp add: fieldText_def)
next
  case (Some v)
  with assms(1) lifecycle_field have "kept_as ''lifecycle_status'' v y" by (auto simp: updated_by_def holds_fields_def)
  with Some assms(2) show ?thesis by (simp add: kept_as_def lifecycle_field lifecycle_kept_def textOfJson_def sentText_def)
qed

lemma put_effect_evolves:
  assumes "put_effect view other k n fs d s t" "\<And>x. view s k = Some x \<Longrightarrow> \<not> frozen k x" "lifecycle_kept fs"
  shows "app_evolves (view s) (view t)" "other t = other s"
proof -
  show "other t = other s" using assms(1) by (simp add: put_effect_def)
  from assms(1) consider "view t = view s"
    | x y where "view s k = Some x" "revisionOf x = Finite (of_int n)" "view t = (view s)(k \<mapsto> y)"
        "revisionOf y = Finite (of_int (n + 1))" "updated_by (filter (\<lambda>f. fst f \<noteq> ''record_key'') fs) x y"
    unfolding put_effect_def by blast
  then show "app_evolves (view s) (view t)"
  proof cases
    case 2
    moreover have "revised x y"
      unfolding revised_def using 2(2,4) by (intro exI [of _ n] exI [of _ "n + 1"]) simp
    ultimately have "record_may_become k x y"
      using assms(2) updated_lifecycle [OF 2(5) assms(3)] by (auto simp: record_may_become_def)
    then show ?thesis using 2(1) unfolding 2(3) by (rule app_evolves_update [rotated])
  qed simp
qed

lemma insert_effect_evolves:
  "insert_effect view other k fs s t \<Longrightarrow> app_evolves (view s) (view t) \<and> other t = other s"
  unfolding insert_effect_def using app_evolves_insert [of "view s"] by (metis app_evolves_refl)

lemma fromText_Some: "fromText f vs x = Some v \<Longrightarrow> f v = x"
  by (auto simp: fromText_def find_Some_iff)

lemma statusOf_Inr: "statusOf x = Inr st \<Longrightarrow> x = statusText st"
  by (auto simp: statusOf_def someE_def dest: fromText_Some split: option.splits)

lemma statusOf_statusText [simp]: "statusOf (statusText st) = Inr st"
  by (cases st) (simp_all add: statusOf_def fromText_def)

lemma versionedRecord_Inr:
  "versionedRecord decode x = Inr v \<longleftrightarrow> decode x = Inr (content v) \<and> integerOf (revisionOf x) = Inr (revision v)"
  by (cases v) (auto simp: versionedRecord_def bindE_Inr_iff versioned_def)

lemma decoded_status:
  "decodeAttempt x = Inr v \<Longrightarrow> fieldText x ''status'' = statusText (na_status v)"
  "decodeInvocation x = Inr i \<Longrightarrow> fieldText x ''status'' = statusText (ri_status i)"
  "decodeState x = Inr n \<Longrightarrow> fieldText x ''status'' = statusText (ns_status n)"
  "decodeRun x = Inr r \<Longrightarrow> fieldText x ''status'' = statusText (nr_status r)"
  by (auto simp: decodeAttempt_def decodeInvocation_def decodeState_def decodeRun_def bindE_Inr_iff dest!: statusOf_Inr)

lemma run_key_not_frozen: "runRecordKey digest run = Inr k \<Longrightarrow> \<not> frozen k x"
  by (auto simp: runRecordKey_def runKey_Inr canonicalKey_Inr frozen_def)

lemma other_keys_not_frozen: "\<not> frozen (stateKey k) x" "\<not> frozen (cancelKey k) x"
  by (simp_all add: stateKey_def cancelKey_def frozen_def)

lemma running_not_frozen: "fieldText x ''status'' = ''RUNNING'' \<Longrightarrow> \<not> frozen (attemptRecordKey i) x"
  "fieldText x ''status'' \<in> {''RUNNING'', ''CREATED''} \<Longrightarrow> \<not> frozen (invocationKey i) x"
  by (auto simp: attemptRecordKey_def invocationKey_def frozen_def)

sublocale kintone_service \<subseteq> hist: state_order "kintone_history sv av"
  by (rule kintone_order)

context kintone_service
begin

lemma state_same: "guarantees (same_apps sv av) m \<Longrightarrow> guarantees (kintone_history sv av) m"
  by (auto simp: guarantees_def same_apps_def kintone_history_def)

lemma audit_same: "guarantees (same_apps av sv) m \<Longrightarrow> guarantees (kintone_history sv av) m"
  by (auto simp: guarantees_def same_apps_def kintone_history_def)

lemma queries [guarantees_intro]:
  "guarantees (kintone_history sv av) (clientRecords (ka_state a) q)"
  "guarantees (kintone_history sv av) (mappedRecords (ka_state a) q)"
  "guarantees (kintone_history sv av) (mapped (pagedRecords (ka_state a) q))"
  "guarantees (kintone_history sv av) (requiredByRecordKey (ka_state a) k decode)"
  "guarantees (kintone_history sv av) (onlyRecord decode xs)"
  "guarantees (kintone_history sv av) (optionalRecord decode' xs)"
  by (intro state_same state.clientRecords_same state.mappedRecords_same state.mapped_same state.pagedRecords_same
      state.requiredByRecordKey_same state.onlyRecord_same state.optionalRecord_same)+

lemma audit_queries [guarantees_intro]:
  "guarantees (kintone_history sv av) (clientRecords (ka_audit a) q)"
  "guarantees (kintone_history sv av) (mappedRecords (ka_audit a) q)"
  "guarantees (kintone_history sv av) (mapped (pagedRecords (ka_audit a) q))"
  "guarantees (kintone_history sv av) (requiredByRecordKey (ka_audit a) k decode)"
  by (intro audit_same audit.clientRecords_same audit.mappedRecords_same audit.mapped_same audit.pagedRecords_same
      audit.requiredByRecordKey_same)+

lemma inserts [guarantees_intro]:
  "mapGet fs ''record_key'' = Some (JStr k) \<Longrightarrow>
     guarantees (kintone_history sv av) (createWithAdjudication (ka_state a) k fs decode same mm)"
  "mapGet fs ''record_key'' = Some (JStr k) \<Longrightarrow>
     guarantees (kintone_history sv av) (createWithAdjudication (ka_audit a) k fs decode same mm)"
  unfolding guarantees_def kintone_history_def
  by (metis insert_effect_evolves app_evolves_refl prod.collapse state.app_create(1))
    (metis insert_effect_evolves app_evolves_refl prod.collapse audit.app_create(1))

text \<open>An update is given the state it starts in, where its target is not frozen.\<close>

lemma state_put:
  assumes "\<And>x. sv s k = Some x \<Longrightarrow> \<not> frozen k x" "lifecycle_kept fs"
  shows "kintone_history sv av s (snd (putAs (ka_state a) k n fs v s))"
proof -
  obtain r t where p: "put (ka_state a) k n fs s = (r, t)" by fastforce
  then have "snd (putAs (ka_state a) k n fs v s) = t" by (cases r) (simp_all add: putAs_def bindP_run)
  with put_effect_evolves [OF state.app_put [OF p] assms] show ?thesis by (simp add: kintone_history_def)
qed

lemma audit_put:
  assumes "\<And>x. av s k = Some x \<Longrightarrow> \<not> frozen k x" "lifecycle_kept fs"
  shows "kintone_history sv av s (snd (putAs (ka_audit a) k n fs v s))"
proof -
  obtain r t where p: "put (ka_audit a) k n fs s = (r, t)" by fastforce
  then have "snd (putAs (ka_audit a) k n fs v s) = t" by (cases r) (simp_all add: putAs_def bindP_run)
  with put_effect_evolves [OF audit.app_put [OF p] assms] show ?thesis by (simp add: kintone_history_def)
qed

lemma state_put_keeps:
  "(\<And>x. \<not> frozen k x) \<Longrightarrow> lifecycle_kept fs \<Longrightarrow> guarantees (kintone_history sv av) (putAs (ka_state a) k n fs v)"
  by (simp add: guarantees_def state_put)

lemma required_keeps:
  assumes "\<And>s v x. av s k = Some x \<Longrightarrow> decode x = Inr (content v) \<Longrightarrow> kintone_history sv av s (snd (f v s))"
  shows "guarantees (kintone_history sv av) (bindP (requiredByRecordKey (ka_audit a) k decode) f)"
  unfolding guarantees_def
proof
  fix s
  obtain r u where r: "requiredByRecordKey (ka_audit a) k decode s = (r, u)" by fastforce
  have u: "av u = av s" "sv u = sv s"
    using guaranteesD [OF audit.requiredByRecordKey_same r] by (simp_all add: same_apps_def)
  show "kintone_history sv av s (snd (bindP (requiredByRecordKey (ka_audit a) k decode) f s))"
  proof (cases r)
    case (Inl e)
    with r u show ?thesis by (simp add: kintone_history_def)
  next
    case (Inr v)
    with r obtain x where "av s k = Some x" "decode x = Inr (content v)"
      by (auto elim: audit.requiredByRecordKey_found simp: versionedRecord_Inr)
    with assms [of u x v] u r Inr show ?thesis by (simp add: kintone_history_def)
  qed
qed

end

lemma lifecycle_kept_simps [simp]:
  "lifecycle_kept (aggregateFields u)" "lifecycle_kept (finalizationFields f)" "lifecycle_kept (stateFields j k v)"
  "lifecycle_kept (attemptFields j i k w)" "lifecycle_kept (filter (\<lambda>f. fst f = ''status_reason'') fs)"
  "lifecycle_kept [(''lifecycle_status'', JStr ''ARCHIVED''), (''updated_at'', JStr t)]"
  "lifecycle_kept [(''execution_started_at'', d)]" "lifecycle_kept [(''error_message'', d)]"
proof -
  show "lifecycle_kept (filter (\<lambda>f. fst f = ''status_reason'') fs)"
    by (auto simp: lifecycle_kept_def dest!: map_of_SomeD split: option.splits)
qed (simp_all add: lifecycle_kept_def aggregateFields_def finalizationFields_def stateFields_def attemptFields_def optionalField_def
      map_add_def split: option.splits)

lemma stateRecord_Inr: "stateRecord v = Inr fs \<Longrightarrow> fs = stateFields (stateKey (ns_node_state_key v)) (ns_node_state_key v) v"
  by (auto simp: stateRecord_def stateKey_def bindE_Inr_iff uniqueKey_def split: if_splits)

lemma attemptRecord_Inr:
  "attemptRecord v = Inr fs \<Longrightarrow> fs = attemptFields (attemptRecordKey (na_node_attempt_id v)) (na_node_attempt_id v) (na_attempt_key v) v"
  by (auto simp: attemptRecord_def attemptRecordKey_def bindE_Inr_iff uniqueKey_def split: if_splits)

lemma record_keys:
  "runRecordKey digest run = Inr k \<Longrightarrow> runRecord digest run = Inr fs \<Longrightarrow> mapGet fs ''record_key'' = Some (JStr k)"
  "cancelRequestRecord c = Inr fs \<Longrightarrow> mapGet fs ''record_key'' = Some (JStr (cancelKey (cr_run_id c)))"
  "invocationRecord v = Inr fs \<Longrightarrow> mapGet fs ''record_key'' = Some (JStr (invocationKey (ri_invocation_id v)))"
  "stateRecord n = Inr fs \<Longrightarrow> mapGet fs ''record_key'' = Some (JStr (stateKey (ns_node_state_key n)))"
  "attemptRecord w = Inr fs \<Longrightarrow> mapGet fs ''record_key'' = Some (JStr (attemptRecordKey (na_node_attempt_id w)))"
  "mapGet (resolutionFields k r) ''record_key'' = Some (JStr k)"
  "mapGet (auditFields k oa) ''record_key'' = Some (JStr k)"
  by (auto simp: runRecord_def runFields_def cancelRequestRecord_def cancelKey_def invocationRecord_def invocationKey_def stateFields_def
      attemptFields_def resolutionFields_def auditFields_def bindE_Inr_iff uniqueKey_def split: if_splits
      dest!: stateRecord_Inr attemptRecord_Inr)

context state_order
begin

lemma guarantees_bind_liftP: "(\<And>x. r = Inr x \<Longrightarrow> guarantees T (f x)) \<Longrightarrow> guarantees T (bindP (liftP r) f)"
  by (cases r) (auto simp: guarantees_def T_refl bindP_run)

end

text \<open>The methods one by one.\<close>

context kintone_service
begin

lemma required_parts [guarantees_intro]:
  "guarantees (kintone_history sv av) (requiredRunById a i)"
  "guarantees (kintone_history sv av) (correlatedResolution hex a e)"
  "guarantees (kintone_history sv av) (confirmAttempt a v err)"
  "guarantees (kintone_history sv av) (repositoryError code)"
  unfolding requiredRunById_def correlatedResolution_def confirmAttempt_def repositoryError_def Let_def
  by (intro guarantees_intro hist.guarantees_bindP)+

lemma create_methods:
  "guarantees (kintone_history sv av) (kt_createRun digest a run)"
  "guarantees (kintone_history sv av) (kt_createCancelRequest a c)"
  "guarantees (kintone_history sv av) (kt_createInvocation a v)"
  "guarantees (kintone_history sv av) (createState a n)"
  "guarantees (kintone_history sv av) (kt_createAttempt digest a input)"
  "guarantees (kintone_history sv av) (kt_appendResolution hex a r)"
  "guarantees (kintone_history sv av) (kt_appendOperationAudit a oa)"
proof -
  have attempt: "guarantees (kintone_history sv av) (insertAttempt a w)" for w
    unfolding insertAttempt_def by (intro hist.guarantees_bind_liftP inserts record_keys)
  show "guarantees (kintone_history sv av) (kt_createAttempt digest a input)"
    unfolding kt_createAttempt_def Let_def
    by (intro hist.guarantees_bindP hist.guarantees_pure hist.guarantees_catchP attempt)
      (auto split: js_error.splits intro: hist.guarantees_pure required_parts)
qed (unfold kt_createRun_def kt_createCancelRequest_def kt_createInvocation_def createState_def kt_appendResolution_def Let_def
       kt_appendOperationAudit_def requiredAttempt_def,
     (intro hist.guarantees_if required_parts hist.guarantees_bindP [OF audit_queries(4)] hist.guarantees_bind_liftP inserts record_keys;
       assumption?)+)

lemma run_updates:
  "guarantees (kintone_history sv av) (kt_updateRunAggregate digest a i n u)"
  "guarantees (kintone_history sv av) (kt_archiveRun digest a i n t)"
  "guarantees (kintone_history sv av) (kt_updateCancelRequest a i n c)"
  "guarantees (kintone_history sv av) (kt_upsertNodeState hex a w)"
  unfolding kt_updateRunAggregate_def kt_archiveRun_def kt_updateCancelRequest_def kt_upsertNodeState_def Let_def
  by (intro hist.guarantees_bindP [OF required_parts(1)] hist.guarantees_bindP [OF required_parts(2)]
      hist.guarantees_bindP [OF queries(4)] hist.guarantees_case_option create_methods
      hist.guarantees_if required_parts hist.guarantees_bind_liftP state_put_keeps;
      auto simp: other_keys_not_frozen dest: run_key_not_frozen stateRecord_Inr)+

lemma audit_updates:
  "guarantees (kintone_history sv av) (kt_finalizeInvocation a i n f)"
  "guarantees (kintone_history sv av) (kt_setAttemptExecutionStarted a i n t)"
  "guarantees (kintone_history sv av) (kt_setAttemptInputBaseline a i n m)"
  "guarantees (kintone_history sv av) (kt_finalizeAttempt a i n g)"
  unfolding kt_finalizeInvocation_def kt_setAttemptExecutionStarted_def kt_setAttemptInputBaseline_def kt_finalizeAttempt_def
    requiredAttempt_def
  by (intro required_keeps; auto simp: repositoryError_def Let_def bindP_run hist.T_refl dest!: decoded_status attemptRecord_Inr
      intro!: audit_put running_not_frozen split: sum.splits)+

lemma read_methods:
  "guarantees (kintone_history sv av) (requiredRunById a i)"
  "guarantees (kintone_history sv av) (kt_getRunByBusinessKey digest a i j k)"
  "guarantees (kintone_history sv av) (kt_listRuns collate a i j)"
  "guarantees (kintone_history sv av) (kt_getCancelRequest a i)"
  "guarantees (kintone_history sv av) (kt_getInvocations a i)"
  "guarantees (kintone_history sv av) (kt_getNodeStates a i)"
  "guarantees (kintone_history sv av) (kt_getAttempts a i)"
  "guarantees (kintone_history sv av) (kt_getResolutions a i)"
  "guarantees (kintone_history sv av) (kt_getOperationAuditByEventId a i)"
  "guarantees (kintone_history sv av) (kt_listInconsistencies a i)"
  unfolding kt_getRunByBusinessKey_def kt_listRuns_def kt_getCancelRequest_def kt_getInvocations_def kt_getNodeStates_def
    kt_getAttempts_def kt_getResolutions_def kt_getOperationAuditByEventId_def kt_listInconsistencies_def Let_def
  by (intro required_parts hist.guarantees_bindP hist.guarantees_catchP hist.guarantees_if hist.guarantees_pure
      hist.guarantees_case_option queries audit_queries)+

end

text \<open>The kintone repository provides the contract that every client is verified against.\<close>

lemma kintone_contract:
  assumes "kintone_service a sv av"
  shows "repository_contract (kintone_history sv av) (kintone_repository digest hex collate a)"
proof (intro repository_contract.intro kintone_order repository_contract_axioms.intro)
qed (simp_all add: kintone_repository_def kintone_service.create_methods [OF assms] kintone_service.run_updates [OF assms]
       kintone_service.audit_updates [OF assms] kintone_service.read_methods [OF assms])

sublocale kintone_service \<subseteq> kintone: repository_contract "kintone_history sv av" "kintone_repository digest hex collate a"
  for digest hex collate
  by (rule kintone_contract) (rule kintone_service_axioms)

end
