(* ===== verification/KintoneCodecProps.thy ===== *)
theory KintoneCodecProps
  imports InputBaseline KintoneContract
begin

text \<open>
  What is written to an app reads back: each reader of a field against each way to write it, the round trips of the
  record codecs, and the updates of single fields. A date comes back as some date, so the round trips are up to dates
  (\<open>undatedAttempt\<close> and so on forget them), and an optional text must not be the empty text, which a field cannot tell from
  an absent one.
\<close>

section \<open>Readers against writers\<close>

definition plainField :: "string \<Rightarrow> bool" where
  "plainField c \<longleftrightarrow> c \<in> appFields \<and> c \<notin> dateFields \<and> c \<noteq> ''source_bundle_attachment''"

definition someDate :: "string option \<Rightarrow> string option" where
  "someDate = map_option (\<lambda>_. [])"

lemma someDate_simps [simp]: "someDate None = None" "someDate (Some x) = Some []" "someDate z = None \<longleftrightarrow> z = None"
  by (simp_all add: someDate_def)

lemma kept: "holds_fields fs x \<Longrightarrow> plainField c \<Longrightarrow> mapGet fs c = Some v \<Longrightarrow> fieldText x c = sentText v \<and>
    (noNumber (Some v) \<longleftrightarrow> noNumber (fieldValue x c)) \<and> (\<forall>n. v = JNum n \<longrightarrow> fieldNumber x c = Finite n)"
  by (fastforce simp: holds_fields_def kept_as_def plainField_def)

lemma text_back: "holds_fields fs x \<Longrightarrow> plainField c \<Longrightarrow> mapGet fs c = Some (JStr s) \<Longrightarrow> fieldText x c = s"
  by (drule (2) kept) (simp add: sentText_def textOfJson_def)

lemma nullable_back: "holds_fields fs x \<Longrightarrow> plainField c \<Longrightarrow> mapGet fs c = Some (textField s) \<Longrightarrow> s \<noteq> Some [] \<Longrightarrow> nullableText x c = s"
  using text_back [of fs x c "orElse s []"] by (cases s) (auto simp: nullableText_def textField_def orElse_def)

lemma dates_are_fields: "c \<in> dateFields \<Longrightarrow> c \<in> appFields"
  unfolding dateFields_def by (elim insertE emptyE; simp add: appFields_def)

lemma date_back:
  "holds_fields fs x \<Longrightarrow> c \<in> dateFields \<Longrightarrow> mapGet fs c = Some (textField s) \<Longrightarrow> s \<noteq> Some [] \<Longrightarrow> someDate (nullableText x c) = someDate s"
  using dates_are_fields [of c]
  by (cases s) (auto simp: holds_fields_def kept_as_def nullableText_def textField_def orElse_def sentText_def textOfJson_def Let_def)

lemma number_back: "holds_fields fs x \<Longrightarrow> plainField c \<Longrightarrow> mapGet fs c = Some (jsonInt n) \<Longrightarrow> numberValue x c = Inr n"
  by (drule (2) kept) (simp add: numberValue_def integerOf_def jsonInt_def)

lemma nullableInteger_back: "holds_fields fs x \<Longrightarrow> plainField c \<Longrightarrow> mapGet fs c = Some (integerField n) \<Longrightarrow> nullableInteger x c = Inr n"
  by (drule (2) kept)
    (auto simp: nullableInteger_def numberValue_def integerOf_def integerField_def jsonInt_def noNumber_def split: option.splits)

lemma nullableNumber_back: "holds_fields fs x \<Longrightarrow> plainField c \<Longrightarrow> mapGet fs c = Some (numberField n) \<Longrightarrow> nullableNumber x c = Inr n"
  by (drule (2) kept) (auto simp: nullableNumber_def numberField_def noNumber_def split: option.splits)

lemma strings_back: "holds_fields fs x \<Longrightarrow> plainField c \<Longrightarrow> mapGet fs c = Some (JStr (stringify (jsonStrings xs))) \<Longrightarrow> jsonArray x c = Inr xs"
proof -
  have "those (map stringOfJson (map JStr xs)) = Some xs" by (induction xs) simp_all
  moreover have "parseJson (stringify (jsonStrings xs)) = Some (jsonStrings xs)"
    by (rule parse_after_stringify) (simp add: jsonStrings_def)
  ultimately show "holds_fields fs x \<Longrightarrow> plainField c \<Longrightarrow> mapGet fs c = Some (JStr (stringify (jsonStrings xs))) \<Longrightarrow> jsonArray x c = Inr xs"
    by (auto dest!: text_back simp: jsonArray_def parsedField_def jsonStrings_def)
qed

lemma same_value:
  assumes "fieldValue y c = fieldValue x c"
  shows "fieldText y c = fieldText x c" "nullableText y c = nullableText x c" "numberValue y c = numberValue x c"
    "nullableInteger y c = nullableInteger x c" "nullableNumber y c = nullableNumber x c" "jsonArray y c = jsonArray x c"
    "parsedField y c = parsedField x c"
  using assms by (simp_all add: fieldText_def nullableText_def numberValue_def fieldNumber_def nullableInteger_def nullableNumber_def
      jsonArray_def parsedField_def)

lemma untouched: "updated_by fs x y \<Longrightarrow> c \<in> appFields \<Longrightarrow> mapGet fs c = None \<Longrightarrow> fieldValue y c = fieldValue x c"
  by (simp add: updated_by_def)

section \<open>Round trips\<close>

definition undatedAttempt :: "node_attempt \<Rightarrow> node_attempt" where
  "undatedAttempt v = v\<lparr> na_execution_started_at := someDate (na_execution_started_at v),
     na_runner_execution_started_at := someDate (na_runner_execution_started_at v),
     na_finished_at := someDate (na_finished_at v) \<rparr>"

definition undatedInvocation :: "run_invocation \<Rightarrow> run_invocation" where
  "undatedInvocation v = v\<lparr> ri_started_at := [], ri_finished_at := someDate (ri_finished_at v) \<rparr>"

definition undatedState :: "node_state \<Rightarrow> node_state" where
  "undatedState v = v\<lparr> ns_started_at := someDate (ns_started_at v), ns_finished_at := someDate (ns_finished_at v), ns_updated_at := [] \<rparr>"

text \<open>The attachment comes back under the name of the uploaded file.\<close>

definition undatedRun :: "network_run \<Rightarrow> network_run" where
  "undatedRun v = v\<lparr> nr_as_of := someDate (nr_as_of v), nr_created_at := [], nr_started_at := someDate (nr_started_at v),
     nr_finished_at := someDate (nr_finished_at v), nr_updated_at := [], nr_source_bundle_attachment := [] \<rparr>"

definition writable_attempt :: "node_attempt \<Rightarrow> bool" where
  "writable_attempt v \<longleftrightarrow> Some [] \<notin> {na_execution_started_at v, na_runner_execution_started_at v, na_execution_id v, na_finished_at v,
     na_error_message v, na_last_written_key v}"

definition writable_invocation :: "run_invocation \<Rightarrow> bool" where
  "writable_invocation v \<longleftrightarrow> ri_finished_at v \<noteq> Some []"

definition writable_state :: "node_state \<Rightarrow> bool" where
  "writable_state v \<longleftrightarrow> Some [] \<notin> {ns_active_attempt_id v, ns_status_reason v, ns_started_at v, ns_finished_at v}"

lemma plainFieldI: "c \<in> set (KINTONE_FIELD_MAP ty) \<Longrightarrow> c \<notin> dateFields \<Longrightarrow> c \<noteq> ''source_bundle_attachment'' \<Longrightarrow> plainField c"
  by (cases ty) (auto simp: plainField_def appFields_def)

lemma plain_node_attempt [simp]:
  "plainField ''run_id''" "plainField ''status''" "plainField ''result_code''" "plainField ''node_attempt_id''"
  "plainField ''attempt_key''" "plainField ''node_id''" "plainField ''job_id''" "plainField ''invocation_id''"
  "plainField ''attempt_no''" "plainField ''execution_id''" "plainField ''duration_sec''"
  "plainField ''error_message''" "plainField ''read_count''" "plainField ''written_count''"
  "plainField ''last_successful_chunk_no''" "plainField ''last_written_key''" "plainField ''state_revision_before''"
  by (rule plainFieldI [of _ R_NODE_ATTEMPT]; simp add: dateFields_def)+

lemma plain_run_invocation [simp]:
  "plainField ''mode''" "plainField ''requested_by''" "plainField ''host''" "plainField ''selected_node_ids''"
  "plainField ''preserved_node_ids''" "plainField ''blocked_node_ids''" "plainField ''reason''"
  by (rule plainFieldI [of _ R_RUN_INVOCATION]; simp add: dateFields_def)+

lemma plain_node_state [simp]:
  "plainField ''revision''" "plainField ''node_state_id''" "plainField ''node_state_key''"
  "plainField ''latest_attempt_no''" "plainField ''active_attempt_id''" "plainField ''idempotent''"
  "plainField ''trigger_rule''" "plainField ''blocked_by''" "plainField ''status_reason''"
  by (rule plainFieldI [of _ R_NODE_STATE]; simp add: dateFields_def)+

lemma plain_network_run [simp]:
  "plainField ''network_id''" "plainField ''business_key''" "plainField ''max_active_runs''"
  "plainField ''lifecycle_status''" "plainField ''resume_allowed''" "plainField ''definition_schema_version''"
  "plainField ''definition_sha256''" "plainField ''source_bundle_sha256''" "plainField ''resolved_profile_snapshot''"
  "plainField ''resolved_profile_sha256''" "plainField ''ksql_flow_version''" "plainField ''engine_version''"
  "plainField ''dialect''" "plainField ''record_type''"
  by (rule plainFieldI [of _ R_NETWORK_RUN]; simp add: dateFields_def)+

lemma date_fields [simp]:
  "''as_of'' \<in> dateFields" "''created_at'' \<in> dateFields" "''started_at'' \<in> dateFields" "''finished_at'' \<in> dateFields"
  "''updated_at'' \<in> dateFields" "''execution_started_at'' \<in> dateFields" "''runner_execution_started_at'' \<in> dateFields"
  by (simp_all add: dateFields_def)

lemma triggerOf_triggerText [simp]: "triggerOf (triggerText t) = Inr t"
  by (cases t) (simp_all add: triggerOf_def fromText_def)

lemma modeOf_modeText [simp]: "modeOf (modeText m) = Inr m"
  by (cases m) (simp_all add: modeOf_def fromText_def)

lemma boolText_true [simp]: "boolText b = ''true'' \<longleftrightarrow> b"
  by (simp add: boolText_def)

text \<open>An update sends the fields without the record key.\<close>

abbreviation keyless :: "(string \<times> json) list \<Rightarrow> (string \<times> json) list" where
  "keyless fs \<equiv> filter (\<lambda>f. fst f \<noteq> ''record_key'') fs"

lemma keyless_get: "mapGet (keyless fs) c = (if c = ''record_key'' then None else mapGet fs c)"
  by (induction fs) auto

lemma holds_keyless: "holds_fields fs x \<Longrightarrow> holds_fields (keyless fs) x"
  by (auto simp: holds_fields_def keyless_get split: if_splits)

lemma attempt_back:
  assumes "holds_fields (keyless (attemptFields k i key v)) x" "writable_attempt v"
  shows "\<exists>w. decodeAttempt x = Inr w \<and> undatedAttempt w = undatedAttempt (v\<lparr> na_node_attempt_id := i, na_attempt_key := key \<rparr>)"
proof -
  note fs = attemptFields_def
  have t: "fieldText x ''run_id'' = na_run_id v" "fieldText x ''status'' = statusText (na_status v)"
    "fieldText x ''result_code'' = na_result_code v" "fieldText x ''node_attempt_id'' = i" "fieldText x ''attempt_key'' = key"
    "fieldText x ''node_id'' = na_node_id v" "fieldText x ''job_id'' = na_job_id v" "fieldText x ''invocation_id'' = na_invocation_id v"
    by (rule text_back [OF assms(1)]; simp add: fs)+
  have n: "numberValue x ''attempt_no'' = Inr (na_attempt_no v)" "numberValue x ''read_count'' = Inr (na_read_count v)"
    "numberValue x ''written_count'' = Inr (na_written_count v)"
    by (rule number_back [OF assms(1)]; simp add: fs)+
  have o: "nullableText x ''execution_id'' = na_execution_id v" "nullableText x ''error_message'' = na_error_message v"
    "nullableText x ''last_written_key'' = na_last_written_key v"
    using assms(2) by (auto intro!: nullable_back [OF assms(1)] simp: fs writable_attempt_def)
  have m: "nullableNumber x ''duration_sec'' = Inr (na_duration_sec v)"
    "nullableInteger x ''last_successful_chunk_no'' = Inr (na_last_successful_chunk_no v)"
    "nullableInteger x ''state_revision_before'' = Inr (na_state_revision_before v)"
    by (rule nullableNumber_back [OF assms(1)] nullableInteger_back [OF assms(1)]; simp add: fs)+
  have e: "someDate (nullableText x ''finished_at'') = someDate (na_finished_at v)"
    "someDate (nullableText x ''execution_started_at'') = someDate (na_execution_started_at v)"
    "someDate (nullableText x ''runner_execution_started_at'') = someDate (na_runner_execution_started_at v)"
    using assms(2) by (auto intro!: date_back [OF assms(1)] simp: fs writable_attempt_def)
  show ?thesis by (simp add: decodeAttempt_def t n o m undatedAttempt_def e)
qed

lemma invocation_back:
  assumes "holds_fields fs x" "invocationRecord v = Inr fs" "writable_invocation v"
  shows "\<exists>w. decodeInvocation x = Inr w \<and> undatedInvocation w = undatedInvocation v"
proof -
  have fs: "fs = [(''record_key'', JStr (invocationKey (ri_invocation_id v))), (''record_type'', JStr ''RUN_INVOCATION''),
       (''run_id'', JStr (ri_run_id v)),
       (''started_at'', JStr (ri_started_at v)), (''finished_at'', textField (ri_finished_at v)),
       (''status'', JStr (statusText (ri_status v))), (''result_code'', JStr (ri_result_code v)),
       (''invocation_id'', JStr (ri_invocation_id v)), (''mode'', JStr (modeText (ri_mode v))),
       (''requested_by'', JStr (ri_requested_by v)), (''host'', JStr (ri_host v)),
       (''selected_node_ids'', JStr (stringify (jsonStrings (ri_selected_node_ids v)))),
       (''preserved_node_ids'', JStr (stringify (jsonStrings (ri_preserved_node_ids v)))),
       (''blocked_node_ids'', JStr (stringify (jsonStrings (ri_blocked_node_ids v)))), (''reason'', JStr (ri_reason v))]"
    using assms(2) by (auto simp: invocationRecord_def bindE_Inr_iff uniqueKey_def invocationKey_def split: if_splits)
  have t: "fieldText x ''run_id'' = ri_run_id v" "fieldText x ''status'' = statusText (ri_status v)"
    "fieldText x ''result_code'' = ri_result_code v" "fieldText x ''invocation_id'' = ri_invocation_id v"
    "fieldText x ''mode'' = modeText (ri_mode v)" "fieldText x ''requested_by'' = ri_requested_by v"
    "fieldText x ''host'' = ri_host v" "fieldText x ''reason'' = ri_reason v"
    by (rule text_back [OF assms(1)]; simp add: fs)+
  have j: "jsonArray x ''selected_node_ids'' = Inr (ri_selected_node_ids v)"
    "jsonArray x ''preserved_node_ids'' = Inr (ri_preserved_node_ids v)" "jsonArray x ''blocked_node_ids'' = Inr (ri_blocked_node_ids v)"
    by (rule strings_back [OF assms(1)]; simp add: fs)+
  have e: "someDate (nullableText x ''finished_at'') = someDate (ri_finished_at v)"
    using assms(3) by (auto intro!: date_back [OF assms(1)] simp: fs writable_invocation_def)
  show ?thesis by (simp add: decodeInvocation_def t j undatedInvocation_def e)
qed

lemma state_back:
  assumes "holds_fields (keyless (stateFields k key v)) x" "writable_state v"
  shows "\<exists>w. decodeState x = Inr w \<and> undatedState w = undatedState (v\<lparr> ns_node_state_key := key \<rparr>)"
proof -
  note fs = stateFields_def
  have t: "fieldText x ''run_id'' = ns_run_id v" "fieldText x ''status'' = statusText (ns_status v)"
    "fieldText x ''node_state_id'' = ns_node_state_id v" "fieldText x ''node_state_key'' = key"
    "fieldText x ''node_id'' = ns_node_id v" "fieldText x ''job_id'' = ns_job_id v"
    "fieldText x ''idempotent'' = boolText (ns_idempotent v)" "fieldText x ''trigger_rule'' = triggerText (ns_trigger_rule v)"
    by (rule text_back [OF assms(1)]; simp add: fs)+
  have n: "numberValue x ''revision'' = Inr (ns_revision v)" "numberValue x ''latest_attempt_no'' = Inr (ns_latest_attempt_no v)"
    by (rule number_back [OF assms(1)]; simp add: fs)+
  have o: "nullableText x ''active_attempt_id'' = ns_active_attempt_id v" "nullableText x ''status_reason'' = ns_status_reason v"
    using assms(2) by (auto intro!: nullable_back [OF assms(1)] simp: fs writable_state_def)
  have j: "jsonArray x ''blocked_by'' = Inr (ns_blocked_by v)"
    by (rule strings_back [OF assms(1)]; simp add: fs)
  have e: "someDate (nullableText x ''finished_at'') = someDate (ns_finished_at v)"
    "someDate (nullableText x ''started_at'') = someDate (ns_started_at v)"
    using assms(2) by (auto intro!: date_back [OF assms(1)] simp: fs writable_state_def)
  show ?thesis by (simp add: decodeState_def t n o j undatedState_def e)
qed

lemma appsOfMembers_back: "appsOfMembers (map (\<lambda>(k, n). (k, jsonInt n)) apps) = Inr apps"
  by (induction apps) (auto simp: jsonInt_def integerOf_def)

lemma nullableMember_back:
  "jsonGet v k = Some (nullableJson jsonInt n) \<Longrightarrow> nullableMember integerMember v k = Inr n"
  "jsonGet v k = Some (nullableJson JNum r) \<Longrightarrow> nullableMember numberMember v k = Inr r"
  by (cases n; cases r; simp add: nullableMember_def nullableJson_def integerMember_def numberMember_def jsonInt_def integerOf_def)+

lemma profile_back: "profileOfJson (profileJson p) = Inr p"
  by (simp add: profileOfJson_def profileJson_def textMember_def jsonGet_def appsMember_def appsOfMembers_back nullableMember_back)

lemma lifecycleOf_lifecycleText [simp]: "lifecycleOf (lifecycleText l) = Inr l"
  by (cases l) (simp_all add: lifecycleOf_def fromText_def)

text \<open>A profile whose numbers are safe integers and whose apps have distinct names. Other numbers (\<open>ensureRun\<close> admits
  fractional limits) have texts that the model does not follow digit by digit.\<close>

definition integral_profile :: "resolved_profile_snapshot \<Rightarrow> bool" where
  "integral_profile p \<longleftrightarrow> distinct (map fst (rp_apps p)) \<and> (\<forall>(_, n) \<in> set (rp_apps p). isSafeInteger n) \<and>
     (\<forall>n. rp_guest_space_id p = Some n \<longrightarrow> isSafeInteger n) \<and>
     (\<forall>r. Some r \<in> {rp_max_api_calls p, rp_max_read_rows p, rp_batch_timeout_sec p} \<longrightarrow> (\<exists>n. r = of_int n \<and> isSafeInteger n))"

definition writable_run :: "network_run \<Rightarrow> bool" where
  "writable_run v \<longleftrightarrow> Some [] \<notin> {nr_as_of v, nr_started_at v, nr_finished_at v} \<and>
     integral_profile (nr_resolved_profile_snapshot v)"

lemma plain_profile:
  assumes "integral_profile p"
  shows "plain_json (profileJson p)"
proof -
  have limit: "plain_json (nullableJson JNum l)" if "l \<in> {rp_max_api_calls p, rp_max_read_rows p, rp_batch_timeout_sec p}" for l
  proof (cases l)
    case (Some r)
    with that assms obtain n where "r = of_int n" "isSafeInteger n" unfolding integral_profile_def by metis
    with Some show ?thesis using plain_int [of n] by (simp add: nullableJson_def jsonInt_def)
  qed (simp add: nullableJson_def)
  have "plain_json (nullableJson jsonInt (rp_guest_space_id p))"
    using assms plain_int by (auto simp: integral_profile_def nullableJson_def split: option.splits)
  moreover have "plain_json (JObj (map (\<lambda>(k, n). (k, jsonInt n)) (rp_apps p)))"
    using assms plain_int by (auto simp: integral_profile_def comp_def case_prod_beta)
  ultimately show ?thesis using limit by (simp add: profileJson_def)
qed

lemma run_back:
  assumes "holds_fields (runFields key v) x" "writable_run v"
  shows "\<exists>w. decodeRun x = Inr w \<and> undatedRun w = undatedRun v"
proof -
  note fs = runFields_def
  have t: "fieldText x ''run_id'' = nr_run_id v" "fieldText x ''status'' = statusText (nr_status v)"
    "fieldText x ''network_id'' = nr_network_id v" "fieldText x ''business_key'' = nr_business_key v"
    "fieldText x ''lifecycle_status'' = lifecycleText (nr_lifecycle_status v)"
    "fieldText x ''resume_allowed'' = boolText (nr_resume_allowed v)" "fieldText x ''definition_sha256'' = nr_definition_sha256 v"
    "fieldText x ''source_bundle_sha256'' = nr_source_bundle_sha256 v"
    "fieldText x ''resolved_profile_snapshot'' = stringify (profileJson (nr_resolved_profile_snapshot v))"
    "fieldText x ''resolved_profile_sha256'' = nr_resolved_profile_sha256 v"
    "fieldText x ''ksql_flow_version'' = nr_ksql_flow_version v" "fieldText x ''engine_version'' = nr_engine_version v"
    by (rule text_back [OF assms(1)]; simp add: fs)+
  have n: "numberValue x ''max_active_runs'' = Inr (nr_max_active_runs v)" "numberValue x ''dialect'' = Inr (nr_dialect v)"
    "numberValue x ''definition_schema_version'' = Inr (nr_definition_schema_version v)"
    by (rule number_back [OF assms(1)]; simp add: fs)+
  have e: "someDate (nullableText x ''as_of'') = someDate (nr_as_of v)"
    "someDate (nullableText x ''started_at'') = someDate (nr_started_at v)"
    "someDate (nullableText x ''finished_at'') = someDate (nr_finished_at v)"
    using assms(2) by (auto intro!: date_back [OF assms(1)] simp: fs writable_run_def)
  have p: "parsedField x ''resolved_profile_snapshot'' = Inr (profileJson (nr_resolved_profile_snapshot v))"
    using assms(2) parse_after_stringify [OF plain_profile] by (simp add: parsedField_def t writable_run_def)
  show ?thesis by (simp add: decodeRun_def t n p profile_back undatedRun_def e)
qed

section \<open>Updates of single fields\<close>

lemma nullableText_nonempty [simp]: "nullableText x c \<noteq> Some []" "Some [] \<noteq> nullableText x c"
  by (simp_all add: nullableText_def Let_def)

lemma decoded_writable:
  "decodeAttempt x = Inr w \<Longrightarrow> writable_attempt w" "decodeInvocation x = Inr i \<Longrightarrow> writable_invocation i"
  "decodeState x = Inr n \<Longrightarrow> writable_state n"
  by (auto simp: decodeAttempt_def decodeInvocation_def decodeState_def bindE_Inr_iff writable_attempt_def writable_invocation_def
      writable_state_def)

lemma plain_is_field: "plainField c \<Longrightarrow> c \<in> appFields"
  by (simp add: plainField_def)

lemma untouched_readers:
  assumes "updated_by fs x y" "mapGet fs c = None" "plainField c \<or> c \<in> dateFields"
  shows "fieldText y c = fieldText x c" "nullableText y c = nullableText x c" "numberValue y c = numberValue x c"
    "nullableInteger y c = nullableInteger x c" "nullableNumber y c = nullableNumber x c" "jsonArray y c = jsonArray x c"
    "parsedField y c = parsedField x c"
  using untouched [OF assms(1)] assms(2,3) dates_are_fields plain_is_field by (metis same_value)+

lemma updated_holds: "updated_by fs x y \<Longrightarrow> holds_fields fs y"
  by (simp add: updated_by_def)

lemma start_back:
  assumes "updated_by (keyless [(''execution_started_at'', JStr t)]) x y" "decodeAttempt x = Inr w" "t \<noteq> []"
  shows "\<exists>w'. decodeAttempt y = Inr w' \<and> undatedAttempt w' = undatedAttempt (w\<lparr> na_execution_started_at := Some t \<rparr>)"
proof -
  have e: "someDate (nullableText y ''execution_started_at'') = Some []"
    using date_back [OF updated_holds [OF assms(1)], of "''execution_started_at''" "Some t"] assms(3)
    by (simp add: textField_def orElse_def)
  show ?thesis
    using assms(2) by (auto simp: decodeAttempt_def bindE_Inr_iff untouched_readers [OF assms(1)] undatedAttempt_def e)
qed

lemma baseline_back:
  assumes "updated_by (keyless [(''error_message'', JStr t)]) x y" "decodeAttempt x = Inr w" "t \<noteq> []"
  shows "\<exists>w'. decodeAttempt y = Inr w' \<and> undatedAttempt w' = undatedAttempt (w\<lparr> na_error_message := Some t \<rparr>)"
proof -
  have e: "nullableText y ''error_message'' = Some t"
    using nullable_back [OF updated_holds [OF assms(1)], of "''error_message''" "Some t"] assms(3)
    by (simp add: textField_def orElse_def)
  show ?thesis
    using assms(2) by (auto simp: decodeAttempt_def bindE_Inr_iff untouched_readers [OF assms(1)] undatedAttempt_def e)
qed

text \<open>A field that is sent only when it is given.\<close>

lemma optionalField_get: "mapGet (optionalField k g z) c = (if c = k then map_option g z else None)"
  by (cases z) (simp_all add: optionalField_def)

lemma finalization_field:
  "mapGet (keyless (finalizationFields f)) ''status'' = Some (JStr (statusText (if_status f)))"
  "mapGet (keyless (finalizationFields f)) ''result_code'' = Some (JStr (if_result_code f))"
  "mapGet (keyless (finalizationFields f)) ''finished_at'' = Some (JStr (if_finished_at f))"
  "mapGet (keyless (finalizationFields f)) ''selected_node_ids'' = map_option (\<lambda>xs. JStr (stringify (jsonStrings xs))) (if_selected_node_ids f)"
  "mapGet (keyless (finalizationFields f)) ''preserved_node_ids'' = map_option (\<lambda>xs. JStr (stringify (jsonStrings xs))) (if_preserved_node_ids f)"
  "mapGet (keyless (finalizationFields f)) ''blocked_node_ids'' = map_option (\<lambda>xs. JStr (stringify (jsonStrings xs))) (if_blocked_node_ids f)"
  "mapGet (keyless (finalizationFields f)) ''reason'' = map_option JStr (if_reason f)"
  by (simp_all add: keyless_get finalizationFields_def map_add_def optionalField_get split: option.split)

lemma finalization_untouched:
  "c \<in> {''run_id'', ''started_at'', ''invocation_id'', ''mode'', ''requested_by'', ''host''} \<Longrightarrow>
     mapGet (keyless (finalizationFields f)) c = None"
  by (elim insertE emptyE; simp add: keyless_get finalizationFields_def map_add_def optionalField_get)

lemma optional_strings_back:
  assumes "updated_by fs x y" "plainField c" "mapGet fs c = map_option (\<lambda>xs. JStr (stringify (jsonStrings xs))) o'" "jsonArray x c = Inr xs"
  shows "jsonArray y c = Inr (orElse o' xs)"
  using assms strings_back [OF updated_holds [OF assms(1)]] untouched_readers(6) [OF assms(1)]
  by (cases o') (auto simp: orElse_def)

lemma finalization_back:
  assumes u: "updated_by (keyless (finalizationFields f)) x y" and w: "decodeInvocation x = Inr w" and t: "if_finished_at f \<noteq> []"
  shows "\<exists>w'. decodeInvocation y = Inr w' \<and> undatedInvocation w' = undatedInvocation (finalizedInvocation w f)"
proof -
  note h = updated_holds [OF u]
  from w obtain m st xs ps bs where x: "modeOf (fieldText x ''mode'') = Inr m" "statusOf (fieldText x ''status'') = Inr st"
    "jsonArray x ''selected_node_ids'' = Inr xs" "jsonArray x ''preserved_node_ids'' = Inr ps" "jsonArray x ''blocked_node_ids'' = Inr bs"
    and w': "w = \<lparr> ri_invocation_id = fieldText x ''invocation_id'', ri_run_id = fieldText x ''run_id'', ri_mode = m,
       ri_requested_by = fieldText x ''requested_by'', ri_host = fieldText x ''host'',
       ri_started_at = fieldText x ''started_at'', ri_finished_at = nullableText x ''finished_at'', ri_status = st,
       ri_result_code = fieldText x ''result_code'', ri_selected_node_ids = xs, ri_preserved_node_ids = ps,
       ri_blocked_node_ids = bs, ri_reason = fieldText x ''reason'' \<rparr>"
    by (auto simp: decodeInvocation_def bindE_Inr_iff)
  have same: "fieldText y ''invocation_id'' = fieldText x ''invocation_id''" "fieldText y ''run_id'' = fieldText x ''run_id''"
    "fieldText y ''mode'' = fieldText x ''mode''" "fieldText y ''requested_by'' = fieldText x ''requested_by''"
    "fieldText y ''host'' = fieldText x ''host''"
    by (rule untouched_readers(1) [OF u]; simp add: finalization_untouched)+
  have sent: "fieldText y ''status'' = statusText (if_status f)" "fieldText y ''result_code'' = if_result_code f"
    by (rule text_back [OF h]; simp add: finalization_field)+
  have reason: "fieldText y ''reason'' = orElse (if_reason f) (fieldText x ''reason'')"
    using text_back [OF h, of "''reason''"] untouched_readers(1) [OF u, of "''reason''"]
    by (cases "if_reason f") (auto simp: finalization_field orElse_def)
  have date: "someDate (nullableText y ''finished_at'') = Some []"
    using date_back [OF h, of "''finished_at''" "Some (if_finished_at f)"] t by (simp add: finalization_field textField_def orElse_def)
  have ids: "jsonArray y ''selected_node_ids'' = Inr (orElse (if_selected_node_ids f) xs)"
    "jsonArray y ''preserved_node_ids'' = Inr (orElse (if_preserved_node_ids f) ps)"
    "jsonArray y ''blocked_node_ids'' = Inr (orElse (if_blocked_node_ids f) bs)"
    by (rule optional_strings_back [OF u]; simp add: finalization_field x)+
  show ?thesis
    by (simp add: decodeInvocation_def same sent reason ids x w' finalizedInvocation_def undatedInvocation_def date)
qed

lemma cancelStateOf_text [simp]: "cancelStateOf (cancelStateText st) = Some st"
  by (cases st) (simp_all add: cancelStateOf_def fromText_def)

lemma nullableText_back: "jsonGet v k = Some (nullableJson JStr z) \<Longrightarrow> nullableMember textMember v k = Inr z"
  by (cases z) (simp_all add: nullableMember_def nullableJson_def textMember_def)

lemma cancel_back:
  assumes "fieldText y ''status_reason'' = stringify (cancelDetails v)" "fieldText y ''run_id'' = cr_run_id v"
  shows "decodeCancelRequest y = Inr v"
proof -
  have "parseJson (stringify (cancelDetails v)) = Some (cancelDetails v)"
    by (rule parse_after_stringify) (auto simp: cancelDetails_def nullableJson_def split: option.splits)
  then show ?thesis
    by (simp add: decodeCancelRequest_def assms cancelDetails_def jsonGet_def textOfJson_def textMember_def nullableText_back)
qed

end
