(* ===== verification/KintoneSample.thy ===== *)
theory KintoneSample
  imports KintoneContract
begin

text \<open>
  Two apps that answer as \<open>kintone_service\<close> says, as an executable \<open>fetch\<close>: an app is a list of records with their record
  key, their revision and the fields that were written, the latest first. The queries it knows are the ones the repository
  sends. With \<open>lost\<close> set, an answer to a write is lost after the write took effect, and an update with an old
  revision is answered as the loser of a race is.
\<close>

section \<open>One app\<close>

type_synonym app_store = "(string \<times> int \<times> (string \<times> json) list) list"

definition storedRecord :: "string \<Rightarrow> int \<times> (string \<times> json) list \<Rightarrow> kintone_record" where
  "storedRecord k r = fieldsRecord ((''$revision'', jsonInt (fst r)) # (''record_key'', JStr k) # snd r)"

definition storeView :: "app_store \<Rightarrow> string \<Rightarrow> kintone_record option" where
  "storeView st k = map_option (storedRecord k) (map_of st k)"

definition typeQueries :: "kintone_record \<Rightarrow> string list" where
  "typeQueries x = (let q = inQuery ''record_type'' (fieldText x ''record_type'') in
     q # map (\<lambda>c. andQuery q (inQuery c (fieldText x c))) [''run_id'', ''network_id'', ''attempt_key''])"

definition selects :: "string \<Rightarrow> string \<Rightarrow> kintone_record \<Rightarrow> bool" where
  "selects q k x \<longleftrightarrow> q = inQuery ''record_key'' k \<or> q \<in> set (typeQueries x) \<or>
     q \<in> set (map (\<lambda>p. pageQuery p 0) (typeQueries x))"

definition answers :: "string \<Rightarrow> app_store \<Rightarrow> kintone_record list" where
  "answers q st = concat (map (\<lambda>k. case storeView st k of Some x \<Rightarrow> if selects q k x then [x] else [] | None \<Rightarrow> [])
     (remdups (map fst st)))"

definition appAnswer :: "int \<Rightarrow> json \<Rightarrow> http_response" where
  "appAnswer st b = \<lparr> hs_status = st, hs_ok = (st = 200), hs_body = Some b \<rparr>"

definition writtenFields :: "json \<Rightarrow> (string \<times> json) list" where
  "writtenFields body = (case jsonGet body ''record'' of
     Some (JObj fs) \<Rightarrow> map (\<lambda>(c, f). (c, case jsonGet f ''value'' of Some v \<Rightarrow> v | None \<Rightarrow> JNull)) fs
   | _ \<Rightarrow> [])"

text \<open>A write gives the answer and the records after it.\<close>

definition appPost :: "json \<Rightarrow> app_store \<Rightarrow> http_response \<times> app_store" where
  "appPost body st = (case mapGet (writtenFields body) ''record_key'' of
     Some (JStr k) \<Rightarrow>
       if map_of st k = None
       then (appAnswer 200 (JObj [(''id'', JStr ''1''), (''revision'', JStr ''1'')]), (k, 1, writtenFields body) # st)
       else (appAnswer 400 (JObj [(''code'', JStr ''CB_VA01'')]), st)
   | _ \<Rightarrow> (appAnswer 400 JNull, st))"

definition appPut :: "bool \<Rightarrow> json \<Rightarrow> app_store \<Rightarrow> http_response \<times> app_store" where
  "appPut raced body st = (case Option.bind (jsonGet body ''updateKey'') (\<lambda>u. jsonGet u ''value'') of
     Some (JStr k) \<Rightarrow> (case map_of st k of
         Some (n, gs) \<Rightarrow>
           if jsonGet body ''revision'' = Some (jsonInt n)
           then (appAnswer 200 (JObj [(''revision'', jsonInt (n + 1))]), (k, n + 1, writtenFields body @ gs) # st)
           else if raced then (appAnswer 400 (JObj [(''code'', JStr ''GAIA_DA02'')]), st)
           else (appAnswer 409 (JObj [(''code'', JStr ''GAIA_CO02'')]), st)
       | None \<Rightarrow> (appAnswer 404 JNull, st))
   | _ \<Rightarrow> (appAnswer 400 JNull, st))"

record two_apps =
  ta_state :: app_store
  ta_audit :: app_store

definition appFetch :: "bool \<Rightarrow> (two_apps \<Rightarrow> app_store) \<Rightarrow> (app_store \<Rightarrow> two_apps \<Rightarrow> two_apps) \<Rightarrow> two_apps fetch" where
  "appFetch lost get upd req s = (let body = (case hr_body req of None \<Rightarrow> JNull | Some b \<Rightarrow> b);
       sent = (\<lambda>(r, st). (if lost \<and> hs_ok r then Inl (PlainError ''reset'') else Inr r, upd st s)) in
     case hr_method req of
       GET \<Rightarrow> (Inr (appAnswer 200 (JObj [(''records'', JArr (case mapGet (hr_params req) ''query'' of
           None \<Rightarrow> [] | Some q \<Rightarrow> answers q (get s)))])), s)
     | POST \<Rightarrow> sent (appPost body (get s))
     | PUT \<Rightarrow> sent (appPut lost body (get s)))"

definition sampleClients :: "bool \<Rightarrow> two_apps kintone_apps" where
  "sampleClients lost = \<lparr>
     ka_state = \<lparr> kt_fetch = appFetch lost ta_state (\<lambda>st. ta_state_update (\<lambda>_. st)), kt_app = 1 \<rparr>,
     ka_audit = \<lparr> kt_fetch = appFetch lost ta_audit (\<lambda>st. ta_audit_update (\<lambda>_. st)), kt_app = 2 \<rparr> \<rparr>"

section \<open>It keeps the laws\<close>

lemma writtenFields_fieldsRecord: "jsonGet body ''record'' = Some (fieldsRecord fs) \<Longrightarrow> writtenFields body = fs"
proof -
  have "map (\<lambda>(c, f). (c, case jsonGet f ''value'' of Some v \<Rightarrow> v | None \<Rightarrow> JNull)) (map (\<lambda>(k, v). (k, jsonField v)) fs) = fs"
    by (induction fs) (auto simp: jsonField_def jsonGet_def)
  then show "jsonGet body ''record'' = Some (fieldsRecord fs) \<Longrightarrow> writtenFields body = fs"
    by (simp add: writtenFields_def fieldsRecord_def)
qed

lemma inQuery_inject: "inQuery c k @ r = inQuery c k' @ r' \<longleftrightarrow> k = k' \<and> r = r'"
proof
  assume "inQuery c k @ r = inQuery c k' @ r'"
  then have "unquoteText (concat (map escapeChar k) @ CHR 0x22 # '')'' @ r) = unquoteText (concat (map escapeChar k') @ CHR 0x22 # '')'' @ r')"
    by (simp add: inQuery_def quote_def)
  then show "k = k' \<and> r = r'" by (simp add: unquote_quote)
qed simp

lemma inQuery_inject0: "inQuery c k = inQuery c k' \<longleftrightarrow> k = k'" "inQuery c k = inQuery c k' @ x # r \<longleftrightarrow> False"
  "inQuery c k @ x # r = inQuery c k' \<longleftrightarrow> False"
  using inQuery_inject [of c k "[]" k' "[]"] inQuery_inject [of c k "[]" k' "x # r"] inQuery_inject [of c k "x # r" k' "[]"]
  by auto

lemma selects_key [simp]: "selects (inQuery ''record_key'' k) k' x \<longleftrightarrow> k' = k"
  by (auto simp: selects_def typeQueries_def Let_def inQuery_inject0 pageQuery_def andQuery_def) (simp_all add: inQuery_def)

lemma selects_run:
  "selects (andQuery (inQuery ''record_type'' ty) (inQuery ''run_id'' i)) k x \<Longrightarrow>
     fieldText x ''record_type'' = ty \<and> fieldText x ''run_id'' = i"
  apply (auto simp: selects_def typeQueries_def Let_def inQuery_inject inQuery_inject0 pageQuery_def andQuery_def)
  apply (simp_all add: inQuery_def)
  done

lemma storeView_Cons: "storeView ((k, r) # st) = (storeView st)(k \<mapsto> storedRecord k r)"
  by (auto simp: storeView_def fun_eq_iff)

lemma storedRecord_simps [simp]:
  "revisionOf (storedRecord k (n, fs)) = Finite (of_int n)"
  "fieldText (storedRecord k r) ''record_key'' = k"
  by (simp_all add: storedRecord_def revisionOf_def fieldNumber_def numberOf_def jsonInt_def fieldText_def textOfJson_def)

lemma answers_view: "x \<in> set (answers q st) \<longleftrightarrow> (\<exists>k. storeView st k = Some x \<and> selects q k x)"
proof -
  have "k \<in> fst ` set st" if "storeView st k = Some x" for k
    using that by (auto simp: storeView_def) (metis domI dom_map_of_conv_image_fst)
  moreover have "x \<in> set (answers q st) \<longleftrightarrow> (\<exists>k \<in> fst ` set st. storeView st k = Some x \<and> selects q k x)"
    unfolding answers_def set_concat set_map set_remdups UN_iff image_image bex_simps by (auto split: option.splits if_splits) force+
  ultimately show ?thesis by blast
qed

lemma answers_key: "answers (inQuery ''record_key'' k) st = (case storeView st k of None \<Rightarrow> [] | Some x \<Rightarrow> [x])"
proof -
  have *: "concat (map (\<lambda>k'. if k' = k then xs else []) ks) = (if k \<in> set ks then xs else [])" if "distinct ks" for xs :: "'b list" and ks
    using that by (induction ks) auto
  have "answers (inQuery ''record_key'' k) st =
      concat (map (\<lambda>k'. if k' = k then (case storeView st k of None \<Rightarrow> [] | Some x \<Rightarrow> [x]) else []) (remdups (map fst st)))"
    unfolding answers_def by (rule arg_cong [where f = concat]) (auto split: option.splits)
  also have "\<dots> = (case storeView st k of None \<Rightarrow> [] | Some x \<Rightarrow> [x])"
    by (auto simp: * storeView_def map_of_eq_None_iff split: option.splits) (metis domI dom_map_of_conv_image_fst)
  finally show ?thesis .
qed

lemma stored_field: "c \<in> appFields \<Longrightarrow> c \<noteq> ''record_key'' \<Longrightarrow> fieldValue (storedRecord k (n, fs)) c = mapGet fs c"
  by (auto simp: storedRecord_def appFields_def)

lemma kept_stored: "fieldValue x c = Some v \<Longrightarrow> kept_as c v x"
  by (auto simp: kept_as_def fieldText_def sentText_def textOfJson_def fieldNumber_def numberOf_def split: json.splits)

lemma holds_stored:
  "mapGet fs ''record_key'' \<in> {None, Some (JStr k)} \<Longrightarrow> holds_fields fs (storedRecord k (n, fs @ gs))"
  unfolding holds_fields_def
proof (intro ballI allI impI)
  fix c v
  assume "mapGet fs ''record_key'' \<in> {None, Some (JStr k)}" "c \<in> appFields" "mapGet fs c = Some v"
  then show "kept_as c v (storedRecord k (n, fs @ gs))"
    by (cases "c = ''record_key''") (auto intro!: kept_stored simp: stored_field, simp add: storedRecord_def)
qed

lemma updated_stored:
  "mapGet fs ''record_key'' = None \<Longrightarrow> updated_by fs (storedRecord k (n, gs)) (storedRecord k (m, fs @ gs))"
proof -
  assume k: "mapGet fs ''record_key'' = None"
  have "fieldValue (storedRecord k (m, fs @ gs)) c = fieldValue (storedRecord k (n, gs)) c"
    if "c \<in> appFields" "mapGet fs c = None" for c
    using that by (cases "c = ''record_key''") (auto simp: stored_field map_add_def, simp add: storedRecord_def)
  with k show ?thesis by (auto simp: updated_by_def intro: holds_stored)
qed

lemma appPost_run:
  assumes "jsonGet body ''record'' = Some (fieldsRecord fs)" "mapGet fs ''record_key'' = Some (JStr k)"
  shows "appPost body st = (if map_of st k = None
     then (appAnswer 200 (JObj [(''id'', JStr ''1''), (''revision'', JStr ''1'')]), (k, 1, fs) # st)
     else (appAnswer 400 (JObj [(''code'', JStr ''CB_VA01'')]), st))"
  using assms by (simp add: appPost_def writtenFields_fieldsRecord)

lemma app_laws:
  fixes get oth :: "two_apps \<Rightarrow> app_store"
  assumes gu: "\<And>st s. get (upd st s) = st" "\<And>st s. oth (upd st s) = oth s"
  shows "kintone_app \<lparr> kt_fetch = appFetch lost get upd, kt_app = n \<rparr> (\<lambda>s. storeView (get s)) (\<lambda>s. storeView (oth s))"
proof
  fix q s r t
  let ?c = "\<lparr> kt_fetch = appFetch lost get upd, kt_app = n \<rparr>"
  have get_run: "getRecords (appFetch lost get upd) n q s = (Inr (Some (JArr (answers q (get s)))), s)" for q s
    by (simp add: getRecords_def request_def bindP_run appFetch_def appAnswer_def property_def jsonGet_def Let_def)
  show "storeView (get t) = storeView (get s) \<and> storeView (oth t) = storeView (oth s)"
    if "getRecords (kt_fetch ?c) (kt_app ?c) q s = (r, t)"
    using that by (simp add: get_run)
  fix xs x
  show "storeView (get s) (fieldText x ''record_key'') = Some x"
    if "getRecords (kt_fetch ?c) (kt_app ?c) q s = (Inr (Some (JArr xs)), t)" "x \<in> set xs"
    using that by (auto simp: get_run answers_view storeView_def)
  show "xs = (case storeView (get s) k of None \<Rightarrow> [] | Some x \<Rightarrow> [x])"
    if "getRecords (kt_fetch ?c) (kt_app ?c) (inQuery ''record_key'' k) s = (Inr (Some (JArr xs)), t)" for k
    using that by (auto simp: get_run answers_key)
  show "fieldText x ''record_type'' = ''NETWORK_RUN'' \<and> fieldText x ''run_id'' = i"
    if "getRecords (kt_fetch ?c) (kt_app ?c) (andQuery (inQuery ''record_type'' ''NETWORK_RUN'') (inQuery ''run_id'' i)) s =
          (Inr (Some (JArr xs)), t)" "x \<in> set xs" for i
    using that by (auto simp: get_run answers_view dest: selects_run)
next
  fix fs s t k and p :: "js_error + json option \<times> js_number"
  let ?c = "\<lparr> kt_fetch = appFetch lost get upd, kt_app = n \<rparr>"
  assume run: "postRecord (kt_fetch ?c) (kt_app ?c) (fieldsRecord fs) s = (p, t)" and key: "mapGet fs ''record_key'' = Some (JStr k)"
  let ?body = "JObj [(''app'', JNum (of_int n)), (''record'', fieldsRecord fs)]"
  have post: "appPost ?body st = (if map_of st k = None
     then (appAnswer 200 (JObj [(''id'', JStr ''1''), (''revision'', JStr ''1'')]), (k, 1, fs) # st)
     else (appAnswer 400 (JObj [(''code'', JStr ''CB_VA01'')]), st))" for st
    by (rule appPost_run) (simp_all add: jsonGet_def key)
  show "storeView (oth t) = storeView (oth s) \<and>
      (storeView (get t) = storeView (get s) \<and> (\<exists>e. p = Inl e) \<or>
       (\<exists>x. storeView (get s) k = None \<and> storeView (get t) = (storeView (get s))(k \<mapsto> x) \<and> holds_fields fs x \<and>
          ((\<exists>e. p = Inl e) \<or> (\<exists>j. p = Inr (j, revisionOf x)))))"
  proof (cases "map_of (get s) k")
    case None
    have one: "numberOf (Some (JStr ''1'')) = Finite 1"
      by (simp add: numberOf_def numberOfText_def trim_def is_js_space_def isDigit_def natOfDigits_def)
    have "t = upd ((k, 1, fs) # get s) s \<and> ((\<exists>e. p = Inl e) \<or> p = Inr (Some (JStr ''1''), Finite 1))"
      using run None one
      by (auto simp: postRecord_def request_def bindP_run appFetch_def post appAnswer_def property_def jsonGet_def typeError_def
          Let_def split: if_splits)
    with None gu holds_stored [of fs k 1 "[]"] key show ?thesis
      by (auto simp: storeView_Cons intro!: exI [of _ "storedRecord k (1, fs)"]) (simp_all add: storeView_def)
  next
    case (Some r)
    with run gu show ?thesis
      by (auto simp: postRecord_def request_def bindP_run appFetch_def post appAnswer_def jsonGet_def Let_def split: if_splits)
  qed
next
  fix k n' fs s t and u :: "js_error + js_number"
  let ?c = "\<lparr> kt_fetch = appFetch lost get upd, kt_app = n \<rparr>"
  assume run: "putRecord (kt_fetch ?c) (kt_app ?c) k (Finite (of_int n')) (fieldsRecord fs) s = (u, t)"
    and key: "mapGet fs ''record_key'' = None"
  let ?body = "JObj [(''app'', JNum (of_int n)), (''updateKey'', JObj [(''field'', JStr ''record_key''), (''value'', JStr k)]),
    (''revision'', JNum (of_int n')), (''record'', fieldsRecord fs)]"
  have written: "writtenFields ?body = fs"
    by (rule writtenFields_fieldsRecord) (simp add: jsonGet_def)
  show "storeView (oth t) = storeView (oth s) \<and>
      (storeView (get t) = storeView (get s) \<and> (\<exists>e. u = Inl e) \<or>
       (\<exists>x y. storeView (get s) k = Some x \<and> revisionOf x = Finite (of_int n') \<and> storeView (get t) = (storeView (get s))(k \<mapsto> y) \<and>
          revisionOf y = Finite (of_int (n' + 1)) \<and> updated_by fs x y \<and> ((\<exists>e. u = Inl e) \<or> u = Inr (revisionOf y))))"
  proof (cases "\<exists>gs. map_of (get s) k = Some (n', gs)")
    case True
    then obtain gs where gs: "map_of (get s) k = Some (n', gs)" by blast
    have "appPut lost ?body (get s) = (appAnswer 200 (JObj [(''revision'', jsonInt (n' + 1))]), (k, n' + 1, fs @ gs) # get s)"
      unfolding appPut_def written by (simp add: jsonGet_def gs jsonInt_def)
    then have "t = upd ((k, n' + 1, fs @ gs) # get s) s \<and> ((\<exists>e. u = Inl e) \<or> u = Inr (Finite (of_int (n' + 1))))"
      using run by (auto simp: putRecord_def request_def bindP_run appFetch_def appAnswer_def property_def jsonGet_def numberOf_def
          jsonInt_def Let_def split: if_splits)
    moreover have "storeView (get s) k = Some (storedRecord k (n', gs))" by (simp add: storeView_def gs)
    ultimately show ?thesis
      using updated_stored [OF key, of k n' gs "n' + 1"]
      by (simp only: gu storeView_Cons storedRecord_simps option.inject conj_assoc simp_thms)
        (rule disjI2, rule exI [of _ "storedRecord k (n', gs)"], rule exI [of _ "storedRecord k (n' + 1, fs @ gs)"], simp)
  next
    case False
    then have "snd (appPut lost ?body (get s)) = get s \<and> \<not> hs_ok (fst (appPut lost ?body (get s)))"
      by (auto simp: appPut_def jsonGet_def appAnswer_def jsonInt_def split: option.splits)
    then show ?thesis
      using run gu by (cases "appPut lost ?body (get s)") (auto simp: putRecord_def request_def bindP_run appFetch_def Let_def)
  qed
qed

lemma sample_service: "kintone_service (sampleClients lost) (\<lambda>s. storeView (ta_state s)) (\<lambda>s. storeView (ta_audit s))"
  by (rule kintone_service.intro) (simp_all add: sampleClients_def app_laws)

interpretation sample: kintone_service "sampleClients lost" "\<lambda>s. storeView (ta_state s)" "\<lambda>s. storeView (ta_audit s)" for lost
  by (rule sample_service)

end
