(* ===== verification/KintoneRefinement.thy ===== *)
theory KintoneRefinement
  imports KintoneCodecProps KintoneSample
begin

text \<open>
  The kintone repository refines the in-memory one: over apps and a store that hold the same records (\<open>implements\<close>, up to
  dates), an update that kintone carries out is the update of the store, with the same result, and the two still hold the
  same records.
\<close>

section \<open>The same records\<close>

definition stored_at :: "(kintone_record \<Rightarrow> js_error + 'a) \<Rightarrow> (string \<Rightarrow> kintone_record option) \<Rightarrow> string \<Rightarrow> 'a versioned option" where
  "stored_at decode view k = (case view k of
     None \<Rightarrow> None
   | Some x \<Rightarrow> (case versionedRecord decode x of Inl _ \<Rightarrow> None | Inr v \<Rightarrow> Some v))"

definition forget :: "('a \<Rightarrow> 'b) \<Rightarrow> 'a versioned \<Rightarrow> 'b versioned" where
  "forget f v = versioned (f (content v)) (revision v)"

lemma forget_simps [simp]: "content (forget f v) = f (content v)" "revision (forget f v) = revision v"
  by (simp_all add: forget_def)

lemma forget_eq_iff: "forget f v = forget g w \<longleftrightarrow> f (content v) = g (content w) \<and> revision v = revision w"
  by (simp add: forget_def versioned_def)

definition same_as :: "('a \<Rightarrow> 'a) \<Rightarrow> 'a versioned option \<Rightarrow> 'a versioned option \<Rightarrow> bool" where
  "same_as f v w \<longleftrightarrow> map_option (forget f) v = map_option (forget f) w"

definition mem_attempt :: "'w mem_scheme \<Rightarrow> string \<Rightarrow> node_attempt versioned option" where
  "mem_attempt m i = Option.bind (mapGet (m_attemptIds m) i) (\<lambda>k. if k = [] then None else mapGet (m_attempts m) k)"

definition implements :: "'s kintone_view \<Rightarrow> 's kintone_view \<Rightarrow> 's \<Rightarrow> 'w mem_scheme \<Rightarrow> bool" where
  "implements sv av s m \<longleftrightarrow>
     (\<forall>i. same_as undatedAttempt (stored_at decodeAttempt (av s) (attemptRecordKey i)) (mem_attempt m i)) \<and>
     (\<forall>i. same_as undatedInvocation (stored_at decodeInvocation (av s) (invocationKey i)) (mapGet (m_invocations m) i)) \<and>
     (\<forall>k. same_as undatedState (stored_at decodeState (sv s) (stateKey k)) (mapGet (m_states m) k))"

text \<open>Every call of \<open>p\<close> that returns is a call of \<open>q\<close> that returns the same, over states that stay related.\<close>

definition refines_call :: "('s \<Rightarrow> 'm \<Rightarrow> bool) \<Rightarrow> ('a \<Rightarrow> 'a) \<Rightarrow> ('s, 'a versioned) prog \<Rightarrow> ('m, 'a versioned) prog \<Rightarrow> bool" where
  "refines_call R f p q \<longleftrightarrow> (\<forall>s m v t. R s m \<longrightarrow> p s = (Inr v, t) \<longrightarrow>
     (\<exists>w m'. q m = (Inr w, m') \<and> forget f v = forget f w \<and> R t m'))"

lemma stored_at_Some: "stored_at decode view k = Some v \<longleftrightarrow> (\<exists>x. view k = Some x \<and> versionedRecord decode x = Inr v)"
  by (auto simp: stored_at_def split: option.splits sum.splits)

lemma stored_at_upd: "stored_at decode (view(k \<mapsto> y)) k' = (if k' = k then stored_at decode (\<lambda>_. Some y) k else stored_at decode view k')"
  by (simp add: stored_at_def)

lemma same_as_Some: "same_as f (Some v) w \<longleftrightarrow> (\<exists>u. w = Some u \<and> f (content v) = f (content u) \<and> revision v = revision u)"
  by (cases w) (auto simp: same_as_def forget_eq_iff)

lemma record_key_kinds [simp]:
  "attemptRecordKey i \<noteq> invocationKey j" "invocationKey j \<noteq> attemptRecordKey i"
  "stateKey k \<noteq> cancelKey i" "cancelKey i \<noteq> stateKey k"
  "attemptRecordKey i = attemptRecordKey i' \<longleftrightarrow> i = i'" "invocationKey j = invocationKey j' \<longleftrightarrow> j = j'"
  "stateKey k = stateKey k' \<longleftrightarrow> k = k'" "cancelKey i = cancelKey i' \<longleftrightarrow> i = i'"
  by (auto simp: attemptRecordKey_def invocationKey_def stateKey_def cancelKey_def)

section \<open>An update of one record\<close>

text \<open>What a call that reads a record, checks it and updates it has done when it returns.\<close>

definition updates_one ::
  "'s kintone_view \<Rightarrow> 's kintone_view \<Rightarrow> (kintone_record \<Rightarrow> js_error + 'a) \<Rightarrow> string \<Rightarrow> int \<Rightarrow> (string \<times> json) list \<Rightarrow>
   'a \<Rightarrow> 's \<Rightarrow> 's \<Rightarrow> bool" where
  "updates_one view other decode k n fs w s t \<longleftrightarrow> other t = other s \<and>
     (\<exists>x y. view s k = Some x \<and> versionedRecord decode x = Inr (versioned w n) \<and> view t = (view s)(k \<mapsto> y) \<and>
        revisionOf y = Finite (of_int (n + 1)) \<and> updated_by (keyless fs) x y)"

lemma integerOf_revision [simp]: "integerOf (Finite (of_int n)) = Inr n"
  by (simp add: integerOf_def)

context kintone_app
begin

lemma putAs_updates:
  assumes "putAs c k n fs v s = (Inr r, t)" "view s k = Some x" "decode x = Inr w"
  shows "r = versioned v (n + 1) \<and> updates_one view other decode k n fs w s t"
proof -
  obtain p u where p: "put c k n fs s = (p, u)" by fastforce
  with assms(1) have r: "p = Inr ()" "u = t" "r = versioned v (n + 1)"
    by (auto simp: putAs_def bindP_run split: sum.splits)
  from app_put [OF p] r obtain x' y where "other t = other s" "view s k = Some x'" "revisionOf x' = Finite (of_int n)"
    "view t = (view s)(k \<mapsto> y)" "revisionOf y = Finite (of_int (n + 1))" "updated_by (keyless fs) x' y"
    unfolding put_effect_def by blast
  with assms(2,3) r(3) show ?thesis
    by (auto simp: updates_one_def versionedRecord_def)
qed

text \<open>The shape of the updates: \<open>ok w\<close> is what the code checks of the record it has read.\<close>

lemma required_put:
  assumes run: "bindP (requiredByRecordKey c k decode) f s = (Inr r, t)"
    and f: "\<And>v u. f v u = (Inr r, t) \<Longrightarrow> ok (content v) \<and> putAs c k n (fs (content v)) (new (content v)) u = (Inr r, t)"
  obtains w where "ok w" "r = versioned (new w) (n + 1)" "updates_one view other decode k n (fs w) w s t"
proof -
  from run obtain v u where "requiredByRecordKey c k decode s = (Inr v, u)" and k: "f v u = (Inr r, t)"
    unfolding bindP_Inr_iff by blast
  then obtain x where x: "view s k = Some x" "versionedRecord decode x = Inr v" and u: "view u = view s" "other u = other s"
    by (elim requiredByRecordKey_found) auto
  from f [OF k] x u have "ok (content v)" "r = versioned (new (content v)) (n + 1) \<and> updates_one view other decode k n (fs (content v)) (content v) u t"
    using putAs_updates [of k n "fs (content v)" "new (content v)" u r t x decode "content v"] by (auto simp: versionedRecord_Inr)
  with that u show thesis by (simp add: updates_one_def)
qed

end

lemma updates_one_stored:
  assumes "updates_one view other decode k n fs w s t"
    and "\<And>x y. updated_by (keyless fs) x y \<Longrightarrow> decode x = Inr w \<Longrightarrow> \<exists>w'. decode y = Inr w' \<and> f w' = f new"
  shows "stored_at decode (view s) k = Some (versioned w n)"
    and "\<exists>w'. stored_at decode (view t) k = Some (versioned w' (n + 1)) \<and> f w' = f new"
proof -
  from assms(1) obtain x y where x: "view s k = Some x" "versionedRecord decode x = Inr (versioned w n)" "view t = (view s)(k \<mapsto> y)"
    "revisionOf y = Finite (of_int (n + 1))" "updated_by (keyless fs) x y" "other t = other s"
    unfolding updates_one_def by blast
  from x(1,2) show "stored_at decode (view s) k = Some (versioned w n)" by (auto simp: stored_at_Some)
  from assms(2) [OF x(5)] x(2) obtain w' where "decode y = Inr w'" "f w' = f new" by (auto simp: versionedRecord_Inr)
  moreover have "integerOf (revisionOf y) = Inr (n + 1)" unfolding x(4) by (rule integerOf_revision)
  ultimately show "\<exists>w'. stored_at decode (view t) k = Some (versioned w' (n + 1)) \<and> f w' = f new"
    using x(3) by (auto simp: stored_at_Some versionedRecord_Inr)
qed

lemma updates_one_others:
  assumes "updates_one view other decode k n fs w s t"
  shows "j \<noteq> k \<Longrightarrow> stored_at decode' (view t) j = stored_at decode' (view s) j" "other t = other s"
  using assms by (auto simp: updates_one_def stored_at_upd)

section \<open>Attempts\<close>

lemma mem_attempt_update:
  assumes "attempts_wf digest (m_attempts m) (m_attemptIds m)" "mapGet (m_attemptIds m) i = Some k" "k \<noteq> []"
  shows "mem_attempt (m\<lparr> m_attempts := mapSet k z (m_attempts m) \<rparr>) j = (if j = i then Some z else mem_attempt m j)"
proof -
  have "k' \<noteq> k" if "mapGet (m_attemptIds m) j = Some k'" "j \<noteq> i" for k'
    using assms(1,2) that unfolding attempts_wf_def by (metis option.inject)
  then show ?thesis
    using assms(2,3) by (cases "mapGet (m_attemptIds m) j") (auto simp: mem_attempt_def update_conv')
qed

lemma mem_attempt_found:
  "mem_attempt m i = Some u \<Longrightarrow> \<exists>k. mapGet (m_attemptIds m) i = Some k \<and> k \<noteq> [] \<and> mapGet (m_attempts m) k = Some u"
  by (auto simp: mem_attempt_def bind_eq_Some_conv split: if_splits)

text \<open>A finalization that leaves no optional text empty.\<close>

definition writable_finalization :: "attempt_finalization \<Rightarrow> bool" where
  "writable_finalization f \<longleftrightarrow> af_finished_at f \<noteq> [] \<and> Some [] \<notin> {af_runner_execution_started_at f, af_execution_id f,
     af_error_message f, af_last_written_key f}"

lemma finalized_writable: "writable_attempt w \<Longrightarrow> writable_finalization f \<Longrightarrow> writable_attempt (finalizedAttempt w f)"
  by (auto simp: writable_attempt_def writable_finalization_def finalizedAttempt_def)

definition memory_refined :: "(string \<Rightarrow> string) \<Rightarrow> 's kintone_view \<Rightarrow> 's kintone_view \<Rightarrow> 's \<Rightarrow> 'w mem_scheme \<Rightarrow> bool" where
  "memory_refined digest sv av s m \<longleftrightarrow> implements sv av s m \<and> mem_wf digest m"

text \<open>One attempt is updated on both sides.\<close>

lemma attempt_updated:
  assumes R: "memory_refined digest sv av s m"
    and up: "updates_one av sv decodeAttempt (attemptRecordKey i) n fs w s t"
    and reads: "\<And>x y. updated_by (keyless fs) x y \<Longrightarrow> decodeAttempt x = Inr w \<Longrightarrow>
      \<exists>w'. decodeAttempt y = Inr w' \<and> undatedAttempt w' = undatedAttempt new"
  obtains k u where "mapGet (m_attemptIds m) i = Some k" "k \<noteq> []" "mapGet (m_attempts m) k = Some u" "revision u = n"
    "undatedAttempt w = undatedAttempt (content u)"
    "\<And>z. undatedAttempt new = undatedAttempt z \<Longrightarrow> implements sv av t (m\<lparr> m_attempts := mapSet k (versioned z (n + 1)) (m_attempts m) \<rparr>)"
proof -
  have st: "stored_at decodeAttempt (av s) (attemptRecordKey i) = Some (versioned w n)"
    "\<exists>w'. stored_at decodeAttempt (av t) (attemptRecordKey i) = Some (versioned w' (n + 1)) \<and> undatedAttempt w' = undatedAttempt new"
    by (rule updates_one_stored [OF up]; erule (1) reads)+
  have rel: "same_as undatedAttempt (stored_at decodeAttempt (av s) (attemptRecordKey j)) (mem_attempt m j)" for j
    using R by (simp add: memory_refined_def implements_def)
  from rel [of i] st(1) obtain u where u: "mem_attempt m i = Some u" "undatedAttempt w = undatedAttempt (content u)" "n = revision u"
    by (auto simp: same_as_Some)
  from mem_attempt_found [OF u(1)] obtain k where k: "mapGet (m_attemptIds m) i = Some k" "k \<noteq> []" "mapGet (m_attempts m) k = Some u"
    by blast
  have upd: "mem_attempt (m\<lparr> m_attempts := mapSet k z (m_attempts m) \<rparr>) j = (if j = i then Some z else mem_attempt m j)" for z j
    using R k by (intro mem_attempt_update [where digest = digest]) (auto simp: memory_refined_def mem_wf_def)
  from st(2) obtain w' where w': "stored_at decodeAttempt (av t) (attemptRecordKey i) = Some (versioned w' (n + 1))"
    "undatedAttempt w' = undatedAttempt new" by blast
  have "implements sv av t (m\<lparr> m_attempts := mapSet k (versioned z (n + 1)) (m_attempts m) \<rparr>)"
    if z: "undatedAttempt new = undatedAttempt z" for z
  proof -
    have "same_as undatedAttempt (stored_at decodeAttempt (av t) (attemptRecordKey j))
        (mem_attempt (m\<lparr> m_attempts := mapSet k (versioned z (n + 1)) (m_attempts m) \<rparr>) j)" for j
      using rel [of j] w' z
      by (cases "j = i") (simp_all add: upd same_as_Some updates_one_others [OF up])
    with R show ?thesis by (simp add: memory_refined_def implements_def updates_one_others [OF up])
  qed
  with that [OF k(1,2,3)] u show thesis by simp
qed

lemma undated_attempt_fields:
  assumes "undatedAttempt w = undatedAttempt v"
  shows "na_status w = na_status v" "na_execution_started_at w = None \<longleftrightarrow> na_execution_started_at v = None"
    "undatedAttempt (w\<lparr> na_execution_started_at := z \<rparr>) = undatedAttempt (v\<lparr> na_execution_started_at := z \<rparr>)"
    "undatedAttempt (w\<lparr> na_error_message := z \<rparr>) = undatedAttempt (v\<lparr> na_error_message := z \<rparr>)"
    "undatedAttempt (finalizedAttempt w f) = undatedAttempt (finalizedAttempt v f)"
proof -
  from assms have "na_status (undatedAttempt w) = na_status (undatedAttempt v)"
    "na_execution_started_at (undatedAttempt w) = na_execution_started_at (undatedAttempt v)" by simp_all
  then show "na_status w = na_status v" "na_execution_started_at w = None \<longleftrightarrow> na_execution_started_at v = None"
    by (auto simp: undatedAttempt_def someDate_def)
  have 1: "undatedAttempt (w\<lparr> na_execution_started_at := z \<rparr>) = (undatedAttempt w)\<lparr> na_execution_started_at := someDate z \<rparr>"
    "undatedAttempt (w\<lparr> na_error_message := z \<rparr>) = (undatedAttempt w)\<lparr> na_error_message := z \<rparr>" for w
    by (simp_all add: undatedAttempt_def)
  have 2: "undatedAttempt (finalizedAttempt w f) = undatedAttempt (finalizedAttempt (undatedAttempt w) f)" for w
    by (simp add: undatedAttempt_def finalizedAttempt_def someDate_def option.map_comp comp_def)
  show "undatedAttempt (w\<lparr> na_execution_started_at := z \<rparr>) = undatedAttempt (v\<lparr> na_execution_started_at := z \<rparr>)"
    "undatedAttempt (w\<lparr> na_error_message := z \<rparr>) = undatedAttempt (v\<lparr> na_error_message := z \<rparr>)"
    by (simp_all add: 1 assms)
  show "undatedAttempt (finalizedAttempt w f) = undatedAttempt (finalizedAttempt v f)" by (metis 2 assms)
qed

lemma refines_callI:
  fixes q :: "('w mem_scheme, 'a versioned) prog"
  assumes "\<And>s m v t. memory_refined digest sv av s m \<Longrightarrow> p s = (Inr v, t) \<Longrightarrow>
      \<exists>w m'. q m = (Inr w, m') \<and> forget f v = forget f w \<and> implements sv av t m'"
    and "guarantees (mem_history digest) q"
  shows "refines_call (memory_refined digest sv av) f p q"
  unfolding refines_call_def
proof (intro allI impI)
  fix s v t and m :: "'w mem_scheme"
  assume "memory_refined digest sv av s m" "p s = (Inr v, t)"
  moreover from this assms(1) obtain w m' where "q m = (Inr w, m')" "forget f v = forget f w" "implements sv av t m'" by blast
  ultimately show "\<exists>w m'. q m = (Inr w, m') \<and> forget f v = forget f w \<and> memory_refined digest sv av t m'"
    using guaranteesD [OF assms(2), of m "Inr w" m'] by (auto simp: memory_refined_def mem_history_def)
qed

lemma attempt_refined:
  fixes q :: "('w mem_scheme, node_attempt versioned) prog"
  assumes p: "\<And>s v t. p s = (Inr v, t) \<Longrightarrow>
      \<exists>w. ok w \<and> v = versioned (new w) (n + 1) \<and> updates_one av sv decodeAttempt (attemptRecordKey i) n (fs w) w s t"
    and reads: "\<And>w x y. updated_by (keyless (fs w)) x y \<Longrightarrow> decodeAttempt x = Inr w \<Longrightarrow> ok w \<Longrightarrow>
      \<exists>w'. decodeAttempt y = Inr w' \<and> undatedAttempt w' = undatedAttempt (new w)"
    and same: "\<And>w u. undatedAttempt w = undatedAttempt u \<Longrightarrow> ok w = ok u \<and> undatedAttempt (new w) = undatedAttempt (new u)"
    and q: "\<And>m u. attemptById i m = (Inr u, m) \<Longrightarrow> revision u = n \<Longrightarrow> ok (content u) \<Longrightarrow>
      q m = storeAttempt i (nextStored u (new (content u))) m"
    and keeps: "guarantees (mem_history digest) q"
  shows "refines_call (memory_refined digest sv av) undatedAttempt p q"
proof (rule refines_callI [OF _ keeps])
  fix s v t and m :: "'w mem_scheme"
  assume R: "memory_refined digest sv av s m" and run: "p s = (Inr v, t)"
  from p [OF run] obtain w where ok: "ok w" and v: "v = versioned (new w) (n + 1)"
    and up: "updates_one av sv decodeAttempt (attemptRecordKey i) n (fs w) w s t" by blast
  show "\<exists>w m'. q m = (Inr w, m') \<and> forget undatedAttempt v = forget undatedAttempt w \<and> implements sv av t m'"
  proof (rule attempt_updated [OF R up])
    show "\<exists>w'. decodeAttempt y = Inr w' \<and> undatedAttempt w' = undatedAttempt (new w)"
      if "updated_by (keyless (fs w)) x y" "decodeAttempt x = Inr w" for x y
      using that ok by (rule reads)
  next
    fix k u
    assume k: "mapGet (m_attemptIds m) i = Some k" "k \<noteq> []" "mapGet (m_attempts m) k = Some u" "revision u = n"
      and w: "undatedAttempt w = undatedAttempt (content u)"
      and im: "\<And>z. undatedAttempt (new w) = undatedAttempt z \<Longrightarrow>
        implements sv av t (m\<lparr> m_attempts := mapSet k (versioned z (n + 1)) (m_attempts m) \<rparr>)"
    have "attemptById i m = (Inr u, m)" using k by (simp add: attemptById_def required_def bindP_run)
    moreover have "ok (content u)" "undatedAttempt (new w) = undatedAttempt (new (content u))" using same [OF w] ok by simp_all
    ultimately show ?thesis
      using q [of m u] k v im [of "new (content u)"] by (simp add: storeAttempt_def bindP_run forget_eq_iff nextStored_def)
  qed
qed

context kintone_service
begin

lemma start_refined:
  assumes t0: "t0 \<noteq> []"
  shows "refines_call (memory_refined digest sv av) undatedAttempt (kt_setAttemptExecutionStarted a i n t0) (im_setAttemptExecutionStarted i n t0)"
proof (rule attempt_refined [where ok = "\<lambda>w. na_status w = RUNNING \<and> na_execution_started_at w = None" and new = "\<lambda>w. w\<lparr> na_execution_started_at := Some t0 \<rparr>" and fs = "\<lambda>w. [(''execution_started_at'', JStr t0)]" and n = n and i = i])
  fix s v t
  assume "kt_setAttemptExecutionStarted a i n t0 s = (Inr v, t)"
  then show "\<exists>w. (na_status w = RUNNING \<and> na_execution_started_at w = None) \<and> v = versioned (w\<lparr> na_execution_started_at := Some t0 \<rparr>) (n + 1) \<and>
      updates_one av sv decodeAttempt (attemptRecordKey i) n ([(''execution_started_at'', JStr t0)]) w s t"
    unfolding kt_setAttemptExecutionStarted_def requiredAttempt_def
    by (rule audit.required_put [where ok = "\<lambda>w. na_status w = RUNNING \<and> na_execution_started_at w = None" and fs = "\<lambda>w. [(''execution_started_at'', JStr t0)]" and new = "\<lambda>w. w\<lparr> na_execution_started_at := Some t0 \<rparr>"])
      (auto simp: repositoryError_def bindP_run Let_def split: if_splits sum.splits)
next
  fix w x y
  assume "updated_by (keyless ([(''execution_started_at'', JStr t0)])) x y" "decodeAttempt x = Inr w"
  then show "\<exists>w'. decodeAttempt y = Inr w' \<and> undatedAttempt w' = undatedAttempt (w\<lparr> na_execution_started_at := Some t0 \<rparr>)"
    using t0 by (rule start_back)
next
  fix w u :: node_attempt
  assume "undatedAttempt w = undatedAttempt u"
  from undated_attempt_fields [OF this] show "(na_status w = RUNNING \<and> na_execution_started_at w = None) = (na_status u = RUNNING \<and> na_execution_started_at u = None) \<and>
      undatedAttempt (w\<lparr> na_execution_started_at := Some t0 \<rparr>) = undatedAttempt (u\<lparr> na_execution_started_at := Some t0 \<rparr>)"
    by simp
next
  show "guarantees (mem_history digest) (im_setAttemptExecutionStarted i n t0)"
    using store.writes(11) by simp
qed (simp add: im_setAttemptExecutionStarted_def assertRevision_def bindP_run)

lemma baseline_refined:
  assumes t0: "t0 \<noteq> []"
  shows "refines_call (memory_refined digest sv av) undatedAttempt (kt_setAttemptInputBaseline a i n t0) (im_setAttemptInputBaseline i n t0)"
proof (rule attempt_refined [where ok = "\<lambda>w. na_status w = RUNNING \<and> na_execution_started_at w = None" and new = "\<lambda>w. w\<lparr> na_error_message := Some t0 \<rparr>" and fs = "\<lambda>w. [(''error_message'', JStr t0)]" and n = n and i = i])
  fix s v t
  assume "kt_setAttemptInputBaseline a i n t0 s = (Inr v, t)"
  then show "\<exists>w. (na_status w = RUNNING \<and> na_execution_started_at w = None) \<and> v = versioned (w\<lparr> na_error_message := Some t0 \<rparr>) (n + 1) \<and>
      updates_one av sv decodeAttempt (attemptRecordKey i) n ([(''error_message'', JStr t0)]) w s t"
    unfolding kt_setAttemptInputBaseline_def requiredAttempt_def
    by (rule audit.required_put [where ok = "\<lambda>w. na_status w = RUNNING \<and> na_execution_started_at w = None" and fs = "\<lambda>w. [(''error_message'', JStr t0)]" and new = "\<lambda>w. w\<lparr> na_error_message := Some t0 \<rparr>"])
      (auto simp: repositoryError_def bindP_run Let_def split: if_splits sum.splits)
next
  fix w x y
  assume "updated_by (keyless ([(''error_message'', JStr t0)])) x y" "decodeAttempt x = Inr w"
  then show "\<exists>w'. decodeAttempt y = Inr w' \<and> undatedAttempt w' = undatedAttempt (w\<lparr> na_error_message := Some t0 \<rparr>)"
    using t0 by (rule baseline_back)
next
  fix w u :: node_attempt
  assume "undatedAttempt w = undatedAttempt u"
  from undated_attempt_fields [OF this] show "(na_status w = RUNNING \<and> na_execution_started_at w = None) = (na_status u = RUNNING \<and> na_execution_started_at u = None) \<and>
      undatedAttempt (w\<lparr> na_error_message := Some t0 \<rparr>) = undatedAttempt (u\<lparr> na_error_message := Some t0 \<rparr>)"
    by simp
next
  show "guarantees (mem_history digest) (im_setAttemptInputBaseline i n t0)"
    using store.writes(10) by simp
qed (simp add: im_setAttemptInputBaseline_def assertRevision_def bindP_run)

lemma finalize_refined:
  assumes f: "writable_finalization f"
  shows "refines_call (memory_refined digest sv av) undatedAttempt (kt_finalizeAttempt a i n f) (im_finalizeAttempt i n f)"
proof (rule attempt_refined [where ok = "\<lambda>w. na_status w = RUNNING" and new = "\<lambda>w. finalizedAttempt w f" and fs = "\<lambda>w. attemptFields (attemptRecordKey (na_node_attempt_id (finalizedAttempt w f))) (na_node_attempt_id (finalizedAttempt w f)) (na_attempt_key (finalizedAttempt w f)) (finalizedAttempt w f)" and n = n and i = i])
  fix s v t
  assume "kt_finalizeAttempt a i n f s = (Inr v, t)"
  then show "\<exists>w. (na_status w = RUNNING) \<and> v = versioned (finalizedAttempt w f) (n + 1) \<and>
      updates_one av sv decodeAttempt (attemptRecordKey i) n (attemptFields (attemptRecordKey (na_node_attempt_id (finalizedAttempt w f))) (na_node_attempt_id (finalizedAttempt w f)) (na_attempt_key (finalizedAttempt w f)) (finalizedAttempt w f)) w s t"
    unfolding kt_finalizeAttempt_def requiredAttempt_def
    by (rule audit.required_put [where ok = "\<lambda>w. na_status w = RUNNING" and fs = "\<lambda>w. attemptFields (attemptRecordKey (na_node_attempt_id (finalizedAttempt w f))) (na_node_attempt_id (finalizedAttempt w f)) (na_attempt_key (finalizedAttempt w f)) (finalizedAttempt w f)" and new = "\<lambda>w. finalizedAttempt w f"])
      (auto simp: repositoryError_def bindP_run Let_def split: if_splits sum.splits dest!: attemptRecord_Inr)
next
  fix w x y
  assume "updated_by (keyless (attemptFields (attemptRecordKey (na_node_attempt_id (finalizedAttempt w f))) (na_node_attempt_id (finalizedAttempt w f)) (na_attempt_key (finalizedAttempt w f)) (finalizedAttempt w f))) x y" "decodeAttempt x = Inr w"
  then show "\<exists>w'. decodeAttempt y = Inr w' \<and> undatedAttempt w' = undatedAttempt (finalizedAttempt w f)"
    using attempt_back [OF updated_holds, of _ _ _ "finalizedAttempt w f"] f decoded_writable(1) by (fastforce simp: finalized_writable)
next
  fix w u :: node_attempt
  assume "undatedAttempt w = undatedAttempt u"
  from undated_attempt_fields [OF this] show "(na_status w = RUNNING) = (na_status u = RUNNING) \<and>
      undatedAttempt (finalizedAttempt w f) = undatedAttempt (finalizedAttempt u f)"
    by simp
next
  show "guarantees (mem_history digest) (im_finalizeAttempt i n f)"
    using store.writes(12) by simp
qed (simp add: im_finalizeAttempt_def assertRevision_def bindP_run)

end

section \<open>Invocations and node states\<close>

lemma mem_attempt_elsewhere [simp]:
  "mem_attempt (m\<lparr> m_invocations := x \<rparr>) i = mem_attempt m i" "mem_attempt (m\<lparr> m_states := y \<rparr>) i = mem_attempt m i"
  by (simp_all add: mem_attempt_def cong: if_cong)

lemma direct_refined:
  fixes q :: "('w mem_scheme, 'a versioned) prog"
  assumes p: "\<And>s v t. p s = (Inr v, t) \<Longrightarrow>
      \<exists>w. ok w \<and> v = versioned (new w) (n + 1) \<and> updates_one view other decode key n (fs w) w s t"
    and reads: "\<And>w x y. updated_by (keyless (fs w)) x y \<Longrightarrow> decode x = Inr w \<Longrightarrow> \<exists>w'. decode y = Inr w' \<and> f w' = f (new w)"
    and same: "\<And>w u. f w = f u \<Longrightarrow> ok w = ok u \<and> f (new w) = f (new u)"
    and rel: "\<And>s m. implements sv av s m \<Longrightarrow> same_as f (stored_at decode (view s) key) (look m)"
    and q: "\<And>m u. look m = Some u \<Longrightarrow> revision u = n \<Longrightarrow> ok (content u) \<Longrightarrow>
      q m = (Inr (nextStored u (new (content u))), upd (nextStored u (new (content u))) m)"
    and imp: "\<And>s t m z w. implements sv av s m \<Longrightarrow> updates_one view other decode key n (fs w) w s t \<Longrightarrow>
      same_as f (stored_at decode (view t) key) (Some z) \<Longrightarrow> implements sv av t (upd z m)"
    and keeps: "guarantees (mem_history digest) q"
  shows "refines_call (memory_refined digest sv av) f p q"
proof (rule refines_callI [OF _ keeps])
  fix s v t and m :: "'w mem_scheme"
  assume "memory_refined digest sv av s m" and run: "p s = (Inr v, t)"
  then have R: "implements sv av s m" by (simp add: memory_refined_def)
  from p [OF run] obtain w where ok: "ok w" and v: "v = versioned (new w) (n + 1)"
    and up: "updates_one view other decode key n (fs w) w s t" by blast
  have st: "stored_at decode (view s) key = Some (versioned w n)"
    "\<exists>w'. stored_at decode (view t) key = Some (versioned w' (n + 1)) \<and> f w' = f (new w)"
    by (rule updates_one_stored [OF up], erule (1) reads)+
  from rel [OF R] st(1) obtain u where u: "look m = Some u" "revision u = n" "f w = f (content u)"
    by (auto simp: same_as_Some)
  from same [OF u(3)] ok have ok': "ok (content u)" and new: "f (new w) = f (new (content u))" by simp_all
  from st(2) new u(2) have "same_as f (stored_at decode (view t) key) (Some (nextStored u (new (content u))))"
    by (auto simp: same_as_Some)
  from imp [OF R up this] q [OF u(1,2) ok'] v u(2) new
  show "\<exists>w m'. q m = (Inr w, m') \<and> forget f v = forget f w \<and> implements sv av t m'"
    by (simp add: forget_eq_iff)
qed

lemma undated_invocation_fields:
  assumes "undatedInvocation w = undatedInvocation u"
  shows "ri_status w = ri_status u" "undatedInvocation (finalizedInvocation w f) = undatedInvocation (finalizedInvocation u f)"
proof -
  from assms have "ri_status (undatedInvocation w) = ri_status (undatedInvocation u)" by simp
  then show "ri_status w = ri_status u" by (simp add: undatedInvocation_def)
  have "undatedInvocation (finalizedInvocation w f) = undatedInvocation (finalizedInvocation (undatedInvocation w) f)" for w
    by (simp add: undatedInvocation_def finalizedInvocation_def)
  with assms show "undatedInvocation (finalizedInvocation w f) = undatedInvocation (finalizedInvocation u f)" by metis
qed

lemma undated_state_fields:
  assumes "undatedState w = undatedState u"
  shows "stateMoveAllowed w x = stateMoveAllowed u x"
proof -
  from assms have "ns_status (undatedState w) = ns_status (undatedState u)" "ns_idempotent (undatedState w) = ns_idempotent (undatedState u)"
    by simp_all
  then show ?thesis by (simp add: undatedState_def stateMoveAllowed_def)
qed

lemma upsert_accepted:
  assumes "stateMoveAllowed (content u) x" "nw_expected_revision x = Some (revision u)" "nw_resolution_event x = None"
  shows "upsertRejection rs u x = None"
proof -
  from assms(1,3) have "isAllowedNodeStateTransition (ns_status (content u)) (ns_status (nw_value x))"
    "\<not> ((ns_status (content u) = FAILED \<or> ns_status (content u) = CANCELLED) \<and> ns_status (nw_value x) = WAITING \<and> \<not> ns_idempotent (content u))"
    unfolding stateMoveAllowed_def Let_def by simp_all
  then show ?thesis unfolding upsertRejection_def Let_def assms(2,3) durableResolution_def option.case by (simp only: if_False simp_thms)
qed

context kintone_service
begin

lemma invocation_refined:
  assumes f: "if_finished_at f \<noteq> []"
  shows "refines_call (memory_refined digest sv av) undatedInvocation (kt_finalizeInvocation a i n f) (im_finalizeInvocation i n f)"
proof (rule direct_refined [where ok = "\<lambda>w. ri_status w = RUNNING \<or> ri_status w = CREATED" and new = "\<lambda>w. finalizedInvocation w f"
      and fs = "\<lambda>_. finalizationFields f" and n = n and key = "invocationKey i" and view = av and other = sv and decode = decodeInvocation
      and look = "\<lambda>m. mapGet (m_invocations m) i" and upd = "\<lambda>z m. m\<lparr> m_invocations := mapSet i z (m_invocations m) \<rparr>"])
  fix s v t
  assume "kt_finalizeInvocation a i n f s = (Inr v, t)"
  then show "\<exists>w. (ri_status w = RUNNING \<or> ri_status w = CREATED) \<and> v = versioned (finalizedInvocation w f) (n + 1) \<and>
      updates_one av sv decodeInvocation (invocationKey i) n (finalizationFields f) w s t"
    unfolding kt_finalizeInvocation_def
    by (rule audit.required_put [where ok = "\<lambda>w. ri_status w = RUNNING \<or> ri_status w = CREATED" and fs = "\<lambda>_. finalizationFields f"
          and new = "\<lambda>w. finalizedInvocation w f"]) (auto simp: repositoryError_def split: if_splits)
next
  fix w x y
  assume "updated_by (keyless (finalizationFields f)) x y" "decodeInvocation x = Inr w"
  then show "\<exists>w'. decodeInvocation y = Inr w' \<and> undatedInvocation w' = undatedInvocation (finalizedInvocation w f)"
    using f by (rule finalization_back)
next
  fix w u
  assume "undatedInvocation w = undatedInvocation u"
  from undated_invocation_fields [OF this] show "(ri_status w = RUNNING \<or> ri_status w = CREATED) = (ri_status u = RUNNING \<or> ri_status u = CREATED) \<and>
      undatedInvocation (finalizedInvocation w f) = undatedInvocation (finalizedInvocation u f)"
    by simp
next
  show "guarantees (mem_history digest) (im_finalizeInvocation i n f)"
    using store.writes(7) by simp
next
  fix s t z w and m :: "'w mem_scheme"
  assume "implements sv av s m" "updates_one av sv decodeInvocation (invocationKey i) n (finalizationFields f) w s t"
    "same_as undatedInvocation (stored_at decodeInvocation (av t) (invocationKey i)) (Some z)"
  then show "implements sv av t (m\<lparr> m_invocations := mapSet i z (m_invocations m) \<rparr>)"
    by (simp add: implements_def updates_one_others [of av sv] update_conv')
qed (auto simp: implements_def im_finalizeInvocation_def required_def assertRevision_def bindP_run Let_def)

lemma state_refined:
  assumes w: "nw_expected_revision x = Some n" "nw_resolution_event x = None" "writable_state (nw_value x)"
  shows "refines_call (memory_refined digest sv av) undatedState (kt_upsertNodeState hex a x) (im_upsertNodeState x)"
proof -
  let ?v = "(nw_value x)\<lparr> ns_revision := n + 1 \<rparr>" and ?k = "ns_node_state_key (nw_value x)"
  show ?thesis
  proof (rule direct_refined [where ok = "\<lambda>w. stateMoveAllowed w x" and new = "\<lambda>_. ?v" and fs = "\<lambda>_. stateFields (stateKey ?k) ?k ?v"
      and n = n and key = "stateKey ?k" and view = sv and other = av and decode = decodeState
      and look = "\<lambda>m. mapGet (m_states m) ?k" and upd = "\<lambda>z m. m\<lparr> m_states := mapSet ?k z (m_states m) \<rparr>"])
    fix s v t
    assume "kt_upsertNodeState hex a x s = (Inr v, t)"
    then show "\<exists>w. stateMoveAllowed w x \<and> v = versioned ?v (n + 1) \<and>
        updates_one sv av decodeState (stateKey ?k) n (stateFields (stateKey ?k) ?k ?v) w s t"
      unfolding kt_upsertNodeState_def w option.case Let_def
      by (rule state.required_put [where ok = "\<lambda>w. stateMoveAllowed w x" and fs = "\<lambda>_. stateFields (stateKey ?k) ?k ?v" and new = "\<lambda>_. ?v"])
        (auto simp: repositoryError_def correlatedResolution_def bindP_run w split: if_splits sum.splits dest!: stateRecord_Inr)
  next
    fix w y z
    assume "updated_by (keyless (stateFields (stateKey ?k) ?k ?v)) y z"
    moreover have "writable_state ?v" using w(3) by (simp add: writable_state_def)
    ultimately show "\<exists>w'. decodeState z = Inr w' \<and> undatedState w' = undatedState ?v"
      using state_back [OF updated_holds] by fastforce
  next
    show "guarantees (mem_history digest) (im_upsertNodeState x)"
      using store.writes(8) by simp
  next
    fix s t z w and m :: "'w mem_scheme"
    assume "implements sv av s m" "updates_one sv av decodeState (stateKey ?k) n (stateFields (stateKey ?k) ?k ?v) w s t"
      "same_as undatedState (stored_at decodeState (sv t) (stateKey ?k)) (Some z)"
    then show "implements sv av t (m\<lparr> m_states := mapSet ?k z (m_states m) \<rparr>)"
      by (simp add: implements_def updates_one_others [of sv av] update_conv')
  next
    fix w u
    assume "undatedState w = undatedState u"
    then show "stateMoveAllowed w x = stateMoveAllowed u x \<and> undatedState ?v = undatedState ?v"
      using undated_state_fields by blast
  next
    fix m :: "'w mem_scheme" and u
    assume m: "mapGet (m_states m) ?k = Some u" and n: "revision u = n" and ok: "stateMoveAllowed (content u) x"
    have "upsertRejection (m_resolutions m) u x = None"
      using ok w(1,2) unfolding n [symmetric] by (rule upsert_accepted)
    with m n show "im_upsertNodeState x m = (Inr (nextStored u ?v), m\<lparr> m_states := mapSet ?k (nextStored u ?v) (m_states m) \<rparr>)"
      by (simp add: im_upsertNodeState_def storeState_def bindP_run Let_def)
  qed (simp add: implements_def)
qed

end

end
