(* ===== verification/KintoneProps.thy ===== *)
theory KintoneProps
  imports KintoneRefinement Reconciliation Cancel Archive Orphan
begin

text \<open>
  The properties of the kintone repository: its contract and the clients over it, the refinement of the in-memory
  repository, the round trips of its records, inserts whose answer is lost, conflicts, keys and paging.
\<close>

section \<open>History\<close>

lemma kintone_client:
  assumes "kintone_service a sv av" "guarantees (same_apps sv av) now" "guarantees (same_apps sv av) uuid"
  shows "repository_client (kintone_history sv av) (kintone_repository digest hex collate a) now uuid"
  using assms by (intro repository_client.intro repository_client_axioms.intro kintone_contract
      kintone_service.state_same)

text \<open>
  C9: Over apps that behave as documented, whatever an operator's command calls and however its requests fail, the
  records of the kintone apps keep their history: none is lost, a changed record has a higher revision, finished attempts and
  invocations, resolutions and audits never change again, an archived run stays archived.
\<close>

theorem kintone_commands_keep_history:
  fixes now uuid :: "('s, string) prog"
  assumes "kintone_service a sv av" "guarantees (same_apps sv av) now" "guarantees (same_apps sv av) uuid"
  shows "guarantees (kintone_history sv av) (upsertNodeState (kintone_repository digest hex collate a) w) \<and>
    guarantees (kintone_history sv av) (finalizeAttempt (kintone_repository digest hex collate a) i n f) \<and>
    guarantees (kintone_history sv av) (finalizeInvocation (kintone_repository digest hex collate a) i n g) \<and>
    guarantees (kintone_history sv av) (archiveRunRecord (kintone_repository digest hex collate a) i n x) \<and>
    guarantees (kintone_history sv av) (reconcileRun (kintone_repository digest hex collate a) now uuid runId) \<and>
    guarantees (kintone_history sv av) (resolveNode (kintone_repository digest hex collate a) now input) \<and>
    guarantees (kintone_history sv av) (changeCancelRequest (kintone_repository digest hex collate a) now runId by' reason release)"
proof -
  have client: "repository_client (kintone_history sv av) (kintone_repository digest hex collate a) now uuid"
    by (rule kintone_client) (rule assms)+
  note contract = repository_client.axioms(1) [OF client]
  show ?thesis
    by (intro conjI repository_contract.writes [OF contract] repository_client.reconcileRun_keeps [OF client]
        repository_client.resolveNode_keeps [OF client] repository_client.changeCancelRequest_keeps [OF client])
qed

lemma same_pure: "guarantees (same_apps sv av) (retP x)"
  by (simp add: guarantees_def same_apps_def)

lemma kintone_commands_keep_history_witness:
  "kintone_history (\<lambda>s. storeView (ta_state s)) (\<lambda>s. storeView (ta_audit s)) \<lparr> ta_state = [], ta_audit = [] \<rparr>
     (snd (reconcileRun (kintone_repository id id (\<lambda>_ _. False) (sampleClients False)) (retP ''t'') (retP ''u'') ''run1''
        \<lparr> ta_state = [], ta_audit = [] \<rparr>))"
  by (rule guaranteesD [OF kintone_commands_keep_history [OF sample_service same_pure same_pure, THEN conjunct2, THEN conjunct2,
        THEN conjunct2, THEN conjunct2, THEN conjunct1]]) (rule prod.collapse [symmetric])

section \<open>Refinement\<close>

text \<open>
  C8: The kintone repository refines the in-memory one. Whenever apps and store hold the same records (up to
  dates, which kintone truncates) and an update of an attempt, of an invocation or of a node state returns on kintone, then the
  same call returns on the store with the same value and revision, and apps and store hold the same records again. The
  updates write no empty text for an absent value, and the node state is written without a resolution.
\<close>

theorem kintone_updates_refine_memory:
  assumes "kintone_service a sv av" "t0 \<noteq> []" "m0 \<noteq> []" "writable_finalization f" "if_finished_at g \<noteq> []"
    and "nw_expected_revision w = Some k" "nw_resolution_event w = None" "writable_state (nw_value w)"
  shows "refines_call (memory_refined digest sv av) undatedAttempt
      (setAttemptExecutionStarted (kintone_repository digest hex collate a) i n t0) (setAttemptExecutionStarted (mem_repository digest collate) i n t0) \<and>
    refines_call (memory_refined digest sv av) undatedAttempt
      (setAttemptInputBaseline (kintone_repository digest hex collate a) i n m0) (setAttemptInputBaseline (mem_repository digest collate) i n m0) \<and>
    refines_call (memory_refined digest sv av) undatedAttempt
      (finalizeAttempt (kintone_repository digest hex collate a) i n f) (finalizeAttempt (mem_repository digest collate) i n f) \<and>
    refines_call (memory_refined digest sv av) undatedInvocation
      (finalizeInvocation (kintone_repository digest hex collate a) i n g) (finalizeInvocation (mem_repository digest collate) i n g) \<and>
    refines_call (memory_refined digest sv av) undatedState
      (upsertNodeState (kintone_repository digest hex collate a) w) (upsertNodeState (mem_repository digest collate) w)"
  using assms
  by (simp add: kintone_repository_def mem_repository_def kintone_service.start_refined kintone_service.baseline_refined
      kintone_service.finalize_refined kintone_service.invocation_refined kintone_service.state_refined)

text \<open>An app and a store with one open invocation.\<close>

definition sampleInvocation :: run_invocation where
  "sampleInvocation = \<lparr> ri_invocation_id = ''i1'', ri_run_id = ''run1'', ri_mode = NEW, ri_requested_by = ''ops'', ri_host = ''h'',
     ri_started_at = ''T1'', ri_finished_at = None, ri_status = RUNNING, ri_result_code = ''PENDING'', ri_selected_node_ids = [''a''],
     ri_preserved_node_ids = [], ri_blocked_node_ids = [], ri_reason = ''r'' \<rparr>"

definition sampleFinish :: invocation_finalization where
  "sampleFinish = \<lparr> if_status = SUCCESS, if_result_code = ''OK'', if_finished_at = ''T2'', if_selected_node_ids = None,
     if_preserved_node_ids = None, if_blocked_node_ids = None, if_reason = None \<rparr>"

definition invocationApps :: two_apps where
  "invocationApps = \<lparr> ta_state = [], ta_audit = [(''INV:i1'', 1, projr (invocationRecord sampleInvocation))] \<rparr>"
definition invocationStore :: mem where
  "invocationStore = emptyMem\<lparr> m_invocations := [(''i1'', versioned sampleInvocation 1)] \<rparr>"

lemma invocation_related:
  "memory_refined padDigest (\<lambda>s. storeView (ta_state s)) (\<lambda>s. storeView (ta_audit s)) invocationApps invocationStore"
proof -
  have stored: "versionedRecord decodeInvocation (storedRecord ''INV:i1'' (1, projr (invocationRecord sampleInvocation))) =
      Inr (versioned sampleInvocation 1)"
    by code_simp
  have "implements (\<lambda>s. storeView (ta_state s)) (\<lambda>s. storeView (ta_audit s)) invocationApps invocationStore"
    unfolding implements_def
    by (auto simp: invocationApps_def invocationStore_def emptyMem_def stored_at_def storeView_def mem_attempt_def attemptRecordKey_def
        invocationKey_def stateKey_def same_as_def stored)
  moreover have "mem_wf padDigest invocationStore"
    by (simp add: mem_wf_def invocationStore_def emptyMem_def runs_wf_def cancels_wf_def invocations_wf_def states_wf_def
        attempts_wf_def resolutions_wf_def keys_distinct_def sampleInvocation_def)
  ultimately show ?thesis by (simp add: memory_refined_def)
qed

definition sampleFinalization :: attempt_finalization where
  "sampleFinalization = \<lparr> af_status = SUCCESS, af_result_code = ''OK'', af_runner_execution_started_at = None, af_execution_id = None,
     af_finished_at = ''T2'', af_duration_sec = None, af_error_message = None, af_read_count = 1, af_written_count = 1,
     af_last_successful_chunk_no = None, af_last_written_key = None \<rparr>"

definition sampleState :: node_state where
  "sampleState = \<lparr> ns_node_state_id = ''n1'', ns_node_state_key = ''S1:x'', ns_run_id = ''run1'', ns_node_id = ''a'', ns_job_id = ''j'',
     ns_status = WAITING, ns_latest_attempt_no = 0, ns_active_attempt_id = None, ns_revision = 1, ns_idempotent = True,
     ns_trigger_rule = ALL_SUCCESS, ns_blocked_by = [''b''], ns_status_reason = None, ns_started_at = None, ns_finished_at = None,
     ns_updated_at = ''T1'' \<rparr>"

lemma kintone_updates_refine_memory_witness:
  "\<exists>v t w m'. finalizeInvocation (kintone_repository padDigest id (\<lambda>_ _. False) (sampleClients False)) ''i1'' 1 sampleFinish invocationApps = (Inr v, t) \<and>
     finalizeInvocation (mem_repository padDigest (\<lambda>_ _. False)) ''i1'' 1 sampleFinish invocationStore = (Inr w, m') \<and>
     forget undatedInvocation v = forget undatedInvocation w \<and>
     memory_refined padDigest (\<lambda>s. storeView (ta_state s)) (\<lambda>s. storeView (ta_audit s)) t m'"
proof -
  let ?R = "memory_refined padDigest (\<lambda>s. storeView (ta_state s)) (\<lambda>s. storeView (ta_audit s)) :: two_apps \<Rightarrow> mem \<Rightarrow> bool"
  let ?p = "finalizeInvocation (kintone_repository padDigest id (\<lambda>_ _. False) (sampleClients False)) ''i1'' 1 sampleFinish"
  have "refines_call ?R undatedInvocation ?p (finalizeInvocation (mem_repository padDigest (\<lambda>_ _. False)) ''i1'' 1 sampleFinish)"
    by (rule kintone_updates_refine_memory [where ?t0.0 = "''T1''" and ?m0.0 = "''m''" and f = sampleFinalization and k = 1 and
          w = "\<lparr> nw_value = sampleState, nw_expected_revision = Some 1, nw_resolution_event = None \<rparr>",
          THEN conjunct2, THEN conjunct2, THEN conjunct2, THEN conjunct1])
      (simp_all add: sample_service sampleFinish_def sampleFinalization_def sampleState_def writable_finalization_def writable_state_def)
  moreover obtain t where "?p invocationApps = (Inr (versioned (finalizedInvocation sampleInvocation sampleFinish) 2), t)"
  proof -
    have "fst (?p invocationApps) = Inr (versioned (finalizedInvocation sampleInvocation sampleFinish) 2)" by code_simp
    then show thesis using that by (metis prod.collapse)
  qed
  ultimately show ?thesis using invocation_related unfolding refines_call_def by blast
qed

section \<open>Round trips\<close>

text \<open>
  C11: What is written reads back: a record of an app that holds the fields of a run, a node state, an attempt or an
  invocation decodes to that value, up to its dates and the name of its attachment, when no optional text of it is empty and, for a run,
  the limits and ids of its profile are integers below \<open>2 ^ 53\<close> and its apps have distinct names (fractional limits, which the profile
  check of \<open>ensureRun\<close> admits, are outside this statement), and a cancel request decodes to itself.
\<close>

theorem records_read_back:
  "(runRecord digest run = Inr fs \<and> holds_fields fs x \<and> writable_run run \<longrightarrow>
      (\<exists>w. decodeRun x = Inr w \<and> undatedRun w = undatedRun run)) \<and>
   (stateRecord st = Inr fs \<and> holds_fields fs x \<and> writable_state st \<longrightarrow>
      (\<exists>w. decodeState x = Inr w \<and> undatedState w = undatedState st)) \<and>
   (attemptRecord att = Inr fs \<and> holds_fields fs x \<and> writable_attempt att \<longrightarrow>
      (\<exists>w. decodeAttempt x = Inr w \<and> undatedAttempt w = undatedAttempt att)) \<and>
   (invocationRecord inv' = Inr fs \<and> holds_fields fs x \<and> writable_invocation inv' \<longrightarrow>
      (\<exists>w. decodeInvocation x = Inr w \<and> undatedInvocation w = undatedInvocation inv')) \<and>
   (cancelRequestRecord c = Inr fs \<and> holds_fields fs x \<longrightarrow> decodeCancelRequest x = Inr c)"
proof (intro conjI impI; elim conjE)
  assume r: "runRecord digest run = Inr fs" and h: "holds_fields fs x" and w: "writable_run run"
  from r obtain key where fs: "fs = runFields key run" by (auto simp: runRecord_def bindE_Inr_iff)
  show "\<exists>w. decodeRun x = Inr w \<and> undatedRun w = undatedRun run"
    by (rule run_back [OF h [unfolded fs] w])
next
  assume r: "stateRecord st = Inr fs" and h: "holds_fields fs x" and w: "writable_state st"
  show "\<exists>w. decodeState x = Inr w \<and> undatedState w = undatedState st"
    using state_back [OF holds_keyless [OF h [unfolded stateRecord_Inr [OF r]]] w] by simp
next
  assume r: "attemptRecord att = Inr fs" and h: "holds_fields fs x" and w: "writable_attempt att"
  show "\<exists>w. decodeAttempt x = Inr w \<and> undatedAttempt w = undatedAttempt att"
    using attempt_back [OF holds_keyless [OF h [unfolded attemptRecord_Inr [OF r]]] w] by simp
next
  assume r: "invocationRecord inv' = Inr fs" and h: "holds_fields fs x" and w: "writable_invocation inv'"
  show "\<exists>w. decodeInvocation x = Inr w \<and> undatedInvocation w = undatedInvocation inv'"
    by (rule invocation_back [OF h r w])
next
  assume r: "cancelRequestRecord c = Inr fs" and h: "holds_fields fs x"
  from r have fs: "mapGet fs ''run_id'' = Some (JStr (cr_run_id c))" "mapGet fs ''status_reason'' = Some (JStr (stringify (cancelDetails c)))"
    by (auto simp: cancelRequestRecord_def bindE_Inr_iff)
  show "decodeCancelRequest x = Inr c"
    by (rule cancel_back) (auto intro: text_back [OF h] simp: fs)
qed

lemma records_read_back_witness:
  "\<exists>fs w. stateRecord sampleState = Inr fs \<and> decodeState (storedRecord ''STATE:S1:x'' (1, fs)) = Inr w \<and>
     undatedState w = undatedState sampleState"
proof -
  obtain fs where fs: "stateRecord sampleState = Inr fs"
    by (auto simp: stateRecord_def uniqueKey_def sampleState_def MAX_KINTONE_UNIQUE_KEY_LENGTH_def)
  have "holds_fields fs (storedRecord ''STATE:S1:x'' (1, fs @ []))"
    by (rule holds_stored) (simp add: record_keys(4) [OF fs], simp add: sampleState_def stateKey_def)
  moreover have "writable_state sampleState" by (simp add: writable_state_def sampleState_def)
  ultimately show ?thesis
    using records_read_back [THEN conjunct2, THEN conjunct1, rule_format, of sampleState fs "storedRecord ''STATE:S1:x'' (1, fs)"] fs by auto
qed

section \<open>Inserts\<close>

lemma decodeRun_id: "decodeRun x = Inr w \<Longrightarrow> nr_run_id w = fieldText x ''run_id''"
  by (auto simp: decodeRun_def bindE_Inr_iff)

text \<open>
  C10: Creating a run on kintone is decided by the unique key of profile, network and business key. Whether the call
  returns or throws, and also when the answer to the insert is lost, no record changes but for at most one new record, under a key
  that was free; when the call returns, the record under the key is the run that was to be created.
\<close>

theorem run_created_once:
  assumes service: "kintone_service a sv av" and run: "createRun (kintone_repository digest hex collate a) run s = (r, t)"
  shows "av t = av s \<and>
    (sv t = sv s \<or> (\<exists>k x. runRecordKey digest run = Inr k \<and> sv s k = None \<and> sv t = (sv s)(k \<mapsto> x))) \<and>
    (\<forall>v. r = Inr v \<longrightarrow> nr_run_id (content v) = nr_run_id run \<and>
       (\<exists>k x. runRecordKey digest run = Inr k \<and> sv t k = Some x \<and> fieldText x ''run_id'' = nr_run_id run))"
proof (cases "\<exists>k fs. runRecordKey digest run = Inr k \<and> runRecord digest run = Inr fs")
  case False
  with run show ?thesis
    by (cases "runRecordKey digest run"; cases "runRecord digest run") (auto simp: kintone_repository_def kt_createRun_def bindP_run)
next
  case True
  then obtain k fs where k: "runRecordKey digest run = Inr k" and fs: "runRecord digest run = Inr fs" by blast
  note key = record_keys(1) [OF k fs]
  let ?same = "\<lambda>found. nr_run_id found = nr_run_id run"
  have c: "createWithAdjudication (ka_state a) k fs decodeRun ?same None s = (r, t)"
    using run by (simp add: kintone_repository_def kt_createRun_def k fs bindP_run)
  note app = kintone_service.state_app [OF service]
  have id: "mapGet fs ''run_id'' = Some (JStr (nr_run_id run))"
    using fs by (auto simp: runRecord_def runFields_def bindE_Inr_iff)
  have "insert_effect sv av k fs s t" by (rule kintone_app.app_create(1) [OF app c key])
  moreover have "nr_run_id (content v) = nr_run_id run \<and> (\<exists>x. sv t k = Some x \<and> fieldText x ''run_id'' = nr_run_id run)" if v: "r = Inr v" for v
    using kintone_app.app_create(2) [OF app c key v]
  proof (elim disjE exE conjE)
    fix x
    assume "sv t k = Some x" "versionedRecord decodeRun x = Inr v" "?same (content v)"
    then show ?thesis by (auto simp: versionedRecord_Inr dest!: decodeRun_id)
  next
    fix x
    assume x: "sv t = (sv s)(k \<mapsto> x)" "holds_fields fs x" "createdRecord decodeRun fs (revisionOf x) = Inr v"
    from x(3) obtain w where "decodeRun (fieldsRecord (fs @ [(''$revision'', JStr (revisionText (revisionOf x)))])) = Inr w" "content v = w"
      by (auto simp: createdRecord_def bindE_Inr_iff)
    moreover have "fieldText (fieldsRecord (fs @ [(''$revision'', JStr (revisionText (revisionOf x)))])) ''run_id'' = nr_run_id run"
      by (rule fieldsRecord_text) (simp add: id map_add_def)
    ultimately have "nr_run_id (content v) = nr_run_id run" by (auto dest!: decodeRun_id)
    moreover have "fieldText x ''run_id'' = nr_run_id run" by (rule text_back [OF x(2) _ id]) simp
    ultimately show ?thesis using x(1) by simp
  qed
  ultimately show ?thesis using k by (auto simp: insert_effect_def)
qed

definition storedSampleRun :: network_run where
  "storedSampleRun = sampleRun\<lparr> nr_run_id := ''run9'' \<rparr>"

text \<open>The answer to the insert is lost, and the record is found.\<close>

lemma run_created_once_witness:
  "case createRun (kintone_repository padDigest id (\<lambda>_ _. False) (sampleClients True)) sampleRun \<lparr> ta_state = [], ta_audit = [] \<rparr> of
     (r, t) \<Rightarrow> \<exists>v. r = Inr v \<and> nr_run_id (content v) = ''run1'' \<and> ta_state t \<noteq> []"
proof -
  let ?m = "createRun (kintone_repository padDigest id (\<lambda>_ _. False) (sampleClients True)) sampleRun \<lparr> ta_state = [], ta_audit = [] \<rparr>"
  have "isl (fst ?m) = False" by code_simp
  then obtain v where v: "fst ?m = Inr v" by (cases "fst ?m") auto
  from run_created_once [OF sample_service [of True] prod.collapse [symmetric], of padDigest id "\<lambda>_ _. False" sampleRun "\<lparr> ta_state = [], ta_audit = [] \<rparr>"]
    v show ?thesis by (auto simp: split_beta storeView_def sampleRun_def)
qed

section \<open>Conflicts\<close>

text \<open>
  A refused update is only reported as a conflict of revisions on the evidence of the record itself: when
  kintone has refused it with the ambiguous code \<open>GAIA_DA02\<close> and the caller is told \<open>REVISION_CONFLICT\<close>, then the record is
  gone or has a revision above the expected one.
\<close>

theorem conflict_is_real:
  assumes "kintone_service a sv av"
    and "put (ka_state a) k n fs s = (Inl (RepositoryError REVISION_CONFLICT (Some (KintoneApiError 400 (Some ''GAIA_DA02'')))), t)"
  shows "case sv t k of None \<Rightarrow> True | Some x \<Rightarrow> revisionOf x = Infinite \<or> (\<exists>r. revisionOf x = Finite r \<and> of_int n < r)"
proof -
  let ?c = "ka_state a" and ?e = "KintoneApiError 400 (Some ''GAIA_DA02'')"
  note app = kintone_service.state_app [OF assms(1)]
  obtain p u where p: "putRecord (kt_fetch ?c) (kt_app ?c) k (Finite (of_int n)) (fieldsRecord (keyless fs)) s = (p, u)"
    by fastforce
  with assms(2) obtain e where e: "adjudicateUpdate ?c k n e u = (Inl (RepositoryError REVISION_CONFLICT (Some ?e)), t)"
    by (cases p) (auto simp: put_def catchP_def bindP_run)
  obtain xs where xs: "getRecords (kt_fetch ?c) (kt_app ?c) (inQuery ''record_key'' k) u = (Inr (Some (JArr xs)), t)" "lostTarget n xs"
  proof (cases "e = ?e")
    case True
    with e that show thesis
      by (auto simp: adjudicateUpdate_def catchP_def bindP_run recordArray_def mapError_def typeError_def
          split: prod.splits sum.splits if_splits option.splits json.splits)
  next
    case False
    with e show thesis by (auto simp: adjudicateUpdate_def mapError_def split: js_error.splits if_splits)
  qed
  have "xs = (case sv t k of None \<Rightarrow> [] | Some x \<Rightarrow> [x])"
    using kintone_app.answer_of_key [OF app xs(1)] kintone_app.query [OF app xs(1)] by simp
  with xs(2) show ?thesis
    by (auto simp: lostTarget_def split: option.splits js_number.splits)
qed

lemma conflict_is_real_witness:
  "case put (ka_state (sampleClients True)) ''R1:k'' 2 [] \<lparr> ta_state = [(''R1:k'', 3, [])], ta_audit = [] \<rparr> of (r, t) \<Rightarrow>
     r = Inl (RepositoryError REVISION_CONFLICT (Some (KintoneApiError 400 (Some ''GAIA_DA02'')))) \<and>
     (\<exists>x q. storeView (ta_state t) ''R1:k'' = Some x \<and> revisionOf x = Finite q \<and> 2 < q)"
proof -
  let ?m = "put (ka_state (sampleClients True)) ''R1:k'' 2 [] \<lparr> ta_state = [(''R1:k'', 3, [])], ta_audit = [] \<rparr>"
  have r: "fst ?m = Inl (RepositoryError REVISION_CONFLICT (Some (KintoneApiError 400 (Some ''GAIA_DA02''))))"
    and t: "storeView (ta_state (snd ?m)) ''R1:k'' \<noteq> None"
    by code_simp+
  then have "?m = (Inl (RepositoryError REVISION_CONFLICT (Some (KintoneApiError 400 (Some ''GAIA_DA02'')))), snd ?m)"
    by (metis prod.collapse)
  from conflict_is_real [OF sample_service this] t r show ?thesis
    by (auto simp: split_beta storeView_def)
qed

section \<open>Keys\<close>

text \<open>
  No record is written with a key that the unique fields of the apps cannot hold: every record key, node state
  key, attempt id and attempt key that the encoders write has at most 64 characters, and so has the key of a resolution, whatever
  the digest.
\<close>

theorem written_keys_fit:
  assumes "runRecord digest run = Inr fs \<or> cancelRequestRecord c = Inr fs \<or> invocationRecord v = Inr fs \<or> stateRecord n = Inr fs \<or>
    attemptRecord w = Inr fs \<or> (\<exists>k. auditKey i = Inr k \<and> fs = auditFields k oa) \<or>
    fs = resolutionFields (resolutionRecordKey hex (ar_attempt_id r) (ar_resolved_at r)) r"
    and "code \<in> {''record_key'', ''node_state_key'', ''node_attempt_id'', ''attempt_key''}" "mapGet fs code = Some (JStr key)"
  shows "length key \<le> MAX_KINTONE_UNIQUE_KEY_LENGTH"
  using assms(1)
proof (elim disjE exE conjE)
  assume "fs = resolutionFields (resolutionRecordKey hex (ar_attempt_id r) (ar_resolved_at r)) r"
  with assms(2,3) show ?thesis
    by (auto simp: resolutionFields_def resolutionRecordKey_def MAX_RESOLUTION_DIGEST_def MAX_KINTONE_UNIQUE_KEY_LENGTH_def)
qed (use assms(2,3) in \<open>auto simp: runRecord_def runFields_def cancelRequestRecord_def invocationRecord_def stateRecord_def stateFields_def
      attemptRecord_def attemptFields_def auditKey_def auditFields_def bindE_Inr_iff uniqueKey_def split: if_splits\<close>)

lemma written_keys_fit_witness: "\<exists>fs. stateRecord sampleState = Inr fs \<and> mapGet fs ''node_state_key'' = Some (JStr ''S1:x'') \<and>
    length ''S1:x'' \<le> MAX_KINTONE_UNIQUE_KEY_LENGTH"
proof -
  obtain fs where fs: "stateRecord sampleState = Inr fs" "mapGet fs ''node_state_key'' = Some (JStr ''S1:x'')"
    by (auto simp: stateRecord_def stateFields_def uniqueKey_def sampleState_def MAX_KINTONE_UNIQUE_KEY_LENGTH_def)
  with written_keys_fit [of _ _ fs _ _ sampleState _ _ _ _ _ "''node_state_key''" "''S1:x''"] show ?thesis by blast
qed

text \<open>
  C13: Every record is written with the fields its type has in the schema, in that order. The one exception is a
  resolution, which also carries its details in the field \<open>reason\<close>, which the schema does not list for it.
\<close>

theorem records_follow_schema:
  "(runRecord digest run = Inr fs \<longrightarrow> map fst fs = KINTONE_FIELD_MAP R_NETWORK_RUN) \<and>
   (stateRecord n = Inr fs \<longrightarrow> map fst fs = KINTONE_FIELD_MAP R_NODE_STATE) \<and>
   (cancelRequestRecord c = Inr fs \<longrightarrow> map fst fs = KINTONE_FIELD_MAP R_CANCEL_REQUEST) \<and>
   (invocationRecord v = Inr fs \<longrightarrow> map fst fs = KINTONE_FIELD_MAP R_RUN_INVOCATION) \<and>
   (attemptRecord w = Inr fs \<longrightarrow> map fst fs = KINTONE_FIELD_MAP R_NODE_ATTEMPT) \<and>
   map fst (auditFields k oa) = KINTONE_FIELD_MAP R_OPERATION_AUDIT \<and>
   filter (\<lambda>code. code \<noteq> ''reason'') (map fst (resolutionFields k r)) = KINTONE_FIELD_MAP R_ATTEMPT_RESOLUTION \<and>
   ''reason'' \<in> set (map fst (resolutionFields k r)) - set (KINTONE_FIELD_MAP R_ATTEMPT_RESOLUTION)"
  by (auto simp: runRecord_def runFields_def stateRecord_def stateFields_def cancelRequestRecord_def invocationRecord_def attemptRecord_def
      attemptFields_def auditFields_def resolutionFields_def bindE_Inr_iff)

lemma records_follow_schema_witness:
  "\<exists>fs. stateRecord sampleState = Inr fs \<and> map fst fs = KINTONE_FIELD_MAP R_NODE_STATE"
proof -
  obtain fs where fs: "stateRecord sampleState = Inr fs"
    by (auto simp: stateRecord_def uniqueKey_def sampleState_def MAX_KINTONE_UNIQUE_KEY_LENGTH_def)
  with records_follow_schema [THEN conjunct2, THEN conjunct1, rule_format, of sampleState fs] show ?thesis by blast
qed

section \<open>Paging\<close>

definition recordNumber :: "kintone_record \<Rightarrow> int" where
  "recordNumber x = (case fieldNumber x ''$id'' of Finite r \<Rightarrow> \<lfloor>r\<rfloor> | _ \<Rightarrow> 0)"

text \<open>Records in the order of their \<open>$id\<close>, a positive safe integer.\<close>

definition numbered :: "kintone_record list \<Rightarrow> bool" where
  "numbered xs \<longleftrightarrow> sorted_wrt (<) (map recordNumber xs) \<and>
     (\<forall>x \<in> set xs. fieldNumber x ''$id'' = Finite (of_int (recordNumber x)) \<and> 0 < recordNumber x \<and> isSafeInteger (recordNumber x))"

text \<open>While \<open>P\<close> holds, the service answers the page after \<open>n\<close> with the first hundred records above \<open>n\<close>.\<close>

definition serves_pages :: "'s kintone_client \<Rightarrow> string \<Rightarrow> kintone_record list \<Rightarrow> ('s \<Rightarrow> bool) \<Rightarrow> bool" where
  "serves_pages c restriction xs P \<longleftrightarrow> (\<forall>s n. P s \<and> (n = 0 \<or> n \<in> recordNumber ` set xs) \<longrightarrow>
     (\<exists>t. P t \<and> getRecords (kt_fetch c) (kt_app c) (pageQuery restriction n) s =
        (Inr (Some (JArr (take PAGE_LIMIT (filter (\<lambda>x. n < recordNumber x) xs)))), t)))"

lemma numbered_tail:
  assumes "numbered xs" "filter (\<lambda>x. n < recordNumber x) xs = ys @ z # zs"
  shows "filter (\<lambda>x. recordNumber z < recordNumber x) xs = zs"
proof -
  let ?f = "filter (\<lambda>x. n < recordNumber x) xs"
  have "sorted_wrt (\<lambda>x y. recordNumber x < recordNumber y) xs" using assms(1) by (simp add: numbered_def sorted_wrt_map)
  then have "sorted_wrt (\<lambda>x y. recordNumber x < recordNumber y) ?f" by (rule sorted_wrt_filter)
  then have below: "\<forall>y \<in> set ys. recordNumber y < recordNumber z" "\<forall>y \<in> set zs. recordNumber z < recordNumber y"
    by (simp_all add: assms(2) sorted_wrt_append)
  have "z \<in> set ?f" by (simp add: assms(2))
  then have "n < recordNumber z" by simp
  then have "filter (\<lambda>x. recordNumber z < recordNumber x) xs = filter (\<lambda>x. recordNumber z < recordNumber x) ?f"
    by (auto intro: filter_cong)
  also have "\<dots> = zs"
    using below by (auto simp: assms(2) filter_empty_conv filter_id_conv dest: less_asym)
  finally show ?thesis .
qed

lemma pagedFrom_complete:
  assumes serves: "serves_pages c restriction xs P" and xs: "numbered xs"
  shows "P s \<Longrightarrow> n = 0 \<or> n \<in> recordNumber ` set xs \<Longrightarrow>
    \<exists>t. P t \<and> pagedFrom c restriction n acc s = (Inr (acc @ filter (\<lambda>x. n < recordNumber x) xs), t)"
proof (induction "length (filter (\<lambda>x. n < recordNumber x) xs)" arbitrary: n acc s rule: less_induct)
  case less
  let ?f = "filter (\<lambda>x. n < recordNumber x) xs"
  from serves less.prems obtain u where u: "P u"
    "getRecords (kt_fetch c) (kt_app c) (pageQuery restriction n) s = (Inr (Some (JArr (take PAGE_LIMIT ?f))), u)"
    unfolding serves_pages_def by blast
  then have page: "clientRecords c (pageQuery restriction n) s = (Inr (take PAGE_LIMIT ?f), u)"
    by (simp add: clientRecords_def recordArray_def bindP_run)
  show ?case
  proof (cases "length ?f < PAGE_LIMIT")
    case True
    with u(1) page show ?thesis by (auto simp: pagedFrom.simps [of c restriction n] bindP_run)
  next
    case False
    let ?page = "take PAGE_LIMIT ?f"
    from False have ne: "?page \<noteq> []" by (auto simp: PAGE_LIMIT_def)
    then have split: "?f = butlast ?page @ last ?page # drop PAGE_LIMIT ?f"
      by (metis append.assoc append_Cons append_Nil append_butlast_last_id append_take_drop_id)
    have "last ?page \<in> set ?f" using ne by (metis in_set_takeD last_in_set)
    then have z: "last ?page \<in> set xs" "n < recordNumber (last ?page)" by simp_all
    with xs have "nextId n ?page = Some (recordNumber (last ?page))"
      using ne by (simp add: nextId_def numbered_def)
    then have step: "pagedFrom c restriction n acc s = pagedFrom c restriction (recordNumber (last ?page)) (acc @ ?page) u"
      using page False by (simp add: pagedFrom.simps [of c restriction n] bindP_run)
    note rest = numbered_tail [OF xs split]
    have "length (drop PAGE_LIMIT ?f) < length ?f" using False by (simp add: PAGE_LIMIT_def)
    from less.hyps [of "recordNumber (last ?page)" u "acc @ ?page", unfolded rest, OF this u(1)] z(1)
    obtain t where "P t" "pagedFrom c restriction (recordNumber (last ?page)) (acc @ ?page) u = (Inr ((acc @ ?page) @ drop PAGE_LIMIT ?f), t)"
      by auto
    with step show ?thesis by (metis append.assoc append_take_drop_id)
  qed
qed

text \<open>
  C12: A paged listing returns, and it is complete: over a service that answers each page with the next hundred
  records in the order of \<open>$id\<close>, the result is every matching record exactly once and in this order, however many there are.
\<close>

theorem paged_listing_complete:
  assumes "serves_pages c restriction xs P" "numbered xs" "P s"
  shows "\<exists>t. P t \<and> pagedRecords c restriction s = (Inr xs, t)"
proof -
  have "filter (\<lambda>x. 0 < recordNumber x) xs = xs" using assms(2) by (simp add: numbered_def filter_id_conv)
  with pagedFrom_complete [OF assms(1,2,3), of 0 "[]"] show ?thesis by (simp add: pagedRecords_def)
qed

definition numberedRecord :: "nat \<Rightarrow> kintone_record" where
  "numberedRecord i = fieldsRecord [(''$id'', JNum (of_nat i))]"

definition pageFetch :: "string \<Rightarrow> nat \<Rightarrow> unit fetch" where
  "pageFetch restriction m req s = (Inr (appAnswer 200 (JObj [(''records'', JArr (
     case find (\<lambda>n. mapGet (hr_params req) ''query'' = Some (pageQuery restriction (int n))) [0..<Suc m] of
       None \<Rightarrow> []
     | Some n \<Rightarrow> take PAGE_LIMIT (filter (\<lambda>x. int n < recordNumber x) (map numberedRecord [1..<Suc m]))))])), s)"

lemma recordNumber_numbered [simp]: "recordNumber (numberedRecord i) = int i" "fieldNumber (numberedRecord i) ''$id'' = Finite (of_nat i)"
  by (simp_all add: recordNumber_def numberedRecord_def fieldNumber_def numberOf_def)

lemma pageQuery_inject: "pageQuery r (int n) = pageQuery r (int m) \<longleftrightarrow> n = m"
proof
  assume "pageQuery r (int n) = pageQuery r (int m)"
  then have "digitsOfNat n @ CHR '' '' # ''order by $id asc limit 100'' = digitsOfNat m @ CHR '' '' # ''order by $id asc limit 100''"
    by (simp add: pageQuery_def stringOfInt_def)
  moreover have "CHR '' '' \<notin> set (digitsOfNat k)" for k using digitsOfNat_chars [of "CHR '' ''" k] by auto
  ultimately have "digitsOfNat n = digitsOfNat m" by (auto dest!: append_sep_inject)
  then show "n = m" by simp
qed simp

lemma pageFetch_serves:
  "serves_pages \<lparr> kt_fetch = pageFetch r m, kt_app = 1 \<rparr> r (map numberedRecord [1..<Suc m]) (\<lambda>_. True)"
proof -
  have run: "getRecords (pageFetch r m) 1 (pageQuery r (int n)) () =
      (Inr (Some (JArr (take PAGE_LIMIT (filter (\<lambda>x. int n < recordNumber x) (map numberedRecord [1..<Suc m]))))), ())" if "n \<le> m" for n
  proof -
    have "find ((=) n) [0..<Suc m] = Some n"
      using that by (auto simp: find_Some_iff nth_append intro!: exI [of _ n])
    then show ?thesis
      by (simp add: getRecords_def request_def bindP_run pageFetch_def pageQuery_inject appAnswer_def property_def jsonGet_def
          del: upt_Suc)
  qed
  show ?thesis
    unfolding serves_pages_def
  proof (intro allI impI, elim conjE)
    fix s :: unit and n
    assume "n = 0 \<or> n \<in> recordNumber ` set (map numberedRecord [1..<Suc m])"
    then obtain k where "n = int k" "k \<le> m" by (auto simp: less_Suc_eq_le)
    with run [of k] show "\<exists>t. True \<and> getRecords (kt_fetch \<lparr> kt_fetch = pageFetch r m, kt_app = 1 \<rparr>)
        (kt_app \<lparr> kt_fetch = pageFetch r m, kt_app = 1 \<rparr>) (pageQuery r n) s =
        (Inr (Some (JArr (take PAGE_LIMIT (filter (\<lambda>x. n < recordNumber x) (map numberedRecord [1..<Suc m]))))), t)"
      by simp
  qed
qed

lemma paged_listing_complete_witness:
  "pagedRecords \<lparr> kt_fetch = pageFetch ''q'' 250, kt_app = 1 \<rparr> ''q'' () = (Inr (map numberedRecord [1..<251]), ())"
proof -
  have "numbered (map numberedRecord [1..<Suc 250])"
    by (auto simp: numbered_def isSafeInteger_def sorted_wrt_iff_nth_less simp del: upt_Suc)
  from paged_listing_complete [OF pageFetch_serves this, of "''q''" "()"] show ?thesis by (simp del: upt_Suc)
qed

end
