(* ===== verification/Requests.thy ===== *)
theory Requests
  imports KintoneCodec BusinessKey
begin

text \<open>
  Requests for an operation, records of the request app: \<open>src/requests/request-model.ts\<close>. A request is read in two
  steps, the envelope that settles a cancellation and the whole record, which is validated field by field. A revision is
  a JavaScript number, \<open>Number($revision)\<close>. Texts of the source with characters beyond 255 are their bytes in UTF-8: they
  are compared and stored, never taken apart. A validation issue is its code and its field.
\<close>

section \<open>Texts beyond the modelled characters\<close>

definition utf8Char :: "nat \<Rightarrow> string" where
  "utf8Char n =
     (if n < 128 then [char_of n]
      else if n < 2048 then [char_of (192 + n div 64), char_of (128 + n mod 64)]
      else [char_of (224 + n div 4096), char_of (128 + n div 64 mod 64), char_of (128 + n mod 64)])"

definition utf8 :: "nat list \<Rightarrow> string" where
  "utf8 ns = concat (map utf8Char ns)"

text \<open>The fields ``creator'' and ``created at'' of every kintone app, and the choice ``cancel''.\<close>

definition CREATOR_FIELD :: string where "CREATOR_FIELD = utf8 [20316, 25104, 32773]"
definition CREATED_AT_FIELD :: string where "CREATED_AT_FIELD = utf8 [20316, 25104, 26085, 26178]"
definition CANCEL_CHOICE :: string where "CANCEL_CHOICE = utf8 [21462, 28040]"

section \<open>Records\<close>

datatype request_type = Rerun | Stop | Release | Start | Close

definition REQUEST_TYPES :: "request_type list" where "REQUEST_TYPES = [Rerun, Stop, Release, Start, Close]"

fun requestTypeText :: "request_type \<Rightarrow> string" where
  "requestTypeText Rerun = ''RERUN''"
| "requestTypeText Stop = ''STOP''"
| "requestTypeText Release = ''RELEASE''"
| "requestTypeText Start = ''START''"
| "requestTypeText Close = ''CLOSE''"

datatype request_state = Requested | Accepted | Done | Rejected | Cancelled

definition REQUEST_STATES :: "request_state list" where
  "REQUEST_STATES = [Requested, Accepted, Done, Rejected, Cancelled]"

fun requestStateText :: "request_state \<Rightarrow> string" where
  "requestStateText Requested = ''REQUESTED''"
| "requestStateText Accepted = ''ACCEPTED''"
| "requestStateText Done = ''DONE''"
| "requestStateText Rejected = ''REJECTED''"
| "requestStateText Cancelled = ''CANCELLED''"

text \<open>\<open>boolean | "INVALID"\<close>: \<open>None\<close> is the latter.\<close>

record request_envelope =
  re_id :: string
  re_revision :: js_number
  re_requestState :: request_state
  re_cancelRequested :: "bool option"

record request_record =
  rq_id :: string
  rq_revision :: js_number
  rq_creatorCode :: string
  rq_createdAt :: string
  rq_requestType :: request_type
  rq_runId :: string
  rq_networkId :: "string option"
  rq_businessKey :: "string option"
  rq_scheduledFor :: "string option"
  rq_rerunFromNode :: "string option"
  rq_reason :: string
  rq_requestState :: request_state
  rq_cancelRequested :: bool
  rq_claimedAt :: "string option"
  rq_claimedHost :: "string option"
  rq_claimHeartbeatAt :: "string option"
  rq_resultCode :: "string option"
  rq_resultMessage :: "string option"

type_synonym request_issue = "string \<times> string"

section \<open>Reading fields\<close>

definition issueError :: "string \<Rightarrow> string \<Rightarrow> js_error" where
  "issueError code field = RequestValidationError [(code, field)]"

definition rawValue :: "kintone_record \<Rightarrow> string \<Rightarrow> js_error + json option" where
  "rawValue rec field = (if rec = JNull then Inl typeError else Inr (fieldValue rec field))"

definition stringValue :: "kintone_record \<Rightarrow> string \<Rightarrow> js_error + string" where
  "stringValue rec field = bindE (rawValue rec field) (\<lambda>v. case v of
     Some (JStr s) \<Rightarrow> Inr s
   | _ \<Rightarrow> Inl (issueError ''FIELD_TYPE_INVALID'' field))"

definition optionalString :: "kintone_record \<Rightarrow> string \<Rightarrow> js_error + string option" where
  "optionalString rec field = bindE (stringValue rec field) (\<lambda>s. Inr (if s = [] then None else Some s))"

text \<open>\<open>Object.hasOwn(record, field)\<close>\<close>

definition hasOwn :: "kintone_record \<Rightarrow> string \<Rightarrow> js_error + bool" where
  "hasOwn rec field = (if rec = JNull then Inl typeError else Inr (jsonGet rec field \<noteq> None))"

definition additiveOptionalString :: "kintone_record \<Rightarrow> string \<Rightarrow> js_error + string option" where
  "additiveOptionalString rec field = bindE (hasOwn rec field) (\<lambda>own.
     if \<not> own then Inr None else optionalString rec field)"

definition creatorCode :: "kintone_record \<Rightarrow> js_error + string" where
  "creatorCode rec = bindE (rawValue rec CREATOR_FIELD) (\<lambda>v.
     case Option.bind v (\<lambda>x. jsonGet x ''code'') of
       Some (JStr s) \<Rightarrow> Inr s
     | _ \<Rightarrow> Inl (issueError ''CREATOR_INVALID'' CREATOR_FIELD))"

definition cancelRequested :: "kintone_record \<Rightarrow> js_error + bool" where
  "cancelRequested rec = bindE (hasOwn rec ''cancel_requested'') (\<lambda>own.
     if \<not> own then Inr False
     else bindE (rawValue rec ''cancel_requested'') (\<lambda>v. case v of
       Some (JArr xs) \<Rightarrow>
         if length xs > 1 \<or> list_ex (\<lambda>x. x \<noteq> JStr CANCEL_CHOICE) xs
         then Inl (issueError ''FIELD_TYPE_INVALID'' ''cancel_requested'')
         else Inr (length xs = 1)
     | _ \<Rightarrow> Inl (issueError ''FIELD_TYPE_INVALID'' ''cancel_requested'')))"

definition choice :: "('a \<Rightarrow> string) \<Rightarrow> string \<Rightarrow> 'a list \<Rightarrow> string \<Rightarrow> js_error + 'a" where
  "choice text' v allowed field = (case fromText text' allowed v of
     Some x \<Rightarrow> Inr x
   | None \<Rightarrow> Inl (issueError ''UNKNOWN_CHOICE'' field))"

text \<open>
  A text of the form \<open>/^\d{4}-\d{2}-\d{2}T\d{2}:\d{2}:\d{2}(?:\.\d{3})?Z$/\<close> is what \<open>toISOString\<close> writes for it, up to
  the milliseconds, exactly when it is a date of the calendar and a time of the day.
\<close>

definition isoSuffix :: "string \<Rightarrow> bool" where
  "isoSuffix s \<longleftrightarrow> s = ''Z'' \<or> (case takeChar CHR ''.'' s of
     None \<Rightarrow> False
   | Some r \<Rightarrow> (case takeDigits 3 r of None \<Rightarrow> False | Some (_, r') \<Rightarrow> r' = ''Z''))"

definition isoClock :: "string \<Rightarrow> bool" where
  "isoClock s \<longleftrightarrow>
     (case Option.bind (takeDigits 2 s) (\<lambda>(hour, r1). Option.bind (takeChar CHR '':'' r1) (\<lambda>r2.
       Option.bind (takeDigits 2 r2) (\<lambda>(minute, r3). Option.bind (takeChar CHR '':'' r3) (\<lambda>r4.
       Option.bind (takeDigits 2 r4) (\<lambda>(sec, r5). Some (hour, minute, sec, r5)))))) of
        None \<Rightarrow> False
      | Some (hour, minute, sec, rest) \<Rightarrow> hour \<le> 23 \<and> minute \<le> 59 \<and> sec \<le> 59 \<and> isoSuffix rest)"

definition isIsoDateTime :: "string \<Rightarrow> bool" where
  "isIsoDateTime s \<longleftrightarrow>
     (case Option.bind (matchDate s) (\<lambda>(d, r1). Option.bind (takeChar CHR ''T'' r1) (\<lambda>r2. Some (d, r2))) of
        None \<Rightarrow> False
      | Some ((year, month, day), rest) \<Rightarrow>
          1 \<le> month \<and> month \<le> 12 \<and> 1 \<le> day \<and> day \<le> daysInMonth year month \<and> isoClock rest)"

section \<open>Validation\<close>

definition issueIf :: "bool \<Rightarrow> string \<Rightarrow> string \<Rightarrow> request_issue list" where
  "issueIf b code field = (if b then [(code, field)] else [])"

definition lengthIssue :: "string \<Rightarrow> string option \<Rightarrow> nat \<Rightarrow> request_issue list" where
  "lengthIssue field v maximum = issueIf (case v of None \<Rightarrow> False | Some s \<Rightarrow> length s > maximum) ''VALUE_TOO_LONG'' field"

definition blank :: "string \<Rightarrow> bool" where "blank s \<longleftrightarrow> trim s = []"

text \<open>\<open>/^\d+$/\<close>\<close>

definition decimalId :: "string \<Rightarrow> bool" where "decimalId s \<longleftrightarrow> s \<noteq> [] \<and> list_all isDigit s"

definition positiveRevision :: "js_number \<Rightarrow> bool" where
  "positiveRevision n \<longleftrightarrow> (case n of Finite r \<Rightarrow> of_int \<lfloor>r\<rfloor> = r \<and> isSafeInteger \<lfloor>r\<rfloor> \<and> 1 \<le> r | _ \<Rightarrow> False)"

text \<open>\<open>REQUEST_VALUE_LIMITS\<close>: run_id, network_id, business_key, rerun_from_node and result_code, then the longer ones.\<close>

definition CODE_LIMIT :: nat where "CODE_LIMIT = 128"
definition PERSON_LIMIT :: nat where "PERSON_LIMIT = 256"
definition TEXT_LIMIT :: nat where "TEXT_LIMIT = 65535"

definition lengthIssues :: "request_record \<Rightarrow> request_issue list" where
  "lengthIssues r =
     lengthIssue ''run_id'' (Some (rq_runId r)) CODE_LIMIT @
     lengthIssue ''network_id'' (rq_networkId r) CODE_LIMIT @
     lengthIssue ''business_key'' (rq_businessKey r) CODE_LIMIT @
     lengthIssue ''rerun_from_node'' (rq_rerunFromNode r) CODE_LIMIT @
     lengthIssue ''reason'' (Some (rq_reason r)) TEXT_LIMIT @
     lengthIssue CREATOR_FIELD (Some (rq_creatorCode r)) PERSON_LIMIT @
     lengthIssue ''claimed_host'' (rq_claimedHost r) PERSON_LIMIT @
     lengthIssue ''result_code'' (rq_resultCode r) CODE_LIMIT @
     lengthIssue ''result_message'' (rq_resultMessage r) TEXT_LIMIT"

definition claimCount :: "request_record \<Rightarrow> nat" where
  "claimCount r = length (filter (\<lambda>v. v \<noteq> None) [rq_claimedAt r, rq_claimedHost r, rq_claimHeartbeatAt r])"

definition claimIssues :: "request_record \<Rightarrow> request_issue list" where
  "claimIssues r =
     issueIf (claimCount r \<noteq> 0 \<and> claimCount r \<noteq> 3) ''CLAIM_FIELDS_INCOMPLETE'' ''claimed_at'' @
     issueIf (case rq_claimedHost r of None \<Rightarrow> False | Some h \<Rightarrow> blank h) ''REQUIRED'' ''claimed_host'' @
     issueIf (case rq_claimedAt r of None \<Rightarrow> False | Some t \<Rightarrow> \<not> isIsoDateTime t) ''DATETIME_INVALID'' ''claimed_at'' @
     issueIf (case rq_claimHeartbeatAt r of None \<Rightarrow> False | Some t \<Rightarrow> \<not> isIsoDateTime t)
       ''DATETIME_INVALID'' ''claim_heartbeat_at''"

definition hasResult :: "request_record \<Rightarrow> bool" where
  "hasResult r \<longleftrightarrow> rq_resultCode r \<noteq> None \<or> rq_resultMessage r \<noteq> None"

definition stateIssues :: "request_record \<Rightarrow> request_issue list" where
  "stateIssues r =
     (if rq_requestState r = Requested then
        issueIf (claimCount r \<noteq> 0 \<or> hasResult r) ''STATE_FIELDS_INVALID'' ''request_state''
      else if rq_requestState r = Accepted then
        issueIf (claimCount r \<noteq> 3 \<or> hasResult r) ''STATE_FIELDS_INVALID'' ''request_state''
      else issueIf (case rq_resultCode r of None \<Rightarrow> True | Some c \<Rightarrow> blank c) ''RESULT_REQUIRED'' ''result_code'') @
     issueIf (rq_requestState r = Cancelled \<and> claimCount r \<noteq> 0) ''STATE_FIELDS_INVALID'' ''request_state''"

definition validateRequestRecord :: "request_record \<Rightarrow> request_issue list" where
  "validateRequestRecord r =
     issueIf (\<not> decimalId (rq_id r)) ''ID_INVALID'' ''$id'' @
     issueIf (\<not> positiveRevision (rq_revision r)) ''REVISION_INVALID'' ''$revision'' @
     issueIf (\<not> isIsoDateTime (rq_createdAt r)) ''DATETIME_INVALID'' CREATED_AT_FIELD @
     issueIf (rq_requestType r \<noteq> Start \<and> blank (rq_runId r)) ''REQUIRED'' ''run_id'' @
     issueIf (blank (rq_reason r)) ''REQUIRED'' ''reason'' @
     issueIf (blank (rq_creatorCode r)) ''REQUIRED'' CREATOR_FIELD @
     lengthIssues r @
     issueIf (rq_requestType r \<noteq> Rerun \<and> rq_rerunFromNode r \<noteq> None) ''FIELD_NOT_ALLOWED'' ''rerun_from_node'' @
     claimIssues r @
     stateIssues r"

section \<open>Parsing\<close>

definition parseRequestEnvelope :: "kintone_record \<Rightarrow> js_error + request_envelope" where
  "parseRequestEnvelope rec =
     bindE (stringValue rec ''$revision'') (\<lambda>revisionText.
     let cancellation = (case cancelRequested rec of Inr b \<Rightarrow> Some b | Inl _ \<Rightarrow> None) in
     bindE (stringValue rec ''$id'') (\<lambda>i.
     bindE (stringValue rec ''request_state'') (\<lambda>stateText.
     bindE (choice requestStateText stateText REQUEST_STATES ''request_state'') (\<lambda>st.
     let n = numberOfText revisionText;
         issues = issueIf (\<not> decimalId i) ''ID_INVALID'' ''$id'' @
           issueIf (\<not> positiveRevision n) ''REVISION_INVALID'' ''$revision'' in
     if issues \<noteq> [] then Inl (RequestValidationError issues)
     else Inr \<lparr> re_id = i, re_revision = n, re_requestState = st, re_cancelRequested = cancellation \<rparr>))))"

definition parseRequestFields :: "kintone_record \<Rightarrow> js_error + request_record" where
  "parseRequestFields rec =
     bindE (stringValue rec ''$revision'') (\<lambda>revisionText.
     bindE (stringValue rec ''$id'') (\<lambda>i.
     bindE (creatorCode rec) (\<lambda>creator.
     bindE (stringValue rec CREATED_AT_FIELD) (\<lambda>createdAt.
     bindE (stringValue rec ''request_type'') (\<lambda>typeText.
     bindE (choice requestTypeText typeText REQUEST_TYPES ''request_type'') (\<lambda>ty.
     bindE (stringValue rec ''run_id'') (\<lambda>runId.
     bindE (additiveOptionalString rec ''network_id'') (\<lambda>networkId.
     bindE (additiveOptionalString rec ''business_key'') (\<lambda>businessKey.
     bindE (additiveOptionalString rec ''scheduled_for'') (\<lambda>scheduledFor.
     bindE (optionalString rec ''rerun_from_node'') (\<lambda>rerunFromNode.
     bindE (stringValue rec ''reason'') (\<lambda>reason.
     bindE (stringValue rec ''request_state'') (\<lambda>stateText.
     bindE (choice requestStateText stateText REQUEST_STATES ''request_state'') (\<lambda>st.
     bindE (cancelRequested rec) (\<lambda>cancelled.
     bindE (optionalString rec ''claimed_at'') (\<lambda>claimedAt.
     bindE (optionalString rec ''claimed_host'') (\<lambda>claimedHost.
     bindE (optionalString rec ''claim_heartbeat_at'') (\<lambda>heartbeatAt.
     bindE (optionalString rec ''result_code'') (\<lambda>resultCode.
     bindE (optionalString rec ''result_message'') (\<lambda>resultMessage.
     Inr \<lparr> rq_id = i, rq_revision = numberOfText revisionText, rq_creatorCode = creator, rq_createdAt = createdAt,
       rq_requestType = ty, rq_runId = runId, rq_networkId = networkId, rq_businessKey = businessKey,
       rq_scheduledFor = scheduledFor, rq_rerunFromNode = rerunFromNode, rq_reason = reason, rq_requestState = st,
       rq_cancelRequested = cancelled, rq_claimedAt = claimedAt, rq_claimedHost = claimedHost,
       rq_claimHeartbeatAt = heartbeatAt, rq_resultCode = resultCode, rq_resultMessage = resultMessage \<rparr>))))))))))))))))))))"

definition parseRequestRecord :: "kintone_record \<Rightarrow> js_error + request_record" where
  "parseRequestRecord rec = bindE (parseRequestFields rec) (\<lambda>parsed.
     let issues = validateRequestRecord parsed in
     if issues \<noteq> [] then Inl (RequestValidationError issues) else Inr parsed)"

end
