(* ===== verification/RequestStore.thy ===== *)
theory RequestStore
  imports Requests KintoneRepository
begin

text \<open>
  The store of requests, \<open>src/requests/kintone-request-store.ts\<close>: the operations of the poller on the request app, over
  the REST client. Every write names the revision it was decided on. \<open>result\<close> is what ends a request.
\<close>

section \<open>State\<close>

definition DEFAULT_REQUEST_FETCH_LIMIT :: int where "DEFAULT_REQUEST_FETCH_LIMIT = 100"
definition MAX_REQUEST_FETCH_LIMIT :: int where "MAX_REQUEST_FETCH_LIMIT = 500"

record 's request_store =
  rs_client :: "'s kintone_client"
  rs_fetchLimit :: int

definition newRequestStore :: "'s kintone_client \<Rightarrow> int option \<Rightarrow> js_error + 's request_store" where
  "newRequestStore client limit =
     (let fetchLimit = (case limit of None \<Rightarrow> DEFAULT_REQUEST_FETCH_LIMIT | Some n \<Rightarrow> n) in
      if \<not> isSafeInteger fetchLimit \<or> fetchLimit < 1 \<or> fetchLimit > MAX_REQUEST_FETCH_LIMIT
      then Inl (PlainError ''RangeError'')
      else Inr \<lparr> rs_client = client, rs_fetchLimit = fetchLimit \<rparr>)"

record request_result =
  rr_state :: request_state
  rr_code :: string
  rr_message :: string

record invalid_request =
  iv_envelope :: request_envelope
  iv_issues :: "request_issue list"

record requested_records =
  qr_valid :: "request_record list"
  qr_invalid :: "invalid_request list"
  qr_skipped :: nat

definition textEntry :: "string \<Rightarrow> string \<Rightarrow> string \<times> json" where
  "textEntry code v = (code, JStr v)"

definition requestConflict :: "js_error \<Rightarrow> bool" where
  "requestConflict error = (case error of
     KintoneApiError st code \<Rightarrow> st = 409 \<or> code = Some ''GAIA_CO02'' \<or> code = Some ''GAIA_DA02''
   | _ \<Rightarrow> False)"

definition terminalMatches :: "request_record \<Rightarrow> request_result \<Rightarrow> bool" where
  "terminalMatches r result \<longleftrightarrow>
     rq_requestState r = rr_state result \<and> rq_resultCode r = Some (rr_code result) \<and>
     rq_resultMessage r = Some (rr_message result)"

definition assertValid :: "request_record \<Rightarrow> js_error + unit" where
  "assertValid r = (let issues = validateRequestRecord r in
     if issues \<noteq> [] then Inl (RequestValidationError issues) else Inr ())"

definition storeRecords :: "'s request_store \<Rightarrow> string \<Rightarrow> ('s, kintone_record list) prog" where
  "storeRecords S query = clientRecords (rs_client S) query"

definition storePut :: "'s request_store \<Rightarrow> string \<Rightarrow> js_number \<Rightarrow> (string \<times> json) list \<Rightarrow> ('s, js_number) prog" where
  "storePut S i n fs = putRecordById (kt_fetch (rs_client S)) (kt_app (rs_client S)) i n (fieldsRecord fs)"

definition resultFields :: "request_result \<Rightarrow> (string \<times> json) list" where
  "resultFields result =
     [textEntry ''request_state'' (requestStateText (rr_state result)), textEntry ''result_code'' (rr_code result),
      textEntry ''result_message'' (rr_message result)]"

section \<open>Listing\<close>

definition limitText :: "'s request_store \<Rightarrow> string" where
  "limitText S = '' limit '' @ stringOfInt (rs_fetchLimit S)"

definition requestedQuery :: "'s request_store \<Rightarrow> string" where
  "requestedQuery S = inQuery ''request_state'' ''REQUESTED'' @ '' order by '' @ CREATED_AT_FIELD @ '' asc, $id asc'' @ limitText S"

definition acceptedQuery :: "'s request_store \<Rightarrow> string" where
  "acceptedQuery S = inQuery ''request_state'' ''ACCEPTED'' @ '' order by claim_heartbeat_at asc, $id asc'' @ limitText S"

definition idQuery :: "string \<Rightarrow> string" where
  "idQuery i = ''$id in ('' @ [CHR 0x22] @ i @ [CHR 0x22] @ '') limit 1''"

text \<open>One turn of the loop over the records.\<close>

definition sortRequest :: "kintone_record \<Rightarrow> requested_records \<Rightarrow> js_error + requested_records" where
  "sortRequest rec q = (case parseRequestEnvelope rec of
     Inl _ \<Rightarrow> Inr (q\<lparr>qr_skipped := qr_skipped q + 1\<rparr>)
   | Inr envelope \<Rightarrow> (case parseRequestRecord rec of
       Inr r \<Rightarrow> Inr (q\<lparr>qr_valid := qr_valid q @ [r]\<rparr>)
     | Inl (RequestValidationError issues) \<Rightarrow>
         Inr (q\<lparr>qr_invalid := qr_invalid q @ [\<lparr> iv_envelope = envelope, iv_issues = issues \<rparr>]\<rparr>)
     | Inl error \<Rightarrow> Inl error))"

fun sortRequests :: "kintone_record list \<Rightarrow> requested_records \<Rightarrow> js_error + requested_records" where
  "sortRequests [] q = Inr q"
| "sortRequests (rec # recs) q = bindE (sortRequest rec q) (\<lambda>q'. sortRequests recs q')"

definition listRequested :: "'s request_store \<Rightarrow> ('s, requested_records) prog" where
  "listRequested S = bindP (storeRecords S (requestedQuery S)) (\<lambda>records.
     liftP (sortRequests records \<lparr> qr_valid = [], qr_invalid = [], qr_skipped = 0 \<rparr>))"

definition listAccepted :: "'s request_store \<Rightarrow> ('s, request_record list) prog" where
  "listAccepted S = bindP (storeRecords S (acceptedQuery S)) (\<lambda>records. liftP (mapE parseRequestRecord records))"

definition getRequestById :: "'s request_store \<Rightarrow> string \<Rightarrow> ('s, request_record option) prog" where
  "getRequestById S i = bindP (storeRecords S (idQuery i)) (\<lambda>records. case records of
     [] \<Rightarrow> retP None
   | rec # _ \<Rightarrow> bindP (liftP (parseRequestRecord rec)) (\<lambda>r. retP (Some r)))"

section \<open>Moving a request\<close>

text \<open>\<open>true\<close> or \<open>false\<close> of \<open>try { put } catch (error) { if (conflict(error)) ...; throw error }\<close>.\<close>

definition putUnlessConflict :: "'s request_store \<Rightarrow> string \<Rightarrow> js_number \<Rightarrow> (string \<times> json) list \<Rightarrow> ('s, js_number option) prog" where
  "putUnlessConflict S i n fs =
     catchP (bindP (storePut S i n fs) (\<lambda>m. retP (Some m)))
       (\<lambda>error. if requestConflict error then retP None else throwP error)"

definition cancelBeforeClaim :: "'s request_store \<Rightarrow> request_envelope \<Rightarrow> request_result \<Rightarrow> ('s, bool) prog" where
  "cancelBeforeClaim S req result =
     (if re_requestState req \<noteq> Requested \<or> re_cancelRequested req \<noteq> Some True \<or> rr_state result \<noteq> Cancelled
      then throwP (PlainError ''Error'')
      else bindP (putUnlessConflict S (re_id req) (re_revision req) (resultFields result)) (\<lambda>done'.
        retP (done' \<noteq> None)))"

definition rejectInvalid :: "'s request_store \<Rightarrow> invalid_request \<Rightarrow> request_result \<Rightarrow> ('s, unit) prog" where
  "rejectInvalid S req result =
     (if rr_state result \<noteq> Rejected then throwP (PlainError ''Error'')
      else bindP (putUnlessConflict S (re_id (iv_envelope req)) (re_revision (iv_envelope req)) (resultFields result)) (\<lambda>_.
        retP ()))"

definition claimedRecord :: "request_record \<Rightarrow> string \<Rightarrow> string \<Rightarrow> request_record" where
  "claimedRecord req host now = req\<lparr> rq_requestState := Accepted, rq_claimedAt := Some now, rq_claimedHost := Some host,
     rq_claimHeartbeatAt := Some now \<rparr>"

definition claimFields :: "string \<Rightarrow> string \<Rightarrow> (string \<times> json) list" where
  "claimFields host now = [textEntry ''request_state'' ''ACCEPTED'', textEntry ''claimed_at'' now, textEntry ''claimed_host'' host,
     textEntry ''claim_heartbeat_at'' now]"

definition claim :: "'s request_store \<Rightarrow> request_record \<Rightarrow> string \<Rightarrow> string \<Rightarrow> ('s, request_record option) prog" where
  "claim S req host now =
     (if rq_requestState req \<noteq> Requested then throwP (PlainError ''Error'')
      else bindP (liftP (assertValid (claimedRecord req host now))) (\<lambda>_.
        bindP (putUnlessConflict S (rq_id req) (rq_revision req) (claimFields host now)) (\<lambda>n.
        retP (map_option (\<lambda>n. (claimedRecord req host now)\<lparr>rq_revision := n\<rparr>) n))))"

definition requestHeartbeat :: "'s request_store \<Rightarrow> request_record \<Rightarrow> string \<Rightarrow> ('s, request_record) prog" where
  "requestHeartbeat S req now =
     (if rq_requestState req \<noteq> Accepted then throwP (PlainError ''Error'')
      else (let updated = req\<lparr>rq_claimHeartbeatAt := Some now\<rparr> in
        bindP (liftP (assertValid updated)) (\<lambda>_.
        bindP (storePut S (rq_id req) (rq_revision req) [textEntry ''claim_heartbeat_at'' now]) (\<lambda>n.
        retP (updated\<lparr>rq_revision := n\<rparr>)))))"

definition resultRecord :: "request_record \<Rightarrow> request_result \<Rightarrow> js_number \<Rightarrow> request_record" where
  "resultRecord req result n = req\<lparr> rq_requestState := rr_state result, rq_resultCode := Some (rr_code result),
     rq_resultMessage := Some (rr_message result), rq_revision := n \<rparr>"

text \<open>After a conflict the request is read again and, unless it holds the result already, written once more.\<close>

definition writeAgain :: "'s request_store \<Rightarrow> string \<Rightarrow> request_result \<Rightarrow> ('s, request_record) prog" where
  "writeAgain S i result =
     bindP (getRequestById S i) (\<lambda>current. case current of
       None \<Rightarrow> throwP (PlainError ''Error'')
     | Some c \<Rightarrow>
         if terminalMatches c result then retP c
         else bindP (storePut S (rq_id c) (rq_revision c) (resultFields result)) (\<lambda>n. retP (resultRecord c result n)))"

definition writeResult :: "'s request_store \<Rightarrow> request_record \<Rightarrow> request_result \<Rightarrow> ('s, request_record) prog" where
  "writeResult S req result =
     (if rq_requestState req \<noteq> Accepted \<and> \<not> (rq_requestState req = Requested \<and> rr_state result = Rejected)
      then throwP (PlainError ''Error'')
      else bindP (liftP (assertValid (resultRecord req result (rq_revision req)))) (\<lambda>_.
        bindP (putUnlessConflict S (rq_id req) (rq_revision req) (resultFields result)) (\<lambda>n. case n of
          Some m \<Rightarrow> retP (resultRecord req result m)
        | None \<Rightarrow> writeAgain S (rq_id req) result)))"

end
