(* ===== verification/RequestResult.thy ===== *)
theory RequestResult
  imports RequestStore
begin

text \<open>
  What the end of a child process means for the request: \<open>src/requests/request-result.ts\<close>. The output of a child is the
  JSON value it printed (\<open>JNull\<close> when there was none), checked member by member before it is believed.
\<close>

section \<open>The child process\<close>

record child_result =
  cx_exitCode :: "int option"
  cx_stdout :: string
  cx_stderr :: string
  cx_stdoutTruncated :: bool
  cx_stderrTruncated :: bool
  cx_spawnError :: "string option"

record child_output =
  co_output :: json
  co_process :: child_result

definition rejectedResult :: "string \<Rightarrow> string \<Rightarrow> request_result" where
  "rejectedResult code message = \<lparr> rr_state = Rejected, rr_code = code, rr_message = message \<rparr>"

definition doneResult :: "string \<Rightarrow> string \<Rightarrow> request_result" where
  "doneResult code message = \<lparr> rr_state = Done, rr_code = code, rr_message = message \<rparr>"

section \<open>Members of the output\<close>

definition outputText :: "json \<Rightarrow> string \<Rightarrow> string option" where
  "outputText v k = (case jsonGet v k of Some (JStr s) \<Rightarrow> Some s | _ \<Rightarrow> None)"

definition outputTexts :: "json \<Rightarrow> string \<Rightarrow> string list" where
  "outputTexts v k = (case jsonGet v k of Some (JArr xs) \<Rightarrow> map textOfElement xs | _ \<Rightarrow> [])"

definition isText :: "json \<Rightarrow> bool" where
  "isText v \<longleftrightarrow> (case v of JStr _ \<Rightarrow> True | _ \<Rightarrow> False)"

definition textOrNull :: "json \<Rightarrow> string \<Rightarrow> bool" where
  "textOrNull v k \<longleftrightarrow> (case jsonGet v k of Some x \<Rightarrow> isText x \<or> x = JNull | None \<Rightarrow> False)"

definition textsOrAbsent :: "json \<Rightarrow> string \<Rightarrow> bool" where
  "textsOrAbsent v k \<longleftrightarrow> (case jsonGet v k of None \<Rightarrow> True | Some (JArr xs) \<Rightarrow> list_all isText xs | _ \<Rightarrow> False)"

definition validRunNetworkOutput :: "json \<Rightarrow> bool" where
  "validRunNetworkOutput v \<longleftrightarrow>
     outputText v ''outcome'' \<in> set (map Some [''NEW'', ''RESUME'', ''NOOP'', ''REJECTED'']) \<and>
     textOrNull v ''run_id'' \<and> textOrNull v ''invocation_id'' \<and> textOrNull v ''aggregate_status'' \<and>
     (case outputText v ''invocation_result_code'' of None \<Rightarrow> False | Some code \<Rightarrow> code \<noteq> []) \<and>
     textsOrAbsent v ''retry_brake_node_ids'' \<and> textsOrAbsent v ''blocked_run_ids''"

definition resultCodeOf :: "json \<Rightarrow> string" where
  "resultCodeOf v = (case outputText v ''invocation_result_code'' of None \<Rightarrow> [] | Some code \<Rightarrow> code)"

definition aggregateText :: "json \<Rightarrow> string \<Rightarrow> string" where
  "aggregateText v otherwise = ''aggregate='' @ (case outputText v ''aggregate_status'' of None \<Rightarrow> otherwise | Some st \<Rightarrow> st)"

section \<open>Resumed and started runs\<close>

text \<open>The branches that follow when there is no Invocation and no finished run.\<close>

definition spawnFailed :: "string \<Rightarrow> request_result" where
  "spawnFailed message = rejectedResult ''CHILD_SPAWN_FAILED'' message"

definition noRunOutput :: request_result where
  "noRunOutput = rejectedResult ''CHILD_RESULT_INVALID'' ''run-network did not return a valid machine-readable result''"

definition classifyRunNetworkResult :: "child_output \<Rightarrow> request_result" where
  "classifyRunNetworkResult i =
     (let v = co_output i; valid = validRunNetworkOutput v; outcome = outputText v ''outcome'' in
      if valid \<and> outputText v ''invocation_id'' \<noteq> None then
        (let aggregate = aggregateText v ''UNKNOWN'' @ ''; invocation_id='' @ the (outputText v ''invocation_id'');
             brakes = outputTexts v ''retry_brake_node_ids'' in
         if brakes \<noteq> [] then doneResult ''RETRY_BRAKE'' (aggregate @ ''; retry_brake_node_ids='' @ joinText '','' brakes)
         else doneResult (resultCodeOf v) aggregate)
      else if valid \<and> outcome = Some ''NOOP'' then doneResult (resultCodeOf v) (aggregateText v ''SUCCESS'' @ ''; invocation_id=none'')
      else if cx_spawnError (co_process i) \<noteq> None then spawnFailed ''run-network child could not be started''
      else if valid \<and> outcome = Some ''REJECTED''
      then rejectedResult (resultCodeOf v) ''run-network rejected the request before creating an Invocation''
      else noRunOutput)"

text \<open>
  The messages of a START are in Japanese: ``existing run #..., SUCCESS, not started; use another business_key'', ``an
  unfinished run (#...) has this business key; use RERUN'', ``run #... is unfinished; RERUN it or ask the second line'', ``the
  execution lock is held; ask again later''.
\<close>

definition alreadySuccessText :: "string \<Rightarrow> string" where
  "alreadySuccessText runId =
     utf8 [26082, 23384] @ ''Run'' @ '' #'' @ runId @
     '' '' @ utf8 [12399] @ ''SUCCESS'' @ utf8 [12398, 12383, 12417, 36215, 21205, 12434, 12473, 12461, 12483, 12503, 12375,
       12414, 12375, 12383, 12290, 35036, 27491, 23455, 34892, 12399, 21029, 12398] @ ''business_key'' @
     utf8 [12434, 25351, 23450, 12375, 12390, 12367, 12384, 12373, 12356, 12290]"

definition alreadyExistsText :: "string option \<Rightarrow> string" where
  "alreadyExistsText runId =
     utf8 [21516, 19968, 26989, 21209, 12461, 12540, 12398, 26410, 23436, 20102] @ ''Run'' @
     (case runId of None \<Rightarrow> [] | Some i \<Rightarrow> '' #'' @ i @ '' '') @
     utf8 [12364, 12354, 12426, 12414, 12377, 12290] @ ''RERUN'' @
     utf8 [12434, 20351, 29992, 12375, 12390, 12367, 12384, 12373, 12356, 12290]"

definition maxActiveText :: "string option \<Rightarrow> string" where
  "maxActiveText runId =
     utf8 [26410, 23436, 20102] @ ''Run'' @ '' #'' @
     (case runId of None \<Rightarrow> utf8 [19981, 26126] | Some i \<Rightarrow> i) @
     utf8 [12364, 12354, 12427, 12383, 12417, 36215, 21205, 12391, 12365, 12414, 12379, 12435, 12290, 22833,
       25943] @ ''Run'' @ utf8 [12398, 12420, 12426, 30452, 12375, 12399] @ ''RERUN'' @
     utf8 [12434, 12289, 25972, 29702, 12391, 12365, 12394, 12356, 22580, 21512, 12399, 20108, 27425, 23550, 24540, 32773, 12408]"

definition lockConflictText :: string where
  "lockConflictText = ''network'' @
     utf8 [23455, 34892, 12525, 12483, 12463, 12364, 31478, 21512, 12375, 12414, 12375, 12383, 12290, 26178, 38291, 12434,
       12362, 12356, 12390, 20877, 36215, 31080, 12375, 12390, 12367, 12384, 12373, 12356, 12290]"

definition firstText :: "string list \<Rightarrow> string option" where
  "firstText xs = (case xs of [] \<Rightarrow> None | x # _ \<Rightarrow> Some x)"

definition rejectedStart :: "json \<Rightarrow> request_result" where
  "rejectedStart v = (let code = resultCodeOf v; runId = firstText (outputTexts v ''blocked_run_ids'') in
     if code = ''RUN_ALREADY_EXISTS'' then rejectedResult ''RUN_ALREADY_EXISTS'' (alreadyExistsText runId)
     else if code = ''MAX_ACTIVE_RUNS'' then rejectedResult ''MAX_ACTIVE_RUNS'' (maxActiveText runId)
     else if code = ''LOCK_CONFLICT'' then rejectedResult ''LOCK_CONFLICT'' lockConflictText
     else rejectedResult code ''run-network rejected the START request before creating an Invocation'')"

definition classifyStartNetworkResult :: "child_output \<Rightarrow> request_result" where
  "classifyStartNetworkResult i =
     (let v = co_output i; valid = validRunNetworkOutput v; outcome = outputText v ''outcome'' in
      if valid \<and> outputText v ''invocation_id'' \<noteq> None then classifyRunNetworkResult i
      else if valid \<and> outcome = Some ''NOOP'' \<and> outputText v ''run_id'' \<noteq> None
      then doneResult ''NOOP_ALREADY_SUCCESS'' (alreadySuccessText (the (outputText v ''run_id'')))
      else if cx_spawnError (co_process i) \<noteq> None then spawnFailed ''run-network child could not be started''
      else if valid \<and> outcome = Some ''REJECTED'' then rejectedStart v
      else noRunOutput)"

section \<open>Hold and release\<close>

definition classifyCancelResult :: "child_result \<Rightarrow> bool \<Rightarrow> request_result" where
  "classifyCancelResult result release =
     (if cx_spawnError result \<noteq> None then spawnFailed ''cancel-run child could not be started''
      else if cx_exitCode result = Some 0 then
        doneResult (if release then ''RELEASED'' else ''STOP_REQUESTED'')
          (if release then ''Run hold was released; no automatic resume was started''
           else ''Run hold was requested at the next node boundary'')
      else rejectedResult ''CANCEL_RUN_REJECTED'' ''cancel-run rejected the request or failed before completing the operation'')"

section \<open>Closed runs\<close>

definition ARCHIVE_PENDING_CODES :: "string list" where
  "ARCHIVE_PENDING_CODES = [''ARCHIVE_AUDIT_FAILED'', ''AUDIT_CONFLICT'', ''LEASE_INTERRUPTED_AFTER_ARCHIVE'']"

definition ARCHIVE_REJECTED_CODES :: "string list" where
  "ARCHIVE_REJECTED_CODES = [''LOCK_CONFLICT'', ''LOCK_UNAVAILABLE'', ''LEASE_INTERRUPTED'', ''RUN_READ_FAILED'',
     ''RUN_STATUS_NOT_CLOSABLE'', ''RUN_UNKNOWN_NOT_CLOSABLE'', ''RUN_NOT_TERMINAL'', ''RUN_ON_HOLD'', ''RUN_LIVE'',
     ''ARCHIVE_WRITE_FAILED'']"

definition codeIn :: "json \<Rightarrow> string list \<Rightarrow> bool" where
  "codeIn v codes \<longleftrightarrow> (case outputText v ''code'' of None \<Rightarrow> False | Some code \<Rightarrow> code \<in> set codes)"

definition revisionMember :: "json \<Rightarrow> bool" where
  "revisionMember v \<longleftrightarrow> (case jsonGet v ''run_revision'' of Some (JNum r) \<Rightarrow> positiveRevision (Finite r) | _ \<Rightarrow> False)"

definition nonEmptyMember :: "json \<Rightarrow> string \<Rightarrow> bool" where
  "nonEmptyMember v k \<longleftrightarrow> (case outputText v k of None \<Rightarrow> False | Some s \<Rightarrow> s \<noteq> [])"

definition validArchiveRunOutput :: "json \<Rightarrow> bool" where
  "validArchiveRunOutput v \<longleftrightarrow>
     nonEmptyMember v ''run_id'' \<and> nonEmptyMember v ''event_id'' \<and>
     (jsonGet v ''lock_released'' = Some (JBool True) \<or> jsonGet v ''lock_released'' = Some (JBool False)) \<and>
     (let outcome = outputText v ''outcome''; audit = outputText v ''audit'' in
      if outcome = Some ''ARCHIVED'' then
        revisionMember v \<and> (if audit = Some ''RECORDED'' then jsonGet v ''code'' = None
          else audit = Some ''PENDING'' \<and> codeIn v ARCHIVE_PENDING_CODES)
      else if outcome = Some ''ALREADY_ARCHIVED'' then revisionMember v \<and> jsonGet v ''code'' = None
      else if outcome = Some ''UNCONFIRMED'' then
        jsonGet v ''run_revision'' = Some JNull \<and> outputText v ''code'' = Some ''ARCHIVE_UNCONFIRMED''
      else if outcome = Some ''REJECTED'' then
        (jsonGet v ''run_revision'' = Some JNull \<or> revisionMember v) \<and> codeIn v ARCHIVE_REJECTED_CODES
      else False)"

definition lockReleased :: "json \<Rightarrow> bool" where
  "lockReleased v \<longleftrightarrow> jsonGet v ''lock_released'' = Some (JBool True)"

definition expectedArchiveExitCode :: "json \<Rightarrow> int" where
  "expectedArchiveExitCode v =
     (if (outputText v ''outcome'' = Some ''ARCHIVED'' \<and> outputText v ''audit'' = Some ''RECORDED'' \<and> lockReleased v) \<or>
         (outputText v ''outcome'' = Some ''ALREADY_ARCHIVED'' \<and> lockReleased v) then 0 else 1)"

definition memberOr :: "json \<Rightarrow> string \<Rightarrow> string" where
  "memberOr v k = (case outputText v k of None \<Rightarrow> [] | Some s \<Rightarrow> s)"

definition archiveVerdict :: "json \<Rightarrow> request_result" where
  "archiveVerdict v =
     (let event = ''event_id='' @ memberOr v ''event_id'';
          lockFailure = (if lockReleased v then [] else '' lock_release_failed=true'');
          outcome = outputText v ''outcome'' in
      if outcome = Some ''ARCHIVED'' then
        (if outputText v ''audit'' = Some ''PENDING''
         then doneResult ''RUN_ARCHIVED_AUDIT_PENDING'' (''code='' @ memberOr v ''code'' @ '' '' @ event @ lockFailure)
         else if \<not> lockReleased v then doneResult ''RUN_ARCHIVED_LOCK_UNRELEASED'' (event @ '' lock_release_failed=true'')
         else doneResult ''RUN_ARCHIVED'' event)
      else if outcome = Some ''ALREADY_ARCHIVED'' then
        (if lockReleased v then doneResult ''RUN_ALREADY_ARCHIVED'' event
         else doneResult ''RUN_ARCHIVED_LOCK_UNRELEASED'' (event @ '' already_archived=true lock_release_failed=true''))
      else if outcome = Some ''UNCONFIRMED'' then
        rejectedResult ''ARCHIVE_UNCONFIRMED''
          (''Run archive state is unconfirmed; verify it with status --json '' @ event @ lockFailure)
      else rejectedResult (memberOr v ''code'') (event @ lockFailure))"

definition classifyArchiveRun :: "child_output \<Rightarrow> request_result" where
  "classifyArchiveRun i = (let v = co_output i; p = co_process i in
     if \<not> validArchiveRunOutput v \<or> cx_spawnError p \<noteq> None \<or> cx_stdoutTruncated p \<or> cx_stderrTruncated p \<or>
        cx_exitCode p \<noteq> Some (expectedArchiveExitCode v)
     then rejectedResult ''CHILD_RESULT_INVALID''
       ''archive-run result was invalid; the Run may already be ARCHIVED, so verify it with status --json''
     else archiveVerdict v)"

end
