(* ===== verification/RequestChild.thy ===== *)
theory RequestChild
  imports RequestResult Json
begin

text \<open>
  The children of the poller: \<open>src/requests/flownet-child-client.ts\<close>, and the preparation of a START,
  \<open>src/requests/start-request.ts\<close>. A child is a run of the command line of this program; \<open>ch_execute\<close> is the parameter
  that runs one. The output of a child is collected from the events of the process up to a limit of bytes.
\<close>

section \<open>Collecting the output of a process\<close>

text \<open>A text of bytes; a process closes last and is not heard after it.\<close>

datatype child_event =
    StdoutData string
  | StderrData string
  | ProcessError "string option"
  | ProcessClose "int option"

definition appendBounded :: "string \<Rightarrow> string \<Rightarrow> nat \<Rightarrow> string \<times> bool" where
  "appendBounded current chunk limit =
     (if length current \<ge> limit then (current, True)
      else (let remaining = limit - length current in (current @ take remaining chunk, length chunk > remaining)))"

definition silentChild :: child_result where
  "silentChild = \<lparr> cx_exitCode = None, cx_stdout = [], cx_stderr = [], cx_stdoutTruncated = False, cx_stderrTruncated = False,
     cx_spawnError = None \<rparr>"

text \<open>Only the first error event is heard (\<open>once\<close>).\<close>

definition hearChild :: "nat \<Rightarrow> child_event \<Rightarrow> child_result \<Rightarrow> child_result" where
  "hearChild limit event c = (case event of
     StdoutData chunk \<Rightarrow> (let (v, cut) = appendBounded (cx_stdout c) chunk limit in
       c\<lparr> cx_stdout := v, cx_stdoutTruncated := cx_stdoutTruncated c \<or> cut \<rparr>)
   | StderrData chunk \<Rightarrow> (let (v, cut) = appendBounded (cx_stderr c) chunk limit in
       c\<lparr> cx_stderr := v, cx_stderrTruncated := cx_stderrTruncated c \<or> cut \<rparr>)
   | ProcessError code \<Rightarrow> if cx_spawnError c \<noteq> None then c
       else c\<lparr> cx_spawnError := Some (case code of Some e \<Rightarrow> e | None \<Rightarrow> ''SPAWN_FAILED'') \<rparr>
   | ProcessClose code \<Rightarrow> c\<lparr> cx_exitCode := code \<rparr>)"

fun collectChild :: "nat \<Rightarrow> child_event list \<Rightarrow> child_result \<Rightarrow> child_result option" where
  "collectChild limit [] c = None"
| "collectChild limit (ProcessClose code # events) c = Some (hearChild limit (ProcessClose code) c)"
| "collectChild limit (event # events) c = collectChild limit events (hearChild limit event c)"

text \<open>\<open>None\<close> while the process has not closed; \<open>decode\<close> is \<open>toString("utf8")\<close>.\<close>

definition executeChild :: "(string \<Rightarrow> string) \<Rightarrow> nat \<Rightarrow> child_event list \<Rightarrow> child_result option" where
  "executeChild decode limit events = map_option
     (\<lambda>c. c\<lparr> cx_stdout := decode (cx_stdout c), cx_stderr := decode (cx_stderr c) \<rparr>) (collectChild limit events silentChild)"

section \<open>The correlation of a child with its request\<close>

definition REQUESTED_BY_MAX_LENGTH :: nat where "REQUESTED_BY_MAX_LENGTH = 1024"

definition isUnreserved :: "char \<Rightarrow> bool" where
  "isUnreserved c \<longleftrightarrow> (let n = of_char c :: nat in
     (65 \<le> n \<and> n \<le> 90) \<or> (97 \<le> n \<and> n \<le> 122) \<or> (48 \<le> n \<and> n \<le> 57) \<or>
     c \<in> {CHR ''-'', CHR ''_'', CHR ''.'', CHR ''!'', CHR ''~'', CHR ''*'', CHR 0x27, CHR ''('', CHR '')''})"

definition upperHex :: "nat \<Rightarrow> char" where
  "upperHex n = (if n < 10 then char_of (48 + n) else char_of (55 + n))"

definition percentByte :: "nat \<Rightarrow> string" where
  "percentByte n = [CHR ''%'', upperHex (n div 16), upperHex (n mod 16)]"

text \<open>\<open>encodeURIComponent\<close>, which throws only for halves of surrogate pairs.\<close>

definition encodeChar :: "char \<Rightarrow> string" where
  "encodeChar c = (if isUnreserved c then [c] else concat (map (\<lambda>b. percentByte (of_char b)) (utf8Char (of_char c))))"

definition encodeURIComponent :: "string \<Rightarrow> string" where
  "encodeURIComponent s = concat (map encodeChar s)"

definition requestedBy :: "string \<Rightarrow> string \<Rightarrow> js_error + string" where
  "requestedBy i creator = (let v = ''app-request:'' @ i @ '':'' @ encodeURIComponent creator in
     if length v > REQUESTED_BY_MAX_LENGTH then Inl (CodedError ''REQUESTED_BY_INVALID'') else Inr v)"

section \<open>The client\<close>

record poll_network =
  pn_networkId :: string
  pn_definitionPath :: string
  pn_appStart :: bool

text \<open>\<open>ch_execute\<close> is given the command, its arguments and its environment.\<close>

record 's child_client =
  ch_profile :: string
  ch_environment :: "string jsmap"
  ch_execPath :: string
  ch_cliPath :: string
  ch_execute :: "string \<Rightarrow> string list \<Rightarrow> string jsmap \<Rightarrow> ('s, child_result) prog"
  ch_makeTempDirectory :: "('s, string) prog"
  ch_removeTempDirectory :: "string \<Rightarrow> ('s, unit) prog"
  ch_writeFile :: "string \<Rightarrow> string \<Rightarrow> ('s, unit) prog"
  ch_join :: "string \<Rightarrow> string \<Rightarrow> string"

definition runChild :: "'s child_client \<Rightarrow> string list \<Rightarrow> string option \<Rightarrow> ('s, child_result) prog" where
  "runChild C args correlation =
     (let env = (case correlation of None \<Rightarrow> ch_environment C
        | Some c \<Rightarrow> mapSet ''KSQL_FLOWNET_REQUESTED_BY'' c (ch_environment C)) in
      ch_execute C (ch_execPath C) (ch_cliPath C # args) env)"

text \<open>\<open>try { m } finally { f }\<close>\<close>

definition finallyP :: "('s, 'a) prog \<Rightarrow> ('s, unit) prog \<Rightarrow> ('s, 'a) prog" where
  "finallyP m f = bindP (attemptP m) (\<lambda>r. bindP f (\<lambda>_. liftP r))"

text \<open>What a child printed, \<open>JNull\<close> when it is no JSON.\<close>

definition printedJson :: "child_result \<Rightarrow> child_output" where
  "printedJson p = \<lparr> co_output = (case parseJson (cx_stdout p) of None \<Rightarrow> JNull | Some v \<Rightarrow> v), co_process = p \<rparr>"

text \<open>\<open>JNull\<close> is the answer \<open>null\<close> for a run that is not there.\<close>

definition statusArgs :: "'s child_client \<Rightarrow> poll_network \<Rightarrow> string \<times> string \<Rightarrow> string list" where
  "statusArgs C network selector =
     [''status'', pn_networkId network, ''--profile'', ch_profile C, fst selector, snd selector, ''--json'']"

definition childStatus :: "'s child_client \<Rightarrow> poll_network \<Rightarrow> string \<times> string \<Rightarrow> ('s, json) prog" where
  "childStatus C network selector =
     bindP (runChild C (statusArgs C network selector) None) (\<lambda>result.
     if cx_exitCode result \<noteq> Some 0 \<or> cx_spawnError result \<noteq> None then
       (if cx_spawnError result = None \<and> startsWith (cx_stderr result) ''Error [RECORD_NOT_FOUND]:'' then retP JNull
        else throwP (CodedError ''STATUS_CHILD_FAILED''))
     else (case parseJson (cx_stdout result) of
         Some v \<Rightarrow> retP v
       | None \<Rightarrow> throwP (CodedError ''STATUS_JSON_INVALID'')))"

definition childRunNetwork :: "'s child_client \<Rightarrow> poll_network \<Rightarrow> request_record \<Rightarrow> ('s, child_output) prog" where
  "childRunNetwork C network r =
     (let args = [''run-network'', pn_definitionPath network, ''--resume-run'', rq_runId r] @
        (case rq_rerunFromNode r of None \<Rightarrow> [] | Some n \<Rightarrow> [''--rerun-from'', n]) @ [''--json''] in
      bindP (liftP (requestedBy (rq_id r) (rq_creatorCode r))) (\<lambda>correlation.
      bindP (runChild C args (Some correlation)) (\<lambda>p. retP (printedJson p))))"

record start_input =
  si_businessKey :: "string option"
  si_scheduledFor :: "string option"

definition childStartNetwork :: "'s child_client \<Rightarrow> poll_network \<Rightarrow> request_record \<Rightarrow> start_input \<Rightarrow> ('s, child_output) prog" where
  "childStartNetwork C network r i =
     (let args = [''run-network'', pn_definitionPath network] @
        (case si_businessKey i of None \<Rightarrow> [] | Some k \<Rightarrow> [''--business-key'', k]) @
        (case si_scheduledFor i of None \<Rightarrow> [] | Some t \<Rightarrow> [''--scheduled-for'', t]) @ [''--json''] in
      bindP (liftP (requestedBy (rq_id r) (rq_creatorCode r))) (\<lambda>correlation.
      bindP (runChild C args (Some correlation)) (\<lambda>p. retP (printedJson p))))"

text \<open>The reason goes to the child in a file of a directory that is removed whatever happens.\<close>

definition withReasonFile :: "'s child_client \<Rightarrow> string \<Rightarrow> (string \<Rightarrow> ('s, 'a) prog) \<Rightarrow> ('s, 'a) prog" where
  "withReasonFile C reason body =
     bindP (ch_makeTempDirectory C) (\<lambda>directory.
     let reasonPath = ch_join C directory ''reason.txt'' in
     finallyP (bindP (ch_writeFile C reasonPath reason) (\<lambda>_. body reasonPath)) (ch_removeTempDirectory C directory))"

definition childCancelRun :: "'s child_client \<Rightarrow> request_record \<Rightarrow> bool \<Rightarrow> ('s, child_result) prog" where
  "childCancelRun C r release = withReasonFile C (rq_reason r) (\<lambda>reasonPath.
     bindP (liftP (requestedBy (rq_id r) (rq_creatorCode r))) (\<lambda>correlation.
     runChild C ([''cancel-run'', ''--run-id'', rq_runId r] @ (if release then [''--release''] else []) @
       [''--reason-file'', reasonPath]) (Some correlation)))"

definition childArchiveRun :: "'s child_client \<Rightarrow> poll_network \<Rightarrow> request_record \<Rightarrow> ('s, child_output) prog" where
  "childArchiveRun C network r = withReasonFile C (rq_reason r) (\<lambda>reasonPath.
     bindP (liftP (requestedBy (rq_id r) (rq_creatorCode r))) (\<lambda>correlation.
     bindP (runChild C [''archive-run'', pn_definitionPath network, ''--run-id'', rq_runId r, ''--reason-file'', reasonPath]
       (Some correlation)) (\<lambda>p. retP (printedJson p))))"

end
