(* ===== verification/NetworkValidation.thy ===== *)
theory NetworkValidation
  imports KintoneCodec BusinessKey Dag
begin

text \<open>
  Reading a network file: \<open>src/domain/load-network.ts\<close>, \<open>src/domain/validate-network.ts\<close> and
  \<open>src/domain/validate-network-path.ts\<close>. Parameters are the libraries: \<open>yaml\<close> parses a document (its errors, and the
  value or what \<open>toJS\<close> throws), \<open>schema\<close> is the compiled JSON schema of \<open>schemas/network-definition.schema.json\<close> (its
  errors, none for a valid value). A validation error is its code, its path and its message; the messages of errors
  that no schema reports are left empty, for they are only shown.
\<close>

type_synonym network_error = "string \<times> string \<times> string"

record schema_error =
  ae_instancePath :: string
  ae_additionalProperty :: "string option"
  ae_message :: "string option"

record yaml_document =
  yd_errors :: "string list"
  yd_value :: "js_error + json"

record network_validation =
  nv_definition :: "network_definition option"
  nv_errors :: "network_error list"

section \<open>Schema errors\<close>

text \<open>\<open>ae_additionalProperty\<close> is the parameter of the keyword \<open>additionalProperties\<close>.\<close>

definition schemaError :: "schema_error \<Rightarrow> network_error" where
  "schemaError e = (let path = (if ae_instancePath e = [] then ''$'' else CHR ''$'' # ae_instancePath e) in
     case ae_additionalProperty e of
       Some p \<Rightarrow> (''UNKNOWN_PROPERTY'', path, ''unknown property '' @ [CHR 0x27] @ p @ [CHR 0x27])
     | None \<Rightarrow> (''SCHEMA_INVALID'', path, case ae_message e of None \<Rightarrow> ''is invalid'' | Some m \<Rightarrow> m))"

section \<open>Path patterns\<close>

definition INPUT_PLACEHOLDERS :: "string list" where "INPUT_PLACEHOLDERS = [''business_key'', ''profile'']"

definition OUTPUT_PLACEHOLDERS :: "string list" where
  "OUTPUT_PLACEHOLDERS = [''business_key'', ''profile'', ''run_id'', ''node_id'']"

text \<open>A placeholder \<open>{name}\<close> that is known is replaced, another one is kept.\<close>

definition literalOf :: "string list \<Rightarrow> string \<Rightarrow> string" where
  "literalOf known pattern =
     replacePlaceholders (\<lambda>p. if butlast (tl p) \<in> set known then ''placeholder'' else p) pattern"

fun splitSegments :: "string \<Rightarrow> string list" where
  "splitSegments [] = [[]]"
| "splitSegments (c # cs) =
     (if c = CHR ''/'' \<or> c = CHR 0x5C then [] # splitSegments cs
      else (case splitSegments cs of [] \<Rightarrow> [[c]] | s # ss \<Rightarrow> (c # s) # ss))"

definition isLetter :: "char \<Rightarrow> bool" where
  "isLetter c \<longleftrightarrow> (let n = of_char c :: nat in (65 \<le> n \<and> n \<le> 90) \<or> (97 \<le> n \<and> n \<le> 122))"

definition hasDrive :: "string \<Rightarrow> bool" where
  "hasDrive p \<longleftrightarrow> (case p of c # d # _ \<Rightarrow> isLetter c \<and> d = CHR '':'' | _ \<Rightarrow> False)"

text \<open>Whether \<open>relativePatternProblem\<close> answers with a problem.\<close>

definition relativePatternProblem :: "string \<Rightarrow> string \<Rightarrow> bool" where
  "relativePatternProblem pattern literal \<longleftrightarrow>
     pattern = [] \<or> CHR 0x00 \<in> set pattern \<or>
     startsWith pattern ''/'' \<or> startsWith pattern [CHR 0x5C] \<or> hasDrive pattern \<or>
     CHR ''{'' \<in> set literal \<or> CHR ''}'' \<in> set literal \<or>
     list_ex (\<lambda>s. s = ''.'' \<or> s = ''..'') (splitSegments pattern)"

definition inputPatternProblem :: "string \<Rightarrow> bool" where
  "inputPatternProblem pattern = relativePatternProblem pattern (literalOf INPUT_PLACEHOLDERS pattern)"

definition outputPatternProblem :: "string \<Rightarrow> bool" where
  "outputPatternProblem pattern = relativePatternProblem pattern (literalOf OUTPUT_PLACEHOLDERS pattern)"

definition escapeJsonPointer :: "string \<Rightarrow> string" where
  "escapeJsonPointer s = concat (map (\<lambda>c. if c = CHR ''~'' then ''~0'' else if c = CHR ''/'' then ''~1'' else [c]) s)"

section \<open>Semantic errors\<close>

definition networkError :: "string \<Rightarrow> string \<Rightarrow> network_error" where
  "networkError code path = (code, path, [])"

definition policyErrors :: "(string \<Rightarrow> bool) \<Rightarrow> network_definition \<Rightarrow> network_error list" where
  "policyErrors zoneKnown d = (case nd_business_key_policy d of
     Explicit \<Rightarrow> []
   | ScheduledPeriod period timezone format \<Rightarrow>
       map (\<lambda>(code, path). networkError code path) (validateScheduledPeriodPolicy zoneKnown period timezone format))"

definition lockErrors :: "network_definition \<Rightarrow> network_error list" where
  "lockErrors d =
     (let lease = nl_lease_duration_sec (nd_network_lock d); beat = nl_heartbeat_interval_sec (nd_network_lock d) in
      (if beat \<ge> lease
       then [networkError ''NETWORK_LOCK_HEARTBEAT_NOT_LESS_THAN_LEASE'' ''$.network_lock.heartbeat_interval_sec''] else []) @
      (if 3 * beat > lease
       then [networkError ''NETWORK_LOCK_HEARTBEAT_EXCEEDS_ONE_THIRD'' ''$.network_lock.heartbeat_interval_sec''] else []))"

definition nodePath :: "nat \<Rightarrow> string" where "nodePath i = ''$.nodes/'' @ stringOfInt (int i)"

definition dependencyPath :: "nat \<Rightarrow> nat \<Rightarrow> string" where
  "dependencyPath i j = nodePath i @ ''/depends_on/'' @ stringOfInt (int j)"

definition patternErrors ::
  "(string \<Rightarrow> bool) \<Rightarrow> string \<Rightarrow> string \<Rightarrow> (string \<times> string) list option \<Rightarrow> network_error list" where
  "patternErrors problem code path patterns =
     map (\<lambda>(name, _). networkError code (path @ escapeJsonPointer name))
       (filter (\<lambda>(_, pattern). problem pattern) (case patterns of None \<Rightarrow> [] | Some ps \<Rightarrow> ps))"

text \<open>The inner loop over the dependencies of a node, with those seen so far.\<close>

fun dependencyErrors :: "nat \<Rightarrow> string \<Rightarrow> nat \<Rightarrow> string list \<Rightarrow> string list \<Rightarrow> network_error list" where
  "dependencyErrors i node j seen [] = []"
| "dependencyErrors i node j seen (dep # deps) =
     (if dep = node then [networkError ''SELF_DEPENDENCY'' (dependencyPath i j)] else []) @
     (if dep \<in> set seen then [networkError ''DUPLICATE_DEPENDENCY'' (dependencyPath i j)] else []) @
     dependencyErrors i node (j + 1) (dep # seen) deps"

definition nodeErrors :: "nat \<Rightarrow> string list \<Rightarrow> network_node \<Rightarrow> network_error list" where
  "nodeErrors i seen n =
     (if nn_id n \<in> set seen then [networkError ''DUPLICATE_NODE_ID'' (nodePath i @ ''/id'')] else []) @
     patternErrors inputPatternProblem ''INPUT_PATTERN_INVALID'' (nodePath i @ ''/inputs/'') (nn_inputs n) @
     patternErrors outputPatternProblem ''OUTPUT_PATTERN_INVALID'' (nodePath i @ ''/outputs/'') (nn_outputs n) @
     (if nn_trigger_rule n \<noteq> ALL_SUCCESS then [networkError ''TRIGGER_RULE_UNSUPPORTED'' (nodePath i @ ''/trigger_rule'')] else []) @
     dependencyErrors i (nn_id n) 0 [] (nn_depends_on n)"

fun allNodeErrors :: "nat \<Rightarrow> string list \<Rightarrow> network_node list \<Rightarrow> network_error list" where
  "allNodeErrors i seen [] = []"
| "allNodeErrors i seen (n # ns) = nodeErrors i seen n @ allNodeErrors (i + 1) (nn_id n # seen) ns"

definition unknownDependencies :: "string list \<Rightarrow> nat \<Rightarrow> network_node \<Rightarrow> network_error list" where
  "unknownDependencies known i n =
     map (\<lambda>(j, _). networkError ''UNKNOWN_DEPENDENCY'' (dependencyPath i j))
       (filter (\<lambda>(_, dep). dep \<notin> set known) (enumerate 0 (nn_depends_on n)))"

definition allUnknownDependencies :: "network_node list \<Rightarrow> network_error list" where
  "allUnknownDependencies nodes =
     concat (map (\<lambda>(i, n). unknownDependencies (map nn_id nodes) i n) (enumerate 0 nodes))"

definition hasErrorCode :: "string \<Rightarrow> network_error list \<Rightarrow> bool" where
  "hasErrorCode code errors = list_ex (\<lambda>e. fst e = code) errors"

definition semanticErrors :: "(string \<Rightarrow> bool) \<Rightarrow> network_definition \<Rightarrow> network_error list" where
  "semanticErrors zoneKnown d =
     (let errors = policyErrors zoneKnown d @ lockErrors d @ allNodeErrors 0 [] (nd_nodes d) @ allUnknownDependencies (nd_nodes d) in
      if hasErrorCode ''DUPLICATE_NODE_ID'' errors then errors
      else if hasErrorCode ''UNKNOWN_DEPENDENCY'' errors then errors
      else errors @ (if ts_cyclicNodeIds (stableTopologicalSort (nd_nodes d)) \<noteq> []
        then [networkError ''CYCLE_DETECTED'' ''$.nodes''] else []))"

section \<open>The definition in a JSON value\<close>

text \<open>The members of a value that the schema accepts, read with the types the code gives them.\<close>

definition textPairs :: "json \<Rightarrow> string \<Rightarrow> js_error + (string \<times> string) list option" where
  "textPairs v k = (case jsonGet v k of
     None \<Rightarrow> Inr None
   | Some (JObj fs) \<Rightarrow> bindE (mapE (\<lambda>(n, p). bindE (someE (stringOfJson p)) (\<lambda>s. Inr (n, s))) fs) (\<lambda>ps. Inr (Some ps))
   | Some _ \<Rightarrow> Inl undecodable)"

definition boolMember :: "json \<Rightarrow> string \<Rightarrow> js_error + bool" where
  "boolMember v k = (case jsonGet v k of Some (JBool b) \<Rightarrow> Inr b | _ \<Rightarrow> Inl undecodable)"

definition nodeOfJson :: "json \<Rightarrow> js_error + network_node" where
  "nodeOfJson v =
     bindE (textMember v ''id'') (\<lambda>i. bindE (textMember v ''job_id'') (\<lambda>job. bindE (textMember v ''sql'') (\<lambda>sql.
     bindE (someE (Option.bind (jsonGet v ''depends_on'') stringsOfJson)) (\<lambda>deps.
     bindE (bindE (textMember v ''trigger_rule'') triggerOf) (\<lambda>rule. bindE (boolMember v ''idempotent'') (\<lambda>idem.
     bindE (textPairs v ''inputs'') (\<lambda>inputs. bindE (textPairs v ''outputs'') (\<lambda>outputs.
     Inr \<lparr> nn_id = i, nn_job_id = job, nn_sql = sql, nn_depends_on = deps, nn_trigger_rule = rule, nn_idempotent = idem,
       nn_inputs = inputs, nn_outputs = outputs \<rparr>))))))))"

definition periodOf :: "string \<Rightarrow> js_error + period" where
  "periodOf s = (if s = ''day'' then Inr DAY else if s = ''month'' then Inr MONTH else Inl undecodable)"

definition policyOfJson :: "json \<Rightarrow> js_error + business_key_policy" where
  "policyOfJson v = bindE (textMember v ''type'') (\<lambda>ty.
     if ty = ''explicit'' then Inr Explicit
     else if ty = ''scheduled_period'' then
       bindE (bindE (textMember v ''period'') periodOf) (\<lambda>period. bindE (textMember v ''timezone'') (\<lambda>timezone.
       bindE (textMember v ''format'') (\<lambda>format. Inr (ScheduledPeriod period timezone format))))
     else Inl undecodable)"

definition objectMember :: "json \<Rightarrow> string \<Rightarrow> js_error + json" where
  "objectMember v k = someE (jsonGet v k)"

definition definitionOfJson :: "json \<Rightarrow> js_error + network_definition" where
  "definitionOfJson v =
     bindE (integerMember v ''schema_version'') (\<lambda>version. bindE (textMember v ''network_id'') (\<lambda>networkId.
     bindE (objectMember v ''business_key_policy'') (\<lambda>p. bindE (policyOfJson p) (\<lambda>policy.
     bindE (if jsonGet v ''max_active_runs'' = None then Inr 1 else integerMember v ''max_active_runs'') (\<lambda>maximum.
     bindE (objectMember v ''network_lock'') (\<lambda>lock. bindE (integerMember lock ''lease_duration_sec'') (\<lambda>lease.
     bindE (integerMember lock ''heartbeat_interval_sec'') (\<lambda>beat.
     bindE (case jsonGet v ''nodes'' of Some (JArr ns) \<Rightarrow> mapE nodeOfJson ns | _ \<Rightarrow> Inl undecodable) (\<lambda>nodes.
     Inr \<lparr> nd_schema_version = version, nd_network_id = networkId,
       nd_description = Option.bind (jsonGet v ''description'') stringOfJson, nd_business_key_policy = policy,
       nd_max_active_runs = maximum,
       nd_network_lock = \<lparr> nl_lease_duration_sec = lease, nl_heartbeat_interval_sec = beat \<rparr>, nd_nodes = nodes \<rparr>)))))))))"

section \<open>Loading\<close>

record 's network_files =
  nf_readFile :: "string \<Rightarrow> ('s, string) prog"
  nf_yaml :: "string \<Rightarrow> yaml_document"
  nf_schema :: "json \<Rightarrow> schema_error list"
  nf_zoneKnown :: "string \<Rightarrow> bool"
  nf_sqlPath :: "string \<Rightarrow> string \<Rightarrow> string"
  nf_readable :: "string \<Rightarrow> ('s, bool) prog"

text \<open>A value that is not what the schema promises makes the validation throw.\<close>

definition validateNetworkDefinition :: "'s network_files \<Rightarrow> json \<Rightarrow> js_error + network_validation" where
  "validateNetworkDefinition F v =
     (let invalid = nf_schema F v in
      if invalid \<noteq> [] then Inr \<lparr> nv_definition = None, nv_errors = map schemaError invalid \<rparr>
      else bindE (definitionOfJson v) (\<lambda>d.
        Inr \<lparr> nv_definition = Some d, nv_errors = semanticErrors (nf_zoneKnown F) d \<rparr>))"

definition loadNetworkDefinitionSource :: "'s network_files \<Rightarrow> string \<Rightarrow> network_validation" where
  "loadNetworkDefinitionSource F source =
     (let document = nf_yaml F source in
      if yd_errors document \<noteq> [] then
        \<lparr> nv_definition = None, nv_errors = map (\<lambda>m. (''YAML_PARSE_ERROR'', ''$'', ''invalid YAML: '' @ m)) (yd_errors document) \<rparr>
      else (case bindE (yd_value document) (validateNetworkDefinition F) of
        Inr result \<Rightarrow> result
      | Inl _ \<Rightarrow> \<lparr> nv_definition = None, nv_errors = [networkError ''YAML_VALUE_INVALID'' ''$''] \<rparr>))"

definition loadNetworkDefinition :: "'s network_files \<Rightarrow> string \<Rightarrow> ('s, network_validation) prog" where
  "loadNetworkDefinition F path =
     bindP (attemptP (nf_readFile F path)) (\<lambda>source. retP (case source of
       Inl _ \<Rightarrow> \<lparr> nv_definition = None, nv_errors = [networkError ''NETWORK_FILE_UNREADABLE'' ''$''] \<rparr>
     | Inr text' \<Rightarrow> loadNetworkDefinitionSource F text'))"

text \<open>\<open>nf_readable\<close>: the file is there, may be read and is a regular file.\<close>

definition validateSqlFile :: "'s network_files \<Rightarrow> string \<Rightarrow> nat \<times> network_node \<Rightarrow> network_error list \<Rightarrow> ('s, network_error list) prog" where
  "validateSqlFile F networkPath = (\<lambda>(i, n) errors.
     bindP (attemptP (nf_readable F (nf_sqlPath F networkPath (nn_sql n)))) (\<lambda>ok.
     retP (if ok = Inr True then errors else errors @ [networkError ''SQL_FILE_UNREADABLE'' (nodePath i @ ''/sql'')])))"

definition validateSqlFiles :: "'s network_files \<Rightarrow> string \<Rightarrow> network_node list \<Rightarrow> ('s, network_error list) prog" where
  "validateSqlFiles F networkPath nodes = foldP (validateSqlFile F networkPath) (enumerate 0 nodes) []"

definition validateNetworkPath :: "'s network_files \<Rightarrow> string \<Rightarrow> ('s, network_validation) prog" where
  "validateNetworkPath F networkPath =
     bindP (loadNetworkDefinition F networkPath) (\<lambda>loaded. case nv_definition loaded of
       None \<Rightarrow> retP loaded
     | Some d \<Rightarrow> bindP (validateSqlFiles F networkPath (nd_nodes d)) (\<lambda>errors.
         retP \<lparr> nv_definition = Some d, nv_errors = nv_errors loaded @ errors \<rparr>))"

end
