(* ===== verification/StartRequest.thy ===== *)
theory StartRequest
  imports RequestChild NetworkValidation
begin

text \<open>
  What a START starts: \<open>src/requests/start-request.ts\<close>. The network file is read again, and the business key and the
  scheduled time of the request are checked against the key policy of the network. \<open>se_parseDate\<close> and \<open>se_calendar\<close> are those
  of business keys, \<open>se_isoText\<close> is \<open>toISOString\<close>.
\<close>

record 's start_env =
  se_files :: "'s network_files"
  se_parseDate :: "string \<Rightarrow> int option"
  se_calendar :: "int \<Rightarrow> string \<Rightarrow> (string \<times> string \<times> string) option"
  se_isoText :: "int \<Rightarrow> string"

record prepared_start =
  ps_definition :: network_definition
  ps_businessKey :: string
  ps_input :: start_input

text \<open>
  The messages: ``cannot be started, not every node is known to be idempotent'', ``the definition cannot be read again; tell the
  second line'', ``the input does not match the key policy'', ``a correcting business_key needs the scheduled_for of its
  period'', ``scheduled_for must be a real time with its offset'', ``this network cannot be started by a request''.
\<close>

definition notIdempotentText :: string where
  "notIdempotentText = utf8 [20840, 12494, 12540, 12489, 12398, 20906, 31561, 24615, 12364, 30906, 35469, 12391, 12365, 12394,
       12356, 12383, 12417] @ ''START'' @ utf8 [12391, 12399, 36215, 21205, 12391, 12365, 12414, 12379, 12435, 12290]"

definition definitionInvalidText :: string where
  "definitionInvalidText = ''network'' @ utf8 [23450, 32681, 12434, 20877, 35501, 36796, 12391, 12365, 12394, 12356, 12383,
       12417, 36215, 21205, 12391, 12365, 12414, 12379, 12435, 12290, 20108, 27425, 23550, 24540, 32773, 12408, 36899, 32097, 12375, 12390, 12367, 12384, 12373, 12356, 12290]"

definition keyPolicyText :: string where
  "keyPolicyText = ''network'' @ utf8 [12398, 26989, 21209, 12461, 12540, 35215, 21063, 12392, 20837, 21147, 20869, 23481,
       12364, 19968, 33268, 12375, 12414, 12379, 12435, 12290]"

definition asOfText :: string where
  "asOfText = utf8 [35036, 27491, 29992] @ ''business_key'' @ utf8 [12395, 12399, 23550, 35937, 26399, 38291,
       12398] @ ''scheduled_for'' @ utf8 [12418, 25351, 23450, 12375, 12390, 12367, 12384, 12373, 12356, 12290]"

definition timestampText :: string where
  "timestampText = ''scheduled_for'' @ utf8 [12399, 23455, 22312, 12377, 12427, 26085, 26178, 12434, 26126,
       31034] @ ''offset'' @ utf8 [20184, 12365, 12391, 25351, 23450, 12375, 12390, 12367, 12384, 12373, 12356, 12290]"

definition notAllowedText :: "string \<Rightarrow> string" where
  "notAllowedText detail = utf8 [12371, 12398] @ ''network'' @ utf8 [12399] @ ''START'' @ utf8 [12391, 36215, 21205, 12391,
       12365, 12414, 12379, 12435, 12290] @ ''detail='' @ detail"

definition keyPolicyMismatch :: request_result where
  "keyPolicyMismatch = rejectedResult ''KEY_POLICY_MISMATCH'' keyPolicyText"

definition startNetworkNotAllowed :: "string \<Rightarrow> request_result" where
  "startNetworkNotAllowed detail = rejectedResult ''NETWORK_NOT_ALLOWED'' (notAllowedText detail)"

section \<open>The definition\<close>

text \<open>\<open>Inl\<close> of the rejection, or the definition that may be started.\<close>

definition startableDefinition :: "poll_network \<Rightarrow> network_validation \<Rightarrow> request_result + network_definition" where
  "startableDefinition network loaded =
     (if nv_definition loaded = None \<and>
         list_ex (\<lambda>(code, path, message). startsWith path ''$/nodes/'' \<and>
           includesText message (''required property '' @ [CHR 0x27] @ ''idempotent'' @ [CHR 0x27])) (nv_errors loaded)
      then Inl (rejectedResult ''NETWORK_NOT_IDEMPOTENT'' notIdempotentText)
      else (case nv_definition loaded of
          None \<Rightarrow> Inl (rejectedResult ''NETWORK_DEFINITION_INVALID'' definitionInvalidText)
        | Some d \<Rightarrow>
            if nv_errors loaded \<noteq> [] \<or> nd_network_id d \<noteq> pn_networkId network
            then Inl (rejectedResult ''NETWORK_DEFINITION_INVALID'' definitionInvalidText)
            else if list_ex (\<lambda>n. \<not> nn_idempotent n) (nd_nodes d)
            then Inl (rejectedResult ''NETWORK_NOT_IDEMPOTENT'' notIdempotentText)
            else Inr d))"

section \<open>The key\<close>

definition startKeyInput :: "network_definition \<Rightarrow> string option \<Rightarrow> string option \<Rightarrow> business_key_input" where
  "startKeyInput d key scheduledFor = \<lparr> bi_networkId = nd_network_id d, bi_policy = nd_business_key_policy d,
     bi_scheduledFor = scheduledFor, bi_businessKey = key \<rparr>"

definition startKeyOf :: "'s start_env \<Rightarrow> network_definition \<Rightarrow> string option \<Rightarrow> string option \<Rightarrow> request_result + string" where
  "startKeyOf E d key scheduledFor =
     (let resolved = resolveBusinessKey (se_parseDate E) (nf_zoneKnown (se_files E)) (se_calendar E) (startKeyInput d key scheduledFor) in
      case br_businessKey resolved of
        Some k \<Rightarrow> if br_errors resolved \<noteq> [] then Inl keyPolicyMismatch else Inr k
      | None \<Rightarrow> Inl keyPolicyMismatch)"

definition prepareExplicit :: "'s start_env \<Rightarrow> network_definition \<Rightarrow> request_record \<Rightarrow> request_result + prepared_start" where
  "prepareExplicit E d r =
     (if rq_businessKey r = None \<or> rq_scheduledFor r \<noteq> None then Inl keyPolicyMismatch
      else bindE (startKeyOf E d (rq_businessKey r) None) (\<lambda>k.
        Inr \<lparr> ps_definition = d, ps_businessKey = k, ps_input = \<lparr> si_businessKey = Some k, si_scheduledFor = None \<rparr> \<rparr>))"

definition prepareScheduled :: "'s start_env \<Rightarrow> network_definition \<Rightarrow> request_record \<Rightarrow> request_result + prepared_start" where
  "prepareScheduled E d r = (case rq_scheduledFor r of
     None \<Rightarrow> (if rq_businessKey r = None then Inl keyPolicyMismatch else Inl (rejectedResult ''AS_OF_UNDEFINED'' asOfText))
   | Some t \<Rightarrow> (case parseScheduledFor (se_parseDate E) t of
       None \<Rightarrow> Inl (rejectedResult ''INVALID_TIMESTAMP_FORMAT'' timestampText)
     | Some instant \<Rightarrow>
         (let scheduledFor = se_isoText E instant in
          bindE (startKeyOf E d (rq_businessKey r) (Some scheduledFor)) (\<lambda>k.
          Inr \<lparr> ps_definition = d, ps_businessKey = k,
            ps_input = \<lparr> si_businessKey = rq_businessKey r, si_scheduledFor = Some scheduledFor \<rparr> \<rparr>))))"

definition prepareStartRequest ::
  "'s start_env \<Rightarrow> poll_network \<Rightarrow> request_record \<Rightarrow> ('s, request_result + prepared_start) prog" where
  "prepareStartRequest E network r = bindP (loadNetworkDefinition (se_files E) (pn_definitionPath network)) (\<lambda>loaded.
     retP (bindE (startableDefinition network loaded) (\<lambda>d.
       if nd_business_key_policy d = Explicit then prepareExplicit E d r else prepareScheduled E d r)))"

end
