(* ===== verification/RequestPoller.thy ===== *)
theory RequestPoller
  imports StartRequest
begin

text \<open>
  The poller, \<open>src/requests/request-poller.ts\<close>: one turn lists the requests, recovers the stale ones, ends the invalid and
  the cancelled ones, and claims, runs and ends the others one after the other. The status of a run is the JSON value
  its child printed. \<open>po_now\<close> is the clock in milliseconds, \<open>po_log\<close> writes a log line. A child that is waited for takes
  effect when it is started; \<open>po_ticks\<close> is the number of heartbeat timers that expire before its end, any finite number (a
  child that never ends leaves the poller waiting, with heartbeats, for ever).
\<close>

section \<open>State\<close>

record 's poller =
  po_store :: "'s request_store"
  po_child :: "'s child_client"
  po_start :: "'s start_env"
  po_networks :: "poll_network list"
  po_staleAfterMs :: int
  po_stalePrecisionAllowanceMs :: int
  po_host :: string
  po_now :: "('s, int) prog"
  po_log :: "string \<Rightarrow> string \<Rightarrow> 's \<Rightarrow> 's"
  po_ticks :: "'s \<Rightarrow> nat"

record poll_summary =
  pu_requested :: nat
  pu_claimed :: nat
  pu_completed :: nat
  pu_cancelled :: nat
  pu_invalid :: nat
  pu_skippedMalformed :: nat
  pu_stale :: nat

record resolved_run =
  rn_network :: poll_network
  rn_status :: json
  rn_run :: json

definition logLine :: "'s poller \<Rightarrow> string \<Rightarrow> string \<Rightarrow> ('s, unit) prog" where
  "logLine P code detail = writeP (po_log P code detail)"

definition requestId :: "string \<Rightarrow> string" where "requestId i = ''request_id='' @ i"

definition isoNow :: "'s poller \<Rightarrow> ('s, string) prog" where
  "isoNow P = bindP (po_now P) (\<lambda>ms. retP (se_isoText (po_start P) ms))"

section \<open>Reading a status\<close>

fun filterE :: "('a \<Rightarrow> 'e + bool) \<Rightarrow> 'a list \<Rightarrow> 'e + 'a list" where
  "filterE f [] = Inr []"
| "filterE f (x # xs) = bindE (f x) (\<lambda>b. bindE (filterE f xs) (\<lambda>ys. Inr (if b then x # ys else ys)))"

definition truthy :: "json option \<Rightarrow> bool" where
  "truthy v \<longleftrightarrow> (case v of None \<Rightarrow> False | Some JNull \<Rightarrow> False | Some (JBool b) \<Rightarrow> b | Some (JNum r) \<Rightarrow> r \<noteq> 0
     | Some (JStr s) \<Rightarrow> s \<noteq> [] | _ \<Rightarrow> True)"

text \<open>\<open>String(value)\<close>, and the equality of values in a \<open>Set\<close>, which never holds for two objects.\<close>

definition textOfOption :: "json option \<Rightarrow> string" where
  "textOfOption v = (case v of None \<Rightarrow> ''undefined'' | Some x \<Rightarrow> textOfJson x)"

definition sameValue :: "json option \<Rightarrow> json option \<Rightarrow> bool" where
  "sameValue v w \<longleftrightarrow> v = w \<and> (case v of Some (JArr _) \<Rightarrow> False | Some (JObj _) \<Rightarrow> False | _ \<Rightarrow> True)"

text \<open>\<open>status.runs.filter((run) => run[k] === v)\<close>\<close>

definition runsWhere :: "json \<Rightarrow> string \<Rightarrow> string \<Rightarrow> js_error + json list" where
  "runsWhere status k v = bindE (property status ''runs'') (\<lambda>runs. case runs of
     Some (JArr xs) \<Rightarrow> filterE (\<lambda>run. bindE (property run k) (\<lambda>x. Inr (x = Some (JStr v)))) xs
   | _ \<Rightarrow> Inl typeError)"

definition invocationIds :: "json \<Rightarrow> js_error + json option list" where
  "invocationIds run = bindE (property run ''invocations'') (\<lambda>v. case v of
     None \<Rightarrow> Inr []
   | Some JNull \<Rightarrow> Inr []
   | Some (JArr xs) \<Rightarrow> mapE (\<lambda>x. property x ''invocation_id'') xs
   | _ \<Rightarrow> Inl typeError)"

definition hasLiveOwner :: "(string \<Rightarrow> int option) \<Rightarrow> json \<Rightarrow> json \<Rightarrow> int \<Rightarrow> int \<Rightarrow> js_error + bool" where
  "hasLiveOwner parseDate status run nowMs allowance = bindE (property status ''lock'') (\<lambda>lock.
     if lock = Some JNull then Inr False
     else bindE (invocationIds run) (\<lambda>ids.
       case lock of
         None \<Rightarrow> Inl typeError
       | Some l \<Rightarrow> Inr (list_ex (sameValue (jsonGet l ''owner_invocation_id'')) ids \<and>
           (case parseDate (textOfOption (jsonGet l ''lease_expires_at'')) of
              None \<Rightarrow> False
            | Some expires \<Rightarrow> nowMs \<le> expires + allowance))))"

section \<open>The review\<close>

definition rerunReview :: "json \<Rightarrow> bool \<Rightarrow> request_result option" where
  "rerunReview run live = (let st = jsonGet run ''status''; activity = jsonGet run ''activity'' in
     if st \<notin> set (map (Some \<circ> JStr) [''CREATED'', ''RUNNING'', ''FAILED'', ''CANCELLED''])
     then Some (rejectedResult ''RUN_STATUS_NOT_RERUNNABLE'' (''Run status '' @ textOfOption st @ '' is not rerunnable''))
     else if \<not> truthy (jsonGet run ''resume_allowed'') \<or> jsonGet run ''lifecycle_status'' \<noteq> Some (JStr ''ACTIVE'')
     then Some (rejectedResult ''RUN_NOT_RESUMABLE'' ''Run is not active and resumable'')
     else if jsonGet run ''hold'' \<noteq> Some JNull \<or> activity = Some (JStr ''STOPPED'')
     then Some (rejectedResult ''RUN_ON_HOLD'' ''Run is on hold'')
     else if activity = Some (JStr ''LIVE'') \<or> live
     then Some (rejectedResult ''RUN_LIVE'' ''Run has a live Invocation owner'')
     else None)"

definition stopReview :: "json \<Rightarrow> request_result option" where
  "stopReview run = (let st = jsonGet run ''status'' in
     if st \<in> set (map (Some \<circ> JStr) [''SUCCESS'', ''FAILED'', ''CANCELLED'', ''UNKNOWN''])
     then Some (rejectedResult ''RUN_TERMINAL'' (''Run status '' @ textOfOption st @ '' is terminal''))
     else if jsonGet run ''activity'' = Some (JStr ''STOPPED'')
     then Some (rejectedResult ''RUN_ALREADY_ON_HOLD'' ''Run is already on hold'')
     else None)"

definition closeReview :: "json \<Rightarrow> bool \<Rightarrow> request_result option" where
  "closeReview run live = (let st = jsonGet run ''status'' in
     if jsonGet run ''lifecycle_status'' = Some (JStr ''ARCHIVED'')
     then Some (doneResult ''RUN_ALREADY_ARCHIVED'' ''Run is already archived'')
     else if st = Some (JStr ''SUCCESS'') then Some (rejectedResult ''RUN_STATUS_NOT_CLOSABLE'' ''Successful Runs cannot be closed'')
     else if st = Some (JStr ''UNKNOWN'') then Some (rejectedResult ''RUN_UNKNOWN_NOT_CLOSABLE'' ''Unknown Runs cannot be closed'')
     else if st = Some (JStr ''CREATED'') \<or> st = Some (JStr ''RUNNING'')
     then Some (rejectedResult ''RUN_NOT_TERMINAL'' ''Run is not terminal'')
     else if jsonGet run ''hold'' \<noteq> Some JNull then Some (rejectedResult ''RUN_ON_HOLD'' ''Run is on hold'')
     else if live then Some (rejectedResult ''RUN_LIVE'' ''Run has a live Invocation owner'')
     else None)"

definition reviewRequest ::
  "(string \<Rightarrow> int option) \<Rightarrow> request_type \<Rightarrow> json \<Rightarrow> json \<Rightarrow> int \<Rightarrow> int \<Rightarrow> js_error + request_result option" where
  "reviewRequest parseDate ty status run nowMs allowance =
     bindE (hasLiveOwner parseDate status run nowMs allowance) (\<lambda>live.
     if ty = Start then Inr None
     else if run = JNull then Inl typeError
     else Inr (case ty of
       Rerun \<Rightarrow> rerunReview run live
     | Stop \<Rightarrow> stopReview run
     | Release \<Rightarrow> if jsonGet run ''hold'' = Some JNull then Some (rejectedResult ''RUN_NOT_ON_HOLD'' ''Run is not on hold'') else None
     | Start \<Rightarrow> None
     | Close \<Rightarrow> closeReview run live))"

section \<open>Running a claimed request\<close>

definition resolveRun :: "'s poller \<Rightarrow> string \<Rightarrow> ('s, resolved_run list) prog" where
  "resolveRun P runId = foldP (\<lambda>network matches.
     bindP (childStatus (po_child P) network (''--run-id'', runId)) (\<lambda>status.
     if status = JNull then retP matches
     else bindP (liftP (runsWhere status ''run_id'' runId)) (\<lambda>runs.
       retP (matches @ map (\<lambda>run. \<lparr> rn_network = network, rn_status = status, rn_run = run \<rparr>) runs)))) (po_networks P) []"

text \<open>One heartbeat per expired timer; one that fails is logged.\<close>

fun heartbeats :: "'s poller \<Rightarrow> nat \<Rightarrow> request_record \<Rightarrow> ('s, request_record) prog" where
  "heartbeats P 0 current = retP current"
| "heartbeats P (Suc n) current =
     bindP (catchP (bindP (isoNow P) (\<lambda>now. requestHeartbeat (po_store P) current now))
       (\<lambda>_. bindP (logLine P ''CLAIM_HEARTBEAT_FAILED'' (requestId (rq_id current))) (\<lambda>_. retP current)))
     (\<lambda>next. heartbeats P n next)"

definition withHeartbeat ::
  "'s poller \<Rightarrow> request_record \<Rightarrow> ('s, 'v) prog \<Rightarrow> ('v \<Rightarrow> request_result) \<Rightarrow> ('s, request_record \<times> request_result) prog" where
  "withHeartbeat P initial start classify =
     bindP (readP (po_ticks P)) (\<lambda>n.
     bindP (attemptP start) (\<lambda>child.
     bindP (heartbeats P n initial) (\<lambda>current.
     retP (current, case child of
       Inr v \<Rightarrow> classify v
     | Inl _ \<Rightarrow> rejectedResult ''CHILD_EXECUTION_FAILED'' ''child execution failed before a result was available''))))"

definition correlationInvalid :: request_result where
  "correlationInvalid = rejectedResult ''REQUESTED_BY_INVALID'' ''Request creator correlation is invalid or too long''"

definition correlationFails :: "request_record \<Rightarrow> bool" where
  "correlationFails r \<longleftrightarrow> (case requestedBy (rq_id r) (rq_creatorCode r) of Inl _ \<Rightarrow> True | Inr _ \<Rightarrow> False)"

text \<open>The message says that a START has no run_id.\<close>

definition runIdNotAllowedText :: string where
  "runIdNotAllowedText = ''START'' @ utf8 [12391, 12399] @ ''run_id'' @ utf8 [12434, 25351, 23450, 12391, 12365, 12414, 12379, 12435, 12290]"

definition processStart :: "'s poller \<Rightarrow> request_record \<Rightarrow> ('s, request_record \<times> request_result) prog" where
  "processStart P claimed =
     (if \<not> blank (rq_runId claimed) then retP (claimed, rejectedResult ''RUN_ID_NOT_ALLOWED'' runIdNotAllowedText)
      else case (case rq_networkId claimed of None \<Rightarrow> None
          | Some i \<Rightarrow> find (\<lambda>n. pn_networkId n = i) (po_networks P)) of
        None \<Rightarrow> retP (claimed, startNetworkNotAllowed ''NOT_IN_ALLOWLIST'')
      | Some network \<Rightarrow>
          if \<not> pn_appStart network then retP (claimed, startNetworkNotAllowed ''APP_START_DISABLED'')
          else bindP (prepareStartRequest (po_start P) network claimed) (\<lambda>prepared. case prepared of
            Inl result \<Rightarrow> retP (claimed, result)
          | Inr _ \<Rightarrow>
              if correlationFails claimed then retP (claimed, correlationInvalid)
              else bindP (prepareStartRequest (po_start P) network claimed) (\<lambda>again. case again of
                Inl result \<Rightarrow> retP (claimed, result)
              | Inr v \<Rightarrow> withHeartbeat P claimed (childStartNetwork (po_child P) network claimed (ps_input v))
                  classifyStartNetworkResult)))"

text \<open>The command of a request that passed its review.\<close>

definition runRequest :: "'s poller \<Rightarrow> request_record \<Rightarrow> poll_network \<Rightarrow> ('s, request_record \<times> request_result) prog" where
  "runRequest P claimed network = (case rq_requestType claimed of
     Rerun \<Rightarrow> withHeartbeat P claimed (childRunNetwork (po_child P) network claimed) classifyRunNetworkResult
   | Close \<Rightarrow> withHeartbeat P claimed (childArchiveRun (po_child P) network claimed) classifyArchiveRun
   | _ \<Rightarrow> withHeartbeat P claimed (childCancelRun (po_child P) claimed (rq_requestType claimed = Release))
       (\<lambda>result. classifyCancelResult result (rq_requestType claimed = Release)))"

definition reviewAndRun :: "'s poller \<Rightarrow> request_record \<Rightarrow> resolved_run \<Rightarrow> ('s, request_record \<times> request_result) prog" where
  "reviewAndRun P claimed resolved =
     bindP (po_now P) (\<lambda>nowMs.
     bindP (liftP (reviewRequest (se_parseDate (po_start P)) (rq_requestType claimed) (rn_status resolved) (rn_run resolved) nowMs
       (po_stalePrecisionAllowanceMs P))) (\<lambda>review. case review of
         Some result \<Rightarrow> retP (claimed, result)
       | None \<Rightarrow> runRequest P claimed (rn_network resolved)))"

definition processClaimed :: "'s poller \<Rightarrow> request_record \<Rightarrow> ('s, request_record \<times> request_result) prog" where
  "processClaimed P claimed =
     (if rq_requestType claimed = Start then processStart P claimed
      else if correlationFails claimed then retP (claimed, correlationInvalid)
      else bindP (attemptP (resolveRun P (rq_runId claimed))) (\<lambda>found. case found of
          Inl _ \<Rightarrow> retP (claimed, rejectedResult ''STATUS_UNAVAILABLE'' ''Run status could not be verified'')
        | Inr [] \<Rightarrow> retP (claimed, rejectedResult ''RUN_NOT_FOUND'' ''Run was not found in the allowlist'')
        | Inr [resolved] \<Rightarrow> reviewAndRun P claimed resolved
        | Inr _ \<Rightarrow> retP (claimed, rejectedResult ''RUN_ID_AMBIGUOUS'' ''Run ID matched multiple allowed networks'')))"

section \<open>Ending a request\<close>

definition pollCancel :: "'s poller \<Rightarrow> request_envelope \<Rightarrow> ('s, bool) prog" where
  "pollCancel P envelope =
     bindP (cancelBeforeClaim (po_store P) envelope
       \<lparr> rr_state = Cancelled, rr_code = ''CANCELLED_BY_REQUESTER'', rr_message = ''requester cancelled before claim'' \<rparr>) (\<lambda>cancelled.
     bindP (whenP (\<not> cancelled) (logLine P ''CANCEL_FINALIZE_CONFLICT'' (requestId (re_id envelope)))) (\<lambda>_. retP cancelled))"

definition pollRejectInvalid :: "'s poller \<Rightarrow> invalid_request \<Rightarrow> ('s, unit) prog" where
  "pollRejectInvalid P invalid =
     rejectInvalid (po_store P) invalid (rejectedResult ''REQUEST_INVALID''
       (''request validation failed: '' @ joinText '','' (sort (remdups (map fst (iv_issues invalid))))))"

definition finalizeResult :: "'s poller \<Rightarrow> request_record \<Rightarrow> request_result \<Rightarrow> ('s, bool) prog" where
  "finalizeResult P r result =
     bindP (attemptP (getRequestById (po_store P) (rq_id r))) (\<lambda>current.
     let abandoned = bindP (logLine P ''RESULT_FINALIZE_ABANDONED'' (requestId (rq_id r))) (\<lambda>_. retP False) in
     case current of
       Inl _ \<Rightarrow> abandoned
     | Inr (Some c) \<Rightarrow>
         if rq_requestState c \<noteq> Accepted
         then bindP (logLine P ''RESULT_STATE_MISMATCH'' (requestId (rq_id r))) (\<lambda>_. retP False)
         else (let finalized = (if rq_cancelRequested c then result\<lparr>rr_message := rr_message result @ '' (cancel_ignored)''\<rparr> else result) in
           catchP (bindP (writeResult (po_store P) c finalized) (\<lambda>_. retP True)) (\<lambda>_. abandoned))
     | Inr None \<Rightarrow> bindP (logLine P ''RESULT_STATE_MISMATCH'' (requestId (rq_id r))) (\<lambda>_. retP False))"

section \<open>Stale requests\<close>

definition staleResult :: request_result where
  "staleResult = rejectedResult ''STALE''
     ''Execution and result are unknown; do not request another operation until Run and audit records are reconciled''"

definition isStale :: "'s poller \<Rightarrow> int \<Rightarrow> request_record \<Rightarrow> bool" where
  "isStale P nowMs r \<longleftrightarrow> (case rq_claimHeartbeatAt r of
     None \<Rightarrow> False
   | Some beat \<Rightarrow> (case se_parseDate (po_start P) beat of
       None \<Rightarrow> True
     | Some t \<Rightarrow> \<not> nowMs \<le> t + po_staleAfterMs P + po_stalePrecisionAllowanceMs P))"

text \<open>\<open>activity === "LIVE" || hasLiveOwner(...)\<close>\<close>

definition liveRun :: "'s poller \<Rightarrow> json \<Rightarrow> json \<Rightarrow> int \<Rightarrow> js_error + bool" where
  "liveRun P status run nowMs = bindE (property run ''activity'') (\<lambda>activity.
     if activity = Some (JStr ''LIVE'') then Inr True
     else hasLiveOwner (se_parseDate (po_start P)) status run nowMs (po_stalePrecisionAllowanceMs P))"

definition recoverStaleStart :: "'s poller \<Rightarrow> request_record \<Rightarrow> int \<Rightarrow> ('s, bool) prog" where
  "recoverStaleStart P r nowMs =
     (case (case rq_networkId r of None \<Rightarrow> None | Some i \<Rightarrow> find (\<lambda>n. pn_networkId n = i) (po_networks P)) of
        None \<Rightarrow> retP False
      | Some network \<Rightarrow> bindP (prepareStartRequest (po_start P) network r) (\<lambda>prepared. case prepared of
          Inl _ \<Rightarrow> retP False
        | Inr v \<Rightarrow> bindP (childStatus (po_child P) network (''--business-key'', ps_businessKey v)) (\<lambda>status.
            if status = JNull then retP False
            else bindP (liftP (runsWhere status ''business_key'' (ps_businessKey v))) (\<lambda>matches. case matches of
              [run] \<Rightarrow> bindP (liftP (liveRun P status run nowMs)) (\<lambda>live. retP (\<not> live))
            | _ \<Rightarrow> retP False))))"

text \<open>Whether a stale request may be given up.\<close>

definition ownerGone :: "'s poller \<Rightarrow> request_record \<Rightarrow> int \<Rightarrow> ('s, bool) prog" where
  "ownerGone P r nowMs =
     (if rq_requestType r = Start then recoverStaleStart P r nowMs
      else bindP (resolveRun P (rq_runId r)) (\<lambda>matches. case matches of
        [resolved] \<Rightarrow> bindP (liftP (liveRun P (rn_status resolved) (rn_run resolved) nowMs)) (\<lambda>live. retP (\<not> live))
      | _ \<Rightarrow> retP False))"

definition recoverOne :: "'s poller \<Rightarrow> int \<Rightarrow> request_record \<Rightarrow> nat \<Rightarrow> ('s, nat) prog" where
  "recoverOne P nowMs r recovered =
     (if \<not> isStale P nowMs r then retP recovered
      else catchP (bindP (ownerGone P r nowMs) (\<lambda>gone.
          if \<not> gone then retP recovered
          else bindP (writeResult (po_store P) r staleResult) (\<lambda>_. retP (recovered + 1))))
        (\<lambda>_. bindP (logLine P ''STALE_STATUS_UNAVAILABLE'' (requestId (rq_id r))) (\<lambda>_. retP recovered)))"

definition recoverStale :: "'s poller \<Rightarrow> ('s, nat) prog" where
  "recoverStale P =
     bindP (listAccepted (po_store P)) (\<lambda>accepted.
     bindP (po_now P) (\<lambda>nowMs. foldP (recoverOne P nowMs) accepted 0))"

section \<open>One turn\<close>

definition envelopeOf :: "request_record \<Rightarrow> request_envelope" where
  "envelopeOf r = \<lparr> re_id = rq_id r, re_revision = rq_revision r, re_requestState = rq_requestState r,
     re_cancelRequested = Some (rq_cancelRequested r) \<rparr>"

definition pollInvalid :: "'s poller \<Rightarrow> invalid_request \<Rightarrow> nat \<Rightarrow> ('s, nat) prog" where
  "pollInvalid P invalid cancelled =
     (if re_cancelRequested (iv_envelope invalid) = Some True
      then bindP (pollCancel P (iv_envelope invalid)) (\<lambda>done'. retP (if done' then cancelled + 1 else cancelled))
      else bindP (pollRejectInvalid P invalid) (\<lambda>_. retP cancelled))"

text \<open>The counters are those of the cancelled, the claimed and the completed requests.\<close>

definition pollOne :: "'s poller \<Rightarrow> request_record \<Rightarrow> nat \<times> nat \<times> nat \<Rightarrow> ('s, nat \<times> nat \<times> nat) prog" where
  "pollOne P r = (\<lambda>(cancelled, claimedCount, completed).
     if rq_cancelRequested r
     then bindP (pollCancel P (envelopeOf r)) (\<lambda>done'. retP (if done' then cancelled + 1 else cancelled, claimedCount, completed))
     else bindP (isoNow P) (\<lambda>now.
       bindP (claim (po_store P) r (po_host P) now) (\<lambda>claimed. case claimed of
         None \<Rightarrow> retP (cancelled, claimedCount, completed)
       | Some c \<Rightarrow> bindP (processClaimed P c) (\<lambda>(current, result).
           bindP (finalizeResult P current result) (\<lambda>done'.
           retP (cancelled, claimedCount + 1, if done' then completed + 1 else completed))))))"

definition pollRequests :: "'s poller \<Rightarrow> ('s, poll_summary) prog" where
  "pollRequests P =
     bindP (listRequested (po_store P)) (\<lambda>listed.
     bindP (recoverStale P) (\<lambda>stale.
     bindP (whenP (qr_skipped listed > 0)
       (logLine P ''REQUEST_RECORD_UNIDENTIFIABLE'' (''count='' @ stringOfInt (int (qr_skipped listed))))) (\<lambda>_.
     bindP (foldP (pollInvalid P) (qr_invalid listed) 0) (\<lambda>cancelled.
     bindP (foldP (pollOne P) (qr_valid listed) (cancelled, 0, 0)) (\<lambda>(cancelled', claimedCount, completed).
     retP \<lparr> pu_requested = length (qr_valid listed), pu_claimed = claimedCount, pu_completed = completed,
       pu_cancelled = cancelled', pu_invalid = length (qr_invalid listed), pu_skippedMalformed = qr_skipped listed,
       pu_stale = stale \<rparr>)))))"

end
