(* ===== verification/RequestContract.thy ===== *)
theory RequestContract
  imports RequestPoller KintoneContract
begin

text \<open>
  The life cycle of requests as a claim sees it, and what a parsed record says. \<open>later\<close> lists the states a record may be found in
  after it was seen in another one, by anybody's doing. It is wider than the documented moves: a result may be followed by
  another result, since the poller that writes a result after a refused update does not look at the state it finds
  (\<open>writeResult\<close>). The moves that the poller itself makes are those of \<open>documented\<close> in \<open>RequestSafety\<close>.
\<close>

section \<open>The life cycle\<close>

definition stateOf :: "kintone_record \<Rightarrow> string" where "stateOf x = fieldText x ''request_state''"

text \<open>The states a request may be found in later on.\<close>

definition later :: "string \<Rightarrow> string \<Rightarrow> bool" where
  "later a b \<longleftrightarrow> a = b \<or>
     (a = ''REQUESTED'' \<and> b \<in> {''ACCEPTED'', ''DONE'', ''REJECTED'', ''CANCELLED''}) \<or>
     (a \<in> {''ACCEPTED'', ''DONE'', ''REJECTED''} \<and> b \<in> {''DONE'', ''REJECTED''})"

lemma later_refl [simp]: "later a a"
  by (simp add: later_def)

lemma later_trans: "later a b \<Longrightarrow> later b c \<Longrightarrow> later a c"
  by (auto simp: later_def)

definition requests_move :: "kintone_record \<Rightarrow> kintone_record \<Rightarrow> bool" where
  "requests_move x y \<longleftrightarrow> y = x \<or> (revised x y \<and> later (stateOf x) (stateOf y))"

definition requests_evolve :: "(string \<Rightarrow> kintone_record option) \<Rightarrow> (string \<Rightarrow> kintone_record option) \<Rightarrow> bool" where
  "requests_evolve v w \<longleftrightarrow> (\<forall>i x. v i = Some x \<longrightarrow> (\<exists>y. w i = Some y \<and> requests_move x y))"

lemma requests_move_trans: "requests_move x y \<Longrightarrow> requests_move y z \<Longrightarrow> requests_move x z"
  unfolding requests_move_def using revised_trans later_trans by blast

lemma requests_evolve_refl [simp]: "requests_evolve v v"
  by (simp add: requests_evolve_def requests_move_def)

lemma requests_evolve_trans: "requests_evolve u v \<Longrightarrow> requests_evolve v w \<Longrightarrow> requests_evolve u w"
  unfolding requests_evolve_def using requests_move_trans by blast

lemma requests_evolve_upd: "v i = Some x \<Longrightarrow> requests_move x y \<Longrightarrow> requests_evolve v (v(i \<mapsto> y))"
  by (auto simp: requests_evolve_def requests_move_def)

section \<open>What a parsed record says\<close>

lemma stringValue_Inr: "stringValue x f = Inr s \<Longrightarrow> fieldText x f = s \<and> fieldNumber x f = numberOfText s"
  by (auto simp: stringValue_def rawValue_def bindE_Inr_iff fieldText_def textOfJson_def fieldNumber_def numberOf_def
      split: if_splits option.splits json.splits)

lemma choice_Inr: "choice f v xs k = Inr y \<Longrightarrow> f y = v"
  by (auto simp: choice_def fromText_def find_Some_iff split: option.splits)

lemma numberOfText_int: "0 \<le> n \<Longrightarrow> numberOfText (stringOfInt n) = Finite (of_int n)"
proof -
  assume n: "0 \<le> n"
  let ?ds = "digitsOfNat (nat n)"
  have digits: "list_all isDigit ?ds" by (rule digits_isDigit)
  have ne: "?ds \<noteq> []" using digitsOfNat_no_leading_zero by blast
  have sp: "\<not> is_js_space c" if "c \<in> set ?ds" for c
    using digitsOfNat_chars [OF that] by (auto simp: is_js_space_def Let_def)
  have d: "dropWhile is_js_space xs = xs" if "\<forall>c \<in> set xs. \<not> is_js_space c" for xs
    using that by (cases xs) auto
  have "trim ?ds = ?ds" unfolding trim_def using sp by (simp add: d)
  with ne digits n show ?thesis
    using natOfDigits_digitsOfNat [of "nat n"] by (cases ?ds) (simp_all add: numberOfText_def stringOfInt_def)
qed

lemma positiveRevision_int: "positiveRevision n \<Longrightarrow> \<exists>k. n = Finite (of_int k)"
  by (cases n) (auto simp: positiveRevision_def dest: sym)

lemma parsedRequest:
  assumes "parseRequestRecord x = Inr r"
  shows "rq_id r = fieldText x ''$id''" "rq_revision r = revisionOf x" "requestStateText (rq_requestState r) = stateOf x"
    "positiveRevision (rq_revision r)" "validateRequestRecord r = []"
proof -
  from assms have f: "parseRequestFields x = Inr r" and v: "validateRequestRecord r = []"
    by (auto simp: parseRequestRecord_def bindE_Inr_iff Let_def split: if_splits)
  from v show "positiveRevision (rq_revision r)" "validateRequestRecord r = []"
    by (auto simp: validateRequestRecord_def issueIf_def split: if_splits)
  from f show "rq_id r = fieldText x ''$id''" "rq_revision r = revisionOf x" "requestStateText (rq_requestState r) = stateOf x"
    unfolding parseRequestFields_def bindE_Inr_iff revisionOf_def stateOf_def
    by (auto dest!: choice_Inr stringValue_Inr)
qed

lemma parsedEnvelope:
  assumes "parseRequestEnvelope x = Inr e"
  shows "re_id e = fieldText x ''$id''" "re_revision e = revisionOf x" "requestStateText (re_requestState e) = stateOf x"
    "positiveRevision (re_revision e)"
  using assms unfolding parseRequestEnvelope_def bindE_Inr_iff revisionOf_def stateOf_def Let_def
  by (auto simp: issueIf_def dest!: stringValue_Inr choice_Inr split: if_splits)

end
