(* ===== verification/RequestSafety.thy ===== *)
theory RequestSafety
  imports RequestContract
begin

text \<open>
  The request app as the pollers see it. \<open>request_app\<close> is the app in which everybody keeps to \<open>later\<close>, for the claim.
  \<open>logged_app\<close> assumes nothing about the moves of others: records stay and their revisions rise. It logs the updates of this
  poller, each with the state of the record it took effect on, and every call of the store, also one that throws, adds only
  updates that the life cycle allows. The proofs follow what is known of a record after each read, which nobody can falsify.
\<close>

section \<open>Programs that start from a stable fact\<close>

definition safe :: "('s \<Rightarrow> 's \<Rightarrow> bool) \<Rightarrow> ('s \<Rightarrow> bool) \<Rightarrow> ('s, 'a) prog \<Rightarrow> ('a \<Rightarrow> 's \<Rightarrow> bool) \<Rightarrow> bool" where
  "safe T K m Q \<longleftrightarrow> (\<forall>s r t. K s \<longrightarrow> m s = (r, t) \<longrightarrow> T s t \<and> (\<forall>x. r = Inr x \<longrightarrow> Q x t))"

definition stable :: "('s \<Rightarrow> 's \<Rightarrow> bool) \<Rightarrow> ('s \<Rightarrow> bool) \<Rightarrow> bool" where
  "stable T K \<longleftrightarrow> (\<forall>s t. K s \<longrightarrow> T s t \<longrightarrow> K t)"

lemma safeI: "(\<And>s r t. K s \<Longrightarrow> m s = (r, t) \<Longrightarrow> T s t \<and> (\<forall>x. r = Inr x \<longrightarrow> Q x t)) \<Longrightarrow> safe T K m Q"
  by (simp add: safe_def)

lemma safeD: "safe T K m Q \<Longrightarrow> K s \<Longrightarrow> m s = (r, t) \<Longrightarrow> T s t \<and> (\<forall>x. r = Inr x \<longrightarrow> Q x t)"
  by (simp add: safe_def)

lemma safe_weaken: "safe T K m Q \<Longrightarrow> (\<And>s. K' s \<Longrightarrow> K s) \<Longrightarrow> (\<And>x t. Q x t \<Longrightarrow> Q' x t) \<Longrightarrow> safe T K' m Q'"
  unfolding safe_def by blast

lemma safe_frame: "safe T K m Q \<Longrightarrow> stable T F \<Longrightarrow> safe T (\<lambda>s. K s \<and> F s) m (\<lambda>x t. Q x t \<and> F t)"
  unfolding safe_def stable_def by blast

lemma safe_fact: "(F \<Longrightarrow> safe T K m Q) \<Longrightarrow> safe T (\<lambda>s. K s \<and> F) m Q"
  unfolding safe_def by blast

lemma safe_if: "(b \<Longrightarrow> safe T K m Q) \<Longrightarrow> (\<not> b \<Longrightarrow> safe T K n Q) \<Longrightarrow> safe T K (if b then m else n) Q"
  by simp

lemma stable_True [simp]: "stable T (\<lambda>_. True)"
  by (simp add: stable_def)

lemma stable_conj: "stable T K \<Longrightarrow> stable T F \<Longrightarrow> stable T (\<lambda>s. K s \<and> F s)"
  by (auto simp: stable_def)

lemma stable_ball: "(\<And>x. x \<in> A \<Longrightarrow> stable T (K x)) \<Longrightarrow> stable T (\<lambda>s. \<forall>x \<in> A. K x s)"
  by (auto simp: stable_def)

context state_order
begin

lemma safe_pure:
  "(\<And>s. K s \<Longrightarrow> Q x s) \<Longrightarrow> safe T K (retP x) Q"
  "safe T K (throwP e) Q"
  "(\<And>s. K s \<Longrightarrow> Q (f s) s) \<Longrightarrow> safe T K (readP f) Q"
  "(\<And>s v. r = Inr v \<Longrightarrow> K s \<Longrightarrow> Q v s) \<Longrightarrow> safe T K (liftP r) Q"
  by (auto simp: safe_def T_refl)

lemma safe_bind: "safe T K m Q \<Longrightarrow> (\<And>x. safe T (Q x) (k x) R) \<Longrightarrow> safe T K (bindP m k) R"
proof (rule safeI)
  fix s r t
  assume m: "safe T K m Q" and k: "\<And>x. safe T (Q x) (k x) R" and s: "K s" and run: "bindP m k s = (r, t)"
  from run show "T s t \<and> (\<forall>x. r = Inr x \<longrightarrow> R x t)"
  proof (cases rule: bindP_cases)
    case (1 e)
    with safeD [OF m s] show ?thesis by blast
  next
    case (2 x u)
    from safeD [OF m s 2(1)] have "T s u" "Q x u" by blast+
    with safeD [OF k _ 2(2)] show ?thesis by (blast intro: T_trans)
  qed
qed

lemma safe_attempt: "safe T K m Q \<Longrightarrow> stable T K \<Longrightarrow> safe T K (attemptP m) (\<lambda>r t. K t \<and> (\<forall>x. r = Inr x \<longrightarrow> Q x t))"
  by (rule safeI) (auto simp: stable_def dest: safeD intro: prod.collapse [symmetric])

lemma safe_catch:
  assumes m: "safe T K m Q" and K: "stable T K" and h: "\<And>e. safe T K (h e) Q"
  shows "safe T K (catchP m h) Q"
proof (rule safeI)
  fix s r t
  assume s: "K s" and run: "catchP m h s = (r, t)"
  obtain p u where p: "m s = (p, u)" by fastforce
  from safeD [OF m s p] have u: "T s u" "\<forall>x. p = Inr x \<longrightarrow> Q x u" by blast+
  show "T s t \<and> (\<forall>x. r = Inr x \<longrightarrow> Q x t)"
  proof (cases p)
    case (Inl e)
    with run p have "h e u = (r, t)" by simp
    moreover have "K u" using K s u(1) unfolding stable_def by blast
    ultimately show ?thesis using safeD [OF h] T_trans [OF u(1)] by blast
  next
    case (Inr x)
    with run p u show ?thesis by auto
  qed
qed

lemma safe_guarantees: "guarantees T m \<Longrightarrow> stable T K \<Longrightarrow> safe T K m (\<lambda>_. K)"
  by (rule safeI) (auto simp: stable_def dest: guaranteesD)

lemma safe_foldP: "(\<And>x a. x \<in> set xs \<Longrightarrow> safe T K (f x a) (\<lambda>_. K)) \<Longrightarrow> safe T K (foldP f xs a) (\<lambda>_. K)"
  by (induction xs arbitrary: a) (auto intro: safe_pure safe_bind)

lemma safe_run: "safe T (\<lambda>_. True) m Q \<Longrightarrow> guarantees T m"
  unfolding guarantees_def by (metis prod.collapse safeD)

lemma safe_whenP: "safe T K m (\<lambda>_. K) \<Longrightarrow> safe T K (whenP b m) (\<lambda>_. K)"
  unfolding whenP_def by (auto intro: safe_pure)

end

section \<open>The request app\<close>

definition writtenState :: "(string \<times> json) list \<Rightarrow> string \<Rightarrow> string" where
  "writtenState fs st = (case mapGet fs ''request_state'' of None \<Rightarrow> st | Some v \<Rightarrow> sentText v)"

locale request_app =
  fixes S :: "'s request_store" and view :: "'s kintone_view"
  assumes query: "storeRecords S q s = (r, t) \<Longrightarrow> requests_evolve (view s) (view t)"
    and answer: "storeRecords S q s = (Inr xs, t) \<Longrightarrow> x \<in> set xs \<Longrightarrow>
      \<exists>v. requests_evolve (view s) v \<and> v (fieldText x ''$id'') = Some x \<and> requests_evolve v (view t)"
    and answer_of_id: "storeRecords S (idQuery i) s = (Inr xs, t) \<Longrightarrow> x \<in> set xs \<Longrightarrow> fieldText x ''$id'' = i"
    and answer_requested: "storeRecords S (requestedQuery S) s = (Inr xs, t) \<Longrightarrow> x \<in> set xs \<Longrightarrow> stateOf x = ''REQUESTED''"
    and answer_accepted: "storeRecords S (acceptedQuery S) s = (Inr xs, t) \<Longrightarrow> x \<in> set xs \<Longrightarrow> stateOf x = ''ACCEPTED''"
    and update: "storePut S i n fs s = (u, t) \<Longrightarrow>
      (requests_evolve (view s) (view t) \<and> (\<exists>e. u = Inl e)) \<or>
      (\<exists>v x y. requests_evolve (view s) v \<and> v i = Some x \<and> revisionOf x = n \<and> revised x y \<and>
         stateOf y = writtenState fs (stateOf x) \<and> requests_evolve (v(i \<mapsto> y)) (view t) \<and>
         ((\<exists>e. u = Inl e) \<or> u = Inr (revisionOf y)))"

section \<open>A revision that was replaced\<close>

text \<open>The revision \<open>n\<close> of the record was replaced: nothing will be written on it any more.\<close>

definition spent :: "(string \<Rightarrow> kintone_record option) \<Rightarrow> string \<Rightarrow> js_number \<Rightarrow> bool" where
  "spent v i n \<longleftrightarrow> (\<exists>x m k. v i = Some x \<and> n = Finite (of_int m) \<and> revisionOf x = Finite (of_int k) \<and> m < (k :: int))"

lemma revised_spent: "revised x y \<Longrightarrow> spent (v(i \<mapsto> y)) i (revisionOf x)"
  unfolding revised_def spent_def by fastforce

lemma spent_stable:
  assumes "spent v i n" "requests_evolve v w"
  shows "spent w i n"
proof -
  from assms(1) obtain x m k where x: "v i = Some x" "n = Finite (of_int m)" "revisionOf x = Finite (of_int k)" "m < k"
    unfolding spent_def by blast
  from assms(2) x(1) obtain y where y: "w i = Some y" "requests_move x y" unfolding requests_evolve_def by blast
  from y(2) consider "y = x" | "revised x y" unfolding requests_move_def by blast
  then show ?thesis
  proof cases
    case 1
    with x y show ?thesis unfolding spent_def by blast
  next
    case 2
    then obtain a b :: int where "revisionOf x = Finite (of_int a)" "revisionOf y = Finite (of_int b)" "a < b"
      unfolding revised_def by blast
    with x y(1) show ?thesis unfolding spent_def by (auto intro!: exI [of _ b])
  qed
qed

context request_app
begin

lemma spent_refuses:
  assumes "storePut S i n fs s = (Inr m, t)"
  shows "\<not> spent (view s) i n"
proof
  assume "spent (view s) i n"
  moreover from update [OF assms] obtain v x where "requests_evolve (view s) v" "v i = Some x" "revisionOf x = n"
    by blast
  ultimately have "spent v i n" "v i = Some x" "revisionOf x = n" using spent_stable by blast+
  then show False by (auto simp: spent_def)
qed

lemma put_spends:
  assumes "storePut S i n fs s = (Inr m, t)"
  shows "spent (view t) i n"
proof -
  from update [OF assms] obtain v x y where "revisionOf x = n" "revised x y" "requests_evolve (v(i \<mapsto> y)) (view t)"
    by blast
  then show ?thesis using revised_spent spent_stable by blast
qed

end

section \<open>Records that anybody may change\<close>

definition records_evolve :: "(string \<Rightarrow> kintone_record option) \<Rightarrow> (string \<Rightarrow> kintone_record option) \<Rightarrow> bool" where
  "records_evolve v w \<longleftrightarrow> (\<forall>i x. v i = Some x \<longrightarrow> (\<exists>y. w i = Some y \<and> (y = x \<or> revised x y)))"

lemma records_evolve_refl [simp]: "records_evolve v v"
  by (simp add: records_evolve_def)

lemma records_evolve_trans: "records_evolve u v \<Longrightarrow> records_evolve v w \<Longrightarrow> records_evolve u w"
  unfolding records_evolve_def using revised_trans by blast

lemma records_evolve_upd: "v i = Some x \<Longrightarrow> revised x y \<Longrightarrow> records_evolve v (v(i \<mapsto> y))"
  by (auto simp: records_evolve_def)

lemma requests_evolve_records: "requests_evolve v w \<Longrightarrow> records_evolve v w"
  unfolding records_evolve_def requests_evolve_def requests_move_def by blast

text \<open>The record had state \<open>st\<close> at revision \<open>n\<close>: it has it still, or a newer revision.\<close>

definition knows :: "(string \<Rightarrow> kintone_record option) \<Rightarrow> string \<Rightarrow> js_number \<Rightarrow> string \<Rightarrow> bool" where
  "knows v i n st \<longleftrightarrow> (\<exists>x m k. v i = Some x \<and> n = Finite (of_int m) \<and> revisionOf x = Finite (of_int k) \<and> m \<le> (k :: int) \<and>
     (m = k \<longrightarrow> stateOf x = st))"

lemma knows_stable:
  assumes "knows v i n st" "records_evolve v w"
  shows "knows w i n st"
proof -
  from assms(1) obtain x m k where x: "v i = Some x" "n = Finite (of_int m)" "revisionOf x = Finite (of_int k)" "m \<le> k"
    "m = k \<longrightarrow> stateOf x = st" unfolding knows_def by blast
  from assms(2) x(1) obtain y where y: "w i = Some y" "y = x \<or> revised x y" unfolding records_evolve_def by blast
  from y(2) show ?thesis
  proof
    assume "y = x"
    with x y show ?thesis unfolding knows_def by blast
  next
    assume "revised x y"
    then obtain a b :: int where "revisionOf x = Finite (of_int a)" "revisionOf y = Finite (of_int b)" "a < b"
      unfolding revised_def by blast
    with x y(1) show ?thesis unfolding knows_def by (auto intro!: exI [of _ b])
  qed
qed

lemma knows_now: "v i = Some x \<Longrightarrow> revisionOf x = Finite (of_int k) \<Longrightarrow> knows v i (revisionOf x) (stateOf x)"
  unfolding knows_def by fastforce

lemma knows_current: "knows v i n st \<Longrightarrow> v i = Some x \<Longrightarrow> revisionOf x = n \<Longrightarrow> stateOf x = st"
  by (auto simp: knows_def)

abbreviation knows_request :: "(string \<Rightarrow> kintone_record option) \<Rightarrow> request_record \<Rightarrow> bool" where
  "knows_request v r \<equiv> knows v (rq_id r) (rq_revision r) (requestStateText (rq_requestState r))"

abbreviation knows_envelope :: "(string \<Rightarrow> kintone_record option) \<Rightarrow> request_envelope \<Rightarrow> bool" where
  "knows_envelope v e \<equiv> knows v (re_id e) (re_revision e) (requestStateText (re_requestState e))"

section \<open>The updates of the poller\<close>

text \<open>
  An update: the id, the fields, and the state of the record it took effect on, \<open>None\<close> when it was refused. The documented moves
  are those of the state machine of requests (\<open>docs/specification.md\<close>, 6.1), and the heartbeat of an ACCEPTED request.
\<close>

type_synonym own_write = "string \<times> (string \<times> json) list \<times> string option"

definition documented :: "string \<Rightarrow> string \<Rightarrow> bool" where
  "documented a b \<longleftrightarrow> (a = ''REQUESTED'' \<and> b \<in> {''ACCEPTED'', ''REJECTED'', ''CANCELLED''}) \<or>
     (a = ''ACCEPTED'' \<and> b \<in> {''ACCEPTED'', ''DONE'', ''REJECTED''})"

text \<open>
  Every update that took effect is a documented move, or the one exception: a result that is sent again right after the very same
  update was refused.
\<close>

definition documented_write :: "own_write option \<Rightarrow> own_write \<Rightarrow> bool" where
  "documented_write before = (\<lambda>(i, fs, taken). case taken of
     None \<Rightarrow> True
   | Some st \<Rightarrow> documented st (writtenState fs st) \<or>
       (before = Some (i, fs, None) \<and> writtenState fs st \<in> {''DONE'', ''REJECTED''}))"

fun documented_writes :: "own_write option \<Rightarrow> own_write list \<Rightarrow> bool" where
  "documented_writes before [] \<longleftrightarrow> True"
| "documented_writes before (w # ws) \<longleftrightarrow> documented_write before w \<and> documented_writes (Some w) ws"

lemma documented_write_before: "documented_write None w \<Longrightarrow> documented_write before w"
  by (auto simp: documented_write_def split: option.splits)

lemma documented_writes_before: "documented_writes None ws \<Longrightarrow> documented_writes before ws"
  by (cases ws) (auto intro: documented_write_before)

lemma documented_writes_append: "documented_writes before us \<Longrightarrow> documented_writes None ws \<Longrightarrow> documented_writes before (us @ ws)"
  by (induction us arbitrary: before) (auto intro: documented_writes_before)

definition poller_history :: "'s kintone_view \<Rightarrow> ('s \<Rightarrow> own_write list) \<Rightarrow> 's \<Rightarrow> 's \<Rightarrow> bool" where
  "poller_history view writes s t \<longleftrightarrow>
     records_evolve (view s) (view t) \<and> (\<exists>ws. writes t = writes s @ ws \<and> documented_writes None ws)"

text \<open>What happens without an update of the poller.\<close>

definition others :: "'s kintone_view \<Rightarrow> ('s \<Rightarrow> own_write list) \<Rightarrow> 's \<Rightarrow> 's \<Rightarrow> bool" where
  "others view writes s t \<longleftrightarrow> records_evolve (view s) (view t) \<and> writes t = writes s"

lemma others_history: "others view writes s t \<Longrightarrow> poller_history view writes s t"
  by (auto simp: others_def poller_history_def)

lemma poller_history_order: "state_order (poller_history view writes)"
proof
  show "poller_history view writes s s" for s by (auto simp: poller_history_def)
  show "poller_history view writes s u" if "poller_history view writes s t" "poller_history view writes t u" for s t u
    using that unfolding poller_history_def by (auto intro: records_evolve_trans documented_writes_append)
qed

locale logged_app =
  fixes S :: "'s request_store" and view :: "'s kintone_view" and writes :: "'s \<Rightarrow> own_write list"
  assumes query: "storeRecords S q s = (r, t) \<Longrightarrow> others view writes s t"
    and answer: "storeRecords S q s = (Inr xs, t) \<Longrightarrow> x \<in> set xs \<Longrightarrow>
      \<exists>v. v (fieldText x ''$id'') = Some x \<and> records_evolve v (view t)"
    and answer_of_id: "storeRecords S (idQuery i) s = (Inr xs, t) \<Longrightarrow> x \<in> set xs \<Longrightarrow> fieldText x ''$id'' = i"
    and answer_requested: "storeRecords S (requestedQuery S) s = (Inr xs, t) \<Longrightarrow> x \<in> set xs \<Longrightarrow> stateOf x = ''REQUESTED''"
    and answer_accepted: "storeRecords S (acceptedQuery S) s = (Inr xs, t) \<Longrightarrow> x \<in> set xs \<Longrightarrow> stateOf x = ''ACCEPTED''"
    and update: "storePut S i n fs s = (u, t) \<Longrightarrow>
      (records_evolve (view s) (view t) \<and> writes t = writes s @ [(i, fs, None)] \<and> (\<exists>e. u = Inl e)) \<or>
      (\<exists>v x y. records_evolve (view s) v \<and> v i = Some x \<and> revisionOf x = n \<and> revised x y \<and>
         stateOf y = writtenState fs (stateOf x) \<and> records_evolve (v(i \<mapsto> y)) (view t) \<and>
         writes t = writes s @ [(i, fs, Some (stateOf x))] \<and>
         ((\<exists>e. u = Inl e \<and> \<not> requestConflict e) \<or> u = Inr (revisionOf y)))"

sublocale logged_app \<subseteq> hist: state_order "poller_history view writes"
  by (rule poller_history_order)

context logged_app
begin

abbreviation "H \<equiv> poller_history view writes"

abbreviation "knowing i n st \<equiv> (\<lambda>s. knows (view s) i n st)"

lemma knowing_stable: "stable H (knowing i n st)"
  by (auto simp: stable_def poller_history_def dest: knows_stable)

lemma by_others: "guarantees (others view writes) m \<Longrightarrow> guarantees H m"
  unfolding guarantees_def by (auto intro: others_history)

lemma queries: "guarantees H (storeRecords S q)"
  by (rule by_others) (auto simp: guarantees_def intro: query prod.collapse [symmetric])

lemma put_logged:
  assumes "storePut S i n fs s = (u, t)"
  shows "records_evolve (view s) (view t) \<and> (\<exists>taken. writes t = writes s @ [(i, fs, taken)])"
proof -
  from update [OF assms] consider "records_evolve (view s) (view t)" "writes t = writes s @ [(i, fs, None)]"
    | v x y where "records_evolve (view s) v" "v i = Some x" "revised x y" "records_evolve (v(i \<mapsto> y)) (view t)"
      "writes t = writes s @ [(i, fs, Some (stateOf x))]" by blast
  then show ?thesis
  proof cases
    case (2 v x y)
    from records_evolve_upd [of v i x y, OF 2(2,3)] 2(1,4) have "records_evolve (view s) (view t)"
      using records_evolve_trans by blast
    with 2(5) show ?thesis by blast
  qed blast
qed

text \<open>A conflict is a refusal.\<close>

lemma put_refused:
  assumes "storePut S i n fs s = (Inl e, t)" "requestConflict e"
  shows "records_evolve (view s) (view t) \<and> writes t = writes s @ [(i, fs, None)]"
  using update [OF assms(1)] assms(2) by auto

text \<open>An update from a known state along a documented move.\<close>

lemma put_safe:
  assumes "documented st (writtenState fs st)"
  shows "safe H (knowing i n st) (storePut S i n fs) (\<lambda>m. knowing i m (writtenState fs st))"
proof (rule safeI)
  fix s u t
  assume k: "knows (view s) i n st" and put: "storePut S i n fs s = (u, t)"
  from update [OF put] consider (none) e where "records_evolve (view s) (view t)" "writes t = writes s @ [(i, fs, None)]" "u = Inl e"
    | (written) v x y where "records_evolve (view s) v" "v i = Some x" "revisionOf x = n" "revised x y"
      "stateOf y = writtenState fs (stateOf x)" "records_evolve (v(i \<mapsto> y)) (view t)"
      "writes t = writes s @ [(i, fs, Some (stateOf x))]" "(\<exists>e. u = Inl e) \<or> u = Inr (revisionOf y)"
    by blast
  then show "H s t \<and> (\<forall>x. u = Inr x \<longrightarrow> knows (view t) i x (writtenState fs st))"
  proof cases
    case none
    then show ?thesis by (auto simp: poller_history_def documented_write_def)
  next
    case (written v x y)
    note v = written(1-3) and y = written(4,5) and t = written(6-8)
    have st: "stateOf x = st" using knows_current [OF knows_stable [OF k v(1)] v(2,3)] .
    have "documented_writes None [(i, fs, Some (stateOf x))]" using assms by (simp add: documented_write_def st)
    then have "H s t" using put_logged [OF put] t(2) unfolding poller_history_def by blast
    moreover have "knows (view t) i (revisionOf y) (stateOf y)"
    proof -
      from y(1) obtain k :: int where "revisionOf y = Finite (of_int k)" unfolding revised_def by blast
      then have "knows (v(i \<mapsto> y)) i (revisionOf y) (stateOf y)" by (intro knows_now) simp_all
      then show ?thesis using t(1) by (rule knows_stable)
    qed
    ultimately show ?thesis using t(3) st y(2) by auto
  qed
qed

lemma put_unless_conflict_safe:
  assumes "documented st (writtenState fs st)"
  shows "safe H (knowing i n st) (putUnlessConflict S i n fs)
    (\<lambda>m s. knows (view s) i n st \<and> (\<forall>k. m = Some k \<longrightarrow> knows (view s) i k (writtenState fs st)))"
proof -
  have "safe H (knowing i n st) (storePut S i n fs)
      (\<lambda>m s. knows (view s) i n st \<and> knows (view s) i m (writtenState fs st))"
    using safe_frame [OF put_safe [OF assms] knowing_stable] by (rule safe_weaken) auto
  then show ?thesis unfolding putUnlessConflict_def
    by (intro hist.safe_catch knowing_stable hist.safe_bind hist.safe_pure safe_if) auto
qed

end

section \<open>The store\<close>

lemma writtenState_simps [simp]:
  "writtenState (resultFields result) st = requestStateText (rr_state result)"
  "writtenState (claimFields host now) st = ''ACCEPTED''"
  "writtenState [textEntry ''claim_heartbeat_at'' now] st = st"
  by (simp_all add: writtenState_def resultFields_def claimFields_def textEntry_def sentText_def textOfJson_def)

definition endsRequest :: "request_result \<Rightarrow> bool" where
  "endsRequest result \<longleftrightarrow> rr_state result = Done \<or> rr_state result = Rejected"

lemma endsRequest_state: "endsRequest result \<Longrightarrow> requestStateText (rr_state result) \<in> {''DONE'', ''REJECTED''}"
  by (auto simp: endsRequest_def)

lemma endsRequest_documented: "endsRequest result \<Longrightarrow> documented ''ACCEPTED'' (requestStateText (rr_state result))"
  using endsRequest_state by (auto simp: documented_def)

context logged_app
begin

lemma clientRead:
  assumes "storeRecords S q s = (Inr xs, t)" "x \<in> set xs" "revisionOf x = Finite (of_int k)"
  shows "knows (view t) (fieldText x ''$id'') (revisionOf x) (stateOf x)"
proof -
  from answer [OF assms(1,2)] obtain v where v: "v (fieldText x ''$id'') = Some x" "records_evolve v (view t)" by blast
  from knows_stable [OF knows_now [of v "fieldText x ''$id''" x k, OF v(1) assms(3)] v(2)] show ?thesis .
qed

lemma read_request:
  assumes "storeRecords S q s = (Inr xs, t)" "x \<in> set xs" "parseRequestRecord x = Inr r"
  shows "knows_request (view t) r"
proof -
  note facts = parsedRequest [OF assms(3)]
  from positiveRevision_int [OF facts(4)] facts(2) obtain k where "revisionOf x = Finite (of_int k)" by metis
  from clientRead [OF assms(1,2) this] facts show ?thesis by simp
qed

lemma getById_read:
  assumes "getRequestById S i s = (r, t)"
  shows "others view writes s t \<and> (\<forall>c. r = Inr (Some c) \<longrightarrow> rq_id c = i \<and> knows_request (view t) c)"
proof -
  obtain p where p: "storeRecords S (idQuery i) s = (p, t)"
    using assms by (cases "storeRecords S (idQuery i) s") (auto simp: getRequestById_def bindP_run split: sum.splits list.splits)
  have "rq_id c = i \<and> knows_request (view t) c" if "r = Inr (Some c)" for c
  proof -
    from assms p that obtain x xs where x: "p = Inr (x # xs)" "parseRequestRecord x = Inr c"
      by (auto simp: getRequestById_def bindP_run split: sum.splits list.splits)
    with answer_of_id [of i s "x # xs" t x] read_request [of "idQuery i" s "x # xs" t x c] p
    show ?thesis by (simp add: parsedRequest)
  qed
  with query [OF p] show ?thesis by blast
qed

lemma getById_safe: "safe H (\<lambda>_. True) (getRequestById S i) (\<lambda>o' s. \<forall>c. o' = Some c \<longrightarrow> knows_request (view s) c)"
proof (rule safeI)
  fix s r t
  assume "getRequestById S i s = (r, t)"
  from getById_read [OF this] others_history [of view writes s t]
  show "H s t \<and> (\<forall>o'. r = Inr o' \<longrightarrow> (\<forall>c. o' = Some c \<longrightarrow> knows_request (view t) c))" by auto
qed

text \<open>The second attempt sends at most the same update.\<close>

lemma writeAgain_logged:
  assumes "writeAgain S i result s = (r, t)"
  shows "records_evolve (view s) (view t) \<and>
    (\<exists>ws. writes t = writes s @ ws \<and> (ws = [] \<or> (\<exists>taken. ws = [(i, resultFields result, taken)])))"
proof -
  obtain p u where p: "getRequestById S i s = (p, u)" by fastforce
  note read = getById_read [OF p]
  show ?thesis
  proof (cases "\<exists>c. p = Inr (Some c) \<and> \<not> terminalMatches c result")
    case True
    then obtain c where c: "p = Inr (Some c)" "\<not> terminalMatches c result" by blast
    obtain q where "storePut S i (rq_revision c) (resultFields result) u = (q, t)"
      using assms p c read by (auto simp: writeAgain_def bindP_run split: sum.splits prod.splits)
    from put_logged [OF this] read show ?thesis unfolding others_def using records_evolve_trans by metis
  next
    case False
    with assms p have "t = u" by (auto simp: writeAgain_def bindP_run split: sum.splits option.splits)
    with read show ?thesis by (simp add: others_def)
  qed
qed

lemma putUnlessConflict_run:
  "storePut S i n fs s = (p, u) \<Longrightarrow> putUnlessConflict S i n fs s = (case p of
     Inl e \<Rightarrow> if requestConflict e then (Inr None, u) else (Inl e, u) | Inr m \<Rightarrow> (Inr (Some m), u))"
  by (cases p) (simp_all add: putUnlessConflict_def bindP_run)

lemma writeResult_cases:
  assumes "writeResult S r result s = (q, t)" "storePut S (rq_id r) (rq_revision r) (resultFields result) s = (p, u)"
    and "rq_requestState r = Accepted"
  shows "t = s \<or> t = u \<or> (\<exists>e. p = Inl e \<and> requestConflict e \<and> writeAgain S (rq_id r) result u = (q, t))"
proof (cases "assertValid (resultRecord r result (rq_revision r))")
  case (Inl e)
  with assms show ?thesis by (simp add: writeResult_def bindP_run)
next
  case (Inr x)
  with assms show ?thesis
    by (cases p) (auto simp: writeResult_def bindP_run putUnlessConflict_run split: if_splits)
qed

lemma writeResult_safe:
  assumes "rq_requestState r = Accepted" "endsRequest result"
  shows "safe H (\<lambda>s. knows_request (view s) r) (writeResult S r result) (\<lambda>_ _. True)"
proof (rule safeI)
  let ?fs = "resultFields result"
  fix s q t
  assume k: "knows_request (view s) r" and run: "writeResult S r result s = (q, t)"
  obtain p u where p: "storePut S (rq_id r) (rq_revision r) ?fs s = (p, u)" by fastforce
  have put: "H s u"
    using safeD [OF put_safe [of "''ACCEPTED''" ?fs "rq_id r" "rq_revision r"] _ p] k assms(1) endsRequest_documented [OF assms(2)]
    by simp
  consider "t = s" | "t = u" | e where "p = Inl e" "requestConflict e" "writeAgain S (rq_id r) result u = (q, t)"
    using writeResult_cases [OF run p assms(1)] by blast
  then show "H s t \<and> (\<forall>x. q = Inr x \<longrightarrow> True)"
  proof cases
    case (3 e)
    note refused = put_refused [OF p [unfolded 3(1)] 3(2)]
    from writeAgain_logged [OF 3(3)] obtain ws where ws: "records_evolve (view u) (view t)" "writes t = writes u @ ws"
      "ws = [] \<or> (\<exists>taken. ws = [(rq_id r, ?fs, taken)])" by blast
    let ?first = "(rq_id r, ?fs, None)"
    have "documented_writes None (?first # ws)"
      using ws(3) endsRequest_state [OF assms(2)] by (auto simp: documented_write_def split: option.splits)
    moreover have "writes t = writes s @ ?first # ws" using ws(2) refused by simp
    ultimately show ?thesis unfolding poller_history_def using refused ws(1) records_evolve_trans by blast
  qed (use put hist.T_refl in simp_all)
qed

lemma claim_safe:
  "safe H (\<lambda>s. knows_request (view s) r) (claim S r host now)
     (\<lambda>o' s. \<forall>c. o' = Some c \<longrightarrow> rq_requestState c = Accepted \<and> knows_request (view s) c)"
proof (cases "rq_requestState r = Requested")
  case True
  have "safe H (\<lambda>s. knows_request (view s) r) (putUnlessConflict S (rq_id r) (rq_revision r) (claimFields host now))
      (\<lambda>m s. \<forall>k. m = Some k \<longrightarrow> knows (view s) (rq_id r) k ''ACCEPTED'')"
    using put_unless_conflict_safe [of "''REQUESTED''" "claimFields host now" "rq_id r" "rq_revision r"] True
    by (auto simp: documented_def elim: safe_weaken)
  then have "safe H (\<lambda>s. knows_request (view s) r)
      (bindP (putUnlessConflict S (rq_id r) (rq_revision r) (claimFields host now))
        (\<lambda>n. retP (map_option (\<lambda>n. (claimedRecord r host now)\<lparr>rq_revision := n\<rparr>) n)))
      (\<lambda>o' s. \<forall>c. o' = Some c \<longrightarrow> rq_requestState c = Accepted \<and> knows_request (view s) c)"
    by (rule hist.safe_bind, intro hist.safe_pure) (auto simp: claimedRecord_def)
  from hist.safe_bind [OF hist.safe_pure(4) this]
  show ?thesis unfolding claim_def using True by simp
qed (simp add: claim_def hist.safe_pure)

lemma heartbeat_safe:
  "safe H (\<lambda>s. knows_request (view s) r) (requestHeartbeat S r now) (\<lambda>c s. rq_requestState c = Accepted \<and> knows_request (view s) c)"
proof (cases "rq_requestState r = Accepted")
  case True
  have "safe H (\<lambda>s. knows_request (view s) r) (storePut S (rq_id r) (rq_revision r) [textEntry ''claim_heartbeat_at'' now])
      (\<lambda>m s. knows (view s) (rq_id r) m ''ACCEPTED'')"
    using put_safe [of "''ACCEPTED''" "[textEntry ''claim_heartbeat_at'' now]" "rq_id r" "rq_revision r"] True by (simp add: documented_def)
  then have "safe H (\<lambda>s. knows_request (view s) r)
      (bindP (storePut S (rq_id r) (rq_revision r) [textEntry ''claim_heartbeat_at'' now])
        (\<lambda>n. retP (r\<lparr>rq_claimHeartbeatAt := Some now, rq_revision := n\<rparr>)))
      (\<lambda>c s. rq_requestState c = Accepted \<and> knows_request (view s) c)"
    by (rule hist.safe_bind, intro hist.safe_pure) (auto simp: True)
  from hist.safe_bind [OF hist.safe_pure(4) this]
  show ?thesis unfolding requestHeartbeat_def Let_def using True by simp
qed (simp add: requestHeartbeat_def hist.safe_pure)

lemma cancel_safe: "safe H (\<lambda>s. knows_envelope (view s) e) (cancelBeforeClaim S e result) (\<lambda>_ _. True)"
proof (cases "re_requestState e = Requested \<and> rr_state result = Cancelled")
  case True
  then have "safe H (\<lambda>s. knows_envelope (view s) e) (putUnlessConflict S (re_id e) (re_revision e) (resultFields result)) (\<lambda>_ _. True)"
    using put_unless_conflict_safe [of "''REQUESTED''" "resultFields result" "re_id e" "re_revision e"]
    by (auto simp: documented_def elim: safe_weaken)
  then show ?thesis unfolding cancelBeforeClaim_def by (auto intro!: safe_if hist.safe_pure elim!: hist.safe_bind)
qed (auto simp: cancelBeforeClaim_def hist.safe_pure)

lemma reject_safe:
  "re_requestState (iv_envelope iv) = Requested \<Longrightarrow>
     safe H (\<lambda>s. knows_envelope (view s) (iv_envelope iv)) (rejectInvalid S iv result) (\<lambda>_ _. True)"
proof (cases "rr_state result = Rejected")
  case True
  assume "re_requestState (iv_envelope iv) = Requested"
  with True have "safe H (\<lambda>s. knows_envelope (view s) (iv_envelope iv))
      (putUnlessConflict S (re_id (iv_envelope iv)) (re_revision (iv_envelope iv)) (resultFields result)) (\<lambda>_ _. True)"
    using put_unless_conflict_safe [of "''REQUESTED''" "resultFields result" "re_id (iv_envelope iv)" "re_revision (iv_envelope iv)"]
    by (auto simp: documented_def elim: safe_weaken)
  then show ?thesis unfolding rejectInvalid_def by (auto intro!: safe_if hist.safe_pure elim!: hist.safe_bind)
qed (simp add: rejectInvalid_def hist.safe_pure)

end

end
