(* ===== verification/PollerSafety.thy ===== *)
theory PollerSafety
  imports RequestSafety
begin

text \<open>
  A turn of the poller makes only documented updates, whatever the children, the other pollers and the users do in the meantime.
\<close>

section \<open>Every result ends a request\<close>

lemmas result_defs = rejectedResult_def doneResult_def spawnFailed_def noRunOutput_def endsRequest_def Let_def

lemma ends_simps [simp]: "endsRequest (rejectedResult code message)" "endsRequest (doneResult code message)"
  "endsRequest correlationInvalid" "endsRequest (startNetworkNotAllowed detail)" "endsRequest keyPolicyMismatch"
  "endsRequest staleResult" "endsRequest (result\<lparr>rr_message := message\<rparr>) = endsRequest result"
  by (simp_all add: result_defs correlationInvalid_def startNetworkNotAllowed_def keyPolicyMismatch_def staleResult_def)

lemma classified_ends [simp]: "endsRequest (classifyRunNetworkResult i)" "endsRequest (classifyStartNetworkResult i)"
  "endsRequest (classifyCancelResult p release)" "endsRequest (classifyArchiveRun i)"
  by (simp_all add: classifyRunNetworkResult_def classifyStartNetworkResult_def rejectedStart_def classifyCancelResult_def
      classifyArchiveRun_def archiveVerdict_def result_defs)

lemma reviewed_ends: "reviewRequest parseDate ty status run nowMs allowance = Inr (Some result) \<Longrightarrow> endsRequest result"
  by (cases ty) (auto simp: reviewRequest_def bindE_Inr_iff rerunReview_def stopReview_def closeReview_def Let_def split: if_splits)

lemma startKey_ends: "startKeyOf E d key scheduledFor = Inl result \<Longrightarrow> endsRequest result"
  by (auto simp: startKeyOf_def Let_def split: option.splits if_splits)

lemma bindE_Inl_iff: "bindE r k = Inl e \<longleftrightarrow> r = Inl e \<or> (\<exists>x. r = Inr x \<and> k x = Inl e)"
  by (cases r) auto

lemma prepared_ends:
  "bindE (startableDefinition network loaded) (\<lambda>d.
     if nd_business_key_policy d = Explicit then prepareExplicit E d r else prepareScheduled E d r) = Inl result \<Longrightarrow> endsRequest result"
  by (auto simp: bindE_Inl_iff startableDefinition_def prepareExplicit_def prepareScheduled_def Let_def
      dest!: startKey_ends split: if_splits option.splits)

section \<open>The poller\<close>

locale logged_poller = logged_app "po_store P" view writes
  for P :: "'s poller" and view :: "'s kintone_view" and writes :: "'s \<Rightarrow> own_write list" +
  assumes executes: "guarantees (others view writes) (ch_execute (po_child P) command args env)"
    and temporary: "guarantees (others view writes) (ch_makeTempDirectory (po_child P))"
      "guarantees (others view writes) (ch_removeTempDirectory (po_child P) directory)"
      "guarantees (others view writes) (ch_writeFile (po_child P) path reason)"
    and clock: "guarantees (others view writes) (po_now P)"
    and logs: "others view writes s (po_log P code detail s)"
    and files: "guarantees (others view writes) (nf_readFile (se_files (po_start P)) path)"
begin

lemmas environment = executes [THEN by_others] temporary [THEN by_others] clock [THEN by_others] files [THEN by_others]

lemma logLine_keeps: "guarantees H (logLine P code detail)"
  by (simp add: guarantees_def logLine_def others_history [OF logs])

lemma isoNow_keeps: "guarantees H (isoNow P)"
  unfolding isoNow_def by (intro hist.guarantees_bindP environment hist.guarantees_pure)

lemma runChild_keeps: "guarantees H (runChild (po_child P) args c)"
  unfolding runChild_def Let_def by (rule environment)

lemma reasonFile_keeps: "(\<And>path. guarantees H (body path)) \<Longrightarrow> guarantees H (withReasonFile (po_child P) reason body)"
  unfolding withReasonFile_def finallyP_def Let_def
  by (intro hist.guarantees_bindP hist.guarantees_attemptP environment hist.guarantees_pure)

lemma children_keep:
  "guarantees H (childStatus (po_child P) network selector)" "guarantees H (childRunNetwork (po_child P) network r)"
  "guarantees H (childStartNetwork (po_child P) network r i)" "guarantees H (childCancelRun (po_child P) r release)"
  "guarantees H (childArchiveRun (po_child P) network r)"
  unfolding childStatus_def childRunNetwork_def childStartNetwork_def childCancelRun_def childArchiveRun_def Let_def
  by (intro reasonFile_keeps hist.guarantees_bindP hist.guarantees_if hist.guarantees_case_option runChild_keeps hist.guarantees_pure)+

lemma resolve_keeps: "guarantees H (resolveRun P runId)"
  unfolding resolveRun_def
  by (intro hist.guarantees_foldP hist.guarantees_bindP hist.guarantees_if children_keep hist.guarantees_pure)

lemma prepare_keeps: "guarantees H (prepareStartRequest (po_start P) network r)"
  unfolding prepareStartRequest_def loadNetworkDefinition_def
  by (intro hist.guarantees_bindP hist.guarantees_attemptP environment hist.guarantees_pure)

lemma recoverStart_keeps: "guarantees H (recoverStaleStart P r nowMs)"
  unfolding recoverStaleStart_def
  by (intro hist.guarantees_case_option hist.guarantees_pure hist.guarantees_bindP prepare_keeps hist.guarantees_case_sum
      children_keep hist.guarantees_if hist.guarantees_case_list)

lemma owner_keeps: "guarantees H (ownerGone P r nowMs)"
  unfolding ownerGone_def
  by (intro hist.guarantees_if recoverStart_keeps hist.guarantees_bindP resolve_keeps hist.guarantees_case_list hist.guarantees_pure)

subsection \<open>A claimed request\<close>

abbreviation "known r \<equiv> (\<lambda>s. knows_request (view s) r)"

abbreviation "ended \<equiv> (\<lambda>p s. endsRequest (snd p))"

lemma known_stable: "stable H (known r)"
  by (rule knowing_stable)

lemma heartbeats_safe: "safe H (known r) (heartbeats P n r) (\<lambda>_ _. True)"
proof (induction n arbitrary: r)
  case 0
  then show ?case by (simp only: heartbeats.simps hist.safe_pure)
next
  case (Suc n)
  have "safe H (known r) (bindP (isoNow P) (\<lambda>now. requestHeartbeat (po_store P) r now)) (\<lambda>c. known c)"
    by (rule hist.safe_bind [OF hist.safe_guarantees [OF isoNow_keeps known_stable]])
      (rule safe_weaken [OF heartbeat_safe], auto)
  moreover have "safe H (known r) (bindP (logLine P code detail) (\<lambda>_. retP r)) (\<lambda>c. known c)" for code detail
    by (rule hist.safe_bind [OF hist.safe_guarantees [OF logLine_keeps known_stable]]) (rule hist.safe_pure)
  ultimately have "safe H (known r) (catchP (bindP (isoNow P) (\<lambda>now. requestHeartbeat (po_store P) r now))
      (\<lambda>_. bindP (logLine P ''CLAIM_HEARTBEAT_FAILED'' (requestId (rq_id r))) (\<lambda>_. retP r))) (\<lambda>c. known c)"
    by (rule hist.safe_catch [OF _ known_stable])
  from hist.safe_bind [OF this Suc.IH] show ?case unfolding heartbeats.simps .
qed

lemma withHeartbeat_safe:
  assumes "guarantees H start" "\<And>v. endsRequest (classify v)"
  shows "safe H (known r) (withHeartbeat P r start classify) ended"
proof -
  have "safe H (known r) (heartbeats P n r) (\<lambda>_ _. True)" for n by (rule heartbeats_safe)
  with assms show ?thesis unfolding withHeartbeat_def
    by (intro hist.safe_bind [OF hist.safe_guarantees [OF hist.guarantees_pure(3) known_stable]]
        hist.safe_bind [OF hist.safe_guarantees [OF hist.guarantees_attemptP known_stable]] hist.safe_bind)
      (auto intro: hist.safe_pure split: sum.splits)
qed

lemma keep_known: "guarantees H m \<Longrightarrow> safe H (known r) m (\<lambda>_. known r)"
  by (rule hist.safe_guarantees [OF _ known_stable])

lemma prepared_safe:
  "safe H (known r) (prepareStartRequest (po_start P) network c) (\<lambda>p s. known r s \<and> (\<forall>result. p = Inl result \<longrightarrow> endsRequest result))"
proof (rule safeI)
  fix s q t
  assume "known r s" and run: "prepareStartRequest (po_start P) network c s = (q, t)"
  with safeD [OF keep_known [OF prepare_keeps]] have "H s t" "\<forall>x. q = Inr x \<longrightarrow> known r t" by blast+
  moreover have "endsRequest result" if "q = Inr (Inl result)" for result
    using run that prepared_ends by (auto simp: prepareStartRequest_def bindP_Inr_iff)
  ultimately show "H s t \<and> (\<forall>x. q = Inr x \<longrightarrow> known r t \<and> (\<forall>result. x = Inl result \<longrightarrow> endsRequest result))" by blast
qed

lemma after_prepare:
  assumes "\<And>v. safe H (known r) (k v) ended"
  shows "safe H (known r) (bindP (prepareStartRequest (po_start P) network r) (\<lambda>p. case p of
    Inl result \<Rightarrow> retP (r, result) | Inr v \<Rightarrow> k v)) ended"
proof (rule hist.safe_bind [OF prepared_safe])
  fix p
  show "safe H (\<lambda>s. known r s \<and> (\<forall>result. p = Inl result \<longrightarrow> endsRequest result))
      (case p of Inl result \<Rightarrow> retP (r, result) | Inr v \<Rightarrow> k v) ended"
    using assms by (cases p) (auto intro: hist.safe_pure elim: safe_weaken)
qed

lemma processStart_safe: "safe H (known r) (processStart P r) ended"
proof -
  have run: "safe H (known r) (withHeartbeat P r (childStartNetwork (po_child P) network r i) classifyStartNetworkResult) ended"
    for network i by (rule withHeartbeat_safe) (simp_all add: children_keep)
  have ret: "safe H (known r) (retP (r, result)) ended" if "endsRequest result" for result
    using that by (simp add: hist.safe_pure del: run_simps)
  show ?thesis unfolding processStart_def
    by (auto intro!: safe_if after_prepare run ret split: option.splits)
qed

lemma runRequest_safe: "safe H (known r) (runRequest P r network) ended"
  unfolding runRequest_def by (cases "rq_requestType r") (auto intro!: withHeartbeat_safe children_keep)

lemma reviewAndRun_safe: "safe H (known r) (reviewAndRun P r resolved) ended"
  unfolding reviewAndRun_def
proof (rule hist.safe_bind [OF keep_known [OF environment(5)]])
  fix nowMs
  let ?review = "reviewRequest (se_parseDate (po_start P)) (rq_requestType r) (rn_status resolved) (rn_run resolved) nowMs
    (po_stalePrecisionAllowanceMs P)"
  have review: "safe H (known r) (liftP ?review) (\<lambda>o' s. known r s \<and> (\<forall>result. o' = Some result \<longrightarrow> endsRequest result))"
    by (rule hist.safe_pure) (auto dest: reviewed_ends)
  show "safe H (known r) (bindP (liftP ?review) (\<lambda>review. case review of Some result \<Rightarrow> retP (r, result)
      | None \<Rightarrow> runRequest P r (rn_network resolved))) ended"
  proof (rule hist.safe_bind [OF review])
    fix o'
    show "safe H (\<lambda>s. known r s \<and> (\<forall>result. o' = Some result \<longrightarrow> endsRequest result))
        (case o' of Some result \<Rightarrow> retP (r, result) | None \<Rightarrow> runRequest P r (rn_network resolved)) ended"
      using runRequest_safe by (cases o') (auto intro: hist.safe_pure elim: safe_weaken)
  qed
qed

lemma processClaimed_safe: "safe H (known r) (processClaimed P r) ended"
proof -
  have ret: "safe H (known r) (retP (r, result)) ended" if "endsRequest result" for result
    using that by (simp add: hist.safe_pure del: run_simps)
  have "safe H (known r) (bindP (attemptP (resolveRun P (rq_runId r))) (\<lambda>found. case found of
      Inl _ \<Rightarrow> retP (r, rejectedResult ''STATUS_UNAVAILABLE'' ''Run status could not be verified'')
    | Inr [] \<Rightarrow> retP (r, rejectedResult ''RUN_NOT_FOUND'' ''Run was not found in the allowlist'')
    | Inr [resolved] \<Rightarrow> reviewAndRun P r resolved
    | Inr _ \<Rightarrow> retP (r, rejectedResult ''RUN_ID_AMBIGUOUS'' ''Run ID matched multiple allowed networks''))) ended"
    by (rule hist.safe_bind [OF keep_known [OF hist.guarantees_attemptP [OF resolve_keeps]]])
      (auto intro!: ret reviewAndRun_safe split: sum.splits list.splits)
  then show ?thesis unfolding processClaimed_def by (intro safe_if processStart_safe ret) simp_all
qed

subsection \<open>A turn\<close>

abbreviation "always \<equiv> (\<lambda>_. True)"

lemma log_false: "safe H always (bindP (logLine P code detail) (\<lambda>_. retP x)) (\<lambda>_ _. True)"
  by (rule hist.safe_bind [OF hist.safe_guarantees [OF logLine_keeps stable_True]]) (rule hist.safe_pure, simp)

lemma getById_known: "safe H always (getRequestById (po_store P) i) (\<lambda>o' s. \<forall>c. o' = Some c \<longrightarrow> known c s)"
  by (rule getById_safe)

lemma finalizeResult_safe: "endsRequest result \<Longrightarrow> safe H always (finalizeResult P r result) (\<lambda>_ _. True)"
  unfolding finalizeResult_def
proof (rule hist.safe_bind [OF hist.safe_attempt [OF getById_known stable_True]], goal_cases)
  case (1 found)
  have ending: "safe H (known c) (catchP (bindP (writeResult (po_store P) c res) (\<lambda>_. retP True))
      (\<lambda>_. bindP (logLine P code detail) (\<lambda>_. retP False))) (\<lambda>_ _. True)"
    if "rq_requestState c = Accepted" "endsRequest res" for c res code detail
  proof (rule hist.safe_catch [OF _ known_stable])
    show "safe H (known c) (bindP (writeResult (po_store P) c res) (\<lambda>_. retP True)) (\<lambda>_ _. True)"
      by (rule hist.safe_bind [OF writeResult_safe [OF that]]) (rule hist.safe_pure, simp)
    show "safe H (known c) (bindP (logLine P code detail) (\<lambda>_. retP False)) (\<lambda>_ _. True)"
      by (rule safe_weaken [OF log_false]) simp_all
  qed
  show ?case
  proof (cases "\<exists>c. found = Inr (Some c)")
    case True
    then obtain c where c: "found = Inr (Some c)" by blast
    let ?res = "if rq_cancelRequested c then result\<lparr>rr_message := rr_message result @ '' (cancel_ignored)''\<rparr> else result"
    show ?thesis
    proof (cases "rq_requestState c = Accepted")
      case accepted: True
      have "endsRequest ?res" using 1 by simp
      from safe_weaken [OF ending [OF accepted this], where K' = "\<lambda>t. \<forall>x. found = Inr x \<longrightarrow> (\<forall>c. x = Some c \<longrightarrow> known c t)"]
      show ?thesis unfolding c Let_def sum.case option.case using accepted by simp
    next
      case False
      then show ?thesis unfolding c Let_def sum.case option.case
        by (auto intro: safe_weaken [OF log_false])
    qed
  next
    case False
    then show ?thesis
      by (cases found; cases "projr found") (auto simp: Let_def intro: safe_weaken [OF log_false])
  qed
qed

lemma pollCancel_safe: "safe H (\<lambda>s. knows_envelope (view s) e) (pollCancel P e) (\<lambda>_ _. True)"
  unfolding pollCancel_def
  by (intro hist.safe_bind [OF cancel_safe] hist.safe_bind [OF hist.safe_whenP])
    (auto intro: hist.safe_guarantees [OF logLine_keeps stable_True] hist.safe_pure)

lemma recoverOne_safe:
  assumes "rq_requestState r = Accepted"
  shows "safe H (known r) (recoverOne P nowMs r n) (\<lambda>_ _. True)"
proof -
  have gone: "safe H (known r) (bindP (ownerGone P r nowMs) (\<lambda>gone. if \<not> gone then retP n
      else bindP (writeResult (po_store P) r staleResult) (\<lambda>_. retP (n + 1)))) (\<lambda>_ _. True)"
    by (rule hist.safe_bind [OF keep_known [OF owner_keeps]], rule safe_if)
      (rule hist.safe_pure, simp, rule hist.safe_bind [OF writeResult_safe [OF assms]], simp, rule hist.safe_pure, simp)
  have log: "safe H (known r) (bindP (logLine P code detail) (\<lambda>_. retP n)) (\<lambda>_ _. True)" for code detail
    by (rule safe_weaken [OF log_false]) simp_all
  show ?thesis unfolding recoverOne_def
    by (rule safe_if, rule hist.safe_pure, simp, rule hist.safe_catch [OF gone known_stable log])
qed

text \<open>A loop whose turns each start from a stable fact of their own.\<close>

lemma safe_loop:
  assumes "\<And>x. x \<in> set xs \<Longrightarrow> stable H (K x)" "\<And>x a. x \<in> set xs \<Longrightarrow> safe H (K x) (f x a) (\<lambda>_ _. True)"
  shows "safe H (\<lambda>s. \<forall>x \<in> set xs. K x s) (foldP f xs a) (\<lambda>_ _. True)"
proof -
  have st: "stable H (\<lambda>s. \<forall>x \<in> set xs. K x s)" using assms(1) by (rule stable_ball)
  have "safe H (\<lambda>s. \<forall>x \<in> set xs. K x s) (f x a) (\<lambda>_ s. \<forall>x \<in> set xs. K x s)" if x: "x \<in> set xs" for x a
    using safe_frame [OF assms(2) [OF x] st] by (rule safe_weaken) (use x in auto)
  from hist.safe_foldP [of xs "\<lambda>s. \<forall>x \<in> set xs. K x s" f a, OF this] show ?thesis
    by (rule safe_weaken) simp_all
qed

lemma listed_facts:
  assumes "sortRequests xs q = Inr q'" "\<And>x. x \<in> set xs \<Longrightarrow> stateOf x = ''REQUESTED''"
    "\<And>x k. x \<in> set xs \<Longrightarrow> revisionOf x = Finite (of_int k) \<Longrightarrow> knows v (fieldText x ''$id'') (revisionOf x) (stateOf x)"
    "\<forall>r \<in> set (qr_valid q). knows_request v r"
    "\<forall>i \<in> set (qr_invalid q). re_requestState (iv_envelope i) = Requested \<and> knows_envelope v (iv_envelope i)"
  shows "(\<forall>r \<in> set (qr_valid q'). knows_request v r) \<and>
    (\<forall>i \<in> set (qr_invalid q'). re_requestState (iv_envelope i) = Requested \<and> knows_envelope v (iv_envelope i))"
  using assms
proof (induction xs arbitrary: q)
  case (Cons x xs)
  then obtain u where u: "sortRequest x q = Inr u" "sortRequests xs u = Inr q'" by (auto simp: bindE_Inr_iff)
  have st: "stateOf x = ''REQUESTED''" using Cons.prems(2) by simp
  have know: "knows v (fieldText x ''$id'') (revisionOf x) (stateOf x)" if "positiveRevision (revisionOf x)"
    using Cons.prems(3) [of x] positiveRevision_int [OF that] by auto
  have env: "re_requestState e = Requested \<and> knows_envelope v e" if "parseRequestEnvelope x = Inr e" for e
    using parsedEnvelope [OF that] know st by (cases "re_requestState e") auto
  have req: "knows_request v r" if "parseRequestRecord x = Inr r" for r
    using parsedRequest [OF that] know by simp
  have facts: "(\<forall>r \<in> set (qr_valid u). knows_request v r) \<and>
      (\<forall>i \<in> set (qr_invalid u). re_requestState (iv_envelope i) = Requested \<and> knows_envelope v (iv_envelope i))"
    using u(1) Cons.prems(4,5) env req by (auto simp: sortRequest_def split: sum.splits js_error.splits)
  show ?case
  proof (rule Cons.IH [OF u(2)])
    show "\<And>y. y \<in> set xs \<Longrightarrow> stateOf y = ''REQUESTED''" by (rule Cons.prems(2)) simp
    show "\<And>y k. y \<in> set xs \<Longrightarrow> revisionOf y = Finite (of_int k) \<Longrightarrow> knows v (fieldText y ''$id'') (revisionOf y) (stateOf y)"
      by (rule Cons.prems(3)) simp_all
  qed (use facts in blast)+
next
  case Nil
  then have "q' = q" by simp
  with Nil(4,5) show ?case by blast
qed

lemma listRequested_safe:
  "safe H always (listRequested (po_store P)) (\<lambda>q s. (\<forall>r \<in> set (qr_valid q). known r s) \<and>
     (\<forall>i \<in> set (qr_invalid q). re_requestState (iv_envelope i) = Requested \<and> knows_envelope (view s) (iv_envelope i)))"
proof (rule safeI)
  fix s r t
  assume run: "listRequested (po_store P) s = (r, t)"
  obtain p u where p: "storeRecords (po_store P) (requestedQuery (po_store P)) s = (p, u)" by fastforce
  with run have t: "t = u" by (auto simp: listRequested_def bindP_run split: sum.splits)
  have "(\<forall>c \<in> set (qr_valid q). known c u) \<and>
      (\<forall>i \<in> set (qr_invalid q). re_requestState (iv_envelope i) = Requested \<and> knows_envelope (view u) (iv_envelope i))"
    if "r = Inr q" for q
  proof -
    from run p that obtain xs where xs: "p = Inr xs" "sortRequests xs \<lparr> qr_valid = [], qr_invalid = [], qr_skipped = 0 \<rparr> = Inr q"
      by (auto simp: listRequested_def bindP_run split: sum.splits)
    have "\<And>x. x \<in> set xs \<Longrightarrow> stateOf x = ''REQUESTED''" using answer_requested p xs(1) by blast
    moreover have "\<And>x k. x \<in> set xs \<Longrightarrow> revisionOf x = Finite (of_int k) \<Longrightarrow>
        knows (view u) (fieldText x ''$id'') (revisionOf x) (stateOf x)" using clientRead p xs(1) by blast
    ultimately show ?thesis by (rule listed_facts [OF xs(2)]) simp_all
  qed
  with t others_history [OF query [OF p]] show "H s t \<and> (\<forall>q. r = Inr q \<longrightarrow> (\<forall>r \<in> set (qr_valid q). known r t) \<and>
     (\<forall>i \<in> set (qr_invalid q). re_requestState (iv_envelope i) = Requested \<and> knows_envelope (view t) (iv_envelope i)))"
    by blast
qed

lemma listAccepted_safe:
  "safe H always (listAccepted (po_store P)) (\<lambda>rs s. \<forall>r \<in> set rs. rq_requestState r = Accepted \<and> known r s)"
proof (rule safeI)
  fix s r t
  assume run: "listAccepted (po_store P) s = (r, t)"
  obtain p u where p: "storeRecords (po_store P) (acceptedQuery (po_store P)) s = (p, u)" by fastforce
  with run have t: "t = u" by (auto simp: listAccepted_def bindP_run split: sum.splits)
  have "rq_requestState c = Accepted \<and> known c u" if "r = Inr rs" "c \<in> set rs" for rs c
  proof -
    from run p that obtain xs where xs: "p = Inr xs" "mapE parseRequestRecord xs = Inr rs"
      by (auto simp: listAccepted_def bindP_run split: sum.splits)
    from that(2) obtain k where "k < length rs" "c = rs ! k" by (auto simp: in_set_conv_nth)
    with xs(2) have x: "xs ! k \<in> set xs" "parseRequestRecord (xs ! k) = Inr c"
      by (simp_all add: mapE_Inr list_all2_conv_all_nth)
    have "requestStateText (rq_requestState c) = ''ACCEPTED''"
      using answer_accepted p xs(1) x(1) parsedRequest(3) [OF x(2)] by auto
    then have "rq_requestState c = Accepted" by (cases "rq_requestState c") auto
    with read_request(1) x p xs(1) show ?thesis by blast
  qed
  with t others_history [OF query [OF p]] show "H s t \<and> (\<forall>rs. r = Inr rs \<longrightarrow> (\<forall>c \<in> set rs. rq_requestState c = Accepted \<and> known c t))"
    by blast
qed

lemma recoverStale_safe: "safe H always (recoverStale P) (\<lambda>_ _. True)"
  unfolding recoverStale_def
proof (rule hist.safe_bind [OF listAccepted_safe], goal_cases)
  case (1 rs)
  show ?case
  proof (cases "\<forall>r \<in> set rs. rq_requestState r = Accepted")
    case True
    have st: "stable H (\<lambda>s. \<forall>r \<in> set rs. known r s)" by (intro stable_ball known_stable)
    have "safe H (\<lambda>s. \<forall>r \<in> set rs. known r s) (foldP (recoverOne P nowMs) rs 0) (\<lambda>_ _. True)" for nowMs
      by (rule safe_loop [OF known_stable recoverOne_safe]) (use True in auto)
    from hist.safe_bind [OF hist.safe_guarantees [OF environment(5) st] this] show ?thesis by (rule safe_weaken) blast+
  next
    case False
    then show ?thesis by (auto simp: safe_def)
  qed
qed

lemma pollInvalid_safe:
  assumes "re_requestState (iv_envelope i) = Requested"
  shows "safe H (\<lambda>s. knows_envelope (view s) (iv_envelope i)) (pollInvalid P i n) (\<lambda>_ _. True)"
  unfolding pollInvalid_def pollRejectInvalid_def
  by (intro safe_if hist.safe_bind [OF pollCancel_safe] hist.safe_bind [OF reject_safe [OF assms]] hist.safe_pure) simp_all

lemma pollOne_safe: "safe H (known r) (pollOne P r counts) (\<lambda>_ _. True)"
proof -
  obtain a b c where counts: "counts = (a, b, c)" by (cases counts)
  have envelope: "(\<lambda>s. knows_envelope (view s) (envelopeOf r)) = known r" by (simp add: envelopeOf_def)
  have claimed: "safe H (known r) (bindP (claim (po_store P) r (po_host P) now) (\<lambda>claimed. case claimed of
       None \<Rightarrow> retP (a, b, c)
     | Some d \<Rightarrow> bindP (processClaimed P d) (\<lambda>(current, result). bindP (finalizeResult P current result) (\<lambda>done'.
         retP (a, b + 1, if done' then c + 1 else c))))) (\<lambda>_ _. True)" for now
  proof (rule hist.safe_bind [OF claim_safe], goal_cases)
    case (1 o')
    show ?case
    proof (cases o')
      case None
      then show ?thesis by (simp add: hist.safe_pure del: run_simps)
    next
      case (Some d)
      have "safe H (known d) (bindP (processClaimed P d) (\<lambda>(current, result). bindP (finalizeResult P current result) (\<lambda>done'.
         retP (a, b + 1, if done' then c + 1 else c)))) (\<lambda>_ _. True)"
      proof (rule hist.safe_bind [OF processClaimed_safe], goal_cases)
        case (1 p)
        show ?case
        proof (cases "endsRequest (snd p)")
          case True
          show ?thesis unfolding case_prod_beta
            by (rule safe_weaken [where K = always and Q = "\<lambda>_ _. True"], rule hist.safe_bind [OF finalizeResult_safe [OF True]])
              (simp_all add: hist.safe_pure del: run_simps)
        qed (simp add: safe_def)
      qed
      then show ?thesis unfolding Some option.case by (rule safe_weaken) blast+
    qed
  qed
  show ?thesis unfolding pollOne_def counts prod.case
  proof (rule safe_if)
    show "safe H (known r) (bindP (pollCancel P (envelopeOf r)) (\<lambda>done'. retP (if done' then a + 1 else a, b, c))) (\<lambda>_ _. True)"
      by (rule hist.safe_bind [OF pollCancel_safe [of "envelopeOf r", unfolded envelope]]) (simp add: hist.safe_pure del: run_simps)
    show "safe H (known r) (bindP (isoNow P) (\<lambda>now. bindP (claim (po_store P) r (po_host P) now) (\<lambda>claimed. case claimed of
       None \<Rightarrow> retP (a, b, c)
     | Some d \<Rightarrow> bindP (processClaimed P d) (\<lambda>(current, result). bindP (finalizeResult P current result) (\<lambda>done'.
         retP (a, b + 1, if done' then c + 1 else c)))))) (\<lambda>_ _. True)"
      by (rule hist.safe_bind [OF keep_known [OF isoNow_keeps] claimed])
  qed
qed

lemma pollRequests_safe: "guarantees H (pollRequests P)"
proof (rule hist.safe_run, unfold pollRequests_def, rule hist.safe_bind [OF listRequested_safe])
  fix q
  show "safe H (\<lambda>s. (\<forall>r \<in> set (qr_valid q). known r s) \<and>
      (\<forall>i \<in> set (qr_invalid q). re_requestState (iv_envelope i) = Requested \<and> knows_envelope (view s) (iv_envelope i)))
    (bindP (recoverStale P) (\<lambda>stale.
       bindP (whenP (qr_skipped q > 0)
         (logLine P ''REQUEST_RECORD_UNIDENTIFIABLE'' (''count='' @ stringOfInt (int (qr_skipped q))))) (\<lambda>_.
       bindP (foldP (pollInvalid P) (qr_invalid q) 0) (\<lambda>cancelled.
       bindP (foldP (pollOne P) (qr_valid q) (cancelled, 0, 0)) (\<lambda>(cancelled', claimedCount, completed).
       retP \<lparr> pu_requested = length (qr_valid q), pu_claimed = claimedCount, pu_completed = completed,
         pu_cancelled = cancelled', pu_invalid = length (qr_invalid q), pu_skippedMalformed = qr_skipped q,
         pu_stale = stale \<rparr>))))) (\<lambda>_ _. True)"
  proof (cases "\<forall>i \<in> set (qr_invalid q). re_requestState (iv_envelope i) = Requested")
    case True
    let ?V = "\<lambda>s. \<forall>r \<in> set (qr_valid q). known r s"
    let ?I = "\<lambda>s. \<forall>i \<in> set (qr_invalid q). knows_envelope (view s) (iv_envelope i)"
    have V: "stable H ?V" by (intro stable_ball known_stable)
    have I: "stable H ?I" by (intro stable_ball knowing_stable)
    note VI = stable_conj [OF V I]
    have rec: "safe H (\<lambda>s. ?V s \<and> ?I s) (recoverStale P) (\<lambda>_ s. ?V s \<and> ?I s)"
      using hist.safe_guarantees [OF hist.safe_run [OF recoverStale_safe] VI] .
    have log: "safe H (\<lambda>s. ?V s \<and> ?I s) (whenP b (logLine P code detail)) (\<lambda>_ s. ?V s \<and> ?I s)" for b code detail
      by (rule hist.safe_guarantees [OF hist.guarantees_whenP [OF logLine_keeps] VI])
    have inv: "safe H (\<lambda>s. ?V s \<and> ?I s) (foldP (pollInvalid P) (qr_invalid q) 0) (\<lambda>_. ?V)"
    proof -
      have "safe H ?I (foldP (pollInvalid P) (qr_invalid q) 0) (\<lambda>_ _. True)"
        by (rule safe_loop [OF knowing_stable pollInvalid_safe]) (use True in auto)
      from safe_frame [OF this V] show ?thesis by (rule safe_weaken) auto
    qed
    have val: "safe H ?V (foldP (pollOne P) (qr_valid q) n) (\<lambda>_ _. True)" for n
      by (rule safe_loop [OF known_stable pollOne_safe])
    have "safe H (\<lambda>s. ?V s \<and> ?I s) (bindP (recoverStale P) (\<lambda>stale.
       bindP (whenP (qr_skipped q > 0)
         (logLine P ''REQUEST_RECORD_UNIDENTIFIABLE'' (''count='' @ stringOfInt (int (qr_skipped q))))) (\<lambda>_.
       bindP (foldP (pollInvalid P) (qr_invalid q) 0) (\<lambda>cancelled.
       bindP (foldP (pollOne P) (qr_valid q) (cancelled, 0, 0)) (\<lambda>(cancelled', claimedCount, completed).
       retP \<lparr> pu_requested = length (qr_valid q), pu_claimed = claimedCount, pu_completed = completed,
         pu_cancelled = cancelled', pu_invalid = length (qr_invalid q), pu_skippedMalformed = qr_skipped q,
         pu_stale = stale \<rparr>))))) (\<lambda>_ _. True)"
      by (rule hist.safe_bind [OF rec hist.safe_bind [OF log hist.safe_bind [OF inv hist.safe_bind [OF val]]]])
        (simp add: hist.safe_pure case_prod_beta del: run_simps)
    then show ?thesis by (rule safe_weaken) blast+
  next
    case False
    then show ?thesis unfolding safe_def by blast
  qed
qed

end

end
