(* ===== verification/RequestSample.thy ===== *)
theory RequestSample
  imports PollerSafety KintoneSample "HOL-Library.Code_Target_Nat"
begin

text \<open>
  An executable request app, with other actors at work: before each request to the app the next of \<open>rw_edits\<close> is applied, an
  update by somebody else. In the lawful app (\<open>sampleStore\<close>) it is ignored unless it keeps to \<open>later\<close>; in the free app
  anybody may set any field. The children answer with the JSON values of the world and are recorded, as are the updates of the
  poller. The lawful app provides the contract \<open>request_app\<close>, both provide \<open>logged_app\<close> and \<open>logged_poller\<close>.
\<close>

section \<open>The app\<close>

type_synonym request_rows = "(string \<times> nat \<times> (string \<times> json) list) list"

type_synonym edit = "(string \<times> (string \<times> json) list) option"

record request_world =
  rw_rows :: request_rows
  rw_edits :: "edit list"
  rw_puts :: "own_write list"
  rw_ran :: "(string \<times> string list \<times> string jsmap) list"
  rw_status :: json
  rw_result :: json

definition storedRequest :: "string \<Rightarrow> nat \<times> (string \<times> json) list \<Rightarrow> kintone_record" where
  "storedRequest i r = fieldsRecord ((''$id'', JStr i) # (''$revision'', JStr (stringOfInt (int (fst r)))) # snd r)"

definition rowsView :: "request_rows \<Rightarrow> string \<Rightarrow> kintone_record option" where
  "rowsView rows i = map_option (storedRequest i) (map_of rows i)"

definition applyEdit :: "bool \<Rightarrow> edit \<Rightarrow> request_rows \<Rightarrow> request_rows" where
  "applyEdit lawful edit rows = (case edit of
     None \<Rightarrow> rows
   | Some (i, fs) \<Rightarrow> (case map_of rows i of
       None \<Rightarrow> rows
     | Some (n, gs) \<Rightarrow>
         (let st = stateOf (storedRequest i (n, gs)) in
          if lawful \<longrightarrow> later st (stateOf (storedRequest i (n + 1, fs @ gs))) then (i, n + 1, fs @ gs) # rows else rows)))"

definition editWorld :: "bool \<Rightarrow> request_world \<Rightarrow> request_world" where
  "editWorld lawful w = (case rw_edits w of
     [] \<Rightarrow> w
   | e # es \<Rightarrow> w\<lparr> rw_rows := applyEdit lawful e (rw_rows w), rw_edits := es \<rparr>)"

definition selectsRequest :: "string \<Rightarrow> string \<Rightarrow> kintone_record \<Rightarrow> bool" where
  "selectsRequest q i x \<longleftrightarrow> startsWith q (inQuery ''request_state'' (stateOf x)) \<or> q = idQuery i"

definition requestAnswers :: "string \<Rightarrow> request_rows \<Rightarrow> kintone_record list" where
  "requestAnswers q rows = concat (map (\<lambda>i. case rowsView rows i of
     Some x \<Rightarrow> if selectsRequest q i x then [x] else [] | None \<Rightarrow> []) (remdups (map fst rows)))"

definition requestPut :: "json \<Rightarrow> request_rows \<Rightarrow> http_response \<times> request_rows" where
  "requestPut body rows = (case jsonGet body ''id'' of
     Some (JStr i) \<Rightarrow> (case map_of rows i of
         Some (n, gs) \<Rightarrow>
           if jsonGet body ''revision'' = Some (JNum (of_nat n))
           then (appAnswer 200 (JObj [(''revision'', JStr (stringOfInt (int (n + 1))))]), (i, n + 1, writtenFields body @ gs) # rows)
           else (appAnswer 409 (JObj [(''code'', JStr ''GAIA_CO02'')]), rows)
       | None \<Rightarrow> (appAnswer 404 JNull, rows))
   | _ \<Rightarrow> (appAnswer 400 JNull, rows))"

definition requestLog :: "json \<Rightarrow> request_rows \<Rightarrow> own_write list" where
  "requestLog body rows = (case jsonGet body ''id'' of
     Some (JStr i) \<Rightarrow> [(i, writtenFields body, case map_of rows i of
         Some (n, gs) \<Rightarrow> if jsonGet body ''revision'' = Some (JNum (of_nat n)) then Some (stateOf (storedRequest i (n, gs))) else None
       | None \<Rightarrow> None)]
   | _ \<Rightarrow> [])"

definition requestFetch :: "bool \<Rightarrow> request_world fetch" where
  "requestFetch lawful req s = (let w = editWorld lawful s; body = (case hr_body req of None \<Rightarrow> JNull | Some b \<Rightarrow> b) in
     case hr_method req of
       GET \<Rightarrow> (Inr (appAnswer 200 (JObj [(''records'', JArr (case mapGet (hr_params req) ''query'' of
           None \<Rightarrow> [] | Some q \<Rightarrow> requestAnswers q (rw_rows w)))])), w)
     | PUT \<Rightarrow> (case requestPut body (rw_rows w) of (r, rows) \<Rightarrow>
         (Inr r, w\<lparr>rw_rows := rows, rw_puts := rw_puts w @ requestLog body (rw_rows w)\<rparr>))
     | POST \<Rightarrow> (Inr (appAnswer 400 JNull), w))"

definition appStore :: "bool \<Rightarrow> request_world request_store" where
  "appStore lawful = \<lparr> rs_client = \<lparr> kt_fetch = requestFetch lawful, kt_app = 9 \<rparr>, rs_fetchLimit = 100 \<rparr>"

definition sampleStore :: "request_world request_store" where "sampleStore = appStore True"

definition worldView :: "request_world kintone_view" where
  "worldView w = rowsView (rw_rows w)"

section \<open>The poller\<close>

definition childAnswer :: "string list \<Rightarrow> request_world \<Rightarrow> child_result" where
  "childAnswer args w = silentChild\<lparr> cx_exitCode := Some 0,
     cx_stdout := stringify (if list_ex (\<lambda>a. a = ''status'') args then rw_status w else rw_result w) \<rparr>"

definition sampleChildren :: "request_world child_client" where
  "sampleChildren = \<lparr> ch_profile = ''prod'', ch_environment = [], ch_execPath = ''node'', ch_cliPath = ''cli'',
     ch_execute = (\<lambda>command args env w. (Inr (childAnswer args w), w\<lparr>rw_ran := rw_ran w @ [(command, args, env)]\<rparr>)),
     ch_makeTempDirectory = retP ''/tmp/x'', ch_removeTempDirectory = (\<lambda>_. retP ()), ch_writeFile = (\<lambda>_ _. retP ()),
     ch_join = (\<lambda>d f. d @ ''/'' @ f) \<rparr>"

definition quietStart :: "request_world start_env" where
  "quietStart = \<lparr> se_files = \<lparr> nf_readFile = retP, nf_yaml = (\<lambda>_. \<lparr> yd_errors = [''none''], yd_value = Inr JNull \<rparr>), nf_schema = (\<lambda>_. []),
       nf_zoneKnown = (\<lambda>_. True), nf_sqlPath = (\<lambda>_ sql. sql), nf_readable = (\<lambda>_. retP True) \<rparr>,
     se_parseDate = (\<lambda>_. Some 0), se_calendar = (\<lambda>_ _. None), se_isoText = (\<lambda>_. ''2026-09-01T00:00:00.000Z'') \<rparr>"

definition appPoller :: "bool \<Rightarrow> request_world poller" where
  "appPoller lawful = \<lparr> po_store = appStore lawful, po_child = sampleChildren, po_start = quietStart,
     po_networks = [\<lparr> pn_networkId = ''sales'', pn_definitionPath = ''/etc/sales.yaml'', pn_appStart = True \<rparr>],
     po_staleAfterMs = 900000, po_stalePrecisionAllowanceMs = 60000, po_host = ''host-1'', po_now = retP 0, po_log = (\<lambda>_ _ w. w),
     po_ticks = (\<lambda>_. 1) \<rparr>"

definition samplePoller :: "request_world poller" where "samplePoller = appPoller True"

section \<open>They keep the contracts\<close>

lemma storedRequest_simps [simp]:
  "fieldText (storedRequest i r) ''$id'' = i" "revisionOf (storedRequest i r) = Finite (of_int (int (fst r)))"
  "stateOf (storedRequest i r) = fieldText (fieldsRecord (snd r)) ''request_state''"
  by (simp_all add: storedRequest_def fieldText_def textOfJson_def revisionOf_def fieldNumber_def numberOf_def numberOfText_int
      stateOf_def)

lemma storedRequest_state:
  "stateOf (storedRequest i (n, fs @ gs)) = writtenState fs (stateOf (storedRequest i (m, gs)))"
  by (simp add: writtenState_def fieldText_def sentText_def map_add_def split: option.splits json.splits)

lemma stored_revised: "revised (storedRequest i (n, fs)) (storedRequest i (n + 1, gs))"
  unfolding revised_def by (intro exI [of _ "int n"] exI [of _ "int (n + 1)"]) simp

lemma rowsView_Cons: "rowsView ((i, r) # rows) = (rowsView rows)(i \<mapsto> storedRequest i r)"
  by (auto simp: rowsView_def)

lemma applyEdit_cases:
  obtains "applyEdit lawful edit rows = rows"
  | i n fs gs where "map_of rows i = Some (n, gs)" "applyEdit lawful edit rows = (i, n + 1, fs @ gs) # rows"
      "lawful \<Longrightarrow> later (stateOf (storedRequest i (n, gs))) (stateOf (storedRequest i (n + 1, fs @ gs)))"
proof (cases "applyEdit lawful edit rows = rows")
  case False
  then obtain i fs n gs where e: "edit = Some (i, fs)" "map_of rows i = Some (n, gs)"
    by (auto simp: applyEdit_def split: option.splits)
  with False that(2) [of i n gs fs] show thesis
    by (simp add: applyEdit_def Let_def split: if_splits)
qed (rule that(1))

lemma rows_upd: "map_of rows i = Some (n, gs) \<Longrightarrow>
    rowsView ((i, n + 1, fs @ gs) # rows) = (rowsView rows)(i \<mapsto> storedRequest i (n + 1, fs @ gs)) \<and>
    rowsView rows i = Some (storedRequest i (n, gs))"
  unfolding rowsView_Cons by (simp add: rowsView_def)

lemma applyEdit_records: "records_evolve (rowsView rows) (rowsView (applyEdit lawful edit rows))"
proof (cases rule: applyEdit_cases [of lawful edit rows])
  case (2 i n fs gs)
  from rows_upd [OF 2(1), of fs] records_evolve_upd [of "rowsView rows" i, OF _ stored_revised] show ?thesis
    unfolding 2(2) by metis
qed simp

lemma applyEdit_evolves: "requests_evolve (rowsView rows) (rowsView (applyEdit True edit rows))"
proof (cases rule: applyEdit_cases [of True edit rows])
  case (2 i n fs gs)
  have "requests_move (storedRequest i (n, gs)) (storedRequest i (n + 1, fs @ gs))"
    using 2(3) stored_revised unfolding requests_move_def by blast
  from requests_evolve_upd [OF _ this, of "rowsView rows" i] rows_upd [OF 2(1), of fs] show ?thesis
    unfolding 2(2) by simp
qed simp

lemma editWorld_records: "records_evolve (worldView s) (worldView (editWorld lawful s))"
  using applyEdit_records by (auto simp: worldView_def editWorld_def split: list.splits)

lemma editWorld_evolves: "requests_evolve (worldView s) (worldView (editWorld True s))"
  using applyEdit_evolves by (auto simp: worldView_def editWorld_def split: list.splits)

lemma editWorld_same [simp]: "rw_puts (editWorld lawful s) = rw_puts s" "rw_ran (editWorld lawful s) = rw_ran s"
  by (simp_all add: editWorld_def split: list.splits)

lemma app_records: "storeRecords (appStore lawful) q s =
    (Inr (requestAnswers q (rw_rows (editWorld lawful s))), editWorld lawful s)"
  by (simp add: storeRecords_def clientRecords_def appStore_def getRecords_def request_def bindP_run requestFetch_def Let_def
      appAnswer_def property_def jsonGet_def recordArray_def)

lemmas sample_records = app_records [of True, folded sampleStore_def]

lemma requestAnswers_iff: "x \<in> set (requestAnswers q rows) \<longleftrightarrow> (\<exists>i. rowsView rows i = Some x \<and> selectsRequest q i x)"
proof -
  have "i \<in> fst ` set rows" if "rowsView rows i = Some x" for i
    using that by (auto simp: rowsView_def) (metis domI dom_map_of_conv_image_fst)
  moreover have "x \<in> set (requestAnswers q rows) \<longleftrightarrow> (\<exists>i \<in> fst ` set rows. rowsView rows i = Some x \<and> selectsRequest q i x)"
    unfolding requestAnswers_def set_concat set_map set_remdups UN_iff image_image bex_simps
    by (auto split: option.splits if_splits) force+
  ultimately show ?thesis by blast
qed

lemma rowsView_id: "rowsView rows i = Some x \<Longrightarrow> fieldText x ''$id'' = i"
  by (auto simp: rowsView_def)

lemma startsWith_split: "startsWith s p \<Longrightarrow> \<exists>r. s = p @ r"
  by (induction s p rule: startsWith.induct) auto

lemma selects_state:
  assumes "selectsRequest (inQuery ''request_state'' st @ r) i x"
  shows "stateOf x = st"
proof -
  have "inQuery ''request_state'' st @ r \<noteq> idQuery i" by (simp add: inQuery_def idQuery_def)
  with assms have "startsWith (inQuery ''request_state'' st @ r) (inQuery ''request_state'' (stateOf x))"
    by (simp add: selectsRequest_def)
  then obtain r' where "inQuery ''request_state'' st @ r = inQuery ''request_state'' (stateOf x) @ r'"
    using startsWith_split by blast
  then show ?thesis by (simp add: inQuery_inject)
qed

lemma selects_id: "selectsRequest (idQuery j) i x \<Longrightarrow> i = j"
proof -
  have "\<not> startsWith (idQuery j) (inQuery ''request_state'' st)" for st
    using startsWith_split [of "idQuery j" "inQuery ''request_state'' st"] by (auto simp: inQuery_def idQuery_def)
  then show "selectsRequest (idQuery j) i x \<Longrightarrow> i = j" by (auto simp: selectsRequest_def idQuery_def)
qed

text \<open>An update that is refused, and one that takes effect.\<close>

definition refusedPut :: "string \<Rightarrow> (string \<times> json) list \<Rightarrow> request_world \<Rightarrow> request_world" where
  "refusedPut i fs w = w\<lparr>rw_puts := rw_puts w @ [(i, fs, None)]\<rparr>"

definition takenPut :: "string \<Rightarrow> (string \<times> json) list \<Rightarrow> nat \<Rightarrow> (string \<times> json) list \<Rightarrow> request_world \<Rightarrow> request_world" where
  "takenPut i fs m gs w = w\<lparr>rw_rows := (i, m + 1, fs @ gs) # rw_rows w,
     rw_puts := rw_puts w @ [(i, fs, Some (stateOf (storedRequest i (m, gs))))]\<rparr>"

lemma app_update_run:
  "storePut (appStore lawful) i n fs s = (let w = editWorld lawful s in case map_of (rw_rows w) i of
     Some (m, gs) \<Rightarrow>
       if n = Finite (of_nat m) then (Inr (Finite (of_int (int (m + 1)))), takenPut i fs m gs w)
       else (Inl (KintoneApiError 409 (Some ''GAIA_CO02'')), refusedPut i fs w)
   | None \<Rightarrow> (Inl (KintoneApiError 404 None), refusedPut i fs w))"
proof -
  have num: "jsonNumber n = JNum r \<longleftrightarrow> n = Finite r" for r by (cases n) simp_all
  have keep: "w\<lparr>rw_rows := rw_rows w, rw_puts := x\<rparr> = w\<lparr>rw_puts := x\<rparr>" for w :: request_world and x by (cases w) simp
  have written: "writtenFields (JObj [(''app'', a), (''id'', b), (''revision'', c), (''record'', fieldsRecord fs)]) = fs" for a b c
    by (rule writtenFields_fieldsRecord) (simp add: jsonGet_def)
  have next_revision: "numberOfText (stringOfInt (1 + int a)) = Finite (1 + of_nat a)" for a by (simp add: numberOfText_int)
  show ?thesis
    by (simp add: storePut_def appStore_def putRecordById_def request_def bindP_run requestFetch_def Let_def requestPut_def
        appAnswer_def written num keep jsonGet_def property_def numberOf_def next_revision requestLog_def takenPut_def refusedPut_def
        split: option.splits)
qed

text \<open>Both kinds of updates, as the contracts speak of them.\<close>

lemma app_update_cases:
  assumes "storePut (appStore lawful) i n fs s = (u, t)"
  obtains e where "u = Inl e" "worldView t = worldView (editWorld lawful s)" "rw_puts t = rw_puts s @ [(i, fs, None)]"
  | m gs where "worldView (editWorld lawful s) i = Some (storedRequest i (m, gs))" "revisionOf (storedRequest i (m, gs)) = n"
      "u = Inr (revisionOf (storedRequest i (m + 1, fs @ gs)))"
      "worldView t = (worldView (editWorld lawful s))(i \<mapsto> storedRequest i (m + 1, fs @ gs))"
      "rw_puts t = rw_puts s @ [(i, fs, Some (stateOf (storedRequest i (m, gs))))]"
proof (cases "\<exists>m gs. map_of (rw_rows (editWorld lawful s)) i = Some (m, gs) \<and> n = Finite (of_nat m)")
  case True
  then obtain m gs where m: "map_of (rw_rows (editWorld lawful s)) i = Some (m, gs)" "n = Finite (of_nat m)" by blast
  then have "u = Inr (revisionOf (storedRequest i (m + 1, fs @ gs)))" "t = takenPut i fs m gs (editWorld lawful s)"
    using assms by (simp_all add: app_update_run Let_def)
  with rows_upd [OF m(1), of fs] m(2) show thesis
    by (intro that(2) [of m gs]) (simp_all add: takenPut_def worldView_def)
next
  case False
  then obtain e where "u = Inl e" "t = refusedPut i fs (editWorld lawful s)"
    using assms by (auto simp: app_update_run Let_def split: option.splits if_splits)
  then show thesis by (intro that(1) [of e]) (simp_all add: refusedPut_def worldView_def)
qed

lemma app_answer:
  assumes "storeRecords (appStore lawful) q s = (Inr xs, t)" "x \<in> set xs"
  shows "t = editWorld lawful s" "\<exists>i. worldView t i = Some x \<and> fieldText x ''$id'' = i \<and> selectsRequest q i x"
proof -
  from assms(1) have *: "xs = requestAnswers q (rw_rows (editWorld lawful s))" "t = editWorld lawful s"
    unfolding app_records prod.inject sum.inject by blast+
  then show "t = editWorld lawful s" by blast
  from assms(2) * show "\<exists>i. worldView t i = Some x \<and> fieldText x ''$id'' = i \<and> selectsRequest q i x"
    using requestAnswers_iff [of x q "rw_rows (editWorld lawful s)"] rowsView_id unfolding worldView_def by blast
qed

lemma app_answers:
  "storeRecords (appStore lawful) (idQuery i) s = (Inr xs, t) \<Longrightarrow> x \<in> set xs \<Longrightarrow> fieldText x ''$id'' = i"
  "storeRecords (appStore lawful) (requestedQuery (appStore lawful)) s = (Inr xs, t) \<Longrightarrow> x \<in> set xs \<Longrightarrow> stateOf x = ''REQUESTED''"
  "storeRecords (appStore lawful) (acceptedQuery (appStore lawful)) s = (Inr xs, t) \<Longrightarrow> x \<in> set xs \<Longrightarrow> stateOf x = ''ACCEPTED''"
  using app_answer(2) [of lawful _ s xs t x] selects_id selects_state unfolding requestedQuery_def acceptedQuery_def by blast+

lemma sample_request_app: "request_app sampleStore worldView"
  unfolding sampleStore_def
proof
  fix q s r t
  assume "storeRecords (appStore True) q s = (r, t)"
  then have "t = editWorld True s" by (simp add: app_records)
  then show "requests_evolve (worldView s) (worldView t)" using editWorld_evolves by blast
next
  fix q s xs t x
  assume run: "storeRecords (appStore True) q s = (Inr xs, t)" "x \<in> set xs"
  from app_answer [OF run] have "worldView t (fieldText x ''$id'') = Some x" "requests_evolve (worldView s) (worldView t)"
    using editWorld_evolves by auto
  then show "\<exists>v. requests_evolve (worldView s) v \<and> v (fieldText x ''$id'') = Some x \<and> requests_evolve v (worldView t)"
    using requests_evolve_refl by blast
next
  fix i n fs s u t
  assume run: "storePut (appStore True) i n fs s = (u, t)"
  note edit = editWorld_evolves [of s]
  show "(requests_evolve (worldView s) (worldView t) \<and> (\<exists>e. u = Inl e)) \<or>
      (\<exists>v x y. requests_evolve (worldView s) v \<and> v i = Some x \<and> revisionOf x = n \<and> revised x y \<and>
         stateOf y = writtenState fs (stateOf x) \<and> requests_evolve (v(i \<mapsto> y)) (worldView t) \<and>
         ((\<exists>e. u = Inl e) \<or> u = Inr (revisionOf y)))"
  proof (cases rule: app_update_cases [OF run])
    case (1 e)
    with edit show ?thesis by simp
  next
    case (2 m gs)
    let ?v = "worldView (editWorld True s)" and ?x = "storedRequest i (m, gs)" and ?y = "storedRequest i (m + 1, fs @ gs)"
    from edit 2 storedRequest_state [of i "m + 1" fs gs m] stored_revised [of i m gs "fs @ gs"]
    have "requests_evolve (worldView s) ?v \<and> ?v i = Some ?x \<and> revisionOf ?x = n \<and> revised ?x ?y \<and>
         stateOf ?y = writtenState fs (stateOf ?x) \<and> requests_evolve (?v(i \<mapsto> ?y)) (worldView t) \<and> u = Inr (revisionOf ?y)"
      by (simp only: requests_evolve_refl simp_thms)
    then show ?thesis by blast
  qed
qed (rule app_answers; assumption)+

interpretation requestApp: request_app sampleStore worldView
  by (rule sample_request_app)

lemma app_logged: "logged_app (appStore lawful) worldView rw_puts"
proof
  fix q s r t
  assume "storeRecords (appStore lawful) q s = (r, t)"
  then have "t = editWorld lawful s" by (simp add: app_records)
  then show "others worldView rw_puts s t" using editWorld_records by (simp add: others_def)
next
  fix q s xs t x
  assume run: "storeRecords (appStore lawful) q s = (Inr xs, t)" "x \<in> set xs"
  from app_answer [OF run] have "worldView t (fieldText x ''$id'') = Some x" by auto
  then show "\<exists>v. v (fieldText x ''$id'') = Some x \<and> records_evolve v (worldView t)" using records_evolve_refl by blast
next
  fix i n fs s u t
  assume run: "storePut (appStore lawful) i n fs s = (u, t)"
  note edit = editWorld_records [of s lawful]
  show "(records_evolve (worldView s) (worldView t) \<and> rw_puts t = rw_puts s @ [(i, fs, None)] \<and> (\<exists>e. u = Inl e)) \<or>
      (\<exists>v x y. records_evolve (worldView s) v \<and> v i = Some x \<and> revisionOf x = n \<and> revised x y \<and>
         stateOf y = writtenState fs (stateOf x) \<and> records_evolve (v(i \<mapsto> y)) (worldView t) \<and>
         rw_puts t = rw_puts s @ [(i, fs, Some (stateOf x))] \<and>
         ((\<exists>e. u = Inl e \<and> \<not> requestConflict e) \<or> u = Inr (revisionOf y)))"
  proof (cases rule: app_update_cases [OF run])
    case (1 e)
    with edit show ?thesis by simp
  next
    case (2 m gs)
    let ?v = "worldView (editWorld lawful s)" and ?x = "storedRequest i (m, gs)" and ?y = "storedRequest i (m + 1, fs @ gs)"
    from edit 2 storedRequest_state [of i "m + 1" fs gs m] stored_revised [of i m gs "fs @ gs"]
    have "records_evolve (worldView s) ?v \<and> ?v i = Some ?x \<and> revisionOf ?x = n \<and> revised ?x ?y \<and>
         stateOf ?y = writtenState fs (stateOf ?x) \<and> records_evolve (?v(i \<mapsto> ?y)) (worldView t) \<and>
         rw_puts t = rw_puts s @ [(i, fs, Some (stateOf ?x))] \<and> u = Inr (revisionOf ?y)"
      by (simp only: records_evolve_refl simp_thms)
    then show ?thesis by blast
  qed
qed (rule app_answers; assumption)+

lemma app_poller: "logged_poller (appPoller lawful) worldView rw_puts"
proof -
  have "logged_app (po_store (appPoller lawful)) worldView rw_puts" by (simp add: appPoller_def app_logged)
  moreover have "logged_poller_axioms (appPoller lawful) worldView rw_puts"
    by unfold_locales
      (simp_all add: appPoller_def sampleChildren_def quietStart_def guarantees_def others_def worldView_def)
  ultimately show ?thesis by (rule logged_poller.intro)
qed

interpretation freePoller: logged_poller "appPoller False" worldView rw_puts
  by (rule app_poller)

end
