(* ===== verification/PollerCommands.thy ===== *)
theory PollerCommands
  imports RequestSample
begin

text \<open>
  Which child processes the poller starts. A poller whose children are recorded in the state (\<open>recorded_poller\<close>) starts nothing but
  status queries of listed networks and, for a request it has claimed itself, the one command of that request.
\<close>

section \<open>Calls\<close>

type_synonym child_call = "string \<times> string list \<times> string jsmap"

definition childCall :: "'s child_client \<Rightarrow> string list \<Rightarrow> string option \<Rightarrow> child_call" where
  "childCall C args correlation = (ch_execPath C, ch_cliPath C # args,
     case correlation of None \<Rightarrow> ch_environment C | Some c \<Rightarrow> mapSet ''KSQL_FLOWNET_REQUESTED_BY'' c (ch_environment C))"

definition statusCall :: "'s poller \<Rightarrow> string \<times> string \<Rightarrow> poll_network \<Rightarrow> child_call" where
  "statusCall P selector network = childCall (po_child P) (statusArgs (po_child P) network selector) None"

text \<open>The arguments of the command of a request: what it names, and a network it may use.\<close>

definition changeArgs :: "poll_network list \<Rightarrow> request_record \<Rightarrow> string list \<Rightarrow> bool" where
  "changeArgs networks r args \<longleftrightarrow> (case rq_requestType r of
     Start \<Rightarrow> blank (rq_runId r) \<and> (\<exists>n \<in> set networks. pn_appStart n \<and> rq_networkId r = Some (pn_networkId n) \<and>
       (\<exists>options. args = [''run-network'', pn_definitionPath n] @ options @ [''--json''] \<and> ''--resume-run'' \<notin> set (take 1 options)))
   | Rerun \<Rightarrow> (\<exists>n \<in> set networks. args = [''run-network'', pn_definitionPath n, ''--resume-run'', rq_runId r] @
       (case rq_rerunFromNode r of None \<Rightarrow> [] | Some i \<Rightarrow> [''--rerun-from'', i]) @ [''--json''])
   | Close \<Rightarrow> (\<exists>n \<in> set networks. \<exists>path. args = [''archive-run'', pn_definitionPath n, ''--run-id'', rq_runId r, ''--reason-file'', path])
   | Stop \<Rightarrow> (\<exists>path. args = [''cancel-run'', ''--run-id'', rq_runId r, ''--reason-file'', path])
   | Release \<Rightarrow> (\<exists>path. args = [''cancel-run'', ''--run-id'', rq_runId r, ''--release'', ''--reason-file'', path]))"

definition changeCall :: "'s poller \<Rightarrow> request_record \<Rightarrow> child_call \<Rightarrow> bool" where
  "changeCall P r c \<longleftrightarrow> (\<exists>args correlation. requestedBy (rq_id r) (rq_creatorCode r) = Inr correlation \<and>
     c = childCall (po_child P) args (Some correlation) \<and> changeArgs (po_networks P) r args)"

text \<open>The calls of one claimed request: the queries of the networks in their order, then at most one command.\<close>

definition claimCalls :: "'s poller \<Rightarrow> request_record \<Rightarrow> child_call list \<Rightarrow> bool" where
  "claimCalls P r cs \<longleftrightarrow> (let queries = (if rq_requestType r = Start then []
       else map (statusCall P (''--run-id'', rq_runId r)) (po_networks P)) in
     (\<exists>k. cs = take k queries) \<or> (\<exists>c. changeCall P r c \<and> cs = queries @ [c]))"

definition claimedHere :: "'s poller \<Rightarrow> request_record \<Rightarrow> bool" where
  "claimedHere P r \<longleftrightarrow> rq_requestState r = Accepted \<and> rq_claimedHost r = Some (po_host P) \<and>
     (\<exists>n. validateRequestRecord (r\<lparr>rq_revision := n\<rparr>) = [])"

definition allowedCall :: "'s poller \<Rightarrow> child_call \<Rightarrow> bool" where
  "allowedCall P c \<longleftrightarrow> (\<exists>selector. c \<in> statusCall P selector ` set (po_networks P)) \<or> (\<exists>r. claimedHere P r \<and> changeCall P r c)"

section \<open>What a program calls\<close>

definition does :: "('s \<Rightarrow> 'c list) \<Rightarrow> ('s, 'a) prog \<Rightarrow> ('c list \<Rightarrow> js_error + 'a \<Rightarrow> bool) \<Rightarrow> bool" where
  "does calls m L \<longleftrightarrow> (\<forall>s r t. m s = (r, t) \<longrightarrow> (\<exists>cs. calls t = calls s @ cs \<and> L cs r))"

abbreviation silent :: "('s \<Rightarrow> 'c list) \<Rightarrow> ('s, 'a) prog \<Rightarrow> bool" where
  "silent calls \<equiv> guarantees (\<lambda>s t. calls t = calls s)"

lemma silent_order: "state_order (\<lambda>s t. calls t = calls s)"
  by unfold_locales simp_all

lemma doesI: "(\<And>s r t. m s = (r, t) \<Longrightarrow> \<exists>cs. calls t = calls s @ cs \<and> L cs r) \<Longrightarrow> does calls m L"
  by (simp add: does_def)

lemma doesD: "does calls m L \<Longrightarrow> m s = (r, t) \<Longrightarrow> \<exists>cs. calls t = calls s @ cs \<and> L cs r"
  by (simp add: does_def)

lemma does_weaken: "does calls m L \<Longrightarrow> (\<And>cs r. L cs r \<Longrightarrow> M cs r) \<Longrightarrow> does calls m M"
  unfolding does_def by blast

lemma does_silent: "silent calls m \<Longrightarrow> (\<And>r. L [] r) \<Longrightarrow> does calls m L"
  by (rule doesI) (auto dest: guaranteesD)

lemma does_pure:
  "L [] (Inr x) \<Longrightarrow> does calls (retP x) L" "L [] (Inl e) \<Longrightarrow> does calls (throwP e) L" "L [] v \<Longrightarrow> does calls (liftP v) L"
  by (simp_all add: does_def)

lemma does_bind:
  assumes "does calls m L" "\<And>x as. L as (Inr x) \<Longrightarrow> does calls (k x) (M x)" "\<And>cs e. L cs (Inl e) \<Longrightarrow> N cs (Inl e)"
    "\<And>as bs x r. L as (Inr x) \<Longrightarrow> M x bs r \<Longrightarrow> N (as @ bs) r"
  shows "does calls (bindP m k) N"
proof (rule doesI)
  fix s r t
  assume "bindP m k s = (r, t)"
  then show "\<exists>cs. calls t = calls s @ cs \<and> N cs r"
  proof (cases rule: bindP_cases)
    case (1 e)
    with doesD [OF assms(1) 1(1)] assms(3) show ?thesis by blast
  next
    case (2 x u)
    from doesD [OF assms(1) 2(1)] obtain as where as: "calls u = calls s @ as" "L as (Inr x)" by blast
    from doesD [OF assms(2) [OF as(2)] 2(2)] obtain bs where "calls t = calls u @ bs" "M x bs r" by blast
    note as this
    with assms(4) [OF as(2)] show ?thesis by (intro exI [of _ "as @ bs"]) simp
  qed
qed

lemma does_bind_silent: "silent calls m \<Longrightarrow> (\<And>x. does calls (k x) L) \<Longrightarrow> (\<And>e. L [] (Inl e)) \<Longrightarrow> does calls (bindP m k) L"
  by (rule does_bind [OF does_silent [where L = "\<lambda>cs _. cs = []"]]) auto

lemma does_bind_lift: "(\<And>x. v = Inr x \<Longrightarrow> does calls (k x) L) \<Longrightarrow> (\<And>e. v = Inl e \<Longrightarrow> L [] (Inl e)) \<Longrightarrow> does calls (bindP (liftP v) k) L"
  by (cases v) (simp_all add: does_def bindP_run)

lemma does_then_silent: "does calls m (\<lambda>cs _. L cs) \<Longrightarrow> (\<And>x. silent calls (k x)) \<Longrightarrow> does calls (bindP m k) (\<lambda>cs _. L cs)"
  by (rule does_bind [OF _ does_silent [where L = "\<lambda>cs _. cs = []"]]) auto

lemma does_attempted: "does calls m L \<Longrightarrow> does calls (attemptP m) (\<lambda>cs r. \<exists>f. r = Inr f \<and> L cs f)"
proof (rule doesI)
  fix s r t
  assume "does calls m L" "attemptP m s = (r, t)"
  then show "\<exists>cs. calls t = calls s @ cs \<and> (\<exists>f. r = Inr f \<and> L cs f)"
    using doesD [of calls m L s "fst (m s)" "snd (m s)"] by auto
qed

lemma does_attempt: "does calls m (\<lambda>cs _. L cs) \<Longrightarrow> does calls (attemptP m) (\<lambda>cs _. L cs)"
  by (rule doesI) (auto dest: doesD intro: prod.collapse [symmetric])

lemma does_foldP:
  assumes "\<And>x a. x \<in> set xs \<Longrightarrow> does calls (f x a) (\<lambda>cs r. cs = [g x] \<and> (\<forall>b. r = Inr b \<longrightarrow> I a \<longrightarrow> I b))"
  shows "does calls (foldP f xs a) (\<lambda>cs r. (\<exists>k. cs = take k (map g xs)) \<and> (\<forall>b. r = Inr b \<longrightarrow> cs = map g xs \<and> (I a \<longrightarrow> I b)))"
  using assms
proof (induction xs arbitrary: a)
  case Nil
  show ?case by (simp add: does_def)
next
  case (Cons x xs)
  have first: "does calls (f x a) (\<lambda>cs r. cs = [g x] \<and> (\<forall>b. r = Inr b \<longrightarrow> I a \<longrightarrow> I b))" for a
    by (rule Cons.prems) simp
  have rest: "does calls (foldP f xs b) (\<lambda>cs r. (\<exists>k. cs = take k (map g xs)) \<and> (\<forall>c. r = Inr c \<longrightarrow> cs = map g xs \<and> (I b \<longrightarrow> I c)))" for b
    by (rule Cons.IH) (rule Cons.prems, simp)
  have more: "\<exists>k. g x # take n (map g xs) = take k (map g (x # xs))" for n by (intro exI [of _ "Suc n"]) simp
  show ?case unfolding foldP.simps
    by (rule does_bind [OF first rest]) (use more [of 0] more in \<open>auto simp: take_map\<close>)
qed

section \<open>A poller whose children are recorded\<close>

locale recorded_poller =
  fixes P :: "'s poller" and calls :: "'s \<Rightarrow> child_call list"
  assumes execute: "does calls (ch_execute (po_child P) command args env) (\<lambda>cs _. cs = [(command, args, env)])"
    and store: "silent calls (storeRecords (po_store P) q)" "silent calls (storePut (po_store P) i n fs)"
    and temporary: "silent calls (ch_makeTempDirectory (po_child P))" "silent calls (ch_removeTempDirectory (po_child P) directory)"
      "silent calls (ch_writeFile (po_child P) path reason)"
    and clock: "silent calls (po_now P)"
    and logs: "calls (po_log P code detail s) = calls s"
    and files: "silent calls (nf_readFile (se_files (po_start P)) path)"

sublocale recorded_poller \<subseteq> quiet: state_order "\<lambda>s t. calls t = calls s"
  by (rule silent_order)

context recorded_poller
begin

abbreviation "quietly \<equiv> silent calls"

lemma logLine_quiet: "quietly (logLine P code detail)"
  by (simp add: guarantees_def logLine_def logs)

lemma isoNow_quiet: "quietly (isoNow P)"
  unfolding isoNow_def by (intro quiet.guarantees_bindP clock quiet.guarantees_pure)

lemma getById_quiet: "quietly (getRequestById (po_store P) i)"
  unfolding getRequestById_def
  by (intro quiet.guarantees_bindP store quiet.guarantees_case_list quiet.guarantees_pure)

lemma put_quiet: "quietly (putUnlessConflict (po_store P) i n fs)"
  unfolding putUnlessConflict_def
  by (intro quiet.guarantees_catchP quiet.guarantees_bindP store quiet.guarantees_if quiet.guarantees_pure)

lemma moves_quiet:
  "quietly (listRequested (po_store P))" "quietly (listAccepted (po_store P))"
  "quietly (cancelBeforeClaim (po_store P) e result)" "quietly (rejectInvalid (po_store P) v result)"
  "quietly (claim (po_store P) r host now)" "quietly (requestHeartbeat (po_store P) r now)" "quietly (writeResult (po_store P) r result)"
  unfolding listRequested_def listAccepted_def cancelBeforeClaim_def rejectInvalid_def claim_def requestHeartbeat_def writeResult_def
    writeAgain_def Let_def
  by (intro quiet.guarantees_if quiet.guarantees_pure quiet.guarantees_bindP store put_quiet quiet.guarantees_case_option getById_quiet)+

lemma prepare_quiet: "quietly (prepareStartRequest (po_start P) network r)"
  unfolding prepareStartRequest_def loadNetworkDefinition_def
  by (intro quiet.guarantees_bindP quiet.guarantees_attemptP files quiet.guarantees_pure)

lemma heartbeats_quiet: "quietly (heartbeats P n r)"
  by (induction n arbitrary: r)
    (auto intro!: quiet.guarantees_pure(1) quiet.guarantees_bindP quiet.guarantees_catchP isoNow_quiet moves_quiet logLine_quiet
      simp del: run_simps)

subsection \<open>Children\<close>

abbreviation "C \<equiv> po_child P"

lemma runChild_does: "does calls (runChild C args c) (\<lambda>cs _. cs = [childCall C args c])"
  unfolding runChild_def childCall_def Let_def by (rule execute)

lemma childStatus_does: "does calls (childStatus C network selector) (\<lambda>cs _. cs = [statusCall P selector network])"
  unfolding childStatus_def statusCall_def
  by (rule does_then_silent [OF runChild_does])
    (intro quiet.guarantees_if quiet.guarantees_pure quiet.guarantees_case_option)

text \<open>One command of the request, or none.\<close>

definition "commands r cs \<longleftrightarrow> cs = [] \<or> (\<exists>c. changeCall P r c \<and> cs = [c])"

lemma commands_Nil [simp]: "commands r []"
  by (simp add: commands_def)

lemma commands_one: "changeCall P r c \<Longrightarrow> commands r [c]"
  unfolding commands_def by blast

lemma correlated:
  assumes "changeArgs (po_networks P) r args" "\<And>x. quietly (k x)"
  shows "does calls (bindP (liftP (requestedBy (rq_id r) (rq_creatorCode r))) (\<lambda>correlation.
    bindP (runChild C args (Some correlation)) k)) (\<lambda>cs _. commands r cs)"
proof (rule does_bind_lift)
  fix correlation
  assume "requestedBy (rq_id r) (rq_creatorCode r) = Inr correlation"
  with assms(1) have "commands r [childCall C args (Some correlation)]" by (intro commands_one) (auto simp: changeCall_def)
  then show "does calls (bindP (runChild C args (Some correlation)) k) (\<lambda>cs _. commands r cs)"
    by (intro does_weaken [OF does_then_silent [OF runChild_does assms(2)]]) blast
qed simp

lemma reasonFile_does:
  assumes "\<And>path. does calls (body path) (\<lambda>cs _. commands r cs)"
  shows "does calls (withReasonFile C reason body) (\<lambda>cs _. commands r cs)"
  unfolding withReasonFile_def finallyP_def Let_def
  by (intro does_bind_silent temporary does_then_silent does_attempt assms quiet.guarantees_bindP quiet.guarantees_pure) simp_all

lemma rerun_does:
  assumes "n \<in> set (po_networks P)" "rq_requestType r = Rerun"
  shows "does calls (childRunNetwork C n r) (\<lambda>cs _. commands r cs)"
  unfolding childRunNetwork_def Let_def
  by (rule correlated) (use assms in \<open>auto simp: changeArgs_def intro: quiet.guarantees_pure simp del: run_simps\<close>)

lemma start_does:
  assumes "n \<in> set (po_networks P)" "rq_requestType r = Start" "pn_appStart n" "rq_networkId r = Some (pn_networkId n)" "blank (rq_runId r)"
  shows "does calls (childStartNetwork C n r i) (\<lambda>cs _. commands r cs)"
proof -
  let ?options = "(case si_businessKey i of None \<Rightarrow> [] | Some k \<Rightarrow> [''--business-key'', k]) @
    (case si_scheduledFor i of None \<Rightarrow> [] | Some t \<Rightarrow> [''--scheduled-for'', t])"
  have "''--resume-run'' \<notin> set (take 1 ?options)" by (auto split: option.splits)
  with assms have "changeArgs (po_networks P) r ([''run-network'', pn_definitionPath n] @ ?options @ [''--json''])"
    unfolding changeArgs_def by auto
  from correlated [OF this quiet.guarantees_pure(1)] show ?thesis
    unfolding childStartNetwork_def Let_def by simp
qed

lemma cancel_does:
  assumes "rq_requestType r = (if release then Release else Stop)"
  shows "does calls (childCancelRun C r release) (\<lambda>cs _. commands r cs)"
proof -
  have "does calls (bindP (liftP (requestedBy (rq_id r) (rq_creatorCode r))) (\<lambda>correlation.
     bindP (runChild C ([''cancel-run'', ''--run-id'', rq_runId r] @ (if release then [''--release''] else []) @
       [''--reason-file'', path]) (Some correlation)) retP)) (\<lambda>cs _. commands r cs)" for path
    by (rule correlated) (use assms in \<open>auto simp: changeArgs_def intro: quiet.guarantees_pure simp del: run_simps\<close>)
  then show ?thesis unfolding childCancelRun_def bindP_right_unit by (rule reasonFile_does)
qed

lemma archive_does:
  assumes "n \<in> set (po_networks P)" "rq_requestType r = Close"
  shows "does calls (childArchiveRun C n r) (\<lambda>cs _. commands r cs)"
  unfolding childArchiveRun_def
  by (rule reasonFile_does, rule correlated)
    (use assms in \<open>auto simp: changeArgs_def intro: quiet.guarantees_pure simp del: run_simps\<close>)

subsection \<open>A claimed request\<close>

lemma withHeartbeat_does:
  assumes "does calls start (\<lambda>cs _. commands r cs)"
  shows "does calls (withHeartbeat P c start classify) (\<lambda>cs _. commands r cs)"
  unfolding withHeartbeat_def
  by (intro does_bind_silent quiet.guarantees_pure does_then_silent does_attempt assms quiet.guarantees_bindP heartbeats_quiet) simp_all

lemma resolve_does:
  "does calls (resolveRun P i) (\<lambda>cs r. (\<exists>k. cs = take k (map (statusCall P (''--run-id'', i)) (po_networks P))) \<and>
     (\<forall>ms. r = Inr ms \<longrightarrow> cs = map (statusCall P (''--run-id'', i)) (po_networks P) \<and> rn_network ` set ms \<subseteq> set (po_networks P)))"
proof -
  let ?f = "\<lambda>network matches. bindP (childStatus C network (''--run-id'', i)) (\<lambda>status.
     if status = JNull then retP matches
     else bindP (liftP (runsWhere status ''run_id'' i)) (\<lambda>runs.
       retP (matches @ map (\<lambda>run. \<lparr> rn_network = network, rn_status = status, rn_run = run \<rparr>) runs)))"
  let ?I = "\<lambda>ms. rn_network ` set ms \<subseteq> set (po_networks P)"
  have turn: "does calls (?f n ms) (\<lambda>cs r. cs = [statusCall P (''--run-id'', i) n] \<and> (\<forall>b. r = Inr b \<longrightarrow> ?I ms \<longrightarrow> ?I b))"
    if "n \<in> set (po_networks P)" for n ms
  proof (rule does_bind [OF childStatus_does, where M = "\<lambda>_ cs r. cs = [] \<and> (\<forall>b. r = Inr b \<longrightarrow> ?I ms \<longrightarrow> ?I b)"])
    fix status
    show "does calls (if status = JNull then retP ms
      else bindP (liftP (runsWhere status ''run_id'' i)) (\<lambda>runs.
        retP (ms @ map (\<lambda>run. \<lparr> rn_network = n, rn_status = status, rn_run = run \<rparr>) runs)))
      (\<lambda>cs r. cs = [] \<and> (\<forall>b. r = Inr b \<longrightarrow> ?I ms \<longrightarrow> ?I b))"
      using that by (auto simp: does_def bindP_run split: sum.splits)
  qed simp_all
  from does_foldP [of "po_networks P" calls ?f _ ?I "[]", OF turn] show ?thesis
    unfolding resolveRun_def by (rule does_weaken) auto
qed

lemma review_does:
  assumes "rn_network m \<in> set (po_networks P)" "rq_requestType r \<noteq> Start"
  shows "does calls (reviewAndRun P r m) (\<lambda>cs _. commands r cs)"
proof -
  have "does calls (runRequest P r (rn_network m)) (\<lambda>cs _. commands r cs)"
    using assms by (cases "rq_requestType r")
      (auto simp: runRequest_def intro!: withHeartbeat_does rerun_does cancel_does archive_does)
  then show ?thesis unfolding reviewAndRun_def
    by (intro does_bind_silent clock quiet.guarantees_pure) (auto intro: does_pure split: option.splits)
qed

lemma processStart_does:
  assumes "rq_requestType r = Start"
  shows "does calls (processStart P r) (\<lambda>cs _. commands r cs)"
proof -
  have ret: "does calls (retP x) (\<lambda>cs _. commands r cs)" for x :: "request_record \<times> request_result"
    by (rule does_pure) simp
  have prepared: "does calls (bindP (prepareStartRequest (po_start P) n r) (\<lambda>p. case p of Inl result \<Rightarrow> retP (r, result) | Inr v \<Rightarrow> k v))
      (\<lambda>cs _. commands r cs)" if "\<And>v. does calls (k v) (\<lambda>cs _. commands r cs)" for n k
    by (rule does_bind_silent [OF prepare_quiet]) (use that ret in \<open>auto split: sum.splits\<close>)
  have run: "does calls (withHeartbeat P r (childStartNetwork C n r i) classifyStartNetworkResult) (\<lambda>cs _. commands r cs)"
    if "find (\<lambda>n. pn_networkId n = k) (po_networks P) = Some n" "rq_networkId r = Some k" "pn_appStart n" "blank (rq_runId r)" for k n i
    by (rule withHeartbeat_does, rule start_does) (use that assms in \<open>auto simp: find_Some_iff\<close>)
  show ?thesis unfolding processStart_def
    by (auto intro!: ret prepared run split: option.splits)
qed

lemma processClaimed_does: "does calls (processClaimed P r) (\<lambda>cs _. claimCalls P r cs)"
proof (cases "rq_requestType r = Start")
  case True
  then have "claimCalls P r cs \<longleftrightarrow> commands r cs" for cs
    unfolding claimCalls_def commands_def Let_def if_P [OF True] take_Nil append_Nil by blast
  with True show ?thesis unfolding processClaimed_def by (simp add: processStart_does)
next
  case False
  let ?q = "map (statusCall P (''--run-id'', rq_runId r)) (po_networks P)"
  let ?k = "\<lambda>found. case found of
          Inl _ \<Rightarrow> retP (r, rejectedResult ''STATUS_UNAVAILABLE'' ''Run status could not be verified'')
        | Inr [] \<Rightarrow> retP (r, rejectedResult ''RUN_NOT_FOUND'' ''Run was not found in the allowlist'')
        | Inr [resolved] \<Rightarrow> reviewAndRun P r resolved
        | Inr _ \<Rightarrow> retP (r, rejectedResult ''RUN_ID_AMBIGUOUS'' ''Run ID matched multiple allowed networks'')"
  let ?L = "\<lambda>cs found. \<exists>f. found = Inr f \<and> (\<exists>k. cs = take k ?q) \<and>
     (\<forall>ms. f = Inr ms \<longrightarrow> cs = ?q \<and> rn_network ` set ms \<subseteq> set (po_networks P))"
  let ?M = "\<lambda>f cs _. cs = [] \<or> (\<exists>ms. f = Inr ms) \<and> commands r cs"
  have found: "does calls (attemptP (resolveRun P (rq_runId r))) ?L"
    using does_attempted [OF resolve_does [of "rq_runId r"]] .
  have after: "does calls (?k f) (?M f)" if "?L as (Inr f)" for f as
  proof (cases "\<exists>m. f = Inr [m]")
    case True
    then obtain m where m: "f = Inr [m]" "rn_network m \<in> set (po_networks P)" using \<open>?L as (Inr f)\<close> by auto
    from m(1) have "does calls (?k f) (\<lambda>cs _. commands r cs)" by (simp add: review_does [OF m(2) False])
    then show ?thesis by (rule does_weaken) (use m(1) in blast)
  next
    case False
    then show ?thesis by (auto intro!: does_pure(1) simp del: run_simps split: sum.splits list.splits)
  qed
  have calls: "claimCalls P r cs \<longleftrightarrow> (\<exists>k. cs = take k ?q) \<or> (\<exists>c. changeCall P r c \<and> cs = ?q @ [c])" for cs
    unfolding claimCalls_def Let_def if_not_P [OF False] by (rule refl)
  have whole: "claimCalls P r (as @ bs)" if "?L as (Inr f)" "?M f bs x" for as bs f x
    using that unfolding calls commands_def by auto
  have "does calls (bindP (attemptP (resolveRun P (rq_runId r))) ?k) (\<lambda>cs _. claimCalls P r cs)"
  proof (rule does_bind [OF found, where M = ?M])
    show "does calls (?k f) (?M f)" if "?L as (Inr f)" for f as by (rule after [OF that])
    show "claimCalls P r cs" if "?L cs (Inl e)" for cs e using that by blast
    show "claimCalls P r (as @ bs)" if "?L as (Inr f)" "?M f bs x" for as bs f x by (rule whole [OF that])
  qed
  moreover have "claimCalls P r []" unfolding calls by (metis take_0)
  ultimately show ?thesis using False unfolding processClaimed_def by (auto intro: does_pure)
qed

end

section \<open>A turn\<close>

definition allowedRun :: "'s poller \<Rightarrow> ('s \<Rightarrow> child_call list) \<Rightarrow> 's \<Rightarrow> 's \<Rightarrow> bool" where
  "allowedRun P calls s t \<longleftrightarrow> (\<exists>cs. calls t = calls s @ cs \<and> (\<forall>c \<in> set cs. allowedCall P c))"

sublocale recorded_poller \<subseteq> turn: state_order "allowedRun P calls"
proof
  show "allowedRun P calls s s" for s unfolding allowedRun_def by (intro exI [of _ "[]"]) simp
  show "allowedRun P calls s u" if "allowedRun P calls s t" "allowedRun P calls t u" for s t u
  proof -
    from that obtain as bs where "calls t = calls s @ as" "calls u = calls t @ bs" "\<forall>c \<in> set as. allowedCall P c"
      "\<forall>c \<in> set bs. allowedCall P c" unfolding allowedRun_def by blast
    then show ?thesis unfolding allowedRun_def by (intro exI [of _ "as @ bs"]) auto
  qed
qed

context recorded_poller
begin

abbreviation "allowed \<equiv> guarantees (allowedRun P calls)"

lemma quiet_allowed: "quietly m \<Longrightarrow> allowed m"
  unfolding guarantees_def allowedRun_def by force

lemma does_allowed: "does calls m L \<Longrightarrow> (\<And>cs r c. L cs r \<Longrightarrow> c \<in> set cs \<Longrightarrow> allowedCall P c) \<Longrightarrow> allowed m"
  unfolding guarantees_def allowedRun_def by (metis doesD prod.collapse)

lemma status_allowed:
  assumes "n \<in> set (po_networks P)"
  shows "allowed (childStatus C n selector)"
proof (rule does_allowed [OF childStatus_does])
  fix cs c
  assume "cs = [statusCall P selector n]" "c \<in> set cs"
  then have "c \<in> statusCall P selector ` set (po_networks P)" using assms by simp
  then show "allowedCall P c" unfolding allowedCall_def by blast
qed

lemma resolve_allowed: "allowed (resolveRun P i)"
proof (rule does_allowed [OF resolve_does])
  fix cs r c
  assume "(\<exists>k. cs = take k (map (statusCall P (''--run-id'', i)) (po_networks P))) \<and>
     (\<forall>ms. r = Inr ms \<longrightarrow> cs = map (statusCall P (''--run-id'', i)) (po_networks P) \<and> rn_network ` set ms \<subseteq> set (po_networks P))" "c \<in> set cs"
  then have "c \<in> statusCall P (''--run-id'', i) ` set (po_networks P)" by (metis in_set_takeD list.set_map)
  then show "allowedCall P c" unfolding allowedCall_def by blast
qed

lemma process_allowed:
  assumes "claimedHere P r"
  shows "allowed (processClaimed P r)"
proof (rule does_allowed [OF processClaimed_does])
  fix cs c
  assume cs: "claimCalls P r cs" "c \<in> set cs"
  let ?q = "if rq_requestType r = Start then [] else map (statusCall P (''--run-id'', rq_runId r)) (po_networks P)"
  have "set ?q \<subseteq> statusCall P (''--run-id'', rq_runId r) ` set (po_networks P)" by simp
  moreover from cs(1) consider k where "cs = take k ?q" | d where "changeCall P r d" "cs = ?q @ [d]"
    unfolding claimCalls_def Let_def by blast
  then have "c \<in> set ?q \<or> changeCall P r c"
  proof cases
    case 1
    with cs(2) show ?thesis by (metis in_set_takeD)
  next
    case 2
    with cs(2) show ?thesis by (metis Un_iff empty_iff list.set(1) set_ConsD set_append)
  qed
  ultimately show "allowedCall P c" unfolding allowedCall_def using assms by blast
qed

lemma stale_allowed: "allowed (recoverStale P)"
proof -
  have start: "allowed (recoverStaleStart P r now)" for r now
  proof -
    have "allowed (bindP (prepareStartRequest (po_start P) n r) (\<lambda>prepared. case prepared of
          Inl _ \<Rightarrow> retP False
        | Inr v \<Rightarrow> bindP (childStatus C n (''--business-key'', ps_businessKey v)) (\<lambda>status.
            if status = JNull then retP False
            else bindP (liftP (runsWhere status ''business_key'' (ps_businessKey v))) (\<lambda>matches. case matches of
              [run] \<Rightarrow> bindP (liftP (liveRun P status run now)) (\<lambda>live. retP (\<not> live))
            | _ \<Rightarrow> retP False))))" if "n \<in> set (po_networks P)" for n
      by (intro turn.guarantees_bindP quiet_allowed [OF prepare_quiet] turn.guarantees_case_sum turn.guarantees_pure
          status_allowed that turn.guarantees_if turn.guarantees_case_list)
    then show ?thesis unfolding recoverStaleStart_def
      by (auto simp: find_Some_iff intro: turn.guarantees_pure(1) simp del: run_simps split: option.splits)
  qed
  show ?thesis unfolding recoverStale_def recoverOne_def ownerGone_def
    by (intro turn.guarantees_bindP turn.guarantees_foldP turn.guarantees_if turn.guarantees_pure turn.guarantees_catchP start
        resolve_allowed turn.guarantees_case_list quiet_allowed moves_quiet clock logLine_quiet)
qed

lemma pollCancel_allowed: "allowed (pollCancel P e)"
  unfolding pollCancel_def
  by (intro turn.guarantees_bindP turn.guarantees_whenP turn.guarantees_pure quiet_allowed moves_quiet logLine_quiet)

lemma finalize_allowed: "allowed (finalizeResult P r result)"
  unfolding finalizeResult_def Let_def
  by (intro turn.guarantees_bindP turn.guarantees_attemptP turn.guarantees_case_sum turn.guarantees_case_option turn.guarantees_if
      turn.guarantees_catchP turn.guarantees_pure quiet_allowed getById_quiet moves_quiet logLine_quiet)

lemma claim_here: "claim (po_store P) r (po_host P) now s = (Inr (Some c), t) \<Longrightarrow> claimedHere P c"
proof -
  assume "claim (po_store P) r (po_host P) now s = (Inr (Some c), t)"
  then obtain m where c: "c = (claimedRecord r (po_host P) now)\<lparr>rq_revision := m\<rparr>" and valid: "assertValid (claimedRecord r (po_host P) now) = Inr ()"
    by (auto simp: claim_def bindP_Inr_iff split: if_splits)
  have "c\<lparr>rq_revision := rq_revision r\<rparr> = claimedRecord r (po_host P) now" by (simp add: c claimedRecord_def)
  with valid have "validateRequestRecord (c\<lparr>rq_revision := rq_revision r\<rparr>) = []" by (simp add: assertValid_def Let_def split: if_splits)
  moreover have "rq_requestState c = Accepted" "rq_claimedHost c = Some (po_host P)" by (simp_all add: c claimedRecord_def)
  ultimately show ?thesis unfolding claimedHere_def by blast
qed

lemma pollOne_allowed: "allowed (pollOne P r counts)"
proof -
  obtain a b c where counts: "counts = (a, b, c)" by (cases counts)
  have claimed: "safe (allowedRun P calls) (\<lambda>_. True) (claim (po_store P) r (po_host P) now)
      (\<lambda>o' _. \<forall>d. o' = Some d \<longrightarrow> claimedHere P d)" for now
    by (rule safeI) (use guaranteesD [OF quiet_allowed [OF moves_quiet(5)]] claim_here in blast)
  have run: "safe (allowedRun P calls) (\<lambda>_. \<forall>d. o' = Some d \<longrightarrow> claimedHere P d) (case o' of
       None \<Rightarrow> retP (a, b, c)
     | Some d \<Rightarrow> bindP (processClaimed P d) (\<lambda>(current, result). bindP (finalizeResult P current result) (\<lambda>done'.
         retP (a, b + 1, if done' then c + 1 else c)))) (\<lambda>_ _. True)" for o'
  proof (cases "\<forall>d. o' = Some d \<longrightarrow> claimedHere P d")
    case True
    then have "allowed (case o' of
       None \<Rightarrow> retP (a, b, c)
     | Some d \<Rightarrow> bindP (processClaimed P d) (\<lambda>(current, result). bindP (finalizeResult P current result) (\<lambda>done'.
         retP (a, b + 1, if done' then c + 1 else c))))"
      by (cases o') (auto intro!: turn.guarantees_bindP turn.guarantees_case_prod process_allowed finalize_allowed turn.guarantees_pure(1)
          simp del: run_simps)
    then show ?thesis by (rule safe_weaken [OF turn.safe_guarantees [where K = "\<lambda>_. True"]]) simp_all
  next
    case False
    then show ?thesis unfolding safe_def by blast
  qed
  show ?thesis unfolding pollOne_def counts prod.case
    by (intro turn.guarantees_if turn.guarantees_bindP pollCancel_allowed turn.guarantees_pure quiet_allowed [OF isoNow_quiet]
        turn.safe_run [OF turn.safe_bind [OF claimed run]])
qed

lemma pollRequests_allowed: "allowed (pollRequests P)"
  unfolding pollRequests_def pollInvalid_def pollRejectInvalid_def
  by (intro turn.guarantees_bindP turn.guarantees_foldP turn.guarantees_if turn.guarantees_whenP turn.guarantees_case_prod
      turn.guarantees_pure pollCancel_allowed pollOne_allowed stale_allowed quiet_allowed moves_quiet logLine_quiet)

end

section \<open>The executable poller\<close>

lemma app_recorded: "recorded_poller (appPoller lawful) rw_ran"
proof
  have store: "po_store (appPoller lawful) = appStore lawful" by (simp add: appPoller_def)
  show "silent rw_ran (storeRecords (po_store (appPoller lawful)) q)" for q
    by (simp add: guarantees_def store app_records)
  show "silent rw_ran (storePut (po_store (appPoller lawful)) i n fs)" for i n fs
    by (simp add: guarantees_def store app_update_run Let_def takenPut_def refusedPut_def split: option.splits)
  show "does rw_ran (ch_execute (po_child (appPoller lawful)) command args env) (\<lambda>cs _. cs = [(command, args, env)])" for command args env
    by (simp add: does_def appPoller_def sampleChildren_def)
qed (simp_all add: guarantees_def appPoller_def sampleChildren_def quietStart_def)

interpretation recordedPoller: recorded_poller "appPoller False" rw_ran
  by (rule app_recorded)

lemma sample_recorded: "recorded_poller samplePoller rw_ran"
  unfolding samplePoller_def by (rule app_recorded)

end
