(* ===== verification/PollConfig.thy ===== *)
theory PollConfig
  imports RequestPoller
begin

text \<open>
  The allowlist of the poller, \<open>src/requests/poll-requests-config.ts\<close>. Parameters are the file system, the YAML parser,
  and the functions \<open>isAbsolute\<close> and \<open>resolve\<close> of \<open>node:path\<close>.
\<close>

definition DEFAULT_REQUEST_HEARTBEAT_INTERVAL_MS :: int where "DEFAULT_REQUEST_HEARTBEAT_INTERVAL_MS = 60000"
definition DEFAULT_REQUEST_STALE_AFTER_MS :: int where "DEFAULT_REQUEST_STALE_AFTER_MS = 15 * 60000"
definition KINTONE_DATETIME_PRECISION_ALLOWANCE_MS :: int where "KINTONE_DATETIME_PRECISION_ALLOWANCE_MS = 60000"

record poll_config =
  pc_networks :: "poll_network list"
  pc_heartbeatIntervalMs :: int
  pc_staleAfterMs :: int
  pc_stalePrecisionAllowanceMs :: int

record 's config_env =
  ce_files :: "'s network_files"
  ce_isAbsolute :: "string \<Rightarrow> bool"
  ce_resolve :: "string \<Rightarrow> string"

definition configError :: "string \<Rightarrow> js_error + 'a" where
  "configError code = Inl (CodedError code)"

definition positiveInteger :: "int \<Rightarrow> js_error + int" where
  "positiveInteger v = (if \<not> isSafeInteger v \<or> v \<le> 0 then configError ''THRESHOLD_INVALID'' else Inr v)"

definition objectValue :: "json \<Rightarrow> js_error + (string \<times> json) list" where
  "objectValue v = (case v of JObj fs \<Rightarrow> Inr fs | _ \<Rightarrow> configError ''CONFIG_SHAPE_INVALID'')"

section \<open>Entries\<close>

definition entryText :: "(string \<times> json) list \<Rightarrow> string \<Rightarrow> string option" where
  "entryText fs k = (case mapGet fs k of Some (JStr s) \<Rightarrow> if blank s then None else Some s | _ \<Rightarrow> None)"

definition entryFlag :: "(string \<times> json) list \<Rightarrow> bool option" where
  "entryFlag fs = (case mapGet fs ''app_start'' of None \<Rightarrow> Some False | Some (JBool b) \<Rightarrow> Some b | Some _ \<Rightarrow> None)"

text \<open>The network id, the path and the flag of an entry of the right shape.\<close>

definition entryShape :: "json \<Rightarrow> js_error + string \<times> string \<times> bool" where
  "entryShape entry = bindE (objectValue entry) (\<lambda>fs.
     if list_ex (\<lambda>(k, _). k \<notin> {''network_id'', ''definition_path'', ''app_start''}) fs
     then configError ''NETWORK_ENTRY_INVALID''
     else (case (entryText fs ''network_id'', entryText fs ''definition_path'', entryFlag fs) of
         (Some i, Some path, Some appStart) \<Rightarrow> Inr (i, path, appStart)
       | _ \<Rightarrow> configError ''NETWORK_ENTRY_INVALID''))"

definition listedDefinition :: "string \<Rightarrow> network_validation \<Rightarrow> js_error + unit" where
  "listedDefinition i loaded = (case nv_definition loaded of
     None \<Rightarrow> configError ''NETWORK_DEFINITION_INVALID''
   | Some d \<Rightarrow>
       if nv_errors loaded \<noteq> [] then configError ''NETWORK_DEFINITION_INVALID''
       else if nd_network_id d \<noteq> i then configError ''NETWORK_ID_MISMATCH''
       else Inr ())"

definition allowedEntry :: "'s config_env \<Rightarrow> json \<Rightarrow> poll_network list \<Rightarrow> ('s, poll_network list) prog" where
  "allowedEntry E entry networks =
     bindP (liftP (entryShape entry)) (\<lambda>(i, path, appStart).
     if i \<in> set (map pn_networkId networks) then liftP (configError ''DUPLICATE_NETWORK'')
     else if \<not> ce_isAbsolute E path then liftP (configError ''DEFINITION_PATH_NOT_ABSOLUTE'')
     else bindP (validateNetworkPath (ce_files E) (ce_resolve E path)) (\<lambda>loaded.
       bindP (liftP (listedDefinition i loaded)) (\<lambda>_.
       retP (networks @ [\<lparr> pn_networkId = i, pn_definitionPath = ce_resolve E path, pn_appStart = appStart \<rparr>]))))"

definition allowlistEntries :: "json \<Rightarrow> js_error + json list" where
  "allowlistEntries v = bindE (objectValue v) (\<lambda>fs. case mapGet fs ''networks'' of
     Some (JArr entries) \<Rightarrow>
       if entries = [] \<or> list_ex (\<lambda>(k, _). k \<noteq> ''networks'') fs then configError ''CONFIG_SHAPE_INVALID'' else Inr entries
   | _ \<Rightarrow> configError ''CONFIG_SHAPE_INVALID'')"

section \<open>Loading\<close>

definition orDefault :: "int \<Rightarrow> int option \<Rightarrow> int" where
  "orDefault d v = (case v of None \<Rightarrow> d | Some n \<Rightarrow> n)"

definition thresholds :: "int option \<Rightarrow> int option \<Rightarrow> js_error + int \<times> int" where
  "thresholds heartbeatInterval staleAfter =
     bindE (positiveInteger (orDefault DEFAULT_REQUEST_HEARTBEAT_INTERVAL_MS heartbeatInterval)) (\<lambda>interval.
     bindE (positiveInteger (orDefault DEFAULT_REQUEST_STALE_AFTER_MS staleAfter)) (\<lambda>stale.
     if stale \<le> interval then configError ''THRESHOLD_INVALID'' else Inr (interval, stale)))"

definition allowlistSource :: "'s config_env \<Rightarrow> string \<Rightarrow> ('s, json) prog" where
  "allowlistSource E path =
     (if \<not> ce_isAbsolute E path then liftP (configError ''ALLOWLIST_PATH_NOT_ABSOLUTE'')
      else bindP (catchP (nf_readFile (ce_files E) path) (\<lambda>_. liftP (configError ''ALLOWLIST_UNREADABLE''))) (\<lambda>source.
        let document = nf_yaml (ce_files E) source in
        if yd_errors document \<noteq> [] then liftP (configError ''ALLOWLIST_PARSE_ERROR'') else liftP (yd_value document)))"

definition loadPollRequestsConfig :: "'s config_env \<Rightarrow> string \<Rightarrow> int option \<Rightarrow> int option \<Rightarrow> ('s, poll_config) prog" where
  "loadPollRequestsConfig E path heartbeatInterval staleAfter =
     bindP (allowlistSource E path) (\<lambda>v.
     bindP (liftP (allowlistEntries v)) (\<lambda>entries.
     bindP (foldP (allowedEntry E) entries []) (\<lambda>networks.
     bindP (liftP (thresholds heartbeatInterval staleAfter)) (\<lambda>(interval, stale).
     retP \<lparr> pc_networks = networks, pc_heartbeatIntervalMs = interval, pc_staleAfterMs = stale,
       pc_stalePrecisionAllowanceMs = KINTONE_DATETIME_PRECISION_ALLOWANCE_MS \<rparr>))))"

definition networkForNetworkId :: "poll_config \<Rightarrow> string \<Rightarrow> js_error + poll_network" where
  "networkForNetworkId config i = (case find (\<lambda>n. pn_networkId n = i) (pc_networks config) of
     None \<Rightarrow> configError ''NETWORK_NOT_ALLOWED''
   | Some n \<Rightarrow> Inr n)"

definition definitionPathForNetwork :: "poll_config \<Rightarrow> string \<Rightarrow> js_error + string" where
  "definitionPathForNetwork config i = bindE (networkForNetworkId config i) (\<lambda>n. Inr (pn_definitionPath n))"

section \<open>A loaded allowlist\<close>

text \<open>
  Networks are listed once, at absolute paths of valid definitions with the listed id; the stale threshold is above the
  heartbeat interval.
\<close>

definition absoluteNetworks :: "'s config_env \<Rightarrow> poll_network list \<Rightarrow> bool" where
  "absoluteNetworks E networks \<longleftrightarrow> distinct (map pn_networkId networks) \<and>
     (\<forall>n \<in> set networks. \<not> blank (pn_networkId n) \<and> (\<exists>path. ce_isAbsolute E path \<and> pn_definitionPath n = ce_resolve E path))"

lemma entryShape_Inr:
  "entryShape entry = Inr (i, path, appStart) \<Longrightarrow> \<not> blank i"
  by (auto simp: entryShape_def bindE_Inr_iff configError_def entryText_def split: if_splits option.splits json.splits)

lemma allowedEntry_Inr:
  assumes "allowedEntry E entry networks s = (Inr networks', t)"
  obtains i path appStart where "\<not> blank i" "i \<notin> pn_networkId ` set networks" "ce_isAbsolute E path"
    "networks' = networks @ [\<lparr> pn_networkId = i, pn_definitionPath = ce_resolve E path, pn_appStart = appStart \<rparr>]"
  using assms unfolding allowedEntry_def bindP_Inr_iff
  by (auto simp: bindP_Inr_iff configError_def dest!: entryShape_Inr split: if_splits intro: that)

lemma allowedEntry_keeps:
  assumes "allowedEntry E entry networks s = (Inr networks', t)" "absoluteNetworks E networks"
  shows "absoluteNetworks E networks'" "networks' \<noteq> []"
  by (rule allowedEntry_Inr [OF assms(1)]; use assms(2) in \<open>auto simp: absoluteNetworks_def\<close>)+

lemma allowlist_networks:
  "foldP (allowedEntry E) entries networks s = (Inr networks', t) \<Longrightarrow> absoluteNetworks E networks \<Longrightarrow>
     absoluteNetworks E networks' \<and> (entries \<noteq> [] \<or> networks \<noteq> [] \<longrightarrow> networks' \<noteq> [])"
proof (induction entries arbitrary: networks s)
  case (Cons entry entries)
  then obtain ns u where e: "allowedEntry E entry networks s = (Inr ns, u)" "foldP (allowedEntry E) entries ns u = (Inr networks', t)"
    by (auto simp: bindP_Inr_iff)
  show ?case using Cons.IH [OF e(2)] allowedEntry_keeps [OF e(1) Cons.prems(2)] by simp
qed simp

lemma allowlistEntries_nonempty: "allowlistEntries v = Inr entries \<Longrightarrow> entries \<noteq> []"
  unfolding allowlistEntries_def bindE_Inr_iff
  by (elim exE conjE) (simp add: configError_def split: option.splits json.splits if_split_asm)

lemma loaded_config:
  assumes "loadPollRequestsConfig E path h st s = (Inr config, t)"
  shows "ce_isAbsolute E path" "pc_networks config \<noteq> []" "absoluteNetworks E (pc_networks config)"
    "0 < pc_heartbeatIntervalMs config" "pc_heartbeatIntervalMs config < pc_staleAfterMs config"
proof -
  from assms obtain v u where r1: "allowlistSource E path s = (Inr v, u)"
    and k1: "bindP (liftP (allowlistEntries v)) (\<lambda>entries. bindP (foldP (allowedEntry E) entries []) (\<lambda>networks.
      bindP (liftP (thresholds h st)) (\<lambda>(interval, stale).
      retP \<lparr> pc_networks = networks, pc_heartbeatIntervalMs = interval, pc_staleAfterMs = stale,
        pc_stalePrecisionAllowanceMs = KINTONE_DATETIME_PRECISION_ALLOWANCE_MS \<rparr>))) u = (Inr config, t)"
    unfolding loadPollRequestsConfig_def bindP_Inr_iff by blast
  from k1 obtain entries where r2: "allowlistEntries v = Inr entries"
    and k2: "bindP (foldP (allowedEntry E) entries []) (\<lambda>networks. bindP (liftP (thresholds h st)) (\<lambda>(interval, stale).
      retP \<lparr> pc_networks = networks, pc_heartbeatIntervalMs = interval, pc_staleAfterMs = stale,
        pc_stalePrecisionAllowanceMs = KINTONE_DATETIME_PRECISION_ALLOWANCE_MS \<rparr>)) u = (Inr config, t)"
    by (cases "allowlistEntries v") simp_all
  from k2 obtain networks w where r3: "foldP (allowedEntry E) entries [] u = (Inr networks, w)"
    and k3: "bindP (liftP (thresholds h st)) (\<lambda>(interval, stale).
      retP \<lparr> pc_networks = networks, pc_heartbeatIntervalMs = interval, pc_staleAfterMs = stale,
        pc_stalePrecisionAllowanceMs = KINTONE_DATETIME_PRECISION_ALLOWANCE_MS \<rparr>) w = (Inr config, t)"
    unfolding bindP_Inr_iff by blast
  from k3 obtain interval stale where r4: "thresholds h st = Inr (interval, stale)"
    and c: "config = \<lparr> pc_networks = networks, pc_heartbeatIntervalMs = interval, pc_staleAfterMs = stale,
       pc_stalePrecisionAllowanceMs = KINTONE_DATETIME_PRECISION_ALLOWANCE_MS \<rparr>"
    by (cases "thresholds h st"; cases "projr (thresholds h st)") simp_all
  from r2 have "entries \<noteq> []" by (rule allowlistEntries_nonempty)
  with allowlist_networks [OF r3] c show "pc_networks config \<noteq> []" "absoluteNetworks E (pc_networks config)"
    by (simp_all add: absoluteNetworks_def)
  from r1 show "ce_isAbsolute E path" by (auto simp: allowlistSource_def configError_def split: if_splits)
  from r4 c show "0 < pc_heartbeatIntervalMs config" "pc_heartbeatIntervalMs config < pc_staleAfterMs config"
    by (auto simp: thresholds_def bindE_Inr_iff positiveInteger_def configError_def split: if_splits)
qed

end
