(* ===== verification/NetworkValidationProps.thy ===== *)
theory NetworkValidationProps
  imports NetworkValidation DagProps
begin

text \<open>
  What an accepted network definition is: the semantic errors are none exactly when the definition meets the conditions the
  other components rely on (unique node ids, known dependencies without repetition, no cycle, a heartbeat of a third of
  the lease).
\<close>

section \<open>Each check\<close>

lemma dependencyErrors_Nil:
  "dependencyErrors i node j seen deps = [] \<longleftrightarrow> node \<notin> set deps \<and> distinct deps \<and> set deps \<inter> set seen = {}"
  by (induction deps arbitrary: j seen) auto

lemma patternErrors_Nil:
  "patternErrors problem code path patterns = [] \<longleftrightarrow>
     (\<forall>(name, pattern) \<in> set (case patterns of None \<Rightarrow> [] | Some ps \<Rightarrow> ps). \<not> problem pattern)"
  by (auto simp: patternErrors_def filter_empty_conv)

definition acceptedNode :: "network_node \<Rightarrow> bool" where
  "acceptedNode n \<longleftrightarrow> nn_trigger_rule n = ALL_SUCCESS \<and> nn_id n \<notin> set (nn_depends_on n) \<and> distinct (nn_depends_on n) \<and>
     (\<forall>(name, pattern) \<in> set (case nn_inputs n of None \<Rightarrow> [] | Some ps \<Rightarrow> ps). \<not> inputPatternProblem pattern) \<and>
     (\<forall>(name, pattern) \<in> set (case nn_outputs n of None \<Rightarrow> [] | Some ps \<Rightarrow> ps). \<not> outputPatternProblem pattern)"

lemma nodeErrors_Nil: "nodeErrors i seen n = [] \<longleftrightarrow> nn_id n \<notin> set seen \<and> acceptedNode n"
  by (auto simp: nodeErrors_def acceptedNode_def dependencyErrors_Nil patternErrors_Nil)

lemma allNodeErrors_Nil:
  "allNodeErrors i seen nodes = [] \<longleftrightarrow>
     distinct (map nn_id nodes) \<and> nn_id ` set nodes \<inter> set seen = {} \<and> (\<forall>n \<in> set nodes. acceptedNode n)"
  by (induction nodes arbitrary: i seen) (auto simp: nodeErrors_Nil)

lemma ball_enumerate: "(\<forall>x \<in> set (enumerate k xs). P (snd x)) \<longleftrightarrow> (\<forall>x \<in> set xs. P x)"
proof -
  have "set xs = snd ` set (enumerate k xs)" by (metis map_snd_enumerate set_map)
  then show ?thesis by simp
qed

lemma unknownDependencies_Nil: "unknownDependencies known i n = [] \<longleftrightarrow> set (nn_depends_on n) \<subseteq> set known"
  using ball_enumerate [of 0 "nn_depends_on n" "\<lambda>d. d \<in> set known"]
  by (auto simp: unknownDependencies_def filter_empty_conv case_prod_beta)

lemma allUnknownDependencies_Nil:
  "allUnknownDependencies nodes = [] \<longleftrightarrow> (\<forall>n \<in> set nodes. set (nn_depends_on n) \<subseteq> nodeIds nodes)"
  using ball_enumerate [of 0 nodes "\<lambda>n. set (nn_depends_on n) \<subseteq> nodeIds nodes"]
  by (auto simp: allUnknownDependencies_def unknownDependencies_Nil nodeIds_def case_prod_beta)

lemma lockErrors_Nil:
  "lockErrors d = [] \<longleftrightarrow> nl_heartbeat_interval_sec (nd_network_lock d) < nl_lease_duration_sec (nd_network_lock d) \<and>
     3 * nl_heartbeat_interval_sec (nd_network_lock d) \<le> nl_lease_duration_sec (nd_network_lock d)"
  by (auto simp: lockErrors_def Let_def)

definition acceptedPolicy :: "(string \<Rightarrow> bool) \<Rightarrow> business_key_policy \<Rightarrow> bool" where
  "acceptedPolicy zoneKnown policy = (case policy of
     Explicit \<Rightarrow> True
   | ScheduledPeriod period timezone format \<Rightarrow> validateScheduledPeriodPolicy zoneKnown period timezone format = [])"

lemma policyErrors_Nil: "policyErrors zoneKnown d = [] \<longleftrightarrow> acceptedPolicy zoneKnown (nd_business_key_policy d)"
  by (simp add: policyErrors_def acceptedPolicy_def split: business_key_policy.splits)

lemma strictNodes_iff:
  "strictNodes nodes \<and> (\<forall>n \<in> set nodes. acceptedNode n) \<longleftrightarrow>
     distinct (map nn_id nodes) \<and> (\<forall>n \<in> set nodes. set (nn_depends_on n) \<subseteq> nodeIds nodes) \<and> (\<forall>n \<in> set nodes. acceptedNode n)"
  by (auto simp: strictNodes_def wellFormedNodes_def acceptedNode_def)

lemma cyclic_iff:
  assumes "wellFormedNodes nodes"
  shows "ts_cyclicNodeIds (stableTopologicalSort nodes) = [] \<longleftrightarrow> acyclic (edges nodes)"
  using topological_sort_cycles [OF assms] by simp

section \<open>All checks\<close>

lemma semanticErrors_Nil:
  "semanticErrors zoneKnown d = [] \<longleftrightarrow>
     acceptedPolicy zoneKnown (nd_business_key_policy d) \<and>
     nl_heartbeat_interval_sec (nd_network_lock d) < nl_lease_duration_sec (nd_network_lock d) \<and>
     3 * nl_heartbeat_interval_sec (nd_network_lock d) \<le> nl_lease_duration_sec (nd_network_lock d) \<and>
     strictNodes (nd_nodes d) \<and> (\<forall>n \<in> set (nd_nodes d). acceptedNode n) \<and> acyclic (edges (nd_nodes d))"
proof -
  let ?e = "policyErrors zoneKnown d @ lockErrors d @ allNodeErrors 0 [] (nd_nodes d) @ allUnknownDependencies (nd_nodes d)"
  have "semanticErrors zoneKnown d = [] \<longleftrightarrow> ?e = [] \<and> ts_cyclicNodeIds (stableTopologicalSort (nd_nodes d)) = []"
    by (auto simp: semanticErrors_def Let_def hasErrorCode_def)
  moreover have "?e = [] \<longleftrightarrow> acceptedPolicy zoneKnown (nd_business_key_policy d) \<and>
     nl_heartbeat_interval_sec (nd_network_lock d) < nl_lease_duration_sec (nd_network_lock d) \<and>
     3 * nl_heartbeat_interval_sec (nd_network_lock d) \<le> nl_lease_duration_sec (nd_network_lock d) \<and>
     strictNodes (nd_nodes d) \<and> (\<forall>n \<in> set (nd_nodes d). acceptedNode n)"
    unfolding append_is_Nil_conv policyErrors_Nil lockErrors_Nil allNodeErrors_Nil allUnknownDependencies_Nil strictNodes_iff by auto
  ultimately show ?thesis using cyclic_iff [of "nd_nodes d"] by (auto simp: strictNodes_def)
qed

lemma validation_accepted: "semanticErrors zoneKnown d = [] \<Longrightarrow> strictNodes (nd_nodes d) \<and> acyclic (edges (nd_nodes d))"
  by (simp add: semanticErrors_Nil)

text \<open>
  C31: The validation of a definition that the schema accepts is exact: it reports nothing if and only if node ids are unique,
  dependencies are known, not repeated and not cyclic, every node has the supported trigger rule and only relative path
  patterns, the heartbeat is at most a third of the lease, and the period format fits the period.
\<close>

theorem validation_is_exact:
  "semanticErrors zoneKnown d = [] \<longleftrightarrow>
     acceptedPolicy zoneKnown (nd_business_key_policy d) \<and>
     nl_heartbeat_interval_sec (nd_network_lock d) < nl_lease_duration_sec (nd_network_lock d) \<and>
     3 * nl_heartbeat_interval_sec (nd_network_lock d) \<le> nl_lease_duration_sec (nd_network_lock d) \<and>
     strictNodes (nd_nodes d) \<and> (\<forall>n \<in> set (nd_nodes d). acceptedNode n) \<and> acyclic (edges (nd_nodes d))"
  by (rule semanticErrors_Nil)

definition diamondDefinition :: "int \<Rightarrow> network_definition" where
  "diamondDefinition beat = \<lparr> nd_schema_version = 1, nd_network_id = ''sales'', nd_description = None, nd_business_key_policy = Explicit,
     nd_max_active_runs = 1, nd_network_lock = \<lparr> nl_lease_duration_sec = 300, nl_heartbeat_interval_sec = beat \<rparr>,
     nd_nodes = diamondNodes \<rparr>"

theorem validation_is_exact_witness:
  "acyclic (edges diamondNodes) \<and> semanticErrors (\<lambda>_. True) (diamondDefinition 101) \<noteq> []"
proof -
  have "semanticErrors (\<lambda>_. True) (diamondDefinition 100) = []" by code_simp
  then show ?thesis
    using validation_is_exact [of "\<lambda>_. True" "diamondDefinition 100"] validation_is_exact [of "\<lambda>_. True" "diamondDefinition 101"]
    by (simp add: diamondDefinition_def)
qed

section \<open>Loading\<close>

text \<open>
  What a network file says: its text is YAML without errors, the value satisfies the schema and has the shape of a definition.
\<close>

definition readsAs :: "'s network_files \<Rightarrow> string \<Rightarrow> network_definition \<Rightarrow> bool" where
  "readsAs F source d \<longleftrightarrow> yd_errors (nf_yaml F source) = [] \<and>
     (\<exists>v. yd_value (nf_yaml F source) = Inr v \<and> nf_schema F v = [] \<and> definitionOfJson v = Inr d)"

lemma validated_definition:
  assumes "validateNetworkDefinition F v = Inr loaded" "nv_definition loaded = Some d" "nv_errors loaded = []"
  shows "nf_schema F v = [] \<and> definitionOfJson v = Inr d \<and> semanticErrors (nf_zoneKnown F) d = []"
  using assms by (auto simp: validateNetworkDefinition_def Let_def bindE_Inr_iff split: if_splits)

lemma loaded_source:
  assumes "nv_definition (loadNetworkDefinitionSource F source) = Some d" "nv_errors (loadNetworkDefinitionSource F source) = []"
  shows "readsAs F source d \<and> semanticErrors (nf_zoneKnown F) d = []"
proof -
  from assms(1) obtain v loaded where v: "yd_errors (nf_yaml F source) = []" "yd_value (nf_yaml F source) = Inr v"
    "validateNetworkDefinition F v = Inr loaded" "loadNetworkDefinitionSource F source = loaded"
    by (auto simp: loadNetworkDefinitionSource_def Let_def bindE_Inr_iff split: sum.splits if_splits)
  from validated_definition [OF v(3)] assms v show ?thesis by (simp add: readsAs_def)
qed

text \<open>A loaded definition without errors is what the file says that was read in this call, and passed all checks.\<close>

lemma loaded_is_accepted:
  assumes "loadNetworkDefinition F path s = (Inr loaded, t)" "nv_definition loaded = Some d" "nv_errors loaded = []"
  shows "\<exists>source. nf_readFile F path s = (Inr source, t) \<and> readsAs F source d \<and> semanticErrors (nf_zoneKnown F) d = []"
proof -
  from assms(1) obtain source where source: "attemptP (nf_readFile F path) s = (Inr source, t)"
    "loaded = (case source of
       Inl _ \<Rightarrow> \<lparr> nv_definition = None, nv_errors = [networkError ''NETWORK_FILE_UNREADABLE'' ''$''] \<rparr>
     | Inr text' \<Rightarrow> loadNetworkDefinitionSource F text')"
    by (auto simp: loadNetworkDefinition_def bindP_Inr_iff)
  with assms(2) obtain text' where text': "source = Inr text'" "loaded = loadNetworkDefinitionSource F text'"
    by (cases source) auto
  with source(1) have "nf_readFile F path s = (Inr text', t)" by (auto simp: attemptP_def split: prod.splits)
  with loaded_source [of F text' d] assms text' show ?thesis by blast
qed

end
