(* ===== verification/RequestProps.thy ===== *)
theory RequestProps
  imports PollConfig NetworkValidationProps RequestContract "HOL-Library.Code_Target_Nat"
begin

text \<open>
  What the parts of the poller guarantee by themselves: records that are read as they were written, what
  the verdict DONE rests on, output of bounded size, correlations that identify the request, and starts that were checked.
\<close>

section \<open>Records\<close>

text \<open>The record of the request app that holds a request; an absent value is an empty text.\<close>

definition textOrEmpty :: "string option \<Rightarrow> json" where
  "textOrEmpty v = JStr (case v of None \<Rightarrow> [] | Some s \<Rightarrow> s)"

definition requestRecord :: "int \<Rightarrow> request_record \<Rightarrow> kintone_record" where
  "requestRecord n r = fieldsRecord [(''$id'', JStr (rq_id r)), (''$revision'', JStr (stringOfInt n)),
     (CREATOR_FIELD, JObj [(''code'', JStr (rq_creatorCode r))]), (CREATED_AT_FIELD, JStr (rq_createdAt r)),
     (''request_type'', JStr (requestTypeText (rq_requestType r))), (''run_id'', JStr (rq_runId r)),
     (''network_id'', textOrEmpty (rq_networkId r)), (''business_key'', textOrEmpty (rq_businessKey r)),
     (''scheduled_for'', textOrEmpty (rq_scheduledFor r)), (''rerun_from_node'', textOrEmpty (rq_rerunFromNode r)),
     (''reason'', JStr (rq_reason r)), (''request_state'', JStr (requestStateText (rq_requestState r))),
     (''cancel_requested'', JArr (if rq_cancelRequested r then [JStr CANCEL_CHOICE] else [])),
     (''claimed_at'', textOrEmpty (rq_claimedAt r)), (''claimed_host'', textOrEmpty (rq_claimedHost r)),
     (''claim_heartbeat_at'', textOrEmpty (rq_claimHeartbeatAt r)), (''result_code'', textOrEmpty (rq_resultCode r)),
     (''result_message'', textOrEmpty (rq_resultMessage r))]"

definition noEmptyTexts :: "request_record \<Rightarrow> bool" where
  "noEmptyTexts r \<longleftrightarrow> Some [] \<notin> {rq_networkId r, rq_businessKey r, rq_scheduledFor r, rq_rerunFromNode r, rq_claimedAt r,
     rq_claimedHost r, rq_claimHeartbeatAt r, rq_resultCode r, rq_resultMessage r}"

lemma fieldsRecord_object [simp]: "fieldsRecord fs \<noteq> JNull"
  by (simp add: fieldsRecord_def)

lemma fieldsRecord_get [simp]: "jsonGet (fieldsRecord fs) k = map_option jsonField (mapGet fs k)"
  by (induction fs) (auto simp: fieldsRecord_def jsonGet_def)

lemma requestTypeText_from [simp]: "fromText requestTypeText REQUEST_TYPES (requestTypeText ty) = Some ty"
  by (cases ty) (simp_all add: fromText_def REQUEST_TYPES_def)

lemma requestStateText_from [simp]: "fromText requestStateText REQUEST_STATES (requestStateText st) = Some st"
  by (cases st) (simp_all add: fromText_def REQUEST_STATES_def)

lemma field_names: "CREATOR_FIELD = CHR 0xE4 # CHR 0xBD # map char_of [156::nat, 230, 136, 144, 232, 128, 133]"
  "CREATED_AT_FIELD = CHR 0xE4 # CHR 0xBD # map char_of [156::nat, 230, 136, 144, 230, 151, 165, 230, 153, 130]"
  "CREATOR_FIELD \<noteq> CREATED_AT_FIELD"
  by code_simp+

lemma field_name_heads:
  "c \<noteq> CHR 0xE4 \<Longrightarrow> CREATOR_FIELD \<noteq> c # cs" "c \<noteq> CHR 0xE4 \<Longrightarrow> CREATED_AT_FIELD \<noteq> c # cs"
  "c \<noteq> CHR 0xE4 \<Longrightarrow> c # cs \<noteq> CREATOR_FIELD" "c \<noteq> CHR 0xE4 \<Longrightarrow> c # cs \<noteq> CREATED_AT_FIELD"
  unfolding field_names by (metis list.inject)+

lemma optional_read:
  assumes "mapGet fs k = Some (textOrEmpty v)" "v \<noteq> Some []"
  shows "optionalString (fieldsRecord fs) k = Inr v" "additiveOptionalString (fieldsRecord fs) k = Inr v"
  using assms by (auto simp: optionalString_def additiveOptionalString_def hasOwn_def stringValue_def rawValue_def textOrEmpty_def
      split: option.splits)

lemma string_read: "mapGet fs k = Some (JStr v) \<Longrightarrow> stringValue (fieldsRecord fs) k = Inr v"
  by (simp add: stringValue_def rawValue_def)

lemma creator_read: "mapGet fs CREATOR_FIELD = Some (JObj [(''code'', JStr v)]) \<Longrightarrow> creatorCode (fieldsRecord fs) = Inr v"
  by (simp add: creatorCode_def rawValue_def jsonGet_def)

lemma cancel_read:
  "mapGet fs ''cancel_requested'' = Some (JArr (if b then [JStr CANCEL_CHOICE] else [])) \<Longrightarrow> cancelRequested (fieldsRecord fs) = Inr b"
  by (simp add: cancelRequested_def hasOwn_def rawValue_def)

text \<open>The fields of a written record, one by one.\<close>

lemma requestRecord_fields:
  assumes "0 \<le> n" "noEmptyTexts r"
  shows "parseRequestFields (requestRecord n r) = Inr (r\<lparr>rq_revision := Finite (of_int n)\<rparr>)"
proof -
  note get = string_read optional_read creator_read cancel_read
  note names = field_name_heads field_names(3) field_names(3) [symmetric]
  have empty: "rq_networkId r \<noteq> Some []" "rq_businessKey r \<noteq> Some []" "rq_scheduledFor r \<noteq> Some []" "rq_rerunFromNode r \<noteq> Some []"
    "rq_claimedAt r \<noteq> Some []" "rq_claimedHost r \<noteq> Some []" "rq_claimHeartbeatAt r \<noteq> Some []" "rq_resultCode r \<noteq> Some []"
    "rq_resultMessage r \<noteq> Some []" using assms(2) by (auto simp: noEmptyTexts_def)
  let ?x = "requestRecord n r"
  have texts: "stringValue ?x ''$id'' = Inr (rq_id r)" "stringValue ?x ''$revision'' = Inr (stringOfInt n)"
    "creatorCode ?x = Inr (rq_creatorCode r)" "stringValue ?x CREATED_AT_FIELD = Inr (rq_createdAt r)"
    "stringValue ?x ''request_type'' = Inr (requestTypeText (rq_requestType r))" "stringValue ?x ''run_id'' = Inr (rq_runId r)"
    "stringValue ?x ''reason'' = Inr (rq_reason r)" "stringValue ?x ''request_state'' = Inr (requestStateText (rq_requestState r))"
    "cancelRequested ?x = Inr (rq_cancelRequested r)"
    unfolding requestRecord_def by (intro get; simp add: names)+
  have options: "additiveOptionalString ?x ''network_id'' = Inr (rq_networkId r)"
    "additiveOptionalString ?x ''business_key'' = Inr (rq_businessKey r)"
    "additiveOptionalString ?x ''scheduled_for'' = Inr (rq_scheduledFor r)" "optionalString ?x ''rerun_from_node'' = Inr (rq_rerunFromNode r)"
    "optionalString ?x ''claimed_at'' = Inr (rq_claimedAt r)" "optionalString ?x ''claimed_host'' = Inr (rq_claimedHost r)"
    "optionalString ?x ''claim_heartbeat_at'' = Inr (rq_claimHeartbeatAt r)" "optionalString ?x ''result_code'' = Inr (rq_resultCode r)"
    "optionalString ?x ''result_message'' = Inr (rq_resultMessage r)"
    unfolding requestRecord_def by (intro get; simp add: names empty)+
  show ?thesis
    unfolding parseRequestFields_def texts options bindE_simps choice_def requestTypeText_from requestStateText_from option.case
      numberOfText_int [OF assms(1)]
    by (cases r) simp
qed

text \<open>
  C39: A request is read back exactly as it is stored: parsing the record of a request whose optional values are not empty texts
  gives the request, when it is valid, and otherwise throws exactly the issues of the validation.
\<close>

theorem stored_request_read_back:
  assumes "0 \<le> n" "rq_revision r = Finite (of_int n)" "noEmptyTexts r"
  shows "parseRequestRecord (requestRecord n r) =
    (if validateRequestRecord r = [] then Inr r else Inl (RequestValidationError (validateRequestRecord r)))"
proof -
  have "r\<lparr>rq_revision := Finite (of_int n)\<rparr> = r" using assms(2) by (cases r) simp
  then show ?thesis using requestRecord_fields [OF assms(1,3)] by (simp add: parseRequestRecord_def Let_def)
qed

definition sampleRequest :: request_record where
  "sampleRequest = \<lparr> rq_id = ''7'', rq_revision = Finite 3, rq_creatorCode = ''ops'', rq_createdAt = ''2026-09-01T00:00:00Z'',
     rq_requestType = Rerun, rq_runId = ''run-1'', rq_networkId = None, rq_businessKey = None, rq_scheduledFor = None,
     rq_rerunFromNode = Some ''load'', rq_reason = ''fixed'', rq_requestState = Requested, rq_cancelRequested = False,
     rq_claimedAt = None, rq_claimedHost = None, rq_claimHeartbeatAt = None, rq_resultCode = None, rq_resultMessage = None \<rparr>"

theorem stored_request_read_back_witness:
  "parseRequestRecord (requestRecord 3 sampleRequest) = Inr sampleRequest \<and>
   parseRequestRecord (requestRecord 3 (sampleRequest\<lparr>rq_requestState := Accepted\<rparr>)) =
     Inl (RequestValidationError [(''STATE_FIELDS_INVALID'', ''request_state'')])"
proof -
  have "validateRequestRecord sampleRequest = []"
    "validateRequestRecord (sampleRequest\<lparr>rq_requestState := Accepted\<rparr>) = [(''STATE_FIELDS_INVALID'', ''request_state'')]"
    by code_simp+
  moreover have "noEmptyTexts sampleRequest" "noEmptyTexts (sampleRequest\<lparr>rq_requestState := Accepted\<rparr>)"
    "rq_revision sampleRequest = Finite (of_int 3)"
    by (simp_all add: noEmptyTexts_def sampleRequest_def)
  ultimately show ?thesis
    using stored_request_read_back [of 3 sampleRequest] stored_request_read_back [of 3 "sampleRequest\<lparr>rq_requestState := Accepted\<rparr>"]
    by simp
qed

section \<open>Results of children\<close>

text \<open>
  What a child must have printed for a request to be DONE: for a rerun a valid result that names an Invocation or says that
  nothing was to be done, for a start the same, but with the run where nothing was to be done, for a hold or release just the
  exit code 0, and for a close a complete, valid result with its expected exit code that says that the run is archived.
\<close>

definition printed :: "child_output \<Rightarrow> bool" where
  "printed i \<longleftrightarrow> i = printedJson (co_process i)"

definition runEvidence :: "child_output \<Rightarrow> bool" where
  "runEvidence i \<longleftrightarrow> validRunNetworkOutput (co_output i) \<and>
     (outputText (co_output i) ''invocation_id'' \<noteq> None \<or> outputText (co_output i) ''outcome'' = Some ''NOOP'')"

definition startEvidence :: "child_output \<Rightarrow> bool" where
  "startEvidence i \<longleftrightarrow> validRunNetworkOutput (co_output i) \<and>
     (outputText (co_output i) ''invocation_id'' \<noteq> None \<or>
      outputText (co_output i) ''outcome'' = Some ''NOOP'' \<and> outputText (co_output i) ''run_id'' \<noteq> None)"

definition cancelEvidence :: "child_result \<Rightarrow> bool" where
  "cancelEvidence p \<longleftrightarrow> cx_spawnError p = None \<and> cx_exitCode p = Some 0"

definition archiveEvidence :: "child_output \<Rightarrow> bool" where
  "archiveEvidence i \<longleftrightarrow> validArchiveRunOutput (co_output i) \<and>
     outputText (co_output i) ''outcome'' \<in> {Some ''ARCHIVED'', Some ''ALREADY_ARCHIVED''} \<and>
     cx_spawnError (co_process i) = None \<and> \<not> cx_stdoutTruncated (co_process i) \<and> \<not> cx_stderrTruncated (co_process i) \<and>
     cx_exitCode (co_process i) = Some (expectedArchiveExitCode (co_output i))"

lemma rerun_done: "rr_state (classifyRunNetworkResult i) = Done \<longleftrightarrow> runEvidence i"
  by (auto simp: classifyRunNetworkResult_def runEvidence_def doneResult_def rejectedResult_def spawnFailed_def noRunOutput_def Let_def)

lemma start_done: "rr_state (classifyStartNetworkResult i) = Done \<longleftrightarrow> startEvidence i"
  using rerun_done [of i] by (simp add: runEvidence_def startEvidence_def classifyStartNetworkResult_def doneResult_def
      rejectedResult_def spawnFailed_def noRunOutput_def rejectedStart_def Let_def)

lemma cancel_done: "rr_state (classifyCancelResult p release) = Done \<longleftrightarrow> cancelEvidence p"
  by (simp add: classifyCancelResult_def cancelEvidence_def doneResult_def rejectedResult_def spawnFailed_def)

lemma archive_done: "rr_state (classifyArchiveRun i) = Done \<longleftrightarrow> archiveEvidence i"
proof -
  have "rr_state (archiveVerdict v) = Done \<longleftrightarrow> outputText v ''outcome'' \<in> {Some ''ARCHIVED'', Some ''ALREADY_ARCHIVED''}" for v
    by (simp add: archiveVerdict_def doneResult_def rejectedResult_def Let_def)
  then show ?thesis by (auto simp: classifyArchiveRun_def archiveEvidence_def rejectedResult_def Let_def)
qed

section \<open>Output of children\<close>

text \<open>What a process wrote to one of its streams before it closed.\<close>

fun stdoutOf :: "child_event list \<Rightarrow> string" where
  "stdoutOf [] = []"
| "stdoutOf (ProcessClose _ # _) = []"
| "stdoutOf (StdoutData chunk # events) = chunk @ stdoutOf events"
| "stdoutOf (_ # events) = stdoutOf events"

fun stderrOf :: "child_event list \<Rightarrow> string" where
  "stderrOf [] = []"
| "stderrOf (ProcessClose _ # _) = []"
| "stderrOf (StderrData chunk # events) = chunk @ stderrOf events"
| "stderrOf (_ # events) = stderrOf events"

text \<open>A collected stream: the first bytes of what was written, and cut only if it is full.\<close>

definition bounded_stream :: "nat \<Rightarrow> string \<Rightarrow> string \<Rightarrow> bool \<Rightarrow> bool" where
  "bounded_stream limit written v truncated \<longleftrightarrow>
     v = take limit written \<and> (limit < length written \<longrightarrow> truncated) \<and> (truncated \<longrightarrow> limit \<le> length written)"

lemma appendBounded_stream:
  assumes "bounded_stream limit w v b" "appendBounded v chunk limit = (v', full)"
  shows "bounded_stream limit (w @ chunk) v' (b \<or> full)"
  using assms by (auto simp: bounded_stream_def appendBounded_def Let_def split: if_splits)

lemma processError_streams [simp]:
  "cx_stdout (hearChild limit (ProcessError code) c) = cx_stdout c" "cx_stderr (hearChild limit (ProcessError code) c) = cx_stderr c"
  "cx_stdoutTruncated (hearChild limit (ProcessError code) c) = cx_stdoutTruncated c"
  "cx_stderrTruncated (hearChild limit (ProcessError code) c) = cx_stderrTruncated c"
  by (simp_all add: hearChild_def)

lemma collectChild_streams:
  assumes "bounded_stream limit w (cx_stdout c) (cx_stdoutTruncated c)" "bounded_stream limit w' (cx_stderr c) (cx_stderrTruncated c)"
    and "collectChild limit events c = Some d"
  shows "bounded_stream limit (w @ stdoutOf events) (cx_stdout d) (cx_stdoutTruncated d) \<and>
    bounded_stream limit (w' @ stderrOf events) (cx_stderr d) (cx_stderrTruncated d)"
  using assms
proof (induction events arbitrary: c w w')
  case (Cons event events)
  note limits = Cons.prems(1,2) and IH = Cons.IH
  show ?case
  proof (cases event)
    case (StdoutData chunk)
    obtain v full where v: "appendBounded (cx_stdout c) chunk limit = (v, full)" by fastforce
    from appendBounded_stream [OF limits(1) v] limits(2) v Cons.prems(3) StdoutData
      IH [of "w @ chunk" "hearChild limit (StdoutData chunk) c" w'] show ?thesis by (simp add: hearChild_def)
  next
    case (StderrData chunk)
    obtain v full where v: "appendBounded (cx_stderr c) chunk limit = (v, full)" by fastforce
    from appendBounded_stream [OF limits(2) v] limits(1) v Cons.prems(3) StderrData
      IH [of w "hearChild limit (StderrData chunk) c" "w' @ chunk"] show ?thesis by (simp add: hearChild_def)
  next
    case (ProcessError code)
    with limits Cons.prems(3) IH [of w "hearChild limit (ProcessError code) c" w'] show ?thesis by simp
  next
    case (ProcessClose code)
    with limits Cons.prems(3) show ?thesis by (auto simp: hearChild_def)
  qed
qed simp

text \<open>
  C40: The output of a child never exceeds its limit: each stream holds the first bytes of what the process wrote to it before it
  closed, it is marked as cut whenever bytes were dropped, and it is never so marked below the limit.
\<close>

theorem child_output_bounded:
  assumes "executeChild decode limit events = Some c"
  shows "\<exists>out err. cx_stdout c = decode out \<and> cx_stderr c = decode err \<and> length out \<le> limit \<and> length err \<le> limit \<and>
    bounded_stream limit (stdoutOf events) out (cx_stdoutTruncated c) \<and>
    bounded_stream limit (stderrOf events) err (cx_stderrTruncated c)"
proof -
  from assms obtain d where d: "collectChild limit events silentChild = Some d"
    and c: "c = d\<lparr> cx_stdout := decode (cx_stdout d), cx_stderr := decode (cx_stderr d) \<rparr>"
    by (auto simp: executeChild_def)
  have "bounded_stream limit [] (cx_stdout silentChild) (cx_stdoutTruncated silentChild)"
    "bounded_stream limit [] (cx_stderr silentChild) (cx_stderrTruncated silentChild)"
    by (simp_all add: bounded_stream_def silentChild_def)
  from collectChild_streams [OF this d] c show ?thesis
    by (intro exI [of _ "cx_stdout d"] exI [of _ "cx_stderr d"]) (simp add: bounded_stream_def)
qed

text \<open>Five bytes where four are allowed, and a byte after the end that is not heard.\<close>

theorem child_output_bounded_witness:
  "\<exists>c. executeChild id 4 [StdoutData ''abc'', StderrData ''x'', StdoutData ''de'', ProcessClose (Some 0), StdoutData ''f''] = Some c \<and>
     bounded_stream 4 ''abcde'' (cx_stdout c) (cx_stdoutTruncated c) \<and> cx_stdout c = ''abcd''"
proof -
  let ?e = "[StdoutData ''abc'', StderrData ''x'', StdoutData ''de'', ProcessClose (Some 0), StdoutData ''f'']"
  obtain c where c: "executeChild id 4 ?e = Some c" "cx_stdout c = ''abcd''"
    by (simp add: executeChild_def hearChild_def appendBounded_def silentChild_def)
  from child_output_bounded [OF c(1)] c show ?thesis by auto
qed

section \<open>Correlations\<close>

text \<open>The encoding of one character: no other character's encoding begins with it.\<close>

lemma upperHex_inject: "i < 16 \<Longrightarrow> j < 16 \<Longrightarrow> upperHex i = upperHex j \<longleftrightarrow> i = j"
proof
  have code: "(of_char (upperHex k) :: nat) = (if k < 10 then 48 + k else 55 + k)" if "k < 16" for k
    using that by (simp add: upperHex_def)
  assume i: "i < 16" and j: "j < 16" and eq: "upperHex i = upperHex j"
  have "(if i < 10 then 48 + i else 55 + i) = (if j < 10 then 48 + j else 55 + j)"
    using code [OF i] code [OF j] unfolding eq by (rule trans [OF sym])
  with i j show "i = j" by (simp split: if_split_asm)
qed simp

lemma char_div: "(of_char c :: nat) div 64 < 4"
  using less_mult_imp_div_less [of "of_char c" 4 64] nat_of_char_less_256 [of c] by simp

lemma percentByte_inject: "m < 256 \<Longrightarrow> n < 256 \<Longrightarrow> percentByte m @ r = percentByte n @ r' \<longleftrightarrow> m = n \<and> r = r'"
proof -
  assume mn: "m < 256" "n < 256"
  then have "m div 16 < 16" "n div 16 < 16" by simp_all
  then have "percentByte m @ r = percentByte n @ r' \<longleftrightarrow> m div 16 = n div 16 \<and> m mod 16 = n mod 16 \<and> r = r'"
    by (simp add: percentByte_def upperHex_inject)
  then show ?thesis by (metis div_mult_mod_eq)
qed

lemma encodeChar_cases:
  obtains "isUnreserved c" "encodeChar c = [c]" "c \<noteq> CHR ''%''"
  | "(of_char c :: nat) < 128" "encodeChar c = percentByte (of_char c)"
  | "128 \<le> (of_char c :: nat)"
    "encodeChar c = percentByte (192 + of_char c div 64) @ percentByte (128 + of_char c mod 64)"
proof (cases "isUnreserved c")
  case True
  then have "c \<noteq> CHR ''%''" by (auto simp: isUnreserved_def Let_def)
  with True that(1) show thesis by (simp add: encodeChar_def)
next
  case False
  have lt: "(of_char c :: nat) < 256" by (rule nat_of_char_less_256)
  have byte: "192 + (of_char c :: nat) div 64 < 256" "128 + (of_char c :: nat) mod 64 < 256" using char_div [of c] by simp_all
  show thesis
  proof (cases "(of_char c :: nat) < 128")
    case True
    with False that(2) show thesis by (simp add: encodeChar_def utf8Char_def)
  next
    case ge: False
    have "(of_char c :: nat) < 2048" using lt by linarith
    with ge False byte that(3) show thesis by (simp add: encodeChar_def utf8Char_def)
  qed
qed

lemma encodeChar_prefix_free: "encodeChar c @ r = encodeChar d @ r' \<Longrightarrow> c = d \<and> r = r'"
proof -
  assume eq: "encodeChar c @ r = encodeChar d @ r'"
  have lt: "(of_char x :: nat) < 256" for x :: char by (rule nat_of_char_less_256)
  have byte: "192 + (of_char x :: nat) div 64 < 256" "128 + (of_char x :: nat) mod 64 < 256" for x :: char
    using char_div [of x] by simp_all
  have head: "percentByte n @ s \<noteq> x # s'" if "x \<noteq> CHR ''%''" for n s x s'
    using that by (simp add: percentByte_def)
  have whole: "(of_char c :: nat) = of_char d" if "(of_char c :: nat) div 64 = of_char d div 64" "(of_char c :: nat) mod 64 = of_char d mod 64"
    using that by (metis div_mult_mod_eq)
  show ?thesis
    by (cases c rule: encodeChar_cases; cases d rule: encodeChar_cases)
      (use eq head head [symmetric] lt byte whole in \<open>auto simp: percentByte_inject\<close>)
qed

lemma encodeURIComponent_inject: "encodeURIComponent s = encodeURIComponent t \<Longrightarrow> s = t"
proof (induction s arbitrary: t)
  case Nil
  have "encodeChar c \<noteq> []" for c by (cases c rule: encodeChar_cases) (simp_all add: percentByte_def)
  with Nil show ?case by (cases t) (auto simp: encodeURIComponent_def)
next
  case (Cons c s)
  have "encodeChar c \<noteq> []" by (cases c rule: encodeChar_cases) (simp_all add: percentByte_def)
  with Cons.prems obtain d t' where t: "t = d # t'" by (cases t) (auto simp: encodeURIComponent_def)
  with Cons.prems have "encodeChar c @ encodeURIComponent s = encodeChar d @ encodeURIComponent t'"
    by (simp add: encodeURIComponent_def)
  from encodeChar_prefix_free [OF this] Cons.IH t show ?case by blast
qed

text \<open>
  The correlation value handed to a child names one request and one creator: it is at most 1024 characters long, and two
  requests with decimal ids have the same value only if both their ids and their creators are the same.
\<close>

theorem correlation_identifies:
  assumes "requestedBy i creator = Inr v" "requestedBy j other = Inr v" "decimalId i" "decimalId j"
  shows "length v \<le> REQUESTED_BY_MAX_LENGTH \<and> i = j \<and> creator = other"
proof -
  have colon: "CHR '':'' \<notin> set x" if "decimalId x" for x
    using that by (auto simp: decimalId_def list_all_iff isDigit_def)
  from assms(1,2) have v: "length v \<le> REQUESTED_BY_MAX_LENGTH"
    "i @ CHR '':'' # encodeURIComponent creator = j @ CHR '':'' # encodeURIComponent other"
    by (auto simp: requestedBy_def Let_def split: if_splits)
  from append_sep_inject [OF v(2)] colon assms(3,4) v(1) encodeURIComponent_inject show ?thesis by blast
qed

text \<open>A creator with a colon and an umlaut.\<close>

theorem correlation_identifies_witness:
  "\<exists>v. requestedBy ''12'' [CHR ''a'', CHR '':'', CHR 0xFC] = Inr v \<and> length v = 25"
proof -
  let ?v = "''app-request:12:a%3A%C3%BC''"
  have v: "requestedBy ''12'' [CHR ''a'', CHR '':'', CHR 0xFC] = Inr ?v" by code_simp
  moreover have "decimalId ''12''" by code_simp
  ultimately have "length ?v \<le> REQUESTED_BY_MAX_LENGTH" using correlation_identifies [OF v v] by blast
  with v show ?thesis by simp
qed

section \<open>Starts\<close>

text \<open>The business key that the started command resolves from the input it is given.\<close>

definition keyOfInput :: "'s start_env \<Rightarrow> network_definition \<Rightarrow> start_input \<Rightarrow> business_key_result" where
  "keyOfInput E d i = resolveBusinessKey (se_parseDate E) (nf_zoneKnown (se_files E)) (se_calendar E)
     (startKeyInput d (si_businessKey i) (si_scheduledFor i))"

definition acceptedDefinition :: "(string \<Rightarrow> bool) \<Rightarrow> network_definition \<Rightarrow> bool" where
  "acceptedDefinition zoneKnown d \<longleftrightarrow> semanticErrors zoneKnown d = [] \<and> (\<forall>n \<in> set (nd_nodes d). nn_idempotent n)"

lemma startableDefinition_Inr:
  assumes "startableDefinition network loaded = Inr d"
  shows "nv_definition loaded = Some d" "nv_errors loaded = []" "nd_network_id d = pn_networkId network"
    "\<forall>n \<in> set (nd_nodes d). nn_idempotent n"
  using assms by (auto simp: startableDefinition_def list_ex_iff split: if_splits option.splits)

lemma startKeyOf_Inr:
  assumes "startKeyOf E d key scheduledFor = Inr k"
  shows "keyOfInput E d \<lparr> si_businessKey = key, si_scheduledFor = scheduledFor \<rparr> = \<lparr> br_businessKey = Some k, br_errors = [] \<rparr>"
proof -
  let ?r = "resolveBusinessKey (se_parseDate E) (nf_zoneKnown (se_files E)) (se_calendar E) (startKeyInput d key scheduledFor)"
  from assms have "br_businessKey ?r = Some k" "br_errors ?r = []"
    by (auto simp: startKeyOf_def Let_def split: option.splits if_splits)
  then show ?thesis by (simp add: keyOfInput_def)
qed

lemma explicit_key:
  assumes "nd_business_key_policy d = Explicit" "startKeyOf E d (Some key) None = Inr k"
  shows "k = key"
  using assms startKeyOf_Inr [OF assms(2)]
  by (simp add: keyOfInput_def resolveBusinessKey_def startKeyInput_def keyResult_def split: if_splits)

lemma prepared_input:
  assumes "(if nd_business_key_policy d = Explicit then prepareExplicit E d r else prepareScheduled E d r) = Inr v"
  shows "ps_definition v = d \<and> keyOfInput E d (ps_input v) = \<lparr> br_businessKey = Some (ps_businessKey v), br_errors = [] \<rparr>"
proof (cases "nd_business_key_policy d = Explicit")
  case True
  with assms obtain key k where k: "rq_businessKey r = Some key" "startKeyOf E d (Some key) None = Inr k"
    "v = \<lparr> ps_definition = d, ps_businessKey = k, ps_input = \<lparr> si_businessKey = Some k, si_scheduledFor = None \<rparr> \<rparr>"
    by (auto simp: prepareExplicit_def bindE_Inr_iff split: if_splits)
  with explicit_key [OF True k(2)] startKeyOf_Inr [OF k(2)] show ?thesis by simp
next
  case False
  with assms obtain t instant k where k: "startKeyOf E d (rq_businessKey r) (Some (se_isoText E instant)) = Inr k"
    "v = \<lparr> ps_definition = d, ps_businessKey = k,
       ps_input = \<lparr> si_businessKey = rq_businessKey r, si_scheduledFor = Some (se_isoText E instant) \<rparr> \<rparr>"
    by (auto simp: prepareScheduled_def bindE_Inr_iff Let_def split: if_splits option.splits)
  with startKeyOf_Inr [OF k(1)] show ?thesis by simp
qed

text \<open>
  C38: A START is prepared only for what may be started. The file of the allowlisted network is read in this very call, its text
  is YAML without errors whose value passes the schema and is the definition that is used; that definition names the allowlisted
  network, has no semantic error and only idempotent nodes; the key is a valid business key; and the input handed to the child
  resolves to that same key under the key policy of the definition.
\<close>

theorem prepared_start_is_checked:
  assumes "prepareStartRequest E network r s = (Inr (Inr v), t)"
  shows "(\<exists>source. nf_readFile (se_files E) (pn_definitionPath network) s = (Inr source, t) \<and>
      readsAs (se_files E) source (ps_definition v)) \<and>
    nd_network_id (ps_definition v) = pn_networkId network \<and>
    acceptedDefinition (nf_zoneKnown (se_files E)) (ps_definition v) \<and>
    ps_businessKey v \<noteq> [] \<and> length (ps_businessKey v) \<le> MAX_BUSINESS_KEY_LENGTH \<and> \<not> hasControlCharacter (ps_businessKey v) \<and>
    keyOfInput E (ps_definition v) (ps_input v) = \<lparr> br_businessKey = Some (ps_businessKey v), br_errors = [] \<rparr>"
proof -
  from assms obtain loaded d where l: "loadNetworkDefinition (se_files E) (pn_definitionPath network) s = (Inr loaded, t)"
    and d: "startableDefinition network loaded = Inr d"
    and v: "(if nd_business_key_policy d = Explicit then prepareExplicit E d r else prepareScheduled E d r) = Inr v"
    unfolding prepareStartRequest_def bindP_Inr_iff by (auto simp: bindE_Inr_iff)
  note start = startableDefinition_Inr [OF d]
  note input = prepared_input [OF v]
  note source = loaded_is_accepted [OF l start(1,2)]
  have "wellformedResult (keyOfInput E d (ps_input v))"
    unfolding keyOfInput_def by (rule resolved_key_wellformed)
  with start(3,4) input source show ?thesis
    by (auto simp: acceptedDefinition_def wellformedResult_def)
qed

text \<open>A network of two nodes with an explicit key.\<close>

definition sampleNodeJson :: "string \<Rightarrow> string list \<Rightarrow> json" where
  "sampleNodeJson i deps = JObj [(''id'', JStr i), (''job_id'', JStr i), (''sql'', JStr (i @ ''.sql'')), (''depends_on'', jsonStrings deps),
     (''trigger_rule'', JStr ''all_success''), (''idempotent'', JBool True)]"

definition sampleNetworkJson :: json where
  "sampleNetworkJson = JObj [(''schema_version'', jsonInt 1), (''network_id'', JStr ''sales''),
     (''business_key_policy'', JObj [(''type'', JStr ''explicit'')]),
     (''network_lock'', JObj [(''lease_duration_sec'', jsonInt 300), (''heartbeat_interval_sec'', jsonInt 60)]),
     (''nodes'', JArr [sampleNodeJson ''extract'' [], sampleNodeJson ''load'' [''extract'']])]"

definition sampleFiles :: "'s network_files" where
  "sampleFiles = \<lparr> nf_readFile = retP, nf_yaml = (\<lambda>_. \<lparr> yd_errors = [], yd_value = Inr sampleNetworkJson \<rparr>), nf_schema = (\<lambda>_. []),
     nf_zoneKnown = (\<lambda>_. True), nf_sqlPath = (\<lambda>_ sql. sql), nf_readable = (\<lambda>_. retP True) \<rparr>"

definition sampleStart :: "'s start_env" where
  "sampleStart = \<lparr> se_files = sampleFiles, se_parseDate = (\<lambda>_. Some 0), se_calendar = (\<lambda>_ _. None),
     se_isoText = (\<lambda>_. ''2026-09-01T00:00:00.000Z'') \<rparr>"

definition salesNetwork :: poll_network where
  "salesNetwork = \<lparr> pn_networkId = ''sales'', pn_definitionPath = ''/etc/sales.yaml'', pn_appStart = True \<rparr>"

definition startRequest :: request_record where
  "startRequest = sampleRequest\<lparr> rq_requestType := Start, rq_runId := [], rq_networkId := Some ''sales'',
     rq_businessKey := Some ''2026-09'', rq_rerunFromNode := None \<rparr>"

theorem prepared_start_is_checked_witness:
  "\<exists>v. prepareStartRequest sampleStart salesNetwork startRequest () = (Inr (Inr v), ()) \<and> ps_businessKey v = ''2026-09'' \<and>
     readsAs (sampleFiles :: unit network_files) ''/etc/sales.yaml'' (ps_definition v) \<and> strictNodes (nd_nodes (ps_definition v))"
proof -
  let ?r = "prepareStartRequest sampleStart salesNetwork startRequest ()"
  have run: "case ?r of (Inr (Inr v), u) \<Rightarrow> ps_businessKey v = ''2026-09'' | _ \<Rightarrow> False"
    by code_simp
  then obtain v where v: "?r = (Inr (Inr v), ())" "ps_businessKey v = ''2026-09''" by (auto split: prod.splits sum.splits)
  from prepared_start_is_checked [OF v(1)]
  have "acceptedDefinition (\<lambda>_. True) (ps_definition v)" "readsAs (sampleFiles :: unit network_files) ''/etc/sales.yaml'' (ps_definition v)"
    by (auto simp: sampleStart_def sampleFiles_def salesNetwork_def retP_def)
  with v show ?thesis by (auto simp: acceptedDefinition_def validation_accepted)
qed

end
