(* ===== verification/PollerProps.thy ===== *)
theory PollerProps
  imports PollerCommands RequestProps
begin

text \<open>
  The poller among other pollers and users of the request app: it moves requests only along their life cycle, a request is
  claimed or cancelled by one of them only, what a malformed record does to a whole turn, and which commands are started.
\<close>

section \<open>The life cycle\<close>

text \<open>
  C32: Whatever other pollers and users write to the records meanwhile, and however a turn of the poller ends, its own updates follow
  the state machine of requests: each update that takes effect claims, cancels or rejects a record that is REQUESTED, or beats
  for, completes or rejects a record that is ACCEPTED, at the moment it takes effect. The one exception is a DONE or REJECTED sent
  again right after the very same update was refused: it is written on the record whatever its state is. Of the app the theorem assumes
  that records stay and their revisions rise, that an update takes effect only on the revision it names, that a
  refusal by conflict changes nothing, and that a query answers with records of the moment that it selects.
\<close>

theorem poller_follows_life_cycle:
  assumes "logged_poller P view writes" "pollRequests P s = (r, t)"
  shows "records_evolve (view s) (view t) \<and> (\<exists>ws. writes t = writes s @ ws \<and> documented_writes None ws)"
  using guaranteesD [OF logged_poller.pollRequests_safe [OF assms(1)] assms(2)] by (simp add: poller_history_def)

definition storedFields :: "request_record \<Rightarrow> (string \<times> json) list" where
  "storedFields r = (case requestRecord 0 r of JObj fs \<Rightarrow> map (\<lambda>(k, v). (k, case jsonGet v ''value'' of Some x \<Rightarrow> x | None \<Rightarrow> JNull))
     (filter (\<lambda>(k, v). k \<noteq> ''$id'' \<and> k \<noteq> ''$revision'') fs) | _ \<Rightarrow> [])"

text \<open>A request to hold a run, in the app; the requester withdraws another one between two calls of the poller.\<close>

definition stopRequest :: request_record where
  "stopRequest = sampleRequest\<lparr> rq_requestType := Stop, rq_rerunFromNode := None \<rparr>"

definition sampleStatus :: json where
  "sampleStatus = JObj [(''runs'', JArr [JObj [(''run_id'', JStr ''run-1''), (''status'', JStr ''RUNNING''), (''hold'', JNull),
     (''activity'', JStr ''LIVE''), (''invocations'', JArr [])]]), (''lock'', JNull)]"

definition sampleWorld :: request_world where
  "sampleWorld = \<lparr> rw_rows = [(''7'', 3, storedFields stopRequest), (''8'', 1, storedFields stopRequest)],
     rw_edits = [None, Some (''8'', [(''request_state'', JStr ''CANCELLED'')])], rw_puts = [], rw_ran = [], rw_status = sampleStatus, rw_result = JNull \<rparr>"

text \<open>
  Others at work without any rule: the second request is cancelled before its claim, and the first one rejected right before its
  result is written.
\<close>

definition contestedWorld :: request_world where
  "contestedWorld = sampleWorld\<lparr> rw_edits := [None, Some (''8'', [(''request_state'', JStr ''CANCELLED'')]), None, None, None,
     Some (''7'', resultFields staleResult)] \<rparr>"

lemma contested_turn:
  "case pollRequests (appPoller False) contestedWorld of (r, t) \<Rightarrow>
     map (\<lambda>(i, fs, taken). (i, writtenState fs [], taken)) (rw_puts t) =
       [(''7'', ''ACCEPTED'', Some ''REQUESTED''), (''7'', [], Some ''ACCEPTED''), (''7'', ''DONE'', None),
        (''7'', ''DONE'', Some ''REJECTED''), (''8'', ''ACCEPTED'', None)] \<and> length (rw_ran t) = 2"
  by code_simp

theorem poller_follows_life_cycle_witness:
  "\<exists>r t. pollRequests (appPoller False) contestedWorld = (r, t) \<and> length (rw_puts t) = 5 \<and> documented_writes None (rw_puts t)"
proof -
  obtain r t where run: "pollRequests (appPoller False) contestedWorld = (r, t)" by fastforce
  have "rw_puts contestedWorld = []" by (simp add: contestedWorld_def sampleWorld_def)
  with poller_follows_life_cycle [OF app_poller run] have "documented_writes None (rw_puts t)" by simp
  moreover have "length (map (\<lambda>(i, fs, taken). (i, writtenState fs [], taken)) (rw_puts t)) = 5"
    using contested_turn run by simp
  ultimately show ?thesis using run by simp
qed

section \<open>Claims\<close>

lemma putUnlessConflict_Some: "putUnlessConflict S i n fs s = (Inr (Some m), t) \<Longrightarrow> storePut S i n fs s = (Inr m, t)"
proof -
  assume run: "putUnlessConflict S i n fs s = (Inr (Some m), t)"
  obtain p u where p: "storePut S i n fs s = (p, u)" by fastforce
  with run show ?thesis by (cases p) (auto simp: putUnlessConflict_def bindP_run split: if_splits)
qed

lemma claim_put:
  "claim S r host now s = (Inr (Some c), t) \<Longrightarrow> \<exists>m. storePut S (rq_id r) (rq_revision r) (claimFields host now) s = (Inr m, t)"
  by (auto simp: claim_def bindP_Inr_iff dest!: putUnlessConflict_Some split: if_splits)

lemma cancel_put:
  "cancelBeforeClaim S e result s = (Inr True, t) \<Longrightarrow> \<exists>m. storePut S (re_id e) (re_revision e) (resultFields result) s = (Inr m, t)"
  by (auto simp: cancelBeforeClaim_def bindP_Inr_iff dest!: putUnlessConflict_Some split: if_splits)

text \<open>
  C33: A request is handed out once: after a poller has claimed a request as it read it, no other poller that read the same revision
  claims it or cancels it, whatever happens in the meantime, and the request is never REQUESTED or CANCELLED again.
\<close>

theorem claim_once:
  assumes "request_app S view" "claim S r host now s = (Inr (Some c), t)" "requests_evolve (view t) (view u)"
    and "request_app S' view" "rq_id r' = rq_id r" "rq_revision r' = rq_revision r" "re_id e = rq_id r" "re_revision e = rq_revision r"
  shows "fst (claim S' r' host' now' u) \<noteq> Inr (Some d) \<and> fst (cancelBeforeClaim S' e result u) \<noteq> Inr True \<and>
    (\<exists>x. view u (rq_id r) = Some x \<and> stateOf x \<in> {''ACCEPTED'', ''DONE'', ''REJECTED''})"
proof (intro conjI)
  from claim_put [OF assms(2)] obtain m where put: "storePut S (rq_id r) (rq_revision r) (claimFields host now) s = (Inr m, t)" by blast
  have gone: "spent (view u) (rq_id r) (rq_revision r)" by (rule spent_stable [OF request_app.put_spends [OF assms(1) put] assms(3)])
  show "fst (claim S' r' host' now' u) \<noteq> Inr (Some d)"
    using claim_put [of S' r' host' now' u d] request_app.spent_refuses [OF assms(4)] gone assms(5,6) by (metis prod.collapse)
  show "fst (cancelBeforeClaim S' e result u) \<noteq> Inr True"
    using cancel_put [of S' e result u] request_app.spent_refuses [OF assms(4)] gone assms(7,8) by (metis prod.collapse)
  from request_app.update [OF assms(1) put] obtain v x y where y: "stateOf y = writtenState (claimFields host now) (stateOf x)"
    "requests_evolve (v(rq_id r \<mapsto> y)) (view t)" by blast
  then have "requests_evolve (v(rq_id r \<mapsto> y)) (view u)" using assms(3) requests_evolve_trans by blast
  moreover have "(v(rq_id r \<mapsto> y)) (rq_id r) = Some y" by simp
  ultimately obtain z where z: "view u (rq_id r) = Some z" "requests_move y z" unfolding requests_evolve_def by blast
  moreover have "stateOf y = ''ACCEPTED''" using y(1) by (simp add: writtenState_def claimFields_def textEntry_def sentText_def textOfJson_def)
  ultimately show "\<exists>x. view u (rq_id r) = Some x \<and> stateOf x \<in> {''ACCEPTED'', ''DONE'', ''REJECTED''}"
    by (auto simp: requests_move_def later_def)
qed

theorem claim_once_witness:
  "\<exists>c t. claim sampleStore stopRequest ''host-1'' ''2026-09-01T00:00:00.000Z'' sampleWorld = (Inr (Some c), t) \<and>
     fst (claim sampleStore stopRequest ''host-2'' ''2026-09-01T00:00:01.000Z'' t) \<noteq> Inr (Some c)"
proof -
  have "case claim sampleStore stopRequest ''host-1'' ''2026-09-01T00:00:00.000Z'' sampleWorld of (Inr (Some c), t) \<Rightarrow> True | _ \<Rightarrow> False"
    by code_simp
  then obtain c t where run: "claim sampleStore stopRequest ''host-1'' ''2026-09-01T00:00:00.000Z'' sampleWorld = (Inr (Some c), t)"
    by (auto split: prod.splits sum.splits option.splits)
  from claim_once [OF sample_request_app run requests_evolve_refl sample_request_app, of stopRequest "envelopeOf stopRequest"] run
  show ?thesis by (auto simp: envelopeOf_def)
qed

section \<open>A malformed record\<close>

lemma mapE_fails: "x \<in> set xs \<Longrightarrow> f x = Inl e \<Longrightarrow> \<exists>e'. mapE f xs = Inl e'"
proof (cases "mapE f xs")
  case (Inr ys)
  assume "x \<in> set xs" "f x = Inl e"
  moreover obtain k where "k < length xs" "xs ! k = x" using \<open>x \<in> set xs\<close> by (auto simp: in_set_conv_nth)
  ultimately show ?thesis using Inr by (auto simp: mapE_Inr list_all2_conv_all_nth)
qed simp

text \<open>
  C36: One ACCEPTED record that the poller cannot read ends every turn before any request is touched: the turn throws right after
  its two listings, so that no request is claimed, cancelled or recovered as long as the record stays as it is.
\<close>

theorem malformed_accepted_blocks_poll:
  assumes "listRequested (po_store P) s = (Inr listed, u)" "storeRecords (po_store P) (acceptedQuery (po_store P)) u = (Inr xs, t)"
    and "x \<in> set xs" "parseRequestRecord x = Inl e"
  shows "\<exists>e'. pollRequests P s = (Inl e', t)"
proof -
  obtain e' where "mapE parseRequestRecord xs = Inl e'" using mapE_fails [of x xs parseRequestRecord e] assms(3,4) by blast
  then have "recoverStale P u = (Inl e', t)" using assms(2) by (simp add: recoverStale_def listAccepted_def bindP_run)
  then show ?thesis using assms(1) by (simp add: pollRequests_def bindP_run)
qed

text \<open>A request that waits for its turn, and an accepted one whose time of the claim was deleted.\<close>

definition blockedWorld :: request_world where
  "blockedWorld = sampleWorld\<lparr> rw_rows := [(''7'', 3, storedFields stopRequest),
     (''8'', 2, (''request_state'', JStr ''ACCEPTED'') # storedFields stopRequest)], rw_edits := [] \<rparr>"

theorem malformed_accepted_blocks_poll_witness:
  "\<exists>e t. pollRequests samplePoller blockedWorld = (Inl e, t) \<and> rw_rows t = rw_rows blockedWorld"
proof -
  let ?xs = "requestAnswers (acceptedQuery sampleStore) (rw_rows blockedWorld)"
  have run: "case listRequested sampleStore blockedWorld of (Inr q, u) \<Rightarrow> length (qr_valid q) = 1 | _ \<Rightarrow> False"
    "case ?xs of [x] \<Rightarrow> (case parseRequestRecord x of Inl e \<Rightarrow> True | Inr r \<Rightarrow> False) | _ \<Rightarrow> False"
    by code_simp+
  have edits: "editWorld True blockedWorld = blockedWorld" by (simp add: editWorld_def blockedWorld_def)
  from run(1) obtain q where q: "listRequested sampleStore blockedWorld = (Inr q, blockedWorld)"
    using edits by (auto simp: listRequested_def bindP_run sample_records split: sum.splits)
  from run(2) obtain x e where x: "?xs = [x]" "parseRequestRecord x = Inl e" by (auto split: list.splits sum.splits)
  have store: "po_store samplePoller = sampleStore" by (simp add: samplePoller_def appPoller_def sampleStore_def)
  have "storeRecords sampleStore (acceptedQuery sampleStore) blockedWorld = (Inr ?xs, blockedWorld)"
    by (simp add: sample_records edits)
  from malformed_accepted_blocks_poll [of samplePoller, unfolded store, OF q this _ x(2)] x(1) show ?thesis by auto
qed

section \<open>A finished request\<close>

definition claimedStop :: request_record where
  "claimedStop = stopRequest\<lparr> rq_requestState := Accepted, rq_claimedAt := Some ''2026-09-01T00:00:00Z'',
     rq_claimedHost := Some ''host-1'', rq_claimHeartbeatAt := Some ''2026-09-01T00:00:00Z'' \<rparr>"

text \<open>
  A result is written over another one: the request was given up as STALE by another poller after it was read; the update is
  refused, the request read again, and written without a look at its state.
\<close>

definition givenUpWorld :: request_world where
  "givenUpWorld = sampleWorld\<lparr> rw_rows := [(''7'', 3, storedFields claimedStop)],
     rw_edits := [Some (''7'', resultFields staleResult)] \<rparr>"

lemma finished_result_overwritten:
  "case writeResult sampleStore claimedStop (doneResult ''RUN_ARCHIVED'' ''event'') givenUpWorld of (r, t) \<Rightarrow>
     (\<exists>c. r = Inr c) \<and> map_option stateOf (worldView (editWorld True givenUpWorld) ''7'') = Some ''REJECTED'' \<and>
     map_option stateOf (worldView t ''7'') = Some ''DONE''"
proof -
  have "case writeResult sampleStore claimedStop (doneResult ''RUN_ARCHIVED'' ''event'') givenUpWorld of (Inr c, t) \<Rightarrow>
     map_option stateOf (worldView (editWorld True givenUpWorld) ''7'') = Some ''REJECTED'' \<and>
     map_option stateOf (worldView t ''7'') = Some ''DONE'' | _ \<Rightarrow> False"
    by code_simp
  then show ?thesis by (auto split: prod.splits sum.splits)
qed

section \<open>Commands\<close>

text \<open>
  C35: A claimed request costs the status queries of the listed networks, in their order, and then at most one command, its own: the one
  of its type, with its run, its creator as the correlation and, unless it only holds or releases the run, a network of the list. A START asks nothing and runs only on a network
  that it names, that is listed and may be started by requests.
\<close>

theorem one_command_per_claim:
  assumes "recorded_poller P calls" "processClaimed P r s = (result, t)"
  shows "\<exists>cs. calls t = calls s @ cs \<and> claimCalls P r cs"
  using doesD [OF recorded_poller.processClaimed_does [OF assms(1)] assms(2)] .

theorem one_command_per_claim_witness:
  "\<exists>result t cs. processClaimed samplePoller claimedStop sampleWorld = (result, t) \<and> rw_ran t = cs \<and> length cs = 2 \<and>
     claimCalls samplePoller claimedStop cs"
proof -
  obtain result t where run: "processClaimed samplePoller claimedStop sampleWorld = (result, t)" by fastforce
  have "case processClaimed samplePoller claimedStop sampleWorld of (result, t) \<Rightarrow> length (rw_ran t) = 2" by code_simp
  with one_command_per_claim [OF sample_recorded run] run show ?thesis by (auto simp: sampleWorld_def)
qed



end
