(* ===== verification/PollerResults.thy ===== *)
theory PollerResults
  imports PollerProps
begin

text \<open>
  What a claimed request is DONE on: the way of \<open>processClaimed\<close> from the claim to the verdict, with the child whose output it
  rests on.
\<close>

section \<open>A fact about every element that is kept\<close>

lemma foldP_kept:
  assumes "foldP f xs a s = (Inr b, t)" "I a"
    and "\<And>x a s b t. x \<in> set xs \<Longrightarrow> I a \<Longrightarrow> f x a s = (Inr b, t) \<Longrightarrow> I b"
  shows "I b"
  using assms
proof (induction xs arbitrary: a s)
  case (Cons x xs)
  from Cons.prems(1) obtain c u where c: "f x a s = (Inr c, u)" "foldP f xs c u = (Inr b, t)" by (auto simp: bindP_Inr_iff)
  show ?case
  proof (rule Cons.IH [OF c(2)])
    show "I c" by (rule Cons.prems(3) [OF _ Cons.prems(2) c(1)]) simp
    show "\<And>y a s b t. y \<in> set xs \<Longrightarrow> I a \<Longrightarrow> f y a s = (Inr b, t) \<Longrightarrow> I b" by (rule Cons.prems(3)) simp_all
  qed
qed simp

lemma filterE_holds: "filterE f xs = Inr ys \<Longrightarrow> y \<in> set ys \<Longrightarrow> f y = Inr True"
  by (induction xs arbitrary: ys) (auto simp: bindE_Inr_iff split: if_splits)

lemma runsWhere_holds: "runsWhere status k v = Inr runs \<Longrightarrow> run \<in> set runs \<Longrightarrow> jsonGet run k = Some (JStr v)"
proof -
  assume runs: "runsWhere status k v = Inr runs" and run: "run \<in> set runs"
  let ?f = "\<lambda>run. bindE (property run k) (\<lambda>x. Inr (x = Some (JStr v)))"
  from runs obtain w where "(case w of Some (JArr xs) \<Rightarrow> filterE ?f xs | _ \<Rightarrow> Inl typeError) = Inr runs"
    unfolding runsWhere_def bindE_Inr_iff [of "property status ''runs''"] by blast
  then obtain xs where "filterE ?f xs = Inr runs" by (cases w) (auto simp del: filterE.simps split: json.splits)
  from filterE_holds [OF this run] show ?thesis by (auto simp: bindE_Inr_iff property_def split: if_splits)
qed

section \<open>The way to a verdict\<close>

text \<open>The one run of the listed networks that a status query reported under the id of the request, and its review.\<close>

definition reviewedRun :: "'s poller \<Rightarrow> request_record \<Rightarrow> 's \<Rightarrow> resolved_run \<Rightarrow> request_result option \<Rightarrow> 's \<Rightarrow> bool" where
  "reviewedRun P r s resolved review u \<longleftrightarrow> rn_network resolved \<in> set (po_networks P) \<and>
     jsonGet (rn_run resolved) ''run_id'' = Some (JStr (rq_runId r)) \<and>
     (\<exists>w now. resolveRun P (rq_runId r) s = (Inr [resolved], w) \<and> po_now P w = (Inr now, u) \<and>
       reviewRequest (se_parseDate (po_start P)) (rq_requestType r) (rn_status resolved) (rn_run resolved) now
         (po_stalePrecisionAllowanceMs P) = Inr review)"

text \<open>The command ran from \<open>u\<close> on and ended with an output that is the evidence; then only heartbeats followed.\<close>

definition endedOn :: "'s poller \<Rightarrow> request_record \<Rightarrow> 's \<Rightarrow> ('s, 'v) prog \<Rightarrow> ('v \<Rightarrow> bool) \<Rightarrow> request_record \<Rightarrow> 's \<Rightarrow> bool" where
  "endedOn P r u command evidence c t \<longleftrightarrow>
     (\<exists>v w. command u = (Inr v, w) \<and> evidence v \<and> heartbeats P (po_ticks P u) r w = (Inr c, t))"

lemma withHeartbeat_ended:
  assumes "withHeartbeat P r command classify s = (Inr (c, result), t)" "rr_state result = Done"
    and "\<And>v u. command s = (Inr v, u) \<Longrightarrow> rr_state (classify v) = Done \<Longrightarrow> evidence v"
  shows "endedOn P r s command evidence c t"
proof -
  from assms(1) obtain child w where run: "attemptP command s = (Inr child, w)" "heartbeats P (po_ticks P s) r w = (Inr c, t)"
    "result = (case child of Inr v \<Rightarrow> classify v
      | Inl _ \<Rightarrow> rejectedResult ''CHILD_EXECUTION_FAILED'' ''child execution failed before a result was available'')"
    unfolding withHeartbeat_def bindP_Inr_iff by auto
  with assms(2) obtain v where v: "child = Inr v" "rr_state (classify v) = Done"
    by (cases child) (auto simp: rejectedResult_def)
  have "command s = (Inr v, w)" using run(1) v(1) by (cases "command s") auto
  with assms(3) v(2) run(2) show ?thesis unfolding endedOn_def by blast
qed

lemma children_print:
  "childRunNetwork C network r s = (Inr v, t) \<Longrightarrow> printed v" "childStartNetwork C network r i s = (Inr v, t) \<Longrightarrow> printed v"
  by (auto simp: childRunNetwork_def childStartNetwork_def bindP_Inr_iff Let_def printed_def printedJson_def)

lemma finallyP_value: "finallyP m f s = (Inr v, t) \<Longrightarrow> \<exists>u. m s = (Inr v, u)"
  by (cases "m s") (auto simp: finallyP_def bindP_Inr_iff)

lemma archive_prints: "childArchiveRun C network r s = (Inr v, t) \<Longrightarrow> printed v"
proof -
  assume "childArchiveRun C network r s = (Inr v, t)"
  then obtain p where "v = printedJson p"
    unfolding childArchiveRun_def withReasonFile_def bindP_Inr_iff Let_def by (auto simp: bindP_Inr_iff dest!: finallyP_value)
  then show ?thesis by (simp add: printed_def printedJson_def)
qed

lemma resolved_facts:
  assumes "resolveRun P runId s = (Inr ms, t)" "m \<in> set ms"
  shows "rn_network m \<in> set (po_networks P) \<and> jsonGet (rn_run m) ''run_id'' = Some (JStr runId)"
proof -
  let ?I = "\<lambda>ms. \<forall>m \<in> set ms. rn_network m \<in> set (po_networks P) \<and> jsonGet (rn_run m) ''run_id'' = Some (JStr runId)"
  have "?I ms"
  proof (rule foldP_kept [OF assms(1) [unfolded resolveRun_def]])
    fix network matches s found t
    assume network: "network \<in> set (po_networks P)" and matches: "?I matches"
      and run: "bindP (childStatus (po_child P) network (''--run-id'', runId)) (\<lambda>status.
        if status = JNull then retP matches
        else bindP (liftP (runsWhere status ''run_id'' runId)) (\<lambda>runs.
          retP (matches @ map (\<lambda>run. \<lparr> rn_network = network, rn_status = status, rn_run = run \<rparr>) runs))) s = (Inr found, t)"
    from run have "found = matches \<or> (\<exists>status runs. runsWhere status ''run_id'' runId = Inr runs \<and>
        found = matches @ map (\<lambda>run. \<lparr> rn_network = network, rn_status = status, rn_run = run \<rparr>) runs)"
      by (auto simp: bindP_Inr_iff split: if_splits)
    then show "?I found"
    proof (elim disjE exE conjE)
      fix status runs
      assume runs: "runsWhere status ''run_id'' runId = Inr runs"
        "found = matches @ map (\<lambda>run. \<lparr> rn_network = network, rn_status = status, rn_run = run \<rparr>) runs"
      show "?I found" using matches network runsWhere_holds [OF runs(1)] unfolding runs(2) by auto
    qed (use matches in simp)
  qed simp
  with assms(2) show ?thesis by blast
qed

lemma review_done:
  assumes "reviewRequest parseDate ty status run now allowance = Inr (Some result)" "rr_state result = Done"
  shows "ty = Close \<and> jsonGet run ''lifecycle_status'' = Some (JStr ''ARCHIVED'') \<and> rr_code result = ''RUN_ALREADY_ARCHIVED''"
  using assms
  by (cases ty) (auto simp: reviewRequest_def bindE_Inr_iff rerunReview_def stopReview_def closeReview_def Let_def
      rejectedResult_def doneResult_def split: if_splits)

lemma startKey_rejects: "startKeyOf E d key scheduledFor = Inl result \<Longrightarrow> rr_state result \<noteq> Done"
  by (auto simp: startKeyOf_def Let_def keyPolicyMismatch_def rejectedResult_def split: option.splits if_splits)

lemma prepared_not_done:
  "bindE (startableDefinition network loaded) (\<lambda>d.
     if nd_business_key_policy d = Explicit then prepareExplicit E d r else prepareScheduled E d r) = Inl result \<Longrightarrow>
   rr_state result \<noteq> Done"
  by (auto simp: bindE_Inl_iff startableDefinition_def prepareExplicit_def prepareScheduled_def Let_def keyPolicyMismatch_def
      rejectedResult_def dest!: startKey_rejects split: if_splits option.splits)

lemma prepared_rejected: "prepareStartRequest E network r s = (Inr (Inl result), t) \<Longrightarrow> rr_state result \<noteq> Done"
  by (auto simp: prepareStartRequest_def bindP_Inr_iff dest: prepared_not_done)

lemma start_backed:
  assumes "processStart P r s = (Inr (c, result), t)" "rr_state result = Done"
  shows "\<exists>network v w u. network \<in> set (po_networks P) \<and> rq_networkId r = Some (pn_networkId network) \<and> pn_appStart network \<and>
    prepareStartRequest (po_start P) network r w = (Inr (Inr v), u) \<and>
    endedOn P r u (childStartNetwork (po_child P) network r (ps_input v)) (\<lambda>i. printed i \<and> startEvidence i) c t"
proof -
  note rejects = rejectedResult_def startNetworkNotAllowed_def correlationInvalid_def
  from assms obtain network where network: "rq_networkId r = Some (pn_networkId network)" "network \<in> set (po_networks P)"
    "pn_appStart network"
    and run: "bindP (prepareStartRequest (po_start P) network r) (\<lambda>prepared. case prepared of
        Inl result \<Rightarrow> retP (r, result)
      | Inr _ \<Rightarrow>
          if correlationFails r then retP (r, correlationInvalid)
          else bindP (prepareStartRequest (po_start P) network r) (\<lambda>again. case again of
            Inl result \<Rightarrow> retP (r, result)
          | Inr v \<Rightarrow> withHeartbeat P r (childStartNetwork (po_child P) network r (ps_input v))
              classifyStartNetworkResult)) s = (Inr (c, result), t)"
    by (auto simp: processStart_def rejects find_Some_iff split: if_splits option.splits)
  have rejected: "rr_state x \<noteq> Done" if "prepareStartRequest (po_start P) network r s = (Inr (Inl x), u)" for x s u
    using prepared_rejected [OF that] .
  from run obtain prepared w where w: "prepareStartRequest (po_start P) network r s = (Inr prepared, w)"
    "(case prepared of
        Inl result \<Rightarrow> retP (r, result)
      | Inr _ \<Rightarrow>
          if correlationFails r then retP (r, correlationInvalid)
          else bindP (prepareStartRequest (po_start P) network r) (\<lambda>again. case again of
            Inl result \<Rightarrow> retP (r, result)
          | Inr v \<Rightarrow> withHeartbeat P r (childStartNetwork (po_child P) network r (ps_input v))
              classifyStartNetworkResult)) w = (Inr (c, result), t)"
    unfolding bindP_Inr_iff [of "prepareStartRequest (po_start P) network r" _ s] by blast
  with assms(2) rejected have "bindP (prepareStartRequest (po_start P) network r) (\<lambda>again. case again of
            Inl result \<Rightarrow> retP (r, result)
          | Inr v \<Rightarrow> withHeartbeat P r (childStartNetwork (po_child P) network r (ps_input v))
              classifyStartNetworkResult) w = (Inr (c, result), t)"
    by (cases prepared) (auto simp: rejects split: if_splits)
  then obtain again u where u: "prepareStartRequest (po_start P) network r w = (Inr again, u)"
    "(case again of Inl result \<Rightarrow> retP (r, result)
      | Inr v \<Rightarrow> withHeartbeat P r (childStartNetwork (po_child P) network r (ps_input v)) classifyStartNetworkResult) u =
        (Inr (c, result), t)"
    unfolding bindP_Inr_iff by blast
  with assms(2) rejected obtain v where v: "again = Inr v"
    "withHeartbeat P r (childStartNetwork (po_child P) network r (ps_input v)) classifyStartNetworkResult u = (Inr (c, result), t)"
    by (cases again) auto
  have "endedOn P r u (childStartNetwork (po_child P) network r (ps_input v)) (\<lambda>i. printed i \<and> startEvidence i) c t"
    by (rule withHeartbeat_ended [OF v(2) assms(2)]) (simp add: children_print start_done)
  with network u(1) v(1) show ?thesis by blast
qed

lemma command_backed:
  assumes "runRequest P r network s = (Inr (c, result), t)" "rr_state result = Done" "rq_requestType r \<noteq> Start"
  shows "(rq_requestType r = Rerun \<and> endedOn P r s (childRunNetwork (po_child P) network r) (\<lambda>i. printed i \<and> runEvidence i) c t) \<or>
    (rq_requestType r \<in> {Stop, Release} \<and>
      endedOn P r s (childCancelRun (po_child P) r (rq_requestType r = Release)) cancelEvidence c t) \<or>
    (rq_requestType r = Close \<and> endedOn P r s (childArchiveRun (po_child P) network r) (\<lambda>i. printed i \<and> archiveEvidence i) c t)"
proof -
  note ended = withHeartbeat_ended [OF _ assms(2)]
  show ?thesis
  proof (cases "rq_requestType r")
    case Rerun
    with assms(1) have "withHeartbeat P r (childRunNetwork (po_child P) network r) classifyRunNetworkResult s = (Inr (c, result), t)"
      by (simp add: runRequest_def)
    from ended [OF this] Rerun show ?thesis by (simp add: children_print rerun_done)
  next
    case Close
    with assms(1) have "withHeartbeat P r (childArchiveRun (po_child P) network r) classifyArchiveRun s = (Inr (c, result), t)"
      by (simp add: runRequest_def)
    from ended [OF this] Close show ?thesis by (simp add: archive_prints archive_done)
  next
    case Start
    with assms(3) show ?thesis by simp
  next
    case Stop
    with assms(1) have "withHeartbeat P r (childCancelRun (po_child P) r False) (\<lambda>p. classifyCancelResult p False) s = (Inr (c, result), t)"
      by (simp add: runRequest_def)
    from ended [OF this] Stop show ?thesis by (simp add: cancel_done)
  next
    case Release
    with assms(1) have "withHeartbeat P r (childCancelRun (po_child P) r True) (\<lambda>p. classifyCancelResult p True) s = (Inr (c, result), t)"
      by (simp add: runRequest_def)
    from ended [OF this] Release show ?thesis by (simp add: cancel_done)
  qed
qed

lemma resolved_done:
  assumes "processClaimed P r s = (Inr (c, result), t)" "rr_state result = Done" "rq_requestType r \<noteq> Start"
  obtains resolved w where "resolveRun P (rq_runId r) s = (Inr [resolved], w)" "reviewAndRun P r resolved w = (Inr (c, result), t)"
proof -
  let ?next = "\<lambda>found. case found of
        Inl _ \<Rightarrow> retP (r, rejectedResult ''STATUS_UNAVAILABLE'' ''Run status could not be verified'')
      | Inr [] \<Rightarrow> retP (r, rejectedResult ''RUN_NOT_FOUND'' ''Run was not found in the allowlist'')
      | Inr [resolved] \<Rightarrow> reviewAndRun P r resolved
      | Inr _ \<Rightarrow> retP (r, rejectedResult ''RUN_ID_AMBIGUOUS'' ''Run ID matched multiple allowed networks'')"
  have corr: "\<not> correlationFails r"
    using assms by (auto simp: processClaimed_def correlationInvalid_def rejectedResult_def)
  have "bindP (attemptP (resolveRun P (rq_runId r))) ?next s = (Inr (c, result), t)"
    using assms(1,3) corr by (simp add: processClaimed_def)
  then obtain found w where found: "attemptP (resolveRun P (rq_runId r)) s = (Inr found, w)"
    "?next found w = (Inr (c, result), t)"
    unfolding bindP_Inr_iff [of "attemptP (resolveRun P (rq_runId r))"] by blast
  with assms(2) obtain resolved where "found = Inr [resolved]" "reviewAndRun P r resolved w = (Inr (c, result), t)"
    by (auto simp: rejectedResult_def split: sum.splits list.splits)
  with found(1) that show thesis by (cases "resolveRun P (rq_runId r) s") auto
qed

section \<open>Evidence\<close>

text \<open>
  C37: A claimed request is DONE only on evidence. A CLOSE may be DONE at its review, without a child, when the one run with the
  id of the request that the status queries of the listed networks reported is ARCHIVED already. Every other DONE rests on the
  output that the command of the request really ended with in this call, on a network of the list, after its review had no
  objection: for a RERUN printed JSON that is valid and names an Invocation or says NOOP, for a STOP or RELEASE a started child that ended
  with 0, for a CLOSE complete printed JSON that is valid, says that the run is archived and fits the exit code. A START needs no
  run, but a listed network that it names and that may be started, an input prepared from the network file just before, and
  valid printed JSON that names an Invocation, or says NOOP and names the run.
\<close>

theorem done_results_are_backed:
  assumes "processClaimed P r s = (Inr (c, result), t)" "rr_state result = Done"
  shows "(rq_requestType r = Start \<and> (\<exists>network v w u. network \<in> set (po_networks P) \<and>
        rq_networkId r = Some (pn_networkId network) \<and> pn_appStart network \<and>
        prepareStartRequest (po_start P) network r w = (Inr (Inr v), u) \<and>
        endedOn P r u (childStartNetwork (po_child P) network r (ps_input v)) (\<lambda>i. printed i \<and> startEvidence i) c t)) \<or>
    (\<exists>resolved u. reviewedRun P r s resolved None u \<and>
      ((rq_requestType r = Rerun \<and>
          endedOn P r u (childRunNetwork (po_child P) (rn_network resolved) r) (\<lambda>i. printed i \<and> runEvidence i) c t) \<or>
       (rq_requestType r \<in> {Stop, Release} \<and>
          endedOn P r u (childCancelRun (po_child P) r (rq_requestType r = Release)) cancelEvidence c t) \<or>
       (rq_requestType r = Close \<and>
          endedOn P r u (childArchiveRun (po_child P) (rn_network resolved) r) (\<lambda>i. printed i \<and> archiveEvidence i) c t))) \<or>
    (\<exists>resolved. rq_requestType r = Close \<and> reviewedRun P r s resolved (Some result) t \<and> c = r \<and>
      jsonGet (rn_run resolved) ''lifecycle_status'' = Some (JStr ''ARCHIVED'') \<and> rr_code result = ''RUN_ALREADY_ARCHIVED'')"
proof (cases "rq_requestType r = Start")
  case True
  with assms have "processStart P r s = (Inr (c, result), t)" by (simp add: processClaimed_def)
  from start_backed [OF this assms(2)] True show ?thesis by blast
next
  case False
  from assms False obtain resolved w where found: "resolveRun P (rq_runId r) s = (Inr [resolved], w)"
    "reviewAndRun P r resolved w = (Inr (c, result), t)" by (rule resolved_done)
  then obtain now u review where review: "po_now P w = (Inr now, u)"
    "reviewRequest (se_parseDate (po_start P)) (rq_requestType r) (rn_status resolved) (rn_run resolved) now
       (po_stalePrecisionAllowanceMs P) = Inr review"
    "(case review of Some result \<Rightarrow> retP (r, result) | None \<Rightarrow> runRequest P r (rn_network resolved)) u = (Inr (c, result), t)"
    by (auto simp: reviewAndRun_def bindP_Inr_iff)
  have reviewed: "reviewedRun P r s resolved review u"
    using resolved_facts [OF found(1)] found(1) review(1,2) unfolding reviewedRun_def by auto
  show ?thesis
  proof (cases review)
    case None
    with review(3) have "runRequest P r (rn_network resolved) u = (Inr (c, result), t)" by simp
    from command_backed [OF this assms(2) False] reviewed None show ?thesis by blast
  next
    case (Some x)
    with review(3) have x: "x = result" "c = r" "t = u" by auto
    from review_done [OF review(2) [unfolded Some x(1)] assms(2)] reviewed Some x show ?thesis by blast
  qed
qed

text \<open>A run is held at the request of its user.\<close>

theorem done_results_are_backed_witness:
  "\<exists>c result t resolved u. processClaimed samplePoller claimedStop sampleWorld = (Inr (c, result), t) \<and>
     reviewedRun samplePoller claimedStop sampleWorld resolved None u \<and>
     endedOn samplePoller claimedStop u (childCancelRun (po_child samplePoller) claimedStop False) cancelEvidence c t"
proof -
  have "case processClaimed samplePoller claimedStop sampleWorld of (Inr (c, result), t) \<Rightarrow> rr_state result = Done | _ \<Rightarrow> False"
    by code_simp
  then obtain c result t where run: "processClaimed samplePoller claimedStop sampleWorld = (Inr (c, result), t)" "rr_state result = Done"
    by (auto split: prod.splits sum.splits)
  have "rq_requestType claimedStop = Stop" by (simp add: claimedStop_def stopRequest_def)
  with done_results_are_backed [OF run] run(1) show ?thesis by auto
qed

end
