(* ===== verification/Spec2Isabelle.thy ===== *)
theory Spec2Isabelle
  imports Keys DagProps StoreProps Cancel Orphan ReconciliationProps Archive LeaseMonitor LockRecovery DrainProps
    BusinessKey Preflight NetworkCommand KintoneProps PollerResults
begin

text \<open>
  A verification development for ksql-flownet, a tool that runs networks of kSQL-Flow jobs: a run of a network is a
  set of records in kintone apps, commands of operators and workers change these records, and a lock with a lease
  keeps two workers from driving the same network at once.

  \<^bold>\<open>The program and its model.\<close> Paths are below \<open>src/src/\<close>.
  \<^item> \<open>Model\<close>: the data of \<open>domain/persistence-model.ts\<close>, \<open>domain/network-definition.ts\<close> and
    \<open>persistence/repository.ts\<close>, the tables of \<open>persistence/state-transition.ts\<close> and \<open>domain/run-aggregate.ts\<close>.
    An interface is a record, an enumeration a datatype, a set of fields of an update a record of its own.
  \<^item> \<open>Prelude\<close> and \<open>Effects\<close>: JavaScript strings, maps and numbers, and programs: a program over a state \<open>'s\<close>
    is a function \<open>'s \<Rightarrow> (js_error + 'a) \<times> 's\<close>, an error is a value of \<open>js_error\<close>, a throw keeps the state. Local
    variables that a \<open>catch\<close> or \<open>finally\<close> block reads are a second component of the state.
  \<^item> \<open>Keys\<close> (\<open>domain/canonical-*-key.ts\<close>), \<open>BusinessKey\<close> (\<open>domain/business-key.ts\<close>), \<open>Dag\<close> (\<open>dag/\<close>),
    \<open>Json\<close> and \<open>InputBaseline\<close> (\<open>io/input-baseline.ts\<close>): pure functions.
  \<^item> \<open>Repository\<close>: the in-memory repository (\<open>persistence/in-memory-repository.ts\<close>), the store \<open>mem\<close>. All clients
    are written against the record \<open>'s repository\<close> of its methods, as the code is written against the interface.
  \<^item> \<open>KintoneCodec\<close>, \<open>KintoneRepository\<close>: the repository on kintone records (\<open>persistence/kintone/repository.ts\<close>), the second
    value of that record.
  \<^item> The clients of the store: \<open>Cancel\<close>, \<open>ResolveNode\<close>, \<open>Orphan\<close>, \<open>Reconciliation\<close>, \<open>Archive\<close>
    (\<open>orchestration/\<close>).
  \<^item> \<open>Kintone\<close>, \<open>NetworkLock\<close>, \<open>LeaseMonitor\<close>, \<open>LockRecovery\<close>: the REST client, the lock and its lease, and breaking
    a lock (\<open>persistence/\<close>).
  \<^item> \<open>JobLog\<close>, \<open>ResultClassifier\<close>, \<open>AttemptExecutor\<close>, \<open>Preflight\<close>: what the runner left behind, and one execution
    of a job (\<open>executor/\<close>).
  \<^item> \<open>Scheduler\<close>, \<open>SchedulerRun\<close>: one invocation of a run (\<open>orchestration/sequential-scheduler.ts\<close>);
    \<open>EnsureRun\<close>: how an invocation starts (\<open>orchestration/ensure-run.ts\<close>); \<open>RunNetwork\<close>: the command that
    composes them (\<open>cli/run-network-command.ts\<close>).
  \<^item> \<open>NetworkValidation\<close>: reading and validating a network file (\<open>domain/load-network.ts\<close>, \<open>validate-network.ts\<close>,
    \<open>validate-network-path.ts\<close>).
  \<^item> \<open>Requests\<close>, \<open>RequestStore\<close>, \<open>RequestResult\<close>, \<open>RequestChild\<close>, \<open>StartRequest\<close>, \<open>RequestPoller\<close>, \<open>PollConfig\<close>
    (\<open>requests/\<close>): the requests of users in a kintone app, and the poller that claims them, runs their commands as child
    processes and writes their results.

  \<^bold>\<open>Parameters.\<close> What is not in the repository is an argument of the model: kintone's answers (\<open>fetch\<close>), the child
  process, files, SHA-256 (\<open>digest\<close>, of which the keys need that its text has 43 characters), \<open>localeCompare\<close>
  (\<open>collate\<close>), \<open>Date\<close> and \<open>Intl\<close> (clock, UUIDs, \<open>parseDate\<close>). They may answer anything and throw; hypotheses on them
  are named in the statements.

  \<^bold>\<open>Contracts.\<close> A relation \<open>T\<close> on states that every call of a client's interface respects is respected by the client
  (\<open>guarantees\<close>). The locales state the interfaces: \<open>repository_contract\<close> and \<open>repository_client\<close> for the store,
  \<open>scheduler_calls\<close> to \<open>scheduler_run\<close> and \<open>closing_scheduler\<close> for the scheduler, \<open>ensure_calls\<close> and
  \<open>ensure_client\<close> for starting a run. Their interpretations are in \<open>RepositoryContract\<close>, \<open>StoreProps\<close> and
  \<open>NetworkStore\<close>, on \<open>mem_repository\<close> and on the command composed over it, for the history of the store, for the
  calls of \<open>close\<close> and for the lock. \<open>kintone_app\<close> and \<open>kintone_service\<close> (\<open>KintoneContract\<close>) state the documented behaviour of
  the two kintone apps; over them \<open>kintone_repository\<close> provides the same \<open>repository_contract\<close>, and \<open>KintoneSample\<close>
  interprets them on an executable service. For the poller (\<open>RequestSafety\<close>, \<open>PollerSafety\<close>, \<open>PollerCommands\<close>) \<open>logged_app\<close> states
  what the request app promises while anybody changes its records, with a log of the poller's own updates, \<open>logged_poller\<close> that
  children, clock and files do not touch that log, \<open>recorded_poller\<close> that every start of a child is recorded, and \<open>request_app\<close>
  the app in which everybody keeps to the relation \<open>later\<close> on states; \<open>RequestSample\<close> and \<open>PollerCommands\<close> interpret them on
  an executable app that other actors edit between the calls of the poller. \<open>later\<close> is wider than the documented life cycle:
  it lets DONE and REJECTED replace each other, because \<open>writeResult\<close> does.

  \<^bold>\<open>What is shown.\<close>
  \<^item> The store (\<open>RepositoryProps\<close>, \<open>StoreProps\<close>, this theory): every method keeps the store well-formed and its
    history append-only; so do all commands in any order.
  \<^item> The kintone repository (\<open>KintoneCodecProps\<close>, \<open>KintoneRefinement\<close>, \<open>KintoneProps\<close>): it keeps the history of the apps under
    every client, its updates refine the in-memory repository, records read back as written, inserts with lost answers are
    settled by the unique key, keys fit, listings are complete.
  \<^item> Reconciliation, orphan adjudication, node resolution, archiving, cancel requests: what each leaves behind on every
    branch, and that a refusal leaves the store alone.
  \<^item> The lock: in any interleaving of workers on the lock app at most one of them holds it (\<open>LockSafety\<close>, a step
    relation with its invariant by rule induction); a renewal is fenced by the lease token and the revision; the monitor
    gives a lease up in time and never takes it back; a lock is only broken on evidence.
  \<^item> The graph: the sort is complete, sound, and reports exactly the cycles; descendants are reachability.
  \<^item> An execution: a recorded success is backed by a valid result, and without the lease no result is written.
  \<^item> Network files: the validation accepts exactly the acyclic networks whose locks, keys, nodes and patterns are sound.
  \<^item> The poller (\<open>RequestProps\<close>, \<open>PollerProps\<close>, \<open>PollerResults\<close>): its own updates follow the documented life cycle under any
    interference, but for a result repeated after a refusal; a claim is exclusive; a request is DONE only on what its child printed, or,
    for a close, on a run that is archived already; the output of children is bounded; only claimed requests start commands,
    one each; a START is prepared from the file read in that call; and a malformed record stops every turn.
  \<^item> The scheduler: the drain of its control plane ends and repeats an operation only after the lease was confirmed before the
    deadline, the brake counts streaks of equal failures, a run is closed exactly once, and a command calls the release of every lock
    it acquired, unless it fails between the hand-over and the start of the scheduler.
  \<^item> Text: baselines are read back as written and compared by value; the period part of a business key identifies it.

  \<^bold>\<open>Bounds and fuel.\<close> The drain has one unit of fuel per millisecond of its budget (\<open>drain_terminates\<close> shows that this
  is enough when the clock runs); the JSON reader has one unit per character; Kahn's algorithm and the searches of the graph
  recur on measures that are proved to decrease; a paged listing recurs on the distance of \<open>$id\<close> from \<open>2 ^ 53\<close>. Revisions and attempt numbers are integers: the code compares and adds
  one, far below \<open>2 ^ 53\<close>; numbers read from kintone answers are \<open>js_number\<close>. The heartbeats of a claim are as many as the timer
  expires while its child runs, any finite number.

  \<^bold>\<open>Simplifications.\<close> Strings are lists of code units below 256, on which NFC is the identity; the texts of error
  messages are left out where nothing reads them; the Japanese texts and field codes of requests are their UTF-8 bytes; a child takes
  effect when it is started; \<open>Promise.all\<close> reads in list order; integer-like keys of a JSON object
  keep their place.

  \<^bold>\<open>Not modelled.\<close> Building and unpacking bundles, the YAML parser and the JSON schema validator (parameters of \<open>NetworkValidation\<close>), the child
  process with its timers, path resolution in the file system, the status report, the remaining
  commands (argument parsing around modelled operations) and the browser plugin.
\<close>

section \<open>Commands on one store\<close>

text \<open>
  One command run from its start to its end, by any operator or worker, whether it returns or
  throws. What it is given besides the store (lock, lease, job log, clock, UUIDs) does not write
  to the run applications.
\<close>

inductive command_step ::
  "(string \<Rightarrow> string) \<Rightarrow> (string \<Rightarrow> string \<Rightarrow> bool) \<Rightarrow> 'w session_scheme \<Rightarrow> 'w session_scheme \<Rightarrow> bool"
  for digest collate where
  createRun: "command_step digest collate s (snd (createRun (mem_repository digest collate) run s))"
| cancelRun: "command_step digest collate s
    (snd (changeCancelRequest (mem_repository digest collate) worldNow runId by reason release s))"
| resolveNode: "command_step digest collate s
    (snd (resolveNode (mem_repository digest collate) worldNow input s))"
| reconcile: "command_step digest collate s
    (snd (reconcileRun (mem_repository digest collate) worldNow worldUuid runId s))"
| adjudicate: "(\<And>i. outside_store (job_log i)) \<Longrightarrow> outside_store confirm \<Longrightarrow> command_step digest collate s
    (snd (adjudicateOrphanRunningAttempts (mem_repository digest collate) worldNow job_log confirm runId invocationId given s))"
| finalizeAbandoned: "outside_store confirm \<Longrightarrow> command_step digest collate s
    (snd (finalizeAbandonedInvocations (mem_repository digest collate) worldNow worldUuid confirm runId invocationId s))"
| archive: "deps_outside (d :: ('w session_scheme, string) archive_deps) \<Longrightarrow> command_step digest collate s
    (snd (archiveRun (mem_repository digest collate) d archiveInput s))"
| runNetwork: "command_step digest collate s (snd (runRunNetworkCommand (storeRuntime digest collate rt) args s))"

lemma deps_outside_keep: "deps_outside d \<Longrightarrow> deps_keep (mem_history digest) d"
  by (auto simp: deps_outside_def deps_keep_def outside_store_history)

lemma command_step_history: "command_step digest collate s t \<Longrightarrow> mem_history digest s t"
proof (induction rule: command_step.induct)
  case (createRun s run)
  then show ?case using store.writes(1) by (metis guarantees_def)
next
  case (cancelRun s runId by' reason release)
  then show ?case using client.changeCancelRequest_keeps by (metis guarantees_def)
next
  case (resolveNode s input)
  then show ?case using client.resolveNode_keeps by (metis guarantees_def)
next
  case (reconcile s runId)
  then show ?case using client.reconcileRun_keeps by (metis guarantees_def)
next
  case (adjudicate job_log confirm s runId invocationId given')
  then show ?case using client.adjudicate_keeps [OF outside_store_history outside_store_history, of job_log confirm]
    by (simp add: guarantees_def)
next
  case (finalizeAbandoned confirm s runId invocationId)
  then show ?case using client.finalizeAbandoned_keeps [OF outside_store_history, of confirm]
    by (simp add: guarantees_def)
next
  case (archive d s archiveInput)
  then show ?case using client.archiveRun_keeps [OF deps_outside_keep] by (metis guarantees_def)
next
  case (runNetwork s rt args)
  then show ?case using runRunNetworkCommand_keeps by (metis guarantees_def)
qed

text \<open>
  Whatever commands operators and workers run one after the other on one store, each returning
  or throwing at any point, the store stays well-formed and its history is kept: no record is
  lost, revisions never go down, finished attempts and finalized invocations stay as they are,
  archived runs stay archived, and resolutions and audits are append-only.
\<close>

lemma commands_keep_history:
  assumes "(command_step digest collate)\<^sup>*\<^sup>* s t" "mem_wf digest s"
  shows "mem_wf digest t \<and> mem_evolves s t"
proof -
  from assms(1) have "mem_history digest s t"
    by (induction rule: rtranclp_induct) (auto intro: mem_history_refl mem_history_trans dest: command_step_history)
  with assms(2) show ?thesis by (simp add: mem_history_def)
qed

end
